(* ===== verification/KmsPrelude.thy ===== *)
theory KmsPrelude
  imports Main "HOL-Library.Word" "HOL-Library.AList" "HOL-Library.Multiset"
begin

unbundle bit_operations_syntax

text \<open>
  Shared vocabulary of the development: the C integer types, the faults that stand for
  undefined behaviour of the C code, big-endian byte access, association lists standing for
  GLib hash tables (a list with distinct keys; its order is the iteration order, which GLib
  leaves unspecified), and the two contracts that several components share: a machine that
  keeps an invariant over every run, and a wire format whose decoder undoes its encoder.
\<close>

section \<open>C integers and faults\<close>

type_synonym u8 = "8 word"
type_synonym u16 = "16 word"
type_synonym u32 = "32 word"
type_synonym u64 = "64 word"

text \<open>
  Each constructor is a way in which the C program has no defined result. A definition that
  can run into one returns a sum: \<open>Inl fault\<close>, or \<open>Inr\<close> of the value.
\<close>

datatype c_fault =
    Shift_too_wide
  | Division_by_zero
  | Float_out_of_range
  | Out_of_bounds
  | Signed_overflow
  | Null_dereference
  | Uninitialised_read
  | Assertion_failed
  | Use_after_free

text \<open>What the probe of a pad answers (\<open>GstPadProbeReturn\<close>).\<close>

datatype probe_return = Probe_ok | Probe_drop | Probe_remove | Probe_handled

named_theorems bytes_simps "reading back what was written, byte by byte"

fun bind_result :: "'e + 'a \<Rightarrow> ('a \<Rightarrow> 'e + 'b) \<Rightarrow> 'e + 'b" where
  "bind_result (Inl e) f = Inl e"
| "bind_result (Inr x) f = f x"

lemma bind_result_Inr_iff:
  "bind_result m f = Inr y \<longleftrightarrow> (\<exists>x. m = Inr x \<and> f x = Inr y)"
  by (cases m) auto

lemma bind_result_Inl_iff:
  "bind_result m f = Inl e \<longleftrightarrow> m = Inl e \<or> (\<exists>x. m = Inr x \<and> f x = Inl e)"
  by (cases m) auto

lemma bind_result_assoc:
  "bind_result (bind_result m f) g = bind_result m (\<lambda>x. bind_result (f x) g)"
  by (cases m) auto

text \<open>
  A shift of an unsigned 32-bit value: undefined when the count is not below the width.
\<close>

definition shl32 :: "u32 \<Rightarrow> nat \<Rightarrow> c_fault + u32" where
  "shl32 x n = (if n < 32 then Inr (push_bit n x) else Inl Shift_too_wide)"

text \<open>Stores into a C array of fixed length.\<close>

definition array_store :: "'a list \<Rightarrow> nat \<Rightarrow> 'a \<Rightarrow> c_fault + 'a list" where
  "array_store xs i v = (if i < length xs then Inr (xs[i := v]) else Inl Out_of_bounds)"

lemma array_store_in: "i < length xs \<Longrightarrow> array_store xs i v = Inr (xs[i := v])"
  by (simp add: array_store_def)

lemma bits_above:
  assumes "unat (w :: 'a :: len word) < 2 ^ k" and "k \<le> n"
  shows "\<not> bit w n"
proof -
  have "take_bit k (unat w) = unat w"
    using assms(1) by (rule take_bit_nat_eq_self)
  then have "\<not> bit (unat w) n"
    using assms(2) by (metis bit_take_bit_iff not_less)
  then show ?thesis
    using bit_imp_le_length [of w n] by (auto simp: bit_unsigned_iff)
qed

lemma some_bool [simp]: "Ex Not"
  by (rule exI [of _ False]) simp

text \<open>Conversions between widths.\<close>

lemma unat_ucast_down:
  assumes "unat (x :: 'a :: len word) < 2 ^ LENGTH('b :: len)"
  shows "unat (ucast x :: 'b word) = unat x"
  using assms by (simp add: unsigned_ucast_eq unsigned_take_bit_eq take_bit_nat_eq_self)

lemma unat_ucast_32_64 [simp]: "unat (ucast (x :: u32) :: u64) = unat x"
proof -
  have "unat x < 2 ^ 32" using unsigned_less [of x] by simp
  then show ?thesis by (intro unat_ucast_down) simp
qed

lemma sint_small: "unat (w :: u32) < 2 ^ 31 \<Longrightarrow> sint w = int (unat w)"
proof -
  assume "unat w < 2 ^ 31"
  then have "uint w < 2 ^ 31" by (simp add: uint_nat del: of_nat_unat)
  then have "signed_take_bit 31 (uint w) = uint w"
    by (intro signed_take_bit_int_eq_self) (simp_all add: order_trans [of _ 0])
  then show ?thesis by (simp add: sint_uint)
qed

section \<open>Big-endian bytes\<close>

definition be16 :: "u16 \<Rightarrow> u8 list" where
  "be16 x = [ucast (drop_bit 8 x), ucast x]"

definition be32 :: "u32 \<Rightarrow> u8 list" where
  "be32 x = [ucast (drop_bit 24 x), ucast (drop_bit 16 x), ucast (drop_bit 8 x), ucast x]"

fun rd16 :: "u8 list \<Rightarrow> u16" where
  "rd16 (a # b # _) = push_bit 8 (ucast a) OR ucast b"
| "rd16 _ = 0"

fun rd32 :: "u8 list \<Rightarrow> u32" where
  "rd32 (a # b # c # d # _) =
     push_bit 24 (ucast a) OR push_bit 16 (ucast b) OR push_bit 8 (ucast c) OR ucast d"
| "rd32 _ = 0"

lemma length_be16 [simp]: "length (be16 x) = 2"
  by (simp add: be16_def)

lemma length_be32 [simp]: "length (be32 x) = 4"
  by (simp add: be32_def)

lemma rd16_be16 [bytes_simps]: "rd16 (be16 x @ ys) = x"
  by (rule bit_word_eqI)
    (auto simp: be16_def bit_simps)

lemma rd32_be32 [bytes_simps]: "rd32 (be32 x @ ys) = x"
proof (rule bit_word_eqI)
  fix n assume "n < LENGTH(32)"
  then have "n < 8 \<or> (8 \<le> n \<and> n < 16) \<or> (16 \<le> n \<and> n < 24) \<or> (24 \<le> n \<and> n < 32)"
    by auto
  then show "bit (rd32 (be32 x @ ys)) n = bit x n"
    by (elim disjE) (auto simp: be32_def bit_simps)
qed

lemma rd32_append [bytes_simps]: "4 \<le> length xs \<Longrightarrow> rd32 (xs @ ys) = rd32 xs"
  by (cases xs rule: rd32.cases) auto

section \<open>Hash tables as association lists\<close>

text \<open>
  \<open>AList.update\<close> is \<open>g_hash_table_insert\<close>, \<open>AList.delete\<close> is
  \<open>g_hash_table_remove\<close>, \<open>map_of\<close> is the lookup. The invariant of a table is that
  no key occurs twice; a foreach or an iterator runs over the list in its order.
\<close>

type_synonym ('k, 'v) hash_table = "('k \<times> 'v) list"

definition hash_ok :: "('k, 'v) hash_table \<Rightarrow> bool" where
  "hash_ok h \<longleftrightarrow> distinct (map fst h)"

lemma hash_ok_Nil [simp]: "hash_ok []"
  by (simp add: hash_ok_def)

lemma hash_ok_update [intro]: "hash_ok h \<Longrightarrow> hash_ok (AList.update k v h)"
  by (simp add: hash_ok_def distinct_update)

lemma hash_ok_delete [intro]: "hash_ok h \<Longrightarrow> hash_ok (AList.delete k h)"
  by (simp add: hash_ok_def distinct_delete)

lemma hash_ok_filter [intro]: "hash_ok h \<Longrightarrow> hash_ok (filter P h)"
  by (induction h) (auto simp: hash_ok_def)

lemma map_of_update_hash [simp]:
  "map_of (AList.update k v h) = (map_of h)(k \<mapsto> v)"
  by (rule update_conv')

lemma map_of_delete_hash [simp]:
  "map_of (AList.delete k h) = (map_of h)(k := None)"
  by (rule delete_conv')

lemma hash_in_iff: "hash_ok h \<Longrightarrow> (k, v) \<in> set h \<longleftrightarrow> map_of h k = Some v"
  by (simp add: hash_ok_def)

lemma hash_update_set:
  assumes "hash_ok h"
  shows "set (AList.update k v h) = insert (k, v) {p \<in> set h. fst p \<noteq> k}"
proof -
  have ok: "hash_ok (AList.update k v h)"
    using assms by auto
  show ?thesis
    by (auto simp: hash_in_iff [OF ok] hash_in_iff [OF assms] split: if_splits)
qed

text \<open>What every step of a loop keeps, the loop keeps.\<close>

lemma fold_keeps: "(\<And>x s. g (f x s) = g s) \<Longrightarrow> g (fold f xs s) = g s"
  by (induction xs arbitrary: s) simp_all

lemma find_Some_in: "find P xs = Some x \<Longrightarrow> x \<in> set xs \<and> P x"
  by (induction xs) (auto split: if_splits)

section \<open>Contracts shared by several components\<close>

text \<open>
  A component whose operations are calls on a state: \<open>step\<close> runs one call, \<open>allowed\<close>
  is what its caller has to guarantee for that call, \<open>inv\<close> the invariant every allowed
  call keeps. The client's conclusion is that the invariant holds after any allowed run.
\<close>

fun allowed_run :: "('s \<Rightarrow> 'e \<Rightarrow> 's) \<Rightarrow> ('s \<Rightarrow> 'e \<Rightarrow> bool) \<Rightarrow> 's \<Rightarrow> 'e list \<Rightarrow> bool" where
  "allowed_run step allowed s [] = True"
| "allowed_run step allowed s (e # es) =
     (allowed s e \<and> allowed_run step allowed (step s e) es)"

locale invariant_machine =
  fixes step :: "'s \<Rightarrow> 'e \<Rightarrow> 's"
    and allowed :: "'s \<Rightarrow> 'e \<Rightarrow> bool"
    and inv :: "'s \<Rightarrow> bool"
  assumes step_keeps: "inv s \<Longrightarrow> allowed s e \<Longrightarrow> inv (step s e)"
begin

lemma run_keeps: "inv s \<Longrightarrow> allowed_run step allowed s es \<Longrightarrow> inv (foldl step s es)"
  by (induction es arbitrary: s) (auto intro: step_keeps)

lemma prefix_keeps:
  "inv s \<Longrightarrow> allowed_run step allowed s (es @ es') \<Longrightarrow> inv (foldl step s es)"
proof (induction es arbitrary: s)
  case Nil
  then show ?case by simp
next
  case (Cons e es)
  then show ?case by (auto intro: step_keeps)
qed

end

lemma allowed_run_always: "(\<And>s e. allowed s e) \<Longrightarrow> allowed_run step allowed s es"
  by (induction es arbitrary: s) auto

text \<open>
  A component that also has a quantity no call may decrease (a counter of bytes, a clock):
  over a run it only grows.
\<close>

locale growing_machine = invariant_machine +
  fixes level :: "'s \<Rightarrow> nat"
  assumes step_grows: "inv s \<Longrightarrow> allowed s e \<Longrightarrow> level s \<le> level (step s e)"
begin

lemma run_grows: "inv s \<Longrightarrow> allowed_run step allowed s es \<Longrightarrow> level s \<le> level (foldl step s es)"
proof (induction es arbitrary: s)
  case Nil
  then show ?case by simp
next
  case (Cons e es)
  from Cons.prems have a: "allowed s e" and r: "allowed_run step allowed (step s e) es"
    by simp_all
  have "level s \<le> level (step s e)"
    using Cons.prems(1) a by (rule step_grows)
  also have "\<dots> \<le> level (foldl step (step s e) es)"
    using step_keeps [OF Cons.prems(1) a] r by (rule Cons.IH)
  finally show ?case by simp
qed

end

text \<open>
  A store addressed by keys, as a client sees it: inserting under a key that is not there
  adds exactly that entry, removing a key takes exactly that entry away. \<open>ok\<close> is the
  representation invariant. An \<open>overwriting_store\<close> also replaces the entry of a key
  that is there.
\<close>

locale keyed_store =
  fixes put :: "'k \<Rightarrow> 'v \<Rightarrow> 's \<Rightarrow> 's"
    and del :: "'k \<Rightarrow> 's \<Rightarrow> 's"
    and get :: "'s \<Rightarrow> 'k \<Rightarrow> 'v option"
    and ok :: "'s \<Rightarrow> bool"
  assumes ok_put: "ok s \<Longrightarrow> get s k = None \<Longrightarrow> ok (put k v s)"
    and ok_del: "ok s \<Longrightarrow> ok (del k s)"
    and get_put: "ok s \<Longrightarrow> get s k = None \<Longrightarrow> get (put k v s) = (get s)(k \<mapsto> v)"
    and get_del: "ok s \<Longrightarrow> get (del k s) = (get s)(k := None)"
begin

lemma put_del_get:
  "ok s \<Longrightarrow> get s k = None \<Longrightarrow> get (del k (put k v s)) = get s"
  by (simp add: get_del ok_put get_put fun_eq_iff)

lemma del_put_get: "ok s \<Longrightarrow> get (put k v (del k s)) = (get s)(k \<mapsto> v)"
  by (simp add: get_put ok_del get_del)

lemma put_keeps_others:
  "ok s \<Longrightarrow> get s k = None \<Longrightarrow> k' \<noteq> k \<Longrightarrow> get (put k v s) k' = get s k'"
  by (simp add: get_put)

end

locale overwriting_store = keyed_store +
  assumes ok_over: "ok s \<Longrightarrow> ok (put k v s)"
    and get_over: "ok s \<Longrightarrow> get (put k v s) = (get s)(k \<mapsto> v)"
begin

lemma ok_puts: "ok s \<Longrightarrow> ok (fold (\<lambda>k. put k v) ks s)"
  by (induction ks arbitrary: s) (auto intro: ok_over)

lemma get_puts:
  "ok s \<Longrightarrow> get (fold (\<lambda>k. put k v) ks s) =
     (\<lambda>k. if k \<in> set ks then Some v else get s k)"
proof (induction ks arbitrary: s)
  case Nil
  then show ?case by simp
next
  case (Cons k ks)
  from Cons.prems have "ok (put k v s)" by (rule ok_over)
  then show ?case
    using Cons.prems by (auto simp: Cons.IH get_over fun_eq_iff)
qed

end

interpretation ht: overwriting_store AList.update AList.delete map_of hash_ok
  by unfold_locales auto

text \<open>
  A wire format: every well-formed message decodes from its encoding. Then the encoding
  loses nothing, and a longer exchange decodes message by message.
\<close>

locale wire_codec =
  fixes wf :: "'m \<Rightarrow> bool"
    and enc :: "'m \<Rightarrow> 'b list"
    and dec :: "'b list \<Rightarrow> 'm option"
  assumes dec_enc: "wf m \<Longrightarrow> dec (enc m) = Some m"
begin

lemma enc_inj: "wf m \<Longrightarrow> wf m' \<Longrightarrow> enc m = enc m' \<Longrightarrow> m = m'"
proof -
  assume "wf m" "wf m'" "enc m = enc m'"
  then have "Some m = Some m'"
    by (metis dec_enc)
  then show "m = m'" by simp
qed

lemma enc_eq_iff: "wf m \<Longrightarrow> wf m' \<Longrightarrow> enc m = enc m' \<longleftrightarrow> m = m'"
  by (metis enc_inj)

lemma inj_on_enc: "inj_on enc {m. wf m}"
  by (rule inj_onI) (blast intro: enc_inj)

end

end
