(* ===== verification/KmsList.thy ===== *)
theory KmsList
  imports KmsPrelude
begin

text \<open>
  Reference counted structs (\<open>kmsrefstruct.c\<close>) and the keyed list built on them
  (\<open>kmslist.c\<close>). A \<open>KmsList\<close> is an ordered list of nodes; a lookup returns the first
  node whose key the list's equality accepts. The destroy callbacks are modelled by the
  log of what they were called on, so that leaks and double frees can be stated.
\<close>

section \<open>Reference counted structs\<close>

record ref_struct =
  rs_count :: u32
  rs_notif :: bool

definition kms_ref_struct_init :: "bool \<Rightarrow> ref_struct" where
  "kms_ref_struct_init notif = \<lparr>rs_count = 1, rs_notif = notif\<rparr>"

definition kms_ref_struct_ref :: "ref_struct \<Rightarrow> ref_struct" where
  "kms_ref_struct_ref r = r\<lparr>rs_count := rs_count r + 1\<rparr>"

text \<open>The second result says whether the destroy callback was called.\<close>

definition kms_ref_struct_unref :: "ref_struct \<Rightarrow> ref_struct \<times> bool" where
  "kms_ref_struct_unref r =
     (let r' = r\<lparr>rs_count := rs_count r - 1\<rparr>
      in if rs_count r' \<noteq> 0 then (r', False) else (r', rs_notif r'))"

datatype ref_op = Ref | Unref

text \<open>A run of owners: the struct and how many times the callback has been called.\<close>

fun ref_step :: "ref_struct \<times> nat \<Rightarrow> ref_op \<Rightarrow> ref_struct \<times> nat" where
  "ref_step (r, n) Ref = (kms_ref_struct_ref r, n)"
| "ref_step (r, n) Unref =
     (case kms_ref_struct_unref r of (r', called) \<Rightarrow> (r', if called then Suc n else n))"

text \<open>
  What the owners owe: a reference is only taken or dropped by someone who holds one, and
  there are fewer references than a \<open>gint\<close> counts.
\<close>

fun ref_allowed :: "ref_struct \<times> nat \<Rightarrow> ref_op \<Rightarrow> bool" where
  "ref_allowed (r, n) Ref = (0 < unat (rs_count r) \<and> unat (rs_count r) < 2 ^ 31 - 1)"
| "ref_allowed (r, n) Unref = (0 < unat (rs_count r))"

definition ref_inv :: "ref_struct \<times> nat \<Rightarrow> bool" where
  "ref_inv s \<longleftrightarrow> unat (rs_count (fst s)) < 2 ^ 31 \<and> rs_notif (fst s) \<and>
     snd s = (if rs_count (fst s) = 0 then 1 else 0)"

lemma ref_step_inv: "ref_inv s \<Longrightarrow> ref_allowed s e \<Longrightarrow> ref_inv (ref_step s e)"
proof (cases s)
  case (Pair r n)
  assume inv: "ref_inv s" and al: "ref_allowed s e"
  show ?thesis
  proof (cases e)
    case Ref
    have c: "unat (rs_count r + 1) = unat (rs_count r) + 1"
      using al Pair Ref by (simp add: unat_word_ariths)
    then have "rs_count r + 1 \<noteq> 0"
      by (metis Suc_eq_plus1 nat.distinct(1) unat_0)
    then show ?thesis
      using inv al Pair Ref c by (auto simp: ref_inv_def kms_ref_struct_ref_def split: if_splits)
  next
    case Unref
    have c: "unat (rs_count r - 1) = unat (rs_count r) - 1"
      using al Pair Unref by (simp add: unat_minus_one unat_gt_0)
    show ?thesis
      using inv al Pair Unref c
      by (auto simp: ref_inv_def kms_ref_struct_unref_def Let_def split: if_splits)
  qed
qed

interpretation rs: invariant_machine ref_step ref_allowed ref_inv
  by unfold_locales (rule ref_step_inv)

lemma ref_inv_init: "ref_inv (kms_ref_struct_init True, 0)"
  by (simp add: ref_inv_def kms_ref_struct_init_def)

text \<open>How many references a run leaves: each \<open>Ref\<close> adds one, each \<open>Unref\<close> drops one.\<close>

fun refs_left :: "nat \<Rightarrow> ref_op list \<Rightarrow> nat" where
  "refs_left k [] = k"
| "refs_left k (Ref # es) = refs_left (Suc k) es"
| "refs_left k (Unref # es) = refs_left (k - 1) es"

lemma ref_count_run:
  "allowed_run ref_step ref_allowed s es \<Longrightarrow>
   unat (rs_count (fst (foldl ref_step s es))) = refs_left (unat (rs_count (fst s))) es"
proof (induction es arbitrary: s)
  case Nil
  then show ?case by simp
next
  case (Cons e es)
  obtain r n where s: "s = (r, n)" by (cases s)
  show ?case
  proof (cases e)
    case Ref
    have "unat (rs_count r + 1) = Suc (unat (rs_count r))"
      using Cons.prems s Ref by (simp add: unat_word_ariths)
    then show ?thesis
      using Cons.prems s Ref Cons.IH [of "ref_step s e"]
      by (simp add: kms_ref_struct_ref_def)
  next
    case Unref
    have "unat (rs_count r - 1) = unat (rs_count r) - 1"
      using Cons.prems s Unref by (simp add: unat_minus_one unat_gt_0)
    then show ?thesis
      using Cons.prems s Unref Cons.IH [of "ref_step s e"]
      by (simp add: kms_ref_struct_unref_def Let_def split: if_splits)
  qed
qed

text \<open>
  Over every run in which each call is made by an owner, the destroy callback is called
  exactly once if the run drops the last reference, and not at all while one is held.
\<close>

theorem refstruct_destroyed_once:
  assumes run: "allowed_run ref_step ref_allowed (kms_ref_struct_init True, 0) es"
  shows "snd (foldl ref_step (kms_ref_struct_init True, 0) es) =
    (if refs_left 1 es = 0 then 1 else 0)"
proof -
  let ?s = "foldl ref_step (kms_ref_struct_init True, 0) es"
  have "ref_inv ?s"
    using ref_inv_init run by (rule rs.run_keeps)
  moreover have "unat (rs_count (fst ?s)) = refs_left 1 es"
    using ref_count_run [OF run] by (simp add: kms_ref_struct_init_def)
  moreover have "rs_count (fst ?s) = 0 \<longleftrightarrow> unat (rs_count (fst ?s)) = 0"
    by (simp add: unat_eq_0)
  ultimately show ?thesis
    by (simp add: ref_inv_def)
qed

theorem refstruct_destroyed_once_witness:
  "snd (foldl ref_step (kms_ref_struct_init True, 0) [Ref, Unref, Unref]) = 1"
  using refstruct_destroyed_once [of "[Ref, Unref, Unref]"]
  by (simp add: kms_ref_struct_init_def kms_ref_struct_ref_def kms_ref_struct_unref_def Let_def)

section \<open>The keyed list\<close>

text \<open>
  \<open>NULL\<close> as a value is \<open>None\<close>. The two destroy fields say whether a callback was
  given; what it is called on is returned as a list of \<open>freed\<close> items.
\<close>

datatype ('k, 'v) freed = Freed_key 'k | Freed_value 'v

record ('k, 'v) kms_list =
  kl_ref :: ref_struct
  kl_key_equal :: "('k \<Rightarrow> 'k \<Rightarrow> bool) option"
  kl_key_destroy :: bool
  kl_value_destroy :: bool
  kl_nodes :: "('k \<times> 'v option) list"

definition kms_list_node_free_data ::
    "('k, 'v) kms_list \<Rightarrow> 'k \<times> 'v option \<Rightarrow> ('k, 'v) freed list" where
  "kms_list_node_free_data l n =
     (if kl_key_destroy l then [Freed_key (fst n)] else []) @
     (case snd n of
        Some v \<Rightarrow> if kl_value_destroy l then [Freed_value v] else []
      | None \<Rightarrow> [])"

fun kms_list_destroy_nodes ::
    "('k, 'v) kms_list \<Rightarrow> ('k \<times> 'v option) list \<Rightarrow> ('k, 'v) freed list" where
  "kms_list_destroy_nodes l [] = []"
| "kms_list_destroy_nodes l (n # ns) =
     kms_list_node_free_data l n @ kms_list_destroy_nodes l ns"

definition kms_list_destroy :: "('k, 'v) kms_list \<Rightarrow> ('k, 'v) freed list" where
  "kms_list_destroy l = kms_list_destroy_nodes l (kl_nodes l)"

definition kms_list_new_full ::
    "('k \<Rightarrow> 'k \<Rightarrow> bool) option \<Rightarrow> bool \<Rightarrow> bool \<Rightarrow> ('k, 'v) kms_list" where
  "kms_list_new_full eq kd vd =
     \<lparr>kl_ref = kms_ref_struct_init True, kl_key_equal = eq,
      kl_key_destroy = kd, kl_value_destroy = vd, kl_nodes = []\<rparr>"

definition kms_list_length :: "('k, 'v) kms_list \<Rightarrow> nat" where
  "kms_list_length l = length (kl_nodes l)"

definition kms_list_append ::
    "('k, 'v) kms_list \<Rightarrow> 'k \<Rightarrow> 'v option \<Rightarrow> ('k, 'v) kms_list" where
  "kms_list_append l k v = l\<lparr>kl_nodes := kl_nodes l @ [(k, v)]\<rparr>"

definition kms_list_prepend ::
    "('k, 'v) kms_list \<Rightarrow> 'k \<Rightarrow> 'v option \<Rightarrow> ('k, 'v) kms_list" where
  "kms_list_prepend l k v = l\<lparr>kl_nodes := (k, v) # kl_nodes l\<rparr>"

text \<open>The loop of \<open>kms_list_remove\<close>: unlink the first node that matches, and stop.\<close>

fun remove_node ::
    "('k \<Rightarrow> 'k \<Rightarrow> bool) \<Rightarrow> 'k \<Rightarrow> ('k \<times> 'v option) list \<Rightarrow>
     ('k \<times> 'v option) list \<times> ('k \<times> 'v option) option" where
  "remove_node eq key [] = ([], None)"
| "remove_node eq key (n # ns) =
     (if eq (fst n) key then (ns, Some n)
      else case remove_node eq key ns of (ns', r) \<Rightarrow> (n # ns', r))"

definition kms_list_remove ::
    "('k, 'v) kms_list \<Rightarrow> 'k \<Rightarrow> ('k, 'v) kms_list \<times> ('k, 'v) freed list" where
  "kms_list_remove l key =
     (case kl_key_equal l of
        None \<Rightarrow> (l, [])
      | Some eq \<Rightarrow>
          (case remove_node eq key (kl_nodes l) of
             (ns, None) \<Rightarrow> (l, [])
           | (ns, Some n) \<Rightarrow> (l\<lparr>kl_nodes := ns\<rparr>, kms_list_node_free_data l n)))"

text \<open>An iterator is what is left of the list; \<open>kms_list_iter_next\<close> is \<open>None\<close> at the end.\<close>

definition kms_list_iter_init :: "('k, 'v) kms_list \<Rightarrow> ('k \<times> 'v option) list" where
  "kms_list_iter_init l = kl_nodes l"

fun kms_list_iter_next ::
    "('k \<times> 'v option) list \<Rightarrow> (('k \<times> 'v option) \<times> ('k \<times> 'v option) list) option" where
  "kms_list_iter_next [] = None"
| "kms_list_iter_next (n # rest) = Some (n, rest)"

definition kms_list_foreach ::
    "('k, 'v) kms_list \<Rightarrow> ('k \<Rightarrow> 'v option \<Rightarrow> 'u \<Rightarrow> 'u) option \<Rightarrow> 'u \<Rightarrow> 'u" where
  "kms_list_foreach l func u =
     fold (\<lambda>n u. case func of Some f \<Rightarrow> f (fst n) (snd n) u | None \<Rightarrow> u) (kl_nodes l) u"

fun find_node ::
    "('k \<Rightarrow> 'k \<Rightarrow> bool) \<Rightarrow> 'k \<Rightarrow> ('k \<times> 'v option) list \<Rightarrow> ('k \<times> 'v option) option" where
  "find_node eq key [] = None"
| "find_node eq key (n # ns) = (if eq (fst n) key then Some n else find_node eq key ns)"

definition kms_list_get_node ::
    "('k, 'v) kms_list \<Rightarrow> 'k \<Rightarrow> ('k \<times> 'v option) option" where
  "kms_list_get_node l key =
     (case kl_key_equal l of None \<Rightarrow> None | Some eq \<Rightarrow> find_node eq key (kl_nodes l))"

definition kms_list_contains :: "('k, 'v) kms_list \<Rightarrow> 'k \<Rightarrow> bool" where
  "kms_list_contains l key \<longleftrightarrow> kms_list_get_node l key \<noteq> None"

definition kms_list_lookup :: "('k, 'v) kms_list \<Rightarrow> 'k \<Rightarrow> 'v option" where
  "kms_list_lookup l key =
     (case kms_list_get_node l key of None \<Rightarrow> None | Some n \<Rightarrow> snd n)"

definition kms_list_ref :: "('k, 'v) kms_list \<Rightarrow> ('k, 'v) kms_list" where
  "kms_list_ref l = l\<lparr>kl_ref := kms_ref_struct_ref (kl_ref l)\<rparr>"

text \<open>The last reference runs \<open>kms_list_destroy\<close>; the result then says what was freed.\<close>

definition kms_list_unref ::
    "('k, 'v) kms_list \<Rightarrow> ('k, 'v) kms_list \<times> ('k, 'v) freed list" where
  "kms_list_unref l =
     (case kms_ref_struct_unref (kl_ref l) of
        (r, called) \<Rightarrow>
          if called then (l\<lparr>kl_ref := r, kl_nodes := []\<rparr>, kms_list_destroy l)
          else (l\<lparr>kl_ref := r\<rparr>, []))"

subsection \<open>What a lookup returns\<close>

lemma find_node_append:
  "find_node eq key (xs @ ys) =
     (case find_node eq key xs of Some n \<Rightarrow> Some n | None \<Rightarrow> find_node eq key ys)"
  by (induction xs) auto

lemma find_node_eq_map_of:
  "find_node (=) key ns = map_option (Pair key) (map_of ns key)"
  by (induction ns) auto

lemma remove_node_find: "snd (remove_node eq key ns) = find_node eq key ns"
  by (induction ns) (auto split: prod.splits)

lemma remove_node_None: "snd (remove_node eq key ns) = None \<Longrightarrow> fst (remove_node eq key ns) = ns"
  by (induction ns) (auto split: prod.splits if_splits)

lemma delete_absent: "key \<notin> fst ` set ns \<Longrightarrow> AList.delete key ns = ns"
  by (induction ns) (auto simp: AList.delete_eq)

lemma remove_node_eq_delete:
  "distinct (map fst ns) \<Longrightarrow> fst (remove_node (=) key ns) = AList.delete key ns"
proof (induction ns)
  case Nil
  then show ?case by simp
next
  case (Cons n ns)
  show ?case
  proof (cases "fst n = key")
    case True
    then have "AList.delete key (n # ns) = AList.delete key ns"
      by (cases n) (simp add: AList.delete_eq)
    moreover have "AList.delete key ns = ns"
      using Cons.prems True by (auto intro: delete_absent)
    ultimately show ?thesis using True by simp
  next
    case False
    then show ?thesis
      using Cons by (cases n) (auto simp: AList.delete_eq split: prod.splits)
  qed
qed

lemma mset_remove_node:
  "mset ns = mset (fst (remove_node eq key ns)) +
     (case snd (remove_node eq key ns) of None \<Rightarrow> {#} | Some n \<Rightarrow> {#n#})"
  by (induction ns) (auto split: prod.splits option.splits)

lemma kms_list_remove_nodes:
  assumes "kl_key_equal l = Some eq"
  shows "kl_nodes (fst (kms_list_remove l key)) = fst (remove_node eq key (kl_nodes l))"
  using assms remove_node_None [of eq key "kl_nodes l"]
  by (cases "remove_node eq key (kl_nodes l)") (auto simp: kms_list_remove_def split: option.splits)

lemma kms_list_remove_key_equal [simp]:
  "kl_key_equal (fst (kms_list_remove l key)) = kl_key_equal l"
  by (auto simp: kms_list_remove_def split: option.splits prod.splits)

text \<open>
  The contract of a keyed store, for lists compared by equality with one node per key and no
  \<open>NULL\<close> value: \<open>kms_list_append\<close> and \<open>kms_list_prepend\<close> both provide it.
\<close>

definition kms_list_ok :: "('k, 'v) kms_list \<Rightarrow> bool" where
  "kms_list_ok l \<longleftrightarrow> kl_key_equal l = Some (=) \<and> distinct (map fst (kl_nodes l)) \<and>
     (\<forall>n \<in> set (kl_nodes l). snd n \<noteq> None)"

lemma kms_list_lookup_map_of:
  assumes "kl_key_equal l = Some (=)"
  shows "kms_list_lookup l k = Option.bind (map_of (kl_nodes l) k) id"
  using assms
  by (auto simp: kms_list_lookup_def kms_list_get_node_def find_node_eq_map_of
      split: option.splits)

lemma kms_list_lookup_None:
  assumes "kms_list_ok l"
  shows "kms_list_lookup l k = None \<longleftrightarrow> map_of (kl_nodes l) k = None"
proof -
  have "map_of (kl_nodes l) k \<noteq> Some None"
    using assms by (force simp: kms_list_ok_def dest: map_of_SomeD)
  then show ?thesis
    using assms by (cases "map_of (kl_nodes l) k")
      (auto simp: kms_list_lookup_map_of kms_list_ok_def)
qed

lemma kms_list_ok_remove_nodes:
  "kms_list_ok l \<Longrightarrow> kl_nodes (fst (kms_list_remove l k)) = AList.delete k (kl_nodes l)"
  by (simp add: kms_list_ok_def kms_list_remove_nodes [of l "(=)"] remove_node_eq_delete)

lemma kms_list_ok_remove:
  assumes "kms_list_ok l"
  shows "kms_list_ok (fst (kms_list_remove l k))"
proof -
  have "distinct (map fst (AList.delete k (kl_nodes l)))"
    using assms by (simp add: kms_list_ok_def distinct_delete)
  then show ?thesis
    using assms kms_list_ok_remove_nodes [OF assms, of k]
    by (auto simp: kms_list_ok_def AList.delete_eq)
qed

lemma kms_list_lookup_remove:
  assumes "kms_list_ok l"
  shows "kms_list_lookup (fst (kms_list_remove l k)) = (kms_list_lookup l)(k := None)"
proof -
  have "kl_key_equal l = Some (=)"
    using assms by (simp add: kms_list_ok_def)
  then show ?thesis
    using kms_list_ok_remove_nodes [OF assms, of k]
    by (auto simp: fun_eq_iff kms_list_lookup_map_of)
qed

lemma kms_list_ok_fresh:
  "kms_list_ok l \<Longrightarrow> kms_list_lookup l k = None \<Longrightarrow> k \<notin> fst ` set (kl_nodes l)"
  by (simp add: kms_list_lookup_None map_of_eq_None_iff)

lemma kms_list_ok_append:
  assumes "kms_list_ok l" and "kms_list_lookup l k = None"
  shows "kms_list_ok (kms_list_append l k (Some v))"
  using assms kms_list_ok_fresh [OF assms] by (auto simp: kms_list_ok_def kms_list_append_def)

lemma kms_list_ok_prepend:
  assumes "kms_list_ok l" and "kms_list_lookup l k = None"
  shows "kms_list_ok (kms_list_prepend l k (Some v))"
  using assms kms_list_ok_fresh [OF assms] by (auto simp: kms_list_ok_def kms_list_prepend_def)

lemma kms_list_lookup_append:
  assumes "kms_list_ok l" and "kms_list_lookup l k = None"
  shows "kms_list_lookup (kms_list_append l k (Some v)) = (kms_list_lookup l)(k \<mapsto> v)"
proof -
  have "map_of (kl_nodes l) k = None"
    using assms by (simp add: kms_list_lookup_None)
  then show ?thesis
    using assms by (auto simp: fun_eq_iff kms_list_lookup_map_of kms_list_ok_def
        kms_list_append_def map_add_def split: option.splits)
qed

lemma kms_list_lookup_prepend:
  assumes "kl_key_equal l = Some (=)"
  shows "kms_list_lookup (kms_list_prepend l k (Some v)) = (kms_list_lookup l)(k \<mapsto> v)"
  using assms by (auto simp: fun_eq_iff kms_list_lookup_map_of kms_list_prepend_def)

interpretation kl_app: keyed_store "\<lambda>k v l. kms_list_append l k (Some v)"
    "\<lambda>k l. fst (kms_list_remove l k)" kms_list_lookup kms_list_ok
  by unfold_locales
    (simp_all add: kms_list_ok_append kms_list_ok_remove kms_list_lookup_append kms_list_lookup_remove)

interpretation kl_pre: keyed_store "\<lambda>k v l. kms_list_prepend l k (Some v)"
    "\<lambda>k l. fst (kms_list_remove l k)" kms_list_lookup kms_list_ok
proof unfold_locales
  fix l :: "('k, 'v) kms_list" and k v
  assume "kms_list_ok l"
  then show "kms_list_lookup (kms_list_prepend l k (Some v)) = (kms_list_lookup l)(k \<mapsto> v)"
    by (intro kms_list_lookup_prepend) (simp add: kms_list_ok_def)
qed (simp_all add: kms_list_ok_prepend kms_list_ok_remove kms_list_lookup_remove)

lemma kms_list_append_remove:
  "kms_list_ok l \<Longrightarrow> kms_list_lookup l k = None \<Longrightarrow>
   kms_list_lookup (fst (kms_list_remove (kms_list_append l k (Some v)) k)) = kms_list_lookup l"
  by (rule kl_app.put_del_get)

subsection \<open>Every node is freed once\<close>

datatype ('k, 'v) list_op = Append 'k "'v option" | Prepend 'k "'v option" | Remove 'k

fun list_step ::
    "('k, 'v) kms_list \<times> ('k, 'v) freed list \<Rightarrow> ('k, 'v) list_op \<Rightarrow>
     ('k, 'v) kms_list \<times> ('k, 'v) freed list" where
  "list_step (l, fr) (Append k v) = (kms_list_append l k v, fr)"
| "list_step (l, fr) (Prepend k v) = (kms_list_prepend l k v, fr)"
| "list_step (l, fr) (Remove k) = (case kms_list_remove l k of (l', fr') \<Rightarrow> (l', fr @ fr'))"

fun inserted :: "('k, 'v) list_op list \<Rightarrow> ('k \<times> 'v option) list" where
  "inserted [] = []"
| "inserted (Append k v # es) = (k, v) # inserted es"
| "inserted (Prepend k v # es) = (k, v) # inserted es"
| "inserted (Remove k # es) = inserted es"

lemma destroy_nodes_mset:
  "mset ns = mset ms \<Longrightarrow>
   mset (kms_list_destroy_nodes l ns) = mset (kms_list_destroy_nodes l ms)"
proof -
  have "mset (kms_list_destroy_nodes l xs) =
      \<Sum>\<^sub># (image_mset (\<lambda>n. mset (kms_list_node_free_data l n)) (mset xs))" for xs
    by (induction xs) auto
  then show "mset ns = mset ms \<Longrightarrow> ?thesis" by simp
qed

lemma destroy_nodes_append [simp]:
  "kms_list_destroy_nodes l (xs @ ys) = kms_list_destroy_nodes l xs @ kms_list_destroy_nodes l ys"
  by (induction xs) auto

text \<open>Which callbacks a list has never changes.\<close>

definition same_callbacks :: "('k, 'v) kms_list \<Rightarrow> ('k, 'v) kms_list \<Rightarrow> bool" where
  "same_callbacks l l' \<longleftrightarrow>
     kl_key_destroy l = kl_key_destroy l' \<and> kl_value_destroy l = kl_value_destroy l'"

lemma same_callbacks_destroy:
  "same_callbacks l l' \<Longrightarrow> kms_list_destroy_nodes l ns = kms_list_destroy_nodes l' ns"
  by (induction ns)
    (auto simp: same_callbacks_def kms_list_node_free_data_def split: option.splits)

lemma same_callbacks_step: "same_callbacks (fst (list_step (l, fr) e)) l"
  by (cases e)
    (auto simp: same_callbacks_def kms_list_append_def kms_list_prepend_def kms_list_remove_def
      split: option.splits prod.splits)

lemma list_step_conserves:
  "mset (snd (list_step (l, fr) e)) + mset (kms_list_destroy (fst (list_step (l, fr) e))) =
   mset fr + mset (kms_list_destroy l) + mset (kms_list_destroy_nodes l (inserted [e]))"
proof (cases e)
  case (Append k v)
  then show ?thesis
    using same_callbacks_destroy [OF same_callbacks_step [of l fr e]]
    by (simp add: kms_list_destroy_def) (simp add: kms_list_append_def)
next
  case (Prepend k v)
  then show ?thesis
    using same_callbacks_destroy [OF same_callbacks_step [of l fr e]]
    by (simp add: kms_list_destroy_def) (simp add: kms_list_prepend_def)
next
  case (Remove k)
  let ?l' = "fst (kms_list_remove l k)"
  have same: "kms_list_destroy_nodes ?l' ns = kms_list_destroy_nodes l ns" for ns
    using same_callbacks_step [of l fr e] Remove
    by (intro same_callbacks_destroy) (simp split: prod.splits)
  have "mset (snd (kms_list_remove l k)) + mset (kms_list_destroy_nodes l (kl_nodes ?l')) =
      mset (kms_list_destroy_nodes l (kl_nodes l))"
  proof (cases "kl_key_equal l")
    case None
    then show ?thesis by (simp add: kms_list_remove_def)
  next
    case (Some eq)
    obtain ns r where rn: "remove_node eq k (kl_nodes l) = (ns, r)"
      by (cases "remove_node eq k (kl_nodes l)")
    show ?thesis
    proof (cases r)
      case None
      then show ?thesis using Some rn by (simp add: kms_list_remove_def)
    next
      case (Some n)
      have "mset (kl_nodes l) = mset (n # ns)"
        using mset_remove_node [of "kl_nodes l" eq k] rn Some by simp
      from destroy_nodes_mset [OF this, of l] show ?thesis
        using \<open>kl_key_equal l = Some eq\<close> rn Some by (simp add: kms_list_remove_def)
    qed
  qed
  then show ?thesis
    using Remove same by (cases "kms_list_remove l k") (simp add: kms_list_destroy_def)
qed

lemma list_run_conserves:
  "mset (snd (foldl list_step (l, fr) es)) +
   mset (kms_list_destroy (fst (foldl list_step (l, fr) es))) =
   mset fr + mset (kms_list_destroy l) + mset (kms_list_destroy_nodes l (inserted es))"
proof (induction es arbitrary: l fr)
  case Nil
  then show ?case by simp
next
  case (Cons e es)
  obtain l' fr' where st: "list_step (l, fr) e = (l', fr')"
    by (cases "list_step (l, fr) e")
  have "kms_list_destroy_nodes l' ns = kms_list_destroy_nodes l ns" for ns
    using same_callbacks_step [of l fr e] st by (intro same_callbacks_destroy) simp
  moreover have "inserted (e # es) = inserted [e] @ inserted es"
    by (cases e) auto
  ultimately show ?case
    using Cons.IH [of l' fr'] list_step_conserves [of l fr e] st by (simp add: ac_simps)
qed

text \<open>
  Whatever is appended, prepended and removed, in any order: what the removals freed
  together with what destroying the list at the end frees is exactly the keys and values that
  were put in (each of them once), so no node leaks and none is freed twice.
\<close>

theorem kms_list_frees_each_once:
  "mset (snd (foldl list_step (kms_list_new_full eq kd vd, []) es)) +
   mset (snd (kms_list_unref (fst (foldl list_step (kms_list_new_full eq kd vd, []) es)))) =
   mset (kms_list_destroy_nodes (kms_list_new_full eq kd vd) (inserted es))"
proof -
  have "kl_ref (fst (list_step (l, fr) e)) = kl_ref l"
    for l :: "('a, 'b) kms_list" and fr :: "('a, 'b) freed list" and e :: "('a, 'b) list_op"
    by (cases e) (auto simp: kms_list_append_def kms_list_prepend_def kms_list_remove_def
        split: option.splits prod.splits)
  then have "kl_ref (fst (foldl list_step (l, fr) es)) = kl_ref l"
    for l :: "('a, 'b) kms_list" and fr :: "('a, 'b) freed list"
    by (induction es arbitrary: l fr) (auto, metis prod.collapse fst_conv)
  then have "snd (kms_list_unref (fst (foldl list_step (kms_list_new_full eq kd vd, []) es))) =
      kms_list_destroy (fst (foldl list_step (kms_list_new_full eq kd vd, []) es))"
    by (simp add: kms_list_unref_def kms_ref_struct_unref_def kms_list_new_full_def
        kms_ref_struct_init_def split: prod.splits)
  then show ?thesis
    using list_run_conserves [of "kms_list_new_full eq kd vd" "[]" es]
    by (simp add: kms_list_destroy_def kms_list_new_full_def)
qed

end
