(* ===== verification/RembPacket.thy ===== *)
theory RembPacket
  imports KmsPrelude
begin

unbundle bit_operations_syntax

text \<open>
  The REMB message of RTCP feedback packets (\<open>kmsrtcp.c\<close>): recognising it, reading it from
  the feedback control information (FCI) bytes, and writing it. Reading fills a struct of the
  caller, so a read that fails half way leaves part of the new contents in it: the parser takes
  the caller's struct and returns it with the verdict. Buffers are GStreamer's: mapping one is
  the parameter \<open>gst_map\<close>, growing the FCI of an RTCP packet the parameter \<open>grow\<close>.
\<close>

section \<open>Recognising a packet\<close>

datatype afb_type = AFB_TYPE_INVALID | AFB_TYPE_REMB

record afb_buffer =
  ab_buffer :: bool
  ab_map_read :: bool
  ab_map_write :: bool
  ab_map_data :: "u8 list"

definition kms_rtcp_psfb_afb_buffer_map ::
    "('b \<Rightarrow> u8 list option) \<Rightarrow> 'b \<Rightarrow> bool \<Rightarrow> bool \<Rightarrow> afb_buffer \<Rightarrow> afb_buffer \<times> bool" where
  "kms_rtcp_psfb_afb_buffer_map gst_map buffer rd wr ab =
     (if ab_buffer ab then (ab, False)
      else if \<not> rd then (ab, False)
      else case gst_map buffer of
          None \<Rightarrow> (ab\<lparr>ab_buffer := True\<rparr>, False)
        | Some bs \<Rightarrow>
            (ab\<lparr>ab_buffer := True, ab_map_read := rd, ab_map_write := wr, ab_map_data := bs\<rparr>, True))"

definition kms_rtcp_psfb_afb_buffer_unmap :: "afb_buffer \<Rightarrow> afb_buffer \<times> bool" where
  "kms_rtcp_psfb_afb_buffer_unmap ab =
     (if \<not> ab_buffer ab then (ab, False) else (ab\<lparr>ab_buffer := False\<rparr>, True))"

text \<open>The bytes of \<open>"REMB"\<close>.\<close>

definition remb_id :: "u8 list" where
  "remb_id = [0x52, 0x45, 0x4D, 0x42]"

definition is_remb :: "u8 list \<Rightarrow> bool" where
  "is_remb fci = (if length fci < 4 then False else take 4 fci = remb_id)"

definition kms_rtcp_psfb_afb_get_packet :: "afb_buffer \<Rightarrow> afb_type \<times> bool" where
  "kms_rtcp_psfb_afb_get_packet ab =
     (if \<not> ab_buffer ab then (AFB_TYPE_INVALID, False)
      else if \<not> ab_map_read ab then (AFB_TYPE_INVALID, False)
      else if is_remb (ab_map_data ab) then (AFB_TYPE_REMB, True)
      else (AFB_TYPE_INVALID, False))"

section \<open>Reading a REMB packet\<close>

record remb_packet =
  rp_bitrate :: u32
  rp_n_ssrcs :: u8
  rp_ssrcs :: "u32 list"

definition REMB_MAX_SSRCS_COUNT :: nat where
  "REMB_MAX_SSRCS_COUNT = 255"

text \<open>The loop that reads the SSRCs: \<open>k\<close> are left, the next goes to index \<open>i\<close>.\<close>

fun read_ssrcs :: "nat \<Rightarrow> nat \<Rightarrow> u8 list \<Rightarrow> u32 list \<Rightarrow> c_fault + u32 list" where
  "read_ssrcs 0 i fci xs = Inr xs"
| "read_ssrcs (Suc k) i fci xs =
     bind_result (array_store xs i (rd32 fci)) (read_ssrcs k (Suc i) (drop 4 fci))"

definition read_remb ::
    "u8 list \<Rightarrow> remb_packet \<Rightarrow> c_fault + remb_packet \<times> bool" where
  "read_remb bs p =
     (if \<not> is_remb bs then Inr (p, False)
      else let fci = drop 4 bs in
        if length fci < 4 then Inr (p, False)
        else let
          p1 = p\<lparr>rp_n_ssrcs := fci ! 0\<rparr>;
          br_exp = drop_bit 2 (fci ! 1) AND 0x3F;
          br_mantissa = push_bit 16 (ucast (fci ! 1 AND 3)) + push_bit 8 (ucast (fci ! 2))
            + ucast (fci ! 3) :: u32
        in bind_result (shl32 br_mantissa (unat br_exp)) (\<lambda>br.
          let p2 = p1\<lparr>rp_bitrate := br\<rparr>; rest = drop 4 fci in
          if length rest < 4 * unat (rp_n_ssrcs p2) then Inr (p2, False)
          else bind_result (read_ssrcs (unat (rp_n_ssrcs p2)) 0 rest (rp_ssrcs p2))
            (\<lambda>xs. Inr (p2\<lparr>rp_ssrcs := xs\<rparr>, True))))"

text \<open>The guards of the entry point, before the bytes are looked at.\<close>

definition kms_rtcp_psfb_afb_remb_get_packet ::
    "afb_buffer \<Rightarrow> afb_type \<Rightarrow> remb_packet \<Rightarrow> c_fault + remb_packet \<times> bool" where
  "kms_rtcp_psfb_afb_remb_get_packet ab type p =
     (if type \<noteq> AFB_TYPE_REMB then Inr (p, False)
      else if \<not> ab_buffer ab then Inr (p, False)
      else if \<not> ab_map_read ab then Inr (p, False)
      else read_remb (ab_map_data ab) p)"

section \<open>Writing a REMB packet\<close>

text \<open>
  The loop over \<open>i < 64\<close> with \<open>k\<close> rounds left; the exponent stays 0 when no round breaks out.
\<close>

fun find_exponent :: "u32 \<Rightarrow> u32 \<Rightarrow> nat \<Rightarrow> nat \<Rightarrow> c_fault + nat" where
  "find_exponent input mantissa_max 0 i = Inr 0"
| "find_exponent input mantissa_max (Suc k) i =
     bind_result (shl32 mantissa_max i)
       (\<lambda>m. if input \<le> m then Inr i else find_exponent input mantissa_max k (Suc i))"

text \<open>\<open>None\<close> is the return value \<open>FALSE\<close>; \<open>1 << bits\<close> is a shift of a signed \<open>int\<close>.\<close>

definition compute_mantissa_and_6_bit_base_2_expoonent ::
    "u32 \<Rightarrow> nat \<Rightarrow> c_fault + (u32 \<times> u8) option" where
  "compute_mantissa_and_6_bit_base_2_expoonent input bits_mantissa =
     (if 32 < bits_mantissa then Inr None
      else if 31 \<le> bits_mantissa then Inl Shift_too_wide
      else bind_result (find_exponent input (push_bit bits_mantissa 1 - 1) 64 0)
        (\<lambda>e. Inr (Some (drop_bit e input, of_nat e))))"

text \<open>The header fields and the FCI bytes of a \<open>GstRTCPPacket\<close> of feedback type.\<close>

record fb_packet =
  fb_type :: nat
  fb_sender_ssrc :: u32
  fb_media_ssrc :: u32
  fb_fci :: "u8 list"

text \<open>A feedback packet as it is right after it was added to a buffer.\<close>

definition blank_fb :: fb_packet where
  "blank_fb = \<lparr>fb_type = 0, fb_sender_ssrc = 0, fb_media_ssrc = 0, fb_fci = []\<rparr>"

definition RTCP_PSFB_TYPE_AFB :: nat where
  "RTCP_PSFB_TYPE_AFB = 15"

definition fb_fci_length :: "fb_packet \<Rightarrow> u16" where
  "fb_fci_length p = of_nat (length (fb_fci p) div 4)"

text \<open>
  \<open>grow n p\<close> is \<open>gst_rtcp_packet_fb_set_fci_length\<close>: \<open>None\<close> when the buffer has no room,
  else the packet with an FCI of \<open>n\<close> words and its header as it was.
\<close>

type_synonym fci_grow = "u16 \<Rightarrow> fb_packet \<Rightarrow> fb_packet option"

definition grow_law :: "fci_grow \<Rightarrow> bool" where
  "grow_law grow \<longleftrightarrow> (\<forall>n p p'. grow n p = Some p' \<longrightarrow>
     length (fb_fci p') = 4 * unat n \<and> fb_type p' = fb_type p \<and>
     fb_sender_ssrc p' = fb_sender_ssrc p \<and> fb_media_ssrc p' = fb_media_ssrc p)"

text \<open>Copying bytes to an offset of the FCI.\<close>

definition store_bytes :: "u8 list \<Rightarrow> nat \<Rightarrow> u8 list \<Rightarrow> c_fault + u8 list" where
  "store_bytes xs off bs =
     (if off + length bs \<le> length xs
      then Inr (take off xs @ bs @ drop (off + length bs) xs) else Inl Out_of_bounds)"

fun write_ssrcs :: "nat \<Rightarrow> nat \<Rightarrow> u32 list \<Rightarrow> nat \<Rightarrow> u8 list \<Rightarrow> c_fault + u8 list" where
  "write_ssrcs 0 i ssrcs off xs = Inr xs"
| "write_ssrcs (Suc k) i ssrcs off xs =
     (if i < length ssrcs
      then bind_result (store_bytes xs off (be32 (ssrcs ! i)))
        (write_ssrcs k (Suc i) ssrcs (off + 4))
      else Inl Out_of_bounds)"

definition remb_header :: "u8 \<Rightarrow> u32 \<Rightarrow> u8 \<Rightarrow> u8 list" where
  "remb_header n mantissa exp =
     remb_id @ [n, push_bit 2 exp + (ucast (drop_bit 16 mantissa) AND 3),
                ucast (drop_bit 8 mantissa), ucast mantissa]"

definition kms_rtcp_psfb_afb_remb_marshall_packet ::
    "fci_grow \<Rightarrow> fb_packet \<Rightarrow> remb_packet \<Rightarrow> u32 \<Rightarrow> c_fault + fb_packet \<times> bool" where
  "kms_rtcp_psfb_afb_remb_marshall_packet grow p r sender_ssrc =
     bind_result (compute_mantissa_and_6_bit_base_2_expoonent (rp_bitrate r) 18) (\<lambda>res.
       case res of
         None \<Rightarrow> Inr (p, False)
       | Some (mantissa, exp) \<Rightarrow>
           let p1 = p\<lparr>fb_type := RTCP_PSFB_TYPE_AFB, fb_sender_ssrc := sender_ssrc,
                       fb_media_ssrc := 0\<rparr>;
               len = fb_fci_length p1 + 2 + ucast (rp_n_ssrcs r)
           in case grow len p1 of
                None \<Rightarrow> Inr (p1, False)
              | Some p2 \<Rightarrow>
                  bind_result
                    (store_bytes (fb_fci p2) 0 (remb_header (rp_n_ssrcs r) mantissa exp)) (\<lambda>xs.
                  bind_result (write_ssrcs (unat (rp_n_ssrcs r)) 0 (rp_ssrcs r) 8 xs) (\<lambda>ys.
                    Inr (p2\<lparr>fb_fci := ys\<rparr>, True))))"

section \<open>The exponent search\<close>

text \<open>The largest bitrate an 18-bit mantissa and this search can carry: \<open>(2^18 - 1) * 2^14\<close>.\<close>

definition REMB_TOP :: nat where
  "REMB_TOP = 262143 * 2 ^ 14"

lemma unat_mantissa_max: "unat (push_bit 18 1 - 1 :: u32) = 262143"
  by simp

lemma unat_push_max: "unat (push_bit i (262143 :: u32)) = (262143 * 2 ^ i) mod 2 ^ 32"
proof -
  have "unat (push_bit i (262143 :: u32)) = take_bit 32 (push_bit i (unat (262143 :: u32)))"
    by (simp only: unsigned_push_bit_eq) simp
  then show ?thesis
    by (simp only: take_bit_eq_mod push_bit_eq_mult) simp
qed

lemma unat_shifted_max: "i \<le> 14 \<Longrightarrow> unat (push_bit i (262143 :: u32)) = 262143 * 2 ^ i"
proof -
  assume i: "i \<le> 14"
  have "(262143::nat) * 2 ^ i \<le> 262143 * 2 ^ 14"
    using i by (intro mult_le_mono2 power_increasing) auto
  also have "\<dots> < 2 ^ 32" by simp
  finally show ?thesis
    by (simp only: unat_push_max mod_less)
qed

lemma find_exponent_step:
  assumes "i \<le> 14"
  shows "find_exponent x 262143 (Suc k) i =
    (if unat x \<le> 262143 * 2 ^ i then Inr i else find_exponent x 262143 k (Suc i))"
  using assms unat_shifted_max [OF assms] by (simp add: shl32_def word_le_nat_alt)

lemma find_exponent_finds:
  assumes "unat x \<le> REMB_TOP" and "i \<le> 14" and "14 - i < k"
    and "\<forall>j < i. 262143 * 2 ^ j < unat x"
  shows "\<exists>e \<le> 14. find_exponent x 262143 k i = Inr e \<and> unat x \<le> 262143 * 2 ^ e \<and>
    (\<forall>j < e. 262143 * 2 ^ j < unat x)"
  using assms
proof (induction "14 - i" arbitrary: i k)
  case 0
  then have "i = 14" and "unat x \<le> 262143 * 2 ^ i"
    by (auto simp: REMB_TOP_def)
  then show ?case
    using "0.prems" by (cases k) (auto simp: find_exponent_step simp del: find_exponent.simps)
next
  case (Suc d)
  obtain k' where k: "k = Suc k'"
    using Suc.prems by (cases k) auto
  show ?case
  proof (cases "unat x \<le> 262143 * 2 ^ i")
    case True
    then show ?thesis
      using Suc.prems k by (auto simp: find_exponent_step simp del: find_exponent.simps)
  next
    case False
    have "\<forall>j < Suc i. 262143 * 2 ^ j < unat x"
      using False Suc.prems(4) by (auto simp: less_Suc_eq)
    then have "\<exists>e \<le> 14. find_exponent x 262143 k' (Suc i) = Inr e \<and> unat x \<le> 262143 * 2 ^ e \<and>
        (\<forall>j < e. 262143 * 2 ^ j < unat x)"
      using Suc.hyps Suc.prems k by (intro Suc.hyps(1)) auto
    then show ?thesis
      using False Suc.prems k by (auto simp: find_exponent_step simp del: find_exponent.simps)
  qed
qed

lemma shifted_max_wraps:
  assumes "i < 32"
  shows "unat (push_bit i (262143 :: u32)) \<le> REMB_TOP"
proof (cases "i \<le> 14")
  case True
  then have "(262143::nat) * 2 ^ i \<le> 262143 * 2 ^ 14"
    by (intro mult_le_mono2 power_increasing) auto
  then show ?thesis
    using True by (simp only: unat_shifted_max REMB_TOP_def)
next
  case False
  define D :: nat where "D = 2 ^ (i - 14)"
  have i: "(2::nat) ^ i = 16384 * D"
    using False power_add [of "2::nat" 14 "i - 14"] by (simp add: D_def)
  have "i - 14 \<le> 17" using assms by simp
  then have "D \<le> 2 ^ 17"
    unfolding D_def by (rule power_increasing) simp
  moreover have "0 < D" by (simp add: D_def)
  ultimately have split: "262143 * (16384 * D) = (D - 1) * 4294967296 + (4294967296 - 16384 * D)"
    and le: "16384 * D \<le> 4294967296" and ge: "16384 \<le> 16384 * D"
    by simp_all
  have "(262143 * 2 ^ i) mod (2::nat) ^ 32 = (4294967296 - 16384 * D) mod 4294967296"
    unfolding i split by simp
  also have "\<dots> \<le> 4294967296 - 16384 * D"
    by (rule mod_less_eq_dividend)
  also have "\<dots> \<le> REMB_TOP"
    using ge by (simp add: REMB_TOP_def)
  finally show ?thesis
    by (simp only: unat_push_max)
qed

lemma find_exponent_runs_out:
  assumes "REMB_TOP < unat x" and "i \<le> 32" and "32 - i < k"
  shows "find_exponent x 262143 k i = Inl Shift_too_wide"
  using assms
proof (induction "32 - i" arbitrary: i k)
  case 0
  then show ?case by (cases k) (auto simp: shl32_def)
next
  case (Suc d)
  obtain k' where k: "k = Suc k'"
    using Suc.prems by (cases k) auto
  have "i < 32" using Suc.hyps(2) by simp
  then have "\<not> x \<le> push_bit i 262143"
    using shifted_max_wraps Suc.prems(1) by (fastforce simp: word_le_nat_alt)
  moreover have "find_exponent x 262143 k' (Suc i) = Inl Shift_too_wide"
    using Suc.hyps Suc.prems k \<open>i < 32\<close> by (intro Suc.hyps(1)) auto
  ultimately show ?case
    using k \<open>i < 32\<close> by (simp add: shl32_def)
qed

text \<open>What the search returns: the least exponent that fits, or a shift that is undefined.\<close>

lemma compute_mantissa_fits:
  assumes "unat x \<le> REMB_TOP"
  shows "\<exists>e \<le> 14. compute_mantissa_and_6_bit_base_2_expoonent x 18 =
      Inr (Some (drop_bit e x, of_nat e)) \<and> unat (drop_bit e x) < 2 ^ 18 \<and>
      (\<forall>j < e. 262143 * 2 ^ j < unat x)"
proof -
  obtain e where e: "e \<le> 14" "find_exponent x 262143 64 0 = Inr e" "unat x \<le> 262143 * 2 ^ e"
      "\<forall>j < e. 262143 * 2 ^ j < unat x"
    using find_exponent_finds [of x 0 64] assms by auto
  have "unat (drop_bit e x) = unat x div 2 ^ e"
    by (simp only: unat_drop_bit_eq) (simp only: drop_bit_eq_div)
  also have "\<dots> \<le> (262143 * 2 ^ e) div 2 ^ e"
    using e(3) by (rule div_le_mono)
  finally have "unat (drop_bit e x) < 2 ^ 18" by simp
  then show ?thesis
    using e by (auto simp: compute_mantissa_and_6_bit_base_2_expoonent_def)
qed

lemma compute_mantissa_undefined:
  assumes "REMB_TOP < unat x"
  shows "compute_mantissa_and_6_bit_base_2_expoonent x 18 = Inl Shift_too_wide"
  using find_exponent_runs_out [of x 0 64] assms
  by (simp add: compute_mantissa_and_6_bit_base_2_expoonent_def)

section \<open>Reading back what was written\<close>

lemma low_masks: "(3 :: u8) = mask 2" "(63 :: u8) = mask 6"
  by (simp_all add: mask_eq_exp_minus_1)

lemma exp_byte_or: "push_bit 2 e + (x AND mask 2) = push_bit 2 e OR (x AND mask 2 :: u8)"
  by (rule disjunctive_add_eq_or, rule bit_word_eqI) (auto simp: bit_simps)

lemma exp_read_back:
  fixes e :: u8 and m :: u32
  assumes "unat e < 64"
  shows "drop_bit 2 (push_bit 2 e + (ucast (drop_bit 16 m) AND 3)) AND 63 = e"
  unfolding low_masks exp_byte_or
proof (rule bit_word_eqI)
  fix n assume "n < LENGTH(8)"
  moreover have "6 \<le> n \<Longrightarrow> \<not> bit e n"
    using bits_above [of e 6 n] assms by simp
  ultimately show "bit (drop_bit 2 (push_bit 2 e OR (ucast (drop_bit 16 m) AND mask 2)) AND mask 6) n
      = bit e n"
    by (cases "n < 6") (auto simp: bit_simps)
qed

lemma mantissa_read_back:
  fixes e :: u8 and m :: u32
  assumes "unat m < 2 ^ 18"
  shows "push_bit 16 (ucast ((push_bit 2 e + (ucast (drop_bit 16 m) AND 3)) AND 3)) +
     push_bit 8 (ucast (ucast (drop_bit 8 m) :: u8)) + ucast (ucast m :: u8) = m"
    (is "?a + ?b + ?c = m")
proof -
  have ab: "?a + ?b = ?a OR ?b"
    by (rule disjunctive_add_eq_or, rule bit_word_eqI) (auto simp: bit_simps)
  have "(?a OR ?b) + ?c = (?a OR ?b) OR ?c"
    by (rule disjunctive_add_eq_or, rule bit_word_eqI) (auto simp: bit_simps)
  also have "\<dots> = m"
  proof (rule bit_word_eqI)
    fix n assume n: "n < LENGTH(32)"
    have hi: "18 \<le> n \<Longrightarrow> \<not> bit m n"
      using bits_above assms by blast
    from n have "n < 8 \<or> (8 \<le> n \<and> n < 16) \<or> (16 \<le> n \<and> n < 18) \<or> 18 \<le> n"
      by auto
    then show "bit ((?a OR ?b) OR ?c) n = bit m n"
      unfolding low_masks exp_byte_or
      using n hi by (elim disjE) (auto simp: bit_simps)
  qed
  finally show ?thesis by (simp only: ab)
qed

lemma read_ssrcs_eq:
  "i + k \<le> length xs \<Longrightarrow>
   read_ssrcs k i fci xs =
     Inr (take i xs @ map (\<lambda>j. rd32 (drop (4 * j) fci)) [0..<k] @ drop (i + k) xs)"
proof (induction k arbitrary: i fci xs)
  case 0
  then show ?case by simp
next
  case (Suc k)
  have "map (\<lambda>j. rd32 (drop (4 * j) fci)) [0..<Suc k] =
      rd32 fci # map (\<lambda>j. rd32 (drop (4 * j) (drop 4 fci))) [0..<k]"
    by (simp add: upt_conv_Cons map_Suc_upt [symmetric] del: upt_Suc) (simp add: add.commute)
  then show ?case
    using Suc by (simp add: array_store_in take_Suc_conv_app_nth take_update_swap del: upt_Suc)
      (simp add: nth_list_update_eq take_update_swap upd_conv_take_nth_drop)
qed

lemma store_bytes_in:
  "off + length bs \<le> length xs \<Longrightarrow>
   store_bytes xs off bs = Inr (take off xs @ bs @ drop (off + length bs) xs)"
  by (simp add: store_bytes_def)

lemma length_concat_be32 [simp]: "length (concat (map be32 ys)) = 4 * length ys"
  by (induction ys) auto

lemma write_ssrcs_eq:
  "i + k \<le> length ssrcs \<Longrightarrow> off + 4 * k \<le> length xs \<Longrightarrow>
   write_ssrcs k i ssrcs off xs =
     Inr (take off xs @ concat (map be32 (take k (drop i ssrcs))) @ drop (off + 4 * k) xs)"
proof (induction k arbitrary: i off xs)
  case 0
  then show ?case by simp
next
  case (Suc k)
  have "take (Suc k) (drop i ssrcs) = ssrcs ! i # take k (drop (Suc i) ssrcs)"
    using Suc.prems by (simp add: Cons_nth_drop_Suc [symmetric])
  then show ?case
    using Suc by (simp add: store_bytes_in) (simp add: algebra_simps)
qed

lemma rd32_nth:
  "j < length ys \<Longrightarrow> rd32 (drop (4 * j) (concat (map be32 ys) @ zs)) = ys ! j"
proof (induction ys arbitrary: j)
  case Nil
  then show ?case by simp
next
  case (Cons y ys)
  show ?case
  proof (cases j)
    case 0
    then show ?thesis by (simp add: rd32_be32)
  next
    case (Suc j')
    then show ?thesis using Cons by simp
  qed
qed

lemma remb_header_shape:
  "is_remb (remb_header n m e @ zs)" "drop 4 (remb_header n m e) =
     [n, push_bit 2 e + (ucast (drop_bit 16 m) AND 3), ucast (drop_bit 8 m), ucast m]"
  by (simp_all add: remb_header_def remb_id_def is_remb_def)

lemma unat_ucast_8_16 [simp]: "unat (ucast (x :: u8) :: u16) = unat x"
proof -
  have "unat x < 2 ^ 8" using unsigned_less [of x] by simp
  then show ?thesis by (simp add: unsigned_ucast_eq take_bit_nat_eq_self)
qed

lemma length_remb_header [simp]: "length (remb_header n m e) = 8"
  by (simp add: remb_header_def remb_id_def)

text \<open>Parsing a header with a mantissa of 18 bits and an exponent that does not overflow.\<close>

lemma get_packet_written:
  assumes "unat m < 2 ^ 18" and "e \<le> 14" and "length zs = 4 * unat n"
    and "length (rp_ssrcs q) = REMB_MAX_SSRCS_COUNT"
  shows "read_remb (remb_header n m (of_nat e) @ zs) q =
    Inr (\<lparr>rp_bitrate = push_bit e m, rp_n_ssrcs = n,
          rp_ssrcs = map (\<lambda>j. rd32 (drop (4 * j) zs)) [0..<unat n] @ drop (unat n) (rp_ssrcs q),
          \<dots> = remb_packet.more q\<rparr>, True)"
proof -
  have e: "unat (of_nat e :: u8) = e"
    using assms(2) by (simp add: unat_of_nat)
  have exp: "drop_bit 2 (push_bit 2 (of_nat e) + (ucast (drop_bit 16 m) AND 3)) AND 63 = (of_nat e :: u8)"
    using e assms(2) by (intro exp_read_back) simp
  have "unat n < 2 ^ 8" using unsigned_less [of n] by simp
  then have "read_ssrcs (unat n) 0 zs (rp_ssrcs q) =
      Inr (map (\<lambda>j. rd32 (drop (4 * j) zs)) [0..<unat n] @ drop (unat n) (rp_ssrcs q))"
    using assms(4) by (subst read_ssrcs_eq) (simp_all add: REMB_MAX_SSRCS_COUNT_def)
  then show ?thesis
    using assms(2,3) mantissa_read_back [OF assms(1), of "of_nat e"]
    by (simp add: read_remb_def remb_header_shape exp e Let_def shl32_def)
qed

text \<open>Marshalling into an empty feedback packet: the FCI that results.\<close>

lemma marshall_empty:
  assumes law: "grow_law grow" and fci: "fb_fci p = []"
    and ok: "length (rp_ssrcs r) = REMB_MAX_SSRCS_COUNT"
    and comp: "compute_mantissa_and_6_bit_base_2_expoonent (rp_bitrate r) 18 = Inr (Some (m, e))"
    and room: "grow (2 + ucast (rp_n_ssrcs r)) (p\<lparr>fb_type := RTCP_PSFB_TYPE_AFB,
        fb_sender_ssrc := ssrc, fb_media_ssrc := 0\<rparr>) = Some p2"
  shows "kms_rtcp_psfb_afb_remb_marshall_packet grow p r ssrc =
    Inr (p2\<lparr>fb_fci := remb_header (rp_n_ssrcs r) m e @
           concat (map be32 (take (unat (rp_n_ssrcs r)) (rp_ssrcs r)))\<rparr>, True)"
proof -
  let ?n = "unat (rp_n_ssrcs r)"
  have n: "?n < 2 ^ 8" using unsigned_less [of "rp_n_ssrcs r"] by simp
  have "unat (2 + ucast (rp_n_ssrcs r) :: u16) = 2 + ?n"
    using n by (simp add: unat_word_ariths)
  then have len: "length (fb_fci p2) = 8 + 4 * ?n"
    using law room by (auto simp: grow_law_def)
  have st: "store_bytes (fb_fci p2) 0 (remb_header (rp_n_ssrcs r) m e) =
      Inr (remb_header (rp_n_ssrcs r) m e @ drop 8 (fb_fci p2))"
    using len by (simp add: store_bytes_in)
  have wr: "write_ssrcs ?n 0 (rp_ssrcs r) 8 (remb_header (rp_n_ssrcs r) m e @ drop 8 (fb_fci p2)) =
      Inr (remb_header (rp_n_ssrcs r) m e @ concat (map be32 (take ?n (rp_ssrcs r))))"
    using len ok n by (subst write_ssrcs_eq) (simp_all add: REMB_MAX_SSRCS_COUNT_def)
  show ?thesis
    using fci st wr room
    by (simp add: kms_rtcp_psfb_afb_remb_marshall_packet_def comp fb_fci_length_def Let_def)
qed

lemma unat_push_drop: "unat (push_bit e (drop_bit e (x :: u32))) = unat x div 2 ^ e * 2 ^ e"
proof -
  have "unat x div 2 ^ e * 2 ^ e \<le> unat x"
    by (rule div_times_less_eq_dividend)
  also have "unat x < 2 ^ 32" using unsigned_less [of x] by simp
  finally have lt: "unat x div 2 ^ e * 2 ^ e < 2 ^ 32" .
  have "unat (push_bit e (drop_bit e x)) = take_bit 32 (push_bit e (drop_bit e (unat x)))"
    by (simp only: unsigned_push_bit_eq unat_drop_bit_eq) simp
  also have "\<dots> = (unat x div 2 ^ e * 2 ^ e) mod 2 ^ 32"
    by (simp only: take_bit_eq_mod push_bit_eq_mult drop_bit_eq_div)
  finally show ?thesis
    using lt by (simp only: mod_less)
qed

text \<open>A buffer with these bytes, mapped for reading.\<close>

definition mapped :: "u8 list \<Rightarrow> afb_buffer" where
  "mapped bs = \<lparr>ab_buffer = True, ab_map_read = True, ab_map_write = False, ab_map_data = bs\<rparr>"

lemma get_packet_mapped [simp]:
  "kms_rtcp_psfb_afb_remb_get_packet (mapped bs) AFB_TYPE_REMB p = read_remb bs p"
  by (simp add: kms_rtcp_psfb_afb_remb_get_packet_def mapped_def)

lemma type_of_mapped [simp]:
  "kms_rtcp_psfb_afb_get_packet (mapped bs) =
     (if is_remb bs then (AFB_TYPE_REMB, True) else (AFB_TYPE_INVALID, False))"
  by (simp add: kms_rtcp_psfb_afb_get_packet_def mapped_def)

lemma marshalled_is_read:
  assumes law: "grow_law grow" and fci: "fb_fci p = []"
    and top: "unat (rp_bitrate r) \<le> REMB_TOP"
    and ok: "length (rp_ssrcs r) = REMB_MAX_SSRCS_COUNT" "length (rp_ssrcs q) = REMB_MAX_SSRCS_COUNT"
    and room: "grow (2 + ucast (rp_n_ssrcs r)) (p\<lparr>fb_type := RTCP_PSFB_TYPE_AFB,
        fb_sender_ssrc := ssrc, fb_media_ssrc := 0\<rparr>) \<noteq> None"
  shows "\<exists>p' q' e. kms_rtcp_psfb_afb_remb_marshall_packet grow p r ssrc = Inr (p', True) \<and>
    fb_sender_ssrc p' = ssrc \<and>
    kms_rtcp_psfb_afb_get_packet (mapped (fb_fci p')) = (AFB_TYPE_REMB, True) \<and>
    kms_rtcp_psfb_afb_remb_get_packet (mapped (fb_fci p')) AFB_TYPE_REMB q = Inr (q', True) \<and>
    rp_n_ssrcs q' = rp_n_ssrcs r \<and>
    take (unat (rp_n_ssrcs r)) (rp_ssrcs q') = take (unat (rp_n_ssrcs r)) (rp_ssrcs r) \<and>
    unat (rp_bitrate q') = unat (rp_bitrate r) div 2 ^ e * 2 ^ e \<and>
    (\<forall>j < e. 262143 * 2 ^ j < unat (rp_bitrate r))"
proof -
  let ?n = "unat (rp_n_ssrcs r)"
  have n: "?n < 2 ^ 8" using unsigned_less [of "rp_n_ssrcs r"] by simp
  obtain e where e: "e \<le> 14"
      "compute_mantissa_and_6_bit_base_2_expoonent (rp_bitrate r) 18 =
        Inr (Some (drop_bit e (rp_bitrate r), of_nat e))"
      "unat (drop_bit e (rp_bitrate r)) < 2 ^ 18" "\<forall>j < e. 262143 * 2 ^ j < unat (rp_bitrate r)"
    using compute_mantissa_fits [OF top] by blast
  obtain p2 where p2: "grow (2 + ucast (rp_n_ssrcs r)) (p\<lparr>fb_type := RTCP_PSFB_TYPE_AFB,
        fb_sender_ssrc := ssrc, fb_media_ssrc := 0\<rparr>) = Some p2"
    using room by blast
  let ?zs = "concat (map be32 (take ?n (rp_ssrcs r)))"
  have len: "length (take ?n (rp_ssrcs r)) = ?n"
    using ok(1) n by (simp add: REMB_MAX_SSRCS_COUNT_def)
  then have zs: "length ?zs = 4 * ?n" by simp
  have again: "map (\<lambda>j. rd32 (drop (4 * j) ?zs)) [0..<?n] = take ?n (rp_ssrcs r)"
    using len rd32_nth [where ys = "take ?n (rp_ssrcs r)" and zs = "[]"]
    by (intro nth_equalityI) simp_all
  have br: "unat (push_bit e (drop_bit e (rp_bitrate r))) = unat (rp_bitrate r) div 2 ^ e * 2 ^ e"
    by (rule unat_push_drop)
  show ?thesis
    using marshall_empty [OF law fci ok(1) e(2) p2] get_packet_written [OF e(3,1) zs ok(2)] p2 law
      again br e(4) len
    by (auto simp: grow_law_def remb_header_shape intro!: exI)
qed

text \<open>
  C32: a REMB packet written into an empty feedback packet and read back. The SSRCs come back
  as they were; the bitrate comes back with its low bits cleared, \<open>e\<close> of them, where \<open>e\<close> is
  the least exponent for which 18 bits are enough: never above the bitrate that was written,
  by less than one part in \<open>2^17\<close> below it, and equal to it below \<open>2^18\<close> bps.
\<close>

theorem remb_roundtrip:
  assumes law: "grow_law grow" and fci: "fb_fci p = []"
    and top: "unat (rp_bitrate r) \<le> REMB_TOP"
    and ok: "length (rp_ssrcs r) = REMB_MAX_SSRCS_COUNT" "length (rp_ssrcs q) = REMB_MAX_SSRCS_COUNT"
    and room: "grow (2 + ucast (rp_n_ssrcs r)) (p\<lparr>fb_type := RTCP_PSFB_TYPE_AFB,
        fb_sender_ssrc := ssrc, fb_media_ssrc := 0\<rparr>) \<noteq> None"
  shows "\<exists>p' q' e. kms_rtcp_psfb_afb_remb_marshall_packet grow p r ssrc = Inr (p', True) \<and>
    fb_sender_ssrc p' = ssrc \<and>
    kms_rtcp_psfb_afb_get_packet (mapped (fb_fci p')) = (AFB_TYPE_REMB, True) \<and>
    kms_rtcp_psfb_afb_remb_get_packet (mapped (fb_fci p')) AFB_TYPE_REMB q = Inr (q', True) \<and>
    rp_n_ssrcs q' = rp_n_ssrcs r \<and>
    take (unat (rp_n_ssrcs r)) (rp_ssrcs q') = take (unat (rp_n_ssrcs r)) (rp_ssrcs r) \<and>
    unat (rp_bitrate q') = unat (rp_bitrate r) div 2 ^ e * 2 ^ e \<and>
    (\<forall>j < e. 262143 * 2 ^ j < unat (rp_bitrate r))"
  using assms by (rule marshalled_is_read)

text \<open>A packet that can always grow: the law of \<open>grow\<close> can be met.\<close>

definition roomy :: fci_grow where
  "roomy n p = Some (p\<lparr>fb_fci := take (4 * unat n) (fb_fci p @ replicate (4 * unat n) 0)\<rparr>)"

lemma grow_law_roomy: "grow_law roomy"
  by (auto simp: grow_law_def roomy_def)

definition blank_remb :: remb_packet where
  "blank_remb = \<lparr>rp_bitrate = 0, rp_n_ssrcs = 0, rp_ssrcs = replicate 255 0\<rparr>"

theorem remb_roundtrip_witness:
  "\<exists>p' q' e. kms_rtcp_psfb_afb_remb_marshall_packet roomy blank_fb
      (blank_remb\<lparr>rp_bitrate := 300001, rp_n_ssrcs := 1\<rparr>) 7 = Inr (p', True) \<and>
    fb_sender_ssrc p' = 7 \<and>
    kms_rtcp_psfb_afb_get_packet (mapped (fb_fci p')) = (AFB_TYPE_REMB, True) \<and>
    kms_rtcp_psfb_afb_remb_get_packet (mapped (fb_fci p')) AFB_TYPE_REMB blank_remb = Inr (q', True) \<and>
    rp_n_ssrcs q' = 1 \<and>
    take (unat (1 :: u8)) (rp_ssrcs q') = take (unat (1 :: u8)) (replicate 255 0) \<and>
    unat (rp_bitrate q') = unat (300001 :: u32) div 2 ^ e * 2 ^ e \<and>
    (\<forall>j < e. 262143 * 2 ^ j < unat (300001 :: u32))"
  using remb_roundtrip [OF grow_law_roomy, of blank_fb "blank_remb\<lparr>rp_bitrate := 300001, rp_n_ssrcs := 1\<rparr>"
      blank_remb 7]
  by (simp add: blank_fb_def blank_remb_def REMB_MAX_SSRCS_COUNT_def REMB_TOP_def roomy_def)

lemma write_ssrcs_fault: "write_ssrcs k i xs off ys \<noteq> Inl Shift_too_wide"
  by (induction k i xs off ys rule: write_ssrcs.induct)
    (auto simp: store_bytes_def)

lemma store_bytes_fault: "store_bytes xs off bs \<noteq> Inl Shift_too_wide"
  by (simp add: store_bytes_def)

lemmas write_faults = write_ssrcs_fault store_bytes_fault

text \<open>
  above \<open>(2^18 - 1) * 2^14\<close> bps the search for an exponent shifts a 32-bit value by
  32 places, which C leaves undefined: a REMB event with such a bitrate (the bitrates are
  unsigned 32-bit values) has no defined encoding, whatever the packet.
\<close>

theorem remb_marshall_undefined_above_top:
  "kms_rtcp_psfb_afb_remb_marshall_packet grow p r ssrc = Inl Shift_too_wide
    \<longleftrightarrow> REMB_TOP < unat (rp_bitrate r)"
proof (cases "REMB_TOP < unat (rp_bitrate r)")
  case True
  then show ?thesis
    by (simp add: kms_rtcp_psfb_afb_remb_marshall_packet_def compute_mantissa_undefined)
next
  case False
  then obtain e where "compute_mantissa_and_6_bit_base_2_expoonent (rp_bitrate r) 18 =
      Inr (Some (drop_bit e (rp_bitrate r), of_nat e))"
    using compute_mantissa_fits [of "rp_bitrate r"] by auto
  then show ?thesis
    using False
    by (simp add: kms_rtcp_psfb_afb_remb_marshall_packet_def Let_def write_faults
        bind_result_Inl_iff split: option.splits)
qed

text \<open>
  reading the bytes of any packet into a struct of the declared size stays inside the
  bytes and the struct. The one thing that can go wrong is the exponent: a packet that is
  long enough and carries an exponent of 32 or more, which any peer can send, makes the
  reader shift a 32-bit value by its width or more, which C leaves undefined.
\<close>

theorem read_remb_faults:
  assumes "length (rp_ssrcs p) = REMB_MAX_SSRCS_COUNT"
  shows "read_remb bs p = Inl f \<longleftrightarrow>
    f = Shift_too_wide \<and> is_remb bs \<and> 8 \<le> length bs \<and> 32 \<le> unat (drop_bit 2 (bs ! 5) AND 0x3F)"
proof -
  have n: "unat n \<le> length (rp_ssrcs p)" for n :: u8
  proof -
    have "unat n < 2 ^ 8" using unsigned_less [of n] by simp
    then show ?thesis using assms by (simp add: REMB_MAX_SSRCS_COUNT_def)
  qed
  have nth: "4 \<le> length bs \<Longrightarrow> drop 4 bs ! i = bs ! (4 + i)" for i
    by simp
  show ?thesis
    using n
    by (auto simp: read_remb_def Let_def shl32_def read_ssrcs_eq not_le is_remb_def nth
        split: if_splits)
qed

theorem read_remb_faults_witness:
  "read_remb (remb_id @ [0, 0x80, 0, 1]) blank_remb = Inl Shift_too_wide"
  using read_remb_faults [of blank_remb "remb_id @ [0, 0x80, 0, 1]" Shift_too_wide]
  by (simp add: blank_remb_def REMB_MAX_SSRCS_COUNT_def is_remb_def remb_id_def)

section \<open>The messages the wire format carries exactly\<close>

text \<open>
  A message whose bitrate is a mantissa of 18 bits times a power of two not above \<open>2^14\<close>,
  and whose unused SSRC places are zero.
\<close>

definition remb_exact :: "remb_packet \<Rightarrow> bool" where
  "remb_exact r \<longleftrightarrow> (\<exists>m < 2 ^ 18. \<exists>e \<le> 14. unat (rp_bitrate r) = m * 2 ^ e) \<and>
     length (rp_ssrcs r) = REMB_MAX_SSRCS_COUNT \<and>
     drop (unat (rp_n_ssrcs r)) (rp_ssrcs r) = replicate (255 - unat (rp_n_ssrcs r)) 0"

definition remb_encode :: "remb_packet \<Rightarrow> u8 list" where
  "remb_encode r = (case kms_rtcp_psfb_afb_remb_marshall_packet roomy blank_fb r 0 of
     Inr (p, True) \<Rightarrow> fb_fci p | _ \<Rightarrow> [])"

definition remb_decode :: "u8 list \<Rightarrow> remb_packet option" where
  "remb_decode bs = (case kms_rtcp_psfb_afb_remb_get_packet (mapped bs) AFB_TYPE_REMB blank_remb of
     Inr (q, True) \<Rightarrow> Some q | _ \<Rightarrow> None)"

lemma least_exponent_divides:
  assumes "x = m * 2 ^ e'" and "m < 2 ^ 18" and "\<forall>j < e. 262143 * 2 ^ j < (x :: nat)"
  shows "x div 2 ^ e * 2 ^ e = x"
proof -
  have "m * 2 ^ e' \<le> 262143 * 2 ^ e'"
    using assms(2) by (intro mult_le_mono1) simp
  then have "\<not> e' < e"
    using assms(1,3) by (metis not_less)
  then have "2 ^ e dvd x"
    using assms(1) by (simp add: le_imp_power_dvd)
  then show ?thesis by simp
qed

lemma roomy_room: "roomy n p = Some (p\<lparr>fb_fci := take (4 * unat n) (fb_fci p @ replicate (4 * unat n) 0)\<rparr>)"
  by (simp add: roomy_def)

lemma remb_decode_encode:
  assumes "remb_exact r"
  shows "remb_decode (remb_encode r) = Some r"
proof -
  let ?n = "unat (rp_n_ssrcs r)"
  from assms obtain m e' where x: "unat (rp_bitrate r) = m * 2 ^ e'" "m < 2 ^ 18" "e' \<le> 14"
    and ss: "length (rp_ssrcs r) = REMB_MAX_SSRCS_COUNT"
    and tail: "drop ?n (rp_ssrcs r) = replicate (255 - ?n) 0"
    by (auto simp: remb_exact_def)
  have "m * 2 ^ e' \<le> 262143 * 2 ^ 14"
    using x by (intro mult_le_mono power_increasing) auto
  then have top: "unat (rp_bitrate r) \<le> REMB_TOP"
    using x by (simp only: REMB_TOP_def)
  obtain e where e: "e \<le> 14"
      "compute_mantissa_and_6_bit_base_2_expoonent (rp_bitrate r) 18 =
        Inr (Some (drop_bit e (rp_bitrate r), of_nat e))"
      "unat (drop_bit e (rp_bitrate r)) < 2 ^ 18" "\<forall>j < e. 262143 * 2 ^ j < unat (rp_bitrate r)"
    using compute_mantissa_fits [OF top] by blast
  have n: "?n < 2 ^ 8" using unsigned_less [of "rp_n_ssrcs r"] by simp
  let ?zs = "concat (map be32 (take ?n (rp_ssrcs r)))"
  have len: "length (take ?n (rp_ssrcs r)) = ?n"
    using ss n by (simp add: REMB_MAX_SSRCS_COUNT_def)
  have enc: "remb_encode r = remb_header (rp_n_ssrcs r) (drop_bit e (rp_bitrate r)) (of_nat e) @ ?zs"
    using marshall_empty [OF grow_law_roomy _ ss e(2) roomy_room, of blank_fb 0]
    by (simp add: remb_encode_def blank_fb_def)
  have ssrcs: "map (\<lambda>j. rd32 (drop (4 * j) ?zs)) [0..<?n] = take ?n (rp_ssrcs r)"
    using len rd32_nth [where ys = "take ?n (rp_ssrcs r)" and zs = "[]"]
    by (intro nth_equalityI) simp_all
  have "unat (push_bit e (drop_bit e (rp_bitrate r))) = unat (rp_bitrate r)"
    using least_exponent_divides [OF x(1,2) e(4)] by (simp only: unat_push_drop)
  then have br: "push_bit e (drop_bit e (rp_bitrate r)) = rp_bitrate r"
    by (rule word_unat_eq_iff [THEN iffD2])
  have "take ?n (rp_ssrcs r) @ drop ?n (replicate 255 0) = rp_ssrcs r"
    using tail by (metis append_take_drop_id drop_replicate)
  then show ?thesis
    using get_packet_written [OF e(3,1), of ?zs "rp_n_ssrcs r" blank_remb] len
    by (simp add: remb_decode_def enc ssrcs br blank_remb_def REMB_MAX_SSRCS_COUNT_def)
qed

interpretation remb_wire: wire_codec remb_exact remb_encode remb_decode
  by unfold_locales (rule remb_decode_encode)

text \<open>
  two exactly representable messages with the same bytes are the same message: neither
  the 6-bit exponent, the split mantissa nor the SSRC count makes two of them coincide.
\<close>

theorem remb_encode_lossless: "inj_on remb_encode {r. remb_exact r}"
  by (rule remb_wire.inj_on_enc)

end
