(* ===== verification/CFloat.thy ===== *)
theory CFloat
  imports Complex_Main KmsPrelude
begin

text \<open>
  The part of C's \<open>float\<close> that the program uses: binary32 with rounding to nearest, ties to
  even. A finite value is the rational it stands for; zero has no sign, which no operation here
  can tell. Conversions to integers truncate and are undefined out of the range of the type.
\<close>

datatype gfloat = Fin rat | Inf bool | NaN

section \<open>Rounding\<close>

fun ilog2 :: "nat \<Rightarrow> nat" where
  "ilog2 n = (if n \<le> 1 then 0 else Suc (ilog2 (n div 2)))"

declare ilog2.simps [simp del]

definition binade :: "rat \<Rightarrow> int" where
  "binade x = (if 1 \<le> x then int (ilog2 (nat \<lfloor>x\<rfloor>)) else - int (Suc (ilog2 (nat (\<lceil>1 / x\<rceil> - 1)))))"

definition round_half_even :: "rat \<Rightarrow> int" where
  "round_half_even q =
     (let f = \<lfloor>q\<rfloor>; d = q - of_int f
      in if d < 1 / 2 then f else if 1 / 2 < d then f + 1 else if even f then f else f + 1)"

definition ulp :: "rat \<Rightarrow> rat" where
  "ulp x = 2 powi (max (binade x) (-126) - 23)"

definition round_abs :: "rat \<Rightarrow> rat" where
  "round_abs x = of_int (round_half_even (x / ulp x)) * ulp x"

definition rnd32 :: "rat \<Rightarrow> gfloat" where
  "rnd32 x =
     (if x = 0 then Fin 0
      else let r = round_abs \<bar>x\<bar>
           in if 2 ^ 128 \<le> r then Inf (x < 0) else Fin (if x < 0 then - r else r))"

section \<open>Operations\<close>

definition float_of_sint :: "u32 \<Rightarrow> gfloat" where
  "float_of_sint w = rnd32 (of_int (sint w))"

definition float_of_uint :: "u32 \<Rightarrow> gfloat" where
  "float_of_uint w = rnd32 (of_int (uint w))"

fun one_plus :: "gfloat \<Rightarrow> gfloat" where
  "one_plus (Fin x) = rnd32 (1 + x)"
| "one_plus (Inf s) = Inf s"
| "one_plus NaN = NaN"

fun fmul :: "gfloat \<Rightarrow> gfloat \<Rightarrow> gfloat" where
  "fmul NaN y = NaN"
| "fmul x NaN = NaN"
| "fmul (Fin x) (Fin y) = rnd32 (x * y)"
| "fmul (Inf s) (Fin y) = (if y = 0 then NaN else Inf (s \<noteq> (y < 0)))"
| "fmul (Fin x) (Inf s) = (if x = 0 then NaN else Inf (s \<noteq> (x < 0)))"
| "fmul (Inf s) (Inf s') = Inf (s \<noteq> s')"

fun fdiv :: "gfloat \<Rightarrow> gfloat \<Rightarrow> gfloat" where
  "fdiv NaN y = NaN"
| "fdiv x NaN = NaN"
| "fdiv (Fin x) (Fin y) =
     (if y = 0 then (if x = 0 then NaN else Inf (x < 0)) else rnd32 (x / y))"
| "fdiv (Inf s) (Fin y) = Inf (s \<noteq> (y < 0))"
| "fdiv (Fin x) (Inf s) = Fin 0"
| "fdiv (Inf s) (Inf s') = NaN"

definition trunc :: "rat \<Rightarrow> int" where
  "trunc x = (if x < 0 then \<lceil>x\<rceil> else \<lfloor>x\<rfloor>)"

fun float_to_sint :: "gfloat \<Rightarrow> c_fault + u32" where
  "float_to_sint (Fin x) =
     (if - (2 ^ 31) \<le> trunc x \<and> trunc x < 2 ^ 31 then Inr (word_of_int (trunc x))
      else Inl Float_out_of_range)"
| "float_to_sint _ = Inl Float_out_of_range"

fun float_to_uint :: "gfloat \<Rightarrow> c_fault + u32" where
  "float_to_uint (Fin x) =
     (if 0 \<le> trunc x \<and> trunc x < 2 ^ 32 then Inr (word_of_int (trunc x))
      else Inl Float_out_of_range)"
| "float_to_uint _ = Inl Float_out_of_range"

section \<open>Bounds of a rounded value\<close>

lemma ilog2_bounds: "0 < n \<Longrightarrow> 2 ^ ilog2 n \<le> n \<and> n < 2 ^ Suc (ilog2 n)"
proof (induction n rule: ilog2.induct)
  case (1 n)
  show ?case
  proof (cases "n \<le> 1")
    case True
    then show ?thesis using "1.prems" by (simp add: ilog2.simps [of n])
  next
    case False
    then have "2 ^ ilog2 (n div 2) \<le> n div 2 \<and> n div 2 < 2 ^ Suc (ilog2 (n div 2))"
      using "1.IH" by simp
    then have "2 * 2 ^ ilog2 (n div 2) \<le> n \<and> n < 2 * 2 ^ Suc (ilog2 (n div 2))"
      by (intro conjI) linarith+
    then show ?thesis using False by (simp add: ilog2.simps [of n])
  qed
qed

lemma binade_bounds:
  assumes "0 < x"
  shows "2 powi binade x \<le> x" and "x < 2 powi (binade x + 1)"
proof -
  have "2 powi binade x \<le> x \<and> x < 2 powi (binade x + 1)"
  proof (cases "1 \<le> x")
    case True
    define n where "n = nat \<lfloor>x\<rfloor>"
    have f: "\<lfloor>x\<rfloor> = int n" "0 < n" using True by (simp_all add: n_def)
    have b: "2 ^ ilog2 n \<le> n" "n < 2 ^ Suc (ilog2 n)" using ilog2_bounds [OF f(2)] by auto
    have "(2::rat) ^ ilog2 n \<le> of_nat n"
      using b(1) by (metis of_nat_le_iff of_nat_numeral of_nat_power)
    also have "\<dots> \<le> x" using f(1) by (metis floor_le_iff floor_of_nat of_int_of_nat_eq of_int_floor_le)
    finally have lo: "(2::rat) ^ ilog2 n \<le> x" .
    have "Suc n \<le> 2 ^ Suc (ilog2 n)" using b(2) by simp
    then have "(of_nat (Suc n) :: rat) \<le> 2 ^ Suc (ilog2 n)"
      by (metis of_nat_le_iff of_nat_numeral of_nat_power)
    moreover have "x < of_nat (Suc n)" using f(1) by (simp add: floor_eq_iff)
    ultimately have "x < 2 ^ Suc (ilog2 n)" by simp
    then show ?thesis
      using lo True f(1) by (simp add: binade_def power_int_add)
  next
    case False
    define n where "n = nat (\<lceil>1 / x\<rceil> - 1)"
    have one: "1 < 1 / x" using False assms by (simp add: field_simps)
    then have "1 < \<lceil>1 / x\<rceil>" by linarith
    then have f: "\<lceil>1 / x\<rceil> = int n + 1" "0 < n" unfolding n_def by arith+
    have b: "2 ^ ilog2 n \<le> n" "n < 2 ^ Suc (ilog2 n)" using ilog2_bounds [OF f(2)] by auto
    have "(2::rat) ^ ilog2 n \<le> of_nat n"
      using b(1) by (metis of_nat_le_iff of_nat_numeral of_nat_power)
    moreover have "of_nat n < 1 / x" "1 / x \<le> of_nat (Suc n)" using f(1) by (simp_all add: ceiling_eq_iff)
    ultimately have hi: "2 ^ ilog2 n < 1 / x" by linarith
    have "Suc n \<le> 2 ^ Suc (ilog2 n)" using b(2) by simp
    then have "(of_nat (Suc n) :: rat) \<le> 2 ^ Suc (ilog2 n)"
      by (metis of_nat_le_iff of_nat_numeral of_nat_power)
    then have lo: "1 / x \<le> 2 ^ Suc (ilog2 n)"
      using \<open>1 / x \<le> of_nat (Suc n)\<close> by simp
    have bin: "binade x = - int (Suc (ilog2 n))"
      using False by (simp add: binade_def n_def)
    have "(2::rat) powi (- int (Suc (ilog2 n))) = 1 / 2 ^ Suc (ilog2 n)"
      by (simp only: power_int_minus power_int_of_nat inverse_eq_divide)
    moreover have "(2::rat) powi (- int (Suc (ilog2 n)) + 1) = 1 / 2 ^ ilog2 n"
    proof -
      have "- int (Suc (ilog2 n)) + 1 = - int (ilog2 n)" by simp
      then show ?thesis by (simp only: power_int_minus power_int_of_nat inverse_eq_divide)
    qed
    moreover have "1 / 2 ^ Suc (ilog2 n) \<le> x"
      using lo assms by (simp add: pos_divide_le_eq mult.commute del: power_Suc)
    moreover have "x < 1 / 2 ^ ilog2 n"
      using hi assms by (simp add: pos_less_divide_eq mult.commute)
    ultimately show ?thesis by (simp only: bin)
  qed
  then show "2 powi binade x \<le> x" and "x < 2 powi (binade x + 1)" by auto
qed

lemma ulp_pos [simp]: "0 < ulp x"
  by (simp add: ulp_def)

lemma ulp_nonzero [simp]: "ulp x \<noteq> 0"
  using ulp_pos [of x] by linarith

lemma round_half_even_int [simp]: "round_half_even (of_int n) = n"
  by (simp add: round_half_even_def Let_def)

lemma round_half_even_near: "\<bar>of_int (round_half_even q) - q\<bar> \<le> 1 / 2"
proof -
  have "of_int \<lfloor>q\<rfloor> \<le> q" "q < of_int \<lfloor>q\<rfloor> + 1" by linarith+
  then show ?thesis by (auto simp: round_half_even_def Let_def)
qed

lemma round_half_even_le: "q \<le> of_int n \<Longrightarrow> round_half_even q \<le> n"
proof -
  assume q: "q \<le> of_int n"
  show "round_half_even q \<le> n"
  proof (cases "q = of_int n")
    case False
    then have "\<lfloor>q\<rfloor> + 1 \<le> n" using q by linarith
    then show ?thesis by (auto simp: round_half_even_def Let_def)
  qed simp
qed

lemma round_half_even_ge: "of_int n \<le> q \<Longrightarrow> n \<le> round_half_even q"
proof -
  assume "of_int n \<le> q"
  then have "n \<le> \<lfloor>q\<rfloor>" by (simp add: le_floor_iff)
  then show ?thesis by (auto simp: round_half_even_def Let_def)
qed

text \<open>Rounding does not cross a value that is representable, in particular a power of two.\<close>

lemma round_abs_le:
  assumes "x \<le> of_int n * ulp x"
  shows "round_abs x \<le> of_int n * ulp x"
proof -
  have "x / ulp x \<le> of_int n" using assms by (simp add: pos_divide_le_eq)
  then have "round_half_even (x / ulp x) \<le> n" by (rule round_half_even_le)
  then show ?thesis by (simp add: round_abs_def)
qed

lemma round_abs_ge:
  assumes "of_int n * ulp x \<le> x"
  shows "of_int n * ulp x \<le> round_abs x"
proof -
  have "of_int n \<le> x / ulp x" using assms by (simp add: pos_le_divide_eq)
  then have "n \<le> round_half_even (x / ulp x)" by (rule round_half_even_ge)
  then show ?thesis by (simp add: round_abs_def)
qed

lemma round_abs_nonneg: "0 \<le> x \<Longrightarrow> 0 \<le> round_abs x"
  using round_abs_ge [of 0 x] by simp

lemma round_abs_near: "\<bar>round_abs x - x\<bar> \<le> ulp x / 2"
proof -
  have "round_abs x - x = (of_int (round_half_even (x / ulp x)) - x / ulp x) * ulp x"
    by (simp add: round_abs_def left_diff_distrib)
  then have "\<bar>round_abs x - x\<bar> = \<bar>of_int (round_half_even (x / ulp x)) - x / ulp x\<bar> * ulp x"
    by (simp add: abs_mult abs_of_pos)
  also have "\<dots> \<le> 1 / 2 * ulp x"
    by (intro mult_right_mono round_half_even_near) (simp add: less_imp_le)
  finally show ?thesis by simp
qed

lemma power_of_two_on_grid:
  assumes "max (binade x) (-126) - 23 \<le> j"
  shows "\<exists>n. (2::rat) powi j = of_int n * ulp x"
proof -
  define d where "d = nat (j - (max (binade x) (-126) - 23))"
  have "j = int d + (max (binade x) (-126) - 23)"
    using assms by (simp add: d_def)
  then have "(2::rat) powi j = 2 ^ d * ulp x"
    by (simp add: ulp_def power_int_add)
  then show ?thesis by (intro exI [of _ "2 ^ d"]) simp
qed

lemma binade_le:
  assumes "0 < x" and "x < 2 powi (j + 1)"
  shows "binade x \<le> j"
proof (rule ccontr)
  assume "\<not> binade x \<le> j"
  then have "(2::rat) powi (j + 1) \<le> 2 powi binade x"
    by (intro power_int_increasing) auto
  then show False using binade_bounds(1) [OF assms(1)] assms(2) by linarith
qed

lemma round_abs_power:
  assumes "0 \<le> x" and "x \<le> 2 ^ k"
  shows "round_abs x \<le> 2 ^ k"
proof (cases "x = 0")
  case True
  then show ?thesis by (simp add: round_abs_def round_half_even_int [of 0, simplified])
next
  case False
  then have "binade x \<le> int k"
    using assms by (intro binade_le) (simp_all add: power_int_add less_le_trans)
  then have "max (binade x) (-126) - 23 \<le> int k" by linarith
  then obtain n where n: "(2::rat) powi int k = of_int n * ulp x"
    using power_of_two_on_grid by blast
  then have "x \<le> of_int n * ulp x" using assms(2) by simp
  from round_abs_le [OF this] n show ?thesis by simp
qed

lemma rnd32_bounded:
  assumes "0 \<le> x" and "x \<le> 2 ^ k" and "k \<le> 127"
  shows "\<exists>y. rnd32 x = Fin y \<and> 0 \<le> y \<and> y \<le> 2 ^ k"
proof (cases "x = 0")
  case True
  then show ?thesis by (simp add: rnd32_def)
next
  case False
  have le: "round_abs x \<le> 2 ^ k" using assms by (intro round_abs_power)
  also have "(2::rat) ^ k < 2 ^ 128" using assms(3) by (intro power_strict_increasing) auto
  finally show ?thesis
    using False assms(1) le round_abs_nonneg [OF assms(1)] by (simp add: rnd32_def Let_def)
qed

lemma round_abs_exact:
  assumes "x = of_int n * 2 powi j" and "0 \<le> n" and "n < 2 ^ 24" and "-149 \<le> j"
  shows "round_abs x = x"
proof (cases "n = 0")
  case True
  then show ?thesis using assms by (simp add: round_abs_def round_half_even_int [of 0, simplified])
next
  case False
  then have x0: "0 < x" using assms by simp
  have "(of_int n :: rat) < 2 ^ 24"
    using assms(3) by (metis of_int_less_iff of_int_numeral of_int_power)
  then have "x < 2 ^ 24 * 2 powi j" using assms(1) by simp
  also have "(2::rat) ^ 24 * 2 powi j = 2 powi ((j + 23) + 1)"
    by (simp add: power_int_add)
  finally have "binade x \<le> j + 23" using x0 by (intro binade_le)
  then have "max (binade x) (-126) - 23 \<le> j" using assms(4) by linarith
  then obtain i where "(2::rat) powi j = of_int i * ulp x"
    using power_of_two_on_grid by blast
  then have "x = of_int (n * i) * ulp x" using assms(1) by simp
  then have "x / ulp x = of_int (n * i)" by (simp add: nonzero_divide_eq_eq)
  then have "round_half_even (x / ulp x) = n * i" by (simp only: round_half_even_int)
  then have "round_abs x = of_int (n * i) * ulp x" by (simp only: round_abs_def)
  then show ?thesis using \<open>x = of_int (n * i) * ulp x\<close> by simp
qed

lemma rnd32_int:
  assumes "\<bar>n\<bar> < 2 ^ 24"
  shows "rnd32 (of_int n) = Fin (of_int n)"
proof -
  have "round_abs \<bar>of_int n\<bar> = \<bar>of_int n\<bar>"
    using assms by (intro round_abs_exact [of _ "\<bar>n\<bar>" 0]) simp_all
  moreover have "(of_int \<bar>n\<bar> :: rat) < 2 ^ 24"
    using assms by (metis of_int_less_iff of_int_numeral of_int_power)
  ultimately show ?thesis
    by (auto simp: rnd32_def Let_def abs_if split: if_splits)
qed

lemma rnd32_half_int:
  assumes "0 \<le> n" and "n < 2 ^ 24"
  shows "rnd32 (of_int n / 2) = Fin (of_int n / 2)"
proof -
  have "round_abs (of_int n / 2) = of_int n / 2"
    using assms by (intro round_abs_exact [of _ n "-1"]) (simp_all add: power_int_minus field_simps)
  moreover have "(of_int n :: rat) < 2 ^ 24"
    using assms(2) by (metis of_int_less_iff of_int_numeral of_int_power)
  ultimately show ?thesis
    using assms(1) by (auto simp: rnd32_def Let_def)
qed

text \<open>The relative error of a rounded value of at least \<open>2^-126\<close>.\<close>

lemma round_abs_error:
  assumes "0 < x" and "2 powi (-126) \<le> x"
  shows "\<bar>round_abs x - x\<bar> \<le> x / 2 ^ 24"
proof -
  have "-126 \<le> binade x"
  proof (rule ccontr)
    assume "\<not> -126 \<le> binade x"
    then have "(2::rat) powi (binade x + 1) \<le> 2 powi (-126)"
      by (intro power_int_increasing) auto
    then show False using binade_bounds(2) [OF assms(1)] assms(2) by linarith
  qed
  then have "ulp x = 2 powi binade x / 2 ^ 23"
    by (simp add: ulp_def max_def power_int_diff)
  also have "\<dots> \<le> x / 2 ^ 23"
    using binade_bounds(1) [OF assms(1)] by (simp add: divide_right_mono)
  finally show ?thesis using round_abs_near [of x] by simp
qed

section \<open>Ranges of the operations\<close>

text \<open>Values between 0 and \<open>2^k\<close>, and what the operations make of them.\<close>

definition upto_pow :: "nat \<Rightarrow> gfloat \<Rightarrow> bool" where
  "upto_pow k x \<longleftrightarrow> (\<exists>y. x = Fin y \<and> 0 \<le> y \<and> y \<le> 2 ^ k)"

lemma upto_pow_rnd32: "0 \<le> x \<Longrightarrow> x \<le> 2 ^ k \<Longrightarrow> k \<le> 127 \<Longrightarrow> upto_pow k (rnd32 x)"
  using rnd32_bounded [of x k] by (auto simp: upto_pow_def)

lemma upto_pow_float_of_sint:
  assumes "unat (w :: u32) \<le> 2 ^ k" and "k \<le> 30"
  shows "upto_pow k (float_of_sint w)"
proof -
  have "(2::nat) ^ k \<le> 2 ^ 30" using assms(2) by (intro power_increasing) auto
  then have "sint w = int (unat w)" using assms(1) by (intro sint_small) simp
  moreover have "(of_nat (unat w) :: rat) \<le> 2 ^ k"
    using assms(1) by (metis of_nat_le_iff of_nat_numeral of_nat_power)
  moreover have "upto_pow k (rnd32 (of_nat (unat w)))"
    using calculation(2) assms(2) by (intro upto_pow_rnd32) (simp_all del: of_nat_unat)
  ultimately show ?thesis by (simp add: float_of_sint_def)
qed

lemma upto_pow_float_of_uint: "upto_pow 32 (float_of_uint w)"
proof -
  have "uint w < 2 ^ 32" using uint_lt2p [of w] by simp
  then have "(of_int (uint w) :: rat) \<le> 2 ^ 32"
    by (metis less_imp_le of_int_le_iff of_int_numeral of_int_power)
  then show ?thesis
    unfolding float_of_uint_def by (intro upto_pow_rnd32) (simp_all del: of_int_uint)
qed

lemma upto_pow_fmul:
  assumes "upto_pow k x" and "upto_pow j y" and "k + j \<le> 127"
  shows "upto_pow (k + j) (fmul x y)"
proof -
  obtain a b where ab: "x = Fin a" "0 \<le> a" "a \<le> 2 ^ k" "y = Fin b" "0 \<le> b" "b \<le> 2 ^ j"
    using assms by (auto simp: upto_pow_def)
  then have "a * b \<le> 2 ^ k * 2 ^ j" by (intro mult_mono) auto
  then show ?thesis
    using ab assms(3) by (simp add: upto_pow_rnd32 power_add)
qed

lemma upto_pow_Fin: "0 \<le> y \<Longrightarrow> y \<le> 2 ^ k \<Longrightarrow> upto_pow k (Fin y)"
  by (simp add: upto_pow_def)

lemma floor_upto_pow:
  assumes "0 \<le> y" and "y \<le> (2::rat) ^ k"
  shows "0 \<le> trunc y" "trunc y \<le> 2 ^ k"
proof -
  have "\<lfloor>y\<rfloor> \<le> \<lfloor>(2::rat) ^ k\<rfloor>" using assms(2) by (rule floor_mono)
  moreover have "\<lfloor>(2::rat) ^ k\<rfloor> = 2 ^ k"
    by (metis floor_of_int of_int_numeral of_int_power)
  ultimately show "0 \<le> trunc y" "trunc y \<le> 2 ^ k"
    using assms(1) by (simp_all add: trunc_def)
qed

lemma unat_of_trunc:
  assumes "0 \<le> t" and "t \<le> 2 ^ k" and "k < 32"
  shows "unat (word_of_int t :: u32) = nat t"
proof -
  have "(2::int) ^ k < 2 ^ 32" using assms(3) by (intro power_strict_increasing) auto
  then have "t < 2 ^ 32" using assms(2) by linarith
  then have "uint (word_of_int t :: u32) = t"
    using assms(1) by (simp add: uint_word_of_int)
  then show ?thesis by (metis nat_uint_eq)
qed

lemma upto_pow_to_uint:
  assumes "upto_pow k x" and "k < 32"
  shows "\<exists>w. float_to_uint x = Inr w \<and> unat w \<le> 2 ^ k"
proof -
  obtain y where y: "x = Fin y" "0 \<le> y" "y \<le> 2 ^ k"
    using assms by (auto simp: upto_pow_def)
  have t: "0 \<le> trunc y" "trunc y \<le> 2 ^ k" using floor_upto_pow [OF y(2,3)] by auto
  have "(2::int) ^ k < 2 ^ 32" using assms(2) by (intro power_strict_increasing) auto
  then have "trunc y < 2 ^ 32" using t by linarith
  moreover have "nat (trunc y) \<le> 2 ^ k"
    using t(2) by (simp add: nat_le_iff)
  ultimately show ?thesis
    using y(1) t unat_of_trunc [OF t assms(2)] by simp
qed

lemma upto_pow_to_sint:
  assumes "upto_pow k x" and "k < 31"
  shows "\<exists>w. float_to_sint x = Inr w \<and> unat w \<le> 2 ^ k"
proof -
  obtain y where y: "x = Fin y" "0 \<le> y" "y \<le> 2 ^ k"
    using assms by (auto simp: upto_pow_def)
  have t: "0 \<le> trunc y" "trunc y \<le> 2 ^ k" using floor_upto_pow [OF y(2,3)] by auto
  have "(2::int) ^ k < 2 ^ 31" using assms(2) by (intro power_strict_increasing) auto
  then have "trunc y < 2 ^ 31" "- (2 ^ 31) \<le> trunc y" using t by linarith+
  moreover have "nat (trunc y) \<le> 2 ^ k"
    using t(2) by (simp add: nat_le_iff)
  ultimately show ?thesis
    using y(1) t unat_of_trunc [OF t] assms(2) by simp
qed

end
