(* ===== verification/GstValue.thy ===== *)
theory GstValue
  imports CFloat
begin

text \<open>
  GStreamer's structures as the program uses them: named fields holding values of a fixed
  type. A typed getter finds a field only when the value has exactly that type.
\<close>

datatype gvalue =
    GUint u32 | GInt u32 | GUint64 u64 | GFloat gfloat | GString string | GBool bool
  | GIntRange u32 u32

type_synonym gst_structure = "string \<Rightarrow> gvalue option"

fun gst_structure_get_uint :: "gst_structure \<Rightarrow> string \<Rightarrow> u32 option" where
  "gst_structure_get_uint s field = (case s field of Some (GUint x) \<Rightarrow> Some x | _ \<Rightarrow> None)"

fun gst_structure_get_int :: "gst_structure \<Rightarrow> string \<Rightarrow> u32 option" where
  "gst_structure_get_int s field = (case s field of Some (GInt x) \<Rightarrow> Some x | _ \<Rightarrow> None)"

fun gst_structure_get_uint64 :: "gst_structure \<Rightarrow> string \<Rightarrow> u64 option" where
  "gst_structure_get_uint64 s field = (case s field of Some (GUint64 x) \<Rightarrow> Some x | _ \<Rightarrow> None)"

fun gst_structure_get_float :: "gst_structure \<Rightarrow> string \<Rightarrow> gfloat option" where
  "gst_structure_get_float s field = (case s field of Some (GFloat x) \<Rightarrow> Some x | _ \<Rightarrow> None)"

text \<open>A variable that keeps its initial value when the getter fails.\<close>

definition or_else :: "'a option \<Rightarrow> 'a \<Rightarrow> 'a" where
  "or_else x d = (case x of Some v \<Rightarrow> v | None \<Rightarrow> d)"

lemma or_else_simps [simp]: "or_else (Some v) d = v" "or_else None d = d"
  by (simp_all add: or_else_def)

end
