(* ===== verification/RembEvents.thy ===== *)
theory RembEvents
  imports GstValue
begin

text \<open>
  REMB events and their manager (\<open>kmsutils.c\<close>). A REMB estimation travels upstream as a
  custom event; a manager put on a pad keeps the last estimation of every SSRC, forgets the
  ones older than its clear interval, and tells the minimum of the rest. The clock is read
  inside the operations, up to three times in one of them: each reading is an argument.
  \<open>rem_log\<close> records what the callback was called with, \<open>rem_freed\<close> the user data that
  was destroyed.
\<close>

section \<open>The event\<close>

record gst_event =
  ge_custom_upstream :: bool
  ge_name :: string
  ge_fields :: gst_structure

definition KMS_REMB_EVENT_NAME :: string where
  "KMS_REMB_EVENT_NAME = ''REMB''"

definition kms_utils_remb_event_upstream_new :: "u32 \<Rightarrow> u32 \<Rightarrow> gst_event" where
  "kms_utils_remb_event_upstream_new bitrate ssrc =
     \<lparr>ge_custom_upstream = True, ge_name = KMS_REMB_EVENT_NAME,
      ge_fields = [''bitrate'' \<mapsto> GUint bitrate, ''ssrc'' \<mapsto> GUint ssrc]\<rparr>"

definition kms_utils_is_remb_event_upstream :: "gst_event \<Rightarrow> bool" where
  "kms_utils_is_remb_event_upstream ev =
     (if \<not> ge_custom_upstream ev then False else ge_name ev = KMS_REMB_EVENT_NAME)"

text \<open>The two results are variables of the caller; the first may be written on failure.\<close>

definition kms_utils_remb_event_upstream_parse ::
    "gst_event \<Rightarrow> u32 \<times> u32 \<Rightarrow> (u32 \<times> u32) \<times> bool" where
  "kms_utils_remb_event_upstream_parse ev out =
     (if \<not> kms_utils_is_remb_event_upstream ev then (out, False)
      else case gst_structure_get_uint (ge_fields ev) ''bitrate'' of
          None \<Rightarrow> (out, False)
        | Some b \<Rightarrow>
            (case gst_structure_get_uint (ge_fields ev) ''ssrc'' of
               None \<Rightarrow> ((b, snd out), False)
             | Some s \<Rightarrow> ((b, s), True)))"

lemma parse_new [simp]:
  "kms_utils_remb_event_upstream_parse (kms_utils_remb_event_upstream_new b s) out = ((b, s), True)"
  by (simp add: kms_utils_remb_event_upstream_parse_def kms_utils_remb_event_upstream_new_def
      kms_utils_is_remb_event_upstream_def)

section \<open>The manager\<close>

definition GST_CLOCK_TIME_NONE :: u64 where
  "GST_CLOCK_TIME_NONE = - 1"

definition GST_SECOND :: u64 where "GST_SECOND = 1000000000"

definition DEFAULT_CLEAR_INTERVAL :: u64 where
  "DEFAULT_CLEAR_INTERVAL = 10 * 1000000000"

type_synonym remb_hash = "(u32, u32 \<times> u64) hash_table"

record 'd remb_event_manager =
  rem_min :: u32
  rem_hash :: remb_hash
  rem_oldest :: u64
  rem_interval :: u64
  rem_callback :: bool
  rem_user :: "'d option"
  rem_user_destroy :: bool
  rem_log :: "u32 list"
  rem_freed :: "'d list"

definition remb_hash_value_create :: "u64 \<Rightarrow> u32 \<Rightarrow> u32 \<times> u64" where
  "remb_hash_value_create now bitrate = (bitrate, now)"

definition remb_event_manager_set_min ::
    "u32 \<Rightarrow> 'd remb_event_manager \<Rightarrow> 'd remb_event_manager" where
  "remb_event_manager_set_min mn m =
     (if rem_min m \<noteq> mn then
        (if rem_callback m then m\<lparr>rem_min := mn, rem_log := rem_log m @ [mn]\<rparr>
         else m\<lparr>rem_min := mn\<rparr>)
      else m)"

text \<open>The loop over the table: the minimum so far, the oldest time so far, the entries kept.\<close>

fun calc_loop :: "u64 \<Rightarrow> u64 \<Rightarrow> remb_hash \<Rightarrow> u32 \<Rightarrow> u64 \<Rightarrow> u32 \<times> u64 \<times> remb_hash" where
  "calc_loop now itv [] mn old = (mn, old, [])"
| "calc_loop now itv ((k, br, ts) # h) mn old =
     (if now - ts > itv then calc_loop now itv h mn old
      else case calc_loop now itv h (if mn = 0 then br else min mn br) (min old ts) of
             (mn', old', h') \<Rightarrow> (mn', old', (k, br, ts) # h'))"

definition remb_event_manager_calc_min ::
    "u64 \<Rightarrow> u32 \<Rightarrow> 'd remb_event_manager \<Rightarrow> 'd remb_event_manager" where
  "remb_event_manager_calc_min now default_min m =
     (case calc_loop now (rem_interval m) (rem_hash m) 0 GST_CLOCK_TIME_NONE of
        (mn, old, h) \<Rightarrow>
          remb_event_manager_set_min (if mn = 0 \<and> default_min > 0 then default_min else mn)
            (m\<lparr>rem_hash := h, rem_oldest := old\<rparr>))"

text \<open>\<open>t0\<close>, \<open>t1\<close>, \<open>t2\<close>: the clock on entry, at the time stamp, inside the recalculation.\<close>

definition remb_event_manager_update_min ::
    "u64 \<Rightarrow> u64 \<Rightarrow> u64 \<Rightarrow> u32 \<Rightarrow> u32 \<Rightarrow> 'd remb_event_manager \<Rightarrow> 'd remb_event_manager" where
  "remb_event_manager_update_min t0 t1 t2 bitrate ssrc m =
     (let new_br = (case map_of (rem_hash m) ssrc of Some v \<Rightarrow> bitrate \<noteq> fst v | None \<Rightarrow> True);
          m1 = m\<lparr>rem_hash := AList.update ssrc (remb_hash_value_create t1 bitrate) (rem_hash m)\<rparr>
      in if bitrate < rem_min m1 then remb_event_manager_set_min bitrate m1
         else if (new_br \<and> bitrate > rem_min m1) \<or> t0 - rem_oldest m1 > rem_interval m1
         then remb_event_manager_calc_min t2 bitrate m1
         else m1)"


definition remb_probe ::
    "u64 \<Rightarrow> u64 \<Rightarrow> u64 \<Rightarrow> gst_event \<Rightarrow> 'd remb_event_manager \<Rightarrow>
     'd remb_event_manager \<times> probe_return" where
  "remb_probe t0 t1 t2 ev m =
     (case kms_utils_remb_event_upstream_parse ev (0, 0) of
        (_, False) \<Rightarrow> (m, Probe_ok)
      | ((bitrate, ssrc), True) \<Rightarrow>
          (remb_event_manager_update_min t0 t1 t2 bitrate ssrc m, Probe_drop))"

definition kms_utils_remb_event_manager_create :: "u64 \<Rightarrow> 'd remb_event_manager" where
  "kms_utils_remb_event_manager_create now =
     \<lparr>rem_min = 0, rem_hash = [], rem_oldest = now, rem_interval = DEFAULT_CLEAR_INTERVAL,
      rem_callback = False, rem_user = None, rem_user_destroy = False, rem_log = [],
      rem_freed = []\<rparr>"

definition kms_utils_remb_event_manager_destroy_user_data ::
    "'d remb_event_manager \<Rightarrow> 'd remb_event_manager" where
  "kms_utils_remb_event_manager_destroy_user_data m =
     m\<lparr>rem_freed := (case rem_user m of
           Some d \<Rightarrow> if rem_user_destroy m then rem_freed m @ [d] else rem_freed m
         | None \<Rightarrow> rem_freed m),
       rem_user := None, rem_user_destroy := False\<rparr>"

definition kms_utils_remb_event_manager_get_min ::
    "u64 \<Rightarrow> u64 \<Rightarrow> 'd remb_event_manager \<Rightarrow> 'd remb_event_manager \<times> u32" where
  "kms_utils_remb_event_manager_get_min t0 t2 m =
     (let m' = (if t0 - rem_oldest m > rem_interval m
                then remb_event_manager_calc_min t2 0 m else m)
      in (m', rem_min m'))"

definition kms_utils_remb_event_manager_set_callback ::
    "bool \<Rightarrow> 'd option \<Rightarrow> bool \<Rightarrow> 'd remb_event_manager \<Rightarrow> 'd remb_event_manager" where
  "kms_utils_remb_event_manager_set_callback cb data destroy_notify m =
     (kms_utils_remb_event_manager_destroy_user_data m)
       \<lparr>rem_user := data, rem_user_destroy := destroy_notify, rem_callback := cb\<rparr>"

definition kms_utils_remb_event_manager_set_clear_interval ::
    "u64 \<Rightarrow> 'd remb_event_manager \<Rightarrow> 'd remb_event_manager" where
  "kms_utils_remb_event_manager_set_clear_interval itv m = m\<lparr>rem_interval := itv\<rparr>"

definition kms_utils_remb_event_manager_get_clear_interval :: "'d remb_event_manager \<Rightarrow> u64" where
  "kms_utils_remb_event_manager_get_clear_interval m = rem_interval m"

section \<open>The recalculation\<close>

definition fresh :: "u64 \<Rightarrow> u64 \<Rightarrow> u32 \<times> u64 \<Rightarrow> bool" where
  "fresh now itv v \<longleftrightarrow> now - snd v \<le> itv"

definition bitrates :: "remb_hash \<Rightarrow> u32 set" where
  "bitrates h = (fst \<circ> snd) ` set h"

definition min_or_zero :: "u32 set \<Rightarrow> u32" where
  "min_or_zero S = (if S = {} then 0 else Min S)"

lemma bitrates_simps [simp]:
  "bitrates [] = {}" "bitrates ((k, v) # h) = insert (fst v) (bitrates h)"
  "finite (bitrates h)" "bitrates h = {} \<longleftrightarrow> h = []"
  by (auto simp: bitrates_def)

lemma Min_insert_min:
  "finite S \<Longrightarrow> Min (insert (min a b) S) = Min (insert a (insert b S))"
  by (cases "S = {}") (simp_all add: min.assoc)

lemma calc_loop_Cons:
  "calc_loop now itv ((k, v) # h) mn old =
     (if fresh now itv v
      then (let r = calc_loop now itv h (if mn = 0 then fst v else min mn (fst v)) (min old (snd v))
            in (fst r, fst (snd r), (k, v) # snd (snd r)))
      else calc_loop now itv h mn old)"
  by (cases v) (auto simp: fresh_def Let_def split: prod.splits)

lemma calc_loop_hash:
  "snd (snd (calc_loop now itv h mn old)) = filter (\<lambda>p. fresh now itv (snd p)) h"
  by (induction h arbitrary: mn old)
    (auto simp: calc_loop_Cons Let_def simp del: calc_loop.simps(2))

lemma calc_loop_oldest:
  "fst (snd (calc_loop now itv h mn old)) =
     Min (insert old ((snd \<circ> snd) ` set (filter (\<lambda>p. fresh now itv (snd p)) h)))"
proof (induction h arbitrary: mn old)
  case Nil
  then show ?case by simp
next
  case (Cons p h)
  obtain k v where p: "p = (k, v)" by (cases p)
  let ?S = "(snd \<circ> snd) ` set (filter (\<lambda>p. fresh now itv (snd p)) h)"
  have "Min (insert (min old (snd v)) ?S) = Min (insert old (insert (snd v) ?S))"
    by (rule Min_insert_min) simp
  then show ?case
    using Cons p by (simp add: calc_loop_Cons Let_def del: calc_loop.simps(2) Min_insert Min.insert_not_elem)
qed

lemma calc_loop_min:
  assumes "0 \<notin> bitrates h"
  shows "fst (calc_loop now itv h mn old) =
     (if mn = 0 then min_or_zero (bitrates (filter (\<lambda>p. fresh now itv (snd p)) h))
      else Min (insert mn (bitrates (filter (\<lambda>p. fresh now itv (snd p)) h))))"
  using assms
proof (induction h arbitrary: mn old)
  case Nil
  then show ?case by (simp add: min_or_zero_def)
next
  case (Cons p h)
  obtain k v where p: "p = (k, v)" by (cases p)
  let ?S = "bitrates (filter (\<lambda>p. fresh now itv (snd p)) h)"
  have v: "fst v \<noteq> 0" using Cons.prems p by auto
  then have nz: "mn \<noteq> 0 \<Longrightarrow> min mn (fst v) \<noteq> 0" by (simp add: min_def)
  have "Min (insert (min mn (fst v)) ?S) = Min (insert mn (insert (fst v) ?S))"
    by (rule Min_insert_min) simp
  then show ?case
    using Cons p v nz
    by (simp add: calc_loop_Cons Let_def min_or_zero_def del: calc_loop.simps(2) Min_insert)
qed

lemma calc_min_eq:
  fixes now :: u64 and d :: u32 and m :: "'d remb_event_manager"
  assumes "0 \<notin> bitrates (rem_hash m)"
  defines "h \<equiv> filter (\<lambda>p. fresh now (rem_interval m) (snd p)) (rem_hash m)"
  shows "remb_event_manager_calc_min now d m =
    remb_event_manager_set_min (if h = [] then d else min_or_zero (bitrates h))
      (m\<lparr>rem_hash := h, rem_oldest := Min (insert GST_CLOCK_TIME_NONE ((snd \<circ> snd) ` set h))\<rparr>)"
proof -
  obtain mn old h' where c: "calc_loop now (rem_interval m) (rem_hash m) 0 GST_CLOCK_TIME_NONE = (mn, old, h')"
    by (cases "calc_loop now (rem_interval m) (rem_hash m) 0 GST_CLOCK_TIME_NONE")
  have "mn = min_or_zero (bitrates h)" "h' = h"
      "old = Min (insert GST_CLOCK_TIME_NONE ((snd \<circ> snd) ` set h))"
    using calc_loop_min [OF assms(1), of now "rem_interval m" 0 GST_CLOCK_TIME_NONE]
      calc_loop_hash [of now "rem_interval m" "rem_hash m" 0 GST_CLOCK_TIME_NONE]
      calc_loop_oldest [of now "rem_interval m" "rem_hash m" 0 GST_CLOCK_TIME_NONE]
    by (simp_all add: c h_def)
  moreover have "h \<noteq> [] \<Longrightarrow> min_or_zero (bitrates h) \<noteq> 0"
  proof -
    assume "h \<noteq> []"
    then have "Min (bitrates h) \<in> bitrates h" by (intro Min_in) simp_all
    moreover have "bitrates h \<subseteq> bitrates (rem_hash m)"
      by (auto simp: h_def bitrates_def)
    ultimately have "Min (bitrates h) \<noteq> 0"
      using assms(1) by (metis subsetD)
    then show ?thesis
      using \<open>h \<noteq> []\<close> by (simp add: min_or_zero_def)
  qed
  ultimately show ?thesis
    by (auto simp: remb_event_manager_calc_min_def c min_or_zero_def word_gt_0)
qed

lemma set_min_fields [simp]:
  "rem_min (remb_event_manager_set_min x m) = x"
  "rem_hash (remb_event_manager_set_min x m) = rem_hash m"
  "rem_oldest (remb_event_manager_set_min x m) = rem_oldest m"
  "rem_interval (remb_event_manager_set_min x m) = rem_interval m"
  "rem_callback (remb_event_manager_set_min x m) = rem_callback m"
  by (simp_all add: remb_event_manager_set_min_def)

section \<open>The invariant\<close>

text \<open>
  \<open>rep\<close> is what the network reported last for every SSRC and when. The table holds a part
  of it; what is missing from the table is older than the clear interval.
\<close>

type_synonym reports = "u32 \<Rightarrow> (u32 \<times> u64) option"

definition rem_inv :: "'d remb_event_manager \<times> reports \<times> u64 \<Rightarrow> bool" where
  "rem_inv s \<longleftrightarrow> (case s of (m, rep, now) \<Rightarrow>
     hash_ok (rem_hash m) \<and> 0 \<notin> bitrates (rem_hash m) \<and>
     rem_min m = min_or_zero (bitrates (rem_hash m)) \<and>
     (\<forall>p \<in> set (rem_hash m). rem_oldest m \<le> snd (snd p)) \<and>
     map_of (rem_hash m) \<subseteq>\<^sub>m rep \<and>
     (\<forall>k v. rep k = Some v \<longrightarrow> snd v \<le> now) \<and>
     (\<forall>k v. rep k = Some v \<longrightarrow> map_of (rem_hash m) k = None \<longrightarrow> \<not> fresh now (rem_interval m) v))"

datatype rem_op =
    Report u64 u64 u64 u32 u32
  | Query u64 u64
  | Shorten u64

fun rem_step ::
    "'d remb_event_manager \<times> reports \<times> u64 \<Rightarrow> rem_op \<Rightarrow> 'd remb_event_manager \<times> reports \<times> u64" where
  "rem_step (m, rep, now) (Report t0 t1 t2 br ssrc) =
     (remb_event_manager_update_min t0 t1 t2 br ssrc m, rep(ssrc \<mapsto> (br, t1)), t2)"
| "rem_step (m, rep, now) (Query t0 t2) =
     (fst (kms_utils_remb_event_manager_get_min t0 t2 m), rep, t2)"
| "rem_step (m, rep, now) (Shorten itv) =
     (kms_utils_remb_event_manager_set_clear_interval itv m, rep, now)"

text \<open>
  The clock does not run backwards, an operation does not last longer than the clear interval,
  an estimation is not zero, and the clear interval is only made shorter.
\<close>

fun rem_allowed :: "'d remb_event_manager \<times> reports \<times> u64 \<Rightarrow> rem_op \<Rightarrow> bool" where
  "rem_allowed (m, rep, now) (Report t0 t1 t2 br ssrc) =
     (now \<le> t0 \<and> t0 \<le> t1 \<and> t1 \<le> t2 \<and> t2 - t1 \<le> rem_interval m \<and> br \<noteq> 0)"
| "rem_allowed (m, rep, now) (Query t0 t2) = (now \<le> t0 \<and> t0 \<le> t2)"
| "rem_allowed (m, rep, now) (Shorten itv) = (itv \<le> rem_interval m)"

lemma age_mono:
  fixes ts now now' :: u64
  assumes "ts \<le> now" and "now \<le> now'"
  shows "now - ts \<le> now' - ts"
  using assms by (simp add: word_le_minus_mono_left)

lemma stale_mono:
  "snd v \<le> now \<Longrightarrow> now \<le> now' \<Longrightarrow> itv' \<le> itv \<Longrightarrow> \<not> fresh now itv v \<Longrightarrow> \<not> fresh now' itv' v"
  using age_mono [of "snd v" now now'] by (auto simp: fresh_def)

text \<open>A report enters the table: what the fields are before the minimum is looked at.\<close>

lemma filter_map_of:
  "hash_ok h \<Longrightarrow> map_of (filter (\<lambda>p. P (snd p)) h) k =
     (case map_of h k of Some v \<Rightarrow> if P v then Some v else None | None \<Rightarrow> None)"
proof (induction h)
  case Nil
  then show ?case by simp
next
  case (Cons p h)
  obtain k' v' where p: "p = (k', v')" by (cases p)
  have "hash_ok h" "map_of h k' = None"
    using Cons.prems p by (auto simp: hash_ok_def map_of_eq_None_iff)
  then show ?case
    using Cons.IH p by (auto split: option.splits)
qed

text \<open>
  The recalculation restores the invariant whatever the minimum and the oldest time were,
  as long as it leaves an entry or its default is zero.
\<close>

definition rem_table_ok :: "'d remb_event_manager \<times> reports \<times> u64 \<Rightarrow> bool" where
  "rem_table_ok s \<longleftrightarrow> (case s of (m, rep, now) \<Rightarrow>
     hash_ok (rem_hash m) \<and> 0 \<notin> bitrates (rem_hash m) \<and>
     map_of (rem_hash m) \<subseteq>\<^sub>m rep \<and>
     (\<forall>k v. rep k = Some v \<longrightarrow> snd v \<le> now) \<and>
     (\<forall>k v. rep k = Some v \<longrightarrow> map_of (rem_hash m) k = None \<longrightarrow> \<not> fresh now (rem_interval m) v))"

lemma rem_inv_table: "rem_inv s \<Longrightarrow> rem_table_ok s"
  by (auto simp: rem_inv_def rem_table_ok_def)

lemma calc_min_restores:
  assumes tab: "rem_table_ok (m, rep, now)"
    and d: "d = 0 \<or> (\<exists>p \<in> set (rem_hash m). fresh now (rem_interval m) (snd p))"
  shows "rem_inv (remb_event_manager_calc_min now d m, rep, now)"
proof -
  define h where "h = filter (\<lambda>p. fresh now (rem_interval m) (snd p)) (rem_hash m)"
  have ok: "hash_ok (rem_hash m)" and nz: "0 \<notin> bitrates (rem_hash m)"
    and sub: "map_of (rem_hash m) \<subseteq>\<^sub>m rep"
    and past: "\<And>k v. rep k = Some v \<Longrightarrow> snd v \<le> now"
    and gone: "\<And>k v. rep k = Some v \<Longrightarrow> map_of (rem_hash m) k = None \<Longrightarrow> \<not> fresh now (rem_interval m) v"
    using tab by (auto simp: rem_table_ok_def)
  have find: "map_of h k = (case map_of (rem_hash m) k of
      Some v \<Rightarrow> if fresh now (rem_interval m) v then Some v else None | None \<Rightarrow> None)" for k
    unfolding h_def using ok by (rule filter_map_of)
  have mn: "(if h = [] then d else min_or_zero (bitrates h)) = min_or_zero (bitrates h)"
    using d by (auto simp: h_def min_or_zero_def filter_empty_conv)
  have "hash_ok h" "0 \<notin> bitrates h"
    using ok nz by (auto simp: h_def bitrates_def)
  moreover have "\<forall>p \<in> set h. Min (insert GST_CLOCK_TIME_NONE ((snd \<circ> snd) ` set h)) \<le> snd (snd p)"
    by (auto intro!: Min_le image_eqI)
  moreover have "map_of h \<subseteq>\<^sub>m rep"
    using sub by (auto simp: map_le_def find dom_def split: option.splits if_splits)
  moreover have "rep k = Some v \<Longrightarrow> map_of h k = None \<Longrightarrow> \<not> fresh now (rem_interval m) v" for k v
  proof (cases "map_of (rem_hash m) k")
    case None
    then show "rep k = Some v \<Longrightarrow> ?thesis" using gone by blast
  next
    case (Some w)
    then have "rep k = Some w" using sub by (force simp: map_le_def)
    then show "rep k = Some v \<Longrightarrow> map_of h k = None \<Longrightarrow> ?thesis"
      using Some by (auto simp: find split: if_splits)
  qed
  ultimately show ?thesis
    using past mn calc_min_eq [OF nz, where now = now and d = d]
    by (auto simp: rem_inv_def h_def [symmetric])
qed

lemma rem_table_later:
  "rem_table_ok (m, rep, now) \<Longrightarrow> now \<le> now' \<Longrightarrow> rem_table_ok (m, rep, now')"
  unfolding rem_table_ok_def prod.case using stale_mono [OF _ _ order_refl] order_trans by blast

lemma rem_inv_later: "rem_inv (m, rep, now) \<Longrightarrow> now \<le> now' \<Longrightarrow> rem_inv (m, rep, now')"
  using rem_table_later [of m rep now now'] by (auto simp: rem_inv_def rem_table_ok_def)

lemma bitrates_update:
  assumes "hash_ok h"
  shows "bitrates (AList.update k v h) = insert (fst v) (bitrates (filter (\<lambda>p. fst p \<noteq> k) h))"
  by (auto simp: bitrates_def hash_update_set [OF assms] image_iff)

lemma report_table:
  fixes t1 :: u64
  assumes "rem_table_ok (m, rep, now)" and "now \<le> t1" and "br \<noteq> 0"
  shows "rem_table_ok (m\<lparr>rem_hash := AList.update ssrc (br, t1) (rem_hash m)\<rparr>,
    rep(ssrc \<mapsto> (br, t1)), t1)"
proof -
  have tab: "rem_table_ok (m, rep, t1)"
    using assms(1,2) by (rule rem_table_later)
  then have ok: "hash_ok (rem_hash m)" by (simp add: rem_table_ok_def)
  have "bitrates (AList.update ssrc (br, t1) (rem_hash m)) \<subseteq> insert br (bitrates (rem_hash m))"
    unfolding bitrates_update [OF ok] by (auto simp: bitrates_def)
  then show ?thesis
    using tab assms(3) ok by (auto simp: rem_table_ok_def map_le_def)
qed

lemma lower_bound_of_min:
  "0 \<notin> bitrates h \<Longrightarrow> b \<in> bitrates h \<Longrightarrow> min_or_zero (bitrates h) \<le> b"
  by (auto simp: min_or_zero_def)

text \<open>When no recalculation is needed the cached minimum is the minimum.\<close>

lemma report_min:
  assumes inv: "rem_inv (m, rep, now)" and br: "br \<noteq> 0"
    and same: "rem_min m \<le> br \<Longrightarrow>
      br = rem_min m \<or> (\<exists>v. map_of (rem_hash m) ssrc = Some v \<and> fst v = br)"
  shows "min_or_zero (bitrates (AList.update ssrc (br, t1) (rem_hash m))) = min br (rem_min m)
    \<and> rem_hash m \<noteq> []"
proof -
  let ?h = "rem_hash m" and ?others = "bitrates (filter (\<lambda>p. fst p \<noteq> ssrc) (rem_hash m))"
  have ok: "hash_ok ?h" and nz: "0 \<notin> bitrates ?h" and mn: "rem_min m = min_or_zero (bitrates ?h)"
    using inv by (auto simp: rem_inv_def)
  have ne: "?h \<noteq> []"
  proof
    assume "?h = []"
    then have "rem_min m = 0" using mn by (simp add: min_or_zero_def)
    then show False using same br \<open>?h = []\<close> by simp
  qed
  then have Min: "rem_min m = Min (bitrates ?h)" by (simp add: mn min_or_zero_def)
  have low: "b \<in> bitrates ?h \<Longrightarrow> rem_min m \<le> b" for b
    using Min by simp
  have sub: "?others \<subseteq> bitrates ?h" by (auto simp: bitrates_def)
  have new: "bitrates (AList.update ssrc (br, t1) ?h) = insert br ?others"
    using bitrates_update [OF ok] by simp
  have "Min (insert br ?others) = min br (rem_min m)"
  proof (cases "rem_min m < br")
    case True
    then have "br \<noteq> rem_min m" "rem_min m \<le> br" by simp_all
    then obtain v where v: "map_of ?h ssrc = Some v" "fst v = br"
      using same by blast
    have "rem_min m \<in> bitrates ?h" using Min ne by (simp add: Min_in)
    then obtain k w where kw: "(k, w) \<in> set ?h" "fst w = rem_min m"
      by (auto simp: bitrates_def)
    have "k \<noteq> ssrc"
      using kw v True hash_in_iff [OF ok, of k w] by auto
    then have "rem_min m \<in> ?others" using kw by (force simp: bitrates_def)
    then have "Min (insert br ?others) = rem_min m"
      using low sub True by (intro Min_eqI) auto
    then show ?thesis using True by simp
  next
    case False
    then have "Min (insert br ?others) = br"
      using low sub by (intro Min_eqI) (auto, meson not_less order_trans subsetD)
    then show ?thesis using False by (auto simp: min_def)
  qed
  then show ?thesis using new ne by (simp add: min_or_zero_def)
qed

text \<open>Every entry of the table is the last report of its SSRC.\<close>

lemma rem_inv_known:
  assumes "rem_inv (m, rep, now)" and "p \<in> set (rem_hash m)"
  shows "rep (fst p) = Some (snd p)"
proof -
  have "map_of (rem_hash m) (fst p) = Some (snd p)"
    using assms hash_in_iff [of "rem_hash m" "fst p" "snd p"] by (simp add: rem_inv_def)
  moreover have "map_of (rem_hash m) \<subseteq>\<^sub>m rep"
    using assms(1) by (simp add: rem_inv_def)
  ultimately show ?thesis by (metis domI map_le_def)
qed

lemma rem_inv_times:
  assumes "rem_inv (m, rep, now)" and "p \<in> set (rem_hash m)"
  shows "rem_oldest m \<le> snd (snd p)" "snd (snd p) \<le> now"
  using assms(1) rem_inv_known [OF assms] assms(2) unfolding rem_inv_def prod.case by blast+

lemma update_min_keeps:
  fixes t0 t1 t2 :: u64
  assumes inv: "rem_inv (m, rep, now)" and t: "now \<le> t0" "t0 \<le> t1" "t1 \<le> t2"
    and short: "t2 - t1 \<le> rem_interval m" and br: "br \<noteq> 0"
  shows "rem_inv (remb_event_manager_update_min t0 t1 t2 br ssrc m, rep(ssrc \<mapsto> (br, t1)), t2)"
proof -
  let ?m1 = "m\<lparr>rem_hash := AList.update ssrc (br, t1) (rem_hash m)\<rparr>"
  let ?rep = "rep(ssrc \<mapsto> (br, t1))"
  have tab: "rem_table_ok (?m1, ?rep, t2)"
    using report_table [OF rem_inv_table [OF inv] order_trans [OF t(1,2)] br] t(3)
    by (rule rem_table_later)
  have ok: "hash_ok (rem_hash m)" using inv by (simp add: rem_inv_def)
  have "(ssrc, br, t1) \<in> set (rem_hash ?m1)"
    by (simp add: hash_update_set [OF ok])
  then have "\<exists>p \<in> set (rem_hash ?m1). fresh t2 (rem_interval ?m1) (snd p)"
    using short by (force simp: fresh_def)
  then have calc: "rem_inv (remb_event_manager_calc_min t2 br ?m1, ?rep, t2)"
    using tab by (intro calc_min_restores) auto
  have keep: "rem_inv (remb_event_manager_set_min (min br (rem_min m)) ?m1, ?rep, t2)"
    if same: "rem_min m \<le> br \<Longrightarrow>
      br = rem_min m \<or> (\<exists>v. map_of (rem_hash m) ssrc = Some v \<and> fst v = br)"
  proof -
    have mn: "min_or_zero (bitrates (rem_hash ?m1)) = min br (rem_min m)" "rem_hash m \<noteq> []"
      using report_min [OF inv br same] by simp_all
    obtain p where "p \<in> set (rem_hash m)" using mn(2) by (cases "rem_hash m") auto
    then have "rem_oldest m \<le> now"
      using rem_inv_times [OF inv] by (blast intro: order_trans)
    then have "\<forall>p \<in> set (rem_hash ?m1). rem_oldest m \<le> snd (snd p)"
      using inv t by (auto simp: hash_update_set [OF ok] rem_inv_def)
    then show ?thesis
      using tab mn(1) by (simp add: rem_inv_def rem_table_ok_def)
  qed
  show ?thesis
  proof (cases "br < rem_min m")
    case True
    then have "min br (rem_min m) = br" "\<not> rem_min m \<le> br" by (auto simp: min_def)
    then show ?thesis
      using keep True by (simp add: remb_event_manager_update_min_def Let_def remb_hash_value_create_def)
  next
    case False
    let ?new = "(case map_of (rem_hash m) ssrc of Some v \<Rightarrow> br \<noteq> fst v | None \<Rightarrow> True)"
    show ?thesis
    proof (cases "(?new \<and> rem_min m < br) \<or> rem_interval m < t0 - rem_oldest m")
      case True
      then show ?thesis
        using calc False
        by (auto simp: remb_event_manager_update_min_def Let_def remb_hash_value_create_def)
    next
      case calm: False
      then have "rem_min m \<le> br \<Longrightarrow>
          br = rem_min m \<or> (\<exists>v. map_of (rem_hash m) ssrc = Some v \<and> fst v = br)"
        by (auto split: option.splits)
      moreover have "min br (rem_min m) = rem_min m" using False by (auto simp: min_def)
      ultimately have "rem_inv (?m1, ?rep, t2)"
        using keep by (simp add: remb_event_manager_set_min_def)
      then show ?thesis
        using calm False
        by (auto simp: remb_event_manager_update_min_def Let_def remb_hash_value_create_def)
    qed
  qed
qed

lemma get_min_keeps:
  fixes t0 t2 :: u64
  assumes inv: "rem_inv (m, rep, now)" and t: "now \<le> t0" "t0 \<le> t2"
  shows "rem_inv (fst (kms_utils_remb_event_manager_get_min t0 t2 m), rep, t2)"
proof -
  have tab: "rem_table_ok (m, rep, t2)"
    using rem_table_later [OF rem_inv_table [OF inv]] t by auto
  then show ?thesis
    using calc_min_restores [OF tab, of 0] rem_inv_later [OF inv, of t2] t
    by (simp add: kms_utils_remb_event_manager_get_min_def Let_def)
qed

lemma rem_step_keeps: "rem_inv s \<Longrightarrow> rem_allowed s e \<Longrightarrow> rem_inv (rem_step s e)"
proof (cases s)
  case (fields m rep now)
  assume inv: "rem_inv s" and al: "rem_allowed s e"
  show ?thesis
  proof (cases e)
    case (Report t0 t1 t2 br ssrc)
    then show ?thesis using inv al fields update_min_keeps by fastforce
  next
    case (Query t0 t2)
    then show ?thesis using inv al fields get_min_keeps by fastforce
  next
    case (Shorten itv)
    have "rep k = Some v \<Longrightarrow> \<not> fresh now (rem_interval m) v \<Longrightarrow> \<not> fresh now itv v" for k v
      using al fields Shorten inv stale_mono [of v now now itv "rem_interval m"]
      by (cases v) (auto simp: rem_inv_def)
    then show ?thesis
      using inv fields Shorten
      by (auto simp: rem_inv_def kms_utils_remb_event_manager_set_clear_interval_def)
  qed
qed

interpretation rem: invariant_machine rem_step rem_allowed rem_inv
  by unfold_locales (rule rem_step_keeps)

lemma rem_inv_create: "rem_inv (kms_utils_remb_event_manager_create now, Map.empty, now)"
  by (simp add: rem_inv_def kms_utils_remb_event_manager_create_def min_or_zero_def)

section \<open>What the manager promises\<close>

lemma get_min_value:
  "snd (kms_utils_remb_event_manager_get_min t0 t2 m) =
   rem_min (fst (kms_utils_remb_event_manager_get_min t0 t2 m))"
  by (simp add: kms_utils_remb_event_manager_get_min_def Let_def)

lemma get_min_fresh:
  fixes t0 t2 :: u64
  assumes inv: "rem_inv (m, rep, now)" and t: "now \<le> t0" "t0 \<le> t2"
    and p: "p \<in> set (rem_hash (fst (kms_utils_remb_event_manager_get_min t0 t2 m)))"
  shows "fresh t0 (rem_interval m) (snd p)"
proof (cases "t0 - rem_oldest m > rem_interval m")
  case True
  have nz: "0 \<notin> bitrates (rem_hash m)" using inv by (simp add: rem_inv_def)
  from p True have "p \<in> set (rem_hash m)" "fresh t2 (rem_interval m) (snd p)"
    by (auto simp: kms_utils_remb_event_manager_get_min_def Let_def calc_min_eq [OF nz])
  moreover have "snd (snd p) \<le> now"
    using inv \<open>p \<in> set (rem_hash m)\<close> by (rule rem_inv_times)
  ultimately show ?thesis
    using age_mono [of "snd (snd p)" t0 t2] t by (auto simp: fresh_def intro: order_trans)
next
  case False
  then have "p \<in> set (rem_hash m)"
    using p by (simp add: kms_utils_remb_event_manager_get_min_def Let_def)
  then have "rem_oldest m \<le> snd (snd p)" "snd (snd p) \<le> now"
    using rem_inv_times [OF inv] by blast+
  then have "t0 - snd (snd p) \<le> t0 - rem_oldest m"
    using t by (simp add: word_sub_le_iff word_le_nat_alt unat_sub)
  then show ?thesis using False by (simp add: fresh_def)
qed

text \<open>
  C8: after any run of reports, queries and shortened clear intervals, a query answers with the
  minimum of the bitrates reported last by the SSRCs whose last report is not older than the
  clear interval, and with 0 when there is none. Between the two readings of the clock in the
  query (\<open>t0\<close> on entry, \<open>t2\<close> in the recalculation) an entry may expire: every SSRC fresh
  at \<open>t2\<close> counts and only SSRCs fresh at \<open>t0\<close> do.
\<close>

theorem remb_event_manager_min:
  fixes m :: "'d remb_event_manager"
  assumes "allowed_run rem_step rem_allowed
      (kms_utils_remb_event_manager_create start :: 'd remb_event_manager, Map.empty, start) es"
    and "foldl rem_step (kms_utils_remb_event_manager_create start, Map.empty, start) es = (m, rep, now)"
    and "now \<le> t0" and "t0 \<le> t2"
  shows "\<exists>S. (\<forall>k v. rep k = Some v \<and> fresh t2 (rem_interval m) v \<longrightarrow> k \<in> S) \<and>
    (\<forall>k \<in> S. \<exists>v. rep k = Some v \<and> fresh t0 (rem_interval m) v) \<and>
    snd (kms_utils_remb_event_manager_get_min t0 t2 m) =
      (if S = {} then 0 else Min ((\<lambda>k. fst (the (rep k))) ` S))"
proof -
  have inv: "rem_inv (m, rep, now)"
    using rem.run_keeps [OF rem_inv_create assms(1)] assms(2) by simp
  let ?m' = "fst (kms_utils_remb_event_manager_get_min t0 t2 m)"
  have inv': "rem_inv (?m', rep, t2)"
    using inv assms(3,4) by (rule get_min_keeps)
  then have ok: "hash_ok (rem_hash ?m')" and sub: "map_of (rem_hash ?m') \<subseteq>\<^sub>m rep"
    and mn: "rem_min ?m' = min_or_zero (bitrates (rem_hash ?m'))"
    and gone: "\<And>k v. rep k = Some v \<Longrightarrow> map_of (rem_hash ?m') k = None \<Longrightarrow> \<not> fresh t2 (rem_interval ?m') v"
    by (auto simp: rem_inv_def)
  have itv: "rem_interval ?m' = rem_interval m"
    using inv by (simp add: kms_utils_remb_event_manager_get_min_def Let_def rem_inv_def calc_min_eq)
  define S where "S = fst ` set (rem_hash ?m')"
  have known: "rep (fst p) = Some (snd p)" if "p \<in> set (rem_hash ?m')" for p
    using that sub hash_in_iff [OF ok, of "fst p" "snd p"] by (force simp: map_le_def)
  have "rep k = Some v \<and> fresh t2 (rem_interval m) v \<longrightarrow> k \<in> S" for k v
    using gone [of k v] unfolding S_def itv by (metis map_of_eq_None_iff)
  moreover have "\<exists>v. rep k = Some v \<and> fresh t0 (rem_interval m) v" if "k \<in> S" for k
    using that known get_min_fresh [OF inv assms(3,4)] by (force simp: S_def)
  moreover have "(\<lambda>k. fst (the (rep k))) ` S = bitrates (rem_hash ?m')"
    using known by (force simp: S_def bitrates_def)
  moreover have "S = {} \<longleftrightarrow> rem_hash ?m' = []" by (simp add: S_def)
  ultimately show ?thesis
    by (intro exI [of _ S]) (auto simp: get_min_value mn min_or_zero_def)
qed

lemma example_run:
  "foldl rem_step (kms_utils_remb_event_manager_create 5 :: unit remb_event_manager, Map.empty, 5)
     [Report 6 6 7 300 1, Report 8 8 8 200 2] =
   (\<lparr>rem_min = 200, rem_hash = [(1, 300, 6), (2, 200, 8)], rem_oldest = 6,
     rem_interval = 10000000000, rem_callback = False, rem_user = None, rem_user_destroy = False,
     rem_log = [], rem_freed = []\<rparr>, [1 \<mapsto> (300, 6), 2 \<mapsto> (200, 8)], 8)"
  by (simp add: kms_utils_remb_event_manager_create_def remb_event_manager_update_min_def
      remb_event_manager_calc_min_def remb_event_manager_set_min_def remb_hash_value_create_def
      DEFAULT_CLEAR_INTERVAL_def GST_CLOCK_TIME_NONE_def fun_upd_twist)

lemma example_allowed:
  "allowed_run rem_step rem_allowed
     (kms_utils_remb_event_manager_create 5 :: unit remb_event_manager, Map.empty, 5)
     [Report 6 6 7 300 1, Report 8 8 8 200 2]"
  by (simp add: kms_utils_remb_event_manager_create_def remb_event_manager_update_min_def
      remb_event_manager_calc_min_def remb_event_manager_set_min_def remb_hash_value_create_def
      DEFAULT_CLEAR_INTERVAL_def GST_CLOCK_TIME_NONE_def)

theorem remb_event_manager_min_witness:
  "case foldl rem_step (kms_utils_remb_event_manager_create 5 :: unit remb_event_manager, Map.empty, 5)
     [Report 6 6 7 300 1, Report 8 8 8 200 2] of (m, rep, now) \<Rightarrow>
   \<exists>S. (\<forall>k v. rep k = Some v \<and> fresh 20 (rem_interval m) v \<longrightarrow> k \<in> S) \<and>
    (\<forall>k \<in> S. \<exists>v. rep k = Some v \<and> fresh 20 (rem_interval m) v) \<and>
    snd (kms_utils_remb_event_manager_get_min 20 20 m) =
      (if S = {} then 0 else Min ((\<lambda>k. fst (the (rep k))) ` S))"
  unfolding example_run prod.case
  by (rule remb_event_manager_min [OF example_allowed example_run]) simp_all

definition notified :: "'d remb_event_manager \<Rightarrow> u32 \<Rightarrow> u32 list" where
  "notified m mn = (if rem_callback m \<and> mn \<noteq> rem_min m then [mn] else [])"

lemma set_min_log: "rem_log (remb_event_manager_set_min mn m) = rem_log m @ notified m mn"
  by (simp add: remb_event_manager_set_min_def notified_def)

lemma notified_same [simp]: "notified m (rem_min m) = []"
  by (simp add: notified_def)

lemma notified_hash [simp]:
  "notified (m\<lparr>rem_hash := h\<rparr>) = notified m" "notified (m\<lparr>rem_oldest := t\<rparr>) = notified m"
  by (simp_all add: notified_def fun_eq_iff)

lemma calc_min_log:
  "rem_log (remb_event_manager_calc_min now d m) =
   rem_log m @ notified m (rem_min (remb_event_manager_calc_min now d m))"
  by (simp add: remb_event_manager_calc_min_def set_min_log split: prod.split)

lemma update_min_log:
  "rem_log (remb_event_manager_update_min t0 t1 t2 br ssrc m) =
   rem_log m @ notified m (rem_min (remb_event_manager_update_min t0 t1 t2 br ssrc m))"
  unfolding remb_event_manager_update_min_def Let_def
  by (simp add: set_min_log calc_min_log split: if_split)

lemma get_min_log:
  "rem_log (fst (kms_utils_remb_event_manager_get_min t0 t2 m)) =
   rem_log m @ notified m (rem_min (fst (kms_utils_remb_event_manager_get_min t0 t2 m)))"
  unfolding kms_utils_remb_event_manager_get_min_def Let_def fst_conv
  by (simp add: calc_min_log)

text \<open>
  the callback is called exactly when the minimum changes, once, with the new minimum;
  no report, query or change of the interval calls it otherwise.
\<close>

theorem remb_callback_on_change:
  "rem_log (fst (rem_step s e)) = rem_log (fst s) @
     (if rem_callback (fst s) \<and> rem_min (fst (rem_step s e)) \<noteq> rem_min (fst s)
      then [rem_min (fst (rem_step s e))] else [])"
proof -
  obtain m rep now where s: "s = (m, rep, now)" by (cases s)
  show ?thesis
    by (cases e) (simp_all add: s update_min_log get_min_log notified_def
        kms_utils_remb_event_manager_set_clear_interval_def)
qed

lemma min_or_zero_mset:
  "mset h = mset h' \<Longrightarrow> bitrates (filter P h) = bitrates (filter P h')"
  using mset_eq_setD [of h h'] by (simp add: bitrates_def)

text \<open>
  the order in which the hash table is walked, which GLib leaves open, has no influence
  on the minimum as long as no SSRC has reported a bitrate of zero.
\<close>

theorem calc_min_order_free:
  assumes "mset (rem_hash m) = mset (rem_hash m')" and "rem_interval m = rem_interval m'"
    and "0 \<notin> bitrates (rem_hash m)"
  shows "rem_min (remb_event_manager_calc_min now d m) = rem_min (remb_event_manager_calc_min now d m')"
proof -
  let ?f = "filter (\<lambda>p. fresh now (rem_interval m') (snd p))"
  have "bitrates (?f (rem_hash m)) = bitrates (?f (rem_hash m'))"
    using assms(1) by (rule min_or_zero_mset)
  moreover have nz: "0 \<notin> bitrates (rem_hash m')"
    using assms(3) mset_eq_setD [OF assms(1)] by (simp add: bitrates_def)
  moreover have "?f (rem_hash m) = [] \<longleftrightarrow> ?f (rem_hash m') = []"
    using mset_eq_setD [OF assms(1)] by (simp add: filter_empty_conv)
  ultimately show ?thesis
    by (simp only: calc_min_eq [OF assms(3)] calc_min_eq [OF nz] assms(2) set_min_fields)
qed

definition two_reports :: "bool \<Rightarrow> unit remb_event_manager" where
  "two_reports zero_first = (kms_utils_remb_event_manager_create 0)
     \<lparr>rem_hash := (if zero_first then [(1, 0, 0), (2, 500, 0)] else [(2, 500, 0), (1, 0, 0)])\<rparr>"

lemma swapped_reports:
  "mset [(1, 7, 0), (2, 500, 0)] = mset [(2, 500, 0), (1, 7, 0) :: u32 \<times> u32 \<times> u64]"
  by simp

theorem calc_min_order_free_witness:
  "rem_min (remb_event_manager_calc_min 1 0 ((two_reports True)\<lparr>rem_hash := [(1, 7, 0), (2, 500, 0)]\<rparr>)) =
   rem_min (remb_event_manager_calc_min 1 0 ((two_reports True)\<lparr>rem_hash := [(2, 500, 0), (1, 7, 0)]\<rparr>))"
  using calc_min_order_free [of "(two_reports True)\<lparr>rem_hash := [(1, 7, 0), (2, 500, 0)]\<rparr>"
      "(two_reports True)\<lparr>rem_hash := [(2, 500, 0), (1, 7, 0)]\<rparr>"] swapped_reports
  by (simp add: bitrates_def)

text \<open>
  with a report of zero the order does matter, since zero also stands for "no minimum yet"
  in the loop: for the same two entries the minimum is 500 in one order and 0 in the other.
\<close>

theorem calc_min_zero_order:
  "(rem_min (remb_event_manager_calc_min 1 0 (two_reports True)),
    rem_min (remb_event_manager_calc_min 1 0 (two_reports False))) = (500, 0)"
  by (simp add: two_reports_def remb_event_manager_calc_min_def kms_utils_remb_event_manager_create_def
      DEFAULT_CLEAR_INTERVAL_def GST_CLOCK_TIME_NONE_def)

end
