(* ===== verification/RembLocal.thy ===== *)
theory RembLocal
  imports RembPacket RembEvents
begin

text \<open>
  The receiving side of the REMB congestion control (\<open>KmsRembLocal\<close> of \<open>kmsremb.c\<close>): statistics
  of the RTP sources are turned into an estimation of the available bitrate, which is sent to
  the remote peer in RTCP packets. Parameters of the model: what \<open>g_object_get\<close> reads from an
  RTP session (\<open>sources\<close>), \<open>gst_util_uint64_scale\<close> (\<open>scale\<close>), the clock readings, the
  initial contents of the uninitialised packet variable, and growing the RTCP packet.
\<close>

section \<open>The part both sides share\<close>

record remb_base =
  rb_rtpsess :: bool
  rb_stats :: "(u32, u32) hash_table"

definition kms_remb_base_create :: remb_base where
  "kms_remb_base_create = \<lparr>rb_rtpsess = True, rb_stats = []\<rparr>"

definition kms_remb_base_destroy :: "remb_base \<Rightarrow> remb_base" where
  "kms_remb_base_destroy b = b\<lparr>rb_rtpsess := False, rb_stats := []\<rparr>"

definition kms_remb_base_update_stats :: "u32 \<Rightarrow> u32 \<Rightarrow> remb_base \<Rightarrow> remb_base" where
  "kms_remb_base_update_stats ssrc bitrate b =
     b\<lparr>rb_stats := AList.update ssrc bitrate (rb_stats b)\<rparr>"

section \<open>Statistics of the remote sessions\<close>

record rtp_source =
  so_ssrc :: u32
  so_validated :: bool
  so_sender :: bool
  so_stats :: gst_structure

record 'o rl_session =
  rs_rtpsess :: 'o
  rs_ssrc :: u32
  rs_last_octets :: u64
  rs_last_packets :: u64
  rs_last_expected :: u64

definition kms_rl_remote_session_create :: "'o \<Rightarrow> u32 \<Rightarrow> 'o rl_session" where
  "kms_rl_remote_session_create sess ssrc =
     \<lparr>rs_rtpsess = sess, rs_ssrc = ssrc, rs_last_octets = 0, rs_last_packets = 0,
      rs_last_expected = 0\<rparr>"

record sessions_info =
  si_count :: u32
  si_bitrate :: u64
  si_fraction_lost :: u32
  si_expected :: u64
  si_octets :: u64
  si_packets :: u64

definition no_sessions_info :: sessions_info where
  "no_sessions_info = \<lparr>si_count = 0, si_bitrate = 0, si_fraction_lost = 0, si_expected = 0,
     si_octets = 0, si_packets = 0\<rparr>"

text \<open>The loop over the sources: the first one that qualifies ends it.\<close>

fun find_source :: "u32 \<Rightarrow> rtp_source list \<Rightarrow> rtp_source option" where
  "find_source ssrc [] = None"
| "find_source ssrc (so # sos) =
     (if \<not> so_validated so \<or> \<not> so_sender so then find_source ssrc sos
      else if so_ssrc so \<noteq> ssrc then find_source ssrc sos
      else Some so)"

definition account_source ::
    "gst_structure \<Rightarrow> 'o rl_session \<Rightarrow> sessions_info \<Rightarrow> 'o rl_session \<times> sessions_info" where
  "account_source st s d =
     (let bitrate = or_else (gst_structure_get_uint64 st ''bitrate'') 0;
          octets_received = or_else (gst_structure_get_uint64 st ''octets-received'') 0;
          packets_received = or_else (gst_structure_get_uint64 st ''packets-received'') 0;
          packets_lost = or_else (gst_structure_get_int st ''packets-lost'') 0;
          fraction_lost = or_else (gst_structure_get_uint st ''sent-rb-fractionlost'') 0;
          s1 = (if rs_last_packets s > packets_received
                then s\<lparr>rs_last_octets := 0, rs_last_packets := 0, rs_last_expected := 0\<rparr> else s);
          expected = packets_received + scast packets_lost;
          interval = expected - rs_last_expected s1
      in (s1\<lparr>rs_last_expected := expected, rs_last_octets := octets_received,
             rs_last_packets := packets_received\<rparr>,
          d\<lparr>si_count := si_count d + 1,
            si_bitrate := si_bitrate d + bitrate,
            si_fraction_lost := si_fraction_lost d + ucast (ucast fraction_lost * interval),
            si_expected := si_expected d + interval,
            si_octets := si_octets d + (octets_received - rs_last_octets s1),
            si_packets := si_packets d + (packets_received - rs_last_packets s1)\<rparr>))"

definition kms_rl_remote_session_get_sessions_info ::
    "('o \<Rightarrow> rtp_source list option) \<Rightarrow> 'o rl_session \<Rightarrow> sessions_info \<Rightarrow>
     'o rl_session \<times> sessions_info" where
  "kms_rl_remote_session_get_sessions_info sources s d =
     (if rs_ssrc s = 0 then (s, d)
      else case sources (rs_rtpsess s) of
          None \<Rightarrow> (s, d)
        | Some arr \<Rightarrow>
            (case find_source (rs_ssrc s) arr of
               None \<Rightarrow> (s, d)
             | Some so \<Rightarrow> account_source (so_stats so) s d))"

fun each_session ::
    "('o \<Rightarrow> rtp_source list option) \<Rightarrow> 'o rl_session list \<Rightarrow> sessions_info \<Rightarrow>
     'o rl_session list \<times> sessions_info" where
  "each_session sources [] d = ([], d)"
| "each_session sources (s # ss) d =
     (case kms_rl_remote_session_get_sessions_info sources s d of
        (s', d') \<Rightarrow> (case each_session sources ss d' of (ss', d'') \<Rightarrow> (s' # ss', d'')))"

section \<open>The estimation\<close>

record ('o, 'd) remb_local =
  rl_base :: remb_base
  rl_sessions :: "'o rl_session list"
  rl_min_bw :: u32
  rl_max_bw :: u32
  rl_interval_top :: u32
  rl_exponential_factor :: gfloat
  rl_lineal_factor_min :: u32
  rl_lineal_factor_grade :: gfloat
  rl_decrement_factor :: gfloat
  rl_threshold_factor :: gfloat
  rl_up_losses :: u32
  rl_remb :: u32
  rl_remb_sent :: u32
  rl_last_sent :: u64
  rl_probed :: bool
  rl_threshold :: u32
  rl_lineal_factor :: u32
  rl_max_br :: u32
  rl_avg_br :: u32
  rl_last_time :: u64
  rl_lost_record :: u64
  rl_events :: "'d remb_event_manager option"

definition REMB_MIN :: u32 where "REMB_MIN = 30000"
definition REMB_MAX :: u32 where "REMB_MAX = 2000000"
definition GST_MSECOND :: u64 where "GST_MSECOND = 1000000"
definition REMB_MAX_INTERVAL :: u64 where "REMB_MAX_INTERVAL = 200"
definition REMB_MAX_FACTOR_INPUT_BR :: u32 where "REMB_MAX_FACTOR_INPUT_BR = 2"

text \<open>The values the compiler gives \<open>0.04f\<close>, \<open>0.5f\<close>, \<open>0.8f\<close> and \<open>30.0f\<close>.\<close>

definition DEFAULT_REMB_EXPONENTIAL_FACTOR :: gfloat where
  "DEFAULT_REMB_EXPONENTIAL_FACTOR = Fin (5368709 / 134217728)"
definition DEFAULT_REMB_DECREMENT_FACTOR :: gfloat where
  "DEFAULT_REMB_DECREMENT_FACTOR = Fin (1 / 2)"
definition DEFAULT_REMB_THRESHOLD_FACTOR :: gfloat where
  "DEFAULT_REMB_THRESHOLD_FACTOR = Fin (13421773 / 16777216)"
definition DEFAULT_REMB_LINEAL_FACTOR_GRADE :: gfloat where
  "DEFAULT_REMB_LINEAL_FACTOR_GRADE = Fin 30"
definition DEFAULT_REMB_LINEAL_FACTOR_MIN :: u32 where "DEFAULT_REMB_LINEAL_FACTOR_MIN = 50"
definition DEFAULT_REMB_PACKETS_RECV_INTERVAL_TOP :: u32 where
  "DEFAULT_REMB_PACKETS_RECV_INTERVAL_TOP = 100"
definition DEFAULT_REMB_UP_LOSSES :: u32 where "DEFAULT_REMB_UP_LOSSES = 12"

text \<open>
  The results of \<open>kms_remb_local_get_video_recv_info\<close>: bitrate, fraction lost, packets of the
  interval. The sessions have been read, and their counters moved, even when there is none.
\<close>

definition kms_remb_local_get_video_recv_info ::
    "('o \<Rightarrow> rtp_source list option) \<Rightarrow> (u64 \<Rightarrow> u64 \<Rightarrow> u64 \<Rightarrow> u64) \<Rightarrow> u64 \<Rightarrow>
     ('o, 'd) remb_local \<Rightarrow> ('o, 'd) remb_local \<times> (u64 \<times> u32 \<times> u64) option" where
  "kms_remb_local_get_video_recv_info sources scale now rl =
     (if \<not> rb_rtpsess (rl_base rl) then (rl, None)
      else case each_session sources (rl_sessions rl) no_sessions_info of
        (ss, d) \<Rightarrow>
          (let rl1 = rl\<lparr>rl_sessions := ss\<rparr>
           in if si_count d = 0 then (rl1, None)
              else if si_expected d = 0 then (rl1, None)
              else
                (let fraction_lost = ucast (ucast (si_fraction_lost d) div si_expected d);
                     bitrate = (if rl_last_time rl1 \<noteq> 0
                       then scale (si_octets d) (8 * GST_SECOND) (now - rl_last_time rl1)
                       else si_bitrate d)
                 in (rl1\<lparr>rl_last_time := now\<rparr>, Some (bitrate, fraction_lost, si_packets d)))))"

definition probe_first :: "u64 \<Rightarrow> ('o, 'd) remb_local \<Rightarrow> ('o, 'd) remb_local option" where
  "probe_first bitrate rl =
     (if \<not> rl_probed rl then
        (if bitrate = 0 then None
         else Some (rl\<lparr>rl_remb := ucast bitrate, rl_probed := True\<rparr>))
      else Some rl)"

definition smooth_losses ::
    "u64 \<Rightarrow> u32 \<Rightarrow> u64 \<Rightarrow> ('o, 'd) remb_local \<Rightarrow> c_fault + ('o, 'd) remb_local" where
  "smooth_losses bitrate fraction_lost packets rl =
     (let top = ucast (max (ucast (rl_interval_top rl)) packets) :: u32
      in if top = 0 then Inl Division_by_zero
         else Inr (rl\<lparr>
           rl_lost_record := (rl_lost_record rl * (ucast top - packets)
             + ucast fraction_lost * packets) div ucast top,
           rl_max_br := ucast (max (ucast (rl_max_br rl)) bitrate),
           rl_avg_br := (if rl_avg_br rl = 0 then ucast bitrate
             else ucast ((ucast (rl_avg_br rl * 7) + bitrate) div 8))\<rparr>))"

text \<open>No losses: grow, exponentially below the threshold and linearly above it.\<close>

definition remb_grow :: "('o, 'd) remb_local \<Rightarrow> c_fault + ('o, 'd) remb_local" where
  "remb_grow rl =
     (let base = max (rl_remb rl) (rl_max_br rl)
      in bind_result
           (if base < rl_threshold rl
            then float_to_sint (fmul (float_of_sint base) (one_plus (rl_exponential_factor rl)))
            else Inr (base + rl_lineal_factor rl))
           (\<lambda>new. Inr (rl\<lparr>rl_remb :=
              max (rl_remb rl) (min new (rl_max_br rl * REMB_MAX_FACTOR_INPUT_BR))\<rparr>)))"

definition signed_max :: "u32 \<Rightarrow> u32 \<Rightarrow> u32" where
  "signed_max a b = (if sint a > sint b then a else b)"

text \<open>Losses: a new threshold, a new slope, and a cut when there are too many.\<close>

definition remb_cut :: "('o, 'd) remb_local \<Rightarrow> c_fault + ('o, 'd) remb_local" where
  "remb_cut rl =
     (let base = max (rl_remb rl) (rl_avg_br rl)
      in bind_result (float_to_uint (fmul (float_of_sint base) (rl_threshold_factor rl)))
        (\<lambda>threshold.
         bind_result (float_to_sint (fdiv (float_of_uint (base - threshold)) (rl_lineal_factor_grade rl)))
        (\<lambda>slope.
         let rl1 = rl\<lparr>rl_threshold := threshold,
                      rl_lineal_factor := signed_max (rl_lineal_factor_min rl) slope\<rparr>
         in if rl_lost_record rl1 < scast (rl_up_losses rl1)
            then Inr (rl1\<lparr>rl_remb := min (rl_remb rl1) (rl_max_br rl1)\<rparr>)
            else bind_result (float_to_uint (fmul (float_of_sint base) (rl_decrement_factor rl1)))
              (\<lambda>new. Inr (rl1\<lparr>rl_remb := new, rl_lost_record := 0, rl_max_br := 0,
                              rl_avg_br := 0\<rparr>)))))"

definition cap_max_bw :: "('o, 'd) remb_local \<Rightarrow> ('o, 'd) remb_local" where
  "cap_max_bw rl =
     (if rl_max_bw rl > 0 then rl\<lparr>rl_remb := min (rl_remb rl) (rl_max_bw rl * 1000)\<rparr> else rl)"

definition kms_remb_local_update ::
    "('o \<Rightarrow> rtp_source list option) \<Rightarrow> (u64 \<Rightarrow> u64 \<Rightarrow> u64 \<Rightarrow> u64) \<Rightarrow> u64 \<Rightarrow>
     ('o, 'd) remb_local \<Rightarrow> c_fault + ('o, 'd) remb_local \<times> bool" where
  "kms_remb_local_update sources scale now rl =
     (case kms_remb_local_get_video_recv_info sources scale now rl of
        (rl1, None) \<Rightarrow> Inr (rl1, False)
      | (rl1, Some (bitrate, fraction_lost, packets)) \<Rightarrow>
          (case probe_first bitrate rl1 of
             None \<Rightarrow> Inr (rl1, False)
           | Some rl2 \<Rightarrow>
               bind_result (smooth_losses bitrate fraction_lost packets rl2) (\<lambda>rl3.
               bind_result (if rl_lost_record rl3 = 0 then remb_grow rl3 else remb_cut rl3) (\<lambda>rl4.
               Inr (cap_max_bw rl4, True)))))"

section \<open>Sending\<close>

text \<open>What one call of the signal handler finds around it.\<close>

record 'o sending_env =
  se_now :: u64
  se_now_stats :: u64
  se_now_events :: "u64 \<times> u64"
  se_mapped :: bool
  se_added :: bool
  se_sources :: "'o \<Rightarrow> rtp_source list option"
  se_scale :: "u64 \<Rightarrow> u64 \<Rightarrow> u64 \<Rightarrow> u64"
  se_junk :: remb_packet
  se_internal_ssrc :: u32
  se_grow :: fci_grow

definition add_ssrcs ::
    "'o rl_session \<Rightarrow> ('o, 'd) remb_local \<times> remb_packet \<Rightarrow>
     c_fault + ('o, 'd) remb_local \<times> remb_packet" where
  "add_ssrcs s data =
     (case data of (rl, p) \<Rightarrow>
        bind_result (array_store (rp_ssrcs p) (unat (rp_n_ssrcs p)) (rs_ssrc s)) (\<lambda>xs.
          Inr (rl\<lparr>rl_base := kms_remb_base_update_stats (rs_ssrc s) (rp_bitrate p) (rl_base rl)\<rparr>,
               p\<lparr>rp_ssrcs := xs, rp_n_ssrcs := rp_n_ssrcs p + 1\<rparr>)))"

fun each_add_ssrcs ::
    "'o rl_session list \<Rightarrow> ('o, 'd) remb_local \<times> remb_packet \<Rightarrow>
     c_fault + ('o, 'd) remb_local \<times> remb_packet" where
  "each_add_ssrcs [] data = Inr data"
| "each_add_ssrcs (s # ss) data = bind_result (add_ssrcs s data) (each_add_ssrcs ss)"

text \<open>The bitrate to announce; asking the event manager may clean its table.\<close>

definition announced_bitrate ::
    "u64 \<times> u64 \<Rightarrow> ('o, 'd) remb_local \<Rightarrow> ('o, 'd) remb_local \<times> u32" where
  "announced_bitrate t rl =
     (let (rl1, b1) = (case rl_events rl of
            None \<Rightarrow> (rl, rl_remb rl)
          | Some m \<Rightarrow>
              (case kms_utils_remb_event_manager_get_min (fst t) (snd t) m of
                 (m', local_max) \<Rightarrow>
                   (rl\<lparr>rl_events := Some m'\<rparr>,
                    if local_max > 0 then min (rl_remb rl) local_max else rl_remb rl)));
          b2 = (if rl_min_bw rl1 > 0 then max b1 (rl_min_bw rl1 * 1000) else b1)
      in (rl1, max b2 REMB_MIN))"

text \<open>\<open>buf\<close>: the packets of the RTCP buffer. A removed packet leaves it as it was.\<close>

definition kms_remb_local_on_sending_rtcp ::
    "'o sending_env \<Rightarrow> fb_packet list \<Rightarrow> ('o, 'd) remb_local \<Rightarrow>
     c_fault + ('o, 'd) remb_local \<times> fb_packet list \<times> bool" where
  "kms_remb_local_on_sending_rtcp env buf rl =
     (if rl_last_sent rl \<noteq> 0 \<and> se_now env - rl_last_sent rl < REMB_MAX_INTERVAL * GST_MSECOND
      then Inr (rl, buf, False)
      else if \<not> se_mapped env then Inr (rl, buf, False)
      else if \<not> se_added env then Inr (rl, buf, False)
      else bind_result
        (kms_remb_local_update (se_sources env) (se_scale env) (se_now_stats env) rl)
        (\<lambda>(rl1, updated).
          if \<not> updated then Inr (rl1, buf, False)
          else case announced_bitrate (se_now_events env) rl1 of (rl2, bitrate) \<Rightarrow>
            (let rl3 = rl2\<lparr>rl_remb_sent := bitrate\<rparr>;
                 p0 = (se_junk env)\<lparr>rp_bitrate := bitrate, rp_n_ssrcs := 0\<rparr>
             in bind_result (each_add_ssrcs (rl_sessions rl3) (rl3, p0)) (\<lambda>(rl4, p).
                bind_result
                  (kms_rtcp_psfb_afb_remb_marshall_packet (se_grow env) blank_fb p (se_internal_ssrc env))
                  (\<lambda>(pkt, ok). Inr (rl4\<lparr>rl_last_sent := se_now env\<rparr>,
                     if ok then buf @ [pkt] else buf, True))))))"

section \<open>Creation and parameters\<close>

definition kms_remb_local_create :: "u32 \<Rightarrow> u32 \<Rightarrow> ('o, 'd) remb_local" where
  "kms_remb_local_create min_bw max_bw =
     \<lparr>rl_base = kms_remb_base_create, rl_sessions = [], rl_min_bw = min_bw, rl_max_bw = max_bw,
      rl_interval_top = DEFAULT_REMB_PACKETS_RECV_INTERVAL_TOP,
      rl_exponential_factor = DEFAULT_REMB_EXPONENTIAL_FACTOR,
      rl_lineal_factor_min = DEFAULT_REMB_LINEAL_FACTOR_MIN,
      rl_lineal_factor_grade = DEFAULT_REMB_LINEAL_FACTOR_GRADE,
      rl_decrement_factor = DEFAULT_REMB_DECREMENT_FACTOR,
      rl_threshold_factor = DEFAULT_REMB_THRESHOLD_FACTOR,
      rl_up_losses = DEFAULT_REMB_UP_LOSSES,
      rl_remb = REMB_MAX, rl_remb_sent = REMB_MAX, rl_last_sent = 0, rl_probed = False,
      rl_threshold = REMB_MAX, rl_lineal_factor = DEFAULT_REMB_LINEAL_FACTOR_MIN,
      rl_max_br = 0, rl_avg_br = 0, rl_last_time = 0, rl_lost_record = 0, rl_events = None\<rparr>"

definition kms_remb_local_destroy :: "('o, 'd) remb_local \<Rightarrow> ('o, 'd) remb_local" where
  "kms_remb_local_destroy rl =
     rl\<lparr>rl_events := None, rl_sessions := [], rl_base := kms_remb_base_destroy (rl_base rl)\<rparr>"

definition kms_remb_local_add_remote_session ::
    "'o \<Rightarrow> u32 \<Rightarrow> ('o, 'd) remb_local \<Rightarrow> ('o, 'd) remb_local" where
  "kms_remb_local_add_remote_session sess ssrc rl =
     rl\<lparr>rl_sessions := rl_sessions rl @ [kms_rl_remote_session_create sess ssrc]\<rparr>"

definition kms_remb_local_set_params ::
    "gst_structure \<Rightarrow> ('o, 'd) remb_local \<Rightarrow> ('o, 'd) remb_local" where
  "kms_remb_local_set_params params rl =
     rl\<lparr>rl_interval_top := (case gst_structure_get_int params ''packets-recv-interval-top'' of
           Some i \<Rightarrow> if sint i \<le> 0 then 1 else i | None \<Rightarrow> rl_interval_top rl),
        rl_exponential_factor :=
          or_else (gst_structure_get_float params ''exponential-factor'') (rl_exponential_factor rl),
        rl_lineal_factor_min :=
          or_else (gst_structure_get_int params ''lineal-factor-min'') (rl_lineal_factor_min rl),
        rl_lineal_factor_grade := (case gst_structure_get_int params ''lineal-factor-grade'' of
           Some i \<Rightarrow> float_of_sint i | None \<Rightarrow> rl_lineal_factor_grade rl),
        rl_decrement_factor :=
          or_else (gst_structure_get_float params ''decrement-factor'') (rl_decrement_factor rl),
        rl_threshold_factor :=
          or_else (gst_structure_get_float params ''threshold-factor'') (rl_threshold_factor rl),
        rl_up_losses := or_else (gst_structure_get_int params ''up-losses'') (rl_up_losses rl)\<rparr>"

definition kms_remb_local_get_params ::
    "gst_structure \<Rightarrow> ('o, 'd) remb_local \<Rightarrow> gst_structure" where
  "kms_remb_local_get_params params rl = params
     (''packets-recv-interval-top'' \<mapsto> GInt (rl_interval_top rl),
      ''exponential-factor'' \<mapsto> GFloat (rl_exponential_factor rl),
      ''lineal-factor-min'' \<mapsto> GInt (rl_lineal_factor_min rl),
      ''lineal-factor-grade'' \<mapsto> GFloat (rl_lineal_factor_grade rl),
      ''decrement-factor'' \<mapsto> GFloat (rl_decrement_factor rl),
      ''threshold-factor'' \<mapsto> GFloat (rl_threshold_factor rl),
      ''up-losses'' \<mapsto> GInt (rl_up_losses rl))"

section \<open>Parameters read back\<close>

text \<open>
  parameters read with \<open>get_params\<close> and set on another estimator carry over, except the
  linear grade: it is written as a float and read as an integer, so the grade of the other
  estimator stays whatever it was.
\<close>

theorem remb_params_roundtrip:
  assumes "0 < sint (rl_interval_top rl)"
  shows "kms_remb_local_set_params (kms_remb_local_get_params Map.empty rl) rl' =
    rl'\<lparr>rl_interval_top := rl_interval_top rl,
        rl_exponential_factor := rl_exponential_factor rl,
        rl_lineal_factor_min := rl_lineal_factor_min rl,
        rl_lineal_factor_grade := rl_lineal_factor_grade rl',
        rl_decrement_factor := rl_decrement_factor rl,
        rl_threshold_factor := rl_threshold_factor rl,
        rl_up_losses := rl_up_losses rl\<rparr>"
  using assms by (simp add: kms_remb_local_set_params_def kms_remb_local_get_params_def)

theorem remb_params_roundtrip_witness:
  "kms_remb_local_set_params (kms_remb_local_get_params Map.empty (kms_remb_local_create 0 0 :: (nat, unit) remb_local))
     (kms_remb_local_create 1 1 :: (nat, unit) remb_local) =
   (kms_remb_local_create 1 1 :: (nat, unit) remb_local)"
  using remb_params_roundtrip [of "kms_remb_local_create 0 0 :: (nat, unit) remb_local"
      "kms_remb_local_create 1 1 :: (nat, unit) remb_local"]
  by (simp add: kms_remb_local_create_def DEFAULT_REMB_PACKETS_RECV_INTERVAL_TOP_def)

section \<open>What an update leaves alone\<close>

text \<open>The fields that are settings, or belong to sending.\<close>

definition rl_frame :: "('o, 'd) remb_local \<Rightarrow> ('o, 'd) remb_local \<Rightarrow> bool" where
  "rl_frame rl rl' \<longleftrightarrow> rl_last_sent rl' = rl_last_sent rl \<and> rl_min_bw rl' = rl_min_bw rl \<and>
     rl_max_bw rl' = rl_max_bw rl \<and> rl_events rl' = rl_events rl \<and> rl_base rl' = rl_base rl \<and>
     rl_interval_top rl' = rl_interval_top rl \<and>
     rl_exponential_factor rl' = rl_exponential_factor rl \<and>
     rl_lineal_factor_min rl' = rl_lineal_factor_min rl \<and>
     rl_lineal_factor_grade rl' = rl_lineal_factor_grade rl \<and>
     rl_decrement_factor rl' = rl_decrement_factor rl \<and>
     rl_threshold_factor rl' = rl_threshold_factor rl \<and> rl_up_losses rl' = rl_up_losses rl \<and>
     map rs_ssrc (rl_sessions rl') = map rs_ssrc (rl_sessions rl)"

named_theorems frame_simps "what each step of an update leaves alone"

lemma rl_frame_refl [simp]: "rl_frame rl rl"
  by (simp add: rl_frame_def)

lemma rl_frame_trans: "rl_frame a b \<Longrightarrow> rl_frame b c \<Longrightarrow> rl_frame a c"
  by (simp add: rl_frame_def)

lemma account_source_ssrc [simp]: "rs_ssrc (fst (account_source st s d)) = rs_ssrc s"
  by (simp add: account_source_def Let_def)

lemma sessions_info_ssrc [simp]:
  "rs_ssrc (fst (kms_rl_remote_session_get_sessions_info sources s d)) = rs_ssrc s"
  by (simp add: kms_rl_remote_session_get_sessions_info_def split: option.split)

lemma each_session_ssrcs [simp]: "map rs_ssrc (fst (each_session sources ss d)) = map rs_ssrc ss"
proof (induction ss arbitrary: d)
  case Nil
  then show ?case by simp
next
  case (Cons s ss)
  obtain s' d' where g: "kms_rl_remote_session_get_sessions_info sources s d = (s', d')"
    by fastforce
  then have "rs_ssrc s' = rs_ssrc s"
    using sessions_info_ssrc [of sources s d] by simp
  then show ?case using g Cons.IH [of d'] by (simp add: case_prod_unfold)
qed

lemma info_frame [frame_simps]:
  "rl_frame rl (fst (kms_remb_local_get_video_recv_info sources scale now rl))"
proof -
  obtain ss d where e: "each_session sources (rl_sessions rl) no_sessions_info = (ss, d)"
    by fastforce
  then have "map rs_ssrc ss = map rs_ssrc (rl_sessions rl)"
    by (metis each_session_ssrcs fst_conv)
  then show ?thesis
    by (simp add: kms_remb_local_get_video_recv_info_def e Let_def rl_frame_def)
qed

lemma probe_frame [frame_simps]: "probe_first bitrate rl = Some rl' \<Longrightarrow> rl_frame rl rl'"
  by (auto simp: probe_first_def rl_frame_def split: if_splits)

lemma smooth_frame [frame_simps]: "smooth_losses bitrate fl packets rl = Inr rl' \<Longrightarrow> rl_frame rl rl'"
  by (auto simp: smooth_losses_def rl_frame_def Let_def split: if_splits)

lemma grow_frame [frame_simps]: "remb_grow rl = Inr rl' \<Longrightarrow> rl_frame rl rl'"
  by (auto simp: remb_grow_def rl_frame_def Let_def bind_result_Inr_iff)

text \<open>What a cut can result in.\<close>

lemma remb_cut_cases [consumes 1, case_names mild strong]:
  assumes "remb_cut rl = Inr rl'"
  obtains (mild) threshold slope where
      "float_to_uint (fmul (float_of_sint (max (rl_remb rl) (rl_avg_br rl))) (rl_threshold_factor rl)) = Inr threshold"
      "float_to_sint (fdiv (float_of_uint (max (rl_remb rl) (rl_avg_br rl) - threshold)) (rl_lineal_factor_grade rl)) = Inr slope"
      "rl_lost_record rl < scast (rl_up_losses rl)"
      "rl' = rl\<lparr>rl_threshold := threshold, rl_lineal_factor := signed_max (rl_lineal_factor_min rl) slope,
             rl_remb := min (rl_remb rl) (rl_max_br rl)\<rparr>"
  | (strong) threshold slope new where
      "float_to_uint (fmul (float_of_sint (max (rl_remb rl) (rl_avg_br rl))) (rl_threshold_factor rl)) = Inr threshold"
      "float_to_sint (fdiv (float_of_uint (max (rl_remb rl) (rl_avg_br rl) - threshold)) (rl_lineal_factor_grade rl)) = Inr slope"
      "\<not> rl_lost_record rl < scast (rl_up_losses rl)"
      "float_to_uint (fmul (float_of_sint (max (rl_remb rl) (rl_avg_br rl))) (rl_decrement_factor rl)) = Inr new"
      "rl' = rl\<lparr>rl_threshold := threshold, rl_lineal_factor := signed_max (rl_lineal_factor_min rl) slope,
             rl_remb := new, rl_lost_record := 0, rl_max_br := 0, rl_avg_br := 0\<rparr>"
proof -
  obtain threshold slope where
    t: "float_to_uint (fmul (float_of_sint (max (rl_remb rl) (rl_avg_br rl))) (rl_threshold_factor rl)) = Inr threshold"
    and s: "float_to_sint (fdiv (float_of_uint (max (rl_remb rl) (rl_avg_br rl) - threshold)) (rl_lineal_factor_grade rl)) = Inr slope"
    using assms unfolding remb_cut_def Let_def bind_result_Inr_iff by blast
  show thesis
  proof (cases "rl_lost_record rl < scast (rl_up_losses rl)")
    case True
    then show thesis
      using assms t s by (intro mild [OF t s]) (simp_all add: remb_cut_def Let_def)
  next
    case False
    then obtain new where
      n: "float_to_uint (fmul (float_of_sint (max (rl_remb rl) (rl_avg_br rl))) (rl_decrement_factor rl)) = Inr new"
      and r: "rl' = rl\<lparr>rl_threshold := threshold, rl_lineal_factor := signed_max (rl_lineal_factor_min rl) slope,
             rl_remb := new, rl_lost_record := 0, rl_max_br := 0, rl_avg_br := 0\<rparr>"
      using assms t s by (auto simp: remb_cut_def Let_def bind_result_Inr_iff)
    show thesis using False by (intro strong [OF t s _ n r])
  qed
qed

lemma cut_frame [frame_simps]: "remb_cut rl = Inr rl' \<Longrightarrow> rl_frame rl rl'"
  by (erule remb_cut_cases) (simp_all add: rl_frame_def)

lemma cap_frame [frame_simps]: "rl_frame rl (cap_max_bw rl)"
  by (simp add: cap_max_bw_def rl_frame_def)

text \<open>The ways an update can end.\<close>

lemma update_cases [consumes 1, case_names unchanged changed]:
  assumes "kms_remb_local_update sources scale now rl = Inr (rl', b)"
  obtains (unchanged) "\<not> b" "rl_frame rl rl'" "rl_remb rl' = rl_remb rl"
  | (changed) rl1 bitrate fl packets rl2 rl3 rl4
    where "b" "kms_remb_local_get_video_recv_info sources scale now rl = (rl1, Some (bitrate, fl, packets))"
      "probe_first bitrate rl1 = Some rl2" "smooth_losses bitrate fl packets rl2 = Inr rl3"
      "(if rl_lost_record rl3 = 0 then remb_grow rl3 else remb_cut rl3) = Inr rl4"
      "rl' = cap_max_bw rl4"
proof -
  obtain rl1 m where i: "kms_remb_local_get_video_recv_info sources scale now rl = (rl1, m)"
    by fastforce
  have fr: "rl_frame rl rl1"
    using info_frame [of rl sources scale now] i by simp
  have remb: "rl_remb rl1 = rl_remb rl"
    using i by (auto simp: kms_remb_local_get_video_recv_info_def Let_def
        split: if_splits prod.splits)
  show thesis
  proof (cases m)
    case None
    then show thesis
      using assms i fr remb by (intro unchanged) (auto simp: kms_remb_local_update_def)
  next
    case (Some meas)
    obtain bitrate fl packets where meas: "meas = (bitrate, fl, packets)" by (cases meas)
    show thesis
    proof (cases "probe_first bitrate rl1")
      case None
      then show thesis
        using assms i fr remb Some meas by (intro unchanged) (auto simp: kms_remb_local_update_def)
    next
      case (Some rl2)
      then obtain rl3 rl4 where "smooth_losses bitrate fl packets rl2 = Inr rl3"
          "(if rl_lost_record rl3 = 0 then remb_grow rl3 else remb_cut rl3) = Inr rl4"
          "rl' = cap_max_bw rl4" "b"
        using assms i \<open>m = Some meas\<close> meas
        by (auto simp only: kms_remb_local_update_def bind_result_Inr_iff prod.case option.case
            sum.inject prod.inject)
      with Some i \<open>m = Some meas\<close> meas show thesis
        by (intro changed [of rl1 bitrate fl packets rl2 rl3 rl4]) simp_all
    qed
  qed
qed

section \<open>What is announced\<close>

lemma update_frame: "kms_remb_local_update sources scale now rl = Inr (rl', b) \<Longrightarrow> rl_frame rl rl'"
proof (erule update_cases)
  fix rl1 bitrate fl packets rl2 rl3 rl4
  assume i: "kms_remb_local_get_video_recv_info sources scale now rl = (rl1, Some (bitrate, fl, packets))"
    and p: "probe_first bitrate rl1 = Some rl2" and s: "smooth_losses bitrate fl packets rl2 = Inr rl3"
    and g: "(if rl_lost_record rl3 = 0 then remb_grow rl3 else remb_cut rl3) = Inr rl4"
    and c: "rl' = cap_max_bw rl4"
  have "rl_frame rl rl1" using info_frame [of rl sources scale now] i by simp
  moreover have "rl_frame rl3 rl4" using g grow_frame cut_frame by (auto split: if_splits)
  moreover have "rl_frame rl4 rl'" using c cap_frame by simp
  ultimately show ?thesis
    using probe_frame [OF p] smooth_frame [OF s] by (blast intro: rl_frame_trans)
qed

lemma announced_bitrate_spec:
  assumes "announced_bitrate t rl = (rl', b)"
  shows "REMB_MIN \<le> b" "0 < rl_min_bw rl \<Longrightarrow> rl_min_bw rl * 1000 \<le> b"
    "b \<le> rl_remb rl \<or> b = REMB_MIN \<or> (0 < rl_min_bw rl \<and> b = rl_min_bw rl * 1000)"
    "\<exists>ev. rl' = rl\<lparr>rl_events := ev\<rparr>"
proof -
  obtain ev b1 where e: "(case rl_events rl of
            None \<Rightarrow> (rl, rl_remb rl)
          | Some m \<Rightarrow>
              (case kms_utils_remb_event_manager_get_min (fst t) (snd t) m of
                 (m', local_max) \<Rightarrow>
                   (rl\<lparr>rl_events := Some m'\<rparr>,
                    if local_max > 0 then min (rl_remb rl) local_max else rl_remb rl))) =
         (rl\<lparr>rl_events := ev\<rparr>, b1)" and b1: "b1 \<le> rl_remb rl"
  proof (cases "rl_events rl")
    case None
    then show thesis by (intro that [of None "rl_remb rl"]) (cases rl, simp_all)
  next
    case (Some m)
    obtain m' mx where "kms_utils_remb_event_manager_get_min (fst t) (snd t) m = (m', mx)"
      by fastforce
    then show thesis
      using Some by (intro that [of "Some m'" "if mx > 0 then min (rl_remb rl) mx else rl_remb rl"]) simp_all
  qed
  have r: "rl' = rl\<lparr>rl_events := ev\<rparr>"
    and b: "b = max (if rl_min_bw rl > 0 then max b1 (rl_min_bw rl * 1000) else b1) REMB_MIN"
    using assms unfolding announced_bitrate_def e by (auto split: if_splits)
  show "REMB_MIN \<le> b" "0 < rl_min_bw rl \<Longrightarrow> rl_min_bw rl * 1000 \<le> b" "\<exists>ev. rl' = rl\<lparr>rl_events := ev\<rparr>"
    using r by (auto simp: b le_max_iff_disj)
  show "b \<le> rl_remb rl \<or> b = REMB_MIN \<or> (0 < rl_min_bw rl \<and> b = rl_min_bw rl * 1000)"
    using b1 by (auto simp: b max_def)
qed

lemma each_add_frame:
  "each_add_ssrcs ss (rl, p) = Inr (rl', p') \<Longrightarrow>
   (\<exists>base. rl' = rl\<lparr>rl_base := base\<rparr>) \<and> rp_bitrate p' = rp_bitrate p"
proof (induction ss arbitrary: rl p)
  case Nil
  then show ?case by (simp add: exI [of _ "rl_base rl"])
next
  case (Cons s ss)
  then obtain xs where "each_add_ssrcs ss
      (rl\<lparr>rl_base := kms_remb_base_update_stats (rs_ssrc s) (rp_bitrate p) (rl_base rl)\<rparr>,
       p\<lparr>rp_ssrcs := xs, rp_n_ssrcs := rp_n_ssrcs p + 1\<rparr>) = Inr (rl', p')"
    by (auto simp: add_ssrcs_def bind_result_Inr_iff)
  from Cons.IH [OF this] show ?case by auto
qed

text \<open>The packet fills up in the order of the sessions; the 256th has no place left.\<close>

lemma each_add_spec:
  assumes "length (rp_ssrcs p) = REMB_MAX_SSRCS_COUNT"
    and "unat (rp_n_ssrcs p) + length ss \<le> REMB_MAX_SSRCS_COUNT"
  shows "each_add_ssrcs ss (rl, p) =
    Inr (rl\<lparr>rl_base := fold (\<lambda>s. kms_remb_base_update_stats (rs_ssrc s) (rp_bitrate p)) ss (rl_base rl)\<rparr>,
      p\<lparr>rp_ssrcs := take (unat (rp_n_ssrcs p)) (rp_ssrcs p) @ map rs_ssrc ss @
           drop (unat (rp_n_ssrcs p) + length ss) (rp_ssrcs p),
        rp_n_ssrcs := rp_n_ssrcs p + of_nat (length ss)\<rparr>)"
  using assms
proof (induction ss arbitrary: rl p)
  case Nil
  then show ?case by simp
next
  case (Cons s ss)
  let ?n = "unat (rp_n_ssrcs p)"
  have n: "?n < length (rp_ssrcs p)" using Cons.prems by (simp add: REMB_MAX_SSRCS_COUNT_def)
  then have next_n: "unat (rp_n_ssrcs p + 1) = Suc ?n"
    using Cons.prems by (simp add: unat_word_ariths REMB_MAX_SSRCS_COUNT_def)
  have split: "take (Suc ?n) ((rp_ssrcs p)[?n := rs_ssrc s]) = take ?n (rp_ssrcs p) @ [rs_ssrc s]"
    using n by (simp add: take_Suc_conv_app_nth)
  show ?case
    using Cons.prems n
    by (simp add: add_ssrcs_def array_store_in Cons.IH next_n split add.assoc add.commute [of 1])
qed

lemma each_add_full:
  assumes "length (rp_ssrcs p) = REMB_MAX_SSRCS_COUNT"
    and "REMB_MAX_SSRCS_COUNT < unat (rp_n_ssrcs p) + length ss"
  shows "each_add_ssrcs ss (rl, p) = Inl Out_of_bounds"
  using assms
proof (induction ss arbitrary: rl p)
  case Nil
  have "unat (rp_n_ssrcs p) < 2 ^ 8" using unsigned_less [of "rp_n_ssrcs p"] by simp
  then show ?case using Nil.prems by (simp add: REMB_MAX_SSRCS_COUNT_def)
next
  case (Cons s ss)
  let ?n = "unat (rp_n_ssrcs p)"
  show ?case
  proof (cases "?n < REMB_MAX_SSRCS_COUNT")
    case True
    then have "unat (rp_n_ssrcs p + 1) = Suc ?n"
      by (simp add: unat_word_ariths REMB_MAX_SSRCS_COUNT_def)
    then show ?thesis
      using Cons True by (simp add: add_ssrcs_def array_store_in)
  next
    case False
    then show ?thesis using Cons.prems by (simp add: add_ssrcs_def array_store_def)
  qed
qed

lemma sending_cases [consumes 1, case_names quiet sent]:
  assumes "kms_remb_local_on_sending_rtcp env buf rl = Inr (rl', buf', b)"
  obtains (quiet) "\<not> b" "buf' = buf" "rl_frame rl rl'"
  | (sent) rl1 rl2 bitrate rl4 p pkt ok where "b"
      "rl_last_sent rl = 0 \<or> REMB_MAX_INTERVAL * GST_MSECOND \<le> se_now env - rl_last_sent rl"
      "kms_remb_local_update (se_sources env) (se_scale env) (se_now_stats env) rl = Inr (rl1, True)"
      "announced_bitrate (se_now_events env) rl1 = (rl2, bitrate)"
      "each_add_ssrcs (rl_sessions rl2) (rl2\<lparr>rl_remb_sent := bitrate\<rparr>,
         (se_junk env)\<lparr>rp_bitrate := bitrate, rp_n_ssrcs := 0\<rparr>) = Inr (rl4, p)"
      "kms_rtcp_psfb_afb_remb_marshall_packet (se_grow env) blank_fb p (se_internal_ssrc env) = Inr (pkt, ok)"
      "rl' = rl4\<lparr>rl_last_sent := se_now env\<rparr>" "buf' = (if ok then buf @ [pkt] else buf)"
proof (cases "(rl_last_sent rl \<noteq> 0 \<and> se_now env - rl_last_sent rl < REMB_MAX_INTERVAL * GST_MSECOND)
    \<or> \<not> se_mapped env \<or> \<not> se_added env")
  case True
  then show thesis
    using assms by (intro quiet) (auto simp: kms_remb_local_on_sending_rtcp_def split: if_splits)
next
  case False
  then have run: "kms_remb_local_on_sending_rtcp env buf rl = bind_result
      (kms_remb_local_update (se_sources env) (se_scale env) (se_now_stats env) rl)
      (\<lambda>(rl1, updated).
          if \<not> updated then Inr (rl1, buf, False)
          else case announced_bitrate (se_now_events env) rl1 of (rl2, bitrate) \<Rightarrow>
            (let rl3 = rl2\<lparr>rl_remb_sent := bitrate\<rparr>;
                 p0 = (se_junk env)\<lparr>rp_bitrate := bitrate, rp_n_ssrcs := 0\<rparr>
             in bind_result (each_add_ssrcs (rl_sessions rl3) (rl3, p0)) (\<lambda>(rl4, p).
                bind_result
                  (kms_rtcp_psfb_afb_remb_marshall_packet (se_grow env) blank_fb p (se_internal_ssrc env))
                  (\<lambda>(pkt, ok). Inr (rl4\<lparr>rl_last_sent := se_now env\<rparr>,
                     if ok then buf @ [pkt] else buf, True)))))"
    unfolding kms_remb_local_on_sending_rtcp_def by (simp only: de_Morgan_disj not_not if_False simp_thms)
  obtain rl1 updated where u:
    "kms_remb_local_update (se_sources env) (se_scale env) (se_now_stats env) rl = Inr (rl1, updated)"
    using assms unfolding run bind_result_Inr_iff by fastforce
  show thesis
  proof (cases updated)
    case False
    then show thesis
      using assms u update_frame [OF u] by (intro quiet) (simp_all add: run)
  next
    case True
    obtain rl2 bitrate where a: "announced_bitrate (se_now_events env) rl1 = (rl2, bitrate)"
      by fastforce
    obtain rl4 p where e: "each_add_ssrcs (rl_sessions rl2) (rl2\<lparr>rl_remb_sent := bitrate\<rparr>,
         (se_junk env)\<lparr>rp_bitrate := bitrate, rp_n_ssrcs := 0\<rparr>) = Inr (rl4, p)"
      using assms u True a by (auto simp: run bind_result_Inr_iff Let_def)
    obtain pkt ok where m:
      "kms_rtcp_psfb_afb_remb_marshall_packet (se_grow env) blank_fb p (se_internal_ssrc env) = Inr (pkt, ok)"
      using assms u True a e by (auto simp: run bind_result_Inr_iff Let_def)
    have "b" "rl' = rl4\<lparr>rl_last_sent := se_now env\<rparr>" "buf' = (if ok then buf @ [pkt] else buf)"
      using assms u True a e m by (simp_all add: run Let_def)
    with u a e m True False show thesis by (intro sent) (auto simp: not_less)
  qed
qed

end
