(* ===== verification/RembCongestion.thy ===== *)
theory RembCongestion
  imports RembLocal
begin

text \<open>
  What the REMB congestion control promises: how often it sends and what it may announce, how
  the estimation moves with and without losses, and that with the default factors and
  realistic measurements its float arithmetic never leaves the range of the integers.
\<close>

section \<open>Announcements\<close>

lemma remb_sending_facts:
  assumes "kms_remb_local_on_sending_rtcp env buf rl = Inr (rl', buf', True)"
  shows "(rl_last_sent rl = 0 \<or> REMB_MAX_INTERVAL * GST_MSECOND \<le> se_now env - rl_last_sent rl) \<and>
    REMB_MIN \<le> rl_remb_sent rl' \<and>
    (0 < rl_min_bw rl \<longrightarrow> rl_min_bw rl * 1000 \<le> rl_remb_sent rl') \<and>
    (rl_remb_sent rl' \<le> rl_remb rl' \<or> rl_remb_sent rl' = REMB_MIN \<or>
      (0 < rl_min_bw rl \<and> rl_remb_sent rl' = rl_min_bw rl * 1000)) \<and>
    rl_last_sent rl' = se_now env"
  using assms
proof (cases rule: sending_cases)
  case quiet
  then show ?thesis by simp
next
  case (sent rl1 rl2 bitrate rl4 p pkt ok)
  obtain ev where ev: "rl2 = rl1\<lparr>rl_events := ev\<rparr>"
    using announced_bitrate_spec(4) [OF sent(4)] by blast
  obtain base where "rl4 = rl2\<lparr>rl_remb_sent := bitrate, rl_base := base\<rparr>"
    using each_add_frame [OF sent(5)] by blast
  moreover have "rl_min_bw rl1 = rl_min_bw rl"
    using update_frame [OF sent(3)] by (simp add: rl_frame_def)
  ultimately show ?thesis
    using announced_bitrate_spec(1-3) [OF sent(4)] sent(2,7) ev by auto
qed

text \<open>
  a call that sends a packet (1) comes at least 200 ms after the last one, (2) announces
  at least 30 kbps and at least the configured minimum, (3) announces no more than the
  estimation, unless one of the two minima is what it announces, and (4) remembers its time.
\<close>

theorem remb_sending_contract:
  assumes "kms_remb_local_on_sending_rtcp env buf rl = Inr (rl', buf', True)"
  shows "(rl_last_sent rl = 0 \<or> REMB_MAX_INTERVAL * GST_MSECOND \<le> se_now env - rl_last_sent rl) \<and>
    REMB_MIN \<le> rl_remb_sent rl' \<and>
    (0 < rl_min_bw rl \<longrightarrow> rl_min_bw rl * 1000 \<le> rl_remb_sent rl') \<and>
    (rl_remb_sent rl' \<le> rl_remb rl' \<or> rl_remb_sent rl' = REMB_MIN \<or>
      (0 < rl_min_bw rl \<and> rl_remb_sent rl' = rl_min_bw rl * 1000)) \<and>
    rl_last_sent rl' = se_now env"
  using assms by (rule remb_sending_facts)

text \<open>The times at which a sequence of calls sends, until a call has no defined result.\<close>

fun sent_times :: "('o sending_env \<times> fb_packet list) list \<Rightarrow> ('o, 'd) remb_local \<Rightarrow> u64 list" where
  "sent_times [] rl = []"
| "sent_times ((env, buf) # calls) rl =
     (case kms_remb_local_on_sending_rtcp env buf rl of
        Inl _ \<Rightarrow> []
      | Inr (rl', _, b) \<Rightarrow> (if b then [se_now env] else []) @ sent_times calls rl')"

definition spaced :: "u64 \<Rightarrow> u64 \<Rightarrow> bool" where
  "spaced t t' \<longleftrightarrow> t \<le> t' \<and> REMB_MAX_INTERVAL * GST_MSECOND \<le> t' - t"

lemma sent_times_after:
  assumes "sorted (map (se_now \<circ> fst) calls)" and "\<forall>c \<in> set calls. se_now (fst c) \<noteq> 0"
    and "rl_last_sent rl \<noteq> 0 \<Longrightarrow> \<forall>c \<in> set calls. rl_last_sent rl \<le> se_now (fst c)"
  shows "successively spaced ((if rl_last_sent rl = 0 then [] else [rl_last_sent rl]) @ sent_times calls rl)"
  using assms
proof (induction calls arbitrary: rl)
  case Nil
  then show ?case by simp
next
  case (Cons c calls)
  obtain env buf where c: "c = (env, buf)" by (cases c)
  let ?r = "kms_remb_local_on_sending_rtcp env buf rl"
  show ?case
  proof (cases ?r)
    case (Inl f)
    then show ?thesis using c by simp
  next
    case (Inr res)
    obtain rl' buf' b where res: "?r = Inr (rl', buf', b)" using Inr by (cases res) auto
    show ?thesis
    proof (cases b)
      case False
      then have "rl_last_sent rl' = rl_last_sent rl"
        using sending_cases [OF res] by (auto simp: rl_frame_def)
      then show ?thesis using Cons.IH [of rl'] Cons.prems c res False by (auto split: if_splits)
    next
      case True
      then have r: "kms_remb_local_on_sending_rtcp env buf rl = Inr (rl', buf', True)"
        using res by simp
      have rl': "rl_last_sent rl' = se_now env"
        and gap: "rl_last_sent rl = 0 \<or> REMB_MAX_INTERVAL * GST_MSECOND \<le> se_now env - rl_last_sent rl"
        using remb_sending_facts [OF r] by auto
      have "successively spaced (se_now env # sent_times calls rl')"
        using Cons.IH [of rl'] Cons.prems c rl' by auto
      then show ?thesis
        using c res True gap Cons.prems(3) by (auto simp: spaced_def successively_Cons)
    qed
  qed
qed

text \<open>
  However often the signal fires, packets are sent at least 200 ms apart, whatever
  happens to the estimation in between, as long as the clock does not run backwards.
\<close>

theorem remb_rate_limited:
  assumes "sorted (map (se_now \<circ> fst) calls)" and "\<forall>c \<in> set calls. se_now (fst c) \<noteq> 0"
  shows "successively spaced (sent_times calls (kms_remb_local_create min_bw max_bw :: ('o, 'd) remb_local))"
  using sent_times_after [OF assms, of "kms_remb_local_create min_bw max_bw :: ('o, 'd) remb_local"]
  by (simp add: kms_remb_local_create_def)

section \<open>The arithmetic stays defined\<close>

definition default_factors :: "('o, 'd) remb_local \<Rightarrow> bool" where
  "default_factors rl \<longleftrightarrow> rl_exponential_factor rl = DEFAULT_REMB_EXPONENTIAL_FACTOR \<and>
     rl_decrement_factor rl = DEFAULT_REMB_DECREMENT_FACTOR \<and>
     rl_threshold_factor rl = DEFAULT_REMB_THRESHOLD_FACTOR \<and>
     rl_lineal_factor_grade rl = DEFAULT_REMB_LINEAL_FACTOR_GRADE \<and> rl_interval_top rl \<noteq> 0"

lemma default_factors_frame: "rl_frame rl rl' \<Longrightarrow> default_factors rl \<Longrightarrow> default_factors rl'"
  by (simp add: rl_frame_def default_factors_def)

text \<open>Default factors, an estimation up to 512 Mbps, measured bitrates up to 256 Mbps.\<close>

definition rl_sane :: "('o, 'd) remb_local \<Rightarrow> bool" where
  "rl_sane rl \<longleftrightarrow> default_factors rl \<and> unat (rl_remb rl) \<le> 2 ^ 29 \<and>
     unat (rl_max_br rl) \<le> 2 ^ 28 \<and> unat (rl_avg_br rl) \<le> 2 ^ 28"

lemma unat_max: "unat (max a b) = max (unat a) (unat b)"
  by (simp add: max_def word_le_nat_alt)

lemma unat_min: "unat (min a b) = min (unat a) (unat b)"
  by (simp add: min_def word_le_nat_alt)

lemma grow_factor: "upto_pow 1 (one_plus DEFAULT_REMB_EXPONENTIAL_FACTOR)"
  unfolding DEFAULT_REMB_EXPONENTIAL_FACTOR_def one_plus.simps
  by (rule upto_pow_rnd32) simp_all

lemma remb_grow_sane:
  assumes "rl_sane rl"
  shows "\<exists>rl'. remb_grow rl = Inr rl' \<and> rl_sane rl'"
proof -
  let ?base = "max (rl_remb rl) (rl_max_br rl)"
  have base: "unat ?base \<le> 2 ^ 29"
    using assms by (simp add: rl_sane_def unat_max)
  have "upto_pow (29 + 1) (fmul (float_of_sint ?base) (one_plus (rl_exponential_factor rl)))"
    using assms grow_factor base
    by (intro upto_pow_fmul upto_pow_float_of_sint) (simp_all add: rl_sane_def default_factors_def)
  then have "\<exists>w. float_to_sint (fmul (float_of_sint ?base) (one_plus (rl_exponential_factor rl))) = Inr w"
    using upto_pow_to_sint by fastforce
  then obtain new where new: "(if ?base < rl_threshold rl
      then float_to_sint (fmul (float_of_sint ?base) (one_plus (rl_exponential_factor rl)))
      else Inr (?base + rl_lineal_factor rl)) = Inr new"
    by fastforce
  have "unat (rl_max_br rl * 2) \<le> 2 ^ 29"
    using assms by (simp add: rl_sane_def unat_word_ariths)
  then have "unat (max (rl_remb rl) (min new (rl_max_br rl * 2))) \<le> 2 ^ 29"
    using assms by (simp add: rl_sane_def unat_max unat_min)
  then show ?thesis
    using new assms
    by (simp add: remb_grow_def Let_def rl_sane_def default_factors_def REMB_MAX_FACTOR_INPUT_BR_def)
qed

lemma upto_pow_div_grade:
  assumes "upto_pow 32 x"
  shows "upto_pow 28 (fdiv x DEFAULT_REMB_LINEAL_FACTOR_GRADE)"
proof -
  obtain y where y: "x = Fin y" "0 \<le> y" "y \<le> 2 ^ 32"
    using assms by (auto simp: upto_pow_def)
  then have "upto_pow 28 (rnd32 (y / 30))"
    by (intro upto_pow_rnd32) simp_all
  then show ?thesis using y by (simp add: DEFAULT_REMB_LINEAL_FACTOR_GRADE_def)
qed

lemma cut_factor:
  "upto_pow 0 DEFAULT_REMB_THRESHOLD_FACTOR" "upto_pow 0 DEFAULT_REMB_DECREMENT_FACTOR"
  unfolding DEFAULT_REMB_THRESHOLD_FACTOR_def DEFAULT_REMB_DECREMENT_FACTOR_def
  by (rule upto_pow_Fin; simp)+

lemma remb_cut_sane:
  assumes "rl_sane rl"
  shows "\<exists>rl'. remb_cut rl = Inr rl' \<and> rl_sane rl'"
proof -
  let ?base = "max (rl_remb rl) (rl_avg_br rl)"
  have "unat ?base \<le> 2 ^ 29"
    using assms by (simp add: rl_sane_def unat_max)
  then have base: "upto_pow 29 (float_of_sint ?base)"
    by (rule upto_pow_float_of_sint) simp
  have f: "rl_threshold_factor rl = DEFAULT_REMB_THRESHOLD_FACTOR"
      "rl_decrement_factor rl = DEFAULT_REMB_DECREMENT_FACTOR"
      "rl_lineal_factor_grade rl = DEFAULT_REMB_LINEAL_FACTOR_GRADE"
    using assms by (simp_all add: rl_sane_def default_factors_def)
  obtain th where th: "float_to_uint (fmul (float_of_sint ?base) (rl_threshold_factor rl)) = Inr th"
    using upto_pow_to_uint [OF upto_pow_fmul [OF base cut_factor(1)]] f by auto
  obtain new where new: "float_to_uint (fmul (float_of_sint ?base) (rl_decrement_factor rl)) = Inr new"
      "unat new \<le> 2 ^ 29"
    using upto_pow_to_uint [OF upto_pow_fmul [OF base cut_factor(2)]] f by auto
  obtain slope where slope:
    "float_to_sint (fdiv (float_of_uint (?base - th)) (rl_lineal_factor_grade rl)) = Inr slope"
    using upto_pow_to_sint [OF upto_pow_div_grade [OF upto_pow_float_of_uint]] f by auto
  show ?thesis
    using th new slope assms
    by (simp add: remb_cut_def Let_def rl_sane_def default_factors_def unat_min min_le_iff_disj)
qed

lemma smooth_sane:
  assumes "rl_sane rl" and "bitrate \<le> 2 ^ 28" and "packets < 2 ^ 32"
  shows "\<exists>rl'. smooth_losses bitrate fl packets rl = Inr rl' \<and> rl_sane rl'"
proof -
  have br: "unat bitrate \<le> 2 ^ 28" and pk: "unat packets < 2 ^ 32"
    using assms(2,3) by (simp_all add: word_le_nat_alt word_less_nat_alt)
  let ?top = "max (ucast (rl_interval_top rl)) packets"
  have "unat (rl_interval_top rl) < 2 ^ 32" using unsigned_less [of "rl_interval_top rl"] by simp
  then have top: "unat (ucast ?top :: u32) = max (unat (rl_interval_top rl)) (unat packets)"
    using pk by (subst unat_ucast_down) (simp_all add: unat_max)
  moreover have "0 < unat (rl_interval_top rl)"
    using assms(1) by (simp add: rl_sane_def default_factors_def unat_gt_0)
  ultimately have "(ucast ?top :: u32) \<noteq> 0" by (auto simp: unat_eq_0 [symmetric])
  moreover have "unat (ucast (max (ucast (rl_max_br rl)) bitrate) :: u32) \<le> 2 ^ 28"
    using assms(1) br by (subst unat_ucast_down) (simp_all add: unat_max rl_sane_def)
  moreover have "unat (ucast bitrate :: u32) \<le> 2 ^ 28"
    using br by (subst unat_ucast_down) simp_all
  moreover have "unat (ucast ((ucast (rl_avg_br rl * 7) + bitrate) div 8) :: u32) \<le> 2 ^ 28"
  proof -
    have "unat (rl_avg_br rl * 7) = unat (rl_avg_br rl) * 7"
      using assms(1) by (simp add: rl_sane_def unat_word_ariths)
    then have sum: "unat (ucast (rl_avg_br rl * 7) + bitrate) = unat (rl_avg_br rl) * 7 + unat bitrate"
      using assms(1) br by (simp add: unat_word_ariths rl_sane_def)
    have "unat ((ucast (rl_avg_br rl * 7) + bitrate) div 8) =
        (unat (rl_avg_br rl) * 7 + unat bitrate) div 8"
      by (simp only: unat_div sum) simp
    moreover have "(unat (rl_avg_br rl) * 7 + unat bitrate) div 8 \<le> 2 ^ 28"
      using assms(1) br unfolding rl_sane_def by linarith
    ultimately show ?thesis by (subst unat_ucast_down) simp_all
  qed
  ultimately show ?thesis
    using assms(1) by (simp add: smooth_losses_def Let_def rl_sane_def default_factors_def)
qed

lemma info_estimation:
  assumes "kms_remb_local_get_video_recv_info sources scale now rl = (rl1, m)"
  shows "rl_remb rl1 = rl_remb rl \<and> rl_max_br rl1 = rl_max_br rl \<and> rl_avg_br rl1 = rl_avg_br rl \<and>
    rl_probed rl1 = rl_probed rl \<and> rl_lost_record rl1 = rl_lost_record rl \<and>
    rl_threshold rl1 = rl_threshold rl \<and> rl_lineal_factor rl1 = rl_lineal_factor rl"
  using assms
  by (auto simp: kms_remb_local_get_video_recv_info_def Let_def split: if_splits prod.splits)

lemma info_sane:
  assumes "rl_sane rl" and "kms_remb_local_get_video_recv_info sources scale now rl = (rl1, m)"
  shows "rl_sane rl1"
  using info_estimation [OF assms(2)] info_frame [of rl sources scale now] assms
    default_factors_frame [of rl rl1]
  by (simp add: rl_sane_def)

lemma cap_sane: "rl_sane rl \<Longrightarrow> rl_sane (cap_max_bw rl)"
  by (auto simp: cap_max_bw_def rl_sane_def default_factors_def unat_min min_le_iff_disj)

text \<open>One call of the estimator, and what its measurements have to look like.\<close>

datatype 'o measurement =
  Measure (ms_sources: "'o \<Rightarrow> rtp_source list option")
    (ms_scale: "u64 \<Rightarrow> u64 \<Rightarrow> u64 \<Rightarrow> u64") (ms_now: u64)

fun update_step ::
    "c_fault + ('o, 'd) remb_local \<Rightarrow> 'o measurement \<Rightarrow> c_fault + ('o, 'd) remb_local" where
  "update_step (Inl f) m = Inl f"
| "update_step (Inr rl) (Measure sources scale now) =
     bind_result (kms_remb_local_update sources scale now rl) (\<lambda>(rl', b). Inr rl')"

fun update_allowed :: "c_fault + ('o, 'd) remb_local \<Rightarrow> 'o measurement \<Rightarrow> bool" where
  "update_allowed (Inl f) m = True"
| "update_allowed (Inr rl) (Measure sources scale now) =
     (case snd (kms_remb_local_get_video_recv_info sources scale now rl) of
        None \<Rightarrow> True
      | Some (bitrate, fl, packets) \<Rightarrow> bitrate \<le> 2 ^ 28 \<and> packets < 2 ^ 32)"

fun update_inv :: "c_fault + ('o, 'd) remb_local \<Rightarrow> bool" where
  "update_inv (Inl f) = False"
| "update_inv (Inr rl) = rl_sane rl"

lemma update_sane:
  assumes sane: "rl_sane rl" and al: "update_allowed (Inr rl) (Measure sources scale now)"
  shows "\<exists>rl' b. kms_remb_local_update sources scale now rl = Inr (rl', b) \<and> rl_sane rl'"
proof -
  obtain rl1 m where i: "kms_remb_local_get_video_recv_info sources scale now rl = (rl1, m)"
    by fastforce
  have s1: "rl_sane rl1" using info_sane [OF sane i] .
  show ?thesis
  proof (cases m)
    case None
    then show ?thesis
      using i s1 by (intro exI [of _ rl1] exI [of _ False]) (simp add: kms_remb_local_update_def)
  next
    case (Some meas)
    obtain bitrate fl packets where meas: "meas = (bitrate, fl, packets)" by (cases meas)
    have small: "bitrate \<le> 2 ^ 28" "packets < 2 ^ 32" using al i Some meas by simp_all
    show ?thesis
    proof (cases "probe_first bitrate rl1")
      case None
      then show ?thesis
        using i s1 Some meas
        by (intro exI [of _ rl1] exI [of _ False]) (simp add: kms_remb_local_update_def)
    next
      case p: (Some rl2)
      have "unat (ucast bitrate :: u32) \<le> 2 ^ 29"
        using small(1) by (subst unat_ucast_down) (simp_all add: word_le_nat_alt)
      then have "rl_sane rl2"
        using p s1 by (auto simp: probe_first_def rl_sane_def default_factors_def split: if_splits)
      then obtain rl3 where "smooth_losses bitrate fl packets rl2 = Inr rl3" "rl_sane rl3"
        using smooth_sane [OF _ small] by blast
      moreover obtain rl4 where "(if rl_lost_record rl3 = 0 then remb_grow rl3 else remb_cut rl3) = Inr rl4"
          "rl_sane rl4"
        using remb_grow_sane [of rl3] remb_cut_sane [of rl3] \<open>rl_sane rl3\<close>
        by (cases "rl_lost_record rl3 = 0") auto
      ultimately show ?thesis
        using i Some meas p cap_sane
        by (intro exI [of _ "cap_max_bw rl4"] exI [of _ True]) (simp add: kms_remb_local_update_def)
    qed
  qed
qed

lemma update_step_sane: "update_inv s \<Longrightarrow> update_allowed s e \<Longrightarrow> update_inv (update_step s e)"
proof (cases s)
  case (Inr rl)
  assume inv: "update_inv s" and al: "update_allowed s e"
  obtain sources scale now where e: "e = Measure sources scale now" by (cases e)
  then obtain rl' b where "kms_remb_local_update sources scale now rl = Inr (rl', b)" "rl_sane rl'"
    using update_sane [of rl sources scale now] inv al Inr by auto
  then show ?thesis using Inr e by simp
qed simp

interpretation cc: invariant_machine update_step update_allowed update_inv
  by unfold_locales (rule update_step_sane)

lemma create_sane: "rl_sane (kms_remb_local_create min_bw max_bw)"
  by (simp add: rl_sane_def default_factors_def kms_remb_local_create_def REMB_MAX_def
      DEFAULT_REMB_PACKETS_RECV_INTERVAL_TOP_def)


section \<open>The direction of the estimation\<close>

lemma half_exact:
  assumes "unat (w :: u32) < 2 ^ 24"
  shows "float_to_uint (fmul (float_of_sint w) DEFAULT_REMB_DECREMENT_FACTOR) = Inr (w div 2)"
proof -
  define n where "n = int (unat w)"
  have n: "0 \<le> n" "n < 2 ^ 24" using assms by (simp_all add: n_def del: of_nat_unat)
  have "sint w = n" using assms unfolding n_def by (intro sint_small) simp
  then have f: "float_of_sint w = Fin (of_int n)"
    using rnd32_int [of n] n by (simp add: float_of_sint_def)
  have m: "fmul (Fin (of_int n)) DEFAULT_REMB_DECREMENT_FACTOR = Fin (of_int n / 2)"
    using rnd32_half_int [OF n] by (simp add: DEFAULT_REMB_DECREMENT_FACTOR_def)
  have t: "trunc (of_int n / 2) = n div 2"
    using n floor_divide_of_int_eq [of n 2, where 'a = rat] by (simp add: trunc_def)
  have "word_of_int (n div 2) = w div 2"
    by (simp add: n_def word_div_def)
  then show ?thesis using f m t n by simp
qed

text \<open>
  what an update does to the estimation, by the smoothed loss record it ends up with before
  the bandwidth cap: without losses it does not fall and does not pass twice the highest
  bitrate seen (unless it was above that already); with tolerable losses it falls to at most
  the highest bitrate seen; with too many losses (and the default factors, below 16 Mbps) it
  is exactly half of the larger of estimation and average, and the record starts anew.
\<close>

theorem remb_update_direction:
  assumes "(if rl_lost_record rl = 0 then remb_grow rl else remb_cut rl) = Inr rl'"
  shows "if rl_lost_record rl = 0
      then rl_remb rl \<le> rl_remb rl' \<and>
        (rl_remb rl' = rl_remb rl \<or> rl_remb rl' \<le> rl_max_br rl * REMB_MAX_FACTOR_INPUT_BR)
    else if rl_lost_record rl < scast (rl_up_losses rl)
      then rl_remb rl' = min (rl_remb rl) (rl_max_br rl)
    else rl_max_br rl' = 0 \<and> rl_avg_br rl' = 0 \<and> rl_lost_record rl' = 0 \<and>
        (default_factors rl \<and> unat (max (rl_remb rl) (rl_avg_br rl)) < 2 ^ 24 \<longrightarrow>
         rl_remb rl' = max (rl_remb rl) (rl_avg_br rl) div 2)"
proof (cases "rl_lost_record rl = 0")
  case True
  then have "remb_grow rl = Inr rl'" using assms by simp
  then obtain new where "rl' = rl\<lparr>rl_remb := max (rl_remb rl) (min new (rl_max_br rl * REMB_MAX_FACTOR_INPUT_BR))\<rparr>"
    unfolding remb_grow_def Let_def bind_result_Inr_iff sum.inject by blast
  then show ?thesis using True by (auto simp: max_def)
next
  case False
  then have "remb_cut rl = Inr rl'" using assms by simp
  then show ?thesis
  proof (cases rule: remb_cut_cases)
    case (mild threshold slope)
    then show ?thesis using False by simp
  next
    case (strong threshold slope new)
    have "new = max (rl_remb rl) (rl_avg_br rl) div 2"
      if "default_factors rl" "unat (max (rl_remb rl) (rl_avg_br rl)) < 2 ^ 24"
      using strong(4) half_exact [OF that(2)] that(1) by (simp add: default_factors_def)
    then show ?thesis using False strong(3,5) by simp
  qed
qed

text \<open>
  no update leaves an estimation above the configured maximum.
\<close>

theorem remb_update_capped:
  assumes "kms_remb_local_update sources scale now rl = Inr (rl', True)" and "0 < rl_max_bw rl"
  shows "rl_remb rl' \<le> rl_max_bw rl * 1000"
  using assms(1)
proof (cases rule: update_cases)
  case unchanged
  then show ?thesis by simp
next
  case (changed rl1 bitrate fl packets rl2 rl3 rl4)
  have "rl_max_bw (cap_max_bw rl4) = rl_max_bw rl"
    using update_frame [OF assms(1)] unfolding changed(6) by (simp add: rl_frame_def)
  then have "rl_max_bw rl4 = rl_max_bw rl" by (simp add: cap_max_bw_def split: if_splits)
  then show ?thesis unfolding changed(6) using assms(2) by (simp add: cap_max_bw_def)
qed

section \<open>A call is defined\<close>

lemma marshall_defined:
  assumes law: "grow_law grow" and top: "unat (rp_bitrate p) \<le> REMB_TOP"
    and len: "length (rp_ssrcs p) = REMB_MAX_SSRCS_COUNT"
  shows "\<exists>pkt ok. kms_rtcp_psfb_afb_remb_marshall_packet grow blank_fb p ssrc = Inr (pkt, ok)"
proof -
  obtain e where e: "compute_mantissa_and_6_bit_base_2_expoonent (rp_bitrate p) 18 =
      Inr (Some (drop_bit e (rp_bitrate p), of_nat e))"
    using compute_mantissa_fits [OF top] by blast
  let ?p1 = "blank_fb\<lparr>fb_type := RTCP_PSFB_TYPE_AFB, fb_sender_ssrc := ssrc, fb_media_ssrc := 0\<rparr>"
  show ?thesis
  proof (cases "grow (2 + ucast (rp_n_ssrcs p)) ?p1")
    case None
    then show ?thesis
      using e by (intro exI [of _ ?p1] exI [of _ False])
        (simp add: kms_rtcp_psfb_afb_remb_marshall_packet_def Let_def fb_fci_length_def blank_fb_def)
  next
    case (Some p2)
    then show ?thesis
      using marshall_empty [OF law _ len e, of blank_fb ssrc p2] by (auto simp: blank_fb_def)
  qed
qed

text \<open>The surroundings of a call that nothing in the C code guards against.\<close>

definition env_ok :: "'o sending_env \<Rightarrow> ('o, 'd) remb_local \<Rightarrow> bool" where
  "env_ok env rl \<longleftrightarrow> grow_law (se_grow env) \<and> length (rp_ssrcs (se_junk env)) = REMB_MAX_SSRCS_COUNT \<and>
     length (rl_sessions rl) \<le> REMB_MAX_SSRCS_COUNT \<and> unat (rl_min_bw rl * 1000) \<le> REMB_TOP"

lemma sending_goes_on:
  assumes free: "rl_last_sent rl = 0 \<or> REMB_MAX_INTERVAL * GST_MSECOND \<le> se_now env - rl_last_sent rl"
    and "se_mapped env" and "se_added env"
    and up: "kms_remb_local_update (se_sources env) (se_scale env) (se_now_stats env) rl = Inr (rl1, True)"
    and sane: "rl_sane rl1" and env: "env_ok env rl"
  shows "\<exists>rl' buf'. kms_remb_local_on_sending_rtcp env buf rl = Inr (rl', buf', True)"
proof -
  obtain rl2 bitrate where a: "announced_bitrate (se_now_events env) rl1 = (rl2, bitrate)" by fastforce
  obtain ev where ev: "rl2 = rl1\<lparr>rl_events := ev\<rparr>" using announced_bitrate_spec(4) [OF a] by blast
  have fr: "rl_frame rl rl1" using up by (rule update_frame)
  then have "length (rl_sessions rl1) = length (rl_sessions rl)"
    unfolding rl_frame_def by (metis length_map)
  then have few: "length (rl_sessions rl2) \<le> REMB_MAX_SSRCS_COUNT" using ev env by (simp add: env_ok_def)
  let ?p0 = "(se_junk env)\<lparr>rp_bitrate := bitrate, rp_n_ssrcs := 0\<rparr>"
  have junk: "length (rp_ssrcs (se_junk env)) = REMB_MAX_SSRCS_COUNT" using env by (simp add: env_ok_def)
  have "\<exists>rl4 p. each_add_ssrcs (rl_sessions rl2) (rl2\<lparr>rl_remb_sent := bitrate\<rparr>, ?p0) = Inr (rl4, p)
      \<and> length (rp_ssrcs p) = REMB_MAX_SSRCS_COUNT"
    using each_add_spec [of ?p0 "rl_sessions rl2" "rl2\<lparr>rl_remb_sent := bitrate\<rparr>"] few junk by simp
  then obtain rl4 p where e: "each_add_ssrcs (rl_sessions rl2) (rl2\<lparr>rl_remb_sent := bitrate\<rparr>, ?p0) = Inr (rl4, p)"
      and len: "length (rp_ssrcs p) = REMB_MAX_SSRCS_COUNT" by blast
  have "rl_min_bw rl1 = rl_min_bw rl" using fr by (simp add: rl_frame_def)
  then have "unat bitrate \<le> REMB_TOP"
    using announced_bitrate_spec(3) [OF a] sane env
    by (auto simp: env_ok_def rl_sane_def word_le_nat_alt REMB_TOP_def REMB_MIN_def)
  moreover have "rp_bitrate p = bitrate" using each_add_frame [OF e] by simp
  ultimately obtain pkt ok where
    "kms_rtcp_psfb_afb_remb_marshall_packet (se_grow env) blank_fb p (se_internal_ssrc env) = Inr (pkt, ok)"
    using marshall_defined [OF _ _ len, of "se_grow env" "se_internal_ssrc env"] env
    unfolding env_ok_def by metis
  then show ?thesis
    using free assms(2,3) up a e by (auto simp: kms_remb_local_on_sending_rtcp_def Let_def not_less)
qed

text \<open>
  with the default factors, at most 255 remote sessions and a minimum bandwidth that the
  packet format can carry, a call of the signal handler whose measurements are in range has a
  defined result, whatever the state of the buffer, the clock and the event manager.
\<close>

theorem remb_sending_defined:
  assumes "rl_sane rl" and "env_ok env rl"
    and "update_allowed (Inr rl) (Measure (se_sources env) (se_scale env) (se_now_stats env))"
  shows "\<exists>rl' buf' b. kms_remb_local_on_sending_rtcp env buf rl = Inr (rl', buf', b)"
proof -
  obtain rl1 updated where up:
    "kms_remb_local_update (se_sources env) (se_scale env) (se_now_stats env) rl = Inr (rl1, updated)"
    and sane: "rl_sane rl1"
    using update_sane [OF assms(1,3)] by blast
  consider (early) "rl_last_sent rl \<noteq> 0 \<and> se_now env - rl_last_sent rl < REMB_MAX_INTERVAL * GST_MSECOND
      \<or> \<not> se_mapped env \<or> \<not> se_added env"
    | (stop) "\<not> updated"
    | (go) "rl_last_sent rl = 0 \<or> REMB_MAX_INTERVAL * GST_MSECOND \<le> se_now env - rl_last_sent rl"
        "se_mapped env" "se_added env" "updated"
    by (metis not_less)
  then show ?thesis
  proof cases
    case early
    then show ?thesis by (auto simp: kms_remb_local_on_sending_rtcp_def)
  next
    case stop
    then show ?thesis using up by (simp add: kms_remb_local_on_sending_rtcp_def)
  next
    case go
    with up have "kms_remb_local_update (se_sources env) (se_scale env) (se_now_stats env) rl = Inr (rl1, True)"
      by simp
    from sending_goes_on [OF go(1-3) this sane assms(2), of buf] show ?thesis by blast
  qed
qed

section \<open>Concrete runs\<close>

definition one_source :: "nat \<Rightarrow> rtp_source list option" where
  "one_source s = Some [\<lparr>so_ssrc = 7, so_validated = True, so_sender = True,
     so_stats = [''bitrate'' \<mapsto> GUint64 3000000, ''packets-received'' \<mapsto> GUint64 10]\<rparr>]"

definition one_session :: "u32 \<Rightarrow> (nat, unit) remb_local" where
  "one_session max_bw = kms_remb_local_add_remote_session 0 7 (kms_remb_local_create 0 max_bw)"

definition one_env :: "nat sending_env" where
  "one_env = \<lparr>se_now = 5, se_now_stats = 5, se_now_events = (5, 5), se_mapped = True, se_added = True,
     se_sources = one_source, se_scale = (\<lambda>_ _ _. 0), se_junk = blank_remb, se_internal_ssrc = 1,
     se_grow = roomy\<rparr>"

lemmas run_defs = one_source_def one_session_def kms_remb_local_add_remote_session_def
  kms_remb_local_create_def kms_rl_remote_session_create_def kms_remb_local_update_def
  kms_remb_local_get_video_recv_info_def kms_rl_remote_session_get_sessions_info_def
  account_source_def no_sessions_info_def kms_remb_base_create_def Let_def probe_first_def
  smooth_losses_def remb_grow_def cap_max_bw_def REMB_MAX_def
  DEFAULT_REMB_PACKETS_RECV_INTERVAL_TOP_def DEFAULT_REMB_LINEAL_FACTOR_MIN_def
  REMB_MAX_FACTOR_INPUT_BR_def

lemma one_measure:
  "kms_remb_local_get_video_recv_info one_source (\<lambda>_ _ _. 0) 5 (one_session max_bw) =
   ((one_session max_bw)\<lparr>rl_sessions := [\<lparr>rs_rtpsess = 0, rs_ssrc = 7, rs_last_octets = 0,
       rs_last_packets = 10, rs_last_expected = 10\<rparr>], rl_last_time := 5\<rparr>, Some (3000000, 0, 10))"
  by (simp add: run_defs)

lemma one_session_sane: "rl_sane (one_session max_bw)"
  using create_sane [of 0 max_bw]
  by (simp add: one_session_def kms_remb_local_add_remote_session_def rl_sane_def default_factors_def)

lemma one_allowed: "update_allowed (Inr (one_session max_bw)) (Measure one_source (\<lambda>_ _ _. 0) 5)"
  by (simp add: one_measure)

lemma one_update:
  "\<exists>rl1. kms_remb_local_update one_source (\<lambda>_ _ _. 0) 5 (one_session max_bw) = Inr (rl1, True) \<and> rl_sane rl1"
proof -
  obtain rl1 b where u: "kms_remb_local_update one_source (\<lambda>_ _ _. 0) 5 (one_session max_bw) = Inr (rl1, b)"
      "rl_sane rl1"
    using update_sane [OF one_session_sane one_allowed] by blast
  have "b"
    using u(1)
    by (auto simp: kms_remb_local_update_def one_measure probe_first_def bind_result_Inr_iff
        split: if_splits)
  then show ?thesis using u by simp
qed

lemma one_sends: "\<exists>rl' buf'. kms_remb_local_on_sending_rtcp one_env [] (one_session 0) = Inr (rl', buf', True)"
proof -
  obtain rl1 where "kms_remb_local_update one_source (\<lambda>_ _ _. 0) 5 (one_session 0) = Inr (rl1, True)" "rl_sane rl1"
    using one_update by blast
  then show ?thesis
    by (intro sending_goes_on)
      (simp_all add: one_env_def env_ok_def one_session_def grow_law_roomy blank_remb_def
        REMB_MAX_SSRCS_COUNT_def kms_remb_local_add_remote_session_def kms_remb_local_create_def)
qed

theorem remb_sending_contract_witness:
  "\<exists>rl' buf'. kms_remb_local_on_sending_rtcp one_env [] (one_session 0) = Inr (rl', buf', True) \<and>
    (rl_last_sent (one_session 0) = 0 \<or>
      REMB_MAX_INTERVAL * GST_MSECOND \<le> se_now one_env - rl_last_sent (one_session 0)) \<and>
    REMB_MIN \<le> rl_remb_sent rl' \<and>
    (0 < rl_min_bw (one_session 0) \<longrightarrow> rl_min_bw (one_session 0) * 1000 \<le> rl_remb_sent rl') \<and>
    (rl_remb_sent rl' \<le> rl_remb rl' \<or> rl_remb_sent rl' = REMB_MIN \<or>
      (0 < rl_min_bw (one_session 0) \<and> rl_remb_sent rl' = rl_min_bw (one_session 0) * 1000)) \<and>
    rl_last_sent rl' = se_now one_env"
  using one_sends by (metis remb_sending_contract)

theorem remb_rate_limited_witness:
  "successively spaced (sent_times [(one_env, []), (one_env\<lparr>se_now := 300000000\<rparr>, [])]
     (kms_remb_local_create 0 0 :: (nat, unit) remb_local))"
  by (rule remb_rate_limited) (simp_all add: one_env_def)


theorem remb_update_direction_witness:
  "\<exists>rl'. remb_cut ((one_session 0)\<lparr>rl_lost_record := 20\<rparr>) = Inr rl' \<and>
     rl_max_br rl' = 0 \<and> rl_avg_br rl' = 0 \<and> rl_lost_record rl' = 0 \<and> rl_remb rl' = 1000000"
proof -
  let ?rl = "(one_session 0)\<lparr>rl_lost_record := 20\<rparr>"
  have sane: "rl_sane ?rl"
    using one_session_sane [of 0] by (simp add: rl_sane_def default_factors_def)
  then obtain rl' where r: "remb_cut ?rl = Inr rl'" using remb_cut_sane by blast
  have f: "default_factors ?rl" using sane by (simp add: rl_sane_def)
  have v: "max (rl_remb ?rl) (rl_avg_br ?rl) = 2000000" "\<not> (20 :: u64) < scast (rl_up_losses ?rl)"
    by (simp_all add: one_session_def kms_remb_local_add_remote_session_def kms_remb_local_create_def
        REMB_MAX_def DEFAULT_REMB_UP_LOSSES_def)
  show ?thesis
    using remb_update_direction [of ?rl rl'] r f v by simp
qed

theorem remb_update_capped_witness:
  "\<exists>rl1. kms_remb_local_update one_source (\<lambda>_ _ _. 0) 5 (one_session 1500) = Inr (rl1, True) \<and>
     rl_remb rl1 \<le> 1500 * 1000"
proof -
  obtain rl1 where u: "kms_remb_local_update one_source (\<lambda>_ _ _. 0) 5 (one_session 1500) = Inr (rl1, True)"
    using one_update by blast
  moreover have "rl_max_bw (one_session 1500) = 1500"
    by (simp add: one_session_def kms_remb_local_add_remote_session_def kms_remb_local_create_def)
  ultimately show ?thesis using remb_update_capped [OF u] by simp
qed

theorem remb_sending_defined_witness:
  "\<exists>rl' buf' b. kms_remb_local_on_sending_rtcp one_env [] (one_session 0) = Inr (rl', buf', b)"
  using one_allowed [of 0]
  by (intro remb_sending_defined one_session_sane)
    (simp_all add: one_env_def env_ok_def one_session_def grow_law_roomy blank_remb_def
      REMB_MAX_SSRCS_COUNT_def kms_remb_local_add_remote_session_def kms_remb_local_create_def)

end
