(* ===== verification/RembRemote.thy ===== *)
theory RembRemote
  imports RembLocal
begin

text \<open>
  The sending side of the REMB congestion control (\<open>KmsRembRemote\<close> of \<open>kmsremb.c\<close>): REMB packets
  that arrive as RTCP feedback become bitrate events for the encoder. The events pushed on the
  pad are a result of the operations. The packet variable the parser fills is not initialised:
  its contents (\<open>junk\<close>) are a parameter.
\<close>

section \<open>State and operations\<close>

record remb_remote =
  rr_base :: remb_base
  rr_local_ssrc :: u32
  rr_min_bw :: u32
  rr_max_bw :: u32
  rr_on_connect :: u32
  rr_remb :: u32
  rr_probed :: bool
  rr_pad :: bool

definition DEFAULT_REMB_ON_CONNECT :: u32 where
  "DEFAULT_REMB_ON_CONNECT = 300000"

text \<open>The configured range applied to a bitrate.\<close>

definition applied_bitrate :: "remb_remote \<Rightarrow> u32 \<Rightarrow> u32" where
  "applied_bitrate rm bitrate =
     (let br1 = (if rr_min_bw rm > 0 then max bitrate (rr_min_bw rm * 1000) else bitrate)
      in if rr_max_bw rm > 0 then min br1 (rr_max_bw rm * 1000) else br1)"

definition send_remb_event :: "remb_remote \<Rightarrow> u32 \<Rightarrow> u32 \<Rightarrow> gst_event list" where
  "send_remb_event rm bitrate ssrc =
     (if \<not> rr_pad rm then []
      else [kms_utils_remb_event_upstream_new (applied_bitrate rm bitrate) ssrc])"

definition send_remb_event_probe :: "remb_remote \<Rightarrow> bool \<Rightarrow> gst_event list \<times> probe_return" where
  "send_remb_event_probe rm is_caps =
     (if \<not> is_caps then ([], Probe_ok)
      else (send_remb_event rm (rr_on_connect rm) (rr_local_ssrc rm), Probe_remove))"

definition kms_remb_remote_update ::
    "remb_remote \<Rightarrow> remb_packet \<Rightarrow> remb_remote \<times> gst_event list" where
  "kms_remb_remote_update rm p =
     (if rp_n_ssrcs p = 0 then (rm, [])
      else
        (let (rm1, br_send) =
           (if \<not> rr_probed rm then
              (if rp_bitrate p < rr_on_connect rm \<and> rp_bitrate p \<ge> rr_remb rm
               then (rm\<lparr>rr_remb := rp_bitrate p\<rparr>, rr_on_connect rm)
               else (rm\<lparr>rr_probed := True\<rparr>, rp_bitrate p))
            else (rm, rp_bitrate p))
         in (rm1\<lparr>rr_remb := rp_bitrate p\<rparr>, send_remb_event rm1 br_send (rp_ssrcs p ! 0))))"

fun target_stats :: "nat \<Rightarrow> nat \<Rightarrow> remb_packet \<Rightarrow> remb_base \<Rightarrow> c_fault + remb_base" where
  "target_stats 0 i p b = Inr b"
| "target_stats (Suc k) i p b =
     (if i < length (rp_ssrcs p)
      then target_stats k (Suc i) p (kms_remb_base_update_stats (rp_ssrcs p ! i) (rp_bitrate p) b)
      else Inl Out_of_bounds)"

definition kms_remb_remote_update_target_ssrcs_stats ::
    "remb_remote \<Rightarrow> remb_packet \<Rightarrow> c_fault + remb_remote" where
  "kms_remb_remote_update_target_ssrcs_stats rm p =
     bind_result (target_stats (unat (rp_n_ssrcs p)) 0 p (rr_base rm))
       (\<lambda>b. Inr (rm\<lparr>rr_base := b\<rparr>))"

definition process_psfb_afb ::
    "('b \<Rightarrow> u8 list option) \<Rightarrow> remb_packet \<Rightarrow> bool \<Rightarrow> remb_remote option \<Rightarrow> 'b \<Rightarrow>
     c_fault + remb_remote option \<times> gst_event list" where
  "process_psfb_afb gst_map junk is_object qdata fci_buffer =
     (if \<not> is_object then Inr (qdata, [])
      else case qdata of
        None \<Rightarrow> Inr (qdata, [])
      | Some rm \<Rightarrow>
          (case kms_rtcp_psfb_afb_buffer_map gst_map fci_buffer True False
               \<lparr>ab_buffer = False, ab_map_read = False, ab_map_write = False, ab_map_data = []\<rparr> of
             (ab, False) \<Rightarrow> Inr (qdata, [])
           | (ab, True) \<Rightarrow>
               (case kms_rtcp_psfb_afb_get_packet ab of
                  (type, False) \<Rightarrow> Inr (qdata, [])
                | (AFB_TYPE_REMB, True) \<Rightarrow>
                    bind_result (kms_rtcp_psfb_afb_remb_get_packet ab AFB_TYPE_REMB junk) (\<lambda>(p, _).
                      case kms_remb_remote_update rm p of (rm1, evs) \<Rightarrow>
                        bind_result (kms_remb_remote_update_target_ssrcs_stats rm1 p)
                          (\<lambda>rm2. Inr (Some rm2, evs)))
                | (AFB_TYPE_INVALID, True) \<Rightarrow> Inr (qdata, []))))"

definition RTCP_TYPE_PSFB :: nat where "RTCP_TYPE_PSFB = 206"

definition kms_remb_remote_on_feedback_rtcp ::
    "('b \<Rightarrow> u8 list option) \<Rightarrow> remb_packet \<Rightarrow> bool \<Rightarrow> remb_remote option \<Rightarrow> nat \<Rightarrow> nat \<Rightarrow> 'b \<Rightarrow>
     c_fault + remb_remote option \<times> gst_event list" where
  "kms_remb_remote_on_feedback_rtcp gst_map junk is_object qdata type fbtype fci =
     (if type = RTCP_TYPE_PSFB \<and> fbtype = RTCP_PSFB_TYPE_AFB
      then process_psfb_afb gst_map junk is_object qdata fci else Inr (qdata, []))"

definition kms_remb_remote_create :: "u32 \<Rightarrow> u32 \<Rightarrow> u32 \<Rightarrow> remb_remote" where
  "kms_remb_remote_create local_ssrc min_bw max_bw =
     \<lparr>rr_base = kms_remb_base_create, rr_local_ssrc = local_ssrc, rr_min_bw = min_bw,
      rr_max_bw = max_bw, rr_on_connect = DEFAULT_REMB_ON_CONNECT, rr_remb = 0,
      rr_probed = False, rr_pad = True\<rparr>"

definition kms_remb_remote_destroy :: "remb_remote \<Rightarrow> remb_remote" where
  "kms_remb_remote_destroy rm =
     rm\<lparr>rr_pad := False, rr_base := kms_remb_base_destroy (rr_base rm)\<rparr>"

definition kms_remb_remote_set_params :: "gst_structure \<Rightarrow> remb_remote \<Rightarrow> remb_remote" where
  "kms_remb_remote_set_params params rm =
     rm\<lparr>rr_on_connect := or_else (gst_structure_get_int params ''remb-on-connect'') (rr_on_connect rm)\<rparr>"

definition kms_remb_remote_get_params :: "gst_structure \<Rightarrow> remb_remote \<Rightarrow> gst_structure" where
  "kms_remb_remote_get_params params rm = params(''remb-on-connect'' \<mapsto> GInt (rr_on_connect rm))"

section \<open>What a packet does\<close>

lemma process_mapped:
  assumes "gst_map fci = Some bs"
  shows "kms_remb_remote_on_feedback_rtcp gst_map junk True (Some rm) RTCP_TYPE_PSFB RTCP_PSFB_TYPE_AFB fci =
    (if is_remb bs then
       bind_result (read_remb bs junk) (\<lambda>(p, _).
         case kms_remb_remote_update rm p of (rm1, evs) \<Rightarrow>
           bind_result (kms_remb_remote_update_target_ssrcs_stats rm1 p) (\<lambda>rm2. Inr (Some rm2, evs)))
     else Inr (Some rm, []))"
  using assms
  by (simp add: kms_remb_remote_on_feedback_rtcp_def process_psfb_afb_def
      kms_rtcp_psfb_afb_buffer_map_def kms_rtcp_psfb_afb_get_packet_def
      kms_rtcp_psfb_afb_remb_get_packet_def)

lemma target_stats_eq:
  "i + k \<le> length (rp_ssrcs p) \<Longrightarrow>
   target_stats k i p b =
     Inr (b\<lparr>rb_stats := fold (\<lambda>s. AList.update s (rp_bitrate p)) (take k (drop i (rp_ssrcs p))) (rb_stats b)\<rparr>)"
proof (induction k arbitrary: i b)
  case 0
  then show ?case by simp
next
  case (Suc k)
  have "take (Suc k) (drop i (rp_ssrcs p)) = rp_ssrcs p ! i # take k (drop (Suc i) (rp_ssrcs p))"
    using Suc.prems by (simp add: Cons_nth_drop_Suc [symmetric])
  then show ?case using Suc by (simp add: kms_remb_base_update_stats_def)
qed

definition packet_ssrcs :: "remb_packet \<Rightarrow> u32 list" where
  "packet_ssrcs p = take (unat (rp_n_ssrcs p)) (rp_ssrcs p)"

lemma remote_update_fields [simp]:
  "rr_base (fst (kms_remb_remote_update rm p)) = rr_base rm"
  "rr_on_connect (fst (kms_remb_remote_update rm p)) = rr_on_connect rm"
  "rr_min_bw (fst (kms_remb_remote_update rm p)) = rr_min_bw rm"
  "rr_max_bw (fst (kms_remb_remote_update rm p)) = rr_max_bw rm"
  "rr_pad (fst (kms_remb_remote_update rm p)) = rr_pad rm"
  by (simp_all add: kms_remb_remote_update_def Let_def)

text \<open>The packet a buffer holds, for a well-formed REMB message.\<close>

definition remb_message :: "u8 list \<Rightarrow> remb_packet \<Rightarrow> remb_packet \<Rightarrow> bool" where
  "remb_message bs junk p \<longleftrightarrow> is_remb bs \<and> read_remb bs junk = Inr (p, True)"

lemma read_ssrcs_length: "read_ssrcs k i fci xs = Inr ys \<Longrightarrow> length ys = length xs"
  by (induction k i fci xs rule: read_ssrcs.induct)
    (auto simp: bind_result_Inr_iff array_store_def split: if_splits)

lemma read_remb_length:
  assumes "read_remb bs junk = Inr (p, ok)"
  shows "length (rp_ssrcs p) = length (rp_ssrcs junk)"
  using assms
  by (auto simp: read_remb_def Let_def bind_result_Inr_iff dest: read_ssrcs_length split: if_splits)

lemma feedback_message:
  assumes "gst_map fci = Some bs" and "remb_message bs junk p"
    and len: "length (rp_ssrcs junk) = REMB_MAX_SSRCS_COUNT"
  shows "kms_remb_remote_on_feedback_rtcp gst_map junk True (Some rm) RTCP_TYPE_PSFB RTCP_PSFB_TYPE_AFB fci =
    Inr (Some ((fst (kms_remb_remote_update rm p))
         \<lparr>rr_base := (rr_base rm)\<lparr>rb_stats := fold (\<lambda>s. AList.update s (rp_bitrate p)) (packet_ssrcs p)
             (rb_stats (rr_base rm))\<rparr>\<rparr>),
       snd (kms_remb_remote_update rm p))"
proof -
  have "length (rp_ssrcs p) = REMB_MAX_SSRCS_COUNT"
    using assms(2) read_remb_length [of bs junk p True] len by (simp add: remb_message_def)
  moreover have "unat (rp_n_ssrcs p) < 2 ^ 8" using unsigned_less [of "rp_n_ssrcs p"] by simp
  ultimately have "0 + unat (rp_n_ssrcs p) \<le> length (rp_ssrcs p)"
    by (simp add: REMB_MAX_SSRCS_COUNT_def)
  from target_stats_eq [OF this] show ?thesis
    using assms(2)
    by (simp add: process_mapped [of gst_map fci bs, OF assms(1)] remb_message_def packet_ssrcs_def
        kms_remb_remote_update_target_ssrcs_stats_def split: prod.split)
       (metis fst_conv remote_update_fields(1))
qed

text \<open>
  a well-formed REMB message that arrives as feedback records its bitrate for exactly
  the SSRCs it lists, leaves the record of every other SSRC alone, and, unless it lists none,
  pushes one bitrate event for the first SSRC, with a bitrate inside the configured range.
\<close>

theorem remb_feedback_effect:
  assumes "gst_map fci = Some bs" and "remb_message bs junk p"
    and "length (rp_ssrcs junk) = REMB_MAX_SSRCS_COUNT" and "rr_pad rm"
    and "hash_ok (rb_stats (rr_base rm))"
  shows "\<exists>rm' evs. kms_remb_remote_on_feedback_rtcp gst_map junk True (Some rm) RTCP_TYPE_PSFB
      RTCP_PSFB_TYPE_AFB fci = Inr (Some rm', evs) \<and>
    map_of (rb_stats (rr_base rm')) =
      (\<lambda>s. if s \<in> set (packet_ssrcs p) then Some (rp_bitrate p) else map_of (rb_stats (rr_base rm)) s) \<and>
    (if rp_n_ssrcs p = 0 then evs = [] \<and> rm' = rm
     else (\<exists>b. evs = [kms_utils_remb_event_upstream_new b (rp_ssrcs p ! 0)] \<and>
       (b = applied_bitrate rm (rp_bitrate p) \<or>
        (\<not> rr_probed rm \<and> b = applied_bitrate rm (rr_on_connect rm))) \<and>
       rr_remb rm' = rp_bitrate p))"
proof -
  let ?st = "fold (\<lambda>s. AList.update s (rp_bitrate p)) (packet_ssrcs p) (rb_stats (rr_base rm))"
  have st: "map_of ?st = (\<lambda>s. if s \<in> set (packet_ssrcs p) then Some (rp_bitrate p)
      else map_of (rb_stats (rr_base rm)) s)"
    using assms(5) by (rule ht.get_puts)
  have none: "packet_ssrcs p = []" if "rp_n_ssrcs p = 0"
    using that by (simp add: packet_ssrcs_def)
  have same: "applied_bitrate (rm\<lparr>rr_probed := x\<rparr>) = applied_bitrate rm"
    "applied_bitrate (rm\<lparr>rr_remb := y\<rparr>) = applied_bitrate rm" for x y
    by (simp_all add: applied_bitrate_def fun_eq_iff)
  show ?thesis
    using feedback_message [of gst_map fci bs, OF assms(1-3)] st none assms(4)
    by (auto simp: kms_remb_remote_update_def send_remb_event_def Let_def same)
qed

section \<open>The ramp-up\<close>

lemma sorted_last: "sorted xs \<Longrightarrow> x \<in> set xs \<Longrightarrow> x \<le> last xs"
  by (induction xs) auto

text \<open>Packets one after the other: the bitrates of the events that result.\<close>

fun applied_run :: "remb_remote \<Rightarrow> remb_packet list \<Rightarrow> gst_event list" where
  "applied_run rm [] = []"
| "applied_run rm (p # ps) =
     (case kms_remb_remote_update rm p of (rm', evs) \<Rightarrow> evs @ applied_run rm' ps)"

definition ramping :: "remb_remote \<Rightarrow> remb_packet list \<Rightarrow> bool" where
  "ramping rm ps \<longleftrightarrow> sorted (rr_remb rm # map rp_bitrate ps) \<and>
     (\<forall>p \<in> set ps. rp_bitrate p < rr_on_connect rm \<and> rp_n_ssrcs p \<noteq> 0)"

lemma applied_remb [simp]:
  "applied_bitrate (rm\<lparr>rr_remb := y\<rparr>) = applied_bitrate rm"
  "applied_bitrate (rm\<lparr>rr_probed := x\<rparr>) = applied_bitrate rm"
  by (simp_all add: applied_bitrate_def fun_eq_iff)

lemma applied_run_ramping:
  "\<not> rr_probed rm \<Longrightarrow> rr_pad rm \<Longrightarrow> ramping rm ps \<Longrightarrow>
   applied_run rm ps =
     map (\<lambda>p. kms_utils_remb_event_upstream_new (applied_bitrate rm (rr_on_connect rm)) (rp_ssrcs p ! 0)) ps"
proof (induction ps arbitrary: rm)
  case Nil
  then show ?case by simp
next
  case (Cons p ps)
  have "kms_remb_remote_update rm p = (rm\<lparr>rr_remb := rp_bitrate p\<rparr>,
      [kms_utils_remb_event_upstream_new (applied_bitrate rm (rr_on_connect rm)) (rp_ssrcs p ! 0)])"
    using Cons.prems by (simp add: kms_remb_remote_update_def ramping_def send_remb_event_def)
  moreover have "ramping (rm\<lparr>rr_remb := rp_bitrate p\<rparr>) ps"
    using Cons.prems(3) by (simp add: ramping_def)
  ultimately show ?case using Cons.IH [of "rm\<lparr>rr_remb := rp_bitrate p\<rparr>"] Cons.prems by simp
qed

lemma applied_run_probed:
  "rr_probed rm \<Longrightarrow> rr_pad rm \<Longrightarrow> \<forall>p \<in> set ps. rp_n_ssrcs p \<noteq> 0 \<Longrightarrow>
   applied_run rm ps =
     map (\<lambda>p. kms_utils_remb_event_upstream_new (applied_bitrate rm (rp_bitrate p)) (rp_ssrcs p ! 0)) ps"
proof (induction ps arbitrary: rm)
  case Nil
  then show ?case by simp
next
  case (Cons p ps)
  have "kms_remb_remote_update rm p = (rm\<lparr>rr_remb := rp_bitrate p\<rparr>,
      [kms_utils_remb_event_upstream_new (applied_bitrate rm (rp_bitrate p)) (rp_ssrcs p ! 0)])"
    using Cons.prems by (simp add: kms_remb_remote_update_def send_remb_event_def)
  then show ?case using Cons.IH [of "rm\<lparr>rr_remb := rp_bitrate p\<rparr>"] Cons.prems by simp
qed

lemma applied_run_append:
  "applied_run rm (ps @ qs) =
   applied_run rm ps @ applied_run (fold (\<lambda>p rm. fst (kms_remb_remote_update rm p)) ps rm) qs"
  by (induction ps arbitrary: rm) (auto split: prod.splits)

lemma ramping_state:
  "\<not> rr_probed rm \<Longrightarrow> ramping rm ps \<Longrightarrow>
   fold (\<lambda>p rm. fst (kms_remb_remote_update rm p)) ps rm =
     rm\<lparr>rr_remb := last (rr_remb rm # map rp_bitrate ps)\<rparr>"
proof (induction ps arbitrary: rm)
  case Nil
  then show ?case by simp
next
  case (Cons p ps)
  have "fst (kms_remb_remote_update rm p) = rm\<lparr>rr_remb := rp_bitrate p\<rparr>"
    using Cons.prems by (simp add: kms_remb_remote_update_def ramping_def)
  moreover have "ramping (rm\<lparr>rr_remb := rp_bitrate p\<rparr>) ps"
    using Cons.prems(2) by (simp add: ramping_def)
  ultimately show ?case
    using Cons.IH [of "rm\<lparr>rr_remb := rp_bitrate p\<rparr>"] Cons.prems(1) by simp
qed

text \<open>
  from the creation on, as long as the estimations of the peer rise and stay below the
  "on connect" bitrate, the encoder is told the "on connect" bitrate; with the first packet
  that reaches it or falls back, and for ever after, it is told the estimations.
\<close>

theorem remb_ramp_up:
  assumes "ramping (kms_remb_remote_create ssrc min_bw max_bw) ps"
    and "\<not> ramping (kms_remb_remote_create ssrc min_bw max_bw) (ps @ [q])"
    and "\<forall>p \<in> set (q # qs). rp_n_ssrcs p \<noteq> 0"
  shows "applied_run (kms_remb_remote_create ssrc min_bw max_bw) (ps @ q # qs) =
    map (\<lambda>p. kms_utils_remb_event_upstream_new
      (applied_bitrate (kms_remb_remote_create ssrc min_bw max_bw) DEFAULT_REMB_ON_CONNECT) (rp_ssrcs p ! 0)) ps @
    map (\<lambda>p. kms_utils_remb_event_upstream_new
      (applied_bitrate (kms_remb_remote_create ssrc min_bw max_bw) (rp_bitrate p)) (rp_ssrcs p ! 0)) (q # qs)"
proof -
  define rm where "rm = kms_remb_remote_create ssrc min_bw max_bw"
  have rm: "\<not> rr_probed rm" "rr_pad rm" "rr_on_connect rm = DEFAULT_REMB_ON_CONNECT"
    by (simp_all add: rm_def kms_remb_remote_create_def)
  define rm1 where "rm1 = rm\<lparr>rr_remb := last (rr_remb rm # map rp_bitrate ps)\<rparr>"
  have "\<not> (rp_bitrate q < rr_on_connect rm \<and> rr_remb rm1 \<le> rp_bitrate q)"
  proof
    assume q: "rp_bitrate q < rr_on_connect rm \<and> rr_remb rm1 \<le> rp_bitrate q"
    have "\<forall>x \<in> set (rr_remb rm # map rp_bitrate ps). x \<le> last (rr_remb rm # map rp_bitrate ps)"
      using assms(1) by (intro ballI sorted_last) (simp_all add: ramping_def rm_def)
    then have "ramping rm (ps @ [q])"
      using q assms(1,3) by (force simp: ramping_def rm_def [symmetric] rm1_def sorted_append)
    then show False using assms(2) by (simp add: rm_def)
  qed
  then have step: "kms_remb_remote_update rm1 q = (rm1\<lparr>rr_probed := True, rr_remb := rp_bitrate q\<rparr>,
      [kms_utils_remb_event_upstream_new (applied_bitrate rm (rp_bitrate q)) (rp_ssrcs q ! 0)])"
    using rm assms(3) by (auto simp: kms_remb_remote_update_def send_remb_event_def rm1_def Let_def)
  have "fold (\<lambda>p rm. fst (kms_remb_remote_update rm p)) ps rm = rm1"
    using ramping_state [OF rm(1)] assms(1) by (simp add: rm_def [symmetric] rm1_def)
  then have "applied_run rm (ps @ q # qs) = applied_run rm ps @ applied_run rm1 (q # qs)"
    by (simp only: applied_run_append)
  then show ?thesis
    using step applied_run_ramping [OF rm(1,2)] assms(1,3) rm
      applied_run_probed [of "rm1\<lparr>rr_probed := True, rr_remb := rp_bitrate q\<rparr>" qs]
    by (simp add: rm_def [symmetric] rm1_def)
qed

section \<open>Truncated packets\<close>

text \<open>
  the result of the parser is not looked at. A feedback packet that consists of the four
  bytes "REMB" is taken for a message all the same, with whatever the uninitialised variable
  holds: its bitrate goes to the encoder.
\<close>

theorem remb_truncated_uses_junk:
  assumes "gst_map fci = Some remb_id" and "rr_pad rm" and "rr_probed rm"
    and "rp_n_ssrcs junk \<noteq> 0" and "length (rp_ssrcs junk) = REMB_MAX_SSRCS_COUNT"
  shows "\<exists>rm'. kms_remb_remote_on_feedback_rtcp gst_map junk True (Some rm) RTCP_TYPE_PSFB
      RTCP_PSFB_TYPE_AFB fci = Inr (Some rm',
        [kms_utils_remb_event_upstream_new (applied_bitrate rm (rp_bitrate junk)) (rp_ssrcs junk ! 0)])"
proof -
  have read: "read_remb remb_id junk = Inr (junk, False)" "is_remb remb_id"
    by (simp_all add: read_remb_def is_remb_def remb_id_def Let_def)
  have "unat (rp_n_ssrcs junk) < 2 ^ 8" using unsigned_less [of "rp_n_ssrcs junk"] by simp
  then have "0 + unat (rp_n_ssrcs junk) \<le> length (rp_ssrcs junk)"
    using assms(5) by (simp add: REMB_MAX_SSRCS_COUNT_def)
  from target_stats_eq [OF this] show ?thesis
    using assms(2-4) read
    by (simp add: process_mapped [of gst_map fci remb_id, OF assms(1)] kms_remb_remote_update_def
        send_remb_event_def kms_remb_remote_update_target_ssrcs_stats_def)
qed

section \<open>Concrete packets\<close>

definition small_message :: "u8 list" where
  "small_message = remb_id @ [1, 0, 0, 200, 0, 0, 0, 9]"

lemma first_place: "(replicate 255 x)[0 := y] = y # replicate 254 x"
proof -
  have "replicate 255 x = x # replicate 254 x" by (simp flip: replicate_Suc)
  then show ?thesis by simp
qed

lemma small_message_read:
  "remb_message small_message blank_remb
     \<lparr>rp_bitrate = 200, rp_n_ssrcs = 1, rp_ssrcs = 9 # replicate 254 0\<rparr>"
  by (simp add: remb_message_def small_message_def is_remb_def remb_id_def read_remb_def Let_def
      shl32_def array_store_def blank_remb_def first_place)

theorem remb_feedback_effect_witness:
  "\<exists>rm' evs. kms_remb_remote_on_feedback_rtcp (\<lambda>_. Some small_message) blank_remb True
      (Some (kms_remb_remote_create 3 0 0)) RTCP_TYPE_PSFB RTCP_PSFB_TYPE_AFB () = Inr (Some rm', evs) \<and>
    map_of (rb_stats (rr_base rm')) 9 = Some 200 \<and> rr_remb rm' = 200"
  using remb_feedback_effect [OF _ small_message_read, of "\<lambda>_. Some small_message" "()"
      "kms_remb_remote_create 3 0 0"]
  by (auto simp: blank_remb_def REMB_MAX_SSRCS_COUNT_def kms_remb_remote_create_def
      kms_remb_base_create_def packet_ssrcs_def)

definition announcing :: "u32 \<Rightarrow> remb_packet" where
  "announcing b = blank_remb\<lparr>rp_bitrate := b, rp_n_ssrcs := 1\<rparr>"

theorem remb_ramp_up_witness:
  "applied_run (kms_remb_remote_create 3 0 0) ([announcing 100, announcing 200] @ announcing 150 # [announcing 90]) =
    map (\<lambda>p. kms_utils_remb_event_upstream_new
      (applied_bitrate (kms_remb_remote_create 3 0 0) DEFAULT_REMB_ON_CONNECT) (rp_ssrcs p ! 0))
      [announcing 100, announcing 200] @
    map (\<lambda>p. kms_utils_remb_event_upstream_new
      (applied_bitrate (kms_remb_remote_create 3 0 0) (rp_bitrate p)) (rp_ssrcs p ! 0))
      [announcing 150, announcing 90]"
  by (rule remb_ramp_up)
    (simp_all add: ramping_def announcing_def kms_remb_remote_create_def DEFAULT_REMB_ON_CONNECT_def)

theorem remb_truncated_uses_junk_witness:
  "\<exists>rm'. kms_remb_remote_on_feedback_rtcp (\<lambda>_. Some remb_id) (announcing 77) True
      (Some ((kms_remb_remote_create 3 0 0)\<lparr>rr_probed := True\<rparr>)) RTCP_TYPE_PSFB RTCP_PSFB_TYPE_AFB () =
    Inr (Some rm', [kms_utils_remb_event_upstream_new
      (applied_bitrate ((kms_remb_remote_create 3 0 0)\<lparr>rr_probed := True\<rparr>) (rp_bitrate (announcing 77)))
      (rp_ssrcs (announcing 77) ! 0)])"
  by (rule remb_truncated_uses_junk)
    (simp_all add: kms_remb_remote_create_def announcing_def blank_remb_def REMB_MAX_SSRCS_COUNT_def)

end
