(* ===== verification/RtcpDemux.thy ===== *)
theory RtcpDemux
  imports RembPacket
begin

text \<open>
  The RTCP demultiplexer (\<open>kmsrtcpdemux.c\<close>): RTP goes to one pad, RTCP is copied to one pad for
  every local SSRC it is about, pads being created on first use, and what the element does not
  handle goes to the static RTCP pad. What the element does to its surroundings is a list of
  outputs. Validating, mapping and splitting a buffer is GStreamer's: \<open>is_rtcp\<close>, \<open>map_rtcp\<close>
  and \<open>packets\<close> are parameters.
\<close>

section \<open>Packets, state and outputs\<close>

text \<open>
  A report with the SSRC of its sender and of its report blocks; feedback with its payload type
  flag, format, SSRCs and FCI bytes; a packet without a valid type; any other packet.
\<close>

datatype rtcp_packet =
    RR (rr_ssrc: u32) (rr_blocks: "u32 list")
  | FB (fb_psfb: bool) (fb_fmt: nat) (fb_sender: u32) (fb_media: u32) (fb_bytes: "u8 list")
  | Invalid_rtcp
  | Other_rtcp nat

datatype 'b demux_out =
    Push_rtp 'b
  | Push_rtcp 'b
  | Pad_added u32
  | Signal_new_pad u32
  | Stream_start u32
  | Segment u32
  | Push_ssrc u32 'b

record rtcp_demux =
  rd_pads :: "(u32, unit) hash_table"
  rd_rr_ssrcs :: "(u32, u32) hash_table"

definition GST_RTCP_PSFB_TYPE_FIR :: nat where "GST_RTCP_PSFB_TYPE_FIR = 4"
definition GST_RTCP_FB_TYPE_INVALID :: nat where "GST_RTCP_FB_TYPE_INVALID = 0"
definition SSRC_INVALID :: u32 where "SSRC_INVALID = - 1"

section \<open>Operations\<close>

definition kms_rtcp_demux_init :: rtcp_demux where
  "kms_rtcp_demux_init = \<lparr>rd_pads = [], rd_rr_ssrcs = []\<rparr>"

text \<open>The table stores SSRCs as pointers: an SSRC of 0 cannot be told from no entry.\<close>

definition kms_rtcp_demux_get_local_rr_ssrc_pair :: "rtcp_demux \<Rightarrow> u32 \<Rightarrow> u32" where
  "kms_rtcp_demux_get_local_rr_ssrc_pair d remote =
     (case map_of (rd_rr_ssrcs d) remote of
        None \<Rightarrow> SSRC_INVALID
      | Some local \<Rightarrow> if local = 0 then SSRC_INVALID else local)"

definition handle_rtcp_ssrc ::
    "'b \<Rightarrow> u32 \<Rightarrow> rtcp_demux \<Rightarrow> rtcp_demux \<times> 'b demux_out list" where
  "handle_rtcp_ssrc buffer local d =
     (if map_of (rd_pads d) local \<noteq> None then (d, [Push_ssrc local buffer])
      else (d\<lparr>rd_pads := AList.update local () (rd_pads d)\<rparr>,
            [Pad_added local, Signal_new_pad local, Stream_start local, Segment local,
             Push_ssrc local buffer]))"

fun handle_ssrcs :: "'b \<Rightarrow> u32 list \<Rightarrow> rtcp_demux \<Rightarrow> rtcp_demux \<times> 'b demux_out list" where
  "handle_ssrcs buffer [] d = (d, [])"
| "handle_ssrcs buffer (s # ss) d =
     (case handle_rtcp_ssrc buffer s d of (d1, out1) \<Rightarrow>
        (case handle_ssrcs buffer ss d1 of (d2, out2) \<Rightarrow> (d2, out1 @ out2)))"

text \<open>Only the first report block is remembered, and only for a sender not seen before.\<close>

definition handle_rtcp_rr ::
    "'b \<Rightarrow> u32 \<Rightarrow> u32 list \<Rightarrow> rtcp_demux \<Rightarrow> rtcp_demux \<times> 'b demux_out list" where
  "handle_rtcp_rr buffer remote blocks d =
     (case blocks of
        [] \<Rightarrow> (d, [])
      | local # rest \<Rightarrow>
          (let d1 = (if map_of (rd_rr_ssrcs d) remote = None
             then d\<lparr>rd_rr_ssrcs := AList.update remote local (rd_rr_ssrcs d)\<rparr> else d)
           in handle_ssrcs buffer blocks d1))"

text \<open>The packet variable of the REMB branch starts zeroed; the size of the FCI is a \<open>guint16\<close>.\<close>

definition zeroed_remb :: remb_packet where
  "zeroed_remb = \<lparr>rp_bitrate = 0, rp_n_ssrcs = 0, rp_ssrcs = replicate 255 0\<rparr>"

definition remb_targets :: "remb_packet \<Rightarrow> u32 list" where
  "remb_targets p = take (unat (rp_n_ssrcs p)) (rp_ssrcs p)"

definition handle_rtcp_fb ::
    "'b \<Rightarrow> nat \<Rightarrow> u32 \<Rightarrow> u32 \<Rightarrow> u8 list \<Rightarrow> rtcp_demux \<Rightarrow>
     c_fault + rtcp_demux \<times> 'b demux_out list" where
  "handle_rtcp_fb buffer type remote media fci d =
     (if type = GST_RTCP_PSFB_TYPE_FIR then
        (if length fci < 4 then Inl Out_of_bounds
         else Inr (handle_rtcp_ssrc buffer (rd32 fci) d))
      else if type = RTCP_PSFB_TYPE_AFB then
        (let fci_size = unat (of_nat (length fci div 4) * 4 :: u16);
             (ab, mapped) = kms_rtcp_psfb_afb_buffer_map Some (take fci_size fci) True False
               \<lparr>ab_buffer = False, ab_map_read = False, ab_map_write = False, ab_map_data = []\<rparr>
         in if \<not> mapped then Inr (d, [])
            else case kms_rtcp_psfb_afb_get_packet ab of
                (_, False) \<Rightarrow> Inr (d, [])
              | (t, True) \<Rightarrow>
                  (if t = AFB_TYPE_REMB then
                     bind_result (kms_rtcp_psfb_afb_remb_get_packet ab t zeroed_remb)
                       (\<lambda>(p, _). Inr (handle_ssrcs buffer (remb_targets p) d))
                   else Inr (d, [])))
      else if type = GST_RTCP_FB_TYPE_INVALID then Inr (d, [])
      else Inr (handle_rtcp_ssrc buffer media d))"

text \<open>The loop over the packets of a compound, with the flag \<open>do_push\<close>.\<close>

fun demux_packets ::
    "'b \<Rightarrow> rtcp_packet list \<Rightarrow> bool \<Rightarrow> rtcp_demux \<Rightarrow>
     c_fault + rtcp_demux \<times> 'b demux_out list \<times> bool" where
  "demux_packets buffer [] do_push d = Inr (d, [], do_push)"
| "demux_packets buffer (p # ps) do_push d =
     bind_result
       (case p of
          RR remote blocks \<Rightarrow>
            Inr (case handle_rtcp_rr buffer remote blocks d of (d1, out) \<Rightarrow> (d1, out, do_push))
        | FB psfb fmt remote media fci \<Rightarrow>
            bind_result (handle_rtcp_fb buffer fmt remote media fci d)
              (\<lambda>(d1, out). Inr (d1, out, do_push))
        | Invalid_rtcp \<Rightarrow> Inr (d, [], False)
        | Other_rtcp t \<Rightarrow> Inr (d, [], True))
       (\<lambda>(d1, out1, do_push1).
          bind_result (demux_packets buffer ps do_push1 d1)
            (\<lambda>(d2, out2, do_push2). Inr (d2, out1 @ out2, do_push2)))"

definition kms_rtcp_demux_chain ::
    "('b \<Rightarrow> bool) \<Rightarrow> ('b \<Rightarrow> bool) \<Rightarrow> ('b \<Rightarrow> rtcp_packet list) \<Rightarrow> 'b \<Rightarrow> rtcp_demux \<Rightarrow>
     c_fault + rtcp_demux \<times> 'b demux_out list" where
  "kms_rtcp_demux_chain is_rtcp map_rtcp packets buffer d =
     (if \<not> is_rtcp buffer then Inr (d, [Push_rtp buffer])
      else if \<not> map_rtcp buffer then Inr (d, [])
      else if packets buffer = [] then Inr (d, [])
      else bind_result (demux_packets buffer (packets buffer) False d)
        (\<lambda>(d1, out, do_push). Inr (d1, if do_push then out @ [Push_rtcp buffer] else out)))"

section \<open>Where a packet goes\<close>

text \<open>
  The specification: the local SSRCs a packet is about, \<open>None\<close> when reading it is undefined.
\<close>

fun packet_targets :: "rtcp_packet \<Rightarrow> c_fault + u32 list" where
  "packet_targets (RR remote blocks) = Inr blocks"
| "packet_targets (FB psfb fmt remote media fci) =
     (if fmt = GST_RTCP_PSFB_TYPE_FIR then
        (if length fci < 4 then Inl Out_of_bounds else Inr [rd32 fci])
      else if fmt = RTCP_PSFB_TYPE_AFB then
        (let bytes = take (unat (of_nat (length fci div 4) * 4 :: u16)) fci
         in if is_remb bytes
            then bind_result (read_remb bytes zeroed_remb) (\<lambda>(p, _). Inr (remb_targets p))
            else Inr [])
      else if fmt = GST_RTCP_FB_TYPE_INVALID then Inr []
      else Inr [media])"
| "packet_targets Invalid_rtcp = Inr []"
| "packet_targets (Other_rtcp t) = Inr []"

fun targets :: "rtcp_packet list \<Rightarrow> c_fault + u32 list" where
  "targets [] = Inr []"
| "targets (p # ps) =
     bind_result (packet_targets p) (\<lambda>ss. bind_result (targets ps) (\<lambda>ss'. Inr (ss @ ss')))"

fun pass_through :: "bool \<Rightarrow> rtcp_packet list \<Rightarrow> bool" where
  "pass_through b [] = b"
| "pass_through b (p # ps) =
     pass_through (case p of Invalid_rtcp \<Rightarrow> False | Other_rtcp t \<Rightarrow> True | _ \<Rightarrow> b) ps"

definition copies :: "'b demux_out list \<Rightarrow> (u32 \<times> 'b) list" where
  "copies out = concat (map (\<lambda>e. case e of Push_ssrc s b \<Rightarrow> [(s, b)] | _ \<Rightarrow> []) out)"

lemma copies_simps [simp]:
  "copies [] = []" "copies (out1 @ out) = copies out1 @ copies out"
  "copies (Push_ssrc s b # out) = (s, b) # copies out"
  "copies (Push_rtp b # out) = copies out" "copies (Push_rtcp b # out) = copies out"
  "copies (Pad_added s # out) = copies out" "copies (Signal_new_pad s # out) = copies out"
  "copies (Stream_start s # out) = copies out" "copies (Segment s # out) = copies out"
  by (simp_all add: copies_def)

lemma handle_ssrc_copies [simp]: "copies (snd (handle_rtcp_ssrc buffer s d)) = [(s, buffer)]"
  by (simp add: handle_rtcp_ssrc_def)

lemma handle_ssrcs_copies [simp]: "copies (snd (handle_ssrcs buffer ss d)) = map (\<lambda>s. (s, buffer)) ss"
proof (induction ss arbitrary: d)
  case (Cons s ss)
  then show ?case
    by (simp add: case_prod_unfold)
qed simp

lemma afb_mapped:
  "kms_rtcp_psfb_afb_buffer_map Some bs True False
     \<lparr>ab_buffer = False, ab_map_read = False, ab_map_write = False, ab_map_data = []\<rparr> = (mapped bs, True)"
  by (simp add: kms_rtcp_psfb_afb_buffer_map_def mapped_def)

text \<open>Every handler is: find the targets, note the sender of a report, handle the targets.\<close>

definition note_rr :: "rtcp_packet \<Rightarrow> rtcp_demux \<Rightarrow> rtcp_demux" where
  "note_rr p d = (case p of
     RR remote (local # _) \<Rightarrow>
       (if map_of (rd_rr_ssrcs d) remote = None
        then d\<lparr>rd_rr_ssrcs := AList.update remote local (rd_rr_ssrcs d)\<rparr> else d)
   | _ \<Rightarrow> d)"

lemma demux_packets_Cons:
  "demux_packets buffer (p # ps) b d =
     bind_result (packet_targets p) (\<lambda>ss.
       case handle_ssrcs buffer ss (note_rr p d) of (d1, out1) \<Rightarrow>
         bind_result (demux_packets buffer ps (pass_through b [p]) d1)
           (\<lambda>(d2, out2, b2). Inr (d2, out1 @ out2, b2)))"
proof (cases p)
  case (RR remote blocks)
  then show ?thesis
    by (cases blocks) (auto simp: handle_rtcp_rr_def note_rr_def Let_def split: prod.split)
next
  case (FB psfb fmt remote media fci)
  let ?bytes = "take (unat (of_nat (length fci div 4) * 4 :: u16)) fci"
  show ?thesis
  proof (cases "fmt = RTCP_PSFB_TYPE_AFB \<and> is_remb ?bytes")
    case True
    then have "fmt \<noteq> GST_RTCP_PSFB_TYPE_FIR"
      by (simp add: GST_RTCP_PSFB_TYPE_FIR_def RTCP_PSFB_TYPE_AFB_def)
    then show ?thesis
      using FB True
      by (cases "read_remb ?bytes zeroed_remb")
        (auto simp: handle_rtcp_fb_def note_rr_def Let_def afb_mapped split: prod.split)
  next
    case False
    then show ?thesis
      using FB
      by (auto simp: handle_rtcp_fb_def note_rr_def Let_def afb_mapped split: prod.split)
  qed
qed (simp_all add: note_rr_def case_prod_unfold)

declare demux_packets.simps(2) [simp del]

lemma handle_ssrc_kinds:
  "Push_rtp b \<notin> set (snd (handle_rtcp_ssrc buffer s d)) \<and>
   Push_rtcp b \<notin> set (snd (handle_rtcp_ssrc buffer s d))"
  by (simp add: handle_rtcp_ssrc_def)

lemma handle_ssrcs_kinds:
  "Push_rtp b \<notin> set (snd (handle_ssrcs buffer ss d)) \<and>
   Push_rtcp b \<notin> set (snd (handle_ssrcs buffer ss d))"
proof (induction ss arbitrary: d)
  case (Cons s ss)
  then show ?case using handle_ssrc_kinds [of b buffer s d] by (simp add: case_prod_unfold)
qed simp

lemma demux_packets_targets:
  assumes "targets ps = Inr ss"
  shows "\<exists>d' out. demux_packets buffer ps b d = Inr (d', out, pass_through b ps) \<and>
    copies out = map (\<lambda>s. (s, buffer)) ss \<and> Push_rtp buffer \<notin> set out \<and> Push_rtcp buffer \<notin> set out"
  using assms
proof (induction ps arbitrary: b d ss)
  case Nil
  then show ?case by simp
next
  case (Cons p ps)
  then obtain s1 s2 where t: "packet_targets p = Inr s1" "targets ps = Inr s2" "ss = s1 @ s2"
    by (auto simp: bind_result_Inr_iff)
  obtain d1 out1 where h: "handle_ssrcs buffer s1 (note_rr p d) = (d1, out1)" by fastforce
  have c1: "copies out1 = map (\<lambda>s. (s, buffer)) s1"
    using handle_ssrcs_copies [of buffer s1 "note_rr p d"] h by simp
  have n1: "Push_rtp buffer \<notin> set out1 \<and> Push_rtcp buffer \<notin> set out1"
    using handle_ssrcs_kinds [of buffer buffer s1 "note_rr p d"] h by simp
  obtain d2 out2 where "demux_packets buffer ps (pass_through b [p]) d1 =
      Inr (d2, out2, pass_through (pass_through b [p]) ps)"
      "copies out2 = map (\<lambda>s. (s, buffer)) s2" "Push_rtp buffer \<notin> set out2" "Push_rtcp buffer \<notin> set out2"
    using Cons.IH [OF t(2)] by blast
  then show ?case using t h c1 n1 by (simp add: demux_packets_Cons)
qed

lemma demux_packets_fault:
  "targets ps = Inl f \<Longrightarrow> demux_packets buffer ps b d = Inl f"
proof (induction ps arbitrary: b d)
  case Nil
  then show ?case by simp
next
  case (Cons p ps)
  then show ?case
    by (auto simp: demux_packets_Cons bind_result_Inl_iff split: prod.split)
qed

text \<open>
  An RTCP buffer is copied to exactly the SSRCs its packets are about, once for every
  time they name it and in that order, and goes to the static pad exactly when the last packet
  in it that is neither a report nor feedback is one the element does not handle.
\<close>

theorem rtcp_demux_routes:
  assumes "is_rtcp buffer" and "map_rtcp buffer" and "targets (packets buffer) = Inr ss"
  shows "\<exists>d' out. kms_rtcp_demux_chain is_rtcp map_rtcp packets buffer d = Inr (d', out) \<and>
    copies out = map (\<lambda>s. (s, buffer)) ss \<and> Push_rtp buffer \<notin> set out \<and>
    (Push_rtcp buffer \<in> set out \<longleftrightarrow> pass_through False (packets buffer))"
proof (cases "packets buffer = []")
  case True
  then show ?thesis using assms by (simp add: kms_rtcp_demux_chain_def)
next
  case False
  obtain d' out where "demux_packets buffer (packets buffer) False d =
      Inr (d', out, pass_through False (packets buffer))"
      "copies out = map (\<lambda>s. (s, buffer)) ss" "Push_rtp buffer \<notin> set out" "Push_rtcp buffer \<notin> set out"
    using demux_packets_targets [OF assms(3), of buffer False d] by blast
  then show ?thesis using assms False by (auto simp: kms_rtcp_demux_chain_def)
qed

section \<open>The life of a pad\<close>

text \<open>
  An observer of the outputs: the pads that were added and those that got their stream start
  and segment. It accepts a pad being added once, then started, then used.
\<close>

fun observe :: "'b demux_out \<Rightarrow> (u32 set \<times> u32 set) option \<Rightarrow> (u32 set \<times> u32 set) option" where
  "observe e None = None"
| "observe (Pad_added s) (Some (A, S)) = (if s \<in> A then None else Some (insert s A, S))"
| "observe (Stream_start s) (Some (A, S)) = (if s \<in> A \<and> s \<notin> S then Some (A, S) else None)"
| "observe (Segment s) (Some (A, S)) = (if s \<in> A \<and> s \<notin> S then Some (A, insert s S) else None)"
| "observe (Push_ssrc s b) (Some (A, S)) = (if s \<in> S then Some (A, S) else None)"
| "observe (Signal_new_pad s) (Some (A, S)) = (if s \<in> A \<and> s \<notin> S then Some (A, S) else None)"
| "observe (Push_rtp b) (Some (A, S)) = Some (A, S)"
| "observe (Push_rtcp b) (Some (A, S)) = Some (A, S)"

definition pads :: "rtcp_demux \<Rightarrow> u32 set" where
  "pads d = dom (map_of (rd_pads d))"

lemma length_update_ge: "length h \<le> length (AList.update k v h)"
  by (induction h) auto

lemma observe_ssrc:
  assumes "handle_rtcp_ssrc buffer s d = (d', out)"
  shows "fold observe out (Some (pads d, pads d)) = Some (pads d', pads d') \<and>
    length (rd_pads d) \<le> length (rd_pads d')"
proof (cases "s \<in> pads d")
  case True
  then show ?thesis using assms by (auto simp: handle_rtcp_ssrc_def pads_def)
next
  case False
  then have "map_of (rd_pads d) s = None" by (auto simp: pads_def)
  then have "d' = d\<lparr>rd_pads := AList.update s () (rd_pads d)\<rparr>"
      "out = [Pad_added s, Signal_new_pad s, Stream_start s, Segment s, Push_ssrc s buffer]"
    using assms by (simp_all add: handle_rtcp_ssrc_def)
  moreover have "pads (d\<lparr>rd_pads := AList.update s () (rd_pads d)\<rparr>) = insert s (pads d)"
    by (simp add: pads_def)
  moreover have "length (rd_pads d) \<le> length (AList.update s () (rd_pads d))"
    by (rule length_update_ge)
  ultimately show ?thesis using False by simp
qed

lemma observe_ssrcs:
  "handle_ssrcs buffer ss d = (d', out) \<Longrightarrow>
   fold observe out (Some (pads d, pads d)) = Some (pads d', pads d') \<and>
   length (rd_pads d) \<le> length (rd_pads d')"
proof (induction ss arbitrary: d out)
  case Nil
  then show ?case by simp
next
  case (Cons s ss)
  obtain d1 out1 where h: "handle_rtcp_ssrc buffer s d = (d1, out1)" by fastforce
  obtain d2 out2 where hs: "handle_ssrcs buffer ss d1 = (d2, out2)" by fastforce
  have "d' = d2" "out = out1 @ out2" using Cons.prems h hs by simp_all
  then show ?case using observe_ssrc [OF h] Cons.IH [of d1 out2] hs by simp
qed

lemma pads_note [simp]: "pads (note_rr p d) = pads d" "rd_pads (note_rr p d) = rd_pads d"
  by (simp_all add: note_rr_def pads_def split: rtcp_packet.split list.split)

lemma observe_packets:
  "demux_packets buffer ps b d = Inr (d', out, b') \<Longrightarrow>
   fold observe out (Some (pads d, pads d)) = Some (pads d', pads d') \<and>
   length (rd_pads d) \<le> length (rd_pads d')"
proof (induction ps arbitrary: b b' d d' out)
  case Nil
  then show ?case by simp
next
  case (Cons p ps)
  obtain ss where ss: "packet_targets p = Inr ss"
    using Cons.prems by (auto simp: demux_packets_Cons bind_result_Inr_iff)
  obtain d1 out1 where h: "handle_ssrcs buffer ss (note_rr p d) = (d1, out1)" by fastforce
  obtain d2 out2 b2 where r: "demux_packets buffer ps (pass_through b [p]) d1 = Inr (d2, out2, b2)"
    using Cons.prems ss h by (auto simp: demux_packets_Cons bind_result_Inr_iff)
  have "d' = d2" "out = out1 @ out2"
    using Cons.prems ss h r by (simp_all add: demux_packets_Cons)
  then show ?case
    using observe_ssrcs [OF h] Cons.IH [OF r] by simp
qed

text \<open>A run: the element, all its outputs, and the fault it stopped at.\<close>

type_synonym 'b demux_run = "rtcp_demux \<times> 'b demux_out list \<times> c_fault option"

fun chain_step ::
    "('b \<Rightarrow> bool) \<Rightarrow> ('b \<Rightarrow> bool) \<Rightarrow> ('b \<Rightarrow> rtcp_packet list) \<Rightarrow> 'b demux_run \<Rightarrow> 'b \<Rightarrow> 'b demux_run" where
  "chain_step is_rtcp map_rtcp packets (d, out, Some f) buffer = (d, out, Some f)"
| "chain_step is_rtcp map_rtcp packets (d, out, None) buffer =
     (case kms_rtcp_demux_chain is_rtcp map_rtcp packets buffer d of
        Inl f \<Rightarrow> (d, out, Some f)
      | Inr (d', out') \<Rightarrow> (d', out @ out', None))"

definition pads_inv :: "'b demux_run \<Rightarrow> bool" where
  "pads_inv r \<longleftrightarrow>
     fold observe (fst (snd r)) (Some ({}, {})) = Some (pads (fst r), pads (fst r))"

lemma chain_observed:
  assumes "kms_rtcp_demux_chain is_rtcp map_rtcp packets buffer d = Inr (d', out)"
  shows "fold observe out (Some (pads d, pads d)) = Some (pads d', pads d') \<and>
    length (rd_pads d) \<le> length (rd_pads d')"
  using assms observe_packets [of buffer "packets buffer" False d d']
  by (auto simp: kms_rtcp_demux_chain_def bind_result_Inr_iff split: if_splits)

lemma chain_step_observed:
  assumes "pads_inv r"
  shows "pads_inv (chain_step is_rtcp map_rtcp packets r buffer)"
    and "length (rd_pads (fst r)) \<le> length (rd_pads (fst (chain_step is_rtcp map_rtcp packets r buffer)))"
proof -
  obtain d out f where r: "r = (d, out, f)" by (cases r)
  have "pads_inv (chain_step is_rtcp map_rtcp packets r buffer) \<and>
      length (rd_pads (fst r)) \<le> length (rd_pads (fst (chain_step is_rtcp map_rtcp packets r buffer)))"
  proof (cases "f = None \<and> (\<exists>res. kms_rtcp_demux_chain is_rtcp map_rtcp packets buffer d = Inr res)")
    case True
    then obtain d' out' where "kms_rtcp_demux_chain is_rtcp map_rtcp packets buffer d = Inr (d', out')"
      by auto
    then show ?thesis
      using assms chain_observed True r by (fastforce simp: pads_inv_def)
  next
    case False
    then show ?thesis
      using assms r
      by (cases f; cases "kms_rtcp_demux_chain is_rtcp map_rtcp packets buffer d")
        (auto simp: pads_inv_def)
  qed
  then show "pads_inv (chain_step is_rtcp map_rtcp packets r buffer)"
    and "length (rd_pads (fst r)) \<le> length (rd_pads (fst (chain_step is_rtcp map_rtcp packets r buffer)))"
    by auto
qed

interpretation demux: growing_machine "chain_step is_rtcp map_rtcp packets" "\<lambda>_ _. True" pads_inv
    "\<lambda>r. length (rd_pads (fst r))" for is_rtcp map_rtcp packets
  by unfold_locales (auto intro: chain_step_observed)

text \<open>
  Over the whole life of the element, whatever buffers arrive, every pad is added once,
  gets its stream start and segment once and before its first buffer, and the pads in the table
  are exactly those that were added.
\<close>

theorem rtcp_demux_pad_life:
  "fold observe (fst (snd (foldl (chain_step is_rtcp map_rtcp packets) (kms_rtcp_demux_init, [], None) buffers)))
     (Some ({}, {})) =
   Some (pads (fst (foldl (chain_step is_rtcp map_rtcp packets) (kms_rtcp_demux_init, [], None) buffers)),
         pads (fst (foldl (chain_step is_rtcp map_rtcp packets) (kms_rtcp_demux_init, [], None) buffers)))"
proof -
  have "pads_inv (foldl (chain_step is_rtcp map_rtcp packets) (kms_rtcp_demux_init, [], None) buffers)"
    by (rule demux.run_keeps)
      (simp_all add: pads_inv_def kms_rtcp_demux_init_def pads_def allowed_run_always)
  then show ?thesis by (simp add: pads_inv_def)
qed

section \<open>Odd packets\<close>

text \<open>
  a feedback packet with format 4 is read as a full intra request without looking at the
  size of its control information: with fewer than four bytes the read is out of bounds, and
  the buffer has no defined result wherever in the compound the packet is, unless an earlier
  one has none.
\<close>

theorem rtcp_demux_short_fir:
  assumes "is_rtcp buffer" and "map_rtcp buffer" and "length fci < 4"
    and "packets buffer = ps @ FB psfb GST_RTCP_PSFB_TYPE_FIR remote media fci # qs"
  shows "\<exists>f. kms_rtcp_demux_chain is_rtcp map_rtcp packets buffer d = Inl f \<and>
    (f = Out_of_bounds \<or> targets ps = Inl f)"
proof -
  have "\<exists>f. targets (ps @ FB psfb GST_RTCP_PSFB_TYPE_FIR remote media fci # qs) = Inl f \<and>
      (f = Out_of_bounds \<or> targets ps = Inl f)"
    using assms(3)
  proof (induction ps)
    case (Cons p ps)
    then show ?case by (cases "packet_targets p") auto
  qed simp
  then obtain f where f: "targets (packets buffer) = Inl f" "f = Out_of_bounds \<or> targets ps = Inl f"
    using assms(4) by auto
  then show ?thesis
    using assms(1,2,4) demux_packets_fault [OF f(1), of buffer False d]
    by (intro exI [of _ f]) (simp add: kms_rtcp_demux_chain_def)
qed

text \<open>
  a REMB packet that announces SSRCs but ends before them is not rejected: the packet
  variable keeps its zeros, and for every announced SSRC a copy goes to the pad of SSRC 0.
\<close>

theorem rtcp_demux_truncated_remb:
  assumes "fci = remb_id @ [n, 0, 0, 0]" and "n \<noteq> 0"
  shows "packet_targets (FB psfb RTCP_PSFB_TYPE_AFB remote media fci) = Inr (replicate (unat n) 0)"
proof -
  have n: "unat n < 2 ^ 8" using unsigned_less [of n] by simp
  have "0 < unat n" using assms(2) by (simp add: unat_gt_0)
  then have "read_remb fci zeroed_remb = Inr (zeroed_remb\<lparr>rp_n_ssrcs := n, rp_bitrate := 0\<rparr>, False)"
    using assms(1) by (simp add: read_remb_def is_remb_def remb_id_def Let_def shl32_def zeroed_remb_def)
  moreover have "is_remb fci" "length fci = 8" using assms(1) by (simp_all add: is_remb_def remb_id_def)
  ultimately show ?thesis
    using n by (simp add: RTCP_PSFB_TYPE_AFB_def GST_RTCP_PSFB_TYPE_FIR_def remb_targets_def zeroed_remb_def)
qed

text \<open>
  the payload type of feedback is not looked at, so transport layer feedback (RTPFB) with
  format 15, as used for transport-wide congestion control, is taken for an application layer
  message of PSFB: alone in a buffer it is dropped, it reaches no pad at all.
\<close>

theorem rtcp_demux_drops_rtpfb:
  assumes "is_rtcp buffer" and "map_rtcp buffer" and "\<not> is_remb fci" and "length fci < 65536"
    and "packets buffer = [FB False RTCP_PSFB_TYPE_AFB remote media fci]"
  shows "kms_rtcp_demux_chain is_rtcp map_rtcp packets buffer d = Inr (d, [])"
proof -
  let ?n = "unat (of_nat (length fci div 4) * 4 :: u16)"
  have "?n = length fci div 4 * 4"
  proof -
    have "length fci div 4 * 4 < 2 ^ 16" using assms(4) by (simp add: order_le_less_trans [OF div_times_less_eq_dividend])
    then have "unat (of_nat (length fci div 4 * 4) :: u16) = length fci div 4 * 4"
      by (simp add: unat_of_nat del: of_nat_mult)
    then show ?thesis by simp
  qed
  then have "\<not> is_remb (take ?n fci)"
    using assms(3) by (auto simp: is_remb_def min_def split: if_splits)
  then have "packet_targets (FB False RTCP_PSFB_TYPE_AFB remote media fci) = Inr []"
    by (simp add: RTCP_PSFB_TYPE_AFB_def GST_RTCP_PSFB_TYPE_FIR_def)
  then show ?thesis
    using assms(1,2,5)
    by (simp add: kms_rtcp_demux_chain_def demux_packets_Cons note_rr_def del: packet_targets.simps)
qed

section \<open>Concrete buffers\<close>

text \<open>A compound of a sender report, a receiver report with two blocks and a picture loss indication.\<close>

definition compound :: "rtcp_packet list" where
  "compound = [Other_rtcp 200, RR 5 [11, 12], FB True 1 5 11 []]"

theorem rtcp_demux_routes_witness:
  "\<exists>d' out. kms_rtcp_demux_chain (\<lambda>_. True) (\<lambda>_. True) (\<lambda>_. compound) () kms_rtcp_demux_init = Inr (d', out) \<and>
    copies out = map (\<lambda>s. (s, ())) [11, 12, 11] \<and> Push_rtp () \<notin> set out \<and>
    (Push_rtcp () \<in> set out \<longleftrightarrow> pass_through False compound)"
  by (rule rtcp_demux_routes)
    (simp_all add: compound_def RTCP_PSFB_TYPE_AFB_def GST_RTCP_PSFB_TYPE_FIR_def GST_RTCP_FB_TYPE_INVALID_def)

theorem rtcp_demux_short_fir_witness:
  "\<exists>f. kms_rtcp_demux_chain (\<lambda>_. True) (\<lambda>_. True) (\<lambda>_. [RR 5 [11], FB True GST_RTCP_PSFB_TYPE_FIR 5 0 []]) ()
      kms_rtcp_demux_init = Inl f \<and> (f = Out_of_bounds \<or> targets [RR 5 [11]] = Inl f)"
  by (rule rtcp_demux_short_fir [where ps = "[RR 5 [11]]" and qs = "[]"]) simp_all

lemma replicate_two: "replicate 2 x = [x, x]"
  by (simp add: numeral_2_eq_2)

theorem rtcp_demux_truncated_remb_witness:
  "packet_targets (FB True RTCP_PSFB_TYPE_AFB 5 0 (remb_id @ [2, 0, 0, 0])) = Inr [0, 0]"
  using rtcp_demux_truncated_remb [of "remb_id @ [2, 0, 0, 0]" 2 True 5 0]
    replicate_two
  by (simp del: packet_targets.simps)

theorem rtcp_demux_drops_rtpfb_witness:
  "kms_rtcp_demux_chain (\<lambda>_. True) (\<lambda>_. True) (\<lambda>_. [FB False RTCP_PSFB_TYPE_AFB 5 11 [0, 1, 2, 3]]) ()
     kms_rtcp_demux_init = Inr (kms_rtcp_demux_init, [])"
  by (rule rtcp_demux_drops_rtpfb) (simp_all add: is_remb_def remb_id_def)

end
