(* ===== verification/DataProto.thy ===== *)
theory DataProto
  imports KmsPrelude
begin

text \<open>
  The messages of the data channel establishment protocol (\<open>kmswebrtcdataproto.h\<close> and the
  encoder and decoder in \<open>kmswebrtcdatachannelbin.c\<close>). Strings are C strings: bytes without a
  zero. The buffer an open request is written to has exactly the size that is computed for it.
\<close>

section \<open>Constants of the protocol\<close>

definition MESSAGE_TYPE_ACK :: u8 where "MESSAGE_TYPE_ACK = 2"
definition MESSAGE_TYPE_OPEN_REQUEST :: u8 where "MESSAGE_TYPE_OPEN_REQUEST = 3"

definition CHANNEL_RELIABLE :: u8 where "CHANNEL_RELIABLE = 0x00"
definition CHANNEL_RELIABLE_UNORDERED :: u8 where "CHANNEL_RELIABLE_UNORDERED = 0x80"
definition CHANNEL_REMIX :: u8 where "CHANNEL_REMIX = 0x01"
definition CHANNEL_REMIX_UNORDERED :: u8 where "CHANNEL_REMIX_UNORDERED = 0x81"
definition CHANNEL_TIMED :: u8 where "CHANNEL_TIMED = 0x02"
definition CHANNEL_TIMED_UNORDERED :: u8 where "CHANNEL_TIMED_UNORDERED = 0x82"

lemmas channel_types = CHANNEL_RELIABLE_def CHANNEL_RELIABLE_UNORDERED_def CHANNEL_REMIX_def
  CHANNEL_REMIX_UNORDERED_def CHANNEL_TIMED_def CHANNEL_TIMED_UNORDERED_def

definition PPID_CONTROL :: u16 where "PPID_CONTROL = 50"
definition PPID_STRING :: u16 where "PPID_STRING = 51"
definition PPID_BINARY_PARTIAL :: u16 where "PPID_BINARY_PARTIAL = 52"
definition PPID_BINARY :: u16 where "PPID_BINARY = 53"
definition PPID_STRING_PARTIAL :: u16 where "PPID_STRING_PARTIAL = 54"
definition PPID_STRING_EMPTY :: u16 where "PPID_STRING_EMPTY = 56"
definition PPID_BINARY_EMPTY :: u16 where "PPID_BINARY_EMPTY = 57"

lemmas ppids = PPID_CONTROL_def PPID_STRING_def PPID_BINARY_PARTIAL_def PPID_BINARY_def
  PPID_STRING_PARTIAL_def PPID_STRING_EMPTY_def PPID_BINARY_EMPTY_def

definition PRIORITY_IGNORED :: u32 where "PRIORITY_IGNORED = 0"
definition PRIORITY_BELOW_NORMAL :: u32 where "PRIORITY_BELOW_NORMAL = 128"
definition PRIORITY_NORMAL :: u32 where "PRIORITY_NORMAL = 256"
definition PRIORITY_HIGH :: u32 where "PRIORITY_HIGH = 512"
definition PRIORITY_EXTRA_HIGH :: u32 where "PRIORITY_EXTRA_HIGH = 1024"

lemmas priorities = PRIORITY_IGNORED_def PRIORITY_BELOW_NORMAL_def PRIORITY_NORMAL_def
  PRIORITY_HIGH_def PRIORITY_EXTRA_HIGH_def

definition DATA_CHANNEL_OPEN_MIN_SIZE :: nat where "DATA_CHANNEL_OPEN_MIN_SIZE = 12"
definition DATA_CHANNEL_ACK_SIZE :: nat where "DATA_CHANNEL_ACK_SIZE = 1"

section \<open>Encoding\<close>

text \<open>
  \<open>memcpy\<close> of \<open>n\<close> bytes from a C string: reading past its terminating zero is out of bounds.
\<close>

definition copy_bytes :: "u8 list \<Rightarrow> nat \<Rightarrow> c_fault + u8 list" where
  "copy_bytes s n = (if n \<le> length s + 1 then Inr (take n (s @ [0])) else Inl Out_of_bounds)"

definition create_datachannel_open_request ::
    "u8 \<Rightarrow> u32 \<Rightarrow> u16 \<Rightarrow> u8 list \<Rightarrow> u16 \<Rightarrow> u8 list \<Rightarrow> u16 \<Rightarrow> c_fault + u8 list" where
  "create_datachannel_open_request channel_type reliability_param priority label label_len
     protocol protocol_len =
     bind_result (copy_bytes label (unat label_len)) (\<lambda>l.
     bind_result (copy_bytes protocol (unat protocol_len)) (\<lambda>p.
       Inr ([MESSAGE_TYPE_OPEN_REQUEST, channel_type] @ be16 priority @ be32 reliability_param @
            be16 label_len @ be16 protocol_len @ l @ p)))"

definition create_datachannel_ack :: "u8 list" where
  "create_datachannel_ack = [MESSAGE_TYPE_ACK]"

section \<open>Decoding\<close>

record open_request =
  or_type :: u8
  or_priority :: u16
  or_reliability :: u32
  or_label :: "u8 list"
  or_protocol :: "u8 list"

text \<open>\<open>g_strndup\<close>: at most \<open>n\<close> bytes, up to the first zero.\<close>

definition g_strndup :: "u8 list \<Rightarrow> nat \<Rightarrow> u8 list" where
  "g_strndup bs n = takeWhile (\<lambda>b. b \<noteq> 0) (take n bs)"

text \<open>
  The fields of an open request: \<open>None\<close> when a size is wrong or the priority is not one of
  the five levels. The sizes are compared as 32-bit values.
\<close>

definition parse_open_request :: "u8 list \<Rightarrow> open_request option" where
  "parse_open_request data =
     (let size = of_nat (length data) :: u32
      in if size < of_nat DATA_CHANNEL_OPEN_MIN_SIZE then None
         else let
           channel_type = data ! 1;
           priority = rd16 (drop 2 data);
           reliability_param = rd32 (drop 4 data);
           label_len = rd16 (drop 8 data);
           protocol_len = rd16 (drop 10 data);
           msg_size = of_nat DATA_CHANNEL_OPEN_MIN_SIZE + ucast label_len + ucast protocol_len
         in if size \<noteq> msg_size then None
            else if ucast priority \<notin> {PRIORITY_IGNORED, PRIORITY_BELOW_NORMAL, PRIORITY_NORMAL,
                PRIORITY_HIGH, PRIORITY_EXTRA_HIGH} then None
            else Some \<lparr>or_type = channel_type, or_priority = priority,
                or_reliability = reliability_param,
                or_label = g_strndup (drop 12 data) (unat label_len),
                or_protocol = g_strndup (drop (12 + unat label_len) data) (unat protocol_len)\<rparr>)"

section \<open>The codec\<close>

definition request_bytes :: "open_request \<Rightarrow> u8 list" where
  "request_bytes r =
     (case create_datachannel_open_request (or_type r) (or_reliability r) (or_priority r)
        (or_label r) (of_nat (length (or_label r))) (or_protocol r) (of_nat (length (or_protocol r))) of
        Inr bs \<Rightarrow> bs | Inl _ \<Rightarrow> [])"

text \<open>C strings short enough for their length field, and a valid priority.\<close>

definition request_ok :: "open_request \<Rightarrow> bool" where
  "request_ok r \<longleftrightarrow> 0 \<notin> set (or_label r) \<and> 0 \<notin> set (or_protocol r) \<and>
     length (or_label r) < 2 ^ 16 \<and> length (or_protocol r) < 2 ^ 16 \<and>
     ucast (or_priority r) \<in> {PRIORITY_IGNORED, PRIORITY_BELOW_NORMAL, PRIORITY_NORMAL,
       PRIORITY_HIGH, PRIORITY_EXTRA_HIGH}"

lemma copy_whole: "copy_bytes s (length s) = Inr s"
  by (simp add: copy_bytes_def)

lemma unat_len16: "n < 2 ^ 16 \<Longrightarrow> unat (of_nat n :: u16) = n"
  by (simp add: unat_of_nat)

text \<open>The bytes of a request, when its strings fit.\<close>

lemma request_written:
  assumes "length l < 2 ^ 16" and "length p < 2 ^ 16"
  shows "create_datachannel_open_request ct rel pri l (of_nat (length l)) p (of_nat (length p)) =
    Inr ([MESSAGE_TYPE_OPEN_REQUEST, ct] @ be16 pri @ be32 rel @ be16 (of_nat (length l)) @
      be16 (of_nat (length p)) @ l @ p)"
  by (simp add: create_datachannel_open_request_def unat_len16 [OF assms(1)] unat_len16 [OF assms(2)]
      copy_whole)

lemma no_zero_strndup: "0 \<notin> set s \<Longrightarrow> g_strndup (s @ t) (length s) = s"
  by (auto simp: g_strndup_def takeWhile_eq_all_conv)

lemma parse_written:
  assumes "request_ok r"
  shows "parse_open_request ([MESSAGE_TYPE_OPEN_REQUEST, or_type r] @ be16 (or_priority r) @
      be32 (or_reliability r) @ be16 (of_nat (length (or_label r))) @
      be16 (of_nat (length (or_protocol r))) @ or_label r @ or_protocol r) =
    Some \<lparr>or_type = or_type r, or_priority = or_priority r, or_reliability = or_reliability r,
      or_label = or_label r, or_protocol = or_protocol r\<rparr>" (is "parse_open_request ?bs = _")
proof -
  let ?l = "or_label r" and ?p = "or_protocol r"
  have len: "length ?l < 2 ^ 16" "length ?p < 2 ^ 16" "0 \<notin> set ?l" "0 \<notin> set ?p"
    using assms by (simp_all add: request_ok_def)
  have tot: "length ?bs = 12 + length ?l + length ?p" by simp
  have un: "unat (of_nat (length ?l) :: u16) = length ?l" "unat (of_nat (length ?p) :: u16) = length ?p"
    using len unat_len16 by blast+
  have u32: "unat (ucast (of_nat n :: u16) :: u32) = n" if "n < 2 ^ 16" for n
    using that unat_len16 [OF that] by (subst unat_ucast_down) simp_all
  have size: "unat (of_nat (length ?bs) :: u32) = 12 + length ?l + length ?p"
  proof -
    have "12 + length ?l + length ?p < 2 ^ 32" using len by simp
    then have "unat (of_nat (12 + length ?l + length ?p) :: u32) = 12 + length ?l + length ?p"
      by (simp only: unat_of_nat mod_less len_num1 len_bit0) simp
    then show ?thesis by (simp only: tot)
  qed
  have msg: "unat (of_nat DATA_CHANNEL_OPEN_MIN_SIZE + ucast (of_nat (length ?l) :: u16) +
      ucast (of_nat (length ?p) :: u16) :: u32) = 12 + length ?l + length ?p"
  proof -
    have gen: "unat (12 + x + y :: u32) = 12 + unat x + unat y" if "unat x < 2 ^ 16" "unat y < 2 ^ 16"
      for x y :: u32
      using that by (simp add: unat_word_ariths)
    show ?thesis
      using gen [of "ucast (of_nat (length ?l) :: u16)" "ucast (of_nat (length ?p) :: u16)"] len
        u32 [OF len(1)] u32 [OF len(2)]
      by (simp only: DATA_CHANNEL_OPEN_MIN_SIZE_def of_nat_numeral)
  qed
  have d: "drop 2 ?bs = be16 (or_priority r) @ drop 4 ?bs"
    "drop 4 ?bs = be32 (or_reliability r) @ drop 8 ?bs"
    "drop 8 ?bs = be16 (of_nat (length ?l)) @ drop 10 ?bs"
    "drop 10 ?bs = be16 (of_nat (length ?p)) @ ?l @ ?p" "drop 12 ?bs = ?l @ ?p"
    by (simp_all add: be16_def be32_def)
  have fields: "?bs ! 1 = or_type r" "rd16 (drop 2 ?bs) = or_priority r"
    "rd32 (drop 4 ?bs) = or_reliability r" "rd16 (drop 8 ?bs) = of_nat (length ?l)"
    "rd16 (drop 10 ?bs) = of_nat (length ?p)"
    by (simp, metis d(1) rd16_be16, metis d(2) rd32_be32, metis d(3) rd16_be16, metis d(4) rd16_be16)
  have strs: "g_strndup (drop 12 ?bs) (length ?l) = ?l"
    "g_strndup (drop (12 + length ?l) ?bs) (length ?p) = ?p"
  proof -
    show "g_strndup (drop 12 ?bs) (length ?l) = ?l"
      unfolding d(5) using len(3) by (rule no_zero_strndup)
    have "drop (12 + length ?l) ?bs = drop (length ?l) (drop 12 ?bs)" by (simp only: drop_drop add.commute)
    then have "drop (12 + length ?l) ?bs = ?p" by (simp only: d(5)) simp
    then show "g_strndup (drop (12 + length ?l) ?bs) (length ?p) = ?p"
      using no_zero_strndup [OF len(4), of "[]"] by simp
  qed
  have "\<not> (of_nat (length ?bs) :: u32) < of_nat DATA_CHANNEL_OPEN_MIN_SIZE"
    using size by (simp add: word_less_nat_alt DATA_CHANNEL_OPEN_MIN_SIZE_def del: of_nat_add)
  moreover have "(of_nat (length ?bs) :: u32) = of_nat DATA_CHANNEL_OPEN_MIN_SIZE +
      ucast (of_nat (length ?l) :: u16) + ucast (of_nat (length ?p) :: u16)"
    using size msg by (metis word_unat_eq_iff)
  moreover have "ucast (or_priority r) \<in> {PRIORITY_IGNORED, PRIORITY_BELOW_NORMAL, PRIORITY_NORMAL,
      PRIORITY_HIGH, PRIORITY_EXTRA_HIGH}"
    using assms by (simp add: request_ok_def)
  ultimately show ?thesis
    unfolding parse_open_request_def Let_def fields un strs by (simp only: if_False simp_thms not_not)
qed

lemma request_roundtrip: "request_ok r \<Longrightarrow> parse_open_request (request_bytes r) = Some r"
  using parse_written [of r] request_written [of "or_label r" "or_protocol r"]
  by (simp add: request_bytes_def request_ok_def)

interpretation dcep: wire_codec request_ok request_bytes parse_open_request
  by unfold_locales (rule request_roundtrip)

text \<open>
  Every open request with C strings of less than 64 KiB and a valid priority is read back
  as it was written: channel type, priority, reliability parameter, label and protocol.
\<close>

theorem open_request_roundtrip:
  assumes "request_ok r"
  shows "parse_open_request (request_bytes r) = Some r"
  using assms by (rule dcep.dec_enc)

theorem open_request_roundtrip_witness:
  "(let r = \<lparr>or_type = CHANNEL_TIMED, or_priority = 256, or_reliability = 3000,
        or_label = [99, 104, 97, 116], or_protocol = []\<rparr>
    in parse_open_request (request_bytes r) = Some r)"
  unfolding Let_def
  by (rule open_request_roundtrip) (simp add: request_ok_def priorities)

text \<open>
  A label of 64 KiB and more: its length is cut to 16 bits, so only the rest of that length is
  sent; the request is well-formed and the peer takes the cut label for the label.
\<close>

lemma label_cut:
  assumes "2 ^ 16 \<le> length l" and "length l < 2 ^ 17"
  shows "copy_bytes l (unat (of_nat (length l) :: u16)) = Inr (take (length l - 2 ^ 16) l)"
proof -
  have "unat (of_nat (length l) :: u16) = length l mod 2 ^ 16" by (simp add: unat_of_nat)
  also have "\<dots> = length l - 2 ^ 16"
    using assms by (simp add: mod_if)
  finally show ?thesis using assms(1) by (simp add: copy_bytes_def)
qed

end
