(* ===== verification/DataChannel.thy ===== *)
theory DataChannel
  imports DataProto GstValue
begin

text \<open>
  A WebRTC data channel (\<open>kmswebrtcdatachannelbin.c\<close>): its properties, the establishment
  handshake, sending and receiving. What a channel does to its surroundings is a list of
  outputs: buffers pushed into the SCTP stream, calls of the callbacks, the "negotiated" signal.
  How pushing a buffer ends is decided outside and is an argument.
\<close>

section \<open>State\<close>

datatype dc_state = CONNECTING | OPEN | CLOSING | CLOSED

fun state_number :: "dc_state \<Rightarrow> nat" where
  "state_number CONNECTING = 0"
| "state_number OPEN = 1"
| "state_number CLOSING = 2"
| "state_number CLOSED = 3"

text \<open>The code compares states as the numbers the enumeration gives them.\<close>

instantiation dc_state :: linorder
begin

definition less_eq_dc_state :: "dc_state \<Rightarrow> dc_state \<Rightarrow> bool" where
  "less_eq_dc_state s t = (state_number s \<le> state_number t)"

definition less_dc_state :: "dc_state \<Rightarrow> dc_state \<Rightarrow> bool" where
  "less_dc_state s t = (state_number s < state_number t)"

instance
proof
  fix x y z :: dc_state
  show "x \<le> y \<Longrightarrow> y \<le> x \<Longrightarrow> x = y"
    by (cases x; cases y) (simp_all add: less_eq_dc_state_def)
qed (auto simp: less_eq_dc_state_def less_dc_state_def)

end

datatype dc_priority =
    Prio_ignored | Prio_below_normal | Prio_normal | Prio_high | Prio_extra_high | Prio_other int

datatype reliability = PR_NONE | PR_TTL | PR_RTX

record sctp_message =
  sm_ppid :: u16
  sm_ordered :: bool
  sm_reliability :: reliability
  sm_param :: u32
  sm_data :: "u8 list"

datatype gst_flow = FLOW_OK | FLOW_NOT_LINKED | FLOW_ERROR | FLOW_OTHER nat

datatype 'd dc_out =
    Pushed sctp_message
  | Reset_stream "'d option"
  | Negotiated
  | New_buffer "'d option" "u32 option" "u8 list"
  | Destroyed "'d option"

record 'd data_channel =
  dc_ordered :: bool
  dc_life_time :: u32
  dc_retransmits :: u32
  dc_priority :: u32
  dc_protocol :: "u8 list"
  dc_negotiated :: bool
  dc_id :: u16
  dc_label :: "u8 list"
  dc_bytes_sent :: u64
  dc_bytes_recv :: u64
  dc_messages_sent :: u64
  dc_messages_recv :: u64
  dc_state :: dc_state
  dc_ctrl_sent :: u32
  dc_cb :: bool
  dc_user_data :: "'d option"
  dc_notify :: bool
  dc_reset_cb :: bool
  dc_reset_data :: "'d option"
  dc_reset_notify :: bool

text \<open>The macro \<open>KMS_WEBRTC_DATA_CHANNEL_RESET\<close>.\<close>

definition data_channel_reset :: "'d data_channel \<Rightarrow> 'd data_channel \<times> 'd dc_out list" where
  "data_channel_reset dc =
     (dc\<lparr>dc_state := CLOSING\<rparr>, if dc_reset_cb dc then [Reset_stream (dc_reset_data dc)] else [])"

section \<open>Properties\<close>

definition kms_webrtc_data_channel_bin_set_protocol ::
    "u8 list option \<Rightarrow> 'd data_channel \<Rightarrow> 'd data_channel" where
  "kms_webrtc_data_channel_bin_set_protocol p dc =
     dc\<lparr>dc_protocol := (case p of None \<Rightarrow> [] | Some s \<Rightarrow> s)\<rparr>"

definition kms_webrtc_data_channel_bin_set_label ::
    "u8 list option \<Rightarrow> 'd data_channel \<Rightarrow> 'd data_channel" where
  "kms_webrtc_data_channel_bin_set_label l dc =
     dc\<lparr>dc_label := (case l of None \<Rightarrow> [] | Some s \<Rightarrow> s)\<rparr>"

definition kms_webrtc_data_channel_bin_set_priority ::
    "dc_priority \<Rightarrow> 'd data_channel \<Rightarrow> 'd data_channel" where
  "kms_webrtc_data_channel_bin_set_priority p dc =
     dc\<lparr>dc_priority := (case p of
         Prio_ignored \<Rightarrow> PRIORITY_IGNORED
       | Prio_below_normal \<Rightarrow> PRIORITY_BELOW_NORMAL
       | Prio_normal \<Rightarrow> PRIORITY_NORMAL
       | Prio_high \<Rightarrow> PRIORITY_HIGH
       | Prio_extra_high \<Rightarrow> PRIORITY_EXTRA_HIGH
       | Prio_other _ \<Rightarrow> PRIORITY_NORMAL)\<rparr>"

definition kms_webrtc_data_channel_bin_get_priority :: "'d data_channel \<Rightarrow> dc_priority" where
  "kms_webrtc_data_channel_bin_get_priority dc =
     (if dc_priority dc = PRIORITY_IGNORED then Prio_ignored
      else if dc_priority dc = PRIORITY_BELOW_NORMAL then Prio_below_normal
      else if dc_priority dc = PRIORITY_NORMAL then Prio_normal
      else if dc_priority dc = PRIORITY_HIGH then Prio_high
      else if dc_priority dc = PRIORITY_EXTRA_HIGH then Prio_extra_high
      else Prio_normal)"

text \<open>A property together with the value given for it.\<close>

datatype dc_setting =
    Set_id u32
  | Set_ordered bool
  | Set_life_time u32
  | Set_retransmits u32
  | Set_priority dc_priority
  | Set_protocol "u8 list option"
  | Set_negotiated bool
  | Set_label "u8 list option"
  | Set_unknown nat

definition kms_webrtc_data_channel_bin_set_property ::
    "dc_setting \<Rightarrow> 'd data_channel \<Rightarrow> 'd data_channel" where
  "kms_webrtc_data_channel_bin_set_property v dc =
     (case v of
        Set_id i \<Rightarrow> dc\<lparr>dc_id := ucast i\<rparr>
      | Set_ordered b \<Rightarrow> dc\<lparr>dc_ordered := b\<rparr>
      | Set_life_time t \<Rightarrow> dc\<lparr>dc_life_time := t\<rparr>
      | Set_retransmits r \<Rightarrow> dc\<lparr>dc_retransmits := r\<rparr>
      | Set_priority p \<Rightarrow> kms_webrtc_data_channel_bin_set_priority p dc
      | Set_protocol p \<Rightarrow> kms_webrtc_data_channel_bin_set_protocol p dc
      | Set_negotiated b \<Rightarrow> dc\<lparr>dc_negotiated := b\<rparr>
      | Set_label l \<Rightarrow> kms_webrtc_data_channel_bin_set_label l dc
      | Set_unknown _ \<Rightarrow> dc)"

datatype dc_property =
    Get_id | Get_ordered | Get_life_time | Get_retransmits | Get_priority | Get_protocol
  | Get_negotiated | Get_label | Get_state | Get_bytes_sent | Get_bytes_recv | Get_messages_sent
  | Get_messages_recv | Get_unknown nat

datatype dc_value =
    V_uint u32 | V_bool bool | V_int u32 | V_priority dc_priority | V_string "u8 list"
  | V_state dc_state | V_uint64 u64 | V_unset

definition kms_webrtc_data_channel_bin_get_property ::
    "dc_property \<Rightarrow> 'd data_channel \<Rightarrow> dc_value" where
  "kms_webrtc_data_channel_bin_get_property p dc =
     (case p of
        Get_id \<Rightarrow> V_uint (ucast (dc_id dc))
      | Get_ordered \<Rightarrow> V_bool (dc_ordered dc)
      | Get_life_time \<Rightarrow> V_int (dc_life_time dc)
      | Get_retransmits \<Rightarrow> V_int (dc_retransmits dc)
      | Get_priority \<Rightarrow> V_priority (kms_webrtc_data_channel_bin_get_priority dc)
      | Get_protocol \<Rightarrow> V_string (dc_protocol dc)
      | Get_negotiated \<Rightarrow> V_bool (dc_negotiated dc)
      | Get_label \<Rightarrow> V_string (dc_label dc)
      | Get_state \<Rightarrow> V_state (dc_state dc)
      | Get_bytes_sent \<Rightarrow> V_uint64 (dc_bytes_sent dc)
      | Get_bytes_recv \<Rightarrow> V_uint64 (dc_bytes_recv dc)
      | Get_messages_sent \<Rightarrow> V_uint64 (dc_messages_sent dc)
      | Get_messages_recv \<Rightarrow> V_uint64 (dc_messages_recv dc)
      | Get_unknown _ \<Rightarrow> V_unset)"

section \<open>Creation\<close>

text \<open>The instance is zeroed before \<open>init\<close> runs.\<close>

definition kms_webrtc_data_channel_bin_init :: "'d data_channel" where
  "kms_webrtc_data_channel_bin_init =
     \<lparr>dc_ordered = False, dc_life_time = 0, dc_retransmits = 0, dc_priority = 0, dc_protocol = [],
      dc_negotiated = False, dc_id = 0, dc_label = [], dc_bytes_sent = 0, dc_bytes_recv = 0,
      dc_messages_sent = 0, dc_messages_recv = 0, dc_state = CLOSED, dc_ctrl_sent = 0,
      dc_cb = False, dc_user_data = None, dc_notify = False, dc_reset_cb = False,
      dc_reset_data = None, dc_reset_notify = False\<rparr>"

definition kms_webrtc_data_channel_bin_create_caps :: "'d data_channel \<Rightarrow> gst_structure option" where
  "kms_webrtc_data_channel_bin_create_caps dc =
     (if dc_life_time dc \<noteq> - 1 \<and> dc_retransmits dc \<noteq> - 1 then None
      else let caps = [''ordered'' \<mapsto> GBool (dc_ordered dc)]
      in if dc_life_time dc = - 1 \<and> dc_retransmits dc = - 1
         then Some (caps(''partially-reliability'' \<mapsto> GString ''none'',
                         ''reliability-parameter'' \<mapsto> GUint 0))
         else if sint (dc_retransmits dc) \<ge> 0
         then Some (caps(''partially-reliability'' \<mapsto> GString ''rtx'',
                         ''reliability-parameter'' \<mapsto> GUint (dc_retransmits dc)))
         else if sint (dc_life_time dc) \<ge> 0
         then Some (caps(''partially-reliability'' \<mapsto> GString ''ttl'',
                         ''reliability-parameter'' \<mapsto> GUint (dc_life_time dc)))
         else Some caps)"

text \<open>
  GObject refuses a value outside of the range its property declares (with a warning), so the
  field stays zero; every other construction property is set, with its default where none is
  given.
\<close>

definition int_in_range :: "int \<Rightarrow> int \<Rightarrow> u32 \<Rightarrow> bool" where
  "int_in_range lo hi w \<longleftrightarrow> lo \<le> sint w \<and> sint w \<le> hi"

definition kms_webrtc_data_channel_bin_new ::
    "u32 \<Rightarrow> bool \<Rightarrow> u32 \<Rightarrow> u32 \<Rightarrow> u8 list option \<Rightarrow> u8 list option \<Rightarrow>
     'd data_channel \<times> gst_structure option" where
  "kms_webrtc_data_channel_bin_new ch_id ordered life_time retransmits label protocol =
     (let dc = fold kms_webrtc_data_channel_bin_set_property
          ([Set_ordered ordered] @
           (if int_in_range (- 1) 65535 life_time then [Set_life_time life_time] else []) @
           (if int_in_range (- 1) 65535 retransmits then [Set_retransmits retransmits] else []) @
           [Set_priority Prio_ignored, Set_protocol protocol, Set_negotiated False] @
           (if ch_id \<le> 65535 then [Set_id ch_id] else []) @
           [Set_label label])
          kms_webrtc_data_channel_bin_init
      in (dc, kms_webrtc_data_channel_bin_create_caps dc))"

definition kms_webrtc_data_channel_bin_finalize :: "'d data_channel \<Rightarrow> 'd dc_out list" where
  "kms_webrtc_data_channel_bin_finalize dc =
     (if dc_notify dc then [Destroyed (dc_user_data dc)] else []) @
     (if dc_reset_notify dc then [Destroyed (dc_reset_data dc)] else [])"

definition kms_webrtc_data_channel_bin_set_new_buffer_callback ::
    "bool \<Rightarrow> 'd option \<Rightarrow> bool \<Rightarrow> 'd data_channel \<Rightarrow> 'd data_channel \<times> 'd dc_out list" where
  "kms_webrtc_data_channel_bin_set_new_buffer_callback cb data notify dc =
     (dc\<lparr>dc_cb := cb, dc_notify := notify, dc_user_data := data\<rparr>,
      if dc_notify dc then [Destroyed (dc_user_data dc)] else [])"

definition kms_webrtc_data_channel_bin_set_reset_stream_callback ::
    "bool \<Rightarrow> 'd option \<Rightarrow> bool \<Rightarrow> 'd data_channel \<Rightarrow> 'd data_channel \<times> 'd dc_out list" where
  "kms_webrtc_data_channel_bin_set_reset_stream_callback cb data notify dc =
     (dc\<lparr>dc_reset_cb := cb, dc_reset_notify := notify, dc_reset_data := data\<rparr>,
      if dc_reset_notify dc then [Destroyed (dc_reset_data dc)] else [])"

section \<open>Opening and closing\<close>

definition control_message :: "u8 list \<Rightarrow> sctp_message" where
  "control_message bs = \<lparr>sm_ppid = PPID_CONTROL, sm_ordered = True, sm_reliability = PR_NONE,
     sm_param = 0, sm_data = bs\<rparr>"

definition channel_type_of :: "'d data_channel \<Rightarrow> u8" where
  "channel_type_of dc =
     (if dc_ordered dc then CHANNEL_RELIABLE else CHANNEL_RELIABLE_UNORDERED) OR
     (if dc_life_time dc \<noteq> - 1 then CHANNEL_TIMED else 0) OR
     (if dc_retransmits dc \<noteq> - 1 then CHANNEL_REMIX else 0)"

definition kms_webrtc_data_channel_bin_request_open ::
    "gst_flow \<Rightarrow> 'd data_channel \<Rightarrow> c_fault + 'd data_channel \<times> 'd dc_out list" where
  "kms_webrtc_data_channel_bin_request_open flow dc =
     (if dc_negotiated dc \<or> dc_state dc \<noteq> CLOSED then Inr (dc, [])
      else let
        dc1 = dc\<lparr>dc_state := CONNECTING\<rparr>;
        ct = channel_type_of dc1
      in if ct \<notin> {CHANNEL_RELIABLE, CHANNEL_RELIABLE_UNORDERED, CHANNEL_REMIX,
             CHANNEL_REMIX_UNORDERED, CHANNEL_TIMED, CHANNEL_TIMED_UNORDERED}
         then Inr (dc1, [])
         else let
           rel = (if ct \<in> {CHANNEL_REMIX, CHANNEL_REMIX_UNORDERED} \<and> dc_retransmits dc1 \<noteq> - 1
                  then dc_retransmits dc1
                  else if ct \<in> {CHANNEL_TIMED, CHANNEL_TIMED_UNORDERED} \<and> dc_life_time dc1 \<noteq> - 1
                  then dc_life_time dc1 else 0)
         in bind_result (create_datachannel_open_request ct rel (ucast (dc_priority dc1))
              (dc_label dc1) (of_nat (length (dc_label dc1)))
              (dc_protocol dc1) (of_nat (length (dc_protocol dc1)))) (\<lambda>buf.
              Inr (if flow \<noteq> FLOW_OK then dc1
                   else dc1\<lparr>dc_ctrl_sent := dc_ctrl_sent dc1 + of_nat (length buf)\<rparr>,
                   [Pushed (control_message buf)])))"

definition kms_webrtc_data_channel_bin_request_close ::
    "'d data_channel \<Rightarrow> 'd data_channel \<times> 'd dc_out list" where
  "kms_webrtc_data_channel_bin_request_close dc =
     (if dc_state dc \<ge> CLOSING then (dc, [])
      else (dc\<lparr>dc_state := CLOSING\<rparr>,
            if dc_reset_cb dc then [Reset_stream (dc_reset_data dc)] else []))"

section \<open>Receiving\<close>

definition kms_webrtc_data_channel_bin_send_data_channel_ack ::
    "gst_flow \<Rightarrow> 'd data_channel \<Rightarrow> 'd data_channel \<times> 'd dc_out list" where
  "kms_webrtc_data_channel_bin_send_data_channel_ack flow dc =
     (if flow \<noteq> FLOW_OK
      then (case data_channel_reset dc of
              (dc1, out) \<Rightarrow> (dc1, Pushed (control_message create_datachannel_ack) # out))
      else (dc\<lparr>dc_ctrl_sent := dc_ctrl_sent dc + of_nat (length create_datachannel_ack),
               dc_state := OPEN, dc_negotiated := True\<rparr>,
            [Pushed (control_message create_datachannel_ack), Negotiated]))"

definition accept_request :: "open_request \<Rightarrow> 'd data_channel \<Rightarrow> 'd data_channel" where
  "accept_request r dc =
     dc\<lparr>dc_priority := ucast (or_priority r),
        dc_ordered := (or_type r AND CHANNEL_RELIABLE_UNORDERED = 0),
        dc_retransmits :=
          (if or_type r \<in> {CHANNEL_REMIX, CHANNEL_REMIX_UNORDERED} then or_reliability r else - 1),
        dc_life_time :=
          (if or_type r \<in> {CHANNEL_TIMED, CHANNEL_TIMED_UNORDERED} then or_reliability r else - 1),
        dc_negotiated := False,
        dc_messages_recv := 0, dc_messages_sent := 0, dc_bytes_recv := 0, dc_bytes_sent := 0,
        dc_ctrl_sent := 0, dc_label := or_label r, dc_protocol := or_protocol r,
        dc_state := CONNECTING\<rparr>"

definition kms_webrtc_data_channel_bin_handle_open_request ::
    "gst_flow \<Rightarrow> u8 list \<Rightarrow> 'd data_channel \<Rightarrow> 'd data_channel \<times> 'd dc_out list" where
  "kms_webrtc_data_channel_bin_handle_open_request flow data dc =
     (case parse_open_request data of
        None \<Rightarrow> data_channel_reset dc
      | Some r \<Rightarrow>
          if dc_state dc \<noteq> CLOSED then (dc, [])
          else kms_webrtc_data_channel_bin_send_data_channel_ack flow (accept_request r dc))"

definition kms_webrtc_data_channel_bin_handle_ack ::
    "'d data_channel \<Rightarrow> 'd data_channel \<times> 'd dc_out list" where
  "kms_webrtc_data_channel_bin_handle_ack dc =
     (dc\<lparr>dc_negotiated := True, dc_state := OPEN\<rparr>, [Negotiated])"

definition kms_webrtc_data_channel_bin_handle_control_message ::
    "gst_flow \<Rightarrow> u8 list \<Rightarrow> 'd data_channel \<Rightarrow> 'd data_channel \<times> 'd dc_out list" where
  "kms_webrtc_data_channel_bin_handle_control_message flow data dc =
     (if (of_nat (length data) :: u32) = 0 then data_channel_reset dc
      else if data ! 0 = MESSAGE_TYPE_OPEN_REQUEST
      then kms_webrtc_data_channel_bin_handle_open_request flow data dc
      else if data ! 0 = MESSAGE_TYPE_ACK then kms_webrtc_data_channel_bin_handle_ack dc
      else data_channel_reset dc)"

text \<open>What pulling a sample from the sink gives: the SCTP meta data, if any, and the bytes.\<close>

datatype dc_sample = No_sample | No_buffer | Unreadable | Readable "u32 option" "u8 list"

text \<open>\<open>ack_flow\<close>: how pushing an acknowledgement ends; \<open>cb_flow\<close>: what the callback returns.\<close>

definition new_data_callback ::
    "gst_flow \<Rightarrow> gst_flow \<Rightarrow> dc_sample \<Rightarrow> 'd data_channel \<Rightarrow>
     'd data_channel \<times> 'd dc_out list \<times> gst_flow" where
  "new_data_callback ack_flow cb_flow sample dc =
     (case sample of
        No_sample \<Rightarrow> (dc, [], FLOW_ERROR)
      | No_buffer \<Rightarrow> (dc, [], FLOW_ERROR)
      | Unreadable \<Rightarrow> (dc, [], FLOW_ERROR)
      | Readable meta data \<Rightarrow>
          (let ppid = (case meta of None \<Rightarrow> 0 | Some p \<Rightarrow> ucast p) :: u16
           in if ppid = PPID_CONTROL
              then (case kms_webrtc_data_channel_bin_handle_control_message ack_flow data dc of
                      (dc1, out) \<Rightarrow> (dc1, out, FLOW_OK))
              else if ppid \<in> {PPID_STRING, PPID_BINARY, PPID_STRING_EMPTY, PPID_BINARY_EMPTY}
              then (let size = (if ppid \<in> {PPID_STRING, PPID_BINARY} then of_nat (length data) else 0);
                        dc1 = dc\<lparr>dc_bytes_recv := dc_bytes_recv dc + size,
                                 dc_messages_recv := dc_messages_recv dc + 1\<rparr>
                    in if dc_cb dc1 then (dc1, [New_buffer (dc_user_data dc1) meta data], cb_flow)
                       else (dc1, [], FLOW_OK))
              else (case data_channel_reset dc of (dc1, out) \<Rightarrow> (dc1, out, FLOW_ERROR))))"

section \<open>Sending\<close>

definition kms_webrtc_data_channel_bin_get_ppid_from_meta :: "u32 \<Rightarrow> bool \<Rightarrow> u16 option" where
  "kms_webrtc_data_channel_bin_get_ppid_from_meta meta is_empty =
     (if meta = ucast PPID_STRING then (if is_empty then None else Some (ucast meta))
      else if meta = ucast PPID_BINARY then (if is_empty then None else Some (ucast meta))
      else if meta = ucast PPID_STRING_EMPTY then (if \<not> is_empty then None else Some (ucast meta))
      else if meta = ucast PPID_BINARY_EMPTY then Some (ucast meta)
      else None)"

text \<open>\<open>contents\<close>: the bytes of the buffer, \<open>None\<close> when it cannot be mapped.\<close>

definition kms_webrtc_data_channel_bin_push_buffer ::
    "gst_flow \<Rightarrow> u8 list option \<Rightarrow> u32 option \<Rightarrow> bool \<Rightarrow> 'd data_channel \<Rightarrow>
     'd data_channel \<times> 'd dc_out list \<times> gst_flow" where
  "kms_webrtc_data_channel_bin_push_buffer flow contents meta is_binary dc =
     (case contents of
        None \<Rightarrow> (dc, [], FLOW_ERROR)
      | Some data \<Rightarrow>
          (let is_empty = (data = []);
               ppid = (case meta of
                   Some m \<Rightarrow> kms_webrtc_data_channel_bin_get_ppid_from_meta m is_empty
                 | None \<Rightarrow> Some (if is_binary then (if is_empty then PPID_BINARY_EMPTY else PPID_BINARY)
                                 else (if is_empty then PPID_STRING_EMPTY else PPID_STRING)))
           in case ppid of
                None \<Rightarrow> (dc, [], FLOW_ERROR)
              | Some ppid \<Rightarrow>
                  if dc_state dc = CLOSING \<or> dc_state dc = CLOSED then (dc, [], FLOW_NOT_LINKED)
                  else let
                    ordered = (if dc_state dc = CONNECTING then True else dc_ordered dc);
                    (pr, pr_param) =
                      (if dc_life_time dc = - 1 \<and> dc_retransmits dc = - 1 then (PR_NONE, 0)
                       else if dc_life_time dc \<noteq> - 1 then (PR_TTL, dc_life_time dc)
                       else (PR_RTX, dc_retransmits dc));
                    msg = \<lparr>sm_ppid = ppid, sm_ordered = ordered, sm_reliability = pr,
                           sm_param = pr_param, sm_data = (if is_empty then [0] else data)\<rparr>;
                    dc1 = dc\<lparr>dc_bytes_sent := (if data \<noteq> [] \<and> flow = FLOW_OK
                               then dc_bytes_sent dc + of_nat (length data) else dc_bytes_sent dc),
                             dc_messages_sent := dc_messages_sent dc + 1\<rparr>
                  in (dc1, [Pushed msg], flow)))"

section \<open>The handshake\<close>

text \<open>A channel whose properties can be put into an open request.\<close>

definition dc_ok :: "'d data_channel \<Rightarrow> bool" where
  "dc_ok dc \<longleftrightarrow> 0 \<notin> set (dc_label dc) \<and> 0 \<notin> set (dc_protocol dc) \<and>
     length (dc_label dc) < 2 ^ 16 \<and> length (dc_protocol dc) < 2 ^ 16 \<and>
     dc_priority dc \<in> {PRIORITY_IGNORED, PRIORITY_BELOW_NORMAL, PRIORITY_NORMAL,
       PRIORITY_HIGH, PRIORITY_EXTRA_HIGH} \<and>
     (dc_life_time dc = - 1 \<or> dc_retransmits dc = - 1)"

definition request_of :: "'d data_channel \<Rightarrow> open_request" where
  "request_of dc = \<lparr>or_type = channel_type_of dc, or_priority = ucast (dc_priority dc),
     or_reliability = (if dc_retransmits dc \<noteq> - 1 then dc_retransmits dc
       else if dc_life_time dc \<noteq> - 1 then dc_life_time dc else 0),
     or_label = dc_label dc, or_protocol = dc_protocol dc\<rparr>"

lemma type_cases:
  assumes "dc_life_time dc = - 1 \<or> dc_retransmits dc = - 1"
  shows "channel_type_of dc =
    (if dc_retransmits dc \<noteq> - 1 then (if dc_ordered dc then CHANNEL_REMIX else CHANNEL_REMIX_UNORDERED)
     else if dc_life_time dc \<noteq> - 1 then (if dc_ordered dc then CHANNEL_TIMED else CHANNEL_TIMED_UNORDERED)
     else (if dc_ordered dc then CHANNEL_RELIABLE else CHANNEL_RELIABLE_UNORDERED))"
  using assms by (auto simp: channel_type_of_def channel_types)

lemma channel_type_state [simp]: "channel_type_of (dc\<lparr>dc_state := s\<rparr>) = channel_type_of dc"
  by (simp add: channel_type_of_def)

lemma priority_16:
  "p \<in> {PRIORITY_IGNORED, PRIORITY_BELOW_NORMAL, PRIORITY_NORMAL, PRIORITY_HIGH, PRIORITY_EXTRA_HIGH} \<Longrightarrow>
   ucast (ucast p :: u16) = p"
  by (auto simp: priorities)

lemma request_of_ok: "dc_ok dc \<Longrightarrow> request_ok (request_of dc)"
  using priority_16 [of "dc_priority dc"]
  by (simp add: dc_ok_def request_ok_def request_of_def)

lemma request_open_sends:
  assumes "dc_ok dc" and "dc_state dc = CLOSED" and "\<not> dc_negotiated dc"
  shows "kms_webrtc_data_channel_bin_request_open flow dc =
    Inr (dc\<lparr>dc_state := CONNECTING,
            dc_ctrl_sent := (if flow = FLOW_OK
              then dc_ctrl_sent dc + of_nat (length (request_bytes (request_of dc))) else dc_ctrl_sent dc)\<rparr>,
         [Pushed (control_message (request_bytes (request_of dc)))])"
proof -
  have len: "length (dc_label dc) < 2 ^ 16" "length (dc_protocol dc) < 2 ^ 16"
    and one: "dc_life_time dc = - 1 \<or> dc_retransmits dc = - 1"
    using assms(1) by (simp_all add: dc_ok_def)
  have rb: "create_datachannel_open_request (channel_type_of dc) (or_reliability (request_of dc))
      (ucast (dc_priority dc)) (dc_label dc) (of_nat (length (dc_label dc)))
      (dc_protocol dc) (of_nat (length (dc_protocol dc))) = Inr (request_bytes (request_of dc))"
    using request_written [OF len] by (simp add: request_bytes_def request_of_def)
  show ?thesis
    using assms(2,3) rb type_cases [OF one] one
    by (auto simp: kms_webrtc_data_channel_bin_request_open_def Let_def request_of_def channel_types)
qed

lemma accept_request_of:
  assumes "dc_ok dc"
  shows "accept_request (request_of dc) b =
    b\<lparr>dc_priority := dc_priority dc, dc_ordered := dc_ordered dc,
      dc_retransmits := dc_retransmits dc, dc_life_time := dc_life_time dc, dc_negotiated := False,
      dc_messages_recv := 0, dc_messages_sent := 0, dc_bytes_recv := 0, dc_bytes_sent := 0,
      dc_ctrl_sent := 0, dc_label := dc_label dc, dc_protocol := dc_protocol dc,
      dc_state := CONNECTING\<rparr>"
proof -
  have one: "dc_life_time dc = - 1 \<or> dc_retransmits dc = - 1"
    and pri: "ucast (ucast (dc_priority dc) :: u16) = dc_priority dc"
    using assms priority_16 by (simp_all add: dc_ok_def)
  show ?thesis
    using type_cases [OF one] one pri
    by (auto simp: accept_request_def request_of_def channel_types)
qed

lemma request_bytes_shape:
  assumes "request_ok r"
  shows "request_bytes r ! 0 = MESSAGE_TYPE_OPEN_REQUEST"
    and "(of_nat (length (request_bytes r)) :: u32) \<noteq> 0"
proof -
  have len: "length (or_label r) < 2 ^ 16" "length (or_protocol r) < 2 ^ 16"
    using assms by (simp_all add: request_ok_def)
  have bs: "request_bytes r = [MESSAGE_TYPE_OPEN_REQUEST, or_type r] @ be16 (or_priority r) @
      be32 (or_reliability r) @ be16 (of_nat (length (or_label r))) @
      be16 (of_nat (length (or_protocol r))) @ or_label r @ or_protocol r"
    using request_written [OF len] by (simp add: request_bytes_def)
  show "request_bytes r ! 0 = MESSAGE_TYPE_OPEN_REQUEST" unfolding bs by simp
  have "length (request_bytes r) = 12 + length (or_label r) + length (or_protocol r)"
    unfolding bs by simp
  moreover have "12 + length (or_label r) + length (or_protocol r) < 2 ^ 32" using len by simp
  ultimately have "unat (of_nat (length (request_bytes r)) :: u32) = 12 + length (or_label r) + length (or_protocol r)"
    by (simp only: unat_of_nat mod_less len_num1 len_bit0) simp
  then show "(of_nat (length (request_bytes r)) :: u32) \<noteq> 0"
    by (metis add_is_0 numeral_neq_zero unat_0)
qed

lemma receive_ack:
  "new_data_callback ack cb (Readable (Some (ucast PPID_CONTROL)) create_datachannel_ack) dc =
    (dc\<lparr>dc_negotiated := True, dc_state := OPEN\<rparr>, [Negotiated], FLOW_OK)"
  by (simp add: new_data_callback_def PPID_CONTROL_def create_datachannel_ack_def MESSAGE_TYPE_ACK_def
      MESSAGE_TYPE_OPEN_REQUEST_def kms_webrtc_data_channel_bin_handle_control_message_def
      kms_webrtc_data_channel_bin_handle_ack_def)

lemma receive_request:
  assumes "request_ok r" and "dc_state b = CLOSED"
  shows "new_data_callback ack cb (Readable (Some (ucast PPID_CONTROL)) (request_bytes r)) b =
    (case kms_webrtc_data_channel_bin_send_data_channel_ack ack (accept_request r b) of
       (b1, out) \<Rightarrow> (b1, out, FLOW_OK))"
  using request_bytes_shape [OF assms(1)] assms
  by (simp add: new_data_callback_def PPID_CONTROL_def Let_def request_roundtrip
      kms_webrtc_data_channel_bin_handle_control_message_def
      kms_webrtc_data_channel_bin_handle_open_request_def MESSAGE_TYPE_OPEN_REQUEST_def)

text \<open>
  The handshake. One side of a stream asks for a channel, the other side receives the
  request and acknowledges it, the first side receives the acknowledgement: then both are
  open and negotiated, and the second side has the label, protocol, priority, ordering and
  reliability of the first.
\<close>

theorem data_channel_handshake:
  assumes "dc_ok a" and "dc_state a = CLOSED" and "\<not> dc_negotiated a" and "dc_state b = CLOSED"
  shows "\<exists>a1 m b1 k a2.
    kms_webrtc_data_channel_bin_request_open FLOW_OK a = Inr (a1, [Pushed m]) \<and>
    new_data_callback FLOW_OK cb (Readable (Some (ucast (sm_ppid m))) (sm_data m)) b =
      (b1, [Pushed k, Negotiated], FLOW_OK) \<and>
    new_data_callback FLOW_OK cb (Readable (Some (ucast (sm_ppid k))) (sm_data k)) a1 =
      (a2, [Negotiated], FLOW_OK) \<and>
    dc_state a2 = OPEN \<and> dc_state b1 = OPEN \<and> dc_negotiated a2 \<and> dc_negotiated b1 \<and>
    (dc_label b1, dc_protocol b1, dc_priority b1, dc_ordered b1, dc_life_time b1, dc_retransmits b1) =
    (dc_label a2, dc_protocol a2, dc_priority a2, dc_ordered a2, dc_life_time a2, dc_retransmits a2)"
proof -
  let ?r = "request_of a"
  have r: "request_ok ?r" using assms(1) by (rule request_of_ok)
  show ?thesis
    using request_open_sends [OF assms(1-3), of FLOW_OK] receive_request [OF r assms(4), of FLOW_OK cb]
    by (simp add: receive_ack accept_request_of [OF assms(1)] control_message_def
        kms_webrtc_data_channel_bin_send_data_channel_ack_def)
qed

definition chat_channel :: "nat data_channel" where
  "chat_channel = fst (kms_webrtc_data_channel_bin_new 1 True 3000 (- 1) (Some [99, 104, 97, 116]) None)"

lemma chat_channel_simps:
  "chat_channel = kms_webrtc_data_channel_bin_init\<lparr>dc_ordered := True, dc_life_time := 3000,
     dc_retransmits := - 1, dc_priority := PRIORITY_IGNORED, dc_id := 1, dc_label := [99, 104, 97, 116]\<rparr>"
  by (simp add: Let_def chat_channel_def kms_webrtc_data_channel_bin_new_def kms_webrtc_data_channel_bin_set_property_def
      kms_webrtc_data_channel_bin_set_priority_def kms_webrtc_data_channel_bin_set_protocol_def
      kms_webrtc_data_channel_bin_set_label_def int_in_range_def
      kms_webrtc_data_channel_bin_init_def)

theorem data_channel_handshake_witness:
  "\<exists>a1 m b1 k a2.
    kms_webrtc_data_channel_bin_request_open FLOW_OK chat_channel = Inr (a1, [Pushed m]) \<and>
    new_data_callback FLOW_OK FLOW_OK (Readable (Some (ucast (sm_ppid m))) (sm_data m))
      (kms_webrtc_data_channel_bin_init :: nat data_channel) = (b1, [Pushed k, Negotiated], FLOW_OK) \<and>
    new_data_callback FLOW_OK FLOW_OK (Readable (Some (ucast (sm_ppid k))) (sm_data k)) a1 =
      (a2, [Negotiated], FLOW_OK) \<and>
    dc_state a2 = OPEN \<and> dc_state b1 = OPEN \<and> dc_negotiated a2 \<and> dc_negotiated b1 \<and>
    (dc_label b1, dc_protocol b1, dc_priority b1, dc_ordered b1, dc_life_time b1, dc_retransmits b1) =
    (dc_label a2, dc_protocol a2, dc_priority a2, dc_ordered a2, dc_life_time a2, dc_retransmits a2)"
  by (rule data_channel_handshake)
    (simp_all add: chat_channel_simps kms_webrtc_data_channel_bin_init_def dc_ok_def priorities)

section \<open>The state machine\<close>

datatype dc_event =
    Ev_open gst_flow
  | Ev_close
  | Ev_data gst_flow gst_flow dc_sample
  | Ev_push gst_flow "u8 list option" "u32 option" bool

fun dc_exec :: "'d data_channel \<Rightarrow> dc_event \<Rightarrow> c_fault + 'd data_channel \<times> 'd dc_out list" where
  "dc_exec dc (Ev_open flow) = kms_webrtc_data_channel_bin_request_open flow dc"
| "dc_exec dc Ev_close = Inr (kms_webrtc_data_channel_bin_request_close dc)"
| "dc_exec dc (Ev_data ack cb sample) =
     Inr (case new_data_callback ack cb sample dc of (dc', out, _) \<Rightarrow> (dc', out))"
| "dc_exec dc (Ev_push flow contents meta bin) =
     Inr (case kms_webrtc_data_channel_bin_push_buffer flow contents meta bin dc of
            (dc', out, _) \<Rightarrow> (dc', out))"

fun is_ack :: "dc_sample \<Rightarrow> bool" where
  "is_ack (Readable (Some m) data) =
     (ucast m = PPID_CONTROL \<and> (of_nat (length data) :: u32) \<noteq> 0 \<and> data ! 0 = MESSAGE_TYPE_ACK)"
| "is_ack _ = False"

fun is_request :: "dc_sample \<Rightarrow> bool" where
  "is_request (Readable (Some m) data) =
     (ucast m = PPID_CONTROL \<and> (of_nat (length data) :: u32) \<noteq> 0 \<and>
      data ! 0 = MESSAGE_TYPE_OPEN_REQUEST \<and> parse_open_request data \<noteq> None)"
| "is_request _ = False"

fun is_message :: "dc_sample \<Rightarrow> bool" where
  "is_message (Readable meta data) = True"
| "is_message _ = False"

text \<open>The moves a channel can make, as the protocol describes them.\<close>

inductive dc_move :: "dc_event \<Rightarrow> dc_state \<Rightarrow> dc_state \<Rightarrow> bool" where
  stay: "dc_move e s s"
| connect: "dc_move (Ev_open flow) CLOSED CONNECTING"
| closing: "s < CLOSING \<Longrightarrow> dc_move Ev_close s CLOSING"
| acked: "is_ack sample \<Longrightarrow> dc_move (Ev_data ack cb sample) s OPEN"
| accepted: "is_request sample \<Longrightarrow> dc_move (Ev_data FLOW_OK cb sample) CLOSED OPEN"
| dropped: "is_message sample \<Longrightarrow> \<not> is_ack sample \<Longrightarrow> dc_move (Ev_data ack cb sample) s CLOSING"

inductive_cases dc_move_from_closing: "dc_move e CLOSING s"
inductive_simps dc_move_push: "dc_move (Ev_push flow contents meta bin) s s'"
inductive_simps dc_move_open: "dc_move (Ev_open flow) s s'"

lemma request_open_shape:
  assumes "kms_webrtc_data_channel_bin_request_open flow dc = Inr (dc', out)"
  shows "dc' = dc \<or> dc_state dc = CLOSED \<and> \<not> dc_negotiated dc \<and>
    (\<exists>n. dc' = dc\<lparr>dc_state := CONNECTING, dc_ctrl_sent := n\<rparr>)"
proof (cases "dc_negotiated dc \<or> dc_state dc \<noteq> CLOSED")
  case True
  then show ?thesis using assms unfolding kms_webrtc_data_channel_bin_request_open_def by simp
next
  case False
  define ok where "ok \<longleftrightarrow> channel_type_of dc \<notin> {CHANNEL_RELIABLE, CHANNEL_RELIABLE_UNORDERED,
    CHANNEL_REMIX, CHANNEL_REMIX_UNORDERED, CHANNEL_TIMED, CHANNEL_TIMED_UNORDERED}"
  define rel where "rel = (if channel_type_of dc \<in> {CHANNEL_REMIX, CHANNEL_REMIX_UNORDERED} \<and> dc_retransmits dc \<noteq> - 1
      then dc_retransmits dc
      else if channel_type_of dc \<in> {CHANNEL_TIMED, CHANNEL_TIMED_UNORDERED} \<and> dc_life_time dc \<noteq> - 1
      then dc_life_time dc else 0)"
  have eq: "kms_webrtc_data_channel_bin_request_open flow dc =
    (if ok then Inr (dc\<lparr>dc_state := CONNECTING\<rparr>, [])
     else bind_result (create_datachannel_open_request (channel_type_of dc) rel (ucast (dc_priority dc))
          (dc_label dc) (of_nat (length (dc_label dc))) (dc_protocol dc) (of_nat (length (dc_protocol dc))))
        (\<lambda>buf. Inr (if flow \<noteq> FLOW_OK then dc\<lparr>dc_state := CONNECTING\<rparr>
             else dc\<lparr>dc_state := CONNECTING, dc_ctrl_sent := dc_ctrl_sent dc + of_nat (length buf)\<rparr>,
             [Pushed (control_message buf)])))"
    using False unfolding kms_webrtc_data_channel_bin_request_open_def Let_def ok_def rel_def
    by (simp del: insert_iff cong: if_cong)
  have "dc' = dc\<lparr>dc_state := CONNECTING\<rparr> \<or>
      (\<exists>n. dc' = dc\<lparr>dc_state := CONNECTING, dc_ctrl_sent := n\<rparr>)"
  proof (cases ok)
    case True
    then show ?thesis using assms eq by simp
  next
    case no: False
    obtain buf where "Inr (if flow \<noteq> FLOW_OK then dc\<lparr>dc_state := CONNECTING\<rparr>
             else dc\<lparr>dc_state := CONNECTING, dc_ctrl_sent := dc_ctrl_sent dc + of_nat (length buf)\<rparr>,
             [Pushed (control_message buf)]) = (Inr (dc', out) :: c_fault + _)"
      using assms no unfolding eq if_not_P [OF no] bind_result_Inr_iff by metis
    then show ?thesis by (cases "flow = FLOW_OK") (simp_all, metis)
  qed
  then have "\<exists>n. dc' = dc\<lparr>dc_state := CONNECTING, dc_ctrl_sent := n\<rparr>"
  proof (elim disjE)
    assume "dc' = dc\<lparr>dc_state := CONNECTING\<rparr>"
    then show ?thesis by (intro exI [of _ "dc_ctrl_sent dc"]) simp
  qed
  then show ?thesis using False by simp
qed

lemma request_open_cases:
  assumes "kms_webrtc_data_channel_bin_request_open flow dc = Inr (dc', out)"
  shows "dc' = dc \<or> dc_state dc = CLOSED \<and> dc_state dc' = CONNECTING \<and> dc_negotiated dc' = dc_negotiated dc \<and>
    \<not> dc_negotiated dc"
  using request_open_shape [OF assms] by auto

lemma request_open_moves:
  assumes "kms_webrtc_data_channel_bin_request_open flow dc = Inr (dc', out)"
  shows "dc_move (Ev_open flow) (dc_state dc) (dc_state dc')"
  using request_open_cases [OF assms] by (auto intro: dc_move.intros)

lemma request_close_moves:
  "dc_move Ev_close (dc_state dc) (dc_state (fst (kms_webrtc_data_channel_bin_request_close dc)))"
  by (auto simp: kms_webrtc_data_channel_bin_request_close_def not_le intro: dc_move.intros)

lemma control_moves:
  assumes "ucast m = PPID_CONTROL"
  shows "dc_move (Ev_data ack cb (Readable (Some m) data)) (dc_state dc)
    (dc_state (fst (kms_webrtc_data_channel_bin_handle_control_message ack data dc)))"
proof (cases "(of_nat (length data) :: u32) \<noteq> 0 \<and> data ! 0 = MESSAGE_TYPE_ACK")
  case True
  then show ?thesis
    using assms
    by (auto simp: kms_webrtc_data_channel_bin_handle_control_message_def MESSAGE_TYPE_ACK_def
        MESSAGE_TYPE_OPEN_REQUEST_def kms_webrtc_data_channel_bin_handle_ack_def intro!: dc_move.acked)
next
  case False
  then have no: "\<not> is_ack (Readable (Some m) data)" by simp
  have drop: "dc_move (Ev_data ack cb (Readable (Some m) data)) (dc_state dc) CLOSING"
    using no by (intro dc_move.dropped) simp_all
  show ?thesis
  proof (cases "is_request (Readable (Some m) data)")
    case True
    then obtain r where r: "parse_open_request data = Some r" by auto
    show ?thesis
    proof (cases "dc_state dc = CLOSED \<and> ack = FLOW_OK")
      case t: True
      then show ?thesis
        using True r
        by (auto simp: kms_webrtc_data_channel_bin_handle_control_message_def
            kms_webrtc_data_channel_bin_handle_open_request_def
            kms_webrtc_data_channel_bin_send_data_channel_ack_def intro: dc_move.accepted)
    next
      case f: False
      then show ?thesis
        using True r drop
        by (auto simp: kms_webrtc_data_channel_bin_handle_control_message_def
            kms_webrtc_data_channel_bin_handle_open_request_def data_channel_reset_def
            kms_webrtc_data_channel_bin_send_data_channel_ack_def intro: dc_move.stay)
    qed
  next
    case f: False
    then show ?thesis
      using False assms drop
      by (auto simp: kms_webrtc_data_channel_bin_handle_control_message_def
          kms_webrtc_data_channel_bin_handle_open_request_def data_channel_reset_def)
  qed
qed

lemma data_moves:
  assumes "new_data_callback ack cb sample dc = (dc', out, flow)"
  shows "dc_move (Ev_data ack cb sample) (dc_state dc) (dc_state dc')"
proof (cases sample)
  case (Readable meta data)
  show ?thesis
  proof (cases "\<exists>m. meta = Some m \<and> ucast m = PPID_CONTROL")
    case True
    then obtain m where m: "meta = Some m" "ucast m = PPID_CONTROL" by blast
    then have "dc' = fst (kms_webrtc_data_channel_bin_handle_control_message ack data dc)"
      using assms Readable by (simp add: new_data_callback_def case_prod_unfold)
    then show ?thesis using control_moves [OF m(2)] Readable m(1) by simp
  next
    case False
    then have "\<not> is_ack sample" using Readable by (cases meta) auto
    then have drop: "dc_move (Ev_data ack cb sample) (dc_state dc) CLOSING"
      using Readable by (intro dc_move.dropped) simp_all
    have "dc_state dc' = dc_state dc \<or> dc_state dc' = CLOSING"
      using assms Readable False
      by (cases meta) (auto simp: new_data_callback_def Let_def data_channel_reset_def ppids
          split: if_splits)
    then show ?thesis using drop by (auto intro: dc_move.stay)
  qed
qed (use assms in \<open>auto simp: new_data_callback_def intro: dc_move.stay\<close>)

lemma push_state:
  "dc_state (fst (kms_webrtc_data_channel_bin_push_buffer flow contents meta bin dc)) = dc_state dc"
  by (simp add: kms_webrtc_data_channel_bin_push_buffer_def Let_def split: option.split prod.split)



section \<open>The life of a channel\<close>

text \<open>One event; what it puts out is appended to the log. A fault would stop the process.\<close>

definition life_step :: "'d data_channel \<times> 'd dc_out list \<Rightarrow> dc_event \<Rightarrow> 'd data_channel \<times> 'd dc_out list" where
  "life_step s e = (case dc_exec (fst s) e of Inl _ \<Rightarrow> s | Inr (dc, out) \<Rightarrow> (dc, snd s @ out))"

text \<open>Open exactly after the signal, and never negotiated before.\<close>

definition life_inv :: "'d data_channel \<times> 'd dc_out list \<Rightarrow> bool" where
  "life_inv s \<longleftrightarrow> (case s of (dc, outs) \<Rightarrow>
     (dc_negotiated dc \<longleftrightarrow> Negotiated \<in> set outs) \<and>
     (dc_state dc = OPEN \<longrightarrow> dc_negotiated dc) \<and>
     (dc_state dc \<in> {CLOSED, CONNECTING} \<longrightarrow> \<not> dc_negotiated dc))"

lemma request_open_signals:
  assumes "kms_webrtc_data_channel_bin_request_open flow dc = Inr (dc', out)"
  shows "Negotiated \<notin> set out"
proof (cases "dc_negotiated dc \<or> dc_state dc \<noteq> CLOSED")
  case True
  then show ?thesis using assms unfolding kms_webrtc_data_channel_bin_request_open_def by simp
next
  case False
  then have "out = [] \<or> (\<exists>m. out = [Pushed m])"
    using assms unfolding kms_webrtc_data_channel_bin_request_open_def Let_def
    by (auto simp: bind_result_Inr_iff simp del: insert_iff cong: if_cong split: if_split_asm)
  then show ?thesis by auto
qed

lemma reset_signals:
  "Negotiated \<notin> set (snd (data_channel_reset dc))"
  "dc_negotiated (fst (data_channel_reset dc)) = dc_negotiated dc"
  "dc_state (fst (data_channel_reset dc)) = CLOSING"
  by (simp_all add: data_channel_reset_def)

lemma reset_inv:
  "life_inv (dc, outs) \<Longrightarrow> life_inv (fst (data_channel_reset dc), outs @ snd (data_channel_reset dc))"
  using reset_signals [of dc] by (simp add: life_inv_def)

lemma ack_inv:
  "life_inv (fst (kms_webrtc_data_channel_bin_handle_ack dc),
     outs @ snd (kms_webrtc_data_channel_bin_handle_ack dc))"
  by (simp add: life_inv_def kms_webrtc_data_channel_bin_handle_ack_def)

lemma send_ack_inv:
  assumes "Negotiated \<notin> set outs" and "\<not> dc_negotiated dc"
  shows "life_inv (fst (kms_webrtc_data_channel_bin_send_data_channel_ack flow dc),
     outs @ snd (kms_webrtc_data_channel_bin_send_data_channel_ack flow dc))"
  using assms reset_signals [of dc]
  by (simp add: life_inv_def kms_webrtc_data_channel_bin_send_data_channel_ack_def case_prod_unfold)

lemma open_request_inv:
  assumes "life_inv (dc, outs)"
  shows "life_inv (fst (kms_webrtc_data_channel_bin_handle_open_request flow data dc),
     outs @ snd (kms_webrtc_data_channel_bin_handle_open_request flow data dc))"
proof (cases "parse_open_request data")
  case None
  then show ?thesis
    using reset_inv [OF assms] by (simp add: kms_webrtc_data_channel_bin_handle_open_request_def)
next
  case (Some r)
  show ?thesis
  proof (cases "dc_state dc = CLOSED")
    case True
    have "\<not> dc_negotiated (accept_request r dc)" by (simp add: accept_request_def)
    moreover have "Negotiated \<notin> set outs" using assms True by (auto simp: life_inv_def)
    ultimately show ?thesis
      using Some True send_ack_inv by (simp add: kms_webrtc_data_channel_bin_handle_open_request_def)
  next
    case False
    then show ?thesis
      using Some assms by (simp add: kms_webrtc_data_channel_bin_handle_open_request_def)
  qed
qed

lemma control_inv:
  assumes "life_inv (dc, outs)"
  shows "life_inv (fst (kms_webrtc_data_channel_bin_handle_control_message flow data dc),
     outs @ snd (kms_webrtc_data_channel_bin_handle_control_message flow data dc))"
  using reset_inv [OF assms] ack_inv [of dc outs] open_request_inv [OF assms]
  by (simp only: kms_webrtc_data_channel_bin_handle_control_message_def split: if_split) simp

lemma data_signals:
  assumes "new_data_callback ack cb sample dc = (dc', out, flow)" and "life_inv (dc, outs)"
  shows "life_inv (dc', outs @ out)"
proof -
  show ?thesis
  proof (cases sample)
    case (Readable meta data)
    show ?thesis
    proof (cases "(case meta of None \<Rightarrow> 0 | Some p \<Rightarrow> ucast p) = PPID_CONTROL")
      case True
      then show ?thesis
        using assms(1) Readable control_inv [OF assms(2), of ack data]
        by (simp add: new_data_callback_def case_prod_unfold)
    next
      case False
      then have "(dc_state dc' = dc_state dc \<and> dc_negotiated dc' = dc_negotiated dc \<and> Negotiated \<notin> set out) \<or>
          (dc', out) = data_channel_reset dc"
        using assms(1) Readable
        by (simp add: new_data_callback_def Let_def case_prod_unfold del: insert_iff cong: if_cong
            split: if_split_asm) auto
      then show ?thesis
      proof (elim disjE)
        assume "(dc', out) = data_channel_reset dc"
        then show ?thesis using reset_inv [OF assms(2)] by (metis fst_conv snd_conv)
      qed (use assms(2) in \<open>auto simp: life_inv_def\<close>)
    qed
  qed (use assms in \<open>auto simp: new_data_callback_def\<close>)
qed

lemma push_signals:
  assumes "kms_webrtc_data_channel_bin_push_buffer flow contents meta bin dc = (dc', out, r)"
  shows "Negotiated \<notin> set out \<and> dc_state dc' = dc_state dc \<and> dc_negotiated dc' = dc_negotiated dc"
  using assms
  by (auto simp: kms_webrtc_data_channel_bin_push_buffer_def Let_def split: option.split_asm if_split_asm)

lemma life_step_inv: "life_inv s \<Longrightarrow> life_inv (life_step s e)"
proof -
  assume inv: "life_inv s"
  obtain dc outs where s: "s = (dc, outs)" by (cases s)
  show "life_inv (life_step s e)"
  proof (cases e)
    case (Ev_open flow)
    show ?thesis
    proof (cases "kms_webrtc_data_channel_bin_request_open flow dc")
      case (Inl f)
      then show ?thesis using inv s Ev_open by (simp add: life_step_def)
    next
      case (Inr r)
      obtain dc' out where "r = (dc', out)" by (cases r)
      with Inr have req: "kms_webrtc_data_channel_bin_request_open flow dc = Inr (dc', out)" by simp
      then have "life_step s e = (dc', outs @ out)" using s Ev_open by (simp add: life_step_def)
      then show ?thesis
        using inv s request_open_cases [OF req] request_open_signals [OF req]
        by (elim disjE conjE) (auto simp: life_inv_def)
    qed
  next
    case Ev_close
    then show ?thesis
      using inv s
      by (auto simp: life_step_def life_inv_def kms_webrtc_data_channel_bin_request_close_def not_le less_dc_state_def)
  next
    case (Ev_data ack cb sample)
    obtain dc' out flow where "new_data_callback ack cb sample dc = (dc', out, flow)"
      by (metis prod_cases3)
    then show ?thesis
      using inv s Ev_data data_signals by (fastforce simp: life_step_def)
  next
    case (Ev_push flow contents meta bin)
    obtain dc' out r where "kms_webrtc_data_channel_bin_push_buffer flow contents meta bin dc = (dc', out, r)"
      by (metis prod_cases3)
    then show ?thesis
      using inv s Ev_push push_signals by (fastforce simp: life_step_def life_inv_def)
  qed
qed

interpretation dc_life: invariant_machine life_step "\<lambda>_ _. True" life_inv
  by unfold_locales (rule life_step_inv)

text \<open>
  Whatever happens to a channel over its life, the "negotiated" signal has been given
  exactly when the channel is negotiated, an open channel is negotiated, and a channel that is
  still closed or connecting is not.
\<close>

theorem data_channel_life:
  "case foldl life_step (fst (kms_webrtc_data_channel_bin_new ch_id ordered life retr label protocol), []) es of
     (dc, outs) \<Rightarrow> (dc_negotiated dc \<longleftrightarrow> Negotiated \<in> set outs) \<and>
       (dc_state dc = OPEN \<longrightarrow> dc_negotiated dc) \<and>
       (dc_state dc \<in> {CLOSED, CONNECTING} \<longrightarrow> \<not> dc_negotiated dc)"
proof -
  have "life_inv (fst (kms_webrtc_data_channel_bin_new ch_id ordered life retr label protocol), [])"
    by (simp add: life_inv_def Let_def kms_webrtc_data_channel_bin_new_def kms_webrtc_data_channel_bin_set_property_def
        kms_webrtc_data_channel_bin_set_priority_def kms_webrtc_data_channel_bin_set_protocol_def
        kms_webrtc_data_channel_bin_set_label_def kms_webrtc_data_channel_bin_init_def)
  then have "life_inv (foldl life_step
      (fst (kms_webrtc_data_channel_bin_new ch_id ordered life retr label protocol), []) es)"
    by (rule dc_life.run_keeps) (simp add: allowed_run_always)
  then show ?thesis by (simp add: life_inv_def)
qed

theorem data_channel_life_witness:
  "case foldl life_step (fst (kms_webrtc_data_channel_bin_new 1 True (- 1) (- 1) None None :: nat data_channel \<times> _), [])
      [Ev_open FLOW_OK, Ev_close] of
     (dc, outs) \<Rightarrow> (dc_negotiated dc \<longleftrightarrow> Negotiated \<in> set outs) \<and>
       (dc_state dc = OPEN \<longrightarrow> dc_negotiated dc) \<and>
       (dc_state dc \<in> {CLOSED, CONNECTING} \<longrightarrow> \<not> dc_negotiated dc)"
  by (rule data_channel_life)

text \<open>
  An acknowledgement opens a channel in every state, also one that was never asked for and one
  that is closing.
\<close>

lemma stray_ack_opens:
  "kms_webrtc_data_channel_bin_handle_control_message flow [MESSAGE_TYPE_ACK] dc =
     (dc\<lparr>dc_negotiated := True, dc_state := OPEN\<rparr>, [Negotiated])"
  by (simp add: kms_webrtc_data_channel_bin_handle_control_message_def MESSAGE_TYPE_ACK_def
      MESSAGE_TYPE_OPEN_REQUEST_def kms_webrtc_data_channel_bin_handle_ack_def)

text \<open>
  With both limits given the channel type is none of the protocol's: the channel is left
  connecting, nothing is sent, and asking again does nothing.
\<close>

lemma both_limits_stuck:
  assumes "dc_life_time dc \<noteq> - 1" and "dc_retransmits dc \<noteq> - 1"
    and "dc_state dc = CLOSED" and "\<not> dc_negotiated dc"
  shows "kms_webrtc_data_channel_bin_request_open flow dc = Inr (dc\<lparr>dc_state := CONNECTING\<rparr>, [])"
  using assms
  by (simp add: kms_webrtc_data_channel_bin_request_open_def Let_def channel_type_of_def channel_types)

section \<open>Messages\<close>

text \<open>The kind of a message: its bytes and whether they are binary.\<close>

definition ppid_of :: "bool \<Rightarrow> u8 list \<Rightarrow> u16" where
  "ppid_of is_binary data =
     (if is_binary then (if data = [] then PPID_BINARY_EMPTY else PPID_BINARY)
      else (if data = [] then PPID_STRING_EMPTY else PPID_STRING))"

text \<open>
  A message sent on an open channel goes out as one SCTP message whose number tells its
  kind, a lone zero byte standing for no bytes; when it arrives at the peer, its callback gets
  those bytes, and both sides count the same bytes and one message.
\<close>

theorem data_channel_delivers:
  assumes "dc_state a = OPEN" and "dc_cb b"
  shows "\<exists>a1 m b1. kms_webrtc_data_channel_bin_push_buffer FLOW_OK (Some data) None is_binary a =
      (a1, [Pushed m], FLOW_OK) \<and>
    new_data_callback FLOW_OK cb (Readable (Some (ucast (sm_ppid m))) (sm_data m)) b =
      (b1, [New_buffer (dc_user_data b) (Some (ucast (ppid_of is_binary data)))
              (if data = [] then [0] else data)], cb) \<and>
    sm_ordered m = dc_ordered a \<and>
    dc_bytes_sent a1 - dc_bytes_sent a = of_nat (length data) \<and>
    dc_bytes_recv b1 - dc_bytes_recv b = of_nat (length data) \<and>
    dc_messages_sent a1 - dc_messages_sent a = 1 \<and>
    dc_messages_recv b1 - dc_messages_recv b = 1 \<and>
    dc_state a1 = OPEN \<and> dc_state b1 = dc_state b"
  using assms
  by (simp add: kms_webrtc_data_channel_bin_push_buffer_def new_data_callback_def Let_def ppid_of_def ppids)

theorem data_channel_delivers_witness:
  "\<exists>a1 m b1. kms_webrtc_data_channel_bin_push_buffer FLOW_OK (Some [104, 105]) None False
        (chat_channel\<lparr>dc_state := OPEN\<rparr>) = (a1, [Pushed m], FLOW_OK) \<and>
    new_data_callback FLOW_OK FLOW_OK (Readable (Some (ucast (sm_ppid m))) (sm_data m))
        (chat_channel\<lparr>dc_cb := True\<rparr>) =
      (b1, [New_buffer (dc_user_data (chat_channel\<lparr>dc_cb := True\<rparr>)) (Some (ucast (ppid_of False [104, 105])))
              (if [104, 105 :: u8] = [] then [0] else [104, 105])], FLOW_OK) \<and>
    sm_ordered m = dc_ordered (chat_channel\<lparr>dc_state := OPEN\<rparr>) \<and>
    dc_bytes_sent a1 - dc_bytes_sent (chat_channel\<lparr>dc_state := OPEN\<rparr>) = of_nat (length [104, 105 :: u8]) \<and>
    dc_bytes_recv b1 - dc_bytes_recv (chat_channel\<lparr>dc_cb := True\<rparr>) = of_nat (length [104, 105 :: u8]) \<and>
    dc_messages_sent a1 - dc_messages_sent (chat_channel\<lparr>dc_state := OPEN\<rparr>) = 1 \<and>
    dc_messages_recv b1 - dc_messages_recv (chat_channel\<lparr>dc_cb := True\<rparr>) = 1 \<and>
    dc_state a1 = OPEN \<and> dc_state b1 = dc_state (chat_channel\<lparr>dc_cb := True\<rparr>)"
  by (rule data_channel_delivers) simp_all

text \<open>
  passing a received message on to another open channel, as an endpoint that echoes does:
  text, binary messages and empty binary ones go out as they came in; an empty text is refused.
\<close>

theorem data_channel_forwards:
  fixes data :: "u8 list"
  assumes "dc_state c = OPEN"
  defines "received \<equiv> (if data = [] then [0] else data)"
  shows "case kms_webrtc_data_channel_bin_push_buffer FLOW_OK (Some received)
      (Some (ucast (ppid_of is_binary data))) as_binary c of (c1, out, flow) \<Rightarrow>
    (if \<not> is_binary \<and> data = [] then c1 = c \<and> out = [] \<and> flow = FLOW_ERROR
     else flow = FLOW_OK \<and> (\<exists>m. out = [Pushed m] \<and> sm_ppid m = ppid_of is_binary data \<and> sm_data m = received))"
  using assms
  by (simp add: kms_webrtc_data_channel_bin_push_buffer_def kms_webrtc_data_channel_bin_get_ppid_from_meta_def
      Let_def ppid_of_def ppids)

theorem data_channel_forwards_witness:
  "case kms_webrtc_data_channel_bin_push_buffer FLOW_OK (Some (if [] = ([] :: u8 list) then [0] else []))
      (Some (ucast (ppid_of False []))) True (chat_channel\<lparr>dc_state := OPEN\<rparr>) of (c1, out, flow) \<Rightarrow>
    (if \<not> False \<and> [] = ([] :: u8 list) then c1 = chat_channel\<lparr>dc_state := OPEN\<rparr> \<and> out = [] \<and> flow = FLOW_ERROR
     else flow = FLOW_OK \<and> (\<exists>m. out = [Pushed m] \<and> sm_ppid m = ppid_of False [] \<and>
       sm_data m = (if [] = ([] :: u8 list) then [0] else [])))"
  by (rule data_channel_forwards) simp

end
