(* ===== verification/DataSession.thy ===== *)
theory DataSession
  imports DataChannel
begin

text \<open>
  The data session of a WebRTC endpoint (\<open>kmswebrtcdatasessionbin.c\<close>) and the objects it hands
  to the application (\<open>kmswebrtcdatachannel.c\<close>). Channels are shared between the list of pending
  channels, the table by stream and the bin, so the session holds a heap of them and everything
  else refers to it; the same for the objects of the application. Whether pads could be
  requested and linked and how pushes and callbacks end is decided outside: these are arguments.
\<close>

section \<open>State\<close>

text \<open>What callbacks are registered with: the session, or an object of the application.\<close>

datatype ds_ref = The_session | App_object nat

type_synonym channel = "ds_ref data_channel"

record app_channel =
  ac_bin :: nat
  ac_cb :: bool
  ac_user_data :: "nat option"
  ac_notify :: bool

record data_session =
  ds_assoc_id :: u16
  ds_dtls_client :: bool
  ds_established :: bool
  ds_local_port :: u16
  ds_remote_port :: u16
  ds_data_channels :: "(u32, nat) hash_table"
  ds_channels :: "(u32, nat) hash_table"
  ds_even_id :: u32
  ds_odd_id :: u32
  ds_pending :: "nat list"
  ds_pool :: "nat list"
  ds_opened :: u32
  ds_closed :: u32
  ds_children :: "nat list"
  ds_heap :: "channel list"
  ds_objects :: "app_channel list"

datatype ds_out =
    Channel_opened u32
  | Channel_closed u32
  | Session_established bool
  | Stream_reset u32
  | Sent u16 sctp_message
  | App_buffer nat "nat option" "u32 option" "u8 list"
  | App_destroyed "nat option"

definition get_sctp_association_id :: "u32 \<Rightarrow> u32 \<times> u32" where
  "get_sctp_association_id next_id = (next_id, next_id + 1)"

definition kms_webrtc_data_session_bin_new :: "u32 \<Rightarrow> bool \<Rightarrow> data_session" where
  "kms_webrtc_data_session_bin_new assoc_id dtls_client_mode =
     \<lparr>ds_assoc_id = ucast assoc_id, ds_dtls_client = dtls_client_mode, ds_established = False,
      ds_local_port = 0, ds_remote_port = 0, ds_data_channels = [], ds_channels = [],
      ds_even_id = 0, ds_odd_id = 1, ds_pending = [], ds_pool = [], ds_opened = 0, ds_closed = 0,
      ds_children = [], ds_heap = [], ds_objects = []\<rparr>"

datatype ds_setting = Set_client_mode bool | Set_local_port u32 | Set_remote_port u32 | Set_ds_unknown

fun kms_webrtc_data_session_bin_set_property :: "ds_setting \<Rightarrow> data_session \<Rightarrow> data_session" where
  "kms_webrtc_data_session_bin_set_property (Set_client_mode b) s = s\<lparr>ds_dtls_client := b\<rparr>"
| "kms_webrtc_data_session_bin_set_property (Set_local_port p) s = s\<lparr>ds_local_port := ucast p\<rparr>"
| "kms_webrtc_data_session_bin_set_property (Set_remote_port p) s = s\<lparr>ds_remote_port := ucast p\<rparr>"
| "kms_webrtc_data_session_bin_set_property Set_ds_unknown s = s"

datatype ds_property = Get_client_mode | Get_local_port | Get_remote_port | Get_ds_unknown

fun kms_webrtc_data_session_bin_get_property :: "ds_property \<Rightarrow> data_session \<Rightarrow> dc_value" where
  "kms_webrtc_data_session_bin_get_property Get_client_mode s = V_bool (ds_dtls_client s)"
| "kms_webrtc_data_session_bin_get_property Get_local_port s = V_uint (ucast (ds_local_port s))"
| "kms_webrtc_data_session_bin_get_property Get_remote_port s = V_uint (ucast (ds_remote_port s))"
| "kms_webrtc_data_session_bin_get_property Get_ds_unknown s = V_unset"

definition chan :: "data_session \<Rightarrow> nat \<Rightarrow> channel" where
  "chan s r = ds_heap s ! r"

definition stream_of :: "data_session \<Rightarrow> nat \<Rightarrow> u32" where
  "stream_of s r = ucast (dc_id (chan s r))"

section \<open>The objects of the application\<close>

definition kms_webrtc_data_channel_new :: "nat \<Rightarrow> data_session \<Rightarrow> data_session \<times> nat" where
  "kms_webrtc_data_channel_new r s =
     (let w = length (ds_objects s);
          dc = fst (kms_webrtc_data_channel_bin_set_new_buffer_callback True (Some (App_object w)) False (chan s r))
      in (s\<lparr>ds_objects := ds_objects s @ [\<lparr>ac_bin = r, ac_cb = False, ac_user_data = None, ac_notify = False\<rparr>],
            ds_heap := (ds_heap s)[r := dc]\<rparr>, w))"

definition kms_webrtc_data_channel_set_new_buffer_callback ::
    "bool \<Rightarrow> nat option \<Rightarrow> bool \<Rightarrow> nat \<Rightarrow> data_session \<Rightarrow> data_session \<times> ds_out list" where
  "kms_webrtc_data_channel_set_new_buffer_callback cb data notify w s =
     (let a = ds_objects s ! w
      in (s\<lparr>ds_objects := (ds_objects s)[w := a\<lparr>ac_notify := notify, ac_user_data := data, ac_cb := cb\<rparr>]\<rparr>,
          if ac_notify a then [App_destroyed (ac_user_data a)] else []))"

text \<open>The callback the channel calls: the result and what the application is given.\<close>

definition kms_webrtc_data_channel_new_buffer ::
    "gst_flow \<Rightarrow> u32 option \<Rightarrow> u8 list \<Rightarrow> nat \<Rightarrow> data_session \<Rightarrow> gst_flow \<times> ds_out list" where
  "kms_webrtc_data_channel_new_buffer user_flow meta data w s =
     (let a = ds_objects s ! w
      in if ac_cb a then (user_flow, [App_buffer w (ac_user_data a) meta data]) else (FLOW_OK, []))"

definition kms_webrtc_data_channel_finalize :: "nat \<Rightarrow> data_session \<Rightarrow> ds_out list" where
  "kms_webrtc_data_channel_finalize w s =
     (let a = ds_objects s ! w in if ac_notify a then [App_destroyed (ac_user_data a)] else [])"

section \<open>What a channel tells its session\<close>

definition data_channel_negotiated_cb :: "nat \<Rightarrow> data_session \<Rightarrow> data_session \<times> ds_out list" where
  "data_channel_negotiated_cb r s =
     (let sctp_stream_id = stream_of s r;
          s1 = (case map_of (ds_channels s) sctp_stream_id of
              Some _ \<Rightarrow> s
            | None \<Rightarrow>
                (case kms_webrtc_data_channel_new r s of (s', w) \<Rightarrow>
                   s'\<lparr>ds_channels := AList.update sctp_stream_id w (ds_channels s')\<rparr>))
      in (s1\<lparr>ds_opened := ds_opened s1 + 1\<rparr>, [Channel_opened sctp_stream_id]))"

definition kms_webrtc_data_session_bin_reset_channel :: "nat \<Rightarrow> data_session \<Rightarrow> data_session" where
  "kms_webrtc_data_session_bin_reset_channel r s = s\<lparr>ds_pool := ds_pool s @ [r]\<rparr>"

text \<open>A thread of the pool takes the next channel.\<close>

fun reset_stream_async :: "data_session \<Rightarrow> data_session \<times> ds_out list" where
  "reset_stream_async s =
     (case ds_pool s of
        [] \<Rightarrow> (s, [])
      | r # rs \<Rightarrow> (s\<lparr>ds_pool := rs\<rparr>, [Stream_reset (stream_of s r)]))"

text \<open>What the outputs of channel \<open>r\<close> do to the session, in the order they are made.\<close>

fun react :: "nat \<Rightarrow> gst_flow \<Rightarrow> ds_ref dc_out list \<Rightarrow> data_session \<Rightarrow> data_session \<times> ds_out list" where
  "react r user_flow [] s = (s, [])"
| "react r user_flow (x # xs) s =
     (let (s1, o1) = (case x of
            Pushed m \<Rightarrow> (s, [Sent (dc_id (chan s r)) m])
          | Reset_stream _ \<Rightarrow> (kms_webrtc_data_session_bin_reset_channel r s, [])
          | Negotiated \<Rightarrow> data_channel_negotiated_cb r s
          | New_buffer (Some (App_object w)) meta data \<Rightarrow>
              (s, snd (kms_webrtc_data_channel_new_buffer user_flow meta data w s))
          | New_buffer _ meta data \<Rightarrow> (s, [])
          | Destroyed _ \<Rightarrow> (s, []));
          (s2, o2) = react r user_flow xs s1
      in (s2, o1 @ o2))"

section \<open>Operations\<close>

definition kms_webrtc_data_session_bin_get_data_channel_action :: "u32 \<Rightarrow> data_session \<Rightarrow> nat option" where
  "kms_webrtc_data_session_bin_get_data_channel_action stream_id s = map_of (ds_channels s) stream_id"

definition kms_webrtc_data_session_bin_destroy_data_channel_action ::
    "u32 \<Rightarrow> data_session \<Rightarrow> data_session \<times> ds_out list" where
  "kms_webrtc_data_session_bin_destroy_data_channel_action stream_id s =
     (case map_of (ds_data_channels s) stream_id of
        None \<Rightarrow> (s, [])
      | Some r \<Rightarrow>
          (case kms_webrtc_data_channel_bin_request_close (chan s r) of
             (dc, out) \<Rightarrow> react r FLOW_OK out (s\<lparr>ds_heap := (ds_heap s)[r := dc]\<rparr>)))"

definition kms_webrtc_data_session_bin_is_valid_sctp_stream_id :: "u16 \<Rightarrow> data_session \<Rightarrow> bool" where
  "kms_webrtc_data_session_bin_is_valid_sctp_stream_id i s =
     (if i = 65535 \<or> (i AND 1 = 0 \<and> ds_dtls_client s) \<or> (i AND 1 \<noteq> 0 \<and> \<not> ds_dtls_client s)
      then False else True)"

definition kms_webrtc_data_session_bin_link_data_channel_src :: "bool \<Rightarrow> nat \<Rightarrow> data_session \<Rightarrow> bool" where
  "kms_webrtc_data_session_bin_link_data_channel_src linked r s =
     (case kms_webrtc_data_channel_bin_create_caps (chan s r) of
        None \<Rightarrow> False
      | Some caps \<Rightarrow> linked)"

definition kms_webrtc_data_session_bin_create_data_channel ::
    "bool \<Rightarrow> u32 \<Rightarrow> u32 \<Rightarrow> u32 \<Rightarrow> u8 list option \<Rightarrow> u8 list option \<Rightarrow> data_session \<Rightarrow>
     data_session \<times> nat" where
  "kms_webrtc_data_session_bin_create_data_channel ordered sctp_stream_id life_time retransmits label protocol s =
     (let dc = fst (kms_webrtc_data_channel_bin_new sctp_stream_id ordered life_time retransmits label protocol);
          dc1 = fst (kms_webrtc_data_channel_bin_set_reset_stream_callback True (Some The_session) False dc)
      in (s\<lparr>ds_heap := ds_heap s @ [dc1]\<rparr>, length (ds_heap s)))"

definition kms_webrtc_data_session_bin_create_remote_data_channel ::
    "u32 \<Rightarrow> data_session \<Rightarrow> data_session \<times> nat option" where
  "kms_webrtc_data_session_bin_create_remote_data_channel sctp_stream_id s =
     (if \<not> kms_webrtc_data_session_bin_is_valid_sctp_stream_id (ucast sctp_stream_id) s then (s, None)
      else case kms_webrtc_data_session_bin_create_data_channel True sctp_stream_id (- 1) (- 1) None None s of
        (s1, r) \<Rightarrow>
          (s1\<lparr>ds_data_channels := AList.update sctp_stream_id r (ds_data_channels s1)\<rparr>, Some r))"

text \<open>Linking changes nothing in the session: adding a remote channel makes it a child.\<close>

definition kms_webrtc_data_session_bin_add_remote_data_channel :: "nat \<Rightarrow> data_session \<Rightarrow> data_session" where
  "kms_webrtc_data_session_bin_add_remote_data_channel r s = s\<lparr>ds_children := r # ds_children s\<rparr>"

definition kms_webrtc_data_session_bin_pad_added :: "u32 \<Rightarrow> data_session \<Rightarrow> data_session" where
  "kms_webrtc_data_session_bin_pad_added sctp_stream_id s =
     (case map_of (ds_data_channels s) sctp_stream_id of
        Some r \<Rightarrow> s
      | None \<Rightarrow>
          (case kms_webrtc_data_session_bin_create_remote_data_channel sctp_stream_id s of
             (s1, None) \<Rightarrow> s1
           | (s1, Some r) \<Rightarrow> kms_webrtc_data_session_bin_add_remote_data_channel r s1))"

definition kms_webrtc_data_session_bin_pad_removed ::
    "u32 \<Rightarrow> data_session \<Rightarrow> data_session \<times> ds_out list" where
  "kms_webrtc_data_session_bin_pad_removed sctp_stream_id s =
     (let s1 = s\<lparr>ds_data_channels := AList.delete sctp_stream_id (ds_data_channels s),
                 ds_channels := AList.delete sctp_stream_id (ds_channels s)\<rparr>
      in case map_of (ds_data_channels s) sctp_stream_id of
           None \<Rightarrow> (s1, [])
         | Some r \<Rightarrow>
             (s1\<lparr>ds_children := remove1 r (ds_children s1), ds_closed := ds_closed s1 + 1\<rparr>,
              [Channel_closed sctp_stream_id]))"

text \<open>
  The loop that looks for a free stream, with fuel: at most one step per entry of the table and
  one more, so \<open>Suc (length t)\<close> is enough (\<open>pick_loop_enough\<close>).
\<close>

fun pick_loop :: "nat \<Rightarrow> (u32, nat) hash_table \<Rightarrow> u32 \<Rightarrow> u32 option" where
  "pick_loop 0 t i = None"
| "pick_loop (Suc n) t i = (if map_of t i \<noteq> None then pick_loop n t (i + 2) else Some i)"

definition kms_webrtc_data_session_bin_pick_stream_id :: "data_session \<Rightarrow> (data_session \<times> u32) option" where
  "kms_webrtc_data_session_bin_pick_stream_id s =
     (case pick_loop (Suc (length (ds_data_channels s))) (ds_data_channels s)
             (if ds_dtls_client s then ds_even_id s else ds_odd_id s) of
        None \<Rightarrow> None
      | Some i \<Rightarrow>
          Some (if ds_dtls_client s then s\<lparr>ds_even_id := i\<rparr> else s\<lparr>ds_odd_id := i\<rparr>, i))"

text \<open>The signal \<open>request-open\<close> of a channel.\<close>

definition request_open :: "gst_flow \<Rightarrow> nat \<Rightarrow> data_session \<Rightarrow> c_fault + data_session \<times> ds_out list" where
  "request_open flow r s =
     bind_result (kms_webrtc_data_channel_bin_request_open flow (chan s r)) (\<lambda>(dc, out).
       Inr (react r FLOW_OK out (s\<lparr>ds_heap := (ds_heap s)[r := dc]\<rparr>)))"

text \<open>
  \<open>linked\<close>: the encoder gave a pad for the stream and it was linked. \<open>None\<close>: the search for a
  stream does not end.
\<close>

definition kms_webrtc_data_session_bin_create_data_channel_action ::
    "bool \<Rightarrow> gst_flow \<Rightarrow> bool \<Rightarrow> u32 \<Rightarrow> u32 \<Rightarrow> u8 list option \<Rightarrow> u8 list option \<Rightarrow> data_session \<Rightarrow>
     (c_fault + data_session \<times> ds_out list \<times> u32) option" where
  "kms_webrtc_data_session_bin_create_data_channel_action linked flow ordered life_time retransmits label protocol s =
     (case kms_webrtc_data_session_bin_pick_stream_id s of
        None \<Rightarrow> None
      | Some (s1, i) \<Rightarrow>
          (case kms_webrtc_data_session_bin_create_data_channel ordered i life_time retransmits label protocol s1 of
             (s2, r) \<Rightarrow>
               Some (if \<not> ds_established s2 then Inr (s2\<lparr>ds_pending := r # ds_pending s2\<rparr>, [], i)
                 else let s3 = s2\<lparr>ds_children := r # ds_children s2\<rparr>
                 in if \<not> kms_webrtc_data_session_bin_link_data_channel_src linked r s3
                    then Inr (s3\<lparr>ds_children := remove1 r (ds_children s3)\<rparr>, [], - 1)
                    else bind_result
                      (request_open flow r (s3\<lparr>ds_data_channels := AList.update i r (ds_data_channels s3)\<rparr>))
                      (\<lambda>(s4, out). Inr (s4, out, i)))))"

definition create_pending_data_channel_cb ::
    "bool \<Rightarrow> gst_flow \<Rightarrow> nat \<Rightarrow> data_session \<Rightarrow> c_fault + data_session \<times> ds_out list" where
  "create_pending_data_channel_cb linked flow r s =
     (let i = stream_of s r; s1 = s\<lparr>ds_children := r # ds_children s\<rparr>
      in if \<not> kms_webrtc_data_session_bin_link_data_channel_src linked r s1
         then Inr (s1\<lparr>ds_children := remove1 r (ds_children s1)\<rparr>, [])
         else request_open flow r (s1\<lparr>ds_data_channels := AList.update i r (ds_data_channels s1)\<rparr>))"

fun create_pending ::
    "(nat \<Rightarrow> bool) \<Rightarrow> (nat \<Rightarrow> gst_flow) \<Rightarrow> nat list \<Rightarrow> data_session \<Rightarrow> c_fault + data_session \<times> ds_out list" where
  "create_pending linked flow [] s = Inr (s, [])"
| "create_pending linked flow (r # rs) s =
     bind_result (create_pending_data_channel_cb (linked r) (flow r) r s) (\<lambda>(s1, o1).
     bind_result (create_pending linked flow rs s1) (\<lambda>(s2, o2). Inr (s2, o1 @ o2)))"

definition kms_webrtc_data_session_bin_association_established ::
    "bool \<Rightarrow> (nat \<Rightarrow> bool) \<Rightarrow> (nat \<Rightarrow> gst_flow) \<Rightarrow> data_session \<Rightarrow> c_fault + data_session \<times> ds_out list" where
  "kms_webrtc_data_session_bin_association_established conn linked flow s =
     (let s1 = s\<lparr>ds_established := conn\<rparr>
      in bind_result
           (if conn
            then bind_result (create_pending linked flow (ds_pending s1) s1) (\<lambda>(s2, out).
                   Inr (s2\<lparr>ds_pending := []\<rparr>, out))
            else Inr (s1, []))
           (\<lambda>(s3, out). Inr (s3, out @ [Session_established conn])))"

text \<open>A sample arrives at channel \<open>r\<close>.\<close>

definition channel_data ::
    "gst_flow \<Rightarrow> gst_flow \<Rightarrow> dc_sample \<Rightarrow> nat \<Rightarrow> data_session \<Rightarrow> data_session \<times> ds_out list \<times> gst_flow" where
  "channel_data ack_flow user_flow sample r s =
     (let cb_flow = (case dc_user_data (chan s r) of
            Some (App_object w) \<Rightarrow> if ac_cb (ds_objects s ! w) then user_flow else FLOW_OK
          | _ \<Rightarrow> FLOW_OK)
      in case new_data_callback ack_flow cb_flow sample (chan s r) of
        (dc, out, flow) \<Rightarrow>
          (case react r user_flow out (s\<lparr>ds_heap := (ds_heap s)[r := dc]\<rparr>) of
             (s1, o1) \<Rightarrow> (s1, o1, flow)))"

text \<open>The application sends on one of its objects; without one there is an error.\<close>

definition kms_webrtc_data_channel_push_buffer ::
    "gst_flow \<Rightarrow> u8 list option \<Rightarrow> u32 option \<Rightarrow> bool \<Rightarrow> nat option \<Rightarrow> data_session \<Rightarrow>
     data_session \<times> ds_out list \<times> gst_flow" where
  "kms_webrtc_data_channel_push_buffer flow contents meta is_binary w s =
     (case w of
        None \<Rightarrow> (s, [], FLOW_ERROR)
      | Some w \<Rightarrow>
          (let r = ac_bin (ds_objects s ! w)
           in case kms_webrtc_data_channel_bin_push_buffer flow contents meta is_binary (chan s r) of
             (dc, out, ret) \<Rightarrow>
               (case react r FLOW_OK out (s\<lparr>ds_heap := (ds_heap s)[r := dc]\<rparr>) of
                  (s1, o1) \<Rightarrow> (s1, o1, ret))))"

section \<open>Statistics\<close>

record channel_stats =
  cs_uuid :: string
  cs_id :: u32
  cs_label :: "u8 list"
  cs_protocol :: "u8 list"
  cs_state :: dc_state
  cs_bytes_sent :: u64
  cs_bytes_recv :: u64
  cs_messages_sent :: u64
  cs_messages_recv :: u64

text \<open>The entry is named \<open>data-channel-<id>\<close>: one per number, a later one replaces it.\<close>

definition collect_data_channel_stats ::
    "(nat \<Rightarrow> string) \<Rightarrow> data_session \<Rightarrow> nat \<Rightarrow> (u32 \<rightharpoonup> channel_stats) \<Rightarrow> (u32 \<rightharpoonup> channel_stats)" where
  "collect_data_channel_stats uuid s r stats =
     (let dc = chan s r; i = stream_of s r
      in stats(i \<mapsto> \<lparr>cs_uuid = uuid r, cs_id = i, cs_label = dc_label dc, cs_protocol = dc_protocol dc,
           cs_state = dc_state dc, cs_bytes_sent = dc_bytes_sent dc, cs_bytes_recv = dc_bytes_recv dc,
           cs_messages_sent = dc_messages_sent dc, cs_messages_recv = dc_messages_recv dc\<rparr>))"

definition kms_webrtc_data_session_bin_stats_action ::
    "(nat \<Rightarrow> string) \<Rightarrow> data_session \<Rightarrow> u32 \<times> u32 \<times> (u32 \<rightharpoonup> channel_stats)" where
  "kms_webrtc_data_session_bin_stats_action uuid s =
     (ds_opened s, ds_closed s,
      fold (collect_data_channel_stats uuid s) (ds_pending s @ map snd (ds_data_channels s)) Map.empty)"

section \<open>Picking a stream\<close>

lemma pick_loop_Some:
  "pick_loop n t i = Some j \<Longrightarrow> \<exists>k<n. j = i + of_nat (2 * k) \<and> map_of t j = None"
proof (induction n arbitrary: i)
  case 0
  then show ?case by simp
next
  case (Suc n)
  show ?case
  proof (cases "map_of t i = None")
    case True
    then show ?thesis using Suc.prems by (intro exI [of _ 0]) simp
  next
    case False
    then obtain k where "k < n" "j = i + 2 + of_nat (2 * k)" "map_of t j = None"
      using Suc.IH [of "i + 2"] Suc.prems by auto
    then show ?thesis by (intro exI [of _ "Suc k"]) simp
  qed
qed

lemma pick_loop_None: "pick_loop n t i = None \<Longrightarrow> k < n \<Longrightarrow> map_of t (i + of_nat (2 * k)) \<noteq> None"
proof (induction n arbitrary: i k)
  case 0
  then show ?case by simp
next
  case (Suc n)
  then have taken: "map_of t i \<noteq> None" and rest: "pick_loop n t (i + 2) = None"
    by (auto split: if_split_asm)
  show ?case
  proof (cases k)
    case 0
    then show ?thesis using taken by simp
  next
    case k: (Suc m)
    then have "map_of t (i + 2 + of_nat (2 * m)) \<noteq> None" using Suc.IH rest Suc.prems by simp
    then show ?thesis using k by (simp add: add.assoc)
  qed
qed

lemma evens_distinct: "n \<le> 2 ^ 31 \<Longrightarrow> inj_on (\<lambda>k. (i :: u32) + of_nat (2 * k)) {..<n}"
proof (rule inj_onI)
  fix k m assume n: "n \<le> 2 ^ 31" and "k \<in> {..<n}" "m \<in> {..<n}"
    and eq: "i + of_nat (2 * k) = i + of_nat (2 * m)"
  then have less: "2 * k < 2 ^ 32" "2 * m < 2 ^ 32" by auto
  have "unat (of_nat (2 * k) :: u32) = unat (of_nat (2 * m) :: u32)" using eq by simp
  then show "k = m" using less by (simp only: unat_of_nat len_num1 len_bit0) simp
qed

lemma pick_loop_enough:
  assumes "length t < 2 ^ 31"
  shows "\<exists>j. pick_loop (Suc (length t)) t i = Some j"
proof (rule ccontr)
  assume "\<nexists>j. pick_loop (Suc (length t)) t i = Some j"
  then have "pick_loop (Suc (length t)) t i = None" by auto
  then have "(\<lambda>k. i + of_nat (2 * k)) ` {..<Suc (length t)} \<subseteq> set (map fst t)"
    using pick_loop_None by (metis (mono_tags, lifting) image_subsetI lessThan_iff map_of_eq_None_iff list.set_map)
  then have "card ((\<lambda>k. i + of_nat (2 * k)) ` {..<Suc (length t)}) \<le> length (map fst t)"
    by (meson card_length card_mono finite_set le_trans)
  moreover have "card ((\<lambda>k. i + of_nat (2 * k)) ` {..<Suc (length t)}) = Suc (length t)"
    using assms by (subst card_image) (auto intro!: evens_distinct simp del: of_nat_mult)
  ultimately show False by simp
qed

lemma even_steps: "((i :: u32) + of_nat (2 * k)) AND 1 = i AND 1"
  by (simp add: and_one_eq mod2_eq_if)

text \<open>
  Looking for a stream ends, whatever streams are in use, and gives one that is free and has
  the parity of the session's role: even for a DTLS client, odd for a server.
\<close>

theorem data_session_pick_free:
  assumes "length (ds_data_channels s) < 2 ^ 31"
    and "ds_even_id s AND 1 = 0" and "ds_odd_id s AND 1 = 1"
  shows "\<exists>s' i. kms_webrtc_data_session_bin_pick_stream_id s = Some (s', i) \<and>
    map_of (ds_data_channels s) i = None \<and> i AND 1 = (if ds_dtls_client s then 0 else 1) \<and>
    ds_even_id s' AND 1 = 0 \<and> ds_odd_id s' AND 1 = 1 \<and> ds_data_channels s' = ds_data_channels s"
proof -
  let ?i = "if ds_dtls_client s then ds_even_id s else ds_odd_id s"
  obtain j where j: "pick_loop (Suc (length (ds_data_channels s))) (ds_data_channels s) ?i = Some j"
    using pick_loop_enough [OF assms(1)] by blast
  then obtain k where "j = ?i + of_nat (2 * k)" "map_of (ds_data_channels s) j = None"
    using pick_loop_Some by blast
  then have free: "map_of (ds_data_channels s) j = None" and par: "j AND 1 = ?i AND 1"
    by (simp, simp only: even_steps)
  show ?thesis
    unfolding kms_webrtc_data_session_bin_pick_stream_id_def j option.case
    using assms(2,3) free par by (cases "ds_dtls_client s") simp_all
qed

theorem data_session_pick_free_witness:
  "\<exists>s' i. kms_webrtc_data_session_bin_pick_stream_id (kms_webrtc_data_session_bin_new 0 True) = Some (s', i) \<and>
    map_of (ds_data_channels (kms_webrtc_data_session_bin_new 0 True)) i = None \<and>
    i AND 1 = (if ds_dtls_client (kms_webrtc_data_session_bin_new 0 True) then 0 else 1) \<and>
    ds_even_id s' AND 1 = 0 \<and> ds_odd_id s' AND 1 = 1 \<and>
    ds_data_channels s' = ds_data_channels (kms_webrtc_data_session_bin_new 0 True)"
  by (rule data_session_pick_free) (simp_all add: kms_webrtc_data_session_bin_new_def)

section \<open>Two sessions open a channel\<close>

text \<open>The channel the session creates for the application.\<close>

definition created_channel ::
    "u32 \<Rightarrow> bool \<Rightarrow> u32 \<Rightarrow> u32 \<Rightarrow> u8 list option \<Rightarrow> u8 list option \<Rightarrow> channel" where
  "created_channel i ordered life_time retransmits label protocol =
     fst (kms_webrtc_data_channel_bin_set_reset_stream_callback True (Some The_session) False
       (fst (kms_webrtc_data_channel_bin_new i ordered life_time retransmits label protocol)))"

lemma created_fields [simp]:
  shows "dc_state (created_channel i ordered life_time retransmits label protocol) = CLOSED"
    and "\<not> dc_negotiated (created_channel i ordered life_time retransmits label protocol)"
    and "dc_id (created_channel i ordered life_time retransmits label protocol) = (if i \<le> 65535 then ucast i else 0)"
    and "dc_ordered (created_channel i ordered life_time retransmits label protocol) = ordered"
    and "dc_life_time (created_channel i ordered life_time retransmits label protocol) =
      (if int_in_range (- 1) 65535 life_time then life_time else 0)"
    and "dc_retransmits (created_channel i ordered life_time retransmits label protocol) =
      (if int_in_range (- 1) 65535 retransmits then retransmits else 0)"
    and "dc_priority (created_channel i ordered life_time retransmits label protocol) = PRIORITY_IGNORED"
    and "dc_label (created_channel i ordered life_time retransmits label protocol) =
      (case label of None \<Rightarrow> [] | Some l \<Rightarrow> l)"
    and "dc_protocol (created_channel i ordered life_time retransmits label protocol) =
      (case protocol of None \<Rightarrow> [] | Some p \<Rightarrow> p)"
  by (simp_all add: created_channel_def kms_webrtc_data_channel_bin_set_reset_stream_callback_def
      kms_webrtc_data_channel_bin_new_def Let_def kms_webrtc_data_channel_bin_set_property_def
      kms_webrtc_data_channel_bin_set_priority_def kms_webrtc_data_channel_bin_set_protocol_def
      kms_webrtc_data_channel_bin_set_label_def kms_webrtc_data_channel_bin_init_def)

lemma create_data_channel_simp:
  "kms_webrtc_data_session_bin_create_data_channel ordered i life_time retransmits label protocol s =
     (s\<lparr>ds_heap := ds_heap s @ [created_channel i ordered life_time retransmits label protocol]\<rparr>,
      length (ds_heap s))"
  by (simp add: kms_webrtc_data_session_bin_create_data_channel_def created_channel_def Let_def)

text \<open>Parameters the application may give: C strings, limits in range and at most one of them.\<close>

definition params_ok :: "u32 \<Rightarrow> u32 \<Rightarrow> u8 list option \<Rightarrow> u8 list option \<Rightarrow> bool" where
  "params_ok life_time retransmits label protocol \<longleftrightarrow>
     int_in_range (- 1) 65535 life_time \<and> int_in_range (- 1) 65535 retransmits \<and>
     (life_time = - 1 \<or> retransmits = - 1) \<and>
     (\<forall>x \<in> set_option label \<union> set_option protocol. 0 \<notin> set x \<and> length x < 2 ^ 16)"

lemma created_ok:
  "params_ok life_time retransmits label protocol \<Longrightarrow>
   dc_ok (created_channel i ordered life_time retransmits label protocol)"
  by (cases label; cases protocol) (auto simp: params_ok_def dc_ok_def)

lemma caps_of_one_limit:
  "dc_life_time dc = - 1 \<or> dc_retransmits dc = - 1 \<Longrightarrow> kms_webrtc_data_channel_bin_create_caps dc \<noteq> None"
  by (auto simp: kms_webrtc_data_channel_bin_create_caps_def Let_def)

lemma created_caps:
  "params_ok life_time retransmits label protocol \<Longrightarrow>
   kms_webrtc_data_channel_bin_create_caps (created_channel i ordered life_time retransmits label protocol) \<noteq> None"
  by (rule caps_of_one_limit) (auto simp: params_ok_def)

lemma pick_frame:
  "kms_webrtc_data_session_bin_pick_stream_id s = Some (s', i) \<Longrightarrow>
   s' = s\<lparr>ds_even_id := ds_even_id s', ds_odd_id := ds_odd_id s'\<rparr>"
  by (auto simp: kms_webrtc_data_session_bin_pick_stream_id_def split: option.split_asm)

lemma pick_same:
  assumes "kms_webrtc_data_session_bin_pick_stream_id s = Some (s', i)"
  shows "ds_heap s' = ds_heap s" and "ds_established s' = ds_established s"
    and "ds_data_channels s' = ds_data_channels s" and "ds_channels s' = ds_channels s"
    and "ds_children s' = ds_children s" and "ds_objects s' = ds_objects s"
    and "ds_dtls_client s' = ds_dtls_client s" and "ds_pending s' = ds_pending s"
  by (subst pick_frame [OF assms], simp)+

definition requested :: "channel \<Rightarrow> channel" where
  "requested c = c\<lparr>dc_state := CONNECTING,
     dc_ctrl_sent := dc_ctrl_sent c + of_nat (length (request_bytes (request_of c)))\<rparr>"

lemma create_linked:
  fixes ordered :: bool
  assumes "ds_established s" and "kms_webrtc_data_session_bin_pick_stream_id s = Some (s0, i)"
    and "params_ok life_time retransmits label protocol"
  defines "c \<equiv> created_channel i ordered life_time retransmits label protocol"
  shows "kms_webrtc_data_session_bin_create_data_channel_action True FLOW_OK ordered life_time retransmits label protocol s =
    Some (Inr (s0\<lparr>ds_heap := ds_heap s @ [requested c], ds_children := length (ds_heap s) # ds_children s,
         ds_data_channels := AList.update i (length (ds_heap s)) (ds_data_channels s)\<rparr>,
       [Sent (dc_id c) (control_message (request_bytes (request_of c)))], i))"
proof -
  have ok: "dc_ok c" and caps: "kms_webrtc_data_channel_bin_create_caps c \<noteq> None"
    unfolding c_def by (rule created_ok created_caps, rule assms(3))+
  have closed: "dc_state c = CLOSED" "\<not> dc_negotiated c" by (simp_all add: c_def)
  note open_it = request_open_sends [OF ok closed, of FLOW_OK, simplified, folded requested_def]
  show ?thesis
    unfolding kms_webrtc_data_session_bin_create_data_channel_action_def assms(2) option.case prod.case
      create_data_channel_simp c_def [symmetric]
    using caps assms(1) open_it
    by (auto simp: pick_same [OF assms(2)] Let_def chan_def request_open_def requested_def
        kms_webrtc_data_session_bin_link_data_channel_src_def)
qed

text \<open>The other side: a new pad makes a channel, its request makes it open.\<close>

lemma pad_added_remote:
  assumes "map_of (ds_data_channels s) i = None"
    and "kms_webrtc_data_session_bin_is_valid_sctp_stream_id (ucast i) s"
  shows "kms_webrtc_data_session_bin_pad_added i s =
    s\<lparr>ds_heap := ds_heap s @ [created_channel i True (- 1) (- 1) None None],
      ds_children := length (ds_heap s) # ds_children s,
      ds_data_channels := AList.update i (length (ds_heap s)) (ds_data_channels s)\<rparr>"
  using assms
  by (simp add: kms_webrtc_data_session_bin_pad_added_def create_data_channel_simp
      kms_webrtc_data_session_bin_create_remote_data_channel_def
      kms_webrtc_data_session_bin_add_remote_data_channel_def)

lemma negotiated_effect:
  assumes "r < length (ds_heap s)"
  shows "snd (data_channel_negotiated_cb r s) = [Channel_opened (stream_of s r)]"
    and "dc_state (chan (fst (data_channel_negotiated_cb r s)) r) = dc_state (chan s r)"
    and "dc_label (chan (fst (data_channel_negotiated_cb r s)) r) = dc_label (chan s r)"
    and "dc_protocol (chan (fst (data_channel_negotiated_cb r s)) r) = dc_protocol (chan s r)"
    and "dc_ordered (chan (fst (data_channel_negotiated_cb r s)) r) = dc_ordered (chan s r)"
    and "ds_opened (fst (data_channel_negotiated_cb r s)) = ds_opened s + 1"
    and "\<exists>w. kms_webrtc_data_session_bin_get_data_channel_action (stream_of s r)
           (fst (data_channel_negotiated_cb r s)) = Some w"
  using assms
  by (auto simp: data_channel_negotiated_cb_def Let_def kms_webrtc_data_channel_new_def chan_def stream_of_def
      kms_webrtc_data_channel_bin_set_new_buffer_callback_def
      kms_webrtc_data_session_bin_get_data_channel_action_def split: option.split)

lemma session_accepts:
  assumes "dc_ok c" and "r < length (ds_heap s)" and "dc_state (chan s r) = CLOSED"
  defines "s1 \<equiv> s\<lparr>ds_heap := (ds_heap s)[r := (accept_request (request_of c) (chan s r))
      \<lparr>dc_ctrl_sent := 1, dc_state := OPEN, dc_negotiated := True\<rparr>]\<rparr>"
  shows "channel_data FLOW_OK user_flow (Readable (Some (ucast PPID_CONTROL)) (request_bytes (request_of c))) r s =
    (fst (data_channel_negotiated_cb r s1),
     [Sent (dc_id (chan s r)) (control_message create_datachannel_ack), Channel_opened (stream_of s1 r)], FLOW_OK)"
proof -
  have sent: "kms_webrtc_data_channel_bin_send_data_channel_ack FLOW_OK (accept_request (request_of c) (chan s r)) =
     ((accept_request (request_of c) (chan s r))\<lparr>dc_ctrl_sent := 1, dc_state := OPEN, dc_negotiated := True\<rparr>,
      [Pushed (control_message create_datachannel_ack), Negotiated])"
    by (simp add: kms_webrtc_data_channel_bin_send_data_channel_ack_def create_datachannel_ack_def accept_request_def)
  have num: "dc_id (chan s1 r) = dc_id (chan s r)"
    using assms(2) by (simp add: s1_def chan_def accept_request_def)
  show ?thesis
    using negotiated_effect(1) [of r s1] assms(2)
    by (simp add: channel_data_def receive_request [OF request_of_ok [OF assms(1)] assms(3)] sent
        Let_def case_prod_unfold num s1_def [symmetric])
      (simp add: s1_def)
qed

lemma session_acked:
  assumes "r < length (ds_heap s)"
  defines "s1 \<equiv> s\<lparr>ds_heap := (ds_heap s)[r := (chan s r)\<lparr>dc_negotiated := True, dc_state := OPEN\<rparr>]\<rparr>"
  shows "channel_data ack user_flow (Readable (Some (ucast PPID_CONTROL)) create_datachannel_ack) r s =
    (fst (data_channel_negotiated_cb r s1), [Channel_opened (stream_of s1 r)], FLOW_OK)"
  using negotiated_effect(1) [of r s1] assms(1)
  by (simp add: channel_data_def receive_ack Let_def case_prod_unfold s1_def [symmetric]) (simp add: s1_def)



section \<open>Channels made before the association\<close>

lemma update_keeps_id:
  "dc_id dc = dc_id (h ! r) \<Longrightarrow> dc_id (h[r := dc] ! q) = dc_id (h ! q)"
  by (cases "r < length h"; cases "q = r") (simp_all add: list_update_beyond)

lemma negotiated_frame:
  assumes "data_channel_negotiated_cb r s = (s', out)"
  shows "ds_data_channels s' = ds_data_channels s" and "stream_of s' q = stream_of s q"
  using assms
  by (auto simp: data_channel_negotiated_cb_def Let_def kms_webrtc_data_channel_new_def chan_def stream_of_def
      update_keeps_id kms_webrtc_data_channel_bin_set_new_buffer_callback_def split: option.splits)

lemma react_frame:
  "ds_data_channels (fst (react r flow xs s)) = ds_data_channels s \<and>
   stream_of (fst (react r flow xs s)) q = stream_of s q"
proof (induction xs arbitrary: s)
  case Nil
  then show ?case by simp
next
  case (Cons x xs)
  show ?case
  proof (cases x)
    case Negotiated
    obtain s1 o1 where n: "data_channel_negotiated_cb r s = (s1, o1)" by (cases "data_channel_negotiated_cb r s")
    then show ?thesis
      using Cons.IH [of s1] negotiated_frame [OF n] Negotiated by (simp add: Let_def case_prod_unfold)
  next
    case (New_buffer d meta data)
    then show ?thesis
      using Cons.IH by (cases d rule: option.exhaust; cases "the d") (auto simp: Let_def case_prod_unfold)
  qed (use Cons.IH in \<open>auto simp: Let_def case_prod_unfold kms_webrtc_data_session_bin_reset_channel_def stream_of_def chan_def\<close>)
qed

lemma request_open_frame:
  assumes "request_open flow r s = Inr (s', out)"
  shows "ds_data_channels s' = ds_data_channels s" and "stream_of s' q = stream_of s q"
proof -
  obtain dc o1 where dc: "kms_webrtc_data_channel_bin_request_open flow (chan s r) = Inr (dc, o1)"
    and s': "s' = fst (react r FLOW_OK o1 (s\<lparr>ds_heap := (ds_heap s)[r := dc]\<rparr>))"
    using assms by (auto simp: request_open_def bind_result_Inr_iff prod_eq_iff)
  have kept: "dc_id dc = dc_id (chan s r)" using request_open_shape [OF dc] by auto
  show "ds_data_channels s' = ds_data_channels s" using react_frame by (simp add: s')
  have "stream_of (s\<lparr>ds_heap := (ds_heap s)[r := dc]\<rparr>) q = stream_of s q"
    using kept by (simp add: stream_of_def chan_def update_keeps_id)
  then show "stream_of s' q = stream_of s q" using react_frame by (simp add: s')
qed

lemma pending_frame:
  assumes "create_pending_data_channel_cb linked flow r s = Inr (s', out)" and "hash_ok (ds_data_channels s)"
  shows "dom (map_of (ds_data_channels s')) \<subseteq> insert (stream_of s r) (dom (map_of (ds_data_channels s)))"
    and "hash_ok (ds_data_channels s')" and "stream_of s' q = stream_of s q"
proof -
  let ?s1 = "s\<lparr>ds_children := r # ds_children s\<rparr>"
  have "(ds_data_channels s' = ds_data_channels s \<or>
      ds_data_channels s' = AList.update (stream_of s r) r (ds_data_channels s)) \<and> stream_of s' q = stream_of s q"
  proof (cases "kms_webrtc_data_session_bin_link_data_channel_src linked r ?s1")
    case True
    then have "request_open flow r (?s1\<lparr>ds_data_channels := AList.update (stream_of s r) r (ds_data_channels s)\<rparr>) = Inr (s', out)"
      using assms(1) by (simp add: create_pending_data_channel_cb_def Let_def)
    then show ?thesis
      using request_open_frame by (fastforce simp: stream_of_def chan_def)
  next
    case False
    then show ?thesis
      using assms(1) by (auto simp: create_pending_data_channel_cb_def Let_def stream_of_def chan_def)
  qed
  then show "dom (map_of (ds_data_channels s')) \<subseteq> insert (stream_of s r) (dom (map_of (ds_data_channels s)))"
    and "hash_ok (ds_data_channels s')" and "stream_of s' q = stream_of s q"
    using assms(2) by (elim conjE disjE; auto)+
qed

lemma create_pending_frame:
  assumes "create_pending linked flow rs s = Inr (s', out)" and "hash_ok (ds_data_channels s)"
    and "\<forall>r \<in> set rs. stream_of s r = k"
  shows "dom (map_of (ds_data_channels s')) \<subseteq> insert k (dom (map_of (ds_data_channels s))) \<and>
    hash_ok (ds_data_channels s')"
  using assms
proof (induction rs arbitrary: s out)
  case Nil
  then show ?case by auto
next
  case (Cons r rs)
  obtain s1 o1 o2 where s1: "create_pending_data_channel_cb (linked r) (flow r) r s = Inr (s1, o1)"
    and rest: "create_pending linked flow rs s1 = Inr (s', o2)"
    using Cons.prems(1) by (auto simp: bind_result_Inr_iff)
  note fr = pending_frame [OF s1 Cons.prems(2)]
  have "dom (map_of (ds_data_channels s')) \<subseteq> insert k (dom (map_of (ds_data_channels s1))) \<and>
    hash_ok (ds_data_channels s')"
    using rest fr(2) by (rule Cons.IH) (use fr(3) Cons.prems(3) in auto)
  moreover have "insert k (dom (map_of (ds_data_channels s1))) \<subseteq> insert k (dom (map_of (ds_data_channels s)))"
    using fr(1) Cons.prems(3) by simp
  ultimately show ?case by (meson order_trans)
qed

text \<open>
  two channels made before the association is there get the same stream, because the
  search looks at the open channels only and not at the pending ones. When the association is
  established, whatever the encoder and the network do, at most one of them is in the table
  of the session: the other cannot be reached any more.
\<close>

theorem data_session_pending_clash:
  assumes "\<not> ds_established s" and "ds_pending s = []" and "ds_data_channels s = []"
    and "kms_webrtc_data_session_bin_create_data_channel_action l1 f1 ord1 life1 retr1 label1 proto1 s =
      Some (Inr (s1, out1, i1))"
    and "kms_webrtc_data_session_bin_create_data_channel_action l2 f2 ord2 life2 retr2 label2 proto2 s1 =
      Some (Inr (s2, out2, i2))"
    and "kms_webrtc_data_session_bin_association_established True linked flow s2 = Inr (s3, out3)"
  shows "i1 = i2 \<and> length (ds_pending s2) = 2 \<and> length (ds_data_channels s3) \<le> 1"
proof -
  define i where "i = (if ds_dtls_client s then ds_even_id s else ds_odd_id s)"
  have pick: "kms_webrtc_data_session_bin_pick_stream_id x = Some (x, i)"
    if "ds_data_channels x = []" "ds_even_id x = ds_even_id s" "ds_odd_id x = ds_odd_id s"
      "ds_dtls_client x = ds_dtls_client s" for x
    using that by (simp add: kms_webrtc_data_session_bin_pick_stream_id_def i_def)
  define s1' where "s1' = s\<lparr>ds_heap := ds_heap s @ [created_channel i ord1 life1 retr1 label1 proto1],
    ds_pending := [length (ds_heap s)]\<rparr>"
  have s1: "s1 = s1'" and i1: "i1 = i"
    using assms(1,2,4) pick [OF assms(3)]
    by (auto simp: kms_webrtc_data_session_bin_create_data_channel_action_def create_data_channel_simp s1'_def)
  have "kms_webrtc_data_session_bin_pick_stream_id s1' = Some (s1', i)"
    by (rule pick) (simp_all add: s1'_def assms(3))
  then have s2: "s2 = s1'\<lparr>ds_heap := ds_heap s1' @ [created_channel i ord2 life2 retr2 label2 proto2],
      ds_pending := [length (ds_heap s1'), length (ds_heap s)]\<rparr>" and i2: "i2 = i"
    using assms(1,5)
    by (auto simp: kms_webrtc_data_session_bin_create_data_channel_action_def create_data_channel_simp s1 s1'_def)
  obtain s4 o4 where run: "create_pending linked flow (ds_pending s2) (s2\<lparr>ds_established := True\<rparr>) = Inr (s4, o4)"
    and s3: "ds_data_channels s3 = ds_data_channels s4"
    using assms(6) by (auto simp: kms_webrtc_data_session_bin_association_established_def Let_def bind_result_Inr_iff)
  let ?k = "if i \<le> 65535 then ucast (ucast i :: u16) else 0 :: u32"
  have "dom (map_of (ds_data_channels s4)) \<subseteq> insert ?k (dom (map_of (ds_data_channels (s2\<lparr>ds_established := True\<rparr>)))) \<and>
      hash_ok (ds_data_channels s4)"
    using run by (rule create_pending_frame)
      (auto simp: s2 s1'_def assms(3) stream_of_def chan_def nth_append)
  then have "set (map fst (ds_data_channels s4)) \<subseteq> {?k}" and "distinct (map fst (ds_data_channels s4))"
    by (auto simp: s2 s1'_def assms(3) hash_ok_def dom_map_of_conv_image_fst)
  then have "length (map fst (ds_data_channels s4)) \<le> 1"
    by (metis One_nat_def card.empty card_insert_disjoint card_mono distinct_card empty_iff finite.emptyI
        finite.insertI)
  then show ?thesis using i1 i2 s2 s3 by simp
qed

theorem data_session_pending_clash_witness:
  "\<exists>s1 out1 i1 s2 out2 i2 s3 out3.
    kms_webrtc_data_session_bin_create_data_channel_action True FLOW_OK True (- 1) (- 1) None None
      (kms_webrtc_data_session_bin_new 0 True) = Some (Inr (s1, out1, i1)) \<and>
    kms_webrtc_data_session_bin_create_data_channel_action True FLOW_OK True (- 1) (- 1) None None s1 =
      Some (Inr (s2, out2, i2)) \<and>
    kms_webrtc_data_session_bin_association_established True (\<lambda>_. False) (\<lambda>_. FLOW_OK) s2 = Inr (s3, out3) \<and>
    i1 = i2 \<and> length (ds_pending s2) = 2 \<and> length (ds_data_channels s3) \<le> 1"
proof -
  let ?s = "kms_webrtc_data_session_bin_new 0 True"
  let ?c = "created_channel 0 True (- 1) (- 1) None None"
  have one: "kms_webrtc_data_session_bin_create_data_channel_action True FLOW_OK True (- 1) (- 1) None None ?s =
      Some (Inr (?s\<lparr>ds_heap := [?c], ds_pending := [0]\<rparr>, [], 0))"
    by (simp add: kms_webrtc_data_session_bin_create_data_channel_action_def create_data_channel_simp
        kms_webrtc_data_session_bin_pick_stream_id_def kms_webrtc_data_session_bin_new_def)
  have two: "kms_webrtc_data_session_bin_create_data_channel_action True FLOW_OK True (- 1) (- 1) None None
        (?s\<lparr>ds_heap := [?c], ds_pending := [0]\<rparr>) =
      Some (Inr (?s\<lparr>ds_heap := [?c, ?c], ds_pending := [1, 0]\<rparr>, [], 0))"
    by (simp add: kms_webrtc_data_session_bin_create_data_channel_action_def create_data_channel_simp
        kms_webrtc_data_session_bin_pick_stream_id_def kms_webrtc_data_session_bin_new_def)
  have three: "\<exists>s3 out3. kms_webrtc_data_session_bin_association_established True (\<lambda>_. False) (\<lambda>_. FLOW_OK)
      (?s\<lparr>ds_heap := [?c, ?c], ds_pending := [1, 0]\<rparr>) = Inr (s3, out3)"
    by (simp add: kms_webrtc_data_session_bin_association_established_def Let_def create_pending_data_channel_cb_def
        kms_webrtc_data_session_bin_link_data_channel_src_def split: option.split)
  then obtain s3 out3 where three': "kms_webrtc_data_session_bin_association_established True (\<lambda>_. False) (\<lambda>_. FLOW_OK)
      (?s\<lparr>ds_heap := [?c, ?c], ds_pending := [1, 0]\<rparr>) = Inr (s3, out3)" by blast
  show ?thesis
    using data_session_pending_clash [OF _ _ _ one two three'] one two three'
    by (auto simp: kms_webrtc_data_session_bin_new_def)
qed

section \<open>Streams are not used again\<close>

text \<open>
  The application replaces its only channel: it creates a new one, then the old one is closed
  and its pad goes away.
\<close>

definition replace_channel :: "data_session \<Rightarrow> data_session option" where
  "replace_channel s =
     (case kms_webrtc_data_session_bin_create_data_channel_action True FLOW_OK True (- 1) (- 1) None None s of
        Some (Inr (s1, out, i)) \<Rightarrow> Some (fst (kms_webrtc_data_session_bin_pad_removed (ds_even_id s) s1))
      | _ \<Rightarrow> None)"

fun replacements :: "nat \<Rightarrow> data_session \<Rightarrow> data_session option" where
  "replacements 0 s = Some s"
| "replacements (Suc n) s =
     (case replacements n s of None \<Rightarrow> None | Some s1 \<Rightarrow> replace_channel s1)"

definition only_channel :: "u32 \<Rightarrow> data_session \<Rightarrow> bool" where
  "only_channel i s \<longleftrightarrow> ds_established s \<and> ds_dtls_client s \<and> ds_even_id s = i \<and>
     (\<exists>r. ds_data_channels s = [(i, r)] \<and> r < length (ds_heap s) \<and>
       stream_of s r = (if i \<le> 65535 then i else 0))"

lemma replace_only:
  assumes "only_channel i s"
  shows "\<exists>s'. replace_channel s = Some s' \<and> only_channel (i + 2) s'"
proof -
  obtain r where s: "ds_established s" "ds_dtls_client s" "ds_even_id s = i" "ds_data_channels s = [(i, r)]"
    using assms by (auto simp: only_channel_def)
  have "i + 2 \<noteq> i" by simp
  then have pick: "kms_webrtc_data_session_bin_pick_stream_id s = Some (s\<lparr>ds_even_id := i + 2\<rparr>, i + 2)"
    using s by (simp add: kms_webrtc_data_session_bin_pick_stream_id_def)
  have params: "params_ok (- 1) (- 1) None None" by (simp add: params_ok_def int_in_range_def)
  have cast: "ucast (ucast (i + 2) :: u16) = i + 2" if "i + 2 \<le> 65535"
    using that unat_ucast_down [where 'b = 16, of "i + 2"]
    by (simp add: word_unat_eq_iff unsigned_ucast_eq unsigned_take_bit_eq take_bit_nat_eq_self word_le_nat_alt)
  show ?thesis
    using create_linked [OF s(1) pick params, of True] s cast \<open>i + 2 \<noteq> i\<close>
    by (auto simp: replace_channel_def kms_webrtc_data_session_bin_pad_removed_def only_channel_def Let_def
        stream_of_def chan_def requested_def)
qed

text \<open>
  a client's application that replaces its only channel again and again, with never more
  than two of them at a time, has used up the streams after 32768 replacements: the counter of
  streams only goes up, and the channel it then gets under number 65536 is really on stream 0.
\<close>

theorem data_session_streams_run_out:
  assumes "only_channel 0 s"
  shows "\<exists>s' r. replacements 32768 s = Some s' \<and> ds_data_channels s' = [(65536, r)] \<and> stream_of s' r = 0"
proof -
  have "\<exists>s'. replacements n s = Some s' \<and> only_channel (of_nat (2 * n)) s'" for n
  proof (induction n)
    case 0
    then show ?case using assms by simp
  next
    case (Suc n)
    then obtain s1 where "replacements n s = Some s1" "only_channel (of_nat (2 * n)) s1" by blast
    then show ?case using replace_only [of "of_nat (2 * n)" s1] by (auto simp: add.commute)
  qed
  from this [of 32768] show ?thesis by (auto simp: only_channel_def)
qed

theorem data_session_streams_run_out_witness:
  "\<exists>s s' r. only_channel 0 s \<and> replacements 32768 s = Some s' \<and> ds_data_channels s' = [(65536, r)] \<and> stream_of s' r = 0"
proof -
  have "only_channel 0 ((kms_webrtc_data_session_bin_new 0 True)\<lparr>ds_established := True,
      ds_data_channels := [(0, 0)], ds_heap := [created_channel 0 True (- 1) (- 1) None None]\<rparr>)"
    by (simp add: only_channel_def kms_webrtc_data_session_bin_new_def stream_of_def chan_def)
  then show ?thesis using data_session_streams_run_out by blast
qed

end
