(* ===== verification/BitrateFilter.thy ===== *)
theory BitrateFilter
  imports GstValue
begin

text \<open>
  The element that measures the bitrate of the buffers passing through it
  (\<open>kmsbitratefilter.c\<close>): a window of at most one second of buffers, the bits in it divided by
  its length, and caps that are updated when the measurement has moved far enough. The queues
  are lists with their tail, the oldest buffer, first. The caps of the source pad are an
  argument.
\<close>

section \<open>The measurement\<close>

definition BITRATE_CALC_INTERVAL :: u64 where "BITRATE_CALC_INTERVAL = 1000000000"
definition BITRATE_CALC_THRESHOLD :: int where "BITRATE_CALC_THRESHOLD = 100000"

record bitrate_calc =
  bc_pts :: "u64 list"
  bc_sizes :: "u64 list"
  bc_total :: u64
  bc_bitrate :: u32
  bc_last_bitrate :: u32

definition kms_bitrate_calc_data_init :: bitrate_calc where
  "kms_bitrate_calc_data_init =
     \<lparr>bc_pts = [], bc_sizes = [], bc_total = 0, bc_bitrate = 0, bc_last_bitrate = 0\<rparr>"

definition kms_bitrate_calc_data_clear :: "bitrate_calc \<Rightarrow> bitrate_calc" where
  "kms_bitrate_calc_data_clear d = d\<lparr>bc_pts := [], bc_sizes := []\<rparr>"

text \<open>
  Removing old buffers: the remaining queues, their size and the distance to the oldest one.
  The queue holds the current buffer, so it does not run empty; peeking into an empty one would
  read through a null pointer.
\<close>

fun drop_old ::
    "u64 \<Rightarrow> u64 list \<Rightarrow> u64 list \<Rightarrow> u64 \<Rightarrow> c_fault + u64 list \<times> u64 list \<times> u64 \<times> u64" where
  "drop_old cur [] sizes tot = Inl Out_of_bounds"
| "drop_old cur (p # ps) sizes tot =
     (if cur - p > BITRATE_CALC_INTERVAL
      then drop_old cur ps (tl sizes) (tot - (case sizes of [] \<Rightarrow> 0 | n # _ \<Rightarrow> n))
      else Inr (p # ps, sizes, tot, cur - p))"

definition kms_bitrate_calc_data_update :: "u64 \<Rightarrow> u64 \<Rightarrow> bitrate_calc \<Rightarrow> c_fault + bitrate_calc" where
  "kms_bitrate_calc_data_update pts n d =
     bind_result (drop_old pts (bc_pts d @ [pts]) (bc_sizes d @ [n]) (bc_total d + n))
       (\<lambda>(ps, ss, tot, diff).
         Inr (d\<lparr>bc_pts := ps, bc_sizes := ss, bc_total := tot,
                bc_bitrate := (if diff = 0 then 0
                  else ucast ((8 * 1000000000 * tot) div diff))\<rparr>))"

section \<open>The element\<close>

definition kms_bitrate_filter_transform_ip :: "nat \<Rightarrow> bool" where
  "kms_bitrate_filter_transform_ip buf = True"

text \<open>The new caps of the source pad, if they are set.\<close>

definition kms_bitrate_filter_update_src_caps ::
    "gst_structure option \<Rightarrow> bitrate_calc \<Rightarrow> c_fault + bitrate_calc \<times> gst_structure option" where
  "kms_bitrate_filter_update_src_caps caps d =
     (let diff = sint (bc_bitrate d) - sint (bc_last_bitrate d)
      in if diff \<le> - (2 ^ 31) \<or> 2 ^ 31 \<le> diff then Inl Signed_overflow
         else if \<bar>diff\<bar> < BITRATE_CALC_THRESHOLD then Inr (d, None)
         else case caps of
             None \<Rightarrow> Inr (d, None)
           | Some c \<Rightarrow> Inr (d\<lparr>bc_last_bitrate := bc_bitrate d\<rparr>, Some (c(''bitrate'' \<mapsto> GInt (bc_bitrate d)))))"

definition kms_bitrate_filter_prepare_buf ::
    "gst_structure option \<Rightarrow> u64 \<Rightarrow> u64 \<Rightarrow> bitrate_calc \<Rightarrow> c_fault + bitrate_calc \<times> gst_structure option" where
  "kms_bitrate_filter_prepare_buf caps pts n d =
     bind_result (kms_bitrate_calc_data_update pts n d) (kms_bitrate_filter_update_src_caps caps)"

datatype pad_direction = Dir_src | Dir_sink | Dir_unknown

definition kms_bitrate_filter_transform_caps ::
    "pad_direction \<Rightarrow> gst_structure list \<Rightarrow> gst_structure list" where
  "kms_bitrate_filter_transform_caps direction caps =
     map (\<lambda>st. case direction of
            Dir_src \<Rightarrow> st(''bitrate'' := None)
          | Dir_sink \<Rightarrow> st(''bitrate'' \<mapsto> GIntRange 0 0x7FFFFFFF)
          | Dir_unknown \<Rightarrow> st) caps"

section \<open>The window\<close>

text \<open>The buffers of the last second before \<open>t\<close>.\<close>

definition window :: "u64 \<Rightarrow> (u64 \<times> u64) list \<Rightarrow> (u64 \<times> u64) list" where
  "window t h = filter (\<lambda>b. t - fst b \<le> BITRATE_CALC_INTERVAL) h"

fun measure_all :: "(u64 \<times> u64) list \<Rightarrow> bitrate_calc \<Rightarrow> c_fault + bitrate_calc" where
  "measure_all [] d = Inr d"
| "measure_all (b # bs) d =
     bind_result (kms_bitrate_calc_data_update (fst b) (snd b) d) (measure_all bs)"

lemma measure_all_snoc:
  "measure_all (bs @ [b]) d = bind_result (measure_all bs d) (kms_bitrate_calc_data_update (fst b) (snd b))"
proof (induction bs arbitrary: d)
  case Nil
  then show ?case by (cases "kms_bitrate_calc_data_update (fst b) (snd b) d") simp_all
next
  case (Cons c bs)
  then show ?case by (cases "kms_bitrate_calc_data_update (fst c) (snd c) d") simp_all
qed

lemma drop_old_spec:
  assumes "dropWhile (\<lambda>b. cur - fst b > BITRATE_CALC_INTERVAL) xs = w" and "w \<noteq> []"
  shows "drop_old cur (map fst xs) (map snd xs) (sum_list (map snd xs)) =
    Inr (map fst w, map snd w, sum_list (map snd w), cur - fst (hd w))"
  using assms by (induction xs) (auto split: if_split_asm)

lemma back_in_time:
  fixes p :: u64
  assumes "p \<le> q" and "q \<le> t"
  shows "q - p \<le> t - p" and "t - q \<le> t - p"
  using assms unat_sub [of p q] unat_sub [of p t] unat_sub [of q t]
  by (auto simp: word_le_nat_alt)

lemma dropWhile_window:
  assumes "sorted (map fst h)" and "\<forall>b \<in> set h. fst b \<le> t"
  shows "dropWhile (\<lambda>b. t - fst b > BITRATE_CALC_INTERVAL) h = window t h"
  using assms
proof (induction h)
  case Nil
  then show ?case by (simp add: window_def)
next
  case (Cons b h)
  show ?case
  proof (cases "t - fst b > BITRATE_CALC_INTERVAL")
    case True
    then show ?thesis using Cons by (simp add: window_def)
  next
    case False
    have "t - fst c \<le> BITRATE_CALC_INTERVAL" if "c \<in> set h" for c
      using that Cons.prems back_in_time(2) [of "fst b" "fst c" t] False by fastforce
    then show ?thesis using False by (auto simp: window_def filter_id_conv)
  qed
qed

lemma window_window:
  assumes "q \<le> t" and "\<forall>b \<in> set h. fst b \<le> q"
  shows "window t (window q h) = window t h"
proof -
  have "q - fst b \<le> BITRATE_CALC_INTERVAL" if "b \<in> set h" "t - fst b \<le> BITRATE_CALC_INTERVAL" for b
    using that assms back_in_time(1) [of "fst b" q t] by fastforce
  then show ?thesis by (auto simp: window_def intro!: filter_cong)
qed

text \<open>
  For buffers in the order of their time stamps, the element never reads past its queues
  and always holds exactly the buffers of the last second; the bitrate it reports is the bits of
  those buffers divided by the time since the oldest of them.
\<close>

theorem bitrate_window:
  assumes "sorted (map fst (h @ [(t, n)]))"
  defines "w \<equiv> window t (h @ [(t, n)])"
  shows "\<exists>d. measure_all (h @ [(t, n)]) kms_bitrate_calc_data_init = Inr d \<and>
    bc_pts d = map fst w \<and> bc_sizes d = map snd w \<and> bc_total d = sum_list (map snd w) \<and>
    bc_bitrate d = (if fst (hd w) = t then 0
      else ucast ((8 * 1000000000 * sum_list (map snd w)) div (t - fst (hd w))))"
  using assms(1) unfolding w_def
proof (induction h arbitrary: t n rule: rev_induct)
  case Nil
  then show ?case
    by (simp add: kms_bitrate_calc_data_update_def kms_bitrate_calc_data_init_def window_def BITRATE_CALC_INTERVAL_def)
next
  case (snoc b h)
  obtain q m where b: "b = (q, m)" by (cases b)
  obtain d where d: "measure_all (h @ [(q, m)]) kms_bitrate_calc_data_init = Inr d"
    "bc_pts d = map fst (window q (h @ [(q, m)]))" "bc_sizes d = map snd (window q (h @ [(q, m)]))"
    "bc_total d = sum_list (map snd (window q (h @ [(q, m)])))"
    using snoc.IH [of q m] snoc.prems b by (auto simp: sorted_append)
  let ?xs = "window q (h @ [(q, m)]) @ [(t, n)]"
  have le: "q \<le> t" "\<forall>c \<in> set (h @ [(q, m)]). fst c \<le> q"
    using snoc.prems b by (auto simp: sorted_append)
  have "sorted (map fst ?xs)" "\<forall>c \<in> set ?xs. fst c \<le> t"
    using snoc.prems b le by (auto simp: window_def sorted_append sorted_filter)
  then have "dropWhile (\<lambda>b. t - fst b > BITRATE_CALC_INTERVAL) ?xs = window t ?xs"
    by (rule dropWhile_window)
  moreover have "window t ?xs = window t ((h @ [(q, m)]) @ [(t, n)])"
    using window_window [OF le] by (simp add: window_def)
  ultimately have drop: "dropWhile (\<lambda>b. t - fst b > BITRATE_CALC_INTERVAL) ?xs = window t ((h @ [(q, m)]) @ [(t, n)])"
    by simp
  have ne: "window t ((h @ [(q, m)]) @ [(t, n)]) \<noteq> []"
    by (simp add: window_def BITRATE_CALC_INTERVAL_def)
  show ?case
    using drop_old_spec [OF drop ne] d
    by (simp add: b measure_all_snoc [of "h @ [(q, m)]", simplified] kms_bitrate_calc_data_update_def)
qed

theorem bitrate_window_witness:
  "\<exists>d. measure_all ([(0, 1000)] @ [(500000000, 500)]) kms_bitrate_calc_data_init = Inr d \<and>
    bc_pts d = map fst (window 500000000 ([(0, 1000)] @ [(500000000, 500)])) \<and>
    bc_sizes d = map snd (window 500000000 ([(0, 1000)] @ [(500000000, 500)])) \<and>
    bc_total d = sum_list (map snd (window 500000000 ([(0, 1000)] @ [(500000000, 500)]))) \<and>
    bc_bitrate d = (if fst (hd (window 500000000 ([(0, 1000)] @ [(500000000, 500)]))) = 500000000 then 0
      else ucast ((8 * 1000000000 * sum_list (map snd (window 500000000 ([(0, 1000)] @ [(500000000, 500)])))) div
        (500000000 - fst (hd (window 500000000 ([(0, 1000)] @ [(500000000, 500)]))))))"
  by (rule bitrate_window) simp

end
