(* ===== verification/PayloadManager.thy ===== *)
theory PayloadManager
  imports KmsPrelude
begin

text \<open>
  The manager of RTP payload types of an SDP agent (\<open>kmssdppayloadmanager.c\<close>): an array of codec
  names by payload type and a counter. Codec names are C strings; \<open>None\<close> is a null pointer.
\<close>

section \<open>State\<close>

definition MIN_DYNAMIC_PAYLOAD :: nat where "MIN_DYNAMIC_PAYLOAD = 96"
definition MAX_DYNAMIC_PAYLOAD :: nat where "MAX_DYNAMIC_PAYLOAD = 127"

record payload_manager =
  pm_counter :: u32
  pm_share_pts :: bool
  pm_codecs :: "string option list"

definition kms_sdp_payload_manager_new :: payload_manager where
  "kms_sdp_payload_manager_new = \<lparr>pm_counter = of_nat MIN_DYNAMIC_PAYLOAD, pm_share_pts = False,
     pm_codecs = replicate (Suc MAX_DYNAMIC_PAYLOAD) None\<rparr>"

definition kms_sdp_payload_manager_new_same_codec_shares_pt :: payload_manager where
  "kms_sdp_payload_manager_new_same_codec_shares_pt = kms_sdp_payload_manager_new\<lparr>pm_share_pts := True\<rparr>"

section \<open>Payload types\<close>

text \<open>A payload type is an \<open>int\<close>; \<open>-1\<close> is the error. The second result tells whether an error was set.\<close>

definition kms_sdp_payload_manager_get_next_int :: "payload_manager \<Rightarrow> payload_manager \<times> int \<times> bool" where
  "kms_sdp_payload_manager_get_next_int pm =
     (let val = sint (pm_counter pm); pm1 = pm\<lparr>pm_counter := pm_counter pm + 1\<rparr>
      in if val \<le> int MAX_DYNAMIC_PAYLOAD then (pm1, val, False) else (pm1, - 1, True))"

text \<open>
  The loop over the counter, with fuel; the counter passes the last payload type after at most
  32 rounds, so 33 are enough (\<open>from_list_enough\<close>). \<open>None\<close>: out of fuel.
\<close>

fun pt_from_list :: "nat \<Rightarrow> payload_manager \<Rightarrow> (payload_manager \<times> int \<times> bool) option" where
  "pt_from_list 0 pm = None"
| "pt_from_list (Suc n) pm =
     (case kms_sdp_payload_manager_get_next_int pm of
        (pm1, i, err) \<Rightarrow>
          (if i < 0 then Some (pm1, i, err)
           else if pm_codecs pm1 ! nat i \<noteq> None then pt_from_list n pm1
           else Some (pm1, i, err)))"

definition kms_sdp_payload_manager_get_dynamic_pt_from_list ::
    "payload_manager \<Rightarrow> (payload_manager \<times> int \<times> bool) option" where
  "kms_sdp_payload_manager_get_dynamic_pt_from_list pm = pt_from_list 33 pm"

definition dynamic_pts :: "nat list" where
  "dynamic_pts = [MIN_DYNAMIC_PAYLOAD ..< Suc MAX_DYNAMIC_PAYLOAD]"

definition kms_sdp_payload_get_pt_for_codec :: "string \<Rightarrow> payload_manager \<Rightarrow> int" where
  "kms_sdp_payload_get_pt_for_codec codec_name pm =
     (case find (\<lambda>i. pm_codecs pm ! i = Some codec_name) dynamic_pts of
        Some i \<Rightarrow> int i
      | None \<Rightarrow> - 1)"

text \<open>A payload type outside of the array is written out of bounds.\<close>

definition kms_sdp_payload_manager_register_dynamic_payload_internal ::
    "int \<Rightarrow> string \<Rightarrow> payload_manager \<Rightarrow> c_fault + payload_manager" where
  "kms_sdp_payload_manager_register_dynamic_payload_internal pt codec_name pm =
     (if pt < 0 \<or> int MAX_DYNAMIC_PAYLOAD < pt then Inl Out_of_bounds
      else let c1 = (pm_codecs pm)[nat pt := None];
               c2 = fold (\<lambda>i c. if c ! i = Some codec_name then c[i := None] else c) dynamic_pts c1
           in Inr (pm\<lparr>pm_codecs := c2[nat pt := Some codec_name]\<rparr>))"

text \<open>The payload type (or \<open>-1\<close>) and whether an error was set.\<close>

definition kms_sdp_payload_manager_get_dynamic_pt ::
    "string option \<Rightarrow> payload_manager \<Rightarrow> (c_fault + payload_manager \<times> int \<times> bool) option" where
  "kms_sdp_payload_manager_get_dynamic_pt codec_name pm =
     (if \<not> pm_share_pts pm then Some (Inr (kms_sdp_payload_manager_get_next_int pm))
      else case codec_name of
          None \<Rightarrow> Some (Inr (pm, - 1, True))
        | Some c \<Rightarrow>
            (let pt = kms_sdp_payload_get_pt_for_codec c pm
             in if pt \<ge> 0 then Some (Inr (pm, pt, False))
                else case kms_sdp_payload_manager_get_dynamic_pt_from_list pm of
                    None \<Rightarrow> None
                  | Some (pm1, pt, err) \<Rightarrow>
                      Some (if pt = - 1 then Inr (pm1, pt, err)
                        else bind_result (kms_sdp_payload_manager_register_dynamic_payload_internal pt c pm1)
                          (\<lambda>pm2. Inr (pm2, pt, err)))))"

definition kms_sdp_payload_manager_register_dynamic_payload ::
    "int \<Rightarrow> string option \<Rightarrow> payload_manager \<Rightarrow> c_fault + payload_manager \<times> bool" where
  "kms_sdp_payload_manager_register_dynamic_payload pt codec_name pm =
     (if \<not> pm_share_pts pm then Inr (pm, True)
      else case codec_name of
          None \<Rightarrow> Inr (pm, False)
        | Some c \<Rightarrow>
            bind_result (kms_sdp_payload_manager_register_dynamic_payload_internal pt c pm)
              (\<lambda>pm1. Inr (pm1, True)))"

section \<open>What the array says\<close>

text \<open>The codec of a dynamic payload type.\<close>

definition codec_of :: "payload_manager \<Rightarrow> nat \<Rightarrow> string option" where
  "codec_of pm i = (if i \<in> set dynamic_pts then pm_codecs pm ! i else None)"

definition pm_ok :: "payload_manager \<Rightarrow> bool" where
  "pm_ok pm \<longleftrightarrow> length (pm_codecs pm) = Suc MAX_DYNAMIC_PAYLOAD \<and>
     96 \<le> unat (pm_counter pm) \<and> unat (pm_counter pm) < 2 ^ 31 \<and>
     (\<forall>i j c. codec_of pm i = Some c \<longrightarrow> codec_of pm j = Some c \<longrightarrow> i = j)"

lemma dynamic_set [simp]: "i \<in> set dynamic_pts \<longleftrightarrow> 96 \<le> i \<and> i \<le> 127"
  unfolding dynamic_pts_def set_upt MIN_DYNAMIC_PAYLOAD_def MAX_DYNAMIC_PAYLOAD_def by auto

lemma find_codec:
  assumes "pm_ok pm"
  shows "kms_sdp_payload_get_pt_for_codec c pm \<ge> 0 \<longleftrightarrow> (\<exists>i. codec_of pm i = Some c)"
    and "codec_of pm i = Some c \<Longrightarrow> kms_sdp_payload_get_pt_for_codec c pm = int i"
proof -
  show one: "codec_of pm i = Some c \<Longrightarrow> kms_sdp_payload_get_pt_for_codec c pm = int i" for i
  proof -
    assume i: "codec_of pm i = Some c"
    then have mem: "i \<in> set dynamic_pts" "pm_codecs pm ! i = Some c"
      by (auto simp: codec_of_def split: if_split_asm)
    then obtain j where j: "find (\<lambda>i. pm_codecs pm ! i = Some c) dynamic_pts = Some j"
      by (metis (mono_tags, lifting) find_None_iff option.exhaust)
    then have "codec_of pm j = Some c"
      by (auto simp: find_Some_iff codec_of_def simp del: dynamic_set)
    then show ?thesis
      using i j assms by (auto simp: pm_ok_def kms_sdp_payload_get_pt_for_codec_def)
  qed
  show "kms_sdp_payload_get_pt_for_codec c pm \<ge> 0 \<longleftrightarrow> (\<exists>i. codec_of pm i = Some c)"
  proof (cases "find (\<lambda>i. pm_codecs pm ! i = Some c) dynamic_pts")
    case None
    then have "\<nexists>i. codec_of pm i = Some c"
      by (auto simp: find_None_iff codec_of_def split: if_split_asm)
    then show ?thesis using None by (simp add: kms_sdp_payload_get_pt_for_codec_def)
  next
    case (Some j)
    then have "codec_of pm j = Some c"
      by (auto simp: find_Some_iff codec_of_def simp del: dynamic_set)
    then show ?thesis using one by auto
  qed
qed

lemma nth_update_at: "k < length c \<Longrightarrow> c[a := v] ! k = (if a = k then v else c ! k)"
  by (cases "a = k") simp_all

lemma clear_nth:
  "distinct is \<Longrightarrow> k < length c \<Longrightarrow>
   fold (\<lambda>i c. if c ! i = Some x then c[i := None] else c) is c ! k =
     (if k \<in> set is \<and> c ! k = Some x then None else c ! k) \<and>
   length (fold (\<lambda>i c. if c ! i = Some x then c[i := None] else c) is c) = length c"
  by (induction "is" arbitrary: c) (auto simp: nth_update_at)

lemma register_codec:
  assumes "pm_ok pm" and "0 \<le> pt" and "pt \<le> 127"
  shows "\<exists>pm'. kms_sdp_payload_manager_register_dynamic_payload_internal pt c pm = Inr pm' \<and> pm_ok pm' \<and>
    codec_of pm' = (\<lambda>i. if int i = pt \<and> 96 \<le> i then Some c
                        else if codec_of pm i = Some c then None else codec_of pm i) \<and>
    pm_counter pm' = pm_counter pm \<and> pm_share_pts pm' = pm_share_pts pm"
proof -
  let ?n = "nat pt"
  let ?c1 = "(pm_codecs pm)[?n := None]"
  let ?c2 = "fold (\<lambda>i d. if d ! i = Some c then d[i := None] else d) dynamic_pts ?c1"
  let ?pm = "pm\<lparr>pm_codecs := ?c2[?n := Some c]\<rparr>"
  have len: "length (pm_codecs pm) = 128" using assms(1) by (simp add: pm_ok_def MAX_DYNAMIC_PAYLOAD_def)
  have n: "?n < 128" using assms(3) by auto
  have c2: "?c2 ! k = (if k \<in> set dynamic_pts \<and> ?c1 ! k = Some c then None else ?c1 ! k) \<and> length ?c2 = 128"
    if "k < 128" for k
    using clear_nth [of dynamic_pts k ?c1 c] that len by (simp add: dynamic_pts_def)
  have codecs: "codec_of ?pm = (\<lambda>i. if int i = pt \<and> 96 \<le> i then Some c
                        else if codec_of pm i = Some c then None else codec_of pm i)"
  proof
    fix i
    show "codec_of ?pm i = (if int i = pt \<and> 96 \<le> i then Some c
                        else if codec_of pm i = Some c then None else codec_of pm i)"
      using c2 [of i] n len assms(2) by (auto simp: codec_of_def nth_update_at)
  qed
  have "pm_ok ?pm"
    using assms(1) codecs c2 [of 0] by (auto simp: pm_ok_def MAX_DYNAMIC_PAYLOAD_def split: if_split_asm)
  moreover have "kms_sdp_payload_manager_register_dynamic_payload_internal pt c pm = Inr ?pm"
    using assms(2,3) by (simp add: kms_sdp_payload_manager_register_dynamic_payload_internal_def Let_def
        MAX_DYNAMIC_PAYLOAD_def)
  ultimately show ?thesis using codecs by (intro exI [of _ ?pm]) simp
qed

lemma next_int:
  assumes "pm_ok pm"
  shows "kms_sdp_payload_manager_get_next_int pm =
    (pm\<lparr>pm_counter := pm_counter pm + 1\<rparr>,
     if unat (pm_counter pm) \<le> 127 then int (unat (pm_counter pm)) else - 1, unat (pm_counter pm) > 127)"
proof -
  have val: "sint (pm_counter pm) = int (unat (pm_counter pm))"
    using assms by (intro sint_small) (simp add: pm_ok_def)
  then have "sint (pm_counter pm) \<le> int MAX_DYNAMIC_PAYLOAD \<longleftrightarrow> unat (pm_counter pm) \<le> 127"
    by (simp only: val of_nat_le_iff MAX_DYNAMIC_PAYLOAD_def)
  then show ?thesis
    by (simp only: kms_sdp_payload_manager_get_next_int_def Let_def) (simp add: val not_le)
qed

text \<open>What the loop finds: the first free payload type from the counter on, if there is one.\<close>

lemma from_list_spec:
  assumes "pm_ok pm" and "129 \<le> unat (pm_counter pm) + n" and "unat (pm_counter pm) + n < 2 ^ 31"
    and "n \<ge> 1"
  shows "\<exists>pm' i. pt_from_list n pm = Some (pm', i, i < 0) \<and>
    pm' = pm\<lparr>pm_counter := pm_counter pm'\<rparr> \<and> unat (pm_counter pm') \<le> unat (pm_counter pm) + n \<and>
    unat (pm_counter pm) \<le> unat (pm_counter pm') \<and>
    (if i < 0 then i = - 1 \<and> (\<forall>k. unat (pm_counter pm) \<le> k \<and> k \<le> 127 \<longrightarrow> codec_of pm k \<noteq> None)
     else unat (pm_counter pm) \<le> nat i \<and> i \<le> 127 \<and> codec_of pm (nat i) = None)"
  using assms
proof (induction n arbitrary: pm)
  case 0
  then show ?case by simp
next
  case (Suc n)
  let ?pm = "pm\<lparr>pm_counter := pm_counter pm + 1\<rparr>"
  have c: "96 \<le> unat (pm_counter pm)" "unat (pm_counter pm) < 2 ^ 31"
    using Suc.prems(1) by (simp_all add: pm_ok_def)
  have inc: "unat (pm_counter pm + 1) = Suc (unat (pm_counter pm))"
    using c(2) by (simp add: unat_word_ariths)
  have same: "codec_of ?pm = codec_of pm" by (simp add: codec_of_def fun_eq_iff)
  show ?case
  proof (cases "unat (pm_counter pm) \<le> 127 \<and> codec_of pm (unat (pm_counter pm)) \<noteq> None")
    case True
    then have n: "n \<ge> 1" "129 \<le> unat (pm_counter ?pm) + n" using Suc.prems(2) inc by auto
    have ok: "pm_ok ?pm" using Suc.prems(1,3) inc same by (auto simp: pm_ok_def)
    have step: "pt_from_list (Suc n) pm = pt_from_list n ?pm"
      using True c(1) next_int [OF Suc.prems(1)] by (auto simp: codec_of_def split: if_split_asm)
    obtain pm' i where ih: "pt_from_list n ?pm = Some (pm', i, i < 0)"
      "pm' = ?pm\<lparr>pm_counter := pm_counter pm'\<rparr>" "unat (pm_counter pm') \<le> unat (pm_counter ?pm) + n"
      "unat (pm_counter ?pm) \<le> unat (pm_counter pm')"
      "if i < 0 then i = - 1 \<and> (\<forall>k. unat (pm_counter ?pm) \<le> k \<and> k \<le> 127 \<longrightarrow> codec_of pm k \<noteq> None)
       else unat (pm_counter ?pm) \<le> nat i \<and> i \<le> 127 \<and> codec_of pm (nat i) = None"
      using Suc.IH [OF ok n(2) _ n(1)] Suc.prems(3) inc unfolding same by auto
    have "codec_of pm k \<noteq> None" if "i < 0" "unat (pm_counter pm) \<le> k" "k \<le> 127" for k
      using ih(5) that True inc by (cases "k = unat (pm_counter pm)") auto
    then show ?thesis
      unfolding step using ih inc by (intro exI [of _ pm'] exI [of _ i]) (auto split: if_split_asm)
  next
    case False
    have "uint (pm_counter pm) \<le> 127 \<longleftrightarrow> unat (pm_counter pm) \<le> 127"
      using of_nat_le_iff [of "unat (pm_counter pm)" 127, where 'a = int] by (simp only: uint_nat of_nat_numeral)
    then show ?thesis
      using False c next_int [OF Suc.prems(1)] inc by (auto simp: codec_of_def split: if_split_asm)
  qed
qed

lemma from_list_enough:
  assumes "pm_ok pm" and "unat (pm_counter pm) < 2 ^ 30"
  shows "\<exists>pm' i. kms_sdp_payload_manager_get_dynamic_pt_from_list pm = Some (pm', i, i < 0) \<and>
    pm' = pm\<lparr>pm_counter := pm_counter pm'\<rparr> \<and> pm_ok pm' \<and> unat (pm_counter pm') \<le> unat (pm_counter pm) + 33 \<and>
    (if i < 0 then i = - 1 \<and> (\<forall>k. unat (pm_counter pm) \<le> k \<and> k \<le> 127 \<longrightarrow> codec_of pm k \<noteq> None)
     else 96 \<le> nat i \<and> i \<le> 127 \<and> codec_of pm (nat i) = None)"
proof -
  have "96 \<le> unat (pm_counter pm)" using assms(1) by (simp add: pm_ok_def)
  then obtain pm' i where r: "pt_from_list 33 pm = Some (pm', i, i < 0)" "pm' = pm\<lparr>pm_counter := pm_counter pm'\<rparr>"
    "unat (pm_counter pm') \<le> unat (pm_counter pm) + 33" "unat (pm_counter pm) \<le> unat (pm_counter pm')"
    "if i < 0 then i = - 1 \<and> (\<forall>k. unat (pm_counter pm) \<le> k \<and> k \<le> 127 \<longrightarrow> codec_of pm k \<noteq> None)
     else unat (pm_counter pm) \<le> nat i \<and> i \<le> 127 \<and> codec_of pm (nat i) = None"
    using from_list_spec [OF assms(1), of 33] assms(2) by auto
  have "codec_of pm' = codec_of pm" by (subst r(2)) (simp add: codec_of_def fun_eq_iff)
  moreover have "pm_codecs pm' = pm_codecs pm" by (subst r(2)) simp
  ultimately have "pm_ok pm'" using assms r(3,4) by (auto simp: pm_ok_def)
  then show ?thesis
    using r \<open>96 \<le> unat (pm_counter pm)\<close>
    by (intro exI [of _ pm'] exI [of _ i])
      (auto simp: kms_sdp_payload_manager_get_dynamic_pt_from_list_def split: if_split_asm)
qed

section \<open>Any sequence of requests\<close>

datatype pm_op = Get_pt string | Register_pt int string

text \<open>A run of the shared manager; a fault or a search without end would stop it.\<close>

definition pm_step :: "payload_manager \<Rightarrow> pm_op \<Rightarrow> payload_manager" where
  "pm_step pm e =
     (case e of
        Get_pt c \<Rightarrow>
          (case kms_sdp_payload_manager_get_dynamic_pt (Some c) pm of
             Some (Inr (pm', _)) \<Rightarrow> pm' | _ \<Rightarrow> pm)
      | Register_pt pt c \<Rightarrow>
          (case kms_sdp_payload_manager_register_dynamic_payload pt (Some c) pm of
             Inr (pm', _) \<Rightarrow> pm' | Inl _ \<Rightarrow> pm))"

text \<open>What is promised of asking for the payload type of a codec.\<close>

lemma get_codec:
  assumes "pm_ok pm" and "pm_share_pts pm" and "unat (pm_counter pm) < 2 ^ 30"
  shows "\<exists>pm' pt. kms_sdp_payload_manager_get_dynamic_pt (Some c) pm = Some (Inr (pm', pt, pt < 0)) \<and>
    pm_ok pm' \<and> pm_share_pts pm' \<and> unat (pm_counter pm') \<le> unat (pm_counter pm) + 33 \<and>
    (if pt < 0 then pt = - 1 \<and> codec_of pm' = codec_of pm \<and> (\<nexists>i. codec_of pm i = Some c)
     else 96 \<le> pt \<and> pt \<le> 127 \<and> codec_of pm (nat pt) \<in> {None, Some c} \<and>
       codec_of pm' = (codec_of pm)(nat pt \<mapsto> c))"
proof (cases "\<exists>i. codec_of pm i = Some c")
  case True
  then obtain i where i: "codec_of pm i = Some c" by blast
  then have "96 \<le> i" "i \<le> 127" by (auto simp: codec_of_def split: if_split_asm)
  then show ?thesis
    using i find_codec(2) [OF assms(1) i] assms
    by (intro exI [of _ pm] exI [of _ "int i"])
      (auto simp: kms_sdp_payload_manager_get_dynamic_pt_def fun_upd_idem)
next
  case False
  then have none: "\<not> kms_sdp_payload_get_pt_for_codec c pm \<ge> 0" using find_codec(1) [OF assms(1)] by blast
  obtain pm1 i where fl: "kms_sdp_payload_manager_get_dynamic_pt_from_list pm = Some (pm1, i, i < 0)"
    "pm1 = pm\<lparr>pm_counter := pm_counter pm1\<rparr>" "pm_ok pm1" "unat (pm_counter pm1) \<le> unat (pm_counter pm) + 33"
    "if i < 0 then i = - 1 \<and> (\<forall>k. unat (pm_counter pm) \<le> k \<and> k \<le> 127 \<longrightarrow> codec_of pm k \<noteq> None)
     else 96 \<le> nat i \<and> i \<le> 127 \<and> codec_of pm (nat i) = None"
    using from_list_enough [OF assms(1,3)] by blast
  have same: "codec_of pm1 = codec_of pm" "pm_share_pts pm1"
    by (subst fl(2), simp add: codec_of_def fun_eq_iff) (subst fl(2), simp add: assms(2))
  show ?thesis
  proof (cases "i < 0")
    case True
    then show ?thesis
      using fl same none False assms(2)
      by (intro exI [of _ pm1] exI [of _ i]) (auto simp: kms_sdp_payload_manager_get_dynamic_pt_def)
  next
    case i: False
    then obtain pm2 where reg: "kms_sdp_payload_manager_register_dynamic_payload_internal i c pm1 = Inr pm2" "pm_ok pm2"
      "codec_of pm2 = (\<lambda>j. if int j = i \<and> 96 \<le> j then Some c else if codec_of pm j = Some c then None else codec_of pm j)"
      "pm_counter pm2 = pm_counter pm1" "pm_share_pts pm2"
      using register_codec [OF fl(3), of i c, unfolded same(1)] fl(5) same(2) i by auto
    have "codec_of pm2 = (codec_of pm)(nat i \<mapsto> c)"
      using reg(3) False fl(5) i by (auto simp: fun_eq_iff)
    then show ?thesis
      using i fl reg none assms(2)
      by (intro exI [of _ pm2] exI [of _ i]) (auto simp: kms_sdp_payload_manager_get_dynamic_pt_def)
  qed
qed

definition pm_inv :: "payload_manager \<Rightarrow> bool" where
  "pm_inv pm \<longleftrightarrow> pm_ok pm \<and> pm_share_pts pm"

text \<open>Payload types that fit the array, and a counter that is far from wrapping around.\<close>

fun pm_range :: "pm_op \<Rightarrow> bool" where
  "pm_range (Get_pt c) = True"
| "pm_range (Register_pt pt c) = (0 \<le> pt \<and> pt \<le> 127)"

definition pm_allowed :: "payload_manager \<Rightarrow> pm_op \<Rightarrow> bool" where
  "pm_allowed pm e \<longleftrightarrow> pm_range e \<and> unat (pm_counter pm) < 2 ^ 30"

lemma pm_step_inv:
  assumes "pm_inv pm" and "pm_allowed pm e"
  shows "pm_inv (pm_step pm e)" and "unat (pm_counter (pm_step pm e)) \<le> unat (pm_counter pm) + 33"
proof -
  have "pm_inv (pm_step pm e) \<and> unat (pm_counter (pm_step pm e)) \<le> unat (pm_counter pm) + 33"
  proof (cases e)
    case (Get_pt c)
    obtain pm' pt where "kms_sdp_payload_manager_get_dynamic_pt (Some c) pm = Some (Inr (pm', pt, pt < 0))"
      "pm_ok pm'" "pm_share_pts pm'" "unat (pm_counter pm') \<le> unat (pm_counter pm) + 33"
      using get_codec [of pm c] assms by (auto simp: pm_inv_def pm_allowed_def)
    then show ?thesis using Get_pt by (simp add: pm_step_def pm_inv_def)
  next
    case (Register_pt pt c)
    obtain pm' where "kms_sdp_payload_manager_register_dynamic_payload_internal pt c pm = Inr pm'"
      "pm_ok pm'" "pm_counter pm' = pm_counter pm" "pm_share_pts pm' = pm_share_pts pm"
      using register_codec [of pm pt c] assms Register_pt by (auto simp: pm_inv_def pm_allowed_def)
    then show ?thesis
      using Register_pt assms(1)
      by (simp add: pm_step_def pm_inv_def kms_sdp_payload_manager_register_dynamic_payload_def)
  qed
  then show "pm_inv (pm_step pm e)" and "unat (pm_counter (pm_step pm e)) \<le> unat (pm_counter pm) + 33"
    by simp_all
qed

interpretation pmgr: invariant_machine pm_step pm_allowed pm_inv
  by unfold_locales (rule pm_step_inv)

lemma pm_run_allowed:
  assumes "pm_inv pm" and "\<forall>e \<in> set es. pm_range e" and "unat (pm_counter pm) + 33 * length es < 2 ^ 30"
  shows "allowed_run pm_step pm_allowed pm es \<and>
    unat (pm_counter (foldl pm_step pm es)) \<le> unat (pm_counter pm) + 33 * length es"
  using assms
proof (induction es arbitrary: pm)
  case Nil
  then show ?case by simp
next
  case (Cons e es)
  have a: "pm_allowed pm e" using Cons.prems by (simp add: pm_allowed_def)
  note st = pm_step_inv [OF Cons.prems(1) a]
  have "allowed_run pm_step pm_allowed (pm_step pm e) es \<and>
      unat (pm_counter (foldl pm_step (pm_step pm e) es)) \<le> unat (pm_counter (pm_step pm e)) + 33 * length es"
    using st Cons.prems by (intro Cons.IH) simp_all
  then show ?case using a st(2) by simp
qed

lemma new_shared_inv: "pm_inv kms_sdp_payload_manager_new_same_codec_shares_pt"
proof -
  have "pm_codecs kms_sdp_payload_manager_new_same_codec_shares_pt ! i = None" if "i \<le> 127" for i
    using that by (simp add: kms_sdp_payload_manager_new_same_codec_shares_pt_def kms_sdp_payload_manager_new_def
        MAX_DYNAMIC_PAYLOAD_def del: replicate_Suc)
  then have "codec_of kms_sdp_payload_manager_new_same_codec_shares_pt = Map.empty"
    by (auto simp: codec_of_def fun_eq_iff)
  then show ?thesis
    by (simp add: pm_inv_def pm_ok_def kms_sdp_payload_manager_new_same_codec_shares_pt_def
        kms_sdp_payload_manager_new_def MIN_DYNAMIC_PAYLOAD_def)
qed

text \<open>
  A manager that shares payload types, after any sequence of requests and registrations:
  asking for a codec ends, gives a dynamic payload type that was free or the codec's own, takes
  it from no other codec, and asking again gives the same; no two payload types ever belong to
  the same codec. Only when it is refused has the codec none.
\<close>

theorem payload_types_shared:
  assumes "\<forall>e \<in> set es. pm_range e" and "length es < 2 ^ 24"
  defines "pm \<equiv> foldl pm_step kms_sdp_payload_manager_new_same_codec_shares_pt es"
  shows "\<exists>pm' pt. kms_sdp_payload_manager_get_dynamic_pt (Some c) pm = Some (Inr (pm', pt, pt < 0)) \<and>
    (if pt < 0 then codec_of pm' = codec_of pm \<and> (\<nexists>i. codec_of pm i = Some c)
     else 96 \<le> pt \<and> pt \<le> 127 \<and> codec_of pm (nat pt) \<in> {None, Some c} \<and>
       codec_of pm' = (codec_of pm)(nat pt \<mapsto> c) \<and>
       kms_sdp_payload_manager_get_dynamic_pt (Some c) pm' = Some (Inr (pm', pt, False))) \<and>
    (\<forall>i j d. codec_of pm' i = Some d \<longrightarrow> codec_of pm' j = Some d \<longrightarrow> i = j)"
proof -
  let ?s = "kms_sdp_payload_manager_new_same_codec_shares_pt"
  have start: "unat (pm_counter ?s) = 96"
    by (simp add: kms_sdp_payload_manager_new_same_codec_shares_pt_def kms_sdp_payload_manager_new_def
        MIN_DYNAMIC_PAYLOAD_def)
  have run: "allowed_run pm_step pm_allowed ?s es" "unat (pm_counter pm) < 2 ^ 30"
    using pm_run_allowed [OF new_shared_inv assms(1)] assms(2) start by (auto simp: pm_def)
  have "pm_inv pm" unfolding pm_def using new_shared_inv run(1) by (rule pmgr.run_keeps)
  then have "pm_ok pm" "pm_share_pts pm" by (simp_all add: pm_inv_def)
  from get_codec [OF this run(2), of c] obtain pm' pt where g: "kms_sdp_payload_manager_get_dynamic_pt (Some c) pm = Some (Inr (pm', pt, pt < 0))"
    "pm_ok pm'" "pm_share_pts pm'"
    "if pt < 0 then pt = - 1 \<and> codec_of pm' = codec_of pm \<and> (\<nexists>i. codec_of pm i = Some c)
     else 96 \<le> pt \<and> pt \<le> 127 \<and> codec_of pm (nat pt) \<in> {None, Some c} \<and>
       codec_of pm' = (codec_of pm)(nat pt \<mapsto> c)"
    by blast
  have again: "kms_sdp_payload_manager_get_dynamic_pt (Some c) pm' = Some (Inr (pm', pt, False))" if "\<not> pt < 0"
  proof -
    have "codec_of pm' (nat pt) = Some c" using g(4) that by simp
    then have "kms_sdp_payload_get_pt_for_codec c pm' = pt" using find_codec(2) [OF g(2)] that by simp
    then show ?thesis using that g(3) by (simp add: kms_sdp_payload_manager_get_dynamic_pt_def)
  qed
  have inj: "\<forall>i j d. codec_of pm' i = Some d \<longrightarrow> codec_of pm' j = Some d \<longrightarrow> i = j"
    using g(2) by (simp add: pm_ok_def)
  show ?thesis
    using g(1,4) again inj by (intro exI [of _ pm'] exI [of _ pt]) (simp split: if_split_asm)
qed

theorem payload_types_shared_witness:
  "\<exists>pm' pt. kms_sdp_payload_manager_get_dynamic_pt (Some ''VP8/90000'')
        (foldl pm_step kms_sdp_payload_manager_new_same_codec_shares_pt [Register_pt 96 ''opus/48000'']) =
      Some (Inr (pm', pt, pt < 0)) \<and>
    (\<forall>i j d. codec_of pm' i = Some d \<longrightarrow> codec_of pm' j = Some d \<longrightarrow> i = j)"
  using payload_types_shared [of "[Register_pt 96 ''opus/48000'']" "''VP8/90000''"] by auto

end
