(* ===== verification/PadProbes.thy ===== *)
theory PadProbes
  imports KmsPrelude
begin

text \<open>
  Probes the elements put on their pads (\<open>kmsutils.c\<close>): time stamps made strictly increasing
  behind a depayloader, buffers dropped until a key frame comes, gaps and discontinuities
  turned into requests for a key frame, and requests limited to one per second. A buffer is
  what the probes look at. What caps a pad has and the time are arguments.
\<close>

record gst_buffer =
  gb_pts :: u64
  gb_dts :: u64
  gb_delta :: bool
  gb_discont :: bool

definition GST_CLOCK_TIME_NONE :: u64 where "GST_CLOCK_TIME_NONE = - 1"
definition NSECS_PER_MSECOND :: u64 where "NSECS_PER_MSECOND = 1000000"
definition DEFAULT_KEYFRAME_DISPERSION :: u64 where "DEFAULT_KEYFRAME_DISPERSION = 1000000000"

text \<open>What flows past a probe.\<close>

datatype probe_data = P_buffer gst_buffer | P_list "gst_buffer list"

fun buffers :: "probe_data \<Rightarrow> gst_buffer list" where
  "buffers (P_buffer b) = [b]"
| "buffers (P_list bs) = bs"

section \<open>Strictly increasing time stamps\<close>

record adjust_pts_data =
  ad_element :: nat
  ad_last_pts :: u64

definition kms_utils_adjust_pts_data_new :: "nat \<Rightarrow> adjust_pts_data" where
  "kms_utils_adjust_pts_data_new element = \<lparr>ad_element = element, ad_last_pts = GST_CLOCK_TIME_NONE\<rparr>"

definition kms_utils_depayloader_adjust_pts_out ::
    "adjust_pts_data \<Rightarrow> gst_buffer \<Rightarrow> adjust_pts_data \<times> gst_buffer" where
  "kms_utils_depayloader_adjust_pts_out data b =
     (let pts_current = gb_pts b;
          late = (ad_last_pts data \<noteq> GST_CLOCK_TIME_NONE \<and> pts_current \<le> ad_last_pts data);
          pts_fixed = (if late then ad_last_pts data + NSECS_PER_MSECOND else pts_current);
          b1 = (if late then b\<lparr>gb_pts := pts_fixed\<rparr> else b)
      in (data\<lparr>ad_last_pts := pts_fixed\<rparr>, b1\<lparr>gb_dts := pts_fixed\<rparr>))"

fun kms_utils_depayloader_pts_out_it ::
    "adjust_pts_data \<Rightarrow> gst_buffer list \<Rightarrow> adjust_pts_data \<times> gst_buffer list" where
  "kms_utils_depayloader_pts_out_it data [] = (data, [])"
| "kms_utils_depayloader_pts_out_it data (b # bs) =
     (let (data1, b1) = kms_utils_depayloader_adjust_pts_out data b;
          (data2, bs2) = kms_utils_depayloader_pts_out_it data1 bs
      in (data2, b1 # bs2))"

definition kms_utils_depayloader_pts_out_probe ::
    "adjust_pts_data \<Rightarrow> probe_data \<Rightarrow> adjust_pts_data \<times> probe_data" where
  "kms_utils_depayloader_pts_out_probe data info =
     (case info of
        P_buffer b \<Rightarrow> (case kms_utils_depayloader_adjust_pts_out data b of (d, b') \<Rightarrow> (d, P_buffer b'))
      | P_list bs \<Rightarrow> (case kms_utils_depayloader_pts_out_it data bs of (d, bs') \<Rightarrow> (d, P_list bs')))"

fun pts_run :: "adjust_pts_data \<Rightarrow> probe_data list \<Rightarrow> probe_data list" where
  "pts_run data [] = []"
| "pts_run data (x # xs) =
     (case kms_utils_depayloader_pts_out_probe data x of (d, y) \<Rightarrow> y # pts_run d xs)"

lemma pts_it_append:
  "kms_utils_depayloader_pts_out_it data (xs @ ys) =
     (let (d1, xs') = kms_utils_depayloader_pts_out_it data xs;
          (d2, ys') = kms_utils_depayloader_pts_out_it d1 ys
      in (d2, xs' @ ys'))"
  by (induction xs arbitrary: data) (auto simp: Let_def split: prod.split)

lemma pts_run_flat:
  "concat (map buffers (pts_run data xs)) =
   snd (kms_utils_depayloader_pts_out_it data (concat (map buffers xs)))"
proof (induction xs arbitrary: data)
  case Nil
  then show ?case by simp
next
  case (Cons x xs)
  then show ?case
    by (cases x) (auto simp: kms_utils_depayloader_pts_out_probe_def pts_it_append Let_def split: prod.split)
qed

text \<open>
  With room for one more millisecond per buffer nothing wraps around: every buffer that comes
  out is later than the last one before it.
\<close>

definition pts_room :: "adjust_pts_data \<Rightarrow> gst_buffer list \<Rightarrow> bool" where
  "pts_room data bs \<longleftrightarrow> (\<exists>hi. (\<forall>b \<in> set bs. unat (gb_pts b) \<le> hi) \<and>
     (ad_last_pts data = GST_CLOCK_TIME_NONE \<or> unat (ad_last_pts data) \<le> hi) \<and>
     hi + 1000000 * length bs < 2 ^ 64 - 1)"

lemma adjust_one:
  assumes "pts_room data (b # bs)"
  shows "case kms_utils_depayloader_adjust_pts_out data b of (d, b') \<Rightarrow>
    pts_room d bs \<and> ad_last_pts d = gb_pts b' \<and> gb_pts b' \<noteq> GST_CLOCK_TIME_NONE \<and> gb_dts b' = gb_pts b' \<and>
    gb_pts b \<le> gb_pts b' \<and> (ad_last_pts data \<noteq> GST_CLOCK_TIME_NONE \<longrightarrow> ad_last_pts data < gb_pts b') \<and>
    (ad_last_pts data = GST_CLOCK_TIME_NONE \<or> ad_last_pts data < gb_pts b \<longrightarrow> gb_pts b' = gb_pts b)"
proof -
  obtain hi where hi: "unat (gb_pts b) \<le> hi" "\<forall>b \<in> set bs. unat (gb_pts b) \<le> hi"
    "ad_last_pts data = GST_CLOCK_TIME_NONE \<or> unat (ad_last_pts data) \<le> hi"
    "hi + 1000000 * Suc (length bs) < 2 ^ 64 - 1"
    using assms by (auto simp: pts_room_def)
  have none: "unat GST_CLOCK_TIME_NONE = 2 ^ 64 - 1" 
    by (simp add: GST_CLOCK_TIME_NONE_def unsigned_minus_1_eq_mask mask_eq_exp_minus_1)
  show ?thesis
  proof (cases "ad_last_pts data \<noteq> GST_CLOCK_TIME_NONE \<and> gb_pts b \<le> ad_last_pts data")
    case True
    have add: "unat (ad_last_pts data + NSECS_PER_MSECOND) = unat (ad_last_pts data) + 1000000"
      using True hi by (subst unat_add_lem [THEN iffD1]) (simp_all add: NSECS_PER_MSECOND_def)
    then have "pts_room (data\<lparr>ad_last_pts := ad_last_pts data + NSECS_PER_MSECOND\<rparr>) bs"
      using hi True by (auto simp: pts_room_def intro!: exI [of _ "hi + 1000000"])
    moreover have "unat (ad_last_pts data + NSECS_PER_MSECOND) < 2 ^ 64 - 1" using add hi True by auto
    then have "ad_last_pts data + NSECS_PER_MSECOND \<noteq> GST_CLOCK_TIME_NONE" using none by (metis less_irrefl)
    ultimately show ?thesis
      using True add
      by (auto simp: kms_utils_depayloader_adjust_pts_out_def Let_def word_less_nat_alt word_le_nat_alt)
  next
    case False
    have "gb_pts b \<noteq> GST_CLOCK_TIME_NONE" using hi(1,4) none by auto
    moreover have "pts_room (data\<lparr>ad_last_pts := gb_pts b\<rparr>) bs"
      using hi by (auto simp: pts_room_def intro!: exI [of _ hi])
    ultimately show ?thesis
      using False by (auto simp: kms_utils_depayloader_adjust_pts_out_def Let_def)
  qed
qed

lemma adjust_all:
  assumes "pts_room data bs"
  shows "case kms_utils_depayloader_pts_out_it data bs of (d, bs') \<Rightarrow>
    sorted_wrt (<) (map gb_pts bs') \<and> (\<forall>b \<in> set bs'. gb_dts b = gb_pts b) \<and>
    list_all2 (\<le>) (map gb_pts bs) (map gb_pts bs') \<and>
    (ad_last_pts data \<noteq> GST_CLOCK_TIME_NONE \<longrightarrow> (\<forall>b \<in> set bs'. ad_last_pts data < gb_pts b)) \<and>
    (sorted_wrt (<) ((if ad_last_pts data = GST_CLOCK_TIME_NONE then [] else [ad_last_pts data]) @ map gb_pts bs) \<longrightarrow>
      map gb_pts bs' = map gb_pts bs)"
  using assms
proof (induction bs arbitrary: data)
  case Nil
  then show ?case by simp
next
  case (Cons b bs)
  obtain d b' where one: "kms_utils_depayloader_adjust_pts_out data b = (d, b')"
    by (cases "kms_utils_depayloader_adjust_pts_out data b")
  obtain d2 bs' where rest: "kms_utils_depayloader_pts_out_it d bs = (d2, bs')"
    by (cases "kms_utils_depayloader_pts_out_it d bs")
  note a = adjust_one [OF Cons.prems, unfolded one prod.case]
  note ih = Cons.IH [of d, unfolded rest prod.case]
  have "ad_last_pts data < gb_pts x" if "ad_last_pts data \<noteq> GST_CLOCK_TIME_NONE" "x \<in> set bs'" for x
    using a ih that by (metis less_trans)
  then show ?case
    using a ih by (auto simp: one rest Let_def)
qed

text \<open>
  Behind a depayloader, whatever time stamps come in, singly or in lists, as long as they
  leave room for a millisecond per buffer: the ones that go out are strictly increasing, the
  decoding times equal them, none is earlier than it came, and strictly increasing ones are not
  touched.
\<close>

theorem depayloader_pts_increasing:
  fixes element :: nat
  assumes "\<forall>b \<in> set (concat (map buffers xs)). unat (gb_pts b) \<le> hi"
    and "hi + 1000000 * length (concat (map buffers xs)) < 2 ^ 64 - 1"
  defines "ins \<equiv> concat (map buffers xs)"
    and "outs \<equiv> concat (map buffers (pts_run (kms_utils_adjust_pts_data_new element) xs))"
  shows "sorted_wrt (<) (map gb_pts outs) \<and> (\<forall>b \<in> set outs. gb_dts b = gb_pts b) \<and>
    list_all2 (\<le>) (map gb_pts ins) (map gb_pts outs) \<and>
    (sorted_wrt (<) (map gb_pts ins) \<longrightarrow> map gb_pts outs = map gb_pts ins)"
proof -
  have "pts_room (kms_utils_adjust_pts_data_new element) ins"
    using assms(1,2) by (auto simp: pts_room_def kms_utils_adjust_pts_data_new_def ins_def)
  from adjust_all [OF this] show ?thesis
    by (simp add: outs_def ins_def pts_run_flat kms_utils_adjust_pts_data_new_def case_prod_unfold)
qed

definition late_buffers :: "probe_data list" where
  "late_buffers = (let b = \<lparr>gb_pts = 40000000, gb_dts = 0, gb_delta = False, gb_discont = False\<rparr>
     in [P_list [b, b\<lparr>gb_pts := 20000000\<rparr>], P_buffer b])"

theorem depayloader_pts_increasing_witness:
  "sorted_wrt (<) (map gb_pts (concat (map buffers (pts_run (kms_utils_adjust_pts_data_new 0) late_buffers))))"
  using depayloader_pts_increasing [of late_buffers 40000000 0] by (auto simp: late_buffers_def Let_def)

text \<open>A buffer without a time stamp switches the check off for the one that follows it.\<close>

lemma untimed_resets:
  "gb_pts b = GST_CLOCK_TIME_NONE \<Longrightarrow>
   ad_last_pts (fst (kms_utils_depayloader_adjust_pts_out data b)) = GST_CLOCK_TIME_NONE"
  using word_order.extremum_unique [of "ad_last_pts data"]
  by (auto simp: kms_utils_depayloader_adjust_pts_out_def Let_def GST_CLOCK_TIME_NONE_def)

section \<open>Dropping until a key frame\<close>

datatype pad_caps = Caps_unknown | Caps_raw | Caps_encoded

record kf_pad =
  kp_dropping :: bool
  kp_drop_probes :: "bool list"
  kp_last_request :: "u64 option"

definition fresh_pad :: kf_pad where
  "fresh_pad = \<lparr>kp_dropping = False, kp_drop_probes = [], kp_last_request = None\<rparr>"

definition buffer_is_keyframe :: "gst_buffer \<Rightarrow> bool" where
  "buffer_is_keyframe b \<longleftrightarrow> \<not> gb_delta b"

text \<open>The requests for a key frame that are sent, each with its \<open>all_headers\<close>.\<close>

definition send_force_key_unit_event :: "pad_caps \<Rightarrow> bool \<Rightarrow> bool list" where
  "send_force_key_unit_event caps all_headers = (if caps = Caps_encoded then [all_headers] else [])"

fun find_keyframe_idx :: "gst_buffer list \<Rightarrow> nat option" where
  "find_keyframe_idx [] = None"
| "find_keyframe_idx (b # bs) =
     (if buffer_is_keyframe b then Some 0 else map_option Suc (find_keyframe_idx bs))"

definition drop_until_keyframe_probe ::
    "pad_caps \<Rightarrow> bool \<Rightarrow> probe_data \<Rightarrow> kf_pad \<Rightarrow> kf_pad \<times> probe_data \<times> bool list \<times> probe_return" where
  "drop_until_keyframe_probe caps all_headers info pad =
     (let (drop_it, info1) = (case info of
            P_buffer b \<Rightarrow> (\<not> buffer_is_keyframe b, info)
          | P_list bs \<Rightarrow>
              (case find_keyframe_idx bs of
                 None \<Rightarrow> (True, info)
               | Some 0 \<Rightarrow> (False, info)
               | Some k \<Rightarrow> (False, P_list (drop k bs))))
      in if drop_it then (pad, info1, send_force_key_unit_event caps all_headers, Probe_drop)
         else (pad\<lparr>kp_dropping := False\<rparr>, info1, [], Probe_remove))"

definition kms_utils_drop_until_keyframe :: "pad_caps \<Rightarrow> bool \<Rightarrow> kf_pad \<Rightarrow> kf_pad \<times> bool list" where
  "kms_utils_drop_until_keyframe caps all_headers pad =
     (if kp_dropping pad then (pad, [])
      else (pad\<lparr>kp_dropping := True, kp_drop_probes := kp_drop_probes pad @ [all_headers]\<rparr>,
            send_force_key_unit_event caps all_headers))"

text \<open>
  Data on a pad goes through its probes in the order they were added; one that drops ends it,
  one that is done is taken off. The first result is what gets through.
\<close>

fun through_probes ::
    "pad_caps \<Rightarrow> bool list \<Rightarrow> probe_data \<Rightarrow> kf_pad \<Rightarrow> bool list \<times> kf_pad \<times> probe_data option \<times> bool list" where
  "through_probes caps [] info pad = ([], pad, Some info, [])"
| "through_probes caps (h # hs) info pad =
     (case drop_until_keyframe_probe caps h info pad of
        (pad1, info1, o1, ret) \<Rightarrow>
          (if ret = Probe_drop then (h # hs, pad1, None, o1)
           else case through_probes caps hs info1 pad1 of
             (hs', pad2, r, o2) \<Rightarrow> (if ret = Probe_remove then hs' else h # hs', pad2, r, o1 @ o2)))"

definition pad_data :: "pad_caps \<Rightarrow> probe_data \<Rightarrow> kf_pad \<Rightarrow> kf_pad \<times> probe_data option \<times> bool list" where
  "pad_data caps info pad =
     (case through_probes caps (kp_drop_probes pad) info pad of
        (hs, pad1, r, out) \<Rightarrow> (pad1\<lparr>kp_drop_probes := hs\<rparr>, r, out))"

fun pad_run :: "pad_caps \<Rightarrow> probe_data list \<Rightarrow> kf_pad \<Rightarrow> kf_pad \<times> gst_buffer list" where
  "pad_run caps [] pad = (pad, [])"
| "pad_run caps (x # xs) pad =
     (case pad_data caps x pad of
        (pad1, r, out) \<Rightarrow>
          (case pad_run caps xs pad1 of
             (pad2, bs) \<Rightarrow> (pad2, (case r of None \<Rightarrow> [] | Some y \<Rightarrow> buffers y) @ bs)))"

text \<open>The probe is there exactly while the pad is marked as dropping, and once.\<close>

definition kf_inv :: "kf_pad \<Rightarrow> bool" where
  "kf_inv pad \<longleftrightarrow> (if kp_dropping pad then length (kp_drop_probes pad) = 1 else kp_drop_probes pad = [])"

lemma find_keyframe_drop:
  "(case find_keyframe_idx bs of None \<Rightarrow> [] | Some k \<Rightarrow> drop k bs) = dropWhile (\<lambda>b. \<not> buffer_is_keyframe b) bs"
  "find_keyframe_idx bs = None \<longleftrightarrow> (\<forall>b \<in> set bs. \<not> buffer_is_keyframe b)"
  by (induction bs) (auto split: option.splits)

lemma probe_spec:
  "drop_until_keyframe_probe caps h info pad =
     (if \<forall>b \<in> set (buffers info). \<not> buffer_is_keyframe b
      then (pad, info, send_force_key_unit_event caps h, Probe_drop)
      else (pad\<lparr>kp_dropping := False\<rparr>,
            case info of P_buffer b \<Rightarrow> info | P_list bs \<Rightarrow> P_list (dropWhile (\<lambda>b. \<not> buffer_is_keyframe b) bs),
            [], Probe_remove))"
proof (cases info)
  case (P_buffer b)
  then show ?thesis by (simp add: drop_until_keyframe_probe_def)
next
  case (P_list bs)
  then show ?thesis
    using find_keyframe_drop [of bs]
    by (auto simp: drop_until_keyframe_probe_def Let_def split: option.splits nat.splits)
qed

lemma pad_data_idle:
  "kf_inv pad \<Longrightarrow> \<not> kp_dropping pad \<Longrightarrow> pad_data caps info pad = (pad, Some info, [])"
  by (simp add: kf_inv_def pad_data_def)

lemma pad_data_dropping:
  assumes "kf_inv pad" and "kp_dropping pad"
  shows "\<exists>h. kp_drop_probes pad = [h] \<and> pad_data caps info pad =
    (if \<forall>b \<in> set (buffers info). \<not> buffer_is_keyframe b
     then (pad, None, send_force_key_unit_event caps h)
     else (pad\<lparr>kp_dropping := False, kp_drop_probes := []\<rparr>,
           Some (case info of P_buffer b \<Rightarrow> info | P_list bs \<Rightarrow> P_list (dropWhile (\<lambda>b. \<not> buffer_is_keyframe b) bs)), []))"
proof -
  obtain h where h: "kp_drop_probes pad = [h]"
    using assms by (auto simp: kf_inv_def length_Suc_conv)
  have "pad\<lparr>kp_drop_probes := [h]\<rparr> = pad" using h by simp
  then show ?thesis using h by (auto simp: pad_data_def probe_spec)
qed

datatype kf_event = Ask_keyframe bool | Data probe_data

definition kf_step :: "pad_caps \<Rightarrow> kf_pad \<Rightarrow> kf_event \<Rightarrow> kf_pad" where
  "kf_step caps pad e =
     (case e of
        Ask_keyframe h \<Rightarrow> fst (kms_utils_drop_until_keyframe caps h pad)
      | Data info \<Rightarrow> fst (pad_data caps info pad))"

lemma data_keeps:
  assumes "kf_inv pad"
  shows "kf_inv (fst (pad_data caps info pad))"
proof (cases "kp_dropping pad")
  case True
  then obtain r where "pad_data caps info pad = (pad, r) \<or>
      pad_data caps info pad = (pad\<lparr>kp_dropping := False, kp_drop_probes := []\<rparr>, r)"
    using pad_data_dropping [OF assms True, of caps info] by (metis (full_types))
  then show ?thesis using assms by (auto simp: kf_inv_def)
next
  case False
  then show ?thesis using assms by (simp add: pad_data_idle)
qed

interpretation kf: invariant_machine "kf_step caps" "\<lambda>_ _. True" kf_inv for caps
  by unfold_locales
    (auto simp: kf_step_def kms_utils_drop_until_keyframe_def kf_inv_def data_keeps [unfolded kf_inv_def]
      split: kf_event.split)

lemma run_idle:
  "kf_inv pad \<Longrightarrow> \<not> kp_dropping pad \<Longrightarrow> pad_run caps xs pad = (pad, concat (map buffers xs))"
  by (induction xs) (simp_all add: pad_data_idle)

lemma run_dropping:
  assumes "kf_inv pad" and "kp_dropping pad"
  shows "snd (pad_run caps xs pad) = dropWhile (\<lambda>b. \<not> buffer_is_keyframe b) (concat (map buffers xs)) \<and>
    (kp_dropping (fst (pad_run caps xs pad)) \<longleftrightarrow> (\<forall>b \<in> set (concat (map buffers xs)). \<not> buffer_is_keyframe b))"
  using assms
proof (induction xs)
  case Nil
  then show ?case by simp
next
  case (Cons x xs)
  obtain h where h: "pad_data caps x pad =
    (if \<forall>b \<in> set (buffers x). \<not> buffer_is_keyframe b
     then (pad, None, send_force_key_unit_event caps h)
     else (pad\<lparr>kp_dropping := False, kp_drop_probes := []\<rparr>,
           Some (case x of P_buffer b \<Rightarrow> x | P_list bs \<Rightarrow> P_list (dropWhile (\<lambda>b. \<not> buffer_is_keyframe b) bs)), []))"
    using pad_data_dropping [OF Cons.prems, of caps x] by blast
  show ?case
  proof (cases "\<forall>b \<in> set (buffers x). \<not> buffer_is_keyframe b")
    case True
    then have "dropWhile (\<lambda>b. \<not> buffer_is_keyframe b) (buffers x @ ys) = dropWhile (\<lambda>b. \<not> buffer_is_keyframe b) ys" for ys
      by (simp add: dropWhile_append2)
    then show ?thesis using True Cons by (auto simp: h case_prod_unfold)
  next
    case False
    have idle: "pad_run caps xs (pad\<lparr>kp_dropping := False, kp_drop_probes := []\<rparr>) =
        (pad\<lparr>kp_dropping := False, kp_drop_probes := []\<rparr>, concat (map buffers xs))"
      by (rule run_idle) (simp_all add: kf_inv_def)
    obtain b where "b \<in> set (buffers x)" "buffer_is_keyframe b" using False by blast
    then have "dropWhile (\<lambda>b. \<not> buffer_is_keyframe b) (buffers x @ ys) =
        dropWhile (\<lambda>b. \<not> buffer_is_keyframe b) (buffers x) @ ys" for ys
      by (intro dropWhile_append1) auto
    moreover obtain y where y: "pad_data caps x pad = (pad\<lparr>kp_dropping := False, kp_drop_probes := []\<rparr>, Some y, [])"
      and "buffers y = dropWhile (\<lambda>b. \<not> buffer_is_keyframe b) (buffers x)"
      using h False by (cases x) auto
    ultimately show ?thesis using False idle by (auto simp: y)
  qed
qed

text \<open>
  Whatever happened on a pad before, once key frames are asked for, what gets through from
  then on starts with the next key frame and is complete from there, whether buffers come one
  by one or in lists; the pad stops dropping exactly when a key frame came.
\<close>

theorem keyframe_first:
  "case pad_run caps xs
      (fst (kms_utils_drop_until_keyframe caps all_headers (foldl (kf_step caps) fresh_pad es))) of (pad', outs) \<Rightarrow>
    outs = dropWhile (\<lambda>b. \<not> buffer_is_keyframe b) (concat (map buffers xs)) \<and>
    (kp_dropping pad' \<longleftrightarrow> outs = [])"
proof -
  let ?pad = "foldl (kf_step caps) fresh_pad es"
  have "kf_inv ?pad"
    by (rule kf.run_keeps) (simp_all add: fresh_pad_def kf_inv_def allowed_run_always)
  then have "kf_inv (fst (kms_utils_drop_until_keyframe caps all_headers ?pad))"
    and "kp_dropping (fst (kms_utils_drop_until_keyframe caps all_headers ?pad))"
    by (auto simp: kms_utils_drop_until_keyframe_def kf_inv_def)
  from run_dropping [OF this, of caps xs] show ?thesis
    by (simp add: case_prod_unfold dropWhile_eq_Nil_conv)
qed

section \<open>Gaps, discontinuities and repeated requests\<close>

text \<open>
  A buffer that marks a discontinuity and is no key frame starts the dropping and is dropped.
\<close>

definition discont_detection_probe ::
    "pad_caps \<Rightarrow> gst_buffer \<Rightarrow> kf_pad \<Rightarrow> kf_pad \<times> bool list \<times> probe_return" where
  "discont_detection_probe caps b pad =
     (if gb_discont b \<and> \<not> buffer_is_keyframe b
      then (case kms_utils_drop_until_keyframe caps False pad of (pad1, out) \<Rightarrow> (pad1, out, Probe_drop))
      else (pad, [], Probe_ok))"

datatype pad_event = Ev_gap u64 u64 | Ev_force_key_unit | Ev_else nat

definition gap_detection_probe :: "pad_caps \<Rightarrow> pad_event \<Rightarrow> bool list \<times> probe_return" where
  "gap_detection_probe caps e =
     (case e of
        Ev_gap gap_pts gap_duration \<Rightarrow>
          (if gap_duration \<noteq> GST_CLOCK_TIME_NONE \<and> gap_duration > 0
           then send_force_key_unit_event caps False else [], Probe_drop)
      | _ \<Rightarrow> ([], Probe_ok))"

text \<open>\<open>now\<close>: the time of the clock of the pad's element, \<open>None\<close> when it has no element.\<close>

definition check_last_request_time :: "u64 option \<Rightarrow> kf_pad \<Rightarrow> kf_pad \<times> bool" where
  "check_last_request_time now pad =
     (case now of
        None \<Rightarrow> (pad, True)
      | Some now \<Rightarrow>
          (case kp_last_request pad of
             None \<Rightarrow> (pad\<lparr>kp_last_request := Some now\<rparr>, True)
           | Some last_time \<Rightarrow>
               if last_time + DEFAULT_KEYFRAME_DISPERSION < now
               then (pad\<lparr>kp_last_request := Some now\<rparr>, True)
               else (pad, False)))"

definition control_duplicates :: "u64 option \<Rightarrow> pad_event \<Rightarrow> kf_pad \<Rightarrow> kf_pad \<times> probe_return" where
  "control_duplicates now e pad =
     (if e = Ev_force_key_unit
      then (case check_last_request_time now pad of
              (pad1, ok) \<Rightarrow> (pad1, if ok then Probe_ok else Probe_drop))
      else (pad, Probe_ok))"

text \<open>The times of the requests that pass, for requests at the given times.\<close>

fun passed_requests :: "u64 list \<Rightarrow> kf_pad \<Rightarrow> u64 list" where
  "passed_requests [] pad = []"
| "passed_requests (t # ts) pad =
     (case control_duplicates (Some t) Ev_force_key_unit pad of
        (pad1, ret) \<Rightarrow> (if ret = Probe_ok then [t] else []) @ passed_requests ts pad1)"

lemma passed_spaced:
  assumes "sorted ts" and "\<forall>t \<in> set ts. unat t + 1000000000 < 2 ^ 64"
    and "\<forall>l. kp_last_request pad = Some l \<longrightarrow> unat l + 1000000000 < 2 ^ 64"
  shows "sorted_wrt (\<lambda>s t. unat s + 1000000000 < unat t)
    ((case kp_last_request pad of None \<Rightarrow> [] | Some l \<Rightarrow> [l]) @ passed_requests ts pad)"
  using assms
proof (induction ts arbitrary: pad)
  case Nil
  then show ?case by (simp split: option.split)
next
  case (Cons t ts)
  have room: "unat (l + DEFAULT_KEYFRAME_DISPERSION) = unat l + 1000000000" if "unat l + 1000000000 < 2 ^ 64" for l :: u64
    using that by (subst unat_add_lem [THEN iffD1]) (simp_all add: DEFAULT_KEYFRAME_DISPERSION_def)
  note ih = Cons.IH [of "pad\<lparr>kp_last_request := Some t\<rparr>"] Cons.IH [of pad]
  show ?case
  proof (cases "kp_last_request pad")
    case None
    then show ?thesis
      using ih(1) Cons.prems by (simp add: control_duplicates_def check_last_request_time_def)
  next
    case (Some l)
    then have l: "unat l + 1000000000 < 2 ^ 64" using Cons.prems(3) by simp
    show ?thesis
    proof (cases "l + DEFAULT_KEYFRAME_DISPERSION < t")
      case True
      then have "unat l + 1000000000 < unat t" using room [OF l] by (simp add: word_less_nat_alt)
      then show ?thesis
        using ih(1) Cons.prems Some True
        by (force simp: control_duplicates_def check_last_request_time_def)
    next
      case False
      then show ?thesis
        using ih(2) Cons.prems Some by (simp add: control_duplicates_def check_last_request_time_def)
    qed
  qed
qed

end
