(* ===== verification/GstSdp.thy ===== *)
theory GstSdp
  imports KmsPrelude
begin

text \<open>
  What the SDP code uses of C, GLib and GStreamer: C strings and the conversions of numbers,
  and the public structs of an SDP message with their accessors. An attribute value can be
  the NULL pointer, hence the options; keys and formats are never NULL in a message that was
  parsed or built with the library's setters. The arrays of a struct are lists.
\<close>

section \<open>Strings of C\<close>

definition char_code :: "char \<Rightarrow> nat" where
  "char_code c = of_char c"

definition ascii_lower :: "char \<Rightarrow> char" where
  "ascii_lower c = (if 65 \<le> char_code c \<and> char_code c \<le> 90 then char_of (char_code c + 32) else c)"

text \<open>\<open>g_ascii_strcasecmp (a, b) == 0\<close>\<close>

definition ascii_caseeq :: "string \<Rightarrow> string \<Rightarrow> bool" where
  "ascii_caseeq a b \<longleftrightarrow> map ascii_lower a = map ascii_lower b"

lemma ascii_caseeq_refl [simp]: "ascii_caseeq a a"
  by (simp add: ascii_caseeq_def)

lemma ascii_caseeq_sym: "ascii_caseeq a b \<longleftrightarrow> ascii_caseeq b a"
  by (auto simp: ascii_caseeq_def)

lemma ascii_caseeq_trans: "ascii_caseeq a b \<Longrightarrow> ascii_caseeq a c \<longleftrightarrow> ascii_caseeq b c"
  by (auto simp: ascii_caseeq_def)

definition is_digit :: "char \<Rightarrow> bool" where
  "is_digit c \<longleftrightarrow> 48 \<le> char_code c \<and> char_code c \<le> 57"

definition is_space :: "char \<Rightarrow> bool" where
  "is_space c \<longleftrightarrow> (9 \<le> char_code c \<and> char_code c \<le> 13) \<or> char_code c = 32"

definition is_line_break :: "char \<Rightarrow> bool" where
  "is_line_break c \<longleftrightarrow> 10 \<le> char_code c \<and> char_code c \<le> 13"

text \<open>The value of a run of decimal digits.\<close>

definition digits_value :: "string \<Rightarrow> nat" where
  "digits_value s = foldl (\<lambda>a c. 10 * a + (char_code c - 48)) 0 s"

text \<open>
  \<open>strtol\<close> in base 10 where \<open>long\<close> has 64 bits: white space, a sign, digits; the value
  is clamped to the range. \<open>g_ascii_strtoll\<close> does the same. A conversion to \<open>gint\<close>
  keeps the low 32 bits.
\<close>

definition skip_sign :: "string \<Rightarrow> bool \<times> string" where
  "skip_sign s = (let t = dropWhile is_space s in
     if t \<noteq> [] \<and> hd t = CHR ''-'' then (True, tl t)
     else if t \<noteq> [] \<and> hd t = CHR ''+'' then (False, tl t) else (False, t))"

definition strtol :: "string \<Rightarrow> int" where
  "strtol s = (let (neg, t) = skip_sign s; v = int (digits_value (takeWhile is_digit t)) in
     if neg then max (- (2 ^ 63)) (- v) else min (2 ^ 63 - 1) v)"

definition to_gint :: "int \<Rightarrow> int" where
  "to_gint v = signed_take_bit 31 v"

lemma to_gint_small: "- (2 ^ 31) \<le> v \<Longrightarrow> v < 2 ^ 31 \<Longrightarrow> to_gint v = v"
  unfolding to_gint_def by (rule signed_take_bit_int_eq_self) simp_all

text \<open>\<open>g_ascii_strtoull\<close>: a minus sign negates modulo \<open>2 ^ 64\<close>.\<close>

definition strtoull :: "string \<Rightarrow> u64" where
  "strtoull s = (let (neg, t) = skip_sign s; v = digits_value (takeWhile is_digit t) in
     if 2 ^ 64 \<le> v then - 1 else if neg then - of_nat v else of_nat v)"

text \<open>\<open>g_strdup_printf\<close> of an unsigned number\<close>

fun decimal :: "nat \<Rightarrow> string" where
  "decimal n = (if n < 10 then [char_of (48 + n)] else decimal (n div 10) @ [char_of (48 + n mod 10)])"

declare decimal.simps [simp del]

text \<open>\<open>g_strsplit\<close> at a delimiter of one character: all pieces, or at most \<open>k + 1\<close>.\<close>

fun split_at :: "char \<Rightarrow> string \<Rightarrow> string list" where
  "split_at d [] = [[]]"
| "split_at d (c # cs) =
     (if c = d then [] # split_at d cs
      else (c # hd (split_at d cs)) # tl (split_at d cs))"

fun split_max :: "nat \<Rightarrow> char \<Rightarrow> string \<Rightarrow> string list" where
  "split_max 0 d s = [s]"
| "split_max (Suc k) d s =
     (if d \<in> set s then takeWhile (\<lambda>c. c \<noteq> d) s # split_max k d (tl (dropWhile (\<lambda>c. c \<noteq> d) s))
      else [s])"

definition strsplit :: "char \<Rightarrow> string \<Rightarrow> string list" where
  "strsplit d s = (if s = [] then [] else split_at d s)"

definition strsplit_max :: "nat \<Rightarrow> char \<Rightarrow> string \<Rightarrow> string list" where
  "strsplit_max k d s = (if s = [] then [] else split_max k d s)"

text \<open>An entry of a NULL terminated vector: NULL is the entry behind the last.\<close>

definition strv_at :: "string list \<Rightarrow> nat \<Rightarrow> c_fault + string option" where
  "strv_at v i = (if i < length v then Inr (Some (v ! i))
     else if i = length v then Inr None else Inl Out_of_bounds)"

definition str_prefix :: "string \<Rightarrow> string \<Rightarrow> bool" where
  "str_prefix p s \<longleftrightarrow> take (length p) s = p"

lemma split_at_ne [simp]: "split_at d s \<noteq> []"
  by (induction s) auto

lemma split_at_head: "hd (split_at d s) = takeWhile (\<lambda>c. c \<noteq> d) s"
  by (induction s) auto

lemma strsplit_at_0: "strv_at (strsplit d s) 0 = Inr (if s = [] then None else Some (takeWhile (\<lambda>c. c \<noteq> d) s))"
  by (simp add: strv_at_def strsplit_def split_at_head flip: hd_conv_nth)

lemma split_at_join: "d \<notin> set p \<Longrightarrow> split_at d (p @ d # s) = p # split_at d s"
  by (induction p) auto

lemma split_at_none: "d \<notin> set p \<Longrightarrow> split_at d p = [p]"
  by (induction p) auto

subsection \<open>Numbers that are printed and read back\<close>

lemma char_code_char_of: "n < 256 \<Longrightarrow> char_code (char_of n) = n"
  by (simp add: char_code_def)

lemma digit_char [simp]: "(n :: nat) < 10 \<Longrightarrow> is_digit (char_of (48 + n))"
  by (simp add: is_digit_def char_code_char_of)

lemma digits_value_snoc: "digits_value (s @ [c]) = 10 * digits_value s + (char_code c - 48)"
  by (simp add: digits_value_def)

lemma decimal_digits: "list_all is_digit (decimal n)"
proof (induction n rule: decimal.induct)
  case (1 n)
  then show ?case
    by (subst decimal.simps) auto
qed

lemma decimal_value: "digits_value (decimal n) = n"
proof (induction n rule: decimal.induct)
  case (1 n)
  then show ?case
    by (subst decimal.simps) (auto simp: digits_value_snoc char_code_char_of, auto simp: digits_value_def char_code_char_of)
qed

lemma decimal_inj: "decimal m = decimal n \<longleftrightarrow> m = n"
  by (metis decimal_value)

lemma decimal_ne [simp]: "decimal n \<noteq> []"
  by (subst decimal.simps) simp

lemma skip_sign_digits: "list_all is_digit s \<Longrightarrow> skip_sign s = (False, s)"
proof (cases s)
  case (Cons c t)
  assume d: "list_all is_digit s"
  then have "\<not> is_space c" "c \<noteq> CHR ''-''" "c \<noteq> CHR ''+''"
    using Cons by (auto simp: is_digit_def is_space_def char_code_def)
  then show ?thesis
    using Cons by (simp add: skip_sign_def)
qed (simp add: skip_sign_def)

lemma strtoull_digits:
  "list_all is_digit s \<Longrightarrow> digits_value s < 2 ^ 64 \<Longrightarrow> strtoull s = of_nat (digits_value s)"
  by (simp add: strtoull_def skip_sign_digits takeWhile_eq_all_conv [THEN iffD2] list_all_iff)

lemma strtoull_decimal: "strtoull (decimal (unat v)) = v"
proof -
  have "unat v < 2 ^ 64" using unsigned_less [of v] by simp
  then show ?thesis
    using strtoull_digits [OF decimal_digits, of "unat v"] by (simp add: decimal_value)
qed

lemma strtol_digits:
  "list_all is_digit s \<Longrightarrow> strtol s = min (2 ^ 63 - 1) (int (digits_value s))"
  by (simp add: strtol_def skip_sign_digits takeWhile_eq_all_conv [THEN iffD2] list_all_iff)

section \<open>The structs of an SDP message\<close>

text \<open>\<open>GstSDPDirection\<close> of \<open>gstsdpdirection.h\<close>\<close>

datatype sdp_direction = SENDONLY | RECVONLY | SENDRECV | INACTIVE

record sdp_attr =
  sa_key :: string
  sa_value :: "string option"

record sdp_key =
  sk_type :: "string option"
  sk_data :: "string option"

record sdp_media =
  sm_media :: "string option"
  sm_port :: u32
  sm_num_ports :: u32
  sm_proto :: "string option"
  sm_fmts :: "string list"
  sm_information :: "string option"
  sm_bandwidths :: "(string \<times> u32) list"
  sm_key :: sdp_key
  sm_attrs :: "sdp_attr list"

text \<open>\<open>gst_sdp_media_new\<close>\<close>

definition sdp_media_new :: sdp_media where
  "sdp_media_new = \<lparr>sm_media = None, sm_port = 0, sm_num_ports = 0, sm_proto = None, sm_fmts = [],
     sm_information = None, sm_bandwidths = [], sm_key = \<lparr>sk_type = None, sk_data = None\<rparr>, sm_attrs = []\<rparr>"

record sdp_origin =
  so_username :: "string option"
  so_sess_id :: "string option"
  so_sess_version :: "string option"
  so_nettype :: "string option"
  so_addrtype :: "string option"
  so_addr :: "string option"

text \<open>\<open>sg_connection\<close> holds the network type, address type and address of the c= line.\<close>

record sdp_message =
  sg_version :: "string option"
  sg_session_name :: "string option"
  sg_origin :: sdp_origin
  sg_connection :: "string option \<times> string option \<times> string option"
  sg_attrs :: "sdp_attr list"
  sg_medias :: "sdp_media list"

text \<open>
  \<open>gst_sdp_media_get_attribute_val_n\<close> and its twin for messages: the value of the
  \<open>n\<close>-th attribute with the key, NULL when there are not that many.
\<close>

definition attr_vals :: "sdp_attr list \<Rightarrow> string \<Rightarrow> string option list" where
  "attr_vals as k = map sa_value (filter (\<lambda>a. sa_key a = k) as)"

definition attribute_val_n :: "sdp_attr list \<Rightarrow> string \<Rightarrow> nat \<Rightarrow> string option" where
  "attribute_val_n as k n = (if n < length (attr_vals as k) then attr_vals as k ! n else None)"

abbreviation attribute_val :: "sdp_attr list \<Rightarrow> string \<Rightarrow> string option" where
  "attribute_val as k \<equiv> attribute_val_n as k 0"

definition mk_attr :: "string \<Rightarrow> string \<Rightarrow> sdp_attr" where
  "mk_attr k v = \<lparr>sa_key = k, sa_value = Some v\<rparr>"

lemma mk_attr_simps [simp]: "sa_key (mk_attr k v) = k" "sa_value (mk_attr k v) = Some v"
  by (simp_all add: mk_attr_def)

definition attrs_add :: "string \<Rightarrow> string option \<Rightarrow> sdp_attr list \<Rightarrow> sdp_attr list" where
  "attrs_add k v as = as @ [\<lparr>sa_key = k, sa_value = v\<rparr>]"

definition remove_at :: "nat \<Rightarrow> 'a list \<Rightarrow> 'a list" where
  "remove_at i xs = take i xs @ drop (Suc i) xs"

lemma attr_vals_simps [simp]:
  "attr_vals [] k = []"
  "attr_vals (a # as) k = (if sa_key a = k then sa_value a # attr_vals as k else attr_vals as k)"
  "attr_vals (as @ bs) k = attr_vals as k @ attr_vals bs k"
  by (simp_all add: attr_vals_def)

lemma attribute_val_n_less: "attribute_val_n as k n = Some v \<Longrightarrow> n < length as"
  using length_filter_le [of "\<lambda>a. sa_key a = k" as]
  by (auto simp: attribute_val_n_def attr_vals_def split: if_splits intro: order.strict_trans2)

lemma attribute_val_cases:
  "attribute_val as k = (case attr_vals as k of [] \<Rightarrow> None | v # _ \<Rightarrow> v)"
  by (cases "attr_vals as k") (simp_all add: attribute_val_n_def)

text \<open>
  The loops over the values of a key stop at the first NULL. What they see is the list of
  values in front of it.
\<close>

definition seen_vals :: "sdp_attr list \<Rightarrow> string \<Rightarrow> string list" where
  "seen_vals as k = map the (takeWhile (\<lambda>v. v \<noteq> None) (attr_vals as k))"

text \<open>
  \<open>for (i = 0;; i++)\<close> over the values of a key: \<open>f\<close> gives the result with which the loop
  is left, if the value ends it; the end of the values gives \<open>d\<close>.
\<close>

function scan_vals :: "sdp_attr list \<Rightarrow> string \<Rightarrow> (string \<Rightarrow> 'r option) \<Rightarrow> 'r \<Rightarrow> nat \<Rightarrow> 'r" where
  "scan_vals as k f d i = (case attribute_val_n as k i of None \<Rightarrow> d
     | Some v \<Rightarrow> (case f v of Some r \<Rightarrow> r | None \<Rightarrow> scan_vals as k f d (Suc i)))"
  by auto
termination
  by (relation "measure (\<lambda>(as, k, f, d, i). length as - i)")
    (auto dest: attribute_val_n_less)

declare scan_vals.simps [simp del]

fun first_result :: "('a \<Rightarrow> 'r option) \<Rightarrow> 'r \<Rightarrow> 'a list \<Rightarrow> 'r" where
  "first_result f d [] = d"
| "first_result f d (v # vs) = (case f v of Some r \<Rightarrow> r | None \<Rightarrow> first_result f d vs)"

lemma scan_vals_drop:
  "scan_vals as k f d i =
     first_result f d (map the (takeWhile (\<lambda>v. v \<noteq> None) (drop i (attr_vals as k))))"
proof (induction as k f d i rule: scan_vals.induct)
  case (1 as k f d i)
  show ?case
  proof (cases "attribute_val_n as k i")
    case None
    then have "drop i (attr_vals as k) = [] \<or> (\<exists>vs. drop i (attr_vals as k) = None # vs)"
      by (auto simp: attribute_val_n_def Cons_nth_drop_Suc [symmetric] split: if_splits)
    then show ?thesis using None by (subst scan_vals.simps) auto
  next
    case (Some v)
    then have "drop i (attr_vals as k) = Some v # drop (Suc i) (attr_vals as k)"
      by (auto simp: attribute_val_n_def Cons_nth_drop_Suc [symmetric] split: if_splits)
    then show ?thesis
      using Some 1 by (subst scan_vals.simps) (auto split: option.split)
  qed
qed

lemma scan_vals_first: "scan_vals as k f d 0 = first_result f d (seen_vals as k)"
  by (simp add: scan_vals_drop seen_vals_def)

lemma first_result_find:
  "first_result (\<lambda>v. if P v then Some (g v) else None) d vs =
     (case find P vs of None \<Rightarrow> d | Some v \<Rightarrow> g v)"
  by (induction vs) auto

lemma first_result_True:
  "first_result (\<lambda>v. if P v then Some True else None) False vs \<longleftrightarrow> (\<exists>v \<in> set vs. P v)"
  by (induction vs) auto

lemma seen_vals_total:
  "\<forall>a \<in> set as. sa_value a \<noteq> None \<Longrightarrow> map Some (seen_vals as k) = attr_vals as k"
proof -
  assume a: "\<forall>a \<in> set as. sa_value a \<noteq> None"
  then have "\<forall>v \<in> set (attr_vals as k). v \<noteq> None" by (auto simp: attr_vals_def)
  then show ?thesis
    by (simp add: seen_vals_def takeWhile_eq_all_conv [THEN iffD2] map_idI)
qed

end
