(* ===== verification/SdpUtils.thy ===== *)
theory SdpUtils
  imports GstSdp
begin

text \<open>
  The helpers of \<open>sdp_utils.c\<close> over a \<open>GstSDPMedia\<close> or a \<open>GstSDPMessage\<close>: directions,
  the attributes of an answer, SSRCs, payload types and the comparison of two descriptions.
  A loop over attributes is a recursion over the list; the loops that ask for the \<open>n\<close>-th
  value of a key are \<open>scan_vals\<close>. The only loop that can run forever, whose counter has
  eight bits, is a partial function. Reading behind the end of an array or through a NULL
  pointer is a fault.
\<close>

section \<open>Directions\<close>

fun dir_str :: "sdp_direction \<Rightarrow> string" where
  "dir_str SENDONLY = ''sendonly''"
| "dir_str RECVONLY = ''recvonly''"
| "dir_str SENDRECV = ''sendrecv''"
| "dir_str INACTIVE = ''inactive''"

definition directions :: "sdp_direction list" where
  "directions = [SENDONLY, RECVONLY, SENDRECV, INACTIVE]"

text \<open>\<open>None\<close> is FALSE, otherwise the direction that is stored through the pointer.\<close>

definition sdp_utils_attribute_is_direction :: "sdp_attr \<Rightarrow> sdp_direction option" where
  "sdp_utils_attribute_is_direction a = find (\<lambda>d. ascii_caseeq (sa_key a) (dir_str d)) directions"

fun get_direction_loop :: "sdp_attr list \<Rightarrow> sdp_direction \<Rightarrow> sdp_direction" where
  "get_direction_loop [] dir = dir"
| "get_direction_loop (a # as) dir =
     (case sdp_utils_attribute_is_direction a of Some d \<Rightarrow> d | None \<Rightarrow> get_direction_loop as dir)"

definition sdp_utils_media_config_get_direction :: "sdp_media \<Rightarrow> sdp_direction" where
  "sdp_utils_media_config_get_direction media = get_direction_loop (sm_attrs media) SENDRECV"

text \<open>The number of attributes is read once, before the loop that removes some.\<close>

function set_direction_loop :: "nat \<Rightarrow> nat \<Rightarrow> sdp_attr list \<Rightarrow> c_fault + sdp_attr list" where
  "set_direction_loop i len as =
     (if \<not> i < len then Inr as
      else if \<not> i < length as then Inl Out_of_bounds
      else if sdp_utils_attribute_is_direction (as ! i) \<noteq> None
      then set_direction_loop (Suc i) len (remove_at i as)
      else set_direction_loop (Suc i) len as)"
  by auto
termination
  by (relation "measure (\<lambda>(i, len, as). len - i)") auto

declare set_direction_loop.simps [simp del]

definition sdp_utils_media_config_set_direction :: "sdp_media \<Rightarrow> sdp_direction \<Rightarrow> c_fault + sdp_media" where
  "sdp_utils_media_config_set_direction media direction =
     bind_result (set_direction_loop 0 (length (sm_attrs media)) (sm_attrs media))
       (\<lambda>as. Inr (media\<lparr>sm_attrs := attrs_add (dir_str direction) (Some '''') as\<rparr>))"

section \<open>SSRCs\<close>

text \<open>
  The regular expressions \<open>^(?<ssrc>[0-9]+)(.*)?$\<close> and \<open>^FID (?<ssrcs>[0-9 ]+)$\<close> with
  their named group, for values without a line break at their end (they are parts of lines).
\<close>

definition ssrc_regex :: "string \<Rightarrow> string option" where
  "ssrc_regex v = (let d = takeWhile is_digit v; r = dropWhile is_digit v in
     if d = [] \<or> list_ex is_line_break r then None else Some d)"

definition fid_regex :: "string \<Rightarrow> string option" where
  "fid_regex v = (let r = drop 4 v in
     if str_prefix ''FID '' v \<and> r \<noteq> [] \<and> list_all (\<lambda>c. is_digit c \<or> c = CHR '' '') r then Some r else None)"

definition SSRC_INVALID :: u32 where
  "SSRC_INVALID = - 1"

definition sdp_media_get_ssrc_str :: "sdp_media \<Rightarrow> string option" where
  "sdp_media_get_ssrc_str media = (case attribute_val (sm_attrs media) ''ssrc'' of
     None \<Rightarrow> None | Some val \<Rightarrow> ssrc_regex val)"

definition ssrc_str_to_uint :: "string \<Rightarrow> u32" where
  "ssrc_str_to_uint ssrc_str = (let val = strtol ssrc_str in
     if val > 2 ^ 32 - 1 then 0 else word_of_int val)"

definition sdp_utils_media_get_ssrc :: "sdp_media \<Rightarrow> u32" where
  "sdp_utils_media_get_ssrc media = (case sdp_media_get_ssrc_str media of
     None \<Rightarrow> SSRC_INVALID | Some s \<Rightarrow> ssrc_str_to_uint s)"

definition sdp_media_get_fid_ssrcs_str :: "sdp_media \<Rightarrow> string list option" where
  "sdp_media_get_fid_ssrcs_str media = (case attribute_val (sm_attrs media) ''ssrc-group'' of
     None \<Rightarrow> None
   | Some val \<Rightarrow> (case fid_regex val of None \<Rightarrow> None | Some s \<Rightarrow> Some (strsplit (CHR '' '') s)))"

definition sdp_utils_media_get_fid_ssrc :: "sdp_media \<Rightarrow> nat \<Rightarrow> u32" where
  "sdp_utils_media_get_fid_ssrc media pos = (case sdp_media_get_fid_ssrcs_str media of
     None \<Rightarrow> SSRC_INVALID
   | Some ssrcs \<Rightarrow> (if length ssrcs \<le> pos then SSRC_INVALID else ssrc_str_to_uint (ssrcs ! pos)))"

section \<open>Payload types\<close>

definition rtpmaps :: "string option list" where
  "rtpmaps = [Some ''PCMU/8000/1'', None, None, Some ''GSM/8000/1'', Some ''G723/8000/1'',
     Some ''DVI4/8000/1'', Some ''DVI4/16000/1'', Some ''LPC/8000/1'', Some ''PCMA/8000/1'',
     Some ''G722/8000/1'', Some ''L16/44100/2'', Some ''L16/44100/1'', Some ''QCELP/8000/1'',
     Some ''CN/8000/1'', Some ''MPA/90000'', Some ''G728/8000/1'', Some ''DVI4/11025/1'',
     Some ''DVI4/22050/1'', Some ''G729/8000/1'', None, None, None, None, None, None,
     Some ''CelB/90000'', Some ''JPEG/90000'', None, Some ''nv/90000'', None, None,
     Some ''H261/90000'', Some ''MPV/90000'', Some ''MP2T/90000'', Some ''H263/90000'']"

definition after_space :: "string \<Rightarrow> string option" where
  "after_space v = (if CHR '' '' \<in> set v then Some (tl (dropWhile (\<lambda>c. c \<noteq> CHR '' '') v)) else None)"

fun rtpmap_loop :: "sdp_attr list \<Rightarrow> string \<Rightarrow> string option" where
  "rtpmap_loop [] format = None"
| "rtpmap_loop (a # as) format =
     (case sa_value a of
        Some v \<Rightarrow>
          (if ascii_caseeq ''rtpmap'' (sa_key a) \<and> str_prefix format v
           then (case after_space v of Some r \<Rightarrow> Some r | None \<Rightarrow> rtpmap_loop as format)
           else rtpmap_loop as format)
      | None \<Rightarrow> rtpmap_loop as format)"

definition static_rtpmap :: "string \<Rightarrow> c_fault + string option" where
  "static_rtpmap format =
     (if \<not> list_all is_digit format then Inr None
      else let pt = to_gint (strtol format) in
        if pt > 34 then Inr None
        else if pt < 0 then Inl Out_of_bounds
        else Inr (rtpmaps ! nat pt))"

definition sdp_utils_sdp_media_get_rtpmap :: "sdp_media \<Rightarrow> string \<Rightarrow> c_fault + string option" where
  "sdp_utils_sdp_media_get_rtpmap media format =
     (case rtpmap_loop (sm_attrs media) format of
        Some r \<Rightarrow> Inr (Some r)
      | None \<Rightarrow> static_rtpmap format)"

definition sdp_utils_sdp_media_get_fmtp :: "sdp_media \<Rightarrow> string \<Rightarrow> string option" where
  "sdp_utils_sdp_media_get_fmtp media format =
     scan_vals (sm_attrs media) ''fmtp''
       (\<lambda>attr_val. case strsplit (CHR '' '') attr_val of
            [] \<Rightarrow> None
          | t # _ \<Rightarrow> (if t = format then Some (Some attr_val) else None)) None 0"

definition sdp_utils_get_attr_map_value :: "sdp_media \<Rightarrow> string \<Rightarrow> string option \<Rightarrow> string option" where
  "sdp_utils_get_attr_map_value media name fmt =
     scan_vals (sm_attrs media) name
       (\<lambda>val. if fmt = (case strsplit (CHR '' '') val of [] \<Rightarrow> None | t # _ \<Rightarrow> Some t)
          then Some (Some val) else None) None 0"

text \<open>\<open>Inr None\<close> is FALSE, otherwise the codec name and the clock rate that are stored.\<close>

definition sdp_utils_get_data_from_rtpmap :: "string option \<Rightarrow> c_fault + (string \<times> int) option" where
  "sdp_utils_get_data_from_rtpmap rtpmap = (case rtpmap of
     None \<Rightarrow> Inl Null_dereference
   | Some r \<Rightarrow> (case strsplit_max 2 (CHR ''/'') r of
        t0 # t1 # _ \<Rightarrow> Inr (Some (t0, to_gint (strtol t1)))
      | _ \<Rightarrow> Inr None))"

definition sdp_utils_is_pt_in_fmts :: "sdp_media \<Rightarrow> int \<Rightarrow> bool" where
  "sdp_utils_is_pt_in_fmts media pt \<longleftrightarrow> list_ex (\<lambda>f. to_gint (strtol f) = pt) (sm_fmts media)"

text \<open>
  What one rtpmap value does in the search for a codec: \<open>None\<close> goes on with the next one.
  \<open>match_string\<close> is \<open>g_str_match_string (_, _, TRUE)\<close>, a search in words of Unicode text.
\<close>

definition rtpmap_codec_hit ::
  "(string \<Rightarrow> string \<Rightarrow> bool) \<Rightarrow> sdp_media \<Rightarrow> string \<Rightarrow> string \<Rightarrow> (int \<times> int) option" where
  "rtpmap_codec_hit match_string media codec val =
     (if \<not> match_string codec val then None
      else case strsplit (CHR '' '') val of
          t0 # t1 # _ \<Rightarrow>
            (if \<not> sdp_utils_is_pt_in_fmts media (to_gint (strtol t0)) then None
             else case sdp_utils_get_data_from_rtpmap (Some t1) of
                 Inr (Some (_, clock_rate)) \<Rightarrow> Some (to_gint (strtol t0), clock_rate)
               | _ \<Rightarrow> None)
        | _ \<Rightarrow> None)"

partial_function (option) rtpmap_codec_loop ::
  "(string \<Rightarrow> string \<Rightarrow> bool) \<Rightarrow> sdp_media \<Rightarrow> string \<Rightarrow> u8 \<Rightarrow> (int \<times> int) option option" where
  "rtpmap_codec_loop match_string media codec i =
     (case attribute_val_n (sm_attrs media) ''rtpmap'' (unat i) of
        None \<Rightarrow> Some None
      | Some val \<Rightarrow>
          (case rtpmap_codec_hit match_string media codec val of
             Some r \<Rightarrow> Some (Some r)
           | None \<Rightarrow> rtpmap_codec_loop match_string media codec (i + 1)))"

text \<open>\<open>None\<close>: the call never returns. \<open>Some None\<close>: FALSE.\<close>

definition sdp_utils_get_data_from_rtpmap_codec ::
  "(string \<Rightarrow> string \<Rightarrow> bool) \<Rightarrow> sdp_media \<Rightarrow> string \<Rightarrow> (int \<times> int) option option" where
  "sdp_utils_get_data_from_rtpmap_codec match_string media codec =
     rtpmap_codec_loop match_string media codec 0"

fun pt_for_codec_loop :: "sdp_media \<Rightarrow> string option \<Rightarrow> string list \<Rightarrow> c_fault + int" where
  "pt_for_codec_loop media codec_name [] = Inr (- 1)"
| "pt_for_codec_loop media codec_name (payload # fs) =
     bind_result (sdp_utils_sdp_media_get_rtpmap media payload) (\<lambda>rtpmap.
     bind_result (sdp_utils_get_data_from_rtpmap rtpmap) (\<lambda>data.
       case data of
         None \<Rightarrow> pt_for_codec_loop media codec_name fs
       | Some (found_codec_name, _) \<Rightarrow>
           (let pt = to_gint (strtol payload) in
            if Some found_codec_name = codec_name \<and> pt \<noteq> - 1 then Inr pt
            else pt_for_codec_loop media codec_name fs)))"

definition sdp_utils_get_pt_for_codec_name :: "sdp_media \<Rightarrow> string option \<Rightarrow> c_fault + int" where
  "sdp_utils_get_pt_for_codec_name media codec_name =
     pt_for_codec_loop media codec_name (sm_fmts media)"

definition RTP_HDR_EXT_ABS_SEND_TIME_URI :: string where
  "RTP_HDR_EXT_ABS_SEND_TIME_URI = ''http://www.webrtc.org/experiments/rtp-hdrext/abs-send-time''"

definition sdp_utils_get_abs_send_time_id :: "sdp_media \<Rightarrow> c_fault + int" where
  "sdp_utils_get_abs_send_time_id media =
     scan_vals (sm_attrs media) ''extmap''
       (\<lambda>attr. let tokens = strsplit (CHR '' '') attr in
          case strv_at tokens 1 of
            Inl e \<Rightarrow> Some (Inl e)
          | Inr t \<Rightarrow>
              (if t = Some RTP_HDR_EXT_ABS_SEND_TIME_URI then Some (Inr (to_gint (strtol (tokens ! 0))))
               else None)) (Inr (- 1)) 0"

section \<open>The attributes of an answer\<close>

definition sdp_utils_add_setup_attribute :: "sdp_attr \<Rightarrow> sdp_attr" where
  "sdp_utils_add_setup_attribute attr = mk_attr (sa_key attr)
     (if sa_value attr = Some ''active'' then ''passive''
      else if sa_value attr = Some ''passive'' then ''active''
      else if sa_value attr = Some ''actpass'' then ''active''
      else ''holdconn'')"

definition sdp_utils_add_comedia_attribute :: "sdp_attr \<Rightarrow> sdp_attr" where
  "sdp_utils_add_comedia_attribute attr = mk_attr (sa_key attr)
     (if sa_value attr = Some ''active'' then ''passive'' else ''active'')"

definition sdp_utils_set_direction_answer :: "sdp_attr \<Rightarrow> sdp_attr option" where
  "sdp_utils_set_direction_answer attr =
     (if ascii_caseeq (sa_key attr) (dir_str SENDONLY) then Some (mk_attr (dir_str RECVONLY) '''')
      else if ascii_caseeq (sa_key attr) (dir_str RECVONLY) then Some (mk_attr (dir_str SENDONLY) '''')
      else if ascii_caseeq (sa_key attr) (dir_str SENDRECV) then Some (mk_attr (dir_str SENDRECV) '''')
      else if ascii_caseeq (sa_key attr) (dir_str INACTIVE) then Some (mk_attr (dir_str INACTIVE) '''')
      else None)"

definition answer_attribute :: "sdp_attr \<Rightarrow> sdp_attr option" where
  "answer_attribute attr =
     (if sa_key attr = ''setup'' then Some (sdp_utils_add_setup_attribute attr)
      else if sa_key attr = ''direction'' then Some (sdp_utils_add_comedia_attribute attr)
      else if sa_key attr = ''connection'' then Some (mk_attr ''connection'' ''new'')
      else if sdp_utils_attribute_is_direction attr \<noteq> None then sdp_utils_set_direction_answer attr
      else Some attr)"

text \<open>
  The callback gets the answer's attribute and the user data, whose new state is its result;
  what it returns is ignored. \<open>False\<close> is the FALSE of the function.
\<close>

definition intersect_attribute ::
  "sdp_attr \<Rightarrow> (sdp_attr \<Rightarrow> 's \<Rightarrow> 's) option \<Rightarrow> 's \<Rightarrow> bool \<times> 's" where
  "intersect_attribute attr func user_data = (case answer_attribute attr of
     None \<Rightarrow> (False, user_data)
   | Some a \<Rightarrow> (True, (case func of None \<Rightarrow> user_data | Some f \<Rightarrow> f a user_data)))"

fun intersect_loop :: "sdp_attr list \<Rightarrow> (sdp_attr \<Rightarrow> 's \<Rightarrow> 's) option \<Rightarrow> 's \<Rightarrow> bool \<times> 's" where
  "intersect_loop [] func user_data = (True, user_data)"
| "intersect_loop (a # as) func user_data =
     (let (ok, user_data') = intersect_attribute a func user_data in
      if \<not> ok then (False, user_data') else intersect_loop as func user_data')"

definition sdp_utils_intersect_session_attributes ::
  "sdp_message \<Rightarrow> (sdp_attr \<Rightarrow> 's \<Rightarrow> 's) option \<Rightarrow> 's \<Rightarrow> bool \<times> 's" where
  "sdp_utils_intersect_session_attributes msg func user_data = intersect_loop (sg_attrs msg) func user_data"

definition sdp_utils_intersect_media_attributes ::
  "sdp_media \<Rightarrow> (sdp_attr \<Rightarrow> 's \<Rightarrow> 's) option \<Rightarrow> 's \<Rightarrow> bool \<times> 's" where
  "sdp_utils_intersect_media_attributes offer func user_data = intersect_loop (sm_attrs offer) func user_data"

fun for_each_loop :: "sdp_media list \<Rightarrow> (sdp_media \<Rightarrow> 's \<Rightarrow> bool \<times> 's) \<Rightarrow> 's \<Rightarrow> bool \<times> 's" where
  "for_each_loop [] func user_data = (True, user_data)"
| "for_each_loop (m # ms) func user_data =
     (let (ok, user_data') = func m user_data in
      if \<not> ok then (False, user_data') else for_each_loop ms func user_data')"

definition sdp_utils_for_each_media ::
  "sdp_message \<Rightarrow> (sdp_media \<Rightarrow> 's \<Rightarrow> bool \<times> 's) \<Rightarrow> 's \<Rightarrow> bool \<times> 's" where
  "sdp_utils_for_each_media msg func user_data = for_each_loop (sg_medias msg) func user_data"

section \<open>Questions about a media\<close>

definition sdp_utils_is_attribute_in_media :: "sdp_media \<Rightarrow> sdp_attr \<Rightarrow> bool" where
  "sdp_utils_is_attribute_in_media media attr \<longleftrightarrow>
     list_ex (\<lambda>a. sa_key attr = sa_key a \<and> sa_value attr = sa_value a) (sm_attrs media)"

definition sdp_utils_media_is_active :: "sdp_media \<Rightarrow> bool \<Rightarrow> bool" where
  "sdp_utils_media_is_active media offerer =
     (case attribute_val_n (sm_attrs media) ''setup'' 0 of
        None \<Rightarrow> \<not> offerer
      | Some attr \<Rightarrow>
          (if offerer then
             (if attr = ''active'' then False else if attr = ''passive'' then True else \<not> offerer)
           else
             (if attr = ''active'' then True else if attr = ''passive'' then False else \<not> offerer)))"

definition sdp_utils_rtcp_fb_attr_check_type :: "string \<Rightarrow> string \<Rightarrow> string \<Rightarrow> bool" where
  "sdp_utils_rtcp_fb_attr_check_type attr pt type \<longleftrightarrow> attr = pt @ '' '' @ type"

definition sdp_utils_media_has_remb :: "sdp_media \<Rightarrow> bool" where
  "sdp_utils_media_has_remb media = (case sm_fmts media of
     [] \<Rightarrow> False
   | payload # _ \<Rightarrow> scan_vals (sm_attrs media) ''rtcp-fb''
       (\<lambda>attr. if sdp_utils_rtcp_fb_attr_check_type attr payload ''goog-remb'' then Some True else None)
       False 0)"

definition sdp_utils_media_has_rtcp_nack :: "sdp_media \<Rightarrow> bool" where
  "sdp_utils_media_has_rtcp_nack media = (case sm_fmts media of
     [] \<Rightarrow> False
   | payload # _ \<Rightarrow> scan_vals (sm_attrs media) ''rtcp-fb''
       (\<lambda>attr. if sdp_utils_rtcp_fb_attr_check_type attr payload ''nack'' then Some True else None)
       False 0)"

definition sdp_utils_media_is_inactive :: "sdp_media \<Rightarrow> bool" where
  "sdp_utils_media_is_inactive media \<longleftrightarrow>
     attribute_val (sm_attrs media) ''inactive'' \<noteq> None \<or> sm_port media = 0"

section \<open>Comparing two descriptions\<close>

definition contains_attr :: "sdp_attr list \<Rightarrow> sdp_attr \<Rightarrow> bool" where
  "contains_attr as attr =
     scan_vals as (sa_key attr) (\<lambda>val. if sa_value attr = Some val then Some True else None) False 0"

definition sdp_media_contains_attr :: "sdp_media \<Rightarrow> sdp_attr \<Rightarrow> bool" where
  "sdp_media_contains_attr m attr = contains_attr (sm_attrs m) attr"

definition sdp_media_equal_attributes :: "sdp_media \<Rightarrow> sdp_media \<Rightarrow> bool" where
  "sdp_media_equal_attributes m1 m2 \<longleftrightarrow>
     length (sm_attrs m1) = length (sm_attrs m2) \<and>
     list_all (\<lambda>attr. sdp_media_contains_attr m2 attr) (sm_attrs m1)"

fun fmts_equal_loop :: "string list \<Rightarrow> string list \<Rightarrow> bool" where
  "fmts_equal_loop (f1 # fs1) (f2 # fs2) = (if f1 \<noteq> f2 then False else fmts_equal_loop fs1 fs2)"
| "fmts_equal_loop _ _ = True"

definition sdp_media_fmts_equal :: "sdp_media \<Rightarrow> sdp_media \<Rightarrow> bool" where
  "sdp_media_fmts_equal m1 m2 \<longleftrightarrow>
     length (sm_fmts m1) = length (sm_fmts m2) \<and> fmts_equal_loop (sm_fmts m1) (sm_fmts m2)"

definition sdp_key_equal :: "sdp_key option \<Rightarrow> sdp_key option \<Rightarrow> bool" where
  "sdp_key_equal k1 k2 = (case (k1, k2) of
     (None, None) \<Rightarrow> True
   | (Some a, Some b) \<Rightarrow> sk_type a = sk_type b \<and> sk_data a = sk_data b
   | _ \<Rightarrow> False)"

definition sdp_utils_equal_medias :: "sdp_media \<Rightarrow> sdp_media \<Rightarrow> bool" where
  "sdp_utils_equal_medias m1 m2 \<longleftrightarrow>
     sm_media m1 = sm_media m2 \<and> sm_port m1 = sm_port m2 \<and> sm_num_ports m1 = sm_num_ports m2 \<and>
     sm_proto m1 = sm_proto m2 \<and> sm_information m1 = sm_information m2 \<and>
     sdp_key_equal (Some (sm_key m1)) (Some (sm_key m2)) \<and>
     sdp_media_fmts_equal m1 m2 \<and> sdp_media_equal_attributes m1 m2"

definition sdp_message_contains_attr :: "sdp_message \<Rightarrow> sdp_attr \<Rightarrow> bool" where
  "sdp_message_contains_attr m attr = contains_attr (sg_attrs m) attr"

definition sdp_message_equal_attributes :: "sdp_message \<Rightarrow> sdp_message \<Rightarrow> bool" where
  "sdp_message_equal_attributes msg1 msg2 \<longleftrightarrow>
     length (sg_attrs msg1) = length (sg_attrs msg2) \<and>
     list_all (\<lambda>attr. sdp_message_contains_attr msg2 attr) (sg_attrs msg1)"

fun equal_medias_loop :: "sdp_media list \<Rightarrow> sdp_media list \<Rightarrow> bool" where
  "equal_medias_loop (m1 # ms1) (m2 # ms2) =
     (if \<not> sdp_utils_equal_medias m1 m2 then False else equal_medias_loop ms1 ms2)"
| "equal_medias_loop _ _ = True"

definition sdp_utils_equal_messages :: "sdp_message \<Rightarrow> sdp_message \<Rightarrow> bool" where
  "sdp_utils_equal_messages msg1 msg2 \<longleftrightarrow>
     sdp_message_equal_attributes msg1 msg2 \<and>
     length (sg_medias msg1) = length (sg_medias msg2) \<and>
     equal_medias_loop (sg_medias msg1) (sg_medias msg2)"

section \<open>Direction of an answer\<close>

text \<open>
  What the directions mean: whether the side that writes the description sends, and whether
  it receives. An answer has to exchange the two (RFC 3264, 6.1).
\<close>

fun sends :: "sdp_direction \<Rightarrow> bool" where
  "sends d \<longleftrightarrow> d = SENDONLY \<or> d = SENDRECV"

fun receives :: "sdp_direction \<Rightarrow> bool" where
  "receives d \<longleftrightarrow> d = RECVONLY \<or> d = SENDRECV"

fun direction_of :: "bool \<Rightarrow> bool \<Rightarrow> sdp_direction" where
  "direction_of True True = SENDRECV"
| "direction_of True False = SENDONLY"
| "direction_of False True = RECVONLY"
| "direction_of False False = INACTIVE"

lemma dir_str_lower [simp]: "map ascii_lower (dir_str d) = dir_str d"
  by (cases d) (simp_all add: ascii_lower_def char_code_def)

lemma dir_str_eq_iff [simp]: "dir_str d = dir_str d' \<longleftrightarrow> d = d'"
  by (cases d; cases d') simp_all

lemma no_dir_str [simp]:
  "''setup'' \<noteq> dir_str d" "''direction'' \<noteq> dir_str d" "''connection'' \<noteq> dir_str d"
  by (cases d; simp)+

declare dir_str.simps [simp del]

lemma caseeq_dir_str: "ascii_caseeq k (dir_str d) \<longleftrightarrow> map ascii_lower k = dir_str d"
  by (simp add: ascii_caseeq_def)

lemma is_direction_iff:
  "sdp_utils_attribute_is_direction a = Some d \<longleftrightarrow> map ascii_lower (sa_key a) = dir_str d"
  by (cases d) (auto simp: sdp_utils_attribute_is_direction_def directions_def caseeq_dir_str
      dest: sym)

lemma is_direction_None_iff:
  "sdp_utils_attribute_is_direction a = None \<longleftrightarrow> (\<forall>d. map ascii_lower (sa_key a) \<noteq> dir_str d)"
  using is_direction_iff [of a] by (metis not_None_eq)

lemma is_direction_mk [simp]: "sdp_utils_attribute_is_direction (mk_attr (dir_str d) v) = Some d"
  by (simp add: is_direction_iff)

lemma keyword_no_direction:
  "sa_key a \<in> {''setup'', ''direction'', ''connection''} \<Longrightarrow> sdp_utils_attribute_is_direction a = None"
  by (auto simp: is_direction_None_iff ascii_lower_def char_code_def)

lemma direction_answer:
  assumes "sdp_utils_attribute_is_direction a = Some d"
  shows "sdp_utils_set_direction_answer a = Some (mk_attr (dir_str (direction_of (receives d) (sends d))) '''')"
  using assms by (cases d) (simp_all add: is_direction_iff sdp_utils_set_direction_answer_def caseeq_dir_str)

lemma answer_attribute_ne: "answer_attribute a \<noteq> None"
  by (auto simp: answer_attribute_def direction_answer)

definition answer_of :: "sdp_attr \<Rightarrow> sdp_attr" where
  "answer_of a = the (answer_attribute a)"

lemma answer_attribute_Some: "answer_attribute a = Some (answer_of a)"
  using answer_attribute_ne [of a] by (auto simp: answer_of_def)

lemma answer_of_direction:
  "sdp_utils_attribute_is_direction (answer_of a) =
     map_option (\<lambda>d. direction_of (receives d) (sends d)) (sdp_utils_attribute_is_direction a)"
proof (cases "sa_key a \<in> {''setup'', ''direction'', ''connection''}")
  case True
  then have "sa_key (answer_of a) = sa_key a"
    by (auto simp: answer_of_def answer_attribute_def sdp_utils_add_setup_attribute_def
        sdp_utils_add_comedia_attribute_def)
  then show ?thesis
    using keyword_no_direction [of a] keyword_no_direction [of "answer_of a"] True by simp
next
  case False
  then show ?thesis
    by (cases "sdp_utils_attribute_is_direction a")
      (simp_all add: answer_of_def answer_attribute_def direction_answer)
qed

lemma intersect_loop_fold:
  "intersect_loop as (Some f) s = (True, fold (\<lambda>a. f (answer_of a)) as s)"
  by (induction as arbitrary: s) (simp_all add: intersect_attribute_def answer_attribute_Some)

lemma intersect_loop_None: "intersect_loop as None s = (True, s)"
  by (induction as) (simp_all add: intersect_attribute_def answer_attribute_Some)

text \<open>
  The answer to a media as the callers of the intersection build it: a callback that appends
  every attribute it is given.
\<close>

definition answer_media :: "sdp_media \<Rightarrow> sdp_media" where
  "answer_media offer = offer\<lparr>sm_attrs :=
     snd (sdp_utils_intersect_media_attributes offer (Some (\<lambda>a as. as @ [a])) [])\<rparr>"

lemma fold_snoc: "fold (\<lambda>a as. as @ [g a]) xs ys = ys @ map g xs"
  by (induction xs arbitrary: ys) auto

lemma answer_media_attrs: "sm_attrs (answer_media m) = map answer_of (sm_attrs m)"
  by (simp add: answer_media_def sdp_utils_intersect_media_attributes_def intersect_loop_fold fold_snoc)

lemma get_direction_loop_none:
  "list_all (\<lambda>a. sdp_utils_attribute_is_direction a = None) as \<Longrightarrow> get_direction_loop as dir = dir"
  by (induction as) auto

lemma get_direction_loop_map:
  "get_direction_loop (map answer_of as) SENDRECV =
     (let d = get_direction_loop as SENDRECV in direction_of (receives d) (sends d))"
  by (induction as) (auto simp: answer_of_direction Let_def split: option.split)

text \<open>
  The direction of the answer is the mirror of the direction of the offer, in every
  spelling and position of the attribute: the answering side sends exactly if the offering
  side receives, and receives exactly if the offering side sends. No direction means both.
\<close>

theorem answer_mirrors_direction:
  "sends (sdp_utils_media_config_get_direction (answer_media m)) =
     receives (sdp_utils_media_config_get_direction m) \<and>
   receives (sdp_utils_media_config_get_direction (answer_media m)) =
     sends (sdp_utils_media_config_get_direction m)"
  by (cases "get_direction_loop (sm_attrs m) SENDRECV")
    (simp_all add: sdp_utils_media_config_get_direction_def answer_media_attrs get_direction_loop_map Let_def)

section \<open>Which side opens the connection\<close>

text \<open>
  The two ends of a negotiated media never agree on the same role: whatever the
  description says, exactly one of them is the active side.
\<close>

theorem media_one_active_side:
  "sdp_utils_media_is_active media True \<longleftrightarrow> \<not> sdp_utils_media_is_active media False"
  by (auto simp: sdp_utils_media_is_active_def split: option.split)

lemma answer_of_keyed:
  assumes "sa_key a \<noteq> k" and no: "\<And>d. k \<noteq> dir_str d"
  shows "sa_key (answer_of a) \<noteq> k"
proof (cases "sdp_utils_attribute_is_direction a")
  case None
  then show ?thesis
    using assms by (auto simp: answer_of_def answer_attribute_def sdp_utils_add_setup_attribute_def
      sdp_utils_add_comedia_attribute_def)
next
  case (Some d)
  then have "sa_key a \<notin> {''setup'', ''direction'', ''connection''}"
    using keyword_no_direction [of a] by auto
  then show ?thesis
    using Some no [symmetric] by (simp add: answer_of_def answer_attribute_def direction_answer)
qed

lemma answer_setup:
  "attr_vals (map answer_of as) ''setup'' =
     map (\<lambda>v. sa_value (sdp_utils_add_setup_attribute \<lparr>sa_key = ''setup'', sa_value = v\<rparr>)) (attr_vals as ''setup'')"
proof (induction as)
  case Nil
  then show ?case by simp
next
  case (Cons a as)
  have "sa_key (answer_of a) = ''setup'' \<longleftrightarrow> sa_key a = ''setup''"
    using answer_of_keyed [of a "''setup''"]
    by (auto simp: answer_of_def answer_attribute_def sdp_utils_add_setup_attribute_def)
  then show ?case
    using Cons by (auto simp: answer_of_def answer_attribute_def sdp_utils_add_setup_attribute_def)
qed

text \<open>
  After an answer made from an offer, the offering side is the active one exactly if it
  had asked to be active; an offer that leaves the choice, or says nothing the code knows,
  makes the answering side active.
\<close>

theorem offerer_active_iff_asked:
  "sdp_utils_media_is_active (answer_media m) True \<longleftrightarrow>
     attribute_val (sm_attrs m) ''setup'' = Some ''active''"
proof (cases "attr_vals (sm_attrs m) ''setup''")
  case Nil
  then show ?thesis
    by (simp add: sdp_utils_media_is_active_def answer_media_attrs attribute_val_cases answer_setup)
next
  case (Cons v vs)
  then show ?thesis
    by (auto simp: sdp_utils_media_is_active_def answer_media_attrs attribute_val_cases answer_setup
        sdp_utils_add_setup_attribute_def)
qed

section \<open>Setting a direction\<close>

abbreviation is_dir :: "sdp_attr \<Rightarrow> bool" where
  "is_dir a \<equiv> sdp_utils_attribute_is_direction a \<noteq> None"

lemma set_direction_loop_done: "len \<le> i \<Longrightarrow> set_direction_loop i len as = Inr as"
  by (subst set_direction_loop.simps) simp

lemma length_remove_at: "i < length as \<Longrightarrow> length (remove_at i as) = length as - 1"
  by (simp add: remove_at_def)

lemma set_direction_loop_short:
  "length as < len \<Longrightarrow> i < len \<Longrightarrow> set_direction_loop i len as = Inl Out_of_bounds"
proof (induction i len as rule: set_direction_loop.induct)
  case (1 i len as)
  show ?case
  proof (cases "i < length as")
    case True
    then have "Suc i < len" using 1 by simp
    then show ?thesis
      using 1 True by (subst set_direction_loop.simps) (auto simp: length_remove_at)
  next
    case False
    then show ?thesis using 1 by (subst set_direction_loop.simps) simp
  qed
qed

lemma set_direction_loop_none:
  "\<not> list_ex is_dir (drop i as) \<Longrightarrow> set_direction_loop i (length as) as = Inr as"
proof (induction i "length as" as rule: set_direction_loop.induct)
  case (1 i as)
  show ?case
  proof (cases "i < length as")
    case True
    then have d: "drop i as = as ! i # drop (Suc i) as" by (rule Cons_nth_drop_Suc [symmetric])
    then show ?thesis
      using 1 True by (subst set_direction_loop.simps) auto
  qed (simp add: set_direction_loop_done)
qed

lemma set_direction_loop_found:
  assumes "j < length as" and "is_dir (as ! j)" and "\<And>k. i \<le> k \<Longrightarrow> k < j \<Longrightarrow> \<not> is_dir (as ! k)"
    and "i \<le> j"
  shows "set_direction_loop i (length as) as =
     (if Suc j = length as then Inr (butlast as) else Inl Out_of_bounds)"
  using assms
proof (induction "j - i" arbitrary: i)
  case 0
  then have i: "i = j" by simp
  have "set_direction_loop i (length as) as = set_direction_loop (Suc i) (length as) (remove_at i as)"
    using 0 i by (subst set_direction_loop.simps) simp
  also have "\<dots> = (if Suc j = length as then Inr (butlast as) else Inl Out_of_bounds)"
  proof (cases "Suc j = length as")
    case True
    then have "remove_at i as = butlast as"
      using i by (simp add: remove_at_def butlast_conv_take True [symmetric])
    then show ?thesis using True i by (simp add: set_direction_loop_done)
  next
    case False
    then show ?thesis
      using 0(2) i by (simp add: set_direction_loop_short length_remove_at)
  qed
  finally show ?case .
next
  case (Suc n)
  then have i: "i < j" "\<not> is_dir (as ! i)" by auto
  have "set_direction_loop i (length as) as = set_direction_loop (Suc i) (length as) as"
    using Suc(3) i by (subst set_direction_loop.simps) simp
  then show ?case
    using Suc i by simp
qed

lemma set_direction_loop_0:
  "set_direction_loop 0 (length as) as =
     (if list_ex is_dir (butlast as) then Inl Out_of_bounds
      else Inr (filter (\<lambda>a. \<not> is_dir a) as))"
proof (cases "list_ex is_dir as")
  case False
  moreover have "\<not> list_ex is_dir (butlast as)"
    using False by (auto simp: list_ex_iff dest: in_set_butlastD)
  ultimately show ?thesis
    using set_direction_loop_none [of 0 as] by (auto simp: list_ex_iff filter_id_conv)
next
  case True
  define j where "j = (LEAST j. j < length as \<and> is_dir (as ! j))"
  obtain k where k: "k < length as \<and> is_dir (as ! k)"
    using True by (auto simp: list_ex_length)
  have j: "j < length as \<and> is_dir (as ! j)"
    unfolding j_def using k by (rule LeastI)
  have least: "\<not> is_dir (as ! l)" if "l < j" for l
    using not_less_Least [of l "\<lambda>j. j < length as \<and> is_dir (as ! j)"] that j unfolding j_def by force
  have ran: "set_direction_loop 0 (length as) as =
      (if Suc j = length as then Inr (butlast as) else Inl Out_of_bounds)"
    by (rule set_direction_loop_found) (use j least in auto)
  have "list_ex is_dir (butlast as) \<longleftrightarrow> Suc j \<noteq> length as"
  proof
    assume "list_ex is_dir (butlast as)"
    then obtain l where l: "l < length as - 1" "is_dir (as ! l)"
      by (auto simp: list_ex_length nth_butlast)
    then have "j \<le> l" using least [of l] by (metis not_le)
    then show "Suc j \<noteq> length as" using l by simp
  next
    assume "Suc j \<noteq> length as"
    then have "j < length (butlast as)" using j by (simp add: less_diff_conv)
    then show "list_ex is_dir (butlast as)"
      using j by (auto simp: list_ex_length nth_butlast intro!: exI [of _ j])
  qed
  moreover have "filter (\<lambda>a. \<not> is_dir a) as = butlast as" if "Suc j = length as"
  proof -
    have s: "as = butlast as @ [as ! j]"
      using that by (metis append_butlast_last_id diff_Suc_1 last_conv_nth length_0_conv nat.simps(3))
    have "\<not> is_dir a" if "a \<in> set (butlast as)" for a
      using that least \<open>Suc j = length as\<close> by (auto simp: in_set_conv_nth nth_butlast)
    then show ?thesis using j by (subst s) (simp add: filter_id_conv)
  qed
  ultimately show ?thesis using ran by simp
qed

lemma get_direction_loop_snoc:
  "\<not> list_ex is_dir as \<Longrightarrow> get_direction_loop (as @ [mk_attr (dir_str d) v]) dir = d"
  by (induction as) auto

text \<open>
  Setting the direction of a media works exactly when no attribute but the last one is a
  direction: then the media has the new direction and no other, and its other attributes are
  kept. With a direction further up the loop reads behind the end of the array, because it
  goes on to the length from before the removal.
\<close>

theorem set_direction_effect:
  "(case sdp_utils_media_config_set_direction m d of
      Inr m' \<Rightarrow> \<not> list_ex is_dir (butlast (sm_attrs m)) \<and>
        sdp_utils_media_config_get_direction m' = d \<and>
        filter (\<lambda>a. \<not> is_dir a) (sm_attrs m') = filter (\<lambda>a. \<not> is_dir a) (sm_attrs m) \<and>
        m'\<lparr>sm_attrs := sm_attrs m\<rparr> = m
    | Inl e \<Rightarrow> e = Out_of_bounds \<and> list_ex is_dir (butlast (sm_attrs m)))"
proof (cases "list_ex is_dir (butlast (sm_attrs m))")
  case True
  then show ?thesis
    by (simp add: sdp_utils_media_config_set_direction_def set_direction_loop_0)
next
  case False
  have "\<not> list_ex is_dir (filter (\<lambda>a. \<not> is_dir a) (sm_attrs m))" by (auto simp: list_ex_iff)
  then show ?thesis
    using False get_direction_loop_snoc [of "filter (\<lambda>a. \<not> is_dir a) (sm_attrs m)" d "''''"]
    by (simp add: sdp_utils_media_config_set_direction_def set_direction_loop_0
        sdp_utils_media_config_get_direction_def attrs_add_def mk_attr_def [symmetric])
qed

section \<open>Searching the rtpmap of a codec\<close>

definition codec_hits ::
  "(string \<Rightarrow> string \<Rightarrow> bool) \<Rightarrow> sdp_media \<Rightarrow> string \<Rightarrow> (int \<times> int) option list" where
  "codec_hits match_string media codec =
     map (rtpmap_codec_hit match_string media codec) (seen_vals (sm_attrs media) ''rtpmap'')"

fun first_hit :: "'a option list \<Rightarrow> 'a option" where
  "first_hit [] = None"
| "first_hit (Some x # _) = Some x"
| "first_hit (None # xs) = first_hit xs"

lemma first_hit_None: "first_hit xs = None \<longleftrightarrow> (\<forall>x \<in> set xs. x = None)"
  by (induction xs rule: first_hit.induct) auto

lemma first_hit_all_None [simp]: "(\<forall>x \<in> set xs. x = None) \<Longrightarrow> first_hit (xs @ ys) = first_hit ys"
  by (induction xs) auto

lemma attribute_val_seen:
  "attribute_val_n as k n =
     (if n < length (seen_vals as k) then Some (seen_vals as k ! n)
      else if n = length (seen_vals as k) then None else attribute_val_n as k n)"
proof -
  let ?t = "takeWhile (\<lambda>v. v \<noteq> None) (attr_vals as k)"
  have 1: "attribute_val_n as k n = Some (the (?t ! n))" if "n < length ?t"
  proof -
    have "?t ! n \<noteq> None" using that nth_mem set_takeWhileD by fastforce
    moreover have "n < length (attr_vals as k)"
      using that length_takeWhile_le [of "\<lambda>v. v \<noteq> None" "attr_vals as k"] by simp
    ultimately show ?thesis using that by (auto simp: attribute_val_n_def takeWhile_nth)
  qed
  have 2: "attribute_val_n as k (length ?t) = None"
    using nth_length_takeWhile [of "\<lambda>v. v \<noteq> None" "attr_vals as k"] by (auto simp: attribute_val_n_def)
  show ?thesis using 1 2 by (auto simp: seen_vals_def)
qed

lemma seen_nth: "n < length (seen_vals as k) \<Longrightarrow> attribute_val_n as k n = Some (seen_vals as k ! n)"
  by (subst attribute_val_seen) simp

lemma seen_end: "attribute_val_n as k (length (seen_vals as k)) = None"
  by (subst attribute_val_seen) simp

text \<open>As long as the counter does not wrap, the loop looks at the values one after the other.\<close>

lemma codec_loop_steps:
  assumes "unat i \<le> n" and "n < 256" and "n \<le> length (seen_vals (sm_attrs media) ''rtpmap'')"
    and "\<And>k. unat i \<le> k \<Longrightarrow> k < n \<Longrightarrow> codec_hits ms media codec ! k = None"
  shows "rtpmap_codec_loop ms media codec i = rtpmap_codec_loop ms media codec (of_nat n)"
  using assms
proof (induction "n - unat i" arbitrary: i)
  case 0
  then have "unat i = n" by simp
  then have "i = of_nat n" by auto
  then show ?case by simp
next
  case (Suc x)
  then have lt: "unat i < n" by simp
  have un: "unat (i + 1) = unat i + 1"
    using lt Suc(4) by (intro unat_add_lem [THEN iffD1, THEN trans]) (simp_all)
  have "rtpmap_codec_hit ms media codec (seen_vals (sm_attrs media) ''rtpmap'' ! unat i) = None"
    using Suc(6) [of "unat i"] lt Suc(5) by (simp add: codec_hits_def)
  then have "rtpmap_codec_loop ms media codec i = rtpmap_codec_loop ms media codec (i + 1)"
    using lt Suc(5) by (subst rtpmap_codec_loop.simps) (simp add: seen_nth)
  also have "\<dots> = rtpmap_codec_loop ms media codec (of_nat n)"
  proof (rule Suc(1))
    show "x = n - unat (i + 1)" using Suc(2) un by simp
    show "unat (i + 1) \<le> n" using lt un by simp
    show "codec_hits ms media codec ! k = None" if "unat (i + 1) \<le> k" "k < n" for k
      using that Suc(6) un by simp
  qed (use Suc in auto)
  finally show ?case .
qed

text \<open>A call that returns has met a value with a hit or the end of the values.\<close>

definition codec_stop :: "(string \<Rightarrow> string \<Rightarrow> bool) \<Rightarrow> sdp_media \<Rightarrow> string \<Rightarrow> u8 \<Rightarrow> bool" where
  "codec_stop ms media codec j \<longleftrightarrow> (case attribute_val_n (sm_attrs media) ''rtpmap'' (unat j) of
     None \<Rightarrow> True | Some val \<Rightarrow> rtpmap_codec_hit ms media codec val \<noteq> None)"

lemma codec_loop_stop:
  assumes "rtpmap_codec_loop ms media codec i = Some r"
  shows "\<exists>j. codec_stop ms media codec j"
proof (rule rtpmap_codec_loop.raw_induct [OF _ assms, where P = "\<lambda>ms media codec i r. \<exists>j. codec_stop ms media codec j"])
  fix f ms media codec and i :: u8 and r
  assume ih: "\<And>ms media codec i r. f ms media codec i = Some r \<Longrightarrow> \<exists>j. codec_stop ms media codec j"
    and eq: "(case attribute_val_n (sm_attrs media) ''rtpmap'' (unat i) of None \<Rightarrow> Some None
      | Some val \<Rightarrow> (case rtpmap_codec_hit ms media codec val of Some r \<Rightarrow> Some (Some r)
          | None \<Rightarrow> f ms media codec (i + 1))) = Some r"
  show "\<exists>j. codec_stop ms media codec j"
  proof (cases "codec_stop ms media codec i")
    case False
    then have "f ms media codec (i + 1) = Some r"
      using eq by (auto simp: codec_stop_def split: option.split_asm)
    then show ?thesis by (rule ih)
  qed blast
qed

lemma first_hit_at:
  "first_hit xs = Some x \<Longrightarrow> \<exists>n < length xs. xs ! n = Some x \<and> (\<forall>k < n. xs ! k = None)"
proof (induction xs rule: first_hit.induct)
  case (2 y ys)
  then show ?case by (intro exI [of _ 0]) simp
next
  case (3 xs)
  then obtain n where "n < length xs" "xs ! n = Some x" "\<forall>k < n. xs ! k = None" by auto
  then show ?case by (intro exI [of _ "Suc n"]) (auto simp: nth_Cons split: nat.split)
qed simp

text \<open>
  Looking up a codec in the rtpmap attributes returns exactly when one of the first 256
  values fits or there are fewer than 256 of them, and then the answer is the first value
  that fits. Otherwise the call runs forever: its counter is a \<open>guint8\<close> and starts again
  at 0.
\<close>

theorem rtpmap_codec_returns:
  "sdp_utils_get_data_from_rtpmap_codec ms media codec =
     (let hits = codec_hits ms media codec in
      case first_hit (take 256 hits) of
        Some r \<Rightarrow> Some (Some r)
      | None \<Rightarrow> if length hits < 256 then Some None else None)"
proof -
  let ?hits = "codec_hits ms media codec" and ?vals = "seen_vals (sm_attrs media) ''rtpmap''"
  let ?run = "rtpmap_codec_loop ms media codec 0"
  have len [simp]: "length ?hits = length ?vals" by (simp add: codec_hits_def)
  have steps: "?run = rtpmap_codec_loop ms media codec (of_nat n)"
    if "n < 256" "n \<le> length ?vals" "\<And>k. k < n \<Longrightarrow> ?hits ! k = None" for n
    using codec_loop_steps [of 0 n media ms codec] that by simp
  have un: "unat (of_nat n :: u8) = n" if "n < 256" for n
    using that by (simp add: unat_of_nat)
  show ?thesis
  proof (cases "first_hit (take 256 ?hits)")
    case (Some x)
    obtain n where n: "n < length (take 256 ?hits)" and hit: "take 256 ?hits ! n = Some x"
      and before: "\<forall>k < n. take 256 ?hits ! k = None"
      using first_hit_at [OF Some] by (elim exE conjE)
    have x: "?hits ! n = Some x" using n hit by simp
    have "?run = rtpmap_codec_loop ms media codec (of_nat n)"
    proof (rule steps)
      show "?hits ! k = None" if "k < n" for k
        using before [rule_format, OF that] that n by simp
    qed (use n in simp_all)
    also have "\<dots> = Some (Some x)"
      using n x un [of n] by (subst rtpmap_codec_loop.simps) (simp add: seen_nth codec_hits_def)
    finally show ?thesis
      using Some by (simp add: sdp_utils_get_data_from_rtpmap_codec_def Let_def)
  next
    case None
    then have miss: "?hits ! k = None" if "k < 256" "k < length ?vals" for k
    proof -
      have "take 256 ?hits ! k \<in> set (take 256 ?hits)" using that by (intro nth_mem) simp
      then have "take 256 ?hits ! k = None" using None first_hit_None by blast
      then show ?thesis using that by simp
    qed
    show ?thesis
    proof (cases "length ?vals < 256")
      case True
      then have "?run = rtpmap_codec_loop ms media codec (of_nat (length ?vals))"
        using miss by (intro steps) auto
      also have "\<dots> = Some None"
        using un [OF True] by (subst rtpmap_codec_loop.simps) (simp add: seen_end)
      finally show ?thesis
        using None True by (simp add: sdp_utils_get_data_from_rtpmap_codec_def Let_def)
    next
      case False
      have "\<not> codec_stop ms media codec j" for j
      proof -
        have j: "unat j < 256" using unsigned_less [of j] by simp
        then have "attribute_val_n (sm_attrs media) ''rtpmap'' (unat j) = Some (?vals ! unat j)"
          using False by (intro seen_nth) simp
        moreover have "rtpmap_codec_hit ms media codec (?vals ! unat j) = None"
          using miss [OF j] j False by (simp add: codec_hits_def)
        ultimately show ?thesis by (simp add: codec_stop_def)
      qed
      then have "?run = None"
        using codec_loop_stop [of ms media codec 0] by (metis not_None_eq)
      then show ?thesis
        using None False by (simp add: sdp_utils_get_data_from_rtpmap_codec_def Let_def)
    qed
  qed
qed

section \<open>Equal descriptions\<close>

lemma contains_attr_iff:
  "contains_attr as a \<longleftrightarrow> (\<exists>v \<in> set (seen_vals as (sa_key a)). sa_value a = Some v)"
  by (simp add: contains_attr_def scan_vals_first first_result_True)

lemma contains_attr_member:
  assumes "\<forall>a \<in> set as. sa_value a \<noteq> None"
  shows "contains_attr as a \<longleftrightarrow> a \<in> set as"
proof -
  have s: "set (attr_vals as (sa_key a)) = Some ` set (seen_vals as (sa_key a))"
    using seen_vals_total [OF assms] by (metis set_map)
  have "contains_attr as a \<longleftrightarrow> sa_value a \<in> set (attr_vals as (sa_key a))"
    unfolding contains_attr_iff s by auto
  also have "\<dots> \<longleftrightarrow> a \<in> set as"
    by (auto simp: attr_vals_def image_iff) (metis sdp_attr.surjective unit.exhaust)
  finally show ?thesis .
qed

lemma same_attributes:
  assumes "\<forall>a \<in> set bs. sa_value a \<noteq> None" and "distinct as"
  shows "length as = length bs \<and> list_all (contains_attr bs) as \<longleftrightarrow> mset as = mset bs"
proof
  assume l: "length as = length bs \<and> list_all (contains_attr bs) as"
  then have sub: "set as \<subseteq> set bs" by (auto simp: list_all_iff contains_attr_member [OF assms(1)])
  have "card (set bs) \<le> card (set as)"
    using l distinct_card [OF assms(2)] card_length [of bs] by simp
  then have eq: "set as = set bs" using sub by (intro card_subset_eq) (auto dest: card_mono [rotated])
  then have "distinct bs" using l assms(2) by (metis card_distinct distinct_card)
  then show "mset as = mset bs" using eq assms(2) by (simp add: set_eq_iff_mset_eq_distinct)
next
  assume m: "mset as = mset bs"
  then show "length as = length bs \<and> list_all (contains_attr bs) as"
    using mset_eq_setD [OF m] mset_eq_length [OF m]
    by (auto simp: list_all_iff contains_attr_member [OF assms(1)])
qed

lemma fmts_equal: "sdp_media_fmts_equal m1 m2 \<longleftrightarrow> sm_fmts m1 = sm_fmts m2"
proof -
  have "length xs = length ys \<Longrightarrow> fmts_equal_loop xs ys \<longleftrightarrow> xs = ys" for xs ys
    by (induction xs ys rule: fmts_equal_loop.induct) auto
  then show ?thesis by (auto simp: sdp_media_fmts_equal_def)
qed

definition same_media :: "sdp_media \<Rightarrow> sdp_media \<Rightarrow> bool" where
  "same_media m1 m2 \<longleftrightarrow>
     m1\<lparr>sm_attrs := [], sm_bandwidths := []\<rparr> = m2\<lparr>sm_attrs := [], sm_bandwidths := []\<rparr> \<and> mset (sm_attrs m1) = mset (sm_attrs m2)"

definition proper_attrs :: "sdp_attr list \<Rightarrow> bool" where
  "proper_attrs as \<longleftrightarrow> distinct as \<and> list_all (\<lambda>a. sa_value a \<noteq> None) as"

lemma equal_medias_same:
  assumes "proper_attrs (sm_attrs m1)" and "proper_attrs (sm_attrs m2)"
  shows "sdp_utils_equal_medias m1 m2 \<longleftrightarrow> same_media m1 m2"
proof -
  have "sdp_media_equal_attributes m1 m2 \<longleftrightarrow> mset (sm_attrs m1) = mset (sm_attrs m2)"
    using same_attributes [of "sm_attrs m2" "sm_attrs m1"] assms
    by (simp add: sdp_media_equal_attributes_def sdp_media_contains_attr_def proper_attrs_def list_all_iff)
  then show ?thesis
    by (cases m1; cases m2)
      (auto simp: sdp_utils_equal_medias_def same_media_def fmts_equal sdp_key_equal_def sdp_key.equality)
qed

text \<open>
  For descriptions whose attributes are distinct and have values, the comparison that
  decides whether the session version goes up is the equality of the media (their bandwidths
  apart, which it does not look at), one by one and whatever the order of their attributes,
  and of the attributes of the session.
\<close>

theorem equal_messages_spec:
  assumes "proper_attrs (sg_attrs a)" and "proper_attrs (sg_attrs b)"
    and "\<forall>m \<in> set (sg_medias a) \<union> set (sg_medias b). proper_attrs (sm_attrs m)"
  shows "sdp_utils_equal_messages a b \<longleftrightarrow>
    mset (sg_attrs a) = mset (sg_attrs b) \<and> list_all2 same_media (sg_medias a) (sg_medias b)"
proof -
  have "length xs = length ys \<Longrightarrow> \<forall>m \<in> set xs \<union> set ys. proper_attrs (sm_attrs m) \<Longrightarrow>
      equal_medias_loop xs ys \<longleftrightarrow> list_all2 same_media xs ys" for xs ys
    by (induction xs ys rule: equal_medias_loop.induct) (auto simp: equal_medias_same)
  moreover have "sdp_message_equal_attributes a b \<longleftrightarrow> mset (sg_attrs a) = mset (sg_attrs b)"
    using same_attributes [of "sg_attrs b" "sg_attrs a"] assms
    by (simp add: sdp_message_equal_attributes_def sdp_message_contains_attr_def proper_attrs_def list_all_iff)
  ultimately show ?thesis
    using assms(3) by (auto simp: sdp_utils_equal_messages_def dest: list_all2_lengthD)
qed

abbreviation witness_media :: "sdp_attr list \<Rightarrow> string list \<Rightarrow> sdp_media" where
  "witness_media as fmts \<equiv> \<lparr>sm_media = Some ''video'', sm_port = 9, sm_num_ports = 1,
     sm_proto = Some ''RTP/AVP'', sm_fmts = fmts, sm_information = None,
     sm_bandwidths = [], sm_key = \<lparr>sk_type = None, sk_data = None\<rparr>, sm_attrs = as\<rparr>"

abbreviation witness_message :: "sdp_media list \<Rightarrow> sdp_message" where
  "witness_message ms \<equiv> \<lparr>sg_version = Some ''0'', sg_session_name = None,
     sg_origin = \<lparr>so_username = None, so_sess_id = None, so_sess_version = None,
       so_nettype = None, so_addrtype = None, so_addr = None\<rparr>,
     sg_connection = (None, None, None), sg_attrs = [], sg_medias = ms\<rparr>"

lemma equal_messages_spec_witness:
  "sdp_utils_equal_messages
     (witness_message [witness_media [mk_attr ''mid'' ''v'', mk_attr ''sendrecv'' ''''] []])
     (witness_message [witness_media [mk_attr ''sendrecv'' '''', mk_attr ''mid'' ''v''] []])"
  by (subst equal_messages_spec) (simp_all add: proper_attrs_def same_media_def mk_attr_def)

text \<open>
  Without the distinctness the comparison is not even symmetric: a repeated attribute hides
  one that is missing.
\<close>

lemma equal_medias_not_symmetric:
  defines "twice \<equiv> witness_media [mk_attr ''a'' ''1'', mk_attr ''a'' ''1''] []"
    and "both \<equiv> witness_media [mk_attr ''a'' ''1'', mk_attr ''a'' ''2''] []"
  shows "sdp_utils_equal_medias twice both \<and> \<not> sdp_utils_equal_medias both twice"
  by (simp add: twice_def both_def sdp_utils_equal_medias_def sdp_key_equal_def fmts_equal
      sdp_media_equal_attributes_def sdp_media_contains_attr_def contains_attr_iff seen_vals_def)

section \<open>SSRCs that are written and read back\<close>

lemma takeWhile_digits:
  "list_all P p \<Longrightarrow> s = [] \<or> \<not> P (hd s) \<Longrightarrow> takeWhile P (p @ s) = p \<and> dropWhile P (p @ s) = s"
  by (induction p) (cases s, auto)+

lemma ssrc_str_decimal: "ssrc_str_to_uint (decimal (unat ssrc)) = ssrc"
proof -
  have b: "unat ssrc < 2 ^ 32" using unsigned_less [of ssrc] by simp
  then have "strtol (decimal (unat ssrc)) = int (unat ssrc)"
    by (simp add: strtol_digits [OF decimal_digits] decimal_value del: of_nat_unat)
  moreover have "uint ssrc < 2 ^ 32" using unsigned_less [of ssrc] by simp
  ultimately show ?thesis
    by (simp add: ssrc_str_to_uint_def Let_def)
qed

text \<open>
  The SSRC of a media is read back as it was written: an \<open>ssrc\<close> attribute that starts
  with the decimal digits of a number of 32 bits, whatever follows on the line.
\<close>

theorem media_ssrc_roundtrip:
  assumes "attribute_val (sm_attrs media) ''ssrc'' = Some (decimal (unat ssrc) @ rest)"
    and "rest = [] \<or> \<not> is_digit (hd rest)" and "\<not> list_ex is_line_break rest"
  shows "sdp_utils_media_get_ssrc media = ssrc"
proof -
  have "ssrc_regex (decimal (unat ssrc) @ rest) = Some (decimal (unat ssrc))"
    using takeWhile_digits [OF decimal_digits [of "unat ssrc"], of rest] assms(2,3)
    by (simp add: ssrc_regex_def Let_def)
  then show ?thesis
    using assms(1) by (simp add: sdp_utils_media_get_ssrc_def sdp_media_get_ssrc_str_def ssrc_str_decimal)
qed

lemma media_ssrc_roundtrip_witness:
  "sdp_utils_media_get_ssrc (witness_media [mk_attr ''ssrc'' (decimal (unat (7 :: u32)) @ '' cname:user'')] []) = 7"
  by (rule media_ssrc_roundtrip [where rest = "'' cname:user''"])
    (simp_all add: attribute_val_cases is_digit_def is_line_break_def char_code_def)

section \<open>What goes wrong\<close>

text \<open>
  A format without rtpmap attribute and without a static entry makes the search for a codec
  pass NULL on as the rtpmap.
\<close>

lemma pt_for_codec_unmapped:
  "sdp_utils_sdp_media_get_rtpmap m f = Inr None \<Longrightarrow> sm_fmts m = f # fs \<Longrightarrow>
     sdp_utils_get_pt_for_codec_name m codec = Inl Null_dereference"
  by (simp add: sdp_utils_get_pt_for_codec_name_def sdp_utils_get_data_from_rtpmap_def)

text \<open>An identifier of an extension map without URI is read behind the end of its pieces.\<close>

lemma abs_send_time_empty:
  "seen_vals (sm_attrs m) ''extmap'' = '''' # vs \<Longrightarrow> sdp_utils_get_abs_send_time_id m = Inl Out_of_bounds"
  by (simp add: sdp_utils_get_abs_send_time_id_def scan_vals_first strsplit_def strv_at_def)

text \<open>
  Three inputs the helpers do not handle: the payload type 9 is looked up by prefix and
  finds the rtpmap of 96; a format that is a number of more than 31 bits can become a negative
  index into the static table; a dynamic format without rtpmap stops the search for a codec
  with a NULL pointer.
\<close>

theorem rtpmap_faults:
  "sdp_utils_sdp_media_get_rtpmap (witness_media [mk_attr ''rtpmap'' ''96 VP8/90000''] [''9'']) ''9'' =
     Inr (Some ''VP8/90000'') \<and>
   sdp_utils_sdp_media_get_rtpmap (witness_media [] [''4294967295'']) ''4294967295'' = Inl Out_of_bounds \<and>
   sdp_utils_get_pt_for_codec_name (witness_media [] [''96'']) codec = Inl Null_dereference"
proof (intro conjI)
  show "sdp_utils_sdp_media_get_rtpmap (witness_media [mk_attr ''rtpmap'' ''96 VP8/90000''] [''9'']) ''9'' =
     Inr (Some ''VP8/90000'')"
    by (simp add: sdp_utils_sdp_media_get_rtpmap_def str_prefix_def after_space_def)
  have num: "strtol ''4294967295'' = 4294967295" "strtol ''96'' = 96"
    by (simp_all add: strtol_def skip_sign_def is_space_def is_digit_def char_code_def digits_value_def)
  have dig: "list_all is_digit ''4294967295''" "list_all is_digit ''96''"
    by (simp_all add: is_digit_def char_code_def)
  show "sdp_utils_sdp_media_get_rtpmap (witness_media [] [''4294967295'']) ''4294967295'' = Inl Out_of_bounds"
    using dig(1) num(1)
    by (simp add: sdp_utils_sdp_media_get_rtpmap_def static_rtpmap_def to_gint_def
        signed_take_bit_eq_if_negative)
  show "sdp_utils_get_pt_for_codec_name (witness_media [] [''96'']) codec = Inl Null_dereference"
    by (rule pt_for_codec_unmapped [where f = "''96''" and fs = "[]"])
      (simp_all add: sdp_utils_sdp_media_get_rtpmap_def static_rtpmap_def num(2)
        to_gint_small is_digit_def char_code_def)
qed

end
