(* ===== verification/SdpGroups.thy ===== *)
theory SdpGroups
  imports SdpUtils
begin

text \<open>
  The groups of media of an SDP agent: \<open>kmssdpgroupmanager.c\<close>, \<open>kmssdpbasegroup.c\<close> and
  \<open>kmssdpbundlegroup.c\<close>. The manager numbers the groups, knows the handlers by their id and
  gives out the media stream identifications (mid). A handler is known by its address; what
  the callbacks read of it (its media name, whether it is negotiated, its index in the
  description) are arguments. The tables are hash tables of GLib.
\<close>

section \<open>Base groups and bundle groups\<close>

type_synonym href = nat

record sdp_group =
  bg_semantics :: string
  bg_pre_proc :: bool
  bg_handlers :: "href list"

definition kms_sdp_base_group_add_media_handler_impl :: "sdp_group \<Rightarrow> href \<Rightarrow> sdp_group \<times> bool" where
  "kms_sdp_base_group_add_media_handler_impl grp handler =
     (if handler \<in> set (bg_handlers grp) then (grp, True)
      else (grp\<lparr>bg_handlers := bg_handlers grp @ [handler]\<rparr>, True))"

definition kms_sdp_base_group_remove_media_handler_impl :: "sdp_group \<Rightarrow> href \<Rightarrow> sdp_group \<times> bool" where
  "kms_sdp_base_group_remove_media_handler_impl grp handler =
     (if handler \<notin> set (bg_handlers grp) then (grp, True)
      else (grp\<lparr>bg_handlers := remove1 handler (bg_handlers grp)\<rparr>, True))"

definition kms_sdp_base_group_contains_handler_impl :: "sdp_group \<Rightarrow> href \<Rightarrow> bool" where
  "kms_sdp_base_group_contains_handler_impl grp handler \<longleftrightarrow> handler \<in> set (bg_handlers grp)"

text \<open>\<open>handler_groups\<close> is the field \<open>groups\<close> of the handler; a bundle takes only handlers without.\<close>

definition kms_sdp_bundle_group_add_media_handler ::
  "sdp_group \<Rightarrow> href \<Rightarrow> 'g list \<Rightarrow> sdp_group \<times> bool" where
  "kms_sdp_bundle_group_add_media_handler grp handler handler_groups =
     (if length handler_groups > 0 then (grp, False)
      else kms_sdp_base_group_add_media_handler_impl grp handler)"

definition kms_sdp_bundle_group_new :: sdp_group where
  "kms_sdp_bundle_group_new = \<lparr>bg_semantics = ''BUNDLE'', bg_pre_proc = False, bg_handlers = []\<rparr>"

text \<open>
  \<open>index\<close> is the property of that name of the media handler, negative when the agent does
  not offer it. \<open>filter\<close> holds the pieces of the group of the offer, its semantics first.
\<close>

definition append_enabled_medias ::
  "(href \<Rightarrow> int) \<Rightarrow> sdp_message \<Rightarrow> string list option \<Rightarrow> href \<Rightarrow> string \<Rightarrow> string" where
  "append_enabled_medias index msg flt handler str =
     (if index handler < 0 then str
      else if int (length (sg_medias msg)) \<le> index handler then str
      else let media = sg_medias msg ! nat (index handler) in
        case attribute_val (sm_attrs media) ''mid'' of
          None \<Rightarrow> str
        | Some mid \<Rightarrow>
            (if sm_port media = 0 then str
             else case flt of
                 None \<Rightarrow> str @ '' '' @ mid
               | Some items \<Rightarrow> (if mid \<in> set (tl items) then str @ '' '' @ mid else str)))"

definition message_add_attribute :: "string \<Rightarrow> string \<Rightarrow> sdp_message \<Rightarrow> sdp_message" where
  "message_add_attribute k v msg = msg\<lparr>sg_attrs := attrs_add k (Some v) (sg_attrs msg)\<rparr>"

definition kms_sdp_base_group_add_offer_attributes_impl ::
  "(href \<Rightarrow> int) \<Rightarrow> sdp_group \<Rightarrow> sdp_message \<Rightarrow> sdp_message" where
  "kms_sdp_base_group_add_offer_attributes_impl index self offer =
     (if bg_pre_proc self then offer
      else message_add_attribute ''group''
        (fold (append_enabled_medias index offer None) (bg_handlers self) (bg_semantics self)) offer)"

definition kms_sdp_base_group_is_offered :: "sdp_group \<Rightarrow> sdp_message \<Rightarrow> string option" where
  "kms_sdp_base_group_is_offered self offer =
     scan_vals (sg_attrs offer) ''group''
       (\<lambda>grp. if strv_at (strsplit (CHR '' '') grp) 0 = Inr (Some (bg_semantics self))
          then Some (Some grp) else None) None 0"

definition kms_sdp_base_group_add_answer_attributes_impl ::
  "(href \<Rightarrow> int) \<Rightarrow> sdp_group \<Rightarrow> sdp_message \<Rightarrow> sdp_message \<Rightarrow> sdp_message" where
  "kms_sdp_base_group_add_answer_attributes_impl index self offer answer =
     (if bg_pre_proc self then answer
      else case kms_sdp_base_group_is_offered self offer of
          None \<Rightarrow> answer
        | Some grp \<Rightarrow> message_add_attribute ''group''
            (fold (append_enabled_medias index answer (Some (strsplit (CHR '' '') grp)))
              (bg_handlers self) (bg_semantics self)) answer)"

section \<open>The group manager\<close>

text \<open>
  \<open>gm_signals\<close> is \<open>connected_signals\<close> together with the \<open>MidExtData\<close> the two callbacks of
  a handler share: the mid the handler has, if any. \<open>gm_mids\<close> counts the mids per media name.
\<close>

record group_manager =
  gm_gid :: u32
  gm_groups :: "(u32, sdp_group) hash_table"
  gm_handlers :: "(u32, href) hash_table"
  gm_signals :: "(u32, string option) hash_table"
  gm_mids :: "(string, u32) hash_table"
  gm_used_mids :: "string list"

definition kms_sdp_group_manager_new :: group_manager where
  "kms_sdp_group_manager_new = \<lparr>gm_gid = 0, gm_groups = [], gm_handlers = [], gm_signals = [],
     gm_mids = [], gm_used_mids = []\<rparr>"

definition kms_sdp_group_manager_add_group_impl :: "group_manager \<Rightarrow> sdp_group \<Rightarrow> group_manager \<times> u32" where
  "kms_sdp_group_manager_add_group_impl self grp = (let gid = gm_gid self in
     (self\<lparr>gm_gid := gid + 1, gm_groups := AList.update gid grp (gm_groups self)\<rparr>, gid))"

definition kms_sdp_group_manager_is_mid_used :: "string list \<Rightarrow> string \<Rightarrow> bool" where
  "kms_sdp_group_manager_is_mid_used used mid \<longleftrightarrow> list_ex (\<lambda>u. u = mid) used"

text \<open>The do-while loop; the fuel bounds how many mids are tried.\<close>

fun assign_loop :: "nat \<Rightarrow> string \<Rightarrow> string list \<Rightarrow> u32 \<Rightarrow> (string \<times> u32) option" where
  "assign_loop 0 media used counter = None"
| "assign_loop (Suc n) media used counter =
     (let mid = media @ decimal (unat counter) in
      if kms_sdp_group_manager_is_mid_used used mid then assign_loop n media used (counter + 1)
      else Some (mid, counter + 1))"

definition kms_sdp_group_manager_assign_mid ::
  "group_manager \<Rightarrow> string \<Rightarrow> (string \<times> group_manager) option" where
  "kms_sdp_group_manager_assign_mid self media =
     (let counter = (case map_of (gm_mids self) media of None \<Rightarrow> 0 | Some c \<Rightarrow> c) in
      case assign_loop (Suc (length (gm_used_mids self))) media (gm_used_mids self) counter of
        None \<Rightarrow> None
      | Some (mid, counter') \<Rightarrow>
          Some (mid, self\<lparr>gm_mids := AList.update media counter' (gm_mids self)\<rparr>))"

definition kms_sdp_group_manager_update_mid ::
  "group_manager \<Rightarrow> u32 \<Rightarrow> string option \<Rightarrow> string \<Rightarrow> group_manager" where
  "kms_sdp_group_manager_update_mid self hid data_mid mid =
     self\<lparr>gm_used_mids := (case data_mid of None \<Rightarrow> gm_used_mids self
            | Some old \<Rightarrow> remove1 old (gm_used_mids self)) @ [mid],
          gm_signals := AList.update hid (Some mid) (gm_signals self)\<rparr>"

text \<open>
  The callbacks of the mid extension of handler \<open>hid\<close>. \<open>None\<close> is a search that has not ended;
  \<open>Some (None, _)\<close> that no callback is connected any more.
\<close>

definition on_offer_mid_cb :: "group_manager \<Rightarrow> u32 \<Rightarrow> string \<Rightarrow> (string option \<times> group_manager) option" where
  "on_offer_mid_cb self hid media = (case map_of (gm_signals self) hid of
     None \<Rightarrow> Some (None, self)
   | Some (Some mid) \<Rightarrow> Some (Some mid, self)
   | Some None \<Rightarrow> (case kms_sdp_group_manager_assign_mid self media of
        None \<Rightarrow> None
      | Some (mid, self') \<Rightarrow> Some (Some mid, kms_sdp_group_manager_update_mid self' hid None mid)))"

definition on_answer_mid_cb :: "group_manager \<Rightarrow> u32 \<Rightarrow> bool \<Rightarrow> string \<Rightarrow> bool \<times> group_manager" where
  "on_answer_mid_cb self hid negotiated mid = (case map_of (gm_signals self) hid of
     None \<Rightarrow> (False, self)
   | Some data_mid \<Rightarrow>
       (if \<not> negotiated then (True, kms_sdp_group_manager_update_mid self hid data_mid mid)
        else (data_mid = Some mid, self)))"

text \<open>Every media handler accepts the mid extension.\<close>

definition kms_sdp_group_manager_add_handler_impl :: "group_manager \<Rightarrow> u32 \<Rightarrow> href \<Rightarrow> group_manager" where
  "kms_sdp_group_manager_add_handler_impl self hid handler =
     self\<lparr>gm_handlers := AList.update hid handler (gm_handlers self),
          gm_signals := AList.update hid None (gm_signals self)\<rparr>"

definition kms_sdp_group_manager_remove_handler_from_groups :: "group_manager \<Rightarrow> href \<Rightarrow> group_manager" where
  "kms_sdp_group_manager_remove_handler_from_groups self handler =
     self\<lparr>gm_groups := map (\<lambda>(gid, grp).
        (gid, fst (kms_sdp_base_group_remove_media_handler_impl grp handler))) (gm_groups self)\<rparr>"

definition kms_sdp_group_manager_remove_handler_impl ::
  "group_manager \<Rightarrow> u32 \<Rightarrow> href \<Rightarrow> group_manager \<times> bool" where
  "kms_sdp_group_manager_remove_handler_impl self hid handler =
     (case map_of (gm_signals self) hid of
        None \<Rightarrow> (self, True)
      | Some data \<Rightarrow>
          (let self1 = kms_sdp_group_manager_remove_handler_from_groups
               (self\<lparr>gm_signals := AList.delete hid (gm_signals self)\<rparr>) handler in
           (self1\<lparr>gm_handlers := AList.delete hid (gm_handlers self1)\<rparr>,
            map_of (gm_handlers self1) hid \<noteq> None)))"

text \<open>The groups an agent makes are bundle groups; their handlers' \<open>groups\<close> lists are never filled.\<close>

definition kms_sdp_group_manager_add_handler_to_group_impl ::
  "group_manager \<Rightarrow> u32 \<Rightarrow> u32 \<Rightarrow> group_manager \<times> bool" where
  "kms_sdp_group_manager_add_handler_to_group_impl self gid hid =
     (case map_of (gm_handlers self) hid of
        None \<Rightarrow> (self, False)
      | Some handler \<Rightarrow> (case map_of (gm_groups self) gid of
            None \<Rightarrow> (self, False)
          | Some grp \<Rightarrow>
              (let (grp', ok) = kms_sdp_bundle_group_add_media_handler grp handler ([] :: unit list) in
               (self\<lparr>gm_groups := AList.update gid grp' (gm_groups self)\<rparr>, ok))))"

definition kms_sdp_group_manager_remove_handler_from_group_impl ::
  "group_manager \<Rightarrow> u32 \<Rightarrow> u32 \<Rightarrow> group_manager \<times> bool" where
  "kms_sdp_group_manager_remove_handler_from_group_impl self gid hid =
     (case map_of (gm_handlers self) hid of
        None \<Rightarrow> (self, False)
      | Some handler \<Rightarrow> (case map_of (gm_groups self) gid of
            None \<Rightarrow> (self, False)
          | Some grp \<Rightarrow>
              (let (grp', ok) = kms_sdp_base_group_remove_media_handler_impl grp handler in
               (self\<lparr>gm_groups := AList.update gid grp' (gm_groups self)\<rparr>, ok))))"

definition kms_sdp_group_manager_get_group_impl :: "group_manager \<Rightarrow> href \<Rightarrow> (u32 \<times> sdp_group) option" where
  "kms_sdp_group_manager_get_group_impl self handler =
     find (\<lambda>(gid, grp). kms_sdp_base_group_contains_handler_impl grp handler) (gm_groups self)"

definition kms_sdp_group_manager_get_group_val :: "string \<Rightarrow> sdp_message \<Rightarrow> string option" where
  "kms_sdp_group_manager_get_group_val semantics msg =
     scan_vals (sg_attrs msg) ''group''
       (\<lambda>val. if strv_at (strsplit_max 1 (CHR '' '') val) 0 = Inr (Some semantics)
          then Some (Some val) else None) None 0"

text \<open>The first piece is skipped without a look; an empty value has none.\<close>

definition is_mid_in_group :: "string \<Rightarrow> string \<Rightarrow> c_fault + bool" where
  "is_mid_in_group group_attr mid = (case strsplit (CHR '' '') group_attr of
     [] \<Rightarrow> Inl Out_of_bounds
   | semantics # values \<Rightarrow> Inr (mid \<in> set values))"

definition kms_sdp_group_manager_is_handler_valid_for_groups_impl ::
  "group_manager \<Rightarrow> sdp_media \<Rightarrow> sdp_message \<Rightarrow> href \<Rightarrow> c_fault + bool" where
  "kms_sdp_group_manager_is_handler_valid_for_groups_impl obj media offer handler =
     (let grp = kms_sdp_group_manager_get_group_impl obj handler in
      case attribute_val (sm_attrs media) ''mid'' of
        None \<Rightarrow> Inr (grp = None)
      | Some mid \<Rightarrow> (case grp of
            Some (gid, g) \<Rightarrow> (case kms_sdp_group_manager_get_group_val (bg_semantics g) offer of
                None \<Rightarrow> Inr False
              | Some val \<Rightarrow> is_mid_in_group val mid)
          | None \<Rightarrow> scan_vals (sg_attrs offer) ''group''
              (\<lambda>val. case is_mid_in_group val mid of
                 Inl e \<Rightarrow> Some (Inl e)
               | Inr b \<Rightarrow> (if b then Some (Inr False) else None)) (Inr True) 0))"

section \<open>Mids\<close>

lemma mid_used_iff: "kms_sdp_group_manager_is_mid_used used mid \<longleftrightarrow> mid \<in> set used"
  by (auto simp: kms_sdp_group_manager_is_mid_used_def list_ex_iff)

lemma assign_loop_Some:
  "assign_loop n media used c = Some (mid, c') \<Longrightarrow> mid \<notin> set used"
  by (induction n arbitrary: c) (auto simp: Let_def mid_used_iff split: if_splits)

lemma assign_loop_None:
  "assign_loop n media used c = None \<Longrightarrow> k < n \<Longrightarrow> media @ decimal (unat (c + of_nat k)) \<in> set used"
proof (induction n arbitrary: c k)
  case (Suc n)
  from Suc.prems(1) have u: "media @ decimal (unat c) \<in> set used"
    and r: "assign_loop n media used (c + 1) = None"
    by (auto simp: Let_def mid_used_iff split: if_splits)
  show ?case
  proof (cases k)
    case (Suc k')
    then show ?thesis
      using Suc.IH [OF r, of k'] Suc.prems(2) by (simp add: algebra_simps)
  qed (use u in simp)
qed simp

text \<open>Among one more candidates than there are used mids one is free.\<close>

lemma assign_loop_returns:
  assumes "length used < 2 ^ 32"
  shows "assign_loop (Suc (length used)) media used c \<noteq> None"
proof
  let ?n = "Suc (length used)" and ?f = "\<lambda>k. media @ decimal (unat (c + of_nat k))"
  assume n: "assign_loop ?n media used c = None"
  have "inj_on ?f {..< ?n}"
  proof (rule inj_onI)
    fix i j assume i: "i \<in> {..< ?n}" and j: "j \<in> {..< ?n}" and "?f i = ?f j"
    then have "unat (c + of_nat i) = unat (c + of_nat j)" by (simp add: decimal_inj)
    then have "(of_nat i :: u32) = of_nat j" by (simp flip: word_unat_eq_iff)
    then have "i mod 2 ^ 32 = j mod 2 ^ 32" by (simp add: word_of_nat_eq_iff take_bit_eq_mod)
    then show "i = j" using i j assms by simp
  qed
  then have "card (?f ` {..< ?n}) = ?n" by (simp add: card_image)
  moreover have "?f ` {..< ?n} \<subseteq> set used"
    using assign_loop_None [OF n] by auto
  ultimately have "?n \<le> card (set used)" by (metis List.finite_set card_mono)
  then show False using card_length [of used] by simp
qed

lemma assign_mid_returns:
  assumes "length (gm_used_mids gm) < 2 ^ 32"
  shows "kms_sdp_group_manager_assign_mid gm media \<noteq> None"
proof -
  let ?c = "case map_of (gm_mids gm) media of None \<Rightarrow> 0 | Some c \<Rightarrow> c"
  obtain mid c' where "assign_loop (Suc (length (gm_used_mids gm))) media (gm_used_mids gm) ?c = Some (mid, c')"
    using assign_loop_returns [OF assms] by (metis not_None_eq surj_pair)
  then show ?thesis
    by (simp add: kms_sdp_group_manager_assign_mid_def Let_def del: assign_loop.simps)
qed

text \<open>
  What the manager keeps: one entry per handler, every mid of a handler is a used one, and no
  two handlers have the same.
\<close>

definition mids_ok :: "group_manager \<Rightarrow> bool" where
  "mids_ok gm \<longleftrightarrow> hash_ok (gm_signals gm) \<and> distinct (gm_used_mids gm) \<and>
     (\<forall>h m. map_of (gm_signals gm) h = Some (Some m) \<longrightarrow> m \<in> set (gm_used_mids gm)) \<and>
     (\<forall>h h' m. map_of (gm_signals gm) h = Some (Some m) \<longrightarrow> map_of (gm_signals gm) h' = Some (Some m) \<longrightarrow> h = h')"

datatype mid_event =
    Add_handler u32 href
  | Remove_handler u32 href
  | Offer_mid u32 string
  | Answer_mid u32 bool string

fun mid_step :: "group_manager \<Rightarrow> mid_event \<Rightarrow> group_manager" where
  "mid_step gm (Add_handler hid h) = kms_sdp_group_manager_add_handler_impl gm hid h"
| "mid_step gm (Remove_handler hid h) = fst (kms_sdp_group_manager_remove_handler_impl gm hid h)"
| "mid_step gm (Offer_mid hid media) =
     (case on_offer_mid_cb gm hid media of None \<Rightarrow> gm | Some (_, gm') \<Rightarrow> gm')"
| "mid_step gm (Answer_mid hid negotiated mid) = snd (on_answer_mid_cb gm hid negotiated mid)"

text \<open>
  What the peers have to respect: an offer that comes in brings a mid for a media that is not
  negotiated yet only if no other mid was given that name.
\<close>

fun mid_allowed :: "group_manager \<Rightarrow> mid_event \<Rightarrow> bool" where
  "mid_allowed gm (Answer_mid hid negotiated mid) \<longleftrightarrow>
     negotiated \<or> mid \<notin> set (gm_used_mids gm) \<or> map_of (gm_signals gm) hid = Some (Some mid)"
| "mid_allowed gm _ \<longleftrightarrow> True"

lemma mids_okI:
  assumes "hash_ok (gm_signals gm)" and "distinct (gm_used_mids gm)"
    and "\<And>h m. map_of (gm_signals gm) h = Some (Some m) \<Longrightarrow> m \<in> set (gm_used_mids gm)"
    and "\<And>h h' m. map_of (gm_signals gm) h = Some (Some m) \<Longrightarrow> map_of (gm_signals gm) h' = Some (Some m) \<Longrightarrow> h = h'"
  shows "mids_ok gm"
  unfolding mids_ok_def using assms by blast

lemma mids_okD:
  assumes "mids_ok gm"
  shows "hash_ok (gm_signals gm)" and "distinct (gm_used_mids gm)"
    and "map_of (gm_signals gm) h = Some (Some m) \<Longrightarrow> m \<in> set (gm_used_mids gm)"
    and "map_of (gm_signals gm) h = Some (Some m) \<Longrightarrow> map_of (gm_signals gm) h' = Some (Some m) \<Longrightarrow> h = h'"
  using assms unfolding mids_ok_def by blast+

lemma update_mid_ok:
  assumes ok: "mids_ok gm" and d: "map_of (gm_signals gm) hid = Some d"
    and fresh: "mid \<notin> set (gm_used_mids gm) \<or> d = Some mid"
  shows "mids_ok (kms_sdp_group_manager_update_mid gm hid d mid)"
proof (rule mids_okI)
  note D = mids_okD [OF ok]
  let ?gm = "kms_sdp_group_manager_update_mid gm hid d mid"
  show "hash_ok (gm_signals ?gm)"
    using D(1) by (auto simp: kms_sdp_group_manager_update_mid_def)
  show "distinct (gm_used_mids ?gm)"
    using D(2) fresh
    by (auto simp: kms_sdp_group_manager_update_mid_def distinct_remove1 dest: notin_set_remove1 split: option.split)
  have other: "m \<noteq> mid \<and> d \<noteq> Some m" if "h \<noteq> hid" "map_of (gm_signals gm) h = Some (Some m)" for h m
    using that fresh d D(3) [of h m] D(4) [of h m hid] by auto
  show "m \<in> set (gm_used_mids ?gm)" if "map_of (gm_signals ?gm) h = Some (Some m)" for h m
    using that other [of h m] D(2) D(3) [of h m]
    by (auto simp: kms_sdp_group_manager_update_mid_def split: option.split if_splits)
  show "h = h'" if "map_of (gm_signals ?gm) h = Some (Some m)" "map_of (gm_signals ?gm) h' = Some (Some m)" for h h' m
    using that other [of h m] other [of h' m] D(4) [of h m h']
    by (auto simp: kms_sdp_group_manager_update_mid_def split: if_splits)
qed

lemma mid_step_ok: "mids_ok gm \<Longrightarrow> mid_allowed gm e \<Longrightarrow> mids_ok (mid_step gm e)"
proof (cases e)
  case (Add_handler hid h)
  assume ok: "mids_ok gm"
  show ?thesis
    using mids_okD [OF ok] Add_handler
    by (auto intro!: mids_okI simp: kms_sdp_group_manager_add_handler_impl_def split: if_splits)
next
  case (Remove_handler hid h)
  assume ok: "mids_ok gm"
  show ?thesis
    using mids_okD [OF ok] Remove_handler ok
    by (auto intro!: mids_okI simp: kms_sdp_group_manager_remove_handler_impl_def Let_def
        kms_sdp_group_manager_remove_handler_from_groups_def split: option.split if_splits)
next
  case (Offer_mid hid media)
  assume ok: "mids_ok gm"
  show ?thesis
  proof (cases "map_of (gm_signals gm) hid = Some None")
    case True
    show ?thesis
    proof (cases "kms_sdp_group_manager_assign_mid gm media")
      case None
      then show ?thesis using True Offer_mid ok by (simp add: on_offer_mid_cb_def)
    next
      case (Some r)
      then obtain mid gm' c where r: "r = (mid, gm')" and gm': "gm' = gm\<lparr>gm_mids := c\<rparr>"
        and fresh: "mid \<notin> set (gm_used_mids gm)"
        by (auto simp: kms_sdp_group_manager_assign_mid_def Let_def simp del: assign_loop.simps
            split: option.split_asm dest: assign_loop_Some)
      have "mids_ok gm'" using ok by (simp add: gm' mids_ok_def)
      then show ?thesis
        using True Some r Offer_mid fresh gm'
        by (simp add: on_offer_mid_cb_def update_mid_ok)
    qed
  next
    case False
    then show ?thesis
      using Offer_mid ok by (auto simp: on_offer_mid_cb_def split: option.split)
  qed
next
  case (Answer_mid hid negotiated mid)
  assume "mids_ok gm" "mid_allowed gm e"
  then show ?thesis
    using Answer_mid by (auto simp: on_answer_mid_cb_def update_mid_ok split: option.split)
qed

interpretation mids: invariant_machine mid_step mid_allowed mids_ok
  by unfold_locales (rule mid_step_ok)

lemma mids_ok_new: "mids_ok kms_sdp_group_manager_new"
  by (rule mids_okI) (simp_all add: kms_sdp_group_manager_new_def)



section \<open>The group attribute\<close>

lemma append_medias_spec:
  "fold (append_enabled_medias index msg flt) hs str = str @ concat (map (\<lambda>h. append_enabled_medias index msg flt h []) hs)"
proof (induction hs arbitrary: str)
  case (Cons h hs)
  have "append_enabled_medias index msg flt h str = str @ append_enabled_medias index msg flt h []"
    by (simp add: append_enabled_medias_def Let_def split: option.split)
  then show ?case by (simp add: Cons.IH)
qed simp

text \<open>The media of a handler that takes part in its group, by its mid.\<close>

definition group_member :: "(href \<Rightarrow> int) \<Rightarrow> sdp_message \<Rightarrow> href \<Rightarrow> string option" where
  "group_member index msg h =
     (if index h < 0 \<or> int (length (sg_medias msg)) \<le> index h then None
      else let media = sg_medias msg ! nat (index h) in
        if sm_port media = 0 then None else attribute_val (sm_attrs media) ''mid'')"

lemma append_enabled_member:
  "append_enabled_medias index msg flt h [] = (case group_member index msg h of
     None \<Rightarrow> []
   | Some mid \<Rightarrow> (if (case flt of None \<Rightarrow> True | Some items \<Rightarrow> mid \<in> set (tl items)) then '' '' @ mid else []))"
  by (auto simp: append_enabled_medias_def group_member_def Let_def split: option.split)

definition group_members :: "(href \<Rightarrow> int) \<Rightarrow> sdp_message \<Rightarrow> href list \<Rightarrow> string list" where
  "group_members index msg hs = List.map_filter (group_member index msg) hs"

fun unwords :: "string \<Rightarrow> string list \<Rightarrow> string" where
  "unwords str [] = str"
| "unwords str (w # ws) = unwords (str @ '' '' @ w) ws"

lemma unwords_append: "unwords (s @ t) ws = s @ unwords t ws"
  by (induction ws arbitrary: t) auto

lemma fold_append_medias:
  "fold (append_enabled_medias index msg flt) hs str =
     unwords str (filter (\<lambda>mid. case flt of None \<Rightarrow> True | Some items \<Rightarrow> mid \<in> set (tl items))
       (group_members index msg hs))"
  unfolding append_medias_spec
proof (induction hs arbitrary: str)
  case (Cons h hs)
  have "str @ concat (map (\<lambda>h. append_enabled_medias index msg flt h []) (h # hs)) =
      (str @ append_enabled_medias index msg flt h []) @ concat (map (\<lambda>h. append_enabled_medias index msg flt h []) hs)"
    by simp
  also have "\<dots> = unwords (str @ append_enabled_medias index msg flt h [])
      (filter (\<lambda>mid. case flt of None \<Rightarrow> True | Some items \<Rightarrow> mid \<in> set (tl items)) (group_members index msg hs))"
    by (rule Cons.IH)
  finally show ?case
    by (simp add: append_enabled_member group_members_def map_filter_simps split: option.split)
qed (simp add: group_members_def map_filter_simps)

lemma split_unwords:
  "(\<forall>w \<in> set ws. CHR '' '' \<notin> set w) \<Longrightarrow> CHR '' '' \<notin> set str \<Longrightarrow>
     split_at (CHR '' '') (unwords str ws) = str # ws"
proof (induction ws arbitrary: str rule: rev_induct)
  case (snoc w ws)
  have u: "unwords str (ws @ [w]) = unwords str ws @ '' '' @ w" for str
    by (induction ws arbitrary: str) auto
  have app: "split_at (CHR '' '') (s @ CHR '' '' # w) = split_at (CHR '' '') s @ [w]" for s
    using snoc.prems by (induction s) (auto simp: split_at_none hd_append)
  show ?case using snoc u by (simp add: app)
qed (simp add: split_at_none)

text \<open>
  The group an answer carries names, behind the semantics and in the order of the group,
  exactly the medias of its handlers that are in the answer, are not rejected (port 0) and
  that the offer had put into the group; without such a group in the offer the answer has
  none either. Read back, the line gives these mids.
\<close>

theorem answer_group_members:
  "kms_sdp_base_group_add_answer_attributes_impl index self offer answer =
     (if bg_pre_proc self then answer
      else case kms_sdp_base_group_is_offered self offer of
          None \<Rightarrow> answer
        | Some grp \<Rightarrow>
            (let mids = filter (\<lambda>mid. mid \<in> set (tl (strsplit (CHR '' '') grp)))
               (group_members index answer (bg_handlers self)) in
             message_add_attribute ''group'' (unwords (bg_semantics self) mids) answer))"
  by (simp add: kms_sdp_base_group_add_answer_attributes_impl_def fold_append_medias Let_def split: option.split)

text \<open>A handler of the answering agent is in the group exactly if the offer had its mid there.\<close>

lemma answer_group_read_back:
  assumes "\<forall>w \<in> set ws. CHR '' '' \<notin> set w" and "CHR '' '' \<notin> set s" and "s \<noteq> []"
  shows "is_mid_in_group (unwords s ws) mid = Inr (mid \<in> set ws)"
proof -
  have "unwords s ws \<noteq> []"
    using assms(3) by (induction ws arbitrary: s) auto
  then show ?thesis
    using split_unwords [OF assms(1,2)] by (simp add: is_mid_in_group_def strsplit_def)
qed

text \<open>
  The check of a bundle group for handlers of another group has no effect: nothing fills the
  list it looks at, so a handler that is registered gets into any group that exists.
\<close>

lemma bundle_never_refuses:
  "snd (kms_sdp_group_manager_add_handler_to_group_impl gm gid hid) \<longleftrightarrow>
     map_of (gm_handlers gm) hid \<noteq> None \<and> map_of (gm_groups gm) gid \<noteq> None"
  by (auto simp: kms_sdp_group_manager_add_handler_to_group_impl_def kms_sdp_bundle_group_add_media_handler_def
      kms_sdp_base_group_add_media_handler_impl_def split: option.split)

end
