(* ===== verification/SdpMediaHandler.thy ===== *)
theory SdpMediaHandler
  imports SdpGroups
begin

text \<open>
  The base class of the media handlers of an SDP agent (\<open>kmssdpmediahandler.c\<close>), the handler
  that rejects a media (\<open>kmssdprejectmediahandler.c\<close>) and the two extensions it uses:
  direction (\<open>kmssdpmediadirext.c\<close>) and mid (\<open>kmssdpmidext.c\<close>). What the signals of an
  extension answer is an argument. An error is \<open>False\<close> or \<open>None\<close>: the texts of the errors
  are only logged.
\<close>

section \<open>The base class\<close>

record media_handler =
  mh_reject :: bool
  mh_proto :: "string option"
  mh_addr :: "string option"
  mh_addr_type :: "string option"
  mh_bwtypes :: "(string \<times> u32) list"
  mh_id :: int
  mh_parent :: bool

definition kms_sdp_media_handler_set_id_impl :: "media_handler \<Rightarrow> u32 \<Rightarrow> media_handler option" where
  "kms_sdp_media_handler_set_id_impl handler hid =
     (if mh_id handler \<ge> 0 then None else Some (handler\<lparr>mh_id := to_gint (uint hid)\<rparr>))"

definition kms_sdp_media_handler_set_parent :: "media_handler \<Rightarrow> media_handler option" where
  "kms_sdp_media_handler_set_parent handler =
     (if mh_parent handler then None else Some (handler\<lparr>mh_parent := True\<rparr>))"

definition kms_sdp_media_handler_remove_parent :: "media_handler \<Rightarrow> media_handler" where
  "kms_sdp_media_handler_remove_parent handler = handler\<lparr>mh_parent := False\<rparr>"

definition kms_sdp_media_handler_manage_protocol_impl :: "media_handler \<Rightarrow> string option \<Rightarrow> bool" where
  "kms_sdp_media_handler_manage_protocol_impl handler protocol \<longleftrightarrow> mh_proto handler = protocol"

definition kms_sdp_media_handler_add_bandwidth_impl ::
  "media_handler \<Rightarrow> string \<Rightarrow> u32 \<Rightarrow> media_handler" where
  "kms_sdp_media_handler_add_bandwidth_impl handler bwtype bandwidth =
     handler\<lparr>mh_bwtypes := mh_bwtypes handler @ [(bwtype, bandwidth)]\<rparr>"

text \<open>The property \<open>index\<close> asks the parent, whose answer for an id is \<open>agent_index\<close>.\<close>

definition media_handler_index :: "(int \<Rightarrow> int) \<Rightarrow> media_handler \<Rightarrow> int" where
  "media_handler_index agent_index self =
     (if mh_id self \<ge> 0 \<and> mh_parent self then agent_index (mh_id self) else - 1)"

text \<open>
  An extension, as the base class calls it: it changes the description and possibly a state
  of its owner, or fails with the description as it left it.
\<close>

type_synonym 's offer_ext = "sdp_media \<Rightarrow> 's \<Rightarrow> bool \<times> sdp_media \<times> 's"
type_synonym 's answer_ext = "sdp_media \<Rightarrow> sdp_media \<Rightarrow> 's \<Rightarrow> bool \<times> sdp_media \<times> 's"
type_synonym 's process_ext = "sdp_media \<Rightarrow> 's \<Rightarrow> bool \<times> 's"

definition add_bandwidths :: "(string \<times> u32) list \<Rightarrow> sdp_media \<Rightarrow> sdp_media" where
  "add_bandwidths bws media = media\<lparr>sm_bandwidths := sm_bandwidths media @ bws\<rparr>"

fun run_offer_exts :: "'s offer_ext list \<Rightarrow> sdp_media \<Rightarrow> 's \<Rightarrow> sdp_media \<times> 's" where
  "run_offer_exts [] offer s = (offer, s)"
| "run_offer_exts (ext # exts) offer s =
     (let (_, offer', s') = ext offer s in run_offer_exts exts offer' s')"

fun run_answer_exts :: "'s answer_ext list \<Rightarrow> sdp_media \<Rightarrow> sdp_media \<Rightarrow> 's \<Rightarrow> sdp_media \<times> 's" where
  "run_answer_exts [] offer answer s = (answer, s)"
| "run_answer_exts (ext # exts) offer answer s =
     (let (_, answer', s') = ext offer answer s in run_answer_exts exts offer answer' s')"

definition kms_sdp_media_handler_add_offer_attributes_impl ::
  "media_handler \<Rightarrow> 's offer_ext list \<Rightarrow> sdp_media \<Rightarrow> 's \<Rightarrow> sdp_media \<times> 's" where
  "kms_sdp_media_handler_add_offer_attributes_impl handler exts offer s =
     run_offer_exts exts (add_bandwidths (mh_bwtypes handler) offer) s"

definition kms_sdp_media_handler_add_answer_attributes_impl ::
  "media_handler \<Rightarrow> 's answer_ext list \<Rightarrow> sdp_media \<Rightarrow> sdp_media \<Rightarrow> 's \<Rightarrow> sdp_media \<times> 's" where
  "kms_sdp_media_handler_add_answer_attributes_impl handler exts offer answer s =
     run_answer_exts exts offer (add_bandwidths (mh_bwtypes handler) answer) s"

fun kms_sdp_media_handler_process_answer_impl :: "'s process_ext list \<Rightarrow> sdp_media \<Rightarrow> 's \<Rightarrow> bool \<times> 's" where
  "kms_sdp_media_handler_process_answer_impl [] answer s = (True, s)"
| "kms_sdp_media_handler_process_answer_impl (ext # exts) answer s =
     (let (ok, s') = ext answer s in
      if \<not> ok then (False, s') else kms_sdp_media_handler_process_answer_impl exts answer s')"

section \<open>Which attributes of an offer get into the answer\<close>

definition is_direction_attr_present :: "sdp_media \<Rightarrow> bool" where
  "is_direction_attr_present media \<longleftrightarrow>
     list_ex (\<lambda>attr. sdp_utils_attribute_is_direction attr \<noteq> None) (sm_attrs media)"

definition accept_fmtp_attribute :: "sdp_attr \<Rightarrow> sdp_media \<Rightarrow> c_fault + bool" where
  "accept_fmtp_attribute attr media = (case sa_value attr of
     None \<Rightarrow> (if sm_fmts media = [] then Inr False else Inl Null_dereference)
   | Some v \<Rightarrow> Inr (list_ex (\<lambda>fmt. strv_at (strsplit (CHR '' '') v) 0 = Inr (Some fmt)) (sm_fmts media)))"

definition supported_attributes :: "string list" where
  "supported_attributes = [''framerate'', ''fmtp'', ''lang'', ''maxptime'', ''mid'', ''ptime'',
     ''quality'', ''setup'', ''direction'']"

text \<open>\<open>ext_accepts\<close> are the extensions' own answers, asked in their order.\<close>

definition kms_sdp_media_handler_can_insert_attribute_impl ::
  "(sdp_attr \<Rightarrow> sdp_media \<Rightarrow> bool) list \<Rightarrow> sdp_attr \<Rightarrow> sdp_media \<Rightarrow> c_fault + bool" where
  "kms_sdp_media_handler_can_insert_attribute_impl ext_accepts attr media =
     (if sdp_utils_is_attribute_in_media media attr then Inr False
      else if sdp_utils_attribute_is_direction attr \<noteq> None then Inr (\<not> is_direction_attr_present media)
      else if sa_key attr \<in> set supported_attributes
      then (if sa_key attr = ''fmtp'' then accept_fmtp_attribute attr media else Inr True)
      else Inr (list_ex (\<lambda>accepts. accepts attr media) ext_accepts))"

section \<open>The extensions for direction and mid\<close>

definition kms_sdp_media_direction_ext_add_offer_attributes ::
  "sdp_direction \<Rightarrow> sdp_media \<Rightarrow> c_fault + sdp_media" where
  "kms_sdp_media_direction_ext_add_offer_attributes dir offer =
     sdp_utils_media_config_set_direction offer dir"

text \<open>\<open>on_answer\<close> answers the signal with a direction for the offered one.\<close>

definition kms_sdp_media_direction_ext_add_answer_attributes ::
  "(sdp_direction \<Rightarrow> sdp_direction) \<Rightarrow> sdp_media \<Rightarrow> sdp_media \<Rightarrow> c_fault + sdp_media" where
  "kms_sdp_media_direction_ext_add_answer_attributes on_answer offer answer =
     sdp_utils_media_config_set_direction answer
       (on_answer (sdp_utils_media_config_get_direction offer))"

definition add_media_attr :: "string \<Rightarrow> string option \<Rightarrow> sdp_media \<Rightarrow> sdp_media" where
  "add_media_attr k v media = media\<lparr>sm_attrs := attrs_add k v (sm_attrs media)\<rparr>"

definition kms_sdp_mid_ext_add_offer_attributes :: "string option \<Rightarrow> sdp_media \<Rightarrow> sdp_media" where
  "kms_sdp_mid_ext_add_offer_attributes on_offer offer =
     (if attribute_val (sm_attrs offer) ''mid'' \<noteq> None then offer
      else add_media_attr ''mid'' on_offer offer)"

text \<open>\<open>on_answer\<close> is the callback of the signal over the state of its owner.\<close>

definition kms_sdp_mid_ext_add_answer_attributes ::
  "(string \<Rightarrow> 's \<Rightarrow> bool \<times> 's) \<Rightarrow> 's answer_ext" where
  "kms_sdp_mid_ext_add_answer_attributes on_answer offer answer s =
     (if attribute_val (sm_attrs answer) ''mid'' \<noteq> None then (True, answer, s)
      else case attribute_val (sm_attrs offer) ''mid'' of
          None \<Rightarrow> (True, answer, s)
        | Some mid \<Rightarrow> (let (ret, s') = on_answer mid s in
            if \<not> ret then (False, answer, s') else (True, add_media_attr ''mid'' (Some mid) answer, s')))"

section \<open>The handler that rejects\<close>

definition kms_sdp_reject_media_handler_new :: media_handler where
  "kms_sdp_reject_media_handler_new = \<lparr>mh_reject = True, mh_proto = Some '''', mh_addr = None,
     mh_addr_type = Some ''IP4'', mh_bwtypes = [], mh_id = - 1, mh_parent = False\<rparr>"

definition kms_sdp_reject_media_handler_init_answer :: "sdp_media \<Rightarrow> sdp_media \<Rightarrow> sdp_media" where
  "kms_sdp_reject_media_handler_init_answer offer answer =
     answer\<lparr>sm_media := sm_media offer, sm_proto := sm_proto offer, sm_port := 0, sm_num_ports := 1,
       sm_fmts := sm_fmts answer @ sm_fmts offer\<rparr>"

text \<open>
  The answer of a reject handler whose extensions are the ones the agent gives it: the
  direction, which is inactive, and the mid, whose callback is \<open>on_mid\<close>. The description it
  is given has no direction yet, so setting one cannot fail.
\<close>

definition reject_direction_ext :: "'s answer_ext" where
  "reject_direction_ext offer answer s =
     (case kms_sdp_media_direction_ext_add_answer_attributes (\<lambda>_. INACTIVE) offer answer of
        Inl e \<Rightarrow> (False, answer, s) | Inr answer' \<Rightarrow> (True, answer', s))"

definition kms_sdp_reject_media_handler_create_answer ::
  "(string \<Rightarrow> 's \<Rightarrow> bool \<times> 's) \<Rightarrow> sdp_media \<Rightarrow> 's \<Rightarrow> sdp_media \<times> 's" where
  "kms_sdp_reject_media_handler_create_answer on_mid offer s =
     kms_sdp_media_handler_add_answer_attributes_impl kms_sdp_reject_media_handler_new
       [reject_direction_ext, kms_sdp_mid_ext_add_answer_attributes on_mid] offer
       (kms_sdp_reject_media_handler_init_answer offer sdp_media_new) s"

text \<open>\<open>reject_sdp_media\<close> of the agent: a handler of its own, whose mid callback says yes.\<close>

definition reject_sdp_media :: "sdp_media \<Rightarrow> sdp_media" where
  "reject_sdp_media media =
     fst (kms_sdp_reject_media_handler_create_answer (\<lambda>mid (s :: unit). (True, s)) media ())"

definition reject_line :: "sdp_media \<Rightarrow> sdp_attr list \<Rightarrow> sdp_media" where
  "reject_line offer as = sdp_media_new\<lparr>sm_media := sm_media offer, sm_proto := sm_proto offer,
     sm_num_ports := 1, sm_fmts := sm_fmts offer, sm_attrs := mk_attr ''inactive'' '''' # as\<rparr>"

lemma reject_direction:
  "reject_direction_ext offer (add_bandwidths [] (kms_sdp_reject_media_handler_init_answer offer sdp_media_new)) s =
     (True, reject_line offer [], s)"
  by (simp add: reject_direction_ext_def kms_sdp_media_direction_ext_add_answer_attributes_def
      sdp_utils_media_config_set_direction_def set_direction_loop_done add_bandwidths_def attrs_add_def
      kms_sdp_reject_media_handler_init_answer_def sdp_media_new_def reject_line_def mk_attr_def dir_str.simps)

lemma reject_answer_line:
  "kms_sdp_reject_media_handler_create_answer on_mid offer s =
     (case attribute_val (sm_attrs offer) ''mid'' of
        None \<Rightarrow> (reject_line offer [], s)
      | Some mid \<Rightarrow> (reject_line offer (if fst (on_mid mid s) then [mk_attr ''mid'' mid] else []), snd (on_mid mid s)))"
proof -
  have "attribute_val (sm_attrs (reject_line offer [])) ''mid'' = None"
    by (simp add: reject_line_def attribute_val_cases)
  moreover have "add_media_attr ''mid'' (Some mid) (reject_line offer []) = reject_line offer [mk_attr ''mid'' mid]" for mid
    by (simp add: add_media_attr_def attrs_add_def reject_line_def mk_attr_def)
  ultimately show ?thesis
    by (simp add: kms_sdp_reject_media_handler_create_answer_def kms_sdp_reject_media_handler_new_def
        kms_sdp_media_handler_add_answer_attributes_impl_def reject_direction
        kms_sdp_mid_ext_add_answer_attributes_def Let_def case_prod_beta split: option.split)
qed

text \<open>
  A rejected media keeps the place of the offered one: port 0, the same kind, protocol and
  formats, nobody sends, and no mid but the offered one.
\<close>

theorem reject_answer_fields:
  "\<exists>as. fst (kms_sdp_reject_media_handler_create_answer on_mid offer s) = reject_line offer as \<and>
     sm_port (reject_line offer as) = 0 \<and>
     sdp_utils_media_config_get_direction (reject_line offer as) = INACTIVE \<and>
     attribute_val (sm_attrs (reject_line offer as)) ''mid'' \<in> {None, attribute_val (sm_attrs offer) ''mid''}"
proof -
  have isd: "sdp_utils_attribute_is_direction (mk_attr ''inactive'' v) = Some INACTIVE" for v
    using is_direction_mk [of INACTIVE v] by (simp add: dir_str.simps)
  have 1: "sm_port (reject_line offer as) = 0" for as by (simp add: reject_line_def sdp_media_new_def)
  have 2: "sdp_utils_media_config_get_direction (reject_line offer as) = INACTIVE" for as
    by (simp add: reject_line_def sdp_utils_media_config_get_direction_def isd)
  have 3: "attribute_val (sm_attrs (reject_line offer as)) ''mid'' = attribute_val as ''mid''" for as
    by (simp add: reject_line_def attribute_val_cases)
  show ?thesis
  proof (cases "attribute_val (sm_attrs offer) ''mid''")
    case None
    then show ?thesis
      by (intro exI [of _ "[]"]) (simp add: reject_answer_line 1 2 3, simp add: attribute_val_cases)
  next
    case (Some mid)
    show ?thesis
      by (intro exI [of _ "if fst (on_mid mid s) then [mk_attr ''mid'' mid] else []"])
        (simp add: reject_answer_line 1 2 3 Some, simp add: attribute_val_cases)
  qed
qed

end
