(* ===== verification/SdpRtp.thy ===== *)
theory SdpRtp
  imports SdpMediaHandler "HOL-Library.Sublist"
begin

text \<open>
  The class that all RTP media handlers derive from (\<open>kmssdprtpmediahandler.c\<close>): the RTCP
  port and multiplexing, and the intersection of the attributes of an offer with what the
  handler lets into an answer. Which attributes these are is a virtual method: the argument
  \<open>can_insert\<close>. The locales state what every handler promises of it.
\<close>

section \<open>State and operations\<close>

record rtp_media_handler =
  rt_base :: media_handler
  rt_rtcp_mux :: bool
  rt_rtcp_entry :: bool

definition kms_sdp_rtp_media_handler_can_insert_attribute ::
  "rtp_media_handler \<Rightarrow> (sdp_attr \<Rightarrow> sdp_media \<Rightarrow> bool) list \<Rightarrow> sdp_attr \<Rightarrow> sdp_media \<Rightarrow> c_fault + bool" where
  "kms_sdp_rtp_media_handler_can_insert_attribute self ext_accepts attr answer =
     (if sa_key attr \<noteq> ''rtcp-mux'' then kms_sdp_media_handler_can_insert_attribute_impl ext_accepts attr answer
      else if \<not> rt_rtcp_mux self then Inr False
      else if \<not> rt_rtcp_entry self then Inr False
      else Inr (\<not> sdp_utils_is_attribute_in_media answer attr))"

definition instersect_rtp_media_attr ::
  "(sdp_attr \<Rightarrow> sdp_media \<Rightarrow> c_fault + bool) \<Rightarrow> sdp_attr \<Rightarrow> c_fault + sdp_media \<Rightarrow> c_fault + sdp_media" where
  "instersect_rtp_media_attr can_insert attr r =
     bind_result r (\<lambda>answer. bind_result (can_insert attr answer) (\<lambda>ok.
       Inr (if ok then add_media_attr (sa_key attr) (sa_value attr) answer else answer)))"

definition kms_sdp_rtp_media_handler_intersect_sdp_medias ::
  "(sdp_attr \<Rightarrow> sdp_media \<Rightarrow> c_fault + bool) \<Rightarrow> sdp_media \<Rightarrow> sdp_media \<Rightarrow> c_fault + sdp_media option" where
  "kms_sdp_rtp_media_handler_intersect_sdp_medias can_insert offer answer =
     (let (ok, r) = sdp_utils_intersect_media_attributes offer
        (Some (instersect_rtp_media_attr can_insert)) (Inr answer) in
      bind_result r (\<lambda>a. Inr (if ok then Some a else None)))"

text \<open>The entry of RFC 3605. A missing address type is printed as the C library prints \<open>NULL\<close>.\<close>

definition rtcp_entry_value :: "media_handler \<Rightarrow> string" where
  "rtcp_entry_value h = (case mh_addr h of
     None \<Rightarrow> ''9''
   | Some addr \<Rightarrow> ''9 IN '' @ (case mh_addr_type h of None \<Rightarrow> ''(null)'' | Some t \<Rightarrow> t) @ '' '' @ addr)"

definition add_rtcp_entry :: "rtp_media_handler \<Rightarrow> sdp_media \<Rightarrow> sdp_media" where
  "add_rtcp_entry self media =
     (if rt_rtcp_entry self then add_media_attr ''rtcp'' (Some (rtcp_entry_value (rt_base self))) media else media)"

definition kms_sdp_rtp_media_handler_add_offer_attributes ::
  "rtp_media_handler \<Rightarrow> 's offer_ext list \<Rightarrow> sdp_media \<Rightarrow> 's \<Rightarrow> sdp_media \<times> 's" where
  "kms_sdp_rtp_media_handler_add_offer_attributes self exts offer s =
     (let o1 = add_rtcp_entry self offer;
        o2 = (if rt_rtcp_mux self then add_media_attr ''rtcp-mux'' (Some '''') o1 else o1) in
      kms_sdp_media_handler_add_offer_attributes_impl (rt_base self) exts o2 s)"

definition kms_sdp_rtp_media_handler_add_answer_attributes ::
  "rtp_media_handler \<Rightarrow> 's answer_ext list \<Rightarrow> sdp_media \<Rightarrow> sdp_media \<Rightarrow> 's \<Rightarrow> sdp_media \<times> 's" where
  "kms_sdp_rtp_media_handler_add_answer_attributes self exts offer answer s =
     (let (a1, s') = kms_sdp_media_handler_add_answer_attributes_impl (rt_base self) exts offer answer s in
      (add_rtcp_entry self a1, s'))"

section \<open>Changes to the attributes of a media\<close>

lemma add_media_attr_fields [simp]:
  "sm_attrs (add_media_attr k v m) = sm_attrs m @ [\<lparr>sa_key = k, sa_value = v\<rparr>]"
  "sm_fmts (add_media_attr k v m) = sm_fmts m" "sm_port (add_media_attr k v m) = sm_port m"
  "sm_media (add_media_attr k v m) = sm_media m" "sm_proto (add_media_attr k v m) = sm_proto m"
  "sm_num_ports (add_media_attr k v m) = sm_num_ports m"
  by (simp_all add: add_media_attr_def attrs_add_def)

lemma attr_eta [simp]: "\<lparr>sa_key = sa_key a, sa_value = sa_value a\<rparr> = a"
  by (cases a) simp

text \<open>What is left of a media without the attributes and bandwidths.\<close>

definition mline :: "sdp_media \<Rightarrow> sdp_media" where
  "mline m = m\<lparr>sm_attrs := [], sm_bandwidths := []\<rparr>"

lemma mline_simps [simp]:
  "mline (add_media_attr k v m) = mline m" "mline (add_bandwidths b m) = mline m"
  "mline (m\<lparr>sm_attrs := as\<rparr>) = mline m" "mline (add_rtcp_entry self m) = mline m"
  by (simp_all add: mline_def add_media_attr_def add_bandwidths_def add_rtcp_entry_def)

lemma mline_fields:
  "mline a = mline b \<Longrightarrow> sm_fmts a = sm_fmts b \<and> sm_port a = sm_port b \<and> sm_media a = sm_media b \<and>
     sm_proto a = sm_proto b \<and> sm_num_ports a = sm_num_ports b"
  by (cases a; cases b) (simp add: mline_def)

definition ext_keeps :: "'s answer_ext \<Rightarrow> bool" where
  "ext_keeps ext \<longleftrightarrow> (\<forall>offer a s. mline (fst (snd (ext offer a s))) = mline a)"

lemma run_answer_exts_mline:
  "list_all ext_keeps exts \<Longrightarrow> mline (fst (run_answer_exts exts offer a s)) = mline a"
  by (induction exts arbitrary: a s) (auto simp: ext_keeps_def Let_def case_prod_beta)

lemma mid_ext_keeps: "ext_keeps (kms_sdp_mid_ext_add_answer_attributes on_answer)"
  by (auto simp: ext_keeps_def kms_sdp_mid_ext_add_answer_attributes_def Let_def case_prod_beta split: option.split)

lemma rtp_answer_mline:
  assumes "list_all ext_keeps exts"
    and "kms_sdp_rtp_media_handler_add_answer_attributes self exts offer a s = (a', s')"
  shows "mline a' = mline a"
  using assms(2) run_answer_exts_mline [OF assms(1), of offer "add_bandwidths (mh_bwtypes (rt_base self)) a" s]
  by (auto simp: kms_sdp_rtp_media_handler_add_answer_attributes_def case_prod_beta
      kms_sdp_media_handler_add_answer_attributes_impl_def)

section \<open>What the intersection keeps\<close>

text \<open>
  No attribute twice and at most one direction. The first locale is what keeps it, the second
  one what makes the direction of the answer the mirror of the offer's.
\<close>

definition answer_ok :: "sdp_media \<Rightarrow> bool" where
  "answer_ok m \<longleftrightarrow> distinct (sm_attrs m) \<and> length (filter is_dir (sm_attrs m)) \<le> 1"

lemma attribute_in_media_iff: "sdp_utils_is_attribute_in_media m a \<longleftrightarrow> a \<in> set (sm_attrs m)"
  unfolding sdp_utils_is_attribute_in_media_def list_ex_iff by (metis attr_eta)

lemma intersect_fold:
  "kms_sdp_rtp_media_handler_intersect_sdp_medias can_insert offer answer =
     bind_result (fold (instersect_rtp_media_attr can_insert) (map answer_of (sm_attrs offer)) (Inr answer))
       (\<lambda>a. Inr (Some a))"
  by (simp add: kms_sdp_rtp_media_handler_intersect_sdp_medias_def
      sdp_utils_intersect_media_attributes_def intersect_loop_fold fold_map comp_def)

lemma fold_fault: "fold (instersect_rtp_media_attr can_insert) as (Inl e) = Inl e"
  by (induction as) (simp_all add: instersect_rtp_media_attr_def)

lemma step_shape:
  assumes "instersect_rtp_media_attr can_insert attr (Inr m) = Inr m'"
  shows "m' = m \<and> can_insert attr m = Inr False \<or>
    m' = add_media_attr (sa_key attr) (sa_value attr) m \<and> can_insert attr m = Inr True"
  using assms by (auto simp: instersect_rtp_media_attr_def bind_result_Inr_iff)

text \<open>Every step that succeeds keeps \<open>P\<close>: so does the intersection.\<close>

lemma intersect_keeps:
  assumes "kms_sdp_rtp_media_handler_intersect_sdp_medias can_insert offer answer = Inr (Some answer')"
    and "P answer"
    and "\<And>a m. P m \<Longrightarrow> can_insert a m = Inr True \<Longrightarrow> P (add_media_attr (sa_key a) (sa_value a) m)"
  shows "P answer'"
proof -
  have "fold (instersect_rtp_media_attr can_insert) as (Inr m) = Inr m' \<Longrightarrow> P m \<Longrightarrow> P m'" for as m m'
  proof (induction as arbitrary: m)
    case (Cons a as)
    then obtain m1 where m1: "instersect_rtp_media_attr can_insert a (Inr m) = Inr m1"
      by (cases "instersect_rtp_media_attr can_insert a (Inr m)") (auto simp: fold_fault)
    have "P m1" using step_shape [OF m1] Cons.prems(2) assms(3) by blast
    then show ?case using Cons m1 by simp
  qed simp
  then show ?thesis using assms(1,2) by (auto simp: intersect_fold bind_result_Inr_iff)
qed

lemma intersect_mline:
  assumes "kms_sdp_rtp_media_handler_intersect_sdp_medias can_insert offer answer = Inr (Some answer')"
  shows "mline answer' = mline answer"
  by (rule intersect_keeps [OF assms]) simp_all

locale attr_filter =
  fixes can_insert :: "sdp_attr \<Rightarrow> sdp_media \<Rightarrow> c_fault + bool"
  assumes inserts_new: "can_insert a m = Inr True \<Longrightarrow> a \<notin> set (sm_attrs m)"
    and one_direction: "can_insert a m = Inr True \<Longrightarrow> is_dir a \<Longrightarrow> filter is_dir (sm_attrs m) = []"
begin

lemma intersect_ok:
  assumes "answer_ok answer"
    and "kms_sdp_rtp_media_handler_intersect_sdp_medias can_insert offer answer = Inr (Some answer')"
  shows "answer_ok answer' \<and> prefix (sm_attrs answer) (sm_attrs answer') \<and> answer'\<lparr>sm_attrs := sm_attrs answer\<rparr> = answer"
proof (rule intersect_keeps [OF assms(2), where P = "\<lambda>m. answer_ok m \<and> prefix (sm_attrs answer) (sm_attrs m) \<and>
      m\<lparr>sm_attrs := sm_attrs answer\<rparr> = answer"])
  fix a m
  assume m: "answer_ok m \<and> prefix (sm_attrs answer) (sm_attrs m) \<and> m\<lparr>sm_attrs := sm_attrs answer\<rparr> = answer"
    and c: "can_insert a m = Inr True"
  then show "answer_ok (add_media_attr (sa_key a) (sa_value a) m) \<and>
      prefix (sm_attrs answer) (sm_attrs (add_media_attr (sa_key a) (sa_value a) m)) \<and>
      (add_media_attr (sa_key a) (sa_value a) m)\<lparr>sm_attrs := sm_attrs answer\<rparr> = answer"
    using inserts_new [OF c] one_direction [OF c]
    by (auto simp: answer_ok_def add_media_attr_def attrs_add_def)
qed (use assms(1) in simp)

end

lemma get_direction_append:
  "get_direction_loop (as @ bs) dir =
     (if list_ex is_dir as then get_direction_loop as dir else get_direction_loop bs dir)"
  by (induction as) (auto split: option.split)

locale direction_filter = attr_filter +
  assumes takes_direction: "\<not> list_ex is_dir (sm_attrs m) \<Longrightarrow> is_dir a \<Longrightarrow> can_insert a m = Inr True"
begin

text \<open>Once there is a direction it stays.\<close>

lemma direction_stays:
  "fold (instersect_rtp_media_attr can_insert) as (Inr m) = Inr m' \<Longrightarrow> list_ex is_dir (sm_attrs m) \<Longrightarrow>
     get_direction_loop (sm_attrs m') SENDRECV = get_direction_loop (sm_attrs m) SENDRECV"
proof (induction as arbitrary: m)
  case (Cons a as)
  then obtain m1 where m1: "instersect_rtp_media_attr can_insert a (Inr m) = Inr m1"
    by (cases "instersect_rtp_media_attr can_insert a (Inr m)") (auto simp: fold_fault)
  have "list_ex is_dir (sm_attrs m1)" "get_direction_loop (sm_attrs m1) SENDRECV = get_direction_loop (sm_attrs m) SENDRECV"
    using step_shape [OF m1] Cons.prems(2) by (auto simp: get_direction_append)
  then show ?case using Cons m1 by simp
qed simp

lemma direction_taken:
  "fold (instersect_rtp_media_attr can_insert) as (Inr m) = Inr m' \<Longrightarrow> \<not> list_ex is_dir (sm_attrs m) \<Longrightarrow>
     get_direction_loop (sm_attrs m') SENDRECV = get_direction_loop as SENDRECV"
proof (induction as arbitrary: m)
  case Nil
  then show ?case by (simp add: get_direction_loop_none list_ex_iff list_all_iff)
next
  case (Cons a as)
  then obtain m1 where m1: "instersect_rtp_media_attr can_insert a (Inr m) = Inr m1"
    by (cases "instersect_rtp_media_attr can_insert a (Inr m)") (auto simp: fold_fault)
  show ?case
  proof (cases "sdp_utils_attribute_is_direction a")
    case None
    then have "\<not> list_ex is_dir (sm_attrs m1)" using step_shape [OF m1] Cons.prems(2) by auto
    then show ?thesis using Cons m1 None by simp
  next
    case (Some d)
    then have "sm_attrs m1 = sm_attrs m @ [a]"
      using step_shape [OF m1] takes_direction [OF Cons.prems(2), of a] by auto
    then show ?thesis
      using direction_stays [of as m1] Cons.prems m1 Some by (auto simp: get_direction_append)
  qed
qed

lemma intersect_direction:
  assumes "kms_sdp_rtp_media_handler_intersect_sdp_medias can_insert offer answer = Inr (Some answer')"
    and "\<not> list_ex is_dir (sm_attrs answer)"
  shows "sends (sdp_utils_media_config_get_direction answer') = receives (sdp_utils_media_config_get_direction offer) \<and>
    receives (sdp_utils_media_config_get_direction answer') = sends (sdp_utils_media_config_get_direction offer)"
proof -
  have "fold (instersect_rtp_media_attr can_insert) (map answer_of (sm_attrs offer)) (Inr answer) = Inr answer'"
    using assms(1) by (simp add: intersect_fold bind_result_Inr_iff)
  from direction_taken [OF this assms(2)] show ?thesis
    by (cases "get_direction_loop (sm_attrs offer) SENDRECV")
      (simp_all add: sdp_utils_media_config_get_direction_def get_direction_loop_map Let_def)
qed

end

text \<open>The base class and the RTP class keep these laws.\<close>

lemma base_inserts:
  assumes "kms_sdp_media_handler_can_insert_attribute_impl ea a m = Inr True"
  shows "a \<notin> set (sm_attrs m)" and "is_dir a \<Longrightarrow> filter is_dir (sm_attrs m) = []"
  using assms by (auto simp: kms_sdp_media_handler_can_insert_attribute_impl_def attribute_in_media_iff
      is_direction_attr_present_def list_ex_iff filter_empty_conv split: if_splits)

lemma base_takes_direction:
  assumes "\<not> list_ex is_dir (sm_attrs m)" and "is_dir a"
  shows "kms_sdp_media_handler_can_insert_attribute_impl ea a m = Inr True"
proof -
  have "a \<notin> set (sm_attrs m)" using assms by (auto simp: list_ex_iff)
  then show ?thesis
    using assms by (simp add: kms_sdp_media_handler_can_insert_attribute_impl_def
        attribute_in_media_iff is_direction_attr_present_def)
qed

lemma direction_key:
  assumes "is_dir a"
  shows "sa_key a \<noteq> ''rtpmap''" and "sa_key a \<noteq> ''extmap''" and "sa_key a \<noteq> ''rtcp-mux''" and "sa_key a \<noteq> ''rtcp-fb''"
proof -
  obtain d where "sdp_utils_attribute_is_direction a = Some d" using assms by auto
  then have "map ascii_lower (sa_key a) = dir_str d" by (simp add: is_direction_iff)
  then show "sa_key a \<noteq> ''rtpmap''" and "sa_key a \<noteq> ''extmap''" and "sa_key a \<noteq> ''rtcp-mux''" and "sa_key a \<noteq> ''rtcp-fb''"
    by (cases d; auto simp: dir_str.simps ascii_lower_def char_code_def)+
qed

interpretation base: direction_filter "kms_sdp_media_handler_can_insert_attribute_impl ea" for ea
  by unfold_locales (fact base_inserts(1), fact base_inserts(2), fact base_takes_direction)

interpretation rtp: direction_filter "kms_sdp_rtp_media_handler_can_insert_attribute self ea" for self ea
  by unfold_locales
    (auto simp: kms_sdp_rtp_media_handler_can_insert_attribute_def attribute_in_media_iff direction_key
      base_takes_direction dest: base_inserts split: if_splits)

end
