(* ===== verification/SdpRtpAvp.thy ===== *)
theory SdpRtpAvp
  imports SdpRtp PayloadManager
begin

text \<open>
  The media handler for RTP/AVP (\<open>kmssdprtpavpmediahandler.c\<close>): the codecs and header
  extensions it is configured with, the offers it makes from them and the answers it gives,
  with the payload types it gets from the manager of \<open>PayloadManager\<close>. Its parent class is the
  one of \<open>SdpRtp\<close>. The classes for RTP/SAVP and the feedback profiles derive from it: the virtual
  method \<open>manage_protocol\<close> of an object is the argument \<open>manages\<close>. A result \<open>Inl\<close> is a fault; \<open>None\<close> inside of
  \<open>Inr\<close> is the failure of an operation, whose error text is left out.
\<close>

section \<open>State\<close>

record rtp_map =
  rm_payload :: u32
  rm_name :: string
  rm_fmtps :: "sdp_attr list"

record rtp_handler =
  rh_rtp :: rtp_media_handler
  rh_audio_fmts :: "rtp_map list"
  rh_video_fmts :: "rtp_map list"
  rh_extmaps :: "(u8, string) hash_table"
  rh_ptmanager :: "payload_manager option"

abbreviation rh_base :: "rtp_handler \<Rightarrow> media_handler" where
  "rh_base h \<equiv> rt_base (rh_rtp h)"

definition avp_rtpmaps :: "string option list" where
  "avp_rtpmaps = [Some ''PCMU/8000'', None, None, Some ''GSM/8000'', Some ''G723/8000'',
     Some ''DVI4/8000'', Some ''DVI4/16000'', Some ''LPC/8000'', Some ''PCMA/8000'',
     Some ''G722/8000'', Some ''L16/44100/2'', Some ''L16/44100'', Some ''QCELP/8000'',
     Some ''CN/8000'', Some ''MPA/90000'', Some ''G728/8000'', Some ''DVI4/11025'',
     Some ''DVI4/22050'', Some ''G729/8000'', None, None, None, None, None, None,
     Some ''CelB/90000'', Some ''JPEG/90000'', None, Some ''nv/90000'', None, None,
     Some ''H261/90000'', Some ''MPV/90000'', Some ''MP2T/90000'', Some ''H263/90000'']"

text \<open>\<open>G_N_ELEMENTS (rtpmaps)\<close>\<close>

definition n_rtpmaps :: nat where
  "n_rtpmaps = 35"

definition rtpmaps_at :: "nat \<Rightarrow> c_fault + string option" where
  "rtpmaps_at i = (if i < n_rtpmaps then Inr (avp_rtpmaps ! i) else Inl Out_of_bounds)"

definition DEFAULT_RTP_VIDEO_BASE_PAYLOAD :: nat where
  "DEFAULT_RTP_VIDEO_BASE_PAYLOAD = 24"

section \<open>Codecs\<close>

definition str_suffix :: "string \<Rightarrow> string \<Rightarrow> bool" where
  "str_suffix e s \<longleftrightarrow> length e \<le> length s \<and> drop (length s - length e) s = e"

fun str_contains :: "string \<Rightarrow> string \<Rightarrow> bool" where
  "str_contains [] p = (p = [])"
| "str_contains (c # s) p = (str_prefix p (c # s) \<or> str_contains s p)"

definition cmp_static_payload :: "string option \<Rightarrow> string option \<Rightarrow> c_fault + bool" where
  "cmp_static_payload enc static_pt = (case static_pt of
     None \<Rightarrow> Inr False
   | Some st \<Rightarrow> (case enc of
        None \<Rightarrow> Inl Null_dereference
      | Some e \<Rightarrow>
          (if \<not> str_prefix st e then Inr False
           else Inr ((if str_suffix ''/1'' e then take (length e - 2) e else e) = st))))"

fun static_payload_loop :: "nat \<Rightarrow> string option list \<Rightarrow> string \<Rightarrow> int" where
  "static_payload_loop i [] name = - 1"
| "static_payload_loop i (r # rs) name =
     (if cmp_static_payload (Some name) r = Inr True then int i else static_payload_loop (Suc i) rs name)"

definition get_static_payload_for_codec_name :: "string \<Rightarrow> int" where
  "get_static_payload_for_codec_name name = static_payload_loop 0 avp_rtpmaps name"

text \<open>
  A new entry for a codec, or \<open>None\<close> in the result; the outer option is the fuel of the
  manager's search.
\<close>

definition kms_sdp_rtp_map_create_for_codec ::
  "rtp_handler \<Rightarrow> string \<Rightarrow> (c_fault + rtp_map option \<times> rtp_handler) option" where
  "kms_sdp_rtp_map_create_for_codec self name =
     (let payload = get_static_payload_for_codec_name name in
      if payload \<ge> 0 then Some (Inr (Some \<lparr>rm_payload = word_of_int payload, rm_name = name, rm_fmtps = []\<rparr>, self))
      else case rh_ptmanager self of
          None \<Rightarrow> Some (Inr (None, self))
        | Some pm \<Rightarrow> (case kms_sdp_payload_manager_get_dynamic_pt (Some name) pm of
              None \<Rightarrow> None
            | Some r \<Rightarrow> Some (bind_result r (\<lambda>(pm', pt, _).
                Inr (if pt \<ge> 0 then Some \<lparr>rm_payload = word_of_int pt, rm_name = name, rm_fmtps = []\<rparr> else None,
                  self\<lparr>rh_ptmanager := Some pm'\<rparr>)))))"

definition is_codec_used :: "rtp_map list \<Rightarrow> string \<Rightarrow> bool" where
  "is_codec_used maps name \<longleftrightarrow> list_ex (\<lambda>m. rm_name m = name) maps"

text \<open>The first entry with the payload type gets the value in front of its fmtp attributes.\<close>

fun prepend_fmtp :: "u32 \<Rightarrow> sdp_attr \<Rightarrow> rtp_map list \<Rightarrow> rtp_map list option" where
  "prepend_fmtp payload fmtp [] = None"
| "prepend_fmtp payload fmtp (m # ms) =
     (if rm_payload m = payload then Some (m\<lparr>rm_fmtps := fmtp # rm_fmtps m\<rparr> # ms)
      else map_option (\<lambda>ms'. m # ms') (prepend_fmtp payload fmtp ms))"

definition kms_sdp_rtp_avp_media_handler_add_fmtp :: "rtp_handler \<Rightarrow> u32 \<Rightarrow> string \<Rightarrow> rtp_handler \<times> bool" where
  "kms_sdp_rtp_avp_media_handler_add_fmtp self payload value =
     (let fmtp = mk_attr ''fmtp'' (decimal (unat payload) @ '' '' @ value) in
      case prepend_fmtp payload fmtp (rh_audio_fmts self) of
        Some ms \<Rightarrow> (self\<lparr>rh_audio_fmts := ms\<rparr>, True)
      | None \<Rightarrow> (case prepend_fmtp payload fmtp (rh_video_fmts self) of
            Some ms \<Rightarrow> (self\<lparr>rh_video_fmts := ms\<rparr>, True)
          | None \<Rightarrow> (self, False)))"

definition codec_fmtp :: "string \<Rightarrow> string option" where
  "codec_fmtp name =
     (if str_contains name ''H264'' then Some ''level-asymmetry-allowed=1;packetization-mode=1;profile-level-id=42e01f''
      else if str_contains name ''AV1'' then Some ''level-idx=5;profile=0;tier=0''
      else if str_contains name ''VP9'' then Some ''profile-id=0''
      else None)"

text \<open>\<open>is_audio\<close> stands for the media name, audio or video; the result is the payload type or \<open>-1\<close>.\<close>

definition kms_sdp_rtp_avp_media_handler_add_codec ::
  "rtp_handler \<Rightarrow> string \<Rightarrow> string \<Rightarrow> (c_fault + int \<times> rtp_handler) option" where
  "kms_sdp_rtp_avp_media_handler_add_codec self media name =
     (if media \<noteq> ''audio'' \<and> media \<noteq> ''video'' then Some (Inr (- 1, self))
      else if is_codec_used (if media = ''audio'' then rh_audio_fmts self else rh_video_fmts self) name
      then Some (Inr (- 1, self))
      else case kms_sdp_rtp_map_create_for_codec self name of
          None \<Rightarrow> None
        | Some r \<Rightarrow> Some (bind_result r (\<lambda>(m, self1). case m of
              None \<Rightarrow> Inr (- 1, self1)
            | Some rtpmap \<Rightarrow>
                (let self2 = (if media = ''audio'' then self1\<lparr>rh_audio_fmts := rh_audio_fmts self1 @ [rtpmap]\<rparr>
                     else self1\<lparr>rh_video_fmts := rh_video_fmts self1 @ [rtpmap]\<rparr>);
                   self3 = (case codec_fmtp name of None \<Rightarrow> self2
                     | Some v \<Rightarrow> fst (kms_sdp_rtp_avp_media_handler_add_fmtp self2 (rm_payload rtpmap) v)) in
                 Inr (to_gint (uint (rm_payload rtpmap)), self3)))))"

definition kms_sdp_rtp_avp_media_handler_add_extmap :: "rtp_handler \<Rightarrow> u8 \<Rightarrow> string \<Rightarrow> rtp_handler \<times> bool" where
  "kms_sdp_rtp_avp_media_handler_add_extmap self eid uri =
     (if map_of (rh_extmaps self) eid \<noteq> None then (self, False)
      else (self\<lparr>rh_extmaps := AList.update eid uri (rh_extmaps self)\<rparr>, True))"

definition kms_sdp_rtp_avp_media_handler_use_payload_manager :: "rtp_handler \<Rightarrow> payload_manager \<Rightarrow> rtp_handler" where
  "kms_sdp_rtp_avp_media_handler_use_payload_manager self manager = self\<lparr>rh_ptmanager := Some manager\<rparr>"

section \<open>Which formats are supported\<close>

text \<open>Registering without a manager does nothing.\<close>

definition register_pt :: "int \<Rightarrow> string \<Rightarrow> payload_manager option \<Rightarrow> c_fault + payload_manager option" where
  "register_pt pt name pm = (case pm of
     None \<Rightarrow> Inr None
   | Some m \<Rightarrow> bind_result (kms_sdp_payload_manager_register_dynamic_payload pt (Some name) m)
       (\<lambda>(m', _). Inr (Some m')))"

fun encoding_loop :: "rtp_map list \<Rightarrow> string option \<Rightarrow> int \<Rightarrow> payload_manager option \<Rightarrow>
    c_fault + bool \<times> payload_manager option" where
  "encoding_loop [] enc pt pm = Inr (False, pm)"
| "encoding_loop (m # ms) enc pt pm =
     (if unat (rm_payload m) \<le> n_rtpmaps
      then bind_result (rtpmaps_at (unat (rm_payload m))) (\<lambda>st.
           bind_result (cmp_static_payload enc st) (\<lambda>supported.
             if supported then Inr (True, pm) else encoding_loop ms enc pt pm))
      else case enc of
          None \<Rightarrow> Inl Null_dereference
        | Some e \<Rightarrow>
            (if ascii_caseeq (rm_name m) e
             then bind_result (register_pt pt (rm_name m) pm) (\<lambda>pm'. Inr (True, pm'))
             else encoding_loop ms enc pt pm))"

definition fmts_for :: "rtp_handler \<Rightarrow> sdp_media \<Rightarrow> rtp_map list option" where
  "fmts_for self media =
     (if sm_media media = Some ''audio'' then Some (rh_audio_fmts self)
      else if sm_media media = Some ''video'' then Some (rh_video_fmts self) else None)"

definition kms_sdp_rtp_avp_media_handler_encoding_supported ::
  "rtp_handler \<Rightarrow> sdp_media \<Rightarrow> string option \<Rightarrow> int \<Rightarrow> c_fault + bool \<times> rtp_handler" where
  "kms_sdp_rtp_avp_media_handler_encoding_supported self media enc pt =
     (case fmts_for self media of
        None \<Rightarrow> Inr (False, self)
      | Some fmts \<Rightarrow> bind_result (encoding_loop fmts enc pt (rh_ptmanager self))
          (\<lambda>(b, pm). Inr (b, self\<lparr>rh_ptmanager := pm\<rparr>)))"

text \<open>
  The static payload type a format without rtpmap attribute means: the test of its bounds
  lets one more than the table has pass.
\<close>

definition static_encoding :: "int \<Rightarrow> c_fault + string option" where
  "static_encoding pt = (if pt \<ge> 0 \<and> pt \<le> int n_rtpmaps then rtpmaps_at (nat pt) else Inr None)"

definition kms_sdp_rtp_avp_media_handler_format_supported ::
  "rtp_handler \<Rightarrow> sdp_media \<Rightarrow> string \<Rightarrow> c_fault + bool \<times> rtp_handler" where
  "kms_sdp_rtp_avp_media_handler_format_supported self media fmt =
     (let pt = to_gint (strtol fmt) in
      case sdp_utils_get_attr_map_value media ''rtpmap'' (Some fmt) of
        None \<Rightarrow> bind_result (static_encoding pt) (\<lambda>st. case st of
            None \<Rightarrow> Inr (False, self)
          | Some s \<Rightarrow> kms_sdp_rtp_avp_media_handler_encoding_supported self media (Some s) pt)
      | Some val \<Rightarrow> bind_result (strv_at (strsplit (CHR '' '') val) 1) (\<lambda>enc.
          kms_sdp_rtp_avp_media_handler_encoding_supported self media enc pt))"

text \<open>The loops that copy the supported formats of an offer or of the previous description.\<close>

fun supported_formats_loop ::
  "rtp_handler \<Rightarrow> sdp_media \<Rightarrow> string list \<Rightarrow> c_fault + string list \<times> rtp_handler" where
  "supported_formats_loop self media [] = Inr ([], self)"
| "supported_formats_loop self media (fmt # fs) =
     bind_result (kms_sdp_rtp_avp_media_handler_format_supported self media fmt) (\<lambda>(ok, self1).
     bind_result (supported_formats_loop self1 media fs) (\<lambda>(rest, self2).
       Inr (if ok then fmt # rest else rest, self2)))"

definition kms_sdp_rtp_avp_media_handler_set_supported_fmts ::
  "rtp_handler \<Rightarrow> sdp_media \<Rightarrow> sdp_media \<Rightarrow> c_fault + sdp_media \<times> rtp_handler" where
  "kms_sdp_rtp_avp_media_handler_set_supported_fmts self origin target =
     bind_result (supported_formats_loop self origin (sm_fmts origin)) (\<lambda>(fs, self').
       Inr (target\<lparr>sm_fmts := sm_fmts target @ fs\<rparr>, self'))"

section \<open>Attributes of an offer\<close>

text \<open>
  The formats of a new offer. Every case of the check but one ends with an error; a payload
  type that is reserved only sets one and goes on.
\<close>

fun add_supported_fmts_loop :: "bool \<Rightarrow> rtp_map list \<Rightarrow> string list \<Rightarrow> c_fault + string list option" where
  "add_supported_fmts_loop is_audio [] fs = Inr (Some fs)"
| "add_supported_fmts_loop is_audio (m # ms) fs =
     (let p = unat (rm_payload m); go = add_supported_fmts_loop is_audio ms (fs @ [decimal p]) in
      if p \<le> n_rtpmaps
      then bind_result (rtpmaps_at p) (\<lambda>st. case st of
          None \<Rightarrow> go
        | Some enc \<Rightarrow>
            (if is_audio \<and> DEFAULT_RTP_VIDEO_BASE_PAYLOAD \<le> p then Inr None
             else if \<not> is_audio \<and> p < DEFAULT_RTP_VIDEO_BASE_PAYLOAD then Inr None
             else case strsplit (CHR ''/'') (rm_name m) of
                 [] \<Rightarrow> Inl Null_dereference
               | codec # _ \<Rightarrow> (if str_prefix codec enc then go else Inr None)))
      else go)"

definition kms_sdp_rtp_avp_media_handler_add_supported_fmts ::
  "rtp_handler \<Rightarrow> sdp_media \<Rightarrow> c_fault + sdp_media option" where
  "kms_sdp_rtp_avp_media_handler_add_supported_fmts self media =
     (case fmts_for self media of
        None \<Rightarrow> Inr None
      | Some item \<Rightarrow>
          bind_result (add_supported_fmts_loop (sm_media media = Some ''audio'') item (sm_fmts media))
            (\<lambda>fs. Inr (map_option (\<lambda>f. media\<lparr>sm_fmts := f\<rparr>) fs)))"

definition kms_sdp_rtp_avp_media_handler_add_extmaps :: "rtp_handler \<Rightarrow> sdp_media \<Rightarrow> sdp_media" where
  "kms_sdp_rtp_avp_media_handler_add_extmaps self media =
     fold (\<lambda>(eid, uri). add_media_attr ''extmap'' (Some (decimal (unat eid) @ '' '' @ uri))) (rh_extmaps self) media"

definition kms_sdp_rtp_avp_media_handler_add_fmtp_attrs :: "rtp_map \<Rightarrow> sdp_media \<Rightarrow> sdp_media" where
  "kms_sdp_rtp_avp_media_handler_add_fmtp_attrs rtpmap media =
     fold (\<lambda>f. add_media_attr (sa_key f) (sa_value f)) (rm_fmtps rtpmap) media"

fun rtpmap_attrs_item :: "u32 \<Rightarrow> rtp_map list \<Rightarrow> sdp_media \<Rightarrow> sdp_media" where
  "rtpmap_attrs_item pt [] media = media"
| "rtpmap_attrs_item pt (m # ms) media =
     (if pt \<noteq> rm_payload m then rtpmap_attrs_item pt ms media
      else rtpmap_attrs_item pt ms (kms_sdp_rtp_avp_media_handler_add_fmtp_attrs m
        (if unat pt \<le> n_rtpmaps then media
         else add_media_attr ''rtpmap'' (Some (decimal (unat (rm_payload m)) @ '' '' @ rm_name m)) media)))"

definition kms_sdp_rtp_avp_media_handler_add_rtpmap_attrs ::
  "rtp_handler \<Rightarrow> sdp_media \<Rightarrow> sdp_media option" where
  "kms_sdp_rtp_avp_media_handler_add_rtpmap_attrs self media =
     (case fmts_for self media of
        None \<Rightarrow> None
      | Some fmts \<Rightarrow> Some (fold (\<lambda>payload. rtpmap_attrs_item (ucast (strtoull payload)) fmts) (sm_fmts media) media))"

definition kms_sdp_rtp_avp_media_handler_add_new_offer_attributes ::
  "rtp_handler \<Rightarrow> sdp_media \<Rightarrow> c_fault + sdp_media option" where
  "kms_sdp_rtp_avp_media_handler_add_new_offer_attributes self offer =
     bind_result (kms_sdp_rtp_avp_media_handler_add_supported_fmts self offer) (\<lambda>r. case r of
       None \<Rightarrow> Inr None
     | Some m \<Rightarrow> Inr (kms_sdp_rtp_avp_media_handler_add_rtpmap_attrs self
         (kms_sdp_rtp_avp_media_handler_add_extmaps self m)))"

text \<open>One extmap of the other side: its URI is compared with each of the configured ones.\<close>

fun supported_extmaps_loop :: "(u8, string) hash_table \<Rightarrow> string list \<Rightarrow> sdp_media \<Rightarrow> c_fault + sdp_media option" where
  "supported_extmaps_loop extmaps [] answer = Inr (Some answer)"
| "supported_extmaps_loop extmaps (attr # as) answer =
     bind_result (strv_at (strsplit (CHR '' '') attr) 1) (\<lambda>uri. case uri of
       None \<Rightarrow> Inr None
     | Some offer_uri \<Rightarrow> supported_extmaps_loop extmaps as
         (fold (\<lambda>(_, u) a. if u = offer_uri then add_media_attr ''extmap'' (Some attr) a else a) extmaps answer))"

definition kms_sdp_rtp_avp_media_handler_add_supported_extmaps ::
  "rtp_handler \<Rightarrow> sdp_media \<Rightarrow> sdp_media \<Rightarrow> c_fault + sdp_media option" where
  "kms_sdp_rtp_avp_media_handler_add_supported_extmaps self offer answer =
     supported_extmaps_loop (rh_extmaps self) (seen_vals (sm_attrs offer) ''extmap'') answer"

fun supported_rtpmaps_loop ::
  "rtp_handler \<Rightarrow> sdp_media \<Rightarrow> string list \<Rightarrow> sdp_media \<Rightarrow> c_fault + sdp_media option \<times> rtp_handler" where
  "supported_rtpmaps_loop self offer [] answer = Inr (Some answer, self)"
| "supported_rtpmaps_loop self offer (fmt # fs) answer =
     (if sm_port answer = 0 then supported_rtpmaps_loop self offer fs answer
      else case sdp_utils_get_attr_map_value offer ''rtpmap'' (Some fmt) of
          Some val \<Rightarrow> supported_rtpmaps_loop self offer fs (add_media_attr ''rtpmap'' (Some val) answer)
        | None \<Rightarrow> (let pt = to_gint (strtol fmt) in
            bind_result (static_encoding pt) (\<lambda>st. case st of
              None \<Rightarrow> Inr (None, self)
            | Some s \<Rightarrow> bind_result (kms_sdp_rtp_avp_media_handler_encoding_supported self offer (Some s) pt)
                (\<lambda>(ok, self1). if ok then supported_rtpmaps_loop self1 offer fs answer else Inr (None, self1)))))"

definition kms_sdp_rtp_avp_media_handler_add_supported_rtpmap_attrs ::
  "rtp_handler \<Rightarrow> sdp_media \<Rightarrow> sdp_media \<Rightarrow> c_fault + sdp_media option \<times> rtp_handler" where
  "kms_sdp_rtp_avp_media_handler_add_supported_rtpmap_attrs self offer answer =
     supported_rtpmaps_loop self offer (sm_fmts answer) answer"

text \<open>The payload is read from the previous description at the index of the new one.\<close>

fun supported_fmtp_loop :: "sdp_media \<Rightarrow> nat \<Rightarrow> nat \<Rightarrow> sdp_media \<Rightarrow> sdp_media option" where
  "supported_fmtp_loop prev_offer i 0 offer = Some offer"
| "supported_fmtp_loop prev_offer i (Suc n) offer =
     (if \<not> i < length (sm_fmts prev_offer) then None
      else supported_fmtp_loop prev_offer (Suc i) n
        (case sdp_utils_sdp_media_get_fmtp prev_offer (sm_fmts prev_offer ! i) of
           None \<Rightarrow> offer
         | Some fmtp \<Rightarrow> add_media_attr ''fmtp'' (Some fmtp) offer))"

definition kms_sdp_rtp_avp_media_handler_add_supported_fmtp :: "sdp_media \<Rightarrow> sdp_media \<Rightarrow> sdp_media option" where
  "kms_sdp_rtp_avp_media_handler_add_supported_fmtp prev_offer offer =
     supported_fmtp_loop prev_offer 0 (length (sm_fmts offer)) offer"

section \<open>Offers\<close>

definition kms_sdp_rtp_avp_media_handler_is_valid_media :: "string option \<Rightarrow> bool" where
  "kms_sdp_rtp_avp_media_handler_is_valid_media media \<longleftrightarrow> media = Some ''audio'' \<or> media = Some ''video''"

definition kms_sdp_rtp_avp_media_handler_init_new_offer ::
  "rtp_handler \<Rightarrow> string option \<Rightarrow> sdp_media \<Rightarrow> sdp_media option" where
  "kms_sdp_rtp_avp_media_handler_init_new_offer handler media offer =
     (if \<not> kms_sdp_rtp_avp_media_handler_is_valid_media media then None
      else Some (add_media_attr ''setup'' (Some ''actpass'')
        (offer\<lparr>sm_media := media, sm_proto := mh_proto (rh_base handler), sm_port := 1, sm_num_ports := 1\<rparr>)))"

definition kms_sdp_rtp_avp_media_handler_init_renegotiated_offer ::
  "(string option \<Rightarrow> bool) \<Rightarrow> string option \<Rightarrow> sdp_media \<Rightarrow> sdp_media \<Rightarrow> sdp_media option" where
  "kms_sdp_rtp_avp_media_handler_init_renegotiated_offer manages media offer prev_offer =
     (if media \<noteq> sm_media prev_offer then None
      else if \<not> kms_sdp_rtp_avp_media_handler_is_valid_media (sm_media prev_offer) then None
      else if \<not> manages (sm_proto prev_offer) then None
      else Some (offer\<lparr>sm_media := sm_media prev_offer, sm_proto := sm_proto prev_offer,
        sm_port := sm_port prev_offer, sm_num_ports := sm_num_ports prev_offer\<rparr>))"

definition kms_sdp_rtp_avp_media_handler_init_offer ::
  "(string option \<Rightarrow> bool) \<Rightarrow> rtp_handler \<Rightarrow> string option \<Rightarrow> sdp_media \<Rightarrow> sdp_media option \<Rightarrow> sdp_media option" where
  "kms_sdp_rtp_avp_media_handler_init_offer manages handler media offer prev_offer = (case prev_offer of
     None \<Rightarrow> kms_sdp_rtp_avp_media_handler_init_new_offer handler media offer
   | Some p \<Rightarrow> kms_sdp_rtp_avp_media_handler_init_renegotiated_offer manages media offer p)"

text \<open>The result of an operation that can fail, with the state it leaves.\<close>

definition and_then :: "c_fault + 'a option \<times> 'b \<Rightarrow> ('a \<Rightarrow> 'b \<Rightarrow> c_fault + 'c option \<times> 'b) \<Rightarrow>
    c_fault + 'c option \<times> 'b" where
  "and_then m f = bind_result m (\<lambda>(r, s). case r of None \<Rightarrow> Inr (None, s) | Some x \<Rightarrow> f x s)"

definition with_state :: "c_fault + 'a option \<Rightarrow> 'b \<Rightarrow> c_fault + 'a option \<times> 'b" where
  "with_state m s = bind_result m (\<lambda>r. Inr (r, s))"

definition kms_sdp_rtp_avp_media_handler_add_negotiated_offer_attributes ::
  "rtp_handler \<Rightarrow> sdp_media \<Rightarrow> sdp_media \<Rightarrow> c_fault + sdp_media option \<times> rtp_handler" where
  "kms_sdp_rtp_avp_media_handler_add_negotiated_offer_attributes self offer prev_offer =
     bind_result (kms_sdp_rtp_avp_media_handler_set_supported_fmts self prev_offer offer) (\<lambda>(o1, self1).
       let o2 = (if sm_fmts o1 \<noteq> [] then o1\<lparr>sm_port := sm_port prev_offer, sm_num_ports := sm_num_ports prev_offer\<rparr>
            else o1\<lparr>sm_port := 0, sm_num_ports := 1\<rparr>) in
       and_then (with_state (kms_sdp_rtp_avp_media_handler_add_supported_extmaps self1 prev_offer o2) self1) (\<lambda>o3 self2.
       and_then (kms_sdp_rtp_avp_media_handler_add_supported_rtpmap_attrs self2 prev_offer o3) (\<lambda>o4 self3.
         Inr (kms_sdp_rtp_avp_media_handler_add_supported_fmtp prev_offer o4, self3))))"

definition kms_sdp_rtp_avp_media_handler_add_offer_attributes ::
  "rtp_handler \<Rightarrow> 's offer_ext list \<Rightarrow> sdp_media \<Rightarrow> sdp_media option \<Rightarrow> 's \<Rightarrow>
    c_fault + (sdp_media \<times> 's) option \<times> rtp_handler" where
  "kms_sdp_rtp_avp_media_handler_add_offer_attributes self exts offer prev_offer s =
     and_then (case prev_offer of
         None \<Rightarrow> with_state (kms_sdp_rtp_avp_media_handler_add_new_offer_attributes self offer) self
       | Some p \<Rightarrow> kms_sdp_rtp_avp_media_handler_add_negotiated_offer_attributes self offer p)
       (\<lambda>o1 self1. Inr (Some (kms_sdp_rtp_media_handler_add_offer_attributes (rh_rtp self1) exts o1 s), self1))"

definition kms_sdp_rtp_avp_media_handler_create_offer ::
  "(string option \<Rightarrow> bool) \<Rightarrow> rtp_handler \<Rightarrow> 's offer_ext list \<Rightarrow> string option \<Rightarrow> sdp_media option \<Rightarrow> 's \<Rightarrow>
    c_fault + (sdp_media \<times> 's) option \<times> rtp_handler" where
  "kms_sdp_rtp_avp_media_handler_create_offer manages handler exts media prev_offer s =
     (case kms_sdp_rtp_avp_media_handler_init_offer manages handler media sdp_media_new prev_offer of
        None \<Rightarrow> Inr (None, handler)
      | Some m \<Rightarrow> kms_sdp_rtp_avp_media_handler_add_offer_attributes handler exts m prev_offer s)"

section \<open>Answers\<close>

definition kms_sdp_rtp_avp_media_handler_init_answer ::
  "(string option \<Rightarrow> bool) \<Rightarrow> sdp_media \<Rightarrow> sdp_media \<Rightarrow> sdp_media option" where
  "kms_sdp_rtp_avp_media_handler_init_answer manages offer answer =
     (if sm_media offer \<noteq> Some ''audio'' \<and> sm_media offer \<noteq> Some ''video'' then None
      else if \<not> manages (sm_proto offer) then None
      else Some (answer\<lparr>sm_media := sm_media offer, sm_proto := sm_proto offer\<rparr>))"

definition kms_sdp_rtp_avp_media_handler_add_answer_attributes_impl ::
  "rtp_handler \<Rightarrow> 's answer_ext list \<Rightarrow> sdp_media \<Rightarrow> sdp_media \<Rightarrow> 's \<Rightarrow>
    c_fault + (sdp_media \<times> 's) option \<times> rtp_handler" where
  "kms_sdp_rtp_avp_media_handler_add_answer_attributes_impl self exts offer answer s =
     bind_result (kms_sdp_rtp_avp_media_handler_set_supported_fmts self offer answer) (\<lambda>(a1, self1).
       let a2 = (if sm_fmts a1 \<noteq> [] then a1\<lparr>sm_port := 1, sm_num_ports := 1\<rparr>
            else a1\<lparr>sm_port := 0, sm_num_ports := 1, sm_fmts := take 1 (sm_fmts offer)\<rparr>) in
       and_then (with_state (kms_sdp_rtp_avp_media_handler_add_supported_extmaps self1 offer a2) self1) (\<lambda>a3 self2.
         let (a4, s') = kms_sdp_rtp_media_handler_add_answer_attributes (rh_rtp self2) exts offer a3 s in
         and_then (kms_sdp_rtp_avp_media_handler_add_supported_rtpmap_attrs self2 offer a4) (\<lambda>a5 self3.
           Inr (Some (a5, s'), self3))))"

definition kms_sdp_rtp_avp_media_handler_can_insert_attribute ::
  "rtp_media_handler \<Rightarrow> (sdp_attr \<Rightarrow> sdp_media \<Rightarrow> bool) list \<Rightarrow> sdp_attr \<Rightarrow> sdp_media \<Rightarrow> c_fault + bool" where
  "kms_sdp_rtp_avp_media_handler_can_insert_attribute self ext_accepts attr answer =
     (if sa_key attr = ''rtpmap'' \<or> sa_key attr = ''extmap'' then Inr False
      else kms_sdp_rtp_media_handler_can_insert_attribute self ext_accepts attr answer)"

definition instersect_rtp_avp_media_attr ::
  "(sdp_attr \<Rightarrow> sdp_media \<Rightarrow> c_fault + bool) \<Rightarrow> sdp_attr \<Rightarrow> c_fault + sdp_media \<Rightarrow> c_fault + sdp_media" where
  "instersect_rtp_avp_media_attr can_insert attr r =
     bind_result r (\<lambda>answer. bind_result (can_insert attr answer) (\<lambda>ok.
       Inr (if ok then add_media_attr (sa_key attr) (sa_value attr) answer else answer)))"

definition kms_sdp_rtp_avp_media_handler_intersect_sdp_medias ::
  "(sdp_attr \<Rightarrow> sdp_media \<Rightarrow> c_fault + bool) \<Rightarrow> sdp_media \<Rightarrow> sdp_media \<Rightarrow> c_fault + sdp_media option" where
  "kms_sdp_rtp_avp_media_handler_intersect_sdp_medias can_insert offer answer =
     (let (ok, r) = sdp_utils_intersect_media_attributes offer
        (Some (instersect_rtp_avp_media_attr can_insert)) (Inr answer) in
      bind_result r (\<lambda>a. Inr (if ok then Some a else None)))"

definition kms_sdp_rtp_avp_media_handler_create_answer ::
  "(string option \<Rightarrow> bool) \<Rightarrow> rtp_handler \<Rightarrow> 's answer_ext list \<Rightarrow> (sdp_attr \<Rightarrow> sdp_media \<Rightarrow> bool) list \<Rightarrow>
    sdp_media \<Rightarrow> 's \<Rightarrow> c_fault + (sdp_media \<times> 's) option \<times> rtp_handler" where
  "kms_sdp_rtp_avp_media_handler_create_answer manages handler exts ext_accepts offer s =
     (case kms_sdp_rtp_avp_media_handler_init_answer manages offer sdp_media_new of
        None \<Rightarrow> Inr (None, handler)
      | Some m \<Rightarrow>
          and_then (kms_sdp_rtp_avp_media_handler_add_answer_attributes_impl handler exts offer m s) (\<lambda>(a, s') self1.
          and_then (with_state (kms_sdp_rtp_avp_media_handler_intersect_sdp_medias
              (kms_sdp_rtp_avp_media_handler_can_insert_attribute (rh_rtp self1) ext_accepts) offer a) self1)
            (\<lambda>a' self2. Inr (Some (a', s'), self2))))"

section \<open>The attributes of the answer\<close>

interpretation avp: direction_filter "kms_sdp_rtp_avp_media_handler_can_insert_attribute self ea" for self ea
  by unfold_locales
    (auto simp: kms_sdp_rtp_avp_media_handler_can_insert_attribute_def direction_key rtp.takes_direction
      dest: rtp.inserts_new rtp.one_direction split: if_splits)

text \<open>The class repeats the intersection of its parent.\<close>

lemma avp_intersect_eq:
  "kms_sdp_rtp_avp_media_handler_intersect_sdp_medias = kms_sdp_rtp_media_handler_intersect_sdp_medias"
  by (intro ext) (simp add: kms_sdp_rtp_avp_media_handler_intersect_sdp_medias_def instersect_rtp_avp_media_attr_def
      [abs_def] kms_sdp_rtp_media_handler_intersect_sdp_medias_def instersect_rtp_media_attr_def [abs_def])

text \<open>
  What an answer takes over from an offer: the intersection adds attributes behind the ones
  that are there and changes nothing else; no attribute is in the answer twice and there is at
  most one direction; and if the answer had none, its direction is the mirror of the offer's.
\<close>

theorem avp_intersect_attributes:
  assumes "answer_ok answer"
    and "kms_sdp_rtp_avp_media_handler_intersect_sdp_medias
      (kms_sdp_rtp_avp_media_handler_can_insert_attribute self ea) offer answer = Inr (Some answer')"
  shows "answer_ok answer' \<and> prefix (sm_attrs answer) (sm_attrs answer') \<and>
    answer'\<lparr>sm_attrs := sm_attrs answer\<rparr> = answer \<and>
    (\<not> list_ex is_dir (sm_attrs answer) \<longrightarrow>
       sends (sdp_utils_media_config_get_direction answer') = receives (sdp_utils_media_config_get_direction offer) \<and>
       receives (sdp_utils_media_config_get_direction answer') = sends (sdp_utils_media_config_get_direction offer))"
  using avp.intersect_ok [OF assms(1) assms(2) [unfolded avp_intersect_eq]]
    avp.intersect_direction [OF assms(2) [unfolded avp_intersect_eq]] by blast

section \<open>The formats of the answer\<close>

text \<open>
  The encoding a format of a description stands for, and whether a configured codec is that
  encoding. This is what the answer is about; the code finds it out with side effects on the
  manager of payload types.
\<close>

definition offer_encoding :: "sdp_media \<Rightarrow> string \<Rightarrow> string option" where
  "offer_encoding media fmt = (case sdp_utils_get_attr_map_value media ''rtpmap'' (Some fmt) of
     Some val \<Rightarrow> (case strsplit (CHR '' '') val of _ # e # _ \<Rightarrow> Some e | _ \<Rightarrow> None)
   | None \<Rightarrow> (let pt = to_gint (strtol fmt) in
       if pt \<ge> 0 \<and> pt < int n_rtpmaps then avp_rtpmaps ! nat pt else None))"

definition map_supports :: "rtp_map \<Rightarrow> string \<Rightarrow> bool" where
  "map_supports m enc \<longleftrightarrow>
     (if unat (rm_payload m) \<le> n_rtpmaps
      then cmp_static_payload (Some enc) (avp_rtpmaps ! unat (rm_payload m)) = Inr True
      else ascii_caseeq (rm_name m) enc)"

definition format_known :: "rtp_handler \<Rightarrow> sdp_media \<Rightarrow> string \<Rightarrow> bool" where
  "format_known self media fmt \<longleftrightarrow>
     (case (offer_encoding media fmt, fmts_for self media) of
        (Some enc, Some ms) \<Rightarrow> list_ex (\<lambda>m. map_supports m enc) ms
      | _ \<Rightarrow> False)"

definition same_config :: "rtp_handler \<Rightarrow> rtp_handler \<Rightarrow> bool" where
  "same_config a b \<longleftrightarrow> a\<lparr>rh_ptmanager := None\<rparr> = b\<lparr>rh_ptmanager := None\<rparr>"

lemma same_config_refl [simp]: "same_config a a"
  by (simp add: same_config_def)

lemma same_config_update [simp]: "same_config (a\<lparr>rh_ptmanager := p\<rparr>) a"
  by (simp add: same_config_def)

lemma same_config_fields:
  "same_config a b \<Longrightarrow> rh_rtp a = rh_rtp b \<and> rh_audio_fmts a = rh_audio_fmts b \<and>
     rh_video_fmts a = rh_video_fmts b \<and> rh_extmaps a = rh_extmaps b"
  by (cases a; cases b) (simp add: same_config_def)

lemma same_config_trans: "same_config a b \<Longrightarrow> same_config b c \<Longrightarrow> same_config a c"
  by (simp add: same_config_def)

lemma format_known_config: "same_config a b \<Longrightarrow> format_known a media fmt = format_known b media fmt"
  using same_config_fields [of a b] by (auto simp: format_known_def fmts_for_def split: option.split)

lemma encoding_loop_spec:
  "encoding_loop ms enc pt pm = Inr (b, pm') \<Longrightarrow>
     b = (case enc of None \<Rightarrow> False | Some e \<Rightarrow> list_ex (\<lambda>m. map_supports m e) ms)"
proof (induction ms)
  case (Cons m ms)
  show ?case
  proof (cases "unat (rm_payload m) \<le> n_rtpmaps")
    case True
    then obtain st sup where st: "rtpmaps_at (unat (rm_payload m)) = Inr st"
      and sup: "cmp_static_payload enc st = Inr sup"
      and next': "(if sup then Inr (True, pm) else encoding_loop ms enc pt pm) = Inr (b, pm')"
      using Cons.prems by (auto simp: bind_result_Inr_iff)
    have st': "st = avp_rtpmaps ! unat (rm_payload m)"
      using st by (auto simp: rtpmaps_at_def split: if_splits)
    show ?thesis
    proof (cases enc)
      case None
      then have "\<not> sup" using sup by (auto simp: cmp_static_payload_def split: option.splits)
      then show ?thesis using next' Cons.IH None by simp
    next
      case (Some e)
      then show ?thesis
        using next' Cons.IH sup st' True by (cases sup) (auto simp: map_supports_def)
    qed
  next
    case False
    then show ?thesis
      using Cons by (auto simp: map_supports_def bind_result_Inr_iff split: option.splits if_splits)
  qed
qed (simp split: option.split)

lemma encoding_supported_spec:
  assumes "kms_sdp_rtp_avp_media_handler_encoding_supported self media enc pt = Inr (b, self')"
  shows "b = (case (enc, fmts_for self media) of (Some e, Some ms) \<Rightarrow> list_ex (\<lambda>m. map_supports m e) ms | _ \<Rightarrow> False)"
    and "same_config self' self"
  using assms by (auto simp: kms_sdp_rtp_avp_media_handler_encoding_supported_def bind_result_Inr_iff
      dest!: encoding_loop_spec split: option.splits)

lemma strv_at_1: "strv_at v 1 = Inr r \<Longrightarrow> r = (case v of _ # e # _ \<Rightarrow> Some e | _ \<Rightarrow> None)"
  by (auto simp: strv_at_def split: if_splits list.split)

lemma static_encoding_spec:
  "static_encoding pt = Inr st \<Longrightarrow> st = (if pt \<ge> 0 \<and> pt < int n_rtpmaps then avp_rtpmaps ! nat pt else None)"
  by (auto simp: static_encoding_def rtpmaps_at_def split: if_splits)

lemma format_supported_spec:
  assumes "kms_sdp_rtp_avp_media_handler_format_supported self media fmt = Inr (b, self')"
  shows "b = format_known self media fmt" and "same_config self' self"
proof -
  let ?pt = "to_gint (strtol fmt)"
  have "b = format_known self media fmt \<and> same_config self' self"
  proof (cases "sdp_utils_get_attr_map_value media ''rtpmap'' (Some fmt)")
    case None
    then obtain st where st: "static_encoding ?pt = Inr st"
      and r: "(case st of None \<Rightarrow> Inr (False, self)
        | Some s \<Rightarrow> kms_sdp_rtp_avp_media_handler_encoding_supported self media (Some s) ?pt) = Inr (b, self')"
      using assms by (auto simp: kms_sdp_rtp_avp_media_handler_format_supported_def Let_def bind_result_Inr_iff)
    have enc: "offer_encoding media fmt = st"
      using None static_encoding_spec [OF st] by (simp add: offer_encoding_def Let_def)
    show ?thesis
    proof (cases st)
      case None
      then show ?thesis using r enc by (simp add: format_known_def)
    next
      case (Some s)
      then have "kms_sdp_rtp_avp_media_handler_encoding_supported self media (Some s) ?pt = Inr (b, self')"
        using r by simp
      from encoding_supported_spec [OF this] show ?thesis
        using enc Some by (simp add: format_known_def split: option.splits)
    qed
  next
    case (Some val)
    then obtain enc where e: "strv_at (strsplit (CHR '' '') val) 1 = Inr enc"
      and r: "kms_sdp_rtp_avp_media_handler_encoding_supported self media enc ?pt = Inr (b, self')"
      using assms by (auto simp: kms_sdp_rtp_avp_media_handler_format_supported_def Let_def bind_result_Inr_iff)
    have enc: "offer_encoding media fmt = enc"
      using Some strv_at_1 [OF e] by (simp add: offer_encoding_def)
    show ?thesis
      using encoding_supported_spec [OF r] enc by (auto simp: format_known_def split: option.splits)
  qed
  then show "b = format_known self media fmt" "same_config self' self" by simp_all
qed

lemma supported_formats_spec:
  "supported_formats_loop self media fs = Inr (gs, self') \<Longrightarrow>
     gs = filter (format_known self media) fs \<and> same_config self' self"
proof (induction fs arbitrary: self gs self')
  case (Cons f fs)
  then obtain ok self1 rest where f: "kms_sdp_rtp_avp_media_handler_format_supported self media f = Inr (ok, self1)"
    and rest: "supported_formats_loop self1 media fs = Inr (rest, self')"
    and gs: "gs = (if ok then f # rest else rest)"
    by (auto simp: bind_result_Inr_iff)
  note fs = format_supported_spec [OF f]
  have "rest = filter (format_known self1 media) fs" "same_config self' self1"
    using Cons.IH [OF rest] by simp_all
  moreover have "format_known self1 media = format_known self media"
    using format_known_config [OF fs(2)] by auto
  ultimately show ?case
    using gs fs same_config_trans by auto
qed simp

lemma extmaps_mline:
  "supported_extmaps_loop extmaps as answer = Inr (Some answer') \<Longrightarrow> mline answer' = mline answer"
proof (induction as arbitrary: answer)
  case (Cons attr as)
  let ?f = "\<lambda>u. fold (\<lambda>(_, u') a. if u' = u then add_media_attr ''extmap'' (Some attr) a else a) extmaps answer"
  have "mline (?f u) = mline answer" for u
    by (induction extmaps arbitrary: answer) (auto simp: case_prod_beta)
  then show ?case
    using Cons by (auto simp: bind_result_Inr_iff split: option.splits)
qed simp

lemma rtpmaps_mline:
  "supported_rtpmaps_loop self offer fs answer = Inr (Some answer', self') \<Longrightarrow> mline answer' = mline answer"
proof (induction fs arbitrary: self answer)
  case (Cons f fs)
  then show ?case
    by (auto simp: Let_def bind_result_Inr_iff split: if_splits option.splits)
qed simp

lemma and_then_Some:
  "and_then m f = Inr (Some y, s') \<longleftrightarrow> (\<exists>x s. m = Inr (Some x, s) \<and> f x s = Inr (Some y, s'))"
  by (auto simp: and_then_def bind_result_Inr_iff split: option.splits)

lemma with_state_Some: "with_state m s = Inr (Some y, s') \<longleftrightarrow> m = Inr (Some y) \<and> s' = s"
  by (auto simp: with_state_def bind_result_Inr_iff)

text \<open>The answer's m-line is settled by its own attributes; nothing behind changes it.\<close>

definition answer_mline :: "rtp_handler \<Rightarrow> sdp_media \<Rightarrow> sdp_media \<Rightarrow> sdp_media" where
  "answer_mline self offer m =
     (let fs = filter (format_known self offer) (sm_fmts offer) in
      if fs \<noteq> [] then m\<lparr>sm_fmts := fs, sm_port := 1, sm_num_ports := 1\<rparr>
      else m\<lparr>sm_port := 0, sm_num_ports := 1, sm_fmts := take 1 (sm_fmts offer)\<rparr>)"

lemma add_answer_steps:
  assumes "kms_sdp_rtp_avp_media_handler_add_answer_attributes_impl self exts offer m s = Inr (Some (a, s'), self')"
    and "sm_fmts m = []"
  obtains self2 a3 a4 s4 self3
  where "supported_extmaps_loop (rh_extmaps self2) (seen_vals (sm_attrs offer) ''extmap'') (answer_mline self offer m) = Inr (Some a3)"
    and "kms_sdp_rtp_media_handler_add_answer_attributes (rh_rtp self2) exts offer a3 s = (a4, s4)"
    and "supported_rtpmaps_loop self2 offer (sm_fmts a4) a4 = Inr (Some a, self3)"
proof -
  obtain gs self2 where gs: "supported_formats_loop self offer (sm_fmts offer) = Inr (gs, self2)"
    using assms(1) by (auto simp: kms_sdp_rtp_avp_media_handler_add_answer_attributes_impl_def bind_result_Inr_iff
        kms_sdp_rtp_avp_media_handler_set_supported_fmts_def)
  then have "gs = filter (format_known self offer) (sm_fmts offer)" using supported_formats_spec by blast
  then show ?thesis
    using assms gs that
    by (auto simp: kms_sdp_rtp_avp_media_handler_add_answer_attributes_impl_def bind_result_Inr_iff
        kms_sdp_rtp_avp_media_handler_set_supported_fmts_def and_then_Some with_state_Some Let_def answer_mline_def
        kms_sdp_rtp_avp_media_handler_add_supported_extmaps_def case_prod_beta prod_eq_iff
        kms_sdp_rtp_avp_media_handler_add_supported_rtpmap_attrs_def split: if_splits)
qed

lemma add_answer_mline:
  assumes "kms_sdp_rtp_avp_media_handler_add_answer_attributes_impl self exts offer m s = Inr (Some (a, s'), self')"
    and "list_all ext_keeps exts" and "sm_fmts m = []"
  shows "mline a = mline (answer_mline self offer m)"
  using assms(1,3)
proof (cases rule: add_answer_steps)
  case (1 self2 a3 a4 s4 self3)
  then show ?thesis using rtpmaps_mline rtp_answer_mline [OF assms(2)] extmaps_mline by metis
qed

lemma init_answer_media:
  "kms_sdp_rtp_avp_media_handler_init_answer manages offer sdp_media_new = Some m \<Longrightarrow>
     m = sdp_media_new\<lparr>sm_media := sm_media offer, sm_proto := sm_proto offer\<rparr> \<and> sm_fmts m = []"
  by (auto simp: kms_sdp_rtp_avp_media_handler_init_answer_def sdp_media_new_def split: if_splits)


text \<open>A handler with one audio codec, and an offer of two.\<close>

abbreviation pcmu_handler :: rtp_handler where
  "pcmu_handler \<equiv> \<lparr>rh_rtp = \<lparr>rt_base = \<lparr>mh_reject = False, mh_proto = Some ''RTP/AVP'', mh_addr = None,
      mh_addr_type = None, mh_bwtypes = [], mh_id = - 1, mh_parent = False\<rparr>, rt_rtcp_mux = False, rt_rtcp_entry = False\<rparr>,
    rh_audio_fmts = [\<lparr>rm_payload = 0, rm_name = ''PCMU/8000'', rm_fmtps = []\<rparr>],
    rh_video_fmts = [], rh_extmaps = [], rh_ptmanager = None\<rparr>"

abbreviation audio_offer :: "sdp_attr list \<Rightarrow> string list \<Rightarrow> sdp_media" where
  "audio_offer as fmts \<equiv> \<lparr>sm_media = Some ''audio'', sm_port = 1, sm_num_ports = 1,
     sm_proto = Some ''RTP/AVP'', sm_fmts = fmts, sm_information = None,
     sm_bandwidths = [], sm_key = \<lparr>sk_type = None, sk_data = None\<rparr>, sm_attrs = as\<rparr>"

lemma strtol_examples: "strtol ''0'' = 0" "strtol ''8'' = 8" "strtol ''35'' = 35" "strtol ''200'' = 200"
  by (simp_all add: strtol_digits is_digit_def char_code_def digits_value_def)

lemma static_examples: "static_encoding 0 = Inr (Some ''PCMU/8000'')" "static_encoding 8 = Inr (Some ''PCMA/8000'')"
  by (simp_all add: static_encoding_def rtpmaps_at_def n_rtpmaps_def avp_rtpmaps_def)

lemma static_fmt_supported:
  "kms_sdp_rtp_avp_media_handler_format_supported pcmu_handler (audio_offer [] fs) ''0'' = Inr (True, pcmu_handler)"
  "kms_sdp_rtp_avp_media_handler_format_supported pcmu_handler (audio_offer [] fs) ''8'' = Inr (False, pcmu_handler)"
  by (simp_all add: kms_sdp_rtp_avp_media_handler_format_supported_def sdp_utils_get_attr_map_value_def
      scan_vals_first seen_vals_def strtol_examples to_gint_small static_examples fmts_for_def str_suffix_def
      kms_sdp_rtp_avp_media_handler_encoding_supported_def rtpmaps_at_def n_rtpmaps_def
      avp_rtpmaps_def cmp_static_payload_def str_prefix_def)

lemma pcmu_answer:
  "kms_sdp_rtp_avp_media_handler_create_answer (\<lambda>_. True) pcmu_handler [] [] (audio_offer [] [''0'', ''8'']) () =
     Inr (Some (audio_offer [] [''0''], ()), pcmu_handler)"
  by (simp add: kms_sdp_rtp_avp_media_handler_create_answer_def kms_sdp_rtp_avp_media_handler_init_answer_def
      sdp_media_new_def static_fmt_supported
      kms_sdp_rtp_avp_media_handler_add_answer_attributes_impl_def Let_def and_then_def with_state_def
      kms_sdp_rtp_avp_media_handler_set_supported_fmts_def
      kms_sdp_rtp_avp_media_handler_add_supported_extmaps_def seen_vals_def
      kms_sdp_rtp_avp_media_handler_add_supported_rtpmap_attrs_def sdp_utils_get_attr_map_value_def
      kms_sdp_media_handler_add_answer_attributes_impl_def add_bandwidths_def add_rtcp_entry_def
      kms_sdp_rtp_media_handler_add_answer_attributes_def avp_intersect_eq
      scan_vals_first seen_vals_def strtol_examples to_gint_small static_examples fmts_for_def str_suffix_def
      kms_sdp_rtp_avp_media_handler_encoding_supported_def rtpmaps_at_def n_rtpmaps_def
      avp_rtpmaps_def cmp_static_payload_def str_prefix_def intersect_fold)



lemma avp_intersect_attributes_witness:
  "\<exists>answer'. kms_sdp_rtp_avp_media_handler_intersect_sdp_medias
       (kms_sdp_rtp_avp_media_handler_can_insert_attribute (rh_rtp pcmu_handler) []) (audio_offer [mk_attr ''sendonly'' ''''] [''0''])
       (audio_offer [] [''0'']) = Inr (Some answer') \<and>
     receives (sdp_utils_media_config_get_direction answer')"
proof -
  let ?offer = "audio_offer [mk_attr ''sendonly'' ''''] [''0'']"
  have d: "sdp_utils_attribute_is_direction (mk_attr ''sendonly'' '''') = Some SENDONLY"
    by (simp add: is_direction_iff mk_attr_def dir_str.simps ascii_lower_def char_code_def)
  then have "answer_of (mk_attr ''sendonly'' '''') = mk_attr ''recvonly'' ''''"
    using direction_answer [OF d] by (simp add: answer_of_def answer_attribute_def mk_attr_def dir_str.simps)
  moreover have "sdp_utils_attribute_is_direction (mk_attr ''recvonly'' '''') = Some RECVONLY"
    by (simp add: is_direction_iff mk_attr_def dir_str.simps ascii_lower_def char_code_def)
  then have "kms_sdp_rtp_avp_media_handler_can_insert_attribute (rh_rtp pcmu_handler) [] (mk_attr ''recvonly'' '''') (audio_offer [] [''0'']) = Inr True"
    by (intro avp.takes_direction) simp_all
  ultimately have i: "kms_sdp_rtp_avp_media_handler_intersect_sdp_medias
      (kms_sdp_rtp_avp_media_handler_can_insert_attribute (rh_rtp pcmu_handler) []) ?offer (audio_offer [] [''0'']) =
      Inr (Some (audio_offer [mk_attr ''recvonly'' ''''] [''0'']))"
    by (simp add: avp_intersect_eq intersect_fold instersect_rtp_media_attr_def add_media_attr_def attrs_add_def mk_attr_def)
  moreover have "sdp_utils_media_config_get_direction ?offer = SENDONLY"
    using d by (simp add: sdp_utils_media_config_get_direction_def)
  ultimately show ?thesis
    using avp_intersect_attributes [OF _ i] by (auto simp: answer_ok_def)
qed


end
