(* ===== verification/SdpRtpAvpf.thy ===== *)
theory SdpRtpAvpf
  imports SdpRtpAvp
begin

text \<open>
  The media handlers for the feedback profile (\<open>kmssdprtpavpfmediahandler.c\<close>), which offer and
  answer the \<open>rtcp-fb\<close> attributes of RFC 4585, and the two for the secure profiles
  (\<open>kmssdprtpsavpmediahandler.c\<close>, \<open>kmssdprtpsavpfmediahandler.c\<close>), which only manage other
  protocols. Everything else is inherited from the handler of \<open>SdpRtpAvp\<close>.
\<close>

section \<open>Protocols\<close>

text \<open>
  The regular expressions are anchored at their beginning only, so every protocol with one of
  the prefixes is accepted. GLib refuses to match a NULL string.
\<close>

definition kms_sdp_rtp_savp_media_handler_manage_protocol :: "string option \<Rightarrow> bool" where
  "kms_sdp_rtp_savp_media_handler_manage_protocol protocol = (case protocol of
     None \<Rightarrow> False
   | Some p \<Rightarrow> str_prefix ''RTP/SAVP'' p \<or> str_prefix ''UDP/TLS/RTP/SAVP'' p)"

definition kms_sdp_rtp_savpf_media_handler_manage_protocol :: "string option \<Rightarrow> bool" where
  "kms_sdp_rtp_savpf_media_handler_manage_protocol protocol = (case protocol of
     None \<Rightarrow> False
   | Some p \<Rightarrow>
       (let ret = (str_prefix ''RTP/SAVPF'' p \<or> str_prefix ''UDP/TLS/RTP/SAVPF'' p) in
        if \<not> ret then str_prefix ''RTP/SAVP'' p \<or> str_prefix ''UDP/TLS/RTP/SAVP'' p else ret))"

definition kms_sdp_rtp_avpf_media_handler_manage_protocol :: "string option \<Rightarrow> bool" where
  "kms_sdp_rtp_avpf_media_handler_manage_protocol protocol \<longleftrightarrow>
     protocol = Some ''RTP/AVPF'' \<or> protocol = Some ''RTP/AVP''"

section \<open>State\<close>

record avpf_handler =
  pf_avp :: rtp_handler
  pf_nack :: bool
  pf_remb :: bool

definition video_rtcp_fb_enc :: "string list" where
  "video_rtcp_fb_enc = [''AV1'', ''VP9'', ''VP8'', ''H264'', ''H265'']"

text \<open>A class is created with the protocol it is given, or with its own.\<close>

definition rtp_handler_new :: "string \<Rightarrow> string option \<Rightarrow> rtp_handler" where
  "rtp_handler_new own proto =
     \<lparr>rh_rtp = \<lparr>rt_base = \<lparr>mh_reject = False, mh_proto = Some (case proto of None \<Rightarrow> own | Some p \<Rightarrow> p),
          mh_addr = None, mh_addr_type = Some ''IP4'', mh_bwtypes = [], mh_id = - 1, mh_parent = False\<rparr>,
        rt_rtcp_mux = True, rt_rtcp_entry = True\<rparr>,
      rh_audio_fmts = [], rh_video_fmts = [], rh_extmaps = [], rh_ptmanager = None\<rparr>"

definition kms_sdp_rtp_avp_media_handler_new :: rtp_handler where
  "kms_sdp_rtp_avp_media_handler_new = rtp_handler_new ''RTP/AVP'' None"

definition kms_sdp_rtp_savp_media_handler_new :: rtp_handler where
  "kms_sdp_rtp_savp_media_handler_new = rtp_handler_new ''RTP/SAVP'' None"

definition kms_sdp_rtp_avpf_media_handler_new :: avpf_handler where
  "kms_sdp_rtp_avpf_media_handler_new = \<lparr>pf_avp = rtp_handler_new ''RTP/AVPF'' None, pf_nack = True, pf_remb = True\<rparr>"

definition kms_sdp_rtp_savpf_media_handler_new :: avpf_handler where
  "kms_sdp_rtp_savpf_media_handler_new = \<lparr>pf_avp = rtp_handler_new ''RTP/SAVPF'' None, pf_nack = True, pf_remb = True\<rparr>"

definition kms_sdp_rtp_savpf_media_handler_new_with_udp_tls :: avpf_handler where
  "kms_sdp_rtp_savpf_media_handler_new_with_udp_tls =
     \<lparr>pf_avp = rtp_handler_new ''RTP/SAVPF'' (Some ''UDP/TLS/RTP/SAVPF''), pf_nack = True, pf_remb = True\<rparr>"

section \<open>Feedback in an offer\<close>

definition is_supported_encoder :: "string option \<Rightarrow> c_fault + bool" where
  "is_supported_encoder codec = (case codec of
     None \<Rightarrow> Inl Null_dereference
   | Some c \<Rightarrow> Inr (list_ex (\<lambda>enc. str_prefix enc c) video_rtcp_fb_enc))"

definition kms_sdp_rtp_avpf_media_handler_rtcp_fb_attrs ::
  "avpf_handler \<Rightarrow> string \<Rightarrow> string \<Rightarrow> sdp_media \<Rightarrow> sdp_media" where
  "kms_sdp_rtp_avpf_media_handler_rtcp_fb_attrs self fmt enc media =
     (let add = (\<lambda>v. add_media_attr ''rtcp-fb'' (Some (fmt @ v)));
        m1 = (if pf_nack self then add '' nack pli'' (add '' nack'' media) else media);
        m2 = (if pf_remb self \<and> (str_prefix ''VP8'' enc \<or> str_prefix ''VP9'' enc \<or> str_prefix ''AV1'' enc)
          then add '' goog-remb'' m1 else m1) in
      add '' ccm fir'' m2)"

fun rtcp_fb_loop :: "avpf_handler \<Rightarrow> string list \<Rightarrow> sdp_media \<Rightarrow> c_fault + sdp_media" where
  "rtcp_fb_loop self [] media = Inr media"
| "rtcp_fb_loop self (val # vals) media =
     (let codec = strsplit (CHR '' '') val in
      bind_result (strv_at codec 1) (\<lambda>enc.
      bind_result (is_supported_encoder enc) (\<lambda>ok.
        rtcp_fb_loop self vals (if ok
          then kms_sdp_rtp_avpf_media_handler_rtcp_fb_attrs self (codec ! 0) (the enc) media else media))))"

definition kms_sdp_rtp_avpf_media_handler_add_rtcp_fb_attrs ::
  "avpf_handler \<Rightarrow> sdp_media \<Rightarrow> c_fault + sdp_media" where
  "kms_sdp_rtp_avpf_media_handler_add_rtcp_fb_attrs self media =
     (if sm_media media \<noteq> Some ''video'' then Inr media
      else rtcp_fb_loop self (seen_vals (sm_attrs media) ''rtpmap'') media)"

definition kms_sdp_rtp_avpf_media_handler_add_offer_attributes ::
  "avpf_handler \<Rightarrow> 's offer_ext list \<Rightarrow> sdp_media \<Rightarrow> sdp_media option \<Rightarrow> 's \<Rightarrow>
    c_fault + (sdp_media \<times> 's) option \<times> avpf_handler" where
  "kms_sdp_rtp_avpf_media_handler_add_offer_attributes self exts offer prev_offer s =
     bind_result (kms_sdp_rtp_avp_media_handler_add_offer_attributes (pf_avp self) exts offer prev_offer s)
       (\<lambda>(r, avp). let self' = self\<lparr>pf_avp := avp\<rparr> in case r of
          None \<Rightarrow> Inr (None, self')
        | Some (o1, s') \<Rightarrow> bind_result (kms_sdp_rtp_avpf_media_handler_add_rtcp_fb_attrs self' o1)
            (\<lambda>o2. Inr (Some (o2, s'), self')))"

definition kms_sdp_rtp_avpf_media_handler_create_offer ::
  "(string option \<Rightarrow> bool) \<Rightarrow> avpf_handler \<Rightarrow> 's offer_ext list \<Rightarrow> string option \<Rightarrow> sdp_media option \<Rightarrow> 's \<Rightarrow>
    c_fault + (sdp_media \<times> 's) option \<times> avpf_handler" where
  "kms_sdp_rtp_avpf_media_handler_create_offer manages handler exts media prev_offer s =
     (case kms_sdp_rtp_avp_media_handler_init_offer manages (pf_avp handler) media sdp_media_new prev_offer of
        None \<Rightarrow> Inr (None, handler)
      | Some m \<Rightarrow> kms_sdp_rtp_avpf_media_handler_add_offer_attributes handler exts m prev_offer s)"

section \<open>Feedback in an answer\<close>

definition format_supported :: "sdp_media \<Rightarrow> string option \<Rightarrow> bool" where
  "format_supported media fmt \<longleftrightarrow> list_ex (\<lambda>format. Some format = fmt) (sm_fmts media)"

definition supported_rtcp_fb_val :: "string option \<Rightarrow> bool" where
  "supported_rtcp_fb_val val \<longleftrightarrow> val = Some ''goog-remb'' \<or> val = Some ''nack'' \<or> val = Some ''ccm''"

fun filter_rtcp_fb_loop :: "avpf_handler \<Rightarrow> string list \<Rightarrow> sdp_media \<Rightarrow> c_fault + sdp_media" where
  "filter_rtcp_fb_loop self [] answer = Inr answer"
| "filter_rtcp_fb_loop self (val # vals) answer =
     (let opts = strsplit (CHR '' '') val in
      bind_result (strv_at opts 0) (\<lambda>fmt.
        if \<not> format_supported answer fmt then filter_rtcp_fb_loop self vals answer
        else bind_result (strv_at opts 1) (\<lambda>fb.
          if fb = Some ''nack'' \<and> \<not> pf_nack self then filter_rtcp_fb_loop self vals answer
          else if fb = Some ''goog-remb'' \<and> \<not> pf_remb self then filter_rtcp_fb_loop self vals answer
          else if \<not> supported_rtcp_fb_val fb then filter_rtcp_fb_loop self vals answer
          else filter_rtcp_fb_loop self vals (add_media_attr ''rtcp-fb'' (Some val) answer))))"

definition kms_sdp_rtp_avpf_media_handler_filter_rtcp_fb_attrs ::
  "avpf_handler \<Rightarrow> sdp_media \<Rightarrow> sdp_media \<Rightarrow> c_fault + sdp_media" where
  "kms_sdp_rtp_avpf_media_handler_filter_rtcp_fb_attrs self offer answer =
     filter_rtcp_fb_loop self (seen_vals (sm_attrs offer) ''rtcp-fb'') answer"

definition kms_sdp_rtp_avpf_media_handler_add_answer_attributes_impl ::
  "avpf_handler \<Rightarrow> 's answer_ext list \<Rightarrow> sdp_media \<Rightarrow> sdp_media \<Rightarrow> 's \<Rightarrow>
    c_fault + (sdp_media \<times> 's) option \<times> avpf_handler" where
  "kms_sdp_rtp_avpf_media_handler_add_answer_attributes_impl self exts offer answer s =
     bind_result (kms_sdp_rtp_avp_media_handler_add_answer_attributes_impl (pf_avp self) exts offer answer s)
       (\<lambda>(r, avp). let self' = self\<lparr>pf_avp := avp\<rparr> in case r of
          None \<Rightarrow> Inr (None, self')
        | Some (a1, s') \<Rightarrow>
            (if sm_proto offer = Some ''RTP/AVP'' then Inr (Some (a1, s'), self')
             else bind_result (kms_sdp_rtp_avpf_media_handler_filter_rtcp_fb_attrs self' offer a1)
               (\<lambda>a2. Inr (Some (a2, s'), self'))))"

definition kms_sdp_rtp_avpf_media_handler_can_insert_attribute ::
  "avpf_handler \<Rightarrow> (sdp_attr \<Rightarrow> sdp_media \<Rightarrow> bool) list \<Rightarrow> sdp_attr \<Rightarrow> sdp_media \<Rightarrow> c_fault + bool" where
  "kms_sdp_rtp_avpf_media_handler_can_insert_attribute self ext_accepts attr answer =
     (if sa_key attr = ''rtcp-fb'' then Inr False
      else kms_sdp_rtp_avp_media_handler_can_insert_attribute (rh_rtp (pf_avp self)) ext_accepts attr answer)"

definition instersect_rtp_avpf_media_attr ::
  "(sdp_attr \<Rightarrow> sdp_media \<Rightarrow> c_fault + bool) \<Rightarrow> sdp_attr \<Rightarrow> c_fault + sdp_media \<Rightarrow> c_fault + sdp_media" where
  "instersect_rtp_avpf_media_attr can_insert attr r =
     bind_result r (\<lambda>answer. bind_result (can_insert attr answer) (\<lambda>ok.
       Inr (if ok then add_media_attr (sa_key attr) (sa_value attr) answer else answer)))"

definition kms_sdp_rtp_avpf_media_handler_intersect_sdp_medias ::
  "(sdp_attr \<Rightarrow> sdp_media \<Rightarrow> c_fault + bool) \<Rightarrow> sdp_media \<Rightarrow> sdp_media \<Rightarrow> c_fault + sdp_media option" where
  "kms_sdp_rtp_avpf_media_handler_intersect_sdp_medias can_insert offer answer =
     (let (ok, r) = sdp_utils_intersect_media_attributes offer
        (Some (instersect_rtp_avpf_media_attr can_insert)) (Inr answer) in
      bind_result r (\<lambda>a. Inr (if ok then Some a else None)))"

definition kms_sdp_rtp_avpf_media_handler_create_answer ::
  "(string option \<Rightarrow> bool) \<Rightarrow> avpf_handler \<Rightarrow> 's answer_ext list \<Rightarrow> (sdp_attr \<Rightarrow> sdp_media \<Rightarrow> bool) list \<Rightarrow>
    sdp_media \<Rightarrow> 's \<Rightarrow> c_fault + (sdp_media \<times> 's) option \<times> avpf_handler" where
  "kms_sdp_rtp_avpf_media_handler_create_answer manages handler exts ext_accepts offer s =
     (case kms_sdp_rtp_avp_media_handler_init_answer manages offer sdp_media_new of
        None \<Rightarrow> Inr (None, handler)
      | Some m \<Rightarrow>
          and_then (kms_sdp_rtp_avpf_media_handler_add_answer_attributes_impl handler exts offer m s) (\<lambda>(a, s') self1.
          and_then (with_state (kms_sdp_rtp_avpf_media_handler_intersect_sdp_medias
              (kms_sdp_rtp_avpf_media_handler_can_insert_attribute self1 ext_accepts) offer a) self1)
            (\<lambda>a' self2. Inr (Some (a', s'), self2))))"

section \<open>What is agreed\<close>

interpretation avpf: direction_filter "kms_sdp_rtp_avpf_media_handler_can_insert_attribute self ea" for self ea
  by unfold_locales
    (auto simp: kms_sdp_rtp_avpf_media_handler_can_insert_attribute_def direction_key avp.takes_direction
      dest: avp.inserts_new avp.one_direction split: if_splits)

lemma avpf_intersect_eq:
  "kms_sdp_rtp_avpf_media_handler_intersect_sdp_medias = kms_sdp_rtp_media_handler_intersect_sdp_medias"
  by (intro ext) (simp add: kms_sdp_rtp_avpf_media_handler_intersect_sdp_medias_def instersect_rtp_avpf_media_attr_def
      [abs_def] kms_sdp_rtp_media_handler_intersect_sdp_medias_def instersect_rtp_media_attr_def [abs_def])

text \<open>The feedback attributes of a media, and the steps that do not touch them.\<close>

definition feedback :: "sdp_media \<Rightarrow> string option list" where
  "feedback m = attr_vals (sm_attrs m) ''rtcp-fb''"

lemma feedback_simps [simp]:
  "feedback (add_media_attr k v m) = feedback m @ (if k = ''rtcp-fb'' then [v] else [])"
  "feedback (add_bandwidths bw m) = feedback m" "feedback (add_rtcp_entry rt m) = feedback m"
  by (simp_all add: feedback_def add_bandwidths_def add_rtcp_entry_def)

definition ext_silent :: "'s answer_ext \<Rightarrow> bool" where
  "ext_silent ext \<longleftrightarrow> ext_keeps ext \<and> (\<forall>offer a s. feedback (fst (snd (ext offer a s))) = feedback a)"

lemma silent_keeps: "list_all ext_silent exts \<Longrightarrow> list_all ext_keeps exts"
  by (auto simp: list_all_iff ext_silent_def)

lemma run_answer_exts_feedback:
  "list_all ext_silent exts \<Longrightarrow> feedback (fst (run_answer_exts exts offer a s)) = feedback a"
  by (induction exts arbitrary: a s) (auto simp: ext_silent_def Let_def case_prod_beta)

lemma extmaps_feedback:
  "supported_extmaps_loop extmaps as answer = Inr (Some answer') \<Longrightarrow> feedback answer' = feedback answer"
proof (induction as arbitrary: answer)
  case (Cons attr as)
  let ?f = "\<lambda>u. fold (\<lambda>(_, u') a. if u' = u then add_media_attr ''extmap'' (Some attr) a else a) extmaps answer"
  have "feedback (?f u) = feedback answer" for u
    by (induction extmaps arbitrary: answer) (auto simp: case_prod_beta)
  then show ?case
    using Cons by (auto simp: bind_result_Inr_iff split: option.splits)
qed simp

lemma rtpmaps_feedback:
  "supported_rtpmaps_loop self offer fs answer = Inr (Some answer', self') \<Longrightarrow> feedback answer' = feedback answer"
proof (induction fs arbitrary: self answer)
  case (Cons f fs)
  then show ?case
    by (auto simp: Let_def bind_result_Inr_iff split: if_splits option.splits)
qed simp

lemma avp_answer_feedback:
  assumes "kms_sdp_rtp_avp_media_handler_add_answer_attributes_impl self exts offer m s = Inr (Some (a, s'), self')"
    and "list_all ext_silent exts" and "sm_attrs m = []" and "sm_fmts m = []"
  shows "feedback a = []"
  using assms(1,4)
proof (cases rule: add_answer_steps)
  case (1 self2 a3 a4 s4 self3)
  have "feedback a4 = feedback a3"
    using 1(2) run_answer_exts_feedback [OF assms(2), of offer "add_bandwidths (mh_bwtypes (rh_base self2)) a3" s]
    by (auto simp: kms_sdp_rtp_media_handler_add_answer_attributes_def case_prod_beta Let_def
        kms_sdp_media_handler_add_answer_attributes_impl_def)
  then show ?thesis
    using rtpmaps_feedback [OF 1(3)] extmaps_feedback [OF 1(1)] assms(3)
    by (simp add: feedback_def answer_mline_def Let_def)
qed

text \<open>Which of the offered feedback the handler takes for an answer with the given formats.\<close>

definition feedback_taken :: "avpf_handler \<Rightarrow> string list \<Rightarrow> string \<Rightarrow> bool" where
  "feedback_taken self fmts val = (case strsplit (CHR '' '') val of
     fmt # fb # _ \<Rightarrow> fmt \<in> set fmts \<and>
       (fb = ''nack'' \<and> pf_nack self \<or> fb = ''goog-remb'' \<and> pf_remb self \<or> fb = ''ccm'')
   | _ \<Rightarrow> False)"

lemma filter_feedback:
  "filter_rtcp_fb_loop self vals a = Inr a' \<Longrightarrow>
     feedback a' = feedback a @ map Some (filter (feedback_taken self (sm_fmts a)) vals) \<and> mline a' = mline a"
proof (induction vals arbitrary: a)
  case (Cons val vals)
  have r: "filter_rtcp_fb_loop self vals (if feedback_taken self (sm_fmts a) val
      then add_media_attr ''rtcp-fb'' (Some val) a else a) = Inr a'"
    using Cons.prems
    by (cases "strsplit (CHR '' '') val"; cases "tl (strsplit (CHR '' '') val)")
      (auto simp: Let_def strv_at_def feedback_taken_def format_supported_def supported_rtcp_fb_val_def
        list_ex_iff split: if_splits)
  show ?case using Cons.IH [OF r] by auto
qed simp

lemma seen_vals_all: "attr_vals as k = map Some vs \<Longrightarrow> seen_vals as k = vs"
proof -
  have "takeWhile (\<lambda>v. v \<noteq> None) (map Some vs) = map Some vs" by (induction vs) auto
  then show "attr_vals as k = map Some vs \<Longrightarrow> seen_vals as k = vs"
    unfolding seen_vals_def by (simp only: map_map comp_def option.sel list.map_ident)
qed

text \<open>
  C11: The feedback of an answer: nothing for an offer of the plain profile; otherwise exactly the
  offered \<open>rtcp-fb\<close> attributes, in order, that are for a format of the answer and of a kind the
  handler supports and has switched on. The endpoint, which asks the answer whether NACK was
  agreed for its first format, sees it exactly if it was offered and is switched on.
\<close>

theorem avpf_answer_feedback:
  assumes "kms_sdp_rtp_avpf_media_handler_create_answer manages self exts ea offer s = Inr (Some (answer, s'), self')"
    and "list_all ext_silent exts"
  shows "feedback answer = (if sm_proto offer = Some ''RTP/AVP'' then []
      else map Some (filter (feedback_taken self (sm_fmts answer)) (seen_vals (sm_attrs offer) ''rtcp-fb''))) \<and>
    (\<forall>p fs. sm_fmts answer = p # fs \<and> CHR '' '' \<notin> set p \<longrightarrow>
      (sdp_utils_media_has_rtcp_nack answer \<longleftrightarrow>
         sm_proto offer \<noteq> Some ''RTP/AVP'' \<and> pf_nack self \<and> p @ '' nack'' \<in> set (seen_vals (sm_attrs offer) ''rtcp-fb'')))"
proof -
  obtain m a s1 self1 where m: "kms_sdp_rtp_avp_media_handler_init_answer manages offer sdp_media_new = Some m"
    and add: "kms_sdp_rtp_avpf_media_handler_add_answer_attributes_impl self exts offer m s = Inr (Some (a, s1), self1)"
    and inter: "kms_sdp_rtp_media_handler_intersect_sdp_medias
      (kms_sdp_rtp_avpf_media_handler_can_insert_attribute self1 ea) offer a = Inr (Some answer)"
    using assms(1)
    by (auto simp: kms_sdp_rtp_avpf_media_handler_create_answer_def and_then_Some with_state_Some avpf_intersect_eq
        split: option.splits)
  note m = init_answer_media [OF m]
  obtain r avp where r: "kms_sdp_rtp_avp_media_handler_add_answer_attributes_impl (pf_avp self) exts offer m s = Inr (r, avp)"
    using add by (auto simp: kms_sdp_rtp_avpf_media_handler_add_answer_attributes_impl_def bind_result_Inr_iff)
  obtain a1 where a1: "r = Some (a1, s1)"
    and a: "if sm_proto offer = Some ''RTP/AVP'' then a = a1
      else filter_rtcp_fb_loop (self\<lparr>pf_avp := avp\<rparr>) (seen_vals (sm_attrs offer) ''rtcp-fb'') a1 = Inr a"
    using add r by (cases r; cases "the r") (auto simp: bind_result_Inr_iff Let_def
        kms_sdp_rtp_avpf_media_handler_add_answer_attributes_impl_def
        kms_sdp_rtp_avpf_media_handler_filter_rtcp_fb_attrs_def split: if_splits)
  note a1 = r [unfolded a1]
  have fb1: "feedback a1 = []"
    using avp_answer_feedback [OF a1 assms(2)] m by (simp add: sdp_media_new_def)
  have taken: "feedback_taken (self\<lparr>pf_avp := avp\<rparr>) = feedback_taken self"
    by (intro ext) (simp add: feedback_taken_def split: list.split)
  have "feedback answer = feedback a"
    by (rule intersect_keeps [OF inter, where P = "\<lambda>m. feedback m = feedback a"])
      (auto simp: kms_sdp_rtp_avpf_media_handler_can_insert_attribute_def split: if_splits)
  moreover have "sm_fmts answer = sm_fmts a" using mline_fields [OF intersect_mline [OF inter]] by simp
  moreover have "sm_fmts a = sm_fmts a1" if "sm_proto offer \<noteq> Some ''RTP/AVP''"
    using filter_feedback [of "self\<lparr>pf_avp := avp\<rparr>" _ a1 a] a that mline_fields [of a a1] by auto
  ultimately have fb: "feedback answer = (if sm_proto offer = Some ''RTP/AVP'' then []
      else map Some (filter (feedback_taken self (sm_fmts answer)) (seen_vals (sm_attrs offer) ''rtcp-fb'')))"
    using a fb1 filter_feedback [of "self\<lparr>pf_avp := avp\<rparr>" _ a1 a] taken by (auto split: if_splits)
  have seen: "seen_vals (sm_attrs answer) ''rtcp-fb'' = (if sm_proto offer = Some ''RTP/AVP'' then []
      else filter (feedback_taken self (sm_fmts answer)) (seen_vals (sm_attrs offer) ''rtcp-fb''))"
    using fb by (intro seen_vals_all) (auto simp: feedback_def)
  have nack: "sdp_utils_media_has_rtcp_nack answer \<longleftrightarrow>
      sm_proto offer \<noteq> Some ''RTP/AVP'' \<and> pf_nack self \<and> p @ '' nack'' \<in> set (seen_vals (sm_attrs offer) ''rtcp-fb'')"
    if "sm_fmts answer = p # fs" "CHR '' '' \<notin> set p" for p fs
  proof -
    have "strsplit (CHR '' '') (p @ '' nack'') = [p, ''nack'']"
      using split_at_join [OF that(2), of "''nack''"] split_at_none [of "CHR '' ''" "''nack''"]
      by (simp add: strsplit_def)
    then have "feedback_taken self (sm_fmts answer) (p @ '' nack'') = pf_nack self"
      using that(1) by (simp add: feedback_taken_def)
    then show ?thesis
      using that(1) fb seen
      by (auto simp: sdp_utils_media_has_rtcp_nack_def scan_vals_first first_result_True
          sdp_utils_rtcp_fb_attr_check_type_def)
  qed
  then show ?thesis using fb by blast
qed


definition nack_offer :: "sdp_attr list \<Rightarrow> string list \<Rightarrow> sdp_media" where
  "nack_offer as fs = (audio_offer as fs)\<lparr>sm_proto := Some ''RTP/AVPF''\<rparr>"

definition nack_handler :: avpf_handler where
  "nack_handler = \<lparr>pf_avp = pcmu_handler, pf_nack = True, pf_remb = True\<rparr>"

lemma nack_split: "strsplit (CHR '' '') ''0 nack'' = [''0'', ''nack'']"
  using split_at_join [of "CHR '' ''" "''0''" "''nack''"] split_at_none [of "CHR '' ''" "''nack''"]
  by (simp add: strsplit_def del: split_at.simps)

lemma nack_fmt_supported:
  "kms_sdp_rtp_avp_media_handler_format_supported pcmu_handler (nack_offer [mk_attr ''rtcp-fb'' ''0 nack''] fs) ''0'' = Inr (True, pcmu_handler)"
  "kms_sdp_rtp_avp_media_handler_format_supported pcmu_handler (nack_offer [mk_attr ''rtcp-fb'' ''0 nack''] fs) ''8'' = Inr (False, pcmu_handler)"
  by (simp_all add: kms_sdp_rtp_avp_media_handler_format_supported_def sdp_utils_get_attr_map_value_def
      scan_vals_first seen_vals_def strtol_examples to_gint_small static_examples fmts_for_def str_suffix_def
      kms_sdp_rtp_avp_media_handler_encoding_supported_def rtpmaps_at_def n_rtpmaps_def
      avp_rtpmaps_def cmp_static_payload_def str_prefix_def nack_offer_def mk_attr_def)

lemma nack_base_answer:
  "kms_sdp_rtp_avp_media_handler_add_answer_attributes_impl pcmu_handler [] (nack_offer [mk_attr ''rtcp-fb'' ''0 nack''] [''0'', ''8''])
     (sdp_media_new\<lparr>sm_media := Some ''audio'', sm_proto := Some ''RTP/AVPF''\<rparr>) () = Inr (Some (nack_offer [] [''0''], ()), pcmu_handler)"
proof -
  let ?offer = "nack_offer [mk_attr ''rtcp-fb'' ''0 nack''] [''0'', ''8'']"
  have "supported_formats_loop pcmu_handler ?offer [''0'', ''8''] = Inr ([''0''], pcmu_handler)"
    by (simp add: nack_fmt_supported)
  moreover have "sm_attrs ?offer = [mk_attr ''rtcp-fb'' ''0 nack'']" "sm_fmts ?offer = [''0'', ''8'']"
    by (simp_all add: nack_offer_def)
  ultimately show ?thesis
    by (simp add: kms_sdp_rtp_avp_media_handler_add_answer_attributes_impl_def Let_def and_then_def with_state_def
      kms_sdp_rtp_avp_media_handler_set_supported_fmts_def mk_attr_def
      kms_sdp_rtp_avp_media_handler_add_supported_extmaps_def seen_vals_def
      kms_sdp_rtp_avp_media_handler_add_supported_rtpmap_attrs_def sdp_utils_get_attr_map_value_def
      kms_sdp_media_handler_add_answer_attributes_impl_def add_bandwidths_def add_rtcp_entry_def
      kms_sdp_rtp_media_handler_add_answer_attributes_def scan_vals_first nack_offer_def sdp_media_new_def strtol_examples
      to_gint_small static_examples fmts_for_def str_suffix_def kms_sdp_rtp_avp_media_handler_encoding_supported_def
      rtpmaps_at_def n_rtpmaps_def avp_rtpmaps_def cmp_static_payload_def str_prefix_def)
qed

lemma nack_answer:
  "kms_sdp_rtp_avpf_media_handler_create_answer kms_sdp_rtp_avpf_media_handler_manage_protocol nack_handler [] []
     (nack_offer [mk_attr ''rtcp-fb'' ''0 nack''] [''0'', ''8'']) () =
     Inr (Some (nack_offer [mk_attr ''rtcp-fb'' ''0 nack''] [''0''], ()), nack_handler)"
proof -
  let ?offer = "nack_offer [mk_attr ''rtcp-fb'' ''0 nack''] [''0'', ''8'']"
  have "map ascii_lower ''rtcp-fb'' \<noteq> dir_str dir" for dir
    by (cases dir) (simp_all add: dir_str.simps ascii_lower_def char_code_def)
  then have d: "sdp_utils_attribute_is_direction \<lparr>sa_key = ''rtcp-fb'', sa_value = Some ''0 nack''\<rparr> = None"
    using is_direction_iff [of "\<lparr>sa_key = ''rtcp-fb'', sa_value = Some ''0 nack''\<rparr>"] by (metis not_None_eq sdp_attr.select_convs(1))
  have "kms_sdp_rtp_avp_media_handler_init_answer kms_sdp_rtp_avpf_media_handler_manage_protocol ?offer sdp_media_new =
      Some (sdp_media_new\<lparr>sm_media := Some ''audio'', sm_proto := Some ''RTP/AVPF''\<rparr>)"
    by (simp add: kms_sdp_rtp_avp_media_handler_init_answer_def nack_offer_def sdp_media_new_def
      kms_sdp_rtp_avpf_media_handler_manage_protocol_def)
  moreover have "kms_sdp_rtp_avpf_media_handler_add_answer_attributes_impl nack_handler [] ?offer (sdp_media_new\<lparr>sm_media := Some ''audio'', sm_proto := Some ''RTP/AVPF''\<rparr>) () =
      Inr (Some (nack_offer [mk_attr ''rtcp-fb'' ''0 nack''] [''0''], ()), nack_handler)"
    using nack_base_answer
    by (simp add: kms_sdp_rtp_avpf_media_handler_add_answer_attributes_impl_def nack_handler_def Let_def
      kms_sdp_rtp_avpf_media_handler_filter_rtcp_fb_attrs_def seen_vals_def nack_offer_def mk_attr_def
      nack_split strv_at_def format_supported_def supported_rtcp_fb_val_def add_media_attr_def attrs_add_def)
  moreover have "kms_sdp_rtp_avpf_media_handler_intersect_sdp_medias
      (kms_sdp_rtp_avpf_media_handler_can_insert_attribute nack_handler []) ?offer a = Inr (Some a)" for a
    using d by (simp add: answer_attribute_def avpf_intersect_eq intersect_fold instersect_rtp_media_attr_def nack_offer_def mk_attr_def
      answer_of_def kms_sdp_rtp_avpf_media_handler_can_insert_attribute_def)
  ultimately show ?thesis
    by (simp add: kms_sdp_rtp_avpf_media_handler_create_answer_def and_then_def with_state_def)
qed

lemma avpf_answer_feedback_witness:
  "sdp_utils_media_has_rtcp_nack (nack_offer [mk_attr ''rtcp-fb'' ''0 nack''] [''0''])"
  using avpf_answer_feedback [OF nack_answer]
  by (simp add: nack_offer_def nack_handler_def seen_vals_def mk_attr_def)

end
