(* ===== verification/SdpSctp.thy ===== *)
theory SdpSctp
  imports SdpRtp
begin

text \<open>
  The media handler for data channels, SCTP over DTLS (\<open>kmssdpsctpmediahandler.c\<close>). It derives
  from the base class; what \<open>SdpRtp\<close> proves of the intersection of attributes holds for its
  copy of that function too. The random port of an offer is an argument.
\<close>

section \<open>Operations\<close>

text \<open>The constructor overwrites the protocol whatever it was given.\<close>

definition kms_sdp_sctp_media_handler_new :: media_handler where
  "kms_sdp_sctp_media_handler_new = \<lparr>mh_reject = False, mh_proto = Some ''DTLS/SCTP'', mh_addr = None,
     mh_addr_type = Some ''IP4'', mh_bwtypes = [], mh_id = - 1, mh_parent = False\<rparr>"

text \<open>The regular expression is anchored at its beginning only; NULL is not matched.\<close>

definition kms_sdp_sctp_media_handler_manage_protocol :: "string option \<Rightarrow> bool" where
  "kms_sdp_sctp_media_handler_manage_protocol protocol = (case protocol of
     None \<Rightarrow> False
   | Some p \<Rightarrow> str_prefix ''DTLS/SCTP'' p \<or> str_prefix ''UDP/DTLS/SCTP'' p)"

definition kms_sdp_sctp_media_handler_init_offer :: "string option \<Rightarrow> sdp_media \<Rightarrow> sdp_media option" where
  "kms_sdp_sctp_media_handler_init_offer media offer =
     (if media \<noteq> Some ''application'' then None
      else Some (add_media_attr ''setup'' (Some ''actpass'') (offer\<lparr>sm_media := media,
        sm_proto := Some ''UDP/DTLS/SCTP'', sm_port := 1, sm_num_ports := 1,
        sm_fmts := sm_fmts offer @ [''webrtc-datachannel'']\<rparr>)))"

definition kms_sdp_sctp_media_handler_add_offer_attributes ::
  "u16 \<Rightarrow> media_handler \<Rightarrow> 's offer_ext list \<Rightarrow> sdp_media \<Rightarrow> 's \<Rightarrow> sdp_media \<times> 's" where
  "kms_sdp_sctp_media_handler_add_offer_attributes sctp_port handler exts offer s =
     kms_sdp_media_handler_add_offer_attributes_impl handler exts
       (add_media_attr ''sctp-port'' (Some (decimal (unat sctp_port))) offer) s"

definition kms_sdp_sctp_media_handler_create_offer ::
  "u16 \<Rightarrow> media_handler \<Rightarrow> 's offer_ext list \<Rightarrow> string option \<Rightarrow> 's \<Rightarrow> (sdp_media \<times> 's) option" where
  "kms_sdp_sctp_media_handler_create_offer sctp_port handler exts media s =
     map_option (\<lambda>m. kms_sdp_sctp_media_handler_add_offer_attributes sctp_port handler exts m s)
       (kms_sdp_sctp_media_handler_init_offer media sdp_media_new)"

definition sctp_format_supported :: "sdp_media \<Rightarrow> string \<Rightarrow> bool" where
  "sctp_format_supported media fmt \<longleftrightarrow>
     fmt = ''webrtc-datachannel'' \<and> attribute_val (sm_attrs media) ''sctp-port'' \<noteq> None"

definition add_supported_sctp_attrs :: "sdp_media \<Rightarrow> sdp_media \<Rightarrow> sdp_media option" where
  "add_supported_sctp_attrs offer answer = (case sm_fmts answer of
     [] \<Rightarrow> None
   | fmt # _ \<Rightarrow>
       (if \<not> sctp_format_supported offer fmt then None
        else Some (add_media_attr ''sctp-port'' (attribute_val (sm_attrs offer) ''sctp-port'') answer)))"

definition kms_sdp_sctp_media_handler_init_answer :: "sdp_media \<Rightarrow> sdp_media \<Rightarrow> sdp_media option" where
  "kms_sdp_sctp_media_handler_init_answer offer answer =
     (if sm_media offer \<noteq> Some ''application'' then None
      else if \<not> kms_sdp_sctp_media_handler_manage_protocol (sm_proto offer) then None
      else Some (answer\<lparr>sm_media := sm_media offer, sm_proto := sm_proto offer, sm_port := 1, sm_num_ports := 1\<rparr>))"

text \<open>The extensions have run, and changed their owner, also when the offer is refused then.\<close>

definition kms_sdp_sctp_media_handler_add_answer_attributes_impl ::
  "media_handler \<Rightarrow> 's answer_ext list \<Rightarrow> sdp_media \<Rightarrow> sdp_media \<Rightarrow> 's \<Rightarrow> sdp_media option \<times> 's" where
  "kms_sdp_sctp_media_handler_add_answer_attributes_impl handler exts offer answer s =
     (let (a1, s') = kms_sdp_media_handler_add_answer_attributes_impl handler exts offer answer s in
      (case sm_fmts offer of
         [] \<Rightarrow> None
       | fmt # _ \<Rightarrow>
           (if \<not> sctp_format_supported offer fmt then None
            else add_supported_sctp_attrs offer (a1\<lparr>sm_fmts := sm_fmts a1 @ [fmt]\<rparr>)), s'))"

definition kms_sdp_sctp_media_handler_can_insert_attribute ::
  "(sdp_attr \<Rightarrow> sdp_media \<Rightarrow> bool) list \<Rightarrow> sdp_attr \<Rightarrow> sdp_media \<Rightarrow> c_fault + bool" where
  "kms_sdp_sctp_media_handler_can_insert_attribute ext_accepts attr answer =
     (if sa_key attr = ''sctpmap'' \<or> sa_key attr = ''sctp-port'' then Inr False
      else if sdp_utils_attribute_is_direction attr \<noteq> None then Inr False
      else kms_sdp_media_handler_can_insert_attribute_impl ext_accepts attr answer)"

definition instersect_sctp_media_attr ::
  "(sdp_attr \<Rightarrow> sdp_media \<Rightarrow> c_fault + bool) \<Rightarrow> sdp_attr \<Rightarrow> c_fault + sdp_media \<Rightarrow> c_fault + sdp_media" where
  "instersect_sctp_media_attr can_insert attr r =
     bind_result r (\<lambda>answer. bind_result (can_insert attr answer) (\<lambda>ok.
       Inr (if ok then add_media_attr (sa_key attr) (sa_value attr) answer else answer)))"

definition kms_sdp_sctp_media_handler_intersect_sdp_medias ::
  "(sdp_attr \<Rightarrow> sdp_media \<Rightarrow> c_fault + bool) \<Rightarrow> sdp_media \<Rightarrow> sdp_media \<Rightarrow> c_fault + sdp_media option" where
  "kms_sdp_sctp_media_handler_intersect_sdp_medias can_insert offer answer =
     (let (ok, r) = sdp_utils_intersect_media_attributes offer
        (Some (instersect_sctp_media_attr can_insert)) (Inr answer) in
      bind_result r (\<lambda>a. Inr (if ok then Some a else None)))"

definition kms_sdp_sctp_media_handler_create_answer ::
  "media_handler \<Rightarrow> 's answer_ext list \<Rightarrow> (sdp_attr \<Rightarrow> sdp_media \<Rightarrow> bool) list \<Rightarrow> sdp_media \<Rightarrow> 's \<Rightarrow>
    c_fault + sdp_media option \<times> 's" where
  "kms_sdp_sctp_media_handler_create_answer handler exts ext_accepts offer s =
     (case kms_sdp_sctp_media_handler_init_answer offer sdp_media_new of
        None \<Rightarrow> Inr (None, s)
      | Some m \<Rightarrow>
          (case kms_sdp_sctp_media_handler_add_answer_attributes_impl handler exts offer m s of
             (None, s') \<Rightarrow> Inr (None, s')
           | (Some a, s') \<Rightarrow> bind_result (kms_sdp_sctp_media_handler_intersect_sdp_medias
               (kms_sdp_sctp_media_handler_can_insert_attribute ext_accepts) offer a) (\<lambda>r. Inr (r, s'))))"

section \<open>What is answered\<close>

interpretation sctp: attr_filter "kms_sdp_sctp_media_handler_can_insert_attribute ea" for ea
  by unfold_locales
    (auto simp: kms_sdp_sctp_media_handler_can_insert_attribute_def dest: base_inserts split: if_splits)

lemma sctp_intersect_eq:
  "kms_sdp_sctp_media_handler_intersect_sdp_medias = kms_sdp_rtp_media_handler_intersect_sdp_medias"
  by (intro ext) (simp add: kms_sdp_sctp_media_handler_intersect_sdp_medias_def instersect_sctp_media_attr_def
      [abs_def] kms_sdp_rtp_media_handler_intersect_sdp_medias_def instersect_rtp_media_attr_def [abs_def])

text \<open>The attributes the handler answers for itself, and the offers it can answer.\<close>

definition sctp_attrs :: "sdp_media \<Rightarrow> sdp_attr list" where
  "sctp_attrs m = filter (\<lambda>a. sa_key a = ''sctp-port'' \<or> is_dir a) (sm_attrs m)"

definition sctp_silent :: "'s answer_ext \<Rightarrow> bool" where
  "sctp_silent ext \<longleftrightarrow> ext_keeps ext \<and> (\<forall>offer a s. sctp_attrs (fst (snd (ext offer a s))) = sctp_attrs a)"

definition sctp_offer_ok :: "sdp_media \<Rightarrow> bool" where
  "sctp_offer_ok offer \<longleftrightarrow> sm_media offer = Some ''application'' \<and>
     kms_sdp_sctp_media_handler_manage_protocol (sm_proto offer) \<and>
     take 1 (sm_fmts offer) = [''webrtc-datachannel''] \<and> attribute_val (sm_attrs offer) ''sctp-port'' \<noteq> None"

lemma sctp_silent_run:
  "list_all sctp_silent exts \<Longrightarrow> sctp_attrs (fst (run_answer_exts exts offer a s)) = sctp_attrs a \<and>
     mline (fst (run_answer_exts exts offer a s)) = mline a"
  by (induction exts arbitrary: a s) (auto simp: sctp_silent_def ext_keeps_def Let_def case_prod_beta)

lemma sctp_attrs_add [simp]:
  "sctp_attrs (add_media_attr k v m) =
     sctp_attrs m @ (if k = ''sctp-port'' \<or> is_dir \<lparr>sa_key = k, sa_value = v\<rparr> then [\<lparr>sa_key = k, sa_value = v\<rparr>] else [])"
  "sctp_attrs (add_bandwidths b m) = sctp_attrs m" "sctp_attrs (m\<lparr>sm_fmts := fs\<rparr>) = sctp_attrs m"
  by (simp_all add: sctp_attrs_def add_bandwidths_def)

lemma sctp_added:
  assumes "list_all sctp_silent exts" and "sm_attrs m = []" and "sm_fmts m = []"
    and "kms_sdp_sctp_media_handler_add_answer_attributes_impl handler exts offer m s = (r, s')"
  shows "(r \<noteq> None \<longleftrightarrow> take 1 (sm_fmts offer) = [''webrtc-datachannel''] \<and>
      attribute_val (sm_attrs offer) ''sctp-port'' \<noteq> None) \<and>
    (\<forall>a. r = Some a \<longrightarrow> mline a = mline (m\<lparr>sm_fmts := [''webrtc-datachannel'']\<rparr>) \<and>
      sctp_attrs a = [\<lparr>sa_key = ''sctp-port'', sa_value = attribute_val (sm_attrs offer) ''sctp-port''\<rparr>])"
proof -
  obtain a1 where a1: "kms_sdp_media_handler_add_answer_attributes_impl handler exts offer m s = (a1, s')"
    using assms(4) by (cases "kms_sdp_media_handler_add_answer_attributes_impl handler exts offer m s")
      (simp add: kms_sdp_sctp_media_handler_add_answer_attributes_impl_def)
  have m1: "sctp_attrs a1 = []" "mline a1 = mline m"
    using a1 sctp_silent_run [OF assms(1), of offer "add_bandwidths (mh_bwtypes handler) m" s] assms(2)
    by (auto simp: kms_sdp_media_handler_add_answer_attributes_impl_def) (simp add: sctp_attrs_def)
  then have f1: "sm_fmts a1 = []" using mline_fields assms(3) by metis
  then have "mline (a1\<lparr>sm_fmts := fs\<rparr>) = mline (m\<lparr>sm_fmts := fs\<rparr>)" for fs
    using m1(2) by (cases a1; cases m) (simp add: mline_def)
  then show ?thesis
    using assms(4) a1 m1(1) f1
    by (auto simp: kms_sdp_sctp_media_handler_add_answer_attributes_impl_def add_supported_sctp_attrs_def
        sctp_format_supported_def split: list.splits if_splits)
qed

text \<open>
  C13: A data channel media is answered exactly if it is one of RFC 8841 with the port of its
  association. The answer names the same kind and protocol, the one format, accepts with port 1,
  repeats the offered SCTP port as its only one, and has no direction.
\<close>

theorem sctp_answer:
  assumes "kms_sdp_sctp_media_handler_create_answer handler exts ea offer s = Inr (r, s')"
    and "list_all sctp_silent exts"
  shows "(r \<noteq> None \<longleftrightarrow> sctp_offer_ok offer) \<and>
    (\<forall>a. r = Some a \<longrightarrow> sm_media a = sm_media offer \<and> sm_proto a = sm_proto offer \<and>
      sm_fmts a = [''webrtc-datachannel''] \<and> sm_port a = 1 \<and>
      sctp_attrs a = [\<lparr>sa_key = ''sctp-port'', sa_value = attribute_val (sm_attrs offer) ''sctp-port''\<rparr>])"
proof (cases "kms_sdp_sctp_media_handler_init_answer offer sdp_media_new")
  case None
  then show ?thesis
    using assms(1) by (auto simp: kms_sdp_sctp_media_handler_create_answer_def sctp_offer_ok_def
        kms_sdp_sctp_media_handler_init_answer_def split: if_splits)
next
  case (Some m)
  then have m: "sm_attrs m = []" "sm_fmts m = []" "sm_port m = 1" "sm_media m = sm_media offer"
    "sm_proto m = sm_proto offer" "sm_media offer = Some ''application''"
    "kms_sdp_sctp_media_handler_manage_protocol (sm_proto offer)"
    by (auto simp: kms_sdp_sctp_media_handler_init_answer_def sdp_media_new_def split: if_splits)
  obtain ra s1 where ra: "kms_sdp_sctp_media_handler_add_answer_attributes_impl handler exts offer m s = (ra, s1)"
    by fastforce
  note added = sctp_added [OF assms(2) m(1,2) ra]
  show ?thesis
  proof (cases ra)
    case None
    then show ?thesis using assms(1) Some ra added m
      by (auto simp: kms_sdp_sctp_media_handler_create_answer_def sctp_offer_ok_def)
  next
    case (Some a)
    then obtain a' where r: "r = Some a'"
      and inter: "kms_sdp_rtp_media_handler_intersect_sdp_medias
        (kms_sdp_sctp_media_handler_can_insert_attribute ea) offer a = Inr (Some a')"
      using assms(1) \<open>kms_sdp_sctp_media_handler_init_answer offer sdp_media_new = Some m\<close> ra
      by (auto simp: kms_sdp_sctp_media_handler_create_answer_def sctp_intersect_eq bind_result_Inr_iff intersect_fold)
    have "sctp_attrs a' = sctp_attrs a"
      by (rule intersect_keeps [OF inter, where P = "\<lambda>m. sctp_attrs m = sctp_attrs a"])
        (auto simp: kms_sdp_sctp_media_handler_can_insert_attribute_def split: if_splits)
    moreover have "mline a' = mline (m\<lparr>sm_fmts := [''webrtc-datachannel'']\<rparr>)"
      using intersect_mline [OF inter] added Some by simp
    note mline_fields [OF this]
    ultimately show ?thesis using r added Some m by (auto simp: sctp_offer_ok_def)
  qed
qed

text \<open>An offer of the handler is one it can answer, and the port is read back from the answer.\<close>

lemma sctp_offer_shape:
  assumes "kms_sdp_sctp_media_handler_create_offer port h [] media s = Some (offer, s')"
  shows "sctp_offer_ok offer \<and> s' = s \<and> attribute_val (sm_attrs offer) ''sctp-port'' = Some (decimal (unat port)) \<and>
    sm_attrs offer = [mk_attr ''setup'' ''actpass'', mk_attr ''sctp-port'' (decimal (unat port))]"
  using assms
  by (auto simp: kms_sdp_sctp_media_handler_create_offer_def kms_sdp_sctp_media_handler_init_offer_def
      kms_sdp_sctp_media_handler_add_offer_attributes_def kms_sdp_media_handler_add_offer_attributes_impl_def
      sdp_media_new_def sctp_offer_ok_def kms_sdp_sctp_media_handler_manage_protocol_def str_prefix_def
      add_bandwidths_def attribute_val_n_def mk_attr_def split: if_splits)

lemma sctp_keywords:
  "sdp_utils_attribute_is_direction \<lparr>sa_key = ''setup'', sa_value = v\<rparr> = None"
  "sdp_utils_attribute_is_direction \<lparr>sa_key = ''sctp-port'', sa_value = v\<rparr> = None"
proof -
  have "''sctp-port'' \<noteq> dir_str d" for d by (cases d) (simp_all add: dir_str.simps)
  then show "sdp_utils_attribute_is_direction \<lparr>sa_key = ''sctp-port'', sa_value = v\<rparr> = None"
    by (simp add: is_direction_None_iff ascii_lower_def char_code_def)
qed (simp add: keyword_no_direction)

lemma sctp_own_offer:
  assumes "kms_sdp_sctp_media_handler_create_offer port h [] media s = Some (offer, s')"
  shows "\<exists>a. kms_sdp_sctp_media_handler_create_answer h' [] [] offer t = Inr (Some a, t) \<and>
    strtoull (the (attribute_val (sm_attrs a) ''sctp-port'')) = ucast port \<and>
    attribute_val (sm_attrs a) ''setup'' = Some ''active''"
proof -
  note offer = sctp_offer_shape [OF assms]
  let ?port = "mk_attr ''sctp-port'' (decimal (unat port))"
  have answers: "answer_of (mk_attr ''setup'' ''actpass'') = mk_attr ''setup'' ''active''" "answer_of ?port = ?port"
    using sctp_keywords(2) [of "Some (decimal (unat port))"]
    by (simp_all add: answer_of_def answer_attribute_def sdp_utils_add_setup_attribute_def mk_attr_def)
  let ?m = "sdp_media_new\<lparr>sm_media := sm_media offer, sm_proto := sm_proto offer, sm_port := 1, sm_num_ports := 1\<rparr>"
  let ?a = "add_media_attr ''sctp-port'' (Some (decimal (unat port)))
    (add_bandwidths (mh_bwtypes h') ?m\<lparr>sm_fmts := [''webrtc-datachannel'']\<rparr>)"
  obtain fs where fs: "sm_fmts offer = ''webrtc-datachannel'' # fs"
    using offer by (cases "sm_fmts offer") (auto simp: sctp_offer_ok_def)
  then have "kms_sdp_sctp_media_handler_add_answer_attributes_impl h' [] offer ?m t = (Some ?a, t)"
    using offer by (simp add: kms_sdp_sctp_media_handler_add_answer_attributes_impl_def
        kms_sdp_media_handler_add_answer_attributes_impl_def sctp_format_supported_def
        add_supported_sctp_attrs_def add_bandwidths_def sdp_media_new_def attribute_val_n_def mk_attr_def)
  moreover have "kms_sdp_sctp_media_handler_can_insert_attribute [] (mk_attr ''setup'' ''active'') ?a = Inr True"
    using sctp_keywords(1) [of "Some ''active''"]
    by (simp add: kms_sdp_sctp_media_handler_can_insert_attribute_def attribute_in_media_iff supported_attributes_def
        kms_sdp_media_handler_can_insert_attribute_impl_def mk_attr_def add_bandwidths_def sdp_media_new_def)
  moreover have "kms_sdp_sctp_media_handler_can_insert_attribute [] ?port m = Inr False" for m
    by (simp add: kms_sdp_sctp_media_handler_can_insert_attribute_def mk_attr_def)
  ultimately have added: "kms_sdp_sctp_media_handler_add_answer_attributes_impl h' [] offer ?m t = (Some ?a, t)"
    and inter: "kms_sdp_rtp_media_handler_intersect_sdp_medias
      (kms_sdp_sctp_media_handler_can_insert_attribute []) offer ?a =
      Inr (Some (add_media_attr ''setup'' (Some ''active'') ?a))"
    using offer by (simp_all add: intersect_fold answers instersect_rtp_media_attr_def)
  from added inter have "kms_sdp_sctp_media_handler_create_answer h' [] [] offer t =
      Inr (Some (add_media_attr ''setup'' (Some ''active'') ?a), t)"
    using offer by (simp add: kms_sdp_sctp_media_handler_create_answer_def kms_sdp_sctp_media_handler_init_answer_def
        sctp_offer_ok_def sctp_intersect_eq)
  moreover have "unat port < 2 ^ 16" using unsigned_less [of port] by simp
  then have "unat (ucast port :: u64) = unat port" by (intro unat_ucast_down) simp
  then have "strtoull (decimal (unat port)) = ucast port"
    using strtoull_decimal [of "ucast port"] by simp
  ultimately show ?thesis by (simp add: attribute_val_n_def add_bandwidths_def sdp_media_new_def)
qed

lemma sctp_answer_witness:
  "\<exists>offer a. kms_sdp_sctp_media_handler_create_offer 5000 kms_sdp_sctp_media_handler_new [] (Some ''application'') () =
      Some (offer, ()) \<and>
    kms_sdp_sctp_media_handler_create_answer kms_sdp_sctp_media_handler_new [] [] offer () = Inr (Some a, ()) \<and>
    sctp_attrs a = [mk_attr ''sctp-port'' (decimal 5000)]"
proof -
  obtain offer where offer: "kms_sdp_sctp_media_handler_create_offer 5000 kms_sdp_sctp_media_handler_new []
      (Some ''application'') () = Some (offer, ())"
    by (auto simp: kms_sdp_sctp_media_handler_create_offer_def kms_sdp_sctp_media_handler_init_offer_def
        kms_sdp_sctp_media_handler_add_offer_attributes_def kms_sdp_media_handler_add_offer_attributes_impl_def)
  obtain a where a: "kms_sdp_sctp_media_handler_create_answer kms_sdp_sctp_media_handler_new [] [] offer () =
      Inr (Some a, ())"
    using sctp_own_offer [OF offer, of kms_sdp_sctp_media_handler_new "()"] by blast
  show ?thesis
    using sctp_answer [OF a] sctp_offer_shape [OF offer] offer a
    by (simp add: mk_attr_def attribute_val_n_def)
qed

end
