(* ===== verification/SdpExts.thy ===== *)
theory SdpExts
  imports SdpRtp GstValue
begin

text \<open>
  Two kinds of extension of the SDP media handlers: the keys of SRTP in \<open>crypto\<close> attributes
  (RFC 4568, \<open>kmssdpsdesext.c\<close>) and the payload types of redundancy and error correction
  (\<open>kmssdpredundantext.c\<close>, \<open>kmssdpulpfecext.c\<close>). What the users of the signals answer is an
  argument. A key is the structure its GValue holds; \<open>None\<close> is a GValue that holds none.
\<close>

section \<open>Keys\<close>

definition crypto_suites :: "string list" where
  "crypto_suites = [''AES_CM_128_HMAC_SHA1_32'', ''AES_CM_128_HMAC_SHA1_80'',
     ''AES_256_CM_HMAC_SHA1_32'', ''AES_256_CM_HMAC_SHA1_80'']"

text \<open>The bound of the comparison includes the number of suites. A large value is not below it.\<close>

definition srtp_crypto_suite_to_str :: "u32 \<Rightarrow> c_fault + string option" where
  "srtp_crypto_suite_to_str crypto =
     (if unat crypto \<le> length crypto_suites
      then if unat crypto < length crypto_suites then Inr (Some (crypto_suites ! unat crypto)) else Inl Out_of_bounds
      else Inr None)"

fun suite_loop :: "string list \<Rightarrow> string \<Rightarrow> u32 \<Rightarrow> u32 option" where
  "suite_loop [] str i = None"
| "suite_loop (s # ss) str i = (if str = s then Some i else suite_loop ss str (i + 1))"

definition srtp_crypto_suite_from_str :: "string \<Rightarrow> u32 option" where
  "srtp_crypto_suite_from_str str = suite_loop crypto_suites str 0"

definition MAX_CRYPTO_TAG :: u32 where
  "MAX_CRYPTO_TAG = 999999999"

definition kms_sdp_sdes_ext_create_key_detailed ::
  "u32 \<Rightarrow> string option \<Rightarrow> u32 \<Rightarrow> string option \<Rightarrow> u32 option \<Rightarrow> u32 option \<Rightarrow> gst_structure option" where
  "kms_sdp_sdes_ext_create_key_detailed tag key crypto lifetime mki len =
     (if \<not> tag \<le> MAX_CRYPTO_TAG then None
      else case key of
          None \<Rightarrow> None
        | Some k \<Rightarrow>
            (if mki \<noteq> None \<and> len = None \<or> mki = None \<and> len \<noteq> None then None
             else Some (let
                 s0 = [''tag'' \<mapsto> GUint tag, ''key'' \<mapsto> GString k, ''crypto'' \<mapsto> GUint crypto];
                 s1 = (case lifetime of None \<Rightarrow> s0 | Some l \<Rightarrow> s0(''lifetime'' \<mapsto> GString l)) in
               case (mki, len) of (Some m, Some l) \<Rightarrow> s1(''mki'' \<mapsto> GUint m, ''length'' \<mapsto> GUint l) | _ \<Rightarrow> s1)))"

text \<open>
  One parameter of a key: \<open>None\<close> if it is expected and missing or has another type,
  \<open>Some None\<close> if it is optional and missing.
\<close>

definition is_expected_param :: "string \<Rightarrow> bool" where
  "is_expected_param param \<longleftrightarrow> param = ''tag'' \<or> param = ''key'' \<or> param = ''crypto''"

definition get_parameter :: "(gvalue \<Rightarrow> 'a option) \<Rightarrow> gst_structure \<Rightarrow> string \<Rightarrow> 'a option option" where
  "get_parameter typed str field_name = (case str field_name of
     None \<Rightarrow> (if is_expected_param field_name then None else Some None)
   | Some val \<Rightarrow> map_option Some (typed val))"

fun uint_value :: "gvalue \<Rightarrow> u32 option" where
  "uint_value (GUint x) = Some x" | "uint_value _ = None"

fun string_value :: "gvalue \<Rightarrow> string option" where
  "string_value (GString x) = Some x" | "string_value _ = None"

text \<open>The lists of parameters the extension asks for, in their order.\<close>

definition key_tag :: "gst_structure option \<Rightarrow> u32 option" where
  "key_tag key = Option.bind key (\<lambda>str. Option.bind (get_parameter uint_value str ''tag'') id)"

definition key_tag_crypto :: "gst_structure option \<Rightarrow> (u32 \<times> u32) option" where
  "key_tag_crypto key = Option.bind key (\<lambda>str.
     Option.bind (Option.bind (get_parameter uint_value str ''tag'') id) (\<lambda>tag.
     Option.bind (Option.bind (get_parameter uint_value str ''crypto'') id) (\<lambda>crypto. Some (tag, crypto))))"

record sdes_key =
  sk_tag :: u32
  sk_key :: string
  sk_crypto :: u32
  sk_lifetime :: "string option"
  sk_mki :: "u32 option"
  sk_len :: "u32 option"

definition key_parameters :: "gst_structure option \<Rightarrow> sdes_key option" where
  "key_parameters key = Option.bind key (\<lambda>str.
     Option.bind (Option.bind (get_parameter uint_value str ''tag'') id) (\<lambda>tag.
     Option.bind (Option.bind (get_parameter string_value str ''key'') id) (\<lambda>k.
     Option.bind (Option.bind (get_parameter uint_value str ''crypto'') id) (\<lambda>crypto.
     Option.bind (get_parameter string_value str ''lifetime'') (\<lambda>lifetime.
     Option.bind (get_parameter uint_value str ''mki'') (\<lambda>mki.
     Option.bind (get_parameter uint_value str ''length'') (\<lambda>len.
       Some \<lparr>sk_tag = tag, sk_key = k, sk_crypto = crypto, sk_lifetime = lifetime, sk_mki = mki, sk_len = len\<rparr>)))))))"

fun get_key_by_tag :: "gst_structure list \<Rightarrow> u32 \<Rightarrow> gst_structure option" where
  "get_key_by_tag [] tag = None"
| "get_key_by_tag (key # keys) tag =
     (if key_tag (Some key) = Some tag then Some key else get_key_by_tag keys tag)"

definition selected_valid_key :: "gst_structure list \<Rightarrow> gst_structure option \<Rightarrow> bool" where
  "selected_valid_key keys key = (case key_tag_crypto key of
     None \<Rightarrow> False
   | Some (tag1, c1) \<Rightarrow> (case get_key_by_tag keys tag1 of
        None \<Rightarrow> False
      | Some offered \<Rightarrow> (case key_tag_crypto (Some offered) of
           None \<Rightarrow> False
         | Some (tag2, c2) \<Rightarrow> tag1 = tag2 \<and> c1 = c2)))"

section \<open>Writing a crypto attribute\<close>

definition crypto_value :: "u32 \<Rightarrow> string \<Rightarrow> string \<Rightarrow> string option \<Rightarrow> (u32 \<times> u32) option \<Rightarrow> string" where
  "crypto_value tag crypto_str key lifetime mki_len =
     decimal (unat tag) @ '' '' @ crypto_str @ '' inline:'' @ key @
     (case lifetime of None \<Rightarrow> '''' | Some l \<Rightarrow> ''|'' @ l) @
     (case mki_len of None \<Rightarrow> '''' | Some (mki, len) \<Rightarrow> ''|'' @ decimal (unat mki) @ '':'' @ decimal (unat len))"

text \<open>\<open>Inr None\<close> is FALSE.\<close>

definition kms_sdp_sdes_ext_add_crypto_attr ::
  "sdp_media \<Rightarrow> u32 \<Rightarrow> string \<Rightarrow> u32 \<Rightarrow> string option \<Rightarrow> u32 option \<Rightarrow> u32 option \<Rightarrow> c_fault + sdp_media option" where
  "kms_sdp_sdes_ext_add_crypto_attr media tag key crypto lifetime mki len =
     bind_result (srtp_crypto_suite_to_str crypto) (\<lambda>crypto_str. case crypto_str of
       None \<Rightarrow> Inr None
     | Some c \<Rightarrow> Inr (Some (add_media_attr ''crypto''
         (Some (crypto_value tag c key lifetime (case (mki, len) of (Some m, Some l) \<Rightarrow> Some (m, l) | _ \<Rightarrow> None))) media)))"

text \<open>\<open>gst_structure_get\<close> of the three needed fields, of a string, and of both optional numbers.\<close>

fun gst_structure_get_string :: "gst_structure \<Rightarrow> string \<Rightarrow> string option" where
  "gst_structure_get_string s field = (case s field of Some (GString x) \<Rightarrow> Some x | _ \<Rightarrow> None)"

fun kms_sdp_sdes_ext_add_offer_crypto_attrs ::
  "sdp_media \<Rightarrow> gst_structure option list \<Rightarrow> c_fault + bool \<times> sdp_media" where
  "kms_sdp_sdes_ext_add_offer_crypto_attrs offer [] = Inr (True, offer)"
| "kms_sdp_sdes_ext_add_offer_crypto_attrs offer (val # keys) = (case val of
     None \<Rightarrow> Inr (False, offer)
   | Some str \<Rightarrow> (case (gst_structure_get_uint str ''tag'', gst_structure_get_string str ''key'',
         gst_structure_get_uint str ''crypto'') of
        (Some tag, Some key, Some crypto) \<Rightarrow>
          (let mki = gst_structure_get_uint str ''mki''; len = gst_structure_get_uint str ''length'' in
           bind_result (kms_sdp_sdes_ext_add_crypto_attr offer tag key crypto
               (gst_structure_get_string str ''lifetime'') (if len = None then None else mki) (if mki = None then None else len))
             (\<lambda>r. case r of None \<Rightarrow> Inr (False, offer)
                | Some offer' \<Rightarrow> kms_sdp_sdes_ext_add_offer_crypto_attrs offer' keys))
      | _ \<Rightarrow> Inr (False, offer)))"

definition kms_sdp_sdes_ext_add_offer_attributes ::
  "gst_structure option list option \<Rightarrow> sdp_media \<Rightarrow> c_fault + bool \<times> sdp_media" where
  "kms_sdp_sdes_ext_add_offer_attributes on_offer_keys offer = (case on_offer_keys of
     None \<Rightarrow> Inr (True, offer)
   | Some keys \<Rightarrow> kms_sdp_sdes_ext_add_offer_crypto_attrs offer keys)"

section \<open>Reading a crypto attribute\<close>

text \<open>
  The numbers of the optional parameters are both read from the key itself. \<open>- 1\<close> stays where
  there are none.
\<close>

definition kms_sdp_sdes_ext_extract_key_params :: "string \<Rightarrow> (string \<times> string option \<times> int \<times> int) option" where
  "kms_sdp_sdes_ext_extract_key_params key_params = (case strsplit (CHR ''|'') key_params of
     [] \<Rightarrow> None
   | [key] \<Rightarrow> Some (key, None, - 1, - 1)
   | key # p1 # rest \<Rightarrow>
       (if CHR '':'' \<in> set p1 then Some (key, None, strtol key, strtol key)
        else (case rest of
            [] \<Rightarrow> Some (key, Some p1, - 1, - 1)
          | p2 # _ \<Rightarrow> (if CHR '':'' \<in> set p2 then Some (key, Some p1, strtol key, strtol key) else None))))"

text \<open>A 64-bit number that is read through a pointer to a 32-bit one, on a little-endian machine.\<close>

definition low_half :: "int \<Rightarrow> u32 option" where
  "low_half n = (if n \<ge> 0 then Some (word_of_int n) else None)"

definition kms_sdp_sdes_ext_parse_key_attr :: "string \<Rightarrow> gst_structure option" where
  "kms_sdp_sdes_ext_parse_key_attr attr_val = (case strsplit (CHR '' '') attr_val of
     tag # suite # tmp # _ \<Rightarrow>
       (case srtp_crypto_suite_from_str suite of
          None \<Rightarrow> None
        | Some crypto \<Rightarrow>
            (if \<not> str_prefix ''inline:'' tmp then None
             else case kms_sdp_sdes_ext_extract_key_params (drop 7 tmp) of
                 None \<Rightarrow> None
               | Some (key, lifetime, mki, len) \<Rightarrow>
                   kms_sdp_sdes_ext_create_key_detailed (ucast (strtoull tag)) (Some key) crypto lifetime
                     (low_half mki) (low_half len)))
   | _ \<Rightarrow> None)"

section \<open>The answer\<close>

text \<open>The variables are signed: a number from \<open>2 ^ 31\<close> on is taken for a missing one.\<close>

definition non_negative :: "u32 option \<Rightarrow> u32 option" where
  "non_negative w = (case w of None \<Rightarrow> None | Some x \<Rightarrow> if 0 \<le> sint x then Some x else None)"

definition kms_sdp_sdes_ext_add_answer_key :: "sdp_media \<Rightarrow> gst_structure option \<Rightarrow> c_fault + sdp_media option" where
  "kms_sdp_sdes_ext_add_answer_key answer key_val = (case key_parameters key_val of
     None \<Rightarrow> Inr None
   | Some k \<Rightarrow> kms_sdp_sdes_ext_add_crypto_attr answer (sk_tag k) (sk_key k) (sk_crypto k) (sk_lifetime k)
       (non_negative (sk_mki k)) (non_negative (sk_len k)))"

definition offered_keys :: "sdp_media \<Rightarrow> gst_structure list" where
  "offered_keys offer = List.map_filter kms_sdp_sdes_ext_parse_key_attr (seen_vals (sm_attrs offer) ''crypto'')"

definition kms_sdp_sdes_ext_add_answer_attributes ::
  "(gst_structure list \<Rightarrow> 's \<Rightarrow> bool \<times> gst_structure option \<times> 's) \<Rightarrow> sdp_media \<Rightarrow> sdp_media \<Rightarrow> 's \<Rightarrow>
     c_fault + bool \<times> sdp_media \<times> 's" where
  "kms_sdp_sdes_ext_add_answer_attributes on_answer_keys offer answer s =
     (if attribute_val (sm_attrs answer) ''keymgt'' \<noteq> None then Inr (True, answer, s)
      else if sk_type (sm_key answer) \<noteq> None then Inr (True, answer, s)
      else let keys = offered_keys offer in
        if keys = [] then Inr (True, answer, s)
        else let (supported, key, s') = on_answer_keys keys s in
          if \<not> supported then Inr (True, answer\<lparr>sm_port := 0, sm_num_ports := 1\<rparr>, s')
          else if \<not> selected_valid_key keys key then Inr (True, answer\<lparr>sm_port := 0, sm_num_ports := 1\<rparr>, s')
          else bind_result (kms_sdp_sdes_ext_add_answer_key answer key)
            (\<lambda>r. Inr (case r of None \<Rightarrow> (False, answer, s') | Some a \<Rightarrow> (True, a, s'))))"

definition kms_sdp_sdes_ext_can_insert_attribute :: "sdp_attr \<Rightarrow> sdp_media \<Rightarrow> bool" where
  "kms_sdp_sdes_ext_can_insert_attribute attr answer = False"

text \<open>The key the signal is emitted with, if any.\<close>

definition kms_sdp_sdes_ext_process_answer_attributes :: "sdp_media \<Rightarrow> gst_structure option" where
  "kms_sdp_sdes_ext_process_answer_attributes answer =
     Option.bind (attribute_val (sm_attrs answer) ''crypto'') kms_sdp_sdes_ext_parse_key_attr"

section \<open>Redundancy and error correction\<close>

definition signed_decimal :: "int \<Rightarrow> string" where
  "signed_decimal i = (if i < 0 then ''-'' @ decimal (nat (- i)) else decimal (nat i))"

definition kms_sdp_redundant_ext_add_redundant_attrs :: "sdp_media \<Rightarrow> int \<Rightarrow> bool \<times> sdp_media" where
  "kms_sdp_redundant_ext_add_redundant_attrs media pt =
     (if sm_fmts media = [] then (True, media)
      else if sdp_utils_is_pt_in_fmts media pt then (False, media)
      else if sdp_utils_get_attr_map_value media ''rtpmap'' (Some (signed_decimal pt)) \<noteq> None then (False, media)
      else (True, media\<lparr>sm_fmts := sm_fmts media @ [signed_decimal pt]\<rparr>))"

text \<open>\<open>None\<close>: the search in the offer does not return. \<open>managed\<close> is the answer to the signal.\<close>

definition kms_sdp_redundant_ext_add_answer_attributes ::
  "(string \<Rightarrow> string \<Rightarrow> bool) \<Rightarrow> (int \<Rightarrow> int \<Rightarrow> bool) \<Rightarrow> sdp_media \<Rightarrow> sdp_media \<Rightarrow> (bool \<times> sdp_media) option" where
  "kms_sdp_redundant_ext_add_answer_attributes match_string managed offer answer =
     map_option (\<lambda>r. case r of
         None \<Rightarrow> (True, answer)
       | Some (pt, clock_rate) \<Rightarrow>
           (if \<not> managed pt clock_rate then (True, answer)
            else kms_sdp_redundant_ext_add_redundant_attrs answer pt))
       (sdp_utils_get_data_from_rtpmap_codec match_string offer ''red'')"

definition kms_sdp_ulp_fec_ext_add_ulp_fec_attrs :: "sdp_media \<Rightarrow> int \<Rightarrow> bool \<times> sdp_media" where
  "kms_sdp_ulp_fec_ext_add_ulp_fec_attrs media pt =
     (if sm_fmts media = [] then (True, media)
      else if sdp_utils_is_pt_in_fmts media pt then (False, media)
      else if sdp_utils_get_attr_map_value media ''rtpmap'' (Some (signed_decimal pt)) \<noteq> None then (False, media)
      else (True, media\<lparr>sm_fmts := sm_fmts media @ [signed_decimal pt]\<rparr>))"

definition kms_sdp_ulp_fec_ext_add_answer_attributes ::
  "(string \<Rightarrow> string \<Rightarrow> bool) \<Rightarrow> (int \<Rightarrow> int \<Rightarrow> bool) \<Rightarrow> sdp_media \<Rightarrow> sdp_media \<Rightarrow> (bool \<times> sdp_media) option" where
  "kms_sdp_ulp_fec_ext_add_answer_attributes match_string managed offer answer =
     map_option (\<lambda>r. case r of
         None \<Rightarrow> (True, answer)
       | Some (pt, clock_rate) \<Rightarrow>
           (if \<not> managed pt clock_rate then (True, answer)
            else kms_sdp_ulp_fec_ext_add_ulp_fec_attrs answer pt))
       (sdp_utils_get_data_from_rtpmap_codec match_string offer ''ulpfec'')"

section \<open>Keys that are written and read back\<close>

text \<open>The words a key consists of, when it has no MKI: without the separators of the attribute.\<close>

definition plain_key :: "sdes_key \<Rightarrow> bool" where
  "plain_key k \<longleftrightarrow> sk_mki k = None \<and> sk_len k = None \<and> sk_tag k \<le> MAX_CRYPTO_TAG \<and>
     unat (sk_crypto k) < length crypto_suites \<and> sk_key k \<noteq> [] \<and>
     CHR '' '' \<notin> set (sk_key k) \<and> CHR ''|'' \<notin> set (sk_key k) \<and>
     (case sk_lifetime k of None \<Rightarrow> True
      | Some l \<Rightarrow> CHR '' '' \<notin> set l \<and> CHR ''|'' \<notin> set l \<and> CHR '':'' \<notin> set l)"

definition key_structure :: "sdes_key \<Rightarrow> gst_structure" where
  "key_structure k = the (kms_sdp_sdes_ext_create_key_detailed (sk_tag k) (Some (sk_key k)) (sk_crypto k)
     (sk_lifetime k) (sk_mki k) (sk_len k))"

lemma key_structure_parameters: "plain_key k \<Longrightarrow> key_parameters (Some (key_structure k)) = Some k"
  by (cases k) (auto simp: key_structure_def kms_sdp_sdes_ext_create_key_detailed_def plain_key_def
      key_parameters_def get_parameter_def is_expected_param_def split: option.splits)

lemma crypto_suite_cases:
  assumes "unat (c :: u32) < length crypto_suites"
  shows "c = 0 \<or> c = 1 \<or> c = 2 \<or> c = 3"
  using assms by (auto simp: crypto_suites_def word_unat_eq_iff)

lemma suite_roundtrip:
  assumes "unat c < length crypto_suites"
  shows "srtp_crypto_suite_to_str c = Inr (Some (crypto_suites ! unat c))"
    and "srtp_crypto_suite_from_str (crypto_suites ! unat c) = Some c"
    and "CHR '' '' \<notin> set (crypto_suites ! unat c)"
  using crypto_suite_cases [OF assms]
  by (auto simp: srtp_crypto_suite_to_str_def srtp_crypto_suite_from_str_def crypto_suites_def)

lemma suite_from_str: "srtp_crypto_suite_from_str s = Some c \<Longrightarrow> unat c < length crypto_suites"
  by (auto simp: srtp_crypto_suite_from_str_def crypto_suites_def split: if_splits)

lemma no_space_digits: "list_all is_digit s \<Longrightarrow> CHR '' '' \<notin> set s"
  by (auto simp: list_all_iff is_digit_def char_code_def)

lemma crypto_words:
  assumes "CHR '' '' \<notin> set suite" and "CHR '' '' \<notin> set params"
  shows "strsplit (CHR '' '') (decimal n @ '' '' @ suite @ '' inline:'' @ params) = [decimal n, suite, ''inline:'' @ params]"
proof -
  have "split_at (CHR '' '') (''inline:'' @ params) = [''inline:'' @ params]"
    using assms(2) by (intro split_at_none) simp
  then have "split_at (CHR '' '') (suite @ CHR '' '' # ''inline:'' @ params) = [suite, ''inline:'' @ params]"
    using split_at_join [OF assms(1)] by metis
  then show ?thesis
    using split_at_join [of "CHR '' ''" "decimal n"] no_space_digits [OF decimal_digits]
    by (simp add: strsplit_def del: split_at.simps)
qed

text \<open>What the parser makes of a written attribute, up to the parameters of the key.\<close>

lemma parse_words:
  assumes "unat crypto < length crypto_suites" and "CHR '' '' \<notin> set params"
  shows "kms_sdp_sdes_ext_parse_key_attr
      (decimal (unat (tag :: u64)) @ '' '' @ crypto_suites ! unat crypto @ '' inline:'' @ params) =
    (case kms_sdp_sdes_ext_extract_key_params params of None \<Rightarrow> None
     | Some (key, lifetime, mki, len) \<Rightarrow>
         kms_sdp_sdes_ext_create_key_detailed (ucast tag) (Some key) crypto lifetime (low_half mki) (low_half len))"
  using crypto_words [OF suite_roundtrip(3) [OF assms(1)] assms(2), of "unat tag"] suite_roundtrip(2) [OF assms(1)]
  by (simp add: kms_sdp_sdes_ext_parse_key_attr_def str_prefix_def strtoull_decimal split: option.split)

lemma unat_tag: "unat (ucast tag :: u64) = unat (tag :: u32)" "ucast (ucast tag :: u64) = tag"
proof -
  have "unat tag < 2 ^ 32" using unsigned_less [of tag] by simp
  then have "unat (ucast (ucast tag :: u64) :: u32) = unat tag"
    using unat_ucast_down [of "ucast tag :: u64", where 'b = 32] by simp
  then show "ucast (ucast tag :: u64) = tag" by (metis word_unat_eq_iff)
qed simp

lemma split_params:
  assumes "CHR ''|'' \<notin> set key" and "CHR ''|'' \<notin> set l" and "key \<noteq> []"
  shows "strsplit (CHR ''|'') key = [key]" and "strsplit (CHR ''|'') (key @ CHR ''|'' # l) = [key, l]"
    and "strsplit (CHR ''|'') (key @ CHR ''|'' # l @ CHR ''|'' # t) = key # l # split_at (CHR ''|'') t"
  using assms split_at_none [OF assms(1)] split_at_none [OF assms(2)] split_at_join [OF assms(1)] split_at_join [OF assms(2)]
  by (simp_all add: strsplit_def)

lemma keys_parse_written:
  assumes "plain_key k"
  shows "kms_sdp_sdes_ext_parse_key_attr
      (crypto_value (sk_tag k) (crypto_suites ! unat (sk_crypto k)) (sk_key k) (sk_lifetime k) None) =
    Some (key_structure k)"
proof -
  note k = assms [unfolded plain_key_def]
  let ?params = "sk_key k @ (case sk_lifetime k of None \<Rightarrow> '''' | Some l \<Rightarrow> ''|'' @ l)"
  have "CHR '' '' \<notin> set ?params" using k by (auto split: option.splits)
  then have p: "kms_sdp_sdes_ext_parse_key_attr
      (crypto_value (sk_tag k) (crypto_suites ! unat (sk_crypto k)) (sk_key k) (sk_lifetime k) None) =
    (case kms_sdp_sdes_ext_extract_key_params ?params of None \<Rightarrow> None
     | Some (key, lifetime, mki, len) \<Rightarrow> kms_sdp_sdes_ext_create_key_detailed (sk_tag k) (Some key)
         (sk_crypto k) lifetime (low_half mki) (low_half len))"
    using parse_words [of "sk_crypto k" ?params "ucast (sk_tag k)", unfolded unat_tag] k by (simp add: crypto_value_def)
  have "kms_sdp_sdes_ext_extract_key_params ?params = Some (sk_key k, sk_lifetime k, - 1, - 1)"
    using k by (auto simp: kms_sdp_sdes_ext_extract_key_params_def split_params split: option.splits)
  then show ?thesis
    using p k by (auto simp: low_half_def key_structure_def kms_sdp_sdes_ext_create_key_detailed_def)
qed

section \<open>The keys of an offer and of its answer\<close>

lemma seen_vals_add:
  assumes "\<forall>a \<in> set (sm_attrs m). sa_value a \<noteq> None"
  shows "seen_vals (sm_attrs (add_media_attr k (Some v) m)) k = seen_vals (sm_attrs m) k @ [v]"
proof -
  have "\<forall>x \<in> set (attr_vals (sm_attrs m) k). x \<noteq> None" using assms by (auto simp: attr_vals_def)
  then show ?thesis
    by (simp add: seen_vals_def attr_vals_def takeWhile_append takeWhile_eq_all_conv [THEN iffD2])
qed

lemma offered_keys_add:
  assumes "\<forall>a \<in> set (sm_attrs m). sa_value a \<noteq> None" and "kms_sdp_sdes_ext_parse_key_attr v = Some st"
  shows "offered_keys (add_media_attr ''crypto'' (Some v) m) = offered_keys m @ [st]"
  using assms(2) seen_vals_add [OF assms(1)] by (simp add: offered_keys_def List.map_filter_def)

text \<open>An answerer reads exactly the keys the offerer put into its offer.\<close>

lemma offered_keys_read:
  assumes "\<forall>a \<in> set (sm_attrs offer). sa_value a \<noteq> None" and "list_all plain_key ks"
  shows "\<exists>offer'. kms_sdp_sdes_ext_add_offer_crypto_attrs offer (map (\<lambda>k. Some (key_structure k)) ks) = Inr (True, offer') \<and>
    offered_keys offer' = offered_keys offer @ map key_structure ks"
  using assms
proof (induction ks arbitrary: offer)
  case (Cons k ks)
  then have k: "plain_key k" by simp
  let ?v = "crypto_value (sk_tag k) (crypto_suites ! unat (sk_crypto k)) (sk_key k) (sk_lifetime k) None"
  let ?o = "add_media_attr ''crypto'' (Some ?v) offer"
  have "unat (sk_crypto k) < length crypto_suites" using k by (simp add: plain_key_def)
  then have "kms_sdp_sdes_ext_add_crypto_attr offer (sk_tag k) (sk_key k) (sk_crypto k) (sk_lifetime k) None None =
      Inr (Some ?o)"
    by (simp add: kms_sdp_sdes_ext_add_crypto_attr_def suite_roundtrip(1))
  moreover have "key_structure k ''tag'' = Some (GUint (sk_tag k))" "key_structure k ''key'' = Some (GString (sk_key k))"
    "key_structure k ''crypto'' = Some (GUint (sk_crypto k))" "key_structure k ''mki'' = None"
    "key_structure k ''lifetime'' = map_option GString (sk_lifetime k)"
    using k by (auto simp: key_structure_def kms_sdp_sdes_ext_create_key_detailed_def plain_key_def split: option.splits)
  ultimately have "kms_sdp_sdes_ext_add_offer_crypto_attrs offer (map (\<lambda>k. Some (key_structure k)) (k # ks)) =
      kms_sdp_sdes_ext_add_offer_crypto_attrs ?o (map (\<lambda>k. Some (key_structure k)) ks)"
    by (cases "sk_lifetime k") (simp_all add: Let_def)
  moreover have "\<forall>a \<in> set (sm_attrs ?o). sa_value a \<noteq> None" using Cons.prems(1) by simp
  ultimately show ?case
    using Cons.IH [of ?o] Cons.prems(2) offered_keys_add [OF Cons.prems(1) keys_parse_written [OF k]]
    by (simp del: kms_sdp_sdes_ext_add_offer_crypto_attrs.simps)
qed simp

lemma get_key_by_tag_in:
  "get_key_by_tag keys tag = Some key \<Longrightarrow> key \<in> set keys \<and> key_tag (Some key) = Some tag"
  by (induction keys) (auto split: if_splits)

lemma key_tag_crypto_of:
  "key_parameters key = Some k \<Longrightarrow> key_tag_crypto key = Some (sk_tag k, sk_crypto k)"
  by (auto simp: key_parameters_def key_tag_crypto_def bind_eq_Some_conv)

lemma parsed_key:
  assumes "kms_sdp_sdes_ext_parse_key_attr v = Some st"
  shows "\<exists>tag c. key_tag_crypto (Some st) = Some (tag, c) \<and> tag \<le> MAX_CRYPTO_TAG \<and> unat c < length crypto_suites"
proof -
  obtain tag key c lifetime mki len where c: "unat c < length crypto_suites"
    and st: "kms_sdp_sdes_ext_create_key_detailed tag (Some key) c lifetime mki len = Some st"
    using assms
    by (auto simp: kms_sdp_sdes_ext_parse_key_attr_def intro: that [OF suite_from_str]
        split: list.splits option.splits if_splits)
  then have "key_tag_crypto (Some st) = Some (tag, c) \<and> tag \<le> MAX_CRYPTO_TAG"
    by (auto simp: kms_sdp_sdes_ext_create_key_detailed_def key_tag_crypto_def get_parameter_def Let_def
        split: if_splits option.splits)
  then show ?thesis using c by blast
qed

lemma offered_keys_valid:
  assumes "key \<in> set (offered_keys offer)" and "key_tag_crypto (Some key) = Some (tag, c)"
  shows "tag \<le> MAX_CRYPTO_TAG" and "unat c < length crypto_suites"
proof -
  obtain v where "kms_sdp_sdes_ext_parse_key_attr v = Some key"
    using assms(1) by (auto simp: offered_keys_def List.map_filter_def)
  then show "tag \<le> MAX_CRYPTO_TAG" and "unat c < length crypto_suites"
    using parsed_key assms(2) by fastforce+
qed


text \<open>
  Where the reader goes wrong. The MKI and its length are read from the key, whatever they
  were; a tag is cut to 32 bits before it is checked; and an offer none of whose keys can be
  read is answered as if it had no keys, where the comment in the code has it rejected.
\<close>

lemma mki_read_from_key:
  assumes "plain_key k" and "sk_lifetime k = None"
  shows "kms_sdp_sdes_ext_parse_key_attr
      (crypto_value (sk_tag k) (crypto_suites ! unat (sk_crypto k)) (sk_key k) None (Some (mki, len))) =
    kms_sdp_sdes_ext_create_key_detailed (sk_tag k) (Some (sk_key k)) (sk_crypto k) None
      (low_half (strtol (sk_key k))) (low_half (strtol (sk_key k)))"
proof -
  note k = assms(1) [unfolded plain_key_def]
  let ?numbers = "decimal (unat mki) @ '':'' @ decimal (unat len)"
  have no: "c \<notin> set (decimal n)" if "\<not> is_digit c" for n c
    using decimal_digits [of n] that by (auto simp: list_all_iff)
  have "\<not> is_digit (CHR '' '')" "\<not> is_digit (CHR ''|'')" by (simp_all add: is_digit_def char_code_def)
  then have n: "CHR '' '' \<notin> set ?numbers" "CHR ''|'' \<notin> set ?numbers" using no by auto
  have "kms_sdp_sdes_ext_extract_key_params (sk_key k @ CHR ''|'' # ?numbers) =
      Some (sk_key k, None, strtol (sk_key k), strtol (sk_key k))"
    using split_params(2) [of "sk_key k" ?numbers] k n
    by (simp add: kms_sdp_sdes_ext_extract_key_params_def)
  moreover have "CHR '' '' \<notin> set (sk_key k @ CHR ''|'' # ?numbers)" using k n by simp
  ultimately show ?thesis
    using parse_words [of "sk_crypto k" "sk_key k @ CHR ''|'' # ?numbers" "ucast (sk_tag k)", unfolded unat_tag] k
    by (simp add: crypto_value_def)
qed

lemma mki_differs: "low_half (strtol ''QUJD'') = Some 0"
  by (simp add: low_half_def strtol_def skip_sign_def is_space_def is_digit_def char_code_def digits_value_def)

lemma unreadable_keys_ignored:
  "offered_keys offer = [] \<Longrightarrow>
    kms_sdp_sdes_ext_add_answer_attributes on_answer offer answer s = Inr (True, answer, s)"
  by (simp add: kms_sdp_sdes_ext_add_answer_attributes_def)

lemma suite_out_of_bounds: "kms_sdp_sdes_ext_add_crypto_attr media tag key 4 lifetime mki len = Inl Out_of_bounds"
  by (simp add: kms_sdp_sdes_ext_add_crypto_attr_def srtp_crypto_suite_to_str_def crypto_suites_def)

text \<open>An answer gets at most one new format, a payload type that it did not have.\<close>

lemma fec_same: "kms_sdp_ulp_fec_ext_add_ulp_fec_attrs = kms_sdp_redundant_ext_add_redundant_attrs"
  by (intro ext) (simp add: kms_sdp_ulp_fec_ext_add_ulp_fec_attrs_def kms_sdp_redundant_ext_add_redundant_attrs_def)

lemma redundant_format:
  assumes "kms_sdp_redundant_ext_add_redundant_attrs media pt = (ok, media')"
  shows "media' = media \<or> ok \<and> \<not> sdp_utils_is_pt_in_fmts media pt \<and>
    media' = media\<lparr>sm_fmts := sm_fmts media @ [signed_decimal pt]\<rparr>"
  using assms by (auto simp: kms_sdp_redundant_ext_add_redundant_attrs_def split: if_splits)

definition one_key :: sdes_key where
  "one_key = \<lparr>sk_tag = 1, sk_key = ''QUJD'', sk_crypto = 1, sk_lifetime = None, sk_mki = None, sk_len = None\<rparr>"


end
