(* ===== verification/IceCandidate.thy ===== *)
theory IceCandidate
  imports GstSdp
begin

text \<open>
  ICE candidates (\<open>kmsicecandidate.c\<close>): the attribute of RFC 5245 is read with a regular
  expression, whose groups become the fields of the candidate. The expression is written out as
  a matcher: a field ends where its characters end, because a blank follows it; the optional
  groups at the end are tried in order, and left out when what follows them does not match.
  Strings are bytes; GLib matches them as UTF-8.
\<close>

section \<open>The regular expression\<close>

definition is_alpha :: "char \<Rightarrow> bool" where
  "is_alpha c \<longleftrightarrow> (65 \<le> char_code c \<and> char_code c \<le> 90) \<or> (97 \<le> char_code c \<and> char_code c \<le> 122)"

definition ice_char :: "char \<Rightarrow> bool" where
  "ice_char c \<longleftrightarrow> is_alpha c \<or> is_digit c \<or> c = CHR ''+'' \<or> c = CHR ''/'' \<or> c = CHR ''-''"

definition addr_char :: "char \<Rightarrow> bool" where
  "addr_char c \<longleftrightarrow> is_alpha c \<or> is_digit c \<or> c = CHR ''.'' \<or> c = CHR '':'' \<or> c = CHR ''-''"

definition raddr_char :: "char \<Rightarrow> bool" where
  "raddr_char c \<longleftrightarrow> is_alpha c \<or> is_digit c \<or> c = CHR ''.'' \<or> c = CHR '':''"

text \<open>Between one and \<open>n\<close> of the characters, where none of them may follow.\<close>

definition match_field :: "(char \<Rightarrow> bool) \<Rightarrow> nat \<Rightarrow> string \<Rightarrow> (string \<times> string) option" where
  "match_field p n s = (let w = takeWhile p s in
     if w = [] \<or> n < length w then None else Some (w, drop (length w) s))"

definition match_lit :: "string \<Rightarrow> string \<Rightarrow> string option" where
  "match_lit l s = (if str_prefix l s then Some (drop (length l) s) else None)"

fun match_word :: "string list \<Rightarrow> string \<Rightarrow> (string \<times> string) option" where
  "match_word [] s = None"
| "match_word (w # ws) s = (if str_prefix w s then Some (w, drop (length w) s) else match_word ws s)"

text \<open>
  The code points up to \<open>U+00FF\<close> without NUL, CR and LF, in UTF-8; and the ends of a line
  that \<open>$\<close> accepts at the end of the string.
\<close>

fun byte_string :: "string \<Rightarrow> bool" where
  "byte_string [] = True"
| "byte_string (c # cs) =
     (if char_code c < 128 then char_code c \<notin> {0, 10, 13} \<and> byte_string cs
      else char_code c \<in> {194, 195} \<and> (case cs of
          [] \<Rightarrow> False
        | d # ds \<Rightarrow> 128 \<le> char_code d \<and> char_code d < 192 \<and> byte_string ds))"

definition line_ends :: "string list" where
  "line_ends = map (map char_of) [[], [10 :: nat], [13], [13, 10], [11], [12], [194, 133], [226, 128, 168], [226, 128, 169]]"

text \<open>\<open>( B+ B+)*$\<close>: several rounds match nothing that one round does not match too.\<close>

definition extension_body :: "string \<Rightarrow> bool" where
  "extension_body b \<longleftrightarrow> b = [] \<or>
     (byte_string b \<and> hd b = CHR '' '' \<and> CHR '' '' \<in> set (butlast (drop 2 b)))"

definition match_extension :: "string \<Rightarrow> bool" where
  "match_extension s \<longleftrightarrow> list_ex (\<lambda>e. length e \<le> length s \<and> drop (length s - length e) s = e \<and>
     extension_body (take (length s - length e) s)) line_ends"

record tail_groups =
  tg_raddr :: string
  tg_rport :: string
  tg_tcptype :: string

definition match_tcptype :: "string \<Rightarrow> string \<Rightarrow> string \<Rightarrow> tail_groups option" where
  "match_tcptype raddr rport s = (case
       Option.bind (match_lit '' tcptype '' s) (\<lambda>s1.
       Option.bind (match_word [''active'', ''passive'', ''so''] s1) (\<lambda>(tcptype, s2).
         if match_extension s2 then Some \<lparr>tg_raddr = raddr, tg_rport = rport, tg_tcptype = tcptype\<rparr> else None)) of
     Some g \<Rightarrow> Some g
   | None \<Rightarrow> (if match_extension s then Some \<lparr>tg_raddr = raddr, tg_rport = rport, tg_tcptype = ''''\<rparr> else None))"

definition match_rport :: "string \<Rightarrow> string \<Rightarrow> tail_groups option" where
  "match_rport raddr s = (case
       Option.bind (match_lit '' rport '' s) (\<lambda>s1.
       Option.bind (match_field is_digit (length s1) s1) (\<lambda>(rport, s2). match_tcptype raddr rport s2)) of
     Some g \<Rightarrow> Some g | None \<Rightarrow> match_tcptype raddr '''' s)"

definition match_raddr :: "string \<Rightarrow> tail_groups option" where
  "match_raddr s = (case
       Option.bind (match_lit '' raddr '' s) (\<lambda>s1.
       Option.bind (match_field raddr_char (length s1) s1) (\<lambda>(raddr, s2). match_rport raddr s2)) of
     Some g \<Rightarrow> Some g | None \<Rightarrow> match_rport '''' s)"

record candidate_groups =
  cg_foundation :: string
  cg_componentid :: string
  cg_transport :: string
  cg_priority :: string
  cg_addr :: string
  cg_port :: string
  cg_type :: string
  cg_tail :: tail_groups

definition match_candidate :: "string \<Rightarrow> candidate_groups option" where
  "match_candidate s =
     Option.bind (match_lit ''candidate:'' s) (\<lambda>s.
     Option.bind (match_field ice_char 32 s) (\<lambda>(foundation, s).
     Option.bind (match_lit '' '' s) (\<lambda>s.
     Option.bind (match_field is_digit 5 s) (\<lambda>(componentid, s).
     Option.bind (match_lit '' '' s) (\<lambda>s.
     Option.bind (match_word [''udp'', ''UDP'', ''tcp'', ''TCP''] s) (\<lambda>(transport, s).
     Option.bind (match_lit '' '' s) (\<lambda>s.
     Option.bind (match_field is_digit 10 s) (\<lambda>(priority, s).
     Option.bind (match_lit '' '' s) (\<lambda>s.
     Option.bind (match_field addr_char (length s) s) (\<lambda>(addr, s).
     Option.bind (match_lit '' '' s) (\<lambda>s.
     Option.bind (match_field is_digit (length s) s) (\<lambda>(port, s).
     Option.bind (match_lit '' typ '' s) (\<lambda>s.
     Option.bind (match_word [''host'', ''srflx'', ''prflx'', ''relay''] s) (\<lambda>(type, s).
     Option.bind (match_raddr s) (\<lambda>tail.
       Some \<lparr>cg_foundation = foundation, cg_componentid = componentid, cg_transport = transport,
         cg_priority = priority, cg_addr = addr, cg_port = port, cg_type = type, cg_tail = tail\<rparr>)))))))))))))))"

section \<open>A candidate\<close>

datatype ice_component = KMS_ICE_COMPONENT_RTP | KMS_ICE_COMPONENT_RTCP
datatype ice_protocol = KMS_ICE_PROTOCOL_UDP | KMS_ICE_PROTOCOL_TCP
datatype ice_type = TYPE_HOST | TYPE_SRFLX | TYPE_PRFLX | TYPE_RELAY
datatype ice_tcp_type = TCP_TYPE_NONE | TCP_TYPE_ACTIVE | TCP_TYPE_PASSIVE | TCP_TYPE_SO

text \<open>
  \<open>ic_dangling\<close> says that the address and the related address point to memory that was freed.
\<close>

record ice_candidate =
  ic_candidate :: string
  ic_sdp_mid :: "string option"
  ic_sdp_m_line_index :: u8
  ic_foundation :: "string option"
  ic_component :: ice_component
  ic_priority :: u32
  ic_ip :: "string option"
  ic_protocol :: ice_protocol
  ic_port :: u32
  ic_type :: ice_type
  ic_tcp_type :: ice_tcp_type
  ic_related_addr :: "string option"
  ic_related_port :: int
  ic_stream_id :: "string option"
  ic_is_valid :: bool
  ic_dangling :: bool

definition kms_ice_candidate_init :: ice_candidate where
  "kms_ice_candidate_init = \<lparr>ic_candidate = '''', ic_sdp_mid = None, ic_sdp_m_line_index = 0, ic_foundation = None,
     ic_component = KMS_ICE_COMPONENT_RTP, ic_priority = 0, ic_ip = None, ic_protocol = KMS_ICE_PROTOCOL_UDP,
     ic_port = 0, ic_type = TYPE_HOST, ic_tcp_type = TCP_TYPE_NONE, ic_related_addr = None,
     ic_related_port = 0, ic_stream_id = None, ic_is_valid = False, ic_dangling = False\<rparr>"

text \<open>\<open>g_strsplit (s, ip, 2)\<close> and \<open>g_strjoinv\<close>: the first occurrence is replaced.\<close>

fun replace_first :: "string \<Rightarrow> string \<Rightarrow> string \<Rightarrow> string" where
  "replace_first old new [] = []"
| "replace_first old new (c # cs) =
     (if str_prefix old (c # cs) then new @ drop (length old) (c # cs) else c # replace_first old new cs)"

definition replace_address :: "string \<Rightarrow> ice_candidate \<Rightarrow> string \<Rightarrow> ice_candidate" where
  "replace_address ip self ip_str = self\<lparr>ic_candidate := replace_first ip ip_str (ic_candidate self), ic_ip := Some ip_str\<rparr>"

definition kms_ice_candidate_set_address :: "ice_candidate \<Rightarrow> string \<Rightarrow> c_fault + ice_candidate" where
  "kms_ice_candidate_set_address self ip_str = (case ic_ip self of
     None \<Rightarrow> Inl Null_dereference
   | Some ip \<Rightarrow> Inr (replace_address ip self ip_str))"

text \<open>
  The fields are assigned one after the other; \<open>resolve\<close> gives the first address of a name, or
  fails. A component that is neither RTP nor RTCP ends the function after the old address and
  related address were freed.
\<close>

definition protocol_of :: "string \<Rightarrow> ice_protocol" where
  "protocol_of t = (if t = ''TCP'' \<or> t = ''tcp'' then KMS_ICE_PROTOCOL_TCP else KMS_ICE_PROTOCOL_UDP)"

definition type_of_str :: "string \<Rightarrow> ice_type" where
  "type_of_str t = (if t = ''host'' then TYPE_HOST else if t = ''srflx'' then TYPE_SRFLX
     else if t = ''prflx'' then TYPE_PRFLX else TYPE_RELAY)"

definition tcp_type_of :: "string \<Rightarrow> ice_tcp_type" where
  "tcp_type_of t = (if t = ''active'' then TCP_TYPE_ACTIVE else if t = ''passive'' then TCP_TYPE_PASSIVE
     else if t = ''so'' then TCP_TYPE_SO else TCP_TYPE_NONE)"

definition str_suffix_of :: "string \<Rightarrow> string \<Rightarrow> bool" where
  "str_suffix_of e s \<longleftrightarrow> length e \<le> length s \<and> drop (length s - length e) s = e"

definition kms_ice_candidate_update_values ::
  "(string \<Rightarrow> string option) \<Rightarrow> ice_candidate \<Rightarrow> ice_candidate \<times> bool" where
  "kms_ice_candidate_update_values resolve self = (case match_candidate (ic_candidate self) of
     None \<Rightarrow> (self, False)
   | Some g \<Rightarrow>
       (let s1 = self\<lparr>ic_port := ucast (strtoull (cg_port g)), ic_foundation := Some (cg_foundation g),
          ic_priority := ucast (strtoull (cg_priority g))\<rparr> in
        if cg_componentid g \<noteq> ''1'' \<and> cg_componentid g \<noteq> ''2''
        then (s1\<lparr>ic_dangling := ic_ip self \<noteq> None \<or> ic_related_addr self \<noteq> None\<rparr>, False)
        else
          (let t = cg_tail g;
            s2 = s1\<lparr>ic_component := (if cg_componentid g = ''1'' then KMS_ICE_COMPONENT_RTP else KMS_ICE_COMPONENT_RTCP),
              ic_protocol := protocol_of (cg_transport g), ic_type := type_of_str (cg_type g),
              ic_tcp_type := tcp_type_of (tg_tcptype t),
              ic_related_addr := (if tg_raddr t = '''' then None else Some (tg_raddr t)),
              ic_related_port := (if tg_rport t = '''' then - 1 else to_gint (strtol (tg_rport t))),
              ic_ip := Some (cg_addr g), ic_dangling := False\<rparr> in
           if str_suffix_of ''.local'' (cg_addr g)
           then (case resolve (cg_addr g) of
                None \<Rightarrow> (s2, False)
              | Some ip \<Rightarrow> (replace_address (cg_addr g) s2 ip, True))
           else (s2, True))))"

definition kms_ice_candidate_set_candidate :: "(string \<Rightarrow> string option) \<Rightarrow> ice_candidate \<Rightarrow> string \<Rightarrow> ice_candidate" where
  "kms_ice_candidate_set_candidate resolve self str =
     (let (s, ok) = kms_ice_candidate_update_values resolve (self\<lparr>ic_candidate := str\<rparr>) in s\<lparr>ic_is_valid := ok\<rparr>)"

definition kms_ice_candidate_finalize :: "ice_candidate \<Rightarrow> c_fault + unit" where
  "kms_ice_candidate_finalize self = (if ic_dangling self then Inl Use_after_free else Inr ())"

definition kms_ice_candidate_new ::
  "(string \<Rightarrow> string option) \<Rightarrow> string \<Rightarrow> string option \<Rightarrow> u8 \<Rightarrow> string option \<Rightarrow> ice_candidate option" where
  "kms_ice_candidate_new resolve candidate sdp_mid sdp_m_line_index stream_id =
     (let cand = (kms_ice_candidate_set_candidate resolve kms_ice_candidate_init candidate)
          \<lparr>ic_sdp_mid := sdp_mid, ic_sdp_m_line_index := sdp_m_line_index\<rparr> in
      if \<not> ic_is_valid cand then None else Some (cand\<lparr>ic_stream_id := stream_id\<rparr>))"

text \<open>\<open>candidate:\<close> and one more character are skipped, then any colon counts.\<close>

definition kms_ice_candidate_get_ip_version :: "ice_candidate \<Rightarrow> nat" where
  "kms_ice_candidate_get_ip_version self = (if CHR '':'' \<in> set (drop 11 (ic_candidate self)) then 6 else 4)"

definition kms_ice_candidate_get_sdp_line :: "ice_candidate \<Rightarrow> string" where
  "kms_ice_candidate_get_sdp_line self = ''a='' @ ic_candidate self"

section \<open>Candidates that are printed and read back\<close>

definition tail_line :: "tail_groups \<Rightarrow> string" where
  "tail_line t = (if tg_raddr t = '''' then '''' else '' raddr '' @ tg_raddr t) @
     (if tg_rport t = '''' then '''' else '' rport '' @ tg_rport t) @
     (if tg_tcptype t = '''' then '''' else '' tcptype '' @ tg_tcptype t)"

definition candidate_line :: "candidate_groups \<Rightarrow> string" where
  "candidate_line g = ''candidate:'' @ cg_foundation g @ '' '' @ cg_componentid g @ '' '' @ cg_transport g @ '' '' @
     cg_priority g @ '' '' @ cg_addr g @ '' '' @ cg_port g @ '' typ '' @ cg_type g @ tail_line (cg_tail g)"

definition tail_ok :: "tail_groups \<Rightarrow> bool" where
  "tail_ok t \<longleftrightarrow> list_all raddr_char (tg_raddr t) \<and> list_all is_digit (tg_rport t) \<and>
     tg_tcptype t \<in> {'''', ''active'', ''passive'', ''so''}"

definition word_of :: "(char \<Rightarrow> bool) \<Rightarrow> nat \<Rightarrow> string \<Rightarrow> bool" where
  "word_of p n w \<longleftrightarrow> w \<noteq> [] \<and> length w \<le> n \<and> list_all p w"

definition groups_ok :: "candidate_groups \<Rightarrow> bool" where
  "groups_ok g \<longleftrightarrow> word_of ice_char 32 (cg_foundation g) \<and> word_of is_digit 5 (cg_componentid g) \<and>
     cg_transport g \<in> {''udp'', ''UDP'', ''tcp'', ''TCP''} \<and> word_of is_digit 10 (cg_priority g) \<and>
     cg_addr g \<noteq> [] \<and> list_all addr_char (cg_addr g) \<and> cg_port g \<noteq> [] \<and> list_all is_digit (cg_port g) \<and>
     cg_type g \<in> {''host'', ''srflx'', ''prflx'', ''relay''} \<and> tail_ok (cg_tail g)"

text \<open>A blank is in none of the classes.\<close>

lemma blank_ends [simp]: "\<not> ice_char (CHR '' '')" "\<not> is_digit (CHR '' '')" "\<not> addr_char (CHR '' '')" "\<not> raddr_char (CHR '' '')"
  by (simp_all add: ice_char_def addr_char_def raddr_char_def is_alpha_def is_digit_def char_code_def)

lemma match_field_hit:
  assumes "w \<noteq> []" and "length w \<le> n" and "list_all p w" and "\<not> p (CHR '' '')" and "rest = [] \<or> hd rest = CHR '' ''"
  shows "match_field p n (w @ rest) = Some (w, rest)"
proof -
  have "takeWhile p (w @ rest) = w"
    using assms(3-5) by (cases rest) (auto simp: list_all_iff takeWhile_append takeWhile_eq_all_conv [THEN iffD2])
  then show ?thesis using assms(1,2) by (simp add: match_field_def)
qed

lemma match_extension_empty [simp]: "match_extension []"
  by (simp add: match_extension_def line_ends_def extension_body_def)

lemma tcptype_hit:
  assumes "w \<in> {''active'', ''passive'', ''so''}"
  shows "match_tcptype raddr rport ('' tcptype '' @ w) = Some \<lparr>tg_raddr = raddr, tg_rport = rport, tg_tcptype = w\<rparr>"
  using assms by (auto simp: match_tcptype_def match_lit_def str_prefix_def)

lemma tcptype_none: "match_tcptype raddr rport [] = Some \<lparr>tg_raddr = raddr, tg_rport = rport, tg_tcptype = ''''\<rparr>"
  by (simp add: match_tcptype_def match_lit_def str_prefix_def)

definition tcp_part :: "string \<Rightarrow> string" where
  "tcp_part w = (if w = '''' then '''' else '' tcptype '' @ w)"

definition rport_part :: "string \<Rightarrow> string" where
  "rport_part w = (if w = '''' then '''' else '' rport '' @ w)"

lemma tcp_part_match:
  "w \<in> {'''', ''active'', ''passive'', ''so''} \<Longrightarrow>
     match_tcptype raddr rport (tcp_part w) = Some \<lparr>tg_raddr = raddr, tg_rport = rport, tg_tcptype = w\<rparr>"
  using tcptype_hit [of w] tcptype_none by (auto simp: tcp_part_def)

lemma tcp_part_head: "tcp_part w = [] \<or> hd (tcp_part w) = CHR '' ''"
  by (simp add: tcp_part_def)

lemma rport_match:
  assumes "w \<in> {'''', ''active'', ''passive'', ''so''}" and "list_all is_digit p"
  shows "match_rport raddr (rport_part p @ tcp_part w) = Some \<lparr>tg_raddr = raddr, tg_rport = p, tg_tcptype = w\<rparr>"
proof (cases "p = []")
  case True
  have "match_lit '' rport '' (tcp_part w) = None" by (simp add: tcp_part_def match_lit_def str_prefix_def)
  then show ?thesis using True tcp_part_match [OF assms(1)] by (simp add: match_rport_def rport_part_def)
next
  case False
  then have "match_field is_digit (length (p @ tcp_part w)) (p @ tcp_part w) = Some (p, tcp_part w)"
    using assms(2) tcp_part_head by (intro match_field_hit) auto
  moreover have "match_lit '' rport '' (rport_part p @ tcp_part w) = Some (p @ tcp_part w)"
    using False by (simp add: rport_part_def match_lit_def str_prefix_def)
  ultimately show ?thesis using tcp_part_match [OF assms(1)] by (simp add: match_rport_def)
qed

lemma raddr_match:
  assumes "tail_ok t"
  shows "match_raddr (tail_line t) = Some t"
proof -
  let ?rest = "rport_part (tg_rport t) @ tcp_part (tg_tcptype t)"
  have t: "tail_line t = (if tg_raddr t = '''' then '''' else '' raddr '' @ tg_raddr t) @ ?rest"
    by (simp add: tail_line_def rport_part_def tcp_part_def)
  have rest: "match_rport r ?rest = Some \<lparr>tg_raddr = r, tg_rport = tg_rport t, tg_tcptype = tg_tcptype t\<rparr>" for r
    using assms by (intro rport_match) (auto simp: tail_ok_def)
  have head: "?rest = [] \<or> hd ?rest = CHR '' ''" using tcp_part_head by (auto simp: rport_part_def)
  show ?thesis
  proof (cases "tg_raddr t = []")
    case True
    have "match_lit '' raddr '' ?rest = None" by (simp add: tcp_part_def rport_part_def match_lit_def str_prefix_def)
    then show ?thesis using True rest t by (cases t) (simp add: match_raddr_def)
  next
    case False
    then have "match_field raddr_char (length (tg_raddr t @ ?rest)) (tg_raddr t @ ?rest) = Some (tg_raddr t, ?rest)"
      using assms head by (intro match_field_hit) (auto simp: tail_ok_def)
    moreover have "match_lit '' raddr '' (tail_line t) = Some (tg_raddr t @ ?rest)"
      using False t by (simp add: match_lit_def str_prefix_def)
    ultimately show ?thesis using rest by (cases t) (simp add: match_raddr_def)
  qed
qed

lemma match_lit_simps:
  "match_lit [] s = Some s" "match_lit (c # l) (c # s) = match_lit l s"
  by (simp_all add: match_lit_def str_prefix_def)

lemma candidate_match:
  assumes "groups_ok g"
  shows "match_candidate (candidate_line g) = Some g"
proof -
  note g = assms [unfolded groups_ok_def word_of_def]
  have field: "match_field p n (w @ CHR '' '' # rest) = Some (w, CHR '' '' # rest)"
    if "w \<noteq> []" "length w \<le> n" "list_all p w" "\<not> p (CHR '' '')" for p n w rest
    using that by (intro match_field_hit) auto
  have transport: "match_word [''udp'', ''UDP'', ''tcp'', ''TCP''] (cg_transport g @ s) = Some (cg_transport g, s)" for s
    using g by (auto simp: str_prefix_def)
  have type: "match_word [''host'', ''srflx'', ''prflx'', ''relay''] (cg_type g @ s) = Some (cg_type g, s)" for s
    using g by (auto simp: str_prefix_def)
  have "match_candidate (candidate_line g) = Some \<lparr>cg_foundation = cg_foundation g, cg_componentid = cg_componentid g,
      cg_transport = cg_transport g, cg_priority = cg_priority g, cg_addr = cg_addr g, cg_port = cg_port g,
      cg_type = cg_type g, cg_tail = cg_tail g\<rparr>"
    using g raddr_match
    by (simp add: match_candidate_def candidate_line_def match_lit_simps field transport type del: match_word.simps)
  then show ?thesis by simp
qed

text \<open>The attribute of a candidate in the form of RFC 5245 and RFC 6544.\<close>

fun component_str :: "ice_component \<Rightarrow> string" where
  "component_str KMS_ICE_COMPONENT_RTP = ''1''" | "component_str KMS_ICE_COMPONENT_RTCP = ''2''"

fun protocol_str :: "ice_protocol \<Rightarrow> string" where
  "protocol_str KMS_ICE_PROTOCOL_UDP = ''UDP''" | "protocol_str KMS_ICE_PROTOCOL_TCP = ''TCP''"

fun type_str :: "ice_type \<Rightarrow> string" where
  "type_str TYPE_HOST = ''host''" | "type_str TYPE_SRFLX = ''srflx''"
| "type_str TYPE_PRFLX = ''prflx''" | "type_str TYPE_RELAY = ''relay''"

fun tcp_type_str :: "ice_tcp_type \<Rightarrow> string" where
  "tcp_type_str TCP_TYPE_NONE = ''''" | "tcp_type_str TCP_TYPE_ACTIVE = ''active''"
| "tcp_type_str TCP_TYPE_PASSIVE = ''passive''" | "tcp_type_str TCP_TYPE_SO = ''so''"

definition candidate_of :: "ice_candidate \<Rightarrow> candidate_groups" where
  "candidate_of c = \<lparr>cg_foundation = the (ic_foundation c), cg_componentid = component_str (ic_component c),
     cg_transport = protocol_str (ic_protocol c), cg_priority = decimal (unat (ic_priority c)),
     cg_addr = the (ic_ip c), cg_port = decimal (unat (ic_port c)), cg_type = type_str (ic_type c),
     cg_tail = \<lparr>tg_raddr = (case ic_related_addr c of None \<Rightarrow> '''' | Some a \<Rightarrow> a),
       tg_rport = (if ic_related_port c = - 1 then '''' else decimal (nat (ic_related_port c))),
       tg_tcptype = tcp_type_str (ic_tcp_type c)\<rparr>\<rparr>"

definition candidate_ok :: "ice_candidate \<Rightarrow> bool" where
  "candidate_ok c \<longleftrightarrow>
     (case ic_foundation c of None \<Rightarrow> False | Some f \<Rightarrow> word_of ice_char 32 f) \<and>
     (case ic_ip c of None \<Rightarrow> False
      | Some a \<Rightarrow> a \<noteq> [] \<and> list_all addr_char a \<and> \<not> str_suffix_of ''.local'' a) \<and>
     (case ic_related_addr c of None \<Rightarrow> True | Some a \<Rightarrow> a \<noteq> [] \<and> list_all raddr_char a) \<and>
     - 1 \<le> ic_related_port c \<and> ic_related_port c < 2 ^ 31"

lemma length_decimal: "n < 10 ^ Suc k \<Longrightarrow> length (decimal n) \<le> Suc k"
proof (induction k arbitrary: n)
  case (Suc k)
  then show ?case by (subst decimal.simps) (use Suc.IH [of "n div 10"] in auto)
qed (simp add: decimal.simps)

lemma candidate_of_ok:
  assumes "candidate_ok c"
  shows "groups_ok (candidate_of c)"
proof -
  have "unat (ic_priority c) < 2 ^ 32" using unsigned_less [of "ic_priority c"] by simp
  then have "length (decimal (unat (ic_priority c))) \<le> 10" using length_decimal [of _ 9] by simp
  moreover have "list_all is_digit (component_str x) \<and> component_str x \<noteq> [] \<and> length (component_str x) \<le> 5" for x
    by (cases x) (simp_all add: is_digit_def char_code_def)
  moreover have "protocol_str y \<in> {''UDP'', ''TCP''}" for y by (cases y) simp_all
  moreover have "type_str z \<in> {''host'', ''srflx'', ''prflx'', ''relay''}" for z by (cases z) simp_all
  moreover have "tcp_type_str w \<in> {'''', ''active'', ''passive'', ''so''}" for w by (cases w) simp_all
  ultimately show ?thesis
    using assms decimal_digits
    by (auto simp: groups_ok_def candidate_of_def candidate_ok_def tail_ok_def word_of_def split: option.splits)
qed

lemma strs_back:
  "protocol_of (protocol_str p) = p" "type_of_str (type_str t) = t" "tcp_type_of (tcp_type_str u) = u"
  "component_str x = ''1'' \<longleftrightarrow> x = KMS_ICE_COMPONENT_RTP" "component_str x = ''2'' \<longleftrightarrow> x = KMS_ICE_COMPONENT_RTCP"
proof -
  show "protocol_of (protocol_str p) = p" by (cases p) (simp_all add: protocol_of_def)
  show "type_of_str (type_str t) = t" by (cases t) (simp_all add: type_of_str_def)
  show "tcp_type_of (tcp_type_str u) = u" by (cases u) (simp_all add: tcp_type_of_def)
qed (cases x; simp)+

lemma number_back: "ucast (strtoull (decimal (unat (n :: u32)))) = n"
proof -
  have n: "unat n < 2 ^ 32" using unsigned_less [of n] by simp
  have "unat (ucast n :: u64) = unat n" by simp
  then have "strtoull (decimal (unat n)) = ucast n" using strtoull_decimal [of "ucast n"] by metis
  moreover have "unat (ucast (ucast n :: u64) :: u32) = unat n"
    using n unat_ucast_down [of "ucast n :: u64", where 'b = 32] by simp
  ultimately show ?thesis by (metis word_unat_eq_iff)
qed

lemma gint_back: "0 \<le> i \<Longrightarrow> i < 2 ^ 31 \<Longrightarrow> to_gint (strtol (decimal (nat i))) = i"
  using strtol_digits [OF decimal_digits, of "nat i"] by (simp add: decimal_value to_gint_small)

lemma ice_read:
  assumes "candidate_ok c"
  shows "kms_ice_candidate_new resolve (candidate_line (candidate_of c)) (ic_sdp_mid c) (ic_sdp_m_line_index c) (ic_stream_id c) =
    Some (c\<lparr>ic_candidate := candidate_line (candidate_of c), ic_is_valid := True, ic_dangling := False\<rparr>)"
proof -
  note match = candidate_match [OF candidate_of_ok [OF assms]]
  have comp: "cg_componentid (candidate_of c) = ''1'' \<or> cg_componentid (candidate_of c) = ''2''"
    by (cases "ic_component c") (simp_all add: candidate_of_def)
  have f: "ic_foundation c = Some (cg_foundation (candidate_of c))" "ic_ip c = Some (cg_addr (candidate_of c))"
    "\<not> str_suffix_of ''.local'' (cg_addr (candidate_of c))"
    "(if tg_raddr (cg_tail (candidate_of c)) = '''' then None else Some (tg_raddr (cg_tail (candidate_of c)))) = ic_related_addr c"
    "(if tg_rport (cg_tail (candidate_of c)) = '''' then - 1
      else to_gint (strtol (tg_rport (cg_tail (candidate_of c))))) = ic_related_port c"
    using assms by (auto simp: candidate_ok_def candidate_of_def gint_back split: option.splits)
  have strs: "protocol_of (cg_transport (candidate_of c)) = ic_protocol c" "type_of_str (cg_type (candidate_of c)) = ic_type c"
    "tcp_type_of (tg_tcptype (cg_tail (candidate_of c))) = ic_tcp_type c"
    "ucast (strtoull (cg_port (candidate_of c))) = ic_port c" "ucast (strtoull (cg_priority (candidate_of c))) = ic_priority c"
    "(if cg_componentid (candidate_of c) = ''1'' then KMS_ICE_COMPONENT_RTP else KMS_ICE_COMPONENT_RTCP) = ic_component c"
    by (simp_all add: candidate_of_def strs_back number_back) (cases "ic_component c"; simp)
  let ?g = "candidate_of c"
  let ?r = "kms_ice_candidate_init\<lparr>ic_candidate := candidate_line ?g, ic_port := ucast (strtoull (cg_port ?g)),
      ic_foundation := Some (cg_foundation ?g), ic_priority := ucast (strtoull (cg_priority ?g)),
      ic_component := (if cg_componentid ?g = ''1'' then KMS_ICE_COMPONENT_RTP else KMS_ICE_COMPONENT_RTCP),
      ic_protocol := protocol_of (cg_transport ?g), ic_type := type_of_str (cg_type ?g),
      ic_tcp_type := tcp_type_of (tg_tcptype (cg_tail ?g)),
      ic_related_addr := (if tg_raddr (cg_tail ?g) = '''' then None else Some (tg_raddr (cg_tail ?g))),
      ic_related_port := (if tg_rport (cg_tail ?g) = '''' then - 1 else to_gint (strtol (tg_rport (cg_tail ?g)))),
      ic_ip := Some (cg_addr ?g), ic_dangling := False, ic_is_valid := True, ic_sdp_mid := ic_sdp_mid c,
      ic_sdp_m_line_index := ic_sdp_m_line_index c, ic_stream_id := ic_stream_id c\<rparr>"
  have "kms_ice_candidate_new resolve (candidate_line ?g) (ic_sdp_mid c) (ic_sdp_m_line_index c) (ic_stream_id c) = Some ?r"
    using comp f(3) match
    by (auto simp: kms_ice_candidate_new_def kms_ice_candidate_set_candidate_def
        kms_ice_candidate_update_values_def Let_def kms_ice_candidate_init_def)
  also have "?r = c\<lparr>ic_candidate := candidate_line ?g, ic_is_valid := True, ic_dangling := False\<rparr>"
    by (rule ice_candidate.equality) (simp_all add: f strs kms_ice_candidate_init_def)
  finally show ?thesis .
qed

text \<open>
  C14: Printing and reading: the attribute of every well-formed candidate is read back to a
  candidate with the same fields, the optional ones included.
\<close>

theorem ice_candidate_roundtrip:
  assumes "candidate_ok c"
  shows "kms_ice_candidate_new resolve (candidate_line (candidate_of c)) (ic_sdp_mid c) (ic_sdp_m_line_index c) (ic_stream_id c) =
    Some (c\<lparr>ic_candidate := candidate_line (candidate_of c), ic_is_valid := True, ic_dangling := False\<rparr>)"
  by (rule ice_read [OF assms])

section \<open>Another address\<close>

lemma str_prefix_append [simp]: "str_prefix p (p @ s)"
  by (simp add: str_prefix_def)

text \<open>A word with a character that is not in the text before it is found behind that text.\<close>

lemma replace_first_behind:
  assumes "x \<in> set old" and "x \<notin> set pre"
  shows "replace_first old new (pre @ old @ post) = pre @ new @ post"
  using assms(2)
proof (induction pre)
  case Nil
  have "old \<noteq> []" using assms(1) by auto
  then obtain c cs where old: "old = c # cs" by (cases old) auto
  then have "str_prefix old (c # cs @ post)" using str_prefix_append [of old post] by simp
  then show ?case using old by simp
next
  case (Cons a pre)
  let ?s = "a # pre @ old @ post"
  let ?w = "takeWhile (\<lambda>c. c \<noteq> x) old"
  have "takeWhile (\<lambda>c. c \<noteq> x) ?s = a # pre @ ?w"
    using Cons.prems assms(1) by (auto simp: takeWhile_append takeWhile_eq_all_conv [THEN iffD2])
  moreover have "takeWhile (\<lambda>c. c \<noteq> x) (old @ t) = ?w" for t
    using assms(1) by (auto simp: takeWhile_append)
  ultimately have "?s \<noteq> old @ t" for t by (metis append_Cons append_self_conv2 length_append length_Cons
        add_is_0 nat_neq_iff less_add_Suc1 less_add_same_cancel2 list.size(4) zero_less_Suc)
  then have "\<not> str_prefix old ?s" unfolding str_prefix_def by (metis append_take_drop_id)
  then show ?case using Cons by simp
qed

lemma no_dot: "list_all ice_char w \<Longrightarrow> CHR ''.'' \<notin> set w" "list_all is_digit w \<Longrightarrow> CHR ''.'' \<notin> set w"
  by (auto simp: list_all_iff ice_char_def is_alpha_def is_digit_def char_code_def)

text \<open>
  C15: Replacing the address of a local IPv4 candidate by the external one: only the address
  field of the attribute changes, and a peer that reads the attribute gets the candidate with
  the new address.
\<close>

theorem ice_external_address:
  assumes "candidate_ok c" and "ic_candidate c = candidate_line (candidate_of c)"
    and "ic_ip c = Some ip" and "CHR ''.'' \<in> set ip" and "candidate_ok (c\<lparr>ic_ip := Some ip'\<rparr>)"
  shows "\<exists>c'. kms_ice_candidate_set_address c ip' = Inr c' \<and>
    ic_candidate c' = candidate_line ((candidate_of c)\<lparr>cg_addr := ip'\<rparr>) \<and>
    kms_ice_candidate_new resolve (ic_candidate c') (ic_sdp_mid c) (ic_sdp_m_line_index c) (ic_stream_id c) =
      Some (c'\<lparr>ic_is_valid := True, ic_dangling := False\<rparr>)"
proof -
  let ?g = "candidate_of c"
  let ?pre = "''candidate:'' @ cg_foundation ?g @ '' '' @ cg_componentid ?g @ '' '' @ cg_transport ?g @ '' '' @ cg_priority ?g @ '' ''"
  let ?post = "'' '' @ cg_port ?g @ '' typ '' @ cg_type ?g @ tail_line (cg_tail ?g)"
  let ?c = "c\<lparr>ic_ip := Some ip'\<rparr>"
  have ok: "groups_ok ?g" by (rule candidate_of_ok [OF assms(1)])
  have "CHR ''.'' \<notin> set ?pre"
    using ok no_dot by (auto simp: groups_ok_def word_of_def)
  then have "replace_first ip ip' (?pre @ ip @ ?post) = ?pre @ ip' @ ?post"
    using assms(4) by (intro replace_first_behind)
  moreover have "cg_addr ?g = ip" using assms(3) by (simp add: candidate_of_def)
  ultimately have line: "replace_first ip ip' (candidate_line ?g) = candidate_line (?g\<lparr>cg_addr := ip'\<rparr>)"
    by (simp add: candidate_line_def)
  have g: "candidate_of ?c = ?g\<lparr>cg_addr := ip'\<rparr>" by (simp add: candidate_of_def)
  show ?thesis
    using ice_read [OF assms(5), of resolve] line g assms(2,3)
    by (simp add: kms_ice_candidate_set_address_def replace_address_def)
qed

text \<open>
  The version of the address is guessed from the whole attribute: a related address with a
  colon makes an IPv4 candidate one of IPv6, for which the wrong external address is used.
\<close>

lemma no_colon:
  "list_all ice_char w \<Longrightarrow> CHR '':'' \<notin> set w" "list_all is_digit w \<Longrightarrow> CHR '':'' \<notin> set w"
  by (auto simp: list_all_iff ice_char_def is_alpha_def is_digit_def char_code_def)

lemma ice_ip_version:
  assumes "candidate_ok c" and "ic_candidate c = candidate_line (candidate_of c)"
  shows "kms_ice_candidate_get_ip_version c =
    (if CHR '':'' \<in> set (the (ic_ip c)) \<or> (\<exists>r. ic_related_addr c = Some r \<and> CHR '':'' \<in> set r) then 6 else 4)"
proof -
  let ?g = "candidate_of c"
  have ok: "groups_ok ?g" by (rule candidate_of_ok [OF assms(1)])
  have f: "cg_foundation ?g \<noteq> []" using ok by (simp add: groups_ok_def word_of_def)
  define rest where "rest = '' '' @ cg_componentid ?g @ '' '' @ cg_transport ?g @ '' '' @
     cg_priority ?g @ '' '' @ cg_addr ?g @ '' '' @ cg_port ?g @ '' typ '' @ cg_type ?g @ tail_line (cg_tail ?g)"
  have "candidate_line ?g = ''candidate:'' @ cg_foundation ?g @ rest" by (simp add: candidate_line_def rest_def)
  then have "drop 11 (candidate_line ?g) = tl (cg_foundation ?g) @ rest"
    using f by (cases "cg_foundation ?g") simp_all
  moreover have "CHR '':'' \<notin> set (tl (cg_foundation ?g))"
    using ok no_colon(1) [of "cg_foundation ?g"] by (cases "cg_foundation ?g") (auto simp: groups_ok_def word_of_def)
  moreover have "CHR '':'' \<in> set rest \<longleftrightarrow>
      CHR '':'' \<in> set (cg_addr ?g) \<or> CHR '':'' \<in> set (tg_raddr (cg_tail ?g))"
  proof -
    have "CHR '':'' \<notin> set (cg_componentid ?g)" "CHR '':'' \<notin> set (cg_priority ?g)" "CHR '':'' \<notin> set (cg_port ?g)"
      "CHR '':'' \<notin> set (tg_rport (cg_tail ?g))"
      using ok by (simp_all add: groups_ok_def word_of_def tail_ok_def no_colon(2))
    moreover have "CHR '':'' \<notin> set (cg_transport ?g)" "CHR '':'' \<notin> set (cg_type ?g)"
      "CHR '':'' \<notin> set (tg_tcptype (cg_tail ?g))"
      by (simp_all add: candidate_of_def, (cases "ic_protocol c"; simp), (cases "ic_type c"; simp), (cases "ic_tcp_type c"; simp))
    ultimately show ?thesis by (simp add: rest_def tail_line_def)
  qed
  ultimately show ?thesis
    using assms(2) by (auto simp: kms_ice_candidate_get_ip_version_def candidate_of_def split: option.splits)
qed

text \<open>
  Setting the attribute of a candidate again to one with another component frees the old
  addresses and keeps the pointers to them.
\<close>

lemma ice_component_dangles:
  assumes "groups_ok g" and "cg_componentid g \<notin> {''1'', ''2''}" and "ic_ip c \<noteq> None"
  shows "kms_ice_candidate_finalize (kms_ice_candidate_set_candidate resolve c (candidate_line g)) = Inl Use_after_free"
  using assms candidate_match [OF assms(1)]
  by (simp add: kms_ice_candidate_set_candidate_def kms_ice_candidate_update_values_def Let_def kms_ice_candidate_finalize_def)

definition host_candidate :: ice_candidate where
  "host_candidate = kms_ice_candidate_init\<lparr>ic_foundation := Some ''1'', ic_priority := 2013266431,
     ic_ip := Some ''10.0.0.1'', ic_port := 40000, ic_related_port := - 1\<rparr>"

lemma host_candidate_ok: "candidate_ok host_candidate" "candidate_ok (host_candidate\<lparr>ic_ip := Some ''8.8.4.4''\<rparr>)"
  by (simp_all add: candidate_ok_def host_candidate_def kms_ice_candidate_init_def word_of_def ice_char_def
      addr_char_def is_digit_def char_code_def str_suffix_of_def)

lemma ice_candidate_roundtrip_witness:
  "\<exists>c. kms_ice_candidate_new (\<lambda>_. None) (candidate_line (candidate_of host_candidate)) None 0 None = Some c \<and>
     ic_ip c = Some ''10.0.0.1'' \<and> ic_port c = 40000"
  using ice_candidate_roundtrip [OF host_candidate_ok(1), of "\<lambda>_. None"]
  by (simp add: host_candidate_def kms_ice_candidate_init_def)

lemma ice_external_address_witness:
  "\<exists>c'. kms_ice_candidate_set_address (host_candidate\<lparr>ic_candidate := candidate_line (candidate_of host_candidate)\<rparr>)
       ''8.8.4.4'' = Inr c' \<and>
     kms_ice_candidate_new (\<lambda>_. None) (ic_candidate c') None 0 None = Some (c'\<lparr>ic_is_valid := True, ic_dangling := False\<rparr>)"
proof -
  let ?c = "host_candidate\<lparr>ic_candidate := candidate_line (candidate_of host_candidate)\<rparr>"
  have same: "candidate_of ?c = candidate_of host_candidate" "candidate_ok ?c = candidate_ok host_candidate"
    "candidate_ok (?c\<lparr>ic_ip := x\<rparr>) = candidate_ok (host_candidate\<lparr>ic_ip := x\<rparr>)" for x
    by (simp_all add: candidate_of_def candidate_ok_def)
  show ?thesis
    using ice_external_address [of ?c "''10.0.0.1''" "''8.8.4.4''" "\<lambda>_. None"] host_candidate_ok same
    by (auto simp: host_candidate_def kms_ice_candidate_init_def)
qed

end
