(* ===== verification/BaseHub.thy ===== *)
theory BaseHub
  imports GstSdp
begin

text \<open>
  Hubs (\<open>kmsbasehub.c\<close>): a bin whose ports are elements beside it. A subclass links the pads
  of its internal elements to the port with an id; the hub has a ghost pad for each media and
  direction of a port, named after the port's id, and keeps which internal pad it stands for.
  A pad is known by its element, by the name it was asked for under, and by a serial number: 0
  for a pad the element always has, a new number for every pad that is requested. The
  environment of a call tells what GStreamer answers: which pads an element has, which it gives
  on request, and whether two pads can be linked.
  The target of a ghost pad is the peer of its internal pad, so unlinking that peer and setting
  the target to NULL are the same.
\<close>

section \<open>State\<close>

datatype pad = Pad (pad_element: nat) (pad_label: string) (pad_serial: nat)

record ghost_pad =
  gp_is_src :: bool
  gp_active :: bool
  gp_target :: "pad option"
  gp_on_linked :: "pad option" \<comment> \<open>data of \<open>set_target_cb\<close>, where it is connected\<close>
  gp_peer :: "pad option"

record hub_port_data =
  pd_port :: nat
  pd_signal :: bool \<comment> \<open>\<open>signal_id\<close>\<close>
  pd_id :: u32
  pd_audio_sink_target :: "pad option"
  pd_video_sink_target :: "pad option"
  pd_data_sink_target :: "pad option"

datatype hub_event =
    Pads_unlinked pad
  | Request_pad_released pad
  | Port_unhandled nat
  | Ghost_pad_removed string

record base_hub =
  hb_ports :: "(u32, hub_port_data) hash_table"
  hb_port_count :: u32
  hb_pads :: "(string, ghost_pad) hash_table"
  hb_children :: "nat list"
  hb_parent :: "nat option"
  hb_playing :: bool \<comment> \<open>the state, a pending or the target state is at least PAUSED\<close>
  hb_serial :: nat \<comment> \<open>the pads requested so far\<close>
  hb_on_unlink :: "pad list" \<comment> \<open>requested pads where \<open>remove_unlinked_pad\<close> is connected\<close>
  hb_gone :: "pad list" \<comment> \<open>requested pads that were released\<close>
  hb_out :: "hub_event list"

record hub_env =
  he_has_pad :: "nat \<Rightarrow> string \<Rightarrow> bool"
  he_gives_pad :: "nat \<Rightarrow> string \<Rightarrow> bool"
  he_target_ok :: "pad \<Rightarrow> bool"
  he_link_ok :: "pad \<Rightarrow> bool"

definition gst_element_get_static_pad :: "hub_env \<Rightarrow> nat \<Rightarrow> string \<Rightarrow> pad option" where
  "gst_element_get_static_pad env e n = (if he_has_pad env e n then Some (Pad e n 0) else None)"

definition gst_element_request_pad_simple :: "hub_env \<Rightarrow> nat \<Rightarrow> string \<Rightarrow> base_hub \<Rightarrow> base_hub \<times> pad option" where
  "gst_element_request_pad_simple env e n h = (if he_gives_pad env e n
     then (h\<lparr>hb_serial := Suc (hb_serial h)\<rparr>, Some (Pad e n (Suc (hb_serial h)))) else (h, None))"

definition AUDIO_SINK_PAD_PREFIX :: string where "AUDIO_SINK_PAD_PREFIX = ''audio_sink_''"
definition VIDEO_SINK_PAD_PREFIX :: string where "VIDEO_SINK_PAD_PREFIX = ''video_sink_''"
definition DATA_SINK_PAD_PREFIX :: string where "DATA_SINK_PAD_PREFIX = ''data_sink_''"
definition AUDIO_SRC_PAD_PREFIX :: string where "AUDIO_SRC_PAD_PREFIX = ''audio_src_''"
definition VIDEO_SRC_PAD_PREFIX :: string where "VIDEO_SRC_PAD_PREFIX = ''video_src_''"
definition DATA_SRC_PAD_PREFIX :: string where "DATA_SRC_PAD_PREFIX = ''data_src_''"

lemmas pad_prefixes = AUDIO_SINK_PAD_PREFIX_def VIDEO_SINK_PAD_PREFIX_def DATA_SINK_PAD_PREFIX_def
  AUDIO_SRC_PAD_PREFIX_def VIDEO_SRC_PAD_PREFIX_def DATA_SRC_PAD_PREFIX_def

text \<open>\<open>g_strdup_printf\<close> with \<open>%d\<close>\<close>

definition print_gint :: "u32 \<Rightarrow> string" where
  "print_gint pid = (if sint pid < 0 then CHR ''-'' # decimal (nat (- sint pid)) else decimal (nat (sint pid)))"

section \<open>Ghost pads\<close>

text \<open>\<open>remove_unlinked_pad\<close> on a pad that was unlinked, where it is connected.\<close>

definition remove_unlinked_pad :: "pad \<Rightarrow> base_hub \<Rightarrow> base_hub" where
  "remove_unlinked_pad p h = (if p \<in> set (hb_on_unlink h)
     then h\<lparr>hb_on_unlink := filter (\<lambda>q. q \<noteq> p) (hb_on_unlink h),
       hb_gone := p # hb_gone h, hb_out := hb_out h @ [Request_pad_released p]\<rparr>
     else h)"

definition set_pad :: "string \<Rightarrow> ghost_pad \<Rightarrow> base_hub \<Rightarrow> base_hub" where
  "set_pad name gp h = h\<lparr>hb_pads := AList.update name gp (hb_pads h)\<rparr>"

definition unlink_target :: "string \<Rightarrow> base_hub \<Rightarrow> base_hub" where
  "unlink_target name h = (case map_of (hb_pads h) name of
     None \<Rightarrow> h
   | Some gp \<Rightarrow> (case gp_target gp of
       None \<Rightarrow> h
     | Some old \<Rightarrow> remove_unlinked_pad old (set_pad name (gp\<lparr>gp_target := None\<rparr>)
         (h\<lparr>hb_out := hb_out h @ [Pads_unlinked old]\<rparr>))))"

definition gst_ghost_pad_set_target :: "hub_env \<Rightarrow> string \<Rightarrow> pad option \<Rightarrow> base_hub \<Rightarrow> base_hub \<times> bool" where
  "gst_ghost_pad_set_target env name target h = (let h1 = unlink_target name h in
     case (map_of (hb_pads h1) name, target) of
       (Some gp, Some p) \<Rightarrow> (if he_target_ok env p then (set_pad name (gp\<lparr>gp_target := Some p\<rparr>) h1, True)
          else (h1, False))
     | _ \<Rightarrow> (h1, True))"

definition set_target :: "hub_env \<Rightarrow> string \<Rightarrow> pad option \<Rightarrow> base_hub \<Rightarrow> base_hub \<times> bool" where
  "set_target env name target h = (case map_of (hb_pads h) name of
     None \<Rightarrow> (h, False)
   | Some gp \<Rightarrow> (case gp_target gp of
       None \<Rightarrow> gst_ghost_pad_set_target env name target h
     | Some old \<Rightarrow> gst_ghost_pad_set_target env name target (unlink_target name h)))"

text \<open>
  The handler was connected with the target as its object: it is there as long as the target is,
  which goes when it is released or when its element leaves the hub.
\<close>

definition set_target_cb :: "hub_env \<Rightarrow> string \<Rightarrow> base_hub \<Rightarrow> base_hub" where
  "set_target_cb env name h = (case map_of (hb_pads h) name of
     None \<Rightarrow> h
   | Some gp \<Rightarrow> (case gp_on_linked gp of
       None \<Rightarrow> h
     | Some target \<Rightarrow> (if pad_element target \<in> set (hb_children h) \<and> target \<notin> set (hb_gone h)
         then fst (gst_ghost_pad_set_target env name (Some target) h) else h)))"

definition remove_target_cb :: "hub_env \<Rightarrow> string \<Rightarrow> base_hub \<Rightarrow> base_hub" where
  "remove_target_cb env name h = fst (gst_ghost_pad_set_target env name None h)"

text \<open>A port links or unlinks the outer side of a ghost pad.\<close>

definition ghost_pad_linked :: "hub_env \<Rightarrow> string \<Rightarrow> pad \<Rightarrow> base_hub \<Rightarrow> base_hub" where
  "ghost_pad_linked env name peer h = (case map_of (hb_pads h) name of
     None \<Rightarrow> h
   | Some gp \<Rightarrow> set_target_cb env name (set_pad name (gp\<lparr>gp_peer := Some peer\<rparr>) h))"

definition ghost_pad_unlinked :: "hub_env \<Rightarrow> string \<Rightarrow> base_hub \<Rightarrow> base_hub" where
  "ghost_pad_unlinked env name h = (case map_of (hb_pads h) name of
     None \<Rightarrow> h
   | Some gp \<Rightarrow> (let h1 = set_pad name (gp\<lparr>gp_peer := None\<rparr>) h in
       if gp_on_linked gp = None then h1 else remove_target_cb env name h1))"

section \<open>Linking internal elements\<close>

text \<open>The pad of an internal element, and the hub after it was requested.\<close>

definition target_pad :: "hub_env \<Rightarrow> nat \<Rightarrow> string \<Rightarrow> bool \<Rightarrow> base_hub \<Rightarrow> base_hub \<times> pad option" where
  "target_pad env el pad_name remove_on_unlink h = (case gst_element_get_static_pad env el pad_name of
     Some p \<Rightarrow> (h, Some p)
   | None \<Rightarrow> (case gst_element_request_pad_simple env el pad_name h of
       (h1, None) \<Rightarrow> (h1, None)
     | (h1, Some p) \<Rightarrow> (if remove_on_unlink then h1\<lparr>hb_on_unlink := hb_on_unlink h1 @ [p]\<rparr> else h1, Some p)))"

definition kms_base_hub_unlink_pad :: "hub_env \<Rightarrow> string \<Rightarrow> base_hub \<Rightarrow> base_hub \<times> bool" where
  "kms_base_hub_unlink_pad env gp_name h = (if map_of (hb_pads h) gp_name = None then (h, True)
     else set_target env gp_name None h)"

text \<open>
  A ghost pad whose target cannot be linked is not made; one whose name is taken is not added,
  and its target is free again when it goes.
\<close>

definition kms_base_hub_create_and_link_ghost_pad ::
    "hub_env \<Rightarrow> pad \<Rightarrow> string \<Rightarrow> pad \<Rightarrow> base_hub \<Rightarrow> base_hub \<times> bool" where
  "kms_base_hub_create_and_link_ghost_pad env src_pad gp_name target h =
     (if \<not> he_target_ok env target then (h, False)
      else if map_of (hb_pads h) gp_name \<noteq> None
      then (remove_unlinked_pad target (h\<lparr>hb_out := hb_out h @ [Pads_unlinked target]\<rparr>), False)
      else (set_pad gp_name \<lparr>gp_is_src = False, gp_active = hb_playing h, gp_target = Some target,
              gp_on_linked = None, gp_peer = (if he_link_ok env src_pad then Some src_pad else None)\<rparr> h, True))"

definition set_port :: "u32 \<Rightarrow> hub_port_data \<Rightarrow> base_hub \<Rightarrow> base_hub" where
  "set_port pid pd h = h\<lparr>hb_ports := AList.update pid pd (hb_ports h)\<rparr>"

definition kms_base_hub_link_sink_pad ::
    "hub_env \<Rightarrow> u32 \<Rightarrow> string \<Rightarrow> nat \<Rightarrow> string \<Rightarrow> string \<Rightarrow>
     ((pad option \<Rightarrow> pad option) \<Rightarrow> hub_port_data \<Rightarrow> hub_port_data) \<Rightarrow> bool \<Rightarrow> base_hub \<Rightarrow> base_hub \<times> bool" where
  "kms_base_hub_link_sink_pad env pid gp_name el pad_name port_src_pad_name target_update remove_on_unlink h =
     (if el \<notin> set (hb_children h) then (h, False)
      else case target_pad env el pad_name remove_on_unlink h of
        (h1, None) \<Rightarrow> (h1, False)
      | (h1, Some target) \<Rightarrow> (case map_of (hb_ports h1) pid of
          None \<Rightarrow> (h1, False)
        | Some port_data \<Rightarrow> (let h2 = set_port pid (target_update (\<lambda>_. Some target) port_data) h1 in
            if map_of (hb_pads h2) gp_name \<noteq> None then set_target env gp_name (Some target) h2
            else case gst_element_get_static_pad env (pd_port port_data) port_src_pad_name of
              Some src_pad \<Rightarrow> kms_base_hub_create_and_link_ghost_pad env src_pad gp_name target h2
            | None \<Rightarrow> (h2, True))))"

text \<open>
  \<open>gst_element_link_pads\<close> with a pad of the port; a link calls \<open>set_target_cb\<close>.
\<close>

definition link_to_port :: "hub_env \<Rightarrow> string \<Rightarrow> nat \<Rightarrow> string \<Rightarrow> base_hub \<Rightarrow> base_hub" where
  "link_to_port env name port sink h = (case target_pad env port sink False h of
     (h1, None) \<Rightarrow> h1
   | (h1, Some p) \<Rightarrow> (if he_link_ok env p then ghost_pad_linked env name p h1 else h1))"

text \<open>
  The id is read as a \<open>gint64\<close>; the table looks at the \<open>gint\<close> at its address, the low half on a
  little-endian machine.
\<close>

definition pad_port :: "string \<Rightarrow> string \<Rightarrow> base_hub \<Rightarrow> hub_port_data option" where
  "pad_port prefix name h = map_of (hb_ports h) (word_of_int (strtol (drop (length prefix) name)))"

definition kms_base_hub_pad_added :: "hub_env \<Rightarrow> string \<Rightarrow> bool \<Rightarrow> base_hub \<Rightarrow> c_fault + base_hub" where
  "kms_base_hub_pad_added env name is_src h =
     (if \<not> is_src then Inr h
      else if str_prefix VIDEO_SRC_PAD_PREFIX name then (case pad_port VIDEO_SRC_PAD_PREFIX name h of
        None \<Rightarrow> Inl Null_dereference
      | Some port \<Rightarrow> Inr (link_to_port env name (pd_port port) ''hub_video_sink'' h))
      else if str_prefix AUDIO_SRC_PAD_PREFIX name then (case pad_port AUDIO_SRC_PAD_PREFIX name h of
        None \<Rightarrow> Inl Null_dereference
      | Some port \<Rightarrow> Inr (link_to_port env name (pd_port port) ''hub_audio_sink'' h))
      else if str_prefix DATA_SRC_PAD_PREFIX name then (case pad_port DATA_SRC_PAD_PREFIX name h of
        None \<Rightarrow> Inl Null_dereference
      | Some port \<Rightarrow> Inr (link_to_port env name (pd_port port) ''hub_data_sink'' h))
      else Inr h)"

definition kms_base_hub_link_src_pad ::
    "hub_env \<Rightarrow> string \<Rightarrow> nat \<Rightarrow> string \<Rightarrow> bool \<Rightarrow> base_hub \<Rightarrow> c_fault + base_hub \<times> bool" where
  "kms_base_hub_link_src_pad env gp_name el pad_name remove_on_unlink h =
     (if el \<notin> set (hb_children h) then Inr (h, False)
      else case target_pad env el pad_name remove_on_unlink h of
        (h1, None) \<Rightarrow> Inr (h1, False)
      | (h1, Some target) \<Rightarrow>
          if map_of (hb_pads h1) gp_name = None
          then bind_result (kms_base_hub_pad_added env gp_name True
                 (set_pad gp_name \<lparr>gp_is_src = True, gp_active = hb_playing h1, gp_target = None,
                    gp_on_linked = Some target, gp_peer = None\<rparr> h1)) (\<lambda>h2. Inr (h2, True))
          else Inr (set_target env gp_name (Some target) h1))"

text \<open>The operations of the class; no subclass overrides them.\<close>

definition kms_base_hub_link_audio_sink_default :: "hub_env \<Rightarrow> u32 \<Rightarrow> nat \<Rightarrow> string \<Rightarrow> bool \<Rightarrow> base_hub \<Rightarrow> base_hub \<times> bool" where
  "kms_base_hub_link_audio_sink_default env pid el pad_name remove_on_unlink =
     kms_base_hub_link_sink_pad env pid (AUDIO_SINK_PAD_PREFIX @ print_gint pid) el pad_name ''hub_audio_src''
       pd_audio_sink_target_update remove_on_unlink"

definition kms_base_hub_link_video_sink_default :: "hub_env \<Rightarrow> u32 \<Rightarrow> nat \<Rightarrow> string \<Rightarrow> bool \<Rightarrow> base_hub \<Rightarrow> base_hub \<times> bool" where
  "kms_base_hub_link_video_sink_default env pid el pad_name remove_on_unlink =
     kms_base_hub_link_sink_pad env pid (VIDEO_SINK_PAD_PREFIX @ print_gint pid) el pad_name ''hub_video_src''
       pd_video_sink_target_update remove_on_unlink"

definition kms_base_hub_link_data_sink_default :: "hub_env \<Rightarrow> u32 \<Rightarrow> nat \<Rightarrow> string \<Rightarrow> bool \<Rightarrow> base_hub \<Rightarrow> base_hub \<times> bool" where
  "kms_base_hub_link_data_sink_default env pid el pad_name remove_on_unlink =
     kms_base_hub_link_sink_pad env pid (DATA_SINK_PAD_PREFIX @ print_gint pid) el pad_name ''hub_data_src''
       pd_data_sink_target_update remove_on_unlink"

definition kms_base_hub_link_audio_src_default ::
    "hub_env \<Rightarrow> u32 \<Rightarrow> nat \<Rightarrow> string \<Rightarrow> bool \<Rightarrow> base_hub \<Rightarrow> c_fault + base_hub \<times> bool" where
  "kms_base_hub_link_audio_src_default env pid = kms_base_hub_link_src_pad env (AUDIO_SRC_PAD_PREFIX @ print_gint pid)"

definition kms_base_hub_link_video_src_default ::
    "hub_env \<Rightarrow> u32 \<Rightarrow> nat \<Rightarrow> string \<Rightarrow> bool \<Rightarrow> base_hub \<Rightarrow> c_fault + base_hub \<times> bool" where
  "kms_base_hub_link_video_src_default env pid = kms_base_hub_link_src_pad env (VIDEO_SRC_PAD_PREFIX @ print_gint pid)"

definition kms_base_hub_link_data_src_default ::
    "hub_env \<Rightarrow> u32 \<Rightarrow> nat \<Rightarrow> string \<Rightarrow> bool \<Rightarrow> base_hub \<Rightarrow> c_fault + base_hub \<times> bool" where
  "kms_base_hub_link_data_src_default env pid = kms_base_hub_link_src_pad env (DATA_SRC_PAD_PREFIX @ print_gint pid)"

definition kms_base_hub_unlink_audio_sink_default :: "hub_env \<Rightarrow> u32 \<Rightarrow> base_hub \<Rightarrow> base_hub \<times> bool" where
  "kms_base_hub_unlink_audio_sink_default env pid = kms_base_hub_unlink_pad env (AUDIO_SINK_PAD_PREFIX @ print_gint pid)"

definition kms_base_hub_unlink_video_sink_default :: "hub_env \<Rightarrow> u32 \<Rightarrow> base_hub \<Rightarrow> base_hub \<times> bool" where
  "kms_base_hub_unlink_video_sink_default env pid = kms_base_hub_unlink_pad env (VIDEO_SINK_PAD_PREFIX @ print_gint pid)"

definition kms_base_hub_unlink_data_sink_default :: "hub_env \<Rightarrow> u32 \<Rightarrow> base_hub \<Rightarrow> base_hub \<times> bool" where
  "kms_base_hub_unlink_data_sink_default env pid = kms_base_hub_unlink_pad env (DATA_SINK_PAD_PREFIX @ print_gint pid)"

definition kms_base_hub_unlink_audio_src_default :: "hub_env \<Rightarrow> u32 \<Rightarrow> base_hub \<Rightarrow> base_hub \<times> bool" where
  "kms_base_hub_unlink_audio_src_default env pid = kms_base_hub_unlink_pad env (AUDIO_SRC_PAD_PREFIX @ print_gint pid)"

definition kms_base_hub_unlink_video_src_default :: "hub_env \<Rightarrow> u32 \<Rightarrow> base_hub \<Rightarrow> base_hub \<times> bool" where
  "kms_base_hub_unlink_video_src_default env pid = kms_base_hub_unlink_pad env (VIDEO_SRC_PAD_PREFIX @ print_gint pid)"

definition kms_base_hub_unlink_data_src_default :: "hub_env \<Rightarrow> u32 \<Rightarrow> base_hub \<Rightarrow> base_hub \<times> bool" where
  "kms_base_hub_unlink_data_src_default env pid = kms_base_hub_unlink_pad env (DATA_SRC_PAD_PREFIX @ print_gint pid)"

section \<open>Ports\<close>

definition kms_base_hub_remove_port_pad :: "hub_env \<Rightarrow> u32 \<Rightarrow> string \<Rightarrow> base_hub \<Rightarrow> base_hub" where
  "kms_base_hub_remove_port_pad env pid pad_prefix h = (let pad_name = pad_prefix @ print_gint pid in
     if map_of (hb_pads h) pad_name = None then h
     else let h1 = fst (set_target env pad_name None h) in
       h1\<lparr>hb_pads := AList.delete pad_name (hb_pads h1), hb_out := hb_out h1 @ [Ghost_pad_removed pad_name]\<rparr>)"

definition kms_base_hub_remove_port_pads :: "hub_env \<Rightarrow> u32 \<Rightarrow> base_hub \<Rightarrow> base_hub" where
  "kms_base_hub_remove_port_pads env pid h =
     kms_base_hub_remove_port_pad env pid VIDEO_SRC_PAD_PREFIX
       (kms_base_hub_remove_port_pad env pid VIDEO_SINK_PAD_PREFIX
         (kms_base_hub_remove_port_pad env pid AUDIO_SRC_PAD_PREFIX
           (kms_base_hub_remove_port_pad env pid AUDIO_SINK_PAD_PREFIX h)))"

definition kms_base_hub_unhandle_port :: "hub_env \<Rightarrow> u32 \<Rightarrow> base_hub \<Rightarrow> base_hub" where
  "kms_base_hub_unhandle_port env pid h = (case map_of (hb_ports h) pid of
     None \<Rightarrow> h
   | Some port_data \<Rightarrow> (let h1 = kms_base_hub_remove_port_pads env pid
         (h\<lparr>hb_out := hb_out h @ [Port_unhandled (pd_port port_data)]\<rparr>) in
       h1\<lparr>hb_ports := AList.delete pid (hb_ports h1)\<rparr>))"

definition kms_base_hub_generate_port_id :: "base_hub \<Rightarrow> base_hub \<times> u32" where
  "kms_base_hub_generate_port_id h = (h\<lparr>hb_port_count := hb_port_count h + 1\<rparr>, hb_port_count h)"

definition kms_base_hub_port_data_create :: "nat \<Rightarrow> u32 \<Rightarrow> hub_port_data" where
  "kms_base_hub_port_data_create port pid = \<lparr>pd_port = port, pd_signal = False, pd_id = pid,
     pd_audio_sink_target = None, pd_video_sink_target = None, pd_data_sink_target = None\<rparr>"

text \<open>An element is given with whether it is a hub port, and with its parent; -1 is the largest word.\<close>

definition kms_base_hub_handle_port :: "nat \<Rightarrow> bool \<Rightarrow> nat option \<Rightarrow> base_hub \<Rightarrow> base_hub \<times> u32" where
  "kms_base_hub_handle_port hub_port is_hub_port port_parent h =
     (if \<not> is_hub_port then (h, -1)
      else if hb_parent h = None \<or> hb_parent h \<noteq> port_parent then (h, -1)
      else let (h1, pid) = kms_base_hub_generate_port_id h;
               port_data = (kms_base_hub_port_data_create hub_port pid)\<lparr>pd_signal := True\<rparr> in
        (set_port pid port_data h1, pid))"

fun contains_str :: "string \<Rightarrow> string \<Rightarrow> bool" where
  "contains_str needle [] = (needle = [])"
| "contains_str needle (c # cs) = (str_prefix needle (c # cs) \<or> contains_str needle cs)"

text \<open>The callback of a port whose data is in the table, with the new pad of the port.\<close>

definition endpoint_pad_added :: "hub_env \<Rightarrow> hub_port_data \<Rightarrow> pad \<Rightarrow> bool \<Rightarrow> base_hub \<Rightarrow> base_hub" where
  "endpoint_pad_added env pd pad is_src h =
     (if \<not> is_src \<or> \<not> str_prefix ''hub'' (pad_label pad) then h
      else case (pd_video_sink_target pd, pd_audio_sink_target pd, pd_data_sink_target pd) of
        (vt, at, dt) \<Rightarrow>
          if vt \<noteq> None \<and> contains_str ''video'' (pad_label pad)
          then fst (kms_base_hub_create_and_link_ghost_pad env pad (VIDEO_SINK_PAD_PREFIX @ print_gint (pd_id pd)) (the vt) h)
          else if at \<noteq> None \<and> contains_str ''audio'' (pad_label pad)
          then fst (kms_base_hub_create_and_link_ghost_pad env pad (AUDIO_SINK_PAD_PREFIX @ print_gint (pd_id pd)) (the at) h)
          else if dt \<noteq> None \<and> contains_str ''data'' (pad_label pad)
          then fst (kms_base_hub_create_and_link_ghost_pad env pad (DATA_SINK_PAD_PREFIX @ print_gint (pd_id pd)) (the dt) h)
          else h)"

definition kms_base_hub_dispose :: "base_hub \<Rightarrow> base_hub" where
  "kms_base_hub_dispose h = h\<lparr>hb_ports := []\<rparr>"

definition kms_base_hub_init :: base_hub where
  "kms_base_hub_init = \<lparr>hb_ports = [], hb_port_count = 0, hb_pads = [], hb_children = [], hb_parent = None,
     hb_playing = False, hb_serial = 0, hb_on_unlink = [], hb_gone = [], hb_out = []\<rparr>"


section \<open>Names of pads\<close>

lemma print_gint_read: "word_of_int (strtol (print_gint i)) = i"
proof -
  have d: "takeWhile is_digit (decimal n) = decimal n" for n
    using decimal_digits [of n] by (simp add: takeWhile_eq_all_conv list_all_iff)
  have lo: "- (2 ^ 31) \<le> sint i" and hi: "sint i < 2 ^ 31"
    using sint_range_size [of i] by (simp_all add: word_size)
  show ?thesis
  proof (cases "sint i < 0")
    case True
    have "strtol (print_gint i) = sint i"
      using True lo by (simp add: strtol_def print_gint_def skip_sign_def is_space_def char_code_def d decimal_value)
    then show ?thesis by simp
  next
    case False
    have "strtol (print_gint i) = sint i"
      using False hi by (simp add: print_gint_def strtol_digits [OF decimal_digits] decimal_value)
    then show ?thesis by simp
  qed
qed

lemma print_gint_inj [simp]: "print_gint i = print_gint j \<longleftrightarrow> i = j"
  by (metis print_gint_read)

datatype media_kind = Audio | Video | Data

fun pad_prefix :: "media_kind \<Rightarrow> bool \<Rightarrow> string" where
  "pad_prefix Audio is_src = (if is_src then AUDIO_SRC_PAD_PREFIX else AUDIO_SINK_PAD_PREFIX)"
| "pad_prefix Video is_src = (if is_src then VIDEO_SRC_PAD_PREFIX else VIDEO_SINK_PAD_PREFIX)"
| "pad_prefix Data is_src = (if is_src then DATA_SRC_PAD_PREFIX else DATA_SINK_PAD_PREFIX)"

definition pad_name_of :: "media_kind \<Rightarrow> bool \<Rightarrow> u32 \<Rightarrow> string" where
  "pad_name_of k is_src pid = pad_prefix k is_src @ print_gint pid"

lemma pad_name_of_inj [simp]: "pad_name_of k s i = pad_name_of k' s' j \<longleftrightarrow> k = k' \<and> s = s' \<and> i = j"
  by (cases k; cases k'; cases s; cases s') (auto simp: pad_name_of_def pad_prefixes)

lemma pad_name_prefix [simp]:
  "str_prefix VIDEO_SRC_PAD_PREFIX (pad_name_of k s i) \<longleftrightarrow> k = Video \<and> s"
  "str_prefix AUDIO_SRC_PAD_PREFIX (pad_name_of k s i) \<longleftrightarrow> k = Audio \<and> s"
  "str_prefix DATA_SRC_PAD_PREFIX (pad_name_of k s i) \<longleftrightarrow> k = Data \<and> s"
  by (cases k; cases s; simp add: str_prefix_def pad_name_of_def pad_prefixes)+

lemma pad_port_name [simp]: "pad_port (pad_prefix k s) (pad_name_of k s i) h = map_of (hb_ports h) i"
  by (simp add: pad_port_def pad_name_of_def print_gint_read)

section \<open>What the calls leave alone\<close>

text \<open>
  Setting and unlinking targets changes neither the ports nor which ghost pads there are, nor
  what a ghost pad is apart from its target and its peer.
\<close>

definition gp_fixed :: "ghost_pad \<Rightarrow> bool \<times> bool \<times> pad option" where
  "gp_fixed gp = (gp_is_src gp, gp_active gp, gp_on_linked gp)"

definition hub_frame :: "base_hub \<Rightarrow> base_hub \<Rightarrow> bool" where
  "hub_frame h h' \<longleftrightarrow> hb_ports h' = hb_ports h \<and> hb_port_count h' = hb_port_count h \<and>
     hb_children h' = hb_children h \<and> hb_parent h' = hb_parent h \<and> hb_playing h' = hb_playing h \<and>
     map fst (hb_pads h') = map fst (hb_pads h) \<and>
     (\<forall>n. map_option gp_fixed (map_of (hb_pads h') n) = map_option gp_fixed (map_of (hb_pads h) n))"

lemma hub_frame_refl [simp, intro]: "hub_frame h h"
  by (simp add: hub_frame_def)

lemma hub_frame_trans [trans]: "hub_frame h h1 \<Longrightarrow> hub_frame h1 h2 \<Longrightarrow> hub_frame h h2"
  by (simp add: hub_frame_def)

lemma frame_set_pad:
  assumes "map_of (hb_pads h) name = Some gp" "gp_fixed gp' = gp_fixed gp"
  shows "hub_frame h (set_pad name gp' h)"
proof -
  have "name \<in> fst ` set (hb_pads h)" using assms(1) by (metis domI dom_map_of_conv_image_fst)
  then show ?thesis using assms by (auto simp: hub_frame_def set_pad_def update_keys)
qed

lemma frame_out: "hub_frame h (h\<lparr>hb_serial := m, hb_on_unlink := ps\<rparr>)" "hub_frame h (h\<lparr>hb_serial := m\<rparr>)" "hub_frame h (h\<lparr>hb_out := es\<rparr>)"
  "hub_frame h (h\<lparr>hb_on_unlink := ps\<rparr>)"
  by (simp_all add: hub_frame_def)

lemma remove_unlinked_same [simp]:
  "hb_ports (remove_unlinked_pad p h) = hb_ports h" "hb_pads (remove_unlinked_pad p h) = hb_pads h"
  "hb_port_count (remove_unlinked_pad p h) = hb_port_count h"
  "hb_children (remove_unlinked_pad p h) = hb_children h"
  "hb_parent (remove_unlinked_pad p h) = hb_parent h" "hb_playing (remove_unlinked_pad p h) = hb_playing h"
  "hb_serial (remove_unlinked_pad p h) = hb_serial h"
  by (simp_all add: remove_unlinked_pad_def)

lemma set_pad_same [simp]:
  "hb_ports (set_pad n gp h) = hb_ports h" "hb_port_count (set_pad n gp h) = hb_port_count h"
  "hb_children (set_pad n gp h) = hb_children h" "hb_parent (set_pad n gp h) = hb_parent h"
  "hb_playing (set_pad n gp h) = hb_playing h" "hb_pads (set_pad n gp h) = AList.update n gp (hb_pads h)"
  "hb_on_unlink (set_pad n gp h) = hb_on_unlink h" "hb_gone (set_pad n gp h) = hb_gone h"
  "hb_serial (set_pad n gp h) = hb_serial h" "hb_out (set_pad n gp h) = hb_out h"
  by (simp_all add: set_pad_def)

lemma unlink_target_pads:
  "map_of (hb_pads (unlink_target name h)) =
     (map_of (hb_pads h))(name := map_option (\<lambda>gp. gp\<lparr>gp_target := None\<rparr>) (map_of (hb_pads h) name))"
  by (auto simp: unlink_target_def fun_eq_iff split: option.splits)

lemma frame_unlink_target [intro]: "hub_frame h (unlink_target name h)"
proof (cases "map_of (hb_pads h) name")
  case (Some gp)
  have "name \<in> fst ` set (hb_pads h)" using Some by (metis domI dom_map_of_conv_image_fst)
  then have "map fst (hb_pads (unlink_target name h)) = map fst (hb_pads h)"
    by (auto simp: unlink_target_def update_keys split: option.splits)
  then show ?thesis
    by (auto simp: hub_frame_def unlink_target_pads Some gp_fixed_def)
      (auto simp: unlink_target_def Some split: option.splits)
qed (simp add: unlink_target_def)

lemma set_ghost_pads:
  "map_of (hb_pads (fst (gst_ghost_pad_set_target env name target h))) =
     (map_of (hb_pads h))(name := map_option (\<lambda>gp. gp\<lparr>gp_target :=
        (case target of None \<Rightarrow> None | Some p \<Rightarrow> (if he_target_ok env p then Some p else None))\<rparr>) (map_of (hb_pads h) name))"
  by (auto simp: gst_ghost_pad_set_target_def Let_def unlink_target_pads fun_eq_iff split: option.splits)

lemma frame_set_ghost [intro]: "hub_frame h (fst (gst_ghost_pad_set_target env name target h))"
proof -
  have u: "hub_frame h (unlink_target name h)" by blast
  have "hub_frame (unlink_target name h) (set_pad name (gp\<lparr>gp_target := t\<rparr>) (unlink_target name h))"
    if "map_of (hb_pads (unlink_target name h)) name = Some gp" for gp t
    using that by (rule frame_set_pad) (simp add: gp_fixed_def)
  then show ?thesis
    using u by (auto simp: gst_ghost_pad_set_target_def Let_def intro: hub_frame_trans split: option.splits)
qed

lemma set_target_eq:
  "map_of (hb_pads h) name \<noteq> None \<Longrightarrow> set_target env name target h = gst_ghost_pad_set_target env name target h"
proof -
  have idem: "unlink_target name (unlink_target name h) = unlink_target name h"
    using unlink_target_pads [of name h] unfolding unlink_target_def [of name "unlink_target name h"]
    by (auto split: option.splits)
  assume "map_of (hb_pads h) name \<noteq> None"
  then show ?thesis
    by (auto simp: set_target_def gst_ghost_pad_set_target_def idem split: option.splits)
qed

lemma frame_set_target [intro]: "hub_frame h (fst (set_target env name target h))"
  by (cases "map_of (hb_pads h) name = None") (auto simp: set_target_eq, simp add: set_target_def)

section \<open>Runs of a hub\<close>

text \<open>What its class, its ports and GStreamer do with a hub.\<close>

datatype hub_op =
    Handle_port nat bool "nat option"
  | Unhandle_port u32
  | Link_sink media_kind u32 nat string bool
  | Link_src media_kind u32 nat string bool
  | Unlink_pad media_kind bool u32
  | Port_pad_added u32 pad bool
  | Port_pad_linked string pad
  | Port_pad_unlinked string

fun link_sink_op :: "media_kind \<Rightarrow> hub_env \<Rightarrow> u32 \<Rightarrow> nat \<Rightarrow> string \<Rightarrow> bool \<Rightarrow> base_hub \<Rightarrow> base_hub \<times> bool" where
  "link_sink_op Audio = kms_base_hub_link_audio_sink_default"
| "link_sink_op Video = kms_base_hub_link_video_sink_default"
| "link_sink_op Data = kms_base_hub_link_data_sink_default"

fun link_src_op :: "media_kind \<Rightarrow> hub_env \<Rightarrow> u32 \<Rightarrow> nat \<Rightarrow> string \<Rightarrow> bool \<Rightarrow> base_hub \<Rightarrow> c_fault + base_hub \<times> bool" where
  "link_src_op Audio = kms_base_hub_link_audio_src_default"
| "link_src_op Video = kms_base_hub_link_video_src_default"
| "link_src_op Data = kms_base_hub_link_data_src_default"

fun unlink_op :: "media_kind \<Rightarrow> bool \<Rightarrow> hub_env \<Rightarrow> u32 \<Rightarrow> base_hub \<Rightarrow> base_hub \<times> bool" where
  "unlink_op Audio is_src = (if is_src then kms_base_hub_unlink_audio_src_default else kms_base_hub_unlink_audio_sink_default)"
| "unlink_op Video is_src = (if is_src then kms_base_hub_unlink_video_src_default else kms_base_hub_unlink_video_sink_default)"
| "unlink_op Data is_src = (if is_src then kms_base_hub_unlink_data_src_default else kms_base_hub_unlink_data_sink_default)"

fun hub_do :: "hub_env \<Rightarrow> hub_op \<Rightarrow> base_hub \<Rightarrow> c_fault + base_hub" where
  "hub_do env (Handle_port port is_port parent) h = Inr (fst (kms_base_hub_handle_port port is_port parent h))"
| "hub_do env (Unhandle_port pid) h = Inr (kms_base_hub_unhandle_port env pid h)"
| "hub_do env (Link_sink k pid el name rm) h = Inr (fst (link_sink_op k env pid el name rm h))"
| "hub_do env (Link_src k pid el name rm) h = bind_result (link_src_op k env pid el name rm h) (\<lambda>r. Inr (fst r))"
| "hub_do env (Unlink_pad k is_src pid) h = Inr (fst (unlink_op k is_src env pid h))"
| "hub_do env (Port_pad_added pid pad is_src) h = (case map_of (hb_ports h) pid of
     None \<Rightarrow> Inr h
   | Some pd \<Rightarrow> (if pd_signal pd then Inr (endpoint_pad_added env pd pad is_src h) else Inr h))"
| "hub_do env (Port_pad_linked name peer) h = Inr (ghost_pad_linked env name peer h)"
| "hub_do env (Port_pad_unlinked name) h = Inr (ghost_pad_unlinked env name h)"

text \<open>A run in which fewer ports are handled than there are ids.\<close>

inductive hub_run :: "base_hub \<Rightarrow> base_hub \<Rightarrow> bool" where
  run_none: "hub_run h h"
| run_call: "hub_run h h2" if "hub_run h h1" and "hb_port_count h1 \<noteq> -1"
    and "hub_do env op h1 = Inr h2"

definition targets_in :: "base_hub \<Rightarrow> bool" where
  "targets_in h \<longleftrightarrow> (\<forall>n gp p. map_of (hb_pads h) n = Some gp \<longrightarrow>
     gp_target gp = Some p \<longrightarrow> pad_element p \<in> set (hb_children h))"

definition ports_ok :: "base_hub \<Rightarrow> bool" where
  "ports_ok h \<longleftrightarrow> hash_ok (hb_ports h) \<and> (\<forall>i pd. map_of (hb_ports h) i = Some pd \<longrightarrow>
     pd_id pd = i \<and> pd_signal pd \<and> i < hb_port_count h \<and>
     (\<forall>p. Some p \<in> {pd_audio_sink_target pd, pd_video_sink_target pd, pd_data_sink_target pd} \<longrightarrow>
        pad_element p \<in> set (hb_children h)))"

definition pad_sound :: "base_hub \<Rightarrow> string \<Rightarrow> ghost_pad \<Rightarrow> bool" where
  "pad_sound h n gp \<longleftrightarrow> (gp_on_linked gp \<noteq> None \<longleftrightarrow> gp_is_src gp) \<and>
     (\<exists>k i. n = pad_name_of k (gp_is_src gp) i \<and> i < hb_port_count h \<and> (k \<noteq> Data \<longrightarrow> map_of (hb_ports h) i \<noteq> None))"

definition pads_ok :: "base_hub \<Rightarrow> bool" where
  "pads_ok h \<longleftrightarrow> hash_ok (hb_pads h) \<and> (\<forall>n gp. map_of (hb_pads h) n = Some gp \<longrightarrow> pad_sound h n gp)"

definition hub_ok :: "base_hub \<Rightarrow> bool" where
  "hub_ok h \<longleftrightarrow> ports_ok h \<and> pads_ok h \<and> targets_in h"

lemma hub_ok_init: "hub_ok (kms_base_hub_init\<lparr>hb_children := es, hb_parent := pa, hb_playing := pl\<rparr>)"
  by (simp add: hub_ok_def ports_ok_def pads_ok_def targets_in_def kms_base_hub_init_def)

lemma frame_pad:
  assumes "hub_frame h h'" "map_of (hb_pads h') n = Some gp'"
  obtains gp where "map_of (hb_pads h) n = Some gp" "gp_is_src gp' = gp_is_src gp"
    "gp_on_linked gp' = gp_on_linked gp" "gp_active gp' = gp_active gp"
proof -
  have "map_option gp_fixed (map_of (hb_pads h) n) = Some (gp_fixed gp')"
    using assms(1) [unfolded hub_frame_def, THEN conjunct2, THEN conjunct2, THEN conjunct2, THEN conjunct2, THEN conjunct2,
      THEN conjunct2, THEN spec, of n, symmetric] assms(2) by simp
  then show ?thesis using that by (auto simp: gp_fixed_def)
qed

lemma frame_ok:
  assumes "hub_ok h" "hub_frame h h'" "targets_in h'"
  shows "hub_ok h'"
proof -
  have "hash_ok (hb_pads h')" using assms(1,2) by (simp add: hub_ok_def pads_ok_def hash_ok_def hub_frame_def)
  moreover have "pad_sound h' n gp" if in': "map_of (hb_pads h') n = Some gp" for n gp
  proof -
    obtain g where g: "map_of (hb_pads h) n = Some g" "gp_is_src gp = gp_is_src g" "gp_on_linked gp = gp_on_linked g"
      by (rule frame_pad [OF assms(2) in'])
    have "pad_sound h n g" using assms(1) g(1) by (simp add: hub_ok_def pads_ok_def)
    then show ?thesis using assms(2) g by (simp add: pad_sound_def hub_frame_def)
  qed
  ultimately have "pads_ok h'" unfolding pads_ok_def by blast
  then show ?thesis using assms by (simp add: hub_ok_def ports_ok_def hub_frame_def)
qed

lemma targets_set_ghost:
  assumes "targets_in h" "\<And>p. target = Some p \<Longrightarrow> pad_element p \<in> set (hb_children h)"
  shows "targets_in (fst (gst_ghost_pad_set_target env name target h))"
proof -
  have "hb_children (fst (gst_ghost_pad_set_target env name target h)) = hb_children h"
    using frame_set_ghost [of h env name target] by (simp add: hub_frame_def)
  moreover have "pad_element p \<in> set (hb_children h)"
    if new: "map_of (hb_pads (fst (gst_ghost_pad_set_target env name target h))) n = Some gp" and
      "gp_target gp = Some p" for n gp p
  proof (cases "n = name")
    case True
    then obtain g where g: "map_of (hb_pads h) n = Some g" "gp = g\<lparr>gp_target :=
        (case target of None \<Rightarrow> None | Some p \<Rightarrow> (if he_target_ok env p then Some p else None))\<rparr>"
      using new unfolding set_ghost_pads by (cases "map_of (hb_pads h) name") auto
    then have "target = Some p"
      using \<open>gp_target gp = Some p\<close> by (auto split: option.splits if_splits)
    then show ?thesis using assms g(1) unfolding targets_in_def by blast
  next
    case False
    then have "map_of (hb_pads h) n = Some gp" using new by (simp add: set_ghost_pads)
    then show ?thesis using assms(1) that(2) unfolding targets_in_def by blast
  qed
  ultimately show ?thesis unfolding targets_in_def by simp
qed

lemma ok_set_ghost:
  assumes "hub_ok h" "\<And>p. target = Some p \<Longrightarrow> pad_element p \<in> set (hb_children h)"
  shows "hub_ok (fst (gst_ghost_pad_set_target env name target h))"
  using assms by (intro frame_ok [OF _ frame_set_ghost] targets_set_ghost) (auto simp: hub_ok_def)

lemma ok_set_target:
  assumes "hub_ok h" "\<And>p. target = Some p \<Longrightarrow> pad_element p \<in> set (hb_children h)"
  shows "hub_ok (fst (set_target env name target h))"
  using ok_set_ghost [OF assms, where env = env and name = name] assms(1) set_target_eq [of h name env target]
  by (cases "map_of (hb_pads h) name = None") (auto simp: set_target_def)

lemma ok_set_peer:
  assumes "hub_ok h" "map_of (hb_pads h) name = Some gp"
  shows "hub_ok (set_pad name (gp\<lparr>gp_peer := p\<rparr>) h)"
proof (rule frame_ok [OF assms(1)])
  show "hub_frame h (set_pad name (gp\<lparr>gp_peer := p\<rparr>) h)"
    using assms(2) by (rule frame_set_pad) (simp add: gp_fixed_def)
  show "targets_in (set_pad name (gp\<lparr>gp_peer := p\<rparr>) h)"
    using assms unfolding hub_ok_def targets_in_def by (auto split: if_splits)
qed

lemma ok_linked: assumes "hub_ok h" shows "hub_ok (ghost_pad_linked env name peer h)"
proof (cases "map_of (hb_pads h) name")
  case (Some gp)
  have ok: "hub_ok (set_pad name (gp\<lparr>gp_peer := Some peer\<rparr>) h)" using assms Some by (rule ok_set_peer)
  show ?thesis
    using ok by (auto simp: ghost_pad_linked_def Some set_target_cb_def intro!: ok_set_ghost split: option.splits)
qed (simp add: ghost_pad_linked_def assms)

lemma ok_unlinked: assumes "hub_ok h" shows "hub_ok (ghost_pad_unlinked env name h)"
  using assms ok_set_peer [OF assms, of name _ None]
  by (auto simp: ghost_pad_unlinked_def Let_def remove_target_cb_def intro!: ok_set_ghost split: option.splits)

lemma ok_out:
  assumes "hub_ok h"
  shows "hub_ok (h\<lparr>hb_out := es\<rparr>)" "hub_ok (h\<lparr>hb_on_unlink := ps\<rparr>)" "hub_ok (h\<lparr>hb_serial := m\<rparr>)"
    "hub_ok (h\<lparr>hb_serial := m, hb_on_unlink := ps\<rparr>)" "hub_ok (remove_unlinked_pad p h)"
  using assms by (auto simp: hub_ok_def ports_ok_def pads_ok_def pad_sound_def targets_in_def remove_unlinked_pad_def)

lemma target_pad_spec:
  assumes "target_pad env el n rm h = (h1, t)"
  shows "\<And>p. t = Some p \<Longrightarrow> pad_element p = el" "hub_frame h h1" "hb_pads h1 = hb_pads h" "hub_ok h \<Longrightarrow> hub_ok h1"
    "hb_ports h1 = hb_ports h" "hb_children h1 = hb_children h" "hb_gone h1 = hb_gone h"
  using assms
  by (auto simp: target_pad_def gst_element_get_static_pad_def gst_element_request_pad_simple_def ok_out frame_out
      split: option.splits if_splits)

lemma ok_new_pad:
  assumes ok: "hub_ok h" and new: "map_of (hb_pads h) n = None" and snd: "pad_sound h n gp"
    and tg: "\<And>p. gp_target gp = Some p \<Longrightarrow> pad_element p \<in> set (hb_children h)"
  shows "hub_ok (set_pad n gp h)"
proof -
  have "pad_sound (set_pad n gp h) m g = pad_sound h m g" for m g by (simp add: pad_sound_def)
  then have "pads_ok (set_pad n gp h)" using ok snd by (auto simp: hub_ok_def pads_ok_def)
  moreover have "targets_in (set_pad n gp h)"
    using ok tg unfolding hub_ok_def targets_in_def by simp
  ultimately show ?thesis using ok by (simp add: hub_ok_def ports_ok_def)
qed

lemma ok_create_ghost:
  assumes "hub_ok h" "pad_element target \<in> set (hb_children h)" "map_of (hb_ports h) i \<noteq> None"
  shows "hub_ok (fst (kms_base_hub_create_and_link_ghost_pad env src_pad (pad_name_of k False i) target h))"
proof -
  have "i < hb_port_count h" using assms(1,3) by (auto simp: hub_ok_def ports_ok_def)
  then have "pad_sound h (pad_name_of k False i) gp" if "\<not> gp_is_src gp" "gp_on_linked gp = None" for gp
    using that assms(3) by (auto simp: pad_sound_def)
  then show ?thesis
    using assms by (auto simp: kms_base_hub_create_and_link_ghost_pad_def ok_out intro!: ok_new_pad)
qed

lemma pad_sound_mono:
  assumes "pad_sound h n gp" "hb_port_count h \<le> hb_port_count h'"
    "\<And>i. map_of (hb_ports h) i \<noteq> None \<Longrightarrow> map_of (hb_ports h') i \<noteq> None"
  shows "pad_sound h' n gp"
proof -
  obtain k i where ki: "n = pad_name_of k (gp_is_src gp) i" "i < hb_port_count h"
    "k \<noteq> Data \<longrightarrow> map_of (hb_ports h) i \<noteq> None" and l: "gp_on_linked gp \<noteq> None \<longleftrightarrow> gp_is_src gp"
    using assms(1) unfolding pad_sound_def by blast
  have "i < hb_port_count h'" using ki(2) assms(2) by (rule less_le_trans)
  then show ?thesis using ki l assms(3) unfolding pad_sound_def by blast
qed

lemma ok_set_port:
  assumes "hub_ok h" "map_of (hb_ports h) i = Some pd" "pd_id pd' = i" "pd_signal pd'"
    "\<And>p. Some p \<in> {pd_audio_sink_target pd', pd_video_sink_target pd', pd_data_sink_target pd'} \<Longrightarrow>
       pad_element p \<in> set (hb_children h)"
  shows "hub_ok (set_port i pd' h)"
proof -
  have "i < hb_port_count h" using assms(1,2) by (simp add: hub_ok_def ports_ok_def)
  then have "ports_ok (set_port i pd' h)"
    using assms by (auto simp: hub_ok_def ports_ok_def set_port_def)
  moreover have "pad_sound (set_port i pd' h) n gp" if "pad_sound h n gp" for n gp
    using that by (rule pad_sound_mono) (auto simp: set_port_def)
  then have "pads_ok (set_port i pd' h)" using assms(1) by (auto simp: hub_ok_def pads_ok_def set_port_def)
  moreover have "targets_in (set_port i pd' h)" using assms(1) by (simp add: hub_ok_def targets_in_def set_port_def)
  ultimately show ?thesis by (simp add: hub_ok_def)
qed

lemma link_sink_op_eq:
  "link_sink_op k env i el n rm = kms_base_hub_link_sink_pad env i (pad_name_of k False i) el n
     (case k of Audio \<Rightarrow> ''hub_audio_src'' | Video \<Rightarrow> ''hub_video_src'' | Data \<Rightarrow> ''hub_data_src'')
     (case k of Audio \<Rightarrow> pd_audio_sink_target_update | Video \<Rightarrow> pd_video_sink_target_update
        | Data \<Rightarrow> pd_data_sink_target_update) rm"
  by (cases k) (simp_all add: fun_eq_iff kms_base_hub_link_audio_sink_default_def pad_name_of_def
      kms_base_hub_link_video_sink_default_def kms_base_hub_link_data_sink_default_def)

lemma link_src_op_eq: "link_src_op k env i = kms_base_hub_link_src_pad env (pad_name_of k True i)"
  by (cases k) (simp_all add: kms_base_hub_link_audio_src_default_def pad_name_of_def
      kms_base_hub_link_video_src_default_def kms_base_hub_link_data_src_default_def)

lemma unlink_op_eq: "unlink_op k s env i = kms_base_hub_unlink_pad env (pad_name_of k s i)"
  by (cases k; cases s) (simp_all add: pad_name_of_def kms_base_hub_unlink_audio_src_default_def
      kms_base_hub_unlink_video_src_default_def kms_base_hub_unlink_data_src_default_def
      kms_base_hub_unlink_audio_sink_default_def kms_base_hub_unlink_video_sink_default_def
      kms_base_hub_unlink_data_sink_default_def)

lemma ok_link_sink:
  assumes ok: "hub_ok h"
  shows "hub_ok (fst (link_sink_op k env i el n rm h))"
proof (cases "el \<in> set (hb_children h)")
  case True
  obtain h1 r where r: "target_pad env el n rm h = (h1, r)" by (cases "target_pad env el n rm h")
  note tp = target_pad_spec [OF r]
  show ?thesis
  proof (cases "\<exists>t pd. r = Some t \<and> map_of (hb_ports h1) i = Some pd")
    case False
    then show ?thesis
      using True r tp(4) [OF ok]
      by (cases r; cases "map_of (hb_ports h1) i") (auto simp: link_sink_op_eq kms_base_hub_link_sink_pad_def)
  next
    case ex: True
    then obtain t pd where t: "r = Some t" "map_of (hb_ports h1) i = Some pd" by blast
    have in1: "pad_element t \<in> set (hb_children h1)" using True t(1) tp(1,6) by simp
    have pd: "pd_id pd = i" "pd_signal pd"
      "\<And>p. Some p \<in> {pd_audio_sink_target pd, pd_video_sink_target pd, pd_data_sink_target pd} \<Longrightarrow> pad_element p \<in> set (hb_children h1)"
      using tp(4) [OF ok] t(2) unfolding hub_ok_def ports_ok_def by blast+
    let ?u = "case k of Audio \<Rightarrow> pd_audio_sink_target_update | Video \<Rightarrow> pd_video_sink_target_update
        | Data \<Rightarrow> pd_data_sink_target_update"
    have ok2: "hub_ok (set_port i (?u (\<lambda>_. Some t) pd) h1)"
      using tp(4) [OF ok] t(2) by (rule ok_set_port) (use pd in1 in \<open>cases k; auto\<close>)+
    have "pad_element t \<in> set (hb_children (set_port i (?u (\<lambda>_. Some t) pd) h1))"
      "map_of (hb_ports (set_port i (?u (\<lambda>_. Some t) pd) h1)) i \<noteq> None"
      using in1 by (simp_all add: set_port_def)
    then show ?thesis
      using ok2 True r t
      by (auto simp: link_sink_op_eq kms_base_hub_link_sink_pad_def Let_def
          intro!: ok_set_target ok_create_ghost split: option.splits)
  qed
qed (simp add: link_sink_op_eq kms_base_hub_link_sink_pad_def ok)

lemma ok_link_to_port: "hub_ok h \<Longrightarrow> hub_ok (link_to_port env name port sink h)"
  by (auto simp: link_to_port_def intro: ok_linked dest: target_pad_spec(4) split: option.splits prod.splits)

lemma pad_added_src:
  "kms_base_hub_pad_added env (pad_name_of k True i) True h = (case map_of (hb_ports h) i of
     None \<Rightarrow> Inl Null_dereference
   | Some pd \<Rightarrow> Inr (link_to_port env (pad_name_of k True i) (pd_port pd)
       (case k of Audio \<Rightarrow> ''hub_audio_sink'' | Video \<Rightarrow> ''hub_video_sink'' | Data \<Rightarrow> ''hub_data_sink'') h))"
  using pad_port_name [of k True i h] by (cases k) (simp_all add: kms_base_hub_pad_added_def split: option.splits)

lemma ok_link_src:
  assumes ok: "hub_ok h" and run: "link_src_op k env i el n rm h = Inr (h', b)"
  shows "hub_ok h'"
proof (cases "el \<in> set (hb_children h)")
  case el: True
  obtain h1 r where r: "target_pad env el n rm h = (h1, r)" by (cases "target_pad env el n rm h")
  note tp = target_pad_spec [OF r]
  note ok1 = tp(4) [OF ok]
  show ?thesis
  proof (cases r)
    case None
    then show ?thesis using run el r ok1 by (simp add: link_src_op_eq kms_base_hub_link_src_pad_def)
  next
    case (Some t)
    have in1: "pad_element t \<in> set (hb_children h1)" using el Some tp(1,6) by simp
    show ?thesis
    proof (cases "map_of (hb_pads h1) (pad_name_of k True i) = None")
      case True
      let ?g = "\<lparr>gp_is_src = True, gp_active = hb_playing h1, gp_target = None, gp_on_linked = Some t, gp_peer = None\<rparr>"
      obtain pd where pd: "map_of (hb_ports h1) i = Some pd"
        "h' = link_to_port env (pad_name_of k True i) (pd_port pd)
           (case k of Audio \<Rightarrow> ''hub_audio_sink'' | Video \<Rightarrow> ''hub_video_sink'' | Data \<Rightarrow> ''hub_data_sink'')
           (set_pad (pad_name_of k True i) ?g h1)"
        using run el Some True r
        by (auto simp: link_src_op_eq kms_base_hub_link_src_pad_def pad_added_src bind_result_Inr_iff split: option.splits)
      have "i < hb_port_count h1" using ok1 pd(1) by (simp add: hub_ok_def ports_ok_def)
      then have "pad_sound h1 (pad_name_of k True i) ?g" using pd(1) by (auto simp: pad_sound_def)
      then have "hub_ok (set_pad (pad_name_of k True i) ?g h1)"
        by (rule ok_new_pad [OF ok1 True]) simp
      then show ?thesis using pd(2) ok_link_to_port by blast
    next
      case False
      then have "h' = fst (set_target env (pad_name_of k True i) (Some t) h1)"
        using run el Some r by (auto simp: link_src_op_eq kms_base_hub_link_src_pad_def)
      then show ?thesis using ok1 in1 by (auto intro!: ok_set_target)
    qed
  qed
qed (use run ok in \<open>auto simp: link_src_op_eq kms_base_hub_link_src_pad_def\<close>)

lemma ok_endpoint_pad_added:
  assumes ok: "hub_ok h" and pd: "map_of (hb_ports h) i = Some pd"
  shows "hub_ok (endpoint_pad_added env pd pad is_src h)"
proof -
  have "pd_id pd = i \<and> (\<forall>p. Some p \<in> {pd_audio_sink_target pd, pd_video_sink_target pd, pd_data_sink_target pd} \<longrightarrow>
      pad_element p \<in> set (hb_children h))"
    using ok pd unfolding hub_ok_def ports_ok_def by blast
  then have t: "pd_id pd = i" "\<And>p. pd_video_sink_target pd = Some p \<Longrightarrow> pad_element p \<in> set (hb_children h)"
    "\<And>p. pd_audio_sink_target pd = Some p \<Longrightarrow> pad_element p \<in> set (hb_children h)"
    "\<And>p. pd_data_sink_target pd = Some p \<Longrightarrow> pad_element p \<in> set (hb_children h)"
    by auto
  have g: "hub_ok (fst (kms_base_hub_create_and_link_ghost_pad env pad (pad_prefix k False @ print_gint i) p h))"
    if "pad_element p \<in> set (hb_children h)" for k p
    using ok_create_ghost [OF ok that, of i env pad k] pd by (simp add: pad_name_of_def)
  show ?thesis
    using ok t g [of _ Audio] g [of _ Video] g [of _ Data] by (auto simp: endpoint_pad_added_def)
qed

lemma remove_pad_spec:
  fixes h env pid pre
  defines "h' \<equiv> kms_base_hub_remove_port_pad env pid pre h"
  shows "map_of (hb_pads h') = (map_of (hb_pads h))(pre @ print_gint pid := None)"
    "hb_ports h' = hb_ports h" "hb_port_count h' = hb_port_count h" "hb_children h' = hb_children h"
    "hb_parent h' = hb_parent h" "hb_playing h' = hb_playing h" "hash_ok (hb_pads h) \<Longrightarrow> hash_ok (hb_pads h')"
proof -
  let ?n = "pre @ print_gint pid"
  let ?s = "fst (set_target env ?n None h)"
  have f: "hub_frame h ?s" by blast
  have p: "map_of (hb_pads ?s) m = map_of (hb_pads h) m" if "m \<noteq> ?n" for m
    using that by (cases "map_of (hb_pads h) ?n = None") (simp_all add: set_target_eq set_ghost_pads, simp add: set_target_def)
  show "map_of (hb_pads h') = (map_of (hb_pads h))(?n := None)"
    using p by (auto simp: h'_def kms_base_hub_remove_port_pad_def Let_def fun_eq_iff)
  show "hb_ports h' = hb_ports h" "hb_port_count h' = hb_port_count h" "hb_children h' = hb_children h"
    "hb_parent h' = hb_parent h" "hb_playing h' = hb_playing h" "hash_ok (hb_pads h) \<Longrightarrow> hash_ok (hb_pads h')"
    using f by (auto simp: h'_def kms_base_hub_remove_port_pad_def Let_def hub_frame_def hash_ok_def distinct_delete)
qed

text \<open>Unhandling a port removes its pads for audio and video, and touches no other pad.\<close>

lemma unhandle_spec:
  assumes "map_of (hb_ports h) pid = Some pd"
  shows "map_of (hb_pads (kms_base_hub_unhandle_port env pid h)) =
      (\<lambda>n. if \<exists>s k. k \<noteq> Data \<and> n = pad_name_of k s pid then None else map_of (hb_pads h) n)"
    "map_of (hb_ports (kms_base_hub_unhandle_port env pid h)) = (map_of (hb_ports h))(pid := None)"
    "hb_port_count (kms_base_hub_unhandle_port env pid h) = hb_port_count h"
    "hb_children (kms_base_hub_unhandle_port env pid h) = hb_children h"
    "hash_ok (hb_pads h) \<Longrightarrow> hash_ok (hb_pads (kms_base_hub_unhandle_port env pid h))"
    "hash_ok (hb_ports h) \<Longrightarrow> hash_ok (hb_ports (kms_base_hub_unhandle_port env pid h))"
proof -
  have "(\<exists>s k. k \<noteq> Data \<and> n = pad_name_of k s pid) \<longleftrightarrow> n = VIDEO_SRC_PAD_PREFIX @ print_gint pid \<or>
      n = VIDEO_SINK_PAD_PREFIX @ print_gint pid \<or> n = AUDIO_SRC_PAD_PREFIX @ print_gint pid \<or>
      n = AUDIO_SINK_PAD_PREFIX @ print_gint pid" for n
    by (metis (full_types) media_kind.exhaust media_kind.distinct pad_name_of_def pad_prefix.simps(1,2))
  then show "map_of (hb_pads (kms_base_hub_unhandle_port env pid h)) =
      (\<lambda>n. if \<exists>s k. k \<noteq> Data \<and> n = pad_name_of k s pid then None else map_of (hb_pads h) n)"
    using assms by (simp add: kms_base_hub_unhandle_port_def kms_base_hub_remove_port_pads_def Let_def
        remove_pad_spec(1) fun_eq_iff)
qed (use assms in \<open>auto simp: kms_base_hub_unhandle_port_def kms_base_hub_remove_port_pads_def Let_def
        remove_pad_spec\<close>)

lemma ok_unhandle: assumes ok: "hub_ok h" shows "hub_ok (kms_base_hub_unhandle_port env pid h)"
proof (cases "map_of (hb_ports h) pid")
  case (Some pd)
  let ?h = "kms_base_hub_unhandle_port env pid h"
  note u = unhandle_spec [OF Some, of env]
  have old: "map_of (hb_pads h) n = Some gp" "\<forall>k s. k \<noteq> Data \<longrightarrow> n \<noteq> pad_name_of k s pid"
    if "map_of (hb_pads ?h) n = Some gp" for n gp
    using that by (auto simp: u(1) split: if_splits)
  have "pad_sound ?h n gp" if "map_of (hb_pads ?h) n = Some gp" for n gp
  proof -
    have "pad_sound h n gp" using ok old(1) [OF that] by (simp add: hub_ok_def pads_ok_def)
    then show ?thesis using old(2) [OF that] unfolding pad_sound_def u(2,3) by (metis fun_upd_other)
  qed
  then have "pads_ok ?h" using ok u(5) by (simp add: hub_ok_def pads_ok_def)
  moreover have "targets_in ?h" using ok old(1) unfolding hub_ok_def targets_in_def u(4) by blast
  moreover have "ports_ok ?h" using ok u(2-4,6) by (auto simp: hub_ok_def ports_ok_def)
  ultimately show ?thesis by (simp add: hub_ok_def)
qed (simp add: kms_base_hub_unhandle_port_def ok)

lemma ok_handle:
  assumes ok: "hub_ok h" and few: "hb_port_count h \<noteq> -1"
  shows "hub_ok (fst (kms_base_hub_handle_port port is_port parent h))"
proof -
  let ?n = "hb_port_count h"
  let ?h = "set_port ?n ((kms_base_hub_port_data_create port ?n)\<lparr>pd_signal := True\<rparr>) (h\<lparr>hb_port_count := ?n + 1\<rparr>)"
  have "1 + ?n \<noteq> 0" using few by (metis add.commute eq_neg_iff_add_eq_0)
  then have lt: "?n < ?n + 1" by (simp add: word_less_nat_alt add.commute [of _ 1] unatSuc)
  have grow: "i < ?n + 1" if "i < ?n" for i using that lt by simp
  have "pad_sound ?h n gp" if "pad_sound h n gp" for n gp
    using that by (rule pad_sound_mono) (use lt in \<open>auto simp: set_port_def\<close>)
  then have "pads_ok ?h" using ok by (auto simp: hub_ok_def pads_ok_def set_port_def)
  moreover have "ports_ok ?h"
    using ok lt grow by (auto simp: hub_ok_def ports_ok_def set_port_def kms_base_hub_port_data_create_def)
  moreover have "targets_in ?h" using ok by (simp add: hub_ok_def targets_in_def set_port_def)
  ultimately have "hub_ok ?h" by (simp add: hub_ok_def)
  then show ?thesis using ok by (auto simp: kms_base_hub_handle_port_def kms_base_hub_generate_port_id_def Let_def)
qed

lemma ok_unlink: "hub_ok h \<Longrightarrow> hub_ok (fst (unlink_op k s env i h))"
  by (auto simp: unlink_op_eq kms_base_hub_unlink_pad_def intro!: ok_set_target)

lemma ok_do:
  assumes ok: "hub_ok h" and few: "hb_port_count h \<noteq> -1" and run: "hub_do env c h = Inr h'"
  shows "hub_ok h'"
  using run
proof (cases c)
  case (Port_pad_added i pad is_src)
  then show ?thesis
    using run ok ok_endpoint_pad_added [OF ok] by (auto split: option.splits if_splits)
next
  case (Link_src k i el n rm)
  then show ?thesis using run ok_link_src [OF ok] by (auto simp: bind_result_Inr_iff)
qed (use ok few in \<open>auto intro: ok_handle ok_unhandle ok_link_sink ok_unlink ok_linked ok_unlinked\<close>)

text \<open>
  C29: the bookkeeping of a hub. However ports come and go, internal elements are linked and
  unlinked and pads of the ports appear, the data of a port is stored under its id; every ghost
  pad has the name of its media, direction and port, an audio or video pad the name of a port
  that is handled; and whatever a ghost pad stands for is a pad of an element of the hub.
\<close>

theorem hub_stays_ok:
  assumes "hub_run (kms_base_hub_init\<lparr>hb_children := es, hb_parent := pa, hb_playing := pl\<rparr>) h"
  shows "hub_ok h"
  using assms
  by (induction "kms_base_hub_init\<lparr>hb_children := es, hb_parent := pa, hb_playing := pl\<rparr>" h rule: hub_run.induct)
    (auto intro: hub_ok_init ok_do)

definition demo_hub_env :: hub_env where
  "demo_hub_env = \<lparr>he_has_pad = (\<lambda>e n. n \<in> {''sink'', ''hub_audio_src'', ''hub_video_src'', ''hub_data_src''}),
     he_gives_pad = (\<lambda>e n. True), he_target_ok = (\<lambda>_. True), he_link_ok = (\<lambda>_. True)\<rparr>"

definition demo_hub :: base_hub where
  "demo_hub = kms_base_hub_init\<lparr>hb_children := [5, 6], hb_parent := Some 1, hb_playing := True\<rparr>"

theorem hub_stays_ok_witness:
  "\<exists>h. hub_run demo_hub h \<and> hub_ok h \<and> map_of (hb_pads h) ''audio_src_0'' = Some \<lparr>gp_is_src = True, gp_active = True,
     gp_target = Some (Pad 5 ''src'' 1), gp_on_linked = Some (Pad 5 ''src'' 1), gp_peer = Some (Pad 7 ''hub_audio_sink'' 2)\<rparr>"
proof -
  define h1 where "h1 = fst (kms_base_hub_handle_port 7 True (Some 1) demo_hub)"
  have 1: "hub_run demo_hub h1"
    by (rule run_call [OF run_none, of _ demo_hub_env "Handle_port 7 True (Some 1)"])
      (simp_all add: h1_def demo_hub_def kms_base_hub_init_def)
  have name: "''audio_src_0'' = pad_name_of Audio True 0" by code_simp
  obtain h2 where 2: "hub_do demo_hub_env (Link_src Audio 0 5 ''src'' False) h1 = Inr h2"
    "map_of (hb_pads h2) ''audio_src_0'' = Some \<lparr>gp_is_src = True, gp_active = True,
     gp_target = Some (Pad 5 ''src'' 1), gp_on_linked = Some (Pad 5 ''src'' 1), gp_peer = Some (Pad 7 ''hub_audio_sink'' 2)\<rparr>"
    unfolding name hub_do.simps(4) link_src_op_eq
    by (simp add: h1_def demo_hub_def kms_base_hub_init_def kms_base_hub_handle_port_def kms_base_hub_generate_port_id_def
        set_port_def kms_base_hub_port_data_create_def kms_base_hub_link_src_pad_def target_pad_def demo_hub_env_def
        gst_element_get_static_pad_def gst_element_request_pad_simple_def pad_added_src link_to_port_def ghost_pad_linked_def set_target_cb_def gst_ghost_pad_set_target_def
        unlink_target_def)
  have "hb_port_count h1 \<noteq> -1" by (simp add: h1_def demo_hub_def kms_base_hub_init_def kms_base_hub_handle_port_def
        kms_base_hub_generate_port_id_def set_port_def)
  then have r: "hub_run demo_hub h2" using run_call [OF 1 _ 2(1)] by blast
  then show ?thesis using 2(2) hub_stays_ok [OF r [unfolded demo_hub_def]] by blast
qed

section \<open>Which comes first does not matter\<close>

definition src_pad_name :: "media_kind \<Rightarrow> string" where
  "src_pad_name k = (case k of Audio \<Rightarrow> ''hub_audio_src'' | Video \<Rightarrow> ''hub_video_src'' | Data \<Rightarrow> ''hub_data_src'')"

definition sink_target :: "media_kind \<Rightarrow> hub_port_data \<Rightarrow> pad option" where
  "sink_target k pd = (case k of Audio \<Rightarrow> pd_audio_sink_target pd | Video \<Rightarrow> pd_video_sink_target pd | Data \<Rightarrow> pd_data_sink_target pd)"

lemma src_pad_contains:
  "str_prefix ''hub'' (src_pad_name k)" "contains_str ''video'' (src_pad_name k) \<longleftrightarrow> k = Video"
  "contains_str ''audio'' (src_pad_name k) \<longleftrightarrow> k = Audio" "contains_str ''data'' (src_pad_name k) \<longleftrightarrow> k = Data"
  by (cases k; simp add: src_pad_name_def str_prefix_def)+

lemma endpoint_added_eq:
  "endpoint_pad_added env pd (Pad e (src_pad_name k) m) True h = (case sink_target k pd of
     None \<Rightarrow> h
   | Some t \<Rightarrow> fst (kms_base_hub_create_and_link_ghost_pad env (Pad e (src_pad_name k) m) (pad_name_of k False (pd_id pd)) t h))"
  by (cases k) (auto simp: endpoint_pad_added_def src_pad_contains sink_target_def pad_name_of_def split: option.splits)

text \<open>The environment before a port has its source pad for a media.\<close>

definition without_src :: "nat \<Rightarrow> media_kind \<Rightarrow> hub_env \<Rightarrow> hub_env" where
  "without_src port k env = env\<lparr>he_has_pad := (he_has_pad env)(port := (he_has_pad env port)(src_pad_name k := False))\<rparr>"

lemma target_pad_without: "el \<noteq> port \<Longrightarrow> target_pad (without_src port k env) el n rm = target_pad env el n rm"
  by (cases "he_has_pad env el n") (simp_all add: fun_eq_iff target_pad_def without_src_def
      gst_element_get_static_pad_def gst_element_request_pad_simple_def)

text \<open>
  C31: a port's source pad and the link to an internal element may come in either order. When
  the hub links the sink of a media before the port has the pad, it keeps the target and makes
  the ghost pad as the pad appears; when the pad is there first, linking makes it. In both
  orders, and whether linking works or not, the hub ends in the same state.
\<close>

theorem hub_link_order:
  assumes port: "map_of (hb_ports h) pid = Some pd" "pd_id pd = pid" "pd_signal pd"
    and fresh: "sink_target k pd = None" "map_of (hb_pads h) (pad_name_of k False pid) = None"
    and pad: "he_has_pad env (pd_port pd) (src_pad_name k)"
    and el: "el \<noteq> pd_port pd"
  shows "bind_result (hub_do (without_src (pd_port pd) k env) (Link_sink k pid el n rm) h)
      (hub_do env (Port_pad_added pid (Pad (pd_port pd) (src_pad_name k) 0) True)) =
    bind_result (hub_do env (Port_pad_added pid (Pad (pd_port pd) (src_pad_name k) 0) True) h)
      (hub_do env (Link_sink k pid el n rm))"
proof -
  let ?u = "case k of Audio \<Rightarrow> pd_audio_sink_target_update | Video \<Rightarrow> pd_video_sink_target_update
        | Data \<Rightarrow> pd_data_sink_target_update"
  have u: "sink_target k (?u (\<lambda>_. Some t) pd) = Some t" "pd_id (?u (\<lambda>_. Some t) pd) = pid" "pd_signal (?u (\<lambda>_. Some t) pd)"
    "pd_port (?u (\<lambda>_. Some t) pd) = pd_port pd" for t
    using port by (cases k; simp add: sink_target_def)+
  have name: "(case k of Audio \<Rightarrow> ''hub_audio_src'' | Video \<Rightarrow> ''hub_video_src'' | Data \<Rightarrow> ''hub_data_src'') = src_pad_name k"
    by (simp add: src_pad_name_def)
  have none: "gst_element_get_static_pad (without_src (pd_port pd) k env) (pd_port pd) (src_pad_name k) = None"
    by (simp add: without_src_def gst_element_get_static_pad_def)
  have some: "gst_element_get_static_pad env (pd_port pd) (src_pad_name k) = Some (Pad (pd_port pd) (src_pad_name k) 0)"
    using pad by (simp add: gst_element_get_static_pad_def)
  have first: "hub_do env (Port_pad_added pid (Pad (pd_port pd) (src_pad_name k) 0) True) h = Inr h"
    using port fresh by (simp add: endpoint_added_eq)
  show ?thesis
  proof (cases "el \<in> set (hb_children h)")
    case True
    obtain h1 r where r: "target_pad env el n rm h = (h1, r)" by (cases "target_pad env el n rm h")
    have "map_of (hb_ports h1) pid = Some pd" "map_of (hb_pads h1) (pad_name_of k False pid) = None"
      using target_pad_spec(3,5) [OF r] port(1) fresh(2) by simp_all
    then show ?thesis
      using True r some u port fresh(1) first
      by (cases r) (simp_all add: link_sink_op_eq kms_base_hub_link_sink_pad_def target_pad_without [OF el] name none
          Let_def set_port_def endpoint_added_eq)
  next
    case False
    then show ?thesis using first by (simp add: link_sink_op_eq kms_base_hub_link_sink_pad_def)
  qed
qed

theorem hub_link_order_witness:
  "\<exists>h pd. h = fst (kms_base_hub_handle_port 7 True (Some 1) demo_hub) \<and> map_of (hb_ports h) 0 = Some pd \<and>
     bind_result (hub_do (without_src 7 Video demo_hub_env) (Link_sink Video 0 5 ''sink'' False) h)
       (hub_do demo_hub_env (Port_pad_added 0 (Pad 7 (src_pad_name Video) 0) True)) =
     bind_result (hub_do demo_hub_env (Port_pad_added 0 (Pad 7 (src_pad_name Video) 0) True) h)
       (hub_do demo_hub_env (Link_sink Video 0 5 ''sink'' False))"
proof -
  define h where "h = fst (kms_base_hub_handle_port 7 True (Some 1) demo_hub)"
  define pd where "pd = (kms_base_hub_port_data_create 7 0)\<lparr>pd_signal := True\<rparr>"
  have pd: "pd_port pd = 7" "pd_id pd = 0" "pd_signal pd" "sink_target Video pd = None"
    by (simp_all add: pd_def kms_base_hub_port_data_create_def sink_target_def)
  have p: "map_of (hb_ports h) 0 = Some pd" and none: "map_of (hb_pads h) (pad_name_of Video False 0) = None"
    by (simp_all add: h_def pd_def demo_hub_def kms_base_hub_init_def kms_base_hub_handle_port_def
        kms_base_hub_generate_port_id_def set_port_def)
  have st: "he_has_pad demo_hub_env (pd_port pd) (src_pad_name Video)"
    by (simp add: demo_hub_env_def src_pad_name_def)
  show ?thesis
    using hub_link_order [OF p pd(2-4) none st, of 5 "''sink''" False] p pd(1) by (auto simp: h_def)
qed

text \<open>The pads for data stay when their port goes, and still stand for the internal element.\<close>

lemma data_pads_outlive_port:
  assumes "map_of (hb_ports h) pid = Some pd"
  shows "map_of (hb_pads (kms_base_hub_unhandle_port env pid h)) (pad_name_of Data s pid) = map_of (hb_pads h) (pad_name_of Data s pid)"
  using assms by (simp add: unhandle_spec(1))

text \<open>The source of a port that is not there: the callback of the new pad reads a missing port.\<close>

lemma unknown_port_faults:
  assumes "el \<in> set (hb_children h)" "target_pad env el n rm h = (h1, Some t)"
    and "map_of (hb_pads h1) (pad_name_of k True pid) = None" "map_of (hb_ports h1) pid = None"
  shows "link_src_op k env pid el n rm h = Inl Null_dereference"
  using assms by (simp add: link_src_op_eq kms_base_hub_link_src_pad_def pad_added_src)

text \<open>The sink of a port that is not there: the pad that was requested stays with its element.\<close>

lemma unknown_port_keeps_request:
  assumes "el \<in> set (hb_children h)" "\<not> he_has_pad env el n" "he_gives_pad env el n"
    and "map_of (hb_ports h) pid = None"
  shows "link_sink_op k env pid el n True h =
    (h\<lparr>hb_serial := Suc (hb_serial h), hb_on_unlink := hb_on_unlink h @ [Pad el n (Suc (hb_serial h))]\<rparr>, False)"
  using assms by (simp add: link_sink_op_eq kms_base_hub_link_sink_pad_def target_pad_def
      gst_element_get_static_pad_def gst_element_request_pad_simple_def)

section \<open>Elements of the bin, and what the sources of ports stand for\<close>

definition gst_bin_add :: "nat \<Rightarrow> base_hub \<Rightarrow> base_hub" where
  "gst_bin_add el h = h\<lparr>hb_children := hb_children h @ [el]\<rparr>"

text \<open>An element that is taken out of the bin is unlinked, and its pads go with it.\<close>

definition gst_bin_remove :: "nat \<Rightarrow> base_hub \<Rightarrow> base_hub" where
  "gst_bin_remove el h = h\<lparr>hb_children := filter (\<lambda>e. e \<noteq> el) (hb_children h),
     hb_pads := map (\<lambda>(n, gp). (n, if map_option pad_element (gp_target gp) = Some el then gp\<lparr>gp_target := None\<rparr> else gp)) (hb_pads h),
     hb_on_unlink := filter (\<lambda>p. pad_element p \<noteq> el) (hb_on_unlink h)\<rparr>"

definition target_el :: "media_kind \<Rightarrow> u32 \<Rightarrow> base_hub \<Rightarrow> nat option" where
  "target_el k i h = map_option pad_element (Option.bind (map_of (hb_pads h) (pad_name_of k True i)) gp_target)"

text \<open>No pad that was requested has a number that is still to be given.\<close>

definition serials_ok :: "base_hub \<Rightarrow> bool" where
  "serials_ok h \<longleftrightarrow> (\<forall>p \<in> set (hb_gone h) \<union> set (hb_on_unlink h). pad_serial p \<le> hb_serial h)"

lemma serials_remove_unlinked: "serials_ok h \<Longrightarrow> serials_ok (remove_unlinked_pad p h)"
  by (auto simp: serials_ok_def remove_unlinked_pad_def)

lemma serials_set_pad [simp]: "serials_ok (set_pad n gp h) = serials_ok h"
  by (simp add: serials_ok_def)

lemma serials_unlink: "serials_ok h \<Longrightarrow> serials_ok (unlink_target n h)"
  by (auto simp: unlink_target_def intro!: serials_remove_unlinked split: option.splits)
    (simp add: serials_ok_def)

lemma serials_set_ghost: "serials_ok h \<Longrightarrow> serials_ok (fst (gst_ghost_pad_set_target env n t h))"
  using serials_unlink [of h n] by (auto simp: gst_ghost_pad_set_target_def Let_def split: option.splits)

lemma serials_set_target: "serials_ok h \<Longrightarrow> serials_ok (fst (set_target env n t h))"
  by (auto simp: set_target_def intro: serials_set_ghost serials_unlink split: option.splits)

lemma serials_unlink_pad: "serials_ok h \<Longrightarrow> serials_ok (fst (kms_base_hub_unlink_pad env n h))"
  by (auto simp: kms_base_hub_unlink_pad_def intro: serials_set_target)

lemma serials_target_pad: "target_pad env el n rm h = (h1, t) \<Longrightarrow> serials_ok h \<Longrightarrow> serials_ok h1"
  by (auto simp: target_pad_def gst_element_get_static_pad_def gst_element_request_pad_simple_def serials_ok_def
      le_SucI split: option.splits if_splits)

lemma serials_bin [simp]: "serials_ok (gst_bin_add el h) = serials_ok h" "serials_ok h \<Longrightarrow> serials_ok (gst_bin_remove el h)"
  by (auto simp: serials_ok_def gst_bin_add_def gst_bin_remove_def)

lemma target_el_frame:
  assumes "map_of (hb_pads h') = (map_of (hb_pads h))(n := x)" "n \<noteq> pad_name_of k True i"
  shows "target_el k i h' = target_el k i h"
  using assms by (simp add: target_el_def)

lemma target_el_bin:
  "target_el k i (gst_bin_add el h) = target_el k i h"
  "target_el k i (gst_bin_remove el h) = (if target_el k i h = Some el then None else target_el k i h)"
proof -
  have "map_of (map (\<lambda>(n, gp). (n, if map_option pad_element (gp_target gp) = Some el then gp\<lparr>gp_target := None\<rparr> else gp)) xs) n =
      map_option (\<lambda>gp. if map_option pad_element (gp_target gp) = Some el then gp\<lparr>gp_target := None\<rparr> else gp) (map_of xs n)"
    for xs :: "(string, ghost_pad) hash_table" and n
    by (induction xs) auto
  then show "target_el k i (gst_bin_remove el h) = (if target_el k i h = Some el then None else target_el k i h)"
    by (cases "map_of (hb_pads h) (pad_name_of k True i)") (auto simp: target_el_def gst_bin_remove_def)
qed (simp add: target_el_def gst_bin_add_def)

text \<open>An environment in which elements give source pads and everything can be linked.\<close>

definition env_links :: "hub_env \<Rightarrow> bool" where
  "env_links env \<longleftrightarrow> (\<forall>p. he_target_ok env p) \<and> (\<forall>p. he_link_ok env p) \<and>
     (\<forall>e. \<not> he_has_pad env e ''src_%u'' \<and> he_gives_pad env e ''src_%u'') \<and>
     (\<forall>e. \<forall>n \<in> {''hub_audio_sink'', ''hub_video_sink'', ''hub_data_sink''}. he_has_pad env e n \<or> he_gives_pad env e n)"

lemma src_pad_given:
  assumes "env_links env" "serials_ok h"
  obtains h1 where "target_pad env el ''src_%u'' True h = (h1, Some (Pad el ''src_%u'' (Suc (hb_serial h))))"
    "Pad el ''src_%u'' (Suc (hb_serial h)) \<notin> set (hb_gone h1)"
proof -
  have "Pad el ''src_%u'' (Suc (hb_serial h)) \<notin> set (hb_gone h)"
    using assms(2) by (metis Suc_n_not_le_n UnI1 pad.sel(3) serials_ok_def)
  then show ?thesis
    using that assms(1)
    by (simp add: env_links_def target_pad_def gst_element_get_static_pad_def gst_element_request_pad_simple_def)
qed

lemma linked_port:
  assumes env: "env_links env" and el: "el \<in> set (hb_children h)"
    and gp: "map_of (hb_pads h) n = Some gp" "gp_on_linked gp = Some t" "pad_element t = el" "t \<notin> set (hb_gone h)"
    and sink: "sink \<in> {''hub_audio_sink'', ''hub_video_sink'', ''hub_data_sink''}"
  shows "\<exists>gp'. map_of (hb_pads (link_to_port env n port sink h)) = (map_of (hb_pads h))(n \<mapsto> gp') \<and> gp_target gp' = Some t"
proof -
  have "\<exists>h1 p. target_pad env port sink False h = (h1, Some p)"
    using env sink by (auto simp: env_links_def target_pad_def gst_element_get_static_pad_def gst_element_request_pad_simple_def)
  then obtain h1 p where p: "target_pad env port sink False h = (h1, Some p)" by blast
  note tp = target_pad_spec(3,6,7) [OF p]
  have ok: "he_link_ok env p" "he_target_ok env t" using env by (simp_all add: env_links_def)
  have "link_to_port env n port sink h =
      fst (gst_ghost_pad_set_target env n (Some t) (set_pad n (gp\<lparr>gp_peer := Some p\<rparr>) h1))"
    using p ok gp tp el by (simp add: link_to_port_def ghost_pad_linked_def set_target_cb_def)
  then show ?thesis using gp(1) ok(2) tp(1) by (simp add: set_ghost_pads fun_eq_iff)
qed

lemma serials_link_to_port: "serials_ok h \<Longrightarrow> serials_ok (link_to_port env n port sink h)"
  by (auto simp: link_to_port_def ghost_pad_linked_def set_target_cb_def split: option.splits prod.splits
      dest!: serials_target_pad intro!: serials_set_ghost)

lemma frame_link_to_port: "hub_frame h (link_to_port env n port sink h)"
proof -
  obtain h1 r where r: "target_pad env port sink False h = (h1, r)" by (cases "target_pad env port sink False h")
  note f = target_pad_spec(2) [OF r]
  have "hub_frame h1 (ghost_pad_linked env n p h1)" for p
  proof (cases "map_of (hb_pads h1) n")
    case (Some gp)
    have "hub_frame h1 (set_pad n (gp\<lparr>gp_peer := Some p\<rparr>) h1)"
      using Some by (rule frame_set_pad) (simp add: gp_fixed_def)
    then show ?thesis
      using Some by (auto simp: ghost_pad_linked_def set_target_cb_def intro: hub_frame_trans split: option.splits)
  qed (simp add: ghost_pad_linked_def)
  then show ?thesis
    using f r by (auto simp: link_to_port_def intro: hub_frame_trans split: option.splits)
qed

text \<open>Linking the source of a port: it stands for the element from then on.\<close>

lemma link_src_effect:
  assumes env: "env_links env" and el: "el \<in> set (hb_children h)"
    and port: "map_of (hb_ports h) i \<noteq> None" and ser: "serials_ok h"
  obtains h' where "link_src_op k env i el ''src_%u'' True h = Inr (h', True)"
    "hb_ports h' = hb_ports h" "hb_children h' = hb_children h" "hb_port_count h' = hb_port_count h" "serials_ok h'"
    "\<forall>k' j. target_el k' j h' = (if k' = k \<and> j = i then Some el else target_el k' j h)"
proof -
  let ?t = "Pad el ''src_%u'' (Suc (hb_serial h))" and ?n = "pad_name_of k True i"
  let ?sink = "case k of Audio \<Rightarrow> ''hub_audio_sink'' | Video \<Rightarrow> ''hub_video_sink'' | Data \<Rightarrow> ''hub_data_sink''"
  obtain h1 where h1: "target_pad env el ''src_%u'' True h = (h1, Some ?t)" "?t \<notin> set (hb_gone h1)"
    using src_pad_given [OF env ser] by metis
  note tp = target_pad_spec [OF h1(1)]
  have ser1: "serials_ok h1" using serials_target_pad [OF h1(1) ser] .
  show ?thesis
  proof (cases "map_of (hb_pads h1) ?n = None")
    case True
    let ?g = "\<lparr>gp_is_src = True, gp_active = hb_playing h1, gp_target = None, gp_on_linked = Some ?t, gp_peer = None\<rparr>"
    obtain pd where pd: "map_of (hb_ports h1) i = Some pd" using port tp(5) by auto
    let ?h = "link_to_port env ?n (pd_port pd) ?sink (set_pad ?n ?g h1)"
    have run: "link_src_op k env i el ''src_%u'' True h = Inr (?h, True)"
      using el h1(1) True pd by (simp add: link_src_op_eq kms_base_hub_link_src_pad_def pad_added_src)
    have "?sink \<in> {''hub_audio_sink'', ''hub_video_sink'', ''hub_data_sink''}" by (cases k) simp_all
    then obtain gp' where gp': "map_of (hb_pads ?h) = (map_of (hb_pads (set_pad ?n ?g h1)))(?n \<mapsto> gp')" "gp_target gp' = Some ?t"
      using linked_port [OF env, of el "set_pad ?n ?g h1" ?n ?g ?t ?sink "pd_port pd"] el h1(2) tp(6) by auto
    have "hub_frame (set_pad ?n ?g h1) ?h" by (rule frame_link_to_port)
    then have "hb_ports ?h = hb_ports h" "hb_children ?h = hb_children h" "hb_port_count ?h = hb_port_count h"
      using tp(2) by (simp_all add: hub_frame_def)
    moreover have "serials_ok ?h" using ser1 by (simp add: serials_link_to_port)
    moreover have "target_el k' j ?h = (if k' = k \<and> j = i then Some el else target_el k' j h)" for k' j
      using gp' tp(3) by (simp add: target_el_def)
    ultimately show ?thesis using that run by blast
  next
    case False
    let ?h = "fst (set_target env ?n (Some ?t) h1)"
    have ok: "he_target_ok env p" for p using env by (simp add: env_links_def)
    have "snd (set_target env ?n (Some ?t) h1)"
      using False ok by (auto simp: set_target_eq gst_ghost_pad_set_target_def Let_def unlink_target_pads split: option.splits)
    then have set: "set_target env ?n (Some ?t) h1 = (?h, True)" by (simp add: prod_eq_iff)
    have run: "link_src_op k env i el ''src_%u'' True h = Inr (?h, True)"
      using el h1(1) False set by (auto simp: link_src_op_eq kms_base_hub_link_src_pad_def)
    have "hub_frame h1 ?h" by blast
    then have "hb_ports ?h = hb_ports h" "hb_children ?h = hb_children h" "hb_port_count ?h = hb_port_count h"
      using tp(2) by (simp_all add: hub_frame_def)
    moreover have "serials_ok ?h" using ser1 by (rule serials_set_target)
    moreover have "target_el k' j ?h = (if k' = k \<and> j = i then Some el else target_el k' j h)" for k' j
      using False ok tp(3) by (auto simp: target_el_def set_target_eq set_ghost_pads)
    ultimately show ?thesis using that run by blast
  qed
qed

text \<open>Unlinking it, linking a sink, and unhandling and handling a port.\<close>

lemma unlink_src_effect:
  fixes h k env i
  defines "h' \<equiv> fst (unlink_op k True env i h)"
  assumes ser: "serials_ok h"
  shows "hb_ports h' = hb_ports h" "hb_children h' = hb_children h" "hb_port_count h' = hb_port_count h" "serials_ok h'"
    "target_el k' j h' = (if k' = k \<and> j = i then None else target_el k' j h)"
proof -
  have f: "hub_frame h h'" by (auto simp: h'_def unlink_op_eq kms_base_hub_unlink_pad_def)
  then show "hb_ports h' = hb_ports h" "hb_children h' = hb_children h" "hb_port_count h' = hb_port_count h"
    by (simp_all add: hub_frame_def)
  show "serials_ok h'" using ser by (simp add: h'_def unlink_op_eq serials_unlink_pad)
  show "target_el k' j h' = (if k' = k \<and> j = i then None else target_el k' j h)"
    by (cases "map_of (hb_pads h) (pad_name_of k True i)")
      (auto simp: h'_def unlink_op_eq kms_base_hub_unlink_pad_def target_el_def set_target_eq set_ghost_pads)
qed

lemma set_target_other:
  assumes "n \<noteq> pad_name_of k True i"
  shows "target_el k i (fst (set_target env n t h)) = target_el k i h"
  using assms by (cases "map_of (hb_pads h) n = None") (simp_all add: target_el_def set_target_eq set_ghost_pads,
      simp add: set_target_def)

lemma create_ghost_spec:
  fixes env sp n t h
  defines "h' \<equiv> fst (kms_base_hub_create_and_link_ghost_pad env sp n t h)"
  shows "hb_ports h' = hb_ports h" "hb_children h' = hb_children h" "hb_port_count h' = hb_port_count h"
    "serials_ok h \<Longrightarrow> serials_ok h'" "n \<noteq> pad_name_of k True i \<Longrightarrow> target_el k i h' = target_el k i h"
proof -
  show "hb_ports h' = hb_ports h" "hb_children h' = hb_children h" "hb_port_count h' = hb_port_count h"
    by (simp_all add: h'_def kms_base_hub_create_and_link_ghost_pad_def)
  have "serials_ok h \<Longrightarrow> serials_ok (remove_unlinked_pad t (h\<lparr>hb_out := es\<rparr>))" for es
    by (rule serials_remove_unlinked) (simp add: serials_ok_def)
  then show "serials_ok h \<Longrightarrow> serials_ok h'"
    by (simp add: h'_def kms_base_hub_create_and_link_ghost_pad_def)
  show "n \<noteq> pad_name_of k True i \<Longrightarrow> target_el k i h' = target_el k i h"
    by (simp add: h'_def kms_base_hub_create_and_link_ghost_pad_def target_el_def)
qed

lemma link_sink_effect:
  fixes h k env i el n rm
  defines "h' \<equiv> fst (link_sink_op k env i el n rm h)"
  assumes ser: "serials_ok h"
  shows "dom (map_of (hb_ports h')) = dom (map_of (hb_ports h))" "hb_children h' = hb_children h"
    "hb_port_count h' = hb_port_count h" "serials_ok h'" "target_el k' j h' = target_el k' j h"
proof -
  obtain h1 r where r: "target_pad env el n rm h = (h1, r)" by (cases "target_pad env el n rm h")
  note tp = target_pad_spec [OF r] and ser1 = serials_target_pad [OF r ser]
  have "dom (map_of (hb_ports h')) = dom (map_of (hb_ports h)) \<and> hb_children h' = hb_children h \<and>
    hb_port_count h' = hb_port_count h \<and> serials_ok h' \<and> target_el k' j h' = target_el k' j h"
  proof (cases "el \<in> set (hb_children h) \<and> (\<exists>t pd. r = Some t \<and> map_of (hb_ports h1) i = Some pd)")
    case False
    have "hb_port_count h1 = hb_port_count h" using tp(2) by (simp add: hub_frame_def)
    then have "dom (map_of (hb_ports h1)) = dom (map_of (hb_ports h)) \<and> hb_children h1 = hb_children h \<and>
      hb_port_count h1 = hb_port_count h \<and> serials_ok h1 \<and> target_el k' j h1 = target_el k' j h"
      using tp ser1 by (simp add: target_el_def)
    moreover have "h' = h \<or> h' = h1"
      using False r by (cases "el \<in> set (hb_children h)"; cases r; cases "map_of (hb_ports h1) i")
        (auto simp: h'_def link_sink_op_eq kms_base_hub_link_sink_pad_def)
    ultimately show ?thesis using ser by auto
  next
    case True
    then obtain t pd where t: "r = Some t" "map_of (hb_ports h1) i = Some pd" "el \<in> set (hb_children h)" by blast
    let ?u = "case k of Audio \<Rightarrow> pd_audio_sink_target_update | Video \<Rightarrow> pd_video_sink_target_update
        | Data \<Rightarrow> pd_data_sink_target_update"
    let ?h2 = "set_port i (?u (\<lambda>_. Some t) pd) h1" and ?n = "pad_name_of k False i"
    have h2: "dom (map_of (hb_ports ?h2)) = dom (map_of (hb_ports h))" "hb_children ?h2 = hb_children h"
      "hb_port_count ?h2 = hb_port_count h" "serials_ok ?h2" "target_el k' j ?h2 = target_el k' j h"
      using t(2) tp ser1 by (auto simp: set_port_def target_el_def serials_ok_def hub_frame_def)
    have "h' = ?h2 \<or> h' = fst (set_target env ?n (Some t) ?h2) \<or>
        (\<exists>sp. h' = fst (kms_base_hub_create_and_link_ghost_pad env sp ?n t ?h2))"
      using t r by (auto simp: h'_def link_sink_op_eq kms_base_hub_link_sink_pad_def Let_def split: option.splits)
    then show ?thesis
    proof (elim disjE exE)
      assume h': "h' = fst (set_target env ?n (Some t) ?h2)"
      have "hub_frame ?h2 h'" unfolding h' by blast
      then show ?thesis
        using h2 serials_set_target [OF h2(4), of env ?n "Some t"] by (simp add: h' hub_frame_def set_target_other)
    next
      fix sp assume "h' = fst (kms_base_hub_create_and_link_ghost_pad env sp ?n t ?h2)"
      then show ?thesis using h2 by (simp add: create_ghost_spec)
    qed (use h2 in simp)
  qed
  then show "dom (map_of (hb_ports h')) = dom (map_of (hb_ports h))" "hb_children h' = hb_children h"
    "hb_port_count h' = hb_port_count h" "serials_ok h'" "target_el k' j h' = target_el k' j h" by blast+
qed

lemma serials_unhandle: "serials_ok h \<Longrightarrow> serials_ok (kms_base_hub_unhandle_port env pid h)"
proof -
  have r: "serials_ok h \<Longrightarrow> serials_ok (kms_base_hub_remove_port_pad env i pre h)" for h i pre
    using serials_set_target [of h env "pre @ print_gint i" None]
    by (auto simp: kms_base_hub_remove_port_pad_def Let_def serials_ok_def)
  assume "serials_ok h"
  then have "serials_ok (kms_base_hub_remove_port_pads env pid (h\<lparr>hb_out := es\<rparr>))" for es
    unfolding kms_base_hub_remove_port_pads_def by (intro r) (simp add: serials_ok_def)
  then show ?thesis
    using \<open>serials_ok h\<close> by (simp add: kms_base_hub_unhandle_port_def Let_def serials_ok_def split: option.splits)
qed

lemma unhandle_effect:
  fixes h env i
  defines "h' \<equiv> kms_base_hub_unhandle_port env i h"
  assumes ser: "serials_ok h"
  shows "map_of (hb_ports h') = (map_of (hb_ports h))(i := None)" "hb_children h' = hb_children h"
    "hb_port_count h' = hb_port_count h" "serials_ok h'"
    "k \<noteq> Data \<Longrightarrow> map_of (hb_ports h) i \<noteq> None \<Longrightarrow> target_el k j h' = (if j = i then None else target_el k j h)"
proof -
  show "serials_ok h'" unfolding h'_def using ser by (rule serials_unhandle)
  have none: "h' = h" if "map_of (hb_ports h) i = None" using that by (simp add: h'_def kms_base_hub_unhandle_port_def)
  show "map_of (hb_ports h') = (map_of (hb_ports h))(i := None)"
    by (cases "map_of (hb_ports h) i") (auto simp: none, simp add: h'_def unhandle_spec(2))
  show "hb_children h' = hb_children h" "hb_port_count h' = hb_port_count h"
    by (cases "map_of (hb_ports h) i", simp add: none, simp add: h'_def unhandle_spec)+
  show "target_el k j h' = (if j = i then None else target_el k j h)" if "k \<noteq> Data" "map_of (hb_ports h) i \<noteq> None"
    using that by (auto simp: h'_def target_el_def unhandle_spec(1))
qed

end
