(* ===== verification/Dispatchers.thy ===== *)
theory Dispatchers
  imports BaseHub
begin

text \<open>
  The hubs that send what comes in at one port out at others: the dispatcher with routes between
  any two ports (\<open>kmsdispatcher.c\<close>), the one with a main port that feeds every port
  (\<open>kmsdispatcheronetomany.c\<close>), and the mixer where a port selects its video and mixes audio of
  several ports (\<open>kmsselectablemixer.c\<close>). Each port has elements of its own in the bin; they are
  named by numbers, which the caller gives where the code makes them.
\<close>

section \<open>The dispatcher\<close>

record dispatcher_port =
  dp_id :: u32
  dp_audio_agnostic :: nat
  dp_video_agnostic :: nat

record dispatcher =
  di_hub :: base_hub
  di_ports :: "(u32, dispatcher_port) hash_table"

definition kms_dispatcher_port_data_destroy :: "dispatcher_port \<Rightarrow> base_hub \<Rightarrow> base_hub" where
  "kms_dispatcher_port_data_destroy pd h = gst_bin_remove (dp_video_agnostic pd) (gst_bin_remove (dp_audio_agnostic pd) h)"

definition kms_dispatcher_port_data_create ::
    "hub_env \<Rightarrow> nat \<Rightarrow> nat \<Rightarrow> u32 \<Rightarrow> base_hub \<Rightarrow> base_hub \<times> dispatcher_port" where
  "kms_dispatcher_port_data_create env audio_agnostic video_agnostic pid h =
     (let h1 = gst_bin_add video_agnostic (gst_bin_add audio_agnostic h);
          h2 = fst (kms_base_hub_link_video_sink_default env pid video_agnostic ''sink'' False h1);
          h3 = fst (kms_base_hub_link_audio_sink_default env pid audio_agnostic ''sink'' False h2) in
      (h3, \<lparr>dp_id = pid, dp_audio_agnostic = audio_agnostic, dp_video_agnostic = video_agnostic\<rparr>))"

text \<open>Removing and inserting run the destroy function on a value that goes.\<close>

definition dispatcher_forget :: "u32 \<Rightarrow> dispatcher \<Rightarrow> dispatcher" where
  "dispatcher_forget pid d = (case map_of (di_ports d) pid of
     None \<Rightarrow> d
   | Some pd \<Rightarrow> d\<lparr>di_hub := kms_dispatcher_port_data_destroy pd (di_hub d), di_ports := AList.delete pid (di_ports d)\<rparr>)"

definition kms_dispatcher_unhandle_port :: "hub_env \<Rightarrow> u32 \<Rightarrow> dispatcher \<Rightarrow> dispatcher" where
  "kms_dispatcher_unhandle_port env pid d = (let d1 = dispatcher_forget pid d in
     d1\<lparr>di_hub := kms_base_hub_unhandle_port env pid (di_hub d1)\<rparr>)"

definition kms_dispatcher_handle_port ::
    "hub_env \<Rightarrow> nat \<Rightarrow> nat \<Rightarrow> nat \<Rightarrow> bool \<Rightarrow> nat option \<Rightarrow> dispatcher \<Rightarrow> dispatcher \<times> u32" where
  "kms_dispatcher_handle_port env audio_agnostic video_agnostic mixer_port is_hub_port port_parent d =
     (case kms_base_hub_handle_port mixer_port is_hub_port port_parent (di_hub d) of (h1, port_id) \<Rightarrow>
        if sint port_id < 0 then (d\<lparr>di_hub := h1\<rparr>, -1)
        else case kms_dispatcher_port_data_create env audio_agnostic video_agnostic port_id h1 of (h2, port_data) \<Rightarrow>
          let d2 = dispatcher_forget port_id (d\<lparr>di_hub := h2\<rparr>) in
          (d2\<lparr>di_ports := AList.update port_id port_data (di_ports d2)\<rparr>, port_id))"

definition kms_dispatcher_connect :: "hub_env \<Rightarrow> u32 \<Rightarrow> u32 \<Rightarrow> dispatcher \<Rightarrow> c_fault + dispatcher \<times> bool" where
  "kms_dispatcher_connect env source sink d = (case map_of (di_ports d) source of
     None \<Rightarrow> Inr (d, False)
   | Some source_port \<Rightarrow> (case map_of (di_ports d) sink of
       None \<Rightarrow> Inr (d, False)
     | Some sink_port \<Rightarrow>
         bind_result (kms_base_hub_link_audio_src_default env (dp_id sink_port) (dp_audio_agnostic source_port) ''src_%u'' True (di_hub d))
           (\<lambda>(h1, ok). if \<not> ok then Inr (d\<lparr>di_hub := h1\<rparr>, False)
              else bind_result (kms_base_hub_link_video_src_default env (dp_id sink_port) (dp_video_agnostic source_port) ''src_%u'' True h1)
                (\<lambda>(h2, ok). if \<not> ok
                   then Inr (d\<lparr>di_hub := fst (kms_base_hub_unlink_audio_src_default env (dp_id sink_port) h2)\<rparr>, False)
                   else Inr (d\<lparr>di_hub := h2\<rparr>, True)))))"

definition kms_dispatcher_dispose :: "dispatcher \<Rightarrow> dispatcher" where
  "kms_dispatcher_dispose d = d\<lparr>di_hub := kms_base_hub_dispose
     (fold (\<lambda>p. kms_dispatcher_port_data_destroy (snd p)) (di_ports d) (di_hub d)), di_ports := []\<rparr>"

definition kms_dispatcher_init :: dispatcher where
  "kms_dispatcher_init = \<lparr>di_hub = kms_base_hub_init, di_ports = []\<rparr>"

section \<open>One to many\<close>

record one_to_many = dispatcher +
  om_main_port :: u32

definition MAIN_PORT_NONE :: u32 where "MAIN_PORT_NONE = -1"

definition kms_dispatcher_one_to_many_port_data_create ::
    "hub_env \<Rightarrow> nat \<Rightarrow> nat \<Rightarrow> u32 \<Rightarrow> base_hub \<Rightarrow> base_hub \<times> dispatcher_port" where
  "kms_dispatcher_one_to_many_port_data_create env audio_agnostic video_agnostic pid h =
     (let h1 = gst_bin_add video_agnostic (gst_bin_add audio_agnostic h);
          h2 = fst (kms_base_hub_link_video_sink_default env pid video_agnostic ''sink'' False h1);
          h3 = fst (kms_base_hub_link_audio_sink_default env pid audio_agnostic ''sink'' False h2) in
      (h3, \<lparr>dp_id = pid, dp_audio_agnostic = audio_agnostic, dp_video_agnostic = video_agnostic\<rparr>))"

definition kms_dispatcher_one_to_many_port_data_destroy :: "dispatcher_port \<Rightarrow> base_hub \<Rightarrow> base_hub" where
  "kms_dispatcher_one_to_many_port_data_destroy pd h =
     gst_bin_remove (dp_video_agnostic pd) (gst_bin_remove (dp_audio_agnostic pd) h)"

definition kms_dispatcher_one_to_many_link_port :: "hub_env \<Rightarrow> u32 \<Rightarrow> one_to_many \<Rightarrow> c_fault + one_to_many" where
  "kms_dispatcher_one_to_many_link_port env to d =
     (if sint (om_main_port d) < 0
      then Inr (d\<lparr>di_hub := fst (kms_base_hub_unlink_video_src_default env to
             (fst (kms_base_hub_unlink_audio_src_default env to (di_hub d))))\<rparr>)
      else case map_of (di_ports d) (om_main_port d) of
        None \<Rightarrow> Inl Null_dereference
      | Some port_data \<Rightarrow>
          bind_result (kms_base_hub_link_audio_src_default env to (dp_audio_agnostic port_data) ''src_%u'' True (di_hub d))
            (\<lambda>(h1, _). bind_result (kms_base_hub_link_video_src_default env to (dp_video_agnostic port_data) ''src_%u'' True h1)
              (\<lambda>(h2, _). Inr (d\<lparr>di_hub := h2\<rparr>))))"

fun change_main_port_it :: "hub_env \<Rightarrow> (u32, dispatcher_port) hash_table \<Rightarrow> one_to_many \<Rightarrow> c_fault + one_to_many" where
  "change_main_port_it env [] d = Inr d"
| "change_main_port_it env ((_, port_data) # ps) d =
     bind_result (kms_dispatcher_one_to_many_link_port env (dp_id port_data) d) (change_main_port_it env ps)"

definition kms_dispatcher_one_to_many_change_main_port :: "hub_env \<Rightarrow> one_to_many \<Rightarrow> c_fault + one_to_many" where
  "kms_dispatcher_one_to_many_change_main_port env d = change_main_port_it env (di_ports d) d"

definition one_to_many_forget :: "u32 \<Rightarrow> one_to_many \<Rightarrow> one_to_many" where
  "one_to_many_forget pid d = (case map_of (di_ports d) pid of
     None \<Rightarrow> d
   | Some pd \<Rightarrow> d\<lparr>di_hub := kms_dispatcher_one_to_many_port_data_destroy pd (di_hub d),
       di_ports := AList.delete pid (di_ports d)\<rparr>)"

definition kms_dispatcher_one_to_many_unhandle_port :: "hub_env \<Rightarrow> u32 \<Rightarrow> one_to_many \<Rightarrow> c_fault + one_to_many" where
  "kms_dispatcher_one_to_many_unhandle_port env pid d = (let d1 = one_to_many_forget pid d in
     bind_result (if om_main_port d1 = pid
         then kms_dispatcher_one_to_many_change_main_port env (d1\<lparr>om_main_port := MAIN_PORT_NONE\<rparr>) else Inr d1)
       (\<lambda>d2. Inr (d2\<lparr>di_hub := kms_base_hub_unhandle_port env pid (di_hub d2)\<rparr>)))"

definition kms_dispatcher_one_to_many_handle_port ::
    "hub_env \<Rightarrow> nat \<Rightarrow> nat \<Rightarrow> nat \<Rightarrow> bool \<Rightarrow> nat option \<Rightarrow> one_to_many \<Rightarrow> c_fault + one_to_many \<times> u32" where
  "kms_dispatcher_one_to_many_handle_port env audio_agnostic video_agnostic mixer_port is_hub_port port_parent d =
     (case kms_base_hub_handle_port mixer_port is_hub_port port_parent (di_hub d) of (h1, port_id) \<Rightarrow>
        if sint port_id < 0 then Inr (d\<lparr>di_hub := h1\<rparr>, port_id)
        else case kms_dispatcher_one_to_many_port_data_create env audio_agnostic video_agnostic port_id h1 of (h2, port_data) \<Rightarrow>
          let d2 = one_to_many_forget port_id (d\<lparr>di_hub := h2\<rparr>) in
          bind_result (kms_dispatcher_one_to_many_link_port env port_id
            (d2\<lparr>di_ports := AList.update port_id port_data (di_ports d2)\<rparr>)) (\<lambda>d3. Inr (d3, port_id)))"

definition kms_dispatcher_one_to_many_set_main :: "hub_env \<Rightarrow> u32 \<Rightarrow> one_to_many \<Rightarrow> c_fault + one_to_many" where
  "kms_dispatcher_one_to_many_set_main env port d =
     kms_dispatcher_one_to_many_change_main_port env (d\<lparr>om_main_port := port\<rparr>)"

definition kms_dispatcher_one_to_many_init :: one_to_many where
  "kms_dispatcher_one_to_many_init = \<lparr>di_hub = kms_base_hub_init, di_ports = [], om_main_port = MAIN_PORT_NONE\<rparr>"

section \<open>Routes\<close>

text \<open>
  \<open>routes_to h ps r\<close>: the source pads of port \<open>i\<close> stand for pads of the elements of port \<open>r i\<close>,
  for audio and for video, and for nothing where \<open>r i\<close> is none.
\<close>

definition agn :: "media_kind \<Rightarrow> dispatcher_port \<Rightarrow> nat" where
  "agn k pd = (if k = Audio then dp_audio_agnostic pd else dp_video_agnostic pd)"

definition els :: "dispatcher_port \<Rightarrow> nat set" where
  "els pd = {dp_audio_agnostic pd, dp_video_agnostic pd}"

lemma agn_in [simp]: "agn k pd \<in> els pd"
  by (simp add: agn_def els_def)

definition elements_apart :: "(u32, dispatcher_port) hash_table \<Rightarrow> bool" where
  "elements_apart ps \<longleftrightarrow> (\<forall>i j pd pe. map_of ps i = Some pd \<longrightarrow> map_of ps j = Some pe \<longrightarrow>
     dp_audio_agnostic pd \<noteq> dp_video_agnostic pd \<and> (i \<noteq> j \<longrightarrow> els pd \<inter> els pe = {}))"

definition hub_wf :: "base_hub \<Rightarrow> (u32, dispatcher_port) hash_table \<Rightarrow> bool" where
  "hub_wf h ps \<longleftrightarrow> hash_ok ps \<and> elements_apart ps \<and> serials_ok h \<and>
     (\<forall>i. map_of (hb_ports h) i \<noteq> None \<longrightarrow> i < hb_port_count h) \<and>
     (\<forall>i pd. map_of ps i = Some pd \<longrightarrow> dp_id pd = i \<and> els pd \<subseteq> set (hb_children h) \<and> map_of (hb_ports h) i \<noteq> None)"

definition routes_to :: "base_hub \<Rightarrow> (u32, dispatcher_port) hash_table \<Rightarrow> (u32 \<rightharpoonup> u32) \<Rightarrow> bool" where
  "routes_to h ps r \<longleftrightarrow> (\<forall>i s. r i = Some s \<longrightarrow> map_of ps s \<noteq> None) \<and> (\<forall>k i. k \<noteq> Data \<longrightarrow>
     target_el k i h = Option.bind (r i) (\<lambda>s. map_option (agn k) (map_of ps s)))"

lemma hub_wfD:
  assumes "hub_wf h ps" "map_of ps i = Some pd"
  shows "dp_id pd = i" "els pd \<subseteq> set (hb_children h)" "map_of (hb_ports h) i \<noteq> None" "agn k pd \<in> set (hb_children h)"
    "dp_audio_agnostic pd \<noteq> dp_video_agnostic pd" "i < hb_port_count h"
  using assms agn_in [of k pd] unfolding hub_wf_def elements_apart_def by (metis subsetD)+

lemma owner_unique:
  assumes "hub_wf h ps" "map_of ps i = Some pd" "map_of ps j = Some pe" "e \<in> els pd" "e \<in> els pe"
  shows "i = j"
  using assms unfolding hub_wf_def elements_apart_def by blast

lemma agn_inj:
  assumes "hub_wf h ps" "map_of ps i = Some pd" "map_of ps j = Some pe" "agn k pd = agn k' pe"
  shows "i = j \<and> (k = Audio \<longleftrightarrow> k' = Audio)"
proof -
  have "i = j" using owner_unique [OF assms(1-3), of "agn k pd"] assms(4) by (metis agn_in)
  then show ?thesis
    using assms hub_wfD(5) [OF assms(1,2)] by (auto simp: agn_def split: if_splits)
qed

lemma hub_wf_same:
  assumes "hub_wf h ps" "hb_ports h' = hb_ports h" "hb_children h' = hb_children h" "hb_port_count h' = hb_port_count h" "serials_ok h'"
  shows "hub_wf h' ps"
  using assms by (simp add: hub_wf_def)

lemma link_both:
  assumes wf: "hub_wf h ps" and rt: "routes_to h ps r" and env: "env_links env"
    and s: "map_of ps s = Some sp" and t: "map_of (hb_ports h) t \<noteq> None"
  obtains h1 h2 where "kms_base_hub_link_audio_src_default env t (dp_audio_agnostic sp) ''src_%u'' True h = Inr (h1, True)"
    "kms_base_hub_link_video_src_default env t (dp_video_agnostic sp) ''src_%u'' True h1 = Inr (h2, True)"
    "hub_wf h2 ps" "routes_to h2 ps (r(t \<mapsto> s))" "hb_ports h2 = hb_ports h" "hb_children h2 = hb_children h"
    "hb_port_count h2 = hb_port_count h"
proof -
  have el: "dp_audio_agnostic sp \<in> set (hb_children h)" "dp_video_agnostic sp \<in> set (hb_children h)"
    using hub_wfD(2) [OF wf s] by (simp_all add: els_def)
  have ser: "serials_ok h" using wf by (simp add: hub_wf_def)
  obtain h1 where 1: "link_src_op Audio env t (dp_audio_agnostic sp) ''src_%u'' True h = Inr (h1, True)"
    "hb_ports h1 = hb_ports h" "hb_children h1 = hb_children h" "hb_port_count h1 = hb_port_count h" "serials_ok h1"
    "\<forall>k' j. target_el k' j h1 = (if k' = Audio \<and> j = t then Some (dp_audio_agnostic sp) else target_el k' j h)"
    using link_src_effect [OF env el(1) t ser, where k = Audio] by blast
  obtain h2 where 2: "link_src_op Video env t (dp_video_agnostic sp) ''src_%u'' True h1 = Inr (h2, True)"
    "hb_ports h2 = hb_ports h1" "hb_children h2 = hb_children h1" "hb_port_count h2 = hb_port_count h1" "serials_ok h2"
    "\<forall>k' j. target_el k' j h2 = (if k' = Video \<and> j = t then Some (dp_video_agnostic sp) else target_el k' j h1)"
    using link_src_effect [OF env _ _ 1(5), where k = Video and i = t and el = "dp_video_agnostic sp"] el(2) t 1(2,3)
    by metis
  have "routes_to h2 ps (r(t \<mapsto> s))" using rt s 1(6) 2(6) by (auto simp: routes_to_def agn_def intro: media_kind.exhaust)
  moreover have "hub_wf h2 ps" using wf 1 2 by (intro hub_wf_same [OF wf]) simp_all
  ultimately show ?thesis using that 1 2 by simp
qed

lemma unlink_both:
  fixes env t h
  defines "h' \<equiv> fst (kms_base_hub_unlink_video_src_default env t (fst (kms_base_hub_unlink_audio_src_default env t h)))"
  assumes wf: "hub_wf h ps" and rt: "routes_to h ps r"
  shows "hub_wf h' ps" "routes_to h' ps (r(t := None))" "hb_ports h' = hb_ports h" "hb_children h' = hb_children h"
    "hb_port_count h' = hb_port_count h"
proof -
  let ?h1 = "fst (unlink_op Audio True env t h)"
  have h': "h' = fst (unlink_op Video True env t ?h1)" by (simp add: h'_def)
  have ser: "serials_ok h" using wf by (simp add: hub_wf_def)
  note 1 = unlink_src_effect [OF ser, where k = Audio and env = env and i = t]
  note 2 = unlink_src_effect [OF 1(4), where k = Video and env = env and i = t]
  show "hb_ports h' = hb_ports h" "hb_children h' = hb_children h" "hb_port_count h' = hb_port_count h"
    unfolding h' using 1 2 by simp_all
  then show "hub_wf h' ps" using wf 2(4) unfolding h' by (intro hub_wf_same [OF wf]) simp_all
  have "target_el k j h' = (if j = t then None else target_el k j h)" if "k \<noteq> Data" for k j
    unfolding h' 2(5) 1(5) using that by (cases k) simp_all
  then show "routes_to h' ps (r(t := None))" using rt by (auto simp: routes_to_def)
qed

lemma destroyed:
  fixes pd h ps p
  defines "h' \<equiv> kms_dispatcher_port_data_destroy pd h" and "ps' \<equiv> AList.delete p ps"
  assumes wf: "hub_wf h ps" and rt: "routes_to h ps r" and pd: "map_of ps p = Some pd"
  shows "hub_wf h' ps'" "routes_to h' ps' (\<lambda>i. if r i = Some p then None else r i)"
    "hb_ports h' = hb_ports h" "hb_port_count h' = hb_port_count h" "set (hb_children h') = set (hb_children h) - els pd"
proof -
  show fr: "hb_ports h' = hb_ports h" "hb_port_count h' = hb_port_count h" "set (hb_children h') = set (hb_children h) - els pd"
    by (auto simp: h'_def kms_dispatcher_port_data_destroy_def gst_bin_remove_def els_def)
  have ser: "serials_ok h'" using wf by (simp add: h'_def kms_dispatcher_port_data_destroy_def hub_wf_def)
  have "els pe \<inter> els pd = {}" if "map_of ps i = Some pe" "i \<noteq> p" for i pe
    using wf that pd unfolding hub_wf_def elements_apart_def by blast
  then have "els pe \<subseteq> set (hb_children h')" if "map_of ps i = Some pe" "i \<noteq> p" for i pe
    using hub_wfD(2) [OF wf that(1)] that unfolding fr(3) by blast
  moreover have "elements_apart ps'" using wf by (auto simp: hub_wf_def elements_apart_def ps'_def split: if_splits)
  ultimately show "hub_wf h' ps'"
    using wf ser fr(1,2) by (auto simp: hub_wf_def ps'_def hash_ok_delete split: if_splits)
  have tg: "target_el k i h' = (if target_el k i h \<in> Some ` els pd then None else target_el k i h)" for k i
    by (auto simp: h'_def kms_dispatcher_port_data_destroy_def target_el_bin els_def)
  show "routes_to h' ps' (\<lambda>i. if r i = Some p then None else r i)"
    unfolding routes_to_def
  proof (intro conjI allI impI)
    fix i s assume "(if r i = Some p then None else r i) = Some s"
    then show "map_of ps' s \<noteq> None" using rt by (auto simp: routes_to_def ps'_def split: if_splits)
  next
    fix k i assume k: "(k :: media_kind) \<noteq> Data"
    then have t: "target_el k i h = Option.bind (r i) (\<lambda>s. map_option (agn k) (map_of ps s))"
      using rt by (simp add: routes_to_def)
    show "target_el k i h' = Option.bind (if r i = Some p then None else r i) (\<lambda>s. map_option (agn k) (map_of ps' s))"
    proof (cases "r i")
      case (Some s)
      then have "map_of ps s \<noteq> None" using rt unfolding routes_to_def by blast
      then obtain pe where pe: "map_of ps s = Some pe" by blast
      have "agn k pe \<in> els pd \<longleftrightarrow> s = p" using owner_unique [OF wf pe pd, of "agn k pe"] pe pd by auto
      then show ?thesis using Some pe t pd by (auto simp: tg ps'_def)
    qed (simp add: tg t)
  qed
qed

lemma hub_forgets:
  fixes env p h
  defines "h' \<equiv> kms_base_hub_unhandle_port env p h"
  assumes wf: "hub_wf h ps" and rt: "routes_to h ps r" and gone: "map_of ps p = None"
    and dom: "\<And>i. r i \<noteq> None \<Longrightarrow> map_of (hb_ports h) i \<noteq> None"
  shows "hub_wf h' ps" "routes_to h' ps (r(p := None))" "map_of (hb_ports h') = (map_of (hb_ports h))(p := None)"
    "hb_port_count h' = hb_port_count h" "hb_children h' = hb_children h"
proof -
  have ser: "serials_ok h" using wf by (simp add: hub_wf_def)
  note u = unhandle_effect [OF ser, where env = env and i = p, folded h'_def]
  show "map_of (hb_ports h') = (map_of (hb_ports h))(p := None)" "hb_port_count h' = hb_port_count h"
    "hb_children h' = hb_children h" using u by simp_all
  have "map_of (hb_ports h) i \<noteq> None \<and> i \<noteq> p" if "map_of ps i = Some pd" for i pd
    using wf that gone unfolding hub_wf_def by force
  then show "hub_wf h' ps" using wf u by (simp add: hub_wf_def)
  have "target_el k i h' = (if i = p then None else target_el k i h)" if "k \<noteq> Data" for k i
  proof (cases "map_of (hb_ports h) p = None")
    case True
    then have "h' = h" by (simp add: h'_def kms_base_hub_unhandle_port_def)
    moreover have "r p = None" using True dom [of p] by blast
    ultimately have "h' = h" "r p = None" by blast+
    then show ?thesis using rt that by (simp add: routes_to_def)
  qed (use u(5) [OF that] in simp)
  then show "routes_to h' ps (r(p := None))" using rt by (simp add: routes_to_def)
qed

text \<open>A new port: its id was not in use, and no route leads to or from it.\<close>

lemma handled:
  assumes wf: "hub_wf h ps" and rt: "routes_to h ps r"
    and few: "unat (hb_port_count h) < 2 ^ 31" and fresh: "a \<notin> set (hb_children h)" "v \<notin> set (hb_children h)" "a \<noteq> v"
    and base: "kms_base_hub_handle_port port isp par h = (h1, pid)" "sint pid \<ge> 0"
    and new: "kms_dispatcher_port_data_create env a v pid h1 = (h2, pd)"
  shows "map_of ps pid = None" "map_of (hb_ports h) pid = None" "hub_wf h2 (AList.update pid pd ps)"
    "routes_to h2 (AList.update pid pd ps) r" "map_of (hb_ports h2) pid \<noteq> None"
    "\<And>i. map_of (hb_ports h) i \<noteq> None \<Longrightarrow> map_of (hb_ports h2) i \<noteq> None" "pid = hb_port_count h"
    "hb_port_count h2 = hb_port_count h + 1"
proof -
  show pid: "pid = hb_port_count h"
    using base by (auto simp: kms_base_hub_handle_port_def kms_base_hub_generate_port_id_def Let_def split: if_splits)
  have h1: "h1 = set_port pid ((kms_base_hub_port_data_create port pid)\<lparr>pd_signal := True\<rparr>) (h\<lparr>hb_port_count := hb_port_count h + 1\<rparr>)"
    using base by (auto simp: kms_base_hub_handle_port_def kms_base_hub_generate_port_id_def Let_def split: if_splits)
  have up: "i < hb_port_count h \<Longrightarrow> i < hb_port_count h + 1" "hb_port_count h < hb_port_count h + 1" for i
    using few by (auto simp: word_less_nat_alt unat_word_ariths)
  let ?b = "gst_bin_add v (gst_bin_add a h1)"
  let ?l = "fst (link_sink_op Video env pid v ''sink'' False ?b)"
  have h2: "h2 = fst (link_sink_op Audio env pid a ''sink'' False ?l)"
    and pd: "pd = \<lparr>dp_id = pid, dp_audio_agnostic = a, dp_video_agnostic = v\<rparr>"
    using new by (simp_all add: kms_dispatcher_port_data_create_def Let_def)
  have ser: "serials_ok ?b" using wf by (simp add: hub_wf_def h1 set_port_def serials_ok_def gst_bin_add_def)
  note 1 = link_sink_effect [OF ser, where k = Video and env = env and i = pid and el = v and n = "''sink''" and rm = False]
  note 2 = link_sink_effect [OF 1(4), where k = Audio and env = env and i = pid and el = a and n = "''sink''" and rm = False]
  have dom: "dom (map_of (hb_ports h2)) = insert pid (dom (map_of (hb_ports h)))"
    unfolding h2 2(1) 1(1) by (simp add: h1 set_port_def gst_bin_add_def)
  then show "map_of (hb_ports h2) pid \<noteq> None" "\<And>i. map_of (hb_ports h) i \<noteq> None \<Longrightarrow> map_of (hb_ports h2) i \<noteq> None"
    by blast+
  have cnt: "hb_port_count h2 = hb_port_count h + 1" and ch: "set (hb_children h2) = insert a (insert v (set (hb_children h)))"
    unfolding h2 2(2,3) 1(2,3) by (auto simp: h1 set_port_def gst_bin_add_def)
  have ser2: "serials_ok h2" unfolding h2 by (rule 2(4))
  have tg: "target_el k i h2 = target_el k i h" for k i
    unfolding h2 2(5) 1(5) by (simp add: h1 set_port_def target_el_def gst_bin_add_def)
  show none: "map_of (hb_ports h) pid = None"
    using wf pid unfolding hub_wf_def by (metis less_irrefl)
  then show "map_of ps pid = None" using hub_wfD(3) [OF wf] by (cases "map_of ps pid") auto
  show "hb_port_count h2 = hb_port_count h + 1" by (rule cnt)
  have "elements_apart (AList.update pid pd ps)"
    using wf hub_wfD(2) [OF wf] fresh unfolding elements_apart_def hub_wf_def
    by (auto simp: pd els_def split: if_splits)
  moreover have "i < hb_port_count h + 1" if "map_of (hb_ports h2) i \<noteq> None" for i
  proof -
    have "i = pid \<or> map_of (hb_ports h) i \<noteq> None" using dom that by blast
    then show ?thesis using wf up pid unfolding hub_wf_def by blast
  qed
  ultimately show "hub_wf h2 (AList.update pid pd ps)"
    using wf ser2 up dom hub_wfD(2,3) [OF wf] unfolding hub_wf_def cnt ch
    by (auto simp: pd els_def pid split: if_splits)
  have "r i \<noteq> Some pid" for i using rt \<open>map_of ps pid = None\<close> unfolding routes_to_def by metis
  then show "routes_to h2 (AList.update pid pd ps) r"
    using rt by (auto simp: routes_to_def tg split: bind_splits)
qed

section \<open>The dispatcher routes as it is told\<close>

text \<open>
  A run of a dispatcher beside the routes it should have: connecting a source and a sink makes
  the source the one of the sink, a port that goes takes its routes in both directions with it.
\<close>

inductive dispatcher_run :: "dispatcher \<Rightarrow> (u32 \<rightharpoonup> u32) \<Rightarrow> bool" where
  start: "dispatcher_run (kms_dispatcher_init\<lparr>di_hub := kms_base_hub_init\<lparr>hb_parent := pa, hb_playing := pl\<rparr>\<rparr>) Map.empty"
| handle: "dispatcher_run (fst (kms_dispatcher_handle_port env a v port isp par d)) r"
    if "dispatcher_run d r" and "unat (hb_port_count (di_hub d)) < 2 ^ 31"
    and "a \<notin> set (hb_children (di_hub d))" and "v \<notin> set (hb_children (di_hub d))" and "a \<noteq> v"
| unhandle: "dispatcher_run (kms_dispatcher_unhandle_port env p d) (\<lambda>i. if i = p \<or> r i = Some p then None else r i)"
    if "dispatcher_run d r"
| connect: "dispatcher_run d' (if ok then r(sink \<mapsto> source) else r)"
    if "dispatcher_run d r" and "env_links env" and "kms_dispatcher_connect env source sink d = Inr (d', ok)"

definition dispatch_ok :: "dispatcher \<Rightarrow> (u32 \<rightharpoonup> u32) \<Rightarrow> bool" where
  "dispatch_ok d r \<longleftrightarrow> hub_wf (di_hub d) (di_ports d) \<and> routes_to (di_hub d) (di_ports d) r \<and>
     (\<forall>i. r i \<noteq> None \<longrightarrow> map_of (hb_ports (di_hub d)) i \<noteq> None)"

lemma forget_none: "map_of (di_ports d) i = None \<Longrightarrow> dispatcher_forget i d = d"
  by (simp add: dispatcher_forget_def)

lemma base_handle_refused:
  assumes "kms_base_hub_handle_port port isp par h = (h1, pid)" "sint pid < 0" "unat (hb_port_count h) < 2 ^ 31"
  shows "h1 = h"
  using assms sint_small [of "hb_port_count h"]
  by (auto simp: kms_base_hub_handle_port_def kms_base_hub_generate_port_id_def Let_def split: if_splits)

lemma dispatch_handle:
  assumes ok: "dispatch_ok d r" and few: "unat (hb_port_count (di_hub d)) < 2 ^ 31"
    and fresh: "a \<notin> set (hb_children (di_hub d))" "v \<notin> set (hb_children (di_hub d))" "a \<noteq> v"
  shows "dispatch_ok (fst (kms_dispatcher_handle_port env a v port isp par d)) r"
proof -
  obtain h1 pid where b: "kms_base_hub_handle_port port isp par (di_hub d) = (h1, pid)"
    by (cases "kms_base_hub_handle_port port isp par (di_hub d)")
  show ?thesis
  proof (cases "sint pid < 0")
    case True
    then have "h1 = di_hub d" using b few by (intro base_handle_refused) auto
    then show ?thesis using b True ok by (simp add: kms_dispatcher_handle_port_def)
  next
    case False
    obtain h2 pd where n: "kms_dispatcher_port_data_create env a v pid h1 = (h2, pd)"
      by (cases "kms_dispatcher_port_data_create env a v pid h1")
    have wf: "hub_wf (di_hub d) (di_ports d)" and rt: "routes_to (di_hub d) (di_ports d) r"
      using ok by (simp_all add: dispatch_ok_def)
    note h = handled [OF wf rt few fresh b _ n]
    have "fst (kms_dispatcher_handle_port env a v port isp par d) =
        d\<lparr>di_hub := h2, di_ports := AList.update pid pd (di_ports d)\<rparr>"
      using b n False h(1) by (simp add: kms_dispatcher_handle_port_def forget_none Let_def)
    then show ?thesis using h(3,4,6) False ok by (simp add: dispatch_ok_def)
  qed
qed

lemma dispatch_unhandle:
  assumes ok: "dispatch_ok d r"
  shows "dispatch_ok (kms_dispatcher_unhandle_port env p d) (\<lambda>i. if i = p \<or> r i = Some p then None else r i)"
proof -
  let ?d1 = "dispatcher_forget p d" and ?r1 = "\<lambda>i. if r i = Some p then None else r i"
  have wf: "hub_wf (di_hub d) (di_ports d)" and rt: "routes_to (di_hub d) (di_ports d) r"
    and dom: "\<And>i. r i \<noteq> None \<Longrightarrow> map_of (hb_ports (di_hub d)) i \<noteq> None"
    using ok by (simp_all add: dispatch_ok_def)
  have 1: "hub_wf (di_hub ?d1) (di_ports ?d1)" "routes_to (di_hub ?d1) (di_ports ?d1) ?r1"
    "hb_ports (di_hub ?d1) = hb_ports (di_hub d)" "map_of (di_ports ?d1) p = None"
  proof -
    have "hub_wf (di_hub ?d1) (di_ports ?d1) \<and> routes_to (di_hub ?d1) (di_ports ?d1) ?r1 \<and>
      hb_ports (di_hub ?d1) = hb_ports (di_hub d) \<and> map_of (di_ports ?d1) p = None"
    proof (cases "map_of (di_ports d) p")
      case None
      then have "r i \<noteq> Some p" for i using rt unfolding routes_to_def by metis
      then have "?r1 = r" by (simp add: fun_eq_iff)
      then show ?thesis using None wf rt by (simp add: forget_none)
    next
      case (Some pd)
      then show ?thesis using destroyed [OF wf rt Some] by (simp add: dispatcher_forget_def)
    qed
    then show "hub_wf (di_hub ?d1) (di_ports ?d1)" "routes_to (di_hub ?d1) (di_ports ?d1) ?r1"
      "hb_ports (di_hub ?d1) = hb_ports (di_hub d)" "map_of (di_ports ?d1) p = None" by blast+
  qed
  have dom1: "map_of (hb_ports (di_hub ?d1)) i \<noteq> None" if "?r1 i \<noteq> None" for i
  proof -
    have "r i \<noteq> None" using that by (auto split: if_splits)
    then show ?thesis unfolding 1(3) by (rule dom)
  qed
  note u = hub_forgets [OF 1(1,2,4) dom1, where env = env]
  have "(\<lambda>i. if i = p \<or> r i = Some p then None else r i) = ?r1(p := None)" by (auto simp: fun_eq_iff)
  then show ?thesis using u(1-3) dom 1(3) by (simp add: dispatch_ok_def kms_dispatcher_unhandle_port_def Let_def)
qed

lemma dispatch_connect:
  assumes ok: "dispatch_ok d r" and env: "env_links env"
  shows "\<exists>d' b. kms_dispatcher_connect env source sink d = Inr (d', b) \<and> di_ports d' = di_ports d \<and>
    (b \<longleftrightarrow> map_of (di_ports d) source \<noteq> None \<and> map_of (di_ports d) sink \<noteq> None) \<and>
    dispatch_ok d' (if b then r(sink \<mapsto> source) else r)"
proof (cases "map_of (di_ports d) source \<noteq> None \<and> map_of (di_ports d) sink \<noteq> None")
  case True
  then obtain sp kp where s: "map_of (di_ports d) source = Some sp" and k: "map_of (di_ports d) sink = Some kp" by blast
  have wf: "hub_wf (di_hub d) (di_ports d)" and rt: "routes_to (di_hub d) (di_ports d) r"
    using ok by (simp_all add: dispatch_ok_def)
  note kp = hub_wfD(1,3) [OF wf k]
  obtain h1 h2 where l: "kms_base_hub_link_audio_src_default env sink (dp_audio_agnostic sp) ''src_%u'' True (di_hub d) = Inr (h1, True)"
    "kms_base_hub_link_video_src_default env sink (dp_video_agnostic sp) ''src_%u'' True h1 = Inr (h2, True)"
    "hub_wf h2 (di_ports d)" "routes_to h2 (di_ports d) (r(sink \<mapsto> source))" "hb_ports h2 = hb_ports (di_hub d)"
    using link_both [OF wf rt env s kp(2)] by metis
  have "kms_dispatcher_connect env source sink d = Inr (d\<lparr>di_hub := h2\<rparr>, True)"
    using s k l kp(1) by (simp add: kms_dispatcher_connect_def)
  then show ?thesis using True l kp(2) ok by (auto simp: dispatch_ok_def)
next
  case False
  then have "kms_dispatcher_connect env source sink d = Inr (d, False)"
    by (auto simp: kms_dispatcher_connect_def split: option.splits)
  then show ?thesis using False ok by auto
qed

lemma dispatch_run_ok: "dispatcher_run d r \<Longrightarrow> dispatch_ok d r"
proof (induction rule: dispatcher_run.induct)
  case (start pa pl)
  then show ?case
    by (simp add: dispatch_ok_def kms_dispatcher_init_def kms_base_hub_init_def hub_wf_def elements_apart_def
        serials_ok_def routes_to_def target_el_def)
next
  case (connect d r env source sink d' ok)
  then show ?case using dispatch_connect [OF connect.IH connect.hyps(2), of source sink] by auto
qed (auto intro: dispatch_handle dispatch_unhandle)

text \<open>The port whose elements the source pads of a port stand for.\<close>

definition routed_from :: "media_kind \<Rightarrow> u32 \<Rightarrow> dispatcher \<Rightarrow> u32 option" where
  "routed_from k i d = Option.bind (target_el k i (di_hub d))
     (\<lambda>e. map_option fst (find (\<lambda>(_, pd). agn k pd = e) (di_ports d)))"

lemma routed_from_route:
  assumes ok: "dispatch_ok d r" and k: "k \<noteq> Data"
  shows "routed_from k i d = r i"
proof (cases "r i")
  case None
  then show ?thesis using ok k by (simp add: dispatch_ok_def routes_to_def routed_from_def)
next
  case (Some s)
  have wf: "hub_wf (di_hub d) (di_ports d)" and rt: "routes_to (di_hub d) (di_ports d) r"
    using ok by (simp_all add: dispatch_ok_def)
  have "map_of (di_ports d) s \<noteq> None" using rt Some unfolding routes_to_def by blast
  then obtain pd where pd: "map_of (di_ports d) s = Some pd" by blast
  then have t: "target_el k i (di_hub d) = Some (agn k pd)" using rt k Some by (simp add: routes_to_def)
  have hash: "hash_ok (di_ports d)" using wf by (simp add: hub_wf_def)
  have "find (\<lambda>(_, pe). agn k pe = agn k pd) (di_ports d) \<noteq> None"
    using map_of_SomeD [OF pd] by (auto simp: find_None_iff)
  then obtain s' pe where f: "find (\<lambda>(_, pe). agn k pe = agn k pd) (di_ports d) = Some (s', pe)" by fastforce
  then have "(s', pe) \<in> set (di_ports d)" "agn k pe = agn k pd" using find_Some_in [OF f] by simp_all
  then have "s' = s" using agn_inj [OF wf _ pd, of s' pe k k] hash hash_in_iff by metis
  then show ?thesis using t f Some by (simp add: routed_from_def)
qed

text \<open>
  C26: the dispatcher is a table of routes. However ports come and go and are connected, the
  source pads of each port stand, for audio and for video, for the elements of the port it was
  connected to last, as long as both are there, and for nothing otherwise; connecting never
  fails for want of a port inside the hub, and is refused exactly when one of the two ports is
  not handled.
\<close>

theorem dispatcher_routes:
  assumes "dispatcher_run d r" "env_links env"
  shows "(\<forall>i. routed_from Audio i d = r i \<and> routed_from Video i d = r i) \<and>
    (\<exists>d'. kms_dispatcher_connect env source sink d =
      Inr (d', map_of (di_ports d) source \<noteq> None \<and> map_of (di_ports d) sink \<noteq> None))"
proof -
  have ok: "dispatch_ok d r" using assms(1) by (rule dispatch_run_ok)
  then show ?thesis using dispatch_connect [OF ok assms(2), of source sink] by (auto simp: routed_from_route)
qed

lemma demo_env_links: "env_links demo_hub_env"
  by (simp add: env_links_def demo_hub_env_def)

definition demo_dispatcher :: dispatcher where
  "demo_dispatcher = (let d0 = kms_dispatcher_init\<lparr>di_hub := kms_base_hub_init\<lparr>hb_parent := Some 1, hb_playing := True\<rparr>\<rparr>;
     d1 = fst (kms_dispatcher_handle_port demo_hub_env 10 11 2 True (Some 1) d0) in
     fst (kms_dispatcher_handle_port demo_hub_env 20 21 3 True (Some 1) d1))"

lemma demo_dispatcher_run: "dispatcher_run demo_dispatcher Map.empty" "map (map_prod id dp_id) (di_ports demo_dispatcher) = [(0, 0), (1, 1)]"
proof -
  define d0 where "d0 = kms_dispatcher_init\<lparr>di_hub := kms_base_hub_init\<lparr>hb_parent := Some 1, hb_playing := True\<rparr>\<rparr>"
  define d1 where "d1 = fst (kms_dispatcher_handle_port demo_hub_env 10 11 2 True (Some 1) d0)"
  have c0: "hb_children (di_hub d0) = []" "hb_port_count (di_hub d0) = 0" unfolding d0_def by code_simp+
  have c1: "hb_children (di_hub d1) = [10, 11]" "hb_port_count (di_hub d1) = 1" unfolding d1_def d0_def by code_simp+
  have "dispatcher_run d0 Map.empty" unfolding d0_def by (rule dispatcher_run.start)
  then have "dispatcher_run d1 Map.empty" unfolding d1_def by (rule dispatcher_run.handle) (simp_all add: c0)
  then have "dispatcher_run (fst (kms_dispatcher_handle_port demo_hub_env 20 21 3 True (Some 1) d1)) Map.empty"
    by (rule dispatcher_run.handle) (simp_all add: c1)
  then show "dispatcher_run demo_dispatcher Map.empty" by (simp only: demo_dispatcher_def Let_def d1_def d0_def)
  show "map (map_prod id dp_id) (di_ports demo_dispatcher) = [(0, 0), (1, 1)]" by code_simp
qed

theorem dispatcher_routes_witness:
  "\<exists>d. dispatcher_run d [1 \<mapsto> 0] \<and> routed_from Video 1 d = Some 0 \<and> routed_from Audio 0 d = None"
proof -
  have "map_of (di_ports demo_dispatcher) 0 \<noteq> None" "map_of (di_ports demo_dispatcher) 1 \<noteq> None"
    using demo_dispatcher_run(2) by (auto simp: map_of_eq_None_iff)
  then obtain d where d: "kms_dispatcher_connect demo_hub_env 0 1 demo_dispatcher = Inr (d, True)"
    using dispatcher_routes [OF demo_dispatcher_run(1) demo_env_links, of 0 1] by auto
  have run: "dispatcher_run d [1 \<mapsto> 0]"
    using dispatcher_run.connect [OF demo_dispatcher_run(1) demo_env_links d] by simp
  then show ?thesis using dispatcher_routes [OF run demo_env_links] by fastforce
qed

section \<open>One port feeds all\<close>

lemma om_same:
  "kms_dispatcher_one_to_many_port_data_create = kms_dispatcher_port_data_create"
  "kms_dispatcher_one_to_many_port_data_destroy = kms_dispatcher_port_data_destroy"
  by (simp_all add: fun_eq_iff kms_dispatcher_one_to_many_port_data_create_def kms_dispatcher_port_data_create_def
      kms_dispatcher_one_to_many_port_data_destroy_def kms_dispatcher_port_data_destroy_def)

text \<open>The routes with a main port: from it to every port of a set.\<close>

definition main_route :: "u32 \<Rightarrow> u32 option" where
  "main_route m = (if sint m < 0 then None else Some m)"

definition om_invar :: "one_to_many \<Rightarrow> (u32 \<rightharpoonup> u32) \<Rightarrow> bool" where
  "om_invar d r \<longleftrightarrow> hub_wf (di_hub d) (di_ports d) \<and> routes_to (di_hub d) (di_ports d) r \<and>
     (\<forall>i. r i \<noteq> None \<longrightarrow> map_of (hb_ports (di_hub d)) i \<noteq> None)"

definition om_ok :: "one_to_many \<Rightarrow> bool" where
  "om_ok d \<longleftrightarrow> om_invar d (\<lambda>i. if map_of (di_ports d) i = None then None else main_route (om_main_port d)) \<and>
     (0 \<le> sint (om_main_port d) \<longrightarrow> map_of (di_ports d) (om_main_port d) \<noteq> None)"

lemma none_neg: "sint MAIN_PORT_NONE < 0" "\<not> 0 \<le> sint MAIN_PORT_NONE"
  by (simp_all add: MAIN_PORT_NONE_def)

lemma om_okI:
  assumes "om_invar d r" "\<And>i. r i = (if map_of (di_ports d) i = None then None else main_route m)"
    "om_main_port d = m" "0 \<le> sint m \<Longrightarrow> map_of (di_ports d) m \<noteq> None"
  shows "om_ok d"
proof -
  have "r = (\<lambda>i. if map_of (di_ports d) i = None then None else main_route (om_main_port d))"
    using assms(2,3) by (simp add: fun_eq_iff)
  then show ?thesis using assms by (simp add: om_ok_def)
qed

lemma om_link_port:
  assumes inv: "om_invar d r" and env: "env_links env" and to: "map_of (di_ports d) to \<noteq> None"
    and main: "0 \<le> sint (om_main_port d) \<Longrightarrow> map_of (di_ports d) (om_main_port d) \<noteq> None"
  obtains h where "kms_dispatcher_one_to_many_link_port env to d = Inr (d\<lparr>di_hub := h\<rparr>)"
    "om_invar (d\<lparr>di_hub := h\<rparr>) (r(to := main_route (om_main_port d)))" "hb_port_count h = hb_port_count (di_hub d)"
    "hb_ports h = hb_ports (di_hub d)"
proof -
  have wf: "hub_wf (di_hub d) (di_ports d)" and rt: "routes_to (di_hub d) (di_ports d) r"
    and dom: "\<And>i. r i \<noteq> None \<Longrightarrow> map_of (hb_ports (di_hub d)) i \<noteq> None"
    using inv by (simp_all add: om_invar_def)
  have port: "map_of (hb_ports (di_hub d)) to \<noteq> None" using to hub_wfD(3) [OF wf] by blast
  show ?thesis
  proof (cases "sint (om_main_port d) < 0")
    case True
    let ?h = "fst (kms_base_hub_unlink_video_src_default env to (fst (kms_base_hub_unlink_audio_src_default env to (di_hub d))))"
    note u = unlink_both [OF wf rt, where env = env and t = to]
    have "om_invar (d\<lparr>di_hub := ?h\<rparr>) (r(to := main_route (om_main_port d)))"
      using True u(1-3) dom by (simp add: om_invar_def main_route_def)
    then show ?thesis using that [of ?h] True u by (simp add: kms_dispatcher_one_to_many_link_port_def)
  next
    case False
    then obtain mp where mp: "map_of (di_ports d) (om_main_port d) = Some mp" using main by fastforce
    obtain h1 h2 where l: "kms_base_hub_link_audio_src_default env to (dp_audio_agnostic mp) ''src_%u'' True (di_hub d) = Inr (h1, True)"
      "kms_base_hub_link_video_src_default env to (dp_video_agnostic mp) ''src_%u'' True h1 = Inr (h2, True)"
      "hub_wf h2 (di_ports d)" "routes_to h2 (di_ports d) (r(to \<mapsto> om_main_port d))" "hb_ports h2 = hb_ports (di_hub d)"
      "hb_port_count h2 = hb_port_count (di_hub d)"
      using link_both [OF wf rt env mp port] by metis
    have "om_invar (d\<lparr>di_hub := h2\<rparr>) (r(to := main_route (om_main_port d)))"
      using False l dom port by (simp add: om_invar_def main_route_def)
    then show ?thesis using that [of h2] False l mp by (simp add: kms_dispatcher_one_to_many_link_port_def)
  qed
qed

lemma om_change_it:
  assumes "om_invar d r" and "env_links env" and "0 \<le> sint (om_main_port d) \<Longrightarrow> map_of (di_ports d) (om_main_port d) \<noteq> None"
    and "set ps \<subseteq> set (di_ports d)"
  shows "\<exists>h. change_main_port_it env ps d = Inr (d\<lparr>di_hub := h\<rparr>) \<and>
    om_invar (d\<lparr>di_hub := h\<rparr>) (\<lambda>i. if i \<in> fst ` set ps then main_route (om_main_port d) else r i) \<and>
    hb_port_count h = hb_port_count (di_hub d) \<and> hb_ports h = hb_ports (di_hub d)"
  using assms
proof (induction ps arbitrary: d r)
  case Nil
  then show ?case by (intro exI [of _ "di_hub d"]) simp
next
  case (Cons p ps)
  obtain i pd where p: "p = (i, pd)" by (cases p)
  have wf: "hub_wf (di_hub d) (di_ports d)" using Cons.prems(1) by (simp add: om_invar_def)
  have pd: "map_of (di_ports d) i = Some pd" using Cons.prems(4) wf hash_in_iff p by (fastforce simp: hub_wf_def)
  then have i: "dp_id pd = i" "map_of (di_ports d) i \<noteq> None" using hub_wfD(1) [OF wf pd] by simp_all
  obtain h where h: "kms_dispatcher_one_to_many_link_port env i d = Inr (d\<lparr>di_hub := h\<rparr>)"
    "om_invar (d\<lparr>di_hub := h\<rparr>) (r(i := main_route (om_main_port d)))" "hb_port_count h = hb_port_count (di_hub d)"
    "hb_ports h = hb_ports (di_hub d)"
    using om_link_port [OF Cons.prems(1,2) i(2) Cons.prems(3)] by metis
  have m: "om_main_port (d\<lparr>di_hub := h\<rparr>) = om_main_port d" by simp
  obtain h' where h': "change_main_port_it env ps (d\<lparr>di_hub := h\<rparr>) = Inr (d\<lparr>di_hub := h'\<rparr>)"
    "om_invar (d\<lparr>di_hub := h'\<rparr>) (\<lambda>j. if j \<in> fst ` set ps then main_route (om_main_port d) else (r(i := main_route (om_main_port d))) j)"
    "hb_port_count h' = hb_port_count (di_hub d)" "hb_ports h' = hb_ports (di_hub d)"
    using Cons.IH [OF h(2) Cons.prems(2), unfolded m] Cons.prems(3,4) h(3,4) by auto
  have "(\<lambda>j. if j \<in> fst ` set ps then main_route (om_main_port d) else (r(i := main_route (om_main_port d))) j) =
      (\<lambda>j. if j \<in> fst ` set (p # ps) then main_route (om_main_port d) else r j)"
    by (auto simp: p fun_eq_iff)
  then show ?case using h h' i(1) p by auto
qed

lemma om_change_main:
  assumes inv: "om_invar d r" and env: "env_links env"
    and main: "0 \<le> sint (om_main_port d) \<Longrightarrow> map_of (di_ports d) (om_main_port d) \<noteq> None"
  obtains h where "kms_dispatcher_one_to_many_change_main_port env d = Inr (d\<lparr>di_hub := h\<rparr>)"
    "om_invar (d\<lparr>di_hub := h\<rparr>) (\<lambda>i. if map_of (di_ports d) i = None then r i else main_route (om_main_port d))"
    "hb_port_count h = hb_port_count (di_hub d)" "hb_ports h = hb_ports (di_hub d)"
proof -
  have "(\<lambda>i. if i \<in> fst ` set (di_ports d) then main_route (om_main_port d) else r i) =
      (\<lambda>i. if map_of (di_ports d) i = None then r i else main_route (om_main_port d))"
    by (auto simp: fun_eq_iff map_of_eq_None_iff)
  then show ?thesis
    using om_change_it [OF inv env main subset_refl] that by (auto simp: kms_dispatcher_one_to_many_change_main_port_def)
qed

lemma om_forget_ok:
  assumes inv: "om_invar d r"
  shows "om_invar (one_to_many_forget p d) (\<lambda>i. if r i = Some p then None else r i)"
    "map_of (di_ports (one_to_many_forget p d)) = (map_of (di_ports d))(p := None)"
    "om_main_port (one_to_many_forget p d) = om_main_port d"
    "hb_ports (di_hub (one_to_many_forget p d)) = hb_ports (di_hub d)"
proof -
  have wf: "hub_wf (di_hub d) (di_ports d)" and rt: "routes_to (di_hub d) (di_ports d) r"
    and dom: "\<And>i. r i \<noteq> None \<Longrightarrow> map_of (hb_ports (di_hub d)) i \<noteq> None"
    using inv by (simp_all add: om_invar_def)
  show 1: "om_main_port (one_to_many_forget p d) = om_main_port d"
    by (simp add: one_to_many_forget_def split: option.split)
  show "map_of (di_ports (one_to_many_forget p d)) = (map_of (di_ports d))(p := None)"
    by (auto simp: one_to_many_forget_def fun_eq_iff split: option.split)
  have "om_invar (one_to_many_forget p d) (\<lambda>i. if r i = Some p then None else r i) \<and>
    hb_ports (di_hub (one_to_many_forget p d)) = hb_ports (di_hub d)"
  proof (cases "map_of (di_ports d) p")
    case None
    then have "r i \<noteq> Some p" for i using rt unfolding routes_to_def by metis
    then show ?thesis using inv None by (simp add: one_to_many_forget_def)
  next
    case (Some pd)
    note u = destroyed [OF wf rt Some]
    have "map_of (hb_ports (di_hub d)) i \<noteq> None" if "(if r i = Some p then None else r i) \<noteq> None" for i
      using that dom [of i] by (auto split: if_splits)
    then show ?thesis using u Some by (simp add: one_to_many_forget_def om_invar_def om_same)
  qed
  then show "om_invar (one_to_many_forget p d) (\<lambda>i. if r i = Some p then None else r i)"
    "hb_ports (di_hub (one_to_many_forget p d)) = hb_ports (di_hub d)" by blast+
qed

lemma om_set_main:
  assumes ok: "om_ok d" and env: "env_links env" and m: "sint m < 0 \<or> map_of (di_ports d) m \<noteq> None"
  shows "\<exists>d'. kms_dispatcher_one_to_many_set_main env m d = Inr d' \<and> om_ok d' \<and> om_main_port d' = m \<and> di_ports d' = di_ports d"
proof -
  let ?d = "d\<lparr>om_main_port := m\<rparr>"
  have inv: "om_invar ?d (\<lambda>i. if map_of (di_ports d) i = None then None else main_route (om_main_port d))"
    using ok by (simp add: om_ok_def om_invar_def)
  have mp: "map_of (di_ports ?d) (om_main_port ?d) \<noteq> None" if "0 \<le> sint (om_main_port ?d)" using m that by simp
  obtain h where h: "kms_dispatcher_one_to_many_change_main_port env ?d = Inr (?d\<lparr>di_hub := h\<rparr>)"
    "om_invar (?d\<lparr>di_hub := h\<rparr>) (\<lambda>i. if map_of (di_ports ?d) i = None
       then (if map_of (di_ports d) i = None then None else main_route (om_main_port d)) else main_route (om_main_port ?d))"
    by (rule om_change_main [OF inv env mp]) (assumption, rule that, assumption+)
  have "om_ok (?d\<lparr>di_hub := h\<rparr>)"
    using h(2) by (rule om_okI [where m = m]) (use m in auto)
  then show ?thesis using h(1) by (simp add: kms_dispatcher_one_to_many_set_main_def)
qed

lemma om_unhandle:
  assumes ok: "om_ok d" and env: "env_links env"
  shows "\<exists>d'. kms_dispatcher_one_to_many_unhandle_port env p d = Inr d' \<and> om_ok d' \<and>
    om_main_port d' = (if om_main_port d = p then MAIN_PORT_NONE else om_main_port d) \<and>
    map_of (di_ports d') = (map_of (di_ports d))(p := None)"
proof -
  let ?r = "\<lambda>i. if map_of (di_ports d) i = None then None else main_route (om_main_port d)"
  let ?d1 = "one_to_many_forget p d" and ?m = "om_main_port d"
  have inv: "om_invar d ?r" using ok by (simp add: om_ok_def)
  note f = om_forget_ok [OF inv, of p]
  obtain d2 where d2: "(if om_main_port ?d1 = p then kms_dispatcher_one_to_many_change_main_port env (?d1\<lparr>om_main_port := MAIN_PORT_NONE\<rparr>)
        else Inr ?d1) = Inr d2"
    "om_invar d2 (\<lambda>i. if map_of (di_ports d) i = None then None else if ?m = p then None else main_route ?m)"
    "om_main_port d2 = (if ?m = p then MAIN_PORT_NONE else ?m)" "di_ports d2 = di_ports ?d1"
  proof (cases "?m = p")
    case True
    let ?d = "?d1\<lparr>om_main_port := MAIN_PORT_NONE\<rparr>"
    have none: "sint MAIN_PORT_NONE < 0" by (simp add: MAIN_PORT_NONE_def)
    have i1: "om_invar ?d (\<lambda>i. if ?r i = Some p then None else ?r i)" using f(1) by (simp add: om_invar_def)
    have mp: "map_of (di_ports ?d) (om_main_port ?d) \<noteq> None" if "0 \<le> sint (om_main_port ?d)" using that none by simp
    obtain h where h: "kms_dispatcher_one_to_many_change_main_port env ?d = Inr (?d\<lparr>di_hub := h\<rparr>)"
      "om_invar (?d\<lparr>di_hub := h\<rparr>) (\<lambda>i. if map_of (di_ports ?d) i = None then (if ?r i = Some p then None else ?r i)
         else main_route (om_main_port ?d))"
      by (rule om_change_main [OF i1 env mp]) (assumption, rule that, assumption+)
    have "(\<lambda>i. if map_of (di_ports ?d) i = None then (if ?r i = Some p then None else ?r i) else main_route (om_main_port ?d)) =
        (\<lambda>i. if map_of (di_ports d) i = None then None else if ?m = p then None else main_route ?m)"
      using True none f(2) by (auto simp: fun_eq_iff main_route_def)
    then show ?thesis using that [of "?d\<lparr>di_hub := h\<rparr>"] h True f(3) by simp
  next
    case False
    have "(\<lambda>i. if ?r i = Some p then None else ?r i) =
        (\<lambda>i. if map_of (di_ports d) i = None then None else if ?m = p then None else main_route ?m)"
      using False by (auto simp: fun_eq_iff main_route_def)
    then show ?thesis using that [of ?d1] f False by simp
  qed
  let ?r2 = "\<lambda>i. if map_of (di_ports d) i = None then None else if ?m = p then None else main_route ?m"
  let ?d3 = "d2\<lparr>di_hub := kms_base_hub_unhandle_port env p (di_hub d2)\<rparr>"
  have i2: "hub_wf (di_hub d2) (di_ports d2)" "routes_to (di_hub d2) (di_ports d2) ?r2" "map_of (di_ports d2) p = None"
    "\<And>i. ?r2 i \<noteq> None \<Longrightarrow> map_of (hb_ports (di_hub d2)) i \<noteq> None"
    using d2(2,4) f(2) by (simp_all add: om_invar_def)
  note u = hub_forgets [OF i2, where env = env]
  have ps: "map_of (di_ports ?d3) = (map_of (di_ports d))(p := None)" using d2(4) f(2) by simp
  have "om_invar ?d3 (?r2(p := None))"
    using u(1-3) i2(4) by (simp add: om_invar_def)
  then have "om_ok ?d3"
    by (rule om_okI [where m = "if ?m = p then MAIN_PORT_NONE else ?m"])
      (use ok ps d2(3) none_neg in \<open>auto simp: main_route_def om_ok_def\<close>)
  moreover have "kms_dispatcher_one_to_many_unhandle_port env p d = Inr ?d3"
    using d2(1) by (simp add: kms_dispatcher_one_to_many_unhandle_port_def Let_def)
  ultimately show ?thesis using ps d2(3) by auto
qed

lemma om_handle:
  assumes ok: "om_ok d" and env: "env_links env" and few: "unat (hb_port_count (di_hub d)) < 2 ^ 31"
    and fresh: "a \<notin> set (hb_children (di_hub d))" "v \<notin> set (hb_children (di_hub d))" "a \<noteq> v"
  shows "\<exists>d' pid. kms_dispatcher_one_to_many_handle_port env a v port isp par d = Inr (d', pid) \<and> om_ok d' \<and>
    om_main_port d' = om_main_port d"
proof -
  let ?m = "om_main_port d"
  let ?r = "\<lambda>i. if map_of (di_ports d) i = None then None else main_route ?m"
  obtain h1 pid where b: "kms_base_hub_handle_port port isp par (di_hub d) = (h1, pid)"
    by (cases "kms_base_hub_handle_port port isp par (di_hub d)")
  show ?thesis
  proof (cases "sint pid < 0")
    case True
    then have "h1 = di_hub d" using b few by (intro base_handle_refused) auto
    then show ?thesis using b True ok by (simp add: kms_dispatcher_one_to_many_handle_port_def)
  next
    case False
    obtain h2 pd where n: "kms_dispatcher_port_data_create env a v pid h1 = (h2, pd)"
      by (cases "kms_dispatcher_port_data_create env a v pid h1")
    have wf: "hub_wf (di_hub d) (di_ports d)" and rt: "routes_to (di_hub d) (di_ports d) ?r"
      and dom: "\<And>i. ?r i \<noteq> None \<Longrightarrow> map_of (hb_ports (di_hub d)) i \<noteq> None"
      using ok by (simp_all add: om_ok_def om_invar_def)
    note h = handled [OF wf rt few fresh b _ n]
    let ?d = "d\<lparr>di_hub := h2, di_ports := AList.update pid pd (di_ports d)\<rparr>"
    have none: "one_to_many_forget pid (d\<lparr>di_hub := h2\<rparr>) = d\<lparr>di_hub := h2\<rparr>"
      using h(1) False by (simp add: one_to_many_forget_def)
    have "map_of (hb_ports h2) i \<noteq> None" if "?r i \<noteq> None" for i using dom [OF that] h(6) False by simp
    then have inv: "om_invar ?d ?r" using h(3,4) False by (simp add: om_invar_def)
    have mp: "map_of (di_ports ?d) (om_main_port ?d) \<noteq> None" if "0 \<le> sint (om_main_port ?d)"
      using ok that by (auto simp: om_ok_def)
    have to: "map_of (di_ports ?d) pid \<noteq> None" by simp
    obtain h3 where h3: "kms_dispatcher_one_to_many_link_port env pid ?d = Inr (?d\<lparr>di_hub := h3\<rparr>)"
      "om_invar (?d\<lparr>di_hub := h3\<rparr>) (?r(pid := main_route (om_main_port ?d)))"
      by (rule om_link_port [OF inv env to mp]) (assumption, rule that, assumption+)
    have "om_ok (?d\<lparr>di_hub := h3\<rparr>)"
      using h3(2) by (rule om_okI [where m = ?m]) (use mp in auto)
    moreover have "kms_dispatcher_one_to_many_handle_port env a v port isp par d = Inr (?d\<lparr>di_hub := h3\<rparr>, pid)"
      using b n False none h3(1) by (simp add: kms_dispatcher_one_to_many_handle_port_def om_same Let_def)
    ultimately show ?thesis by auto
  qed
qed

text \<open>A run in which the main port is set to a port that is there, or to none.\<close>

datatype om_op = Om_handle hub_env nat nat nat bool "nat option" | Om_unhandle hub_env u32 | Om_main hub_env u32

fun om_allowed :: "one_to_many \<Rightarrow> om_op \<Rightarrow> bool" where
  "om_allowed d (Om_handle env a v port isp par) \<longleftrightarrow> env_links env \<and> unat (hb_port_count (di_hub d)) < 2 ^ 31 \<and>
     a \<notin> set (hb_children (di_hub d)) \<and> v \<notin> set (hb_children (di_hub d)) \<and> a \<noteq> v"
| "om_allowed d (Om_unhandle env p) \<longleftrightarrow> env_links env"
| "om_allowed d (Om_main env m) \<longleftrightarrow> env_links env \<and> (sint m < 0 \<or> map_of (di_ports d) m \<noteq> None)"

fun om_do :: "one_to_many \<Rightarrow> om_op \<Rightarrow> c_fault + one_to_many" where
  "om_do d (Om_handle env a v port isp par) =
     bind_result (kms_dispatcher_one_to_many_handle_port env a v port isp par d) (\<lambda>r. Inr (fst r))"
| "om_do d (Om_unhandle env p) = kms_dispatcher_one_to_many_unhandle_port env p d"
| "om_do d (Om_main env m) = kms_dispatcher_one_to_many_set_main env m d"

fun om_run :: "one_to_many \<Rightarrow> om_op list \<Rightarrow> c_fault + one_to_many" where
  "om_run d [] = Inr d"
| "om_run d (c # cs) = bind_result (om_do d c) (\<lambda>d'. om_run d' cs)"

fun om_run_allowed :: "one_to_many \<Rightarrow> om_op list \<Rightarrow> bool" where
  "om_run_allowed d [] = True"
| "om_run_allowed d (c # cs) \<longleftrightarrow> om_allowed d c \<and> (case om_do d c of Inl _ \<Rightarrow> True | Inr d' \<Rightarrow> om_run_allowed d' cs)"

definition om_result :: "c_fault + one_to_many \<Rightarrow> one_to_many" where
  "om_result r = (case r of Inr d \<Rightarrow> d | Inl _ \<Rightarrow> kms_dispatcher_one_to_many_init)"

lemma om_resultI: "(case r of Inr _ \<Rightarrow> True | Inl _ \<Rightarrow> False) \<Longrightarrow> r = Inr (om_result r)"
  by (cases r) (simp_all add: om_result_def)

lemma om_step: "om_ok d \<Longrightarrow> om_allowed d c \<Longrightarrow> \<exists>d'. om_do d c = Inr d' \<and> om_ok d'"
proof (cases c)
  case (Om_handle env a v port isp par)
  moreover assume "om_ok d" "om_allowed d c"
  ultimately show ?thesis using om_handle [of d env a v port isp par] by auto
next
  case (Om_unhandle env p)
  moreover assume "om_ok d" "om_allowed d c"
  ultimately show ?thesis using om_unhandle [of d env p] by auto
next
  case (Om_main env m)
  moreover assume "om_ok d" "om_allowed d c"
  ultimately show ?thesis using om_set_main [of d env m] by auto
qed

lemma om_run_ok: "om_ok d \<Longrightarrow> om_run_allowed d cs \<Longrightarrow> \<exists>d'. om_run d cs = Inr d' \<and> om_ok d'"
proof (induction cs arbitrary: d)
  case (Cons c cs)
  then obtain d' where "om_do d c = Inr d'" "om_ok d'" using om_step [of d c] by auto
  then show ?case using Cons by auto
qed simp

definition om_start :: "nat option \<Rightarrow> bool \<Rightarrow> one_to_many" where
  "om_start pa pl = kms_dispatcher_one_to_many_init\<lparr>di_hub := kms_base_hub_init\<lparr>hb_parent := pa, hb_playing := pl\<rparr>\<rparr>"

lemma om_start_ok: "om_ok (om_start pa pl)"
  by (simp add: om_start_def om_ok_def om_invar_def kms_dispatcher_one_to_many_init_def kms_base_hub_init_def hub_wf_def
      elements_apart_def serials_ok_def routes_to_def target_el_def MAIN_PORT_NONE_def)

lemma om_targets:
  assumes "om_ok d" "map_of (di_ports d) i \<noteq> None" "k \<noteq> Data"
  shows "target_el k i (di_hub d) = (if sint (om_main_port d) < 0 then None
    else map_option (agn k) (map_of (di_ports d) (om_main_port d)))"
proof -
  have "target_el k i (di_hub d) = Option.bind (if map_of (di_ports d) i = None then None else main_route (om_main_port d))
      (\<lambda>s. map_option (agn k) (map_of (di_ports d) s))"
    using assms(1,3) unfolding om_ok_def om_invar_def routes_to_def by blast
  then show ?thesis using assms(2) by (simp add: main_route_def)
qed

text \<open>
  C27: the one to many dispatcher feeds every port from its main port. Ports come and go and the
  main port changes, where it is always set to a port that is there or to none: no operation
  fails, and in the end the source pads of every port, for audio and for video, stand for the
  elements of the main port; for nothing when there is none, also when the main port went.
\<close>

theorem one_port_feeds_all:
  assumes "om_run_allowed (om_start pa pl) cs"
  shows "\<exists>d. om_run (om_start pa pl) cs = Inr d \<and> (\<forall>i \<in> dom (map_of (di_ports d)). \<forall>k \<in> {Audio, Video}.
    target_el k i (di_hub d) = (if sint (om_main_port d) < 0 then None
      else map_option (agn k) (map_of (di_ports d) (om_main_port d))))"
proof -
  obtain d where "om_run (om_start pa pl) cs = Inr d" "om_ok d" using om_run_ok [OF om_start_ok assms] by blast
  then show ?thesis using om_targets [of d] by fastforce
qed

theorem one_port_feeds_all_witness:
  "\<exists>d. om_run (om_start (Some 1) True) [Om_handle demo_hub_env 10 11 2 True (Some 1), Om_main demo_hub_env 0,
     Om_handle demo_hub_env 20 21 3 True (Some 1)] = Inr d \<and> map fst (di_ports d) = [0, 1] \<and>
     target_el Audio 1 (di_hub d) = Some 10 \<and> target_el Video 0 (di_hub d) = Some 11"
proof -
  let ?h = "Om_handle demo_hub_env 10 11 2 True (Some 1)" and ?h' = "Om_handle demo_hub_env 20 21 3 True (Some 1)"
  let ?m = "Om_main demo_hub_env 0"
  define d0 where "d0 = om_start (Some 1) True"
  define d1 where "d1 = om_result (om_do d0 ?h)"
  define d2 where "d2 = om_result (om_do d1 ?m)"
  define d3 where "d3 = om_result (om_do d2 ?h')"
  note ds = d3_def d2_def d1_def d0_def
  have r: "om_do d0 ?h = Inr d1" "om_do d1 ?m = Inr d2" "om_do d2 ?h' = Inr d3"
    unfolding ds by (rule om_resultI; code_simp)+
  have c: "hb_children (di_hub d0) = []" "hb_port_count (di_hub d0) = 0" "map fst (di_ports d1) = [0]"
    "hb_children (di_hub d2) = [10, 11]" "hb_port_count (di_hub d2) = 1" "map fst (di_ports d3) = [0, 1]"
    "map_of (di_ports d3) 0 = Some \<lparr>dp_id = 0, dp_audio_agnostic = 10, dp_video_agnostic = 11\<rparr>" "om_main_port d3 = 0"
    unfolding ds by code_simp+
  have dom: "0 \<in> fst ` set (di_ports d1)" using c(3) by (metis list.set_intros(1) list.set_map)
  have "om_allowed d0 ?h" "om_allowed d1 ?m" "om_allowed d2 ?h'"
    using dom by (simp_all add: demo_env_links c map_of_eq_None_iff)
  then have "om_run_allowed d0 [?h, ?m, ?h']" "om_run d0 [?h, ?m, ?h'] = Inr d3"
    using r by (simp_all del: om_do.simps om_allowed.simps)
  moreover have "fst ` set (di_ports d3) = {0, 1}" using c(6) by (metis list.set_map list.set(1,2))
  ultimately show ?thesis
    using one_port_feeds_all [of "Some 1" True "[?h, ?m, ?h']", folded d0_def] c(6-8) unfolding d0_def
    by (auto simp: agn_def dom_map_of_conv_image_fst simp del: om_run.simps)
qed

text \<open>The main port set to a port that is not there, while ports are: its data is read all the same.\<close>

lemma main_without_port_faults:
  assumes "0 \<le> sint m" "map_of (di_ports d) m = None" "di_ports d \<noteq> []"
  shows "kms_dispatcher_one_to_many_set_main env m d = Inl Null_dereference"
  using assms by (cases "di_ports d")
    (auto simp: kms_dispatcher_one_to_many_set_main_def kms_dispatcher_one_to_many_change_main_port_def
      kms_dispatcher_one_to_many_link_port_def)

section \<open>The selectable mixer\<close>

text \<open>
  \<open>sm_links\<close> are the links from an audio agnostic bin to an audio mixer, \<open>sm_lock\<close> counts how
  often the thread that makes the calls holds the recursive mutex.
\<close>

record mixer_port =
  mp_id :: u32
  mp_audiomixer :: nat
  mp_audio_agnostic :: nat
  mp_video_agnostic :: nat

record selectable_mixer =
  sm_hub :: base_hub
  sm_ports :: "(u32, mixer_port) hash_table"
  sm_links :: "(nat \<times> nat) list"
  sm_lock :: nat

definition release_sink_pads :: "nat \<Rightarrow> selectable_mixer \<Rightarrow> selectable_mixer" where
  "release_sink_pads audiomixer s = s\<lparr>sm_links := filter (\<lambda>l. snd l \<noteq> audiomixer) (sm_links s)\<rparr>"

definition disconnect_elements :: "nat \<Rightarrow> nat \<Rightarrow> selectable_mixer \<Rightarrow> selectable_mixer \<times> bool" where
  "disconnect_elements agnosticbin audiomixer s =
     (s\<lparr>sm_links := filter (\<lambda>l. l \<noteq> (agnosticbin, audiomixer)) (sm_links s)\<rparr>,
      (agnosticbin, audiomixer) \<in> set (sm_links s))"

definition mixer_lock :: "selectable_mixer \<Rightarrow> selectable_mixer" where
  "mixer_lock s = s\<lparr>sm_lock := Suc (sm_lock s)\<rparr>"

definition mixer_unlock :: "selectable_mixer \<Rightarrow> selectable_mixer" where
  "mixer_unlock s = s\<lparr>sm_lock := sm_lock s - 1\<rparr>"

text \<open>Both functions lock a second time where they should unlock.\<close>

definition kms_selectable_mixer_port_data_destroy :: "mixer_port \<Rightarrow> selectable_mixer \<Rightarrow> selectable_mixer" where
  "kms_selectable_mixer_port_data_destroy pd s =
     (let s1 = release_sink_pads (mp_audiomixer pd) (mixer_lock s);
          s2 = s1\<lparr>sm_hub := gst_bin_remove (mp_audiomixer pd) (gst_bin_remove (mp_video_agnostic pd)
                 (gst_bin_remove (mp_audio_agnostic pd) (sm_hub s1))),
               sm_links := filter (\<lambda>l. fst l \<noteq> mp_audio_agnostic pd) (sm_links s1)\<rparr> in
      mixer_lock s2)"

definition mixer_forget :: "u32 \<Rightarrow> selectable_mixer \<Rightarrow> selectable_mixer" where
  "mixer_forget pid s = (case map_of (sm_ports s) pid of
     None \<Rightarrow> s
   | Some pd \<Rightarrow> kms_selectable_mixer_port_data_destroy pd (s\<lparr>sm_ports := AList.delete pid (sm_ports s)\<rparr>))"

definition kms_selectable_mixer_unhandle_port :: "hub_env \<Rightarrow> u32 \<Rightarrow> selectable_mixer \<Rightarrow> selectable_mixer" where
  "kms_selectable_mixer_unhandle_port env pid s = (let s1 = mixer_lock (mixer_forget pid (mixer_lock s)) in
     s1\<lparr>sm_hub := kms_base_hub_unhandle_port env pid (sm_hub s1)\<rparr>)"

definition kms_selectable_mixer_port_data_create ::
    "hub_env \<Rightarrow> nat \<Rightarrow> nat \<Rightarrow> nat \<Rightarrow> u32 \<Rightarrow> base_hub \<Rightarrow> c_fault + base_hub \<times> mixer_port" where
  "kms_selectable_mixer_port_data_create env audiomixer audio_agnostic video_agnostic pid h =
     (let h1 = gst_bin_add audiomixer (gst_bin_add video_agnostic (gst_bin_add audio_agnostic h));
          h2 = fst (kms_base_hub_link_video_sink_default env pid video_agnostic ''sink'' False h1);
          h3 = fst (kms_base_hub_link_audio_sink_default env pid audio_agnostic ''sink'' False h2) in
      bind_result (kms_base_hub_link_audio_src_default env pid audiomixer ''src'' False h3) (\<lambda>(h4, _).
        Inr (h4, \<lparr>mp_id = pid, mp_audiomixer = audiomixer, mp_audio_agnostic = audio_agnostic,
          mp_video_agnostic = video_agnostic\<rparr>)))"

definition kms_selectable_mixer_handle_port ::
    "hub_env \<Rightarrow> nat \<Rightarrow> nat \<Rightarrow> nat \<Rightarrow> nat \<Rightarrow> bool \<Rightarrow> nat option \<Rightarrow> selectable_mixer \<Rightarrow> c_fault + selectable_mixer \<times> u32" where
  "kms_selectable_mixer_handle_port env audiomixer audio_agnostic video_agnostic mixer_port is_hub_port port_parent s =
     (case kms_base_hub_handle_port mixer_port is_hub_port port_parent (sm_hub s) of (h1, port_id) \<Rightarrow>
        if sint port_id < 0 then Inr (s\<lparr>sm_hub := h1\<rparr>, -1)
        else bind_result (kms_selectable_mixer_port_data_create env audiomixer audio_agnostic video_agnostic port_id h1)
          (\<lambda>(h2, port_data). let s2 = mixer_forget port_id (mixer_lock (s\<lparr>sm_hub := h2\<rparr>)) in
             Inr (mixer_unlock (s2\<lparr>sm_ports := AList.update port_id port_data (sm_ports s2)\<rparr>), port_id)))"

definition kms_selectable_mixer_connect_video ::
    "hub_env \<Rightarrow> u32 \<Rightarrow> u32 \<Rightarrow> selectable_mixer \<Rightarrow> c_fault + selectable_mixer \<times> bool" where
  "kms_selectable_mixer_connect_video env source sink s = (let s1 = mixer_lock s in
     case (map_of (sm_ports s1) source, map_of (sm_ports s1) sink) of
       (Some source_port, Some sink_port) \<Rightarrow>
         bind_result (kms_base_hub_link_video_src_default env (mp_id sink_port) (mp_video_agnostic source_port) ''src_%u'' True (sm_hub s1))
           (\<lambda>(h, connected). Inr (mixer_unlock (s1\<lparr>sm_hub := h\<rparr>), connected))
     | _ \<Rightarrow> Inr (mixer_unlock s1, False))"

text \<open>\<open>link_ok\<close>: whether GStreamer links the two elements.\<close>

definition kms_selectable_mixer_connect_audio ::
    "(nat \<Rightarrow> nat \<Rightarrow> bool) \<Rightarrow> u32 \<Rightarrow> u32 \<Rightarrow> selectable_mixer \<Rightarrow> selectable_mixer \<times> bool" where
  "kms_selectable_mixer_connect_audio link_ok source sink s = (let s1 = mixer_lock s in
     case (map_of (sm_ports s1) source, map_of (sm_ports s1) sink) of
       (Some source_port, Some sink_port) \<Rightarrow>
         (let a = mp_audio_agnostic source_port; m = mp_audiomixer sink_port in
          if link_ok a m then (mixer_unlock (s1\<lparr>sm_links := sm_links s1 @ [(a, m)]\<rparr>), True)
          else (mixer_unlock s1, False))
     | _ \<Rightarrow> (mixer_unlock s1, False))"

definition kms_selectable_mixer_disconnect_audio :: "u32 \<Rightarrow> u32 \<Rightarrow> selectable_mixer \<Rightarrow> selectable_mixer \<times> bool" where
  "kms_selectable_mixer_disconnect_audio source sink s = (let s1 = mixer_lock s in
     case (map_of (sm_ports s1) source, map_of (sm_ports s1) sink) of
       (Some source_port, Some sink_port) \<Rightarrow>
         (case disconnect_elements (mp_audio_agnostic source_port) (mp_audiomixer sink_port) s1 of
            (s2, disconnected) \<Rightarrow> (mixer_unlock s2, disconnected))
     | _ \<Rightarrow> (mixer_unlock s1, False))"

definition kms_selectable_mixer_init :: selectable_mixer where
  "kms_selectable_mixer_init = \<lparr>sm_hub = kms_base_hub_init, sm_ports = [], sm_links = [], sm_lock = 0\<rparr>"

text \<open>
  The mutex is held two or four times more after a port was unhandled, and no operation gives
  that back: no other thread gets it again.
\<close>

lemma unhandle_keeps_lock:
  "sm_lock (kms_selectable_mixer_unhandle_port env pid s) = sm_lock s + (if map_of (sm_ports s) pid = None then 2 else 4)"
  by (auto simp: kms_selectable_mixer_unhandle_port_def mixer_forget_def kms_selectable_mixer_port_data_destroy_def
      mixer_lock_def release_sink_pads_def Let_def split: option.splits)

lemma others_keep_lock:
  "kms_selectable_mixer_connect_video env a b s = Inr (s', ok) \<Longrightarrow> sm_lock s' = sm_lock s"
  "sm_lock (fst (kms_selectable_mixer_connect_audio link_ok a b s)) = sm_lock s"
  "sm_lock (fst (kms_selectable_mixer_disconnect_audio a b s)) = sm_lock s"
  by (auto simp: kms_selectable_mixer_connect_video_def kms_selectable_mixer_connect_audio_def
      kms_selectable_mixer_disconnect_audio_def disconnect_elements_def mixer_lock_def mixer_unlock_def Let_def
      bind_result_Inr_iff split: option.splits)

text \<open>The audio that is mixed: from which port into which port.\<close>

definition mixes :: "selectable_mixer \<Rightarrow> (u32 \<times> u32) set" where
  "mixes s = {(i, j). \<exists>pi pj. map_of (sm_ports s) i = Some pi \<and> map_of (sm_ports s) j = Some pj \<and>
     (mp_audio_agnostic pi, mp_audiomixer pj) \<in> set (sm_links s)}"

definition mixer_ok :: "selectable_mixer \<Rightarrow> bool" where
  "mixer_ok s \<longleftrightarrow> hash_ok (sm_ports s) \<and>
     (\<forall>i j pi pj. map_of (sm_ports s) i = Some pi \<longrightarrow> map_of (sm_ports s) j = Some pj \<longrightarrow> i \<noteq> j \<longrightarrow>
        mp_audio_agnostic pi \<noteq> mp_audio_agnostic pj \<and> mp_audiomixer pi \<noteq> mp_audiomixer pj) \<and>
     (\<forall>(a, m) \<in> set (sm_links s). (\<exists>i pi. map_of (sm_ports s) i = Some pi \<and> mp_audio_agnostic pi = a) \<and>
        (\<exists>j pj. map_of (sm_ports s) j = Some pj \<and> mp_audiomixer pj = m))"

lemma mixer_linkD:
  assumes "mixer_ok s" "(a, m) \<in> set (sm_links s)"
  shows "\<exists>i pi. map_of (sm_ports s) i = Some pi \<and> mp_audio_agnostic pi = a"
    "\<exists>j pj. map_of (sm_ports s) j = Some pj \<and> mp_audiomixer pj = m"
  using assms unfolding mixer_ok_def by blast+

lemma mixes_iff:
  assumes "map_of (sm_ports s) i = Some pi" "map_of (sm_ports s) j = Some pj"
  shows "(i, j) \<in> mixes s \<longleftrightarrow> (mp_audio_agnostic pi, mp_audiomixer pj) \<in> set (sm_links s)"
  using assms by (simp add: mixes_def)

lemma disconnect_mixes:
  assumes "mixer_ok s"
  shows "mixes (fst (kms_selectable_mixer_disconnect_audio i j s)) = mixes s - {(i, j)}"
    "snd (kms_selectable_mixer_disconnect_audio i j s) \<longleftrightarrow> (i, j) \<in> mixes s"
proof -
  have "mixes (fst (kms_selectable_mixer_disconnect_audio i j s)) = mixes s - {(i, j)} \<and>
    (snd (kms_selectable_mixer_disconnect_audio i j s) \<longleftrightarrow> (i, j) \<in> mixes s)"
  proof (cases "\<exists>pi pj. map_of (sm_ports s) i = Some pi \<and> map_of (sm_ports s) j = Some pj")
    case True
    then obtain pi pj where p: "map_of (sm_ports s) i = Some pi" "map_of (sm_ports s) j = Some pj" by blast
    have r: "kms_selectable_mixer_disconnect_audio i j s =
        (s\<lparr>sm_links := filter (\<lambda>l. l \<noteq> (mp_audio_agnostic pi, mp_audiomixer pj)) (sm_links s)\<rparr>,
          (mp_audio_agnostic pi, mp_audiomixer pj) \<in> set (sm_links s))"
      using p by (simp add: kms_selectable_mixer_disconnect_audio_def disconnect_elements_def mixer_lock_def mixer_unlock_def Let_def)
    have "mixes (s\<lparr>sm_links := filter (\<lambda>l. l \<noteq> (mp_audio_agnostic pi, mp_audiomixer pj)) (sm_links s)\<rparr>) = mixes s - {(i, j)}"
      using assms p unfolding mixer_ok_def mixes_def by (auto; metis)
    then show ?thesis using r mixes_iff [OF p] by simp
  next
    case False
    then have "kms_selectable_mixer_disconnect_audio i j s = (s, False)"
      by (cases "map_of (sm_ports s) i"; cases "map_of (sm_ports s) j")
        (simp_all add: kms_selectable_mixer_disconnect_audio_def mixer_lock_def mixer_unlock_def Let_def)
    moreover have "(i, j) \<notin> mixes s" using False by (auto simp: mixes_def)
    ultimately show ?thesis by simp
  qed
  then show "mixes (fst (kms_selectable_mixer_disconnect_audio i j s)) = mixes s - {(i, j)}"
    "snd (kms_selectable_mixer_disconnect_audio i j s) \<longleftrightarrow> (i, j) \<in> mixes s" by blast+
qed

lemma connect_mixes:
  assumes "mixer_ok s"
  shows "mixes (fst (kms_selectable_mixer_connect_audio link_ok i j s)) =
    (if snd (kms_selectable_mixer_connect_audio link_ok i j s) then insert (i, j) (mixes s) else mixes s)"
proof (cases "\<exists>pi pj. map_of (sm_ports s) i = Some pi \<and> map_of (sm_ports s) j = Some pj")
  case True
  then obtain pi pj where p: "map_of (sm_ports s) i = Some pi" "map_of (sm_ports s) j = Some pj" by blast
  have "mixes (s\<lparr>sm_links := sm_links s @ [(mp_audio_agnostic pi, mp_audiomixer pj)]\<rparr>) = insert (i, j) (mixes s)"
    using assms p unfolding mixer_ok_def mixes_def by (auto; metis)
  then show ?thesis
    using p by (simp add: kms_selectable_mixer_connect_audio_def mixer_lock_def mixer_unlock_def Let_def)
next
  case False
  then show ?thesis
    by (cases "map_of (sm_ports s) i"; cases "map_of (sm_ports s) j")
      (simp_all add: kms_selectable_mixer_connect_audio_def mixer_lock_def mixer_unlock_def Let_def)
qed

lemma unhandle_mixes:
  assumes "mixer_ok s"
  shows "mixes (kms_selectable_mixer_unhandle_port env p s) = {(i, j) \<in> mixes s. i \<noteq> p \<and> j \<noteq> p}"
proof (cases "map_of (sm_ports s) p")
  case None
  then show ?thesis
    by (auto simp: kms_selectable_mixer_unhandle_port_def mixer_forget_def mixer_lock_def Let_def mixes_def)
next
  case (Some pd)
  then show ?thesis
    using assms unfolding mixer_ok_def
    by (auto simp: kms_selectable_mixer_unhandle_port_def mixer_forget_def mixer_lock_def Let_def mixes_def
        kms_selectable_mixer_port_data_destroy_def release_sink_pads_def split: if_splits)
qed

lemma mixer_lock_same [simp]:
  "sm_ports (mixer_lock s) = sm_ports s" "sm_links (mixer_lock s) = sm_links s" "sm_hub (mixer_lock s) = sm_hub s"
  "sm_ports (mixer_unlock s) = sm_ports s" "sm_links (mixer_unlock s) = sm_links s" "sm_hub (mixer_unlock s) = sm_hub s"
  by (simp_all add: mixer_lock_def mixer_unlock_def)

lemma disconnect_ok: "mixer_ok s \<Longrightarrow> mixer_ok (fst (kms_selectable_mixer_disconnect_audio i j s))"
  by (cases "map_of (sm_ports s) i"; cases "map_of (sm_ports s) j")
    (auto simp: kms_selectable_mixer_disconnect_audio_def disconnect_elements_def Let_def mixer_ok_def)

lemma connect_ok: "mixer_ok s \<Longrightarrow> mixer_ok (fst (kms_selectable_mixer_connect_audio link_ok i j s))"
  by (cases "map_of (sm_ports s) i"; cases "map_of (sm_ports s) j")
    (auto simp: kms_selectable_mixer_connect_audio_def Let_def mixer_ok_def)

lemma forget_spec:
  assumes "mixer_ok s" "map_of (sm_ports s) p = Some pd"
  shows "sm_ports (mixer_forget p s) = AList.delete p (sm_ports s)"
    "sm_links (mixer_forget p s) = filter (\<lambda>l. snd l \<noteq> mp_audiomixer pd \<and> fst l \<noteq> mp_audio_agnostic pd) (sm_links s)"
  using assms by (auto simp: mixer_forget_def kms_selectable_mixer_port_data_destroy_def release_sink_pads_def Let_def)

lemma unhandle_mixer_ok: assumes ok: "mixer_ok s" shows "mixer_ok (kms_selectable_mixer_unhandle_port env p s)"
proof (cases "map_of (sm_ports s) p")
  case None
  then show ?thesis using ok by (simp add: kms_selectable_mixer_unhandle_port_def mixer_forget_def Let_def mixer_ok_def)
next
  case (Some pd)
  let ?s = "kms_selectable_mixer_unhandle_port env p s"
  have "mixer_ok (mixer_lock s)" using ok by (simp add: mixer_ok_def)
  note f = forget_spec [OF this, of p pd]
  have ps: "sm_ports ?s = AList.delete p (sm_ports s)"
    and ls: "sm_links ?s = filter (\<lambda>l. snd l \<noteq> mp_audiomixer pd \<and> fst l \<noteq> mp_audio_agnostic pd) (sm_links s)"
    using f Some by (simp_all add: kms_selectable_mixer_unhandle_port_def Let_def)
  have "(\<exists>i pi. map_of (sm_ports ?s) i = Some pi \<and> mp_audio_agnostic pi = a) \<and>
      (\<exists>j pj. map_of (sm_ports ?s) j = Some pj \<and> mp_audiomixer pj = m)" if "(a, m) \<in> set (sm_links ?s)" for a m
  proof -
    have l: "(a, m) \<in> set (sm_links s)" "a \<noteq> mp_audio_agnostic pd" "m \<noteq> mp_audiomixer pd" using that by (auto simp: ls)
    then obtain i pi j pj where "map_of (sm_ports s) i = Some pi" "mp_audio_agnostic pi = a"
      "map_of (sm_ports s) j = Some pj" "mp_audiomixer pj = m" by (metis mixer_linkD [OF ok])
    moreover have "i \<noteq> p" "j \<noteq> p" using calculation l Some by auto
    ultimately show ?thesis by (auto simp: ps)
  qed
  then have "\<forall>(a, m) \<in> set (sm_links ?s). (\<exists>i pi. map_of (sm_ports ?s) i = Some pi \<and> mp_audio_agnostic pi = a) \<and>
      (\<exists>j pj. map_of (sm_ports ?s) j = Some pj \<and> mp_audiomixer pj = m)" by blast
  moreover have "hash_ok (sm_ports ?s)" using ok by (auto simp: mixer_ok_def ps)
  moreover have "\<forall>i j pi pj. map_of (sm_ports ?s) i = Some pi \<longrightarrow> map_of (sm_ports ?s) j = Some pj \<longrightarrow> i \<noteq> j \<longrightarrow>
        mp_audio_agnostic pi \<noteq> mp_audio_agnostic pj \<and> mp_audiomixer pi \<noteq> mp_audiomixer pj"
    using ok unfolding mixer_ok_def ps by (simp split: if_splits)
  ultimately show ?thesis unfolding mixer_ok_def by blast
qed

text \<open>New elements are none of those in use, and the id of a new port is none that is handled.\<close>

lemma handle_mixer:
  assumes ok: "mixer_ok s" and run: "kms_selectable_mixer_handle_port env m a v port isp par s = Inr (s', pid)"
    and fresh: "\<And>i pi. map_of (sm_ports s) i = Some pi \<Longrightarrow> i \<noteq> pid \<and> mp_audio_agnostic pi \<noteq> a \<and> mp_audiomixer pi \<noteq> m"
  shows "mixer_ok s'" "mixes s' = mixes s" "sm_lock s' = sm_lock s"
proof -
  obtain h1 pid1 where b: "kms_base_hub_handle_port port isp par (sm_hub s) = (h1, pid1)"
    by (cases "kms_base_hub_handle_port port isp par (sm_hub s)")
  have "mixer_ok s' \<and> mixes s' = mixes s \<and> sm_lock s' = sm_lock s"
  proof (cases "sint pid1 < 0")
    case True
    then show ?thesis using run b ok by (auto simp: kms_selectable_mixer_handle_port_def mixer_ok_def mixes_def)
  next
    case False
    then obtain h2 pd where n: "kms_selectable_mixer_port_data_create env m a v pid1 h1 = Inr (h2, pd)"
      and s': "pid = pid1" "s' = mixer_unlock ((mixer_forget pid1 (mixer_lock (s\<lparr>sm_hub := h2\<rparr>)))
         \<lparr>sm_ports := AList.update pid1 pd (sm_ports (mixer_forget pid1 (mixer_lock (s\<lparr>sm_hub := h2\<rparr>))))\<rparr>)"
      using run b by (auto simp: kms_selectable_mixer_handle_port_def bind_result_Inr_iff Let_def)
    have pd: "mp_audio_agnostic pd = a" "mp_audiomixer pd = m"
      using n by (auto simp: kms_selectable_mixer_port_data_create_def bind_result_Inr_iff Let_def)
    have none: "map_of (sm_ports s) pid = None" using fresh by (cases "map_of (sm_ports s) pid") auto
    then have s'': "s' = s\<lparr>sm_hub := h2, sm_ports := AList.update pid pd (sm_ports s)\<rparr>"
      using s' by (simp add: mixer_forget_def mixer_lock_def mixer_unlock_def)
    have old: "map_of (sm_ports s) i = Some pi \<Longrightarrow> map_of (sm_ports s') i = Some pi" for i pi
      using none by (auto simp: s'')
    have links: "sm_links s' = sm_links s" by (simp add: s'')
    have "mixer_ok s'"
      unfolding mixer_ok_def links
    proof (intro conjI)
      show "hash_ok (sm_ports s')" using ok by (auto simp: s'' mixer_ok_def)
      show "\<forall>i j pi pj. map_of (sm_ports s') i = Some pi \<longrightarrow> map_of (sm_ports s') j = Some pj \<longrightarrow> i \<noteq> j \<longrightarrow>
        mp_audio_agnostic pi \<noteq> mp_audio_agnostic pj \<and> mp_audiomixer pi \<noteq> mp_audiomixer pj"
        using ok pd unfolding mixer_ok_def s'' by (auto dest: fresh split: if_splits)
      show "\<forall>(a, m) \<in> set (sm_links s). (\<exists>i pi. map_of (sm_ports s') i = Some pi \<and> mp_audio_agnostic pi = a) \<and>
        (\<exists>j pj. map_of (sm_ports s') j = Some pj \<and> mp_audiomixer pj = m)"
        using ok old unfolding mixer_ok_def by blast
    qed
    moreover have "mixes s' = mixes s"
    proof (rule set_eqI, clarify)
      fix i j
      have "a \<notin> fst ` set (sm_links s)" "m \<notin> snd ` set (sm_links s)" 
        using mixer_linkD [OF ok] fresh by (fastforce, fastforce)
      then show "(i, j) \<in> mixes s' \<longleftrightarrow> (i, j) \<in> mixes s"
        using none pd by (auto simp: mixes_def s'' rev_image_eqI)
    qed
    ultimately show ?thesis by (simp add: s'')
  qed
  then show "mixer_ok s'" "mixes s' = mixes s" "sm_lock s' = sm_lock s" by blast+
qed

text \<open>
  A run beside the mix it should make and the number of ports that were unhandled; the elements
  and the id of a new port are none in use.
\<close>

inductive mixer_run :: "selectable_mixer \<Rightarrow> (u32 \<times> u32) set \<Rightarrow> nat \<Rightarrow> bool" where
  mixer_start: "mixer_run (kms_selectable_mixer_init\<lparr>sm_hub := h\<rparr>) {} 0"
| mixer_handle: "mixer_run s' g n"
    if "mixer_run s g n" and "kms_selectable_mixer_handle_port env m a v port isp par s = Inr (s', pid)"
    and "\<And>i pi. map_of (sm_ports s) i = Some pi \<Longrightarrow> i \<noteq> pid \<and> mp_audio_agnostic pi \<noteq> a \<and> mp_audiomixer pi \<noteq> m"
| mixer_unhandle: "mixer_run (kms_selectable_mixer_unhandle_port env p s) {(i, j) \<in> g. i \<noteq> p \<and> j \<noteq> p} (Suc n)"
    if "mixer_run s g n"
| mixer_connect: "mixer_run s' (if ok then insert (i, j) g else g) n"
    if "mixer_run s g n" and "kms_selectable_mixer_connect_audio link_ok i j s = (s', ok)"
| mixer_disconnect: "mixer_run s' (g - {(i, j)}) n"
    if "mixer_run s g n" and "kms_selectable_mixer_disconnect_audio i j s = (s', ok)"
| mixer_video: "mixer_run s' g n"
    if "mixer_run s g n" and "kms_selectable_mixer_connect_video env i j s = Inr (s', ok)"

lemma mixer_video_same:
  assumes "kms_selectable_mixer_connect_video env i j s = Inr (s', ok)"
  shows "sm_ports s' = sm_ports s" "sm_links s' = sm_links s" "sm_lock s' = sm_lock s"
  using assms by (auto simp: kms_selectable_mixer_connect_video_def mixer_lock_def mixer_unlock_def Let_def
      bind_result_Inr_iff split: option.splits)



end
