(* ===== verification/MediaElement.thy ===== *)
theory MediaElement
  imports BaseHub
begin

text \<open>
  The base class of media elements (\<open>kmselement.c\<close>, with the probes of \<open>kmsstats.c\<close>). A source
  pad is asked for by type and description; it waits until the element has the output for them,
  and is then exposed as a ghost pad that takes a pad of the output whenever it is linked. Sink
  pads are allowed by the subclass and appear when it connects something to them. Besides, the
  element keeps the bitrates of its video encoders, watches whether media flows, and measures
  the latency of what comes in. A pad of the element is known by its name.
\<close>

section \<open>Names\<close>

text \<open>\<open>KmsElementPadType\<close>; the last stands for any other number.\<close>

datatype pad_type = PAD_DATA | PAD_AUDIO | PAD_VIDEO | PAD_UNKNOWN

datatype pad_direction = DIR_SRC | DIR_SINK | DIR_UNKNOWN

definition format_pad_description :: "string option \<Rightarrow> string" where
  "format_pad_description d = (case d of None \<Rightarrow> ''default'' | Some s \<Rightarrow> if s = '''' then ''default'' else s)"

fun kms_element_pad_type_str :: "pad_type \<Rightarrow> string" where
  "kms_element_pad_type_str PAD_VIDEO = ''video''"
| "kms_element_pad_type_str PAD_AUDIO = ''audio''"
| "kms_element_pad_type_str PAD_DATA = ''data''"
| "kms_element_pad_type_str PAD_UNKNOWN = ''''"

definition create_id_from_pad_attrs :: "pad_type \<Rightarrow> pad_direction \<Rightarrow> string option \<Rightarrow> string option" where
  "create_id_from_pad_attrs type dir description = (let desc = format_pad_description description in
     case dir of
       DIR_UNKNOWN \<Rightarrow> None
     | _ \<Rightarrow> (let strdir = (if dir = DIR_SRC then ''src'' else ''sink'') in
         case type of
           PAD_DATA \<Rightarrow> Some (''data_'' @ strdir @ ''_'' @ desc)
         | PAD_AUDIO \<Rightarrow> Some (''audio_'' @ strdir @ ''_'' @ desc)
         | PAD_VIDEO \<Rightarrow> Some (''video_'' @ strdir @ ''_'' @ desc)
         | PAD_UNKNOWN \<Rightarrow> None))"

text \<open>The templates \<open>"video_src_%s_%u"\<close> and their like, printed with a description and a number.\<close>

definition get_pad_template_from_pad_type :: "pad_type \<Rightarrow> (string \<Rightarrow> u32 \<Rightarrow> string) option" where
  "get_pad_template_from_pad_type type = (case type of
     PAD_DATA \<Rightarrow> Some (\<lambda>desc n. ''data_src_'' @ desc @ ''_'' @ decimal (unat n))
   | PAD_AUDIO \<Rightarrow> Some (\<lambda>desc n. ''audio_src_'' @ desc @ ''_'' @ decimal (unat n))
   | PAD_VIDEO \<Rightarrow> Some (\<lambda>desc n. ''video_src_'' @ desc @ ''_'' @ decimal (unat n))
   | PAD_UNKNOWN \<Rightarrow> None)"

definition get_sink_pad_name :: "pad_type \<Rightarrow> string option \<Rightarrow> string" where
  "get_sink_pad_name type description =
     ''sink_'' @ kms_element_pad_type_str type @ ''_'' @ format_pad_description description"

section \<open>State\<close>

record output_data =
  od_element :: "nat option"
  od_type :: pad_type
  od_pad_count :: u32

record pending_pad =
  pe_type :: pad_type
  pe_dir :: pad_direction
  pe_desc :: string

text \<open>A source pad has the output its callbacks ask for pads; both kinds have a target.\<close>

record element_pad =
  el_dir :: pad_direction
  el_active :: bool
  el_output :: "nat option"
  el_target :: "pad option"

record 'c encoder =
  en_target :: int
  en_min :: int
  en_max :: int
  en_codec :: "'c option"

text \<open>A probe of a pad (\<open>KmsStatsProbe\<close>): installed with a callback on the average of a name, or not.\<close>

record stats_probe =
  sp_pad :: string
  sp_latency :: "string option"

record 'd input_avg =
  ia_type :: pad_type
  ia_avg :: 'd

record ('c, 'd) media_element =
  me_outputs :: "(string, output_data) hash_table"
  me_pending :: "(string, pending_pad) hash_table"
  me_pads :: "(string, element_pad) hash_table"
  me_playing :: bool
  me_serial :: nat
  me_accept_eos :: bool
  me_target :: int
  me_min :: int
  me_max :: int
  me_codec_config :: "'c option"
  me_encoders :: "(nat, 'c encoder) hash_table" \<comment> \<open>the properties of the outputs for audio and video\<close>
  me_stats_enabled :: bool
  me_probes :: "stats_probe list"
  me_avg :: "(string, 'd input_avg) hash_table"

definition kms_element_init :: "('c, 'd) media_element" where
  "kms_element_init = \<lparr>me_outputs = [], me_pending = [], me_pads = [], me_playing = False, me_serial = 0,
     me_accept_eos = True, me_target = 300000, me_min = 0, me_max = 2 ^ 31 - 1, me_codec_config = None,
     me_encoders = [], me_stats_enabled = False, me_probes = [], me_avg = []\<rparr>"

section \<open>Source pads\<close>

definition create_output_element_data :: "pad_type \<Rightarrow> output_data" where
  "create_output_element_data type = \<lparr>od_element = None, od_type = type, od_pad_count = 0\<rparr>"

text \<open>A pad that cannot be added, because its name is taken, is dropped.\<close>

definition kms_element_add_src_pad :: "nat \<Rightarrow> string \<Rightarrow> ('c, 'd) media_element \<Rightarrow> ('c, 'd) media_element" where
  "kms_element_add_src_pad element pad_name e = (if map_of (me_pads e) pad_name \<noteq> None then e
     else e\<lparr>me_pads := AList.update pad_name \<lparr>el_dir = DIR_SRC, el_active = me_playing e,
         el_output = Some element, el_target = None\<rparr> (me_pads e)\<rparr>)"

definition waits_for :: "pad_type \<Rightarrow> string \<Rightarrow> pending_pad \<Rightarrow> bool" where
  "waits_for type description p \<longleftrightarrow> pe_type p = type \<and> pe_dir p = DIR_SRC \<and> pe_desc p = description"

text \<open>The keys are collected in front of each other, so the pads are made in the reverse order.\<close>

definition kms_element_create_pending_src_pads ::
    "pad_type \<Rightarrow> string \<Rightarrow> nat \<Rightarrow> ('c, 'd) media_element \<Rightarrow> ('c, 'd) media_element" where
  "kms_element_create_pending_src_pads type description element e =
     (if get_pad_template_from_pad_type type = None then e
      else let keys = rev (map fst (filter (\<lambda>p. waits_for type description (snd p)) (me_pending e)));
               e1 = e\<lparr>me_pending := filter (\<lambda>p. \<not> waits_for type description (snd p)) (me_pending e)\<rparr> in
        fold (kms_element_add_src_pad element) keys e1)"

definition kms_element_get_output_element_data ::
    "pad_type \<Rightarrow> string option \<Rightarrow> ('c, 'd) media_element \<Rightarrow> c_fault + output_data option" where
  "kms_element_get_output_element_data type description e =
     (case create_id_from_pad_attrs type DIR_SRC description of
        None \<Rightarrow> Inl Null_dereference
      | Some key \<Rightarrow> Inr (map_of (me_outputs e) key))"

definition kms_element_set_video_output_properties :: "nat \<Rightarrow> ('c, 'd) media_element \<Rightarrow> ('c, 'd) media_element" where
  "kms_element_set_video_output_properties element e = e\<lparr>me_encoders := AList.update element
     \<lparr>en_target = me_target e, en_min = me_min e, en_max = me_max e, en_codec = me_codec_config e\<rparr> (me_encoders e)\<rparr>"

text \<open>
  \<open>new_element\<close> is the element that the class makes for the output; \<open>blank\<close> are its properties
  before they are set. The hash of a NULL key, for an unknown type, is undefined.
\<close>

definition kms_element_get_output_element ::
    "'c encoder \<Rightarrow> nat \<Rightarrow> pad_type \<Rightarrow> string option \<Rightarrow> ('c, 'd) media_element \<Rightarrow> c_fault + ('c, 'd) media_element \<times> nat" where
  "kms_element_get_output_element blank new_element type description e =
     (let desc = format_pad_description description in
      bind_result (kms_element_get_output_element_data type (Some desc) e) (\<lambda>odata.
        let key = the (create_id_from_pad_attrs type DIR_SRC (Some desc));
            od = (case odata of Some od \<Rightarrow> od | None \<Rightarrow> create_output_element_data type);
            e1 = (if odata = None then e\<lparr>me_outputs := AList.update key od (me_outputs e)\<rparr> else e) in
        case od_element od of
          Some el \<Rightarrow> Inr (e1, el)
        | None \<Rightarrow>
            (let e2 = e1\<lparr>me_outputs := AList.update key (od\<lparr>od_element := Some new_element\<rparr>) (me_outputs e1)\<rparr>;
                 e3 = (if type = PAD_DATA then e2
                       else if type = PAD_VIDEO then kms_element_set_video_output_properties new_element e2
                       else e2\<lparr>me_encoders := AList.update new_element blank (me_encoders e2)\<rparr>) in
             Inr (kms_element_create_pending_src_pads type desc new_element e3, new_element))))"

datatype src_answer = Request_now | Request_later | Request_not_supported

text \<open>
  \<open>answer\<close>: what the class answers to a request where there is no output yet; by default, and
  in every subclass of the sources, later.
\<close>

definition kms_element_request_new_src_element_default :: src_answer where
  "kms_element_request_new_src_element_default = Request_later"

definition kms_element_request_new_srcpad ::
    "src_answer \<Rightarrow> pad_type \<Rightarrow> string option \<Rightarrow> ('c, 'd) media_element \<Rightarrow> ('c, 'd) media_element \<times> string option" where
  "kms_element_request_new_srcpad answer type description e =
     (let desc = format_pad_description description in
      case (get_pad_template_from_pad_type type, create_id_from_pad_attrs type DIR_SRC (Some desc)) of
        (Some templ, Some key) \<Rightarrow>
          (let od = (case map_of (me_outputs e) key of Some od \<Rightarrow> od | None \<Rightarrow> create_output_element_data type);
               counter = od_pad_count od;
               od1 = od\<lparr>od_pad_count := counter + 1\<rparr>;
               pad_name = templ desc counter in
           if od_element od = None \<and> answer = Request_not_supported
           then (e\<lparr>me_outputs := AList.update key od (me_outputs e)\<rparr>, None)
           else let e1 = e\<lparr>me_outputs := AList.update key od1 (me_outputs e)\<rparr> in
             case od_element od of
               None \<Rightarrow> (if map_of (me_pending e1) pad_name \<noteq> None then e1
                  else e1\<lparr>me_pending := AList.update pad_name \<lparr>pe_type = type, pe_dir = DIR_SRC, pe_desc = desc\<rparr> (me_pending e1)\<rparr>,
                  Some pad_name)
             | Some el \<Rightarrow> (kms_element_add_src_pad el pad_name e1, Some pad_name))
      | _ \<Rightarrow> (e, None))"

text \<open>The peer of an exposed source pad comes and goes.\<close>

definition kms_element_set_target_on_linked :: "(pad \<Rightarrow> bool) \<Rightarrow> string \<Rightarrow> ('c, 'd) media_element \<Rightarrow> ('c, 'd) media_element" where
  "kms_element_set_target_on_linked target_ok name e = (case map_of (me_pads e) name of
     None \<Rightarrow> e
   | Some p \<Rightarrow> (case el_output p of
       None \<Rightarrow> e
     | Some element \<Rightarrow> (let target = Pad element ''src_%u'' (Suc (me_serial e)) in
         e\<lparr>me_serial := Suc (me_serial e), me_pads := AList.update name
           (p\<lparr>el_target := (if target_ok target then Some target else None)\<rparr>) (me_pads e)\<rparr>)))"

definition kms_element_remove_target_on_unlinked :: "string \<Rightarrow> ('c, 'd) media_element \<Rightarrow> ('c, 'd) media_element \<times> pad list" where
  "kms_element_remove_target_on_unlinked name e = (case map_of (me_pads e) name of
     None \<Rightarrow> (e, [])
   | Some p \<Rightarrow> (case el_target p of
       None \<Rightarrow> (e, [])
     | Some target \<Rightarrow> (e\<lparr>me_pads := AList.update name (p\<lparr>el_target := None\<rparr>) (me_pads e)\<rparr>, [target])))"

section \<open>Sink pads\<close>

text \<open>\<open>allowed\<close>: what the class answers; by default sink pads are not allowed.\<close>

definition kms_element_request_new_sinkpad ::
    "bool \<Rightarrow> pad_type \<Rightarrow> string option \<Rightarrow> ('c, 'd) media_element \<Rightarrow> ('c, 'd) media_element \<times> string option" where
  "kms_element_request_new_sinkpad allowed type description e =
     (let desc = format_pad_description description; pad_name = get_sink_pad_name type (Some desc) in
      if map_of (me_pads e) pad_name \<noteq> None then (e, Some pad_name)
      else if map_of (me_pending e) pad_name \<noteq> None then (e, Some pad_name)
      else let e1 = e\<lparr>me_pending := AList.update pad_name \<lparr>pe_type = type, pe_dir = DIR_SINK, pe_desc = desc\<rparr> (me_pending e)\<rparr> in
        if allowed then (e1, Some pad_name)
        else (e1\<lparr>me_pending := AList.delete pad_name (me_pending e1)\<rparr>, None))"

definition kms_element_request_new_pad_action ::
    "src_answer \<Rightarrow> bool \<Rightarrow> pad_type \<Rightarrow> string option \<Rightarrow> pad_direction \<Rightarrow> ('c, 'd) media_element \<Rightarrow>
     ('c, 'd) media_element \<times> string option" where
  "kms_element_request_new_pad_action answer allowed type desc dir e = (case dir of
     DIR_SRC \<Rightarrow> kms_element_request_new_srcpad answer type desc e
   | DIR_SINK \<Rightarrow> kms_element_request_new_sinkpad allowed type desc e
   | DIR_UNKNOWN \<Rightarrow> (e, None))"

definition kms_stats_probe_new :: "string \<Rightarrow> stats_probe" where
  "kms_stats_probe_new pad = \<lparr>sp_pad = pad, sp_latency = None\<rparr>"

definition kms_stats_probe_remove :: "stats_probe \<Rightarrow> stats_probe" where
  "kms_stats_probe_remove probe = probe\<lparr>sp_latency := None\<rparr>"

definition kms_stats_probe_add_latency :: "string \<Rightarrow> stats_probe \<Rightarrow> stats_probe" where
  "kms_stats_probe_add_latency sstat probe = (kms_stats_probe_remove probe)\<lparr>sp_latency := Some sstat\<rparr>"

definition kms_stats_probe_watches :: "stats_probe \<Rightarrow> string \<Rightarrow> bool" where
  "kms_stats_probe_watches probe pad \<longleftrightarrow> sp_pad probe = pad"

definition kms_element_set_sink_input_stats ::
    "'d \<Rightarrow> string \<Rightarrow> pad_type \<Rightarrow> ('c, 'd) media_element \<Rightarrow> ('c, 'd) media_element" where
  "kms_element_set_sink_input_stats zero pad type e = (if type \<notin> {PAD_AUDIO, PAD_VIDEO} then e
     else let s_probe = kms_stats_probe_new pad;
              e1 = (if map_of (me_avg e) pad = None
                    then e\<lparr>me_avg := AList.update pad \<lparr>ia_type = type, ia_avg = zero\<rparr> (me_avg e)\<rparr> else e);
              s_probe1 = (if me_stats_enabled e1 then kms_stats_probe_add_latency pad s_probe else s_probe) in
       e1\<lparr>me_probes := s_probe1 # me_probes e1\<rparr>)"

text \<open>
  \<open>target_ok\<close>: a ghost pad for the target can be made. The result is the name of the new pad.
  The probes for key frames, gaps and the end of the stream are those of \<open>PadProbes\<close>.
\<close>

definition kms_element_connect_sink_target_full ::
    "'d \<Rightarrow> bool \<Rightarrow> pad \<Rightarrow> pad_type \<Rightarrow> string option \<Rightarrow> ('c, 'd) media_element \<Rightarrow> ('c, 'd) media_element \<times> string option" where
  "kms_element_connect_sink_target_full zero target_ok target type description e =
     (let pad_name = get_sink_pad_name type description in
      if \<not> target_ok then (e, None)
      else if map_of (me_pads e) pad_name \<noteq> None then (e, None)
      else let e1 = e\<lparr>me_pads := AList.update pad_name \<lparr>el_dir = DIR_SINK, el_active = me_playing e,
                        el_output = None, el_target = Some target\<rparr> (me_pads e)\<rparr>;
               e2 = e1\<lparr>me_pending := AList.delete pad_name (me_pending e1)\<rparr> in
        (kms_element_set_sink_input_stats zero pad_name type e2, Some pad_name))"

fun remove_first :: "('a \<Rightarrow> bool) \<Rightarrow> 'a list \<Rightarrow> 'a list" where
  "remove_first P [] = []"
| "remove_first P (x # xs) = (if P x then xs else x # remove_first P xs)"

definition kms_element_remove_sink :: "string \<Rightarrow> ('c, 'd) media_element \<Rightarrow> ('c, 'd) media_element" where
  "kms_element_remove_sink pad e =
     e\<lparr>me_probes := remove_first (\<lambda>probe. kms_stats_probe_watches probe pad) (me_probes e),
       me_pads := AList.delete pad (me_pads e)\<rparr>"

definition kms_element_remove_sink_by_type_full :: "pad_type \<Rightarrow> string option \<Rightarrow> ('c, 'd) media_element \<Rightarrow> ('c, 'd) media_element" where
  "kms_element_remove_sink_by_type_full type description e = (let pad_name = get_sink_pad_name type description in
     if map_of (me_pads e) pad_name = None then e else kms_element_remove_sink pad_name e)"

section \<open>Releasing requested pads\<close>

definition kms_element_remove_target_pad :: "string \<Rightarrow> ('c, 'd) media_element \<Rightarrow> ('c, 'd) media_element \<times> pad list" where
  "kms_element_remove_target_pad name e = kms_element_remove_target_on_unlinked name e"

definition kms_element_release_pad :: "string \<Rightarrow> ('c, 'd) media_element \<Rightarrow> ('c, 'd) media_element \<times> pad list" where
  "kms_element_release_pad name e =
     (e\<lparr>me_pads := AList.delete name (me_pads e)\<rparr>,
      case Option.bind (map_of (me_pads e) name) el_target of None \<Rightarrow> [] | Some target \<Rightarrow> [target])"

text \<open>\<open>sink_released\<close>: what the class answers for a sink pad; the pads that are released with it.\<close>

definition kms_element_release_requested_pad_action ::
    "bool \<Rightarrow> string \<Rightarrow> pad_direction \<Rightarrow> ('c, 'd) media_element \<Rightarrow> ('c, 'd) media_element \<times> bool \<times> pad list" where
  "kms_element_release_requested_pad_action sink_released name dir e =
     (if map_of (me_pending e) name \<noteq> None then (e\<lparr>me_pending := AList.delete name (me_pending e)\<rparr>, True, [])
      else case dir of
        DIR_SRC \<Rightarrow> (let (e1, ps) = kms_element_remove_target_pad name e; (e2, qs) = kms_element_release_pad name e1 in
          (e2, True, ps @ qs))
      | DIR_SINK \<Rightarrow> (e, sink_released, [])
      | DIR_UNKNOWN \<Rightarrow> (e, False, []))"

section \<open>Properties of the element\<close>

text \<open>
  \<open>foreach\<close> over the outputs: \<open>f\<close> runs for each of them. An encoder keeps the value that was
  last set on it; \<open>AList.map_entry\<close> changes what the output \<open>el\<close> keeps.
\<close>

definition set_on_encoder :: "nat \<Rightarrow> ('c encoder \<Rightarrow> 'c encoder) \<Rightarrow> ('c, 'd) media_element \<Rightarrow> ('c, 'd) media_element" where
  "set_on_encoder el f e = e\<lparr>me_encoders := AList.map_entry el f (me_encoders e)\<rparr>"

definition set_target_encoder_bitrate :: "string \<times> output_data \<Rightarrow> ('c, 'd) media_element \<Rightarrow> ('c, 'd) media_element" where
  "set_target_encoder_bitrate odata e = (if od_type (snd odata) = PAD_VIDEO then
     (case od_element (snd odata) of
        Some el \<Rightarrow> set_on_encoder el (\<lambda>en. en\<lparr>en_target := me_target e\<rparr>) e
      | None \<Rightarrow> e) else e)"

definition set_min_encoder_bitrate :: "string \<times> output_data \<Rightarrow> ('c, 'd) media_element \<Rightarrow> ('c, 'd) media_element" where
  "set_min_encoder_bitrate odata e = (if od_type (snd odata) = PAD_VIDEO then
     (case od_element (snd odata) of
        Some el \<Rightarrow> set_on_encoder el (\<lambda>en. en\<lparr>en_min := me_min e\<rparr>) e
      | None \<Rightarrow> e) else e)"

definition set_max_encoder_bitrate :: "string \<times> output_data \<Rightarrow> ('c, 'd) media_element \<Rightarrow> ('c, 'd) media_element" where
  "set_max_encoder_bitrate odata e = (if od_type (snd odata) = PAD_VIDEO then
     (case od_element (snd odata) of
        Some el \<Rightarrow> set_on_encoder el (\<lambda>en. en\<lparr>en_max := me_max e\<rparr>) e
      | None \<Rightarrow> e) else e)"

text \<open>The codec configuration is set on the output even where there is none: the class of NULL.\<close>

definition set_codec_config ::
    "string \<times> output_data \<Rightarrow> ('c, 'd) media_element \<Rightarrow> c_fault + ('c, 'd) media_element" where
  "set_codec_config odata e = (if od_type (snd odata) \<in> {PAD_AUDIO, PAD_VIDEO} then
     (case od_element (snd odata) of
        Some el \<Rightarrow> Inr (set_on_encoder el (\<lambda>en. en\<lparr>en_codec := me_codec_config e\<rparr>) e)
      | None \<Rightarrow> Inl Null_dereference) else Inr e)"

fun set_codec_configs ::
    "(string \<times> output_data) list \<Rightarrow> ('c, 'd) media_element \<Rightarrow> c_fault + ('c, 'd) media_element" where
  "set_codec_configs [] e = Inr e"
| "set_codec_configs (od # ods) e = bind_result (set_codec_config od e) (set_codec_configs ods)"

text \<open>The pad that a probe watches, if the element still has it.\<close>

definition kms_element_get_stat_for_probe :: "stats_probe \<Rightarrow> ('c, 'd) media_element \<Rightarrow> string option" where
  "kms_element_get_stat_for_probe probe e =
     (case find (\<lambda>p. el_dir (snd p) = DIR_SINK \<and> kms_stats_probe_watches probe (fst p)) (me_pads e) of
        None \<Rightarrow> None
      | Some p \<Rightarrow> (if map_of (me_avg e) (fst p) = None then None else Some (fst p)))"

definition kms_element_enable_media_stats :: "('c, 'd) media_element \<Rightarrow> stats_probe \<Rightarrow> stats_probe" where
  "kms_element_enable_media_stats e probe = (case kms_element_get_stat_for_probe probe e of
     None \<Rightarrow> probe
   | Some sstat \<Rightarrow> kms_stats_probe_add_latency sstat probe)"

definition kms_element_disable_media_stats :: "stats_probe \<Rightarrow> stats_probe" where
  "kms_element_disable_media_stats probe = kms_stats_probe_remove probe"

definition kms_element_collect_media_stats_impl :: "bool \<Rightarrow> ('c, 'd) media_element \<Rightarrow> ('c, 'd) media_element" where
  "kms_element_collect_media_stats_impl enable e = (if enable
     then e\<lparr>me_probes := map (kms_element_enable_media_stats e) (me_probes e)\<rparr>
     else e\<lparr>me_probes := map kms_element_disable_media_stats (me_probes e)\<rparr>)"

datatype 'c element_prop =
    PROP_ACCEPT_EOS bool
  | PROP_TARGET_ENCODER_BITRATE int
  | PROP_MIN_ENCODER_BITRATE int
  | PROP_MAX_ENCODER_BITRATE int
  | PROP_CODEC_CONFIG "'c option"
  | PROP_MEDIA_STATS bool

fun kms_element_set_property ::
    "'c element_prop \<Rightarrow> ('c, 'd) media_element \<Rightarrow> c_fault + ('c, 'd) media_element" where
  "kms_element_set_property (PROP_ACCEPT_EOS b) e = Inr (e\<lparr>me_accept_eos := b\<rparr>)"
| "kms_element_set_property (PROP_TARGET_ENCODER_BITRATE v) e =
     (let v1 = (if v < me_min e then me_min e else if v > me_max e then me_max e else v);
          e1 = e\<lparr>me_target := v1\<rparr> in
      Inr (fold set_target_encoder_bitrate (me_outputs e1) e1))"
| "kms_element_set_property (PROP_MIN_ENCODER_BITRATE v) e =
     (let v1 = (if v > me_max e then me_max e else v);
          e1 = e\<lparr>me_min := v1\<rparr>;
          e2 = fold set_min_encoder_bitrate (me_outputs e1) e1 in
      Inr (if me_target e2 < me_min e2
           then (let e3 = e2\<lparr>me_target := me_min e2\<rparr> in fold set_target_encoder_bitrate (me_outputs e3) e3)
           else e2))"
| "kms_element_set_property (PROP_MAX_ENCODER_BITRATE v) e =
     (let v1 = (if v < me_min e then me_min e else v);
          e1 = e\<lparr>me_max := v1\<rparr>;
          e2 = fold set_max_encoder_bitrate (me_outputs e1) e1 in
      Inr (if me_target e2 > me_max e2
           then (let e3 = e2\<lparr>me_target := me_max e2\<rparr> in fold set_target_encoder_bitrate (me_outputs e3) e3)
           else e2))"
| "kms_element_set_property (PROP_CODEC_CONFIG c) e =
     (let e1 = e\<lparr>me_codec_config := c\<rparr> in set_codec_configs (me_outputs e1) e1)"
| "kms_element_set_property (PROP_MEDIA_STATS enable) e =
     Inr (if enable \<noteq> me_stats_enabled e
          then kms_element_collect_media_stats_impl enable (e\<lparr>me_stats_enabled := enable\<rparr>) else e)"

section \<open>What a buffer and an event meet on their way\<close>

text \<open>\<open>average\<close>: the new average of the old one and the latency of a buffer, in floating point.\<close>

definition kms_element_calculate_stats ::
    "('t \<Rightarrow> 'd \<Rightarrow> 'd) \<Rightarrow> 't \<Rightarrow> string \<Rightarrow> ('c, 'd) media_element \<Rightarrow> ('c, 'd) media_element" where
  "kms_element_calculate_stats average t sstat e =
     e\<lparr>me_avg := AList.map_entry sstat (\<lambda>ia. if ia_type ia \<in> {PAD_AUDIO, PAD_VIDEO}
        then ia\<lparr>ia_avg := average t (ia_avg ia)\<rparr> else ia) (me_avg e)\<rparr>"

definition AUDIO_STREAM_NAME :: string where "AUDIO_STREAM_NAME = ''audio''"
definition VIDEO_STREAM_NAME :: string where "VIDEO_STREAM_NAME = ''video''"

definition kms_element_get_input_latency_stats ::
    "string option \<Rightarrow> ('c, 'd) media_element \<Rightarrow> (string \<times> string \<times> 'd) list" where
  "kms_element_get_input_latency_stats selector e =
     map (\<lambda>(padname, avg). (padname, if ia_type avg = PAD_AUDIO then AUDIO_STREAM_NAME else VIDEO_STREAM_NAME, ia_avg avg))
       (filter (\<lambda>(padname, avg). \<not> ((selector = Some AUDIO_STREAM_NAME \<and> ia_type avg \<noteq> PAD_AUDIO) \<or>
                                    (selector = Some VIDEO_STREAM_NAME \<and> ia_type avg \<noteq> PAD_VIDEO))) (me_avg e))"

definition kms_element_stats_impl ::
    "string option \<Rightarrow> ('c, 'd) media_element \<Rightarrow> (string \<times> string \<times> 'd) list option" where
  "kms_element_stats_impl selector e =
     (if me_stats_enabled e then Some (kms_element_get_input_latency_stats selector e) else None)"

datatype event_type = EVENT_EOS | EVENT_FLUSH_START | EVENT_FLUSH_STOP | EVENT_OTHER

definition accept_eos_probe :: "event_type \<Rightarrow> ('c, 'd) media_element \<Rightarrow> probe_return" where
  "accept_eos_probe type e = (if type = EVENT_EOS \<or> type = EVENT_FLUSH_START \<or> type = EVENT_FLUSH_STOP
     then (if \<not> me_accept_eos e then Probe_drop else Probe_ok) else Probe_ok)"

fun g_strstr_len :: "string \<Rightarrow> string \<Rightarrow> bool" where
  "g_strstr_len needle [] = (needle = [])"
| "g_strstr_len needle (c # cs) = (take (length needle) (c # cs) = needle \<or> g_strstr_len needle cs)"

text \<open>\<open>templ\<close>: the type of the template the pad was made of, if it is one for source pads.\<close>

definition kms_element_get_pad_type :: "pad_type option \<Rightarrow> string \<Rightarrow> pad_type" where
  "kms_element_get_pad_type templ name =
     (if templ = Some PAD_AUDIO \<or> g_strstr_len ''audio'' name then PAD_AUDIO
      else if templ = Some PAD_VIDEO \<or> g_strstr_len ''video'' name then PAD_VIDEO
      else PAD_DATA)"

section \<open>Calls\<close>

text \<open>
  What runs on an element, in any order: requests and releases of pads, outputs that the
  subclass makes, peers that come and go, sinks that the subclass connects, properties, and the
  state of the bin. Beside the element we keep which source pads were given to a client and not
  released since, with their type and description, and every name that was ever given.
\<close>

datatype 'c element_call =
    Request_pad src_answer bool pad_type "string option" pad_direction
  | Get_output nat pad_type "string option"
  | Peer_linked bool string
  | Peer_unlinked string
  | Connect_sink bool pad pad_type "string option"
  | Remove_sink pad_type "string option"
  | Release_pad bool string pad_direction
  | Set_property "'c element_prop"
  | Set_playing bool

record ('c, 'd) element_session =
  es_element :: "('c, 'd) media_element"
  es_live :: "(string \<times> pad_type \<times> string) list"
  es_given :: "string list"

definition new_session :: "('c, 'd) element_session" where
  "new_session = \<lparr>es_element = kms_element_init, es_live = [], es_given = []\<rparr>"

fun run_call :: "'d \<Rightarrow> 'c encoder \<Rightarrow> 'c element_call \<Rightarrow> ('c, 'd) element_session \<Rightarrow> c_fault + ('c, 'd) element_session" where
  "run_call zero blank (Request_pad answer allowed type desc dir) s =
     (let (e, name) = kms_element_request_new_pad_action answer allowed type desc dir (es_element s) in
      Inr (case name of
        Some n \<Rightarrow> (if dir = DIR_SRC
          then s\<lparr>es_element := e, es_live := (n, type, format_pad_description desc) # es_live s, es_given := n # es_given s\<rparr>
          else s\<lparr>es_element := e\<rparr>)
      | None \<Rightarrow> s\<lparr>es_element := e\<rparr>))"
| "run_call zero blank (Get_output new_element type desc) s =
     bind_result (kms_element_get_output_element blank new_element type desc (es_element s)) (\<lambda>(e, el). Inr (s\<lparr>es_element := e\<rparr>))"
| "run_call zero blank (Peer_linked target_ok name) s =
     Inr (s\<lparr>es_element := kms_element_set_target_on_linked (\<lambda>_. target_ok) name (es_element s)\<rparr>)"
| "run_call zero blank (Peer_unlinked name) s =
     Inr (s\<lparr>es_element := fst (kms_element_remove_target_on_unlinked name (es_element s))\<rparr>)"
| "run_call zero blank (Connect_sink target_ok target type desc) s =
     Inr (s\<lparr>es_element := fst (kms_element_connect_sink_target_full zero target_ok target type desc (es_element s))\<rparr>)"
| "run_call zero blank (Remove_sink type desc) s =
     Inr (s\<lparr>es_element := kms_element_remove_sink_by_type_full type desc (es_element s)\<rparr>)"
| "run_call zero blank (Release_pad sink_released name dir) s =
     Inr (s\<lparr>es_element := fst (kms_element_release_requested_pad_action sink_released name dir (es_element s)),
            es_live := filter (\<lambda>l. fst l \<noteq> name) (es_live s)\<rparr>)"
| "run_call zero blank (Set_property p) s =
     bind_result (kms_element_set_property p (es_element s)) (\<lambda>e. Inr (s\<lparr>es_element := e\<rparr>))"
| "run_call zero blank (Set_playing b) s = Inr (s\<lparr>es_element := (es_element s)\<lparr>me_playing := b\<rparr>\<rparr>)"

text \<open>
  A new output is an element the bin does not have yet. A pad that is released is one that
  waits or one that the element has, in whose direction it is.
\<close>

fun call_ok :: "'c element_call \<Rightarrow> ('c, 'd) media_element \<Rightarrow> bool" where
  "call_ok (Get_output new_element type desc) e =
     (new_element \<notin> fst ` set (me_encoders e) \<and> Some new_element \<notin> (od_element \<circ> snd) ` set (me_outputs e))"
| "call_ok (Release_pad sink_released name dir) e =
     (case map_of (me_pending e) name of
        Some p \<Rightarrow> True
      | None \<Rightarrow> (case map_of (me_pads e) name of Some p \<Rightarrow> dir = el_dir p | None \<Rightarrow> False))"
| "call_ok (Peer_linked target_ok name) e = True"
| "call_ok (Peer_unlinked name) e = True"
| "call_ok (Connect_sink target_ok target type desc) e = True"
| "call_ok (Remove_sink type desc) e = True"
| "call_ok (Request_pad answer allowed type desc dir) e = True"
| "call_ok (Set_property p) e = True"
| "call_ok (Set_playing b) e = True"

inductive element_runs :: "'d \<Rightarrow> 'c encoder \<Rightarrow> ('c, 'd) element_session \<Rightarrow> bool" for zero blank where
  runs_new: "element_runs zero blank new_session"
| runs_call: "element_runs zero blank s \<Longrightarrow> call_ok c (es_element s) \<Longrightarrow> run_call zero blank c s = Inr s' \<Longrightarrow>
     element_runs zero blank s'"

section \<open>Names tell what they are for\<close>

definition src_key :: "pad_type \<Rightarrow> string \<Rightarrow> string" where
  "src_key t d = kms_element_pad_type_str t @ ''_src_'' @ d"

definition src_name :: "pad_type \<Rightarrow> string \<Rightarrow> nat \<Rightarrow> string" where
  "src_name t d n = src_key t d @ ''_'' @ decimal n"

lemma format_format [simp]: "format_pad_description (Some (format_pad_description d)) = format_pad_description d"
  by (simp add: format_pad_description_def split: option.splits)

lemma create_id_src:
  "create_id_from_pad_attrs t DIR_SRC d =
     (if t = PAD_UNKNOWN then None else Some (src_key t (format_pad_description d)))"
  by (cases t) (simp_all add: create_id_from_pad_attrs_def src_key_def)

lemma src_template:
  "get_pad_template_from_pad_type t = (if t = PAD_UNKNOWN then None else Some (\<lambda>d n. src_name t d (unat n)))"
  by (cases t) (simp_all add: get_pad_template_from_pad_type_def src_name_def src_key_def)

lemma src_key_inj [simp]: "src_key t d = src_key t' d' \<longleftrightarrow> t = t' \<and> d = d'"
  if "t \<noteq> PAD_UNKNOWN" "t' \<noteq> PAD_UNKNOWN"
  using that by (cases t; cases t') (auto simp: src_key_def)

text \<open>A number holds no underscore, so the last one ends the description.\<close>

lemma decimal_no_underscore: "CHR ''_'' \<notin> set (decimal n)"
  using decimal_digits [of n] by (auto simp: list_all_iff is_digit_def char_code_def)

lemma split_at_first:
  "xs @ c # ys = xs' @ c # ys' \<Longrightarrow> c \<notin> set xs \<Longrightarrow> c \<notin> set xs' \<Longrightarrow> xs = xs' \<and> ys = ys'"
proof (induction xs arbitrary: xs')
  case Nil
  then show ?case by (cases xs') auto
next
  case (Cons x xs)
  then show ?case by (cases xs') auto
qed

lemma split_at_last:
  assumes "xs @ c # ys = xs' @ c # ys'" "c \<notin> set ys" "c \<notin> set ys'"
  shows "xs = xs' \<and> ys = ys'"
  using split_at_first [of "rev ys" c "rev xs" "rev ys'" "rev xs'"] arg_cong [OF assms(1), of rev] assms(2,3)
  by simp

lemma src_name_inj [simp]:
  assumes "t \<noteq> PAD_UNKNOWN" "t' \<noteq> PAD_UNKNOWN"
  shows "src_name t d n = src_name t' d' n' \<longleftrightarrow> t = t' \<and> d = d' \<and> n = n'"
proof
  assume "src_name t d n = src_name t' d' n'"
  then have "src_key t d @ CHR ''_'' # decimal n = src_key t' d' @ CHR ''_'' # decimal n'"
    by (simp add: src_name_def)
  from split_at_last [OF this decimal_no_underscore decimal_no_underscore]
  show "t = t' \<and> d = d' \<and> n = n'"
    using assms by (simp add: decimal_inj)
qed simp

lemma src_name_not_sink [simp]: "t \<noteq> PAD_UNKNOWN \<Longrightarrow> src_name t d n \<noteq> get_sink_pad_name t' d'"
  by (cases t) (simp_all add: src_name_def src_key_def get_sink_pad_name_def)

section \<open>Requested source pads\<close>

text \<open>
  The invariant on the tables of an element, as maps: the waiting pads \<open>P\<close>, the pads \<open>D\<close> and
  the outputs \<open>O\<close>. A name is counted if the output for it has given its number; a name that is
  in use is served if it waits, as long as the output has no element, and is a pad of that
  element's from then on.
\<close>

definition counted :: "(string \<Rightarrow> output_data option) \<Rightarrow> string \<Rightarrow> pad_type \<Rightarrow> string \<Rightarrow> bool" where
  "counted outs n t d \<longleftrightarrow> (\<exists>od k. outs (src_key t d) = Some od \<and> n = src_name t d k \<and> k < unat (od_pad_count od))"

definition served_in ::
    "(string \<Rightarrow> pending_pad option) \<Rightarrow> (string \<Rightarrow> element_pad option) \<Rightarrow> (string \<Rightarrow> output_data option) \<Rightarrow>
     string \<Rightarrow> pad_type \<Rightarrow> string \<Rightarrow> bool" where
  "served_in P D outs n t d \<longleftrightarrow> (\<exists>od. outs (src_key t d) = Some od \<and> (case od_element od of
     None \<Rightarrow> P n = Some \<lparr>pe_type = t, pe_dir = DIR_SRC, pe_desc = d\<rparr> \<and> D n = None
   | Some el \<Rightarrow> P n = None \<and> (\<exists>p. D n = Some p \<and> el_dir p = DIR_SRC \<and> el_output p = Some el)))"

definition is_sink_name :: "string \<Rightarrow> bool" where
  "is_sink_name n \<longleftrightarrow> (\<exists>t d. n = get_sink_pad_name t d)"

definition src_inv ::
    "(string \<Rightarrow> pending_pad option) \<Rightarrow> (string \<Rightarrow> element_pad option) \<Rightarrow> (string \<Rightarrow> output_data option) \<Rightarrow>
     (string \<times> pad_type \<times> string) set \<Rightarrow> string list \<Rightarrow> bool" where
  "src_inv P D outs live given \<longleftrightarrow>
     (\<forall>n p. P n = Some p \<longrightarrow> pe_dir p = DIR_SRC \<and> (n, pe_type p, pe_desc p) \<in> live \<or> pe_dir p = DIR_SINK \<and> is_sink_name n) \<and>
     (\<forall>n p. D n = Some p \<longrightarrow> el_dir p = DIR_SRC \<and> (\<exists>t d. (n, t, d) \<in> live) \<or> el_dir p = DIR_SINK \<and> is_sink_name n) \<and>
     (\<forall>n t d. (n, t, d) \<in> live \<longrightarrow> n \<in> set given \<and> t \<noteq> PAD_UNKNOWN \<and> counted outs n t d \<and> served_in P D outs n t d) \<and>
     (\<forall>n \<in> set given. \<exists>t d. t \<noteq> PAD_UNKNOWN \<and> counted outs n t d) \<and> distinct given \<and>
     (\<forall>k od. outs k = Some od \<longrightarrow> unat (od_pad_count od) \<le> length given)"

lemma src_inv_pending: "src_inv P D outs live given \<Longrightarrow> P n = Some p \<Longrightarrow>
    pe_dir p = DIR_SRC \<and> (n, pe_type p, pe_desc p) \<in> live \<or> pe_dir p = DIR_SINK \<and> is_sink_name n"
  and src_inv_pad: "src_inv P D outs live given \<Longrightarrow> D n = Some ep \<Longrightarrow>
    el_dir ep = DIR_SRC \<and> (\<exists>t d. (n, t, d) \<in> live) \<or> el_dir ep = DIR_SINK \<and> is_sink_name n"
  and src_inv_live: "src_inv P D outs live given \<Longrightarrow> (n, t, d) \<in> live \<Longrightarrow>
    n \<in> set given \<and> t \<noteq> PAD_UNKNOWN \<and> counted outs n t d \<and> served_in P D outs n t d"
  and src_inv_given: "src_inv P D outs live given \<Longrightarrow> n \<in> set given \<Longrightarrow> \<exists>t d. t \<noteq> PAD_UNKNOWN \<and> counted outs n t d"
  and src_inv_count: "src_inv P D outs live given \<Longrightarrow> outs k = Some od \<Longrightarrow> unat (od_pad_count od) \<le> length given"
  and src_inv_distinct: "src_inv P D outs live given \<Longrightarrow> distinct given"
  unfolding src_inv_def by blast+

lemma src_invI:
  assumes "\<And>n p. P n = Some p \<Longrightarrow> pe_dir p = DIR_SRC \<and> (n, pe_type p, pe_desc p) \<in> live \<or> pe_dir p = DIR_SINK \<and> is_sink_name n"
    and "\<And>n p. D n = Some p \<Longrightarrow> el_dir p = DIR_SRC \<and> (\<exists>t d. (n, t, d) \<in> live) \<or> el_dir p = DIR_SINK \<and> is_sink_name n"
    and "\<And>n t d. (n, t, d) \<in> live \<Longrightarrow> n \<in> set given \<and> t \<noteq> PAD_UNKNOWN \<and> counted outs n t d \<and> served_in P D outs n t d"
    and "\<And>n. n \<in> set given \<Longrightarrow> \<exists>t d. t \<noteq> PAD_UNKNOWN \<and> counted outs n t d" and "distinct given"
    and "\<And>k od. outs k = Some od \<Longrightarrow> unat (od_pad_count od) \<le> length given"
  shows "src_inv P D outs live given"
  using assms unfolding src_inv_def by blast

lemma live_same: "src_inv P D outs live given \<Longrightarrow> (n, t, d) \<in> live \<Longrightarrow> (n, t', d') \<in> live \<Longrightarrow> t = t' \<and> d = d'"
  by (drule (1) src_inv_live [rotated], frule (1) src_inv_live [rotated]) (auto simp: counted_def dest: src_inv_live)

lemma live_not_sink: "src_inv P D outs live given \<Longrightarrow> (n, t, d) \<in> live \<Longrightarrow> \<not> is_sink_name n"
  using src_inv_live [of P D outs live given n t d] by (auto simp: counted_def is_sink_name_def)

text \<open>The next number of an output was never given.\<close>

lemma next_fresh:
  assumes inv: "src_inv P D outs live given" and t: "t \<noteq> PAD_UNKNOWN"
    and od: "outs (src_key t d) = Some od \<or> outs (src_key t d) = None \<and> od_pad_count od = 0"
    and n: "n = src_name t d (unat (od_pad_count od))"
  shows "n \<notin> set given" and "P n = None" and "D n = None"
proof -
  show new: "n \<notin> set given"
    using src_inv_given [OF inv, of n] t od n by (auto simp: counted_def)
  have old: "(n, t', d') \<notin> live" for t' d'
    using src_inv_live [OF inv, of n t' d'] new by auto
  have sink: "\<not> is_sink_name n"
    using t n by (simp add: is_sink_name_def)
  show "P n = None"
    using src_inv_pending [OF inv, of n] old sink by (cases "P n") auto
  show "D n = None"
    using src_inv_pad [OF inv, of n] old sink by (cases "D n") auto
qed

lemma counted_more:
  assumes "counted outs n t d"
    and more: "\<And>od. outs (src_key t d) = Some od \<Longrightarrow>
      \<exists>od'. outs' (src_key t d) = Some od' \<and> unat (od_pad_count od) \<le> unat (od_pad_count od')"
  shows "counted outs' n t d"
proof -
  from assms(1) obtain od k where o: "outs (src_key t d) = Some od" and k: "n = src_name t d k" "k < unat (od_pad_count od)"
    by (auto simp: counted_def)
  from more [OF o] obtain od' where "outs' (src_key t d) = Some od'" "unat (od_pad_count od) \<le> unat (od_pad_count od')"
    by blast
  with k show ?thesis
    by (auto simp: counted_def intro!: exI [of _ k])
qed

lemma served_local:
  assumes "served_in P D outs n t d" "P' n = P n" "D' n = D n"
    and same: "\<And>od. outs (src_key t d) = Some od \<Longrightarrow>
      \<exists>od'. outs' (src_key t d) = Some od' \<and> od_element od' = od_element od"
  shows "served_in P' D' outs' n t d"
proof -
  from assms(1) obtain od where o: "outs (src_key t d) = Some od"
    by (auto simp: served_in_def)
  from same [OF o] obtain od' where "outs' (src_key t d) = Some od'" "od_element od' = od_element od"
    by blast
  with assms(1-3) o show ?thesis
    by (cases "od_element od") (auto simp: served_in_def)
qed

text \<open>A new output, and a pad that is asked for.\<close>

lemma src_inv_new_output:
  assumes "src_inv P D outs live given" "outs (src_key t d) = None" "t \<noteq> PAD_UNKNOWN"
  shows "src_inv P D (outs(src_key t d \<mapsto> create_output_element_data t)) live given"
proof (rule src_invI)
  fix n t' d' assume "(n, t', d') \<in> live"
  with src_inv_live [OF assms(1) this] assms(2)
  show "n \<in> set given \<and> t' \<noteq> PAD_UNKNOWN \<and> counted (outs(src_key t d \<mapsto> create_output_element_data t)) n t' d' \<and>
      served_in P D (outs(src_key t d \<mapsto> create_output_element_data t)) n t' d'"
    by (auto simp: counted_def served_in_def)
next
  fix n assume "n \<in> set given"
  then show "\<exists>t' d'. t' \<noteq> PAD_UNKNOWN \<and> counted (outs(src_key t d \<mapsto> create_output_element_data t)) n t' d'"
    using src_inv_given [OF assms(1)] assms(2) by (fastforce simp: counted_def)
qed (use assms(1) src_inv_pending src_inv_pad src_inv_count src_inv_distinct in
      \<open>auto simp: create_output_element_data_def split: if_splits\<close>)

lemma src_inv_request:
  assumes inv: "src_inv P D outs live given" and t: "t \<noteq> PAD_UNKNOWN" and od: "outs (src_key t d) = Some od"
    and n: "n = src_name t d (unat (od_pad_count od))" and room: "Suc (length given) < 2 ^ 32"
    and tables: "case od_element od of
        None \<Rightarrow> P' = P(n \<mapsto> \<lparr>pe_type = t, pe_dir = DIR_SRC, pe_desc = d\<rparr>) \<and> D' = D
      | Some el \<Rightarrow> P' = P \<and> D' = D(n \<mapsto> \<lparr>el_dir = DIR_SRC, el_active = b, el_output = Some el, el_target = None\<rparr>)"
  shows "src_inv P' D' (outs(src_key t d \<mapsto> od\<lparr>od_pad_count := od_pad_count od + 1\<rparr>)) (insert (n, t, d) live) (n # given)"
    (is "src_inv _ _ ?outs _ _")
proof (rule src_invI)
  note fresh = next_fresh [OF inv t disjI1 [OF od] n]
  have bound: "unat (od_pad_count od) \<le> length given"
    using inv od by (rule src_inv_count)
  then have step: "unat (od_pad_count od + 1) = Suc (unat (od_pad_count od))"
    using room by (simp add: unat_word_ariths)
  have more: "counted ?outs m t' d'" if "counted outs m t' d'" for m t' d'
    using that by (rule counted_more) (use od step in \<open>auto\<close>)
  have mine: "counted ?outs n t d"
    using n step by (auto simp: counted_def)
  show "m \<in> set (n # given) \<and> t' \<noteq> PAD_UNKNOWN \<and> counted ?outs m t' d' \<and> served_in P' D' ?outs m t' d'"
    if l: "(m, t', d') \<in> insert (n, t, d) live" for m t' d'
  proof (cases "(m, t', d') = (n, t, d)")
    case True
    then show ?thesis
      using tables mine fresh t by (cases "od_element od") (auto simp: served_in_def)
  next
    case False
    with l have old: "(m, t', d') \<in> live" by blast
    note facts = src_inv_live [OF inv old]
    then have ne: "m \<noteq> n" using fresh(1) by auto
    have "P' m = P m" "D' m = D m"
      using tables ne by (cases "od_element od"; auto)+
    with facts od have "served_in P' D' ?outs m t' d'"
      by (intro served_local [of P D outs m t' d' P' D' ?outs]) auto
    with facts more show ?thesis by auto
  qed
  show "\<exists>t' d'. t' \<noteq> PAD_UNKNOWN \<and> counted ?outs m t' d'" if "m \<in> set (n # given)" for m
    using that mine t more src_inv_given [OF inv, of m] unfolding list.set insert_iff by blast
  show "distinct (n # given)"
    using fresh(1) src_inv_distinct [OF inv] by simp
  show "unat (od_pad_count od') \<le> length (n # given)" if "?outs k = Some od'" for k od'
    using that src_inv_count [OF inv, of k od'] bound step by (auto split: if_splits)
  show "pe_dir p = DIR_SRC \<and> (m, pe_type p, pe_desc p) \<in> insert (n, t, d) live \<or> pe_dir p = DIR_SINK \<and> is_sink_name m"
    if "P' m = Some p" for m p
    using that tables src_inv_pending [OF inv, of m p] by (cases "od_element od") (auto split: if_splits)
  show "el_dir p = DIR_SRC \<and> (\<exists>t' d'. (m, t', d') \<in> insert (n, t, d) live) \<or> el_dir p = DIR_SINK \<and> is_sink_name m"
    if D: "D' m = Some p" for m p
  proof (cases "m = n \<and> od_element od \<noteq> None")
    case True
    then show ?thesis using D tables by auto
  next
    case False
    then have "D m = Some p"
      using D tables fresh by (cases "od_element od") (auto split: if_splits)
    then show ?thesis using src_inv_pad [OF inv, of m p] by blast
  qed
qed

text \<open>The output gets its element: what waits for it is served.\<close>

lemma src_inv_serve:
  assumes inv: "src_inv P D outs live given" and od: "outs (src_key t d) = Some od" "od_element od = None"
    and P': "\<And>n. P' n = (case P n of Some p \<Rightarrow> if waits_for t d p then None else Some p | None \<Rightarrow> None)"
    and D': "\<And>n. D' n = (if (\<exists>p. P n = Some p \<and> waits_for t d p) \<and> D n = None
        then Some \<lparr>el_dir = DIR_SRC, el_active = b, el_output = Some el, el_target = None\<rparr> else D n)"
    and t: "t \<noteq> PAD_UNKNOWN"
  shows "src_inv P' D' (outs(src_key t d \<mapsto> od\<lparr>od_element := Some el\<rparr>)) live given" (is "src_inv _ _ ?outs _ _")
proof (rule src_invI)
  have more: "counted ?outs m t' d'" if "counted outs m t' d'" for m t' d'
    using that by (rule counted_more) (use od in \<open>auto\<close>)
  show "m \<in> set given \<and> t' \<noteq> PAD_UNKNOWN \<and> counted ?outs m t' d' \<and> served_in P' D' ?outs m t' d'"
    if l: "(m, t', d') \<in> live" for m t' d'
  proof -
    note facts = src_inv_live [OF inv l]
    have "served_in P' D' ?outs m t' d'"
    proof (cases "t' = t \<and> d' = d")
      case True
      then show ?thesis using facts od by (auto simp: served_in_def P' D' waits_for_def)
    next
      case False
      then have k: "src_key t' d' \<noteq> src_key t d" using facts t by auto
      have "P' m = P m" "D' m = D m"
        using facts False by (auto simp: served_in_def P' D' waits_for_def split: option.splits)
      with facts k show ?thesis
        by (intro served_local [of P D outs m t' d' P' D' ?outs]) auto
    qed
    with facts more show ?thesis by auto
  qed
  show "\<exists>t' d'. t' \<noteq> PAD_UNKNOWN \<and> counted ?outs m t' d'" if "m \<in> set given" for m
    using that more src_inv_given [OF inv, of m] by blast
  show "distinct given" using inv by (rule src_inv_distinct)
  show "unat (od_pad_count od') \<le> length given" if "?outs k = Some od'" for k od'
    using that src_inv_count [OF inv, of k] od by (auto split: if_splits)
  show "pe_dir p = DIR_SRC \<and> (m, pe_type p, pe_desc p) \<in> live \<or> pe_dir p = DIR_SINK \<and> is_sink_name m"
    if "P' m = Some p" for m p
    using that src_inv_pending [OF inv, of m p] by (auto simp: P' split: option.splits if_splits)
  show "el_dir p = DIR_SRC \<and> (\<exists>t' d'. (m, t', d') \<in> live) \<or> el_dir p = DIR_SINK \<and> is_sink_name m"
    if "D' m = Some p" for m p
    using that src_inv_pad [OF inv, of m p] src_inv_pending [OF inv, of m]
    by (auto simp: D' waits_for_def split: if_splits)
qed

text \<open>The target of a pad, the pads and requests for sinks, and what is released.\<close>

lemma src_inv_local:
  assumes inv: "src_inv P D outs live given" and live': "live' = {l \<in> live. fst l \<noteq> n} \<or> live' = live \<and> (\<forall>t d. (n, t, d) \<notin> live)"
    and others: "\<And>m. m \<noteq> n \<Longrightarrow> P' m = P m" "\<And>m. m \<noteq> n \<Longrightarrow> D' m = D m"
    and here: "P' n = None \<or> (\<exists>p. P' n = Some p \<and> pe_dir p = DIR_SINK \<and> is_sink_name n)"
      "D' n = None \<or> (\<exists>p. D' n = Some p \<and> el_dir p = DIR_SINK \<and> is_sink_name n)"
  shows "src_inv P' D' outs live' given"
proof (rule src_invI)
  have live_iff: "(m, t, d) \<in> live' \<longleftrightarrow> (m, t, d) \<in> live \<and> m \<noteq> n" for m t d
    using live' by auto
  show "m \<in> set given \<and> t \<noteq> PAD_UNKNOWN \<and> counted outs m t d \<and> served_in P' D' outs m t d"
    if "(m, t, d) \<in> live'" for m t d
  proof -
    from that live_iff have l: "(m, t, d) \<in> live" and ne: "m \<noteq> n" by auto
    from src_inv_live [OF inv l] show ?thesis
      by (auto intro: served_local [of P D outs m t d P' D' outs] simp: others ne)
  qed
  show "pe_dir p = DIR_SRC \<and> (m, pe_type p, pe_desc p) \<in> live' \<or> pe_dir p = DIR_SINK \<and> is_sink_name m"
    if "P' m = Some p" for m p
    using that here(1) others(1) [of m] src_inv_pending [OF inv, of m p] live_iff by (cases "m = n") auto
  show "el_dir p = DIR_SRC \<and> (\<exists>t d. (m, t, d) \<in> live') \<or> el_dir p = DIR_SINK \<and> is_sink_name m"
    if "D' m = Some p" for m p
    using that here(2) others(2) [of m] src_inv_pad [OF inv, of m p] live_iff by (cases "m = n") auto
qed (use src_inv_given [OF inv] src_inv_count [OF inv] src_inv_distinct [OF inv] in \<open>blast\<close>)+

lemma src_inv_retarget:
  assumes inv: "src_inv P D outs live given" and p: "D n = Some p"
  shows "src_inv P (D(n \<mapsto> p\<lparr>el_target := x\<rparr>)) outs live given" (is "src_inv P ?D _ _ _")
proof (rule src_invI)
  show "m \<in> set given \<and> t \<noteq> PAD_UNKNOWN \<and> counted outs m t d \<and> served_in P ?D outs m t d"
    if l: "(m, t, d) \<in> live" for m t d
    using src_inv_live [OF inv l] p
    by (cases "outs (src_key t d)"; cases "m = n") (auto simp: served_in_def split: option.splits)
  show "el_dir q = DIR_SRC \<and> (\<exists>t d. (m, t, d) \<in> live) \<or> el_dir q = DIR_SINK \<and> is_sink_name m"
    if "?D m = Some q" for m q
    using that src_inv_pad [OF inv, of m] p by (auto split: if_splits)
qed (use src_inv_given [OF inv] src_inv_count [OF inv] src_inv_distinct [OF inv] src_inv_pending [OF inv] in \<open>blast\<close>)+

section \<open>The calls keep the invariant\<close>

definition session_ok :: "('c, 'd) element_session \<Rightarrow> bool" where
  "session_ok s \<longleftrightarrow> hash_ok (me_pending (es_element s)) \<and>
     src_inv (map_of (me_pending (es_element s))) (map_of (me_pads (es_element s))) (map_of (me_outputs (es_element s)))
       (set (es_live s)) (es_given s)"

abbreviation el_inv :: "('c, 'd) media_element \<Rightarrow> (string \<times> pad_type \<times> string) list \<Rightarrow> string list \<Rightarrow> bool" where
  "el_inv e live given \<equiv> hash_ok (me_pending e) \<and>
     src_inv (map_of (me_pending e)) (map_of (me_pads e)) (map_of (me_outputs e)) (set live) given"

lemma session_okI: "el_inv e live given \<Longrightarrow> session_ok \<lparr>es_element = e, es_live = live, es_given = given\<rparr>"
  by (simp add: session_ok_def)

lemma sink_named [simp, intro]: "is_sink_name (get_sink_pad_name t d)"
  by (auto simp: is_sink_name_def)

lemma request_src_keeps:
  assumes inv: "el_inv e live given" and room: "name \<noteq> None \<Longrightarrow> Suc (length given) < 2 ^ 32"
    and step: "kms_element_request_new_srcpad answer type desc e = (e', name)"
  shows "case name of
      None \<Rightarrow> el_inv e' live given
    | Some n \<Rightarrow> el_inv e' ((n, type, format_pad_description desc) # live) (n # given)"
proof (cases "type = PAD_UNKNOWN")
  case True
  then show ?thesis using step inv by (auto simp: kms_element_request_new_srcpad_def src_template)
next
  case False
  define d where "d = format_pad_description desc"
  define od where "od = (case map_of (me_outputs e) (src_key type d) of Some od \<Rightarrow> od | None \<Rightarrow> create_output_element_data type)"
  let ?P = "map_of (me_pending e)" and ?D = "map_of (me_pads e)"
  let ?outs = "(map_of (me_outputs e))(src_key type d \<mapsto> od)" and ?n = "src_name type d (unat (od_pad_count od))"
  have base: "src_inv ?P ?D ?outs (set live) given"
  proof (cases "map_of (me_outputs e) (src_key type d)")
    case None
    then show ?thesis using inv False by (simp add: od_def src_inv_new_output)
  next
    case (Some od')
    then have "?outs = map_of (me_outputs e)" by (auto simp: od_def fun_eq_iff)
    then show ?thesis using inv by simp
  qed
  have n: "?P ?n = None" "?D ?n = None"
    by (rule next_fresh [OF base False, of d od]; simp)+
  have key: "?outs (src_key type d) = Some od" by simp
  have fd: "format_pad_description (Some d) = d" by (simp add: d_def)
  let ?e1 = "e\<lparr>me_outputs := AList.update (src_key type d) (od\<lparr>od_pad_count := od_pad_count od + 1\<rparr>) (me_outputs e)\<rparr>"
  have eq: "(e', name) = (if od_element od = None \<and> answer = Request_not_supported
      then (e\<lparr>me_outputs := AList.update (src_key type d) od (me_outputs e)\<rparr>, None)
      else case od_element od of
        None \<Rightarrow> (?e1\<lparr>me_pending := AList.update ?n \<lparr>pe_type = type, pe_dir = DIR_SRC, pe_desc = d\<rparr> (me_pending e)\<rparr>, Some ?n)
      | Some el \<Rightarrow> (?e1\<lparr>me_pads := AList.update ?n \<lparr>el_dir = DIR_SRC, el_active = me_playing e,
          el_output = Some el, el_target = None\<rparr> (me_pads e)\<rparr>, Some ?n))"
    using False n
    by (simp add: step [symmetric] kms_element_request_new_srcpad_def d_def [symmetric] fd src_template create_id_src Let_def
          od_def [symmetric] kms_element_add_src_pad_def split: option.split)
  show ?thesis
  proof (cases name)
    case None
    then show ?thesis using eq inv base by (auto split: if_splits option.splits)
  next
    case (Some n)
    then have "Suc (length given) < 2 ^ 32" using room by simp
    note request = src_inv_request [OF base False key refl this, unfolded fun_upd_upd]
    show ?thesis
    proof (cases "od_element od")
      case None
      then show ?thesis
        using eq inv Some request [of "?P(?n \<mapsto> \<lparr>pe_type = type, pe_dir = DIR_SRC, pe_desc = d\<rparr>)" ?D]
        by (auto simp: d_def [symmetric] split: if_splits)
    next
      case (Some el)
      then show ?thesis
        using eq inv request [of ?P "?D(?n \<mapsto> \<lparr>el_dir = DIR_SRC, el_active = me_playing e, el_output = Some el, el_target = None\<rparr>)"]
        by (auto simp: d_def [symmetric])
    qed
  qed
qed

lemma add_srcs:
  "fold (kms_element_add_src_pad el) ks e = e\<lparr>me_pads := me_pads (fold (kms_element_add_src_pad el) ks e)\<rparr>"
  "map_of (me_pads (fold (kms_element_add_src_pad el) ks e)) n =
     (if n \<in> set ks \<and> map_of (me_pads e) n = None
      then Some \<lparr>el_dir = DIR_SRC, el_active = me_playing e, el_output = Some el, el_target = None\<rparr>
      else map_of (me_pads e) n)"
proof (induction ks arbitrary: e)
  case (Cons k ks)
  {
    case 1
    show ?case
      by (simp, subst Cons.IH(1)) (simp add: kms_element_add_src_pad_def)
  next
    case 2
    show ?case
      by (simp add: Cons.IH(2)) (auto simp: kms_element_add_src_pad_def)
  }
qed simp_all

lemma map_of_filter_snd:
  "hash_ok h \<Longrightarrow> map_of (filter (\<lambda>p. P (snd p)) h) k = (case map_of h k of Some v \<Rightarrow> if P v then Some v else None | None \<Rightarrow> None)"
proof (induction h)
  case (Cons p h)
  then have "hash_ok h" "fst p \<notin> fst ` set h" by (simp_all add: hash_ok_def)
  then have "map_of (filter (\<lambda>p. P (snd p)) h) (fst p) = None"
    by (auto simp: map_of_eq_None_iff)
  with Cons.IH [OF \<open>hash_ok h\<close>] \<open>fst p \<notin> _\<close> show ?case
    by (cases p) (auto simp: map_of_eq_None_iff split: option.splits)
qed simp

lemma waiting_keys:
  "hash_ok h \<Longrightarrow> n \<in> set (rev (map fst (filter (\<lambda>p. Q (snd p)) h))) \<longleftrightarrow> (\<exists>p. map_of h n = Some p \<and> Q p)"
  by (force simp: hash_in_iff [symmetric] image_iff)

lemma create_pending_effect:
  assumes "hash_ok (me_pending e)" "t \<noteq> PAD_UNKNOWN"
    and called: "e' = kms_element_create_pending_src_pads t d el e"
  shows "me_outputs e' = me_outputs e" "hash_ok (me_pending e')"
    "map_of (me_pending e') n = (case map_of (me_pending e) n of Some p \<Rightarrow> if waits_for t d p then None else Some p | None \<Rightarrow> None)"
    "map_of (me_pads e') n = (if (\<exists>p. map_of (me_pending e) n = Some p \<and> waits_for t d p) \<and> map_of (me_pads e) n = None
      then Some \<lparr>el_dir = DIR_SRC, el_active = me_playing e, el_output = Some el, el_target = None\<rparr> else map_of (me_pads e) n)"
    "me_encoders e' = me_encoders e" "me_target e' = me_target e" "me_min e' = me_min e" "me_max e' = me_max e"
    "me_codec_config e' = me_codec_config e"
proof -
  define ks where "ks = rev (map fst (filter (\<lambda>p. waits_for t d (snd p)) (me_pending e)))"
  let ?e1 = "e\<lparr>me_pending := filter (\<lambda>p. \<not> waits_for t d (snd p)) (me_pending e)\<rparr>"
  have e': "e' = fold (kms_element_add_src_pad el) ks ?e1"
    using assms(2) by (simp add: called kms_element_create_pending_src_pads_def src_template ks_def)
  note eq = add_srcs(1) [of el ks ?e1, folded e']
  show "me_outputs e' = me_outputs e" "me_encoders e' = me_encoders e" "me_target e' = me_target e"
    "me_min e' = me_min e" "me_max e' = me_max e" "me_codec_config e' = me_codec_config e"
    by (subst eq, simp)+
  have p: "me_pending e' = filter (\<lambda>p. \<not> waits_for t d (snd p)) (me_pending e)"
    by (subst eq, simp)
  then show "hash_ok (me_pending e')" using assms(1) by auto
  show "map_of (me_pending e') n = (case map_of (me_pending e) n of Some p \<Rightarrow> if waits_for t d p then None else Some p | None \<Rightarrow> None)"
    using map_of_filter_snd [OF assms(1), of "\<lambda>p. \<not> waits_for t d p" n] by (auto simp: p split: option.splits)
  show "map_of (me_pads e') n = (if (\<exists>p. map_of (me_pending e) n = Some p \<and> waits_for t d p) \<and> map_of (me_pads e) n = None
      then Some \<lparr>el_dir = DIR_SRC, el_active = me_playing e, el_output = Some el, el_target = None\<rparr> else map_of (me_pads e) n)"
    using waiting_keys [OF assms(1), of n "waits_for t d"]
    by (simp only: e' add_srcs(2) ks_def) simp
qed


text \<open>The output of a type and description: there is one, with an element, afterwards.\<close>

lemma get_output_cases:
  assumes "kms_element_get_output_element blank new t desc e = Inr (e', el)"
  obtains (old) d od where "d = format_pad_description desc" "t \<noteq> PAD_UNKNOWN" "e' = e"
      "map_of (me_outputs e) (src_key t d) = Some od" "od_element od = Some el"
  | (made) d od encs e1 where "d = format_pad_description desc" "t \<noteq> PAD_UNKNOWN" "el = new"
      "map_of (me_outputs e) (src_key t d) = Some od \<or>
       map_of (me_outputs e) (src_key t d) = None \<and> od = create_output_element_data t"
      "od_element od = None"
      "e1 = e\<lparr>me_outputs := AList.update (src_key t d) (od\<lparr>od_element := Some new\<rparr>)
         (if map_of (me_outputs e) (src_key t d) = None then AList.update (src_key t d) od (me_outputs e) else me_outputs e),
         me_encoders := encs\<rparr>"
      "encs = (if t = PAD_DATA then me_encoders e
         else if t = PAD_VIDEO then AList.update new \<lparr>en_target = me_target e, en_min = me_min e, en_max = me_max e,
           en_codec = me_codec_config e\<rparr> (me_encoders e)
         else AList.update new blank (me_encoders e))"
      "e' = kms_element_create_pending_src_pads t d new e1"
proof -
  define d where "d = format_pad_description desc"
  have fd: "format_pad_description (Some d) = d" by (simp add: d_def)
  have t: "t \<noteq> PAD_UNKNOWN"
    using assms by (auto simp: kms_element_get_output_element_def kms_element_get_output_element_data_def create_id_src Let_def)
  define od where "od = (case map_of (me_outputs e) (src_key t d) of Some od \<Rightarrow> od | None \<Rightarrow> create_output_element_data t)"
  let ?e1 = "if map_of (me_outputs e) (src_key t d) = None then e\<lparr>me_outputs := AList.update (src_key t d) od (me_outputs e)\<rparr> else e"
  let ?e2 = "?e1\<lparr>me_outputs := AList.update (src_key t d) (od\<lparr>od_element := Some new\<rparr>) (me_outputs ?e1)\<rparr>"
  let ?e3 = "if t = PAD_DATA then ?e2
     else if t = PAD_VIDEO then kms_element_set_video_output_properties new ?e2
     else ?e2\<lparr>me_encoders := AList.update new blank (me_encoders ?e2)\<rparr>"
  have eq: "Inr (e', el) = (case od_element od of Some el \<Rightarrow> Inr (?e1, el)
     | None \<Rightarrow> (Inr (kms_element_create_pending_src_pads t d new ?e3, new) :: c_fault + _))"
    using t by (simp only: assms [symmetric] kms_element_get_output_element_def Let_def d_def [symmetric] fd
      kms_element_get_output_element_data_def create_id_src if_False option.simps bind_result.simps option.sel od_def [symmetric])
  show thesis
  proof (cases "od_element od")
    case (Some el')
    then have m: "map_of (me_outputs e) (src_key t d) = Some od"
      by (auto simp: od_def create_output_element_data_def split: option.splits)
    show thesis by (rule old [OF d_def t _ m]) (use eq Some m in auto)
  next
    case None
    let ?encs = "if t = PAD_DATA then me_encoders e
         else if t = PAD_VIDEO then AList.update new \<lparr>en_target = me_target e, en_min = me_min e, en_max = me_max e,
           en_codec = me_codec_config e\<rparr> (me_encoders e)
         else AList.update new blank (me_encoders e)"
    have e3: "?e3 = e\<lparr>me_outputs := AList.update (src_key t d) (od\<lparr>od_element := Some new\<rparr>)
         (if map_of (me_outputs e) (src_key t d) = None then AList.update (src_key t d) od (me_outputs e) else me_outputs e),
         me_encoders := ?encs\<rparr>"
      by (simp add: kms_element_set_video_output_properties_def)
    show thesis
    proof (rule made [OF d_def t _ _ None e3 refl])
      show "el = new" "e' = kms_element_create_pending_src_pads t d new ?e3"
        using eq None by simp_all
      show "map_of (me_outputs e) (src_key t d) = Some od \<or>
          map_of (me_outputs e) (src_key t d) = None \<and> od = create_output_element_data t"
        by (auto simp: od_def split: option.splits)
    qed
  qed
qed

lemma get_output_keeps:
  assumes inv: "el_inv e live given" and call: "kms_element_get_output_element blank new t desc e = Inr (e', el)"
  shows "el_inv e' live given"
  using call
proof (cases rule: get_output_cases)
  case (old d od)
  then show ?thesis using inv by simp
next
  case (made d od encs e1)
  let ?outs = "(map_of (me_outputs e))(src_key t d \<mapsto> od)"
  have base: "src_inv (map_of (me_pending e)) (map_of (me_pads e)) ?outs (set live) given"
    using made(4)
  proof
    assume "map_of (me_outputs e) (src_key t d) = Some od"
    then have "?outs = map_of (me_outputs e)" by (auto simp: fun_eq_iff)
    then show ?thesis using inv by simp
  next
    assume "map_of (me_outputs e) (src_key t d) = None \<and> od = create_output_element_data t"
    then show ?thesis using inv made(2) by (simp add: src_inv_new_output)
  qed
  have outs: "map_of (me_outputs e1) = (map_of (me_outputs e))(src_key t d \<mapsto> od\<lparr>od_element := Some new\<rparr>)"
    by (simp add: made(6))
  have same: "me_pending e1 = me_pending e" "me_pads e1 = me_pads e" by (simp_all add: made(6))
  have ok: "hash_ok (me_pending e1)" using inv same by simp
  note effect = create_pending_effect [OF ok made(2) made(8)]
  have key: "?outs (src_key t d) = Some od" by simp
  have "src_inv (map_of (me_pending e')) (map_of (me_pads e')) (map_of (me_outputs e')) (set live) given"
    unfolding effect(1) outs
    by (rule src_inv_serve [OF base key made(5) effect(3) [unfolded same] effect(4) [unfolded same] made(2), unfolded fun_upd_upd])
  with effect(2) show ?thesis by simp
qed


lemma src_inv_sink:
  assumes inv: "src_inv P D outs live given" and n: "is_sink_name n"
    and others: "\<And>m. m \<noteq> n \<Longrightarrow> P' m = P m" "\<And>m. m \<noteq> n \<Longrightarrow> D' m = D m"
    and here: "P' n = P n \<or> P' n = None \<or> (\<exists>p. P' n = Some p \<and> pe_dir p = DIR_SINK)"
      "D' n = D n \<or> D' n = None \<or> (\<exists>p. D' n = Some p \<and> el_dir p = DIR_SINK)"
  shows "src_inv P' D' outs live given"
proof (rule src_inv_local [OF inv _ others])
  have dead: "(n, t, d) \<notin> live" for t d
    using live_not_sink [OF inv] n by blast
  then show "live = {l \<in> live. fst l \<noteq> n} \<or> live = live \<and> (\<forall>t d. (n, t, d) \<notin> live)" by blast
  show "P' n = None \<or> (\<exists>p. P' n = Some p \<and> pe_dir p = DIR_SINK \<and> is_sink_name n)"
    using here(1) n dead src_inv_pending [OF inv, of n] by (cases "P n") auto
  show "D' n = None \<or> (\<exists>p. D' n = Some p \<and> el_dir p = DIR_SINK \<and> is_sink_name n)"
    using here(2) n dead src_inv_pad [OF inv, of n] by (cases "D n") auto
qed

lemma request_sink_keeps:
  assumes inv: "el_inv e live given" and step: "kms_element_request_new_sinkpad allowed type desc e = (e', name)"
  shows "el_inv e' live given"
proof -
  let ?n = "get_sink_pad_name type (Some (format_pad_description desc))"
  let ?p = "\<lparr>pe_type = type, pe_dir = DIR_SINK, pe_desc = format_pad_description desc\<rparr>"
  have "src_inv ((map_of (me_pending e))(?n \<mapsto> ?p)) (map_of (me_pads e)) (map_of (me_outputs e)) (set live) given"
    "src_inv ((map_of (me_pending e))(?n := None)) (map_of (me_pads e)) (map_of (me_outputs e)) (set live) given"
    by (rule src_inv_sink [where n = ?n, OF conjunct2 [OF inv] sink_named]; simp)+
  then show ?thesis
    using inv step by (auto simp: kms_element_request_new_sinkpad_def Let_def hash_ok_update hash_ok_delete split: if_splits)
qed

lemma linked_keeps:
  assumes "el_inv e live given"
  shows "el_inv (kms_element_set_target_on_linked ok name e) live given"
    and "el_inv (fst (kms_element_remove_target_on_unlinked name e)) live given"
  using assms
  by (auto simp: kms_element_set_target_on_linked_def kms_element_remove_target_on_unlinked_def Let_def
        intro: src_inv_retarget split: option.split)

lemma sink_effect:
  "me_pending (kms_element_set_sink_input_stats zero pad type e) = me_pending e"
  "me_pads (kms_element_set_sink_input_stats zero pad type e) = me_pads e"
  "me_outputs (kms_element_set_sink_input_stats zero pad type e) = me_outputs e"
  "me_encoders (kms_element_set_sink_input_stats zero pad type e) = me_encoders e"
  "me_target (kms_element_set_sink_input_stats zero pad type e) = me_target e"
  "me_min (kms_element_set_sink_input_stats zero pad type e) = me_min e"
  "me_max (kms_element_set_sink_input_stats zero pad type e) = me_max e"
  "me_codec_config (kms_element_set_sink_input_stats zero pad type e) = me_codec_config e"
  by (simp_all add: kms_element_set_sink_input_stats_def Let_def)

lemma connect_keeps:
  assumes "el_inv e live given"
  shows "el_inv (fst (kms_element_connect_sink_target_full zero ok target type desc e)) live given"
proof -
  let ?n = "get_sink_pad_name type desc"
  let ?p = "\<lparr>el_dir = DIR_SINK, el_active = me_playing e, el_output = None, el_target = Some target\<rparr>"
  have "src_inv ((map_of (me_pending e))(?n := None)) ((map_of (me_pads e))(?n \<mapsto> ?p)) (map_of (me_outputs e)) (set live) given"
    by (rule src_inv_sink [where n = ?n, OF conjunct2 [OF assms] sink_named]) simp_all
  then show ?thesis
    using assms by (auto simp: kms_element_connect_sink_target_full_def Let_def sink_effect hash_ok_delete)
qed

lemma remove_sink_keeps:
  assumes "el_inv e live given"
  shows "el_inv (kms_element_remove_sink_by_type_full type desc e) live given"
proof -
  let ?n = "get_sink_pad_name type desc"
  have "src_inv (map_of (me_pending e)) ((map_of (me_pads e))(?n := None)) (map_of (me_outputs e)) (set live) given"
    by (rule src_inv_sink [where n = ?n, OF conjunct2 [OF assms] sink_named]) simp_all
  then show ?thesis
    using assms by (auto simp: kms_element_remove_sink_by_type_full_def kms_element_remove_sink_def Let_def)
qed

lemma release_keeps:
  assumes inv: "el_inv e live given" and ok: "call_ok (Release_pad sr name dir) e"
  shows "el_inv (fst (kms_element_release_requested_pad_action sr name dir e)) (filter (\<lambda>l. fst l \<noteq> name) live) given"
proof (cases "map_of (me_pending e) name")
  case (Some p)
  have "map_of (me_pads e) name = None \<or> (\<exists>q. map_of (me_pads e) name = Some q \<and> el_dir q = DIR_SINK \<and> is_sink_name name)"
  proof (cases "map_of (me_pads e) name")
    case (Some q)
    have dead: "(name, t, d) \<notin> set live" for t d
      using src_inv_live [OF conjunct2 [OF inv], of name t d] Some \<open>map_of (me_pending e) name = Some p\<close>
      by (auto simp: served_in_def split: option.splits)
    with Some src_inv_pad [OF conjunct2 [OF inv], of name q] show ?thesis by auto
  qed simp
  then have "src_inv ((map_of (me_pending e))(name := None)) (map_of (me_pads e)) (map_of (me_outputs e)) {l \<in> set live. fst l \<noteq> name} given"
    by (intro src_inv_local [where n = name, OF conjunct2 [OF inv]]) simp_all
  then show ?thesis
    using inv Some by (simp add: kms_element_release_requested_pad_action_def hash_ok_delete)
next
  case None
  with ok obtain q where q: "map_of (me_pads e) name = Some q" "dir = el_dir q" by (auto split: option.splits)
  have e': "fst (kms_element_release_requested_pad_action sr name dir e) =
      (if dir = DIR_SRC then e\<lparr>me_pads := AList.delete name (me_pads (fst (kms_element_remove_target_on_unlinked name e)))\<rparr> else e)"
    using None by (cases dir) (auto simp: kms_element_release_requested_pad_action_def kms_element_remove_target_pad_def
      kms_element_release_pad_def kms_element_remove_target_on_unlinked_def split: option.splits prod.splits)
  show ?thesis
  proof (cases "dir = DIR_SRC")
    case True
    have "src_inv (map_of (me_pending e)) ((map_of (me_pads e))(name := None)) (map_of (me_outputs e)) {l \<in> set live. fst l \<noteq> name} given"
      by (rule src_inv_local [where n = name, OF conjunct2 [OF inv]]) (use None in simp_all)
    then show ?thesis
      using inv True unfolding e' by (auto simp: kms_element_remove_target_on_unlinked_def split: option.split)
  next
    case False
    then have "is_sink_name name" "el_dir q = DIR_SINK" using src_inv_pad [OF conjunct2 [OF inv], of name q] q by auto
    then have "src_inv (map_of (me_pending e)) (map_of (me_pads e)) (map_of (me_outputs e)) {l \<in> set live. fst l \<noteq> name} given"
      using None q by (intro src_inv_local [where n = name, OF conjunct2 [OF inv]]) simp_all
    then show ?thesis using inv False unfolding e' by simp
  qed
qed


section \<open>Properties reach the encoders\<close>

definition video_outputs :: "(string \<times> output_data) list \<Rightarrow> nat set" where
  "video_outputs ods = {el. \<exists>od \<in> set ods. od_type (snd od) = PAD_VIDEO \<and> od_element (snd od) = Some el}"

text \<open>The functions that \<open>foreach\<close> runs over the outputs differ in the property they set.\<close>

lemma foreach_encoder:
  assumes each: "\<And>od e. g od e = (if od_type (snd od) = PAD_VIDEO then
      (case od_element (snd od) of Some el \<Rightarrow> set_on_encoder el (f e) e | None \<Rightarrow> e) else e)"
    and f: "\<And>e x en. f (e\<lparr>me_encoders := x\<rparr>) en = f e en" "\<And>e en. f e (f e en) = f e en"
  obtains encs where "fold g ods e = e\<lparr>me_encoders := encs\<rparr>"
    "\<forall>el. map_of encs el = (if el \<in> video_outputs ods then map_option (f e) (map_of (me_encoders e) el) else map_of (me_encoders e) el)"
proof -
  have "\<exists>encs. fold g ods e = e\<lparr>me_encoders := encs\<rparr> \<and>
    (\<forall>el. map_of encs el = (if el \<in> video_outputs ods then map_option (f e) (map_of (me_encoders e) el) else map_of (me_encoders e) el))"
  proof (induction ods arbitrary: e)
    case Nil
    show ?case by (rule exI [of _ "me_encoders e"]) (simp add: video_outputs_def)
  next
    case (Cons od ods)
    obtain es where es: "g od e = e\<lparr>me_encoders := es\<rparr>"
      "\<And>el. map_of es el = (if el \<in> video_outputs [od] then map_option (f e) (map_of (me_encoders e) el) else map_of (me_encoders e) el)"
    proof (cases "od_type (snd od) = PAD_VIDEO \<and> od_element (snd od) \<noteq> None")
      case True
      then obtain el where el: "od_type (snd od) = PAD_VIDEO" "od_element (snd od) = Some el" by auto
      show thesis
        by (rule that [of "AList.map_entry el (f e) (me_encoders e)"])
          (use el in \<open>auto simp: each set_on_encoder_def video_outputs_def AList.map_of_map_entry split: option.split\<close>)
    next
      case False
      show thesis
        by (rule that [of "me_encoders e"]) (use False in \<open>auto simp: each video_outputs_def split: option.splits\<close>)
    qed
    from Cons.IH [of "e\<lparr>me_encoders := es\<rparr>"] obtain encs where "fold g ods (e\<lparr>me_encoders := es\<rparr>) = e\<lparr>me_encoders := encs\<rparr>"
      "\<And>el. map_of encs el = (if el \<in> video_outputs ods then map_option (f e) (map_of es el) else map_of es el)"
      by (auto simp: f(1) [abs_def])
    moreover have "el \<in> video_outputs (od # ods) \<longleftrightarrow> el \<in> video_outputs [od] \<or> el \<in> video_outputs ods" for el
      by (auto simp: video_outputs_def)
    ultimately show ?case
      by (intro exI [of _ encs]) (auto simp: es f(2) option.map_comp comp_def)
  qed
  then show thesis using that by blast
qed

lemma video_outputs_iff: "hash_ok ods \<Longrightarrow> el \<in> video_outputs ods \<longleftrightarrow>
    (\<exists>k od. map_of ods k = Some od \<and> od_type od = PAD_VIDEO \<and> od_element od = Some el)"
  unfolding video_outputs_def by (auto simp: hash_in_iff [symmetric]) force+

text \<open>
  The bitrates are in order, and the encoder of every video output has them and the codec
  configuration.
\<close>

definition shown :: "('c, 'd) media_element \<Rightarrow> 'c encoder \<Rightarrow> bool" where
  "shown e en \<longleftrightarrow> en = \<lparr>en_target = me_target e, en_min = me_min e, en_max = me_max e, en_codec = me_codec_config e\<rparr>"

definition outputs_typed :: "(string, output_data) hash_table \<Rightarrow> bool" where
  "outputs_typed ods \<longleftrightarrow> (\<forall>t d od. t \<noteq> PAD_UNKNOWN \<longrightarrow> map_of ods (src_key t d) = Some od \<longrightarrow> od_type od = t)"

definition rates_ok :: "('c, 'd) media_element \<Rightarrow> bool" where
  "rates_ok e \<longleftrightarrow> hash_ok (me_pending e) \<and> hash_ok (me_outputs e) \<and> outputs_typed (me_outputs e) \<and> me_min e \<le> me_target e \<and> me_target e \<le> me_max e \<and>
     (\<forall>el \<in> video_outputs (me_outputs e). \<exists>en. map_of (me_encoders e) el = Some en \<and> shown e en)"

lemma set_target_foreach:
  obtains encs where "fold set_target_encoder_bitrate ods e = e\<lparr>me_encoders := encs\<rparr>"
    "\<forall>el. map_of encs el = (if el \<in> video_outputs ods then map_option (\<lambda>en. en\<lparr>en_target := me_target e\<rparr>) (map_of (me_encoders e) el)
       else map_of (me_encoders e) el)"
  by (rule foreach_encoder [of set_target_encoder_bitrate "\<lambda>e en. en\<lparr>en_target := me_target e\<rparr>" ods e])
    (auto simp: set_target_encoder_bitrate_def)

lemma set_min_foreach:
  obtains encs where "fold set_min_encoder_bitrate ods e = e\<lparr>me_encoders := encs\<rparr>"
    "\<forall>el. map_of encs el = (if el \<in> video_outputs ods then map_option (\<lambda>en. en\<lparr>en_min := me_min e\<rparr>) (map_of (me_encoders e) el)
       else map_of (me_encoders e) el)"
  by (rule foreach_encoder [of set_min_encoder_bitrate "\<lambda>e en. en\<lparr>en_min := me_min e\<rparr>" ods e])
    (auto simp: set_min_encoder_bitrate_def)

lemma set_max_foreach:
  obtains encs where "fold set_max_encoder_bitrate ods e = e\<lparr>me_encoders := encs\<rparr>"
    "\<forall>el. map_of encs el = (if el \<in> video_outputs ods then map_option (\<lambda>en. en\<lparr>en_max := me_max e\<rparr>) (map_of (me_encoders e) el)
       else map_of (me_encoders e) el)"
  by (rule foreach_encoder [of set_max_encoder_bitrate "\<lambda>e en. en\<lparr>en_max := me_max e\<rparr>" ods e])
    (auto simp: set_max_encoder_bitrate_def)


lemma set_codec_fault:
  "set_codec_configs ods e = Inl f \<longleftrightarrow>
     f = Null_dereference \<and> (\<exists>od \<in> set ods. od_type (snd od) \<in> {PAD_AUDIO, PAD_VIDEO} \<and> od_element (snd od) = None)"
proof (induction ods arbitrary: e)
  case (Cons od ods)
  show ?case
  proof (cases "od_type (snd od) \<in> {PAD_AUDIO, PAD_VIDEO} \<and> od_element (snd od) = None")
    case True
    then show ?thesis by (auto simp: set_codec_config_def)
  next
    case False
    then have "\<exists>e1. set_codec_config od e = Inr e1"
      by (auto simp: set_codec_config_def split: option.split)
    then obtain e1 where "set_codec_config od e = Inr e1" ..
    with False show ?thesis by (auto simp: Cons.IH)
  qed
qed simp

lemma set_codec_foreach:
  "set_codec_configs ods e = Inr e' \<Longrightarrow> \<exists>encs. e' = e\<lparr>me_encoders := encs\<rparr> \<and>
     (\<forall>el. (\<forall>en. map_of (me_encoders e) el = Some en \<longrightarrow> (\<exists>en'. map_of encs el = Some en' \<and>
          (en' = en \<or> en' = en\<lparr>en_codec := me_codec_config e\<rparr>) \<and>
          (el \<in> video_outputs ods \<longrightarrow> en' = en\<lparr>en_codec := me_codec_config e\<rparr>))))"
proof (induction ods arbitrary: e)
  case Nil
  then show ?case by (intro exI [of _ "me_encoders e"]) (auto simp: video_outputs_def)
next
  case (Cons od ods)
  from Cons.prems obtain e1 where 1: "set_codec_config od e = Inr e1" and r: "set_codec_configs ods e1 = Inr e'"
    by (auto simp: bind_result_Inr_iff)
  show ?case
  proof (cases "od_type (snd od) \<in> {PAD_AUDIO, PAD_VIDEO}")
    case False
    then have "e1 = e" "video_outputs (od # ods) = video_outputs ods"
      using 1 by (auto simp: set_codec_config_def video_outputs_def)
    with Cons.IH [OF r] show ?thesis by simp
  next
    case True
    with 1 obtain el where el: "od_element (snd od) = Some el"
      and e1: "e1 = e\<lparr>me_encoders := AList.map_entry el (\<lambda>en. en\<lparr>en_codec := me_codec_config e\<rparr>) (me_encoders e)\<rparr>"
      by (auto simp: set_codec_config_def set_on_encoder_def split: option.splits)
    have v: "x \<in> video_outputs (od # ods) \<Longrightarrow> x = el \<or> x \<in> video_outputs ods" for x
      using el by (auto simp: video_outputs_def)
    from Cons.IH [OF r] obtain encs where "e' = e1\<lparr>me_encoders := encs\<rparr>"
      and encs: "\<And>x en. map_of (me_encoders e1) x = Some en \<Longrightarrow> \<exists>en'. map_of encs x = Some en' \<and>
          (en' = en \<or> en' = en\<lparr>en_codec := me_codec_config e\<rparr>) \<and>
          (x \<in> video_outputs ods \<longrightarrow> en' = en\<lparr>en_codec := me_codec_config e\<rparr>)"
      by (auto simp: e1)
    moreover have "\<exists>en'. map_of encs x = Some en' \<and> (en' = en \<or> en' = en\<lparr>en_codec := me_codec_config e\<rparr>) \<and>
          (x \<in> video_outputs (od # ods) \<longrightarrow> en' = en\<lparr>en_codec := me_codec_config e\<rparr>)"
      if "map_of (me_encoders e) x = Some en" for x en
    proof (cases "x = el")
      case True
      with that have "map_of (me_encoders e1) x = Some (en\<lparr>en_codec := me_codec_config e\<rparr>)"
        by (simp add: e1 AList.map_of_map_entry)
      from encs [OF this] show ?thesis by auto
    next
      case False
      with that have "map_of (me_encoders e1) x = Some en"
        by (simp add: e1 AList.map_of_map_entry)
      from encs [OF this] show ?thesis using v [of x] False by auto
    qed
    ultimately show ?thesis by (intro exI [of _ encs]) (simp add: e1)
  qed
qed

lemma rates_okD:
  assumes "rates_ok e" "el \<in> video_outputs (me_outputs e)"
  obtains en where "map_of (me_encoders e) el = Some en" "shown e en"
  using assms by (auto simp: rates_ok_def)

lemma set_property_rates:
  assumes ok: "rates_ok e" and set: "kms_element_set_property p e = Inr e'"
  shows "rates_ok e'"
proof (cases p)
  case (PROP_TARGET_ENCODER_BITRATE v)
  define v1 where "v1 = (if v < me_min e then me_min e else if v > me_max e then me_max e else v)"
  define e1 where "e1 = e\<lparr>me_target := v1\<rparr>"
  have v1: "me_min e \<le> v1" "v1 \<le> me_max e" using ok by (auto simp: v1_def rates_ok_def)
  obtain encs where "fold set_target_encoder_bitrate (me_outputs e1) e1 = e1\<lparr>me_encoders := encs\<rparr>"
    and encs: "\<forall>el. map_of encs el = (if el \<in> video_outputs (me_outputs e1) then map_option (\<lambda>en. en\<lparr>en_target := me_target e1\<rparr>) (map_of (me_encoders e1) el)
       else map_of (me_encoders e1) el)"
    by (rule set_target_foreach)
  then have e': "e' = e1\<lparr>me_encoders := encs\<rparr>"
    using set
    by (simp only: PROP_TARGET_ENCODER_BITRATE kms_element_set_property.simps Let_def v1_def [symmetric] e1_def [symmetric] sum.inject)
  show ?thesis
    using ok v1 encs unfolding e' by (auto simp: rates_ok_def shown_def e1_def)
next
  case (PROP_MIN_ENCODER_BITRATE v)
  define v1 where "v1 = (if v > me_max e then me_max e else v)"
  define e1 where "e1 = e\<lparr>me_min := v1\<rparr>"
  have v1: "v1 \<le> me_max e" using ok by (auto simp: v1_def rates_ok_def)
  obtain encs where 1: "fold set_min_encoder_bitrate (me_outputs e1) e1 = e1\<lparr>me_encoders := encs\<rparr>"
    "\<forall>el. map_of encs el = (if el \<in> video_outputs (me_outputs e1) then map_option (\<lambda>en. en\<lparr>en_min := me_min e1\<rparr>) (map_of (me_encoders e1) el)
       else map_of (me_encoders e1) el)"
    by (rule set_min_foreach)
  define e3 where "e3 = e1\<lparr>me_encoders := encs, me_target := v1\<rparr>"
  obtain encs' where 2: "fold set_target_encoder_bitrate (me_outputs e3) e3 = e3\<lparr>me_encoders := encs'\<rparr>"
    "\<forall>el. map_of encs' el = (if el \<in> video_outputs (me_outputs e3) then map_option (\<lambda>en. en\<lparr>en_target := me_target e3\<rparr>) (map_of (me_encoders e3) el)
       else map_of (me_encoders e3) el)"
    by (rule set_target_foreach)
  have f: "me_min (e1\<lparr>me_encoders := encs\<rparr>) = v1" "me_target (e1\<lparr>me_encoders := encs\<rparr>) = me_target e"
    by (simp_all add: e1_def)
  have e': "e' = (if me_target e < v1 then e3\<lparr>me_encoders := encs'\<rparr> else e1\<lparr>me_encoders := encs\<rparr>)"
    using set
    by (simp only: PROP_MIN_ENCODER_BITRATE kms_element_set_property.simps Let_def v1_def [symmetric] e1_def [symmetric] 1(1) f
      e3_def [symmetric] 2(1) sum.inject)
  show ?thesis
    using ok v1 1(2) 2(2) unfolding e' by (auto simp: rates_ok_def shown_def e1_def e3_def)
next
  case (PROP_MAX_ENCODER_BITRATE v)
  define v1 where "v1 = (if v < me_min e then me_min e else v)"
  define e1 where "e1 = e\<lparr>me_max := v1\<rparr>"
  have v1: "me_min e \<le> v1" using ok by (auto simp: v1_def rates_ok_def)
  obtain encs where 1: "fold set_max_encoder_bitrate (me_outputs e1) e1 = e1\<lparr>me_encoders := encs\<rparr>"
    "\<forall>el. map_of encs el = (if el \<in> video_outputs (me_outputs e1) then map_option (\<lambda>en. en\<lparr>en_max := me_max e1\<rparr>) (map_of (me_encoders e1) el)
       else map_of (me_encoders e1) el)"
    by (rule set_max_foreach)
  define e3 where "e3 = e1\<lparr>me_encoders := encs, me_target := v1\<rparr>"
  obtain encs' where 2: "fold set_target_encoder_bitrate (me_outputs e3) e3 = e3\<lparr>me_encoders := encs'\<rparr>"
    "\<forall>el. map_of encs' el = (if el \<in> video_outputs (me_outputs e3) then map_option (\<lambda>en. en\<lparr>en_target := me_target e3\<rparr>) (map_of (me_encoders e3) el)
       else map_of (me_encoders e3) el)"
    by (rule set_target_foreach)
  have f: "me_max (e1\<lparr>me_encoders := encs\<rparr>) = v1" "me_target (e1\<lparr>me_encoders := encs\<rparr>) = me_target e"
    by (simp_all add: e1_def)
  have e': "e' = (if me_target e > v1 then e3\<lparr>me_encoders := encs'\<rparr> else e1\<lparr>me_encoders := encs\<rparr>)"
    using set
    by (simp only: PROP_MAX_ENCODER_BITRATE kms_element_set_property.simps Let_def v1_def [symmetric] e1_def [symmetric] 1(1) f
      e3_def [symmetric] 2(1) sum.inject)
  show ?thesis
    using ok v1 1(2) 2(2) unfolding e' by (auto simp: rates_ok_def shown_def e1_def e3_def)
next
  case (PROP_CODEC_CONFIG c)
  let ?e1 = "e\<lparr>me_codec_config := c\<rparr>"
  have "set_codec_configs (me_outputs e) ?e1 = Inr e'"
    using set PROP_CODEC_CONFIG by (simp add: Let_def)
  from set_codec_foreach [OF this] obtain encs where e': "e' = ?e1\<lparr>me_encoders := encs\<rparr>"
    and encs: "\<And>el en. map_of (me_encoders e) el = Some en \<Longrightarrow> el \<in> video_outputs (me_outputs e) \<Longrightarrow>
       map_of encs el = Some (en\<lparr>en_codec := c\<rparr>)"
    by fastforce
  have "\<exists>en. map_of encs el = Some en \<and> shown e' en" if "el \<in> video_outputs (me_outputs e)" for el
  proof -
    from rates_okD [OF ok that] obtain en where "map_of (me_encoders e) el = Some en" "shown e en" .
    with encs [OF this(1) that] show ?thesis by (simp add: shown_def e')
  qed
  then show ?thesis using ok by (simp add: rates_ok_def e')
qed (use ok set in \<open>auto simp: rates_ok_def shown_def kms_element_collect_media_stats_impl_def split: if_splits\<close>)


text \<open>What a call leaves alone.\<close>

definition rates_frame :: "('c, 'd) media_element \<Rightarrow> ('c, 'd) media_element \<Rightarrow> bool" where
  "rates_frame e e' \<longleftrightarrow> me_target e' = me_target e \<and> me_min e' = me_min e \<and> me_max e' = me_max e \<and>
     me_codec_config e' = me_codec_config e \<and> me_encoders e' = me_encoders e \<and>
     (hash_ok (me_outputs e) \<longrightarrow> hash_ok (me_outputs e') \<and> video_outputs (me_outputs e') = video_outputs (me_outputs e)) \<and>
     (outputs_typed (me_outputs e) \<longrightarrow> outputs_typed (me_outputs e')) \<and>
     (hash_ok (me_pending e) \<longrightarrow> hash_ok (me_pending e'))"

lemma rates_frame_ok: "rates_ok e \<Longrightarrow> rates_frame e e' \<Longrightarrow> rates_ok e'"
  by (auto simp: rates_ok_def rates_frame_def shown_def)

lemma video_outputs_update:
  assumes "hash_ok ods" "case map_of ods k of Some od' \<Rightarrow> od_type od' = od_type od \<and> od_element od' = od_element od
    | None \<Rightarrow> od_element od = None"
  shows "video_outputs (AList.update k od ods) = video_outputs ods"
proof (rule set_eqI)
  fix el
  have "hash_ok (AList.update k od ods)" using assms(1) by auto
  with assms show "el \<in> video_outputs (AList.update k od ods) \<longleftrightarrow> el \<in> video_outputs ods"
    by (auto simp: video_outputs_iff split: option.splits; metis option.distinct(1) option.inject)
qed

lemma request_src_frame: "rates_frame e (fst (kms_element_request_new_srcpad answer type desc e))"
proof (cases "type = PAD_UNKNOWN")
  case True
  then show ?thesis by (simp add: kms_element_request_new_srcpad_def src_template rates_frame_def)
next
  case False
  let ?k = "src_key type (format_pad_description desc)"
  define od where "od = (case map_of (me_outputs e) ?k of Some od \<Rightarrow> od | None \<Rightarrow> create_output_element_data type)"
  let ?od1 = "od\<lparr>od_pad_count := od_pad_count od + 1\<rparr>"
  have typed: "outputs_typed (AList.update ?k od (me_outputs e)) \<and> outputs_typed (AList.update ?k ?od1 (me_outputs e))"
    if "outputs_typed (me_outputs e)"
    using that False by (auto simp: outputs_typed_def od_def create_output_element_data_def split: option.split)
  have video: "video_outputs (AList.update ?k od (me_outputs e)) = video_outputs (me_outputs e)"
    "video_outputs (AList.update ?k ?od1 (me_outputs e)) = video_outputs (me_outputs e)" if "hash_ok (me_outputs e)"
    by (rule video_outputs_update [OF that]; simp add: od_def create_output_element_data_def split: option.split)+
  show ?thesis
    using False typed video
    by (auto simp: rates_frame_def kms_element_request_new_srcpad_def src_template create_id_src Let_def
        kms_element_add_src_pad_def od_def [symmetric] split: option.split)
qed

lemma other_frames:
  "rates_frame e (fst (kms_element_request_new_sinkpad allowed type desc e))"
  "rates_frame e (kms_element_set_target_on_linked ok name e)"
  "rates_frame e (fst (kms_element_remove_target_on_unlinked name e))"
  "rates_frame e (fst (kms_element_connect_sink_target_full zero tok target type desc e))"
  "rates_frame e (kms_element_remove_sink_by_type_full type desc e)"
  "rates_frame e (fst (kms_element_release_requested_pad_action sr name dir e))"
  by (auto simp: rates_frame_def kms_element_request_new_sinkpad_def kms_element_set_target_on_linked_def
      kms_element_remove_target_on_unlinked_def kms_element_connect_sink_target_full_def sink_effect
      kms_element_remove_sink_by_type_full_def kms_element_remove_sink_def kms_element_release_requested_pad_action_def
      kms_element_remove_target_pad_def kms_element_release_pad_def Let_def split: option.split pad_direction.split)

lemma get_output_rates:
  assumes ok: "rates_ok e" and fresh: "call_ok (Get_output new t desc) e"
    and call: "kms_element_get_output_element blank new t desc e = Inr (e', el)"
  shows "rates_ok e'"
  using call
proof (cases rule: get_output_cases)
  case (old d od)
  then show ?thesis using ok by simp
next
  case (made d od encs e1)
  let ?k = "src_key t d"
  have h: "hash_ok (me_outputs e)" using ok by (simp add: rates_ok_def)
  have o1: "map_of (me_outputs e1) = (map_of (me_outputs e))(?k \<mapsto> od\<lparr>od_element := Some new\<rparr>)" and h1: "hash_ok (me_outputs e1)"
    using h by (auto simp: made(6))
  have p1: "hash_ok (me_pending e1)" using ok by (simp add: made(6) rates_ok_def)
  note effect = create_pending_effect [OF p1 made(2) made(8)]
  have v: "el \<in> video_outputs (me_outputs e1) \<Longrightarrow> el = new \<and> od_type od = PAD_VIDEO \<or> el \<in> video_outputs (me_outputs e)" for el
    using h h1 by (auto simp: video_outputs_iff o1 split: if_splits)
  have nv: "new \<notin> video_outputs (me_outputs e)"
    using fresh by (force simp: video_outputs_def image_iff)
  have same: "me_target e1 = me_target e" "me_min e1 = me_min e" "me_max e1 = me_max e"
    "me_codec_config e1 = me_codec_config e" "me_encoders e1 = encs"
    by (simp_all add: made(6))
  have old: "map_of encs x = map_of (me_encoders e) x" if "x \<noteq> new" for x
    using that by (simp add: made(7))
  have mine: "map_of encs new = Some \<lparr>en_target = me_target e, en_min = me_min e, en_max = me_max e, en_codec = me_codec_config e\<rparr>"
    if "t = PAD_VIDEO"
    using that by (simp add: made(7))
  have type: "od_type od = t"
    using ok made(2,4) by (auto simp: create_output_element_data_def rates_ok_def outputs_typed_def)
  have typed1: "outputs_typed (me_outputs e1)"
    using ok made(2) type by (auto simp: rates_ok_def outputs_typed_def o1)
  have "\<exists>en. map_of encs x = Some en \<and> shown e en" if x: "x \<in> video_outputs (me_outputs e1)" for x
    using v [OF x]
  proof
    assume "x = new \<and> od_type od = PAD_VIDEO"
    with type mine show ?thesis by (simp add: shown_def)
  next
    assume x: "x \<in> video_outputs (me_outputs e)"
    with nv have "x \<noteq> new" by auto
    with rates_okD [OF ok x] old show ?thesis by metis
  qed
  with ok h1 typed1 show ?thesis
    by (simp add: rates_ok_def effect shown_def same)
qed


lemma run_call_rates:
  assumes "rates_ok (es_element s)" "call_ok c (es_element s)" "run_call zero blank c s = Inr s'"
  shows "rates_ok (es_element s')"
proof (cases c)
  case (Request_pad answer allowed type desc dir)
  with assms(3) have "es_element s' = fst (kms_element_request_new_pad_action answer allowed type desc dir (es_element s))"
    by (auto split: prod.splits option.splits if_splits)
  moreover have "rates_frame (es_element s) (fst (kms_element_request_new_pad_action answer allowed type desc dir (es_element s)))"
    by (cases dir) (simp_all add: kms_element_request_new_pad_action_def request_src_frame other_frames, simp add: rates_frame_def)
  ultimately show ?thesis using assms(1) rates_frame_ok by simp
next
  case (Get_output new type desc)
  with assms show ?thesis
    by (auto simp: bind_result_Inr_iff intro: get_output_rates [where new = new and t = type and desc = desc])
next
  case (Set_property p)
  with assms show ?thesis by (auto simp: bind_result_Inr_iff intro: set_property_rates)
next
  case (Set_playing b)
  with assms show ?thesis by (auto simp: rates_ok_def shown_def)
qed (use assms in \<open>auto intro: other_frames [THEN rates_frame_ok [rotated]]\<close>)

lemma foreach_tables [simp]:
  "me_pending (fold set_target_encoder_bitrate ods e) = me_pending e" "me_pads (fold set_target_encoder_bitrate ods e) = me_pads e"
  "me_outputs (fold set_target_encoder_bitrate ods e) = me_outputs e"
  "me_pending (fold set_min_encoder_bitrate ods e) = me_pending e" "me_pads (fold set_min_encoder_bitrate ods e) = me_pads e"
  "me_outputs (fold set_min_encoder_bitrate ods e) = me_outputs e"
  "me_pending (fold set_max_encoder_bitrate ods e) = me_pending e" "me_pads (fold set_max_encoder_bitrate ods e) = me_pads e"
  "me_outputs (fold set_max_encoder_bitrate ods e) = me_outputs e"
  by (rule fold_keeps; simp add: set_target_encoder_bitrate_def set_min_encoder_bitrate_def set_max_encoder_bitrate_def
      set_on_encoder_def split: option.split)+

lemma set_property_tables:
  "kms_element_set_property p e = Inr e' \<Longrightarrow> me_pending e' = me_pending e \<and> me_pads e' = me_pads e \<and> me_outputs e' = me_outputs e"
  by (cases p) (auto simp: kms_element_collect_media_stats_impl_def Let_def dest!: set_codec_foreach split: if_splits)

lemma run_call_keeps:
  assumes ok: "session_ok s" and call: "call_ok c (es_element s)" "run_call zero blank c s = Inr s'"
    and room: "length (es_given s') < 2 ^ 32"
  shows "session_ok s'"
proof -
  note inv = ok [unfolded session_ok_def]
  show ?thesis
  proof (cases c)
    case (Request_pad answer allowed type desc dir)
    obtain e' name where step: "kms_element_request_new_pad_action answer allowed type desc dir (es_element s) = (e', name)"
      by fastforce
    show ?thesis
    proof (cases dir)
      case DIR_SRC
      with step have src: "kms_element_request_new_srcpad answer type desc (es_element s) = (e', name)"
        by (simp add: kms_element_request_new_pad_action_def)
      have s': "s' = (case name of
          Some n \<Rightarrow> s\<lparr>es_element := e', es_live := (n, type, format_pad_description desc) # es_live s, es_given := n # es_given s\<rparr>
        | None \<Rightarrow> s\<lparr>es_element := e'\<rparr>)"
        using call(2) step DIR_SRC unfolding Request_pad by (auto split: option.splits)
      have "Suc (length (es_given s)) < 2 ^ 32" if "name \<noteq> None"
        using room that by (auto simp: s')
      from request_src_keeps [OF inv this src] show ?thesis
        by (auto simp: session_ok_def s' split: option.split)
    next
      case DIR_SINK
      with step have "kms_element_request_new_sinkpad allowed type desc (es_element s) = (e', name)"
        by (simp add: kms_element_request_new_pad_action_def)
      from request_sink_keeps [OF inv this] show ?thesis
        using call(2) step DIR_SINK unfolding Request_pad by (auto simp: session_ok_def split: option.splits)
    next
      case DIR_UNKNOWN
      then show ?thesis using inv call(2) unfolding Request_pad
        by (auto simp: session_ok_def kms_element_request_new_pad_action_def)
    qed
  next
    case (Get_output new type desc)
    with call inv show ?thesis by (auto simp: bind_result_Inr_iff session_ok_def dest: get_output_keeps [OF inv])
  next
    case (Release_pad sr name dir)
    with call show ?thesis using release_keeps [OF inv, of sr name dir] by (auto simp: session_ok_def)
  next
    case (Set_property p)
    with call inv show ?thesis by (auto simp: bind_result_Inr_iff session_ok_def dest: set_property_tables)
  qed (use inv call linked_keeps [OF inv] connect_keeps [OF inv] remove_sink_keeps [OF inv] in \<open>auto simp: session_ok_def\<close>)
qed


lemma given_grows:
  assumes "run_call zero blank c s = Inr s'"
  shows "length (es_given s) \<le> length (es_given s')"
proof (cases c)
  case (Request_pad answer allowed type desc dir)
  obtain e name where "kms_element_request_new_pad_action answer allowed type desc dir (es_element s) = (e, name)"
    by fastforce
  with assms show ?thesis unfolding Request_pad by (cases name; cases "dir = DIR_SRC") auto
next
  case (Get_output new type desc)
  with assms show ?thesis by (auto simp: bind_result_Inr_iff)
next
  case (Set_property p)
  with assms show ?thesis by (auto simp: bind_result_Inr_iff simp del: kms_element_set_property.simps)
qed (use assms in auto)

lemma runs_session_ok: "element_runs zero blank s \<Longrightarrow> length (es_given s) < 2 ^ 32 \<Longrightarrow> session_ok s"
proof (induction rule: element_runs.induct)
  case runs_new
  then show ?case by (simp add: session_ok_def new_session_def kms_element_init_def src_inv_def)
next
  case (runs_call s c s')
  have "length (es_given s) < 2 ^ 32"
    using given_grows [OF runs_call.hyps(3)] runs_call.prems by (rule le_less_trans)
  with runs_call.IH have "session_ok s" .
  then show ?case using runs_call.hyps(2,3) runs_call.prems by (rule run_call_keeps)
qed

lemma runs_rates_ok: "element_runs zero blank s \<Longrightarrow> rates_ok (es_element s)"
proof (induction rule: element_runs.induct)
  case runs_new
  then show ?case
    by (simp add: rates_ok_def new_session_def kms_element_init_def outputs_typed_def video_outputs_def)
next
  case (runs_call s c s')
  show ?case by (rule run_call_rates [OF runs_call.IH runs_call.hyps(2,3)])
qed

section \<open>What clients of an element rely on\<close>

text \<open>
  C19: Whatever runs on an element, in any order: no name is given to two requests for source
  pads. A requested pad that was not released waits, and is no pad of the element, as long as
  the output for its type and description has no element; from then on it does not wait any
  more, it is a source pad of the element, and what serves it is the element of that output.
  Every source pad of the element was requested. The numbers of the pads are 32 bits wide, so
  this holds for fewer than \<open>2 ^ 32\<close> requests.
\<close>

theorem requested_pads_served:
  assumes "element_runs zero blank s" "length (es_given s) < 2 ^ 32"
  shows "distinct (es_given s) \<and>
    (\<forall>(n, t, d) \<in> set (es_live s). n \<in> set (es_given s) \<and> (\<exists>od. map_of (me_outputs (es_element s)) (src_key t d) = Some od \<and>
       (case od_element od of
          None \<Rightarrow> map_of (me_pending (es_element s)) n = Some \<lparr>pe_type = t, pe_dir = DIR_SRC, pe_desc = d\<rparr> \<and>
            map_of (me_pads (es_element s)) n = None
        | Some el \<Rightarrow> map_of (me_pending (es_element s)) n = None \<and>
            (\<exists>p. map_of (me_pads (es_element s)) n = Some p \<and> el_dir p = DIR_SRC \<and> el_output p = Some el)))) \<and>
    (\<forall>n p. map_of (me_pads (es_element s)) n = Some p \<longrightarrow> el_dir p = DIR_SRC \<longrightarrow> (\<exists>t d. (n, t, d) \<in> set (es_live s)))"
proof (intro conjI ballI allI impI)
  note inv = conjunct2 [OF runs_session_ok [OF assms, unfolded session_ok_def]]
  show "distinct (es_given s)" using inv by (rule src_inv_distinct)
  show "case l of (n, t, d) \<Rightarrow> n \<in> set (es_given s) \<and> (\<exists>od. map_of (me_outputs (es_element s)) (src_key t d) = Some od \<and>
       (case od_element od of
          None \<Rightarrow> map_of (me_pending (es_element s)) n = Some \<lparr>pe_type = t, pe_dir = DIR_SRC, pe_desc = d\<rparr> \<and>
            map_of (me_pads (es_element s)) n = None
        | Some el \<Rightarrow> map_of (me_pending (es_element s)) n = None \<and>
            (\<exists>p. map_of (me_pads (es_element s)) n = Some p \<and> el_dir p = DIR_SRC \<and> el_output p = Some el)))"
    if l: "l \<in> set (es_live s)" for l
  proof (cases l)
    case (fields n t d)
    with l src_inv_live [OF inv, of n t d] show ?thesis by (simp add: served_in_def)
  qed
  show "\<exists>t d. (n, t, d) \<in> set (es_live s)"
    if "map_of (me_pads (es_element s)) n = Some p" "el_dir p = DIR_SRC" for n p
    using src_inv_pad [OF inv that(1)] that(2) by auto
qed

definition demo_calls :: "nat element_call list" where
  "demo_calls = [Request_pad Request_later False PAD_VIDEO None DIR_SRC,
     Get_output 7 PAD_VIDEO (Some ''default''), Request_pad Request_later False PAD_VIDEO None DIR_SRC,
     Request_pad Request_later False PAD_AUDIO (Some ''left'') DIR_SRC,
     Set_property (PROP_MIN_ENCODER_BITRATE 500000)]"

definition demo_session :: "nat \<Rightarrow> (nat, int) element_session" where
  "demo_session k = foldl (\<lambda>s c. case run_call 0 \<lparr>en_target = 0, en_min = 0, en_max = 0, en_codec = None\<rparr> c s of
     Inr s' \<Rightarrow> s' | Inl f \<Rightarrow> s) new_session (take k demo_calls)"

lemma demo_runs: "element_runs 0 \<lparr>en_target = 0, en_min = 0, en_max = 0, en_codec = None\<rparr> (demo_session 5)"
proof -
  let ?r = "element_runs 0 \<lparr>en_target = 0, en_min = 0, en_max = 0, en_codec = None\<rparr>"
  have 0: "?r (demo_session 0)" by (simp add: demo_session_def runs_new)
  have 1: "?r (demo_session 1)"
    by (rule runs_call [OF 0, of "demo_calls ! 0"]) code_simp+
  have 2: "?r (demo_session 2)"
    by (rule runs_call [OF 1, of "demo_calls ! 1"]) code_simp+
  have 3: "?r (demo_session 3)"
    by (rule runs_call [OF 2, of "demo_calls ! 2"]) code_simp+
  have 4: "?r (demo_session 4)"
    by (rule runs_call [OF 3, of "demo_calls ! 3"]) code_simp+
  show ?thesis
    by (rule runs_call [OF 4, of "demo_calls ! 4"]) code_simp+
qed

lemma requested_pads_served_witness:
  "distinct (es_given (demo_session 5)) \<and>
   es_live (demo_session 5) = [(''audio_src_left_0'', PAD_AUDIO, ''left''), (''video_src_default_1'', PAD_VIDEO, ''default''),
     (''video_src_default_0'', PAD_VIDEO, ''default'')] \<and>
   me_pending (es_element (demo_session 5)) = [(''audio_src_left_0'', \<lparr>pe_type = PAD_AUDIO, pe_dir = DIR_SRC, pe_desc = ''left''\<rparr>)]"
proof -
  have "length (es_given (demo_session 5)) = 3" by code_simp
  then have "length (es_given (demo_session 5)) < 2 ^ 32" by simp
  from requested_pads_served [OF demo_runs this]
  have "distinct (es_given (demo_session 5))" by blast
  moreover have "es_live (demo_session 5) = [(''audio_src_left_0'', PAD_AUDIO, ''left''), (''video_src_default_1'', PAD_VIDEO, ''default''),
     (''video_src_default_0'', PAD_VIDEO, ''default'')] \<and>
   me_pending (es_element (demo_session 5)) = [(''audio_src_left_0'', \<lparr>pe_type = PAD_AUDIO, pe_dir = DIR_SRC, pe_desc = ''left''\<rparr>)]"
    by code_simp
  ultimately show ?thesis by blast
qed



text \<open>
  The only calls on an element that do not return are a request for the output of a type
  that is none, and a codec configuration while some audio or video output was asked for and
  has no element yet: both use a NULL pointer.
\<close>

theorem element_calls_fault:
  "run_call zero blank c s = Inl f \<longleftrightarrow> f = Null_dereference \<and>
     ((\<exists>new desc. c = Get_output new PAD_UNKNOWN desc) \<or>
      (\<exists>cc. c = Set_property (PROP_CODEC_CONFIG cc) \<and>
         (\<exists>od \<in> set (me_outputs (es_element s)). od_type (snd od) \<in> {PAD_AUDIO, PAD_VIDEO} \<and> od_element (snd od) = None)))"
proof (cases c)
  case (Get_output new type desc)
  then show ?thesis
    by (auto simp: kms_element_get_output_element_def kms_element_get_output_element_data_def create_id_src Let_def
        bind_result_Inl_iff split: option.split)
next
  case (Set_property p)
  then show ?thesis by (cases p) (auto simp: bind_result_Inl_iff set_codec_fault Let_def)
qed (auto split: prod.split option.split)

text \<open>The averages of a pad are kept, and reported, when the pad is gone.\<close>

lemma latencies_outlive_pad:
  "kms_element_get_input_latency_stats sel (kms_element_remove_sink_by_type_full type desc e) = kms_element_get_input_latency_stats sel e"
  by (simp add: kms_element_get_input_latency_stats_def kms_element_remove_sink_by_type_full_def kms_element_remove_sink_def Let_def)

end
