(* ===== verification/MediaFlow.thy ===== *)
theory MediaFlow
  imports KmsPrelude
begin

text \<open>
  Media flow of the pads of an element (\<open>kmselement.c\<close>: \<open>cb_buffer_received\<close>,
  \<open>check_if_flow_media\<close>). A probe on the pads marks that buffers come, a timer of two seconds
  looks whether some came since it looked last, and a signal tells when the flow starts and
  stops. The probes run in the streaming threads of the pads and the timer in the thread of the
  loop; what they share are two integers that they read and change one atomic operation at a
  time. So the handlers are modelled twice: as functions, and as threads that take one atomic
  step after another in any order.
\<close>

section \<open>The handlers\<close>

text \<open>
  \<open>KmsMediaFlowData\<close>: the integers are 0 or 1; \<open>fl_alive\<close>: the element of the weak reference is
  there; \<open>fl_signals\<close>: what the flow signal of the element told, the last first.
\<close>

record flow_data =
  fl_media_flowing :: bool
  fl_buffers :: bool
  fl_alive :: bool
  fl_signals :: "bool list"

definition media_flow_data_new :: flow_data where
  "media_flow_data_new = \<lparr>fl_media_flowing = False, fl_buffers = False, fl_alive = True, fl_signals = []\<rparr>"

text \<open>Where the element is gone the probe returns FALSE, which drops the buffer.\<close>

definition cb_buffer_received :: "flow_data \<Rightarrow> flow_data \<times> probe_return" where
  "cb_buffer_received d = (if \<not> fl_alive d then (d, Probe_drop)
     else let d1 = (if fl_media_flowing d then d
            else d\<lparr>fl_media_flowing := True, fl_signals := True # fl_signals d\<rparr>) in
       (d1\<lparr>fl_buffers := True\<rparr>, Probe_ok))"

text \<open>The result tells whether the timer goes on.\<close>

definition check_if_flow_media :: "bool \<Rightarrow> flow_data \<Rightarrow> flow_data \<times> bool" where
  "check_if_flow_media source_destroyed d =
     (if source_destroyed then (d, False)
      else if \<not> fl_alive d then (d, False)
      else (if fl_media_flowing d
            then (if \<not> fl_buffers d then d\<lparr>fl_media_flowing := False, fl_signals := False # fl_signals d\<rparr>
                  else d\<lparr>fl_buffers := False\<rparr>)
            else d, True))"

datatype flow_event = Buffer | Tick

fun handle_event :: "flow_data \<Rightarrow> flow_event \<Rightarrow> flow_data" where
  "handle_event d Buffer = fst (cb_buffer_received d)"
| "handle_event d Tick = fst (check_if_flow_media False d)"

section \<open>What flowing means\<close>

text \<open>A buffer came since the tick before the last one; \<open>es\<close> are the events, the last first.\<close>

fun buffer_within :: "nat \<Rightarrow> flow_event list \<Rightarrow> bool" where
  "buffer_within k [] = False"
| "buffer_within k (Buffer # es) = True"
| "buffer_within 0 (Tick # es) = False"
| "buffer_within (Suc k) (Tick # es) = buffer_within k es"

fun alternating :: "bool \<Rightarrow> bool list \<Rightarrow> bool" where
  "alternating b [] = (\<not> b)"
| "alternating b (s # ss) = (s = b \<and> alternating (\<not> b) ss)"

lemma flow_inv:
  defines "d es \<equiv> foldr (\<lambda>e d. handle_event d e) es media_flow_data_new"
  shows "fl_alive (d es) \<and> fl_media_flowing (d es) = buffer_within 1 es \<and> fl_buffers (d es) = buffer_within 0 es \<and>
    alternating (fl_media_flowing (d es)) (fl_signals (d es))"
proof (induction es)
  case Nil
  show ?case by (simp add: d_def media_flow_data_new_def)
next
  case (Cons e es)
  have within: "buffer_within 0 es \<Longrightarrow> buffer_within 1 es"
    by (cases es rule: list.exhaust; cases "hd es") auto
  have step: "d (x # es) = handle_event (d es) x" for x by (simp add: d_def)
  show ?case
    using Cons.IH within by (cases e) (auto simp: step cb_buffer_received_def check_if_flow_media_def Let_def)
qed


section \<open>The threads\<close>

text \<open>
  The points between two atomic operations: what a streaming thread does next (compare and
  exchange the flowing flag, emit, mark the buffer), and what the timer does next (read the
  flowing flag, read the mark, clear it or clear the flag, emit).
\<close>

datatype stream_at = Stream_idle | Stream_emit | Stream_mark

datatype timer_at = Timer_idle | Timer_read | Timer_clear | Timer_stop | Timer_emit

record flow_threads =
  ft_data :: flow_data
  ft_streams :: "stream_at list"
  ft_timer :: timer_at

datatype flow_thread = Stream nat | Timer

fun stream_step :: "stream_at \<Rightarrow> flow_data \<Rightarrow> flow_data \<times> stream_at" where
  "stream_step Stream_idle d = (if fl_media_flowing d then (d, Stream_mark) else (d\<lparr>fl_media_flowing := True\<rparr>, Stream_emit))"
| "stream_step Stream_emit d = (d\<lparr>fl_signals := True # fl_signals d\<rparr>, Stream_mark)"
| "stream_step Stream_mark d = (d\<lparr>fl_buffers := True\<rparr>, Stream_idle)"

fun timer_step :: "timer_at \<Rightarrow> flow_data \<Rightarrow> flow_data \<times> timer_at" where
  "timer_step Timer_idle d = (d, if fl_media_flowing d then Timer_read else Timer_idle)"
| "timer_step Timer_read d = (d, if \<not> fl_buffers d then Timer_stop else Timer_clear)"
| "timer_step Timer_clear d = (d\<lparr>fl_buffers := False\<rparr>, Timer_idle)"
| "timer_step Timer_stop d = (d\<lparr>fl_media_flowing := False\<rparr>, Timer_emit)"
| "timer_step Timer_emit d = (d\<lparr>fl_signals := False # fl_signals d\<rparr>, Timer_idle)"

fun thread_step :: "flow_threads \<Rightarrow> flow_thread \<Rightarrow> flow_threads" where
  "thread_step s (Stream i) = (if i < length (ft_streams s)
     then let (d, p) = stream_step (ft_streams s ! i) (ft_data s) in
       s\<lparr>ft_data := d, ft_streams := (ft_streams s)[i := p]\<rparr>
     else s)"
| "thread_step s Timer = (let (d, p) = timer_step (ft_timer s) (ft_data s) in s\<lparr>ft_data := d, ft_timer := p\<rparr>)"

definition new_threads :: "nat \<Rightarrow> flow_threads" where
  "new_threads n = \<lparr>ft_data = media_flow_data_new, ft_streams = replicate n Stream_idle, ft_timer = Timer_idle\<rparr>"

text \<open>A thread that is not disturbed runs its handler.\<close>

lemma undisturbed_buffer:
  assumes "i < length (ft_streams s)" "ft_streams s ! i = Stream_idle" "fl_alive (ft_data s)"
  shows "foldl thread_step s (replicate (if fl_media_flowing (ft_data s) then 2 else 3) (Stream i)) =
    s\<lparr>ft_data := handle_event (ft_data s) Buffer\<rparr>"
  using assms list_update_id [of "ft_streams s" i]
  by (simp add: cb_buffer_received_def numeral_2_eq_2 numeral_3_eq_3 Let_def)

lemma undisturbed_tick:
  assumes "ft_timer s = Timer_idle" "fl_alive (ft_data s)"
  shows "foldl thread_step s (replicate (if \<not> fl_media_flowing (ft_data s) then 1 else if fl_buffers (ft_data s) then 3 else 4) Timer) =
    s\<lparr>ft_data := handle_event (ft_data s) Tick\<rparr>"
  using assms by (auto simp: check_if_flow_media_def numeral_eq_Suc)

section \<open>What the threads keep in any order\<close>

text \<open>Signals that were decided: emitted, or about to be.\<close>

definition emitting :: "stream_at list \<Rightarrow> nat" where
  "emitting ps = length (filter (\<lambda>p. p = Stream_emit) ps)"

lemma emitting_update:
  "i < length ps \<Longrightarrow> emitting (ps[i := p]) + (if ps ! i = Stream_emit then 1 else 0) = emitting ps + (if p = Stream_emit then 1 else 0)"
proof (induction ps arbitrary: i)
  case (Cons q ps)
  then show ?case
  proof (cases i)
    case (Suc j)
    then show ?thesis using Cons.IH [of j] Cons.prems by (auto simp: emitting_def split: if_splits)
  qed (auto simp: emitting_def)
qed simp

definition signals :: "bool \<Rightarrow> flow_threads \<Rightarrow> nat" where
  "signals b s = length (filter (\<lambda>x. x = b) (fl_signals (ft_data s)))"

definition flow_balance :: "flow_threads \<Rightarrow> bool" where
  "flow_balance s \<longleftrightarrow> signals True s + emitting (ft_streams s) =
     signals False s + (if ft_timer s = Timer_emit then 1 else 0) + (if fl_media_flowing (ft_data s) then 1 else 0) \<and>
   (ft_timer s \<in> {Timer_read, Timer_clear, Timer_stop} \<longrightarrow> fl_media_flowing (ft_data s))"

lemma thread_step_balance:
  assumes "flow_balance s"
  shows "flow_balance (thread_step s t)"
proof (cases t)
  case (Stream i)
  show ?thesis
  proof (cases "i < length (ft_streams s)")
    case True
    show ?thesis
      using assms True Stream emitting_update [OF True, of Stream_emit] emitting_update [OF True, of Stream_mark]
        emitting_update [OF True, of Stream_idle]
      by (cases "ft_streams s ! i") (auto simp: flow_balance_def signals_def)
  qed (use assms Stream in simp)
next
  case Timer
  then show ?thesis
    using assms by (cases "ft_timer s") (auto simp: flow_balance_def signals_def)
qed

interpretation flow_machine: invariant_machine thread_step "\<lambda>_ _. True" flow_balance
  by unfold_locales (rule thread_step_balance)

text \<open>
  C22: In whichever order the streaming threads and the timer take their atomic steps: when
  none of them is in the middle of its handler, the signals that the flow started are as many
  as the signals that it stopped, and one more exactly if the media flows. So no start and no
  stop is lost or told twice.
\<close>

theorem flow_signals_balanced:
  assumes "s = foldl thread_step (new_threads n) ts"
    and "\<forall>p \<in> set (ft_streams s). p = Stream_idle" "ft_timer s = Timer_idle"
  shows "signals True s = signals False s + (if fl_media_flowing (ft_data s) then 1 else 0)"
proof -
  have "flow_balance (new_threads n)"
    by (simp add: flow_balance_def new_threads_def signals_def emitting_def media_flow_data_new_def)
  then have "flow_balance s"
    unfolding assms(1) by (rule flow_machine.run_keeps) (rule allowed_run_always, simp)
  moreover have "emitting (ft_streams s) = 0"
    using assms(2) by (auto simp: emitting_def filter_empty_conv)
  ultimately show ?thesis using assms(3) by (simp add: flow_balance_def)
qed

text \<open>
  The order of the signals is not kept, though: the timer clears the flag, a buffer sets it
  again and tells that the media flows, and then the timer tells that it does not.
\<close>

definition race :: "flow_thread list" where
  "race = [Stream 0, Stream 0, Stream 0, Timer, Timer, Timer, Timer, Timer, Timer, Stream 0, Stream 0, Stream 0, Timer]"

lemma flow_signals_balanced_witness:
  "signals True (foldl thread_step (new_threads 1) race) = signals False (foldl thread_step (new_threads 1) race) + 1"
proof -
  have "\<forall>p \<in> set (ft_streams (foldl thread_step (new_threads 1) race)). p = Stream_idle"
    "ft_timer (foldl thread_step (new_threads 1) race) = Timer_idle"
    "fl_media_flowing (ft_data (foldl thread_step (new_threads 1) race))"
    by code_simp+
  with flow_signals_balanced [OF refl this(1,2)] show ?thesis by simp
qed

lemma stale_stop_signal:
  "fl_media_flowing (ft_data (foldl thread_step (new_threads 1) race)) \<and>
   fl_signals (ft_data (foldl thread_step (new_threads 1) race)) = [False, True, True]"
  by code_simp

end
