(* ===== verification/TreeBins.thy ===== *)
theory TreeBins
  imports RembEvents GstSdp CFloat
begin

text \<open>
  The bins that an agnostic bin builds its trees of: \<open>kmsenctreebin.c\<close> encodes with a bitrate
  that follows the reports of the receivers and the tags of the sender, \<open>kmsparsetreebin.c\<close>
  measures the bitrate of encoded video and announces it in tags, \<open>kmsdectreebin.c\<close> and
  \<open>kmsrtppaytreebin.c\<close> choose a decoder and a payloader. Of the element factories that GStreamer
  lists we keep the name and the number of pad templates; which of them can take or give some
  caps is an argument.
\<close>

section \<open>Choosing an element\<close>

record factory =
  fa_name :: string
  fa_num_templates :: nat

text \<open>The first factory of openh264 goes to the front.\<close>

definition augment_openh264 :: "factory list \<Rightarrow> factory list" where
  "augment_openh264 fs = (case find (\<lambda>f. str_prefix ''openh264'' (fa_name f)) fs of
     None \<Rightarrow> fs | Some f \<Rightarrow> f # remove1 f fs)"

definition choose_encoder :: "(factory \<Rightarrow> bool) \<Rightarrow> factory list \<Rightarrow> factory option" where
  "choose_encoder gives_caps encoder_list =
     find (\<lambda>f. fa_num_templates f = 2) (filter gives_caps (augment_openh264 encoder_list))"

text \<open>
  \<open>takes_caps\<close>: whether the sink takes the caps, with the field \<open>stream-format\<close> removed from
  them or not; \<open>caps_name\<close> is the name of their first structure.
\<close>

definition str_suffix :: "string \<Rightarrow> string \<Rightarrow> bool" where
  "str_suffix suffix s \<longleftrightarrow> length suffix \<le> length s \<and> drop (length s - length suffix) s = suffix"

definition create_decoder_for_caps ::
    "(bool \<Rightarrow> factory \<Rightarrow> bool) \<Rightarrow> (factory \<Rightarrow> bool) \<Rightarrow> (factory \<Rightarrow> bool) \<Rightarrow> string \<Rightarrow> factory list \<Rightarrow> factory option" where
  "create_decoder_for_caps takes_caps gives_raw can_sink_all caps_name decoder_list =
     (let contains_openh264 = (find (\<lambda>f. str_prefix ''openh264'' (fa_name f)) decoder_list \<noteq> None);
          aux_list = filter (takes_caps (contains_openh264 \<and> str_suffix ''h264'' caps_name)) (augment_openh264 decoder_list);
          filtered_list = filter gives_raw aux_list in
      find (\<lambda>f. fa_num_templates f = 2 \<and> can_sink_all f) filtered_list)"

datatype parser_choice = Parser factory | Capsfilter

definition create_parser_for_caps :: "(factory \<Rightarrow> bool) \<Rightarrow> factory list \<Rightarrow> parser_choice" where
  "create_parser_for_caps takes_caps parser_list =
     (case find (\<lambda>f. fa_num_templates f = 2) (filter takes_caps parser_list) of
        Some f \<Rightarrow> (if fa_name f \<noteq> ''rawaudioparse'' \<and> fa_name f \<noteq> ''rawvideoparse'' then Parser f else Capsfilter)
      | None \<Rightarrow> Capsfilter)"

text \<open>The name of a factory that was dropped for its templates is read all the same.\<close>

fun select_payloader :: "factory list \<Rightarrow> c_fault + factory option" where
  "select_payloader [] = Inr None"
| "select_payloader (f # fs) =
     (if fa_num_templates f \<noteq> 2 then Inl Null_dereference
      else if fa_name f \<in> {''rtpredenc'', ''rtpulpfecenc'', ''rtppassthroughpay''} then select_payloader fs
      else Inr (Some f))"

text \<open>\<open>gives_caps\<close>: the source gives a subset of the caps, or only something in common.\<close>

definition search_payloader :: "(bool \<Rightarrow> factory \<Rightarrow> bool) \<Rightarrow> factory list \<Rightarrow> c_fault + factory option" where
  "search_payloader gives_caps payloader_list =
     bind_result (select_payloader (filter (gives_caps True) payloader_list)) (\<lambda>r.
       case r of Some f \<Rightarrow> Inr (Some f) | None \<Rightarrow> select_payloader (filter (gives_caps False) payloader_list))"

section \<open>Encoders\<close>

datatype encoder_type = X265 | AV1 | VP9 | VP8 | X264 | OPENH264 | OPUS | UNSUPPORTED

definition kms_enc_tree_bin_get_name_from_type :: "encoder_type \<Rightarrow> string option" where
  "kms_enc_tree_bin_get_name_from_type enc_type = (case enc_type of
     X265 \<Rightarrow> Some ''x265'' | AV1 \<Rightarrow> Some ''av1'' | VP9 \<Rightarrow> Some ''vp9'' | VP8 \<Rightarrow> Some ''vp8''
   | X264 \<Rightarrow> Some ''x264'' | OPENH264 \<Rightarrow> Some ''openh264'' | OPUS \<Rightarrow> Some ''opus'' | UNSUPPORTED \<Rightarrow> None)"

definition kms_enc_tree_bin_set_encoder_type :: "string \<Rightarrow> encoder_type" where
  "kms_enc_tree_bin_set_encoder_type name =
     (if str_prefix ''x265enc'' name then X265
      else if str_prefix ''vp8enc'' name then VP8
      else if str_prefix ''vp9enc'' name then VP9
      else if str_prefix ''x264enc'' name then X264
      else if str_prefix ''openh264enc'' name then OPENH264
      else if str_prefix ''av1enc'' name then AV1
      else if str_prefix ''opusenc'' name then OPUS
      else UNSUPPORTED)"

datatype prop_value = PInt int | PBool bool

type_synonym props = "(string, prop_value) hash_table"

text \<open>
  \<open>names\<close> are the properties of the class of the encoder in their order; \<open>deserialize\<close> reads
  the value of a field as one of the property's type.
\<close>

definition set_encoder_configuration ::
    "(string \<Rightarrow> 'v \<Rightarrow> prop_value option) \<Rightarrow> string list \<Rightarrow> (string \<Rightarrow> (string \<Rightarrow> 'v option) option) option \<Rightarrow>
     string option \<Rightarrow> props \<Rightarrow> props" where
  "set_encoder_configuration deserialize names codec_configs config_name ps =
     (case (codec_configs, config_name) of
        (Some cc, Some cn) \<Rightarrow>
          (case cc cn of
             None \<Rightarrow> ps
           | Some config \<Rightarrow> fold (\<lambda>name ps. case Option.bind (config name) (deserialize name) of
                 Some v \<Rightarrow> AList.update name v ps | None \<Rightarrow> ps) names ps)
      | _ \<Rightarrow> ps)"

definition default_configuration :: "encoder_type \<Rightarrow> props" where
  "default_configuration enc_type = (case enc_type of
     X265 \<Rightarrow> [(''speed-preset'', PInt 3), (''key-int-max'', PInt 60), (''tune'', PInt 4)]
   | AV1 \<Rightarrow> [(''threads'', PInt 1), (''cpu-used'', PInt 4), (''end-usage'', PInt 1), (''usage-profile'', PInt 1),
       (''keyframe-mode'', PInt 1), (''keyframe-max-dist'', PInt 90), (''qos'', PBool True)]
   | VP9 \<Rightarrow> [(''deadline'', PInt 200000), (''threads'', PInt 1), (''cpu-used'', PInt 16),
       (''resize-allowed'', PBool True), (''end-usage'', PInt 1)]
   | VP8 \<Rightarrow> [(''deadline'', PInt 200000), (''threads'', PInt 1), (''cpu-used'', PInt 16),
       (''resize-allowed'', PBool True), (''end-usage'', PInt 1)]
   | X264 \<Rightarrow> [(''speed-preset'', PInt 3), (''threads'', PInt 1), (''key-int-max'', PInt 60), (''tune'', PInt 4)]
   | OPENH264 \<Rightarrow> [(''rate-control'', PInt 1)]
   | OPUS \<Rightarrow> [(''inband-fec'', PBool True), (''perfect-timestamp'', PBool True)]
   | UNSUPPORTED \<Rightarrow> [])"

definition configure_encoder ::
    "(string \<Rightarrow> 'v \<Rightarrow> prop_value option) \<Rightarrow> string list \<Rightarrow> encoder_type \<Rightarrow>
     (string \<Rightarrow> (string \<Rightarrow> 'v option) option) option \<Rightarrow> props \<Rightarrow> props" where
  "configure_encoder deserialize names enc_type codec_configs ps =
     set_encoder_configuration deserialize names codec_configs (kms_enc_tree_bin_get_name_from_type enc_type)
       (fold (\<lambda>(name, v). AList.update name v) (default_configuration enc_type) ps)"

section \<open>The bitrate of an encoder\<close>

text \<open>
  A \<open>gint\<close> is an integer here, with the conversions and the overflow written out;
  \<open>et_encoder\<close> is the property of the encoder for its bitrate, in bits or kilobits.
\<close>

record enc_tree_bin =
  et_type :: encoder_type
  et_remb :: int
  et_tag :: int
  et_current :: int
  et_max :: int
  et_min :: int
  et_encoder :: u32

definition G_MAXINT :: int where "G_MAXINT = 2 ^ 31 - 1"

definition kms_enc_tree_bin_init :: "encoder_type \<Rightarrow> u32 \<Rightarrow> enc_tree_bin" where
  "kms_enc_tree_bin_init enc_type value = \<lparr>et_type = enc_type, et_remb = -1, et_tag = -1, et_current = -1,
     et_max = G_MAXINT, et_min = 0, et_encoder = value\<rparr>"

definition KMS_ENC_TREE_BIN_LIMIT :: "enc_tree_bin \<Rightarrow> int \<Rightarrow> int" where
  "KMS_ENC_TREE_BIN_LIMIT e v = max (et_min e) (min (et_max e) v)"

definition kms_enc_tree_bin_get_bitrate :: "enc_tree_bin \<Rightarrow> enc_tree_bin \<times> int" where
  "kms_enc_tree_bin_get_bitrate e =
     (let bitrate =
        (if et_remb e > 0 \<and> et_tag e > 0 then KMS_ENC_TREE_BIN_LIMIT e (min (et_remb e) (et_tag e))
         else if et_remb e > 0 then KMS_ENC_TREE_BIN_LIMIT e (et_remb e)
         else if et_tag e > 0 then KMS_ENC_TREE_BIN_LIMIT e (et_tag e)
         else KMS_ENC_TREE_BIN_LIMIT e (et_current e))
      in (e\<lparr>et_current := bitrate\<rparr>, bitrate))"

text \<open>The units of the property in a kilobit, and the least value; other encoders have none.\<close>

definition bitrate_property :: "encoder_type \<Rightarrow> (int \<times> u32) option" where
  "bitrate_property enc_type = (case enc_type of
     X265 \<Rightarrow> Some (1, 1) | VP9 \<Rightarrow> Some (1000, 0) | VP8 \<Rightarrow> Some (1000, 0) | X264 \<Rightarrow> Some (1, 1)
   | OPENH264 \<Rightarrow> Some (1000, 0) | AV1 \<Rightarrow> Some (1, 0) | _ \<Rightarrow> None)"

definition c_div :: "int \<Rightarrow> int \<Rightarrow> int" where
  "c_div a b = sgn a * sgn b * (\<bar>a\<bar> div \<bar>b\<bar>)"

text \<open>
  \<open>keep\<close>: what an encoder keeps of a value that its property is set to; the value itself where
  it is in the range of the property. The product of two \<open>gint\<close> may overflow.
\<close>

definition kms_enc_tree_bin_set_target_bitrate ::
    "(encoder_type \<Rightarrow> u32 \<Rightarrow> u32) \<Rightarrow> enc_tree_bin \<Rightarrow> c_fault + enc_tree_bin" where
  "kms_enc_tree_bin_set_target_bitrate keep e =
     (let (e1, new_bitrate) = kms_enc_tree_bin_get_bitrate e in
      if new_bitrate \<le> 0 then Inr e1
      else case bitrate_property (et_type e1) of
        None \<Rightarrow> Inr e1
      | Some (kbps_div, min_bitrate) \<Rightarrow>
          if c_div new_bitrate 1000 = c_div (sint (et_encoder e1)) kbps_div then Inr e1
          else if new_bitrate * kbps_div > G_MAXINT then Inl Signed_overflow
          else let br = word_of_int (c_div (new_bitrate * kbps_div) 1000);
                   br1 = (if br < min_bitrate then min_bitrate else br) in
            Inr (e1\<lparr>et_encoder := keep (et_type e1) br1\<rparr>))"

definition kms_enc_tree_bin_set_bitrate ::
    "(encoder_type \<Rightarrow> u32 \<Rightarrow> u32) \<Rightarrow> int \<Rightarrow> int \<Rightarrow> int \<Rightarrow> enc_tree_bin \<Rightarrow> c_fault + enc_tree_bin" where
  "kms_enc_tree_bin_set_bitrate keep target_bitrate min_bitrate max_bitrate e =
     kms_enc_tree_bin_set_target_bitrate keep (e\<lparr>et_current := target_bitrate, et_min := min_bitrate, et_max := max_bitrate\<rparr>)"

definition bitrate_callback :: "(encoder_type \<Rightarrow> u32 \<Rightarrow> u32) \<Rightarrow> u32 \<Rightarrow> enc_tree_bin \<Rightarrow> c_fault + enc_tree_bin" where
  "bitrate_callback keep bitrate e =
     (if bitrate \<noteq> 0 then kms_enc_tree_bin_set_target_bitrate keep (e\<lparr>et_remb := sint bitrate\<rparr>) else Inr e)"

text \<open>\<open>tag\<close>: the bitrate in the tags of a tag event, if there is one.\<close>

definition tag_event_probe :: "(encoder_type \<Rightarrow> u32 \<Rightarrow> u32) \<Rightarrow> u32 option \<Rightarrow> enc_tree_bin \<Rightarrow> c_fault + enc_tree_bin" where
  "tag_event_probe keep tag e = (case tag of
     Some bitrate \<Rightarrow> kms_enc_tree_bin_set_target_bitrate keep (e\<lparr>et_tag := sint bitrate\<rparr>)
   | None \<Rightarrow> Inr e)"

text \<open>\<open>value\<close>: the bitrate that the encoder has when it is made.\<close>

definition kms_enc_tree_bin_new ::
    "(encoder_type \<Rightarrow> u32 \<Rightarrow> u32) \<Rightarrow> (factory \<Rightarrow> bool) \<Rightarrow> factory list \<Rightarrow> (factory \<Rightarrow> string \<times> u32) \<Rightarrow> int \<Rightarrow> int \<Rightarrow> int \<Rightarrow>
     c_fault + enc_tree_bin option" where
  "kms_enc_tree_bin_new keep gives_caps encoders create target_bitrate min_bitrate max_bitrate =
     (case choose_encoder gives_caps encoders of
        None \<Rightarrow> Inr None
      | Some f \<Rightarrow> (let (name, value) = create f;
            e = (kms_enc_tree_bin_init (kms_enc_tree_bin_set_encoder_type name) value)\<lparr>et_max := max_bitrate, et_min := min_bitrate\<rparr>;
            e1 = e\<lparr>et_current := KMS_ENC_TREE_BIN_LIMIT e target_bitrate\<rparr> in
          bind_result (kms_enc_tree_bin_set_target_bitrate keep e1) (\<lambda>e2. Inr (Some e2))))"

text \<open>
  The filter in front of x264, which takes no odd width or height: \<open>filter_caps\<close> is the size it
  asks for. A size that is even leaves it as it is.
\<close>

definition check_caps_probe :: "int \<times> int \<Rightarrow> (int \<times> int) option \<Rightarrow> (int \<times> int) option" where
  "check_caps_probe dims filter_caps =
     (let (width, height) = dims;
          needs_filter = (width mod 2 \<noteq> 0 \<or> height mod 2 \<noteq> 0);
          width1 = (if width mod 2 \<noteq> 0 then width - 1 else width);
          height1 = (if height mod 2 \<noteq> 0 then height - 1 else height) in
      if \<not> needs_filter then filter_caps else Some (width1, height1))"

section \<open>The bitrate of what is parsed\<close>

record parse_tree_bin =
  pb_last_pts :: u64
  pb_last_dts :: u64
  pb_mean :: u32
  pb_last_pushed :: u32
  pb_tags :: "u32 list" \<comment> \<open>the bitrates it announced, the last first\<close>

definition kms_parse_tree_bin_init :: parse_tree_bin where
  "kms_parse_tree_bin_init = \<lparr>pb_last_pts = GST_CLOCK_TIME_NONE, pb_last_dts = GST_CLOCK_TIME_NONE,
     pb_mean = 0, pb_last_pushed = 0, pb_tags = []\<rparr>"

record parsed_buffer =
  bu_pts :: u64
  bu_dts :: u64
  bu_size :: u64

fun fgreater :: "gfloat \<Rightarrow> gfloat \<Rightarrow> bool" where
  "fgreater (Fin x) (Fin y) = (y < x)"
| "fgreater (Inf False) (Fin y) = True"
| "fgreater (Fin x) (Inf True) = True"
| "fgreater (Inf False) (Inf True) = True"
| "fgreater x y = False"

definition difference_over_threshold :: "u32 \<Rightarrow> u32 \<Rightarrow> gfloat \<Rightarrow> bool" where
  "difference_over_threshold a b th =
     (if a > b then fgreater (float_of_uint (a - b)) (fmul (float_of_uint a) th)
      else fgreater (float_of_uint (b - a)) (fmul (float_of_uint b) th))"

definition BITRATE_THRESHOLD :: gfloat where
  "BITRATE_THRESHOLD = rnd32 (7 / 100)"

definition bitrate_calculation_probe :: "parsed_buffer \<Rightarrow> parse_tree_bin \<Rightarrow> parse_tree_bin" where
  "bitrate_calculation_probe buf p =
     (let timediff =
        (if bu_dts buf \<noteq> GST_CLOCK_TIME_NONE \<and> pb_last_dts p \<noteq> GST_CLOCK_TIME_NONE then bu_dts buf - pb_last_dts p
         else if bu_pts buf \<noteq> GST_CLOCK_TIME_NONE \<and> pb_last_pts p \<noteq> GST_CLOCK_TIME_NONE then bu_pts buf - pb_last_pts p
         else GST_CLOCK_TIME_NONE);
          p1 = (if timediff > 0 then
             (let bitrate = ucast ((bu_size buf * GST_SECOND * 8) div timediff) :: u32;
                  p1 = p\<lparr>pb_mean := (pb_mean p * 7 + bitrate) div 8\<rparr> in
              if pb_last_pushed p1 = 0 \<or> difference_over_threshold (pb_mean p1) (pb_last_pushed p1) BITRATE_THRESHOLD
              then p1\<lparr>pb_tags := pb_mean p1 # pb_tags p1, pb_last_pushed := pb_mean p1\<rparr>
              else p1)
           else p)
      in p1\<lparr>pb_last_pts := bu_pts buf, pb_last_dts := bu_dts buf\<rparr>)"


section \<open>What configures an encoder\<close>

text \<open>The fields of the configuration win over the defaults, which win over what the encoder has.\<close>

lemma configured_props:
  "map_of (fold (\<lambda>name ps. case g name of Some v \<Rightarrow> AList.update name v ps | None \<Rightarrow> ps) names ps) n =
     (if n \<in> set names \<and> g n \<noteq> None then g n else map_of ps n)"
  by (induction names arbitrary: ps) (auto split: option.splits)

lemma configuration_wins:
  assumes "kms_enc_tree_bin_get_name_from_type enc_type = Some cn" "cc cn = Some config"
  shows "map_of (configure_encoder deserialize names enc_type (Some cc) ps) n =
    (if n \<in> set names \<and> Option.bind (config n) (deserialize n) \<noteq> None then Option.bind (config n) (deserialize n)
     else map_of (configure_encoder deserialize names enc_type None ps) n)"
  using assms configured_props [of "\<lambda>name. Option.bind (config name) (deserialize name)" names]
  by (auto simp: configure_encoder_def set_encoder_configuration_def)

section \<open>The rate of an encoder\<close>

text \<open>
  What the bitrate of an encoder is meant to be, after what it was told last: the target that
  was set, the report of the receivers if there was one, and the tag of the sender if there is
  one, within the limits. A tag of 0 takes the tag back; the rate stays what it was.
\<close>

record rate_spec =
  er_target :: int
  er_min :: int
  er_max :: int
  er_remb :: "int option"
  er_tag :: "int option"

definition rate_wanted :: "rate_spec \<Rightarrow> int" where
  "rate_wanted r = max (er_min r) (min (er_max r) (case (er_remb r, er_tag r) of
     (Some b, Some t) \<Rightarrow> min b t | (Some b, None) \<Rightarrow> b | (None, Some t) \<Rightarrow> t | (None, None) \<Rightarrow> er_target r))"

datatype enc_event = Set_bitrate int int int | Remb_report u32 | Tags "u32 option"

fun enc_event_handler :: "(encoder_type \<Rightarrow> u32 \<Rightarrow> u32) \<Rightarrow> enc_event \<Rightarrow> enc_tree_bin \<Rightarrow> c_fault + enc_tree_bin" where
  "enc_event_handler keep (Set_bitrate target mn mx) e = kms_enc_tree_bin_set_bitrate keep target mn mx e"
| "enc_event_handler keep (Remb_report b) e = bitrate_callback keep b e"
| "enc_event_handler keep (Tags t) e = tag_event_probe keep t e"

fun enc_run :: "(encoder_type \<Rightarrow> u32 \<Rightarrow> u32) \<Rightarrow> enc_tree_bin \<Rightarrow> enc_event list \<Rightarrow> c_fault + enc_tree_bin" where
  "enc_run keep e [] = Inr e"
| "enc_run keep e (ev # evs) = bind_result (enc_event_handler keep ev e) (\<lambda>e1. enc_run keep e1 evs)"

fun rate_step :: "rate_spec \<Rightarrow> enc_event \<Rightarrow> rate_spec" where
  "rate_step r (Set_bitrate target mn mx) = r\<lparr>er_target := target, er_min := mn, er_max := mx\<rparr>"
| "rate_step r (Remb_report b) = (if b = 0 then r else r\<lparr>er_remb := Some (uint b)\<rparr>)"
| "rate_step r (Tags t) = (case t of
     None \<Rightarrow> r
   | Some b \<Rightarrow> (if b = 0 then r\<lparr>er_target := rate_wanted r, er_tag := None\<rparr> else r\<lparr>er_tag := Some (uint b)\<rparr>))"

text \<open>Up to this rate, 1000 times a \<open>gint\<close> is a \<open>gint\<close>.\<close>

definition RATE_TOP :: int where "RATE_TOP = 2147483"

fun rate_small :: "enc_event \<Rightarrow> bool" where
  "rate_small (Set_bitrate target mn mx) = (0 \<le> target \<and> target \<le> RATE_TOP \<and> 0 \<le> mn \<and> mn \<le> RATE_TOP)"
| "rate_small (Remb_report b) = (uint b \<le> RATE_TOP)"
| "rate_small (Tags t) = (case t of None \<Rightarrow> True | Some b \<Rightarrow> uint b \<le> RATE_TOP)"

definition encoder_has :: "int \<Rightarrow> enc_tree_bin \<Rightarrow> bool" where
  "encoder_has rate e \<longleftrightarrow> (case bitrate_property (et_type e) of
     None \<Rightarrow> True
   | Some (kbps_div, least) \<Rightarrow> c_div (sint (et_encoder e)) kbps_div = max (sint least) (rate div 1000))"

text \<open>An encoder that needs a rate above zero has one.\<close>

definition encoder_runs :: "enc_tree_bin \<Rightarrow> bool" where
  "encoder_runs e \<longleftrightarrow> (case bitrate_property (et_type e) of None \<Rightarrow> True | Some (kbps_div, least) \<Rightarrow> least = 0 \<or> et_encoder e \<noteq> 0)"

lemma c_div_pos [simp]: "0 \<le> a \<Longrightarrow> 0 < b \<Longrightarrow> c_div a b = a div b"
  by (cases "a = 0") (auto simp: c_div_def sgn_if)

lemma sint_of_small: "0 \<le> k \<Longrightarrow> k < 2 ^ 31 \<Longrightarrow> sint (word_of_int k :: u32) = k"
  by (simp add: signed_take_bit_int_eq_self sint_sbintrunc')

lemma sint_small_top: "uint (v :: u32) \<le> 2147483 \<Longrightarrow> sint v = uint v"
  using sint_of_small [of "uint v"] by simp

lemma property_cases:
  assumes "bitrate_property t = Some (d, least)"
  shows "(d = 1 \<or> d = 1000) \<and> (least = 0 \<or> least = 1 \<and> d = 1)"
  using assms by (cases t) (auto simp: bitrate_property_def)

lemma set_target_spec:
  assumes keep: "\<And>t v. uint v \<le> RATE_TOP \<Longrightarrow> keep t v = v"
    and rate: "snd (kms_enc_tree_bin_get_bitrate e) = rate" "0 \<le> rate" "rate \<le> RATE_TOP" and runs: "encoder_runs e"
  obtains x where "kms_enc_tree_bin_set_target_bitrate keep e = Inr (e\<lparr>et_current := rate, et_encoder := x\<rparr>)"
    "0 < rate \<Longrightarrow> encoder_has rate (e\<lparr>et_current := rate, et_encoder := x\<rparr>)"
    "encoder_runs (e\<lparr>et_current := rate, et_encoder := x\<rparr>)"
proof -
  have e1: "kms_enc_tree_bin_get_bitrate e = (e\<lparr>et_current := rate\<rparr>, rate)"
    using rate(1) by (simp add: kms_enc_tree_bin_get_bitrate_def Let_def)
  let ?old = "et_encoder e"
  show thesis
  proof (cases "rate \<le> 0 \<or> bitrate_property (et_type e) = None")
    case True
    then show thesis
      using runs by (intro that [of ?old]) (auto simp: kms_enc_tree_bin_set_target_bitrate_def e1 encoder_has_def encoder_runs_def split: option.splits)
  next
    case False
    then obtain d least where p: "bitrate_property (et_type e) = Some (d, least)" and pos: "0 < rate" by auto
    note d = property_cases [OF p]
    show thesis
    proof (cases "rate div 1000 = c_div (sint ?old) d")
      case True
      have "1 \<le> rate div 1000" if "least = 1"
      proof -
        have "rate div 1000 = sint ?old" "?old \<noteq> 0"
          using that True d runs p by (auto simp: c_div_def encoder_runs_def sgn_mult_abs)
        moreover have "sint ?old \<noteq> 0"
          using \<open>?old \<noteq> 0\<close> by (simp add: signed_eq_0_iff)
        moreover have "0 \<le> rate div 1000" using rate(2) by simp
        ultimately show ?thesis by linarith
      qed
      with True show thesis
        using runs p pos d by (intro that [of ?old]) (auto simp: kms_enc_tree_bin_set_target_bitrate_def e1 encoder_has_def encoder_runs_def)
    next
      case False
      let ?br = "word_of_int (rate * d div 1000) :: u32"
      have small: "0 \<le> rate * d div 1000" "rate * d div 1000 \<le> RATE_TOP" "rate * d \<le> G_MAXINT"
        using d rate(2,3) by (auto simp: RATE_TOP_def G_MAXINT_def)
      then have br: "uint ?br = rate * d div 1000"
        by (simp add: RATE_TOP_def uint_word_of_int_eq take_bit_int_eq_self)
      let ?br1 = "if ?br < least then least else ?br"
      have br1: "uint ?br1 = max (uint least) (rate * d div 1000)"
        using br by (auto simp: word_less_def)
      then have top: "uint ?br1 \<le> RATE_TOP" using small d by (auto simp: RATE_TOP_def)
      then have s: "sint ?br1 = max (uint least) (rate * d div 1000)"
        using br1 by (metis RATE_TOP_def sint_small_top)
      show thesis
      proof (rule that [of ?br1])
        show "kms_enc_tree_bin_set_target_bitrate keep e = Inr (e\<lparr>et_current := rate, et_encoder := ?br1\<rparr>)"
          using False p pos small d keep [OF top] by (auto simp: kms_enc_tree_bin_set_target_bitrate_def e1 Let_def)
        show "encoder_has rate (e\<lparr>et_current := rate, et_encoder := ?br1\<rparr>)"
          using d p s pos by (auto simp: encoder_has_def)
        show "encoder_runs (e\<lparr>et_current := rate, et_encoder := ?br1\<rparr>)"
          using d p br1 by (auto simp: encoder_runs_def)
      qed
    qed
  qed
qed


definition rate_rel :: "enc_tree_bin \<Rightarrow> rate_spec \<Rightarrow> bool" where
  "rate_rel e r \<longleftrightarrow> et_min e = er_min r \<and> et_max e = er_max r \<and>
     (case er_remb r of None \<Rightarrow> et_remb e \<le> 0 | Some b \<Rightarrow> et_remb e = b \<and> 0 < b \<and> b \<le> RATE_TOP) \<and>
     (case er_tag r of None \<Rightarrow> et_tag e \<le> 0 | Some t \<Rightarrow> et_tag e = t \<and> 0 < t \<and> t \<le> RATE_TOP) \<and>
     0 \<le> er_target r \<and> er_target r \<le> RATE_TOP \<and> 0 \<le> er_min r \<and> er_min r \<le> RATE_TOP \<and> encoder_runs e \<and>
     (er_remb r = None \<longrightarrow> er_tag r = None \<longrightarrow> KMS_ENC_TREE_BIN_LIMIT e (et_current e) = rate_wanted r)"

lemma rate_rel_wanted:
  assumes "rate_rel e r"
  shows "snd (kms_enc_tree_bin_get_bitrate e) = rate_wanted r" "0 \<le> rate_wanted r" "rate_wanted r \<le> RATE_TOP"
proof -
  show "snd (kms_enc_tree_bin_get_bitrate e) = rate_wanted r"
    using assms by (cases "er_remb r"; cases "er_tag r")
      (auto simp: rate_rel_def kms_enc_tree_bin_get_bitrate_def KMS_ENC_TREE_BIN_LIMIT_def rate_wanted_def Let_def)
  show "0 \<le> rate_wanted r" "rate_wanted r \<le> RATE_TOP"
    using assms by (auto simp: rate_rel_def rate_wanted_def split: option.splits)
qed

definition rate_shown :: "enc_tree_bin \<Rightarrow> rate_spec \<Rightarrow> bool" where
  "rate_shown e r \<longleftrightarrow> et_current e = rate_wanted r \<and> (0 < rate_wanted r \<longrightarrow> encoder_has (rate_wanted r) e)"

text \<open>An encoder keeps the rates in this range as they are.\<close>

definition keeps_rates :: "(encoder_type \<Rightarrow> u32 \<Rightarrow> u32) \<Rightarrow> bool" where
  "keeps_rates keep \<longleftrightarrow> (\<forall>t v. uint v \<le> RATE_TOP \<longrightarrow> keep t v = v)"

lemma limit_twice: "max a (min b (max a (min b (x :: int)))) = max a (min b x)"
  by (simp add: max_def min_def)

lemma set_target_rel:
  assumes keep: "keeps_rates keep" and rel: "rate_rel e r"
  shows "\<exists>e'. kms_enc_tree_bin_set_target_bitrate keep e = Inr e' \<and> rate_rel e' r \<and> rate_shown e' r"
proof -
  note w = rate_rel_wanted [OF rel]
  have runs: "encoder_runs e" using rel by (simp add: rate_rel_def)
  have k: "keep t v = v" if "uint v \<le> RATE_TOP" for t v
    using keep that by (simp add: keeps_rates_def)
  show ?thesis
  proof (rule set_target_spec [OF k w runs])
    fix x
    assume x: "kms_enc_tree_bin_set_target_bitrate keep e = Inr (e\<lparr>et_current := rate_wanted r, et_encoder := x\<rparr>)"
      "0 < rate_wanted r \<Longrightarrow> encoder_has (rate_wanted r) (e\<lparr>et_current := rate_wanted r, et_encoder := x\<rparr>)"
      "encoder_runs (e\<lparr>et_current := rate_wanted r, et_encoder := x\<rparr>)"
    have "rate_rel (e\<lparr>et_current := rate_wanted r, et_encoder := x\<rparr>) r"
      using rel x(3) by (auto simp: rate_rel_def KMS_ENC_TREE_BIN_LIMIT_def rate_wanted_def limit_twice split: option.splits)
    with x(1,2) show ?thesis by (auto simp: rate_shown_def)
  qed
qed

lemma enc_event_rel:
  assumes keep: "keeps_rates keep"
    and rel: "rate_rel e r" "rate_shown e r" and small: "rate_small ev"
  shows "\<exists>e'. enc_event_handler keep ev e = Inr e' \<and> rate_rel e' (rate_step r ev) \<and> rate_shown e' (rate_step r ev)"
proof (cases "\<exists>e1. rate_rel e1 (rate_step r ev) \<and> enc_event_handler keep ev e = kms_enc_tree_bin_set_target_bitrate keep e1")
  case True
  then obtain e1 where 1: "rate_rel e1 (rate_step r ev)" "enc_event_handler keep ev e = kms_enc_tree_bin_set_target_bitrate keep e1"
    by blast
  with set_target_rel [OF keep 1(1)] show ?thesis by simp
next
  case False
  have s: "sint b = uint b" if "uint b \<le> RATE_TOP" for b :: u32
    using that sint_small_top by (auto simp: RATE_TOP_def)
  have pos: "0 < uint b" if "b \<noteq> 0" for b :: u32
    using that by (simp add: order_less_le unsigned_eq_0_iff)
  show ?thesis
  proof (cases ev)
    case (Set_bitrate target mn mx)
    have "rate_rel (e\<lparr>et_current := target, et_min := mn, et_max := mx\<rparr>) (rate_step r ev)"
      using rel(1) small Set_bitrate
      by (auto simp: rate_rel_def rate_wanted_def KMS_ENC_TREE_BIN_LIMIT_def encoder_runs_def split: option.splits)
    with False show ?thesis by (auto simp: Set_bitrate kms_enc_tree_bin_set_bitrate_def)
  next
    case (Remb_report b)
    show ?thesis
    proof (cases "b = 0")
      case True
      then show ?thesis using rel by (simp add: Remb_report bitrate_callback_def)
    next
      case nz: False
      then have "rate_rel (e\<lparr>et_remb := sint b\<rparr>) (rate_step r ev)"
        using rel(1) small s [of b] nz pos [of b]
        by (auto simp: Remb_report rate_rel_def rate_wanted_def KMS_ENC_TREE_BIN_LIMIT_def encoder_runs_def split: option.splits)
      with False nz show ?thesis by (auto simp: Remb_report bitrate_callback_def)
    qed
  next
    case (Tags t)
    show ?thesis
    proof (cases t)
      case None
      then show ?thesis using rel by (simp add: Tags tag_event_probe_def)
    next
      case (Some b)
      have "rate_rel (e\<lparr>et_tag := sint b\<rparr>) (rate_step r ev)"
      proof (cases "b = 0")
        case True
        let ?r = "r\<lparr>er_target := rate_wanted r, er_tag := None\<rparr>"
        have c: "et_current e = rate_wanted r" using rel(2) by (simp add: rate_shown_def)
        have w: "rate_wanted ?r = max (er_min r) (min (er_max r) (rate_wanted r))" if "er_remb r = None"
          using that by (simp add: rate_wanted_def [of ?r])
        have "rate_rel (e\<lparr>et_tag := 0\<rparr>) ?r"
          using rel(1) rate_rel_wanted(2,3) [OF rel(1)] w
          by (cases "er_remb r"; cases "bitrate_property (et_type e)")
            (auto simp: rate_rel_def KMS_ENC_TREE_BIN_LIMIT_def encoder_runs_def c)
        with True show ?thesis by (simp add: Tags Some)
      next
        case nz: False
        with rel(1) small s [of b] pos [of b] show ?thesis
          by (auto simp: Tags Some rate_rel_def rate_wanted_def KMS_ENC_TREE_BIN_LIMIT_def encoder_runs_def split: option.splits)
      qed
      with False show ?thesis by (auto simp: Tags Some tag_event_probe_def)
    qed
  qed
qed

lemma enc_run_rel:
  assumes keep: "keeps_rates keep"
  shows "rate_rel e r \<Longrightarrow> rate_shown e r \<Longrightarrow> \<forall>ev \<in> set evs. rate_small ev \<Longrightarrow>
    \<exists>e'. enc_run keep e evs = Inr e' \<and> rate_shown e' (foldl rate_step r evs)"
proof (induction evs arbitrary: e r)
  case (Cons ev evs)
  from Cons.prems(3) have ev: "rate_small ev" and evs: "\<forall>ev \<in> set evs. rate_small ev" by simp_all
  obtain e1 where "enc_event_handler keep ev e = Inr e1" "rate_rel e1 (rate_step r ev)" "rate_shown e1 (rate_step r ev)"
    using enc_event_rel [OF keep Cons.prems(1,2) ev] by blast
  with Cons.IH [OF this(2,3) evs] show ?case by simp
qed simp


definition demo_enc_events :: "enc_event list" where
  "demo_enc_events = [Tags (Some 1500000), Remb_report 800000, Set_bitrate 300000 100000 700000, Tags (Some 0)]"


text \<open>
  Above that rate the product of the rate and the units overflows for encoders whose property is
  in bits, unless the encoder has that rate already.
\<close>

lemma high_rate_overflows:
  assumes "bitrate_property (et_type e) = Some (1000, least)" "RATE_TOP < snd (kms_enc_tree_bin_get_bitrate e)"
    and "c_div (snd (kms_enc_tree_bin_get_bitrate e)) 1000 \<noteq> c_div (sint (et_encoder e)) 1000"
  shows "kms_enc_tree_bin_set_target_bitrate keep e = Inl Signed_overflow"
  using assms by (auto simp: kms_enc_tree_bin_set_target_bitrate_def kms_enc_tree_bin_get_bitrate_def Let_def RATE_TOP_def G_MAXINT_def)


section \<open>The announced bitrate\<close>

lemma ulp_relative:
  assumes "2 powi (-126) \<le> x"
  shows "ulp x \<le> x / 2 ^ 23"
proof -
  have pos: "0 < x" by (rule less_le_trans [OF _ assms]) simp
  have b: "2 powi binade x \<le> x" "x < 2 powi (binade x + 1)"
    using binade_bounds [OF pos] by auto
  have "(2::rat) powi (-126) < 2 powi (binade x + 1)"
    using assms b(2) by linarith
  then have "- 126 < binade x + 1"
    by (metis linorder_not_less one_le_numeral power_int_increasing)
  then have "ulp x = 2 powi (binade x - 23)" by (simp add: ulp_def max_def)
  also have "\<dots> = 2 powi binade x / 2 ^ 23"
    by (simp add: power_int_diff)
  also have "\<dots> \<le> x / 2 ^ 23" using b(1) by (simp add: divide_right_mono)
  finally show ?thesis .
qed

lemma round_abs_relative:
  assumes "2 powi (-126) \<le> x"
  shows "\<bar>round_abs x - x\<bar> \<le> x / 2 ^ 24"
  using round_abs_near [of x] ulp_relative [OF assms] by simp

lemma rnd32_relative:
  assumes "2 powi (-126) \<le> x" "x \<le> 2 ^ 40"
  shows "\<exists>y. rnd32 x = Fin y \<and> x * (1 - 1 / 2 ^ 24) \<le> y \<and> y \<le> x * (1 + 1 / 2 ^ 24)"
proof -
  have pos: "0 < x" by (rule less_le_trans [OF _ assms(1)]) simp
  then obtain y where y: "rnd32 x = Fin y"
    using rnd32_bounded [of x 40] assms(2) by auto
  then have "y = round_abs x"
    using pos by (auto simp: rnd32_def Let_def split: if_splits)
  with round_abs_relative [OF assms(1)] have "\<bar>y - x\<bar> \<le> x / 2 ^ 24" by simp
  then have "y - x \<le> x / 2 ^ 24" "x - y \<le> x / 2 ^ 24"
    using abs_ge_self [of "y - x"] abs_ge_minus_self [of "y - x"] by linarith+
  then have "x * (1 - 1 / 2 ^ 24) \<le> y" "y \<le> x * (1 + 1 / 2 ^ 24)"
    unfolding right_diff_distrib distrib_left mult_1_right times_divide_eq_right by linarith+
  with y show ?thesis by blast
qed

lemma small_power: "(2::rat) powi (-126) \<le> 1 / 100"
  by code_simp

lemma float_of_uint_relative:
  assumes "uint (w :: u32) = k" "0 < k"
  shows "\<exists>y. float_of_uint w = Fin y \<and> of_int k * (1 - 1 / 2 ^ 24) \<le> y \<and> y \<le> of_int k * (1 + 1 / 2 ^ 24)"
proof -
  have f: "float_of_uint w = rnd32 (of_int k)" by (simp only: float_of_uint_def assms(1))
  have "k \<le> 2 ^ 40" using uint_bounded [of w] assms(1) by simp
  then have "(of_int k :: rat) \<le> of_int (2 ^ 40)" by (simp only: of_int_le_iff)
  moreover have "(1::rat) \<le> of_int k" using assms(2) by simp
  ultimately show ?thesis
    using rnd32_relative [of "of_int k"] small_power by (simp add: f)
qed

lemma threshold_value: "\<exists>th. BITRATE_THRESHOLD = Fin th \<and> 6 / 100 \<le> th \<and> th \<le> 71 / 1000"
proof -
  obtain y where "rnd32 (7 / 100) = Fin y" "7 / 100 * (1 - 1 / 2 ^ 24) \<le> y" "y \<le> 7 / 100 * (1 + 1 / 2 ^ 24 :: rat)"
    using rnd32_relative [of "7 / 100"] small_power by auto
  then show ?thesis by (auto simp: BITRATE_THRESHOLD_def)
qed

text \<open>Rounding to single precision makes at most eight percent out of seven.\<close>

lemma within_threshold:
  assumes "b \<le> (a :: u32)" "\<not> fgreater (float_of_uint (a - b)) (fmul (float_of_uint a) BITRATE_THRESHOLD)"
  shows "100 * (uint a - uint b) \<le> 8 * uint a"
proof (cases "uint a = uint b")
  case False
  define k d where "k = uint a" and "d = uint (a - b)"
  have d: "d = uint a - uint b"
    using assms(1) unfolding d_def word_le_def by (simp add: uint_sub_lem [THEN iffD1])
  have pos: "0 < d" "0 < k" "k < 2 ^ 32"
  proof -
    have "uint b < uint a" using False assms(1) by (simp add: word_le_def)
    then show "0 < d" "0 < k" "k < 2 ^ 32"
      using uint_ge_0 [of b] uint_bounded [of a] by (simp add: d, unfold k_def, linarith, simp)
  qed
  obtain x where x: "float_of_uint (a - b) = Fin x" "of_int d * (1 - 1 / 2 ^ 24) \<le> x"
    using float_of_uint_relative [OF d_def [symmetric] pos(1)] by blast
  obtain y where y: "float_of_uint a = Fin y" "of_int k * (1 - 1 / 2 ^ 24) \<le> y" "y \<le> of_int k * (1 + 1 / 2 ^ 24)"
    using float_of_uint_relative [OF k_def [symmetric] pos(2)] by blast
  obtain th where th: "BITRATE_THRESHOLD = Fin th" "6 / 100 \<le> th" "th \<le> 71 / 1000"
    using threshold_value by blast
  have a1: "(1::rat) \<le> of_int k" using pos(2) by simp
  have "(of_int k :: rat) \<le> of_int (2 ^ 32)" using pos(3) by (simp only: of_int_le_iff)
  then have a2: "(of_int k :: rat) \<le> 2 ^ 32" by simp
  have y1: "1 / 2 \<le> y" using y(2) a1 by simp
  have "1 / 2 * (6 / 100) \<le> y * th" using y1 th(2) by (intro mult_mono) auto
  then have p1: "2 powi (-126) \<le> y * th" using small_power by simp
  have yth: "y * th \<le> of_int k * (1 + 1 / 2 ^ 24) * (71 / 1000)"
    using y th y1 by (intro mult_mono) auto
  also have "\<dots> \<le> 2 ^ 40" using a2 by simp
  finally obtain z where z: "rnd32 (y * th) = Fin z" "z \<le> y * th * (1 + 1 / 2 ^ 24)"
    using rnd32_relative [OF p1] by blast
  have "x \<le> z" using assms(2) by (simp add: x(1) y(1) th(1) z(1))
  moreover have "y * th * (1 + 1 / 2 ^ 24) \<le> of_int k * (1 + 1 / 2 ^ 24) * (71 / 1000) * (1 + 1 / 2 ^ 24)"
    using yth by (rule mult_right_mono) simp
  ultimately have "of_int d * (1 - 1 / 2 ^ 24 :: rat) \<le> of_int k * (1 + 1 / 2 ^ 24) * (71 / 1000) * (1 + 1 / 2 ^ 24)"
    using x(2) z(2) by linarith
  then have "100 * (of_int d :: rat) \<le> 8 * of_int k"
    using a1 by simp
  then have "(of_int (100 * d) :: rat) \<le> of_int (8 * k)" by simp
  then have "100 * d \<le> 8 * k" by (simp only: of_int_le_iff)
  then show ?thesis by (simp add: d k_def)
qed simp

text \<open>What a buffer does to the bitrates: nothing, a new mean, or a new mean that is announced.\<close>

lemma probe_cases:
  fixes q :: parse_tree_bin and buf :: parsed_buffer
  defines "p \<equiv> bitrate_calculation_probe buf q"
  shows "pb_mean p = pb_mean q \<and> pb_last_pushed p = pb_last_pushed q \<and> pb_tags p = pb_tags q \<or>
    pb_last_pushed p = pb_last_pushed q \<and> pb_tags p = pb_tags q \<and> \<not> difference_over_threshold (pb_mean p) (pb_last_pushed p) BITRATE_THRESHOLD \<or>
    pb_last_pushed p = pb_mean p \<and> pb_tags p = pb_mean p # pb_tags q"
proof -
  define timediff where "timediff =
    (if bu_dts buf \<noteq> GST_CLOCK_TIME_NONE \<and> pb_last_dts q \<noteq> GST_CLOCK_TIME_NONE then bu_dts buf - pb_last_dts q
     else if bu_pts buf \<noteq> GST_CLOCK_TIME_NONE \<and> pb_last_pts q \<noteq> GST_CLOCK_TIME_NONE then bu_pts buf - pb_last_pts q
     else GST_CLOCK_TIME_NONE)"
  show ?thesis
    unfolding p_def bitrate_calculation_probe_def timediff_def [symmetric] Let_def by (simp split: if_split)
qed


text \<open>
  The first buffer has no time before it. GStreamer's mark for no time counts as a long time, so
  the bin announces a bitrate of 0.
\<close>

lemma first_buffer_announces_zero:
  assumes "bu_size buf < 2 ^ 30"
  shows "pb_tags (bitrate_calculation_probe buf kms_parse_tree_bin_init) = [0]"
proof -
  have n: "unat (bu_size buf) < 2 ^ 30" using assms by (simp add: word_less_nat_alt)
  have "unat (bu_size buf * GST_SECOND * 8) = unat (bu_size buf) * 8000000000"
    using n by (simp add: GST_SECOND_def unat_word_ariths mult.assoc)
  moreover have "unat GST_CLOCK_TIME_NONE = 2 ^ 64 - 1" by (simp add: GST_CLOCK_TIME_NONE_def unsigned_minus_1_eq_mask mask_eq_exp_minus_1)
  ultimately have "(bu_size buf * GST_SECOND * 8) div GST_CLOCK_TIME_NONE = 0"
    using n by (simp add: word_arith_nat_div)
  moreover have "0 < GST_CLOCK_TIME_NONE" unfolding GST_CLOCK_TIME_NONE_def by (simp add: word_neq_0_conv [symmetric])
  ultimately show ?thesis by (simp add: bitrate_calculation_probe_def kms_parse_tree_bin_init_def Let_def)
qed

text \<open>The filter for odd sizes is not taken back when the size becomes even.\<close>

lemma odd_size_stays:
  "width mod 2 = 1 \<Longrightarrow> height mod 2 = 0 \<Longrightarrow> check_caps_probe (1280, 720) (check_caps_probe (width, height) f) = Some (width - 1, height)"
  by (simp add: check_caps_probe_def)

end
