(* ===== verification/AgnosticBin.thy ===== *)
theory AgnosticBin
  imports TreeBins BaseHub
begin

text \<open>
  The agnostic bin (\<open>kmsagnosticbin.c\<close>): one sink, any number of source pads, and between them a
  tree of bins that parse, decode, encode and payload, made on demand so that every peer gets a
  format it takes. Caps are those of GStreamer and stay abstract; what is asked about them, which
  elements there are and what the peers answer is in the environment of a call.
\<close>

section \<open>Results of calls\<close>

text \<open>\<open>None\<close>: the call does not return, \<open>Inl\<close>: it is undefined.\<close>

type_synonym 'a ret = "(c_fault + 'a) option"

definition ret :: "'a \<Rightarrow> 'a ret" where "ret x = Some (Inr x)"

definition fault :: "c_fault \<Rightarrow> 'a ret" where "fault f = Some (Inl f)"

definition bind_ret :: "'a ret \<Rightarrow> ('a \<Rightarrow> 'b ret) \<Rightarrow> 'b ret" where
  "bind_ret m f = Option.bind m (\<lambda>r. case r of Inl e \<Rightarrow> Some (Inl e) | Inr x \<Rightarrow> f x)"

lemma bind_ret_simps [simp]:
  "bind_ret None f = None" "bind_ret (Some (Inl e)) f = Some (Inl e)" "bind_ret (Some (Inr x)) f = f x"
  "bind_ret (ret x) f = f x" "bind_ret (fault e) f = Some (Inl e)"
  by (simp_all add: bind_ret_def ret_def fault_def)

lemma bind_ret_Inr_iff: "bind_ret m f = Some (Inr y) \<longleftrightarrow> (\<exists>x. m = Some (Inr x) \<and> f x = Some (Inr y))"
proof (cases m)
  case (Some r)
  then show ?thesis by (cases r) simp_all
qed simp

lemma ret_iff [simp]: "ret x = Some (Inr y) \<longleftrightarrow> x = y" "fault e \<noteq> Some (Inr y)"
  by (simp_all add: ret_def fault_def)

lemma bind_ret_mono [partial_function_mono]:
  assumes "mono_option B" "\<And>y. mono_option (\<lambda>f. C y f)"
  shows "mono_option (\<lambda>f. bind_ret (B f) (\<lambda>y. C y f))"
  unfolding bind_ret_def
proof (rule bind_mono [OF assms(1)])
  fix r
  show "mono_option (\<lambda>f. case r of Inl e \<Rightarrow> Some (Inl e) | Inr x \<Rightarrow> C x f)"
    using assms(2) by (cases r) (simp_all add: monotone_def flat_ord_def)
qed

fun fold_ret :: "('x \<Rightarrow> 's \<Rightarrow> 's ret) \<Rightarrow> 'x list \<Rightarrow> 's \<Rightarrow> 's ret" where
  "fold_ret f [] s = ret s"
| "fold_ret f (x # xs) s = bind_ret (f x s) (fold_ret f xs)"

section \<open>State\<close>

datatype tree_kind = ParseTree | DecTree | EncTree | PayTree

text \<open>The tee that a bin is linked to: the one behind the sink, or the output tee of another bin.\<close>

datatype tree_feed = Input_tee | Output_tee nat

text \<open>
  \<open>tb_input_caps\<close>: the caps that its output tee saw; \<open>tb_probe\<close>: the probe for the caps of the
  parser is still there.
\<close>

record 'c tree_bin =
  tb_kind :: tree_kind
  tb_input_caps :: "'c option"
  tb_feed :: "tree_feed option"
  tb_probe :: bool
  tb_enc :: "enc_tree_bin option"

record agnostic_pad =
  ap_started :: bool
  ap_linked :: bool
  ap_target :: "nat option" \<comment> \<open>the bin whose tee it gets its media from\<close>
  ap_chain :: "string list" \<comment> \<open>the elements between the tee and the pad\<close>

datatype transcoding_state = TRANSCODING_STATE_NONE | TRANSCODING_STATE_ACTIVE | TRANSCODING_STATE_INACTIVE

text \<open>
  \<open>ag_children\<close>: the tree bins that the bin holds; \<open>ag_bins\<close>: the table of those in use, the last
  inserted first; \<open>ag_signals\<close>: what the signal of transcoding told, the last first.
\<close>

record 'c agnostic_bin =
  ag_children :: "(nat, 'c tree_bin) hash_table"
  ag_next :: nat
  ag_bins :: "nat list"
  ag_input_caps :: "'c option"
  ag_input_bin :: "nat option"
  ag_input_bin_src_caps :: "'c option"
  ag_started :: bool
  ag_pads :: "(string, agnostic_pad) hash_table"
  ag_pad_count :: u32
  ag_target :: int
  ag_min :: int
  ag_max :: int
  ag_unlimited :: bool
  ag_transcoding :: transcoding_state
  ag_signals :: "(bool \<times> media_kind) list"
  ag_drops :: "string list" \<comment> \<open>the pads told to drop until a key frame, the last first\<close>
  ag_gap_probes :: nat \<comment> \<open>how often the sink was told to monitor gaps\<close>

text \<open>
  What GStreamer answers: about caps (\<open>strip\<close> removes the fields that may change, such as the
  width), about the factories, about the pads of the bin and their peers, and the caps that the
  output tee of a bin allows.
\<close>

record 'c agnostic_env =
  ae_can_intersect :: "'c \<Rightarrow> 'c \<Rightarrow> bool"
  ae_intersect :: "'c \<Rightarrow> 'c \<Rightarrow> 'c"
  ae_is_any :: "'c \<Rightarrow> bool"
  ae_is_empty :: "'c \<Rightarrow> bool"
  ae_size :: "'c \<Rightarrow> nat"
  ae_is_raw :: "'c \<Rightarrow> bool" \<comment> \<open>of caps that are neither any nor empty\<close>
  ae_is_rtp :: "'c \<Rightarrow> bool"
  ae_is_audio :: "'c \<Rightarrow> bool"
  ae_is_video :: "'c \<Rightarrow> bool"
  ae_raw_audio :: 'c
  ae_raw_video :: 'c
  ae_strip :: "'c \<Rightarrow> 'c"
  ae_decoder :: "'c \<Rightarrow> 'c \<Rightarrow> factory option"
  ae_gives_caps :: "'c \<Rightarrow> factory \<Rightarrow> bool"
  ae_encoders :: "factory list"
  ae_create :: "factory \<Rightarrow> string \<times> u32"
  ae_keep :: "encoder_type \<Rightarrow> u32 \<Rightarrow> u32"
  ae_pays_caps :: "'c \<Rightarrow> bool \<Rightarrow> factory \<Rightarrow> bool"
  ae_payloaders :: "factory list"
  ae_pay_input :: "factory \<Rightarrow> 'c"
  ae_allowed :: "nat \<Rightarrow> 'c option"
  ae_peer_caps :: "string \<Rightarrow> 'c option"
  ae_current_caps :: "string \<Rightarrow> 'c option"
  ae_peer_accepts :: "string \<Rightarrow> 'c \<Rightarrow> bool"

definition DEFAULT_TARGET_ENCODER_BITRATE :: int where "DEFAULT_TARGET_ENCODER_BITRATE = 300000"

definition kms_agnostic_bin2_init :: "'c agnostic_bin" where
  "kms_agnostic_bin2_init = \<lparr>ag_children = [], ag_next = 0, ag_bins = [], ag_input_caps = None, ag_input_bin = None,
     ag_input_bin_src_caps = None, ag_started = False, ag_pads = [], ag_pad_count = 0,
     ag_target = DEFAULT_TARGET_ENCODER_BITRATE, ag_min = 0, ag_max = G_MAXINT, ag_unlimited = True,
     ag_transcoding = TRANSCODING_STATE_NONE, ag_signals = [], ag_drops = [], ag_gap_probes = 0\<rparr>"

section \<open>Finding a bin\<close>

definition child :: "'c agnostic_bin \<Rightarrow> nat \<Rightarrow> 'c tree_bin" where
  "child a b = the (map_of (ag_children a) b)"

definition check_bin :: "'c agnostic_env \<Rightarrow> 'c agnostic_bin \<Rightarrow> nat \<Rightarrow> 'c \<Rightarrow> 'c option" where
  "check_bin env a b caps =
     (case (case tb_input_caps (child a b) of Some c \<Rightarrow> Some c | None \<Rightarrow> ae_allowed env b) of
        Some current_caps \<Rightarrow> (if ae_size env current_caps > 0 \<and> ae_can_intersect env caps current_caps
          then Some (ae_intersect env caps current_caps) else None)
      | None \<Rightarrow> None)"

fun first_bin :: "'c agnostic_env \<Rightarrow> 'c agnostic_bin \<Rightarrow> nat list \<Rightarrow> 'c \<Rightarrow> nat option \<times> 'c" where
  "first_bin env a [] caps = (None, caps)"
| "first_bin env a (b # bs) caps =
     (if Some b = ag_input_bin a then first_bin env a bs caps
      else case check_bin env a b caps of
        Some c \<Rightarrow> (Some b, c)
      | None \<Rightarrow> first_bin env a bs caps)"

text \<open>The caps are narrowed to what the bin that was found has in common with them.\<close>

definition kms_agnostic_bin2_find_bin_for_caps ::
    "'c agnostic_env \<Rightarrow> 'c agnostic_bin \<Rightarrow> 'c \<Rightarrow> (nat option \<times> 'c) ret" where
  "kms_agnostic_bin2_find_bin_for_caps env a caps =
     (if ae_is_any env caps \<or> ae_is_empty env caps then ret (ag_input_bin a, caps)
      else case ag_input_bin a of
        None \<Rightarrow> fault Null_dereference
      | Some ib \<Rightarrow> (case check_bin env a ib caps of
            Some c \<Rightarrow> ret (Some ib, c)
          | None \<Rightarrow> ret (first_bin env a (ag_bins a) caps)))"

section \<open>Making bins\<close>

definition kms_agnostic_bin2_insert_bin :: "nat \<Rightarrow> 'c agnostic_bin \<Rightarrow> 'c agnostic_bin" where
  "kms_agnostic_bin2_insert_bin b a = (if b \<in> set (ag_bins a) then a else a\<lparr>ag_bins := b # ag_bins a\<rparr>)"

text \<open>A new tree bin as a child of the bin.\<close>

definition gst_bin_add :: "'c tree_bin \<Rightarrow> 'c agnostic_bin \<Rightarrow> 'c agnostic_bin \<times> nat" where
  "gst_bin_add tb a = (a\<lparr>ag_children := AList.update (ag_next a) tb (ag_children a), ag_next := Suc (ag_next a)\<rparr>, ag_next a)"

definition kms_agnostic_bin2_get_raw_caps :: "'c agnostic_env \<Rightarrow> 'c \<Rightarrow> 'c option" where
  "kms_agnostic_bin2_get_raw_caps env caps =
     (if ae_is_audio env caps then Some (ae_raw_audio env)
      else if ae_is_video env caps then Some (ae_raw_video env) else None)"

text \<open>Only when there is an input bin are there caps of its source.\<close>

definition kms_agnostic_bin2_create_dec_bin ::
    "'c agnostic_env \<Rightarrow> 'c agnostic_bin \<Rightarrow> 'c \<Rightarrow> 'c agnostic_bin \<times> nat option" where
  "kms_agnostic_bin2_create_dec_bin env a raw_caps = (case ag_input_bin_src_caps a of
     None \<Rightarrow> (a, None)
   | Some caps \<Rightarrow> (case ae_decoder env caps raw_caps of
       None \<Rightarrow> (a, None)
     | Some f \<Rightarrow> (let (a1, b) = gst_bin_add \<lparr>tb_kind = DecTree, tb_input_caps = None,
           tb_feed = map_option Output_tee (ag_input_bin a), tb_probe = False, tb_enc = None\<rparr> a in (a1, Some b))))"

definition kms_agnostic_bin2_get_or_create_dec_bin ::
    "'c agnostic_env \<Rightarrow> 'c agnostic_bin \<Rightarrow> 'c \<Rightarrow> ('c agnostic_bin \<times> nat option) ret" where
  "kms_agnostic_bin2_get_or_create_dec_bin env a caps =
     (if (case ag_input_caps a of Some c \<Rightarrow> ae_is_raw env c | None \<Rightarrow> False) \<or> ae_is_empty env caps \<or> ae_is_any env caps
      then ret (a, ag_input_bin a)
      else case kms_agnostic_bin2_get_raw_caps env caps of
        None \<Rightarrow> ret (a, None)
      | Some raw_caps \<Rightarrow> bind_ret (kms_agnostic_bin2_find_bin_for_caps env a raw_caps) (\<lambda>(dec_bin, raw).
          case dec_bin of
            Some b \<Rightarrow> ret (a, Some b)
          | None \<Rightarrow> (case kms_agnostic_bin2_create_dec_bin env a raw of
                (a1, Some b) \<Rightarrow> ret (kms_agnostic_bin2_insert_bin b a1, Some b)
              | (a1, None) \<Rightarrow> ret (a1, None))))"

definition create_bin_no_rtp :: "'c agnostic_env \<Rightarrow> 'c agnostic_bin \<Rightarrow> 'c \<Rightarrow> ('c agnostic_bin \<times> nat option) ret" where
  "create_bin_no_rtp env a caps =
     bind_ret (kms_agnostic_bin2_get_or_create_dec_bin env a caps) (\<lambda>(a1, dec_bin).
       case dec_bin of
         None \<Rightarrow> ret (a1, None)
       | Some d \<Rightarrow>
           if ae_is_raw env caps then ret (a1, Some d)
           else bind_ret (Some (kms_enc_tree_bin_new (ae_keep env) (ae_gives_caps env caps) (ae_encoders env) (ae_create env)
                  (ag_target a1) (ag_min a1) (ag_max a1))) (\<lambda>enc.
             case enc of
               None \<Rightarrow> ret (a1, None)
             | Some e \<Rightarrow> (let (a2, b) = gst_bin_add \<lparr>tb_kind = EncTree, tb_input_caps = None,
                    tb_feed = Some (Output_tee d), tb_probe = False, tb_enc = Some e\<rparr> a1 in
                 ret (kms_agnostic_bin2_insert_bin b a2, Some b))))"

definition media_type_of :: "'c agnostic_env \<Rightarrow> 'c \<Rightarrow> media_kind" where
  "media_type_of env caps = (if ae_is_audio env caps then Audio else Video)"

definition signal_transcoding :: "bool \<Rightarrow> media_kind \<Rightarrow> 'c agnostic_bin \<Rightarrow> 'c agnostic_bin" where
  "signal_transcoding created type a =
     (if created then
        (if ag_transcoding a \<noteq> TRANSCODING_STATE_ACTIVE
         then a\<lparr>ag_transcoding := TRANSCODING_STATE_ACTIVE, ag_signals := (True, type) # ag_signals a\<rparr> else a)
      else
        (if ag_transcoding a = TRANSCODING_STATE_NONE
         then a\<lparr>ag_transcoding := TRANSCODING_STATE_INACTIVE, ag_signals := (False, type) # ag_signals a\<rparr> else a))"

definition set_feed :: "nat \<Rightarrow> nat \<Rightarrow> 'c agnostic_bin \<Rightarrow> 'c agnostic_bin" where
  "set_feed b from a = a\<lparr>ag_children := AList.map_entry b (\<lambda>tb. tb\<lparr>tb_feed := Some (Output_tee from)\<rparr>) (ag_children a)\<rparr>"

text \<open>
  A payloader needs a bin for what it takes in, which may be a payloader again. Whether there is
  such a bin is not checked.
\<close>

definition new_rtp_pay_bin :: "'c agnostic_env \<Rightarrow> 'c agnostic_bin \<Rightarrow> 'c \<Rightarrow> ('c agnostic_bin \<times> (nat \<times> 'c) option) ret" where
  "new_rtp_pay_bin env a caps =
     bind_ret (Some (search_payloader (ae_pays_caps env caps) (ae_payloaders env))) (\<lambda>pay. case pay of
       None \<Rightarrow> ret (a, None)
     | Some f \<Rightarrow> (let (a1, p) = gst_bin_add \<lparr>tb_kind = PayTree, tb_input_caps = None, tb_feed = None,
           tb_probe = False, tb_enc = None\<rparr> a in ret (a1, Some (p, ae_pay_input env f))))"

definition link_rtp_pay_bin :: "nat \<Rightarrow> nat option \<Rightarrow> 'c agnostic_bin \<Rightarrow> 'c agnostic_bin ret" where
  "link_rtp_pay_bin p enc_bin a = (let a1 = kms_agnostic_bin2_insert_bin p a in
     case enc_bin of None \<Rightarrow> fault Null_dereference | Some e \<Rightarrow> ret (set_feed p e a1))"

partial_function (option) kms_agnostic_bin2_find_or_create_bin_for_caps ::
    "'c agnostic_env \<Rightarrow> 'c agnostic_bin \<Rightarrow> 'c \<Rightarrow> ('c agnostic_bin \<times> nat option \<times> 'c) ret" where
  "kms_agnostic_bin2_find_or_create_bin_for_caps env a caps =
     bind_ret (kms_agnostic_bin2_find_bin_for_caps env a caps) (\<lambda>(bin, caps1).
       case bin of
         Some b \<Rightarrow> ret (signal_transcoding False (media_type_of env caps1) a, Some b, caps1)
       | None \<Rightarrow> bind_ret
           (if ae_is_rtp env caps1 then
              bind_ret (new_rtp_pay_bin env a caps1) (\<lambda>(a1, pay).
                case pay of
                  None \<Rightarrow> ret (a1, None)
                | Some (p, input_caps) \<Rightarrow>
                    bind_ret (kms_agnostic_bin2_find_or_create_bin_for_caps env a1 input_caps) (\<lambda>(a2, enc_bin, _).
                      bind_ret (link_rtp_pay_bin p enc_bin a2) (\<lambda>a3. ret (a3, Some p))))
            else create_bin_no_rtp env a caps1)
           (\<lambda>(a1, b). ret (signal_transcoding True (media_type_of env caps1) a1, b, caps1)))"


section \<open>Source pads\<close>

definition with_pad :: "string \<Rightarrow> (agnostic_pad \<Rightarrow> agnostic_pad) \<Rightarrow> 'c agnostic_bin \<Rightarrow> 'c agnostic_bin" where
  "with_pad n f a = a\<lparr>ag_pads := AList.map_entry n f (ag_pads a)\<rparr>"

definition remove_target_pad :: "string \<Rightarrow> 'c agnostic_bin \<Rightarrow> 'c agnostic_bin" where
  "remove_target_pad n = with_pad n (\<lambda>p. p\<lparr>ap_target := None, ap_chain := []\<rparr>)"

definition kms_utils_create_convert_for_caps :: "'c agnostic_env \<Rightarrow> 'c \<Rightarrow> string" where
  "kms_utils_create_convert_for_caps env caps = (if ae_is_audio env caps then ''audioconvert'' else ''videoconvert'')"

definition kms_utils_create_mediator_element :: "'c agnostic_env \<Rightarrow> 'c \<Rightarrow> string" where
  "kms_utils_create_mediator_element env caps = (if ae_is_audio env caps then ''audioresample'' else ''videoscale'')"

definition kms_utils_create_rate_for_caps :: "'c agnostic_env \<Rightarrow> 'c \<Rightarrow> string option" where
  "kms_utils_create_rate_for_caps env caps = (if ae_is_video env caps then Some ''videorate'' else None)"

definition kms_agnostic_bin2_link_to_tee :: "'c agnostic_env \<Rightarrow> string \<Rightarrow> nat \<Rightarrow> 'c \<Rightarrow> 'c agnostic_bin \<Rightarrow> 'c agnostic_bin" where
  "kms_agnostic_bin2_link_to_tee env n tee caps =
     (let elements =
        (if \<not> (ae_is_any env caps \<or> ae_is_empty env caps) \<and> ae_is_raw env caps
         then (case kms_utils_create_rate_for_caps env caps of Some rate \<Rightarrow> [''queue'', rate] | None \<Rightarrow> [''queue''])
           @ [kms_utils_create_mediator_element env caps, kms_utils_create_convert_for_caps env caps]
         else [''queue''])
      in with_pad n (\<lambda>p. p\<lparr>ap_target := Some tee, ap_chain := elements\<rparr>))"

definition kms_agnostic_bin2_link_pad :: "'c agnostic_env \<Rightarrow> string \<Rightarrow> 'c agnostic_bin \<Rightarrow> 'c agnostic_bin ret" where
  "kms_agnostic_bin2_link_pad env n a = (case ae_peer_caps env n of
     None \<Rightarrow> ret a
   | Some peer_caps \<Rightarrow> bind_ret (kms_agnostic_bin2_find_or_create_bin_for_caps env a peer_caps) (\<lambda>(a1, bin, caps).
       case bin of
         None \<Rightarrow> ret a1
       | Some b \<Rightarrow> (let a2 = (if \<not> ae_is_rtp env caps then a1\<lparr>ag_drops := n # ag_drops a1\<rparr> else a1)
           in ret (kms_agnostic_bin2_link_to_tee env n b caps a2))))"

text \<open>Whether the target it has is still good: the peer takes the caps the pad has.\<close>

definition keeps_target :: "'c agnostic_env \<Rightarrow> string \<Rightarrow> bool" where
  "keeps_target env n \<longleftrightarrow> (case ae_current_caps env n of Some c \<Rightarrow> ae_peer_accepts env n c | None \<Rightarrow> False)"

definition kms_agnostic_bin2_process_pad ::
    "'c agnostic_env \<Rightarrow> string \<Rightarrow> 'c agnostic_bin \<Rightarrow> ('c agnostic_bin \<times> bool) ret" where
  "kms_agnostic_bin2_process_pad env n a = (case map_of (ag_pads a) n of
     None \<Rightarrow> ret (a, False)
   | Some p \<Rightarrow>
       if \<not> ap_started p \<or> \<not> ag_started a then ret (a, False)
       else if \<not> ap_linked p then ret (a, True)
       else if ap_target p \<noteq> None \<and> keeps_target env n then ret (a, False)
       else let a1 = (if ap_target p \<noteq> None \<and> ae_current_caps env n \<noteq> None then remove_target_pad n a else a) in
         bind_ret (kms_agnostic_bin2_link_pad env n a1) (\<lambda>a2. ret (a2, True)))"

definition drop_result :: "('s \<times> 'a) ret \<Rightarrow> 's ret" where
  "drop_result m = bind_ret m (\<lambda>(s, _). ret s)"

text \<open>The peer does not accept the caps of a query that passes the pad.\<close>

definition proxy_src_pad_query_function :: "'c agnostic_env \<Rightarrow> string \<Rightarrow> 'c agnostic_bin \<Rightarrow> 'c agnostic_bin ret" where
  "proxy_src_pad_query_function env n a =
     drop_result (kms_agnostic_bin2_process_pad env n (remove_target_pad n a))"

definition kms_agnostic_bin2_src_reconfigure_probe :: "'c agnostic_env \<Rightarrow> string \<Rightarrow> 'c agnostic_bin \<Rightarrow> 'c agnostic_bin ret" where
  "kms_agnostic_bin2_src_reconfigure_probe env n a =
     drop_result (kms_agnostic_bin2_process_pad env n (with_pad n (\<lambda>p. p\<lparr>ap_started := True\<rparr>) a))"

text \<open>With what GStreamer does before: the pad has no peer any more.\<close>

definition kms_agnostic_bin2_src_unlinked :: "string \<Rightarrow> 'c agnostic_bin \<Rightarrow> 'c agnostic_bin" where
  "kms_agnostic_bin2_src_unlinked n a =
     remove_target_pad n (with_pad n (\<lambda>p. p\<lparr>ap_started := False, ap_linked := False\<rparr>) a)"

text \<open>The name is taken by \<open>src_%d\<close>; a name that is there already is refused.\<close>

definition kms_agnostic_bin2_request_new_pad :: "'c agnostic_bin \<Rightarrow> 'c agnostic_bin \<times> string option" where
  "kms_agnostic_bin2_request_new_pad a =
     (let n = ''src_'' @ print_gint (ag_pad_count a); a1 = a\<lparr>ag_pad_count := ag_pad_count a + 1\<rparr> in
      if map_of (ag_pads a) n = None
      then (a1\<lparr>ag_pads := AList.update n \<lparr>ap_started = False, ap_linked = False, ap_target = None, ap_chain = []\<rparr> (ag_pads a)\<rparr>, Some n)
      else (a1, None))"

definition kms_agnostic_bin2_release_pad :: "string \<Rightarrow> 'c agnostic_bin \<Rightarrow> 'c agnostic_bin" where
  "kms_agnostic_bin2_release_pad n a = a\<lparr>ag_pads := AList.delete n (ag_pads a)\<rparr>"

section \<open>The input\<close>

definition add_linked_pads :: "'c agnostic_env \<Rightarrow> string \<Rightarrow> 'c agnostic_bin \<Rightarrow> 'c agnostic_bin ret" where
  "add_linked_pads env n a =
     (if case map_of (ag_pads a) n of Some p \<Rightarrow> ap_linked p | None \<Rightarrow> False
      then drop_result (kms_agnostic_bin2_process_pad env n (remove_target_pad n a))
      else ret a)"

text \<open>On the caps of the parser of \<open>b\<close>; the probe removes itself.\<close>

definition input_bin_src_caps_probe :: "'c agnostic_env \<Rightarrow> nat \<Rightarrow> 'c \<Rightarrow> 'c agnostic_bin \<Rightarrow> 'c agnostic_bin ret" where
  "input_bin_src_caps_probe env b caps a =
     (let a1 = a\<lparr>ag_children := AList.map_entry b (\<lambda>tb. tb\<lparr>tb_probe := False\<rparr>) (ag_children a),
            ag_started := True, ag_input_bin_src_caps := Some caps\<rparr>;
          a2 = kms_agnostic_bin2_insert_bin b a1
      in fold_ret (add_linked_pads env) (map fst (ag_pads a2)) a2)"

definition kms_tree_bin_unlink_input_element_from_tee :: "nat \<Rightarrow> 'c agnostic_bin \<Rightarrow> 'c agnostic_bin" where
  "kms_tree_bin_unlink_input_element_from_tee b a =
     a\<lparr>ag_children := AList.map_entry b (\<lambda>tb. tb\<lparr>tb_feed := None\<rparr>) (ag_children a)\<rparr>"

definition remove_bin :: "nat \<Rightarrow> 'c agnostic_bin \<Rightarrow> 'c agnostic_bin" where
  "remove_bin b a = a\<lparr>ag_children := AList.delete b (ag_children a)\<rparr>"

definition kms_agnostic_bin2_configure_input :: "'c agnostic_bin \<Rightarrow> 'c agnostic_bin" where
  "kms_agnostic_bin2_configure_input a =
     (let a1 = (case ag_input_bin a of Some i \<Rightarrow> kms_tree_bin_unlink_input_element_from_tee i a | None \<Rightarrow> a);
          (a2, b) = gst_bin_add \<lparr>tb_kind = ParseTree, tb_input_caps = None, tb_feed = Some Input_tee, tb_probe = True, tb_enc = None\<rparr> a1;
          a3 = a2\<lparr>ag_input_bin := Some b, ag_started := False\<rparr>;
          a4 = fold remove_bin (ag_bins a3) a3
      in a4\<lparr>ag_bins := []\<rparr>)"

definition kms_agnostic_bin2_sink_caps_probe :: "'c agnostic_env \<Rightarrow> 'c option \<Rightarrow> 'c agnostic_bin \<Rightarrow> 'c agnostic_bin" where
  "kms_agnostic_bin2_sink_caps_probe env new_caps a = (case new_caps of
     None \<Rightarrow> a
   | Some caps \<Rightarrow>
       if ae_size env caps = 0 then a
       else let a1 = a\<lparr>ag_input_caps := Some caps\<rparr>;
         a2 = (case ag_input_caps a of
             None \<Rightarrow> kms_agnostic_bin2_configure_input a1
           | Some c \<Rightarrow> (let current_caps = ae_strip env c in
               if \<not> ae_can_intersect env caps current_caps \<and> \<not> ae_is_raw env current_caps \<and> \<not> ae_is_raw env caps
               then kms_agnostic_bin2_configure_input a1 else a1))
         in if ae_is_video env caps then a2\<lparr>ag_gap_probes := Suc (ag_gap_probes a2)\<rparr> else a2)"

text \<open>The caps that the output tee of a bin is told, or only asked about.\<close>

definition kms_tree_bin_set_input_caps :: "nat \<Rightarrow> 'c \<Rightarrow> 'c agnostic_bin \<Rightarrow> 'c agnostic_bin" where
  "kms_tree_bin_set_input_caps b caps a =
     a\<lparr>ag_children := AList.map_entry b (\<lambda>tb. tb\<lparr>tb_input_caps := Some caps\<rparr>) (ag_children a)\<rparr>"

datatype flow_return = GST_FLOW_OK | GST_FLOW_FLUSHING | GST_FLOW_ERROR | GST_FLOW_NOT_NEGOTIATED
  | GST_FLOW_NOT_LINKED | GST_FLOW_STATUS nat

text \<open>After an error there is a new sink element behind the input tee, and a new input bin.\<close>

definition check_ret_error :: "flow_return \<Rightarrow> 'c agnostic_bin \<Rightarrow> 'c agnostic_bin \<times> flow_return" where
  "check_ret_error r a = (case r of
     GST_FLOW_ERROR \<Rightarrow> (kms_agnostic_bin2_configure_input a, GST_FLOW_OK)
   | GST_FLOW_NOT_NEGOTIATED \<Rightarrow> (a, GST_FLOW_OK)
   | GST_FLOW_NOT_LINKED \<Rightarrow> (a, GST_FLOW_OK)
   | _ \<Rightarrow> (a, r))"

section \<open>The bitrates of the encoders\<close>

definition on_encoder :: "nat \<Rightarrow> (enc_tree_bin \<Rightarrow> c_fault + enc_tree_bin) \<Rightarrow> 'c agnostic_bin \<Rightarrow> 'c agnostic_bin ret" where
  "on_encoder b f a = (case Option.bind (map_of (ag_children a) b) tb_enc of
     None \<Rightarrow> ret a
   | Some e \<Rightarrow> bind_ret (Some (f e)) (\<lambda>e1.
       ret (a\<lparr>ag_children := AList.map_entry b (\<lambda>tb. tb\<lparr>tb_enc := Some e1\<rparr>) (ag_children a)\<rparr>)))"

definition kms_agnostic_bin_set_encoders_bitrate :: "'c agnostic_env \<Rightarrow> 'c agnostic_bin \<Rightarrow> 'c agnostic_bin ret" where
  "kms_agnostic_bin_set_encoders_bitrate env a =
     fold_ret (\<lambda>b a. on_encoder b (kms_enc_tree_bin_set_bitrate (ae_keep env) (ag_target a) (ag_min a) (ag_max a)) a) (ag_bins a) a"

datatype bitrate_prop = PROP_TARGET_ENCODER_BITRATE | PROP_MIN_ENCODER_BITRATE | PROP_MAX_ENCODER_BITRATE

definition kms_agnostic_bin2_set_property ::
    "'c agnostic_env \<Rightarrow> bitrate_prop \<Rightarrow> int \<Rightarrow> 'c agnostic_bin \<Rightarrow> 'c agnostic_bin ret" where
  "kms_agnostic_bin2_set_property env property_id v a = (case property_id of
     PROP_TARGET_ENCODER_BITRATE \<Rightarrow> kms_agnostic_bin_set_encoders_bitrate env (a\<lparr>ag_target := v\<rparr>)
   | PROP_MIN_ENCODER_BITRATE \<Rightarrow> kms_agnostic_bin_set_encoders_bitrate env (a\<lparr>ag_min := v\<rparr>)
   | PROP_MAX_ENCODER_BITRATE \<Rightarrow> kms_agnostic_bin_set_encoders_bitrate env
       (a\<lparr>ag_max := (if v = 0 then G_MAXINT else v), ag_unlimited := (v = 0)\<rparr>))"

definition kms_agnostic_bin2_get_property :: "bitrate_prop \<Rightarrow> 'c agnostic_bin \<Rightarrow> int" where
  "kms_agnostic_bin2_get_property property_id a = (case property_id of
     PROP_TARGET_ENCODER_BITRATE \<Rightarrow> ag_target a
   | PROP_MIN_ENCODER_BITRATE \<Rightarrow> ag_min a
   | PROP_MAX_ENCODER_BITRATE \<Rightarrow> (if ag_unlimited a then 0 else ag_max a))"


section \<open>Runs\<close>

text \<open>
  What can happen to the bin, in any order. The parser whose caps are seen is that of the present
  input bin: an input bin that was unlinked from the tee gets nothing any more.
\<close>

datatype 'c agnostic_call =
    Request_src | Release_src string | Link_src string | Unlink_src string
  | Reconfigure "'c agnostic_env" string
  | Caps_refused "'c agnostic_env" string
  | Sink_caps "'c agnostic_env" "'c option"
  | Parser_caps "'c agnostic_env" 'c
  | Tee_caps nat 'c
  | Flow flow_return
  | Set_property "'c agnostic_env" bitrate_prop int
  | Remb_at "'c agnostic_env" nat u32
  | Tags_at "'c agnostic_env" nat "u32 option"

fun agnostic_step :: "'c agnostic_call \<Rightarrow> 'c agnostic_bin \<Rightarrow> 'c agnostic_bin ret" where
  "agnostic_step Request_src a = ret (fst (kms_agnostic_bin2_request_new_pad a))"
| "agnostic_step (Release_src n) a = ret (kms_agnostic_bin2_release_pad n a)"
| "agnostic_step (Link_src n) a = ret (with_pad n (\<lambda>p. p\<lparr>ap_linked := True\<rparr>) a)"
| "agnostic_step (Unlink_src n) a = ret (kms_agnostic_bin2_src_unlinked n a)"
| "agnostic_step (Reconfigure env n) a = kms_agnostic_bin2_src_reconfigure_probe env n a"
| "agnostic_step (Caps_refused env n) a = proxy_src_pad_query_function env n a"
| "agnostic_step (Sink_caps env caps) a = ret (kms_agnostic_bin2_sink_caps_probe env caps a)"
| "agnostic_step (Parser_caps env caps) a = (case ag_input_bin a of
     Some b \<Rightarrow> (if tb_probe (child a b) then input_bin_src_caps_probe env b caps a else ret a)
   | None \<Rightarrow> ret a)"
| "agnostic_step (Tee_caps b caps) a = ret (kms_tree_bin_set_input_caps b caps a)"
| "agnostic_step (Flow r) a = ret (fst (check_ret_error r a))"
| "agnostic_step (Set_property env property_id v) a = kms_agnostic_bin2_set_property env property_id v a"
| "agnostic_step (Remb_at env b bitrate) a = on_encoder b (bitrate_callback (ae_keep env) bitrate) a"
| "agnostic_step (Tags_at env b tag) a = on_encoder b (tag_event_probe (ae_keep env) tag) a"

definition agnostic_run :: "'c agnostic_call list \<Rightarrow> 'c agnostic_bin ret" where
  "agnostic_run calls = foldl (\<lambda>m c. bind_ret m (agnostic_step c)) (ret kms_agnostic_bin2_init) calls"

text \<open>The bins that media reaches: from the tee behind the sink, through other bins.\<close>

inductive fed :: "(nat \<Rightarrow> tree_feed option) \<Rightarrow> nat \<Rightarrow> bool" for f where
  fed_input: "f b = Some Input_tee \<Longrightarrow> fed f b"
| fed_bin: "f b = Some (Output_tee d) \<Longrightarrow> fed f d \<Longrightarrow> fed f b"

inductive_cases fed_elim: "fed f b"

lemma fed_unfold: "fed f b \<longleftrightarrow> (case f b of None \<Rightarrow> False | Some Input_tee \<Rightarrow> True | Some (Output_tee d) \<Rightarrow> fed f d)"
  by (auto intro: fed.intros elim: fed_elim split: option.split tree_feed.split)

lemma fed_mono: "fed f b \<Longrightarrow> (\<And>x. fed f x \<Longrightarrow> f' x = f x) \<Longrightarrow> fed f' b"
proof (induction rule: fed.induct)
  case (fed_input b)
  then show ?case by (metis fed.fed_input)
next
  case (fed_bin b d)
  then show ?case by (metis fed.fed_bin)
qed

definition feed_of :: "'c agnostic_bin \<Rightarrow> nat \<Rightarrow> tree_feed option" where
  "feed_of a b = Option.bind (map_of (ag_children a) b) tb_feed"

section \<open>The invariant\<close>

definition limited :: "'c agnostic_bin \<Rightarrow> enc_tree_bin \<Rightarrow> bool" where
  "limited a e \<longleftrightarrow> et_min e = ag_min a \<and> et_max e = ag_max a \<and> et_current e = KMS_ENC_TREE_BIN_LIMIT e (et_current e)"

text \<open>The tree of bins, and that a target needs a peer.\<close>

definition tree_ok :: "'c agnostic_bin \<Rightarrow> bool" where
  "tree_ok a \<longleftrightarrow> hash_ok (ag_children a) \<and> hash_ok (ag_pads a) \<and>
     (\<forall>b \<in> dom (map_of (ag_children a)). b < ag_next a) \<and>
     set (ag_bins a) \<subseteq> dom (map_of (ag_children a)) \<and>
     (\<forall>b \<in> set (ag_bins a). fed (feed_of a) b) \<and>
     (\<forall>i. ag_input_bin a = Some i \<longrightarrow> feed_of a i = Some Input_tee) \<and>
     (if ag_started a then \<exists>i \<in> set (ag_bins a). ag_input_bin a = Some i else ag_bins a = []) \<and>
     (\<forall>n p. map_of (ag_pads a) n = Some p \<longrightarrow> ap_target p \<noteq> None \<longrightarrow> ap_linked p) \<and>
     (\<forall>b tb e. map_of (ag_children a) b = Some tb \<longrightarrow> tb_enc tb = Some e \<longrightarrow> b \<in> set (ag_bins a))"

definition encoders_ok :: "'c agnostic_bin \<Rightarrow> bool" where
  "encoders_ok a \<longleftrightarrow> (\<forall>b tb e. map_of (ag_children a) b = Some tb \<longrightarrow> tb_enc tb = Some e \<longrightarrow> limited a e)"

definition target_ok :: "'c agnostic_bin \<Rightarrow> string \<Rightarrow> bool" where
  "target_ok a n \<longleftrightarrow> (\<forall>p b. map_of (ag_pads a) n = Some p \<longrightarrow> ap_target p = Some b \<longrightarrow> b \<in> set (ag_bins a))"

definition signals_ok :: "'c agnostic_bin \<Rightarrow> bool" where
  "signals_ok a \<longleftrightarrow> (case ag_transcoding a of
     TRANSCODING_STATE_NONE \<Rightarrow> map fst (ag_signals a) = []
   | TRANSCODING_STATE_INACTIVE \<Rightarrow> map fst (ag_signals a) = [False]
   | TRANSCODING_STATE_ACTIVE \<Rightarrow> map fst (ag_signals a) \<in> {[True], [True, False]})"

definition told :: "'c agnostic_bin \<Rightarrow> bool" where
  "told a \<longleftrightarrow> ag_transcoding a = TRANSCODING_STATE_ACTIVE \<or> (\<forall>b \<in> set (ag_bins a). ag_input_bin a = Some b)"

definition agnostic_ok :: "'c agnostic_bin \<Rightarrow> bool" where
  "agnostic_ok a \<longleftrightarrow> tree_ok a \<and> encoders_ok a \<and> (ag_started a \<longrightarrow> (\<forall>n. target_ok a n)) \<and> signals_ok a \<and> told a"

text \<open>What making bins leaves alone.\<close>

definition grown :: "'c agnostic_bin \<Rightarrow> 'c agnostic_bin \<Rightarrow> bool" where
  "grown a a' \<longleftrightarrow> set (ag_bins a) \<subseteq> set (ag_bins a') \<and> ag_pads a' = ag_pads a \<and> ag_started a' = ag_started a \<and>
     ag_input_bin a' = ag_input_bin a \<and> ag_target a' = ag_target a \<and> ag_min a' = ag_min a \<and> ag_max a' = ag_max a \<and>
     ag_next a \<le> ag_next a' \<and>
     (\<forall>b \<in> dom (map_of (ag_children a)). map_of (ag_children a') b = map_of (ag_children a) b)"

lemma grown_refl [simp]: "grown a a"
  by (simp add: grown_def)

lemma grown_trans: "grown a b \<Longrightarrow> grown b c \<Longrightarrow> grown a c"
  unfolding grown_def by (auto simp: domIff)

lemma grown_feed: "grown a a' \<Longrightarrow> b \<in> dom (map_of (ag_children a)) \<Longrightarrow> feed_of a' b = feed_of a b"
  by (simp add: grown_def feed_of_def)

lemma fed_child: "fed (feed_of a) b \<Longrightarrow> b \<in> dom (map_of (ag_children a))"
  by (erule fed_elim) (auto simp: feed_of_def bind_eq_Some_conv)

lemma grown_fed: "grown a a' \<Longrightarrow> fed (feed_of a) b \<Longrightarrow> fed (feed_of a') b"
  by (erule fed_mono) (rule grown_feed, assumption, erule fed_child)


lemma hash_ok_map_entry [intro]: "hash_ok h \<Longrightarrow> hash_ok (AList.map_entry k f h)"
  by (simp add: hash_ok_def distinct_map_entry)

section \<open>Making bins keeps the invariant\<close>

lemma map_of_next: "tree_ok a \<Longrightarrow> map_of (ag_children a) (ag_next a) = None"
  by (auto simp: tree_ok_def intro: ccontr)

lemma gst_bin_add_grown: "tree_ok a \<Longrightarrow> gst_bin_add tb a = (a', b) \<Longrightarrow> grown a a'"
  using map_of_next [of a] by (auto simp: gst_bin_add_def grown_def)

lemma gst_bin_add_ok:
  assumes "tree_ok a" "gst_bin_add tb a = (a', b)" "tb_enc tb = None"
  shows "tree_ok a'" "map_of (ag_children a') b = Some tb" "b \<notin> set (ag_bins a)" "ag_bins a' = ag_bins a"
proof -
  note g = gst_bin_add_grown [OF assms(1,2)]
  have a': "a' = a\<lparr>ag_children := AList.update (ag_next a) tb (ag_children a), ag_next := Suc (ag_next a)\<rparr>" and b: "b = ag_next a"
    using assms(2) by (auto simp: gst_bin_add_def)
  have n: "map_of (ag_children a) (ag_next a) = None" using map_of_next [OF assms(1)] .
  show "map_of (ag_children a') b = Some tb" "ag_bins a' = ag_bins a" by (simp_all add: a' b)
  show "b \<notin> set (ag_bins a)" using assms(1) n by (auto simp: tree_ok_def b)
  have "\<forall>b \<in> set (ag_bins a'). fed (feed_of a') b" using assms(1) grown_fed [OF g] by (simp add: tree_ok_def a')
  moreover have "\<forall>i. ag_input_bin a' = Some i \<longrightarrow> feed_of a' i = Some Input_tee"
    using assms(1) n by (auto simp: tree_ok_def a' feed_of_def)
  ultimately show "tree_ok a'"
    using assms(1,3) unfolding tree_ok_def by (auto simp: a' less_Suc_eq)
qed

lemma tree_ok_frame:
  assumes "tree_ok a" "ag_children a' = ag_children a" "ag_pads a' = ag_pads a" "ag_bins a' = ag_bins a"
    "ag_next a' = ag_next a" "ag_started a' = ag_started a" "ag_input_bin a' = ag_input_bin a"
  shows "tree_ok a'"
  using assms by (simp add: tree_ok_def feed_of_def [abs_def])

lemma signals_ok_frame:
  "signals_ok a \<Longrightarrow> ag_transcoding a' = ag_transcoding a \<Longrightarrow> ag_signals a' = ag_signals a \<Longrightarrow> signals_ok a'"
  by (cases "ag_transcoding a") (simp_all add: signals_ok_def)

lemma insert_bin_fields [simp]:
  "ag_children (kms_agnostic_bin2_insert_bin b a) = ag_children a" "ag_pads (kms_agnostic_bin2_insert_bin b a) = ag_pads a"
  "ag_next (kms_agnostic_bin2_insert_bin b a) = ag_next a" "ag_started (kms_agnostic_bin2_insert_bin b a) = ag_started a"
  "ag_input_bin (kms_agnostic_bin2_insert_bin b a) = ag_input_bin a" "set (ag_bins (kms_agnostic_bin2_insert_bin b a)) = insert b (set (ag_bins a))"
  "ag_target (kms_agnostic_bin2_insert_bin b a) = ag_target a" "ag_min (kms_agnostic_bin2_insert_bin b a) = ag_min a"
  "ag_max (kms_agnostic_bin2_insert_bin b a) = ag_max a" "ag_transcoding (kms_agnostic_bin2_insert_bin b a) = ag_transcoding a"
  "ag_signals (kms_agnostic_bin2_insert_bin b a) = ag_signals a"
  by (auto simp: kms_agnostic_bin2_insert_bin_def)

lemma feed_of_insert_bin [simp]: "feed_of (kms_agnostic_bin2_insert_bin b a) = feed_of a"
  by (simp add: feed_of_def fun_eq_iff)

lemma insert_bin_ok:
  assumes "tree_ok a" "ag_started a" "fed (feed_of a) b"
  shows "tree_ok (kms_agnostic_bin2_insert_bin b a)"
  using assms fed_child [OF assms(3)] unfolding tree_ok_def by auto

text \<open>A new bin behind one that is in use, put into the table at once.\<close>

lemma add_insert_ok:
  assumes a: "tree_ok a" "ag_started a" and add: "gst_bin_add tb a = (a1, b)"
    and feed: "tb_feed tb = Some (Output_tee d)" "fed (feed_of a) d"
  shows "tree_ok (kms_agnostic_bin2_insert_bin b a1)" "grown a (kms_agnostic_bin2_insert_bin b a1)"
proof -
  note g = gst_bin_add_grown [OF a(1) add]
  show g': "grown a (kms_agnostic_bin2_insert_bin b a1)" using g by (auto simp: grown_def)
  have a1: "a1 = a\<lparr>ag_children := AList.update (ag_next a) tb (ag_children a), ag_next := Suc (ag_next a)\<rparr>" and b: "b = ag_next a"
    using add by (auto simp: gst_bin_add_def)
  have n: "map_of (ag_children a) (ag_next a) = None" using map_of_next [OF a(1)] .
  have "feed_of a1 b = Some (Output_tee d)" using feed(1) by (simp add: a1 b feed_of_def)
  then have fb: "fed (feed_of a1) b" using grown_fed [OF g feed(2)] by (rule fed_bin)
  have "\<forall>b \<in> set (ag_bins a). fed (feed_of a1) b" using a(1) grown_fed [OF g] by (simp add: tree_ok_def)
  moreover have "\<forall>i. ag_input_bin a1 = Some i \<longrightarrow> feed_of a1 i = Some Input_tee"
    using a(1) n by (auto simp: tree_ok_def a1 feed_of_def)
  ultimately show "tree_ok (kms_agnostic_bin2_insert_bin b a1)"
    using a fb unfolding tree_ok_def by (auto simp: a1 b less_Suc_eq)
qed


lemma link_rtp_pay_bin_ok:
  assumes a: "tree_ok a" "ag_started a" and p: "map_of (ag_children a) p = Some tb" "tb_feed tb = None" "tb_enc tb = None"
    and e: "fed (feed_of a) e"
  shows "tree_ok (set_feed p e (kms_agnostic_bin2_insert_bin p a))"
proof -
  let ?a = "set_feed p e (kms_agnostic_bin2_insert_bin p a)"
  have np: "\<not> fed (feed_of a) p" using p by (auto simp: feed_of_def elim: fed_elim)
  have other: "feed_of ?a x = feed_of a x" if "x \<noteq> p" for x
    using that by (simp add: feed_of_def set_feed_def AList.map_of_map_entry)
  have keep: "fed (feed_of ?a) b" if "fed (feed_of a) b" for b
    using that by (rule fed_mono) (metis other np)
  have "feed_of ?a p = Some (Output_tee e)" using p(1) by (simp add: feed_of_def set_feed_def AList.map_of_map_entry)
  then have fp: "fed (feed_of ?a) p" using keep [OF e] by (rule fed_bin)
  have kids: "dom (map_of (ag_children ?a)) = dom (map_of (ag_children a))"
    by (auto simp: set_feed_def AList.map_of_map_entry split: option.splits)
  have enc: "\<exists>tb'. map_of (ag_children a) b = Some tb' \<and> tb_enc tb' = tb_enc t" if "map_of (ag_children ?a) b = Some t" for b t
    using that by (auto simp: set_feed_def AList.map_of_map_entry split: if_splits option.splits)
  have i: "\<forall>i. ag_input_bin ?a = Some i \<longrightarrow> feed_of ?a i = Some Input_tee"
    using a(1) np other by (auto simp: tree_ok_def set_feed_def intro: fed_input) (metis fed_input)
  have fields: "ag_pads ?a = ag_pads a" "ag_next ?a = ag_next a" "set (ag_bins ?a) = insert p (set (ag_bins a))"
    "ag_started ?a" "ag_input_bin ?a = ag_input_bin a" "hash_ok (ag_children ?a)"
    using a by (auto simp: set_feed_def tree_ok_def)
  have "\<forall>b \<in> set (ag_bins ?a). fed (feed_of ?a) b" using a(1) keep fp by (auto simp: fields tree_ok_def)
  moreover have "\<forall>b t e. map_of (ag_children ?a) b = Some t \<longrightarrow> tb_enc t = Some e \<longrightarrow> b \<in> set (ag_bins ?a)"
    using a(1) enc unfolding tree_ok_def fields by (metis insertCI)
  ultimately show ?thesis
    using a p(1) i kids fields unfolding tree_ok_def by auto
qed

definition made :: "'c agnostic_bin \<Rightarrow> 'c agnostic_bin \<Rightarrow> bool" where
  "made a a' \<longleftrightarrow> tree_ok a' \<and> encoders_ok a' \<and> signals_ok a' \<and> grown a a' \<and>
     (ag_transcoding a = TRANSCODING_STATE_ACTIVE \<longrightarrow> ag_transcoding a' = TRANSCODING_STATE_ACTIVE)"

lemma made_trans: "made a b \<Longrightarrow> made b c \<Longrightarrow> made a c"
  by (auto simp: made_def intro: grown_trans)

lemma made_refl: "tree_ok a \<Longrightarrow> encoders_ok a \<Longrightarrow> signals_ok a \<Longrightarrow> made a a"
  by (simp add: made_def)

lemma first_bin_in: "first_bin env a bs caps = (Some b, c) \<Longrightarrow> b \<in> set bs \<and> check_bin env a b caps = Some c"
  by (induction bs) (auto split: if_splits option.splits)

lemma find_bin_in:
  assumes "tree_ok a" "ag_started a" "kms_agnostic_bin2_find_bin_for_caps env a caps = Some (Inr (Some b, c))"
  shows "b \<in> set (ag_bins a)"
  using assms by (auto simp: kms_agnostic_bin2_find_bin_for_caps_def tree_ok_def dest: first_bin_in
      split: if_splits option.splits)

lemma dec_bin_made:
  assumes a: "tree_ok a" "encoders_ok a" "signals_ok a" "ag_started a"
    and r: "kms_agnostic_bin2_get_or_create_dec_bin env a caps = Some (Inr (a', bo))"
  shows "made a a'" "\<And>b. bo = Some b \<Longrightarrow> b \<in> set (ag_bins a')"
    "ag_transcoding a' = ag_transcoding a" "ag_signals a' = ag_signals a"
proof -
  obtain i where i: "ag_input_bin a = Some i" "i \<in> set (ag_bins a)" "feed_of a i = Some Input_tee"
    using a(1,4) by (auto simp: tree_ok_def)
  have found: "b \<in> set (ag_bins a)" if "kms_agnostic_bin2_find_bin_for_caps env a c = Some (Inr (Some b, c'))" for b c c'
    using find_bin_in [OF a(1,4) that] .
  have "(a' = a \<and> (\<forall>b. bo = Some b \<longrightarrow> b \<in> set (ag_bins a))) \<or>
    (\<exists>a1 b. gst_bin_add \<lparr>tb_kind = DecTree, tb_input_caps = None, tb_feed = Some (Output_tee i), tb_probe = False, tb_enc = None\<rparr> a = (a1, b) \<and>
      a' = kms_agnostic_bin2_insert_bin b a1 \<and> bo = Some b)"
    using r i(1,2) found by (auto simp: kms_agnostic_bin2_get_or_create_dec_bin_def bind_ret_Inr_iff
        kms_agnostic_bin2_create_dec_bin_def gst_bin_add_def Let_def split: if_split_asm option.split_asm)
  then have "made a a' \<and> (\<forall>b. bo = Some b \<longrightarrow> b \<in> set (ag_bins a')) \<and> ag_transcoding a' = ag_transcoding a \<and> ag_signals a' = ag_signals a"
  proof (elim disjE exE conjE)
    assume "a' = a" "\<forall>b. bo = Some b \<longrightarrow> b \<in> set (ag_bins a)"
    then show ?thesis using made_refl [OF a(1-3)] by simp
  next
    fix a1 b
    assume add: "gst_bin_add \<lparr>tb_kind = DecTree, tb_input_caps = None, tb_feed = Some (Output_tee i), tb_probe = False, tb_enc = None\<rparr> a = (a1, b)"
      and a': "a' = kms_agnostic_bin2_insert_bin b a1" and bo: "bo = Some b"
    have t: "tree_ok a'" "grown a a'" using add_insert_ok [OF a(1,4) add, of i] i(3) by (simp_all add: a' fed_input)
    have "encoders_ok a'" using a(2) add by (auto simp: encoders_ok_def limited_def a' gst_bin_add_def split: if_splits)
    then show ?thesis using t signals_ok_frame [OF a(3), of a'] add by (auto simp: made_def a' bo gst_bin_add_def)
  qed
  then show "made a a'" "\<And>b. bo = Some b \<Longrightarrow> b \<in> set (ag_bins a')"
    "ag_transcoding a' = ag_transcoding a" "ag_signals a' = ag_signals a" by auto
qed


lemma get_bitrate_limited:
  "kms_enc_tree_bin_get_bitrate e = (e1, r) \<Longrightarrow> et_min e1 = et_min e \<and> et_max e1 = et_max e \<and>
     et_current e1 = KMS_ENC_TREE_BIN_LIMIT e1 (et_current e1)"
  by (auto simp: kms_enc_tree_bin_get_bitrate_def KMS_ENC_TREE_BIN_LIMIT_def limit_twice Let_def split: if_splits)

lemma set_target_limited:
  assumes "kms_enc_tree_bin_set_target_bitrate keep e = Inr e1"
  shows "et_min e1 = et_min e \<and> et_max e1 = et_max e \<and> et_current e1 = KMS_ENC_TREE_BIN_LIMIT e1 (et_current e1)"
proof -
  obtain e2 r where g: "kms_enc_tree_bin_get_bitrate e = (e2, r)" by force
  have "\<exists>v. e1 = e2\<lparr>et_encoder := v\<rparr>"
  proof -
    have "e1 = e2 \<or> (\<exists>v. e1 = e2\<lparr>et_encoder := v\<rparr>)"
      using assms by (auto simp: kms_enc_tree_bin_set_target_bitrate_def g Let_def split: if_split_asm option.split_asm)
    moreover have "e2 = e2\<lparr>et_encoder := et_encoder e2\<rparr>" by simp
    ultimately show ?thesis by metis
  qed
  then show ?thesis using get_bitrate_limited [OF g] by (auto simp: KMS_ENC_TREE_BIN_LIMIT_def)
qed

lemma new_encoder_limited:
  assumes "kms_enc_tree_bin_new keep gives encs create target mn mx = Inr (Some e)"
  shows "et_min e = mn \<and> et_max e = mx \<and> et_current e = KMS_ENC_TREE_BIN_LIMIT e (et_current e)"
  using assms by (auto simp: kms_enc_tree_bin_new_def Let_def bind_result_Inr_iff kms_enc_tree_bin_init_def
      dest!: set_target_limited split: option.split_asm prod.split_asm)

lemma create_bin_made:
  assumes a: "tree_ok a" "encoders_ok a" "signals_ok a" "ag_started a"
    and r: "create_bin_no_rtp env a caps = Some (Inr (a', bo))"
  shows "made a a'" "\<And>b. bo = Some b \<Longrightarrow> b \<in> set (ag_bins a')"
proof -
  obtain a1 d where d: "kms_agnostic_bin2_get_or_create_dec_bin env a caps = Some (Inr (a1, d))"
    and r1: "(case d of None \<Rightarrow> ret (a1, None)
       | Some d \<Rightarrow> if ae_is_raw env caps then ret (a1, Some d)
           else bind_ret (Some (kms_enc_tree_bin_new (ae_keep env) (ae_gives_caps env caps) (ae_encoders env) (ae_create env)
                  (ag_target a1) (ag_min a1) (ag_max a1))) (\<lambda>enc. case enc of
               None \<Rightarrow> ret (a1, None)
             | Some e \<Rightarrow> (let (a2, b) = gst_bin_add \<lparr>tb_kind = EncTree, tb_input_caps = None,
                    tb_feed = Some (Output_tee d), tb_probe = False, tb_enc = Some e\<rparr> a1 in
                 ret (kms_agnostic_bin2_insert_bin b a2, Some b)))) = Some (Inr (a', bo))"
    using r by (auto simp: create_bin_no_rtp_def bind_ret_Inr_iff)
  note m1 = dec_bin_made(1,2) [OF a d]
  have st: "ag_started a1" using m1(1) a(4) by (simp add: made_def grown_def)
  have ok1: "tree_ok a1" "encoders_ok a1" "signals_ok a1" using m1(1) by (simp_all add: made_def)
  have m2: "made a1 a' \<and> (\<forall>b. bo = Some b \<longrightarrow> b \<in> set (ag_bins a'))"
  proof (cases "a' = a1 \<and> (bo = None \<or> bo = d)")
    case True
    then show ?thesis using m1(2) made_refl [OF ok1] by auto
  next
    case False
    then obtain d' where d': "d = Some d'" using r1 by (cases d) auto
    then have "\<not> ae_is_raw env caps" using r1 False by auto
    then obtain enc where enc: "kms_enc_tree_bin_new (ae_keep env) (ae_gives_caps env caps) (ae_encoders env) (ae_create env)
        (ag_target a1) (ag_min a1) (ag_max a1) = Inr enc"
      "(case enc of None \<Rightarrow> ret (a1, None)
        | Some e \<Rightarrow> (let (a2, b) = gst_bin_add \<lparr>tb_kind = EncTree, tb_input_caps = None,
             tb_feed = Some (Output_tee d'), tb_probe = False, tb_enc = Some e\<rparr> a1 in
          ret (kms_agnostic_bin2_insert_bin b a2, Some b))) = Some (Inr (a', bo))"
      using r1 by (simp only: d' option.case if_False bind_ret_Inr_iff option.inject) blast
    obtain e where e: "enc = Some e" using enc(2) False by (cases enc) auto
    obtain a2 b where ab: "gst_bin_add \<lparr>tb_kind = EncTree, tb_input_caps = None,
        tb_feed = Some (Output_tee d'), tb_probe = False, tb_enc = Some e\<rparr> a1 = (a2, b)" by force
    have x: "d = Some d'"
      "kms_enc_tree_bin_new (ae_keep env) (ae_gives_caps env caps) (ae_encoders env) (ae_create env) (ag_target a1) (ag_min a1) (ag_max a1) = Inr (Some e)"
      "gst_bin_add \<lparr>tb_kind = EncTree, tb_input_caps = None, tb_feed = Some (Output_tee d'), tb_probe = False, tb_enc = Some e\<rparr> a1 = (a2, b)"
      "a' = kms_agnostic_bin2_insert_bin b a2" "bo = Some b"
      using d' enc e ab by simp_all
    have "fed (feed_of a1) d'" using m1(2) x(1) ok1(1) by (simp add: tree_ok_def)
    then have t: "tree_ok a'" "grown a1 a'" using add_insert_ok [OF ok1(1) st x(3)] by (simp_all add: x(4))
    have "encoders_ok a'" using ok1(2) x(3) new_encoder_limited [OF x(2)]
      by (auto simp: encoders_ok_def limited_def x(4) gst_bin_add_def split: if_splits)
    then show ?thesis using t signals_ok_frame [OF ok1(3), of a'] x(3) by (auto simp: made_def x(4,5) gst_bin_add_def)
  qed
  show "made a a'" using made_trans [OF m1(1)] m2 by simp
  show "b \<in> set (ag_bins a')" if "bo = Some b" for b using m2 that by simp
qed

lemma signal_fields [simp]:
  "ag_children (signal_transcoding c t a) = ag_children a" "ag_pads (signal_transcoding c t a) = ag_pads a"
  "ag_next (signal_transcoding c t a) = ag_next a" "ag_started (signal_transcoding c t a) = ag_started a"
  "ag_input_bin (signal_transcoding c t a) = ag_input_bin a" "ag_bins (signal_transcoding c t a) = ag_bins a"
  "ag_target (signal_transcoding c t a) = ag_target a" "ag_min (signal_transcoding c t a) = ag_min a"
  "ag_max (signal_transcoding c t a) = ag_max a"
  by (simp_all add: signal_transcoding_def)

lemma signal_made:
  assumes "tree_ok a" "encoders_ok a" "signals_ok a"
  shows "made a (signal_transcoding c t a)"
    "c \<Longrightarrow> ag_transcoding (signal_transcoding c t a) = TRANSCODING_STATE_ACTIVE"
proof -
  have "signals_ok (signal_transcoding c t a)"
    using assms(3) by (cases "ag_transcoding a") (auto simp: signals_ok_def signal_transcoding_def)
  moreover have "encoders_ok (signal_transcoding c t a)" using assms(2) by (simp add: encoders_ok_def limited_def)
  moreover have "ag_transcoding (signal_transcoding c t a) = TRANSCODING_STATE_ACTIVE" if "ag_transcoding a = TRANSCODING_STATE_ACTIVE"
    using that by (simp add: signal_transcoding_def)
  ultimately show "made a (signal_transcoding c t a)"
    using tree_ok_frame [OF assms(1), of "signal_transcoding c t a"] by (simp add: made_def grown_def)
  show "ag_transcoding (signal_transcoding c t a) = TRANSCODING_STATE_ACTIVE" if c
    using that by (simp add: signal_transcoding_def)
qed


lemma new_rtp_pay_bin_cases:
  assumes "new_rtp_pay_bin env a caps = Some (Inr (a1, pay))"
  shows "pay = None \<and> a1 = a \<or> (\<exists>p ic. pay = Some (p, ic) \<and>
    gst_bin_add \<lparr>tb_kind = PayTree, tb_input_caps = None, tb_feed = None, tb_probe = False, tb_enc = None\<rparr> a = (a1, p))"
  using assms by (auto simp: new_rtp_pay_bin_def bind_ret_Inr_iff gst_bin_add_def Let_def split: option.split_asm)

definition found_ok :: "'c agnostic_bin \<Rightarrow> 'c agnostic_bin \<Rightarrow> nat option \<Rightarrow> bool" where
  "found_ok a a' bo \<longleftrightarrow> made a a' \<and> (\<forall>b. bo = Some b \<longrightarrow> b \<in> set (ag_bins a')) \<and>
     (ag_bins a' = ag_bins a \<or> ag_transcoding a' = TRANSCODING_STATE_ACTIVE)"

text \<open>A payloader and what feeds it.\<close>

lemma pay_bin_made:
  assumes a: "tree_ok a" "encoders_ok a" "signals_ok a" "ag_started a"
    and add: "gst_bin_add \<lparr>tb_kind = PayTree, tb_input_caps = None, tb_feed = None, tb_probe = False, tb_enc = None\<rparr> a = (a1, p)"
    and rec: "tree_ok a1 \<Longrightarrow> encoders_ok a1 \<Longrightarrow> signals_ok a1 \<Longrightarrow> ag_started a1 \<Longrightarrow> made a1 a2 \<and> e \<in> set (ag_bins a2)"
  shows "made a (set_feed p e (kms_agnostic_bin2_insert_bin p a2))"
proof -
  let ?tb = "\<lparr>tb_kind = PayTree, tb_input_caps = None, tb_feed = None, tb_probe = False, tb_enc = None\<rparr> :: 'a tree_bin"
  let ?a = "set_feed p e (kms_agnostic_bin2_insert_bin p a2)"
  note n = gst_bin_add_ok [OF a(1) add]
  have a1: "a1 = a\<lparr>ag_children := AList.update (ag_next a) ?tb (ag_children a), ag_next := Suc (ag_next a)\<rparr>" "p = ag_next a"
    using add by (auto simp: gst_bin_add_def)
  have "encoders_ok a1" using a(2) by (auto simp: encoders_ok_def limited_def a1 split: if_splits)
  moreover have "signals_ok a1" using signals_ok_frame [OF a(3), of a1] by (simp add: a1)
  ultimately have m: "made a1 a2" "e \<in> set (ag_bins a2)" using rec n(1) a(4) by (simp_all add: a1(1))
  then have a2: "tree_ok a2" "encoders_ok a2" "signals_ok a2" "grown a1 a2" by (simp_all add: made_def)
  have "p \<in> dom (map_of (ag_children a1))" using n(2) by (simp add: domIff)
  then have ch: "map_of (ag_children a2) p = Some ?tb" using a2(4) n(2) by (simp add: grown_def)
  have st: "ag_started a2" using a2(4) a(4) by (simp add: grown_def a1(1))
  have "fed (feed_of a2) e" using a2(1) m(2) by (simp add: tree_ok_def)
  then have t: "tree_ok ?a" using link_rtp_pay_bin_ok [OF a2(1) st ch] by simp
  have new: "map_of (ag_children a) p = None" using map_of_next [OF a(1)] by (simp add: a1(2))
  have ga: "grown a a2" using gst_bin_add_grown [OF a(1) add] a2(4) by (rule grown_trans)
  have other: "map_of (ag_children ?a) b = map_of (ag_children a2) b" if "b \<noteq> p" for b
    using that by (simp add: set_feed_def AList.map_of_map_entry)
  have "grown a ?a"
  proof -
    have "map_of (ag_children ?a) b = map_of (ag_children a) b" if "b \<in> dom (map_of (ag_children a))" for b
      using ga that new other [of b] by (cases "b = p") (auto simp: grown_def)
    then show ?thesis using ga by (auto simp: grown_def set_feed_def)
  qed
  moreover have "encoders_ok ?a" using a2(2)
    by (auto simp: encoders_ok_def limited_def set_feed_def AList.map_of_map_entry split: if_splits option.splits)
  moreover have "signals_ok ?a" using signals_ok_frame [OF a2(3), of ?a] by (simp add: set_feed_def)
  moreover have "ag_transcoding ?a = TRANSCODING_STATE_ACTIVE" if "ag_transcoding a = TRANSCODING_STATE_ACTIVE"
    using m(1) that by (simp add: made_def a1(1) set_feed_def)
  ultimately show ?thesis using t by (simp add: made_def)
qed

lemma signalled:
  assumes "made a a1" "\<And>b. bo = Some b \<Longrightarrow> b \<in> set (ag_bins a1)" "c \<or> a1 = a"
  shows "found_ok a (signal_transcoding c t a1) bo"
proof -
  have ok: "tree_ok a1" "encoders_ok a1" "signals_ok a1" using assms(1) by (simp_all add: made_def)
  note s = signal_made(1) [OF ok, of c t] signal_made(2) [OF ok, of c t]
  show ?thesis using made_trans [OF assms(1) s(1)] assms(2,3) s(2) by (auto simp: found_ok_def)
qed

lemma find_or_create_any:
  assumes "kms_agnostic_bin2_find_or_create_bin_for_caps env a caps = Some r"
  shows "\<forall>a' bo c. r = Inr (a', bo, c) \<longrightarrow> tree_ok a \<longrightarrow> encoders_ok a \<longrightarrow> signals_ok a \<longrightarrow> ag_started a \<longrightarrow> found_ok a a' bo"
  using assms
proof (induction env a caps r rule: kms_agnostic_bin2_find_or_create_bin_for_caps.raw_induct [rotated, consumes 1, case_names turn])
  case (turn find env a caps result)
  show ?case
  proof (intro allI impI)
  fix a' bo c
  assume res: "result = Inr (a', bo, c)" and ok: "tree_ok a" "encoders_ok a" "signals_ok a" "ag_started a"
  obtain bin caps1 where f: "kms_agnostic_bin2_find_bin_for_caps env a caps = Some (Inr (bin, caps1))"
    and r: "(case bin of
         Some b \<Rightarrow> ret (signal_transcoding False (media_type_of env caps1) a, Some b, caps1)
       | None \<Rightarrow> bind_ret
           (if ae_is_rtp env caps1 then
              bind_ret (new_rtp_pay_bin env a caps1) (\<lambda>(a1, pay).
                case pay of
                  None \<Rightarrow> ret (a1, None)
                | Some (p, input_caps) \<Rightarrow>
                    bind_ret (find env a1 input_caps) (\<lambda>(a2, enc_bin, _).
                      bind_ret (link_rtp_pay_bin p enc_bin a2) (\<lambda>a3. ret (a3, Some p))))
            else create_bin_no_rtp env a caps1)
           (\<lambda>(a1, b). ret (signal_transcoding True (media_type_of env caps1) a1, b, caps1))) = Some (Inr (a', bo, c))"
    using turn(2) unfolding res by (auto simp: bind_ret_Inr_iff)
  show "found_ok a a' bo"
  proof (cases bin)
    case (Some b)
    then show ?thesis
      using r signalled [OF made_refl [OF ok(1-3)], of "Some b" False] find_bin_in [OF ok(1,4)] f by auto
  next
    case None
    then obtain a1 b where b: "(if ae_is_rtp env caps1 then
              bind_ret (new_rtp_pay_bin env a caps1) (\<lambda>(a1, pay).
                case pay of
                  None \<Rightarrow> ret (a1, None)
                | Some (p, input_caps) \<Rightarrow>
                    bind_ret (find env a1 input_caps) (\<lambda>(a2, enc_bin, _).
                      bind_ret (link_rtp_pay_bin p enc_bin a2) (\<lambda>a3. ret (a3, Some p))))
            else create_bin_no_rtp env a caps1) = Some (Inr (a1, b))"
      and a': "a' = signal_transcoding True (media_type_of env caps1) a1" "bo = b"
      using r by (auto simp: bind_ret_Inr_iff)
    have "made a a1 \<and> (\<forall>x. b = Some x \<longrightarrow> x \<in> set (ag_bins a1))"
    proof (cases "ae_is_rtp env caps1")
      case False
      then show ?thesis using b create_bin_made [OF ok] by auto
    next
      case True
      then obtain a0 pay where n: "new_rtp_pay_bin env a caps1 = Some (Inr (a0, pay))"
        and r1: "(case pay of None \<Rightarrow> ret (a0, None)
                | Some (p, input_caps) \<Rightarrow>
                    bind_ret (find env a0 input_caps) (\<lambda>(a2, enc_bin, _).
                      bind_ret (link_rtp_pay_bin p enc_bin a2) (\<lambda>a3. ret (a3, Some p)))) = Some (Inr (a1, b))"
        using b by (auto simp: bind_ret_Inr_iff)
      show ?thesis
      proof (cases pay)
        case None
        then show ?thesis using r1 new_rtp_pay_bin_cases [OF n] made_refl [OF ok(1-3)] by auto
      next
        case (Some z)
        obtain p ic where z: "z = (p, ic)" by (cases z)
        obtain a2 enc c' where e: "find env a0 ic = Some (Inr (a2, enc, c'))" "link_rtp_pay_bin p enc a2 = Some (Inr a1)" "b = Some p"
          using r1 Some z by (auto simp: bind_ret_Inr_iff)
        obtain x where x: "enc = Some x" "a1 = set_feed p x (kms_agnostic_bin2_insert_bin p a2)"
          using e(2) by (auto simp: link_rtp_pay_bin_def Let_def split: option.split_asm)
        have add: "gst_bin_add \<lparr>tb_kind = PayTree, tb_input_caps = None, tb_feed = None, tb_probe = False, tb_enc = None\<rparr> a = (a0, p)"
          using new_rtp_pay_bin_cases [OF n] Some z by auto
        have "made a a1" unfolding x(2)
          by (rule pay_bin_made [OF ok add]) (use turn(1) [OF e(1)] x(1) in \<open>auto simp: found_ok_def\<close>)
        then show ?thesis using e(3) x(2) by (simp add: set_feed_def)
      qed
    qed
    then show ?thesis unfolding a' by (intro signalled) auto
  qed
  qed
qed

lemmas find_or_create_ok = find_or_create_any [rule_format, OF _ refl]


section \<open>Every call keeps the invariant\<close>

definition parts_ok :: "'c agnostic_bin \<Rightarrow> bool" where
  "parts_ok a \<longleftrightarrow> tree_ok a \<and> encoders_ok a \<and> signals_ok a"

text \<open>What working on one pad leaves alone.\<close>

definition padded :: "string \<Rightarrow> 'c agnostic_bin \<Rightarrow> 'c agnostic_bin \<Rightarrow> bool" where
  "padded n a a' \<longleftrightarrow> set (ag_bins a) \<subseteq> set (ag_bins a') \<and> ag_started a' = ag_started a \<and> ag_input_bin a' = ag_input_bin a \<and>
     (ag_bins a' = ag_bins a \<or> ag_transcoding a' = TRANSCODING_STATE_ACTIVE) \<and>
     (ag_transcoding a = TRANSCODING_STATE_ACTIVE \<longrightarrow> ag_transcoding a' = TRANSCODING_STATE_ACTIVE) \<and>
     (\<forall>m. m \<noteq> n \<longrightarrow> map_of (ag_pads a') m = map_of (ag_pads a) m)"

lemma padded_refl [simp]: "padded n a a"
  by (simp add: padded_def)

lemma padded_trans: "padded n a b \<Longrightarrow> padded n b c \<Longrightarrow> padded n a c"
  unfolding padded_def by (elim conjE, intro conjI) (auto dest: subsetD)

lemma padded_told: "padded n a a' \<Longrightarrow> told a \<Longrightarrow> told a'"
  unfolding padded_def told_def by auto

lemma padded_target: "padded n a a' \<Longrightarrow> m \<noteq> n \<Longrightarrow> target_ok a m \<Longrightarrow> target_ok a' m"
  unfolding padded_def target_ok_def by auto

lemma with_pad_fields [simp]:
  "ag_children (with_pad n f a) = ag_children a" "ag_bins (with_pad n f a) = ag_bins a" "ag_next (with_pad n f a) = ag_next a"
  "ag_started (with_pad n f a) = ag_started a" "ag_input_bin (with_pad n f a) = ag_input_bin a" "ag_target (with_pad n f a) = ag_target a"
  "ag_min (with_pad n f a) = ag_min a" "ag_max (with_pad n f a) = ag_max a" "ag_transcoding (with_pad n f a) = ag_transcoding a"
  "ag_signals (with_pad n f a) = ag_signals a" "feed_of (with_pad n f a) = feed_of a"
  "map_of (ag_pads (with_pad n f a)) m = (if m = n then map_option f (map_of (ag_pads a) n) else map_of (ag_pads a) m)"
  by (auto simp: with_pad_def feed_of_def fun_eq_iff AList.map_of_map_entry split: option.split)

lemma with_pad_ok:
  assumes "parts_ok a" "\<And>p. map_of (ag_pads a) n = Some p \<Longrightarrow> (ap_target p \<noteq> None \<longrightarrow> ap_linked p) \<Longrightarrow> ap_target (f p) \<noteq> None \<longrightarrow> ap_linked (f p)"
  shows "parts_ok (with_pad n f a)" "padded n a (with_pad n f a)"
proof -
  have "hash_ok (ag_pads (with_pad n f a))" using assms(1) by (auto simp: with_pad_def parts_ok_def tree_ok_def)
  then have "tree_ok (with_pad n f a)"
    using assms unfolding parts_ok_def tree_ok_def by auto
  then show "parts_ok (with_pad n f a)"
    using assms(1) signals_ok_frame [of a "with_pad n f a"] by (simp add: parts_ok_def encoders_ok_def limited_def)
  show "padded n a (with_pad n f a)" by (simp add: padded_def)
qed

lemma remove_target_ok:
  assumes "parts_ok a"
  shows "parts_ok (remove_target_pad n a)" "padded n a (remove_target_pad n a)" "target_ok (remove_target_pad n a) n"
  unfolding remove_target_pad_def using with_pad_ok [OF assms, of n "\<lambda>p. p\<lparr>ap_target := None, ap_chain := []\<rparr>"]
  by (auto simp: target_ok_def)

lemma parts_ok_frame:
  assumes "parts_ok a" "ag_children a' = ag_children a" "ag_pads a' = ag_pads a" "ag_bins a' = ag_bins a"
    "ag_next a' = ag_next a" "ag_started a' = ag_started a" "ag_input_bin a' = ag_input_bin a" "ag_min a' = ag_min a"
    "ag_max a' = ag_max a" "ag_transcoding a' = ag_transcoding a" "ag_signals a' = ag_signals a"
  shows "parts_ok a'"
  using assms tree_ok_frame [of a a'] signals_ok_frame [of a a'] by (simp add: parts_ok_def encoders_ok_def limited_def)

lemma parts_ok_drops: "parts_ok a \<Longrightarrow> parts_ok (a\<lparr>ag_drops := d\<rparr>)"
  by (rule parts_ok_frame) simp_all

lemma link_pad_ok:
  assumes a: "parts_ok a" "ag_started a" "target_ok a n" and p: "map_of (ag_pads a) n = Some p" "ap_linked p"
    and r: "kms_agnostic_bin2_link_pad env n a = Some (Inr a')"
  shows "parts_ok a' \<and> padded n a a' \<and> target_ok a' n"
proof (cases "ae_peer_caps env n")
  case None
  then show ?thesis using r a by (simp add: kms_agnostic_bin2_link_pad_def)
next
  case (Some pc)
  obtain a1 bin caps where f: "kms_agnostic_bin2_find_or_create_bin_for_caps env a pc = Some (Inr (a1, bin, caps))"
    and r1: "(case bin of None \<Rightarrow> ret a1
       | Some b \<Rightarrow> (let a2 = (if \<not> ae_is_rtp env caps then a1\<lparr>ag_drops := n # ag_drops a1\<rparr> else a1)
           in ret (kms_agnostic_bin2_link_to_tee env n b caps a2))) = Some (Inr a')"
    using r Some by (auto simp: kms_agnostic_bin2_link_pad_def bind_ret_Inr_iff)
  have fo: "found_ok a a1 bin" using find_or_create_ok [OF f] a(1,2) by (simp add: parts_ok_def)
  then have m: "parts_ok a1" "padded n a a1" "ag_pads a1 = ag_pads a"
    by (auto simp: found_ok_def made_def parts_ok_def grown_def padded_def)
  show ?thesis
  proof (cases bin)
    case None
    then show ?thesis using r1 m a(3) by (auto simp: target_ok_def padded_def)
  next
    case (Some b)
    define a2 where "a2 = (if \<not> ae_is_rtp env caps then a1\<lparr>ag_drops := n # ag_drops a1\<rparr> else a1)"
    have a2: "parts_ok a2" "padded n a a2" "b \<in> set (ag_bins a2)" "map_of (ag_pads a2) n = Some p"
      using m fo Some p(1) by (auto simp: a2_def parts_ok_drops padded_def found_ok_def)
    obtain els where a': "a' = with_pad n (\<lambda>p. p\<lparr>ap_target := Some b, ap_chain := els\<rparr>) a2"
      using r1 by (auto simp: Some a2_def Let_def kms_agnostic_bin2_link_to_tee_def)
    have "parts_ok a'" "padded n a2 a'"
      unfolding a' by (rule with_pad_ok [OF a2(1)]; use a2(4) p(2) in simp)+
    then show ?thesis using padded_trans [OF a2(2)] a2(3) by (auto simp: target_ok_def a')
  qed
qed

lemma process_pad_ok:
  assumes a: "parts_ok a" "ag_started a \<longrightarrow> target_ok a n" and r: "kms_agnostic_bin2_process_pad env n a = Some (Inr (a', b))"
  shows "parts_ok a' \<and> padded n a a' \<and> (ag_started a \<longrightarrow> target_ok a' n)"
proof (cases "a' = a")
  case True
  then show ?thesis using a by simp
next
  case False
  obtain p where p: "map_of (ag_pads a) n = Some p"
    using r False by (auto simp: kms_agnostic_bin2_process_pad_def split: option.split_asm)
  define a1 where "a1 = (if ap_target p \<noteq> None \<and> ae_current_caps env n \<noteq> None then remove_target_pad n a else a)"
  have st: "ag_started a" "ap_linked p" and l: "kms_agnostic_bin2_link_pad env n a1 = Some (Inr a')"
    using r False by (auto simp: kms_agnostic_bin2_process_pad_def p a1_def bind_ret_Inr_iff Let_def split: if_split_asm)
  have a1: "parts_ok a1" "padded n a a1" "target_ok a1 n"
    using remove_target_ok [OF a(1), of n] a st by (simp_all add: a1_def)
  obtain p1 where p1: "map_of (ag_pads a1) n = Some p1" "ap_linked p1"
    using p st that by (cases "ap_target p = None \<or> ae_current_caps env n = None") (auto simp: a1_def remove_target_pad_def)
  have "ag_started a1" using a1(2) st(1) by (simp add: padded_def)
  then have "parts_ok a' \<and> padded n a1 a' \<and> target_ok a' n"
    using link_pad_ok [OF a1(1) _ a1(3) p1 l] by simp
  then show ?thesis using padded_trans [OF a1(2)] by blast
qed


lemma agnostic_ok_parts: "agnostic_ok a \<longleftrightarrow> parts_ok a \<and> (ag_started a \<longrightarrow> (\<forall>n. target_ok a n)) \<and> told a"
  by (auto simp: agnostic_ok_def parts_ok_def)

lemma agnostic_ok_pad:
  assumes "agnostic_ok a" "parts_ok a' \<and> padded n a a' \<and> (ag_started a \<longrightarrow> target_ok a' n)"
  shows "agnostic_ok a'"
proof -
  have "target_ok a' m" if "ag_started a'" for m
    using assms that padded_target [of n a a' m] by (cases "m = n") (auto simp: agnostic_ok_parts padded_def)
  then show ?thesis using assms padded_told [of n a a'] by (auto simp: agnostic_ok_parts)
qed

lemma agnostic_ok_frame:
  assumes "agnostic_ok a" "ag_children a' = ag_children a" "ag_pads a' = ag_pads a" "ag_bins a' = ag_bins a"
    "ag_next a' = ag_next a" "ag_started a' = ag_started a" "ag_input_bin a' = ag_input_bin a" "ag_min a' = ag_min a"
    "ag_max a' = ag_max a" "ag_transcoding a' = ag_transcoding a" "ag_signals a' = ag_signals a"
  shows "agnostic_ok a'"
  using assms parts_ok_frame [of a a'] by (simp add: agnostic_ok_parts target_ok_def told_def)

lemma drop_result_iff [simp]: "drop_result m = Some (Inr s) \<longleftrightarrow> (\<exists>x. m = Some (Inr (s, x)))"
  by (auto simp: drop_result_def bind_ret_Inr_iff)

definition harmless :: "(agnostic_pad \<Rightarrow> agnostic_pad) \<Rightarrow> bool" where
  "harmless f \<longleftrightarrow> (\<forall>p. (ap_target p \<noteq> None \<longrightarrow> ap_linked p) \<longrightarrow>
     ap_target (f p) = None \<or> ap_target (f p) = ap_target p \<and> ap_linked (f p))"

lemma harmlessD: "harmless f \<Longrightarrow> ap_target p \<noteq> None \<longrightarrow> ap_linked p \<Longrightarrow>
    ap_target (f p) = None \<or> ap_target (f p) = ap_target p \<and> ap_linked (f p)"
  by (simp add: harmless_def)

lemma with_pad_agnostic_ok:
  assumes "agnostic_ok a" "harmless f"
  shows "agnostic_ok (with_pad n f a)"
proof (rule agnostic_ok_pad [OF assms(1)])
  have p: "parts_ok a" using assms(1) by (simp add: agnostic_ok_parts)
  have linked: "ap_target p \<noteq> None \<longrightarrow> ap_linked p" if "map_of (ag_pads a) n = Some p" for p
    using assms(1) that by (auto simp: agnostic_ok_def tree_ok_def)
  have h: "ap_target (f p) \<noteq> None \<longrightarrow> ap_linked (f p)" if "ap_target p \<noteq> None \<longrightarrow> ap_linked p" for p
    using harmlessD [OF assms(2) that] that by auto
  have "parts_ok (with_pad n f a)" by (rule with_pad_ok(1) [OF p]) (rule h)
  moreover have "padded n a (with_pad n f a)" by (rule with_pad_ok(2) [OF p]) (rule h)
  moreover have "target_ok (with_pad n f a) n" if "ag_started a"
    unfolding target_ok_def
  proof (intro allI impI)
    fix q b
    assume q: "map_of (ag_pads (with_pad n f a)) n = Some q" "ap_target q = Some b"
    then obtain p where p: "map_of (ag_pads a) n = Some p" "q = f p" by auto
    then have "ap_target p = Some b" using harmlessD [OF assms(2) linked] q(2) by auto
    then show "b \<in> set (ag_bins (with_pad n f a))"
      using assms(1) that p(1) by (auto simp: agnostic_ok_parts target_ok_def)
  qed
  ultimately show "parts_ok (with_pad n f a) \<and> padded n a (with_pad n f a) \<and> (ag_started a \<longrightarrow> target_ok (with_pad n f a) n)" by blast
qed

lemma process_keeps:
  assumes "agnostic_ok a" "kms_agnostic_bin2_process_pad env n a = Some (Inr (a', b))"
  shows "agnostic_ok a'"
  using agnostic_ok_pad [OF assms(1)] process_pad_ok [of a n env a' b] assms by (auto simp: agnostic_ok_parts)

lemma reconfigure_keeps:
  assumes "agnostic_ok a" "kms_agnostic_bin2_src_reconfigure_probe env n a = Some (Inr a')"
  shows "agnostic_ok a'"
proof -
  obtain b where b: "kms_agnostic_bin2_process_pad env n (with_pad n (\<lambda>p. p\<lparr>ap_started := True\<rparr>) a) = Some (Inr (a', b))"
    using assms(2) by (auto simp: kms_agnostic_bin2_src_reconfigure_probe_def)
  show ?thesis by (rule process_keeps [OF with_pad_agnostic_ok [OF assms(1)] b]) (auto simp: harmless_def)
qed

lemma refused_keeps:
  assumes "agnostic_ok a" "proxy_src_pad_query_function env n a = Some (Inr a')"
  shows "agnostic_ok a'"
proof -
  obtain b where b: "kms_agnostic_bin2_process_pad env n (with_pad n (\<lambda>p. p\<lparr>ap_target := None, ap_chain := []\<rparr>) a) = Some (Inr (a', b))"
    using assms(2) by (auto simp: proxy_src_pad_query_function_def remove_target_pad_def)
  show ?thesis by (rule process_keeps [OF with_pad_agnostic_ok [OF assms(1)] b]) (simp add: harmless_def)
qed

lemma map_entry_twice: "AList.map_entry k g (AList.map_entry k f xs) = AList.map_entry k (\<lambda>x. g (f x)) xs"
  by (induction xs) auto

lemma unlinked_keeps: "agnostic_ok a \<Longrightarrow> agnostic_ok (kms_agnostic_bin2_src_unlinked n a)"
proof -
  assume "agnostic_ok a"
  moreover have "kms_agnostic_bin2_src_unlinked n a =
      with_pad n (\<lambda>p. p\<lparr>ap_started := False, ap_linked := False, ap_target := None, ap_chain := []\<rparr>) a"
    by (simp add: kms_agnostic_bin2_src_unlinked_def remove_target_pad_def with_pad_def map_entry_twice)
  ultimately show ?thesis by (simp add: with_pad_agnostic_ok harmless_def)
qed

lemma pads_keeps:
  assumes "agnostic_ok a" "hash_ok ps" "\<And>n p. map_of ps n = Some p \<Longrightarrow> map_of (ag_pads a) n = Some p \<or> ap_target p = None"
  shows "agnostic_ok (a\<lparr>ag_pads := ps\<rparr>)"
proof -
  have l: "ap_linked p" if "map_of ps n = Some p" "ap_target p \<noteq> None" for n p
    using assms(1) assms(3) [OF that(1)] that by (auto simp: agnostic_ok_def tree_ok_def)
  have "tree_ok (a\<lparr>ag_pads := ps\<rparr>)" using assms(1,2) unfolding agnostic_ok_def tree_ok_def
    by (simp add: feed_of_def [abs_def] l)
  moreover have "encoders_ok (a\<lparr>ag_pads := ps\<rparr>)" "told (a\<lparr>ag_pads := ps\<rparr>)"
    using assms(1) by (simp_all add: agnostic_ok_def encoders_ok_def limited_def told_def)
  moreover have "signals_ok (a\<lparr>ag_pads := ps\<rparr>)"
    using signals_ok_frame [of a "a\<lparr>ag_pads := ps\<rparr>"] assms(1) by (simp add: agnostic_ok_def)
  moreover have "target_ok (a\<lparr>ag_pads := ps\<rparr>) n" if "ag_started a" for n
    using assms(1,3) that by (fastforce simp: agnostic_ok_def target_ok_def)
  ultimately show ?thesis by (simp add: agnostic_ok_def)
qed

lemma request_keeps: "agnostic_ok a \<Longrightarrow> agnostic_ok (fst (kms_agnostic_bin2_request_new_pad a))"
proof -
  assume a: "agnostic_ok a"
  let ?n = "''src_'' @ print_gint (ag_pad_count a)"
  let ?ps = "AList.update ?n \<lparr>ap_started = False, ap_linked = False, ap_target = None, ap_chain = []\<rparr> (ag_pads a)"
  let ?a1 = "a\<lparr>ag_pad_count := ag_pad_count a + 1\<rparr>"
  have a1: "agnostic_ok ?a1" using a by (rule agnostic_ok_frame) simp_all
  have "hash_ok ?ps" using a by (auto simp: agnostic_ok_def tree_ok_def)
  then have "agnostic_ok (?a1\<lparr>ag_pads := ?ps\<rparr>)"
  proof (rule pads_keeps [OF a1])
    fix n p
    assume "map_of ?ps n = Some p"
    then show "map_of (ag_pads ?a1) n = Some p \<or> ap_target p = None" by (cases "n = ?n") (auto simp: update_conv')
  qed
  then show ?thesis using a1 by (auto simp: kms_agnostic_bin2_request_new_pad_def Let_def)
qed

lemma release_pad_keeps: "agnostic_ok a \<Longrightarrow> agnostic_ok (kms_agnostic_bin2_release_pad n a)"
  unfolding kms_agnostic_bin2_release_pad_def
  by (rule pads_keeps) (auto simp: agnostic_ok_def tree_ok_def delete_conv' split: if_splits)


subsection \<open>The input changes\<close>

lemma dom_entry [simp]: "dom (map_of (AList.map_entry k f xs)) = dom (map_of xs)"
  by (auto simp: AList.map_of_map_entry split: option.splits if_splits)

lemma entry_keeps:
  assumes "map_of (AList.map_entry k f xs) b = Some t" "\<And>t. g (f t) = g t"
  shows "\<exists>t'. map_of xs b = Some t' \<and> g t' = g t"
  using assms by (auto simp: AList.map_of_map_entry split: option.splits if_splits)

lemma remove_bins: "fold remove_bin bs a = a\<lparr>ag_children := fold AList.delete bs (ag_children a)\<rparr>"
  by (induction bs arbitrary: a) (simp_all add: remove_bin_def)

lemma map_of_deletes: "map_of (fold AList.delete bs xs) k = (if k \<in> set bs then None else map_of xs k)"
  by (induction bs arbitrary: xs) (auto simp: delete_conv')

lemma hash_ok_deletes: "hash_ok xs \<Longrightarrow> hash_ok (fold AList.delete bs xs)"
  by (induction bs arbitrary: xs) auto

lemma configure_keeps:
  assumes "agnostic_ok a"
  shows "agnostic_ok (kms_agnostic_bin2_configure_input a)" "\<not> ag_started (kms_agnostic_bin2_configure_input a)"
proof -
  define a1 where "a1 = (case ag_input_bin a of Some i \<Rightarrow> kms_tree_bin_unlink_input_element_from_tee i a | None \<Rightarrow> a)"
  let ?tb = "\<lparr>tb_kind = ParseTree, tb_input_caps = None, tb_feed = Some Input_tee, tb_probe = True, tb_enc = None\<rparr> :: 'a tree_bin"
  let ?a = "kms_agnostic_bin2_configure_input a"
  obtain ch where ch: "a1 = a\<lparr>ag_children := ch\<rparr>" "hash_ok ch" "dom (map_of ch) = dom (map_of (ag_children a))"
    "\<And>b t. map_of ch b = Some t \<Longrightarrow> \<exists>t'. map_of (ag_children a) b = Some t' \<and> tb_enc t' = tb_enc t"
  proof (cases "ag_input_bin a")
    case None
    then show ?thesis using that [of "ag_children a"] assms by (simp add: a1_def agnostic_ok_def tree_ok_def)
  next
    case (Some i)
    show ?thesis
    proof (rule that)
      show "a1 = a\<lparr>ag_children := AList.map_entry i (\<lambda>tb. tb\<lparr>tb_feed := None\<rparr>) (ag_children a)\<rparr>"
        by (simp add: a1_def Some kms_tree_bin_unlink_input_element_from_tee_def)
      show "hash_ok (AList.map_entry i (\<lambda>tb. tb\<lparr>tb_feed := None\<rparr>) (ag_children a))"
        using assms by (auto simp: agnostic_ok_def tree_ok_def)
    qed (auto elim: entry_keeps)
  qed
  have t: "tree_ok a" using assms by (simp add: agnostic_ok_def)
  have n: "ag_next a \<notin> set (ag_bins a)" "ag_next a \<notin> dom (map_of (ag_children a))"
    using t map_of_next [OF t] by (auto simp: tree_ok_def)
  have e: "?a = a\<lparr>ag_children := fold AList.delete (ag_bins a) (AList.update (ag_next a) ?tb ch), ag_next := Suc (ag_next a),
      ag_input_bin := Some (ag_next a), ag_started := False, ag_bins := []\<rparr>"
    by (simp add: kms_agnostic_bin2_configure_input_def flip: a1_def) (simp add: ch(1) gst_bin_add_def remove_bins)
  have kids: "map_of (ag_children ?a) b = (if b = ag_next a then Some ?tb else if b \<in> set (ag_bins a) then None else map_of ch b)" for b
    using n(1) by (auto simp: e map_of_deletes update_conv')
  have fields: "ag_bins ?a = []" "ag_started ?a = False" "ag_pads ?a = ag_pads a" "ag_next ?a = Suc (ag_next a)"
    "ag_input_bin ?a = Some (ag_next a)" "hash_ok (ag_children ?a)"
    using ch(2) by (simp_all add: e hash_ok_deletes hash_ok_update)
  have noenc: "tb_enc tb = None" if "map_of (ag_children ?a) b = Some tb" for b tb
  proof (rule ccontr)
    assume "tb_enc tb \<noteq> None"
    then obtain en where "tb_enc tb = Some en" by auto
    then have "b \<noteq> ag_next a" "b \<notin> set (ag_bins a)" "\<exists>t'. map_of (ag_children a) b = Some t' \<and> tb_enc t' = Some en"
      using that kids [of b] ch(4) [of b tb] by (auto split: if_splits)
    then show False using t by (auto simp: tree_ok_def)
  qed
  have lt: "b < Suc (ag_next a)" if "b \<in> dom (map_of (ag_children ?a))" for b
  proof (cases "b = ag_next a")
    case False
    then have "b \<in> dom (map_of ch)" using that kids [of b] by (simp add: domIff split: if_splits)
    then show ?thesis using t by (simp add: ch(3) tree_ok_def less_SucI)
  qed simp
  have "tree_ok ?a"
    using t lt noenc fields kids unfolding tree_ok_def by (auto simp: feed_of_def)
  moreover have "encoders_ok ?a" using noenc by (simp add: encoders_ok_def)
  moreover have "signals_ok ?a" using signals_ok_frame [of a ?a] assms by (simp add: e agnostic_ok_def)
  moreover have "told ?a" by (simp add: told_def fields)
  ultimately show "agnostic_ok ?a" by (simp add: agnostic_ok_def fields)
  show "\<not> ag_started ?a" by (simp add: fields)
qed

lemma sink_caps_keeps: "agnostic_ok a \<Longrightarrow> agnostic_ok (kms_agnostic_bin2_sink_caps_probe env caps a)"
proof -
  assume a: "agnostic_ok a"
  have caps: "agnostic_ok (a\<lparr>ag_input_caps := c\<rparr>)" for c using a by (rule agnostic_ok_frame) simp_all
  have gaps: "agnostic_ok (x\<lparr>ag_gap_probes := k\<rparr>)" if "agnostic_ok x" for x :: "'a agnostic_bin" and k
    using that by (rule agnostic_ok_frame) simp_all
  show ?thesis unfolding kms_agnostic_bin2_sink_caps_probe_def
    using a caps configure_keeps(1) [OF caps] gaps by (auto simp: Let_def split: option.split)
qed


text \<open>A change of the children that leaves their links and encoders alone.\<close>

lemma children_keep:
  assumes a: "parts_ok a" and h: "hash_ok ch" "dom (map_of ch) = dom (map_of (ag_children a))"
    and same: "\<And>b t. map_of ch b = Some t \<Longrightarrow> \<exists>t'. map_of (ag_children a) b = Some t' \<and> (tb_feed t', tb_enc t') = (tb_feed t, tb_enc t)"
  shows "parts_ok (a\<lparr>ag_children := ch\<rparr>)"
proof -
  have f: "Option.bind (map_of ch b) tb_feed = Option.bind (map_of (ag_children a) b) tb_feed" for b
  proof (cases "map_of ch b")
    case None
    then have "map_of (ag_children a) b = None" using h(2) by (metis domIff)
    then show ?thesis using None by simp
  next
    case (Some t)
    then show ?thesis using same [OF Some] by auto
  qed
  then have feed: "feed_of (a\<lparr>ag_children := ch\<rparr>) = feed_of a" by (simp add: feed_of_def fun_eq_iff)
  have enc: "\<exists>t'. map_of (ag_children a) b = Some t' \<and> tb_enc t' = Some e" if "map_of ch b = Some t" "tb_enc t = Some e" for b t e
    using same [OF that(1)] that(2) by auto
  have "\<forall>b t e. map_of ch b = Some t \<longrightarrow> tb_enc t = Some e \<longrightarrow> b \<in> set (ag_bins a)"
    using enc a unfolding parts_ok_def tree_ok_def by metis
  then have "tree_ok (a\<lparr>ag_children := ch\<rparr>)"
    using a h unfolding parts_ok_def tree_ok_def feed by simp
  moreover have "\<forall>b t e. map_of ch b = Some t \<longrightarrow> tb_enc t = Some e \<longrightarrow> limited a e"
    using enc a unfolding parts_ok_def encoders_ok_def by metis
  then have "encoders_ok (a\<lparr>ag_children := ch\<rparr>)" by (simp add: encoders_ok_def limited_def)
  moreover have "signals_ok (a\<lparr>ag_children := ch\<rparr>)"
    using signals_ok_frame [of a "a\<lparr>ag_children := ch\<rparr>"] a by (simp add: parts_ok_def)
  ultimately show ?thesis by (simp add: parts_ok_def)
qed

lemma entry_keep:
  assumes "parts_ok a" "\<And>t. tb_feed (f t) = tb_feed t" "\<And>t. tb_enc (f t) = tb_enc t"
  shows "parts_ok (a\<lparr>ag_children := AList.map_entry b f (ag_children a)\<rparr>)"
proof (rule children_keep [OF assms(1)])
  show "hash_ok (AList.map_entry b f (ag_children a))" using assms(1) by (auto simp: parts_ok_def tree_ok_def)
  show "\<exists>t'. map_of (ag_children a) c = Some t' \<and> (tb_feed t', tb_enc t') = (tb_feed t, tb_enc t)"
    if "map_of (AList.map_entry b f (ag_children a)) c = Some t" for c t
    using entry_keeps [OF that, of "\<lambda>t. (tb_feed t, tb_enc t)"] assms(2,3) by simp
qed simp

lemma input_caps_keeps: "agnostic_ok a \<Longrightarrow> agnostic_ok (kms_tree_bin_set_input_caps b caps a)"
  unfolding kms_tree_bin_set_input_caps_def agnostic_ok_parts
  by (elim conjE, intro conjI entry_keep) (auto simp: target_ok_def told_def)

lemma add_linked_ok:
  assumes a: "parts_ok a" "ag_started a" and r: "add_linked_pads env n a = Some (Inr a')"
  shows "parts_ok a' \<and> padded n a a' \<and> target_ok a' n"
proof (cases "\<exists>p. map_of (ag_pads a) n = Some p \<and> ap_linked p")
  case True
  then obtain b where b: "kms_agnostic_bin2_process_pad env n (remove_target_pad n a) = Some (Inr (a', b))"
    using r by (auto simp: add_linked_pads_def)
  note rm = remove_target_ok [OF a(1), of n]
  have "ag_started (remove_target_pad n a)" using rm(2) a(2) by (simp add: padded_def)
  then show ?thesis using process_pad_ok [OF rm(1) _ b] rm(3) padded_trans [OF rm(2)] by blast
next
  case False
  then have "a' = a" using r by (auto simp: add_linked_pads_def split: option.split_asm)
  moreover have "target_ok a n" using a(1) False by (auto simp: target_ok_def parts_ok_def tree_ok_def)
  ultimately show ?thesis using a by simp
qed

lemma add_all_linked_ok:
  assumes "parts_ok a" "ag_started a" "told a" "\<forall>n. n \<notin> set ns \<longrightarrow> target_ok a n"
    and "fold_ret (add_linked_pads env) ns a = Some (Inr a')"
  shows "agnostic_ok a'"
  using assms
proof (induction ns arbitrary: a)
  case Nil
  then show ?case by (simp add: agnostic_ok_parts)
next
  case (Cons n ns)
  obtain a1 where a1: "add_linked_pads env n a = Some (Inr a1)" "fold_ret (add_linked_pads env) ns a1 = Some (Inr a')"
    using Cons.prems(5) by (auto simp: bind_ret_Inr_iff)
  note ok = add_linked_ok [OF Cons.prems(1,2) a1(1)]
  have "target_ok a1 m" if "m \<notin> set ns" for m
    using ok Cons.prems(4) that padded_target [of n a a1 m] by (cases "m = n") auto
  then show ?case
    using Cons.IH [OF _ _ _ _ a1(2)] ok Cons.prems(2) padded_told [OF _ Cons.prems(3), of n a1]
    by (auto simp: padded_def)
qed

lemma parser_caps_keeps:
  assumes a: "agnostic_ok a" "ag_input_bin a = Some b" and r: "input_bin_src_caps_probe env b caps a = Some (Inr a')"
  shows "agnostic_ok a'"
proof -
  define a1 where "a1 = a\<lparr>ag_children := AList.map_entry b (\<lambda>tb. tb\<lparr>tb_probe := False\<rparr>) (ag_children a)\<rparr>"
  define a2 where "a2 = kms_agnostic_bin2_insert_bin b (a1\<lparr>ag_started := True, ag_input_bin_src_caps := Some caps\<rparr>)"
  have a1: "parts_ok a1" unfolding a1_def using a(1) by (intro entry_keep) (auto simp: agnostic_ok_parts)
  have in1: "feed_of a1 b = Some Input_tee" using a1 a(2) by (simp add: parts_ok_def tree_ok_def a1_def)
  then have b2: "fed (feed_of a1) b" by (rule fed_input)
  note b = fed_child [OF b2] b2
  have f: "feed_of a2 = feed_of a1" by (simp add: a2_def feed_of_def fun_eq_iff)
  have bins: "set (ag_bins a2) = insert b (set (ag_bins a1))" by (simp add: a2_def)
  have "tree_ok a2" using a1 b a(2) unfolding parts_ok_def tree_ok_def f bins
    by (auto simp: a2_def a1_def)
  moreover have "encoders_ok a2" using a1 by (auto simp: parts_ok_def encoders_ok_def limited_def a2_def)
  moreover have "signals_ok a2" using signals_ok_frame [of a1 a2] a1 by (simp add: parts_ok_def a2_def)
  ultimately have ok: "parts_ok a2" by (simp add: parts_ok_def)
  have told: "told a2" using a by (auto simp: agnostic_ok_def told_def a2_def a1_def)
  have none: "target_ok a2 n" if "n \<notin> set (map fst (ag_pads a2))" for n
  proof -
    have "map_of (ag_pads a2) n = None" using that by (simp add: map_of_eq_None_iff)
    then show ?thesis by (simp add: target_ok_def)
  qed
  have e: "fold_ret (add_linked_pads env) (map fst (ag_pads a2)) a2 = Some (Inr a')"
    using r by (simp add: input_bin_src_caps_probe_def a2_def a1_def Let_def)
  show ?thesis by (rule add_all_linked_ok [OF ok _ told _ e]) (use none in \<open>auto simp: a2_def\<close>)
qed


subsection \<open>Encoders\<close>

text \<open>A call to an encoder: only that one changes, and it stays an encoder.\<close>

lemma on_encoder_cases:
  assumes "on_encoder b f a = Some (Inr a')"
  shows "a' = a \<and> Option.bind (map_of (ag_children a) b) tb_enc = None \<or>
    (\<exists>t e e1. map_of (ag_children a) b = Some t \<and> tb_enc t = Some e \<and> f e = Inr e1 \<and>
       a' = a\<lparr>ag_children := AList.map_entry b (\<lambda>tb. tb\<lparr>tb_enc := Some e1\<rparr>) (ag_children a)\<rparr>)"
  using assms by (auto simp: on_encoder_def bind_ret_Inr_iff bind_eq_Some_conv split: option.split_asm)

lemma tree_ok_encoder:
  assumes "tree_ok a" "map_of (ag_children a) b = Some t" "tb_enc t = Some e"
  shows "tree_ok (a\<lparr>ag_children := AList.map_entry b (\<lambda>tb. tb\<lparr>tb_enc := Some e1\<rparr>) (ag_children a)\<rparr>)"
proof -
  let ?a = "a\<lparr>ag_children := AList.map_entry b (\<lambda>tb. tb\<lparr>tb_enc := Some e1\<rparr>) (ag_children a)\<rparr>"
  have f: "feed_of ?a = feed_of a"
    by (auto simp: feed_of_def fun_eq_iff AList.map_of_map_entry split: option.split)
  have "c \<in> set (ag_bins a)" if "map_of (ag_children ?a) c = Some t'" "tb_enc t' = Some e'" for c t' e'
    using that assms by (cases "c = b") (auto simp: tree_ok_def AList.map_of_map_entry)
  then have "\<forall>c t' e'. map_of (ag_children ?a) c = Some t' \<longrightarrow> tb_enc t' = Some e' \<longrightarrow> c \<in> set (ag_bins ?a)" by simp
  then show ?thesis using assms(1) unfolding tree_ok_def f by (simp add: hash_ok_map_entry)
qed

definition limited_but :: "nat set \<Rightarrow> 'c agnostic_bin \<Rightarrow> bool" where
  "limited_but bs a \<longleftrightarrow> (\<forall>b t e. map_of (ag_children a) b = Some t \<longrightarrow> tb_enc t = Some e \<longrightarrow> b \<notin> bs \<longrightarrow> limited a e)"

text \<open>Only the encoders differ.\<close>

definition same_but_encoders :: "'c agnostic_bin \<Rightarrow> 'c agnostic_bin \<Rightarrow> bool" where
  "same_but_encoders a a' \<longleftrightarrow> ag_pads a' = ag_pads a \<and> ag_bins a' = ag_bins a \<and> ag_started a' = ag_started a \<and>
     ag_input_bin a' = ag_input_bin a \<and> ag_min a' = ag_min a \<and> ag_max a' = ag_max a \<and> ag_target a' = ag_target a \<and>
     ag_transcoding a' = ag_transcoding a \<and> ag_signals a' = ag_signals a"

lemma on_encoder_ok:
  assumes "tree_ok a" "limited_but (insert b bs) a" "on_encoder b f a = Some (Inr a')"
    "\<And>t e e1. map_of (ag_children a) b = Some t \<Longrightarrow> tb_enc t = Some e \<Longrightarrow> f e = Inr e1 \<Longrightarrow> limited a e1"
  shows "tree_ok a' \<and> limited_but bs a' \<and> same_but_encoders a a'"
  using on_encoder_cases [OF assms(3)]
proof (elim disjE exE conjE)
  assume "a' = a" "Option.bind (map_of (ag_children a) b) tb_enc = None"
  then show ?thesis using assms(1,2) unfolding limited_but_def same_but_encoders_def by (metis bind.bind_lunit insertE option.distinct(1))
next
  fix t e e1
  assume t: "map_of (ag_children a) b = Some t" "tb_enc t = Some e" "f e = Inr e1"
    and a': "a' = a\<lparr>ag_children := AList.map_entry b (\<lambda>tb. tb\<lparr>tb_enc := Some e1\<rparr>) (ag_children a)\<rparr>"
  have "limited a e1" using assms(4) [OF t] .
  then have "limited_but bs a'"
    using assms(2) t(1) by (auto simp: limited_but_def a' limited_def AList.map_of_map_entry split: if_splits)
  then show ?thesis using tree_ok_encoder [OF assms(1) t(1,2)] by (simp add: a' same_but_encoders_def)
qed

lemma set_encoders_ok:
  assumes "tree_ok a" "limited_but (set bs) a"
    and "fold_ret (\<lambda>b a. on_encoder b (kms_enc_tree_bin_set_bitrate keep (ag_target a) (ag_min a) (ag_max a)) a) bs a = Some (Inr a')"
  shows "tree_ok a' \<and> limited_but {} a' \<and> same_but_encoders a a'"
  using assms
proof (induction bs arbitrary: a)
  case Nil
  then show ?case by (simp add: same_but_encoders_def)
next
  case (Cons b bs)
  obtain a1 where a1: "on_encoder b (kms_enc_tree_bin_set_bitrate keep (ag_target a) (ag_min a) (ag_max a)) a = Some (Inr a1)"
    "fold_ret (\<lambda>b a. on_encoder b (kms_enc_tree_bin_set_bitrate keep (ag_target a) (ag_min a) (ag_max a)) a) bs a1 = Some (Inr a')"
    using Cons.prems(3) by (auto simp: bind_ret_Inr_iff)
  have "tree_ok a1 \<and> limited_but (set bs) a1 \<and> same_but_encoders a a1"
    by (rule on_encoder_ok [OF Cons.prems(1) _ a1(1)])
      (use Cons.prems(2) in \<open>auto simp: kms_enc_tree_bin_set_bitrate_def limited_def dest!: set_target_limited\<close>)
  then show ?case using Cons.IH [OF _ _ a1(2)] by (auto simp: same_but_encoders_def)
qed

lemma same_but_encoders_keeps:
  assumes "agnostic_ok a" "tree_ok a'" "limited_but {} a'" "same_but_encoders (a\<lparr>ag_target := t, ag_min := mn, ag_max := mx, ag_unlimited := u\<rparr>) a'"
  shows "agnostic_ok a'"
proof -
  have "signals_ok a'" using signals_ok_frame [of a a'] assms(1,4) by (simp add: agnostic_ok_def same_but_encoders_def)
  moreover have "encoders_ok a'" using assms(3) by (simp add: limited_but_def encoders_ok_def)
  ultimately show ?thesis using assms by (simp add: agnostic_ok_def same_but_encoders_def target_ok_def told_def)
qed

lemma encoder_told_keeps:
  assumes "agnostic_ok a" "on_encoder b f a = Some (Inr a')"
    "\<And>e e1. f e = Inr e1 \<Longrightarrow> limited a e \<Longrightarrow> limited a e1"
  shows "agnostic_ok a'"
proof -
  have a: "tree_ok a" "encoders_ok a" using assms(1) by (simp_all add: agnostic_ok_def)
  have "tree_ok a' \<and> limited_but {} a' \<and> same_but_encoders a a'"
  proof (rule on_encoder_ok [OF a(1) _ assms(2)])
    show "limited_but {b} a" using a(2) by (simp add: encoders_ok_def limited_but_def)
    fix t e e1
    assume "map_of (ag_children a) b = Some t" "tb_enc t = Some e" "f e = Inr e1"
    then show "limited a e1" using a(2) assms(3) by (auto simp: encoders_ok_def)
  qed
  then show ?thesis using same_but_encoders_keeps [OF assms(1), where t = "ag_target a" and mn = "ag_min a" and mx = "ag_max a" and u = "ag_unlimited a"] by simp
qed

lemma set_property_keeps:
  assumes a: "agnostic_ok a" and r: "kms_agnostic_bin2_set_property env property_id v a = Some (Inr a')"
  shows "agnostic_ok a'"
proof -
  obtain t mn mx u where s: "kms_agnostic_bin_set_encoders_bitrate env (a\<lparr>ag_target := t, ag_min := mn, ag_max := mx, ag_unlimited := u\<rparr>) = Some (Inr a')"
  proof (cases property_id)
    case PROP_TARGET_ENCODER_BITRATE
    then show ?thesis using r that [where t = v and mn = "ag_min a" and mx = "ag_max a" and u = "ag_unlimited a"] by (simp add: kms_agnostic_bin2_set_property_def)
  next
    case PROP_MIN_ENCODER_BITRATE
    then show ?thesis using r that [where t = "ag_target a" and mn = v and mx = "ag_max a" and u = "ag_unlimited a"] by (simp add: kms_agnostic_bin2_set_property_def)
  next
    case PROP_MAX_ENCODER_BITRATE
    then show ?thesis using r that [where t = "ag_target a" and mn = "ag_min a" and mx = "if v = 0 then G_MAXINT else v" and u = "v = 0"]
      by (simp add: kms_agnostic_bin2_set_property_def)
  qed
  let ?a = "a\<lparr>ag_target := t, ag_min := mn, ag_max := mx, ag_unlimited := u\<rparr>"
  have t: "tree_ok ?a" using a tree_ok_frame [of a ?a] by (simp add: agnostic_ok_def)
  have "limited_but (set (ag_bins ?a)) ?a" using a by (auto simp: agnostic_ok_def tree_ok_def limited_but_def)
  then have "tree_ok a' \<and> limited_but {} a' \<and> same_but_encoders ?a a'"
    using set_encoders_ok [OF t, of "ag_bins ?a"] s unfolding kms_agnostic_bin_set_encoders_bitrate_def by blast
  then show ?thesis using same_but_encoders_keeps [OF a] by blast
qed


section \<open>Over any run\<close>

lemma init_ok: "agnostic_ok kms_agnostic_bin2_init"
  by (simp add: agnostic_ok_def tree_ok_def encoders_ok_def signals_ok_def told_def kms_agnostic_bin2_init_def)

lemma step_keeps_ok:
  assumes "agnostic_ok a" "agnostic_step c a = Some (Inr a')"
  shows "agnostic_ok a'"
proof (cases c)
  case (Link_src n)
  have "agnostic_ok (with_pad n (\<lambda>p. p\<lparr>ap_linked := True\<rparr>) a)"
    by (rule with_pad_agnostic_ok [OF assms(1)]) (auto simp: harmless_def)
  then show ?thesis using assms(2) Link_src by simp
next
  case (Parser_caps env caps)
  then show ?thesis using assms parser_caps_keeps [OF assms(1)] by (auto split: option.split_asm if_split_asm)
next
  case (Flow r)
  then show ?thesis using assms configure_keeps(1) [OF assms(1)]
    by (auto simp: check_ret_error_def split: flow_return.split_asm)
next
  case (Remb_at env b bitrate)
  then show ?thesis using assms(2)
    by (intro encoder_told_keeps [OF assms(1)])
      (auto simp: bitrate_callback_def limited_def dest!: set_target_limited split: if_split_asm)
next
  case (Tags_at env b tag)
  then show ?thesis using assms(2)
    by (intro encoder_told_keeps [OF assms(1)])
      (auto simp: tag_event_probe_def limited_def dest!: set_target_limited split: option.split_asm)
qed (use assms in \<open>auto intro: request_keeps release_pad_keeps unlinked_keeps reconfigure_keeps refused_keeps
      sink_caps_keeps input_caps_keeps set_property_keeps\<close>)

definition ret_ok :: "'c agnostic_bin ret \<Rightarrow> bool" where
  "ret_ok m \<longleftrightarrow> (\<forall>a. m = Some (Inr a) \<longrightarrow> agnostic_ok a)"

interpretation agnostic: invariant_machine "\<lambda>m c. bind_ret m (agnostic_step c)" "\<lambda>_ _. True" ret_ok
  by unfold_locales (auto simp: ret_ok_def bind_ret_Inr_iff intro: step_keeps_ok)

lemma run_ok: "agnostic_run calls = Some (Inr a) \<Longrightarrow> agnostic_ok a"
  using agnostic.run_keeps [of "ret kms_agnostic_bin2_init" calls] init_ok
  by (simp add: ret_ok_def agnostic_run_def allowed_run_always)

text \<open>
  C17: After any calls that return, in any order and with whatever GStreamer answers: while the bin
  is started, each pad that has a source has it from a bin in use, which media reaches from the
  sink through other bins; and every encoder has the limits of the bin and works within them.
\<close>

theorem agnostic_pads_fed:
  assumes "agnostic_run calls = Some (Inr a)"
  shows "(ag_started a \<longrightarrow> (\<forall>n p b. map_of (ag_pads a) n = Some p \<longrightarrow> ap_target p = Some b \<longrightarrow>
      ap_linked p \<and> b \<in> set (ag_bins a) \<and> fed (feed_of a) b)) \<and>
    (\<forall>b t e. map_of (ag_children a) b = Some t \<longrightarrow> tb_enc t = Some e \<longrightarrow> b \<in> set (ag_bins a) \<and>
      et_min e = ag_min a \<and> et_max e = ag_max a \<and> et_current e = max (ag_min a) (min (ag_max a) (et_current e)))"
proof -
  have ok: "tree_ok a" "encoders_ok a" "ag_started a \<longrightarrow> (\<forall>n. target_ok a n)"
    using run_ok [OF assms] by (simp_all add: agnostic_ok_def)
  have "ap_linked p \<and> b \<in> set (ag_bins a) \<and> fed (feed_of a) b"
    if "ag_started a" "map_of (ag_pads a) n = Some p" "ap_target p = Some b" for n p b
    using ok(1,3) that by (auto simp: tree_ok_def target_ok_def)
  moreover have "b \<in> set (ag_bins a) \<and> et_min e = ag_min a \<and> et_max e = ag_max a \<and>
      et_current e = max (ag_min a) (min (ag_max a) (et_current e))"
    if "map_of (ag_children a) b = Some t" "tb_enc t = Some e" for b t e
  proof -
    have "b \<in> set (ag_bins a)" "limited a e" using ok(1,2) that unfolding tree_ok_def encoders_ok_def by blast+
    then show ?thesis unfolding limited_def KMS_ENC_TREE_BIN_LIMIT_def by metis
  qed
  ultimately show ?thesis by blast
qed



text \<open>Of some codecs: 0 comes in, the peers take 1; 2 is raw video.\<close>

definition demo_env :: "nat agnostic_env" where
  "demo_env = \<lparr>ae_can_intersect = (=), ae_intersect = (\<lambda>x _. x), ae_is_any = (\<lambda>_. False), ae_is_empty = (\<lambda>_. False),
     ae_size = (\<lambda>_. 1), ae_is_raw = (\<lambda>c. c = 2), ae_is_rtp = (\<lambda>c. c = 3), ae_is_audio = (\<lambda>_. False), ae_is_video = (\<lambda>_. True),
     ae_raw_audio = 4, ae_raw_video = 2, ae_strip = (\<lambda>c. c),
     ae_decoder = (\<lambda>_ _. Some \<lparr>fa_name = ''vp8dec'', fa_num_templates = 2\<rparr>), ae_gives_caps = (\<lambda>c _. c = 1),
     ae_encoders = [\<lparr>fa_name = ''x264enc'', fa_num_templates = 2\<rparr>], ae_create = (\<lambda>f. (fa_name f, 2048)), ae_keep = (\<lambda>_ v. v),
     ae_pays_caps = (\<lambda>_ _ _. True), ae_payloaders = [\<lparr>fa_name = ''rtph264pay'', fa_num_templates = 2\<rparr>], ae_pay_input = (\<lambda>_. 1),
     ae_allowed = (\<lambda>_. None), ae_peer_caps = (\<lambda>_. Some 1), ae_current_caps = (\<lambda>_. None), ae_peer_accepts = (\<lambda>_ _. True)\<rparr>"

definition demo_calls :: "nat agnostic_call list" where
  "demo_calls = [Request_src, Link_src ''src_0'', Sink_caps demo_env (Some 0), Parser_caps demo_env 0, Reconfigure demo_env ''src_0'']"

lemma demo_bin_runs:
  "\<exists>a. agnostic_run demo_calls = Some (Inr a) \<and> ag_started a \<and> ag_bins a = [2, 1, 0] \<and> map fst (ag_signals a) = [True] \<and>
     Option.bind (map_of (ag_pads a) ''src_0'') ap_target = Some 2"
proof -
  have "case agnostic_run demo_calls of Some (Inr a) \<Rightarrow> ag_started a \<and> ag_bins a = [2, 1, 0] \<and> map fst (ag_signals a) = [True] \<and>
     Option.bind (map_of (ag_pads a) ''src_0'') ap_target = Some 2 | _ \<Rightarrow> False"
    by (code_simp, subst kms_agnostic_bin2_find_or_create_bin_for_caps.simps, code_simp)
  then show ?thesis by (auto split: option.split_asm sum.split_asm)
qed

lemma agnostic_pads_fed_witness:
  "\<exists>a. agnostic_run demo_calls = Some (Inr a) \<and> 2 \<in> set (ag_bins a) \<and> fed (feed_of a) 2"
proof -
  obtain a where a: "agnostic_run demo_calls = Some (Inr a)" "ag_started a"
    "Option.bind (map_of (ag_pads a) ''src_0'') ap_target = Some 2" using demo_bin_runs by blast
  then show ?thesis using agnostic_pads_fed [OF a(1)] by (auto simp: bind_eq_Some_conv)
qed


section \<open>Formats that are there are shared\<close>

definition fits :: "'c agnostic_env \<Rightarrow> 'c agnostic_bin \<Rightarrow> 'c \<Rightarrow> nat \<Rightarrow> bool" where
  "fits env a caps b \<longleftrightarrow> check_bin env a b caps \<noteq> None"

lemma first_bin_finds:
  assumes "b \<in> set bs" "fits env a caps b" "Some b \<noteq> ag_input_bin a"
  shows "\<exists>b' c. first_bin env a bs caps = (Some b', c) \<and> fits env a caps b'"
  using assms by (induction bs) (auto simp: fits_def split: option.split)

lemma find_bin_finds:
  assumes "ag_input_bin a = Some i" "i \<in> set (ag_bins a)" "b \<in> set (ag_bins a)" "fits env a caps b"
    "\<not> ae_is_any env caps" "\<not> ae_is_empty env caps"
  shows "\<exists>b' c. kms_agnostic_bin2_find_bin_for_caps env a caps = ret (Some b', c) \<and> fits env a caps b' \<and>
    (fits env a caps i \<longrightarrow> b' = i)"
proof (cases "check_bin env a i caps")
  case None
  then have "Some b \<noteq> ag_input_bin a" using assms(1,4) by (auto simp: fits_def)
  then obtain b' c where f: "first_bin env a (ag_bins a) caps = (Some b', c)" "fits env a caps b'"
    using first_bin_finds [OF assms(3,4)] by blast
  show ?thesis
    by (rule exI [of _ b'], rule exI [of _ c]) (use f assms(1,5,6) None in \<open>simp add: kms_agnostic_bin2_find_bin_for_caps_def fits_def\<close>)
next
  case (Some c)
  then show ?thesis using assms by (auto simp: kms_agnostic_bin2_find_bin_for_caps_def fits_def)
qed

text \<open>
  C18: After any calls, while the bin is started: when a bin in use gives a format that the peer of a
  pad takes, linking the pad makes no bin, and the pad gets its media from a bin that fits, from the
  one that parses the input where that fits.
\<close>

theorem formats_shared:
  assumes "agnostic_run calls = Some (Inr a)" "ag_started a" "ae_peer_caps env n = Some caps"
    and "\<not> ae_is_any env caps" "\<not> ae_is_empty env caps" "b \<in> set (ag_bins a)" "fits env a caps b"
    and "n \<in> dom (map_of (ag_pads a))"
  shows "\<exists>a' p b'. kms_agnostic_bin2_link_pad env n a = Some (Inr a') \<and> ag_children a' = ag_children a \<and> ag_bins a' = ag_bins a \<and>
    map_of (ag_pads a') n = Some p \<and> ap_target p = Some b' \<and> fits env a caps b' \<and>
    (\<forall>i. ag_input_bin a = Some i \<longrightarrow> fits env a caps i \<longrightarrow> b' = i)"
proof -
  obtain i where i: "ag_input_bin a = Some i" "i \<in> set (ag_bins a)"
    using run_ok [OF assms(1)] assms(2) by (auto simp: agnostic_ok_def tree_ok_def)
  obtain b' c where f: "kms_agnostic_bin2_find_bin_for_caps env a caps = ret (Some b', c)" "fits env a caps b'"
    "fits env a caps i \<longrightarrow> b' = i"
    using find_bin_finds [OF i assms(6,7,4,5)] by blast
  have "kms_agnostic_bin2_find_or_create_bin_for_caps env a caps =
      ret (signal_transcoding False (media_type_of env c) a, Some b', c)"
    by (subst kms_agnostic_bin2_find_or_create_bin_for_caps.simps) (simp add: f(1))
  then have l: "kms_agnostic_bin2_link_pad env n a = ret (kms_agnostic_bin2_link_to_tee env n b' c
      (let a1 = signal_transcoding False (media_type_of env c) a in if \<not> ae_is_rtp env c then a1\<lparr>ag_drops := n # ag_drops a1\<rparr> else a1))"
    using assms(3) by (simp add: kms_agnostic_bin2_link_pad_def Let_def)
  obtain q where "map_of (ag_pads a) n = Some q" using assms(8) by blast
  then show ?thesis using f(2,3) i(1) unfolding l
    by (simp add: ret_def kms_agnostic_bin2_link_to_tee_def Let_def)
qed

text \<open>The peer of another pad takes what the first one got.\<close>

lemma formats_shared_witness:
  "\<exists>a a' p b. agnostic_run (demo_calls @ [Tee_caps 2 1, Request_src, Link_src ''src_1'']) = Some (Inr a) \<and>
     kms_agnostic_bin2_link_pad demo_env ''src_1'' a = Some (Inr a') \<and> ag_children a' = ag_children a \<and>
     map_of (ag_pads a') ''src_1'' = Some p \<and> ap_target p = Some b \<and> fits demo_env a 1 b"
proof -
  have "case agnostic_run (demo_calls @ [Tee_caps 2 1, Request_src, Link_src ''src_1'']) of
      Some (Inr a) \<Rightarrow> ag_started a \<and> 2 \<in> set (ag_bins a) \<and> check_bin demo_env a 2 1 = Some 1 \<and> map_of (ag_pads a) ''src_1'' \<noteq> None
    | _ \<Rightarrow> False"
    by (code_simp, subst kms_agnostic_bin2_find_or_create_bin_for_caps.simps, code_simp)
  then obtain a where a: "agnostic_run (demo_calls @ [Tee_caps 2 1, Request_src, Link_src ''src_1'']) = Some (Inr a)"
    "ag_started a" "2 \<in> set (ag_bins a)" "fits demo_env a 1 2" "''src_1'' \<in> dom (map_of (ag_pads a))"
    by (auto simp: fits_def split: option.split_asm sum.split_asm)
  have e: "ae_peer_caps demo_env ''src_1'' = Some 1" "\<not> ae_is_any demo_env 1" "\<not> ae_is_empty demo_env 1"
    by (simp_all add: demo_env_def)
  show ?thesis using formats_shared [OF a(1,2) e a(3-5)] a(1) by blast
qed

section \<open>Every call returns\<close>

text \<open>No payloader takes RTP itself.\<close>

definition takes_no_rtp :: "'c agnostic_env \<Rightarrow> bool" where
  "takes_no_rtp env \<longleftrightarrow> (\<forall>f \<in> set (ae_payloaders env). \<not> ae_is_rtp env (ae_pay_input env f))"

definition returns :: "'a ret \<Rightarrow> bool" where
  "returns m \<longleftrightarrow> m \<noteq> None"

lemma returns_ret [simp]: "returns (ret x)" "returns (fault e)" "returns (Some r)"
  by (simp_all add: returns_def ret_def fault_def)

lemma returns_bind [intro!]: "returns m \<Longrightarrow> (\<And>x. m = Some (Inr x) \<Longrightarrow> returns (f x)) \<Longrightarrow> returns (bind_ret m f)"
  by (auto simp: returns_def bind_ret_def split: sum.split)

lemma returns_fold: "(\<And>x s. returns (f x s)) \<Longrightarrow> returns (fold_ret f xs s)"
  by (induction xs arbitrary: s) auto

lemma find_bin_returns [intro!]: "returns (kms_agnostic_bin2_find_bin_for_caps env a caps)"
  by (auto simp: kms_agnostic_bin2_find_bin_for_caps_def split: option.split)

lemma dec_bin_returns [intro!]: "returns (kms_agnostic_bin2_get_or_create_dec_bin env a caps)"
  unfolding kms_agnostic_bin2_get_or_create_dec_bin_def by (auto split: option.split prod.split)

lemma create_bin_returns [intro!]: "returns (create_bin_no_rtp env a caps)"
  unfolding create_bin_no_rtp_def by (auto simp: Let_def split: option.split prod.split)

lemma first_bin_none: "first_bin env a bs caps = (None, c) \<Longrightarrow> c = caps"
  by (induction bs) (auto split: if_splits option.splits)

lemma find_bin_none: "kms_agnostic_bin2_find_bin_for_caps env a caps = Some (Inr (None, c)) \<Longrightarrow> c = caps"
  by (auto simp: kms_agnostic_bin2_find_bin_for_caps_def dest: first_bin_none split: if_splits option.splits)

lemma find_or_create_no_rtp: "\<not> ae_is_rtp env caps \<Longrightarrow> returns (kms_agnostic_bin2_find_or_create_bin_for_caps env a caps)"
  by (subst kms_agnostic_bin2_find_or_create_bin_for_caps.simps) (auto dest!: find_bin_none split: option.split)

lemma selected_in: "select_payloader fs = Inr (Some f) \<Longrightarrow> f \<in> set fs"
  by (induction fs) (auto split: if_splits)

lemma searched_in: "search_payloader g fs = Inr (Some f) \<Longrightarrow> f \<in> set fs"
  by (auto simp: search_payloader_def bind_result_Inr_iff dest!: selected_in split: option.splits)

lemma new_rtp_pay_bin_input: "new_rtp_pay_bin env a caps = Some (Inr (a1, Some (p, c))) \<Longrightarrow> \<exists>f \<in> set (ae_payloaders env). c = ae_pay_input env f"
  by (auto simp: new_rtp_pay_bin_def bind_ret_Inr_iff gst_bin_add_def Let_def dest!: searched_in split: option.splits)

lemma new_rtp_pay_bin_returns [intro!]: "returns (new_rtp_pay_bin env a caps)"
  unfolding new_rtp_pay_bin_def by (auto simp: Let_def split: option.split prod.split)

lemma link_rtp_pay_bin_returns [intro!]: "returns (link_rtp_pay_bin p e a)"
  by (auto simp: link_rtp_pay_bin_def Let_def split: option.split)

lemma find_or_create_returns:
  assumes "takes_no_rtp env"
  shows "returns (kms_agnostic_bin2_find_or_create_bin_for_caps env a caps)"
proof -
  have pay: "\<not> ae_is_rtp env c" if "new_rtp_pay_bin env a caps = Some (Inr (a1, Some (p, c)))" for a1 p c
    using new_rtp_pay_bin_input [OF that] assms by (auto simp: takes_no_rtp_def)
  show ?thesis
    by (subst kms_agnostic_bin2_find_or_create_bin_for_caps.simps)
      (auto dest!: find_bin_none pay intro!: find_or_create_no_rtp split: option.split)
qed

lemma process_returns [intro]: "takes_no_rtp env \<Longrightarrow> returns (kms_agnostic_bin2_process_pad env n a)"
  by (auto simp: kms_agnostic_bin2_process_pad_def kms_agnostic_bin2_link_pad_def Let_def
      intro!: find_or_create_returns split: option.split)

lemma drop_result_returns [intro!]: "returns m \<Longrightarrow> returns (drop_result m)"
  by (auto simp: drop_result_def)

lemma on_encoder_returns [intro!]: "returns (on_encoder b f a)"
  by (auto simp: on_encoder_def split: option.split)

fun call_env :: "'c agnostic_call \<Rightarrow> 'c agnostic_env option" where
  "call_env (Reconfigure env n) = Some env"
| "call_env (Caps_refused env n) = Some env"
| "call_env (Parser_caps env caps) = Some env"
| "call_env _ = None"

lemma step_returns: "\<forall>env. call_env c = Some env \<longrightarrow> takes_no_rtp env \<Longrightarrow> returns (agnostic_step c a)"
  by (cases c) (auto simp: kms_agnostic_bin2_src_reconfigure_probe_def proxy_src_pad_query_function_def
      input_bin_src_caps_probe_def add_linked_pads_def kms_agnostic_bin2_set_property_def
      kms_agnostic_bin_set_encoders_bitrate_def Let_def intro!: returns_fold split: option.split bitrate_prop.split)

text \<open>As long as no payloader takes RTP, no call runs forever.\<close>

lemma agnostic_run_returns:
  assumes "\<forall>c \<in> set calls. \<forall>env. call_env c = Some env \<longrightarrow> takes_no_rtp env"
  shows "\<exists>r. agnostic_run calls = Some r"
proof -
  have "returns (foldl (\<lambda>m c. bind_ret m (agnostic_step c)) m calls)" if "returns m" for m :: "'a agnostic_bin ret"
    using assms that by (induction calls arbitrary: m) (auto intro: step_returns)
  then show ?thesis by (auto simp: agnostic_run_def returns_def ret_def)
qed

section \<open>What goes wrong\<close>

text \<open>An input bin that never saw caps of its parser is not in the table and stays in the bin for good.\<close>

lemma unused_input_stays:
  "case agnostic_run [Sink_caps demo_env (Some 0), Sink_caps demo_env (Some 1)] of
     Some (Inr a) \<Rightarrow> ag_input_bin a = Some 1 \<and> map fst (ag_children a) = [0, 1] \<and> ag_bins a = []
   | _ \<Rightarrow> False"
  by code_simp

text \<open>Each caps event of a video adds two more probes for gaps to the sink.\<close>

lemma gap_probes_pile_up:
  assumes "ae_size env caps \<noteq> 0" "ae_is_video env caps"
  shows "ag_gap_probes (kms_agnostic_bin2_sink_caps_probe env (Some caps) a) = Suc (ag_gap_probes a)"
proof -
  have "ag_gap_probes (kms_agnostic_bin2_configure_input x) = ag_gap_probes x" for x :: "'a agnostic_bin"
    by (simp add: kms_agnostic_bin2_configure_input_def gst_bin_add_def remove_bins
        kms_tree_bin_unlink_input_element_from_tee_def split: option.split)
  then show ?thesis using assms by (simp add: kms_agnostic_bin2_sink_caps_probe_def Let_def split: option.split)
qed

text \<open>RTP of a payloader without a bin that feeds it reads through NULL.\<close>

lemma pay_without_encoder_faults:
  "case agnostic_run (take 4 demo_calls @ [Reconfigure (demo_env\<lparr>ae_peer_caps := \<lambda>_. Some 3, ae_encoders := []\<rparr>) ''src_0'']) of
     Some (Inl e) \<Rightarrow> e = Null_dereference | _ \<Rightarrow> False"
  by (code_simp, subst kms_agnostic_bin2_find_or_create_bin_for_caps.simps, code_simp,
      subst kms_agnostic_bin2_find_or_create_bin_for_caps.simps, code_simp)

text \<open>What the limit is set to is read; 0 stands for no limit.\<close>

lemma max_is_read:
  assumes "kms_agnostic_bin2_set_property env PROP_MAX_ENCODER_BITRATE v a = Some (Inr a')"
  shows "kms_agnostic_bin2_get_property PROP_MAX_ENCODER_BITRATE a' = v \<and> ag_max a' = (if v = 0 then G_MAXINT else v)"
proof -
  have enc: "ag_max a' = ag_max a \<and> ag_unlimited a' = ag_unlimited a" if "on_encoder b f a = Some (Inr a')" for b f and a a' :: "'a agnostic_bin"
    using on_encoder_cases [OF that] by auto
  have "ag_max a' = ag_max a \<and> ag_unlimited a' = ag_unlimited a"
    if "fold_ret (\<lambda>b a. on_encoder b (g a) a) bs a = Some (Inr a')" for g bs and a a' :: "'a agnostic_bin"
    using that by (induction bs arbitrary: a) (auto simp: bind_ret_Inr_iff dest: enc)
  from this [OF assms [unfolded kms_agnostic_bin2_set_property_def kms_agnostic_bin_set_encoders_bitrate_def, simplified]]
  show ?thesis by (auto simp: kms_agnostic_bin2_get_property_def)
qed

end
