(* ===== verification/Recorder.thy ===== *)
theory Recorder
  imports BaseHub RembEvents
begin

text \<open>
  The recorder: \<open>kmsuriendpoint.c\<close> (stop, start and pause as states of an endpoint),
  \<open>kmsrecorderendpoint.c\<close> and the muxers it records into (\<open>kmsavmuxer.c\<close>, \<open>kmsksrmuxer.c\<close>, over
  \<open>kmsbasemediamuxer.c\<close>). A request to change the state lets the lock go while it works on the
  pipeline; what other threads do there is an argument of the request.
\<close>

section \<open>State\<close>

datatype uri_state = KMS_URI_ENDPOINT_STATE_STOP | KMS_URI_ENDPOINT_STATE_START | KMS_URI_ENDPOINT_STATE_PAUSE

datatype recorder_transition = KMS_RECORDER_ENDPOINT_COMPLETED | KMS_RECORDER_ENDPOINT_STARTING
  | KMS_RECORDER_ENDPOINT_PAUSING | KMS_RECORDER_ENDPOINT_STOPPING

datatype gst_state = GST_STATE_VOID_PENDING | GST_STATE_NULL | GST_STATE_READY | GST_STATE_PAUSED | GST_STATE_PLAYING

datatype uri_error = KMS_URI_ENDPOINT_INVALID_TRANSITION | KMS_URI_ENDPOINT_UNEXPECTED_ERROR

datatype recording_profile = KMS_RECORDING_PROFILE_NONE | KMS_RECORDING_PROFILE_WEBM | KMS_RECORDING_PROFILE_MKV
  | KMS_RECORDING_PROFILE_MP4 | KMS_RECORDING_PROFILE_WEBM_VIDEO_ONLY | KMS_RECORDING_PROFILE_WEBM_AUDIO_ONLY
  | KMS_RECORDING_PROFILE_MKV_VIDEO_ONLY | KMS_RECORDING_PROFILE_MKV_AUDIO_ONLY
  | KMS_RECORDING_PROFILE_MP4_VIDEO_ONLY | KMS_RECORDING_PROFILE_MP4_AUDIO_ONLY
  | KMS_RECORDING_PROFILE_JPEG_VIDEO_ONLY | KMS_RECORDING_PROFILE_KSR | KMS_RECORDING_PROFILE_FLV

definition kms_recording_profile_supports_type :: "recording_profile \<Rightarrow> media_kind \<Rightarrow> bool" where
  "kms_recording_profile_supports_type profile type =
     (if type = Data then False
      else case profile of
        KMS_RECORDING_PROFILE_WEBM \<Rightarrow> True | KMS_RECORDING_PROFILE_MP4 \<Rightarrow> True | KMS_RECORDING_PROFILE_MKV \<Rightarrow> True
      | KMS_RECORDING_PROFILE_WEBM_VIDEO_ONLY \<Rightarrow> type = Video | KMS_RECORDING_PROFILE_MP4_VIDEO_ONLY \<Rightarrow> type = Video
      | KMS_RECORDING_PROFILE_JPEG_VIDEO_ONLY \<Rightarrow> type = Video | KMS_RECORDING_PROFILE_MKV_VIDEO_ONLY \<Rightarrow> type = Video
      | KMS_RECORDING_PROFILE_WEBM_AUDIO_ONLY \<Rightarrow> type = Audio | KMS_RECORDING_PROFILE_MKV_AUDIO_ONLY \<Rightarrow> type = Audio
      | KMS_RECORDING_PROFILE_MP4_AUDIO_ONLY \<Rightarrow> type = Audio
      | KMS_RECORDING_PROFILE_KSR \<Rightarrow> True | KMS_RECORDING_PROFILE_FLV \<Rightarrow> True
      | KMS_RECORDING_PROFILE_NONE \<Rightarrow> False)"

record base_time =
  bt_pts :: u64
  bt_dts :: u64
  bt_audio_gaps :: u64

text \<open>
  A sink of the recorder. Its ghost pad is there while \<open>sp_exposed\<close>, and has a peer while
  \<open>sp_peer\<close>; \<open>sp_appsrc\<close>: a source of the muxer is attached; \<open>sp_until_key\<close>: the pad was told to
  drop until a key frame.
\<close>

record sink_pad_data =
  sp_type :: media_kind
  sp_requested :: bool
  sp_exposed :: bool
  sp_peer :: bool
  sp_appsrc :: bool
  sp_until_key :: bool

text \<open>The muxer: \<open>mx_state\<close> is what its pipeline was set to last, \<open>mx_pads\<close> the pads of a KSR muxer.\<close>

record media_muxer =
  mx_ksr :: bool
  mx_state :: gst_state
  mx_tracks :: "(string, string) hash_table"
  mx_audio_id :: u32
  mx_video_id :: u32
  mx_pads :: "string list"

text \<open>
  \<open>re_lock\<close>: how often the calling thread holds the lock; \<open>re_unheld\<close>: how often a thread
  unlocked it that did not hold it (undefined for GLib; where a mutex is one of POSIX, the
  call fails and nothing changes). \<open>re_pushed\<close>: the buffers pushed to the muxer with their
  times, \<open>re_signals\<close>: the changes of state that were signalled, the last first in both.
\<close>

record recorder =
  re_state :: uri_state
  re_transition :: recorder_transition
  re_playing :: bool
  re_sent_eos :: bool
  re_stopped :: bool
  re_generate_pads :: bool
  re_profile :: recording_profile
  re_genpts :: bool
  re_paused_time :: u64
  re_paused_start :: u64
  re_base :: "base_time option"
  re_mux :: "media_muxer option"
  re_srcs :: "string list"
  re_pending :: "string list"
  re_sinks :: "(string, sink_pad_data) hash_table"
  re_lock :: nat
  re_unheld :: nat
  re_pushed :: "(string \<times> u64 \<times> u64) list"
  re_signals :: "uri_state list"

definition kms_recorder_endpoint_init :: recorder where
  "kms_recorder_endpoint_init = \<lparr>re_state = KMS_URI_ENDPOINT_STATE_STOP, re_transition = KMS_RECORDER_ENDPOINT_COMPLETED,
     re_playing = False, re_sent_eos = False, re_stopped = False, re_generate_pads = True,
     re_profile = KMS_RECORDING_PROFILE_NONE, re_genpts = False, re_paused_time = 0,
     re_paused_start = GST_CLOCK_TIME_NONE, re_base = None, re_mux = None, re_srcs = [], re_pending = [], re_sinks = [],
     re_lock = 0, re_unheld = 0, re_pushed = [], re_signals = []\<rparr>"

definition lock_element :: "recorder \<Rightarrow> recorder" where
  "lock_element r = r\<lparr>re_lock := Suc (re_lock r)\<rparr>"

definition unlock_element :: "recorder \<Rightarrow> recorder" where
  "unlock_element r = (if re_lock r = 0 then r\<lparr>re_unheld := Suc (re_unheld r)\<rparr> else r\<lparr>re_lock := re_lock r - 1\<rparr>)"

section \<open>The muxers\<close>

definition kms_base_media_muxer_set_state :: "gst_state \<Rightarrow> recorder \<Rightarrow> recorder" where
  "kms_base_media_muxer_set_state s r = r\<lparr>re_mux := map_option (\<lambda>m. m\<lparr>mx_state := s\<rparr>) (re_mux r)\<rparr>"

text \<open>Both give a source for audio and video; the one for KSR has a track for each pad.\<close>

definition kms_ksr_muxer_add_src :: "media_kind \<Rightarrow> string \<Rightarrow> media_muxer \<Rightarrow> media_muxer \<times> bool" where
  "kms_ksr_muxer_add_src type i m =
     (let r = (case map_of (mx_tracks m) i of
          Some padname \<Rightarrow> Some (m, padname)
        | None \<Rightarrow> (case type of
            Audio \<Rightarrow> Some (m\<lparr>mx_audio_id := mx_audio_id m + 1\<rparr>, ''audio_'' @ decimal (unat (mx_audio_id m)))
          | Video \<Rightarrow> Some (m\<lparr>mx_video_id := mx_video_id m + 1\<rparr>, ''video_'' @ decimal (unat (mx_video_id m)))
          | Data \<Rightarrow> None))
      in case r of
        None \<Rightarrow> (m, False)
      | Some (m1, padname) \<Rightarrow> (m1\<lparr>mx_tracks := AList.update i padname (mx_tracks m1), mx_pads := List.insert padname (mx_pads m1)\<rparr>, True))"

definition kms_ksr_muxer_remove_src :: "string \<Rightarrow> media_muxer \<Rightarrow> media_muxer \<times> bool" where
  "kms_ksr_muxer_remove_src i m = (case map_of (mx_tracks m) i of
     None \<Rightarrow> (m, False)
   | Some padname \<Rightarrow> (if padname \<in> set (mx_pads m) then (m\<lparr>mx_pads := remove1 padname (mx_pads m)\<rparr>, True) else (m, False)))"

definition kms_av_muxer_add_src :: "media_kind \<Rightarrow> media_muxer \<Rightarrow> media_muxer \<times> bool" where
  "kms_av_muxer_add_src type m = (m, type \<noteq> Data)"

definition kms_av_muxer_remove_src :: "media_muxer \<Rightarrow> media_muxer \<times> bool" where
  "kms_av_muxer_remove_src m = (m, False)"

definition kms_base_media_muxer_add_src :: "media_kind \<Rightarrow> string \<Rightarrow> recorder \<Rightarrow> recorder \<times> bool" where
  "kms_base_media_muxer_add_src type i r = (case re_mux r of
     None \<Rightarrow> (r, False)
   | Some m \<Rightarrow> (let (m1, ok) = (if mx_ksr m then kms_ksr_muxer_add_src type i m else kms_av_muxer_add_src type m)
       in (r\<lparr>re_mux := Some m1\<rparr>, ok)))"

definition kms_base_media_muxer_remove_src :: "string \<Rightarrow> recorder \<Rightarrow> recorder \<times> bool" where
  "kms_base_media_muxer_remove_src i r = (case re_mux r of
     None \<Rightarrow> (r, False)
   | Some m \<Rightarrow> (let (m1, ok) = (if mx_ksr m then kms_ksr_muxer_remove_src i m else kms_av_muxer_remove_src m)
       in (r\<lparr>re_mux := Some m1\<rparr>, ok)))"

section \<open>Changes of state\<close>

definition kms_uri_endpoint_change_state_impl :: "uri_state \<Rightarrow> recorder \<Rightarrow> recorder" where
  "kms_uri_endpoint_change_state_impl s r =
     (if re_state r = s then r else r\<lparr>re_state := s, re_signals := s # re_signals r\<rparr>)"

definition kms_recorder_endpoint_change_state :: "recorder_transition \<Rightarrow> recorder \<Rightarrow> recorder" where
  "kms_recorder_endpoint_change_state t r = r\<lparr>re_transition := t\<rparr>"

definition kms_recorder_endpoint_update_internal_state :: "uri_state \<Rightarrow> recorder \<Rightarrow> recorder" where
  "kms_recorder_endpoint_update_internal_state s r =
     (let r1 = (case s of
        KMS_URI_ENDPOINT_STATE_START \<Rightarrow> r\<lparr>re_playing := True\<rparr>
      | KMS_URI_ENDPOINT_STATE_STOP \<Rightarrow> r\<lparr>re_playing := False, re_sent_eos := False, re_stopped := True\<rparr>
      | _ \<Rightarrow> r)
      in r1\<lparr>re_transition := KMS_RECORDER_ENDPOINT_COMPLETED\<rparr>)"

definition kms_recorder_endpoint_sync_state_changed :: "uri_state \<Rightarrow> recorder \<Rightarrow> recorder" where
  "kms_recorder_endpoint_sync_state_changed s r =
     unlock_element (kms_uri_endpoint_change_state_impl s (kms_recorder_endpoint_update_internal_state s r))"

text \<open>From another thread, with the lock held.\<close>

definition kms_recorder_endpoint_async_state_changed :: "uri_state \<Rightarrow> recorder \<Rightarrow> recorder" where
  "kms_recorder_endpoint_async_state_changed s r =
     (if re_transition r = KMS_RECORDER_ENDPOINT_COMPLETED then r
      else if s = KMS_URI_ENDPOINT_STATE_START \<and> re_transition r = KMS_RECORDER_ENDPOINT_STARTING \<or>
        s = KMS_URI_ENDPOINT_STATE_STOP \<and> re_transition r = KMS_RECORDER_ENDPOINT_STOPPING
      then kms_uri_endpoint_change_state_impl s (kms_recorder_endpoint_update_internal_state s r)
      else r)"

section \<open>What other threads do\<close>

definition kms_recorder_release_pending_pad :: "string \<Rightarrow> recorder \<Rightarrow> recorder" where
  "kms_recorder_release_pending_pad i r =
     (let (r1, ok) = kms_base_media_muxer_remove_src i r in
      if ok then r1\<lparr>re_srcs := filter (\<lambda>j. j \<noteq> i) (re_srcs r1)\<rparr> else r1)"

definition kms_recorder_endpoint_on_eos :: "recorder \<Rightarrow> recorder" where
  "kms_recorder_endpoint_on_eos r =
     (let stop = (re_transition r = KMS_RECORDER_ENDPOINT_STOPPING);
          r1 = (if re_sent_eos r
            then (fold kms_recorder_release_pending_pad (re_pending r) r)\<lparr>re_pending := [], re_sent_eos := False\<rparr>
            else r)
      in if stop then kms_base_media_muxer_set_state GST_STATE_NULL r1 else r1)"

text \<open>\<open>from_pipeline\<close>: the message is from the pipeline of the muxer itself.\<close>

definition bus_sync_signal_handler :: "bool \<Rightarrow> gst_state \<Rightarrow> gst_state \<Rightarrow> recorder \<Rightarrow> recorder" where
  "bus_sync_signal_handler from_pipeline new_state pending r =
     (if from_pipeline \<and> (pending = GST_STATE_VOID_PENDING \<or> pending = GST_STATE_NULL \<and> new_state = GST_STATE_READY)
      then case new_state of
          GST_STATE_PLAYING \<Rightarrow> kms_recorder_endpoint_async_state_changed KMS_URI_ENDPOINT_STATE_START r
        | GST_STATE_READY \<Rightarrow> kms_recorder_endpoint_async_state_changed KMS_URI_ENDPOINT_STATE_STOP r
        | _ \<Rightarrow> r
      else r)"

definition recording :: "recorder \<Rightarrow> bool" where
  "recording r \<longleftrightarrow> re_state r = KMS_URI_ENDPOINT_STATE_START \<and> re_transition r = KMS_RECORDER_ENDPOINT_COMPLETED \<or>
     re_transition r = KMS_RECORDER_ENDPOINT_STARTING"

definition minus_offset :: "u64 \<Rightarrow> u64 \<Rightarrow> u64" where
  "minus_offset t off = (if t > off then t - off else 0)"

text \<open>
  A buffer of the sink \<open>i\<close>; \<open>running\<close> takes a time to the running time of its segment. A buffer
  whose sink has no source of the muxer is refused, and one that comes while nothing is recorded
  is dropped.
\<close>

definition recv_sample :: "(u64 \<Rightarrow> u64) \<Rightarrow> string \<Rightarrow> u64 \<Rightarrow> u64 \<Rightarrow> recorder \<Rightarrow> recorder" where
  "recv_sample running i pts dts r =
     (if (case map_of (re_sinks r) i of Some d \<Rightarrow> sp_appsrc d | None \<Rightarrow> False) \<and> recording r
      then let pts1 = (if pts \<noteq> GST_CLOCK_TIME_NONE then running pts else pts);
               dts1 = (if dts \<noteq> GST_CLOCK_TIME_NONE then running dts else dts);
               b0 = (case re_base r of Some b \<Rightarrow> b
                 | None \<Rightarrow> \<lparr>bt_pts = GST_CLOCK_TIME_NONE, bt_dts = GST_CLOCK_TIME_NONE, bt_audio_gaps = 0\<rparr>);
               b1 = (if bt_pts b0 = GST_CLOCK_TIME_NONE \<and> pts1 \<noteq> GST_CLOCK_TIME_NONE then b0\<lparr>bt_pts := pts1\<rparr> else b0);
               b = (if bt_dts b1 = GST_CLOCK_TIME_NONE \<and> dts1 \<noteq> GST_CLOCK_TIME_NONE then b1\<lparr>bt_dts := dts1\<rparr> else b1);
               common_offset = re_paused_time r + (if re_genpts r then bt_audio_gaps b else 0);
               pts2 = (if bt_pts b \<noteq> GST_CLOCK_TIME_NONE \<and> pts1 \<noteq> GST_CLOCK_TIME_NONE
                 then minus_offset pts1 (common_offset + bt_pts b) else pts1);
               dts2 = (if bt_dts b \<noteq> GST_CLOCK_TIME_NONE \<and> dts1 \<noteq> GST_CLOCK_TIME_NONE
                 then minus_offset dts1 (common_offset + bt_dts b) else dts1)
           in r\<lparr>re_base := Some b, re_pushed := (i, pts2, dts2) # re_pushed r\<rparr>
      else r)"

text \<open>A gap in audio; it is passed on when there is no base time yet or it is no audio.\<close>

definition appsink_event_probe :: "bool \<Rightarrow> u64 \<Rightarrow> recorder \<Rightarrow> recorder \<times> bool" where
  "appsink_event_probe is_audio gap_duration r = (case re_base r of
     Some b \<Rightarrow> (if is_audio then (r\<lparr>re_base := Some (b\<lparr>bt_audio_gaps := bt_audio_gaps b + gap_duration\<rparr>)\<rparr>, False) else (r, True))
   | None \<Rightarrow> (r, True))"

definition with_sink :: "string \<Rightarrow> (sink_pad_data \<Rightarrow> sink_pad_data) \<Rightarrow> recorder \<Rightarrow> recorder" where
  "with_sink i f r = r\<lparr>re_sinks := AList.map_entry i f (re_sinks r)\<rparr>"

text \<open>A pad is linked, if the recorder takes it.\<close>

definition link_sinkpad_cb :: "string \<Rightarrow> recorder \<Rightarrow> recorder \<times> bool" where
  "link_sinkpad_cb i r = (case map_of (re_sinks r) i of
     None \<Rightarrow> (r, False)
   | Some d \<Rightarrow> (case kms_base_media_muxer_add_src (sp_type d) i r of
         (r1, True) \<Rightarrow> (with_sink i (\<lambda>d. d\<lparr>sp_peer := True, sp_appsrc := True\<rparr>) (r1\<lparr>re_srcs := List.insert i (re_srcs r1)\<rparr>), True)
       | (r1, False) \<Rightarrow> (r1, False)))"

definition unlink_sinkpad_cb :: "string \<Rightarrow> recorder \<Rightarrow> recorder" where
  "unlink_sinkpad_cb i r =
     (let r1 = with_sink i (\<lambda>d. d\<lparr>sp_peer := False\<rparr>) r in
      if re_sent_eos r1 then r1\<lparr>re_pending := i # re_pending r1\<rparr> else kms_recorder_release_pending_pad i r1)"

definition is_exposed :: "recorder \<Rightarrow> string \<Rightarrow> bool" where
  "is_exposed r i = (case map_of (re_sinks r) i of Some d \<Rightarrow> sp_exposed d | None \<Rightarrow> False)"

definition has_peer :: "recorder \<Rightarrow> string \<Rightarrow> bool" where
  "has_peer r i = (case map_of (re_sinks r) i of Some d \<Rightarrow> sp_peer d | None \<Rightarrow> False)"

text \<open>A muxer has to be there for its pipeline to send messages.\<close>

datatype rec_event =
    Bus_state_changed bool gst_state gst_state
  | Eos
  | Sample "u64 \<Rightarrow> u64" string u64 u64
  | Audio_gap bool u64
  | Link_pad string
  | Unlink_pad string

fun rec_event_step :: "rec_event \<Rightarrow> recorder \<Rightarrow> recorder" where
  "rec_event_step (Bus_state_changed p n s) r = (if re_mux r = None then r else bus_sync_signal_handler p n s r)"
| "rec_event_step Eos r = kms_recorder_endpoint_on_eos r"
| "rec_event_step (Sample running i pts dts) r = recv_sample running i pts dts r"
| "rec_event_step (Audio_gap is_audio d) r = fst (appsink_event_probe is_audio d r)"
| "rec_event_step (Link_pad i) r = (if is_exposed r i \<and> \<not> has_peer r i then fst (link_sinkpad_cb i r) else r)"
| "rec_event_step (Unlink_pad i) r = (if has_peer r i then unlink_sinkpad_cb i r else r)"

definition other_threads :: "rec_event list \<Rightarrow> recorder \<Rightarrow> recorder" where
  "other_threads es r = fold rec_event_step es r"

section \<open>Sinks\<close>

definition connect_sink_func :: "string \<Rightarrow> recorder \<Rightarrow> recorder" where
  "connect_sink_func i r = with_sink i (\<lambda>d. d\<lparr>sp_exposed := True\<rparr>) r"

definition kms_recorder_generate_pads :: "recorder \<Rightarrow> recorder" where
  "kms_recorder_generate_pads r =
     (if \<not> re_generate_pads r then r
      else (fold connect_sink_func (map fst (re_sinks r)) r)\<lparr>re_generate_pads := False\<rparr>)"

definition remove_sink_func :: "string \<Rightarrow> recorder \<Rightarrow> recorder" where
  "remove_sink_func i r =
     (let r1 = (if has_peer r i then unlink_sinkpad_cb i r else r) in with_sink i (\<lambda>d. d\<lparr>sp_exposed := False\<rparr>) r1)"

definition kms_recorder_endpoint_remove_pads :: "recorder \<Rightarrow> recorder" where
  "kms_recorder_endpoint_remove_pads r =
     (if re_generate_pads r then r
      else (fold remove_sink_func (map fst (re_sinks r)) r)\<lparr>re_generate_pads := True\<rparr>)"

definition kms_recorder_endpoint_add_appsink :: "media_kind \<Rightarrow> string \<Rightarrow> bool \<Rightarrow> recorder \<Rightarrow> recorder" where
  "kms_recorder_endpoint_add_appsink type name requested r =
     (if map_of (re_sinks r) name \<noteq> None then r
      else if type = Data then r
      else r\<lparr>re_sinks := AList.update name \<lparr>sp_type = type, sp_requested = requested, sp_exposed = False, sp_peer = False,
        sp_appsrc = False, sp_until_key = False\<rparr> (re_sinks r)\<rparr>)"

definition kms_recorder_endpoint_request_new_sink_pad :: "media_kind \<Rightarrow> string \<Rightarrow> recorder \<Rightarrow> recorder \<times> bool" where
  "kms_recorder_endpoint_request_new_sink_pad type name r =
     (if re_profile r \<noteq> KMS_RECORDING_PROFILE_KSR then (r, False)
      else let r1 = kms_recorder_endpoint_add_appsink type name True r in
        if re_state r1 \<noteq> KMS_URI_ENDPOINT_STATE_START then (r1, True)
        else if map_of (re_sinks r1) name = None then (r1, True)
        else (connect_sink_func name r1, True))"

definition kms_recorder_endpoint_release_requested_sink_pad :: "string \<Rightarrow> recorder \<Rightarrow> recorder \<times> bool" where
  "kms_recorder_endpoint_release_requested_sink_pad name r =
     (if re_profile r \<noteq> KMS_RECORDING_PROFILE_KSR then (r, False)
      else case map_of (re_sinks r) name of
        None \<Rightarrow> (r, True)
      | Some d \<Rightarrow> (if \<not> sp_requested d then (r, True)
          else let r1 = remove_sink_func name r in (r1\<lparr>re_sinks := AList.delete name (re_sinks r1)\<rparr>, True)))"

definition kms_recorder_endpoint_new_media_muxer :: "recorder \<Rightarrow> recorder" where
  "kms_recorder_endpoint_new_media_muxer r =
     (let r1 = r\<lparr>re_mux := Some \<lparr>mx_ksr = (re_profile r = KMS_RECORDING_PROFILE_KSR), mx_state = GST_STATE_NULL, mx_tracks = [],
            mx_audio_id = 0, mx_video_id = 0, mx_pads = []\<rparr>\<rparr>;
          r2 = (if kms_recording_profile_supports_type (re_profile r1) Audio
            then kms_recorder_endpoint_add_appsink Audio ''audio_default'' False r1 else r1)
      in if kms_recording_profile_supports_type (re_profile r2) Video
         then kms_recorder_endpoint_add_appsink Video ''video_default'' False r2 else r2)"

text \<open>The profile is set once, and the muxer is made for it.\<close>

definition set_profile :: "recording_profile \<Rightarrow> recorder \<Rightarrow> recorder" where
  "set_profile p r =
     (if re_profile r = KMS_RECORDING_PROFILE_NONE
      then let r1 = r\<lparr>re_profile := p\<rparr> in
        if p \<noteq> KMS_RECORDING_PROFILE_NONE then kms_recorder_endpoint_new_media_muxer r1 else r1
      else r)"

section \<open>Stop, start and pause\<close>

definition kms_recorder_endpoint_send_eos_to_appsrcs :: "rec_event list \<Rightarrow> recorder \<Rightarrow> recorder \<times> nat" where
  "kms_recorder_endpoint_send_eos_to_appsrcs others r =
     (let r1 = unlock_element r;
          n = length (re_srcs r1);
          r2 = kms_base_media_muxer_set_state (if n = 0 then GST_STATE_NULL else GST_STATE_PLAYING) r1
      in (lock_element (other_threads others r2), n))"

definition kms_recorder_endpoint_stopped :: "rec_event list \<Rightarrow> rec_event list \<Rightarrow> recorder \<Rightarrow> recorder \<times> uri_error option" where
  "kms_recorder_endpoint_stopped others1 others2 r =
     (if re_stopped r then (r, None)
      else if re_state r = KMS_URI_ENDPOINT_STATE_STOP \<or> re_transition r = KMS_RECORDER_ENDPOINT_STOPPING
      then (r, Some KMS_URI_ENDPOINT_INVALID_TRANSITION)
      else if re_transition r \<noteq> KMS_RECORDER_ENDPOINT_COMPLETED then (r, Some KMS_URI_ENDPOINT_INVALID_TRANSITION)
      else let r1 = kms_recorder_endpoint_change_state KMS_RECORDER_ENDPOINT_STOPPING r;
               r2 = (if re_playing r1
                 then let (r', n) = kms_recorder_endpoint_send_eos_to_appsrcs others1 r1 in r'\<lparr>re_sent_eos := (n > 0)\<rparr> else r1);
               r3 = kms_recorder_endpoint_remove_pads r2;
               r4 = r3\<lparr>re_base := None, re_paused_time := 0, re_paused_start := GST_CLOCK_TIME_NONE\<rparr>;
               r5 = (if re_playing r4
                 then (if \<not> re_sent_eos r4
                   then lock_element (other_threads others2 (kms_base_media_muxer_set_state GST_STATE_NULL (unlock_element r4)))
                   else r4)
                 else kms_recorder_endpoint_sync_state_changed KMS_URI_ENDPOINT_STATE_STOP r4)
           in (r5, None))"

text \<open>Up to where the lock is let go, and from where it is taken again; \<open>now\<close> is the time of the clock.\<close>

definition started_enter :: "recorder \<Rightarrow> recorder" where
  "started_enter r =
     (let r1 = (if re_state r = KMS_URI_ENDPOINT_STATE_PAUSE
        then fold (\<lambda>i. with_sink i (\<lambda>d. if sp_exposed d then d\<lparr>sp_until_key := True\<rparr> else d)) (map fst (re_sinks r)) r else r)
      in kms_base_media_muxer_set_state GST_STATE_PLAYING
        (unlock_element (kms_recorder_endpoint_change_state KMS_RECORDER_ENDPOINT_STARTING r1)))"

definition started_finish :: "u64 \<Rightarrow> recorder \<Rightarrow> recorder" where
  "started_finish now r =
     (let r1 = lock_element r;
          r2 = (if re_paused_start r1 \<noteq> GST_CLOCK_TIME_NONE
            then r1\<lparr>re_paused_time := re_paused_time r1 + (now - re_paused_start r1), re_paused_start := GST_CLOCK_TIME_NONE\<rparr> else r1);
          r3 = kms_recorder_generate_pads r2
      in if re_playing r3 then kms_recorder_endpoint_sync_state_changed KMS_URI_ENDPOINT_STATE_START r3 else r3)"

definition kms_recorder_endpoint_started :: "rec_event list \<Rightarrow> u64 \<Rightarrow> recorder \<Rightarrow> recorder \<times> uri_error option" where
  "kms_recorder_endpoint_started others now r =
     (if re_stopped r then (r, Some KMS_URI_ENDPOINT_INVALID_TRANSITION)
      else if re_state r = KMS_URI_ENDPOINT_STATE_START \<or> re_transition r = KMS_RECORDER_ENDPOINT_STARTING
      then (r, Some KMS_URI_ENDPOINT_INVALID_TRANSITION)
      else if re_transition r \<noteq> KMS_RECORDER_ENDPOINT_COMPLETED then (r, Some KMS_URI_ENDPOINT_INVALID_TRANSITION)
      else (started_finish now (other_threads others (started_enter r)), None))"

text \<open>\<open>clk\<close>: the time of the clock, if the pipeline has one yet.\<close>

definition kms_recorder_endpoint_paused :: "u64 option \<Rightarrow> recorder \<Rightarrow> recorder \<times> uri_error option" where
  "kms_recorder_endpoint_paused clk r =
     (if re_stopped r then (r, Some KMS_URI_ENDPOINT_INVALID_TRANSITION)
      else if re_state r = KMS_URI_ENDPOINT_STATE_PAUSE \<or> re_transition r = KMS_RECORDER_ENDPOINT_PAUSING
      then (r, Some KMS_URI_ENDPOINT_INVALID_TRANSITION)
      else if re_transition r \<noteq> KMS_RECORDER_ENDPOINT_COMPLETED then (r, Some KMS_URI_ENDPOINT_INVALID_TRANSITION)
      else let r1 = kms_recorder_endpoint_change_state KMS_RECORDER_ENDPOINT_PAUSING r;
               r2 = (case clk of Some t \<Rightarrow> r1\<lparr>re_paused_start := t\<rparr> | None \<Rightarrow> r1)
           in (kms_recorder_endpoint_sync_state_changed KMS_URI_ENDPOINT_STATE_PAUSE r2, None))"

datatype rec_request = Stop "rec_event list" "rec_event list" | Start "rec_event list" u64 | Pause "u64 option"

fun requested_state :: "rec_request \<Rightarrow> uri_state" where
  "requested_state (Stop _ _) = KMS_URI_ENDPOINT_STATE_STOP"
| "requested_state (Start _ _) = KMS_URI_ENDPOINT_STATE_START"
| "requested_state (Pause _) = KMS_URI_ENDPOINT_STATE_PAUSE"

definition kms_uri_endpoint_change_state :: "rec_request \<Rightarrow> recorder \<Rightarrow> recorder \<times> uri_error option" where
  "kms_uri_endpoint_change_state q r =
     (if re_state r = requested_state q then (r, Some KMS_URI_ENDPOINT_INVALID_TRANSITION)
      else case q of
        Stop o1 o2 \<Rightarrow> kms_recorder_endpoint_stopped o1 o2 r
      | Start o1 now \<Rightarrow> kms_recorder_endpoint_started o1 now r
      | Pause clk \<Rightarrow> kms_recorder_endpoint_paused clk r)"

definition kms_uri_endpoint_set_state :: "rec_request \<Rightarrow> recorder \<Rightarrow> recorder \<times> uri_error option" where
  "kms_uri_endpoint_set_state q r =
     (let (r1, err) = kms_uri_endpoint_change_state q (lock_element r) in (unlock_element r1, err))"

definition kms_recorder_endpoint_dispose :: "recorder \<Rightarrow> recorder" where
  "kms_recorder_endpoint_dispose r =
     (let r1 = lock_element r;
          r2 = (if re_mux r1 = None then r1
            else let r3 = lock_element (kms_base_media_muxer_set_state GST_STATE_NULL (unlock_element r1)) in
              if re_sent_eos r3 then kms_recorder_endpoint_sync_state_changed KMS_URI_ENDPOINT_STATE_STOP r3 else r3)
      in unlock_element r2)"


section \<open>Runs\<close>

datatype rec_call = Request rec_request | Other rec_event
  | Request_sink media_kind string | Release_sink string

fun rec_call_step :: "recorder \<Rightarrow> rec_call \<Rightarrow> recorder" where
  "rec_call_step r (Request q) = fst (kms_uri_endpoint_set_state q r)"
| "rec_call_step r (Other e) = rec_event_step e r"
| "rec_call_step r (Request_sink type name) = fst (kms_recorder_endpoint_request_new_sink_pad type name r)"
| "rec_call_step r (Release_sink name) = fst (kms_recorder_endpoint_release_requested_sink_pad name r)"

text \<open>The profile is set when the endpoint is made, before any other call.\<close>

definition recorder_run :: "recording_profile \<Rightarrow> rec_call list \<Rightarrow> recorder" where
  "recorder_run p calls = foldl rec_call_step (set_profile p kms_recorder_endpoint_init) calls"

definition mux_state :: "recorder \<Rightarrow> gst_state option" where
  "mux_state r = map_option mx_state (re_mux r)"

text \<open>The part of the state that the life of the recorder is about.\<close>

definition core :: "recorder \<Rightarrow> uri_state \<times> recorder_transition \<times> bool \<times> bool \<times> uri_state list \<times> gst_state option \<times> recording_profile" where
  "core r = (re_state r, re_transition r, re_playing r, re_stopped r, re_signals r, mux_state r, re_profile r)"

definition life_ok :: "recorder \<Rightarrow> bool" where
  "life_ok r \<longleftrightarrow> re_state r = hd (re_signals r @ [KMS_URI_ENDPOINT_STATE_STOP]) \<and>
     successively (\<noteq>) (re_signals r @ [KMS_URI_ENDPOINT_STATE_STOP]) \<and>
     (re_stopped r \<longleftrightarrow> KMS_URI_ENDPOINT_STATE_STOP \<in> set (re_signals r)) \<and>
     KMS_URI_ENDPOINT_STATE_STOP \<notin> set (tl (re_signals r)) \<and>
     (re_stopped r \<longrightarrow> re_transition r = KMS_RECORDER_ENDPOINT_COMPLETED \<and> \<not> re_playing r) \<and>
     re_transition r \<noteq> KMS_RECORDER_ENDPOINT_PAUSING \<and>
     (re_transition r = KMS_RECORDER_ENDPOINT_STOPPING \<longrightarrow> re_playing r \<and> re_state r \<noteq> KMS_URI_ENDPOINT_STATE_STOP) \<and>
     (re_state r = KMS_URI_ENDPOINT_STATE_START \<longrightarrow> re_playing r) \<and>
     (re_playing r \<longrightarrow> mux_state r \<noteq> None) \<and>
     (re_playing r \<longrightarrow> re_transition r \<noteq> KMS_RECORDER_ENDPOINT_STOPPING \<longrightarrow> mux_state r = Some GST_STATE_PLAYING) \<and>
     (re_transition r = KMS_RECORDER_ENDPOINT_STARTING \<longrightarrow> mux_state r \<in> {None, Some GST_STATE_PLAYING}) \<and>
     (mux_state r = None \<longleftrightarrow> re_profile r = KMS_RECORDING_PROFILE_NONE)"

lemma life_cong: "core r' = core r \<Longrightarrow> life_ok r' = life_ok r"
  by (simp add: core_def life_ok_def)

lemma core_remove_src [simp]: "kms_base_media_muxer_remove_src i r = (r1, ok) \<Longrightarrow> core r1 = core r"
  by (auto simp: kms_base_media_muxer_remove_src_def kms_ksr_muxer_remove_src_def kms_av_muxer_remove_src_def core_def
      mux_state_def Let_def split: option.split_asm if_split_asm prod.split_asm)

lemma core_add_src: "kms_base_media_muxer_add_src t i r = (r1, ok) \<Longrightarrow> core r1 = core r"
  by (auto simp: kms_base_media_muxer_add_src_def kms_ksr_muxer_add_src_def kms_av_muxer_add_src_def core_def
      mux_state_def Let_def split: option.split_asm if_split_asm prod.split_asm media_kind.split_asm)

lemma core_fields [simp]:
  "core (r\<lparr>re_srcs := x1\<rparr>) = core r" "core (r\<lparr>re_pending := x1\<rparr>) = core r" "core (r\<lparr>re_sent_eos := b\<rparr>) = core r"
  "core (r\<lparr>re_sinks := s\<rparr>) = core r" "core (r\<lparr>re_base := bt\<rparr>) = core r" "core (r\<lparr>re_pushed := pu\<rparr>) = core r"
  "core (r\<lparr>re_generate_pads := b\<rparr>) = core r" "core (r\<lparr>re_paused_time := t\<rparr>) = core r" "core (r\<lparr>re_paused_start := t\<rparr>) = core r"
  "core (r\<lparr>re_lock := n\<rparr>) = core r" "core (r\<lparr>re_unheld := n\<rparr>) = core r"
  by (simp_all add: core_def mux_state_def)

lemma core_release [simp]: "core (kms_recorder_release_pending_pad i r) = core r"
  using core_remove_src [of i r] by (auto simp: kms_recorder_release_pending_pad_def Let_def split: prod.split)

lemma core_fold: "(\<And>x r. core (f x r) = core r) \<Longrightarrow> core (fold f xs r) = core r"
  by (induction xs arbitrary: r) simp_all

lemma core_sinks [simp]: "core (with_sink i f r) = core r" "core (connect_sink_func i r) = core r"
  by (simp_all add: with_sink_def connect_sink_func_def)

lemma core_unlink [simp]: "core (unlink_sinkpad_cb i r) = core r"
  by (simp add: unlink_sinkpad_cb_def Let_def)

lemma core_link [simp]: "core (fst (link_sinkpad_cb i r)) = core r"
  using core_add_src [of _ i r] by (auto simp: link_sinkpad_cb_def split: option.split prod.split bool.split)

lemma core_remove_sink [simp]: "core (remove_sink_func i r) = core r"
  by (simp add: remove_sink_func_def Let_def)

lemma core_pads [simp]: "core (kms_recorder_generate_pads r) = core r" "core (kms_recorder_endpoint_remove_pads r) = core r"
  by (simp_all add: kms_recorder_generate_pads_def kms_recorder_endpoint_remove_pads_def core_fold)

lemma core_sample [simp]: "core (recv_sample f i p d r) = core r"
  by (simp add: recv_sample_def Let_def)

lemma core_gap [simp]: "core (fst (appsink_event_probe a d r)) = core r"
  by (simp add: appsink_event_probe_def split: option.split)

lemma core_lock [simp]: "core (lock_element r) = core r" "core (unlock_element r) = core r"
  by (simp_all add: lock_element_def unlock_element_def)

lemma core_appsink [simp]: "core (kms_recorder_endpoint_add_appsink t n q r) = core r"
  by (simp add: kms_recorder_endpoint_add_appsink_def)

lemma core_mux: "core (kms_base_media_muxer_set_state s r) =
    (case core r of (a, b, c, d, e, m, p) \<Rightarrow> (a, b, c, d, e, map_option (\<lambda>_. s) m, p))"
  by (simp add: core_def kms_base_media_muxer_set_state_def mux_state_def option.map_comp comp_def)

text \<open>What other threads do to the core.\<close>

lemma event_core:
  "core (rec_event_step e r) = core r \<or>
   (\<exists>s \<in> {KMS_URI_ENDPOINT_STATE_START, KMS_URI_ENDPOINT_STATE_STOP}. re_mux r \<noteq> None \<and>
      rec_event_step e r = kms_recorder_endpoint_async_state_changed s r) \<or>
   (re_transition r = KMS_RECORDER_ENDPOINT_STOPPING \<and>
      core (rec_event_step e r) = core (kms_base_media_muxer_set_state GST_STATE_NULL r))"
proof (cases e)
  case (Bus_state_changed p n s)
  then show ?thesis by (cases n) (auto simp: bus_sync_signal_handler_def)
next
  case Eos
  have c: "core (fold kms_recorder_release_pending_pad xs r) = core r" for xs by (rule core_fold) simp
  have m: "core (kms_base_media_muxer_set_state s a) = core (kms_base_media_muxer_set_state s b)" if "core a = core b" for s a b
    using that by (simp add: core_mux)
  show ?thesis unfolding Eos
    using c m [of "(fold kms_recorder_release_pending_pad (re_pending r) r)\<lparr>re_pending := [], re_sent_eos := False\<rparr>" r]
    by (auto simp: kms_recorder_endpoint_on_eos_def Let_def)
qed (auto)


lemma mux_set [simp]: "mux_state (kms_base_media_muxer_set_state s r) = map_option (\<lambda>_. s) (mux_state r)"
  by (simp add: kms_base_media_muxer_set_state_def mux_state_def option.map_comp comp_def)

lemma mux_fields [simp]:
  "mux_state (r\<lparr>re_state := s, re_signals := g\<rparr>) = mux_state r" "mux_state (r\<lparr>re_playing := b\<rparr>) = mux_state r"
  "mux_state (r\<lparr>re_playing := b, re_sent_eos := c, re_stopped := d\<rparr>) = mux_state r" "mux_state (r\<lparr>re_transition := t\<rparr>) = mux_state r"
  by (simp_all add: mux_state_def)

lemma core_impl: "core (kms_uri_endpoint_change_state_impl s r) =
    (case core r of (a, b, c, d, e, m, p) \<Rightarrow> if a = s then core r else (s, b, c, d, s # e, m, p))"
  by (simp add: core_def kms_uri_endpoint_change_state_impl_def)

lemma core_update: "core (kms_recorder_endpoint_update_internal_state s r) =
    (case core r of (a, b, c, d, e, m, p) \<Rightarrow> (a, KMS_RECORDER_ENDPOINT_COMPLETED,
       (s = KMS_URI_ENDPOINT_STATE_START \<or> c \<and> s \<noteq> KMS_URI_ENDPOINT_STATE_STOP),
       (d \<or> s = KMS_URI_ENDPOINT_STATE_STOP), e, m, p))"
  by (cases s) (simp_all add: core_def kms_recorder_endpoint_update_internal_state_def Let_def)

lemma core_change: "core (kms_recorder_endpoint_change_state t r) = (case core r of (a, b, c, d, e, m, p) \<Rightarrow> (a, t, c, d, e, m, p))"
  by (simp add: core_def kms_recorder_endpoint_change_state_def)

text \<open>The invariant of the core alone.\<close>

definition coreP :: "uri_state \<times> recorder_transition \<times> bool \<times> bool \<times> uri_state list \<times> gst_state option \<times> recording_profile \<Rightarrow> bool" where
  "coreP = (\<lambda>(a, b, c, d, e, m, p). a = hd (e @ [KMS_URI_ENDPOINT_STATE_STOP]) \<and>
     successively (\<noteq>) (e @ [KMS_URI_ENDPOINT_STATE_STOP]) \<and> (d \<longleftrightarrow> KMS_URI_ENDPOINT_STATE_STOP \<in> set e) \<and>
     KMS_URI_ENDPOINT_STATE_STOP \<notin> set (tl e) \<and> (d \<longrightarrow> b = KMS_RECORDER_ENDPOINT_COMPLETED \<and> \<not> c) \<and>
     b \<noteq> KMS_RECORDER_ENDPOINT_PAUSING \<and>
     (b = KMS_RECORDER_ENDPOINT_STOPPING \<longrightarrow> c \<and> a \<noteq> KMS_URI_ENDPOINT_STATE_STOP) \<and>
     (a = KMS_URI_ENDPOINT_STATE_START \<longrightarrow> c) \<and> (c \<longrightarrow> m \<noteq> None) \<and>
     (c \<longrightarrow> b \<noteq> KMS_RECORDER_ENDPOINT_STOPPING \<longrightarrow> m = Some GST_STATE_PLAYING) \<and>
     (b = KMS_RECORDER_ENDPOINT_STARTING \<longrightarrow> m \<in> {None, Some GST_STATE_PLAYING}) \<and>
     (m = None \<longleftrightarrow> p = KMS_RECORDING_PROFILE_NONE))"

lemma life_core: "life_ok r \<longleftrightarrow> coreP (core r)"
  by (simp add: life_ok_def coreP_def core_def)

text \<open>Its changes by other threads.\<close>

definition asyncC :: "uri_state \<Rightarrow> uri_state \<times> recorder_transition \<times> bool \<times> bool \<times> uri_state list \<times> gst_state option \<times> recording_profile \<Rightarrow>
    uri_state \<times> recorder_transition \<times> bool \<times> bool \<times> uri_state list \<times> gst_state option \<times> recording_profile" where
  "asyncC s = (\<lambda>(a, b, c, d, e, m, p).
     if s = KMS_URI_ENDPOINT_STATE_START \<and> b = KMS_RECORDER_ENDPOINT_STARTING
     then (s, KMS_RECORDER_ENDPOINT_COMPLETED, True, d, if a = s then e else s # e, m, p)
     else if s = KMS_URI_ENDPOINT_STATE_STOP \<and> b = KMS_RECORDER_ENDPOINT_STOPPING
     then (s, KMS_RECORDER_ENDPOINT_COMPLETED, False, True, if a = s then e else s # e, m, p)
     else (a, b, c, d, e, m, p))"

lemma core_async: "s \<in> {KMS_URI_ENDPOINT_STATE_START, KMS_URI_ENDPOINT_STATE_STOP} \<Longrightarrow>
    core (kms_recorder_endpoint_async_state_changed s r) = asyncC s (core r)"
proof -
  obtain a b c d e m p where r: "core r = (a, b, c, d, e, m, p)" by (cases "core r")
  then have "re_transition r = b" by (simp add: core_def)
  moreover assume "s \<in> {KMS_URI_ENDPOINT_STATE_START, KMS_URI_ENDPOINT_STATE_STOP}"
  ultimately show ?thesis
    by (cases b) (auto simp: kms_recorder_endpoint_async_state_changed_def core_impl core_update asyncC_def r)
qed

lemma asyncC_ok:
  assumes "coreP (a, b, c, d, e, m, p)" "m \<noteq> None"
  shows "coreP (asyncC s (a, b, c, d, e, m, p))"
proof (cases "s = KMS_URI_ENDPOINT_STATE_START \<and> b = KMS_RECORDER_ENDPOINT_STARTING")
  case True
  then have "\<not> d" "m = Some GST_STATE_PLAYING" using assms by (auto simp: coreP_def)
  then show ?thesis using assms True by (cases e) (auto simp: coreP_def asyncC_def)
next
  case no_start: False
  show ?thesis
  proof (cases "s = KMS_URI_ENDPOINT_STATE_STOP \<and> b = KMS_RECORDER_ENDPOINT_STOPPING")
    case True
    then have "\<not> d" "a \<noteq> KMS_URI_ENDPOINT_STATE_STOP" using assms by (auto simp: coreP_def)
    then show ?thesis using assms True by (cases e) (auto simp: coreP_def asyncC_def)
  next
    case False
    then have "asyncC s (a, b, c, d, e, m, p) = (a, b, c, d, e, m, p)" using no_start by (simp add: asyncC_def)
    then show ?thesis using assms by simp
  qed
qed

definition core_move :: "recorder \<Rightarrow> recorder \<Rightarrow> bool" where
  "core_move r r' \<longleftrightarrow> core r' = core r \<or>
     mux_state r \<noteq> None \<and> (\<exists>s \<in> {KMS_URI_ENDPOINT_STATE_START, KMS_URI_ENDPOINT_STATE_STOP}. core r' = asyncC s (core r)) \<or>
     re_transition r = KMS_RECORDER_ENDPOINT_STOPPING \<and> core r' = core (kms_base_media_muxer_set_state GST_STATE_NULL r)"

lemma event_move: "core_move r (rec_event_step e r)"
  using event_core [of e r]
proof (elim disjE bexE conjE)
  fix s
  assume s: "s \<in> {KMS_URI_ENDPOINT_STATE_START, KMS_URI_ENDPOINT_STATE_STOP}" "re_mux r \<noteq> None"
    "rec_event_step e r = kms_recorder_endpoint_async_state_changed s r"
  then have "core (rec_event_step e r) = asyncC s (core r)" using core_async [of s r] by simp
  moreover have "mux_state r \<noteq> None" using s(2) by (simp add: mux_state_def)
  ultimately show ?thesis unfolding core_move_def using s(1) by blast
qed (simp_all add: core_move_def)

lemma nullC_ok:
  assumes "coreP (a, KMS_RECORDER_ENDPOINT_STOPPING, c, d, e, m, p)"
  shows "coreP (a, KMS_RECORDER_ENDPOINT_STOPPING, c, d, e, map_option (\<lambda>_. x) m, p)"
  using assms by (auto simp: coreP_def)

lemma move_cases:
  assumes "core_move r r'"
  obtains "core r' = core r"
    | "re_transition r = KMS_RECORDER_ENDPOINT_STARTING" "mux_state r \<noteq> None" "core r' = asyncC KMS_URI_ENDPOINT_STATE_START (core r)"
    | "re_transition r = KMS_RECORDER_ENDPOINT_STOPPING" "mux_state r \<noteq> None" "core r' = asyncC KMS_URI_ENDPOINT_STATE_STOP (core r)"
    | "re_transition r = KMS_RECORDER_ENDPOINT_STOPPING" "core r' = core (kms_base_media_muxer_set_state GST_STATE_NULL r)"
proof -
  have "asyncC KMS_URI_ENDPOINT_STATE_START (core r) = core r" if "re_transition r \<noteq> KMS_RECORDER_ENDPOINT_STARTING"
    using that by (simp add: asyncC_def core_def)
  moreover have "asyncC KMS_URI_ENDPOINT_STATE_STOP (core r) = core r" if "re_transition r \<noteq> KMS_RECORDER_ENDPOINT_STOPPING"
    using that by (simp add: asyncC_def core_def)
  ultimately show ?thesis using assms that unfolding core_move_def by (metis insertE singletonD)
qed

lemma move_ok:
  assumes "core_move r r'" "life_ok r"
  shows "life_ok r'"
  using assms(1)
proof (cases rule: move_cases)
  case 1
  then show ?thesis using assms(2) by (simp add: life_core)
next
  case 2
  then show ?thesis using assms(2) asyncC_ok unfolding life_core core_def by metis
next
  case 3
  then show ?thesis using assms(2) asyncC_ok unfolding life_core core_def by metis
next
  case 4
  then show ?thesis using assms(2) nullC_ok by (simp add: life_core core_mux) (simp add: core_def nullC_ok)
qed

lemma event_ok: "life_ok r \<Longrightarrow> life_ok (rec_event_step e r)"
  by (rule move_ok [OF event_move])

lemma others_keep:
  assumes "P r" "\<And>e r. P r \<Longrightarrow> P (rec_event_step e r)"
  shows "P (other_threads es r)"
  using assms(1) unfolding other_threads_def by (induction es arbitrary: r) (simp_all add: assms(2))

definition starting_ok :: "recorder \<Rightarrow> bool" where
  "starting_ok r \<longleftrightarrow> life_ok r \<and> \<not> re_stopped r \<and> (re_transition r = KMS_RECORDER_ENDPOINT_STARTING \<or>
     re_transition r = KMS_RECORDER_ENDPOINT_COMPLETED \<and> re_state r = KMS_URI_ENDPOINT_STATE_START)"

definition stopping_ok :: "recorder \<Rightarrow> bool" where
  "stopping_ok r \<longleftrightarrow> life_ok r \<and> (re_stopped r \<or> re_transition r = KMS_RECORDER_ENDPOINT_STOPPING)"

lemma core_same: "core r' = core r \<Longrightarrow> re_state r' = re_state r \<and> re_transition r' = re_transition r \<and>
    re_playing r' = re_playing r \<and> re_stopped r' = re_stopped r \<and> re_signals r' = re_signals r \<and> mux_state r' = mux_state r \<and>
    re_profile r' = re_profile r"
  by (simp add: core_def)

lemma starting_event: "starting_ok r \<Longrightarrow> starting_ok (rec_event_step e r)"
proof -
  assume r: "starting_ok r"
  then have l: "life_ok (rec_event_step e r)" by (auto simp: starting_ok_def intro: event_ok)
  show ?thesis
  proof (cases rule: move_cases [OF event_move [of r e]])
    case 1
    then show ?thesis using r l by (auto simp: starting_ok_def dest!: core_same)
  next
    case 2
    then have "re_state (rec_event_step e r) = KMS_URI_ENDPOINT_STATE_START"
      "re_transition (rec_event_step e r) = KMS_RECORDER_ENDPOINT_COMPLETED" "re_stopped (rec_event_step e r) = re_stopped r"
      by (simp_all add: asyncC_def core_def)
    then show ?thesis using r l by (simp add: starting_ok_def)
  qed (use r in \<open>simp_all add: starting_ok_def\<close>)
qed

lemma stopping_event: "stopping_ok r \<Longrightarrow> stopping_ok (rec_event_step e r)"
proof -
  assume r: "stopping_ok r"
  then have l: "life_ok r" "life_ok (rec_event_step e r)" by (auto simp: stopping_ok_def intro: event_ok)
  show ?thesis
  proof (cases rule: move_cases [OF event_move [of r e]])
    case 1
    then show ?thesis using r l by (auto simp: stopping_ok_def dest!: core_same)
  next
    case 2
    then show ?thesis using r l by (auto simp: stopping_ok_def life_ok_def)
  next
    case 3
    then have "re_stopped (rec_event_step e r)" by (simp add: asyncC_def core_def)
    then show ?thesis using l by (simp add: stopping_ok_def)
  next
    case 4
    then show ?thesis using l by (simp add: stopping_ok_def core_mux) (simp add: core_def)
  qed
qed

lemma core_sync: "core r = (a, b, c, d, e, m, p) \<Longrightarrow> core (kms_recorder_endpoint_sync_state_changed s r) =
    (s, KMS_RECORDER_ENDPOINT_COMPLETED, s = KMS_URI_ENDPOINT_STATE_START \<or> c \<and> s \<noteq> KMS_URI_ENDPOINT_STATE_STOP,
     d \<or> s = KMS_URI_ENDPOINT_STATE_STOP, if a = s then e else s # e, m, p)"
  by (simp add: kms_recorder_endpoint_sync_state_changed_def core_impl core_update)

lemma sync_ok:
  assumes "coreP (a, b, c, d, e, m, p)" "core r = (a, b', c, d, e, m, p)" "\<not> d" "s \<noteq> KMS_URI_ENDPOINT_STATE_STOP"
    "s = KMS_URI_ENDPOINT_STATE_START \<Longrightarrow> m = Some GST_STATE_PLAYING"
    "c \<Longrightarrow> m = Some GST_STATE_PLAYING"
  shows "life_ok (kms_recorder_endpoint_sync_state_changed s r)"
  using assms(1,3-6) unfolding life_core core_sync [OF assms(2)] by (cases e) (auto simp: coreP_def)

lemma sync_start_ok:
  assumes "starting_ok x"
  shows "life_ok (if re_playing x then kms_recorder_endpoint_sync_state_changed KMS_URI_ENDPOINT_STATE_START x else x)"
proof (cases "re_playing x")
  case True
  have "coreP (core x)" "\<not> re_stopped x" "re_transition x \<noteq> KMS_RECORDER_ENDPOINT_STOPPING"
    using assms by (auto simp: starting_ok_def life_core)
  moreover from this True have "mux_state x = Some GST_STATE_PLAYING" by (simp add: coreP_def core_def)
  ultimately have "life_ok (kms_recorder_endpoint_sync_state_changed KMS_URI_ENDPOINT_STATE_START x)"
    by (intro sync_ok [OF _ core_def]) (simp_all add: core_def)
  then show ?thesis using True by simp
qed (use assms in \<open>simp add: starting_ok_def\<close>)

lemma started_ok:
  assumes "life_ok r"
  shows "life_ok (fst (kms_recorder_endpoint_started others now r))"
proof (cases "re_stopped r \<or> re_state r = KMS_URI_ENDPOINT_STATE_START \<or> re_transition r \<noteq> KMS_RECORDER_ENDPOINT_COMPLETED")
  case True
  then show ?thesis using assms by (auto simp: kms_recorder_endpoint_started_def)
next
  case False
  have c: "core (started_enter r) = (re_state r, KMS_RECORDER_ENDPOINT_STARTING, re_playing r, re_stopped r, re_signals r,
      map_option (\<lambda>_. GST_STATE_PLAYING) (mux_state r), re_profile r)"
    by (simp add: started_enter_def Let_def core_mux core_change core_fold) (simp add: core_def)
  have "starting_ok (started_enter r)"
    using assms False core_same [of "started_enter r"] c
    by (auto simp: starting_ok_def life_core coreP_def core_def)
  then have w: "starting_ok (other_threads others (started_enter r))"
    by (rule others_keep) (rule starting_event)
  let ?w = "other_threads others (started_enter r)"
  define x where "x = kms_recorder_generate_pads (let r1 = lock_element ?w in if re_paused_start r1 \<noteq> GST_CLOCK_TIME_NONE
      then r1\<lparr>re_paused_time := re_paused_time r1 + (now - re_paused_start r1), re_paused_start := GST_CLOCK_TIME_NONE\<rparr> else r1)"
  have x: "core x = core ?w" "started_finish now ?w =
      (if re_playing x then kms_recorder_endpoint_sync_state_changed KMS_URI_ENDPOINT_STATE_START x else x)"
    by (simp_all add: x_def started_finish_def Let_def)
  have "starting_ok x" using w core_same [OF x(1)] x(1) by (simp add: starting_ok_def life_core)
  then have "life_ok (started_finish now ?w)" unfolding x(2)
    using sync_start_ok by simp
  then show ?thesis using False by (simp add: kms_recorder_endpoint_started_def)
qed

lemma mux_stopping: "stopping_ok r \<Longrightarrow> stopping_ok (kms_base_media_muxer_set_state s r)"
proof -
  obtain a b c d e m p where r: "core r = (a, b, c, d, e, m, p)" by (cases "core r")
  then have f: "re_stopped r = d" "re_transition r = b" by (simp_all add: core_def)
  have c: "core (kms_base_media_muxer_set_state s r) = (a, b, c, d, e, map_option (\<lambda>_. s) m, p)" by (simp add: core_mux r)
  then have g: "re_stopped (kms_base_media_muxer_set_state s r) = d" "re_transition (kms_base_media_muxer_set_state s r) = b"
    by (simp_all add: core_def)
  assume "stopping_ok r"
  then show ?thesis unfolding stopping_ok_def life_core c r f g by (auto simp: coreP_def)
qed

lemma stopping_cong: "core r' = core r \<Longrightarrow> stopping_ok r' = stopping_ok r"
  by (simp add: stopping_ok_def life_core core_def)

lemma others_stopping: "stopping_ok r \<Longrightarrow> stopping_ok (other_threads es r)"
  by (rule others_keep) (simp_all add: stopping_event)

definition stop_request :: "rec_event list \<Rightarrow> recorder \<Rightarrow> recorder" where
  "stop_request others1 r = (let r1 = kms_recorder_endpoint_change_state KMS_RECORDER_ENDPOINT_STOPPING r;
     r2 = (if re_playing r1
       then let (r', n) = kms_recorder_endpoint_send_eos_to_appsrcs others1 r1 in r'\<lparr>re_sent_eos := (n > 0)\<rparr> else r1)
     in (kms_recorder_endpoint_remove_pads r2)\<lparr>re_base := None, re_paused_time := 0, re_paused_start := GST_CLOCK_TIME_NONE\<rparr>)"

lemma stopped_alt: "kms_recorder_endpoint_stopped others1 others2 r =
     (if re_stopped r then (r, None)
      else if re_state r = KMS_URI_ENDPOINT_STATE_STOP \<or> re_transition r \<noteq> KMS_RECORDER_ENDPOINT_COMPLETED
      then (r, Some KMS_URI_ENDPOINT_INVALID_TRANSITION)
      else let r4 = stop_request others1 r in
        (if re_playing r4
         then (if \<not> re_sent_eos r4
           then lock_element (other_threads others2 (kms_base_media_muxer_set_state GST_STATE_NULL (unlock_element r4)))
           else r4)
         else kms_recorder_endpoint_sync_state_changed KMS_URI_ENDPOINT_STATE_STOP r4, None))"
  by (simp add: kms_recorder_endpoint_stopped_def stop_request_def Let_def)

lemma send_eos_stopping: "stopping_ok r \<Longrightarrow> stopping_ok (fst (kms_recorder_endpoint_send_eos_to_appsrcs others r))"
  unfolding kms_recorder_endpoint_send_eos_to_appsrcs_def Let_def fst_conv stopping_cong [OF core_lock(1)]
  by (intro others_stopping mux_stopping) (simp add: stopping_cong [OF core_lock(2)])

lemma stop_request_core: "re_playing r \<Longrightarrow> core (stop_request others1 r) =
    core (fst (kms_recorder_endpoint_send_eos_to_appsrcs others1 (kms_recorder_endpoint_change_state KMS_RECORDER_ENDPOINT_STOPPING r)))"
  by (simp add: stop_request_def Let_def kms_recorder_endpoint_change_state_def split: prod.split)

lemma sync_stop_ok:
  assumes "stopping_ok r" "\<not> re_playing r"
  shows "stopping_ok (kms_recorder_endpoint_sync_state_changed KMS_URI_ENDPOINT_STATE_STOP r)"
proof -
  obtain a b c d e m p where c: "core r = (a, b, c, d, e, m, p)" by (cases "core r")
  then have "re_playing r = c" "re_stopped r = d" "re_transition r = b" by (simp_all add: core_def)
  then have "coreP (a, b, c, d, e, m, p)" "\<not> c" "d" using assms by (auto simp: stopping_ok_def life_core c coreP_def)
  moreover from this have "a = KMS_URI_ENDPOINT_STATE_STOP" by (cases e) (auto simp: coreP_def)
  ultimately have "coreP (KMS_URI_ENDPOINT_STATE_STOP, KMS_RECORDER_ENDPOINT_COMPLETED, False, True, e, m, p)"
    "a = KMS_URI_ENDPOINT_STATE_STOP" by (auto simp: coreP_def)
  then show ?thesis using core_sync [OF c, of KMS_URI_ENDPOINT_STATE_STOP]
    by (simp add: stopping_ok_def life_core) (simp add: core_def)
qed

lemma stopped_ok:
  assumes r: "life_ok r" and n: "\<not> re_stopped r" "re_state r \<noteq> KMS_URI_ENDPOINT_STATE_STOP"
    "re_transition r = KMS_RECORDER_ENDPOINT_COMPLETED"
  shows "stopping_ok (fst (kms_recorder_endpoint_stopped others1 others2 r))"
proof (cases "re_playing r")
  case True
  let ?r1 = "kms_recorder_endpoint_change_state KMS_RECORDER_ENDPOINT_STOPPING r"
  have "stopping_ok ?r1" using r n True
    by (simp add: stopping_ok_def life_core core_change) (auto simp: core_def coreP_def kms_recorder_endpoint_change_state_def)
  from send_eos_stopping [OF this]
  have s: "stopping_ok (stop_request others1 r)"
    unfolding stopping_cong [OF stop_request_core [OF True]] .
  show ?thesis
  proof (cases "re_playing (stop_request others1 r)")
    case p: True
    have "stopping_ok (lock_element (other_threads others2 (kms_base_media_muxer_set_state GST_STATE_NULL (unlock_element (stop_request others1 r)))))"
      unfolding stopping_cong [OF core_lock(1)]
      by (intro others_stopping mux_stopping) (simp add: stopping_cong [OF core_lock(2)] s)
    then show ?thesis using s n p by (simp add: stopped_alt Let_def)
  next
    case p: False
    then show ?thesis using sync_stop_ok [OF s p] n by (simp add: stopped_alt Let_def)
  qed
next
  case False
  obtain a b c d e m p where c: "core r = (a, b, c, d, e, m, p)" by (cases "core r")
  then have f: "re_playing r = c" "re_stopped r = d" "re_state r = a" by (simp_all add: core_def)
  have q: "core (stop_request others1 r) = (a, KMS_RECORDER_ENDPOINT_STOPPING, c, d, e, m, p)"
    using False c by (simp add: stop_request_def Let_def core_change) (simp add: kms_recorder_endpoint_change_state_def)
  then have "\<not> re_playing (stop_request others1 r)" using False f by (simp add: core_def)
  moreover have "coreP (KMS_URI_ENDPOINT_STATE_STOP, KMS_RECORDER_ENDPOINT_COMPLETED, False, True, KMS_URI_ENDPOINT_STATE_STOP # e, m, p)"
    using r n False unfolding life_core c f by (cases e) (auto simp: coreP_def)
  then have "stopping_ok (kms_recorder_endpoint_sync_state_changed KMS_URI_ENDPOINT_STATE_STOP (stop_request others1 r))"
    using n f core_sync [OF q, of KMS_URI_ENDPOINT_STATE_STOP] by (simp add: stopping_ok_def life_core) (simp add: core_def)
  ultimately show ?thesis using n by (simp add: stopped_alt Let_def)
qed

lemma stopped_error:
  assumes "life_ok r" "re_stopped r \<or> re_state r = KMS_URI_ENDPOINT_STATE_STOP \<or> re_transition r \<noteq> KMS_RECORDER_ENDPOINT_COMPLETED"
  shows "fst (kms_recorder_endpoint_stopped others1 others2 r) = r"
  using assms(2) by (auto simp: stopped_alt)

lemma paused_ok:
  assumes "life_ok r"
  shows "life_ok (fst (kms_recorder_endpoint_paused clk r))"
proof (cases "re_stopped r \<or> re_state r = KMS_URI_ENDPOINT_STATE_PAUSE \<or> re_transition r \<noteq> KMS_RECORDER_ENDPOINT_COMPLETED")
  case True
  then show ?thesis using assms by (auto simp: kms_recorder_endpoint_paused_def)
next
  case False
  obtain a b c d e m p where c: "core r = (a, b, c, d, e, m, p)" by (cases "core r")
  then have f: "re_stopped r = d" "re_transition r = b" by (simp_all add: core_def)
  define q where "q = (let r1 = kms_recorder_endpoint_change_state KMS_RECORDER_ENDPOINT_PAUSING r in
    case clk of Some t \<Rightarrow> r1\<lparr>re_paused_start := t\<rparr> | None \<Rightarrow> r1)"
  have "core q = (a, KMS_RECORDER_ENDPOINT_PAUSING, c, d, e, m, p)"
    by (simp add: q_def Let_def core_change c split: option.split)
  note q = this
  have k: "coreP (a, b, c, d, e, m, p)" using assms by (simp add: life_core c)
  have "\<not> d" using False f by simp
  moreover have "c \<Longrightarrow> m = Some GST_STATE_PLAYING" using k False f by (auto simp: coreP_def)
  ultimately have "life_ok (kms_recorder_endpoint_sync_state_changed KMS_URI_ENDPOINT_STATE_PAUSE q)"
    by (intro sync_ok [OF k q]) simp_all
  then show ?thesis using False by (simp add: kms_recorder_endpoint_paused_def q_def Let_def)
qed

lemma request_ok: "life_ok r \<Longrightarrow> life_ok (fst (kms_uri_endpoint_set_state q r))"
proof -
  assume "life_ok r"
  then have l: "life_ok (lock_element r)" by (simp add: life_cong [OF core_lock(1)])
  have "life_ok (fst (kms_uri_endpoint_change_state q (lock_element r)))"
  proof (cases q)
    case (Stop o1 o2)
    show ?thesis
    proof (cases "re_stopped (lock_element r) \<or> re_state (lock_element r) = KMS_URI_ENDPOINT_STATE_STOP \<or>
        re_transition (lock_element r) \<noteq> KMS_RECORDER_ENDPOINT_COMPLETED")
      case True
      then show ?thesis using l stopped_error [OF l, of o1 o2] by (simp add: kms_uri_endpoint_change_state_def Stop)
    next
      case False
      then show ?thesis using l stopped_ok [OF l, of o1 o2] by (simp add: kms_uri_endpoint_change_state_def Stop stopping_ok_def)
    qed
  qed (use l in \<open>simp_all add: kms_uri_endpoint_change_state_def started_ok paused_ok\<close>)
  then show ?thesis by (simp add: kms_uri_endpoint_set_state_def life_cong [OF core_lock(2)] case_prod_unfold Let_def)
qed

lemma core_request_sink: "core (fst (kms_recorder_endpoint_request_new_sink_pad type name r)) = core r"
  by (simp add: kms_recorder_endpoint_request_new_sink_pad_def Let_def)

lemma core_release_sink: "core (fst (kms_recorder_endpoint_release_requested_sink_pad name r)) = core r"
  by (simp add: kms_recorder_endpoint_release_requested_sink_pad_def Let_def split: option.split)

lemma call_ok: "life_ok r \<Longrightarrow> life_ok (rec_call_step r c)"
  by (cases c) (simp_all add: request_ok event_ok life_cong [OF core_request_sink] life_cong [OF core_release_sink])

lemma core_new_muxer: "core (kms_recorder_endpoint_new_media_muxer r) =
    (case core r of (a, b, c, d, e, m, p) \<Rightarrow> (a, b, c, d, e, Some GST_STATE_NULL, p))"
proof -
  have "core (r\<lparr>re_mux := Some m\<rparr>) = (case core r of (a, b, c, d, e, _, p) \<Rightarrow> (a, b, c, d, e, Some (mx_state m), p))" for m
    by (simp add: core_def mux_state_def)
  then show ?thesis by (simp add: kms_recorder_endpoint_new_media_muxer_def Let_def split: prod.split)
qed

lemma recorder_init_ok: "life_ok (set_profile p kms_recorder_endpoint_init)"
proof -
  have "core kms_recorder_endpoint_init = (KMS_URI_ENDPOINT_STATE_STOP, KMS_RECORDER_ENDPOINT_COMPLETED, False, False, [], None, KMS_RECORDING_PROFILE_NONE)"
    "re_profile kms_recorder_endpoint_init = KMS_RECORDING_PROFILE_NONE"
    by (simp_all add: core_def kms_recorder_endpoint_init_def mux_state_def)
  moreover have "core (r\<lparr>re_profile := p\<rparr>) = (case core r of (a, b, c, d, e, m, _) \<Rightarrow> (a, b, c, d, e, m, p))" for r
    by (simp add: core_def mux_state_def)
  ultimately show ?thesis
    by (cases "p = KMS_RECORDING_PROFILE_NONE")
      (simp_all add: set_profile_def Let_def life_core core_new_muxer, simp_all add: coreP_def)
qed

lemma recorder_run_ok: "life_ok (recorder_run p calls)"
  unfolding recorder_run_def
proof (induction calls rule: rev_induct)
  case Nil
  then show ?case by (simp add: recorder_init_ok)
qed (simp add: call_ok)

subsection \<open>Signals\<close>

text \<open>What was signalled is never taken back.\<close>

definition signalled :: "uri_state list \<Rightarrow> recorder \<Rightarrow> bool" where
  "signalled g r \<longleftrightarrow> (\<exists>h. re_signals r = h @ g)"

lemma signalled_core: "core r' = core r \<Longrightarrow> signalled g r' = signalled g r"
  by (simp add: signalled_def core_def)

lemma core_signals: "core r' = core r \<Longrightarrow> re_signals r' = re_signals r"
  by (simp add: core_def)

lemma signalled_proj: "signalled g r \<longleftrightarrow> (\<exists>h. fst (snd (snd (snd (snd (core r))))) = h @ g)"
  by (simp add: signalled_def core_def)

lemma signalled_tuple: "core r = (a, b, c, d, e, m, p) \<Longrightarrow> signalled g r \<longleftrightarrow> (\<exists>h. e = h @ g)"
  by (simp add: signalled_def core_def)

lemma signalled_cons: "signalled g r \<Longrightarrow> re_signals r' = x # re_signals r \<Longrightarrow> signalled g r'"
  unfolding signalled_def by (metis append_Cons)

lemma signalled_sync: "signalled g r \<Longrightarrow> signalled g (kms_recorder_endpoint_sync_state_changed s r)"
proof -
  obtain a b c d e m p where r: "core r = (a, b, c, d, e, m, p)" by (cases "core r")
  assume "signalled g r"
  then obtain h where "e = h @ g" using signalled_tuple [OF r] by blast
  then show ?thesis unfolding signalled_tuple [OF core_sync [OF r]] by (metis append_Cons)
qed

lemma signalled_mux: "signalled g (kms_base_media_muxer_set_state s r) = signalled g r"
  by (simp add: signalled_def kms_base_media_muxer_set_state_def)

lemma signalled_change: "signalled g (kms_recorder_endpoint_change_state t r) = signalled g r"
  by (simp add: signalled_def kms_recorder_endpoint_change_state_def)

lemma signalled_event: "signalled g r \<Longrightarrow> signalled g (rec_event_step e r)"
proof -
  assume r: "signalled g r"
  obtain a b c d e' m p where c: "core r = (a, b, c, d, e', m, p)" by (cases "core r")
  then obtain h where h: "e' = h @ g" using r signalled_tuple [OF c] by blast
  have "fst (snd (snd (snd (snd (asyncC s (core r)))))) \<in> {h @ g, (s # h) @ g}" for s
    by (simp add: c h asyncC_def)
  then have "\<exists>h'. fst (snd (snd (snd (snd (asyncC s (core r)))))) = h' @ g" for s by blast
  then have async: "signalled g r'" if "core r' = asyncC s (core r)" for r' s
    unfolding signalled_proj that .
  show ?thesis
  proof (cases rule: move_cases [OF event_move [of r e]])
    case 1
    then show ?thesis using r signalled_core [OF 1] by simp
  next
    case 4
    then show ?thesis using r signalled_core [OF 4(2)] by (simp add: signalled_mux)
  qed (use async in blast)+
qed

lemma signalled_others: "signalled g r \<Longrightarrow> signalled g (other_threads es r)"
  by (rule others_keep) (simp_all add: signalled_event)

lemma signalled_started: "signalled g r \<Longrightarrow> signalled g (fst (kms_recorder_endpoint_started others now r))"
proof (cases "re_stopped r \<or> re_state r = KMS_URI_ENDPOINT_STATE_START \<or> re_transition r \<noteq> KMS_RECORDER_ENDPOINT_COMPLETED")
  case True
  moreover assume "signalled g r"
  ultimately show ?thesis by (auto simp: kms_recorder_endpoint_started_def)
next
  case False
  assume "signalled g r"
  moreover have "signalled g (fold (\<lambda>i. with_sink i (\<lambda>d. if sp_exposed d then d\<lparr>sp_until_key := True\<rparr> else d)) xs r) = signalled g r" for xs
    by (rule signalled_core) (simp add: core_fold)
  ultimately have "signalled g (started_enter r)"
    by (simp add: started_enter_def Let_def signalled_mux signalled_change signalled_core [OF core_lock(2)])
  then have "signalled g (lock_element (other_threads others (started_enter r)))"
    by (simp add: signalled_others signalled_core [OF core_lock(1)])
  then have "signalled g (started_finish now (other_threads others (started_enter r)))"
    by (simp add: started_finish_def Let_def signalled_sync signalled_core [OF core_pads(1)] signalled_core [OF core_fields(8)]
        signalled_core [OF core_fields(9)])
  then show ?thesis using False by (simp add: kms_recorder_endpoint_started_def)
qed

lemma signalled_stop_request: "signalled g r \<Longrightarrow> signalled g (stop_request others1 r)"
proof -
  assume "signalled g r"
  then have "signalled g (kms_base_media_muxer_set_state s (unlock_element (kms_recorder_endpoint_change_state t r)))" for s t
    by (simp add: signalled_mux signalled_change signalled_core [OF core_lock(2)])
  then have "signalled g (lock_element (other_threads es (kms_base_media_muxer_set_state s
      (unlock_element (kms_recorder_endpoint_change_state t r)))))" for s t es
    by (simp add: signalled_others signalled_core [OF core_lock(1)])
  then have "signalled g (fst (kms_recorder_endpoint_send_eos_to_appsrcs others1 (kms_recorder_endpoint_change_state t r)))" for t
    by (simp add: kms_recorder_endpoint_send_eos_to_appsrcs_def Let_def)
  moreover have "signalled g (kms_recorder_endpoint_change_state KMS_RECORDER_ENDPOINT_STOPPING r)" using \<open>signalled g r\<close>
    by (simp add: signalled_change)
  ultimately show ?thesis
    unfolding signalled_def by (simp add: stop_request_def Let_def case_prod_unfold core_signals [OF core_pads(2)])
qed

lemma signalled_stopped: "signalled g r \<Longrightarrow> signalled g (fst (kms_recorder_endpoint_stopped others1 others2 r))"
  using signalled_stop_request [of g r others1]
  by (auto simp: stopped_alt Let_def signalled_sync signalled_core [OF core_lock(1)] signalled_core [OF core_lock(2)]
      signalled_mux signalled_others)

lemma signalled_paused: "signalled g r \<Longrightarrow> signalled g (fst (kms_recorder_endpoint_paused clk r))"
  by (auto simp: kms_recorder_endpoint_paused_def Let_def signalled_change signalled_core [OF core_fields(9)]
      intro!: signalled_sync split: option.split)

lemma signalled_call: "signalled g r \<Longrightarrow> signalled g (rec_call_step r c)"
proof (cases c)
  case (Request q)
  moreover assume "signalled g r"
  then have "signalled g (lock_element r)" by (simp add: signalled_core [OF core_lock(1)])
  then have "signalled g (fst (kms_uri_endpoint_change_state q (lock_element r)))"
    by (cases q) (simp_all add: kms_uri_endpoint_change_state_def signalled_stopped signalled_started signalled_paused)
  ultimately show ?thesis by (simp add: kms_uri_endpoint_set_state_def case_prod_unfold Let_def signalled_core [OF core_lock(2)])
qed (simp_all add: signalled_event signalled_core [OF core_request_sink] signalled_core [OF core_release_sink])

lemma run_append: "recorder_run p (calls @ later) = foldl rec_call_step (recorder_run p calls) later"
  by (simp add: recorder_run_def)

lemma signalled_run: "signalled (re_signals (recorder_run p calls)) (recorder_run p (calls @ later))"
  unfolding run_append
  by (induction later rule: rev_induct) (simp_all add: signalled_call, simp add: signalled_def)

lemma stopped_final: "life_ok r \<Longrightarrow> re_stopped r \<Longrightarrow> life_ok r' \<Longrightarrow> re_signals r' = h @ re_signals r \<Longrightarrow>
    re_signals r' = re_signals r \<and> re_state r' = KMS_URI_ENDPOINT_STATE_STOP"
proof -
  assume r: "life_ok r" "re_stopped r" and r': "life_ok r'" "re_signals r' = h @ re_signals r"
  have s: "KMS_URI_ENDPOINT_STATE_STOP \<in> set (re_signals r)" using r by (simp add: life_ok_def)
  have "h = []" using r' s by (cases h) (auto simp: life_ok_def)
  then have "re_signals r' = re_signals r" using r'(2) by simp
  moreover from this s r'(1) have "re_state r' = KMS_URI_ENDPOINT_STATE_STOP"
    unfolding life_ok_def by (cases "re_signals r") auto
  ultimately show ?thesis by blast
qed



text \<open>
  A request is refused exactly when the recorder is in that state already, was stopped, or has
  not finished an earlier request.
\<close>

lemma request_errors:
  "snd (kms_uri_endpoint_set_state q (recorder_run p calls)) =
     (let r = recorder_run p calls in
      if re_state r = requested_state q \<or> KMS_URI_ENDPOINT_STATE_STOP \<in> set (re_signals r) \<or>
        re_transition r \<noteq> KMS_RECORDER_ENDPOINT_COMPLETED
      then Some KMS_URI_ENDPOINT_INVALID_TRANSITION else None)"
proof -
  have l: "life_ok (recorder_run p calls)" by (rule recorder_run_ok)
  then have "re_stopped (recorder_run p calls) \<longleftrightarrow> KMS_URI_ENDPOINT_STATE_STOP \<in> set (re_signals (recorder_run p calls))"
    "re_stopped (recorder_run p calls) \<Longrightarrow> re_state (recorder_run p calls) = KMS_URI_ENDPOINT_STATE_STOP"
    by (cases "re_signals (recorder_run p calls)"; auto simp: life_ok_def)+
  then show ?thesis
    by (cases q) (auto simp: kms_uri_endpoint_set_state_def case_prod_unfold Let_def kms_uri_endpoint_change_state_def
        stopped_alt kms_recorder_endpoint_started_def kms_recorder_endpoint_paused_def lock_element_def)
qed

lemma lock_fields: "re_state (lock_element r) = re_state r" "re_stopped (lock_element r) = re_stopped r"
    "re_transition (lock_element r) = re_transition r"
  by (simp_all add: lock_element_def)

lemma stopped_fields: "life_ok r \<Longrightarrow> re_stopped r \<Longrightarrow> re_state r = KMS_URI_ENDPOINT_STATE_STOP \<and>
    re_transition r = KMS_RECORDER_ENDPOINT_COMPLETED \<and> \<not> re_playing r \<and> KMS_URI_ENDPOINT_STATE_STOP \<in> set (re_signals r)"
  by (cases "re_signals r") (auto simp: life_ok_def)

lemma eos_null: "re_transition r = KMS_RECORDER_ENDPOINT_STOPPING \<Longrightarrow> life_ok r \<Longrightarrow>
    core (rec_event_step Eos r) = core (kms_base_media_muxer_set_state GST_STATE_NULL r)"
proof -
  have c: "core (fold kms_recorder_release_pending_pad xs r) = core r" for xs by (rule core_fold) simp
  assume "re_transition r = KMS_RECORDER_ENDPOINT_STOPPING"
  then show ?thesis by (simp add: kms_recorder_endpoint_on_eos_def Let_def core_mux c)
qed

lemma stopped_event: "re_stopped r \<Longrightarrow> re_stopped (rec_event_step e r)"
proof -
  assume r: "re_stopped r"
  have "re_stopped r' = fst (snd (snd (snd (core r'))))" for r' by (simp add: core_def)
  moreover have "fst (snd (snd (snd (asyncC s (core r)))))" for s using r by (simp add: core_def asyncC_def)
  moreover have "fst (snd (snd (snd (core (kms_base_media_muxer_set_state GST_STATE_NULL r)))))" using r
    by (simp add: core_mux) (simp add: core_def)
  ultimately show ?thesis by (cases rule: move_cases [OF event_move [of r e]]) (use r in auto)
qed

text \<open>A recorder that is stopping is stopped when its pipeline is.\<close>

lemma stopping_ends:
  assumes s: "stopping_ok r1"
  defines "r2 \<equiv> rec_event_step Eos r1"
  defines "r3 \<equiv> rec_event_step (Bus_state_changed True GST_STATE_READY GST_STATE_NULL) r2"
  shows "re_state r3 = KMS_URI_ENDPOINT_STATE_STOP \<and> re_transition r3 = KMS_RECORDER_ENDPOINT_COMPLETED \<and> \<not> re_playing r3 \<and>
     KMS_URI_ENDPOINT_STATE_STOP \<in> set (re_signals r3) \<and>
     (re_transition r1 = KMS_RECORDER_ENDPOINT_STOPPING \<longrightarrow> mux_state r3 = Some GST_STATE_NULL)"
proof (cases "re_transition r1 = KMS_RECORDER_ENDPOINT_STOPPING")
  case True
  have l: "life_ok r1" using s by (simp add: stopping_ok_def)
  obtain a c d e m p where r1: "core r1 = (a, KMS_RECORDER_ENDPOINT_STOPPING, c, d, e, m, p)"
    using True by (simp add: core_def)
  then have m: "m \<noteq> None" using l by (auto simp: life_core coreP_def)
  have r2: "core r2 = (a, KMS_RECORDER_ENDPOINT_STOPPING, c, d, e, Some GST_STATE_NULL, p)"
    using m unfolding r2_def eos_null [OF True l] core_mux r1 by auto
  then obtain m' where "re_mux r2 = Some m'" by (auto simp: core_def mux_state_def)
  then have "core r3 = asyncC KMS_URI_ENDPOINT_STATE_STOP (core r2)"
    using core_async [of KMS_URI_ENDPOINT_STATE_STOP r2] by (simp add: r3_def bus_sync_signal_handler_def)
  then have r3: "core r3 = (KMS_URI_ENDPOINT_STATE_STOP, KMS_RECORDER_ENDPOINT_COMPLETED, False, True,
      if a = KMS_URI_ENDPOINT_STATE_STOP then e else KMS_URI_ENDPOINT_STATE_STOP # e, Some GST_STATE_NULL, p)"
    by (simp add: r2 asyncC_def)
  have "life_ok r3" unfolding r3_def r2_def using l by (intro event_ok)
  moreover have "re_stopped r3" "mux_state r3 = Some GST_STATE_NULL" using r3 by (simp_all add: core_def)
  ultimately show ?thesis using stopped_fields by blast
next
  case False
  then have "re_stopped r1" using s by (simp add: stopping_ok_def)
  have "stopping_ok r3" unfolding r3_def r2_def by (intro stopping_event s)
  moreover have "re_stopped r3"
    using \<open>re_stopped r1\<close> stopped_event unfolding r3_def r2_def by blast
  ultimately show ?thesis using stopped_fields False by (auto simp: stopping_ok_def)
qed



section \<open>Times of what is recorded\<close>

lemma base_sinks [simp]: "re_base (with_sink i f r) = re_base r" "re_base (connect_sink_func i r) = re_base r"
    "re_base (lock_element r) = re_base r" "re_base (unlock_element r) = re_base r"
    "re_base (kms_base_media_muxer_set_state s r) = re_base r" "re_base (kms_recorder_endpoint_change_state t r) = re_base r"
    "re_base (kms_uri_endpoint_change_state_impl u r) = re_base r"
    "re_base (kms_recorder_endpoint_update_internal_state u r) = re_base r"
    "re_base (kms_recorder_endpoint_sync_state_changed u r) = re_base r"
    "re_base (kms_recorder_endpoint_async_state_changed u r) = re_base r"
    "re_base (kms_recorder_endpoint_add_appsink m n b r) = re_base r"
  by (cases u; simp add: with_sink_def connect_sink_func_def lock_element_def unlock_element_def kms_base_media_muxer_set_state_def
      kms_recorder_endpoint_change_state_def kms_uri_endpoint_change_state_impl_def kms_recorder_endpoint_update_internal_state_def
      kms_recorder_endpoint_sync_state_changed_def kms_recorder_endpoint_async_state_changed_def
      kms_recorder_endpoint_add_appsink_def Let_def)+

lemma base_srcs [simp]: "re_base (fst (kms_base_media_muxer_remove_src i r)) = re_base r"
    "re_base (fst (kms_base_media_muxer_add_src m i r)) = re_base r"
  by (simp_all add: kms_base_media_muxer_remove_src_def kms_base_media_muxer_add_src_def case_prod_unfold Let_def split: option.split)

lemma base_release [simp]: "re_base (kms_recorder_release_pending_pad i r) = re_base r"
  by (simp add: kms_recorder_release_pending_pad_def case_prod_unfold Let_def)

lemma base_fold: "(\<And>x r. re_base (f x r) = re_base r) \<Longrightarrow> re_base (fold f xs r) = re_base r"
  by (induction xs arbitrary: r) simp_all

lemma base_unlink [simp]: "re_base (unlink_sinkpad_cb i r) = re_base r"
  by (simp add: unlink_sinkpad_cb_def Let_def)

lemma base_link [simp]: "re_base (fst (link_sinkpad_cb i r)) = re_base r"
proof (cases "map_of (re_sinks r) i")
  case (Some d)
  obtain r1 ok where a: "kms_base_media_muxer_add_src (sp_type d) i r = (r1, ok)" by fastforce
  from base_srcs(2) [of "sp_type d" i r, unfolded a fst_conv] show ?thesis
    by (cases ok) (simp_all add: link_sinkpad_cb_def Some a)
qed (simp add: link_sinkpad_cb_def)

lemma base_pads [simp]: "re_base (remove_sink_func i r) = re_base r" "re_base (kms_recorder_generate_pads r) = re_base r"
    "re_base (kms_recorder_endpoint_remove_pads r) = re_base r"
  by (simp_all add: remove_sink_func_def Let_def kms_recorder_generate_pads_def kms_recorder_endpoint_remove_pads_def base_fold)

text \<open>The time of the first buffer.\<close>

definition recorded_from :: "u64 \<Rightarrow> recorder \<Rightarrow> bool" where
  "recorded_from t r \<longleftrightarrow> (case re_base r of Some b \<Rightarrow> bt_pts b = t | None \<Rightarrow> False)"

lemma from_base: "re_base r' = re_base r \<Longrightarrow> recorded_from t r' = recorded_from t r"
  by (simp add: recorded_from_def)

lemma from_event:
  assumes "recorded_from t r" "t \<noteq> GST_CLOCK_TIME_NONE"
  shows "recorded_from t (rec_event_step e r)"
proof (cases e)
  case (Bus_state_changed p n s)
  have "re_base (bus_sync_signal_handler p n s r) = re_base r" by (cases n) (simp_all add: bus_sync_signal_handler_def)
  then show ?thesis using assms Bus_state_changed by (simp add: recorded_from_def)
next
  case Eos
  have "re_base (fold kms_recorder_release_pending_pad xs r) = re_base r" for xs by (rule base_fold) simp
  then have "re_base (kms_recorder_endpoint_on_eos r) = re_base r" by (simp add: kms_recorder_endpoint_on_eos_def Let_def)
  then show ?thesis using assms Eos by (simp add: recorded_from_def)
next
  case (Sample f i p d)
  then show ?thesis using assms by (auto simp: recorded_from_def recv_sample_def Let_def split: option.splits)
next
  case (Audio_gap a d)
  then show ?thesis using assms by (auto simp: recorded_from_def appsink_event_probe_def split: option.splits)
qed (use assms in \<open>simp_all add: from_base [OF base_link] from_base [OF base_unlink]\<close>)

lemma from_others: "recorded_from t r \<Longrightarrow> t \<noteq> GST_CLOCK_TIME_NONE \<Longrightarrow> recorded_from t (other_threads es r)"
  by (rule others_keep [where P = "recorded_from t"]) (simp_all add: from_event)

fun is_stop :: "rec_call \<Rightarrow> bool" where
  "is_stop (Request (Stop _ _)) = True"
| "is_stop _ = False"

lemma from_request:
  assumes "recorded_from t r" "t \<noteq> GST_CLOCK_TIME_NONE" "\<not> is_stop (Request q)"
  shows "recorded_from t (fst (kms_uri_endpoint_set_state q r))"
proof (cases q)
  case (Start es now)
  have "recorded_from t (started_enter (lock_element r))"
    using assms(1) by (simp add: started_enter_def recorded_from_def Let_def base_fold)
  then have w: "recorded_from t (other_threads es (started_enter (lock_element r)))" using assms(2) by (rule from_others)
  have "re_base (started_finish now x) = re_base x" for x by (simp add: started_finish_def Let_def)
  then show ?thesis using assms(1) w Start
    by (simp add: kms_uri_endpoint_set_state_def kms_uri_endpoint_change_state_def kms_recorder_endpoint_started_def
        case_prod_unfold Let_def recorded_from_def)
next
  case (Pause clk)
  then show ?thesis using assms(1)
    by (cases clk; cases "re_base r") (simp_all add: kms_uri_endpoint_set_state_def kms_uri_endpoint_change_state_def
        kms_recorder_endpoint_paused_def case_prod_unfold Let_def recorded_from_def)
qed (use assms in simp)

lemma base_request_sink: "re_base (fst (kms_recorder_endpoint_request_new_sink_pad type name r)) = re_base r"
    "re_base (fst (kms_recorder_endpoint_release_requested_sink_pad name r)) = re_base r"
  by (simp_all add: kms_recorder_endpoint_request_new_sink_pad_def kms_recorder_endpoint_release_requested_sink_pad_def Let_def
      split: option.split)

lemma from_calls:
  assumes "recorded_from t r" "t \<noteq> GST_CLOCK_TIME_NONE" "list_all (\<lambda>c. \<not> is_stop c) calls"
  shows "recorded_from t (foldl rec_call_step r calls)"
  using assms(3,1)
proof (induction calls arbitrary: r)
  case (Cons c calls)
  have "recorded_from t (rec_call_step r c)"
  proof (cases c)
    case (Request q)
    then show ?thesis using Cons.prems assms(2) from_request [of t r q] by simp
  next
    case (Other e)
    then show ?thesis using Cons.prems assms(2) by (simp add: from_event)
  qed (use Cons.prems in \<open>simp_all add: recorded_from_def base_request_sink\<close>)
  then show ?case using Cons by simp
qed simp

text \<open>What is taken off the times besides the time of the first buffer, and the latter.\<close>

definition recorded_offset :: "recorder \<Rightarrow> nat" where
  "recorded_offset r = unat (re_paused_time r) +
     (if re_genpts r then (case re_base r of Some b \<Rightarrow> unat (bt_audio_gaps b) | None \<Rightarrow> 0) else 0)"

definition recording_start :: "recorder \<Rightarrow> u64" where
  "recording_start r = (case re_base r of Some b \<Rightarrow> bt_pts b | None \<Rightarrow> GST_CLOCK_TIME_NONE)"

lemma unat_minus_offset: "unat (minus_offset t off) = unat t - unat off"
  by (auto simp: minus_offset_def unat_sub word_less_nat_alt less_imp_le)

lemma sum3_nat: "unat a + unat b + unat c < 2 ^ 64 \<Longrightarrow> unat ((a::u64) + b + c) = unat a + unat b + unat c"
  by (simp add: unat_word_ariths)

lemma sum2_nat: "unat a + unat b < 2 ^ 64 \<Longrightarrow> unat ((a::u64) + b) = unat a + unat b"
  by (simp add: unat_word_ariths)

lemma recv_pushed:
  assumes "re_pushed (recv_sample f i p d r) = (i, t, s) # re_pushed r" "p \<noteq> GST_CLOCK_TIME_NONE" "f p \<noteq> GST_CLOCK_TIME_NONE"
    and "recorded_offset r + unat (recording_start (recv_sample f i p d r)) < 2 ^ 64"
  shows "recorded_from (recording_start (recv_sample f i p d r)) (recv_sample f i p d r)"
    "recording_start (recv_sample f i p d r) \<noteq> GST_CLOCK_TIME_NONE"
    "unat t = unat (f p) - (recorded_offset r + unat (recording_start (recv_sample f i p d r)))"
    "recorded_offset (recv_sample f i p d r) = recorded_offset r"
proof -
  let ?r = "recv_sample f i p d r" and ?off = "re_paused_time r + (if re_genpts r then case re_base r of Some b \<Rightarrow> bt_audio_gaps b | None \<Rightarrow> 0 else 0)"
  have a: "(case map_of (re_sinks r) i of Some d \<Rightarrow> sp_appsrc d | None \<Rightarrow> False) \<and> recording r"
  proof (rule ccontr)
    assume "\<not> ?thesis"
    then have "?r = r" unfolding recv_sample_def by (rule if_not_P)
    then show False using assms(1) by simp
  qed
  have t: "t = minus_offset (f p) (?off + recording_start ?r)" and
    b: "recorded_from (recording_start ?r) ?r" "recording_start ?r \<noteq> GST_CLOCK_TIME_NONE" "recorded_offset ?r = recorded_offset r"
    using assms(1-3) a
    by (cases "re_base r"; simp add: recv_sample_def Let_def recorded_from_def recording_start_def recorded_offset_def; auto)+
  show "recorded_from (recording_start ?r) ?r" "recording_start ?r \<noteq> GST_CLOCK_TIME_NONE" "recorded_offset ?r = recorded_offset r"
    by (fact b)+
  have "unat (?off + recording_start ?r) = recorded_offset r + unat (recording_start ?r)"
    using assms(4) by (cases "re_base r"; cases "re_genpts r") (simp_all add: recorded_offset_def sum3_nat sum2_nat)
  then show "unat t = unat (f p) - (recorded_offset r + unat (recording_start ?r))" unfolding t unat_minus_offset by simp
qed



section \<open>What goes wrong\<close>

text \<open>
  A change of state that needs nothing of the pipeline unlocks the element that its caller
  unlocks again.
\<close>

lemma pause_unlocks_twice:
  "let r = recorder_run KMS_RECORDING_PROFILE_WEBM [Request (Pause None)] in re_lock r = 0 \<and> re_unheld r = 1"
  by code_simp

text \<open>
  A recorder that is stopped while its start is still on the way never stops: the start that
  comes back says started and the message of the stop is ignored.
\<close>

lemma stop_lost:
  "let r = set_profile KMS_RECORDING_PROFILE_WEBM kms_recorder_endpoint_init;
       r1 = other_threads [Bus_state_changed True GST_STATE_PLAYING GST_STATE_VOID_PENDING] (started_enter (lock_element r));
       (r2, err) = kms_uri_endpoint_set_state (Stop [] []) r1;
       r3 = unlock_element (started_finish 5 r2);
       r4 = other_threads [Eos, Bus_state_changed True GST_STATE_READY GST_STATE_NULL] r3
   in err = None \<and> re_signals r4 = [KMS_URI_ENDPOINT_STATE_START] \<and> mux_state r4 = Some GST_STATE_NULL \<and>
     snd (kms_uri_endpoint_set_state (Start [] 9) r4) = Some KMS_URI_ENDPOINT_INVALID_TRANSITION"
  by code_simp

text \<open>A sink that was requested while the recorder is paused or starts has no pad when it is started.\<close>

lemma paused_request_not_served:
  "let r = recorder_run KMS_RECORDING_PROFILE_KSR [Request (Start [Bus_state_changed True GST_STATE_PLAYING GST_STATE_VOID_PENDING] 5),
       Request (Pause (Some 7)), Request_sink Video ''video_1'', Request (Start [] 9)]
   in re_state r = KMS_URI_ENDPOINT_STATE_START \<and> map_of (re_sinks r) ''video_1'' \<noteq> None \<and> \<not> is_exposed r ''video_1'' \<and>
     is_exposed r ''video_default''"
  by code_simp

text \<open>The times of presenting and of decoding start at zero each, so a reordered frame is presented before it is decoded.\<close>

lemma dts_after_pts:
  "let r = recorder_run KMS_RECORDING_PROFILE_MP4 [Request (Start [Bus_state_changed True GST_STATE_PLAYING GST_STATE_VOID_PENDING] 5),
         Other (Link_pad ''video_default'')];
       r1 = recv_sample (\<lambda>t. t) ''video_default'' 140 100 r;
       r2 = recv_sample (\<lambda>t. t) ''video_default'' 160 150 r1
   in re_pushed r2 = [(''video_default'', 20, 50), (''video_default'', 0, 0)]"
  by code_simp

end
