(* ===== verification/SdpAgent.thy ===== *)
theory SdpAgent
  imports SdpMediaHandler
begin

text \<open>
  The SDP agent (\<open>kmssdpagent.c\<close>, with \<open>kmssdpagentcommon.c\<close>): it keeps the handlers of
  the medias in the order of the description, makes offers and answers out of what they
  create, and holds the state of the negotiation. Handlers are structs in a store, known by
  their address; the groups are those of \<open>SdpGroups\<close>, the handler that rejects is that of
  \<open>SdpMediaHandler\<close>. What the media handlers of a user and the callbacks do is an argument.
\<close>

section \<open>State\<close>

datatype agent_state = UNNEGOTIATED | LOCAL_OFFER | REMOTE_OFFER | WAIT_NEGO | NEGOTIATED

text \<open>
  \<open>SdpHandler\<close> together with its \<open>KmsSdpHandler\<close>. \<open>sh_refs\<close> is the count of the outer
  struct, which is freed when it gets to 0; \<open>sh_handler\<close> is the address of the media handler.
\<close>

record sdp_handler =
  sh_refs :: int
  sh_id :: u32
  sh_media :: "string option"
  sh_index :: u32
  sh_negotiated :: bool
  sh_handler :: nat
  sh_disabled :: bool
  sh_unsupported :: bool
  sh_rejected :: bool
  sh_offer :: bool
  sh_unsupported_media :: "sdp_media option"

text \<open>
  The agent. \<open>ag_store\<close> and \<open>ag_media_handlers\<close> are the memory: the handlers and the media
  handlers that were ever allocated, by address. \<open>ag_local\<close> and \<open>ag_remote\<close> are the id and
  the version of the two sessions. \<open>ag_extensions\<close> are the groups, by id. \<open>ag_user\<close> is the
  state of whoever owns the callbacks and the media handlers.
\<close>

record 'e sdp_agent =
  ag_state :: agent_state
  ag_gm :: group_manager
  ag_local_description :: "sdp_message option"
  ag_remote_description :: "sdp_message option"
  ag_use_ipv6 :: bool
  ag_addr :: "string option"
  ag_handlers :: "href list"
  ag_hids :: u32
  ag_prev_sdp :: "sdp_message option"
  ag_offer_handlers :: "href list"
  ag_local :: "string option \<times> string option"
  ag_remote :: "string option \<times> string option"
  ag_extensions :: "u32 list"
  ag_store :: "sdp_handler list"
  ag_media_handlers :: "media_handler list"
  ag_user :: 'e

text \<open>
  What is not the agent's: the virtual operations of the media handlers, which get the address
  and the base class of the handler and, for the mid, whether it is negotiated; and the
  callbacks. They see the groups and the state of their owner.
\<close>

type_synonym 'e world = "group_manager \<times> 'e"

record 'e media_ops =
  mo_manage_protocol :: "nat \<Rightarrow> media_handler \<Rightarrow> string option \<Rightarrow> bool"
  mo_create_offer :: "nat \<Rightarrow> media_handler \<Rightarrow> string option \<Rightarrow> sdp_media option \<Rightarrow> 'e world \<Rightarrow> sdp_media option \<times> 'e world"
  mo_create_answer :: "nat \<Rightarrow> media_handler \<Rightarrow> bool \<Rightarrow> sdp_message \<Rightarrow> sdp_media \<Rightarrow> 'e world \<Rightarrow> sdp_media option \<times> 'e world"
  mo_process_answer :: "nat \<Rightarrow> media_handler \<Rightarrow> sdp_media \<Rightarrow> 'e world \<Rightarrow> bool \<times> 'e world"
  cb_media_offer :: "(nat \<Rightarrow> sdp_media \<Rightarrow> 'e world \<Rightarrow> sdp_media \<times> 'e world) option"
  cb_media_answer :: "(nat \<Rightarrow> sdp_media option \<Rightarrow> 'e world \<Rightarrow> sdp_media \<times> 'e world) option"
  cb_media_answered :: "(nat \<Rightarrow> sdp_media \<Rightarrow> bool \<Rightarrow> 'e world \<Rightarrow> 'e world) option"
  cb_handler_required :: "(sdp_media \<Rightarrow> 'e world \<Rightarrow> media_handler option \<times> 'e world) option"

definition kms_sdp_agent_new :: "'e \<Rightarrow> 'e sdp_agent" where
  "kms_sdp_agent_new user_data = \<lparr>ag_state = UNNEGOTIATED, ag_gm = kms_sdp_group_manager_new,
     ag_local_description = None, ag_remote_description = None, ag_use_ipv6 = False,
     ag_addr = Some ''0.0.0.0'', ag_handlers = [], ag_hids = 0, ag_prev_sdp = None,
     ag_offer_handlers = [], ag_local = (None, None), ag_remote = (None, None),
     ag_extensions = [], ag_store = [], ag_media_handlers = [], ag_user = user_data\<rparr>"

abbreviation hnd :: "'e sdp_agent \<Rightarrow> href \<Rightarrow> sdp_handler" where
  "hnd a h \<equiv> ag_store a ! h"

abbreviation mhnd :: "'e sdp_agent \<Rightarrow> href \<Rightarrow> media_handler" where
  "mhnd a h \<equiv> ag_media_handlers a ! sh_handler (hnd a h)"

definition upd_hnd :: "(sdp_handler \<Rightarrow> sdp_handler) \<Rightarrow> href \<Rightarrow> 'e sdp_agent \<Rightarrow> 'e sdp_agent" where
  "upd_hnd f h a = a\<lparr>ag_store := (ag_store a)[h := f (hnd a h)]\<rparr>"

definition with_world :: "('e world \<Rightarrow> 'r \<times> 'e world) \<Rightarrow> 'e sdp_agent \<Rightarrow> 'r \<times> 'e sdp_agent" where
  "with_world f a = (let (r, gm, u) = f (ag_gm a, ag_user a) in (r, a\<lparr>ag_gm := gm, ag_user := u\<rparr>))"

definition sdp_handler_ref :: "href \<Rightarrow> 'e sdp_agent \<Rightarrow> 'e sdp_agent" where
  "sdp_handler_ref = upd_hnd (\<lambda>s. s\<lparr>sh_refs := sh_refs s + 1\<rparr>)"

definition sdp_handler_unref :: "href \<Rightarrow> 'e sdp_agent \<Rightarrow> 'e sdp_agent" where
  "sdp_handler_unref = upd_hnd (\<lambda>s. s\<lparr>sh_refs := sh_refs s - 1\<rparr>)"

definition sdp_handler_new :: "u32 \<Rightarrow> string option \<Rightarrow> nat \<Rightarrow> bool \<Rightarrow> sdp_handler" where
  "sdp_handler_new hid media m is_reject = \<lparr>sh_refs = 1, sh_id = hid, sh_media = media, sh_index = 0,
     sh_negotiated = False, sh_handler = m, sh_disabled = False, sh_unsupported = is_reject,
     sh_rejected = False, sh_offer = False, sh_unsupported_media = None\<rparr>"

section \<open>Sessions, origin and the change of state\<close>

text \<open>\<open>now\<close> is what \<open>time (NULL)\<close> returns.\<close>

definition get_ntp_time :: "u64 \<Rightarrow> u64" where
  "get_ntp_time now = now + 2208988800"

definition generate_sdp_session_description :: "u64 \<Rightarrow> string option \<times> string option" where
  "generate_sdp_session_description now = (let s = decimal (unat (get_ntp_time now)) in (Some s, Some s))"

definition kms_sdp_agent_remove_media_handler :: "'e sdp_agent \<Rightarrow> href \<Rightarrow> 'e sdp_agent" where
  "kms_sdp_agent_remove_media_handler agent handler = sdp_handler_unref handler
     (agent\<lparr>ag_gm := fst (kms_sdp_group_manager_remove_handler_impl (ag_gm agent) (sh_id (hnd agent handler)) handler),
        ag_handlers := remove1 handler (ag_handlers agent)\<rparr>)"

function kms_sdp_agent_remove_disabled_medias :: "'e sdp_agent \<Rightarrow> 'e sdp_agent" where
  "kms_sdp_agent_remove_disabled_medias agent =
     (case find (\<lambda>h. sh_disabled (hnd agent h)) (ag_handlers agent) of
        None \<Rightarrow> agent
      | Some h \<Rightarrow> kms_sdp_agent_remove_disabled_medias (kms_sdp_agent_remove_media_handler agent h))"
  by auto
termination
  by (relation "measure (\<lambda>a. length (ag_handlers a))")
    (auto simp: kms_sdp_agent_remove_media_handler_def sdp_handler_unref_def upd_hnd_def
      find_Some_iff length_remove1 dest!: nth_mem intro!: diff_less)

declare kms_sdp_agent_remove_disabled_medias.simps [simp del]

definition mark_handler_as_negotiated :: "href \<Rightarrow> 'e sdp_agent \<Rightarrow> 'e sdp_agent" where
  "mark_handler_as_negotiated = upd_hnd (\<lambda>s. s\<lparr>sh_negotiated := True\<rparr>)"

definition kms_sdp_agent_commit_state_operations :: "'e sdp_agent \<Rightarrow> agent_state \<Rightarrow> 'e sdp_agent" where
  "kms_sdp_agent_commit_state_operations agent new_state = (case new_state of
     UNNEGOTIATED \<Rightarrow> (fold sdp_handler_unref (ag_offer_handlers agent) agent)
       \<lparr>ag_local := (None, None), ag_remote := (None, None), ag_offer_handlers := []\<rparr>
   | NEGOTIATED \<Rightarrow> kms_sdp_agent_remove_disabled_medias
       (if ag_state agent \<noteq> LOCAL_OFFER
        then fold mark_handler_as_negotiated (ag_offer_handlers agent) agent else agent)
   | _ \<Rightarrow> agent)"

definition SDP_AGENT_NEW_STATE :: "'e sdp_agent \<Rightarrow> agent_state \<Rightarrow> 'e sdp_agent" where
  "SDP_AGENT_NEW_STATE agent new_state =
     (kms_sdp_agent_commit_state_operations agent new_state)\<lparr>ag_state := new_state\<rparr>"

definition kms_sdp_agent_get_handler :: "'e sdp_agent \<Rightarrow> u32 \<Rightarrow> href option" where
  "kms_sdp_agent_get_handler agent hid =
     find (\<lambda>h. sh_id (hnd agent h) = hid) (ag_handlers agent @ ag_offer_handlers agent)"

definition kms_sdp_agent_set_use_ipv6 :: "'e sdp_agent \<Rightarrow> bool \<Rightarrow> 'e sdp_agent" where
  "kms_sdp_agent_set_use_ipv6 self v =
     self\<lparr>ag_use_ipv6 := v,
       ag_addr := (if ag_addr self = Some ''0.0.0.0''
         then Some (if v then ''::'' else ''0.0.0.0'') else ag_addr self)\<rparr>"

text \<open>Copying no description leaves the pointer that is returned unset.\<close>

definition kms_sdp_agent_get_local_desc :: "'e sdp_agent \<Rightarrow> c_fault + sdp_message" where
  "kms_sdp_agent_get_local_desc self = (case ag_local_description self of
     None \<Rightarrow> Inl Uninitialised_read | Some d \<Rightarrow> Inr d)"

definition kms_sdp_agent_origin_init :: "'e sdp_agent \<Rightarrow> string option \<Rightarrow> string option \<Rightarrow> sdp_origin" where
  "kms_sdp_agent_origin_init agent sess_id sess_version =
     \<lparr>so_username = Some ''-'', so_sess_id = sess_id, so_sess_version = sess_version,
      so_nettype = Some ''IN'', so_addrtype = Some (if ag_use_ipv6 agent then ''IP6'' else ''IP4''),
      so_addr = ag_addr agent\<rparr>"

definition kms_sdp_agent_set_origin :: "sdp_message \<Rightarrow> sdp_origin \<Rightarrow> sdp_message" where
  "kms_sdp_agent_set_origin msg origin =
     msg\<lparr>sg_origin := origin, sg_connection := (so_nettype origin, so_addrtype origin, so_addr origin)\<rparr>"

text \<open>\<open>gst_sdp_message_new\<close> and the attributes every description starts with.\<close>

definition sdp_message_new :: sdp_message where
  "sdp_message_new = \<lparr>sg_version = None, sg_session_name = None,
     sg_origin = \<lparr>so_username = None, so_sess_id = None, so_sess_version = None, so_nettype = None,
       so_addrtype = None, so_addr = None\<rparr>, sg_connection = (None, None, None), sg_attrs = [], sg_medias = []\<rparr>"

definition kms_sdp_agent_set_default_session_attributes :: "sdp_message \<Rightarrow> sdp_message" where
  "kms_sdp_agent_set_default_session_attributes msg =
     msg\<lparr>sg_version := Some ''0'', sg_session_name := Some ''Kurento Media Server''\<rparr>"

section \<open>Adding and removing handlers\<close>

text \<open>The agent's lists may only change while nothing is negotiated.\<close>

abbreviation can_manipulate :: "'e sdp_agent \<Rightarrow> bool" where
  "can_manipulate agent \<equiv> ag_state agent = UNNEGOTIATED \<or> ag_state agent = NEGOTIATED"

definition kms_sdp_agent_create_media_handler ::
  "'e sdp_agent \<Rightarrow> string option \<Rightarrow> nat \<Rightarrow> href option \<times> 'e sdp_agent" where
  "kms_sdp_agent_create_media_handler agent media m =
     (let hid = ag_hids agent; h = length (ag_store agent);
        a1 = agent\<lparr>ag_hids := hid + 1,
          ag_store := ag_store agent @ [sdp_handler_new hid media m (mh_reject (ag_media_handlers agent ! m))],
          ag_gm := kms_sdp_group_manager_add_handler_impl (ag_gm agent) hid h\<rparr> in
      case kms_sdp_media_handler_set_parent (ag_media_handlers a1 ! m) of
        None \<Rightarrow> (None, kms_sdp_agent_remove_media_handler a1 h)
      | Some mh \<Rightarrow> (let a2 = a1\<lparr>ag_media_handlers := (ag_media_handlers a1)[m := mh]\<rparr> in
          case kms_sdp_media_handler_set_id_impl mh hid of
            None \<Rightarrow> (None, (kms_sdp_agent_remove_media_handler a2 h)
              \<lparr>ag_media_handlers := (ag_media_handlers a2)[m := kms_sdp_media_handler_remove_parent mh]\<rparr>)
          | Some mh' \<Rightarrow> (Some h, a2\<lparr>ag_media_handlers := (ag_media_handlers a2)[m := mh']\<rparr>)))"

definition kms_sdp_agent_append_media_handler ::
  "'e sdp_agent \<Rightarrow> string option \<Rightarrow> nat \<Rightarrow> int \<times> 'e sdp_agent" where
  "kms_sdp_agent_append_media_handler agent media m =
     (case kms_sdp_agent_create_media_handler agent media m of
        (None, a1) \<Rightarrow> (- 1, a1)
      | (Some h, a1) \<Rightarrow>
          (to_gint (uint (sh_id (hnd a1 h))), a1\<lparr>ag_handlers := ag_handlers a1 @ [h],
            ag_media_handlers := (ag_media_handlers a1)[m := (ag_media_handlers a1 ! m)
              \<lparr>mh_addr_type := Some (if ag_use_ipv6 a1 then ''IP6'' else ''IP4''), mh_addr := ag_addr a1\<rparr>]\<rparr>))"

definition kms_sdp_agent_add_proto_handler_impl ::
  "'e sdp_agent \<Rightarrow> string option \<Rightarrow> nat \<Rightarrow> int \<times> 'e sdp_agent" where
  "kms_sdp_agent_add_proto_handler_impl agent media m =
     (if mh_proto (ag_media_handlers agent ! m) = None then (- 1, agent)
      else if \<not> can_manipulate agent then (- 1, agent)
      else kms_sdp_agent_append_media_handler agent media m)"

definition slist_index :: "'a list \<Rightarrow> 'a \<Rightarrow> int" where
  "slist_index xs x = (if x \<in> set xs then int (length (takeWhile (\<lambda>y. y \<noteq> x) xs)) else - 1)"

definition kms_sdp_agent_get_handler_index_impl :: "'e sdp_agent \<Rightarrow> u32 \<Rightarrow> int" where
  "kms_sdp_agent_get_handler_index_impl agent hid = (case kms_sdp_agent_get_handler agent hid of
     None \<Rightarrow> - 1
   | Some h \<Rightarrow>
       (if sh_disabled (hnd agent h) then - 1
        else let index = slist_index (ag_offer_handlers agent) h in
          if index \<ge> 0 then index
          else if sh_offer (hnd agent h) then to_gint (uint (sh_index (hnd agent h))) else index))"

text \<open>The property \<open>index\<close> of the media handler of a handler, which is what the groups read.\<close>

definition handler_index :: "'e sdp_agent \<Rightarrow> href \<Rightarrow> int" where
  "handler_index agent h = media_handler_index
     (\<lambda>hid. kms_sdp_agent_get_handler_index_impl agent (word_of_int hid)) (mhnd agent h)"

definition kms_sdp_agent_remove_proto_handler :: "'e sdp_agent \<Rightarrow> u32 \<Rightarrow> bool \<times> 'e sdp_agent" where
  "kms_sdp_agent_remove_proto_handler agent hid =
     (if \<not> can_manipulate agent then (False, agent)
      else case kms_sdp_agent_get_handler agent hid of
          None \<Rightarrow> (False, agent)
        | Some h \<Rightarrow>
            (let s = hnd agent h;
               a1 = agent\<lparr>ag_gm := fst (kms_sdp_group_manager_remove_handler_impl (ag_gm agent) (sh_id s) h),
                 ag_media_handlers := (ag_media_handlers agent)[sh_handler s :=
                   kms_sdp_media_handler_remove_parent (mhnd agent h)]\<rparr> in
             (True, if \<not> sh_negotiated s then kms_sdp_agent_remove_media_handler a1 h
                else upd_hnd (\<lambda>s. s\<lparr>sh_disabled := True\<rparr>) h a1)))"

section \<open>Offers\<close>

text \<open>
  The media that was negotiated: of the remote description if the agent had offered it,
  otherwise of the local one.
\<close>

definition kms_sdp_agent_get_negotiated_media :: "'e sdp_agent \<Rightarrow> href \<Rightarrow> sdp_media option" where
  "kms_sdp_agent_get_negotiated_media agent h =
     (let s = hnd agent h in
      if \<not> sh_negotiated s then None
      else case (if sh_offer s then ag_remote_description agent else ag_local_description agent) of
          None \<Rightarrow> None
        | Some desc \<Rightarrow>
            (if length (sg_medias desc) \<le> unat (sh_index s) then None
             else Some (sg_medias desc ! unat (sh_index s))))"

text \<open>A handler that rejects makes no offers.\<close>

definition handler_create_offer ::
  "'e media_ops \<Rightarrow> href \<Rightarrow> sdp_media option \<Rightarrow> 'e sdp_agent \<Rightarrow> sdp_media option \<times> 'e sdp_agent" where
  "handler_create_offer ops h prev agent =
     (if mh_reject (mhnd agent h) then (None, agent)
      else with_world (mo_create_offer ops (sh_handler (hnd agent h)) (mhnd agent h) (sh_media (hnd agent h)) prev) agent)"

definition kms_sdp_agent_create_proper_media_offer ::
  "'e media_ops \<Rightarrow> 'e sdp_agent \<Rightarrow> href \<Rightarrow> c_fault + sdp_media option \<times> 'e sdp_agent" where
  "kms_sdp_agent_create_proper_media_offer ops agent h =
     (let s = hnd agent h in
      if sh_disabled s \<or> sh_rejected s
      then Inr (map_option reject_sdp_media (kms_sdp_agent_get_negotiated_media agent h), agent)
      else if sh_unsupported s
      then (case sh_unsupported_media s of None \<Rightarrow> Inl Uninitialised_read | Some m \<Rightarrow> Inr (Some m, agent))
      else if \<not> sh_negotiated s
      then (let (m, a1) = handler_create_offer ops h None agent in
        Inr (m, if m \<noteq> None then upd_hnd (\<lambda>s. s\<lparr>sh_offer := True\<rparr>) h a1 else a1))
      else case ag_local_description agent of
          None \<Rightarrow> Inl Null_dereference
        | Some desc \<Rightarrow>
            (let index = slist_index (ag_offer_handlers agent) h in
             if index < 0 \<or> int (length (sg_medias desc)) \<le> index then Inr (None, agent)
             else Inr (handler_create_offer ops h (Some (sg_medias desc ! nat index)) agent)))"

definition fire_on_offer ::
  "'e media_ops \<Rightarrow> href \<Rightarrow> sdp_media \<Rightarrow> 'e sdp_agent \<Rightarrow> sdp_media \<times> 'e sdp_agent" where
  "fire_on_offer ops h media agent = (case cb_media_offer ops of
     None \<Rightarrow> (media, agent) | Some f \<Rightarrow> with_world (f (sh_handler (hnd agent h)) media) agent)"

definition add_media :: "sdp_media \<Rightarrow> sdp_message \<Rightarrow> sdp_message" where
  "add_media media msg = msg\<lparr>sg_medias := sg_medias msg @ [media]\<rparr>"

definition kms_sdp_agent_make_media_offer ::
  "'e media_ops \<Rightarrow> 'e sdp_agent \<Rightarrow> href \<Rightarrow> sdp_message \<Rightarrow> nat \<Rightarrow> c_fault + bool \<times> sdp_message \<times> 'e sdp_agent" where
  "kms_sdp_agent_make_media_offer ops agent h offer index =
     bind_result (kms_sdp_agent_create_proper_media_offer ops agent h) (\<lambda>(m, a1). case m of
       None \<Rightarrow> Inr (False, offer, a1)
     | Some media \<Rightarrow>
         (let (media', a2) = fire_on_offer ops h media (upd_hnd (\<lambda>s. s\<lparr>sh_index := of_nat index\<rparr>) h a1) in
          Inr (True, add_media media' offer, a2)))"

fun create_media_offer_loop ::
  "'e media_ops \<Rightarrow> href list \<Rightarrow> nat \<Rightarrow> sdp_message \<Rightarrow> 'e sdp_agent \<Rightarrow> c_fault + bool \<times> sdp_message \<times> 'e sdp_agent" where
  "create_media_offer_loop ops [] index offer agent = Inr (True, offer, agent)"
| "create_media_offer_loop ops (h # hs) index offer agent =
     bind_result (kms_sdp_agent_make_media_offer ops agent h offer index) (\<lambda>(ok, offer', agent').
       if \<not> ok then Inr (False, offer', agent')
       else create_media_offer_loop ops hs (Suc index) offer' agent')"

definition kms_sdp_agent_create_media_offer ::
  "'e media_ops \<Rightarrow> 'e sdp_agent \<Rightarrow> sdp_message \<Rightarrow> c_fault + bool \<times> sdp_message \<times> 'e sdp_agent" where
  "kms_sdp_agent_create_media_offer ops agent offer =
     create_media_offer_loop ops (ag_offer_handlers agent) 0 offer agent"

text \<open>\<open>g_ascii_strtoull\<close> gives 0 for NULL.\<close>

definition strtoull_opt :: "string option \<Rightarrow> u64" where
  "strtoull_opt s = (case s of None \<Rightarrow> 0 | Some t \<Rightarrow> strtoull t)"

definition kms_sdp_agent_increment_sess_version ::
  "'e sdp_agent \<Rightarrow> sdp_message \<Rightarrow> sdp_message \<Rightarrow> sdp_message \<times> 'e sdp_agent" where
  "kms_sdp_agent_increment_sess_version agent local_description msg =
     (let orig = sg_origin local_description;
        version = Some (decimal (unat (strtoull_opt (so_sess_version orig) + 1))) in
      (kms_sdp_agent_set_origin msg (orig\<lparr>so_sess_version := version\<rparr>),
       agent\<lparr>ag_local := (fst (ag_local agent), version)\<rparr>))"

definition kms_sdp_agent_update_session_version ::
  "'e sdp_agent \<Rightarrow> sdp_message \<Rightarrow> sdp_message \<times> 'e sdp_agent" where
  "kms_sdp_agent_update_session_version agent new_sdp = (case ag_local_description agent of
     None \<Rightarrow> (new_sdp, agent)
   | Some d \<Rightarrow>
       (if \<not> sdp_utils_equal_messages d new_sdp
        then kms_sdp_agent_increment_sess_version agent d new_sdp else (new_sdp, agent)))"

text \<open>Handlers are compared by their id.\<close>

abbreviation offered_id :: "'e sdp_agent \<Rightarrow> href \<Rightarrow> bool" where
  "offered_id agent h \<equiv> list_ex (\<lambda>g. sh_id (hnd agent g) = sh_id (hnd agent h)) (ag_offer_handlers agent)"

definition kms_sdp_agent_merge_handler_func :: "href \<Rightarrow> 'e sdp_agent \<Rightarrow> 'e sdp_agent" where
  "kms_sdp_agent_merge_handler_func h agent =
     (if sh_negotiated (hnd agent h) \<or> sh_disabled (hnd agent h) then agent
      else if \<not> offered_id agent h
      then sdp_handler_ref h (agent\<lparr>ag_offer_handlers := ag_offer_handlers agent @ [h]\<rparr>)
      else agent)"

definition kms_sdp_agent_get_first_not_negotiated_handler :: "'e sdp_agent \<Rightarrow> href option" where
  "kms_sdp_agent_get_first_not_negotiated_handler agent =
     find (\<lambda>h. \<not> sh_negotiated (hnd agent h) \<and> \<not> offered_id agent h) (ag_handlers agent)"

definition reusable_slot :: "'e sdp_agent \<Rightarrow> nat option" where
  "reusable_slot agent =
     (let reusable = (\<lambda>h. sh_disabled (hnd agent h) \<or> sh_unsupported (hnd agent h));
        i = length (takeWhile (\<lambda>h. \<not> reusable h) (ag_offer_handlers agent)) in
      if i < length (ag_offer_handlers agent) then Some i else None)"

text \<open>One turn of the loop: the first slot that can be reused gets the first new handler.\<close>

definition replace_slot :: "nat \<Rightarrow> href \<Rightarrow> 'e sdp_agent \<Rightarrow> 'e sdp_agent" where
  "replace_slot i new_handler agent =
     (let a1 = sdp_handler_ref new_handler (sdp_handler_unref (ag_offer_handlers agent ! i) agent) in
      a1\<lparr>ag_offer_handlers := (ag_offer_handlers a1)[i := new_handler]\<rparr>)"

text \<open>The loop need not end: \<open>None\<close> is a run without end.\<close>

partial_function (option) reuse_slots :: "'e sdp_agent \<Rightarrow> 'e sdp_agent option" where
  "reuse_slots agent = (case reusable_slot agent of
     None \<Rightarrow> Some agent
   | Some i \<Rightarrow> (case kms_sdp_agent_get_first_not_negotiated_handler agent of
        None \<Rightarrow> Some agent
      | Some new_handler \<Rightarrow> reuse_slots (replace_slot i new_handler agent)))"

definition kms_sdp_agent_merge_offer_handlers :: "'e sdp_agent \<Rightarrow> 'e sdp_agent option" where
  "kms_sdp_agent_merge_offer_handlers agent =
     (if ag_state agent = UNNEGOTIATED
      then Some (fold sdp_handler_ref (ag_handlers agent) (agent\<lparr>ag_offer_handlers := ag_handlers agent\<rparr>))
      else map_option (\<lambda>a. fold kms_sdp_agent_merge_handler_func (ag_handlers a) a) (reuse_slots agent))"

text \<open>The extensions of the session are the groups.\<close>

definition kms_sdp_agent_offer_processing_extensions ::
  "'e sdp_agent \<Rightarrow> bool \<Rightarrow> sdp_message \<Rightarrow> sdp_message" where
  "kms_sdp_agent_offer_processing_extensions agent pre_process offer =
     fold (\<lambda>gid msg. case map_of (gm_groups (ag_gm agent)) gid of
         None \<Rightarrow> msg
       | Some grp \<Rightarrow> (if bg_pre_proc grp \<noteq> pre_process then msg
           else kms_sdp_base_group_add_offer_attributes_impl (handler_index agent) grp msg))
       (ag_extensions agent) offer"

definition kms_sdp_agent_exec_answer_session_extensions ::
  "'e sdp_agent \<Rightarrow> sdp_message \<Rightarrow> bool \<Rightarrow> sdp_message \<Rightarrow> sdp_message" where
  "kms_sdp_agent_exec_answer_session_extensions agent offer pre_process answer =
     fold (\<lambda>gid msg. case map_of (gm_groups (ag_gm agent)) gid of
         None \<Rightarrow> msg
       | Some grp \<Rightarrow> (if bg_pre_proc grp \<noteq> pre_process then msg
           else kms_sdp_base_group_add_answer_attributes_impl (handler_index agent) grp offer msg))
       (ag_extensions agent) answer"

text \<open>
  The handlers of the medias are put back when the offer fails, unless there were none: then
  the pointer to the copy is NULL and the new ones stay.
\<close>

definition restore_offer_handlers :: "href list \<Rightarrow> 'e sdp_agent \<Rightarrow> 'e sdp_agent" where
  "restore_offer_handlers tmp agent =
     (if tmp = [] then agent
      else (fold sdp_handler_unref (ag_offer_handlers agent) agent)\<lparr>ag_offer_handlers := tmp\<rparr>)"

definition session_of_offer :: "u64 \<Rightarrow> 'e sdp_agent \<Rightarrow> c_fault + string option \<times> string option" where
  "session_of_offer now agent =
     (if ag_state agent = NEGOTIATED
      then (case ag_local_description agent of
         None \<Rightarrow> Inl Null_dereference
       | Some d \<Rightarrow> Inr (so_sess_id (sg_origin d), so_sess_version (sg_origin d)))
      else Inr (generate_sdp_session_description now))"

text \<open>The part of the function behind the merge of the handlers.\<close>

definition offer_of_medias ::
  "'e media_ops \<Rightarrow> href list \<Rightarrow> sdp_message \<Rightarrow> 'e sdp_agent \<Rightarrow> c_fault + sdp_message option \<times> 'e sdp_agent" where
  "offer_of_medias ops tmp offer agent =
     bind_result (kms_sdp_agent_create_media_offer ops agent offer) (\<lambda>(ok, offer1, a1).
       if \<not> ok then Inr (None, restore_offer_handlers tmp a1)
       else let (offer2, a2) = kms_sdp_agent_update_session_version a1 offer1;
              offer3 = kms_sdp_agent_offer_processing_extensions a2 False offer2 in
            Inr (Some offer3, SDP_AGENT_NEW_STATE (fold sdp_handler_unref tmp a2) LOCAL_OFFER))"

definition kms_sdp_agent_create_offer_impl ::
  "'e media_ops \<Rightarrow> u64 \<Rightarrow> 'e sdp_agent \<Rightarrow> (c_fault + sdp_message option \<times> 'e sdp_agent) option" where
  "kms_sdp_agent_create_offer_impl ops now agent =
     (if \<not> can_manipulate agent then Some (Inr (None, agent))
      else case session_of_offer now agent of
        Inl e \<Rightarrow> Some (Inl e)
      | Inr local \<Rightarrow>
          (let a1 = agent\<lparr>ag_local := local\<rparr>;
             offer1 = kms_sdp_agent_set_origin (kms_sdp_agent_set_default_session_attributes sdp_message_new)
               (kms_sdp_agent_origin_init a1 (fst local) (snd local));
             offer2 = kms_sdp_agent_offer_processing_extensions a1 True offer1;
             tmp = ag_offer_handlers agent in
           map_option (offer_of_medias ops tmp offer2)
             (kms_sdp_agent_merge_offer_handlers (fold sdp_handler_ref tmp a1))))"

section \<open>Which handler answers a media\<close>

text \<open>The callback hands over a new media handler; without a proto it is not used.\<close>

definition kms_sdp_agent_request_handler ::
  "'e media_ops \<Rightarrow> 'e sdp_agent \<Rightarrow> sdp_media \<Rightarrow> href option \<times> 'e sdp_agent" where
  "kms_sdp_agent_request_handler ops agent media = (case cb_handler_required ops of
     None \<Rightarrow> (None, agent)
   | Some f \<Rightarrow> (case with_world (f media) agent of
        (None, a1) \<Rightarrow> (None, a1)
      | (Some mh, a1) \<Rightarrow>
          (let m = length (ag_media_handlers a1);
             a2 = a1\<lparr>ag_media_handlers := ag_media_handlers a1 @ [mh]\<rparr> in
           if mh_proto mh = None then (None, a2)
           else if \<not> mo_manage_protocol ops m mh (sm_proto media) then (None, a2)
           else (let (hid, a3) = kms_sdp_agent_append_media_handler a2 (sm_media media) m in
             if hid < 0 then (None, a3)
             else (kms_sdp_agent_get_handler a3 (word_of_int hid), a3)))))"

definition kms_sdp_agent_set_handler_group ::
  "'e sdp_agent \<Rightarrow> href \<Rightarrow> sdp_media \<Rightarrow> sdp_message \<Rightarrow> c_fault + 'e sdp_agent" where
  "kms_sdp_agent_set_handler_group agent h media offer = (case gm_groups (ag_gm agent) of
     [(gid, grp)] \<Rightarrow>
       (case (attribute_val (sm_attrs media) ''mid'', attribute_val (sg_attrs offer) ''group'') of
          (Some mid, Some mids) \<Rightarrow> (case strsplit (CHR '' '') mids of
              [] \<Rightarrow> Inr agent
            | semantics # items \<Rightarrow>
                (if semantics \<noteq> bg_semantics grp \<or> mid \<notin> set items then Inr agent
                 else Inr (agent\<lparr>ag_gm := fst (kms_sdp_group_manager_add_handler_to_group_impl
                   (ag_gm agent) gid (sh_id (hnd agent h)))\<rparr>)))
        | _ \<Rightarrow> Inr agent)
   | _ \<Rightarrow> Inr agent)"

fun handler_for_media_loop ::
  "'e media_ops \<Rightarrow> 'e sdp_agent \<Rightarrow> sdp_media \<Rightarrow> sdp_message \<Rightarrow> href list \<Rightarrow> c_fault + href option" where
  "handler_for_media_loop ops agent media offer [] = Inr None"
| "handler_for_media_loop ops agent media offer (h # hs) =
     (if sh_negotiated (hnd agent h) \<or> sh_media (hnd agent h) \<noteq> sm_media media \<or>
         \<not> mo_manage_protocol ops (sh_handler (hnd agent h)) (mhnd agent h) (sm_proto media) \<or>
         h \<in> set (ag_offer_handlers agent)
      then handler_for_media_loop ops agent media offer hs
      else bind_result (kms_sdp_group_manager_is_handler_valid_for_groups_impl (ag_gm agent) media offer h)
        (\<lambda>valid. if valid then Inr (Some h) else handler_for_media_loop ops agent media offer hs))"

definition kms_sdp_agent_get_handler_for_media ::
  "'e media_ops \<Rightarrow> 'e sdp_agent \<Rightarrow> sdp_media \<Rightarrow> sdp_message \<Rightarrow> c_fault + href option \<times> 'e sdp_agent" where
  "kms_sdp_agent_get_handler_for_media ops agent media offer =
     bind_result (handler_for_media_loop ops agent media offer (ag_handlers agent)) (\<lambda>found. case found of
       Some h \<Rightarrow> Inr (Some h, agent)
     | None \<Rightarrow> (case kms_sdp_agent_request_handler ops agent media of
          (None, a1) \<Rightarrow> Inr (None, a1)
        | (Some h, a1) \<Rightarrow> bind_result (kms_sdp_agent_set_handler_group a1 h media offer) (\<lambda>a2. Inr (Some h, a2))))"

definition kms_sdp_agent_create_reject_media_handler ::
  "'e sdp_agent \<Rightarrow> sdp_media \<Rightarrow> href option \<times> 'e sdp_agent" where
  "kms_sdp_agent_create_reject_media_handler agent media =
     (let m = length (ag_media_handlers agent) in
      kms_sdp_agent_create_media_handler
        (agent\<lparr>ag_media_handlers := ag_media_handlers agent @ [kms_sdp_reject_media_handler_new]\<rparr>) (sm_media media) m)"

text \<open>The handler, or NULL when there is none: the agent never gets that far.\<close>

definition reject_handler_for ::
  "'e sdp_agent \<Rightarrow> sdp_media \<Rightarrow> c_fault + href \<times> 'e sdp_agent" where
  "reject_handler_for agent media = (case kms_sdp_agent_create_reject_media_handler agent media of
     (None, a1) \<Rightarrow> Inl Null_dereference | (Some h, a1) \<Rightarrow> Inr (h, a1))"

definition kms_sdp_agent_replace_offered_handler ::
  "'e media_ops \<Rightarrow> 'e sdp_agent \<Rightarrow> sdp_media \<Rightarrow> sdp_message \<Rightarrow> href \<Rightarrow> c_fault + href option \<times> 'e sdp_agent" where
  "kms_sdp_agent_replace_offered_handler ops agent media offer h =
     (if h \<notin> set (ag_offer_handlers agent) then Inr (None, agent)
      else let i = nat (slist_index (ag_offer_handlers agent) h) in
        bind_result (kms_sdp_agent_get_handler_for_media ops (sdp_handler_unref h agent) media offer) (\<lambda>(found, a1).
        bind_result (case found of
            None \<Rightarrow> reject_handler_for a1 media
          | Some c \<Rightarrow> Inr (c, sdp_handler_ref c a1)) (\<lambda>(candidate, a2).
          Inr (Some candidate, a2\<lparr>ag_offer_handlers := (ag_offer_handlers a2)[i := candidate]\<rparr>))))"

definition kms_sdp_agent_get_proper_handler ::
  "'e media_ops \<Rightarrow> 'e sdp_agent \<Rightarrow> sdp_media \<Rightarrow> sdp_message \<Rightarrow> href \<Rightarrow> c_fault + href option \<times> 'e sdp_agent" where
  "kms_sdp_agent_get_proper_handler ops agent media offer h =
     (if \<not> sh_rejected (hnd agent h) \<or> sm_port media = 0 then Inr (Some h, agent)
      else let a1 = upd_hnd (\<lambda>s. s\<lparr>sh_negotiated := False, sh_rejected := False, sh_offer := False\<rparr>) h agent in
        if sh_media (hnd a1 h) \<noteq> sm_media media
        then kms_sdp_agent_replace_offered_handler ops a1 media offer h
        else if mo_manage_protocol ops (sh_handler (hnd a1 h)) (mhnd a1 h) (sm_proto media)
        then Inr (Some h, a1)
        else kms_sdp_agent_replace_offered_handler ops a1 media offer h)"

definition kms_sdp_agent_select_handler_to_answer_media ::
  "'e media_ops \<Rightarrow> 'e sdp_agent \<Rightarrow> nat \<Rightarrow> sdp_media \<Rightarrow> sdp_message \<Rightarrow> c_fault + href option \<times> 'e sdp_agent" where
  "kms_sdp_agent_select_handler_to_answer_media ops agent index media offer =
     (if index < length (ag_offer_handlers agent)
      then kms_sdp_agent_get_proper_handler ops agent media offer (ag_offer_handlers agent ! index)
      else kms_sdp_agent_get_handler_for_media ops agent media offer)"

section \<open>Answers\<close>

definition handler_create_answer ::
  "'e media_ops \<Rightarrow> href \<Rightarrow> sdp_message \<Rightarrow> sdp_media \<Rightarrow> 'e sdp_agent \<Rightarrow> sdp_media option \<times> 'e sdp_agent" where
  "handler_create_answer ops h answer media agent =
     (if mh_reject (mhnd agent h)
      then (let (m, gm) = kms_sdp_reject_media_handler_create_answer
              (\<lambda>mid gm. on_answer_mid_cb gm (sh_id (hnd agent h)) (sh_negotiated (hnd agent h)) mid) media (ag_gm agent)
            in (Some m, agent\<lparr>ag_gm := gm\<rparr>))
      else with_world (mo_create_answer ops (sh_handler (hnd agent h)) (mhnd agent h)
        (sh_negotiated (hnd agent h)) answer media) agent)"

text \<open>
  The media of the answer and the handler that made it. A media offered with port 0 is
  answered by rejecting what was negotiated, or what the handler would answer; rejecting no
  media at all dereferences NULL. The flag is \<open>False\<close> where the code returns at once.
\<close>

definition make_media_answer ::
  "'e media_ops \<Rightarrow> sdp_media \<Rightarrow> sdp_message \<Rightarrow> href option \<Rightarrow> sdp_message \<Rightarrow> 'e sdp_agent \<Rightarrow>
    c_fault + (bool \<times> href \<times> sdp_media option) \<times> 'e sdp_agent" where
  "make_media_answer ops media offer found answer agent = (case found of
     None \<Rightarrow> bind_result (reject_handler_for agent media) (\<lambda>(h, a1).
       let (m, a2) = handler_create_answer ops h answer media a1 in Inr ((True, h, m), a2))
   | Some h \<Rightarrow>
       (if sm_port media = 0
        then (let (m, a1) = (if sh_negotiated (hnd agent h) then (kms_sdp_agent_get_negotiated_media agent h, agent)
                 else handler_create_answer ops h answer media agent) in
          case m of
            None \<Rightarrow> (if sh_negotiated (hnd agent h) then Inr ((False, h, None), a1) else Inl Null_dereference)
          | Some m' \<Rightarrow> Inr ((True, h, Some (reject_sdp_media m')), a1))
        else let (m, a1) = handler_create_answer ops h answer media agent in Inr ((True, h, m), a1)))"

definition is_internal_handler :: "'e sdp_agent \<Rightarrow> href \<Rightarrow> bool" where
  "is_internal_handler agent h \<longleftrightarrow> h \<notin> set (ag_handlers agent)"

text \<open>\<open>end:\<close> of the function: the handler joins the offered ones, or an internal one is dropped.\<close>

definition register_answer_handler :: "bool \<Rightarrow> href \<Rightarrow> nat \<Rightarrow> 'e sdp_agent \<Rightarrow> 'e sdp_agent" where
  "register_answer_handler ret h index agent =
     (if \<not> ret \<and> is_internal_handler agent h then sdp_handler_unref h agent
      else if ret \<and> h \<notin> set (ag_offer_handlers agent)
      then (let a1 = (if \<not> is_internal_handler agent h then sdp_handler_ref h agent else agent);
              a2 = upd_hnd (\<lambda>s. s\<lparr>sh_index := of_nat index\<rparr>) h a1 in
            a2\<lparr>ag_offer_handlers := ag_offer_handlers a2 @ [h]\<rparr>)
      else agent)"

definition fire_on_answer ::
  "'e media_ops \<Rightarrow> href \<Rightarrow> sdp_media option \<Rightarrow> 'e sdp_agent \<Rightarrow> sdp_media option \<times> 'e sdp_agent" where
  "fire_on_answer ops h media agent =
     (if sh_unsupported (hnd agent h) \<or> sh_rejected (hnd agent h) then (media, agent)
      else case cb_media_answer ops of
          None \<Rightarrow> (media, agent)
        | Some f \<Rightarrow> (let (media', agent') = with_world (f (sh_handler (hnd agent h)) media) agent in
            (if media = None then None else Some media', agent')))"

text \<open>Adding NULL as a media is refused by \<open>gst_sdp_message_add_media\<close>.\<close>

definition create_media_answer ::
  "'e media_ops \<Rightarrow> sdp_message \<Rightarrow> sdp_media \<Rightarrow> nat \<Rightarrow> sdp_message \<Rightarrow> 'e sdp_agent \<Rightarrow>
    c_fault + bool \<times> sdp_message \<times> 'e sdp_agent" where
  "create_media_answer ops offer media index answer agent =
     bind_result (kms_sdp_agent_select_handler_to_answer_media ops agent index media offer) (\<lambda>(found, a1).
     bind_result (make_media_answer ops media offer found answer a1) (\<lambda>((go, h, m), a2).
       if \<not> go then Inr (False, answer, a2)
       else let a3 = (if m \<noteq> None \<and> sh_unsupported (hnd a2 h) \<and> sh_unsupported_media (hnd a2 h) = None
                then upd_hnd (\<lambda>s. s\<lparr>sh_unsupported_media := m\<rparr>) h a2 else a2);
              a4 = register_answer_handler (m \<noteq> None) h index a3;
              (m', a5) = fire_on_answer ops h m a4 in
            Inr (case m' of None \<Rightarrow> (False, answer, a5)
              | Some am \<Rightarrow> (m \<noteq> None, add_media am answer, a5))))"

fun answer_loop ::
  "'e media_ops \<Rightarrow> sdp_message \<Rightarrow> sdp_media list \<Rightarrow> nat \<Rightarrow> sdp_message \<Rightarrow> 'e sdp_agent \<Rightarrow>
    c_fault + bool \<times> sdp_message \<times> 'e sdp_agent" where
  "answer_loop ops offer [] index answer agent = Inr (True, answer, agent)"
| "answer_loop ops offer (media # ms) index answer agent =
     bind_result (create_media_answer ops offer media index answer agent) (\<lambda>(ok, answer', agent').
       if \<not> ok then Inr (False, answer', agent')
       else answer_loop ops offer ms (Suc index) answer' agent')"

definition intersect_session_attr :: "sdp_attr \<Rightarrow> sdp_message \<Rightarrow> sdp_message" where
  "intersect_session_attr attr answer =
     (if sa_key attr = ''group'' then answer
      else if list_ex (\<lambda>a. sa_key attr = sa_key a \<and> sa_value attr = sa_value a) (sg_attrs answer) then answer
      else answer\<lparr>sg_attrs := attrs_add (sa_key attr) (sa_value attr) (sg_attrs answer)\<rparr>)"

definition kms_sdp_agent_generate_answer ::
  "'e media_ops \<Rightarrow> 'e sdp_agent \<Rightarrow> sdp_message \<Rightarrow> c_fault + sdp_message option \<times> 'e sdp_agent" where
  "kms_sdp_agent_generate_answer ops agent offer =
     (let o1 = kms_sdp_agent_origin_init agent (fst (ag_local agent)) (snd (ag_local agent));
        answer1 = kms_sdp_agent_set_origin (kms_sdp_agent_set_default_session_attributes sdp_message_new) o1;
        (ok, answer2) = sdp_utils_intersect_session_attributes offer (Some intersect_session_attr) answer1 in
      if \<not> ok then Inr (None, agent)
      else let answer3 = kms_sdp_agent_exec_answer_session_extensions agent offer True answer2 in
        bind_result (answer_loop ops offer (sg_medias offer) 0 answer3 agent) (\<lambda>(success, answer4, a1).
          Inr (if success then Some (kms_sdp_agent_exec_answer_session_extensions a1 offer False answer4) else None, a1)))"

definition kms_sdp_agent_create_answer_impl ::
  "'e media_ops \<Rightarrow> u64 \<Rightarrow> 'e sdp_agent \<Rightarrow> c_fault + sdp_message option \<times> 'e sdp_agent" where
  "kms_sdp_agent_create_answer_impl ops now agent =
     (if ag_state agent \<noteq> REMOTE_OFFER then Inr (None, agent)
      else let a1 = (if fst (ag_local agent) = None \<or> snd (ag_local agent) = None
          then agent\<lparr>ag_local := generate_sdp_session_description now\<rparr> else agent) in
        case ag_remote_description a1 of
          None \<Rightarrow> Inl Null_dereference
        | Some offer \<Rightarrow> kms_sdp_agent_generate_answer ops a1 offer)"


section \<open>The state of the negotiation\<close>

definition kms_sdp_agent_cancel_offer_impl :: "'e sdp_agent \<Rightarrow> bool \<times> 'e sdp_agent" where
  "kms_sdp_agent_cancel_offer_impl agent =
     (if ag_state agent \<noteq> LOCAL_OFFER then (False, agent)
      else (True, SDP_AGENT_NEW_STATE agent (if ag_prev_sdp agent \<noteq> None then NEGOTIATED else UNNEGOTIATED)))"

definition kms_sdp_agent_fire_on_answered_callback ::
  "'e media_ops \<Rightarrow> href \<Rightarrow> sdp_media \<Rightarrow> bool \<Rightarrow> 'e sdp_agent \<Rightarrow> 'e sdp_agent" where
  "kms_sdp_agent_fire_on_answered_callback ops h media local_offerer agent = (case cb_media_answered ops of
     None \<Rightarrow> agent
   | Some f \<Rightarrow> snd (with_world (\<lambda>w. ((), f (sh_handler (hnd agent h)) media local_offerer w)) agent))"

fun process_answered_loop ::
  "'e media_ops \<Rightarrow> bool \<Rightarrow> nat \<Rightarrow> sdp_media list \<Rightarrow> 'e sdp_agent \<Rightarrow> c_fault + 'e sdp_agent" where
  "process_answered_loop ops local_offerer index [] agent = Inr agent"
| "process_answered_loop ops local_offerer index (media # ms) agent =
     (if index < length (ag_offer_handlers agent)
      then process_answered_loop ops local_offerer (Suc index) ms
        (kms_sdp_agent_fire_on_answered_callback ops (ag_offer_handlers agent ! index) media local_offerer agent)
      else Inl Assertion_failed)"

definition kms_sdp_agent_process_answered_description ::
  "'e media_ops \<Rightarrow> sdp_message \<Rightarrow> bool \<Rightarrow> 'e sdp_agent \<Rightarrow> c_fault + 'e sdp_agent" where
  "kms_sdp_agent_process_answered_description ops desc local_offerer agent =
     process_answered_loop ops local_offerer 0 (sg_medias desc) agent"

definition kms_sdp_agent_set_local_description_impl ::
  "'e media_ops \<Rightarrow> sdp_message \<Rightarrow> 'e sdp_agent \<Rightarrow> c_fault + bool \<times> 'e sdp_agent" where
  "kms_sdp_agent_set_local_description_impl ops description agent =
     (if ag_state agent \<noteq> LOCAL_OFFER \<and> ag_state agent \<noteq> REMOTE_OFFER then Inr (False, agent)
      else if so_sess_id (sg_origin description) \<noteq> fst (ag_local agent) then Inr (False, agent)
      else let a1 = agent\<lparr>ag_local_description := Some description\<rparr>;
             a2 = (if ag_state a1 = REMOTE_OFFER then a1\<lparr>ag_prev_sdp := Some description\<rparr> else a1);
             new_state = (if ag_state a2 = LOCAL_OFFER then WAIT_NEGO else NEGOTIATED);
             a3 = SDP_AGENT_NEW_STATE a2 new_state in
           if new_state = NEGOTIATED
           then bind_result (kms_sdp_agent_process_answered_description ops description False a3)
             (\<lambda>a4. Inr (True, a4))
           else Inr (True, a3))"

definition update_rejected_medias :: "'e sdp_agent \<Rightarrow> sdp_message \<Rightarrow> 'e sdp_agent" where
  "update_rejected_medias agent desc =
     fold (\<lambda>(h, media) a. if \<not> sh_rejected (hnd a h) \<and> sm_port media = 0
         then upd_hnd (\<lambda>s. s\<lparr>sh_rejected := True\<rparr>) h a else a)
       (zip (ag_offer_handlers agent) (sg_medias desc)) agent"

text \<open>What a media handler says about an answer is only logged.\<close>

definition handler_process_answer :: "'e media_ops \<Rightarrow> href \<Rightarrow> sdp_media \<Rightarrow> 'e sdp_agent \<Rightarrow> 'e sdp_agent" where
  "handler_process_answer ops h media agent =
     snd (with_world (mo_process_answer ops (sh_handler (hnd agent h)) (mhnd agent h) media) agent)"

definition kms_sdp_agent_process_answer :: "'e media_ops \<Rightarrow> sdp_message \<Rightarrow> 'e sdp_agent \<Rightarrow> 'e sdp_agent" where
  "kms_sdp_agent_process_answer ops prev_sdp agent =
     fold (\<lambda>(h, media). handler_process_answer ops h media)
       (zip (ag_offer_handlers agent) (sg_medias prev_sdp)) agent"

definition is_valid_session_version :: "string option \<Rightarrow> string option \<Rightarrow> bool" where
  "is_valid_session_version session1 session2 \<longleftrightarrow>
     (let v1 = strtoull_opt session1; v2 = strtoull_opt session2 in v1 = v2 \<or> v1 + 1 = v2)"

definition valid_remote_session :: "'e sdp_agent \<Rightarrow> sdp_origin \<Rightarrow> bool" where
  "valid_remote_session agent orig \<longleftrightarrow> fst (ag_remote agent) = so_sess_id orig \<and>
     is_valid_session_version (snd (ag_remote agent)) (so_sess_version orig)"

text \<open>The part of the function up to the change of the remote description.\<close>

definition negotiate_remote_description ::
  "'e media_ops \<Rightarrow> sdp_message \<Rightarrow> 'e sdp_agent \<Rightarrow> bool \<times> 'e sdp_agent" where
  "negotiate_remote_description ops description agent =
     (let orig = sg_origin description in
      case ag_state agent of
        WAIT_NEGO \<Rightarrow>
          (if \<not> (ag_remote agent = (None, None) \<or> valid_remote_session agent orig) then (False, agent)
           else let a1 = agent\<lparr>ag_remote := (if ag_remote agent = (None, None)
                      then (so_sess_id orig, so_sess_version orig)
                      else (fst (ag_remote agent), so_sess_version orig))\<rparr>;
                  a2 = (update_rejected_medias a1 description)\<lparr>ag_prev_sdp := Some description\<rparr>;
                  a3 = kms_sdp_agent_process_answer ops description a2 in
                (True, SDP_AGENT_NEW_STATE a3 NEGOTIATED))
      | UNNEGOTIATED \<Rightarrow>
          (True, SDP_AGENT_NEW_STATE (agent\<lparr>ag_remote := (so_sess_id orig, so_sess_version orig)\<rparr>) REMOTE_OFFER)
      | NEGOTIATED \<Rightarrow>
          (if valid_remote_session agent orig
           then (True, SDP_AGENT_NEW_STATE
             ((update_rejected_medias agent description)\<lparr>ag_remote := (fst (ag_remote agent), so_sess_version orig)\<rparr>)
             REMOTE_OFFER)
           else (False, agent))
      | _ \<Rightarrow> (False, agent))"

definition kms_sdp_agent_set_remote_description_impl ::
  "'e media_ops \<Rightarrow> sdp_message \<Rightarrow> 'e sdp_agent \<Rightarrow> c_fault + bool \<times> 'e sdp_agent" where
  "kms_sdp_agent_set_remote_description_impl ops description agent =
     (let (ret, a1) = negotiate_remote_description ops description agent in
      if \<not> ret then Inr (False, a1)
      else let a2 = a1\<lparr>ag_remote_description := Some description\<rparr> in
        if ag_state a2 = NEGOTIATED
        then bind_result (kms_sdp_agent_process_answered_description ops description True a2)
          (\<lambda>a3. Inr (True, a3))
        else Inr (True, a2))"

section \<open>Groups of the agent\<close>

definition kms_sdp_agent_create_group :: "'e sdp_agent \<Rightarrow> sdp_group \<Rightarrow> int \<times> 'e sdp_agent" where
  "kms_sdp_agent_create_group agent grp =
     (if \<not> can_manipulate agent then (- 1, agent)
      else let (gm, gid) = kms_sdp_group_manager_add_group_impl (ag_gm agent) grp;
             a1 = agent\<lparr>ag_gm := gm\<rparr> in
           if to_gint (uint gid) < 0 then (- 1, a1)
           else (to_gint (uint gid), a1\<lparr>ag_extensions := ag_extensions a1 @ [gid]\<rparr>))"

definition kms_sdp_agent_group_add :: "'e sdp_agent \<Rightarrow> u32 \<Rightarrow> u32 \<Rightarrow> bool \<times> 'e sdp_agent" where
  "kms_sdp_agent_group_add agent gid hid =
     (if \<not> can_manipulate agent then (False, agent)
      else let (gm, ret) = kms_sdp_group_manager_add_handler_to_group_impl (ag_gm agent) gid hid in
           (ret, agent\<lparr>ag_gm := gm\<rparr>))"

definition kms_sdp_agent_group_remove :: "'e sdp_agent \<Rightarrow> u32 \<Rightarrow> u32 \<Rightarrow> bool \<times> 'e sdp_agent" where
  "kms_sdp_agent_group_remove agent gid hid =
     (if \<not> can_manipulate agent then (False, agent)
      else let (gm, ret) = kms_sdp_group_manager_remove_handler_from_group_impl (ag_gm agent) gid hid in
           (ret, agent\<lparr>ag_gm := gm\<rparr>))"

definition kms_sdp_agent_get_handler_group_id :: "'e sdp_agent \<Rightarrow> u32 \<Rightarrow> int" where
  "kms_sdp_agent_get_handler_group_id agent hid = (case kms_sdp_agent_get_handler agent hid of
     None \<Rightarrow> - 1
   | Some h \<Rightarrow> (case kms_sdp_group_manager_get_group_impl (ag_gm agent) h of
        None \<Rightarrow> - 1 | Some (gid, grp) \<Rightarrow> to_gint (uint gid)))"

definition kms_sdp_agent_get_handler_by_index :: "'e sdp_agent \<Rightarrow> u32 \<Rightarrow> nat option" where
  "kms_sdp_agent_get_handler_by_index agent index =
     (if unat index < length (ag_offer_handlers agent)
      then Some (sh_handler (hnd agent (ag_offer_handlers agent ! unat index))) else None)"


end
