(* ===== verification/SdpSession.thy ===== *)
theory SdpSession
  imports SdpAgent
begin

text \<open>
  What holds of the SDP agent of \<open>SdpAgent\<close>: the state of the negotiation follows the diagram
  in the code's comment, the lists of handlers stay well-formed over every call, offers keep
  the places of the medias and count the versions of the session, answers have a media for
  every one that was offered.
\<close>

section \<open>What the inner operations leave alone\<close>

text \<open>The part of an agent that only its calls change, none of their steps.\<close>

definition frame :: "'e sdp_agent \<Rightarrow> agent_state \<times> sdp_message option \<times> sdp_message option \<times>
    sdp_message option \<times> (string option \<times> string option) \<times> u32 list" where
  "frame a = (ag_state a, ag_prev_sdp a, ag_local_description a, ag_remote_description a, ag_remote a, ag_extensions a)"

lemma frame_fields:
  "frame a = frame b \<Longrightarrow> ag_state a = ag_state b \<and> ag_prev_sdp a = ag_prev_sdp b \<and>
     ag_local_description a = ag_local_description b \<and> ag_remote_description a = ag_remote_description b \<and>
     ag_remote a = ag_remote b \<and> ag_extensions a = ag_extensions b"
  by (simp add: frame_def)

lemma frame_simps [simp]:
  "frame (a\<lparr>ag_gm := g\<rparr>) = frame a" "frame (a\<lparr>ag_handlers := hs\<rparr>) = frame a"
  "frame (a\<lparr>ag_hids := n\<rparr>) = frame a" "frame (a\<lparr>ag_offer_handlers := hs\<rparr>) = frame a"
  "frame (a\<lparr>ag_store := st\<rparr>) = frame a" "frame (a\<lparr>ag_media_handlers := ms\<rparr>) = frame a"
  "frame (a\<lparr>ag_user := u\<rparr>) = frame a" "frame (a\<lparr>ag_local := l\<rparr>) = frame a"
  by (simp_all add: frame_def)

lemma frame_upd_hnd [simp]: "frame (upd_hnd f h a) = frame a"
  by (simp add: upd_hnd_def)

lemma frame_with_world [simp]: "frame (snd (with_world f a)) = frame a"
  by (simp add: with_world_def case_prod_beta)

lemma with_world_frame: "with_world f a = (r, a') \<Longrightarrow> frame a' = frame a"
  by (metis frame_with_world snd_conv)

lemma frame_refs [simp]:
  "frame (sdp_handler_ref h a) = frame a" "frame (sdp_handler_unref h a) = frame a"
  "frame (mark_handler_as_negotiated h a) = frame a"
  by (simp_all add: sdp_handler_ref_def sdp_handler_unref_def mark_handler_as_negotiated_def)

lemmas frame_fold = fold_keeps [where g = frame]

lemma frame_remove_media_handler [simp]: "frame (kms_sdp_agent_remove_media_handler a h) = frame a"
  by (simp add: kms_sdp_agent_remove_media_handler_def)

lemma frame_remove_disabled [simp]: "frame (kms_sdp_agent_remove_disabled_medias a) = frame a"
  by (induction a rule: kms_sdp_agent_remove_disabled_medias.induct)
    (subst kms_sdp_agent_remove_disabled_medias.simps, simp split: option.split)

lemma frame_create_media_handler: "kms_sdp_agent_create_media_handler a media m = (r, a') \<Longrightarrow> frame a' = frame a"
  by (auto simp: kms_sdp_agent_create_media_handler_def Let_def split: option.splits)

lemma frame_append_media_handler: "kms_sdp_agent_append_media_handler a media m = (r, a') \<Longrightarrow> frame a' = frame a"
  by (auto simp: kms_sdp_agent_append_media_handler_def dest: frame_create_media_handler
      split: prod.splits option.splits)

lemma frame_add_proto: "kms_sdp_agent_add_proto_handler_impl a media m = (r, a') \<Longrightarrow> frame a' = frame a"
  by (auto simp: kms_sdp_agent_add_proto_handler_impl_def dest: frame_append_media_handler split: if_splits)

lemma frame_remove_proto: "kms_sdp_agent_remove_proto_handler a hid = (r, a') \<Longrightarrow> frame a' = frame a"
  by (auto simp: kms_sdp_agent_remove_proto_handler_def Let_def split: if_splits option.splits)

lemma frame_replace_slot [simp]: "frame (replace_slot i h a) = frame a"
  by (simp add: replace_slot_def Let_def)

lemma frame_reuse_slots: "reuse_slots a = Some a' \<Longrightarrow> frame a' = frame a"
proof (induction a a' rule: reuse_slots.raw_induct [rotated, consumes 1, case_names turn])
  case (turn rec a a')
  then show ?case by (auto split: option.splits)
qed

lemma frame_merge_handler [simp]: "frame (kms_sdp_agent_merge_handler_func h a) = frame a"
  by (simp add: kms_sdp_agent_merge_handler_func_def)

lemma frame_merge: "kms_sdp_agent_merge_offer_handlers a = Some a' \<Longrightarrow> frame a' = frame a"
  by (auto simp: kms_sdp_agent_merge_offer_handlers_def frame_fold dest!: frame_reuse_slots split: if_splits)

lemma frame_handler_create_offer: "handler_create_offer ops h prev a = (m, a') \<Longrightarrow> frame a' = frame a"
  by (auto simp: handler_create_offer_def dest: with_world_frame split: if_splits)

lemma frame_proper_offer: "kms_sdp_agent_create_proper_media_offer ops a h = Inr (m, a') \<Longrightarrow> frame a' = frame a"
  by (auto simp: kms_sdp_agent_create_proper_media_offer_def Let_def dest: frame_handler_create_offer
      split: if_splits option.splits prod.splits)

lemma frame_fire_on_offer: "fire_on_offer ops h m a = (m', a') \<Longrightarrow> frame a' = frame a"
  by (auto simp: fire_on_offer_def dest: with_world_frame split: option.splits)

lemma frame_snd [simp]:
  "frame (snd (fire_on_offer ops h m a)) = frame a"
  "frame (snd (handler_create_offer ops h prev a)) = frame a"
  by (metis frame_fire_on_offer frame_handler_create_offer prod.collapse)+

lemma frame_make_media_offer: "kms_sdp_agent_make_media_offer ops a h offer i = Inr (ok, offer', a') \<Longrightarrow> frame a' = frame a"
  by (auto simp: kms_sdp_agent_make_media_offer_def bind_result_Inr_iff case_prod_beta
      dest!: frame_proper_offer split: option.splits)

lemma frame_create_media_offer_loop:
  "create_media_offer_loop ops hs i offer a = Inr (ok, offer', a') \<Longrightarrow> frame a' = frame a"
proof (induction hs arbitrary: i offer a)
  case (Cons h hs)
  then show ?case
    by (auto simp: bind_result_Inr_iff dest!: frame_make_media_offer split: if_splits)
qed simp

lemma frame_update_version: "kms_sdp_agent_update_session_version a m = (m', a') \<Longrightarrow> frame a' = frame a"
  by (auto simp: kms_sdp_agent_update_session_version_def kms_sdp_agent_increment_sess_version_def Let_def
      split: option.splits if_splits)

lemma frame_restore [simp]: "frame (restore_offer_handlers tmp a) = frame a"
  by (simp add: restore_offer_handlers_def frame_fold)

lemma frame_request_handler: "kms_sdp_agent_request_handler ops a media = (r, a') \<Longrightarrow> frame a' = frame a"
  by (auto simp: kms_sdp_agent_request_handler_def Let_def
      dest!: with_world_frame frame_append_media_handler split: option.splits if_splits prod.splits)

lemma frame_set_group: "kms_sdp_agent_set_handler_group a h media offer = Inr a' \<Longrightarrow> frame a' = frame a"
  by (auto simp: kms_sdp_agent_set_handler_group_def split: list.splits option.splits if_splits)

lemma frame_handler_for_media:
  "kms_sdp_agent_get_handler_for_media ops a media offer = Inr (r, a') \<Longrightarrow> frame a' = frame a"
  by (auto simp: kms_sdp_agent_get_handler_for_media_def bind_result_Inr_iff
      dest!: frame_request_handler frame_set_group split: option.splits prod.splits)

lemma frame_reject_handler: "reject_handler_for a media = Inr (h, a') \<Longrightarrow> frame a' = frame a"
  by (auto simp: reject_handler_for_def kms_sdp_agent_create_reject_media_handler_def
      dest!: frame_create_media_handler split: prod.splits option.splits)

lemma frame_replace_offered:
  "kms_sdp_agent_replace_offered_handler ops a media offer h = Inr (r, a') \<Longrightarrow> frame a' = frame a"
  by (auto simp: kms_sdp_agent_replace_offered_handler_def Let_def bind_result_Inr_iff
      dest!: frame_handler_for_media frame_reject_handler split: if_splits option.splits)

lemma frame_select:
  "kms_sdp_agent_select_handler_to_answer_media ops a i media offer = Inr (r, a') \<Longrightarrow> frame a' = frame a"
  by (auto simp: kms_sdp_agent_select_handler_to_answer_media_def kms_sdp_agent_get_proper_handler_def
      Let_def dest!: frame_handler_for_media frame_replace_offered split: if_splits)

lemma frame_handler_create_answer: "handler_create_answer ops h answer media a = (m, a') \<Longrightarrow> frame a' = frame a"
  by (auto simp: handler_create_answer_def dest: with_world_frame split: if_splits prod.splits)

lemma frame_fire_on_answer: "fire_on_answer ops h m a = (m', a') \<Longrightarrow> frame a' = frame a"
  by (auto simp: fire_on_answer_def dest: with_world_frame split: if_splits option.splits prod.splits)

lemma frame_snd_answer [simp]:
  "frame (snd (fire_on_answer ops h m' a)) = frame a"
  "frame (snd (handler_create_answer ops h answer media a)) = frame a"
  by (metis frame_fire_on_answer frame_handler_create_answer prod.collapse)+

lemma frame_answer_media: "make_media_answer ops media offer found answer a = Inr (r, a') \<Longrightarrow> frame a' = frame a"
  by (auto simp: make_media_answer_def Let_def bind_result_Inr_iff case_prod_beta dest!: frame_reject_handler
      split: option.splits if_splits)

lemma frame_register [simp]: "frame (register_answer_handler ret h i a) = frame a"
  by (simp add: register_answer_handler_def Let_def)

lemma frame_create_media_answer:
  "create_media_answer ops offer media i answer a = Inr (ok, answer', a') \<Longrightarrow> frame a' = frame a"
  by (auto simp: create_media_answer_def Let_def bind_result_Inr_iff case_prod_beta
      dest!: frame_select frame_answer_media split: if_splits option.splits)

lemma frame_answer_loop: "answer_loop ops offer ms i answer a = Inr (ok, answer', a') \<Longrightarrow> frame a' = frame a"
proof (induction ms arbitrary: i answer a)
  case (Cons m ms)
  then show ?case
    by (auto simp: bind_result_Inr_iff dest!: frame_create_media_answer split: if_splits)
qed simp

section \<open>The state machine of the negotiation\<close>

text \<open>
  The calls of an agent. A user makes media handlers before adding them; a call that faults or
  does not come back has no next agent. The flag says whether the call succeeded.
\<close>

datatype agent_op =
    New_media_handler media_handler
  | Add_proto_handler "string option" nat
  | Remove_proto_handler u32
  | Create_group sdp_group
  | Group_add u32 u32
  | Group_remove u32 u32
  | Create_offer u64
  | Create_answer u64
  | Cancel_offer
  | Set_local_description sdp_message
  | Set_remote_description sdp_message

fun no_fault :: "c_fault + 'a \<Rightarrow> 'a option" where
  "no_fault (Inl e) = None"
| "no_fault (Inr x) = Some x"

lemma no_fault_iff: "no_fault r = Some x \<longleftrightarrow> r = Inr x"
  by (cases r) auto

fun agent_step :: "'e media_ops \<Rightarrow> 'e sdp_agent \<Rightarrow> agent_op \<Rightarrow> (bool \<times> 'e sdp_agent) option" where
  "agent_step ops a (New_media_handler mh) = Some (True, a\<lparr>ag_media_handlers := ag_media_handlers a @ [mh]\<rparr>)"
| "agent_step ops a (Add_proto_handler media m) =
     (if m < length (ag_media_handlers a)
      then let (i, a') = kms_sdp_agent_add_proto_handler_impl a media m in Some (i \<ge> 0, a') else None)"
| "agent_step ops a (Remove_proto_handler hid) = Some (kms_sdp_agent_remove_proto_handler a hid)"
| "agent_step ops a (Create_group grp) = (let (i, a') = kms_sdp_agent_create_group a grp in Some (i \<ge> 0, a'))"
| "agent_step ops a (Group_add gid hid) = Some (kms_sdp_agent_group_add a gid hid)"
| "agent_step ops a (Group_remove gid hid) = Some (kms_sdp_agent_group_remove a gid hid)"
| "agent_step ops a (Create_offer now) = Option.bind (kms_sdp_agent_create_offer_impl ops now a)
     (\<lambda>r. map_option (\<lambda>(m, a'). (m \<noteq> None, a')) (no_fault r))"
| "agent_step ops a (Create_answer now) =
     map_option (\<lambda>(m, a'). (m \<noteq> None, a')) (no_fault (kms_sdp_agent_create_answer_impl ops now a))"
| "agent_step ops a Cancel_offer = Some (kms_sdp_agent_cancel_offer_impl a)"
| "agent_step ops a (Set_local_description d) = no_fault (kms_sdp_agent_set_local_description_impl ops d a)"
| "agent_step ops a (Set_remote_description d) = no_fault (kms_sdp_agent_set_remote_description_impl ops d a)"

fun manipulates :: "agent_op \<Rightarrow> bool" where
  "manipulates (Add_proto_handler _ _) = True"
| "manipulates (Remove_proto_handler _) = True"
| "manipulates (Create_group _) = True"
| "manipulates (Group_add _ _) = True"
| "manipulates (Group_remove _ _) = True"
| "manipulates _ = False"

text \<open>
  The diagram of the comment: a state together with whether something was negotiated before,
  which decides where cancelling an offer leads.
\<close>

type_synonym nego = "agent_state \<times> bool"

inductive nego_step :: "nego \<Rightarrow> agent_op \<Rightarrow> bool \<Rightarrow> nego \<Rightarrow> bool" where
  refused: "nego_step s op False s"
| made: "nego_step s (New_media_handler mh) True s"
| manipulated: "manipulates op \<Longrightarrow> s \<in> {UNNEGOTIATED, NEGOTIATED} \<Longrightarrow> nego_step (s, n) op True (s, n)"
| local_offer: "s \<in> {UNNEGOTIATED, NEGOTIATED} \<Longrightarrow> nego_step (s, n) (Create_offer t) True (LOCAL_OFFER, n)"
| cancelled: "nego_step (LOCAL_OFFER, n) Cancel_offer True (if n then NEGOTIATED else UNNEGOTIATED, n)"
| offer_set: "nego_step (LOCAL_OFFER, n) (Set_local_description d) True (WAIT_NEGO, n)"
| answer_received: "nego_step (WAIT_NEGO, n) (Set_remote_description d) True (NEGOTIATED, True)"
| offer_received: "s \<in> {UNNEGOTIATED, NEGOTIATED} \<Longrightarrow>
    nego_step (s, n) (Set_remote_description d) True (REMOTE_OFFER, n)"
| answer_made: "nego_step (REMOTE_OFFER, n) (Create_answer t) True (REMOTE_OFFER, n)"
| answer_set: "nego_step (REMOTE_OFFER, n) (Set_local_description d) True (NEGOTIATED, True)"

inductive_cases nego_step_TrueE: "nego_step s op True s'"

definition nego_of :: "'e sdp_agent \<Rightarrow> nego" where
  "nego_of a = (ag_state a, ag_prev_sdp a \<noteq> None)"

lemma nego_of_frame: "frame a' = frame a \<Longrightarrow> nego_of a' = nego_of a"
  using frame_fields [of a' a] by (simp add: nego_of_def)

lemma new_state_frame:
  "ag_state (SDP_AGENT_NEW_STATE a s) = s" "ag_prev_sdp (SDP_AGENT_NEW_STATE a s) = ag_prev_sdp a"
  "ag_local_description (SDP_AGENT_NEW_STATE a s) = ag_local_description a"
  "ag_remote_description (SDP_AGENT_NEW_STATE a s) = ag_remote_description a"
proof -
  have u: "frame (fold sdp_handler_unref hs b) = frame b" "frame (fold mark_handler_as_negotiated hs b) = frame b" for hs b
    by (simp_all add: frame_fold)
  show "ag_state (SDP_AGENT_NEW_STATE a s) = s"
    by (simp add: SDP_AGENT_NEW_STATE_def)
  show "ag_prev_sdp (SDP_AGENT_NEW_STATE a s) = ag_prev_sdp a"
    "ag_local_description (SDP_AGENT_NEW_STATE a s) = ag_local_description a"
    "ag_remote_description (SDP_AGENT_NEW_STATE a s) = ag_remote_description a"
    using frame_fields [OF u(1), of "ag_offer_handlers a" a] frame_fields [OF u(2), of "ag_offer_handlers a" a]
      frame_fields [OF frame_remove_disabled, of a]
      frame_fields [OF frame_remove_disabled, of "fold mark_handler_as_negotiated (ag_offer_handlers a) a"]
    by (auto simp: SDP_AGENT_NEW_STATE_def kms_sdp_agent_commit_state_operations_def split: agent_state.split)
qed

lemma frame_update_rejected [simp]: "frame (update_rejected_medias a d) = frame a"
  unfolding update_rejected_medias_def by (rule frame_fold) auto

lemma frame_process_answer [simp]: "frame (kms_sdp_agent_process_answer ops d a) = frame a"
  unfolding kms_sdp_agent_process_answer_def by (rule frame_fold) (auto simp: handler_process_answer_def)

lemma frame_answered [simp]: "frame (kms_sdp_agent_fire_on_answered_callback ops h m b a) = frame a"
  by (simp add: kms_sdp_agent_fire_on_answered_callback_def split: option.split)

lemma frame_process_answered_loop:
  "process_answered_loop ops b i ms a = Inr a' \<Longrightarrow> frame a' = frame a"
  by (induction ms arbitrary: i a) (auto split: if_splits)

text \<open>What the three calls that make an offer, an answer or take a description leave.\<close>

lemma processing_keeps:
  "sg_origin (kms_sdp_agent_offer_processing_extensions a pre msg) = sg_origin msg \<and>
   sg_medias (kms_sdp_agent_offer_processing_extensions a pre msg) = sg_medias msg"
proof -
  have "(\<lambda>m. (sg_origin m, sg_medias m)) (kms_sdp_agent_offer_processing_extensions a pre msg) = (sg_origin msg, sg_medias msg)"
    unfolding kms_sdp_agent_offer_processing_extensions_def
    by (rule fold_keeps) (auto simp: kms_sdp_base_group_add_offer_attributes_impl_def message_add_attribute_def split: option.split)
  then show ?thesis by simp
qed

lemma create_offer_cases:
  assumes "kms_sdp_agent_create_offer_impl ops now a = Some (Inr (m, a'))" and "can_manipulate a"
  obtains local offer a2 where "session_of_offer now a = Inr local"
    and "kms_sdp_agent_merge_offer_handlers (fold sdp_handler_ref (ag_offer_handlers a) (a\<lparr>ag_local := local\<rparr>)) = Some a2"
    and "offer_of_medias ops (ag_offer_handlers a) offer a2 = Inr (m, a')"
    and "sg_origin offer = kms_sdp_agent_origin_init a (fst local) (snd local)" and "sg_medias offer = []"
proof -
  have k: "sg_origin (kms_sdp_agent_offer_processing_extensions b True o1) = sg_origin o1"
      "sg_medias (kms_sdp_agent_offer_processing_extensions b True o1) = sg_medias o1" for b o1
    using processing_keeps [of b True o1] by simp_all
  obtain local where l: "session_of_offer now a = Inr local"
    using assms by (auto simp: kms_sdp_agent_create_offer_impl_def split: sum.splits)
  show ?thesis
    using assms l that [OF l]
    by (auto simp: kms_sdp_agent_create_offer_impl_def Let_def k kms_sdp_agent_set_origin_def
        kms_sdp_agent_set_default_session_attributes_def sdp_message_new_def kms_sdp_agent_origin_init_def)
qed

lemma create_offer_state:
  assumes "kms_sdp_agent_create_offer_impl ops now a = Some (Inr (m, a'))"
  shows "(m = None \<longrightarrow> frame a' = frame a) \<and>
    (m \<noteq> None \<longrightarrow> can_manipulate a \<and> ag_state a' = LOCAL_OFFER \<and> ag_prev_sdp a' = ag_prev_sdp a \<and>
       ag_local_description a' = ag_local_description a \<and> ag_remote_description a' = ag_remote_description a \<and>
       ag_remote a' = ag_remote a)"
proof (cases "can_manipulate a")
  case True
  obtain local offer a2 where
    a2: "kms_sdp_agent_merge_offer_handlers (fold sdp_handler_ref (ag_offer_handlers a) (a\<lparr>ag_local := local\<rparr>)) = Some a2"
    and r: "offer_of_medias ops (ag_offer_handlers a) offer a2 = Inr (m, a')"
    using create_offer_cases [OF assms True] .
  obtain ok o3 a4 where a4: "kms_sdp_agent_create_media_offer ops a2 offer = Inr (ok, o3, a4)"
    using r by (auto simp: offer_of_medias_def bind_result_Inr_iff)
  have f4: "frame a4 = frame a"
    using frame_merge [OF a2] frame_create_media_offer_loop [OF a4 [unfolded kms_sdp_agent_create_media_offer_def]]
    by (simp add: frame_fold)
  show ?thesis
  proof (cases ok)
    case True
    obtain o4 a5 where u: "kms_sdp_agent_update_session_version a4 o3 = (o4, a5)" by fastforce
    have "frame (fold sdp_handler_unref (ag_offer_handlers a) a5) = frame a"
      using frame_update_version [OF u] f4 by (simp add: frame_fold)
    from frame_fields [OF this] show ?thesis
      using r True u a4 \<open>can_manipulate a\<close>
      by (auto simp: offer_of_medias_def Let_def SDP_AGENT_NEW_STATE_def kms_sdp_agent_commit_state_operations_def)
  qed (use r f4 a4 in \<open>auto simp: offer_of_medias_def\<close>)
qed (use assms in \<open>auto simp: kms_sdp_agent_create_offer_impl_def\<close>)

lemma create_answer_state:
  assumes "kms_sdp_agent_create_answer_impl ops now a = Inr (m, a')"
  shows "frame a' = frame a" and "m \<noteq> None \<Longrightarrow> ag_state a = REMOTE_OFFER"
  using assms
  by (auto simp: kms_sdp_agent_create_answer_impl_def kms_sdp_agent_generate_answer_def Let_def
      bind_result_Inr_iff dest!: frame_answer_loop split: if_splits option.splits prod.splits)


lemma set_local_state:
  assumes "kms_sdp_agent_set_local_description_impl ops d a = Inr (ok, a')"
  shows "(\<not> ok \<longrightarrow> a' = a) \<and>
    (ok \<longrightarrow> ag_local_description a' = Some d \<and> ag_remote_description a' = ag_remote_description a \<and>
      (ag_state a = LOCAL_OFFER \<and> ag_state a' = WAIT_NEGO \<and> ag_prev_sdp a' = ag_prev_sdp a \<or>
       ag_state a = REMOTE_OFFER \<and> ag_state a' = NEGOTIATED \<and> ag_prev_sdp a' = Some d))"
proof (cases "ag_state a = REMOTE_OFFER \<and> so_sess_id (sg_origin d) = fst (ag_local a)")
  case True
  let ?b = "SDP_AGENT_NEW_STATE (a\<lparr>ag_local_description := Some d, ag_prev_sdp := Some d\<rparr>) NEGOTIATED"
  have "process_answered_loop ops False 0 (sg_medias d) ?b = Inr a' \<and> ok"
    using True assms by (auto simp: kms_sdp_agent_set_local_description_impl_def Let_def bind_result_Inr_iff
        kms_sdp_agent_process_answered_description_def)
  then show ?thesis
    using frame_fields [OF frame_process_answered_loop [of ops False 0 "sg_medias d" ?b a']] True
    by (simp add: new_state_frame)
next
  case False
  then show ?thesis
    using assms by (auto simp: kms_sdp_agent_set_local_description_impl_def Let_def new_state_frame split: if_splits)
qed

lemma negotiate_remote_state:
  assumes "negotiate_remote_description ops d a = (ok, a')"
  shows "(\<not> ok \<longrightarrow> a' = a) \<and>
    (ok \<longrightarrow> ag_local_description a' = ag_local_description a \<and>
      (ag_state a = WAIT_NEGO \<and> ag_state a' = NEGOTIATED \<and> ag_prev_sdp a' = Some d \<or>
       can_manipulate a \<and> ag_state a' = REMOTE_OFFER \<and> ag_prev_sdp a' = ag_prev_sdp a))"
proof -
  have u: "ag_local_description (update_rejected_medias b d) = ag_local_description b"
    "ag_prev_sdp (update_rejected_medias b d) = ag_prev_sdp b" for b
    using frame_fields [OF frame_update_rejected, of b d] by simp_all
  have p: "ag_local_description (kms_sdp_agent_process_answer ops d b) = ag_local_description b"
    "ag_prev_sdp (kms_sdp_agent_process_answer ops d b) = ag_prev_sdp b" for b
    using frame_fields [OF frame_process_answer, of ops d b] by simp_all
  show ?thesis
    using assms
    by (auto simp: negotiate_remote_description_def Let_def new_state_frame u p split: agent_state.splits if_splits)
qed

lemma set_remote_state:
  assumes "kms_sdp_agent_set_remote_description_impl ops d a = Inr (ok, a')"
  shows "(\<not> ok \<longrightarrow> a' = a) \<and>
    (ok \<longrightarrow> ag_remote_description a' = Some d \<and> ag_local_description a' = ag_local_description a \<and>
      (ag_state a = WAIT_NEGO \<and> ag_state a' = NEGOTIATED \<and> ag_prev_sdp a' = Some d \<or>
       can_manipulate a \<and> ag_state a' = REMOTE_OFFER \<and> ag_prev_sdp a' = ag_prev_sdp a))"
proof -
  obtain r a1 where n: "negotiate_remote_description ops d a = (r, a1)" by fastforce
  note st = negotiate_remote_state [OF n]
  show ?thesis
  proof (cases "r \<and> ag_state a1 = NEGOTIATED")
    case True
    then have "process_answered_loop ops True 0 (sg_medias d) (a1\<lparr>ag_remote_description := Some d\<rparr>) = Inr a' \<and> ok"
      using assms n by (auto simp: kms_sdp_agent_set_remote_description_impl_def Let_def bind_result_Inr_iff
          kms_sdp_agent_process_answered_description_def)
    then show ?thesis
      using frame_fields [OF frame_process_answered_loop [of ops True 0 "sg_medias d" "a1\<lparr>ag_remote_description := Some d\<rparr>" a']] st True
      by auto
  next
    case False
    then show ?thesis
      using assms n st by (auto simp: kms_sdp_agent_set_remote_description_impl_def Let_def split: if_splits)
  qed
qed

lemma manipulated_frame:
  assumes "frame a' = frame a" and "ok \<longrightarrow> can_manipulate a" and "manipulates op"
  shows "nego_step (nego_of a) op ok (nego_of a') \<and> (\<not> ok \<longrightarrow> frame a' = frame a)"
  using assms nego_step.manipulated [of op "ag_state a"] nego_of_frame [OF assms(1)]
  by (cases ok) (auto simp: nego_of_def intro: nego_step.refused)

text \<open>
  C2: The negotiation follows the diagram in the comment of the agent: every call that
  succeeds is an arrow of it and every call that fails leaves state and descriptions; medias
  and groups can be changed only while nothing is being negotiated; a cancelled offer goes
  back to NEGOTIATED exactly if something was negotiated before.
\<close>

theorem agent_state_machine:
  assumes "agent_step ops a op = Some (ok, a')"
  shows "nego_step (nego_of a) op ok (nego_of a') \<and> (\<not> ok \<longrightarrow> frame a' = frame a)"
proof (cases op)
  case (New_media_handler mh)
  then have "frame a' = frame a" "ok" using assms by auto
  then show ?thesis using nego_of_frame [of a' a] New_media_handler by (simp add: nego_step.made)
next
  case (Add_proto_handler media m)
  let ?r = "kms_sdp_agent_add_proto_handler_impl a media m"
  have r: "a' = snd ?r" "ok \<longleftrightarrow> fst ?r \<ge> 0"
    using assms Add_proto_handler by (simp_all add: case_prod_beta split: if_splits)
  then have i: "?r = (fst ?r, a')" by simp
  have "ok \<longrightarrow> can_manipulate a"
    using r(2) by (simp add: kms_sdp_agent_add_proto_handler_impl_def split: if_splits)
  then show ?thesis using manipulated_frame [OF frame_add_proto [OF i], of ok op] Add_proto_handler by simp
next
  case (Remove_proto_handler hid)
  then have r: "kms_sdp_agent_remove_proto_handler a hid = (ok, a')" using assms by simp
  then have "ok \<longrightarrow> can_manipulate a" by (auto simp: kms_sdp_agent_remove_proto_handler_def split: if_splits)
  then show ?thesis using manipulated_frame [OF frame_remove_proto [OF r], of ok op] Remove_proto_handler by simp
next
  case (Create_group grp)
  then have "(\<not> ok \<longrightarrow> frame a' = frame a) \<and> (ok \<longrightarrow> can_manipulate a) \<and> nego_of a' = nego_of a"
    using assms by (auto simp: kms_sdp_agent_create_group_def nego_of_def Let_def split: if_splits prod.splits)
  then show ?thesis
    using Create_group nego_step.manipulated [of op "ag_state a"]
    by (cases ok) (auto simp: nego_of_def intro: nego_step.refused)
next
  case (Group_add gid hid)
  then have "frame a' = frame a" "ok \<longrightarrow> can_manipulate a"
    using assms by (auto simp: kms_sdp_agent_group_add_def split: if_splits prod.splits)
  then show ?thesis using manipulated_frame [of a' a ok op] Group_add by simp
next
  case (Group_remove gid hid)
  then have "frame a' = frame a" "ok \<longrightarrow> can_manipulate a"
    using assms by (auto simp: kms_sdp_agent_group_remove_def split: if_splits prod.splits)
  then show ?thesis using manipulated_frame [of a' a ok op] Group_remove by simp
next
  case (Create_offer now)
  then obtain m where m: "kms_sdp_agent_create_offer_impl ops now a = Some (Inr (m, a'))" "ok \<longleftrightarrow> m \<noteq> None"
    using assms by (auto simp: bind_eq_Some_conv no_fault_iff)
  show ?thesis
    using create_offer_state [OF m(1)] m(2) Create_offer nego_of_frame [of a' a]
    by (cases m) (auto simp: nego_of_def intro: nego_step.intros)
next
  case (Create_answer now)
  then obtain m where m: "kms_sdp_agent_create_answer_impl ops now a = Inr (m, a')" "ok \<longleftrightarrow> m \<noteq> None"
    using assms by (auto simp: no_fault_iff)
  note f = nego_of_frame [OF create_answer_state(1) [OF m(1)]]
  show ?thesis
    using create_answer_state [OF m(1)] m(2) Create_answer f
    by (cases m) (auto simp: nego_of_def intro: nego_step.intros)
next
  case Cancel_offer
  then show ?thesis
    using assms nego_step.cancelled [of "ag_prev_sdp a \<noteq> None"]
    by (cases "ag_prev_sdp a")
      (auto simp: kms_sdp_agent_cancel_offer_impl_def nego_of_def new_state_frame intro: nego_step.refused split: if_splits)
next
  case (Set_local_description d)
  then have "kms_sdp_agent_set_local_description_impl ops d a = Inr (ok, a')"
    using assms by (simp add: no_fault_iff)
  from set_local_state [OF this] show ?thesis
    using Set_local_description by (auto simp: nego_of_def intro: nego_step.intros)
next
  case (Set_remote_description d)
  then have "kms_sdp_agent_set_remote_description_impl ops d a = Inr (ok, a')"
    using assms by (simp add: no_fault_iff)
  from set_remote_state [OF this] show ?thesis
    using Set_remote_description by (auto simp: nego_of_def intro: nego_step.intros)
qed


text \<open>Media handlers that do nothing: the calls around them can be evaluated.\<close>

definition idle_ops :: "unit media_ops" where
  "idle_ops = \<lparr>mo_manage_protocol = (\<lambda>_ _ _. True), mo_create_offer = (\<lambda>_ _ media _ w. (Some (sdp_media_new\<lparr>sm_media := media, sm_port := 1\<rparr>), w)),
     mo_create_answer = (\<lambda>_ _ _ _ m w. (Some m, w)), mo_process_answer = (\<lambda>_ _ _ w. (True, w)),
     cb_media_offer = None, cb_media_answer = None, cb_media_answered = None, cb_handler_required = None\<rparr>"

lemma agent_state_machine_witness:
  "nego_step (UNNEGOTIATED, False) (Set_remote_description sdp_message_new) True (REMOTE_OFFER, False)"
proof -
  let ?a = "kms_sdp_agent_new () :: unit sdp_agent"
  have "agent_step idle_ops ?a (Set_remote_description sdp_message_new) =
      Some (True, (SDP_AGENT_NEW_STATE (?a\<lparr>ag_remote := (None, None)\<rparr>) REMOTE_OFFER)\<lparr>ag_remote_description := Some sdp_message_new\<rparr>)"
    by (simp add: kms_sdp_agent_set_remote_description_impl_def negotiate_remote_description_def Let_def
        kms_sdp_agent_new_def sdp_message_new_def new_state_frame)
  from agent_state_machine [OF this] show ?thesis
    by (simp add: nego_of_def new_state_frame, simp add: kms_sdp_agent_new_def)
qed

section \<open>Lists of handlers that are well-formed\<close>

text \<open>
  Every handler that was ever made has its address as id (up to the width of ids) and a media
  handler; the two lists hold handlers that were made, none twice. A negotiated handler that
  is disabled is on its way out, and a description is there in the states that read it.
\<close>

definition agent_wf :: "'e sdp_agent \<Rightarrow> bool" where
  "agent_wf a \<longleftrightarrow> ag_hids a = of_nat (length (ag_store a)) \<and>
     (\<forall>h < length (ag_store a). sh_id (hnd a h) = of_nat h \<and> sh_handler (hnd a h) < length (ag_media_handlers a)) \<and>
     set (ag_handlers a) \<subseteq> {..< length (ag_store a)} \<and> set (ag_offer_handlers a) \<subseteq> {..< length (ag_store a)} \<and>
     distinct (ag_handlers a) \<and> distinct (ag_offer_handlers a)"

definition descriptions_ok :: "'e sdp_agent \<Rightarrow> bool" where
  "descriptions_ok a \<longleftrightarrow>
     (ag_state a \<in> {WAIT_NEGO, NEGOTIATED} \<longrightarrow> ag_local_description a \<noteq> None) \<and>
     (ag_state a \<in> {REMOTE_OFFER, NEGOTIATED} \<longrightarrow> ag_remote_description a \<noteq> None) \<and>
     (ag_state a = NEGOTIATED \<longrightarrow> ag_prev_sdp a \<noteq> None) \<and>
     (ag_state a = UNNEGOTIATED \<longrightarrow> ag_prev_sdp a = None) \<and>
     (ag_prev_sdp a = None \<and> ag_state a \<noteq> WAIT_NEGO \<longrightarrow> ag_local_description a = None) \<and>
     (ag_prev_sdp a \<noteq> None \<longrightarrow> ag_local_description a \<noteq> None \<and> ag_remote_description a \<noteq> None)"

text \<open>What an update of one handler has to keep.\<close>

definition mild :: "(sdp_handler \<Rightarrow> sdp_handler) \<Rightarrow> bool" where
  "mild f \<longleftrightarrow> (\<forall>s. sh_id (f s) = sh_id s \<and> sh_handler (f s) = sh_handler s)"

lemma upd_hnd_lists [simp]:
  "ag_handlers (upd_hnd f h a) = ag_handlers a" "ag_offer_handlers (upd_hnd f h a) = ag_offer_handlers a"
  "length (ag_store (upd_hnd f h a)) = length (ag_store a)"
  "ag_media_handlers (upd_hnd f h a) = ag_media_handlers a" "ag_gm (upd_hnd f h a) = ag_gm a"
  "ag_hids (upd_hnd f h a) = ag_hids a"
  by (simp_all add: upd_hnd_def)

lemma hnd_upd:
  "h' < length (ag_store a) \<Longrightarrow> hnd (upd_hnd f h a) h' = (if h' = h then f (hnd a h) else hnd a h')"
  by (cases "h < length (ag_store a)") (auto simp: upd_hnd_def nth_list_update)

lemma wf_upd_hnd: "mild f \<Longrightarrow> agent_wf a \<Longrightarrow> agent_wf (upd_hnd f h a)"
  by (auto simp: agent_wf_def hnd_upd mild_def)

lemma wf_offer_handlers:
  "agent_wf a \<Longrightarrow> set hs \<subseteq> {..< length (ag_store a)} \<Longrightarrow> distinct hs \<Longrightarrow> agent_wf (a\<lparr>ag_offer_handlers := hs\<rparr>)"
  by (simp add: agent_wf_def)

lemma wf_simps [simp]:
  "agent_wf (a\<lparr>ag_gm := g\<rparr>) = agent_wf a" "agent_wf (a\<lparr>ag_user := u\<rparr>) = agent_wf a"
  "agent_wf (a\<lparr>ag_local := l\<rparr>) = agent_wf a" "agent_wf (a\<lparr>ag_remote := l\<rparr>) = agent_wf a"
  "agent_wf (a\<lparr>ag_state := s\<rparr>) = agent_wf a" "agent_wf (a\<lparr>ag_prev_sdp := d\<rparr>) = agent_wf a"
  "agent_wf (a\<lparr>ag_local_description := d\<rparr>) = agent_wf a" "agent_wf (a\<lparr>ag_remote_description := d\<rparr>) = agent_wf a"
  "agent_wf (a\<lparr>ag_extensions := e\<rparr>) = agent_wf a"
  by (simp_all add: agent_wf_def)

lemma wf_refs [intro]:
  "agent_wf a \<Longrightarrow> agent_wf (sdp_handler_ref h a)" "agent_wf a \<Longrightarrow> agent_wf (sdp_handler_unref h a)"
  "agent_wf a \<Longrightarrow> agent_wf (mark_handler_as_negotiated h a)"
  by (auto simp: sdp_handler_ref_def sdp_handler_unref_def mark_handler_as_negotiated_def mild_def intro!: wf_upd_hnd)

lemma refs_lists [simp]:
  "ag_handlers (sdp_handler_ref h a) = ag_handlers a" "ag_offer_handlers (sdp_handler_ref h a) = ag_offer_handlers a"
  "length (ag_store (sdp_handler_ref h a)) = length (ag_store a)"
  "ag_handlers (sdp_handler_unref h a) = ag_handlers a" "ag_offer_handlers (sdp_handler_unref h a) = ag_offer_handlers a"
  "length (ag_store (sdp_handler_unref h a)) = length (ag_store a)"
  "ag_handlers (mark_handler_as_negotiated h a) = ag_handlers a"
  "ag_offer_handlers (mark_handler_as_negotiated h a) = ag_offer_handlers a"
  "length (ag_store (mark_handler_as_negotiated h a)) = length (ag_store a)"
  by (simp_all add: sdp_handler_ref_def sdp_handler_unref_def mark_handler_as_negotiated_def)

lemma wf_fold: "(\<And>x a. agent_wf a \<Longrightarrow> agent_wf (f x a)) \<Longrightarrow> agent_wf a \<Longrightarrow> agent_wf (fold f xs a)"
  by (induction xs arbitrary: a) auto

lemma wf_with_world: "agent_wf a \<Longrightarrow> agent_wf (snd (with_world f a))"
  by (simp add: with_world_def case_prod_beta)

lemma wf_with_world': "with_world f a = (r, a') \<Longrightarrow> agent_wf a \<Longrightarrow> agent_wf a'"
  by (metis wf_with_world snd_conv)

lemma wf_remove_media_handler [intro]: "agent_wf a \<Longrightarrow> agent_wf (kms_sdp_agent_remove_media_handler a h)"
  unfolding kms_sdp_agent_remove_media_handler_def
  by (rule wf_refs) (use set_remove1_subset in \<open>fastforce simp: agent_wf_def\<close>)

lemma wf_remove_disabled [intro]: "agent_wf a \<Longrightarrow> agent_wf (kms_sdp_agent_remove_disabled_medias a)"
  by (induction a rule: kms_sdp_agent_remove_disabled_medias.induct)
    (subst kms_sdp_agent_remove_disabled_medias.simps, auto split: option.split)

lemma wf_new_state [intro]: "agent_wf a \<Longrightarrow> agent_wf (SDP_AGENT_NEW_STATE a s)"
proof -
  assume a: "agent_wf a"
  have "agent_wf ((fold sdp_handler_unref (ag_offer_handlers a) a)
      \<lparr>ag_local := (None, None), ag_remote := (None, None), ag_offer_handlers := []\<rparr>)"
    using wf_fold [of sdp_handler_unref a "ag_offer_handlers a"] a by (intro wf_offer_handlers) auto
  then show ?thesis
    using a by (auto simp: SDP_AGENT_NEW_STATE_def kms_sdp_agent_commit_state_operations_def intro!: wf_fold
        split: agent_state.split)
qed

lemma wf_media_handlers:
  "agent_wf a \<Longrightarrow> length (ag_media_handlers a) \<le> length ms \<Longrightarrow> agent_wf (a\<lparr>ag_media_handlers := ms\<rparr>)"
  by (auto simp: agent_wf_def intro: less_le_trans)

lemma remove_media_handlers: "ag_media_handlers (kms_sdp_agent_remove_media_handler a h) = ag_media_handlers a"
  by (simp add: kms_sdp_agent_remove_media_handler_def sdp_handler_unref_def)

lemma create_media_handler_spec:
  fixes a :: "'e sdp_agent"
  assumes "kms_sdp_agent_create_media_handler a media m = (r, a')" and "agent_wf a" and "m < length (ag_media_handlers a)"
  shows "agent_wf a'" and "ag_handlers a' = ag_handlers a \<and> ag_offer_handlers a' = ag_offer_handlers a"
    and "\<forall>h < length (ag_store a). hnd a' h = hnd a h" and "length (ag_store a') = Suc (length (ag_store a))"
    and "length (ag_media_handlers a') = length (ag_media_handlers a)"
    and "r = Some h \<Longrightarrow> h = length (ag_store a) \<and>
      hnd a' h = sdp_handler_new (ag_hids a) media m (mh_reject (ag_media_handlers a ! m))"
proof -
  let ?h = "length (ag_store a)"
  let ?new = "sdp_handler_new (ag_hids a) media m (mh_reject (ag_media_handlers a ! m))"
  define b where "b = a\<lparr>ag_hids := ag_hids a + 1, ag_store := ag_store a @ [?new],
    ag_gm := kms_sdp_group_manager_add_handler_impl (ag_gm a) (ag_hids a) ?h\<rparr>"
  have n: "?h \<notin> set (ag_handlers a)" using assms(2) by (auto simp: agent_wf_def)
  have wb: "agent_wf (b\<lparr>ag_media_handlers := ms\<rparr>)" if "length ms = length (ag_media_handlers a)" for ms
    using assms(2,3) that by (auto simp: b_def agent_wf_def nth_append less_Suc_eq sdp_handler_new_def add.commute)
  have rm: "kms_sdp_agent_remove_media_handler (b\<lparr>ag_media_handlers := ms\<rparr>) ?h =
      sdp_handler_unref ?h (b\<lparr>ag_media_handlers := ms,
        ag_gm := fst (kms_sdp_group_manager_remove_handler_impl (ag_gm b) (sh_id (hnd b ?h)) ?h)\<rparr>)" for ms
    using n by (simp add: kms_sdp_agent_remove_media_handler_def b_def remove1_idem)
  have fields: "ag_handlers b = ag_handlers a" "ag_offer_handlers b = ag_offer_handlers a"
    "ag_media_handlers b = ag_media_handlers a" "ag_store b = ag_store a @ [?new]"
    by (simp_all add: b_def)
  obtain ms where ms: "length ms = length (ag_media_handlers a)"
    and c: "r = Some ?h \<and> a' = b\<lparr>ag_media_handlers := ms\<rparr> \<or>
      r = None \<and> (\<exists>ms'. length ms' = length ms \<and>
        a' = (kms_sdp_agent_remove_media_handler (b\<lparr>ag_media_handlers := ms'\<rparr>) ?h)\<lparr>ag_media_handlers := ms\<rparr>)"
  proof (cases "kms_sdp_media_handler_set_parent (ag_media_handlers b ! m)")
    case None
    then have "(r, a') = (None, kms_sdp_agent_remove_media_handler b ?h)"
      using assms(1) unfolding kms_sdp_agent_create_media_handler_def Let_def b_def [symmetric] by simp
    moreover have "b\<lparr>ag_media_handlers := ag_media_handlers a\<rparr> = b" by (simp add: b_def)
    moreover have "x\<lparr>ag_media_handlers := ag_media_handlers x\<rparr> = x" for x :: "'e sdp_agent" by simp
    from this [of "kms_sdp_agent_remove_media_handler b ?h"]
    have "(kms_sdp_agent_remove_media_handler b ?h)\<lparr>ag_media_handlers := ag_media_handlers a\<rparr> =
        kms_sdp_agent_remove_media_handler b ?h"
      by (simp only: remove_media_handlers fields)
    ultimately show ?thesis
      by (intro that [of "ag_media_handlers a"]) (auto intro!: exI [of _ "ag_media_handlers a"])
  next
    case (Some mh)
    show ?thesis
    proof (cases "kms_sdp_media_handler_set_id_impl mh (ag_hids a)")
      case None
      have "(r, a') = (None, (kms_sdp_agent_remove_media_handler (b\<lparr>ag_media_handlers := (ag_media_handlers b)[m := mh]\<rparr>) ?h)
          \<lparr>ag_media_handlers := (ag_media_handlers b)[m := kms_sdp_media_handler_remove_parent mh]\<rparr>)"
        using assms(1) None Some unfolding kms_sdp_agent_create_media_handler_def Let_def b_def [symmetric] by simp
      then show ?thesis
        by (intro that [of "(ag_media_handlers b)[m := kms_sdp_media_handler_remove_parent mh]"])
          (auto simp: fields intro!: exI [of _ "(ag_media_handlers a)[m := mh]"])
    next
      case (Some mh')
      have "(r, a') = (Some ?h, b\<lparr>ag_media_handlers := (ag_media_handlers b)[m := mh']\<rparr>)"
        using assms(1) Some \<open>kms_sdp_media_handler_set_parent _ = Some mh\<close>
        unfolding kms_sdp_agent_create_media_handler_def Let_def b_def [symmetric] by simp
      then show ?thesis using that [of "(ag_media_handlers b)[m := mh']"] fields by simp
    qed
  qed
  show "agent_wf a'"
    using c
  proof (elim disjE conjE exE)
    fix ms' assume l: "length ms' = length ms"
      and a': "a' = (kms_sdp_agent_remove_media_handler (b\<lparr>ag_media_handlers := ms'\<rparr>) ?h)\<lparr>ag_media_handlers := ms\<rparr>"
    show ?thesis
      unfolding a' by (intro wf_media_handlers wf_remove_media_handler wb) (use l ms in \<open>simp_all add: remove_media_handlers\<close>)
  qed (use wb [OF ms] in simp)
  show "ag_handlers a' = ag_handlers a \<and> ag_offer_handlers a' = ag_offer_handlers a" 
    "\<forall>h < length (ag_store a). hnd a' h = hnd a h" "length (ag_store a') = Suc (length (ag_store a))"
    "length (ag_media_handlers a') = length (ag_media_handlers a)"
    using c ms by (auto simp: rm fields sdp_handler_unref_def upd_hnd_def nth_append nth_list_update)
  show "r = Some h \<Longrightarrow> h = ?h \<and> hnd a' h = ?new"
    using c by (auto simp: fields nth_append)
qed


lemma append_media_handler_spec:
  assumes "kms_sdp_agent_append_media_handler a media m = (i, a')" and "agent_wf a" and "m < length (ag_media_handlers a)"
  shows "agent_wf a'" and "ag_offer_handlers a' = ag_offer_handlers a"
    and "\<forall>h < length (ag_store a). hnd a' h = hnd a h" and "length (ag_store a') = Suc (length (ag_store a))"
    and "length (ag_media_handlers a') = length (ag_media_handlers a)"
    and "i \<ge> 0 \<Longrightarrow> ag_handlers a' = ag_handlers a @ [length (ag_store a)]"
    and "set (ag_handlers a) \<subseteq> set (ag_handlers a')"
    and "i \<ge> 0 \<Longrightarrow> i = to_gint (uint (ag_hids a))"
proof -
  obtain r a1 where c: "kms_sdp_agent_create_media_handler a media m = (r, a1)" by fastforce
  note sp = create_media_handler_spec [OF c assms(2,3)]
  have "(r = None \<and> i = - 1 \<and> a' = a1) \<or> (r \<noteq> None \<and> i = to_gint (uint (ag_hids a)) \<and>
      (\<exists>x. a' = a1\<lparr>ag_handlers := ag_handlers a1 @ [length (ag_store a)],
        ag_media_handlers := (ag_media_handlers a1)[m := x]\<rparr>))"
  proof (cases r)
    case (Some h)
    then show ?thesis
      using assms(1) c sp(6) [OF Some] unfolding kms_sdp_agent_append_media_handler_def
      by (auto simp: sdp_handler_new_def)
  qed (use assms(1) c in \<open>simp add: kms_sdp_agent_append_media_handler_def\<close>)
  then show "agent_wf a'" "ag_offer_handlers a' = ag_offer_handlers a"
    "\<forall>h < length (ag_store a). hnd a' h = hnd a h" "length (ag_store a') = Suc (length (ag_store a))"
    "length (ag_media_handlers a') = length (ag_media_handlers a)"
    "i \<ge> 0 \<Longrightarrow> ag_handlers a' = ag_handlers a @ [length (ag_store a)]"
    "set (ag_handlers a) \<subseteq> set (ag_handlers a')" "i \<ge> 0 \<Longrightarrow> i = to_gint (uint (ag_hids a))"
    using sp(1-5) assms(2) by (auto simp: agent_wf_def)
qed

lemma wf_add_proto:
  "kms_sdp_agent_add_proto_handler_impl a media m = (i, a') \<Longrightarrow> agent_wf a \<Longrightarrow> m < length (ag_media_handlers a) \<Longrightarrow> agent_wf a'"
  by (auto simp: kms_sdp_agent_add_proto_handler_impl_def dest: append_media_handler_spec(1) split: if_splits)

lemma wf_remove_proto: "kms_sdp_agent_remove_proto_handler a hid = (ok, a') \<Longrightarrow> agent_wf a \<Longrightarrow> agent_wf a'"
  by (auto simp: kms_sdp_agent_remove_proto_handler_def Let_def mild_def
      intro!: wf_upd_hnd wf_media_handlers wf_remove_media_handler split: if_splits option.splits)

lemma wf_proper_offer:
  "kms_sdp_agent_create_proper_media_offer ops a h = Inr (m, a') \<Longrightarrow> agent_wf a \<Longrightarrow> agent_wf a'"
  by (auto simp: kms_sdp_agent_create_proper_media_offer_def handler_create_offer_def Let_def case_prod_beta mild_def
      intro!: wf_upd_hnd wf_with_world dest: wf_with_world' split: if_splits option.splits)

lemma wf_fire_on_offer: "agent_wf a \<Longrightarrow> agent_wf (snd (fire_on_offer ops h m a))"
  by (auto simp: fire_on_offer_def intro!: wf_with_world split: option.split)

lemma wf_make_media_offer:
  "kms_sdp_agent_make_media_offer ops a h offer i = Inr (ok, offer', a') \<Longrightarrow> agent_wf a \<Longrightarrow> agent_wf a'"
  by (auto simp: kms_sdp_agent_make_media_offer_def bind_result_Inr_iff case_prod_beta mild_def
      intro!: wf_fire_on_offer wf_upd_hnd dest: wf_proper_offer split: option.splits)

lemma wf_create_media_offer_loop:
  "create_media_offer_loop ops hs i offer a = Inr (ok, offer', a') \<Longrightarrow> agent_wf a \<Longrightarrow> agent_wf a'"
proof (induction hs arbitrary: i offer a)
  case (Cons h hs)
  then show ?case
    by (auto simp: bind_result_Inr_iff dest: wf_make_media_offer split: if_splits)
qed simp

lemma offered_id_in: "h \<in> set (ag_offer_handlers a) \<Longrightarrow> offered_id a h"
  by (auto simp: list_ex_iff)

lemma wf_merge_handler: "agent_wf a \<Longrightarrow> h \<in> set (ag_handlers a) \<Longrightarrow> agent_wf (kms_sdp_agent_merge_handler_func h a)"
  using offered_id_in [of h a]
  by (auto simp: kms_sdp_agent_merge_handler_func_def intro!: wf_refs wf_offer_handlers, auto simp: agent_wf_def)

lemma wf_merge_handlers:
  "agent_wf a \<Longrightarrow> set hs \<subseteq> set (ag_handlers a) \<Longrightarrow> agent_wf (fold kms_sdp_agent_merge_handler_func hs a)"
proof (induction hs arbitrary: a)
  case (Cons h hs)
  then have "agent_wf (kms_sdp_agent_merge_handler_func h a)" by (simp add: wf_merge_handler)
  moreover have "ag_handlers (kms_sdp_agent_merge_handler_func h a) = ag_handlers a"
    by (simp add: kms_sdp_agent_merge_handler_func_def)
  ultimately show ?case using Cons by simp
qed simp

lemma not_negotiated_handler:
  "kms_sdp_agent_get_first_not_negotiated_handler a = Some h \<Longrightarrow>
     h \<in> set (ag_handlers a) \<and> h \<notin> set (ag_offer_handlers a) \<and> \<not> sh_negotiated (hnd a h)"
  using offered_id_in [of h a]
  by (auto simp: kms_sdp_agent_get_first_not_negotiated_handler_def dest!: find_Some_in)

lemma reusable_slot_Some:
  "reusable_slot a = Some i \<Longrightarrow> i < length (ag_offer_handlers a) \<and>
     (sh_disabled (hnd a (ag_offer_handlers a ! i)) \<or> sh_unsupported (hnd a (ag_offer_handlers a ! i)))"
  using nth_length_takeWhile [of "\<lambda>h. \<not> (sh_disabled (hnd a h) \<or> sh_unsupported (hnd a h))" "ag_offer_handlers a"]
  by (auto simp: reusable_slot_def Let_def split: if_splits)

lemma replace_slot_simps [simp]:
  "ag_handlers (replace_slot i h a) = ag_handlers a"
  "ag_offer_handlers (replace_slot i h a) = (ag_offer_handlers a)[i := h]"
  "length (ag_store (replace_slot i h a)) = length (ag_store a)"
  by (simp_all add: replace_slot_def Let_def)

lemma wf_replace_slot:
  "agent_wf a \<Longrightarrow> h \<in> set (ag_handlers a) \<Longrightarrow> h \<notin> set (ag_offer_handlers a) \<Longrightarrow> agent_wf (replace_slot i h a)"
  unfolding replace_slot_def Let_def
  by (intro wf_offer_handlers wf_refs)
    (auto simp: agent_wf_def distinct_list_update dest!: set_update_subset_insert [THEN subsetD])

lemma wf_reuse_slots: "reuse_slots a = Some a' \<Longrightarrow> agent_wf a \<longrightarrow> agent_wf a' \<and> ag_handlers a' = ag_handlers a"
proof (induction a a' rule: reuse_slots.raw_induct [rotated, consumes 1, case_names turn])
  case (turn rec a a')
  show ?case
  proof (cases "reusable_slot a")
    case (Some i)
    show ?thesis
    proof (cases "kms_sdp_agent_get_first_not_negotiated_handler a")
      case (Some h)
      then show ?thesis
        using turn \<open>reusable_slot a = Some i\<close> not_negotiated_handler [OF Some] by (auto simp: wf_replace_slot)
    qed (use turn Some in auto)
  qed (use turn in auto)
qed

lemma wf_merge: "kms_sdp_agent_merge_offer_handlers a = Some a' \<Longrightarrow> agent_wf a \<Longrightarrow> agent_wf a'"
proof -
  assume m: "kms_sdp_agent_merge_offer_handlers a = Some a'" and a: "agent_wf a"
  show "agent_wf a'"
  proof (cases "ag_state a = UNNEGOTIATED")
    case True
    have "agent_wf (a\<lparr>ag_offer_handlers := ag_handlers a\<rparr>)" using a by (auto simp: agent_wf_def)
    then show ?thesis using m True by (auto simp: kms_sdp_agent_merge_offer_handlers_def intro!: wf_fold)
  next
    case False
    then obtain b where "reuse_slots a = Some b" "a' = fold kms_sdp_agent_merge_handler_func (ag_handlers b) b"
      using m by (auto simp: kms_sdp_agent_merge_offer_handlers_def)
    then show ?thesis using wf_reuse_slots a by (auto intro!: wf_merge_handlers)
  qed
qed


text \<open>The answer's side: which handler is found, and that it is a handler.\<close>

lemma handler_for_media_loop_in:
  "handler_for_media_loop ops a media offer hs = Inr (Some h) \<Longrightarrow>
     h \<in> set hs \<and> h \<notin> set (ag_offer_handlers a) \<and> \<not> sh_negotiated (hnd a h) \<and> sh_media (hnd a h) = sm_media media \<and>
     mo_manage_protocol ops (sh_handler (hnd a h)) (mhnd a h) (sm_proto media)"
  by (induction hs) (auto simp: bind_result_Inr_iff split: if_splits)

lemma get_handler_in: "kms_sdp_agent_get_handler a hid = Some h \<Longrightarrow>
    h \<in> set (ag_handlers a) \<union> set (ag_offer_handlers a) \<and> sh_id (hnd a h) = hid"
  by (auto simp: kms_sdp_agent_get_handler_def dest!: find_Some_in)

text \<open>
  The selection of a handler: it keeps the agent well-formed and the places of the offered
  handlers, and a handler it finds is one of the agent's that was made.
\<close>

definition selects :: "'e sdp_agent \<Rightarrow> 'e sdp_agent \<Rightarrow> bool" where
  "selects a a' \<longleftrightarrow> agent_wf a' \<and> length (ag_store a) \<le> length (ag_store a') \<and>
     length (ag_offer_handlers a') = length (ag_offer_handlers a)"

lemma selects_trans: "selects a b \<Longrightarrow> selects b c \<Longrightarrow> selects a c"
  by (simp add: selects_def)

lemma selects_refl: "agent_wf a \<Longrightarrow> selects a a"
  by (simp add: selects_def)

lemma request_handler_spec:
  assumes "kms_sdp_agent_request_handler ops a media = (r, a')" and "agent_wf a"
  shows "selects a a'" and "ag_offer_handlers a' = ag_offer_handlers a"
    and "r = Some h \<Longrightarrow> h < length (ag_store a')"
proof -
  have "selects a a' \<and> ag_offer_handlers a' = ag_offer_handlers a \<and> (\<forall>h. r = Some h \<longrightarrow> h < length (ag_store a'))"
  proof (cases "cb_handler_required ops")
    case (Some f)
    obtain mh a1 where w: "with_world (f media) a = (mh, a1)" by fastforce
    have a1: "agent_wf a1" "ag_store a1 = ag_store a" "ag_offer_handlers a1 = ag_offer_handlers a"
      using wf_with_world' [OF w assms(2)] w by (auto simp: with_world_def split: prod.splits)
    show ?thesis
    proof (cases mh)
      case (Some x)
      define a2 where "a2 = a1\<lparr>ag_media_handlers := ag_media_handlers a1 @ [x]\<rparr>"
      have wf2: "agent_wf a2" unfolding a2_def by (rule wf_media_handlers [OF a1(1)]) simp
      obtain i a3 where ap: "kms_sdp_agent_append_media_handler a2 (sm_media media) (length (ag_media_handlers a1)) = (i, a3)"
        by fastforce
      note sp = append_media_handler_spec [OF ap wf2]
      have "(r, a') = (None, a2) \<or> (r, a') = (None, a3) \<or> (r, a') = (kms_sdp_agent_get_handler a3 (word_of_int i), a3)"
        using assms(1) w ap Some \<open>cb_handler_required ops = Some f\<close>
        by (auto simp: kms_sdp_agent_request_handler_def Let_def a2_def split: if_splits)
      then show ?thesis
        using sp(1,2,4) wf2 a1 get_handler_in [of a3 "word_of_int i"]
        by (auto simp: selects_def a2_def agent_wf_def)
    qed (use assms(1) w a1 Some in \<open>simp add: kms_sdp_agent_request_handler_def selects_def\<close>)
  qed (use assms in \<open>simp add: kms_sdp_agent_request_handler_def selects_refl\<close>)
  then show "selects a a'" "ag_offer_handlers a' = ag_offer_handlers a" "r = Some h \<Longrightarrow> h < length (ag_store a')"
    by auto
qed

lemma set_group_spec:
  "kms_sdp_agent_set_handler_group a h media offer = Inr a' \<Longrightarrow> a' = a\<lparr>ag_gm := ag_gm a'\<rparr>"
  by (auto simp: kms_sdp_agent_set_handler_group_def split: list.splits option.splits if_splits)

lemma handler_for_media_spec:
  assumes "kms_sdp_agent_get_handler_for_media ops a media offer = Inr (r, a')" and "agent_wf a"
  shows "selects a a'" and "ag_offer_handlers a' = ag_offer_handlers a"
    and "r = Some h \<Longrightarrow> h < length (ag_store a')"
proof -
  obtain found where f: "handler_for_media_loop ops a media offer (ag_handlers a) = Inr found"
    and r: "(case found of Some h \<Rightarrow> Inr (Some h, a)
     | None \<Rightarrow> (case kms_sdp_agent_request_handler ops a media of
          (None, a1) \<Rightarrow> Inr (None, a1)
        | (Some h, a1) \<Rightarrow> bind_result (kms_sdp_agent_set_handler_group a1 h media offer) (\<lambda>a2. Inr (Some h, a2)))) = Inr (r, a')"
    using assms(1) by (auto simp: kms_sdp_agent_get_handler_for_media_def bind_result_Inr_iff)
  have "selects a a' \<and> ag_offer_handlers a' = ag_offer_handlers a \<and> (\<forall>h. r = Some h \<longrightarrow> h < length (ag_store a'))"
  proof (cases found)
    case (Some h)
    then show ?thesis
      using handler_for_media_loop_in [of ops a media offer "ag_handlers a" h] f r assms(2)
      by (auto simp: selects_refl, auto simp: agent_wf_def)
  next
    case None
    obtain q a1 where q: "kms_sdp_agent_request_handler ops a media = (q, a1)" by fastforce
    note sp = request_handler_spec [OF q assms(2)]
    show ?thesis
    proof (cases q)
      case (Some h)
      then have "kms_sdp_agent_set_handler_group a1 h media offer = Inr a'" "r = Some h"
        using r None q by (auto simp: bind_result_Inr_iff)
      then obtain gm where "a' = a1\<lparr>ag_gm := gm\<rparr>" using set_group_spec by blast
      then show ?thesis using sp Some \<open>r = Some h\<close> by (simp add: selects_def)
    qed (use r None q sp in auto)
  qed
  then show "selects a a'" "ag_offer_handlers a' = ag_offer_handlers a" "r = Some h \<Longrightarrow> h < length (ag_store a')"
    by auto
qed


lemma reject_handler_spec:
  assumes "agent_wf a"
  obtains h a' where "reject_handler_for a media = Inr (h, a')" and "selects a a'"
    and "ag_handlers a' = ag_handlers a" and "ag_offer_handlers a' = ag_offer_handlers a" and "h = length (ag_store a)"
    and "h < length (ag_store a')" and "mh_reject (mhnd a' h)"
    and "hnd a' h = sdp_handler_new (ag_hids a) (sm_media media) (length (ag_media_handlers a)) True"
proof -
  define b where "b = a\<lparr>ag_media_handlers := ag_media_handlers a @ [kms_sdp_reject_media_handler_new]\<rparr>"
  let ?m = "length (ag_media_handlers a)"
  have wb: "agent_wf b" unfolding b_def by (rule wf_media_handlers [OF assms]) simp
  have mb: "ag_media_handlers b ! ?m = kms_sdp_reject_media_handler_new" "?m < length (ag_media_handlers b)"
    by (simp_all add: b_def)
  define a' where "a' = snd (kms_sdp_agent_create_media_handler b (sm_media media) ?m)"
  obtain ms where c: "kms_sdp_agent_create_media_handler b (sm_media media) ?m = (Some (length (ag_store a)), a')"
    and ms: "mh_reject (ag_media_handlers a' ! ?m)"
    using mb
    by (simp add: a'_def kms_sdp_agent_create_media_handler_def Let_def kms_sdp_reject_media_handler_new_def
        kms_sdp_media_handler_set_parent_def kms_sdp_media_handler_set_id_impl_def, simp add: b_def)
  note sp = create_media_handler_spec [OF c wb mb(2)]
  have n: "hnd a' (length (ag_store a)) = sdp_handler_new (ag_hids a) (sm_media media) ?m True"
    using sp(6) [OF refl] mb by (simp add: b_def kms_sdp_reject_media_handler_new_def)
  show ?thesis
  proof (rule that)
    show "reject_handler_for a media = Inr (length (ag_store a), a')"
      using c by (simp add: reject_handler_for_def kms_sdp_agent_create_reject_media_handler_def Let_def b_def)
    show "selects a a'" using sp by (simp add: selects_def b_def)
    show "mh_reject (mhnd a' (length (ag_store a)))" using ms n by (simp add: sdp_handler_new_def)
  qed (use sp n in \<open>simp_all add: b_def\<close>)
qed

lemma slist_index_less: "x \<in> set xs \<Longrightarrow> nat (slist_index xs x) < length xs \<and> xs ! nat (slist_index xs x) = x"
  unfolding slist_index_def by (induction xs) auto

text \<open>Below \<open>2 ^ 31\<close> handlers the ids tell them apart.\<close>

lemma wf_id_inj:
  "agent_wf a \<Longrightarrow> length (ag_store a) \<le> 2 ^ 31 \<Longrightarrow> h < length (ag_store a) \<Longrightarrow> n \<le> 2 ^ 31 \<Longrightarrow>
     sh_id (hnd a h) = of_nat n \<longleftrightarrow> h = n"
  by (auto simp: agent_wf_def of_nat_eq_iff word_of_nat_eq_iff take_bit_nat_eq_self)

lemma request_handler_new:
  assumes "kms_sdp_agent_request_handler ops a media = (Some h, a')" and "agent_wf a"
    and "length (ag_store a') \<le> 2 ^ 31"
  shows "h = length (ag_store a)"
proof -
  obtain f where f: "cb_handler_required ops = Some f"
    using assms(1) by (auto simp: kms_sdp_agent_request_handler_def split: option.splits)
  obtain x a1 where w: "with_world (f media) a = (Some x, a1)"
    using assms(1) f by (auto simp: kms_sdp_agent_request_handler_def split: prod.splits option.splits)
  have a1: "agent_wf a1" "ag_store a1 = ag_store a" "ag_hids a1 = ag_hids a"
    using wf_with_world' [OF w assms(2)] w by (auto simp: with_world_def split: prod.splits)
  define a2 where "a2 = a1\<lparr>ag_media_handlers := ag_media_handlers a1 @ [x]\<rparr>"
  have wf2: "agent_wf a2" unfolding a2_def by (rule wf_media_handlers [OF a1(1)]) simp
  obtain i a3 where ap: "kms_sdp_agent_append_media_handler a2 (sm_media media) (length (ag_media_handlers a1)) = (i, a3)"
    by fastforce
  have i: "\<not> i < 0" "kms_sdp_agent_get_handler a3 (word_of_int i) = Some h" "a' = a3"
    using assms(1) w ap f by (auto simp: kms_sdp_agent_request_handler_def Let_def a2_def split: if_splits)
  note sp = append_media_handler_spec [OF ap wf2]
  have m: "length (ag_media_handlers a1) < length (ag_media_handlers a2)" by (simp add: a2_def)
  have l: "length (ag_store a) < 2 ^ 31" using sp(4) [OF m] assms(3) i(3) a1(2) by (simp add: a2_def)
  then have "uint (of_nat (length (ag_store a)) :: u32) = int (length (ag_store a))"
    by (simp add: unsigned_of_nat take_bit_nat_eq_self flip: take_bit_of_nat)
  then have "i = int (length (ag_store a))"
    using sp(8) [OF m] i(1) a1 assms(2) l by (simp add: a2_def agent_wf_def to_gint_small)
  then have "sh_id (hnd a3 h) = of_nat (length (ag_store a))" "h < length (ag_store a3)"
    using get_handler_in [OF i(2)] sp(1) [OF m] by (auto simp: agent_wf_def)
  then show ?thesis using wf_id_inj [OF sp(1) [OF m]] assms(3) i(3) l by simp
qed

lemma handler_for_media_new:
  assumes "kms_sdp_agent_get_handler_for_media ops a media offer = Inr (Some h, a')" and "agent_wf a"
    and "length (ag_store a') \<le> 2 ^ 31"
  shows "h \<notin> set (ag_offer_handlers a)"
proof -
  obtain found where f: "handler_for_media_loop ops a media offer (ag_handlers a) = Inr found"
    and r: "(case found of Some h \<Rightarrow> Inr (Some h, a)
     | None \<Rightarrow> (case kms_sdp_agent_request_handler ops a media of
          (None, a1) \<Rightarrow> Inr (None, a1)
        | (Some h, a1) \<Rightarrow> bind_result (kms_sdp_agent_set_handler_group a1 h media offer) (\<lambda>a2. Inr (Some h, a2)))) = Inr (Some h, a')"
    using assms(1) by (auto simp: kms_sdp_agent_get_handler_for_media_def bind_result_Inr_iff)
  show ?thesis
  proof (cases found)
    case None
    then obtain a1 where q: "kms_sdp_agent_request_handler ops a media = (Some h, a1)"
      and g: "kms_sdp_agent_set_handler_group a1 h media offer = Inr a'"
      using r by (auto simp: bind_result_Inr_iff split: prod.splits option.splits)
    then obtain gm where "a' = a1\<lparr>ag_gm := gm\<rparr>" using set_group_spec by blast
    then have "h = length (ag_store a)" using request_handler_new [OF q assms(2)] assms(3) by simp
    then show ?thesis using assms(2) by (auto simp: agent_wf_def)
  qed (use f r in \<open>auto dest: handler_for_media_loop_in\<close>)
qed

lemma selects_unref: "agent_wf a \<Longrightarrow> selects a (sdp_handler_unref h a)"
  by (auto simp: selects_def)

lemma selects_upd: "agent_wf a \<Longrightarrow> mild f \<Longrightarrow> selects a (upd_hnd f h a)"
  by (auto simp: selects_def wf_upd_hnd)

lemma replace_offered_spec:
  assumes "kms_sdp_agent_replace_offered_handler ops a media offer h = Inr (r, a')" and "agent_wf a"
    and "length (ag_store a') \<le> 2 ^ 31"
  shows "selects a a' \<and> (\<forall>c. r = Some c \<longrightarrow> c < length (ag_store a'))"
proof (cases "h \<in> set (ag_offer_handlers a)")
  case True
  let ?i = "nat (slist_index (ag_offer_handlers a) h)"
  obtain found a1 c a2 where f: "kms_sdp_agent_get_handler_for_media ops (sdp_handler_unref h a) media offer = Inr (found, a1)"
    and c: "(case found of None \<Rightarrow> reject_handler_for a1 media | Some c \<Rightarrow> Inr (c, sdp_handler_ref c a1)) = Inr (c, a2)"
    and a': "r = Some c" "a' = a2\<lparr>ag_offer_handlers := (ag_offer_handlers a2)[?i := c]\<rparr>"
    using assms(1) True by (auto simp: kms_sdp_agent_replace_offered_handler_def Let_def bind_result_Inr_iff)
  have wu: "agent_wf (sdp_handler_unref h a)" using assms(2) by auto
  note sp = handler_for_media_spec [OF f wu]
  have a2: "selects a1 a2 \<and> ag_offer_handlers a2 = ag_offer_handlers a1 \<and> c < length (ag_store a2) \<and>
      c \<notin> set (ag_offer_handlers a)"
  proof (cases found)
    case None
    have w1: "agent_wf a1" using sp(1) by (simp add: selects_def)
    have "set (ag_offer_handlers a) \<subseteq> {..< length (ag_store a1)}"
      using assms(2) sp(1) by (auto simp: selects_def agent_wf_def)
    moreover have "selects a1 a2 \<and> ag_offer_handlers a2 = ag_offer_handlers a1 \<and> c < length (ag_store a2) \<and> c = length (ag_store a1)"
      by (rule reject_handler_spec [OF w1, of media]) (use c None in simp)
    ultimately show ?thesis by auto
  next
    case (Some d)
    then have d: "c = d" "a2 = sdp_handler_ref d a1" using c by auto
    then have "length (ag_store a1) \<le> 2 ^ 31" using assms(3) a'(2) by simp
    then have "c \<notin> set (ag_offer_handlers a)"
      using handler_for_media_new [OF f [unfolded Some] wu] d by simp
    then show ?thesis using sp Some d by (auto simp: selects_def)
  qed
  then have "agent_wf a'"
    using sp(2) a'(2) unfolding a'(2)
    by (intro wf_offer_handlers) (auto simp: selects_def agent_wf_def distinct_list_update
        dest!: set_update_subset_insert [THEN subsetD])
  then show ?thesis using a2 sp(1,2) a' by (simp add: selects_def)
qed (use assms in \<open>auto simp: kms_sdp_agent_replace_offered_handler_def selects_refl\<close>)

lemma get_proper_cases:
  assumes "kms_sdp_agent_get_proper_handler ops a media offer h = Inr x"
  shows "x = (Some h, a) \<or>
    x = (Some h, upd_hnd (\<lambda>s. s\<lparr>sh_negotiated := False, sh_rejected := False, sh_offer := False\<rparr>) h a) \<or>
    kms_sdp_agent_replace_offered_handler ops
      (upd_hnd (\<lambda>s. s\<lparr>sh_negotiated := False, sh_rejected := False, sh_offer := False\<rparr>) h a) media offer h = Inr x"
proof -
  define b where "b = upd_hnd (\<lambda>s. s\<lparr>sh_negotiated := False, sh_rejected := False, sh_offer := False\<rparr>) h a"
  show ?thesis
    using assms unfolding kms_sdp_agent_get_proper_handler_def Let_def b_def [symmetric]
    by (simp split: if_split_asm)
qed

lemma select_spec:
  assumes "kms_sdp_agent_select_handler_to_answer_media ops a i media offer = Inr (r, a')" and "agent_wf a"
    and "length (ag_store a') \<le> 2 ^ 31"
  shows "selects a a' \<and> (\<forall>h. r = Some h \<longrightarrow> h < length (ag_store a'))"
proof (cases "i < length (ag_offer_handlers a)")
  case True
  let ?h = "ag_offer_handlers a ! i"
  have h: "?h < length (ag_store a)" using nth_mem [OF True] assms(2) unfolding agent_wf_def by blast
  let ?f = "\<lambda>s. s\<lparr>sh_negotiated := False, sh_rejected := False, sh_offer := False\<rparr>"
  have m: "mild ?f" by (simp add: mild_def)
  then have w: "agent_wf (upd_hnd ?f ?h a)" using assms(2) by (rule wf_upd_hnd)
  have g: "kms_sdp_agent_get_proper_handler ops a media offer ?h = Inr (r, a')"
    using assms(1) True by (simp add: kms_sdp_agent_select_handler_to_answer_media_def)
  have "(r, a') = (Some ?h, a) \<or> (r, a') = (Some ?h, upd_hnd ?f ?h a) \<or>
      kms_sdp_agent_replace_offered_handler ops (upd_hnd ?f ?h a) media offer ?h = Inr (r, a')"
    using get_proper_cases [OF g] .
  then show ?thesis
  proof (elim disjE)
    assume "kms_sdp_agent_replace_offered_handler ops (upd_hnd ?f ?h a) media offer ?h = Inr (r, a')"
    from replace_offered_spec [OF this w assms(3)] show ?thesis by (auto simp: selects_def)
  qed (use assms(2) h w in \<open>auto simp: selects_def\<close>)
next
  case False
  then have f: "kms_sdp_agent_get_handler_for_media ops a media offer = Inr (r, a')"
    using assms(1) by (simp add: kms_sdp_agent_select_handler_to_answer_media_def)
  show ?thesis using handler_for_media_spec [OF f assms(2)] by blast
qed

lemma handler_create_answer_spec:
  "handler_create_answer ops h answer media a = (m, a') \<Longrightarrow>
     \<exists>gm u. a' = a\<lparr>ag_gm := gm, ag_user := u\<rparr>"
  by (auto simp: handler_create_answer_def with_world_def split: if_splits prod.splits
      intro!: exI [of _ "ag_gm a'"] exI [of _ "ag_user a'"])

lemma selects_world: "agent_wf a \<Longrightarrow> selects a (a\<lparr>ag_gm := gm, ag_user := u\<rparr>)"
  by (simp add: selects_def)

lemma answer_media_spec:
  assumes "make_media_answer ops media offer found answer a = Inr ((go, h, m), a')" and "agent_wf a"
    and "\<And>h. found = Some h \<Longrightarrow> h < length (ag_store a)"
  shows "selects a a' \<and> h < length (ag_store a') \<and> ag_offer_handlers a' = ag_offer_handlers a \<and>
    (case found of None \<Rightarrow> h = length (ag_store a) | Some g \<Rightarrow> h = g)"
proof (cases found)
  case None
  show ?thesis
  proof (rule reject_handler_spec [OF assms(2), of media])
    fix h' a1 assume r: "reject_handler_for a media = Inr (h', a1)" "selects a a1" "h' < length (ag_store a1)"
      "ag_offer_handlers a1 = ag_offer_handlers a" "h' = length (ag_store a)"
    obtain m' a2 where c: "handler_create_answer ops h' answer media a1 = (m', a2)" by fastforce
    obtain gm u where "a2 = a1\<lparr>ag_gm := gm, ag_user := u\<rparr>" using handler_create_answer_spec [OF c] by blast
    then have "agent_wf a2 \<and> ag_store a2 = ag_store a1 \<and> ag_offer_handlers a2 = ag_offer_handlers a1"
      using r(2) by (simp add: selects_def)
    then show ?thesis
      using assms(1) None r c by (auto simp: make_media_answer_def selects_def)
  qed
next
  case (Some g)
  then have "h = g \<and> (a' = a \<or> (\<exists>m'. handler_create_answer ops g answer media a = (m', a')))"
    using assms(1) by (auto simp: make_media_answer_def Let_def split: if_splits prod.splits option.splits)
  then show ?thesis
    using Some assms(2,3) handler_create_answer_spec [of ops g answer media a]
    by (auto simp: selects_refl selects_world)
qed

lemma register_spec:
  assumes "agent_wf a" and "h < length (ag_store a)"
  shows "agent_wf (register_answer_handler ret h i a) \<and>
    length (ag_store (register_answer_handler ret h i a)) = length (ag_store a) \<and>
    ag_offer_handlers (register_answer_handler ret h i a) =
      (if ret \<and> h \<notin> set (ag_offer_handlers a) then ag_offer_handlers a @ [h] else ag_offer_handlers a)"
proof -
  let ?f = "\<lambda>s. s\<lparr>sh_index := of_nat i\<rparr>"
  have m: "mild ?f" by (simp add: mild_def)
  have "set (ag_offer_handlers a @ [h]) \<subseteq> {..< length (ag_store a)}" "distinct (ag_offer_handlers a)"
    using assms by (auto simp: agent_wf_def)
  then show ?thesis
    using assms m by (auto simp: register_answer_handler_def Let_def intro!: wf_offer_handlers wf_upd_hnd wf_refs)
qed

lemma reject_port: "sm_port (reject_sdp_media m) = 0"
    "sm_port (fst (kms_sdp_reject_media_handler_create_answer f m s)) = 0"
  by (simp_all add: reject_sdp_media_def reject_answer_line reject_line_def sdp_media_new_def split: option.split)

lemma answer_media_port:
  assumes "make_media_answer ops media offer found answer a = Inr ((go, h, Some m), a')" and "agent_wf a" and "sm_port media = 0"
  shows "sm_port m = 0"
proof (cases found)
  case None
  obtain h' a1 where r: "reject_handler_for a media = Inr (h', a1)" "mh_reject (mhnd a1 h')"
    using reject_handler_spec [OF assms(2), of media] by metis
  then show ?thesis
    using assms(1) None by (auto simp: make_media_answer_def handler_create_answer_def reject_port split: prod.splits)
      (metis fst_conv reject_port(2))
next
  case (Some g)
  then show ?thesis
    using assms by (auto simp: make_media_answer_def Let_def reject_port split: if_splits prod.splits option.splits)
qed

lemma fire_on_answer_spec:
  "fire_on_answer ops h m a = (m', a') \<Longrightarrow>
     (\<exists>gm u. a' = a\<lparr>ag_gm := gm, ag_user := u\<rparr>) \<and> (m' = None \<longleftrightarrow> m = None) \<and> (cb_media_answer ops = None \<longrightarrow> m' = m)"
  by (auto simp: fire_on_answer_def with_world_def split: if_splits prod.splits option.splits
      intro!: exI [of _ "ag_gm a'"] exI [of _ "ag_user a'"])

text \<open>The memory only grows.\<close>

abbreviation store_size :: "'e sdp_agent \<Rightarrow> nat" where
  "store_size a \<equiv> length (ag_store a)"

lemma size_create_media_handler:
  "kms_sdp_agent_create_media_handler a media m = (r, a') \<Longrightarrow> store_size a \<le> store_size a'"
  by (auto simp: kms_sdp_agent_create_media_handler_def Let_def kms_sdp_agent_remove_media_handler_def split: option.splits)

lemma size_append_media_handler:
  "kms_sdp_agent_append_media_handler a media m = (r, a') \<Longrightarrow> store_size a \<le> store_size a'"
  by (auto simp: kms_sdp_agent_append_media_handler_def dest: size_create_media_handler split: prod.splits option.splits)

lemma size_with_world: "with_world f a = (r, a') \<Longrightarrow> store_size a' = store_size a"
  by (auto simp: with_world_def split: prod.splits)

lemma size_set_group: "kms_sdp_agent_set_handler_group a h media offer = Inr a' \<Longrightarrow> store_size a' = store_size a"
  by (auto simp: kms_sdp_agent_set_handler_group_def split: list.splits option.splits if_splits)

lemma size_handler_for_media:
  "kms_sdp_agent_get_handler_for_media ops a media offer = Inr (r, a') \<Longrightarrow> store_size a \<le> store_size a'"
  by (auto simp: kms_sdp_agent_get_handler_for_media_def bind_result_Inr_iff kms_sdp_agent_request_handler_def Let_def
      dest!: size_with_world size_append_media_handler size_set_group
      split: option.splits prod.splits if_splits)

lemma size_reject_handler: "reject_handler_for a media = Inr (h, a') \<Longrightarrow> store_size a \<le> store_size a'"
  by (auto simp: reject_handler_for_def kms_sdp_agent_create_reject_media_handler_def
      dest!: size_create_media_handler split: prod.splits option.splits)

lemma size_select:
  "kms_sdp_agent_select_handler_to_answer_media ops a i media offer = Inr (r, a') \<Longrightarrow> store_size a \<le> store_size a'"
  by (auto simp: kms_sdp_agent_select_handler_to_answer_media_def kms_sdp_agent_get_proper_handler_def Let_def
      kms_sdp_agent_replace_offered_handler_def bind_result_Inr_iff
      dest!: size_handler_for_media size_reject_handler split: if_splits option.splits)

lemma size_answer_media: "make_media_answer ops media offer found answer a = Inr (r, a') \<Longrightarrow> store_size a \<le> store_size a'"
  by (auto simp: make_media_answer_def Let_def handler_create_answer_def bind_result_Inr_iff
      dest!: size_reject_handler dest: size_with_world split: option.splits if_splits prod.splits)

lemma create_media_answer_spec:
  assumes "create_media_answer ops offer media i answer a = Inr (ok, answer', a')" and "agent_wf a"
    and "length (ag_store a') \<le> 2 ^ 31"
  shows "agent_wf a' \<and> length (ag_store a) \<le> length (ag_store a') \<and>
    length (ag_offer_handlers a) \<le> length (ag_offer_handlers a') \<and>
    (ok \<and> i \<le> length (ag_offer_handlers a) \<longrightarrow> i < length (ag_offer_handlers a')) \<and>
    (ok \<longrightarrow> (\<exists>m. answer' = add_media m answer \<and>
      (cb_media_answer ops = None \<and> sm_port media = 0 \<longrightarrow> sm_port m = 0)))"
proof -
  obtain found a1 go h m a2 where s: "kms_sdp_agent_select_handler_to_answer_media ops a i media offer = Inr (found, a1)"
    and am: "make_media_answer ops media offer found answer a1 = Inr ((go, h, m), a2)"
    and rest: "(if \<not> go then Inr (False, answer, a2)
       else let a3 = (if m \<noteq> None \<and> sh_unsupported (hnd a2 h) \<and> sh_unsupported_media (hnd a2 h) = None
                then upd_hnd (\<lambda>s. s\<lparr>sh_unsupported_media := m\<rparr>) h a2 else a2);
              a4 = register_answer_handler (m \<noteq> None) h i a3;
              (m', a5) = fire_on_answer ops h m a4 in
            Inr (case m' of None \<Rightarrow> (False, answer, a5)
              | Some am \<Rightarrow> (m \<noteq> None, add_media am answer, a5))) = (Inr (ok, answer', a') :: c_fault + _)"
    using assms(1) by (auto simp: create_media_answer_def bind_result_Inr_iff)
  define a3 where "a3 = (if m \<noteq> None \<and> sh_unsupported (hnd a2 h) \<and> sh_unsupported_media (hnd a2 h) = None
      then upd_hnd (\<lambda>s. s\<lparr>sh_unsupported_media := m\<rparr>) h a2 else a2)"
  define a4 where "a4 = register_answer_handler (m \<noteq> None) h i a3"
  obtain m' a5 where fire: "fire_on_answer ops h m a4 = (m', a5)" by fastforce
  obtain gm u where a5: "a5 = a4\<lparr>ag_gm := gm, ag_user := u\<rparr>" and m': "m' = None \<longleftrightarrow> m = None"
    "cb_media_answer ops = None \<longrightarrow> m' = m"
    using fire_on_answer_spec [OF fire] by (elim conjE exE) (rule that)
  have res: "if go then a' = a5 \<and> (case m' of None \<Rightarrow> \<not> ok \<and> answer' = answer
      | Some am \<Rightarrow> ok \<and> answer' = add_media am answer) else \<not> ok \<and> a' = a2 \<and> answer' = answer"
    using rest fire m'(1) unfolding Let_def a3_def [symmetric] a4_def [symmetric]
    by (auto split: if_splits option.splits)
  have size4: "store_size a4 = store_size a2"
    by (simp add: a4_def a3_def register_answer_handler_def Let_def)
  have bound: "store_size a1 \<le> 2 ^ 31" "store_size a2 \<le> 2 ^ 31"
    using res a5 size4 size_answer_media [OF am] assms(3) by (auto split: if_splits)
  note sel = select_spec [OF s assms(2) bound(1)]
  have wf1: "agent_wf a1" using sel by (simp add: selects_def)
  have ans: "selects a1 a2 \<and> h < store_size a2 \<and> ag_offer_handlers a2 = ag_offer_handlers a1 \<and>
      (case found of None \<Rightarrow> h = store_size a1 | Some g \<Rightarrow> h = g)"
    using answer_media_spec [OF am wf1] sel by blast
  have m3: "mild (\<lambda>s. s\<lparr>sh_unsupported_media := m\<rparr>)" by (simp add: mild_def)
  have a3: "agent_wf a3" "store_size a3 = store_size a2" "ag_offer_handlers a3 = ag_offer_handlers a1"
    using ans wf_upd_hnd [OF m3, of a2 h] by (simp_all add: a3_def selects_def)
  have a4: "agent_wf a4 \<and> ag_offer_handlers a4 = (if m \<noteq> None \<and> h \<notin> set (ag_offer_handlers a1)
      then ag_offer_handlers a1 @ [h] else ag_offer_handlers a1)"
    using register_spec [OF a3(1), of h "m \<noteq> None" i] ans a3(2,3) by (simp add: a4_def)
  have new: "h \<notin> set (ag_offer_handlers a1)" if "i = length (ag_offer_handlers a)"
  proof (cases found)
    case None
    then show ?thesis using ans wf1 by (auto simp: agent_wf_def)
  next
    case (Some g)
    have f: "kms_sdp_agent_get_handler_for_media ops a media offer = Inr (Some g, a1)"
      using s Some that by (simp add: kms_sdp_agent_select_handler_to_answer_media_def)
    show ?thesis
      using handler_for_media_new [OF f assms(2) bound(1)] handler_for_media_spec(2) [OF f assms(2)] ans Some by simp
  qed
  have port: "sm_port x = 0" if "m = Some x" "sm_port media = 0" for x
    using answer_media_port [of ops media offer found answer a1 go h x a2] am wf1 that by simp
  have wf': "agent_wf a' \<and> store_size a2 \<le> store_size a'"
    using res a4 a5 ans size4 by (auto simp: selects_def split: if_splits)
  have offers: "length (ag_offer_handlers a) \<le> length (ag_offer_handlers a')"
    using res a4 a5 ans sel by (auto simp: selects_def split: if_splits)
  have slot: "i < length (ag_offer_handlers a')" if "ok" "i \<le> length (ag_offer_handlers a)"
  proof (cases "i = length (ag_offer_handlers a)")
    case True
    have "a' = a5" "m \<noteq> None" using res that(1) m' by (auto split: if_splits option.splits)
    then show ?thesis using a4 a5 new [OF True] sel True by (simp add: selects_def)
  qed (use that offers in simp)
  have med: "\<exists>x. answer' = add_media x answer \<and> (cb_media_answer ops = None \<and> sm_port media = 0 \<longrightarrow> sm_port x = 0)" if "ok"
    using res that m' port by (auto split: if_splits option.splits)
  show ?thesis
    using wf' ans sel offers slot med by (auto simp: selects_def)
qed


lemma size_create_media_answer:
  "create_media_answer ops offer media i answer a = Inr (ok, answer', a') \<Longrightarrow> store_size a \<le> store_size a'"
proof -
  assume c: "create_media_answer ops offer media i answer a = Inr (ok, answer', a')"
  have f: "store_size (snd (fire_on_answer ops h m b)) = store_size b" for h m and b :: "'a sdp_agent"
    by (auto simp: fire_on_answer_def with_world_def case_prod_beta split: option.split)
  have r: "store_size (register_answer_handler ret h i b) = store_size b" for ret h and b :: "'a sdp_agent"
    by (simp add: register_answer_handler_def Let_def)
  show ?thesis
    using c by (auto simp: create_media_answer_def bind_result_Inr_iff Let_def case_prod_beta f r
        dest!: size_select size_answer_media split: if_splits option.splits)
qed

lemma size_answer_loop: "answer_loop ops offer ms i answer a = Inr (ok, answer', a') \<Longrightarrow> store_size a \<le> store_size a'"
proof (induction ms arbitrary: i answer a)
  case (Cons m ms)
  then show ?case
    by (fastforce simp: bind_result_Inr_iff dest: size_create_media_answer split: if_splits)
qed simp

definition answers_media :: "'e media_ops \<Rightarrow> sdp_media \<Rightarrow> sdp_media \<Rightarrow> bool" where
  "answers_media ops m x \<longleftrightarrow> (cb_media_answer ops = None \<and> sm_port m = 0 \<longrightarrow> sm_port x = 0)"

lemma answer_loop_spec:
  assumes "answer_loop ops offer ms i answer a = Inr (ok, answer', a')" and "agent_wf a" and "store_size a' \<le> 2 ^ 31"
  shows "agent_wf a' \<and> (ok \<longrightarrow>
    (i \<le> length (ag_offer_handlers a) \<longrightarrow> i + length ms \<le> length (ag_offer_handlers a')) \<and>
    (\<exists>xs. answer' = answer\<lparr>sg_medias := sg_medias answer @ xs\<rparr> \<and> list_all2 (answers_media ops) ms xs))"
  using assms
proof (induction ms arbitrary: i answer a)
  case Nil
  then show ?case by (auto intro!: exI [of _ "[]"])
next
  case (Cons m ms)
  then obtain ok1 answer1 a1 where c: "create_media_answer ops offer m i answer a = Inr (ok1, answer1, a1)"
    and r: "(if \<not> ok1 then Inr (False, answer1, a1) else answer_loop ops offer ms (Suc i) answer1 a1) =
      (Inr (ok, answer', a') :: c_fault + _)"
    by (auto simp: bind_result_Inr_iff)
  have "store_size a1 \<le> 2 ^ 31"
    using r Cons.prems(3) size_answer_loop [of ops offer ms "Suc i" answer1 a1 ok answer' a'] by (auto split: if_splits)
  note sp = create_media_answer_spec [OF c Cons.prems(2) this]
  show ?case
  proof (cases ok1)
    case True
    obtain x where x: "answer1 = add_media x answer" "answers_media ops m x"
      using sp True by (auto simp: answers_media_def)
    have "answer_loop ops offer ms (Suc i) answer1 a1 = Inr (ok, answer', a')" using r True by simp
    note ih = Cons.IH [OF this _ Cons.prems(3)]
    show ?thesis
    proof (intro conjI impI)
      show "agent_wf a'" using ih sp by simp
      assume ok
      then obtain xs where "answer' = answer1\<lparr>sg_medias := sg_medias answer1 @ xs\<rparr>" "list_all2 (answers_media ops) ms xs"
        using ih sp by auto
      then show "\<exists>xs. answer' = answer\<lparr>sg_medias := sg_medias answer @ xs\<rparr> \<and> list_all2 (answers_media ops) (m # ms) xs"
        using x by (intro exI [of _ "x # xs"]) (simp add: add_media_def)
      assume "i \<le> length (ag_offer_handlers a)"
      then show "i + length (m # ms) \<le> length (ag_offer_handlers a')"
        using ih sp True \<open>ok\<close> by simp
    qed
  qed (use r sp in auto)
qed

lemma message_add_keeps: "sg_medias (message_add_attribute k v m) = sg_medias m" "sg_origin (message_add_attribute k v m) = sg_origin m"
  by (simp_all add: message_add_attribute_def)

lemma answer_extensions_keep:
  "sg_origin (kms_sdp_agent_exec_answer_session_extensions a offer pre msg) = sg_origin msg \<and>
   sg_medias (kms_sdp_agent_exec_answer_session_extensions a offer pre msg) = sg_medias msg"
proof -
  have "(\<lambda>m. (sg_origin m, sg_medias m)) (kms_sdp_agent_exec_answer_session_extensions a offer pre msg) = (sg_origin msg, sg_medias msg)"
    unfolding kms_sdp_agent_exec_answer_session_extensions_def
    by (rule fold_keeps) (auto simp: kms_sdp_base_group_add_answer_attributes_impl_def message_add_keeps split: option.split)
  then show ?thesis by simp
qed

lemma intersect_session_keep:
  "snd (intersect_loop as (Some intersect_session_attr) m) = m' \<Longrightarrow> sg_medias m' = sg_medias m \<and> sg_origin m' = sg_origin m"
proof (induction as arbitrary: m)
  case (Cons attr as)
  have "sg_medias (intersect_session_attr x m) = sg_medias m \<and> sg_origin (intersect_session_attr x m) = sg_origin m" for x
    by (simp add: intersect_session_attr_def)
  then show ?case using Cons by (auto simp: intersect_attribute_def split: if_splits prod.splits option.splits)
qed simp


lemma answer_shape:
  assumes "kms_sdp_agent_create_answer_impl ops now a = Inr (Some answer, a')"
    and "agent_wf a" and "store_size a' \<le> 2 ^ 31"
  shows "ag_state a = REMOTE_OFFER \<and> agent_wf a' \<and>
    (\<exists>offer. ag_remote_description a = Some offer \<and>
      length (sg_medias answer) = length (sg_medias offer) \<and>
      list_all2 (answers_media ops) (sg_medias offer) (sg_medias answer) \<and>
      length (sg_medias offer) \<le> length (ag_offer_handlers a')) \<and>
    so_sess_id (sg_origin answer) =
      (if fst (ag_local a) = None \<or> snd (ag_local a) = None
       then Some (decimal (unat (get_ntp_time now))) else fst (ag_local a))"
proof -
  define a1 where "a1 = (if fst (ag_local a) = None \<or> snd (ag_local a) = None
      then a\<lparr>ag_local := generate_sdp_session_description now\<rparr> else a)"
  define o1 where "o1 = kms_sdp_agent_origin_init a1 (fst (ag_local a1)) (snd (ag_local a1))"
  define answer1 where "answer1 = kms_sdp_agent_set_origin (kms_sdp_agent_set_default_session_attributes sdp_message_new) o1"
  obtain offer where st: "ag_state a = REMOTE_OFFER" and offer: "ag_remote_description a1 = Some offer"
    and g: "kms_sdp_agent_generate_answer ops a1 offer = Inr (Some answer, a')"
    using assms(1) by (auto simp: kms_sdp_agent_create_answer_impl_def a1_def Let_def split: if_splits option.splits)
  define answer2 where "answer2 = fold (\<lambda>x. intersect_session_attr (answer_of x)) (sg_attrs offer) answer1"
  have i: "sdp_utils_intersect_session_attributes offer (Some intersect_session_attr) answer1 = (True, answer2)"
    by (simp add: sdp_utils_intersect_session_attributes_def intersect_loop_fold answer2_def)
  define answer3 where "answer3 = kms_sdp_agent_exec_answer_session_extensions a1 offer True answer2"
  obtain answer4 where l: "answer_loop ops offer (sg_medias offer) 0 answer3 a1 = Inr (True, answer4, a')"
    and answer: "answer = kms_sdp_agent_exec_answer_session_extensions a' offer False answer4"
    using g i by (auto simp: kms_sdp_agent_generate_answer_def Let_def bind_result_Inr_iff
        o1_def [symmetric] answer1_def [symmetric] answer3_def [symmetric] split: if_splits)
  have wf: "agent_wf a1" using assms(2) by (simp add: a1_def)
  have "(\<lambda>m. (sg_medias m, sg_origin m)) answer2 = (sg_medias answer1, sg_origin answer1)"
    unfolding answer2_def by (rule fold_keeps) (simp add: intersect_session_attr_def)
  then have "sg_medias answer3 = [] \<and> sg_origin answer3 = o1"
    using answer_extensions_keep [of a1 offer True answer2]
    by (simp add: answer3_def answer1_def kms_sdp_agent_set_origin_def sdp_message_new_def
        kms_sdp_agent_set_default_session_attributes_def)
  then obtain xs where xs: "answer4 = answer3\<lparr>sg_medias := xs\<rparr>" "list_all2 (answers_media ops) (sg_medias offer) xs"
    "length (sg_medias offer) \<le> length (ag_offer_handlers a')" "agent_wf a'" "sg_origin answer4 = o1"
    using answer_loop_spec [OF l wf assms(3)] by auto
  have "sg_medias answer = xs" "sg_origin answer = o1"
    using answer_extensions_keep [of a' offer False answer4] xs by (simp_all add: answer)
  moreover have "so_sess_id o1 = (if fst (ag_local a) = None \<or> snd (ag_local a) = None
       then Some (decimal (unat (get_ntp_time now))) else fst (ag_local a))"
    by (auto simp: o1_def a1_def kms_sdp_agent_origin_init_def generate_sdp_session_description_def Let_def)
  moreover have "ag_remote_description a = Some offer" using offer by (simp add: a1_def split: if_splits)
  ultimately show ?thesis
    using st xs by (auto dest: list_all2_lengthD)
qed



section \<open>The places of the medias in an offer\<close>

text \<open>What references do not touch of a handler.\<close>

definition sans_refs :: "sdp_handler \<Rightarrow> sdp_handler" where
  "sans_refs s = s\<lparr>sh_refs := 0\<rparr>"

lemma hnd_upd_other: "sans_refs (hnd (upd_hnd f h a) g) = (if g = h \<and> h < store_size a then sans_refs (f (hnd a h)) else sans_refs (hnd a g))"
  by (cases "h < store_size a"; cases "g = h") (simp_all add: upd_hnd_def not_less list_update_beyond)

lemma sans_refs_ref [simp]:
  "sans_refs (hnd (sdp_handler_ref h a) g) = sans_refs (hnd a g)"
  "sans_refs (hnd (sdp_handler_unref h a) g) = sans_refs (hnd a g)"
  by (auto simp: sdp_handler_ref_def sdp_handler_unref_def hnd_upd_other) (auto simp: sans_refs_def)

lemma sans_refs_fields:
  "sans_refs s = sans_refs t \<Longrightarrow> sh_disabled s = sh_disabled t \<and> sh_unsupported s = sh_unsupported t \<and>
     sh_negotiated s = sh_negotiated t \<and> sh_index s = sh_index t \<and> sh_id s = sh_id t \<and> sh_media s = sh_media t"
  by (cases s; cases t) (simp add: sans_refs_def)

lemma sans_refs_fold: "(\<And>x a. sans_refs (hnd (f x a) g) = sans_refs (hnd a g)) \<Longrightarrow> sans_refs (hnd (fold f xs a) g) = sans_refs (hnd a g)"
  by (rule fold_keeps [where g = "\<lambda>a. sans_refs (hnd a g)"])

lemma sans_refs_replace_slot [simp]: "sans_refs (hnd (replace_slot i h a) g) = sans_refs (hnd a g)"
  by (simp add: replace_slot_def Let_def)

lemma sans_refs_merge_handler [simp]: "sans_refs (hnd (kms_sdp_agent_merge_handler_func h a) g) = sans_refs (hnd a g)"
  by (simp add: kms_sdp_agent_merge_handler_func_def)

definition reusable :: "'e sdp_agent \<Rightarrow> href \<Rightarrow> bool" where
  "reusable a h \<longleftrightarrow> sh_disabled (hnd a h) \<or> sh_unsupported (hnd a h)"

text \<open>
  One list of slots is the other with some reusable slots filled by handlers that are new, and
  new handlers behind it.
\<close>

definition slots_kept :: "'e sdp_agent \<Rightarrow> href list \<Rightarrow> href list \<Rightarrow> bool" where
  "slots_kept a old new \<longleftrightarrow> length old \<le> length new \<and>
     (\<forall>i < length new. i < length old \<and> new ! i = old ! i \<or>
        (i < length old \<longrightarrow> reusable a (old ! i)) \<and> new ! i \<in> set (ag_handlers a) \<and> \<not> sh_negotiated (hnd a (new ! i)))"

lemma slots_kept_cong:
  assumes "ag_handlers a = ag_handlers b" and "\<And>h. sans_refs (hnd a h) = sans_refs (hnd b h)"
  shows "slots_kept a old new = slots_kept b old new"
  using sans_refs_fields [OF assms(2)] assms(1) by (simp add: slots_kept_def reusable_def)

lemma slots_kept_trans: "slots_kept a xs ys \<Longrightarrow> slots_kept a ys zs \<Longrightarrow> slots_kept a xs zs"
  unfolding slots_kept_def by (metis order.trans less_le_trans)

lemma slots_kept_refl: "slots_kept a xs xs"
  by (simp add: slots_kept_def)

lemma reuse_slots_kept:
  "reuse_slots a = Some a' \<Longrightarrow> slots_kept a (ag_offer_handlers a) (ag_offer_handlers a') \<and>
     ag_handlers a' = ag_handlers a \<and> (\<forall>h. sans_refs (hnd a' h) = sans_refs (hnd a h))"
proof (induction a a' rule: reuse_slots.raw_induct [rotated, consumes 1, case_names turn])
  case (turn rec a a')
  show ?case
  proof (cases "reusable_slot a")
    case (Some i)
    show ?thesis
    proof (cases "kms_sdp_agent_get_first_not_negotiated_handler a")
      case (Some h)
      let ?b = "replace_slot i h a"
      have ih: "slots_kept ?b (ag_offer_handlers ?b) (ag_offer_handlers a')" "ag_handlers a' = ag_handlers a"
        "\<forall>g. sans_refs (hnd a' g) = sans_refs (hnd a g)"
        using turn(1) [of ?b a'] turn(2) \<open>reusable_slot a = Some i\<close> Some by simp_all
      have "slots_kept a (ag_offer_handlers a) ((ag_offer_handlers a)[i := h])"
        using reusable_slot_Some [OF \<open>reusable_slot a = Some i\<close>] not_negotiated_handler [OF Some]
        by (auto simp: slots_kept_def nth_list_update reusable_def)
      moreover have "slots_kept ?b = slots_kept a"
        by (intro ext slots_kept_cong) auto
      ultimately show ?thesis using ih slots_kept_trans by auto
    qed (use turn Some in \<open>auto simp: slots_kept_refl\<close>)
  qed (use turn in \<open>auto simp: slots_kept_refl\<close>)
qed

lemma merge_handler_kept:
  "h \<in> set (ag_handlers a) \<Longrightarrow> slots_kept a (ag_offer_handlers a) (ag_offer_handlers (kms_sdp_agent_merge_handler_func h a))"
  by (auto simp: kms_sdp_agent_merge_handler_func_def slots_kept_refl, auto simp: slots_kept_def nth_append less_Suc_eq)

lemma merge_handlers_kept:
  "set hs \<subseteq> set (ag_handlers a) \<Longrightarrow>
     slots_kept a (ag_offer_handlers a) (ag_offer_handlers (fold kms_sdp_agent_merge_handler_func hs a)) \<and>
     (\<forall>h. sans_refs (hnd (fold kms_sdp_agent_merge_handler_func hs a) h) = sans_refs (hnd a h))"
proof (induction hs arbitrary: a)
  case (Cons h hs)
  let ?b = "kms_sdp_agent_merge_handler_func h a"
  have hb: "ag_handlers ?b = ag_handlers a" by (simp add: kms_sdp_agent_merge_handler_func_def)
  have "slots_kept ?b = slots_kept a" by (intro ext slots_kept_cong hb) simp
  moreover have "slots_kept ?b (ag_offer_handlers ?b) (ag_offer_handlers (fold kms_sdp_agent_merge_handler_func hs ?b))"
    using Cons hb by simp
  ultimately show ?case
    using Cons.prems merge_handler_kept [of h a] slots_kept_trans [of a _ "ag_offer_handlers ?b"]
    by (simp add: sans_refs_fold)
qed (simp add: slots_kept_refl)


text \<open>Making the medias: one for each slot, and each slot's handler knows its place.\<close>

lemma with_world_store: "ag_store (snd (with_world f a)) = ag_store a" "ag_offer_handlers (snd (with_world f a)) = ag_offer_handlers a"
  by (simp_all add: with_world_def case_prod_beta)

lemma make_media_offer_spec:
  assumes "kms_sdp_agent_make_media_offer ops a h offer i = Inr (True, offer', a')"
  shows "(\<exists>m. offer' = add_media m offer) \<and> ag_offer_handlers a' = ag_offer_handlers a \<and> store_size a' = store_size a \<and>
    (h < store_size a \<longrightarrow> sh_index (hnd a' h) = of_nat i) \<and> (\<forall>g. g \<noteq> h \<longrightarrow> hnd a' g = hnd a g)"
proof -
  obtain m a1 where p: "kms_sdp_agent_create_proper_media_offer ops a h = Inr (Some m, a1)"
    and f: "offer' = add_media (fst (fire_on_offer ops h m (upd_hnd (\<lambda>s. s\<lparr>sh_index := of_nat i\<rparr>) h a1))) offer"
    "a' = snd (fire_on_offer ops h m (upd_hnd (\<lambda>s. s\<lparr>sh_index := of_nat i\<rparr>) h a1))"
    using assms by (auto simp: kms_sdp_agent_make_media_offer_def bind_result_Inr_iff case_prod_beta split: option.splits)
  have fire: "ag_store (snd (fire_on_offer ops h m b)) = ag_store b \<and>
      ag_offer_handlers (snd (fire_on_offer ops h m b)) = ag_offer_handlers b" for b
    by (auto simp: fire_on_offer_def with_world_store split: option.split)
  have co: "ag_store (snd (handler_create_offer ops h prev a)) = ag_store a"
    "ag_offer_handlers (snd (handler_create_offer ops h prev a)) = ag_offer_handlers a" for prev
    by (simp_all add: handler_create_offer_def with_world_store)
  have "(ag_store a1 = ag_store a \<or> (\<exists>s. ag_store a1 = (ag_store a)[h := s])) \<and> ag_offer_handlers a1 = ag_offer_handlers a"
    using p co by (auto simp: kms_sdp_agent_create_proper_media_offer_def Let_def case_prod_beta upd_hnd_def
        split: if_splits option.splits dest!: arg_cong [where f = snd])
  then show ?thesis
    using f fire by (auto simp: upd_hnd_def)
qed

lemma create_media_offer_loop_spec:
  assumes "create_media_offer_loop ops hs i offer a = Inr (True, offer', a')" and "distinct hs"
    and "set hs \<subseteq> {..< store_size a}"
  shows "(\<exists>xs. offer' = offer\<lparr>sg_medias := sg_medias offer @ xs\<rparr> \<and> length xs = length hs) \<and>
    ag_offer_handlers a' = ag_offer_handlers a \<and> store_size a' = store_size a \<and>
    (\<forall>k < length hs. sh_index (hnd a' (hs ! k)) = of_nat (i + k)) \<and> (\<forall>g. g \<notin> set hs \<longrightarrow> hnd a' g = hnd a g)"
  using assms
proof (induction hs arbitrary: i offer a)
  case Nil
  then show ?case by simp
next
  case (Cons h hs)
  then obtain offer1 a1 where m: "kms_sdp_agent_make_media_offer ops a h offer i = Inr (True, offer1, a1)"
    and r: "create_media_offer_loop ops hs (Suc i) offer1 a1 = Inr (True, offer', a')"
    by (auto simp: bind_result_Inr_iff split: if_splits)
  note sp = make_media_offer_spec [OF m]
  have ih: "(\<exists>xs. offer' = offer1\<lparr>sg_medias := sg_medias offer1 @ xs\<rparr> \<and> length xs = length hs) \<and>
    ag_offer_handlers a' = ag_offer_handlers a1 \<and> store_size a' = store_size a1 \<and>
    (\<forall>k < length hs. sh_index (hnd a' (hs ! k)) = of_nat (Suc i + k)) \<and> (\<forall>g. g \<notin> set hs \<longrightarrow> hnd a' g = hnd a1 g)"
    using Cons.IH [OF r] Cons.prems sp by auto
  obtain x where x: "offer1 = add_media x offer" using sp by blast
  obtain xs where xs: "offer' = offer1\<lparr>sg_medias := sg_medias offer1 @ xs\<rparr>" "length xs = length hs" using ih by blast
  have "sh_index (hnd a' ((h # hs) ! k)) = of_nat (i + k)" if "k < length (h # hs)" for k
    using that ih sp Cons.prems(2,3) by (cases k) auto
  moreover have "offer' = offer\<lparr>sg_medias := sg_medias offer @ (x # xs)\<rparr>" using x xs by (simp add: add_media_def)
  moreover have "length (x # xs) = length (h # hs)" using xs by simp
  ultimately show ?case using ih sp Cons.prems by auto
qed


lemma create_media_offer_loop_msg:
  "create_media_offer_loop ops hs i offer a = Inr (True, offer', a') \<Longrightarrow>
     \<exists>xs. offer' = offer\<lparr>sg_medias := sg_medias offer @ xs\<rparr>"
proof (induction hs arbitrary: i offer a)
  case Nil
  then show ?case by (auto intro!: exI [of _ "[]"])
next
  case (Cons h hs)
  then obtain offer1 a1 where m: "kms_sdp_agent_make_media_offer ops a h offer i = Inr (True, offer1, a1)"
    and r: "create_media_offer_loop ops hs (Suc i) offer1 a1 = Inr (True, offer', a')"
    by (auto simp: bind_result_Inr_iff split: if_splits)
  from make_media_offer_spec [OF m] Cons.IH [OF r] show ?case
    by (auto simp: add_media_def)
qed

lemma offer_of_medias_cases:
  assumes "offer_of_medias ops tmp offer a = Inr (Some result, a')"
  obtains offer1 a1 offer2 a2 where "create_media_offer_loop ops (ag_offer_handlers a) 0 offer a = Inr (True, offer1, a1)"
    and "kms_sdp_agent_update_session_version a1 offer1 = (offer2, a2)"
    and "result = kms_sdp_agent_offer_processing_extensions a2 False offer2"
    and "a' = SDP_AGENT_NEW_STATE (fold sdp_handler_unref tmp a2) LOCAL_OFFER"
  using assms
  by (auto simp: offer_of_medias_def kms_sdp_agent_create_media_offer_def bind_result_Inr_iff Let_def
      split: if_splits prod.splits)

lemma local_offer_state: "SDP_AGENT_NEW_STATE a LOCAL_OFFER = a\<lparr>ag_state := LOCAL_OFFER\<rparr>"
  by (simp add: SDP_AGENT_NEW_STATE_def kms_sdp_agent_commit_state_operations_def)

lemma fold_ref_lists [simp]:
  "ag_offer_handlers (fold sdp_handler_ref hs a) = ag_offer_handlers a"
  "ag_offer_handlers (fold sdp_handler_unref hs a) = ag_offer_handlers a"
  "ag_handlers (fold sdp_handler_ref hs a) = ag_handlers a"
  "ag_handlers (fold sdp_handler_unref hs a) = ag_handlers a"
  "store_size (fold sdp_handler_ref hs a) = store_size a"
  "store_size (fold sdp_handler_unref hs a) = store_size a"
  by (rule fold_keeps, simp)+

lemma update_version_keeps:
  "kms_sdp_agent_update_session_version a msg = (msg', a') \<Longrightarrow>
     a' = a\<lparr>ag_local := ag_local a'\<rparr> \<and>
     msg'\<lparr>sg_origin := sg_origin msg, sg_connection := sg_connection msg\<rparr> = msg \<and>
     sg_origin msg' = (case ag_local_description a of None \<Rightarrow> sg_origin msg
       | Some d \<Rightarrow> if sdp_utils_equal_messages d msg then sg_origin msg
           else (sg_origin d)\<lparr>so_sess_version := Some (decimal (unat (strtoull_opt (so_sess_version (sg_origin d)) + 1)))\<rparr>)"
  by (auto simp: kms_sdp_agent_update_session_version_def kms_sdp_agent_increment_sess_version_def Let_def
      kms_sdp_agent_set_origin_def split: option.splits if_splits)

lemma update_version_fields:
  assumes "kms_sdp_agent_update_session_version a msg = (msg', a')"
  shows "sg_medias msg' = sg_medias msg" "ag_store a' = ag_store a" "ag_offer_handlers a' = ag_offer_handlers a"
    "ag_extensions a' = ag_extensions a"
proof -
  have "msg' = msg\<lparr>sg_origin := sg_origin msg', sg_connection := sg_connection msg'\<rparr> \<and> a' = a\<lparr>ag_local := ag_local a'\<rparr>"
    using assms by (auto simp: kms_sdp_agent_update_session_version_def kms_sdp_agent_increment_sess_version_def
        Let_def kms_sdp_agent_set_origin_def split: option.splits if_splits)
  then obtain l o' c where "msg' = msg\<lparr>sg_origin := o', sg_connection := c\<rparr>" "a' = a\<lparr>ag_local := l\<rparr>" by blast
  then show "sg_medias msg' = sg_medias msg" "ag_store a' = ag_store a" "ag_offer_handlers a' = ag_offer_handlers a"
    "ag_extensions a' = ag_extensions a" by simp_all
qed

text \<open>
  C7: An offer keeps the places of the session's medias (RFC 3264, section 8): it has one media
  for every registered handler; none of the earlier ones is removed or moved; only the place of
  a media that was removed or that the agent cannot support is given to a new handler, and the
  other new ones stand behind; every handler then knows its place.
\<close>

theorem offer_keeps_places:
  assumes "kms_sdp_agent_create_offer_impl ops now a = Some (Inr (Some offer, a'))"
    and "agent_wf a" and "ag_state a = NEGOTIATED"
  shows "length (sg_medias offer) = length (ag_offer_handlers a') \<and>
    slots_kept a (ag_offer_handlers a) (ag_offer_handlers a') \<and>
    (\<forall>i < length (ag_offer_handlers a'). sh_index (hnd a' (ag_offer_handlers a' ! i)) = of_nat i)"
proof -
  have cm: "can_manipulate a" using assms(3) by simp
  obtain local draft a2 where
    m: "kms_sdp_agent_merge_offer_handlers (fold sdp_handler_ref (ag_offer_handlers a) (a\<lparr>ag_local := local\<rparr>)) = Some a2"
    and o: "offer_of_medias ops (ag_offer_handlers a) draft a2 = Inr (Some offer, a')" and d: "sg_medias draft = []"
    using create_offer_cases [OF assms(1) cm] .
  define a1 where "a1 = fold sdp_handler_ref (ag_offer_handlers a) (a\<lparr>ag_local := local\<rparr>)"
  have a1: "ag_state a1 = NEGOTIATED" "ag_handlers a1 = ag_handlers a" "ag_offer_handlers a1 = ag_offer_handlers a"
    "agent_wf a1"
    using frame_fields [of a1 a] assms(2,3) by (auto simp: a1_def frame_fold intro!: wf_fold)
  have hs: "sans_refs (hnd a1 h) = sans_refs (hnd a h)" for h
    unfolding a1_def by (subst sans_refs_fold) auto
  have k1: "slots_kept a1 = slots_kept a"
    by (intro ext slots_kept_cong a1(2)) (rule hs)
  obtain b where b: "reuse_slots a1 = Some b" "a2 = fold kms_sdp_agent_merge_handler_func (ag_handlers b) b"
    using m a1(1) by (auto simp: a1_def [symmetric] kms_sdp_agent_merge_offer_handlers_def)
  note rs = reuse_slots_kept [OF b(1)]
  have kb: "slots_kept b = slots_kept a"
    using rs a1 hs by (intro ext slots_kept_cong) auto
  have kept: "slots_kept a (ag_offer_handlers a) (ag_offer_handlers a2)"
    using rs merge_handlers_kept [of "ag_handlers b" b] slots_kept_trans a1(3) by (auto simp: k1 kb b(2))
  have wf2: "agent_wf a2" using wf_merge [OF m [folded a1_def] a1(4)] .
  obtain offer1 a3 offer2 a4 where l: "create_media_offer_loop ops (ag_offer_handlers a2) 0 draft a2 = Inr (True, offer1, a3)"
    and u: "kms_sdp_agent_update_session_version a3 offer1 = (offer2, a4)"
    and r: "offer = kms_sdp_agent_offer_processing_extensions a4 False offer2"
    and a': "a' = SDP_AGENT_NEW_STATE (fold sdp_handler_unref (ag_offer_handlers a) a4) LOCAL_OFFER"
    using offer_of_medias_cases [OF o] .
  have w2: "distinct (ag_offer_handlers a2)" "set (ag_offer_handlers a2) \<subseteq> {..< store_size a2}"
    using wf2 by (auto simp: agent_wf_def)
  note sp = create_media_offer_loop_spec [OF l w2]
  have "sg_medias offer = sg_medias offer1"
    using update_version_fields [OF u] processing_keeps [of a4 False offer2] by (simp add: r)
  then have len: "length (sg_medias offer) = length (ag_offer_handlers a2)" using sp d by auto
  have lists: "ag_offer_handlers a' = ag_offer_handlers a2" "ag_store a4 = ag_store a3"
    using sp update_version_fields [OF u] by (auto simp: a' local_offer_state)
  have "sans_refs (hnd (fold sdp_handler_unref (ag_offer_handlers a) a4) h) = sans_refs (hnd a4 h)" for h
    by (rule sans_refs_fold) simp
  from sans_refs_fields [OF this] have "sh_index (hnd a' h) = sh_index (hnd a3 h)" for h
    by (simp add: a' local_offer_state lists(2))
  then show ?thesis using len kept sp lists by simp
qed



section \<open>Every call keeps the agent well-formed\<close>

lemma wf_update_rejected: "agent_wf a \<Longrightarrow> agent_wf (update_rejected_medias a d)"
  unfolding update_rejected_medias_def by (rule wf_fold) (auto simp: mild_def intro!: wf_upd_hnd)

lemma wf_process_answer: "agent_wf a \<Longrightarrow> agent_wf (kms_sdp_agent_process_answer ops d a)"
  unfolding kms_sdp_agent_process_answer_def
  by (rule wf_fold) (auto simp: handler_process_answer_def intro!: wf_with_world)

lemma wf_process_answered_loop: "process_answered_loop ops b i ms a = Inr a' \<Longrightarrow> agent_wf a \<Longrightarrow> agent_wf a'"
proof (induction ms arbitrary: i a)
  case (Cons m ms)
  have "agent_wf (kms_sdp_agent_fire_on_answered_callback ops h m b a)" for h
    using Cons.prems(2) by (auto simp: kms_sdp_agent_fire_on_answered_callback_def intro!: wf_with_world split: option.split)
  then show ?case using Cons by (auto split: if_splits)
qed simp

lemma wf_negotiate_remote: "negotiate_remote_description ops d a = (ok, a') \<Longrightarrow> agent_wf a \<Longrightarrow> agent_wf a'"
  by (auto simp: negotiate_remote_description_def Let_def intro!: wf_new_state wf_process_answer wf_update_rejected
      split: agent_state.splits if_splits)

lemma size_make_media_offer:
  "kms_sdp_agent_make_media_offer ops a h offer i = Inr (ok, offer', a') \<Longrightarrow> store_size a' = store_size a"
proof -
  assume m: "kms_sdp_agent_make_media_offer ops a h offer i = Inr (ok, offer', a')"
  have w: "store_size (snd (with_world f b)) = store_size b" for f and b :: "'a sdp_agent"
    by (simp add: with_world_store)
  have f: "store_size (snd (fire_on_offer ops h x b)) = store_size b" for x and b :: "'a sdp_agent"
    by (auto simp: fire_on_offer_def w split: option.split)
  have p: "store_size b' = store_size b" if "kms_sdp_agent_create_proper_media_offer ops b h = Inr (r, b')" for b b' :: "'a sdp_agent" and r
    using that by (auto simp: kms_sdp_agent_create_proper_media_offer_def handler_create_offer_def Let_def case_prod_beta w
        split: if_splits option.splits dest!: arg_cong [where f = snd])
  show ?thesis
    using m by (auto simp: kms_sdp_agent_make_media_offer_def bind_result_Inr_iff case_prod_beta f
        dest!: p split: option.splits)
qed

lemma size_create_media_offer_loop:
  "create_media_offer_loop ops hs i offer a = Inr (ok, offer', a') \<Longrightarrow> store_size a' = store_size a"
proof (induction hs arbitrary: i offer a)
  case (Cons h hs)
  then show ?case by (auto simp: bind_result_Inr_iff dest!: size_make_media_offer split: if_splits)
qed simp

lemma size_reuse_slots: "reuse_slots a = Some a' \<Longrightarrow> store_size a' = store_size a"
proof (induction a a' rule: reuse_slots.raw_induct [rotated, consumes 1, case_names turn])
  case (turn rec a a')
  then show ?case by (auto split: option.splits)
qed

lemma size_merge: "kms_sdp_agent_merge_offer_handlers a = Some a' \<Longrightarrow> store_size a' = store_size a"
proof -
  have "store_size (fold kms_sdp_agent_merge_handler_func hs b) = store_size b" for hs and b :: "'a sdp_agent"
    by (rule fold_keeps) (simp add: kms_sdp_agent_merge_handler_func_def)
  then show "kms_sdp_agent_merge_offer_handlers a = Some a' \<Longrightarrow> store_size a' = store_size a"
    by (auto simp: kms_sdp_agent_merge_offer_handlers_def dest: size_reuse_slots split: if_splits)
qed

lemma wf_create_offer:
  assumes "kms_sdp_agent_create_offer_impl ops now a = Some (Inr (m, a'))" and "agent_wf a"
  shows "agent_wf a'"
proof (cases "can_manipulate a")
  case True
  obtain local draft a2 where
    mg: "kms_sdp_agent_merge_offer_handlers (fold sdp_handler_ref (ag_offer_handlers a) (a\<lparr>ag_local := local\<rparr>)) = Some a2"
    and o: "offer_of_medias ops (ag_offer_handlers a) draft a2 = Inr (m, a')"
    using create_offer_cases [OF assms(1) True] .
  have wf2: "agent_wf a2"
    by (rule wf_merge [OF mg]) (use assms(2) in \<open>auto intro!: wf_fold\<close>)
  obtain ok offer1 a3 where l: "create_media_offer_loop ops (ag_offer_handlers a2) 0 draft a2 = Inr (ok, offer1, a3)"
    using o by (auto simp: offer_of_medias_def kms_sdp_agent_create_media_offer_def bind_result_Inr_iff)
  note wf3 = wf_create_media_offer_loop [OF l wf2]
  show ?thesis
  proof (cases m)
    case None
    have "store_size a3 = store_size a"
      using size_create_media_offer_loop [OF l] size_merge [OF mg] by simp
    then have "agent_wf ((fold sdp_handler_unref (ag_offer_handlers a3) a3)\<lparr>ag_offer_handlers := ag_offer_handlers a\<rparr>)"
      using wf3 assms(2) by (intro wf_offer_handlers wf_fold wf_refs) (simp_all add: agent_wf_def)
    moreover have "a' = restore_offer_handlers (ag_offer_handlers a) a3"
      using o l None by (auto simp: offer_of_medias_def kms_sdp_agent_create_media_offer_def Let_def split: if_splits prod.splits)
    ultimately show ?thesis using wf3 by (simp add: restore_offer_handlers_def)
  next
    case (Some offer)
    obtain offer1' a3' offer2 a4 where
      l': "create_media_offer_loop ops (ag_offer_handlers a2) 0 draft a2 = Inr (True, offer1', a3')"
      and u: "kms_sdp_agent_update_session_version a3' offer1' = (offer2, a4)"
      and a': "a' = SDP_AGENT_NEW_STATE (fold sdp_handler_unref (ag_offer_handlers a) a4) LOCAL_OFFER"
      using offer_of_medias_cases [OF o [unfolded Some]] .
    have "a3' = a3" using l l' by simp
    then have "a4 = a3\<lparr>ag_local := ag_local a4\<rparr>"
      using update_version_keeps [OF u] by blast
    then have "agent_wf a4" using wf3 by (metis wf_simps(3))
    then show ?thesis by (auto simp: a' intro!: wf_new_state wf_fold)
  qed
qed (use assms in \<open>auto simp: kms_sdp_agent_create_offer_impl_def\<close>)


lemma wf_create_answer:
  assumes "kms_sdp_agent_create_answer_impl ops now a = Inr (m, a')" and "agent_wf a" and "store_size a' \<le> 2 ^ 31"
  shows "agent_wf a'"
proof -
  have l: "agent_wf a'" if "answer_loop ops offer ms i msg (a\<lparr>ag_local := l\<rparr>) = Inr (ok, msg', a')" for offer ms i msg l ok msg'
    using answer_loop_spec [OF that] assms(2,3) by simp
  have l': "agent_wf a'" if "answer_loop ops offer ms i msg a = Inr (ok, msg', a')" for offer ms i msg ok msg'
    using answer_loop_spec [OF that] assms(2,3) by simp
  show ?thesis
    using assms(1,2)
    by (auto simp: kms_sdp_agent_create_answer_impl_def kms_sdp_agent_generate_answer_def Let_def
        bind_result_Inr_iff dest: l l' split: if_splits option.splits prod.splits)
qed

lemma wf_set_local: "kms_sdp_agent_set_local_description_impl ops d a = Inr (ok, a') \<Longrightarrow> agent_wf a \<Longrightarrow> agent_wf a'"
  by (auto simp: kms_sdp_agent_set_local_description_impl_def Let_def bind_result_Inr_iff
      kms_sdp_agent_process_answered_description_def intro!: wf_new_state dest!: wf_process_answered_loop split: if_splits)

lemma wf_set_remote: "kms_sdp_agent_set_remote_description_impl ops d a = Inr (ok, a') \<Longrightarrow> agent_wf a \<Longrightarrow> agent_wf a'"
  by (auto simp: kms_sdp_agent_set_remote_description_impl_def Let_def bind_result_Inr_iff
      kms_sdp_agent_process_answered_description_def
      dest!: wf_process_answered_loop dest: wf_negotiate_remote split: if_splits prod.splits)

definition agent_inv :: "'e sdp_agent \<Rightarrow> bool" where
  "agent_inv a \<longleftrightarrow> agent_wf a \<and> descriptions_ok a"

definition agent_next :: "'e media_ops \<Rightarrow> 'e sdp_agent \<Rightarrow> agent_op \<Rightarrow> 'e sdp_agent" where
  "agent_next ops a op = (case agent_step ops a op of None \<Rightarrow> a | Some (ok, a') \<Rightarrow> a')"

definition few_handlers :: "'e media_ops \<Rightarrow> 'e sdp_agent \<Rightarrow> agent_op \<Rightarrow> bool" where
  "few_handlers ops a op \<longleftrightarrow> store_size (agent_next ops a op) \<le> 2 ^ 31"

lemma wf_step:
  assumes "agent_step ops a op = Some (ok, a')" and "agent_wf a" and "store_size a' \<le> 2 ^ 31"
  shows "agent_wf a'"
proof (cases op)
  case (New_media_handler mh)
  then show ?thesis using assms by (auto intro!: wf_media_handlers)
next
  case (Add_proto_handler media m)
  let ?r = "kms_sdp_agent_add_proto_handler_impl a media m"
  have "?r = (fst ?r, a')" "m < length (ag_media_handlers a)"
    using assms(1) Add_proto_handler by (auto simp: case_prod_beta split: if_splits)
  then show ?thesis using wf_add_proto assms(2) by blast
next
  case (Remove_proto_handler hid)
  then show ?thesis using assms wf_remove_proto by auto
next
  case (Create_offer now)
  then show ?thesis using assms wf_create_offer by (auto simp: bind_eq_Some_conv no_fault_iff)
next
  case (Create_answer now)
  then show ?thesis using assms wf_create_answer by (auto simp: no_fault_iff)
next
  case (Set_local_description d)
  then show ?thesis using assms wf_set_local by (auto simp: no_fault_iff)
next
  case (Set_remote_description d)
  then show ?thesis using assms wf_set_remote by (auto simp: no_fault_iff)
qed (use assms in \<open>auto simp: kms_sdp_agent_create_group_def kms_sdp_agent_group_add_def Let_def
    kms_sdp_agent_group_remove_def kms_sdp_agent_cancel_offer_impl_def split: if_splits prod.splits\<close>)

lemma descriptions_frame: "frame a' = frame a \<Longrightarrow> descriptions_ok a' = descriptions_ok a"
  using frame_fields [of a' a] by (simp add: descriptions_ok_def)

lemma descriptions_step:
  assumes "agent_step ops a op = Some (ok, a')" and "descriptions_ok a"
  shows "descriptions_ok a'"
proof (cases op)
  case (Create_group grp)
  then have "ag_state a' = ag_state a \<and> ag_prev_sdp a' = ag_prev_sdp a \<and>
      ag_local_description a' = ag_local_description a \<and> ag_remote_description a' = ag_remote_description a"
    using assms(1) by (auto simp: kms_sdp_agent_create_group_def Let_def split: if_splits prod.splits)
  then show ?thesis using assms(2) by (simp add: descriptions_ok_def)
next
  case (Add_proto_handler media m)
  let ?r = "kms_sdp_agent_add_proto_handler_impl a media m"
  have "?r = (fst ?r, a')" using assms(1) Add_proto_handler by (auto simp: case_prod_beta split: if_splits)
  then show ?thesis using assms(2) descriptions_frame frame_add_proto by blast
next
  case (Remove_proto_handler hid)
  then have "frame a' = frame a" using assms(1) frame_remove_proto [of a hid] by simp
  then show ?thesis using assms(2) descriptions_frame by blast
next
  case (Create_offer now)
  then obtain m where "kms_sdp_agent_create_offer_impl ops now a = Some (Inr (m, a'))"
    using assms(1) by (auto simp: bind_eq_Some_conv no_fault_iff)
  from create_offer_state [OF this] show ?thesis
    using assms(2) descriptions_frame [of a' a] by (cases m) (auto simp: descriptions_ok_def)
next
  case (Create_answer now)
  then obtain m where "kms_sdp_agent_create_answer_impl ops now a = Inr (m, a')"
    using assms(1) by (auto simp: no_fault_iff)
  then show ?thesis using assms(2) descriptions_frame create_answer_state(1) by blast
next
  case Cancel_offer
  then show ?thesis
    using assms by (auto simp: kms_sdp_agent_cancel_offer_impl_def descriptions_ok_def new_state_frame split: if_splits)
next
  case (Set_local_description d)
  then have "kms_sdp_agent_set_local_description_impl ops d a = Inr (ok, a')"
    using assms(1) by (simp add: no_fault_iff)
  note st = set_local_state [OF this]
  show ?thesis
  proof (cases ok)
    case True
    with st have "ag_local_description a' = Some d" "ag_remote_description a' = ag_remote_description a"
      "ag_state a = LOCAL_OFFER \<and> ag_state a' = WAIT_NEGO \<and> ag_prev_sdp a' = ag_prev_sdp a \<or>
       ag_state a = REMOTE_OFFER \<and> ag_state a' = NEGOTIATED \<and> ag_prev_sdp a' = Some d" by simp_all
    then show ?thesis
      using assms(2) by (elim disjE) (simp_all add: descriptions_ok_def)
  qed (use st assms(2) in simp)
next
  case (Set_remote_description d)
  then have "kms_sdp_agent_set_remote_description_impl ops d a = Inr (ok, a')"
    using assms(1) by (simp add: no_fault_iff)
  note st = set_remote_state [OF this]
  show ?thesis
  proof (cases ok)
    case True
    with st have "ag_remote_description a' = Some d" "ag_local_description a' = ag_local_description a"
      "ag_state a = WAIT_NEGO \<and> ag_state a' = NEGOTIATED \<and> ag_prev_sdp a' = Some d \<or>
       can_manipulate a \<and> ag_state a' = REMOTE_OFFER \<and> ag_prev_sdp a' = ag_prev_sdp a" by simp_all
    then show ?thesis
      using assms(2) by (elim disjE) (auto simp: descriptions_ok_def)
  qed (use st assms(2) in simp)
next
  case (New_media_handler mh)
  then have "frame a' = frame a" using assms(1) by auto
  then show ?thesis using assms(2) descriptions_frame by blast
next
  case (Group_add gid hid)
  then have "frame a' = frame a" using assms(1) by (auto simp: kms_sdp_agent_group_add_def split: if_splits prod.splits)
  then show ?thesis using assms(2) descriptions_frame by blast
next
  case (Group_remove gid hid)
  then have "frame a' = frame a" using assms(1) by (auto simp: kms_sdp_agent_group_remove_def split: if_splits prod.splits)
  then show ?thesis using assms(2) descriptions_frame by blast
qed

lemma agent_next_inv: "agent_inv a \<Longrightarrow> few_handlers ops a op \<Longrightarrow> agent_inv (agent_next ops a op)"
  using wf_step [of ops a op] descriptions_step [of ops a op]
  by (auto simp: agent_inv_def few_handlers_def agent_next_def split: option.splits)

interpretation session: invariant_machine "agent_next ops" "few_handlers ops" agent_inv for ops
  by unfold_locales (rule agent_next_inv)

lemma agent_inv_new: "agent_inv (kms_sdp_agent_new u)"
  by (simp add: agent_inv_def agent_wf_def descriptions_ok_def kms_sdp_agent_new_def)



end
