(* ===== verification/SdpNegotiation.thy ===== *)
theory SdpNegotiation
  imports SdpSession
begin

text \<open>
  Whole negotiations of the SDP agent: that making an offer comes to an end, that an offer and
  its answer lead to a negotiated session on both sides, and what goes wrong: an answer with
  more medias than were offered, and a handler that is removed after an offer was cancelled.
\<close>

section \<open>Merging the handlers comes to an end\<close>

text \<open>
  Every turn fills a slot that can be reused with a handler that leaves it; the number of
  reusable slots decreases, unless a handler that can be reused is put into one.
\<close>

definition reusable_slots :: "'e sdp_agent \<Rightarrow> nat" where
  "reusable_slots a = length (filter (reusable a) (ag_offer_handlers a))"

lemma reusable_cong:
  assumes "\<And>h. sans_refs (hnd a h) = sans_refs (hnd b h)"
  shows "reusable a = reusable b"
  by (rule ext) (use sans_refs_fields [OF assms] in \<open>simp add: reusable_def\<close>)

lemma length_filter_update:
  "i < length xs \<Longrightarrow> P (xs ! i) \<Longrightarrow> \<not> P x \<Longrightarrow> length (filter P (xs[i := x])) < length (filter P xs)"
proof (induction xs arbitrary: i)
  case (Cons y ys)
  then show ?case by (cases i) auto
qed simp

definition new_handlers_usable :: "'e sdp_agent \<Rightarrow> bool" where
  "new_handlers_usable a \<longleftrightarrow> (\<forall>h \<in> set (ag_handlers a). sh_negotiated (hnd a h) \<or> \<not> reusable a h)"

lemma reuse_slots_ends: "new_handlers_usable a \<Longrightarrow> reuse_slots a \<noteq> None"
proof (induction "reusable_slots a" arbitrary: a rule: less_induct)
  case less
  show ?case
  proof (cases "reusable_slot a")
    case (Some i)
    show ?thesis
    proof (cases "kms_sdp_agent_get_first_not_negotiated_handler a")
      case (Some h)
      let ?b = "replace_slot i h a"
      have r: "reusable ?b = reusable a" by (rule reusable_cong) simp
      have "\<not> reusable a h" using less.prems not_negotiated_handler [OF Some] by (auto simp: new_handlers_usable_def)
      then have "reusable_slots ?b < reusable_slots a"
        using reusable_slot_Some [OF \<open>reusable_slot a = Some i\<close>]
        unfolding reusable_slots_def r replace_slot_simps by (intro length_filter_update) (auto simp: reusable_def)
      moreover have "sh_negotiated (hnd ?b g) = sh_negotiated (hnd a g)" for g
        using sans_refs_fields [OF sans_refs_replace_slot, of i h a g] by simp
      then have "new_handlers_usable ?b"
        using less.prems by (simp add: new_handlers_usable_def r)
      ultimately have "reuse_slots ?b \<noteq> None" by (rule less.hyps)
      then show ?thesis using \<open>reusable_slot a = Some i\<close> Some by (subst reuse_slots.simps) simp
    qed (subst reuse_slots.simps, use Some in simp)
  qed (subst reuse_slots.simps, simp)
qed

text \<open>
  C39: Making an offer comes to an end, whatever the media handlers do, if every handler that is
  not negotiated yet can be used: none was added that only rejects and none is disabled.
\<close>

theorem create_offer_ends:
  assumes "new_handlers_usable a"
  shows "kms_sdp_agent_create_offer_impl ops now a \<noteq> None"
proof -
  have "kms_sdp_agent_merge_offer_handlers (fold sdp_handler_ref hs (a\<lparr>ag_local := l\<rparr>)) \<noteq> None" for hs l
  proof -
    let ?b = "fold sdp_handler_ref hs (a\<lparr>ag_local := l\<rparr>)"
    have s: "sans_refs (hnd ?b h) = sans_refs (hnd a h)" for h
      by (subst sans_refs_fold) auto
    have "reusable ?b = reusable a" by (rule reusable_cong) (rule s)
    moreover have "sh_negotiated (hnd ?b h) = sh_negotiated (hnd a h)" for h
      using sans_refs_fields [OF s] by blast
    ultimately have "new_handlers_usable ?b" using assms by (simp add: new_handlers_usable_def)
    then show ?thesis
      using reuse_slots_ends by (auto simp: kms_sdp_agent_merge_offer_handlers_def)
  qed
  then show ?thesis
    by (auto simp: kms_sdp_agent_create_offer_impl_def Let_def split: sum.split)
qed


section \<open>From an offer to a negotiated session\<close>

text \<open>Announcing the answered medias needs a handler for each of them.\<close>

lemma answered_keeps:
  "ag_offer_handlers (kms_sdp_agent_fire_on_answered_callback ops h m b a) = ag_offer_handlers a"
  "ag_store (kms_sdp_agent_fire_on_answered_callback ops h m b a) = ag_store a"
  by (simp_all add: kms_sdp_agent_fire_on_answered_callback_def with_world_store split: option.split)

lemma process_answered_loop_result:
  "process_answered_loop ops b i ms a =
     (if i + length ms \<le> length (ag_offer_handlers a) \<or> ms = []
      then Inr (snd (fold (\<lambda>m (i, a). (Suc i, kms_sdp_agent_fire_on_answered_callback ops (ag_offer_handlers a ! i) m b a)) ms (i, a)))
      else Inl Assertion_failed)"
  by (induction ms arbitrary: i a) (auto simp: answered_keeps)

lemma process_answered_keeps:
  "process_answered_loop ops b i ms a = Inr a' \<Longrightarrow> ag_offer_handlers a' = ag_offer_handlers a \<and> ag_store a' = ag_store a"
  by (induction ms arbitrary: i a) (auto simp: answered_keeps split: if_splits)

lemma remove_disabled_keeps:
  "ag_offer_handlers (kms_sdp_agent_remove_disabled_medias a) = ag_offer_handlers a \<and>
   sans_refs (hnd (kms_sdp_agent_remove_disabled_medias a) h) = sans_refs (hnd a h)"
proof (induction a rule: kms_sdp_agent_remove_disabled_medias.induct)
  case (1 a)
  have r: "ag_offer_handlers (kms_sdp_agent_remove_media_handler a g) = ag_offer_handlers a \<and>
      sans_refs (hnd (kms_sdp_agent_remove_media_handler a g) h) = sans_refs (hnd a h)" for g
    by (simp add: kms_sdp_agent_remove_media_handler_def)
  show ?case
    by (subst (1 2) kms_sdp_agent_remove_disabled_medias.simps) (use 1 r in \<open>auto split: option.split\<close>)
qed

lemma mark_negotiated:
  "set hs \<subseteq> {..< store_size a} \<Longrightarrow> h \<in> set hs \<Longrightarrow> sh_negotiated (hnd (fold mark_handler_as_negotiated hs a) h)"
proof (induction hs arbitrary: a)
  case (Cons g hs)
  have stay: "sh_negotiated (hnd (fold mark_handler_as_negotiated gs b) h)"
    if "sh_negotiated (hnd b h)" "h < store_size b" for gs and b :: "'a sdp_agent"
    using that by (induction gs arbitrary: b) (auto simp: mark_handler_as_negotiated_def hnd_upd)
  show ?case
  proof (cases "h = g")
    case True
    then show ?thesis using Cons.prems stay [of "mark_handler_as_negotiated g a" hs]
      by (auto simp: mark_handler_as_negotiated_def hnd_upd)
  next
    case False
    then show ?thesis using Cons by auto
  qed
qed simp

text \<open>Entering NEGOTIATED other than by cancelling marks every registered handler.\<close>

lemma negotiated_state:
  assumes "agent_wf a" and "ag_state a \<noteq> LOCAL_OFFER"
  shows "ag_offer_handlers (SDP_AGENT_NEW_STATE a NEGOTIATED) = ag_offer_handlers a"
    and "h \<in> set (ag_offer_handlers a) \<Longrightarrow> sh_negotiated (hnd (SDP_AGENT_NEW_STATE a NEGOTIATED) h)"
proof -
  let ?b = "fold mark_handler_as_negotiated (ag_offer_handlers a) a"
  have n: "ag_offer_handlers (SDP_AGENT_NEW_STATE a NEGOTIATED) = ag_offer_handlers (kms_sdp_agent_remove_disabled_medias ?b)"
    "hnd (SDP_AGENT_NEW_STATE a NEGOTIATED) h = hnd (kms_sdp_agent_remove_disabled_medias ?b) h"
    using assms(2) by (simp_all add: SDP_AGENT_NEW_STATE_def kms_sdp_agent_commit_state_operations_def)
  have "ag_offer_handlers ?b = ag_offer_handlers a" by (rule fold_keeps) simp
  then show "ag_offer_handlers (SDP_AGENT_NEW_STATE a NEGOTIATED) = ag_offer_handlers a"
    using remove_disabled_keeps [of ?b] n(1) by simp
  assume "h \<in> set (ag_offer_handlers a)"
  then have "sh_negotiated (hnd ?b h)" using mark_negotiated assms(1) by (auto simp: agent_wf_def)
  then show "sh_negotiated (hnd (SDP_AGENT_NEW_STATE a NEGOTIATED) h)"
    using sans_refs_fields [of "hnd (kms_sdp_agent_remove_disabled_medias ?b) h" "hnd ?b h"] remove_disabled_keeps [of ?b h] n(2)
    by simp
qed

definition accepts_session :: "'e sdp_agent \<Rightarrow> sdp_message \<Rightarrow> bool" where
  "accepts_session a d \<longleftrightarrow> ag_remote a = (None, None) \<or> valid_remote_session a (sg_origin d)"

lemma answer_received:
  assumes "ag_state a = WAIT_NEGO" and "agent_wf a" and "accepts_session a d"
  shows "if length (sg_medias d) \<le> length (ag_offer_handlers a)
    then \<exists>a'. kms_sdp_agent_set_remote_description_impl ops d a = Inr (True, a') \<and> ag_state a' = NEGOTIATED \<and>
      ag_offer_handlers a' = ag_offer_handlers a \<and> (\<forall>h \<in> set (ag_offer_handlers a). sh_negotiated (hnd a' h))
    else kms_sdp_agent_set_remote_description_impl ops d a = Inl Assertion_failed"
proof -
  define a1 where "a1 = a\<lparr>ag_remote := (if ag_remote a = (None, None)
      then (so_sess_id (sg_origin d), so_sess_version (sg_origin d))
      else (fst (ag_remote a), so_sess_version (sg_origin d)))\<rparr>"
  define a2 where "a2 = (update_rejected_medias a1 d)\<lparr>ag_prev_sdp := Some d\<rparr>"
  define a3 where "a3 = kms_sdp_agent_process_answer ops d a2"
  define a4 where "a4 = (SDP_AGENT_NEW_STATE a3 NEGOTIATED)\<lparr>ag_remote_description := Some d\<rparr>"
  have off: "ag_offer_handlers a3 = ag_offer_handlers a"
  proof -
    have "ag_offer_handlers (update_rejected_medias a1 d) = ag_offer_handlers a1"
      unfolding update_rejected_medias_def by (rule fold_keeps) auto
    moreover have "ag_offer_handlers (kms_sdp_agent_process_answer ops d b) = ag_offer_handlers b" for b
      unfolding kms_sdp_agent_process_answer_def
      by (rule fold_keeps) (auto simp: handler_process_answer_def with_world_store)
    ultimately show ?thesis by (simp add: a3_def a2_def a1_def)
  qed
  have st: "ag_state a3 = WAIT_NEGO"
    using frame_fields [OF frame_process_answer, of ops d a2] frame_fields [OF frame_update_rejected, of a1 d] assms(1)
    by (simp add: a3_def a2_def a1_def)
  have wf: "agent_wf a3"
    unfolding a3_def a2_def a1_def using assms(2) by (simp add: wf_process_answer wf_update_rejected)
  have neg: "negotiate_remote_description ops d a = (True, SDP_AGENT_NEW_STATE a3 NEGOTIATED)"
    using assms(1,3) by (simp add: negotiate_remote_description_def Let_def accepts_session_def a1_def a2_def a3_def)
  have set': "kms_sdp_agent_set_remote_description_impl ops d a =
      bind_result (process_answered_loop ops True 0 (sg_medias d) a4) (\<lambda>a'. Inr (True, a'))"
    by (simp add: kms_sdp_agent_set_remote_description_impl_def neg a4_def new_state_frame
        kms_sdp_agent_process_answered_description_def)
  have n4: "ag_offer_handlers a4 = ag_offer_handlers a" "\<forall>h \<in> set (ag_offer_handlers a). sh_negotiated (hnd a4 h)"
    "ag_state a4 = NEGOTIATED"
    using negotiated_state [OF wf] st off by (simp_all add: a4_def new_state_frame)
  show ?thesis
  proof (cases "length (sg_medias d) \<le> length (ag_offer_handlers a)")
    case True
    then obtain a' where a': "process_answered_loop ops True 0 (sg_medias d) a4 = Inr a'"
      using n4(1) by (simp add: process_answered_loop_result)
    have "ag_state a' = NEGOTIATED" using frame_fields [OF frame_process_answered_loop [OF a']] n4(3) by simp
    then show ?thesis
      using True a' process_answered_keeps [OF a'] n4 by (simp add: set')
  next
    case False
    then have "process_answered_loop ops True 0 (sg_medias d) a4 = Inl Assertion_failed"
      using n4(1) by (auto simp: process_answered_loop_result)
    then show ?thesis using False by (simp add: set')
  qed
qed


text \<open>The session is only touched at the beginning and at the end of making an offer.\<close>

lemma local_simps [simp]:
  "ag_local (upd_hnd f h a) = ag_local a" "ag_local (sdp_handler_ref h a) = ag_local a"
  "ag_local (sdp_handler_unref h a) = ag_local a" "ag_local (snd (with_world w a)) = ag_local a"
  "ag_local (replace_slot i h a) = ag_local a" "ag_local (kms_sdp_agent_merge_handler_func h a) = ag_local a"
  by (simp_all add: upd_hnd_def sdp_handler_ref_def sdp_handler_unref_def with_world_def case_prod_beta
      replace_slot_def Let_def kms_sdp_agent_merge_handler_func_def)

lemmas local_fold = fold_keeps [where g = ag_local]

lemma local_reuse_slots: "reuse_slots a = Some a' \<Longrightarrow> ag_local a' = ag_local a"
proof (induction a a' rule: reuse_slots.raw_induct [rotated, consumes 1, case_names turn])
  case (turn rec a a')
  then show ?case by (auto split: option.splits)
qed

lemma local_merge: "kms_sdp_agent_merge_offer_handlers a = Some a' \<Longrightarrow> ag_local a' = ag_local a"
  by (auto simp: kms_sdp_agent_merge_offer_handlers_def local_fold dest!: local_reuse_slots split: if_splits)

lemma local_make_media_offer:
  "kms_sdp_agent_make_media_offer ops a h offer i = Inr (ok, offer', a') \<Longrightarrow> ag_local a' = ag_local a"
proof -
  assume m: "kms_sdp_agent_make_media_offer ops a h offer i = Inr (ok, offer', a')"
  have f: "ag_local (snd (fire_on_offer ops h x b)) = ag_local b" for x and b :: "'a sdp_agent"
    by (auto simp: fire_on_offer_def split: option.split)
  have p: "ag_local b' = ag_local b" if "kms_sdp_agent_create_proper_media_offer ops b h = Inr (r, b')" for b b' :: "'a sdp_agent" and r
    using that by (auto simp: kms_sdp_agent_create_proper_media_offer_def handler_create_offer_def Let_def case_prod_beta
        split: if_splits option.splits dest!: arg_cong [where f = snd])
  show ?thesis
    using m by (auto simp: kms_sdp_agent_make_media_offer_def bind_result_Inr_iff case_prod_beta f
        dest!: p split: option.splits)
qed

lemma local_offer_loop: "create_media_offer_loop ops hs i offer a = Inr (ok, offer', a') \<Longrightarrow> ag_local a' = ag_local a"
proof (induction hs arbitrary: i offer a)
  case (Cons h hs)
  then show ?case by (auto simp: bind_result_Inr_iff dest!: local_make_media_offer split: if_splits)
qed simp

lemma offer_made:
  assumes "kms_sdp_agent_create_offer_impl ops now a = Some (Inr (Some offer, a'))" and "agent_inv a"
  shows "length (sg_medias offer) = length (ag_offer_handlers a')" and "so_sess_id (sg_origin offer) = fst (ag_local a')"
proof -
  have wf: "agent_wf a" and ds: "descriptions_ok a" using assms(2) by (simp_all add: agent_inv_def)
  have cm: "can_manipulate a" using create_offer_state [OF assms(1)] by simp
  obtain local start a2 where l: "session_of_offer now a = Inr local"
    and m: "kms_sdp_agent_merge_offer_handlers (fold sdp_handler_ref (ag_offer_handlers a) (a\<lparr>ag_local := local\<rparr>)) = Some a2"
    and o: "offer_of_medias ops (ag_offer_handlers a) start a2 = Inr (Some offer, a')"
    and st: "sg_origin start = kms_sdp_agent_origin_init a (fst local) (snd local)" "sg_medias start = []"
    using create_offer_cases [OF assms(1) cm] .
  obtain offer1 a3 offer2 a4 where lp: "create_media_offer_loop ops (ag_offer_handlers a2) 0 start a2 = Inr (True, offer1, a3)"
    and u: "kms_sdp_agent_update_session_version a3 offer1 = (offer2, a4)"
    and r: "offer = kms_sdp_agent_offer_processing_extensions a4 False offer2"
    and a': "a' = SDP_AGENT_NEW_STATE (fold sdp_handler_unref (ag_offer_handlers a) a4) LOCAL_OFFER"
    using offer_of_medias_cases [OF o] .
  have "agent_wf a2" by (rule wf_merge [OF m]) (use wf in \<open>auto intro!: wf_fold\<close>)
  then have w2: "distinct (ag_offer_handlers a2)" "set (ag_offer_handlers a2) \<subseteq> {..< store_size a2}"
    by (auto simp: agent_wf_def)
  note sp = create_media_offer_loop_spec [OF lp w2]
  show "length (sg_medias offer) = length (ag_offer_handlers a')"
    using sp st(2) update_version_fields [OF u] processing_keeps [of a4 False offer2]
    by (auto simp: r a' local_offer_state)
  have f3: "frame a3 = frame a"
    using frame_create_media_offer_loop [OF lp] frame_merge [OF m] by (simp add: frame_fold)
  have loc: "ag_local a3 = local"
    using local_offer_loop [OF lp] local_merge [OF m] by (simp add: local_fold)
  have org: "so_sess_id (sg_origin offer1) = fst local"
    using create_media_offer_loop_msg [OF lp] st by (auto simp: kms_sdp_agent_origin_init_def)
  have ld: "ag_local_description a3 = ag_local_description a" using frame_fields [OF f3] by simp
  have "so_sess_id (sg_origin offer2) = fst local \<and> fst (ag_local a4) = fst local"
  proof (cases "ag_local_description a")
    case None
    then show ?thesis using u ld loc org by (simp add: kms_sdp_agent_update_session_version_def)
  next
    case (Some d)
    then have "ag_state a = NEGOTIATED" using ds cm by (auto simp: descriptions_ok_def)
    then have "fst local = so_sess_id (sg_origin d)" using l Some by (auto simp: session_of_offer_def)
    then show ?thesis
      using u ld loc org Some by (auto simp: kms_sdp_agent_update_session_version_def Let_def
          kms_sdp_agent_increment_sess_version_def kms_sdp_agent_set_origin_def split: if_splits)
  qed
  moreover have "ag_local a' = ag_local a4" by (simp add: a' local_offer_state local_fold)
  ultimately show "so_sess_id (sg_origin offer) = fst (ag_local a')"
    using processing_keeps [of a4 False offer2] by (simp add: r)
qed

lemma offer_set:
  assumes "ag_state a = LOCAL_OFFER" and "so_sess_id (sg_origin d) = fst (ag_local a)"
  shows "kms_sdp_agent_set_local_description_impl ops d a =
    Inr (True, a\<lparr>ag_local_description := Some d, ag_state := WAIT_NEGO\<rparr>)"
  using assms by (simp add: kms_sdp_agent_set_local_description_impl_def Let_def SDP_AGENT_NEW_STATE_def
      kms_sdp_agent_commit_state_operations_def)

text \<open>
  C33: The offering side: an offer that was made can be set as local description; then every
  answer of the agreed session that has no more medias than the offer leads to NEGOTIATED, with
  every registered handler negotiated. An answer with more medias ends the program: the loop
  over its medias asserts that there is a handler for each.
\<close>

theorem offerer_completes:
  assumes "kms_sdp_agent_create_offer_impl ops now a = Some (Inr (Some offer, a1))" and "agent_inv a"
  shows "\<exists>a2. kms_sdp_agent_set_local_description_impl ops offer a1 = Inr (True, a2) \<and> ag_state a2 = WAIT_NEGO \<and>
    (\<forall>answer. accepts_session a2 answer \<longrightarrow>
       (if length (sg_medias answer) \<le> length (sg_medias offer)
        then \<exists>a3. kms_sdp_agent_set_remote_description_impl ops answer a2 = Inr (True, a3) \<and>
          ag_state a3 = NEGOTIATED \<and> ag_offer_handlers a3 = ag_offer_handlers a1 \<and>
          (\<forall>h \<in> set (ag_offer_handlers a3). sh_negotiated (hnd a3 h))
        else kms_sdp_agent_set_remote_description_impl ops answer a2 = Inl Assertion_failed))"
proof -
  have st: "ag_state a1 = LOCAL_OFFER" using create_offer_state [OF assms(1)] by simp
  have wf: "agent_wf a1" using wf_create_offer [OF assms(1)] assms(2) by (simp add: agent_inv_def)
  define a2 where "a2 = a1\<lparr>ag_local_description := Some offer, ag_state := WAIT_NEGO\<rparr>"
  note o = offer_made [OF assms]
  have set': "kms_sdp_agent_set_local_description_impl ops offer a1 = Inr (True, a2)"
    unfolding a2_def by (rule offer_set [OF st o(2)])
  have a2: "ag_state a2 = WAIT_NEGO" "agent_wf a2" "ag_offer_handlers a2 = ag_offer_handlers a1"
    using wf by (simp_all add: a2_def)
  show ?thesis
  proof (intro exI [of _ a2] conjI allI impI set' a2(1))
    fix answer assume "accepts_session a2 answer"
    from answer_received [OF a2(1,2) this, of ops] show "if length (sg_medias answer) \<le> length (sg_medias offer)
        then \<exists>a3. kms_sdp_agent_set_remote_description_impl ops answer a2 = Inr (True, a3) \<and>
          ag_state a3 = NEGOTIATED \<and> ag_offer_handlers a3 = ag_offer_handlers a1 \<and>
          (\<forall>h \<in> set (ag_offer_handlers a3). sh_negotiated (hnd a3 h))
        else kms_sdp_agent_set_remote_description_impl ops answer a2 = Inl Assertion_failed"
      by (auto simp: o(1) a2(3) split: if_splits)
  qed
qed

lemma local_create_handler: "kms_sdp_agent_create_media_handler a media m = (r, a') \<Longrightarrow> ag_local a' = ag_local a"
  by (auto simp: kms_sdp_agent_create_media_handler_def Let_def kms_sdp_agent_remove_media_handler_def split: option.splits)

lemma local_request: "kms_sdp_agent_request_handler ops a media = (r, a') \<Longrightarrow> ag_local a' = ag_local a"
proof -
  have w: "ag_local b' = ag_local b" if "with_world f b = (q, b')" for f q and b b' :: "'a sdp_agent"
    using local_simps(4) [of f b] that by simp
  have p: "ag_local b' = ag_local b" if "kms_sdp_agent_append_media_handler b mn m = (q, b')" for mn m q and b b' :: "'a sdp_agent"
    using that by (auto simp: kms_sdp_agent_append_media_handler_def dest: local_create_handler split: prod.splits option.splits)
  show "kms_sdp_agent_request_handler ops a media = (r, a') \<Longrightarrow> ag_local a' = ag_local a"
    by (auto simp: kms_sdp_agent_request_handler_def Let_def dest!: w p split: option.splits if_splits prod.splits)
qed

lemma local_handler_for_media:
  "kms_sdp_agent_get_handler_for_media ops a media offer = Inr (r, a') \<Longrightarrow> ag_local a' = ag_local a"
proof -
  have g: "ag_local b' = ag_local b" if "kms_sdp_agent_set_handler_group b h media offer = Inr b'" for h and b b' :: "'a sdp_agent"
    using that by (auto simp: kms_sdp_agent_set_handler_group_def split: list.splits option.splits if_splits)
  show "kms_sdp_agent_get_handler_for_media ops a media offer = Inr (r, a') \<Longrightarrow> ag_local a' = ag_local a"
    by (auto simp: kms_sdp_agent_get_handler_for_media_def bind_result_Inr_iff
        dest!: local_request g split: option.splits prod.splits)
qed

lemma local_reject: "reject_handler_for a media = Inr (h, a') \<Longrightarrow> ag_local a' = ag_local a"
  by (auto simp: reject_handler_for_def kms_sdp_agent_create_reject_media_handler_def
      dest!: local_create_handler split: prod.splits option.splits)

lemma local_select:
  "kms_sdp_agent_select_handler_to_answer_media ops a i media offer = Inr (r, a') \<Longrightarrow> ag_local a' = ag_local a"
  by (auto simp: kms_sdp_agent_select_handler_to_answer_media_def kms_sdp_agent_get_proper_handler_def Let_def
      kms_sdp_agent_replace_offered_handler_def bind_result_Inr_iff
      dest!: local_handler_for_media local_reject split: if_splits option.splits)

lemma local_create_media_answer:
  "create_media_answer ops offer media i answer a = Inr (ok, answer', a') \<Longrightarrow> ag_local a' = ag_local a"
proof -
  assume c: "create_media_answer ops offer media i answer a = Inr (ok, answer', a')"
  have f: "ag_local (snd (fire_on_answer ops h m b)) = ag_local b" for h m and b :: "'a sdp_agent"
    by (auto simp: fire_on_answer_def case_prod_beta split: option.split)
  have r: "ag_local (register_answer_handler ret h i b) = ag_local b" for ret h and b :: "'a sdp_agent"
    by (simp add: register_answer_handler_def Let_def)
  have h: "ag_local (snd (handler_create_answer ops h msg m b)) = ag_local b" for h msg m and b :: "'a sdp_agent"
    by (simp add: handler_create_answer_def case_prod_beta)
  have m: "ag_local b' = ag_local b" if "make_media_answer ops media offer found msg b = Inr (q, b')" for found msg q and b b' :: "'a sdp_agent"
    using that by (auto simp: make_media_answer_def Let_def bind_result_Inr_iff case_prod_beta h
        dest!: local_reject split: option.splits if_splits)
  show ?thesis
    using c by (auto simp: create_media_answer_def bind_result_Inr_iff Let_def case_prod_beta f r
        dest!: local_select m split: if_splits option.splits)
qed

lemma local_answer_loop: "answer_loop ops offer ms i answer a = Inr (ok, answer', a') \<Longrightarrow> ag_local a' = ag_local a"
proof (induction ms arbitrary: i answer a)
  case (Cons m ms)
  then show ?case by (auto simp: bind_result_Inr_iff dest!: local_create_media_answer split: if_splits)
qed simp

lemma local_create_answer:
  "kms_sdp_agent_create_answer_impl ops now a = Inr (Some answer, a') \<Longrightarrow>
     ag_local a' = (if fst (ag_local a) = None \<or> snd (ag_local a) = None
       then generate_sdp_session_description now else ag_local a)"
  by (auto simp: kms_sdp_agent_create_answer_impl_def kms_sdp_agent_generate_answer_def Let_def bind_result_Inr_iff
      dest!: local_answer_loop split: if_splits option.splits prod.splits)

lemma answer_set:
  assumes "kms_sdp_agent_create_answer_impl ops now a = Inr (Some answer, a1)" and "agent_wf a"
    and "store_size a1 \<le> 2 ^ 31"
  shows "\<exists>a2. kms_sdp_agent_set_local_description_impl ops answer a1 = Inr (True, a2) \<and> ag_state a2 = NEGOTIATED \<and>
    ag_local_description a2 = Some answer \<and> ag_remote_description a2 = ag_remote_description a \<and>
    (\<forall>h \<in> set (ag_offer_handlers a2). sh_negotiated (hnd a2 h))"
proof -
  note am = answer_shape [OF assms]
  note fr = frame_fields [OF create_answer_state(1) [OF assms(1)]]
  have st: "ag_state a1 = REMOTE_OFFER" using am fr by simp
  have loc: "so_sess_id (sg_origin answer) = fst (ag_local a1)"
    using am local_create_answer [OF assms(1)] by (simp add: generate_sdp_session_description_def Let_def)
  have len: "length (sg_medias answer) \<le> length (ag_offer_handlers a1)" using am by auto
  define b where "b = a1\<lparr>ag_local_description := Some answer, ag_prev_sdp := Some answer\<rparr>"
  let ?c = "SDP_AGENT_NEW_STATE b NEGOTIATED"
  have b: "agent_wf b" "ag_state b \<noteq> LOCAL_OFFER" "ag_offer_handlers b = ag_offer_handlers a1"
    using am st by (simp_all add: b_def)
  note n = negotiated_state [OF b(1,2)]
  obtain a2 where p: "process_answered_loop ops False 0 (sg_medias answer) ?c = Inr a2"
    using len n(1) b(3) by (simp add: process_answered_loop_result)
  have "kms_sdp_agent_set_local_description_impl ops answer a1 = Inr (True, a2)"
    using st loc p by (simp add: kms_sdp_agent_set_local_description_impl_def b_def
        kms_sdp_agent_process_answered_description_def)
  moreover have "ag_state a2 = NEGOTIATED \<and> ag_local_description a2 = Some answer \<and>
      ag_remote_description a2 = ag_remote_description a"
    using frame_fields [OF frame_process_answered_loop [OF p]] fr by (simp add: new_state_frame b_def)
  moreover have "sh_negotiated (hnd a2 h)" if "h \<in> set (ag_offer_handlers a2)" for h
    using that n process_answered_keeps [OF p] by simp
  ultimately show ?thesis by blast
qed

text \<open>
  C34: The answering side: an answer that was made can be set as local description, which ends
  the negotiation with every registered handler negotiated; the assertion on the medias holds.
\<close>

theorem answerer_completes:
  assumes "kms_sdp_agent_create_answer_impl ops now a = Inr (Some answer, a1)" and "agent_wf a"
    and "store_size a1 \<le> 2 ^ 31"
  shows "\<exists>a2. kms_sdp_agent_set_local_description_impl ops answer a1 = Inr (True, a2) \<and> ag_state a2 = NEGOTIATED \<and>
    ag_local_description a2 = Some answer \<and> ag_remote_description a2 = ag_remote_description a \<and>
    (\<forall>h \<in> set (ag_offer_handlers a2). sh_negotiated (hnd a2 h))"
  by (rule answer_set [OF assms])

text \<open>
  C1: A whole negotiation of two agents: one makes an offer, the other receives it and answers,
  and both take the answer, the other as its own and the one as the peer's, as long as it is of
  the agreed session. No call fails, both agents end up NEGOTIATED with every registered handler
  negotiated, and they hold the same two descriptions, with as many medias in both.
\<close>

theorem agents_agree:
  assumes "kms_sdp_agent_create_offer_impl ops now a = Some (Inr (Some offer, a1))" and "agent_inv a"
    and "kms_sdp_agent_set_remote_description_impl ops' offer b = Inr (True, b1)" and "agent_inv b"
    and "kms_sdp_agent_create_answer_impl ops' now' b1 = Inr (Some answer, b2)" and "store_size b2 \<le> 2 ^ 31"
    and "accepts_session a answer"
  shows "\<exists>a2 a3 b3. kms_sdp_agent_set_local_description_impl ops offer a1 = Inr (True, a2) \<and>
    kms_sdp_agent_set_local_description_impl ops' answer b2 = Inr (True, b3) \<and>
    kms_sdp_agent_set_remote_description_impl ops answer a2 = Inr (True, a3) \<and>
    ag_state a3 = NEGOTIATED \<and> ag_state b3 = NEGOTIATED \<and>
    ag_local_description a3 = Some offer \<and> ag_remote_description b3 = Some offer \<and>
    ag_local_description b3 = Some answer \<and> ag_remote_description a3 = Some answer \<and>
    length (sg_medias answer) = length (sg_medias offer) \<and>
    (\<forall>h \<in> set (ag_offer_handlers a3). sh_negotiated (hnd a3 h)) \<and>
    (\<forall>h \<in> set (ag_offer_handlers b3). sh_negotiated (hnd b3 h))"
proof -
  have wfb: "agent_wf b1" using wf_set_remote [OF assms(3)] assms(4) by (simp add: agent_inv_def)
  obtain b3 where b3: "kms_sdp_agent_set_local_description_impl ops' answer b2 = Inr (True, b3)" "ag_state b3 = NEGOTIATED"
    "ag_local_description b3 = Some answer" "ag_remote_description b3 = ag_remote_description b1"
    "\<forall>h \<in> set (ag_offer_handlers b3). sh_negotiated (hnd b3 h)"
    using answer_set [OF assms(5) wfb assms(6)] by blast
  have rb: "ag_remote_description b1 = Some offer" using set_remote_state [OF assms(3)] by simp
  then have len: "length (sg_medias answer) = length (sg_medias offer)"
    using answer_shape [OF assms(5) wfb assms(6)] by auto
  have st: "ag_state a1 = LOCAL_OFFER" "ag_remote a1 = ag_remote a"
    using create_offer_state [OF assms(1)] by simp_all
  define a2 where "a2 = a1\<lparr>ag_local_description := Some offer, ag_state := WAIT_NEGO\<rparr>"
  note o = offer_made [OF assms(1,2)]
  have a2: "kms_sdp_agent_set_local_description_impl ops offer a1 = Inr (True, a2)"
    unfolding a2_def by (rule offer_set [OF st(1) o(2)])
  have wf: "agent_wf a2" "ag_state a2 = WAIT_NEGO" "accepts_session a2 answer"
    using wf_create_offer [OF assms(1)] assms(2,7) st(2)
    by (simp_all add: agent_inv_def a2_def accepts_session_def valid_remote_session_def)
  obtain a3 where a3: "kms_sdp_agent_set_remote_description_impl ops answer a2 = Inr (True, a3)"
    "ag_state a3 = NEGOTIATED" "\<forall>h \<in> set (ag_offer_handlers a3). sh_negotiated (hnd a3 h)"
    using answer_received [OF wf(2,1,3), of ops] len o(1) by (auto simp: a2_def)
  have "ag_local_description a3 = Some offer" "ag_remote_description a3 = Some answer"
    using set_remote_state [OF a3(1)] by (simp_all add: a2_def)
  then show ?thesis using a2 a3 b3 rb len by auto
qed


section \<open>Concrete negotiations\<close>

text \<open>A negotiated agent with an audio handler to which one for video was added.\<close>

definition plain_media_handler :: "int \<Rightarrow> media_handler" where
  "plain_media_handler hid = \<lparr>mh_reject = False, mh_proto = Some ''RTP/AVP'', mh_addr = None,
     mh_addr_type = None, mh_bwtypes = [], mh_id = hid, mh_parent = True\<rparr>"

definition line_of :: "string \<Rightarrow> sdp_media" where
  "line_of kind = sdp_media_new\<lparr>sm_media := Some kind, sm_port := 9\<rparr>"

definition duo :: "unit sdp_agent" where
  "duo = (kms_sdp_agent_new ())\<lparr>ag_state := NEGOTIATED, ag_hids := 2, ag_handlers := [0, 1], ag_offer_handlers := [0],
     ag_local_description := Some (sdp_message_new\<lparr>sg_medias := [line_of ''audio'']\<rparr>),
     ag_remote_description := Some (sdp_message_new\<lparr>sg_medias := [line_of ''audio'']\<rparr>),
     ag_prev_sdp := Some (sdp_message_new\<lparr>sg_medias := [line_of ''audio'']\<rparr>),
     ag_store := [(sdp_handler_new 0 (Some ''audio'') 0 False)\<lparr>sh_refs := 2, sh_negotiated := True, sh_offer := True\<rparr>,
       sdp_handler_new 1 (Some ''video'') 1 False],
     ag_media_handlers := [plain_media_handler 0, plain_media_handler 1]\<rparr>"

lemma duo_inv: "agent_inv duo"
  by (simp add: agent_inv_def agent_wf_def descriptions_ok_def duo_def kms_sdp_agent_new_def sdp_handler_new_def
      less_2_cases_iff numeral_2_eq_2 less_Suc_eq)

lemma duo_usable: "new_handlers_usable duo"
  by (simp add: new_handlers_usable_def reusable_def duo_def kms_sdp_agent_new_def sdp_handler_new_def)

lemma update_version_snd:
  "ag_offer_handlers (snd (kms_sdp_agent_update_session_version a msg)) = ag_offer_handlers a"
  "ag_handlers (snd (kms_sdp_agent_update_session_version a msg)) = ag_handlers a"
  "ag_store (snd (kms_sdp_agent_update_session_version a msg)) = ag_store a"
  by (simp_all add: kms_sdp_agent_update_session_version_def kms_sdp_agent_increment_sess_version_def Let_def split: option.split)

text \<open>What is known of the agent after its offer.\<close>

definition duo_offered :: "unit sdp_agent \<Rightarrow> bool" where
  "duo_offered a \<longleftrightarrow> ag_handlers a = [0, 1] \<and> ag_offer_handlers a = [0, 1] \<and>
     (\<exists>s0 s1. ag_store a = [s0, s1] \<and> sh_id s0 = 0 \<and> \<not> sh_disabled s0 \<and>
       sh_refs s1 = 2 \<and> sh_id s1 = 1 \<and> \<not> sh_negotiated s1 \<and> \<not> sh_disabled s1)"

lemma duo_offer:
  obtains offer a' where "kms_sdp_agent_create_offer_impl idle_ops 0 duo = Some (Inr (Some offer, a'))"
    and "duo_offered a'"
proof -
  have "\<exists>offer a'. kms_sdp_agent_create_offer_impl idle_ops 0 duo = Some (Inr (Some offer, a')) \<and> duo_offered a'"
    unfolding kms_sdp_agent_create_offer_impl_def kms_sdp_agent_merge_offer_handlers_def
    by (simp add: session_of_offer_def duo_def kms_sdp_agent_new_def Let_def, subst reuse_slots.simps,
      simp add: reusable_slot_def sdp_handler_new_def,
      simp add: kms_sdp_agent_merge_handler_func_def sdp_handler_ref_def upd_hnd_def offer_of_medias_def
        kms_sdp_agent_create_media_offer_def kms_sdp_agent_make_media_offer_def
        kms_sdp_agent_create_proper_media_offer_def handler_create_offer_def slist_index_def
        plain_media_handler_def with_world_def idle_ops_def fire_on_offer_def Let_def,
      simp add: case_prod_beta local_offer_state update_version_snd duo_offered_def sdp_handler_unref_def upd_hnd_def)
  then show ?thesis using that by blast
qed

lemma duo_negotiated: "ag_state duo = NEGOTIATED" "ag_offer_handlers duo = [0]" "agent_wf duo"
  using duo_inv by (simp_all add: agent_inv_def) (simp_all add: duo_def)

lemma create_offer_ends_witness: "kms_sdp_agent_create_offer_impl idle_ops 0 duo \<noteq> None"
  by (rule create_offer_ends [OF duo_usable])

lemma offer_keeps_places_witness:
  "\<exists>offer a'. kms_sdp_agent_create_offer_impl idle_ops 0 duo = Some (Inr (Some offer, a')) \<and>
     length (sg_medias offer) = 2 \<and> slots_kept duo [0] [0, 1]"
proof (rule duo_offer)
  fix offer a' assume o: "kms_sdp_agent_create_offer_impl idle_ops 0 duo = Some (Inr (Some offer, a'))"
    "duo_offered a'"
  show ?thesis
    using offer_keeps_places [OF o(1) duo_negotiated(3,1)] o duo_negotiated(2) by (auto simp: duo_offered_def)
qed


lemma offerer_completes_witness:
  "\<exists>offer a1 a2. kms_sdp_agent_create_offer_impl idle_ops 0 duo = Some (Inr (Some offer, a1)) \<and>
     kms_sdp_agent_set_local_description_impl idle_ops offer a1 = Inr (True, a2) \<and> ag_state a2 = WAIT_NEGO"
proof (rule duo_offer)
  fix offer a' assume o: "kms_sdp_agent_create_offer_impl idle_ops 0 duo = Some (Inr (Some offer, a'))"
  show ?thesis using offerer_completes [OF o duo_inv] o by blast
qed

text \<open>An agent with one handler that was offered an audio and, with port 0, a video media.\<close>

definition callee :: "unit sdp_agent" where
  "callee = (kms_sdp_agent_new ())\<lparr>ag_state := REMOTE_OFFER, ag_hids := 1, ag_handlers := [0],
     ag_remote_description := Some (sdp_message_new\<lparr>sg_medias := [line_of ''audio'', (line_of ''video'')\<lparr>sm_port := 0\<rparr>]\<rparr>),
     ag_store := [sdp_handler_new 0 (Some ''audio'') 0 False],
     ag_media_handlers := [plain_media_handler 0]\<rparr>"

lemma callee_inv: "agent_inv callee"
  by (simp add: agent_inv_def agent_wf_def descriptions_ok_def callee_def kms_sdp_agent_new_def sdp_handler_new_def)

lemma callee_answer:
  obtains answer a' where "kms_sdp_agent_create_answer_impl idle_ops 0 callee = Inr (Some answer, a')"
    and "store_size a' = 2"
proof -
  have "\<exists>answer a'. kms_sdp_agent_create_answer_impl idle_ops 0 callee = Inr (Some answer, a') \<and> store_size a' = 2"
    unfolding kms_sdp_agent_create_answer_impl_def kms_sdp_agent_generate_answer_def
    by (simp add: callee_def kms_sdp_agent_new_def Let_def sdp_utils_intersect_session_attributes_def
        sdp_message_new_def kms_sdp_agent_exec_answer_session_extensions_def,
      simp add: create_media_answer_def kms_sdp_agent_select_handler_to_answer_media_def idle_ops_def
        kms_sdp_agent_get_handler_for_media_def sdp_handler_new_def line_of_def kms_sdp_group_manager_new_def
        kms_sdp_group_manager_is_handler_valid_for_groups_impl_def kms_sdp_group_manager_get_group_impl_def
        sdp_media_new_def attribute_val_cases make_media_answer_def handler_create_answer_def plain_media_handler_def
        with_world_def Let_def register_answer_handler_def is_internal_handler_def sdp_handler_ref_def upd_hnd_def
        fire_on_answer_def kms_sdp_agent_request_handler_def,
      simp add: reject_handler_for_def kms_sdp_agent_create_reject_media_handler_def Let_def upd_hnd_def
        kms_sdp_agent_create_media_handler_def kms_sdp_media_handler_set_parent_def kms_sdp_reject_media_handler_new_def
        kms_sdp_media_handler_set_id_impl_def sdp_handler_new_def kms_sdp_group_manager_add_handler_impl_def
        handler_create_answer_def reject_answer_line attribute_val_cases fire_on_answer_def register_answer_handler_def
        is_internal_handler_def)
  then show ?thesis using that by blast
qed


lemma answerer_completes_witness:
  "\<exists>answer a1 a2. kms_sdp_agent_create_answer_impl idle_ops 0 callee = Inr (Some answer, a1) \<and>
     kms_sdp_agent_set_local_description_impl idle_ops answer a1 = Inr (True, a2) \<and> ag_state a2 = NEGOTIATED"
proof (rule callee_answer)
  fix answer a' assume o: "kms_sdp_agent_create_answer_impl idle_ops 0 callee = Inr (Some answer, a')" "store_size a' = 2"
  show ?thesis
    using answerer_completes [OF o(1)] o callee_inv by (fastforce simp: agent_inv_def)
qed

text \<open>Two new agents with one audio handler each.\<close>

definition newcomer :: "unit sdp_agent" where
  "newcomer = (kms_sdp_agent_new ())\<lparr>ag_hids := 1, ag_handlers := [0],
     ag_store := [sdp_handler_new 0 (Some ''audio'') 0 False], ag_media_handlers := [plain_media_handler 0]\<rparr>"

lemma newcomer_inv: "agent_inv newcomer"
  by (simp add: agent_inv_def agent_wf_def descriptions_ok_def newcomer_def kms_sdp_agent_new_def sdp_handler_new_def)

definition newcomer_offer :: sdp_message where
  "newcomer_offer = (kms_sdp_agent_set_origin (kms_sdp_agent_set_default_session_attributes sdp_message_new)
     (kms_sdp_agent_origin_init newcomer (fst (generate_sdp_session_description 0)) (snd (generate_sdp_session_description 0))))
     \<lparr>sg_medias := [sdp_media_new\<lparr>sm_media := Some ''audio'', sm_port := 1\<rparr>]\<rparr>"

lemma newcomer_offers:
  "\<exists>a'. kms_sdp_agent_create_offer_impl idle_ops 0 newcomer = Some (Inr (Some newcomer_offer, a'))"
  unfolding kms_sdp_agent_create_offer_impl_def kms_sdp_agent_merge_offer_handlers_def
  by (simp add: session_of_offer_def newcomer_def kms_sdp_agent_new_def Let_def sdp_handler_ref_def upd_hnd_def offer_of_medias_def
        kms_sdp_agent_create_media_offer_def kms_sdp_agent_make_media_offer_def sdp_handler_new_def
        kms_sdp_agent_create_proper_media_offer_def handler_create_offer_def slist_index_def
        plain_media_handler_def with_world_def idle_ops_def fire_on_offer_def kms_sdp_agent_update_session_version_def
        kms_sdp_agent_offer_processing_extensions_def newcomer_offer_def add_media_def,
      simp add: newcomer_def kms_sdp_agent_new_def kms_sdp_agent_origin_init_def kms_sdp_agent_set_origin_def
        kms_sdp_agent_set_default_session_attributes_def sdp_message_new_def)

lemma newcomer_answers:
  obtains answer b1 b2 where "kms_sdp_agent_set_remote_description_impl idle_ops newcomer_offer newcomer = Inr (True, b1)"
   and "kms_sdp_agent_create_answer_impl idle_ops 0 b1 = Inr (Some answer, b2)" and "store_size b2 = 1"
proof -
  define b1 where "b1 = newcomer\<lparr>ag_remote := (so_sess_id (sg_origin newcomer_offer), so_sess_version (sg_origin newcomer_offer)),
    ag_state := REMOTE_OFFER, ag_remote_description := Some newcomer_offer\<rparr>"
  have 1: "kms_sdp_agent_set_remote_description_impl idle_ops newcomer_offer newcomer = Inr (True, b1)"
    by (simp add: kms_sdp_agent_set_remote_description_impl_def negotiate_remote_description_def Let_def
        newcomer_def kms_sdp_agent_new_def SDP_AGENT_NEW_STATE_def kms_sdp_agent_commit_state_operations_def b1_def)
  have o: "sg_attrs newcomer_offer = []" "sg_medias newcomer_offer = [sdp_media_new\<lparr>sm_media := Some ''audio'', sm_port := 1\<rparr>]"
    by (simp_all add: newcomer_offer_def kms_sdp_agent_set_origin_def kms_sdp_agent_set_default_session_attributes_def sdp_message_new_def)
  have 2: "\<exists>answer b2. kms_sdp_agent_create_answer_impl idle_ops 0 b1 = Inr (Some answer, b2) \<and> store_size b2 = 1"
    unfolding kms_sdp_agent_create_answer_impl_def kms_sdp_agent_generate_answer_def
    by (simp add: b1_def newcomer_def kms_sdp_agent_new_def Let_def sdp_utils_intersect_session_attributes_def
        sdp_message_new_def kms_sdp_agent_exec_answer_session_extensions_def o,
      simp add: create_media_answer_def kms_sdp_agent_select_handler_to_answer_media_def idle_ops_def
        kms_sdp_agent_get_handler_for_media_def sdp_handler_new_def kms_sdp_group_manager_new_def
        kms_sdp_group_manager_is_handler_valid_for_groups_impl_def kms_sdp_group_manager_get_group_impl_def
        sdp_media_new_def attribute_val_cases make_media_answer_def handler_create_answer_def plain_media_handler_def
        with_world_def Let_def register_answer_handler_def is_internal_handler_def sdp_handler_ref_def upd_hnd_def
        fire_on_answer_def kms_sdp_agent_request_handler_def)
  then show ?thesis using 1 that by blast
qed

lemma agents_agree_witness:
  "\<exists>answer (a3 :: unit sdp_agent) (b3 :: unit sdp_agent). ag_state a3 = NEGOTIATED \<and> ag_state b3 = NEGOTIATED \<and>
     ag_local_description a3 = Some newcomer_offer \<and> ag_remote_description b3 = Some newcomer_offer \<and>
     ag_local_description b3 = Some answer \<and> ag_remote_description a3 = Some answer"
proof -
  obtain a1 where o: "kms_sdp_agent_create_offer_impl idle_ops 0 newcomer = Some (Inr (Some newcomer_offer, a1))"
    using newcomer_offers by blast
  obtain answer b1 b2 where a: "kms_sdp_agent_set_remote_description_impl idle_ops newcomer_offer newcomer = Inr (True, b1)"
    "kms_sdp_agent_create_answer_impl idle_ops 0 b1 = Inr (Some answer, b2)" "store_size b2 = 1"
    using newcomer_answers .
  have "accepts_session newcomer answer" by (simp add: accepts_session_def newcomer_def kms_sdp_agent_new_def)
  moreover have "store_size b2 \<le> 2 ^ 31" using a(3) by simp
  ultimately show ?thesis using agents_agree [OF o newcomer_inv a(1) newcomer_inv a(2)] by blast
qed

text \<open>
  A cancelled offer leaves its handlers registered. A handler that was added for it and is
  removed afterwards is still offered; removing its id again succeeds and drops the reference of
  the list of offered handlers, so that the list holds a handler that is freed.
\<close>

theorem cancelled_offer_dangles:
  "\<exists>offer a1 a2 a3 a4. kms_sdp_agent_create_offer_impl idle_ops 0 duo = Some (Inr (Some offer, a1)) \<and>
     kms_sdp_agent_cancel_offer_impl a1 = (True, a2) \<and>
     kms_sdp_agent_remove_proto_handler a2 1 = (True, a3) \<and> 1 \<notin> set (ag_handlers a3) \<and> 1 \<in> set (ag_offer_handlers a3) \<and>
     kms_sdp_agent_remove_proto_handler a3 1 = (True, a4) \<and> 1 \<in> set (ag_offer_handlers a4) \<and> sh_refs (hnd a4 1) = 0"
proof (rule duo_offer)
  fix offer a1 assume o: "kms_sdp_agent_create_offer_impl idle_ops 0 duo = Some (Inr (Some offer, a1))" and d: "duo_offered a1"
  have st: "ag_state a1 = LOCAL_OFFER" "ag_prev_sdp a1 \<noteq> None"
    using create_offer_state [OF o] by (simp_all add: duo_def)
  obtain s0 s1 where s: "ag_store a1 = [s0, s1]" "sh_id s0 = 0" "\<not> sh_disabled s0" "sh_refs s1 = 2" "sh_id s1 = 1"
    "\<not> sh_negotiated s1" "\<not> sh_disabled s1"
    and l: "ag_handlers a1 = [0, 1]" "ag_offer_handlers a1 = [0, 1]"
    using d by (auto simp: duo_offered_def)
  have "kms_sdp_agent_remove_disabled_medias a1 = a1"
    by (subst kms_sdp_agent_remove_disabled_medias.simps) (simp add: l s)
  then have c: "kms_sdp_agent_cancel_offer_impl a1 = (True, a1\<lparr>ag_state := NEGOTIATED\<rparr>)"
    using st by (simp add: kms_sdp_agent_cancel_offer_impl_def SDP_AGENT_NEW_STATE_def
        kms_sdp_agent_commit_state_operations_def)
  let ?a2 = "a1\<lparr>ag_state := NEGOTIATED\<rparr>"
  let ?a3 = "snd (kms_sdp_agent_remove_proto_handler ?a2 1)"
  let ?a4 = "snd (kms_sdp_agent_remove_proto_handler ?a3 1)"
  note defs = kms_sdp_agent_remove_proto_handler_def kms_sdp_agent_get_handler_def Let_def
    kms_sdp_agent_remove_media_handler_def sdp_handler_unref_def upd_hnd_def
  have 3: "kms_sdp_agent_remove_proto_handler ?a2 1 = (True, ?a3)" "ag_handlers ?a3 = [0]" "ag_offer_handlers ?a3 = [0, 1]"
    "ag_store ?a3 = [s0, s1\<lparr>sh_refs := 1\<rparr>]" "ag_state ?a3 = NEGOTIATED"
    using s l by (simp_all add: defs)
  have 4: "kms_sdp_agent_remove_proto_handler ?a3 1 = (True, ?a4)" "ag_offer_handlers ?a4 = [0, 1]" "sh_refs (hnd ?a4 1) = 0"
    using 3(2-) s by (simp_all add: kms_sdp_agent_remove_proto_handler_def [of ?a3] kms_sdp_agent_get_handler_def Let_def
    kms_sdp_agent_remove_media_handler_def sdp_handler_unref_def upd_hnd_def)
  show ?thesis
    by (intro exI [of _ offer] exI [of _ a1] exI [of _ ?a2] exI [of _ ?a3] exI [of _ ?a4] conjI o c 3(1) 4(1) 4(3))
      (simp_all add: 3(2,3) 4(2))
qed

end
