(* ===== verification/Spec2Isabelle.thy ===== *)
theory Spec2Isabelle
  imports KmsPrelude KmsList RembCongestion RembRemote RtcpDemux DataSession BitrateFilter
    PayloadManager PadProbes SdpRtpAvpf SdpSctp SdpExts IceCandidate Dispatchers MediaElement MediaFlow AgnosticBin Recorder SdpNegotiation
begin

text \<open>
  A model of the core logic of Kurento Media Server (\<open>src/server\<close>, the C code of the GStreamer
  plugins) with the theorems that make it correct. A definition has the name of the C function
  it translates; a helper that is a part of one is named after what that part does.

  The parts, and how they work together.
  \<^item> Base: \<open>KmsPrelude\<close> (integers of C, faults, hash tables, the locale of machines that keep an
    invariant and the locale of codecs), \<open>GstValue\<close> (structures of GStreamer), \<open>CFloat\<close> (single
    precision arithmetic), \<open>GstSdp\<close> (C strings and the structs of an SDP description).
  \<^item> \<open>KmsList\<close>: reference counted structs and keyed lists (\<open>kmsrefstruct.c\<close>, \<open>kmslist.c\<close>).
  \<^item> Congestion control with REMB. A receiver estimates what it can take (\<open>RembLocal\<close>: \<open>kmsremb.c\<close>
    with the statistics of \<open>rtpbin\<close>), writes it into a RTCP packet (\<open>RembPacket\<close>: \<open>kmsrtcp.c\<close>) and
    announces it in intervals (\<open>RembCongestion\<close>). The sender reads the packet (\<open>RembRemote\<close>:
    \<open>kmsremb.c\<close>), clamps it and sends an event towards its encoders, where the manager of events
    keeps the minimum over the SSRCs (\<open>RembEvents\<close>: \<open>kmsutils.c\<close>).
  \<^item> \<open>RtcpDemux\<close> (\<open>kmsrtcpdemux.c\<close>): RTCP packets to the pads of the sessions they are about.
  \<^item> Data channels: the messages (\<open>DataProto\<close>), the state machine of a channel (\<open>DataChannel\<close>:
    \<open>kmswebrtcdatachannelbin.c\<close>) and the session that gives out streams and keeps the channels
    (\<open>DataSession\<close>: \<open>kmswebrtcdatasessionbin.c\<close>, \<open>kmswebrtcdatachannel.c\<close>).
  \<^item> Negotiation of sessions. \<open>SdpUtils\<close> (\<open>sdp_utils.c\<close>) works on descriptions; \<open>SdpGroups\<close>
    (\<open>kmssdpgroupmanager.c\<close>, \<open>kmssdpbasegroup.c\<close>, \<open>kmssdpbundlegroup.c\<close>) bundles medias and gives
    them their ids; \<open>SdpMediaHandler\<close> (\<open>kmssdpmediahandler.c\<close> and the handler that rejects), its
    subclass \<open>SdpRtp\<close> (\<open>kmssdprtpmediahandler.c\<close>), the subclass \<open>SdpRtpAvp\<close> of that
    (\<open>kmssdprtpavpmediahandler.c\<close>, with the payload types of \<open>PayloadManager\<close>:
    \<open>kmssdppayloadmanager.c\<close>) and those below it in \<open>SdpRtpAvpf\<close> (\<open>kmssdprtpavpfmediahandler.c\<close>:
    feedback, and the secure profiles) offer and answer one media; \<open>SdpAgent\<close> (\<open>kmssdpagent.c\<close>) makes the
    offer and the answer of a session out of its handlers and follows the state of the negotiation.
    \<open>SdpSctp\<close> (\<open>kmssdpsctpmediahandler.c\<close>) is the handler of data channels, \<open>SdpExts\<close> the extensions
    for SDES keys, redundancy and forward error correction (\<open>kmssdpsdesext.c\<close>,
    \<open>kmssdpredundantext.c\<close>, \<open>kmssdpulpfecext.c\<close>).
  \<^item> \<open>IceCandidate\<close> (\<open>kmsicecandidate.c\<close>): candidates as attributes and back, and what is changed in
    them when an external address is announced.
  \<^item> Buffers that pass an element: \<open>BitrateFilter\<close> (\<open>kmsbitratefilter.c\<close>) and \<open>PadProbes\<close>
    (\<open>kmsutils.c\<close>: time stamps and key frames).
  \<^item> Elements and hubs. \<open>MediaElement\<close> (\<open>kmselement.c\<close>, probes of \<open>kmsstats.c\<close>): the pads of an
    element that are requested, wait for an output and are released, the properties of the video
    encoders and the latencies; \<open>MediaFlow\<close>: whether media flows. \<open>BaseHub\<close> (\<open>kmsbasehub.c\<close>): the ports
    of a hub, its ghost pads and the internal pads they stand for; its subclasses in \<open>Dispatchers\<close>
    (\<open>kmsdispatcher.c\<close>, \<open>kmsdispatcheronetomany.c\<close>, \<open>kmsselectablemixer.c\<close>). \<open>TreeBins\<close>: which element
    encodes, decodes, parses or pays (\<open>kmsenctreebin.c\<close>, \<open>kmsdectreebin.c\<close>, \<open>kmsparsetreebin.c\<close>,
    \<open>kmsrtppaytreebin.c\<close>), the bitrate an encoder is set to and the one a parser announces.
    \<open>AgnosticBin\<close> (\<open>kmsagnosticbin.c\<close>, \<open>kmstreebin.c\<close>): the tree of these bins behind every element,
    made on demand so that each peer gets a format it takes.
  \<^item> \<open>Recorder\<close> (\<open>kmsuriendpoint.c\<close>, \<open>kmsrecorderendpoint.c\<close>, \<open>kmsksrmuxer.c\<close>, \<open>kmsavmuxer.c\<close>): start,
    pause and stop of a recorder against the messages of its pipeline, its sinks and the times of
    the buffers it records.

  State and operations. A struct is a record with a field for each of its fields, an enumeration
  a datatype; an operation takes the state and returns it changed, with its result and, where it
  acts on the outside (pushes a buffer, emits a signal, calls back), the list of these outputs.
  Objects that are shared live in a list that is indexed by their address (channels in
  \<open>DataSession\<close>, handlers in \<open>SdpAgent\<close>), with their counts of references. An integer has the
  width of its C type and wraps around; where C leaves the result undefined, an operation
  returns \<open>Inl\<close> of a \<open>c_fault\<close>. A GLib list is a list, a hash table an association list whose
  order stands for the unspecified order of iteration. Calls are atomic, as the mutexes of the
  code make them; \<open>MediaFlow\<close>, whose code has no mutex, interleaves threads at their atomic steps,
  and a request of \<open>Recorder\<close> takes the steps of other threads where it lets the mutex go.

  What the lemmas show, by theory.
  \<^item> \<open>KmsList\<close>: every node is freed once, a struct when its last reference goes.
  \<^item> \<open>RembPacket\<close>: what is written is read; above the largest bitrate writing is undefined.
  \<^item> \<open>RembEvents\<close>: the manager refines a table of fresh reports; \<open>RembCongestion\<close>: bounds, rate and
    definedness of the estimation; \<open>RembRemote\<close>: the effect of a received packet. This theory puts
    them together: the bitrate one endpoint announces is the one the other applies.
  \<^item> \<open>RtcpDemux\<close>: routing, and the life of a pad. \<open>DataChannel\<close>: handshake, states and what is
    delivered; \<open>DataSession\<close>: two sessions that open a channel to each other.
  \<^item> \<open>SdpUtils\<close>, \<open>SdpGroups\<close>, \<open>SdpMediaHandler\<close>, \<open>SdpRtp\<close>, \<open>SdpRtpAvp\<close>, \<open>SdpRtpAvpf\<close>: directions
    are mirrored, media ids are never shared, groups, formats and feedback of an answer are exactly
    the common ones, rejection is port 0. \<open>SdpSctp\<close>: the formats and ports of data channels;
    \<open>SdpExts\<close>: written keys are read, and a key is answered with the offered tag; \<open>IceCandidate\<close>:
    what is written is read, and an external address replaces every address.
  \<^item> \<open>SdpSession\<close>: the agent refines the state machine its source draws (\<open>nego_step\<close>), stays
    well-formed over any run, answers every offered media in its place and keeps the places of the
    medias in later offers. \<open>SdpNegotiation\<close>: making an offer ends, and an offer and its answer
    bring two agents to the same two descriptions.
  \<^item> \<open>PayloadManager\<close>, \<open>BitrateFilter\<close>, \<open>PadProbes\<close>: one payload type per codec, the window of one
    second, increasing time stamps and complete key frames.
  \<^item> \<open>MediaElement\<close>: a requested source pad waits exactly until its output exists, and the video
    encoders always work with the bitrates of the element; \<open>MediaFlow\<close>: media flows while buffers
    come, and no signal is lost in any interleaving. \<open>BaseHub\<close>: the tables of a hub fit together
    and the order of linking does not matter; \<open>Dispatchers\<close>: a dispatcher refines a table of
    routes, one port feeds all, the mixer mixes what is connected (and keeps its lock).
    \<open>TreeBins\<close>: an encoder refines a rate that follows targets, limits, reports and tags.
    \<open>AgnosticBin\<close>: pads are fed from the input over any run, formats are shared, transcoding is told
    truthfully, and calls return (\<open>agnostic_run_returns\<close>).
  \<^item> \<open>Recorder\<close>: the signals of a recorder tell its state and stop is the last (\<open>life_ok\<close> over any
    calls and threads), an accepted stop completes, what is recorded is ordered in time.
  A theorem about an error states the input that leads to it and what happens.

  Bounds and fuel. \<open>find_exponent\<close> has the 64 rounds of the C loop; \<open>pick_loop\<close> has one round more
  than there are channels, \<open>assign_loop\<close> one more than there are media ids in use and
  \<open>pt_from_list\<close> 33 for the 32 dynamic payload types: by pigeonhole each ends before its fuel does,
  which is proved where it is used. Two loops and a recursion can run forever in C and are partial functions
  with \<open>None\<close> for that: \<open>rtpmap_codec_loop\<close> (\<open>rtpmap_codec_returns\<close> says when), \<open>reuse_slots\<close>
  (\<open>create_offer_ends\<close>) and \<open>kms_agnostic_bin2_find_or_create_bin_for_caps\<close> (\<open>agnostic_run_returns\<close>). Theorems about the SDP agent assume that fewer than \<open>2 ^ 31\<close> handlers were
  ever made, where their ids would wrap around.

  What is a parameter. GStreamer and GLib are outside of \<open>src\<close>: the clock, the statistics of an
  RTP session, growing and mapping a packet, splitting a buffer into RTCP packets, the outcome of
  pushing a buffer, matching a codec name, resolving the
  host name in an ICE candidate. The SDP agent has the virtual operations of its media
  handlers and the callbacks of its user as arguments (\<open>media_ops\<close>); they see the groups and the
  state of their owner, not the agent, so a callback that calls the agent again is not covered.
  Memory is never short.

  Not modelled. The extension for connections and the agents of ICE (over \<open>libnice\<close>). Endpoints,
  the composite mixer, the player and the HTTP endpoints build pipelines out of
  GStreamer elements. Test elements, plugin registration, the main loop, the
  parser over \<open>libvpx\<close> and the examples over OpenCV are glue or rest on libraries that are not
  here. The servers of module-core in C++ are not covered.
\<close>

section \<open>From one endpoint to the other\<close>

lemma marshalled_grew:
  assumes "kms_rtcp_psfb_afb_remb_marshall_packet grow blank_fb p ssrc = Inr (pkt, True)"
  shows "grow (2 + ucast (rp_n_ssrcs p)) (blank_fb\<lparr>fb_type := RTCP_PSFB_TYPE_AFB,
      fb_sender_ssrc := ssrc, fb_media_ssrc := 0\<rparr>) \<noteq> None"
  using assms
  by (auto simp: kms_rtcp_psfb_afb_remb_marshall_packet_def Let_def bind_result_Inr_iff fb_fci_length_def
      blank_fb_def split: option.split_asm)

text \<open>The packet a call sends, as the reader of the other side finds it.\<close>

lemma sent_packet_read:
  assumes sent: "kms_remb_local_on_sending_rtcp env buf rl = Inr (rl', buf @ [pkt], True)"
    and law: "grow_law (se_grow env)" and junk: "length (rp_ssrcs (se_junk env)) = REMB_MAX_SSRCS_COUNT"
    and few: "length (rl_sessions rl) \<le> REMB_MAX_SSRCS_COUNT" and top: "unat (rl_remb_sent rl') \<le> REMB_TOP"
    and q: "length (rp_ssrcs q) = REMB_MAX_SSRCS_COUNT"
  shows "\<exists>p e. remb_message (fb_fci pkt) q p \<and> packet_ssrcs p = map rs_ssrc (rl_sessions rl) \<and>
    unat (rp_bitrate p) = unat (rl_remb_sent rl') div 2 ^ e * 2 ^ e \<and>
    (\<forall>j < e. 262143 * 2 ^ j < unat (rl_remb_sent rl'))"
  using sent
proof (cases rule: sending_cases)
  case quiet
  then show ?thesis by simp
next
  case (sent rl1 rl2 bitrate rl4 p pkt' ok)
  obtain ev where ev: "rl2 = rl1\<lparr>rl_events := ev\<rparr>" using announced_bitrate_spec(4) [OF sent(4)] by blast
  have ss: "map rs_ssrc (rl_sessions rl2) = map rs_ssrc (rl_sessions rl)"
    using update_frame [OF sent(3)] ev by (simp add: rl_frame_def)
  then have n: "length (rl_sessions rl2) = length (rl_sessions rl)" by (metis length_map)
  let ?p0 = "(se_junk env)\<lparr>rp_bitrate := bitrate, rp_n_ssrcs := 0\<rparr>"
  have p: "p = ?p0\<lparr>rp_ssrcs := map rs_ssrc (rl_sessions rl) @ drop (length (rl_sessions rl)) (rp_ssrcs (se_junk env)),
        rp_n_ssrcs := of_nat (length (rl_sessions rl))\<rparr>"
    using sent(5) each_add_spec [of ?p0 "rl_sessions rl2" "rl2\<lparr>rl_remb_sent := bitrate\<rparr>"] junk few n ss by simp
  have cnt: "unat (of_nat (length (rl_sessions rl)) :: u8) = length (rl_sessions rl)"
    using few by (simp add: REMB_MAX_SSRCS_COUNT_def unat_of_nat)
  obtain base where "rl4 = rl2\<lparr>rl_remb_sent := bitrate, rl_base := base\<rparr>" using each_add_frame [OF sent(5)] by blast
  then have br: "rl_remb_sent rl' = bitrate" using sent(7) by simp
  have m: "kms_rtcp_psfb_afb_remb_marshall_packet (se_grow env) blank_fb p (se_internal_ssrc env) = Inr (pkt, True)"
    using sent(6,8) by (cases ok) simp_all
  have len: "length (rp_ssrcs p) = REMB_MAX_SSRCS_COUNT" using p junk few by simp
  obtain p' q' e where r: "kms_rtcp_psfb_afb_remb_marshall_packet (se_grow env) blank_fb p (se_internal_ssrc env) = Inr (p', True)"
    "kms_rtcp_psfb_afb_get_packet (mapped (fb_fci p')) = (AFB_TYPE_REMB, True)"
    "kms_rtcp_psfb_afb_remb_get_packet (mapped (fb_fci p')) AFB_TYPE_REMB q = Inr (q', True)"
    "rp_n_ssrcs q' = rp_n_ssrcs p" "take (unat (rp_n_ssrcs p)) (rp_ssrcs q') = take (unat (rp_n_ssrcs p)) (rp_ssrcs p)"
    "unat (rp_bitrate q') = unat (rp_bitrate p) div 2 ^ e * 2 ^ e" "\<forall>j < e. 262143 * 2 ^ j < unat (rp_bitrate p)"
    using marshalled_is_read [OF law _ _ len q marshalled_grew [OF m]] top br p by (auto simp: blank_fb_def)
  have "p' = pkt" using r(1) m by simp
  then have "remb_message (fb_fci pkt) q q'"
    using r(2,3) by (simp add: remb_message_def split: if_split_asm)
  moreover have "packet_ssrcs q' = map rs_ssrc (rl_sessions rl)"
    using r(4,5) p cnt by (simp add: packet_ssrcs_def)
  moreover have "rp_bitrate p = rl_remb_sent rl'" using p br by simp
  ultimately show ?thesis using r(6,7) by (intro exI [of _ q'] exI [of _ e]) simp
qed


lemma one_packet:
  "\<exists>rl' pkt. kms_remb_local_on_sending_rtcp one_env [] (one_session 0) = Inr (rl', [] @ [pkt], True) \<and>
    unat (rl_remb_sent rl') \<le> REMB_TOP"
proof -
  obtain rl' buf' where run: "kms_remb_local_on_sending_rtcp one_env [] (one_session 0) = Inr (rl', buf', True)"
    using one_sends by blast
  from run show ?thesis
  proof (cases rule: sending_cases)
    case quiet
    then show ?thesis by simp
  next
    case (sent rl1 rl2 bitrate rl4 p pkt ok)
    have sane: "rl_sane rl1" using one_update [of 0] sent(3) by (simp add: one_env_def)
    have "rl_min_bw rl1 = 0"
      using update_frame [OF sent(3)]
      by (simp add: rl_frame_def one_session_def kms_remb_local_add_remote_session_def kms_remb_local_create_def)
    then have br: "unat bitrate \<le> REMB_TOP"
      using announced_bitrate_spec(3) [OF sent(4)] sane
      by (auto simp: rl_sane_def word_le_nat_alt REMB_TOP_def REMB_MIN_def)
    obtain base where "rl4 = rl2\<lparr>rl_remb_sent := bitrate, rl_base := base\<rparr>"
      using each_add_frame [OF sent(5)] by blast
    then have val: "rl_remb_sent rl' = bitrate" using sent(7) by simp
    have "rp_bitrate p = bitrate" using each_add_frame [OF sent(5)] by simp
    then obtain m e where "compute_mantissa_and_6_bit_base_2_expoonent (rp_bitrate p) 18 = Inr (Some (m, e))"
      using compute_mantissa_fits [of bitrate] br by auto
    then have ok
      using sent(6)
      by (auto simp: kms_rtcp_psfb_afb_remb_marshall_packet_def Let_def one_env_def roomy_def bind_result_Inr_iff)
    then show ?thesis using run sent(8) val br by auto
  qed
qed


end
